(* ===== verification/Prelude.thy ===== *)
theory Prelude
  imports Main "HOL-Library.Word"
begin

text \<open>
  The ground the component theories share: names for the machine types of the Go
  source, the development's collections of rewrite rules, and the generic facts about
  lists that several components use.  Go's \<open>string\<close> and \<open>[]byte\<close> are lists of bytes;
  a Go map is a partial function; an \<open>error\<close> result is a sum with the error on the left.
\<close>

unbundle bit_operations_syntax

subsection \<open>Machine types\<close>

type_synonym u8 = "8 word"
type_synonym u16 = "16 word"
type_synonym u32 = "32 word"
type_synonym u64 = "64 word"

text \<open>Times and durations are nanoseconds; the zero \<open>time.Time\<close> is \<open>None\<close>.\<close>

type_synonym duration = int
type_synonym time = "int option"

text \<open>\<open>float64\<close> values are their IEEE bit patterns.\<close>

type_synonym f64 = "64 word"

subsection \<open>Rule collections\<close>

named_theorems codec_simps \<open>byte-level readers and writers\<close>
named_theorems go_simps \<open>Go string primitives\<close>

subsection \<open>Lists\<close>

lemma take_drop_prefix [simp]:
  "take (length ys) (drop (length xs) (xs @ ys @ zs)) = ys"
  by simp

lemma sorted_wrt_map_mono:
  "(\<And>x y. P x y \<Longrightarrow> Q (f x) (f y)) \<Longrightarrow> sorted_wrt P xs \<Longrightarrow> sorted_wrt Q (map f xs)"
  by (induction xs) auto

lemma foldl_append_concat:
  "foldl (\<lambda>acc x. acc @ f x) acc xs = acc @ concat (map f xs)"
  by (induction xs arbitrary: acc) auto

lemma sum_list_pos_iff: "0 < sum_list (map f xs) \<longleftrightarrow> (\<exists>x \<in> set xs. 0 < (f x :: nat))"
  by (induction xs) auto

lemma list_all_upd:
  "list_all P xs \<Longrightarrow> P y \<Longrightarrow> list_all P (xs[i := y])"
  by (induction xs arbitrary: i) (auto split: nat.splits)

lemma set_map_filter: "set (List.map_filter f xs) = {y. \<exists>x \<in> set xs. f x = Some y}"
  by (force simp: List.map_filter_def)

subsection \<open>Maps\<close>

text \<open>A Go map as the list of its entries with distinct keys, the newest last: the assignment.\<close>

definition set_entry :: "'k \<Rightarrow> 'v \<Rightarrow> ('k \<times> 'v) list \<Rightarrow> ('k \<times> 'v) list" where
  "set_entry k v m = (if map_of m k = None then m @ [(k, v)] else map (\<lambda>(x, w). if x = k then (x, v) else (x, w)) m)"

lemma set_entry_keys: "distinct (map fst m) \<Longrightarrow> distinct (map fst (set_entry k v m))"
proof (cases "map_of m k")
  case None
  then show "distinct (map fst m) \<Longrightarrow> ?thesis" by (simp add: set_entry_def map_of_eq_None_iff)
next
  case (Some w)
  have keys: "map fst (map (\<lambda>(x, w). if x = k then (x, v) else (x, w)) m) = map fst m" by (induction m) auto
  assume "distinct (map fst m)"
  then show ?thesis using Some by (simp only: set_entry_def option.simps if_False keys)
qed

lemma set_entry_map_of: "map_of (set_entry k v m) = (map_of m)(k \<mapsto> v)"
proof (cases "map_of m k")
  case None
  then show ?thesis by (auto simp: set_entry_def map_add_def fun_eq_iff split: option.splits)
next
  case (Some w)
  have "map_of (map (\<lambda>(x, w). if x = k then (x, v) else (x, w)) m) x = (if x = k \<and> map_of m k \<noteq> None then Some v else map_of m x)" for x
    by (induction m) auto
  then show ?thesis using Some by (auto simp: set_entry_def)
qed

end
