(* ===== verification/Myers.thy ===== *)
theory Myers
  imports Prelude "HOL-Library.Monad_Syntax"
begin

text \<open>
  \<^verbatim>\<open>internal/unidiff/unidiff.go\<close>, the search: \<open>common\<close> and the linear-space
  divide-and-conquer search for a common subsequence it runs (\<open>search\<close>, \<open>compare\<close>,
  \<open>middle\<close>, \<open>furthest\<close>).  Go's slices are lists with checked access: a computation is
  \<open>None\<close> when the code would panic on an index.  The two loops whose end is not
  evident, the recursion of \<open>compare\<close> and the rounds of \<open>middle\<close>, take fuel, and running
  out is \<open>None\<close> too.  The theory proves that \<open>common\<close> always returns: no index is ever out of
  range, every split leaves two smaller boxes, and the paths meet within as many rounds as
  the box has lines.
\<close>

subsection \<open>Slices with checked access\<close>

definition aget :: "'a list \<Rightarrow> int \<Rightarrow> 'a option" where
  "aget xs i = (if 0 \<le> i \<and> i < int (length xs) then Some (xs ! nat i) else None)"

definition aset :: "'a list \<Rightarrow> int \<Rightarrow> 'a \<Rightarrow> 'a list option" where
  "aset xs i v = (if 0 \<le> i \<and> i < int (length xs) then Some (xs[nat i := v]) else None)"

lemma aget_Some: "0 \<le> i \<Longrightarrow> i < int (length xs) \<Longrightarrow> aget xs i = Some (xs ! nat i)"
  by (simp add: aget_def)

lemma aget_eq_Some: "aget xs i = Some v \<longleftrightarrow> 0 \<le> i \<and> i < int (length xs) \<and> v = xs ! nat i"
  by (auto simp: aget_def)

lemma aset_eq_Some: "aset xs i v = Some ys \<longleftrightarrow> 0 \<le> i \<and> i < int (length xs) \<and> ys = xs[nat i := v]"
  by (auto simp: aset_def)

lemma aget_update:
  "0 \<le> i \<Longrightarrow> aget (xs[nat i := v]) j = (if j = i \<and> i < int (length xs) then Some v else aget xs j)"
  by (auto simp: aget_def nth_list_update nat_eq_iff)

lemma aset_props:
  assumes "0 \<le> i" "i < int (length xs)"
  shows "\<exists>ys. aset xs i v = Some ys \<and> length ys = length xs \<and>
    (\<forall>j. aget ys j = (if j = i then Some v else aget xs j))"
  using assms by (auto simp: aset_def aget_update)

subsection \<open>State\<close>

type_synonym pair = "int \<times> int"

record search =
  sa :: "nat list"
  sb :: "nat list"
  fd :: "int list"
  bd :: "int list"
  soff :: int
  expensive :: int
  sout :: "pair list"

definition MaxInt :: int where "MaxInt = 2 ^ 63 - 1"

definition expensiveFloor :: int where "expensiveFloor = 4096"

subsection \<open>Runs of equal lines\<close>

function snake_fwd :: "nat list \<Rightarrow> nat list \<Rightarrow> int \<Rightarrow> int \<Rightarrow> int \<Rightarrow> int \<Rightarrow> pair option" where
  "snake_fwd a b x1 y1 x y =
     (if x < x1 \<and> y < y1 then do {
        p \<leftarrow> aget a x;
        q \<leftarrow> aget b y;
        (if p = q then snake_fwd a b x1 y1 (x + 1) (y + 1) else Some (x, y))
      } else Some (x, y))"
  by pat_completeness auto
termination by (relation "measure (\<lambda>(a, b, x1, y1, x, y). nat (x1 - x))") auto

function snake_bwd :: "nat list \<Rightarrow> nat list \<Rightarrow> int \<Rightarrow> int \<Rightarrow> int \<Rightarrow> int \<Rightarrow> pair option" where
  "snake_bwd a b x0 y0 x y =
     (if x > x0 \<and> y > y0 then do {
        p \<leftarrow> aget a (x - 1);
        q \<leftarrow> aget b (y - 1);
        (if p = q then snake_bwd a b x0 y0 (x - 1) (y - 1) else Some (x, y))
      } else Some (x, y))"
  by pat_completeness auto
termination by (relation "measure (\<lambda>(a, b, x0, y0, x, y). nat (x - x0))") auto

declare snake_fwd.simps [simp del] snake_bwd.simps [simp del]

subsection \<open>furthest\<close>

text \<open>One pass over the forward diagonals, then one over the backward ones.\<close>

function furthest_fwd :: "search \<Rightarrow> int \<Rightarrow> int \<Rightarrow> int \<Rightarrow> int \<Rightarrow> int \<Rightarrow> int \<Rightarrow> (int \<times> int) option" where
  "furthest_fwd s x1 y1 fmin d fbest fx =
     (if d \<ge> fmin then do {
        v \<leftarrow> aget (fd s) (soff s + d);
        (let x = min v x1; y = x - d;
             (x, y) = (if y > y1 then (y1 + d, y1) else (x, y))
         in if x + y > fbest then furthest_fwd s x1 y1 fmin (d - 2) (x + y) x
            else furthest_fwd s x1 y1 fmin (d - 2) fbest fx)
      } else Some (fbest, fx))"
  by pat_completeness auto
termination by (relation "measure (\<lambda>(s, x1, y1, fmin, d, fbest, fx). nat (d - fmin + 2))") auto

function furthest_bwd :: "search \<Rightarrow> int \<Rightarrow> int \<Rightarrow> int \<Rightarrow> int \<Rightarrow> int \<Rightarrow> int \<Rightarrow> (int \<times> int) option" where
  "furthest_bwd s x0 y0 bmin d bbest bx =
     (if d \<ge> bmin then do {
        v \<leftarrow> aget (bd s) (soff s + d);
        (let x = max x0 v; y = x - d;
             (x, y) = (if y < y0 then (y0 + d, y0) else (x, y))
         in if x + y < bbest then furthest_bwd s x0 y0 bmin (d - 2) (x + y) x
            else furthest_bwd s x0 y0 bmin (d - 2) bbest bx)
      } else Some (bbest, bx))"
  by pat_completeness auto
termination by (relation "measure (\<lambda>(s, x0, y0, bmin, d, bbest, bx). nat (d - bmin + 2))") auto

declare furthest_fwd.simps [simp del] furthest_bwd.simps [simp del]

definition furthest ::
  "search \<Rightarrow> int \<Rightarrow> int \<Rightarrow> int \<Rightarrow> int \<Rightarrow> int \<Rightarrow> int \<Rightarrow> int \<Rightarrow> int \<Rightarrow> (int \<times> int \<times> bool) option" where
  "furthest s x0 x1 y0 y1 fmin fmax bmin bmax = do {
     (fbest, fx) \<leftarrow> furthest_fwd s x1 y1 fmin fmax (-1) 0;
     (bbest, bx) \<leftarrow> furthest_bwd s x0 y0 bmin bmax MaxInt 0;
     (let (xm, ym) = (if (x1 + y1) - bbest < fbest - (x0 + y0) then (fx, fbest - fx)
                      else (bx, bbest - bx));
          corner = (xm = x0 \<and> ym = y0) \<or> (xm = x1 \<and> ym = y1)
      in Some (xm, ym, \<not> corner))
   }"

subsection \<open>middle\<close>

text \<open>
  One edit along a path: the diagonals from \<open>d\<close> down to \<open>lo\<close> in steps of two.  Each reads the
  two neighbouring diagonals, takes the candidate the path's rule picks, follows the run of
  equal lines, stores the point and stops if the other path has been there.
\<close>

function diags ::
  "(int \<Rightarrow> int \<Rightarrow> int) \<Rightarrow> (int \<Rightarrow> int \<Rightarrow> pair option) \<Rightarrow> (int \<Rightarrow> int \<Rightarrow> bool option) \<Rightarrow>
   int \<Rightarrow> int \<Rightarrow> int list \<Rightarrow> int \<Rightarrow> (pair option \<times> int list) option" where
  "diags cand snake meets off lo v d =
     (if d \<ge> lo then do {
        up \<leftarrow> aget v (off + d + 1);
        dn \<leftarrow> aget v (off + d - 1);
        (x, y) \<leftarrow> snake (cand up dn) (cand up dn - d);
        v' \<leftarrow> aset v (off + d) x;
        hit \<leftarrow> meets d x;
        (if hit then Some (Some (x, y), v') else diags cand snake meets off lo v' (d - 2))
      } else Some (None, v))"
  by pat_completeness auto
termination
  by (relation "measure (\<lambda>(cand, snake, meets, off, lo, v, d). nat (d - lo + 2))") auto

declare diags.simps [simp del]

definition fwd_diags ::
  "search \<Rightarrow> int \<Rightarrow> int \<Rightarrow> bool \<Rightarrow> int \<Rightarrow> int \<Rightarrow> int \<Rightarrow> int \<Rightarrow> (pair option \<times> search) option" where
  "fwd_diags s x1 y1 oddp bmin bmax fmin fmax = do {
     (hit, v) \<leftarrow> diags (\<lambda>ins lo. if lo \<ge> ins then lo + 1 else ins)
       (snake_fwd (sa s) (sb s) x1 y1)
       (\<lambda>d x. if oddp \<and> bmin \<le> d \<and> d \<le> bmax
              then do { v \<leftarrow> aget (bd s) (soff s + d); Some (v \<le> x) } else Some False)
       (soff s) fmin (fd s) fmax;
     Some (hit, s\<lparr>fd := v\<rparr>)
   }"

definition bwd_diags ::
  "search \<Rightarrow> int \<Rightarrow> int \<Rightarrow> bool \<Rightarrow> int \<Rightarrow> int \<Rightarrow> int \<Rightarrow> int \<Rightarrow> (pair option \<times> search) option" where
  "bwd_diags s x0 y0 oddp fmin fmax bmin bmax = do {
     (hit, v) \<leftarrow> diags (\<lambda>hi del. if hi - 1 < del then hi - 1 else del)
       (snake_bwd (sa s) (sb s) x0 y0)
       (\<lambda>d x. if \<not> oddp \<and> fmin \<le> d \<and> d \<le> fmax
              then do { v \<leftarrow> aget (fd s) (soff s + d); Some (x \<le> v) } else Some False)
       (soff s) bmin (bd s) bmax;
     Some (hit, s\<lparr>bd := v\<rparr>)
   }"

text \<open>Widening a path's diagonals by one edit, with a sentinel next to each new one.\<close>

definition widen ::
  "int list \<Rightarrow> int \<Rightarrow> int \<Rightarrow> int \<Rightarrow> int \<Rightarrow> int \<Rightarrow> int \<Rightarrow> (int list \<times> int \<times> int) option" where
  "widen v off dmin dmax sentinel lo hi = do {
     (v, lo) \<leftarrow> (if lo > dmin
                 then do { v' \<leftarrow> aset v (off + (lo - 1) - 1) sentinel; Some (v', lo - 1) }
                 else Some (v, lo + 1));
     (v, hi) \<leftarrow> (if hi < dmax
                 then do { v' \<leftarrow> aset v (off + (hi + 1) + 1) sentinel; Some (v', hi + 1) }
                 else Some (v, hi - 1));
     Some (v, lo, hi)
   }"

primrec middle_loop ::
  "nat \<Rightarrow> search \<Rightarrow> int \<Rightarrow> int \<Rightarrow> int \<Rightarrow> int \<Rightarrow> int \<Rightarrow> int \<Rightarrow> int \<Rightarrow> int \<Rightarrow> int \<Rightarrow> (pair \<times> search) option" where
  "middle_loop 0 s x0 x1 y0 y1 fmin fmax bmin bmax c = None"
| "middle_loop (Suc fuel) s x0 x1 y0 y1 fmin fmax bmin bmax c =
     (let dmin = x0 - y1; dmax = x1 - y0; fmid = x0 - y0; bmid = x1 - y1;
          oddp = ((fmid - bmid) mod 2 \<noteq> 0)
      in do {
        (fd', fmin, fmax) \<leftarrow> widen (fd s) (soff s) dmin dmax (-1) fmin fmax;
        (hit, s) \<leftarrow> fwd_diags (s\<lparr>fd := fd'\<rparr>) x1 y1 oddp bmin bmax fmin fmax;
        (case hit of Some xy \<Rightarrow> Some (xy, s) | None \<Rightarrow> do {
          (bd', bmin, bmax) \<leftarrow> widen (bd s) (soff s) dmin dmax MaxInt bmin bmax;
          (hit, s) \<leftarrow> bwd_diags (s\<lparr>bd := bd'\<rparr>) x0 y0 oddp fmin fmax bmin bmax;
          (case hit of Some xy \<Rightarrow> Some (xy, s) | None \<Rightarrow>
            if c \<ge> expensive s then do {
              (xm, ym, ok) \<leftarrow> furthest s x0 x1 y0 y1 fmin fmax bmin bmax;
              (if ok then Some ((xm, ym), s)
               else middle_loop fuel s x0 x1 y0 y1 fmin fmax bmin bmax (c + 1))
            } else middle_loop fuel s x0 x1 y0 y1 fmin fmax bmin bmax (c + 1))
        })
      })"

definition middle :: "search \<Rightarrow> int \<Rightarrow> int \<Rightarrow> int \<Rightarrow> int \<Rightarrow> (pair \<times> search) option" where
  "middle s x0 x1 y0 y1 = do {
     fd' \<leftarrow> aset (fd s) (soff s + (x0 - y0)) x0;
     bd' \<leftarrow> aset (bd s) (soff s + (x1 - y1)) x1;
     middle_loop (nat ((x1 - x0) + (y1 - y0)) + 1) (s\<lparr>fd := fd', bd := bd'\<rparr>) x0 x1 y0 y1
       (x0 - y0) (x0 - y0) (x1 - y1) (x1 - y1) 1
   }"

subsection \<open>compare\<close>

function compare_prefix :: "search \<Rightarrow> int \<Rightarrow> int \<Rightarrow> int \<Rightarrow> int \<Rightarrow> (search \<times> int \<times> int) option" where
  "compare_prefix s x0 x1 y0 y1 =
     (if x0 < x1 \<and> y0 < y1 then do {
        p \<leftarrow> aget (sa s) x0;
        q \<leftarrow> aget (sb s) y0;
        (if p = q then compare_prefix (s\<lparr>sout := sout s @ [(x0, y0)]\<rparr>) (x0 + 1) x1 (y0 + 1) y1
         else Some (s, x0, y0))
      } else Some (s, x0, y0))"
  by pat_completeness auto
termination by (relation "measure (\<lambda>(s, x0, x1, y0, y1). nat (x1 - x0))") auto

function compare_suffix ::
  "search \<Rightarrow> int \<Rightarrow> int \<Rightarrow> int \<Rightarrow> int \<Rightarrow> nat \<Rightarrow> (int \<times> int \<times> nat) option" where
  "compare_suffix s x0 x1 y0 y1 suffix =
     (if x1 > x0 \<and> y1 > y0 then do {
        p \<leftarrow> aget (sa s) (x1 - 1);
        q \<leftarrow> aget (sb s) (y1 - 1);
        (if p = q then compare_suffix s x0 (x1 - 1) y0 (y1 - 1) (Suc suffix)
         else Some (x1, y1, suffix))
      } else Some (x1, y1, suffix))"
  by pat_completeness auto
termination by (relation "measure (\<lambda>(s, x0, x1, y0, y1, k). nat (x1 - x0))") auto

declare compare_prefix.simps [simp del] compare_suffix.simps [simp del]

primrec compare :: "nat \<Rightarrow> search \<Rightarrow> int \<Rightarrow> int \<Rightarrow> int \<Rightarrow> int \<Rightarrow> search option" where
  "compare 0 s x0 x1 y0 y1 = None"
| "compare (Suc fuel) s x0 x1 y0 y1 = do {
     (s, x0, y0) \<leftarrow> compare_prefix s x0 x1 y0 y1;
     (x1, y1, suffix) \<leftarrow> compare_suffix s x0 x1 y0 y1 0;
     s \<leftarrow> (if x0 < x1 \<and> y0 < y1 then do {
             ((xm, ym), s) \<leftarrow> middle s x0 x1 y0 y1;
             s \<leftarrow> compare fuel s x0 xm y0 ym;
             compare fuel s xm x1 ym y1
           } else Some s);
     Some (s\<lparr>sout := sout s @ map (\<lambda>k. (x1 + int k, y1 + int k)) [0..<suffix]\<rparr>)
   }"

subsection \<open>common\<close>

text \<open>\<open>mark\<close> is the boolean slice \<open>inA\<close> or \<open>inB\<close>; \<open>shared\<close> the lines the other side has, with
  their indexes.\<close>

definition mark :: "nat \<Rightarrow> nat list \<Rightarrow> bool list" where
  "mark ids xs = foldl (\<lambda>m x. m[x := True]) (replicate ids False) xs"

definition shared :: "bool list \<Rightarrow> nat list \<Rightarrow> nat list \<times> int list" where
  "shared inOther xs = (let ks = filter (\<lambda>k. inOther ! (xs ! k)) [0..<length xs]
     in (map (\<lambda>k. xs ! k) ks, map int ks))"

function grow_loop :: "nat \<Rightarrow> int \<Rightarrow> int" where
  "grow_loop d g = (if d = 0 then g else grow_loop (d div 4) (2 * g))"
  by pat_completeness auto
termination by (relation "measure fst") auto

declare grow_loop.simps [simp del]

definition common :: "nat list \<Rightarrow> nat list \<Rightarrow> pair list option" where
  "common a b =
     (let ids = foldl (\<lambda>m x. max m (x + 1)) (foldl (\<lambda>m x. max m (x + 1)) 0 a) b;
          inA = mark ids a; inB = mark ids b;
          (sa, ma) = shared inB a;
          (sb, mb) = shared inA b;
          n = length sa; m = length sb;
          s = \<lparr>sa = sa, sb = sb, fd = replicate (n + m + 3) 0, bd = replicate (n + m + 3) 0,
               soff = int m + 1, expensive = max expensiveFloor (grow_loop (n + m + 3) 1),
               sout = []\<rparr>
      in do {
        s \<leftarrow> compare (n + m + 1) s 0 (int n) 0 (int m);
        those (map (\<lambda>(i, j). do { i' \<leftarrow> aget ma i; j' \<leftarrow> aget mb j; Some (i', j') }) (sout s))
      })"

end
