(* ===== verification/MyersSearch.thy ===== *)
theory MyersSearch
  imports Myers
begin

text \<open>
  The search of \<^verbatim>\<open>internal/unidiff/unidiff.go\<close> always ends and never leaves its box.  A path's
  furthest points are kept as a function from diagonals; \<open>front\<close> states how far a point beyond
  the right or the lower edge of the box must be from the diagonals the other path covers,
  which is what puts the meeting point back inside.  The backward path is the forward one
  under negation (\<open>neg\<close>), so one lemma serves both.
\<close>

subsection \<open>Frontiers\<close>

definition diag :: "int \<Rightarrow> int \<Rightarrow> int \<Rightarrow> bool" where
  "diag lo hi d \<longleftrightarrow> lo \<le> d \<and> d \<le> hi \<and> even (d - lo)"

definition front :: "int \<Rightarrow> int \<Rightarrow> int \<Rightarrow> int \<Rightarrow> (int \<Rightarrow> int) \<Rightarrow> int \<Rightarrow> int \<Rightarrow> bool" where
  "front X Y lo hi F blo bhi \<longleftrightarrow> (\<forall>d. diag lo hi d \<longrightarrow>
     (F d \<ge> X \<longrightarrow> d \<ge> bhi + 2 + 2 * (F d - X)) \<and>
     (F d - d \<ge> Y \<longrightarrow> d \<le> blo - 2 - 2 * (F d - d - Y)) \<and>
     (F d > X \<longrightarrow> diag lo hi (d - 2) \<and> F (d - 2) \<ge> F d - 1) \<and>
     (F d - d > Y \<longrightarrow> diag lo hi (d + 2) \<and> F (d + 2) - (d + 2) \<ge> F d - d - 1))"

definition widened :: "int \<Rightarrow> int \<Rightarrow> int \<Rightarrow> int \<Rightarrow> int \<Rightarrow> int \<Rightarrow> bool" where
  "widened dmin dmax lo hi lo' hi' \<longleftrightarrow>
     lo' = (if lo > dmin then lo - 1 else lo + 1) \<and> hi' = (if hi < dmax then hi + 1 else hi - 1)"

definition edit1 :: "int \<Rightarrow> int \<Rightarrow> (int \<Rightarrow> int) \<Rightarrow> int \<Rightarrow> int \<Rightarrow> bool" where
  "edit1 lo hi F d k \<longleftrightarrow>
     (diag lo hi (d - 1) \<longrightarrow> F (d - 1) + 1 \<le> k) \<and> (diag lo hi (d + 1) \<longrightarrow> F (d + 1) \<le> k) \<and>
     (diag lo hi (d - 1) \<and> k = F (d - 1) + 1 \<or> diag lo hi (d + 1) \<and> k = F (d + 1))"

definition round1 :: "int \<Rightarrow> int \<Rightarrow> int \<Rightarrow> int \<Rightarrow> (int \<Rightarrow> int) \<Rightarrow> int \<Rightarrow> int \<Rightarrow> bool" where
  "round1 X Y lo hi F d v \<longleftrightarrow> (\<exists>k. edit1 lo hi F d k \<and> k \<le> v \<and>
     (k < v \<longrightarrow> v \<le> X \<and> v - d \<le> Y \<and> \<not> (v = X \<and> v - d = Y)))"

lemma round1_x:
  assumes "round1 X Y lo hi F d v" "v > X"
  shows "(diag lo hi (d - 1) \<and> v = F (d - 1) + 1 \<or> diag lo hi (d + 1) \<and> v = F (d + 1))"
  using assms by (auto simp: round1_def edit1_def)

lemma round1_y:
  assumes "round1 X Y lo hi F d v" "v - d > Y"
  shows "(diag lo hi (d - 1) \<and> v = F (d - 1) + 1 \<or> diag lo hi (d + 1) \<and> v = F (d + 1))"
  using assms by (auto simp: round1_def edit1_def)

lemma round1_below:
  assumes "round1 X Y lo hi F d v" "diag lo hi (d + 1)"
  shows "F (d + 1) \<le> v"
  using assms by (auto simp: round1_def edit1_def)

lemma round1_left:
  assumes "round1 X Y lo hi F d v" "diag lo hi (d - 1)"
  shows "F (d - 1) + 1 \<le> v"
  using assms by (auto simp: round1_def edit1_def)

lemma frontD:
  assumes "front X Y lo hi F blo bhi" "diag lo hi d"
  shows "F d \<ge> X \<Longrightarrow> d \<ge> bhi + 2 + 2 * (F d - X)"
    and "F d - d \<ge> Y \<Longrightarrow> d \<le> blo - 2 - 2 * (F d - d - Y)"
    and "F d > X \<Longrightarrow> diag lo hi (d - 2) \<and> F (d - 2) \<ge> F d - 1"
    and "F d - d > Y \<Longrightarrow> diag lo hi (d + 2) \<and> F (d + 2) - (d + 2) \<ge> F d - d - 1"
  using assms by (auto simp: front_def)

lemma hit_in_box:
  assumes fr: "front X Y lo hi F blo bhi"
    and r: "round1 X Y lo hi F d v"
    and b: "blo \<le> X - Y" "X - Y \<le> bhi" "bhi' \<le> bhi + 1" "blo - 1 \<le> blo'"
    and d: "blo' \<le> d" "d \<le> bhi'"
  shows "v \<le> X \<and> v - d \<le> Y \<and> \<not> (v = X \<and> v - d = Y)"
proof (intro conjI notI)
  show "v \<le> X"
  proof (rule ccontr)
    assume "\<not> v \<le> X"
    then show False
      using round1_x[OF r] frontD(1)[OF fr, of "d - 1"] frontD(1)[OF fr, of "d + 1"] b d by force
  qed
  show "v - d \<le> Y"
  proof (rule ccontr)
    assume "\<not> v - d \<le> Y"
    then show False
      using round1_y[OF r] frontD(2)[OF fr, of "d - 1"] frontD(2)[OF fr, of "d + 1"] b d by force
  qed
next
  assume c: "v = X \<and> v - d = Y"
  then have "diag lo hi (d - 1) \<and> v = F (d - 1) + 1 \<or> diag lo hi (d + 1) \<and> v = F (d + 1)"
    using r by (auto simp: round1_def edit1_def)
  then show False
    using c frontD(2)[OF fr, of "d - 1"] frontD(1)[OF fr, of "d + 1"] b by force
qed

lemma beyond_both:
  assumes fr: "front X Y lo hi F blo bhi"
    and r: "round1 X Y lo hi F d v"
    and b: "blo \<le> X - Y" "X - Y \<le> bhi"
  shows "\<not> (v \<ge> X \<and> v - d > Y)" "\<not> (v > X \<and> v - d \<ge> Y)"
proof -
  show "\<not> (v \<ge> X \<and> v - d > Y)"
    using round1_y[OF r] frontD(2)[OF fr, of "d - 1"] frontD(2)[OF fr, of "d + 1"] b by force
  show "\<not> (v > X \<and> v - d \<ge> Y)"
    using round1_x[OF r] frontD(1)[OF fr, of "d - 1"] frontD(1)[OF fr, of "d + 1"] b by force
qed
lemma diagI: "lo \<le> d \<Longrightarrow> d \<le> hi \<Longrightarrow> even (d - lo) \<Longrightarrow> diag lo hi d"
  by (simp add: diag_def)

text \<open>A frontier that passed the right edge at \<open>d\<close> also passed it two diagonals below.\<close>

lemma trail_x:
  assumes fr: "front X Y lo hi F blo bhi" and w: "widened dmin dmax lo hi lo' hi'"
    and rnd: "\<And>d. diag lo' hi' d \<Longrightarrow> round1 X Y lo hi F d (F' d)"
    and b: "dmin < bhi" "dmin \<le> lo"
    and d: "diag lo' hi' d" "F' d > X"
  shows "diag lo' hi' (d - 2) \<and> F' (d - 2) \<ge> F' d - 1"
proof -
  have p: "diag lo hi (d - 1) \<and> F (d - 1) \<ge> X \<and> F (d - 1) \<ge> F' d - 1"
    using round1_x[OF rnd[OF d(1)] d(2)] frontD(3)[OF fr, of "d + 1"] d(2) by auto
  then have "d - 1 \<ge> bhi + 2" using frontD(1)[OF fr, of "d - 1"] by auto
  then have "lo' \<le> d - 2" using p b w by (auto simp: widened_def diag_def; presburger)
  then have "diag lo' hi' (d - 2)" using d(1) by (auto simp: diag_def)
  moreover from this have "F' (d - 2) \<ge> F (d - 1)"
    using round1_below[OF rnd, of "d - 2"] p by simp
  ultimately show ?thesis using p by simp
qed

lemma trail_y:
  assumes fr: "front X Y lo hi F blo bhi" and w: "widened dmin dmax lo hi lo' hi'"
    and rnd: "\<And>d. diag lo' hi' d \<Longrightarrow> round1 X Y lo hi F d (F' d)"
    and b: "blo < dmax" "hi \<le> dmax" "even (hi - lo)"
    and d: "diag lo' hi' d" "F' d - d > Y"
  shows "diag lo' hi' (d + 2) \<and> F' (d + 2) - (d + 2) \<ge> F' d - d - 1"
proof -
  have p: "diag lo hi (d + 1) \<and> F (d + 1) - (d + 1) \<ge> Y \<and> F (d + 1) - (d + 1) \<ge> F' d - d - 1"
  proof -
    have "F (d - 1) - (d - 1) > Y \<Longrightarrow> diag lo hi (d - 1) \<Longrightarrow>
      diag lo hi (d + 1) \<and> F (d + 1) - (d + 1) \<ge> F (d - 1) - (d - 1) - 1"
      using frontD(4)[OF fr, of "d - 1"] by (simp add: algebra_simps)
    then show ?thesis using round1_y[OF rnd[OF d(1)] d(2)] d(2) by fastforce
  qed
  then have "d + 1 \<le> blo - 2" using frontD(2)[OF fr, of "d + 1"] by auto
  then have "d + 2 \<le> hi'" using p b w by (auto simp: widened_def diag_def; presburger)
  then have "diag lo' hi' (d + 2)" using d(1) by (auto simp: diag_def)
  moreover from this have "F' (d + 2) \<ge> F (d + 1) + 1"
    using round1_left[OF rnd, of "d + 2"] p by (simp add: algebra_simps)
  ultimately show ?thesis using p by simp
qed

lemma front_step:
  assumes fr: "front X Y lo hi F blo bhi" and w: "widened dmin dmax lo hi lo' hi'"
    and rnd: "\<And>d. diag lo' hi' d \<Longrightarrow> round1 X Y lo hi F d (F' d)"
    and r: "dmin \<le> lo" "hi \<le> dmax" "even (hi - lo)" "dmin < X - Y" "X - Y < dmax"
    and b: "blo \<le> X - Y" "X - Y \<le> bhi" "blo' \<le> X - Y" "X - Y \<le> bhi'"
    and par: "even (bhi' - blo')" "even (lo' - blo')"
    and nohit: "\<And>d. diag lo' hi' d \<Longrightarrow> blo' \<le> d \<Longrightarrow> d \<le> bhi' \<Longrightarrow> F' d < X \<and> F' d - d < Y"
  shows "front X Y lo' hi' F' blo' bhi'"
proof -
  have tx: "diag lo' hi' (d - 2) \<and> F' (d - 2) \<ge> F' d - 1" if "diag lo' hi' d" "F' d > X" for d
    using trail_x[OF fr w rnd _ r(1) that] r b by linarith
  have ty: "diag lo' hi' (d + 2) \<and> F' (d + 2) - (d + 2) \<ge> F' d - d - 1"
    if "diag lo' hi' d" "F' d - d > Y" for d
    using trail_y[OF fr w rnd _ r(2,3) that] r b by linarith
  have ux: "d \<ge> bhi' + 2 + 2 * int k" if "diag lo' hi' d" "F' d \<ge> X + int k" for d k
    using that
  proof (induction k arbitrary: d)
    case 0
    then have "d < blo' \<or> bhi' < d" using nohit[of d] by force
    moreover have "\<not> d < blo'"
      using beyond_both(1)[OF fr rnd b(1,2), of d] 0 b(3) by auto
    ultimately have "bhi' < d" by simp
    then show ?case using par 0(1) by (auto simp: diag_def; presburger)
  next
    case (Suc k)
    then have "diag lo' hi' (d - 2)" "F' (d - 2) \<ge> X + int k" using tx[of d] by auto
    from Suc.IH[OF this] show ?case by simp
  qed
  have uy: "d \<le> blo' - 2 - 2 * int k" if "diag lo' hi' d" "F' d - d \<ge> Y + int k" for d k
    using that
  proof (induction k arbitrary: d)
    case 0
    then have "d < blo' \<or> bhi' < d" using nohit[of d] by force
    moreover have "\<not> bhi' < d"
      using beyond_both(2)[OF fr rnd b(1,2), of d] 0 b(4) by auto
    ultimately have "d < blo'" by simp
    then show ?case using par 0(1) by (auto simp: diag_def; presburger)
  next
    case (Suc k)
    then have "diag lo' hi' (d + 2)" "F' (d + 2) - (d + 2) \<ge> Y + int k" using ty[of d] by auto
    from Suc.IH[OF this] show ?case by simp
  qed
  show ?thesis unfolding front_def
  proof (intro allI impI)
    fix d assume d: "diag lo' hi' d"
    show "(X \<le> F' d \<longrightarrow> bhi' + 2 + 2 * (F' d - X) \<le> d) \<and>
         (Y \<le> F' d - d \<longrightarrow> d \<le> blo' - 2 - 2 * (F' d - d - Y)) \<and>
         (X < F' d \<longrightarrow> diag lo' hi' (d - 2) \<and> F' d - 1 \<le> F' (d - 2)) \<and>
         (Y < F' d - d \<longrightarrow> diag lo' hi' (d + 2) \<and> F' d - d - 1 \<le> F' (d + 2) - (d + 2))"
      using tx[OF d] ty[OF d] ux[OF d, of "nat (F' d - X)"] uy[OF d, of "nat (F' d - d - Y)"]
      by auto
  qed
qed
subsection \<open>Lower bounds and ranges\<close>

definition low :: "int \<Rightarrow> int \<Rightarrow> int \<Rightarrow> int \<Rightarrow> (int \<Rightarrow> int) \<Rightarrow> int \<Rightarrow> bool" where
  "low x0 y0 lo hi F c \<longleftrightarrow>
     (\<forall>d. diag lo hi d \<longrightarrow> x0 \<le> F d \<and> y0 \<le> F d - d \<and> x0 + y0 + c \<le> 2 * F d - d)"

definition rng :: "int \<Rightarrow> int \<Rightarrow> int \<Rightarrow> int \<Rightarrow> int \<Rightarrow> int \<Rightarrow> bool" where
  "rng dmin dmax mid lo hi c \<longleftrightarrow>
     dmin \<le> lo \<and> hi \<le> dmax \<and> lo \<le> mid \<and> mid \<le> hi \<and> even (hi - lo) \<and> even (lo - mid - c) \<and>
     (lo \<le> mid - c \<or> lo \<le> dmin + 1) \<and> (hi \<ge> mid + c \<or> hi \<ge> dmax - 1)"

lemma low_edit1: "low x0 y0 lo hi F c \<Longrightarrow> edit1 lo hi F d k \<Longrightarrow>
    x0 \<le> k \<and> y0 \<le> k - d \<and> x0 + y0 + (c + 1) \<le> 2 * k - d"
  by (force simp: low_def edit1_def)

lemma low_round1: "low x0 y0 lo hi F c \<Longrightarrow> round1 X Y lo hi F d v \<Longrightarrow>
    x0 \<le> v \<and> y0 \<le> v - d \<and> x0 + y0 + (c + 1) \<le> 2 * v - d"
  using low_edit1 by (fastforce simp: round1_def)

lemma low_step:
  "low x0 y0 lo hi F c \<Longrightarrow> (\<And>d. diag lo' hi' d \<Longrightarrow> round1 X Y lo hi F d (F' d)) \<Longrightarrow>
    low x0 y0 lo' hi' F' (c + 1)"
  unfolding low_def using low_round1[unfolded low_def] by blast

lemma rng_step:
  "rng dmin dmax mid lo hi c \<Longrightarrow> widened dmin dmax lo hi lo' hi' \<Longrightarrow> dmin < mid \<Longrightarrow> mid < dmax \<Longrightarrow>
    rng dmin dmax mid lo' hi' (c + 1)"
  unfolding rng_def widened_def by (auto split: if_splits)

lemma edit1_exists:
  assumes "even (hi - lo)" "lo \<le> hi" "widened dmin dmax lo hi lo' hi'" "diag lo' hi' d"
  shows "diag lo hi (d - 1) \<or> diag lo hi (d + 1)"
  using assms unfolding widened_def diag_def by (auto split: if_splits; presburger)

subsection \<open>Runs\<close>

lemma snake_fwd_props:
  assumes "0 \<le> x \<or> x \<ge> x1" "0 \<le> y \<or> y \<ge> y1" "x1 \<le> int (length a)" "y1 \<le> int (length b)"
  shows "\<exists>v. snake_fwd a b x1 y1 x y = Some (v, v - (x - y)) \<and> x \<le> v \<and>
    (x < v \<longrightarrow> v \<le> x1 \<and> v - (x - y) \<le> y1 \<and> a ! nat (v - 1) = b ! nat (v - (x - y) - 1))"
  using assms
proof (induction a b x1 y1 x y rule: snake_fwd.induct)
  case (1 a b x1 y1 x y)
  show ?case
  proof (cases "x < x1 \<and> y < y1")
    case True
    with "1.prems" have g: "aget a x = Some (a ! nat x)" "aget b y = Some (b ! nat y)"
      by (auto simp: aget_def)
    show ?thesis
    proof (cases "a ! nat x = b ! nat y")
      case eq: True
      have "\<exists>v. snake_fwd a b x1 y1 (x + 1) (y + 1) = Some (v, v - (x - y)) \<and> x + 1 \<le> v \<and>
        (x + 1 < v \<longrightarrow> v \<le> x1 \<and> v - (x - y) \<le> y1 \<and> a ! nat (v - 1) = b ! nat (v - (x - y) - 1))"
        using "1.IH"[OF True g eq] "1.prems" True by simp
      then obtain v where v: "snake_fwd a b x1 y1 (x + 1) (y + 1) = Some (v, v - (x - y))" "x + 1 \<le> v"
        "x + 1 < v \<Longrightarrow> v \<le> x1 \<and> v - (x - y) \<le> y1 \<and> a ! nat (v - 1) = b ! nat (v - (x - y) - 1)"
        by blast
      have "v \<le> x1 \<and> v - (x - y) \<le> y1 \<and> a ! nat (v - 1) = b ! nat (v - (x - y) - 1)"
        using v(2,3) True eq by (cases "x + 1 = v") auto
      with v(1,2) True g eq show ?thesis
        by (intro exI[of _ v]) (simp add: snake_fwd.simps[of a b x1 y1 x y])
    next
      case False
      with True g show ?thesis by (simp add: snake_fwd.simps[of a b x1 y1 x y])
    qed
  next
    case False
    then show ?thesis by (auto simp: snake_fwd.simps[of a b x1 y1 x y])
  qed
qed

lemma snake_bwd_props:
  assumes "x \<le> int (length a) \<or> x \<le> x0" "y \<le> int (length b) \<or> y \<le> y0" "0 \<le> x0" "0 \<le> y0"
  shows "\<exists>v. snake_bwd a b x0 y0 x y = Some (v, v - (x - y)) \<and> v \<le> x \<and>
    (v < x \<longrightarrow> x0 \<le> v \<and> y0 \<le> v - (x - y) \<and> a ! nat v = b ! nat (v - (x - y)))"
  using assms
proof (induction a b x0 y0 x y rule: snake_bwd.induct)
  case (1 a b x0 y0 x y)
  show ?case
  proof (cases "x > x0 \<and> y > y0")
    case True
    with "1.prems" have g: "aget a (x - 1) = Some (a ! nat (x - 1))" "aget b (y - 1) = Some (b ! nat (y - 1))"
      by (auto simp: aget_def)
    show ?thesis
    proof (cases "a ! nat (x - 1) = b ! nat (y - 1)")
      case eq: True
      have "\<exists>v. snake_bwd a b x0 y0 (x - 1) (y - 1) = Some (v, v - (x - y)) \<and> v \<le> x - 1 \<and>
        (v < x - 1 \<longrightarrow> x0 \<le> v \<and> y0 \<le> v - (x - y) \<and> a ! nat v = b ! nat (v - (x - y)))"
        using "1.IH"[OF True g eq] "1.prems" True by simp
      then obtain v where v: "snake_bwd a b x0 y0 (x - 1) (y - 1) = Some (v, v - (x - y))" "v \<le> x - 1"
        "v < x - 1 \<Longrightarrow> x0 \<le> v \<and> y0 \<le> v - (x - y) \<and> a ! nat v = b ! nat (v - (x - y))"
        by blast
      have "x0 \<le> v \<and> y0 \<le> v - (x - y) \<and> a ! nat v = b ! nat (v - (x - y))"
        using v(2,3) True eq by (cases "v = x - 1") auto
      with v(1,2) True g eq show ?thesis
        by (intro exI[of _ v]) (simp add: snake_bwd.simps[of a b x0 y0 x y])
    next
      case False
      with True g show ?thesis by (simp add: snake_bwd.simps[of a b x0 y0 x y])
    qed
  next
    case False
    then show ?thesis by (auto simp: snake_bwd.simps[of a b x0 y0 x y])
  qed
qed

subsection \<open>One pass over the diagonals\<close>

lemma diags_props:
  assumes "even (d - lo)"
    and "\<And>e. diag lo d e \<Longrightarrow> aget v (off + e + 1) = Some (G (e + 1)) \<and>
          aget v (off + e - 1) = Some (G (e - 1))"
    and "\<And>e. diag lo d e \<Longrightarrow> snake (cand (G (e + 1)) (G (e - 1))) (cand (G (e + 1)) (G (e - 1)) - e)
          = Some (N e, N e - e)"
    and "\<And>e. diag lo d e \<Longrightarrow> meets e (N e) = Some (M e)"
  shows "\<exists>hit v'. diags cand snake meets off lo v d = Some (hit, v') \<and> length v' = length v \<and>
    (\<forall>j. (\<forall>e. diag lo d e \<longrightarrow> j \<noteq> off + e) \<longrightarrow> aget v' j = aget v j) \<and>
    (case hit of
       None \<Rightarrow> \<forall>e. diag lo d e \<longrightarrow> \<not> M e \<and> aget v' (off + e) = Some (N e)
     | Some (x, y) \<Rightarrow> \<exists>e. diag lo d e \<and> M e \<and> x = N e \<and> y = N e - e)"
  using assms
proof (induction "nat (d - lo + 2)" arbitrary: d v rule: less_induct)
  case less
  show ?case
  proof (cases "d \<ge> lo")
    case False
    then show ?thesis by (auto simp: diags.simps[of _ _ _ _ _ _ d] diag_def)
  next
    case True
    then have d: "diag lo d d" using less.prems(1) by (simp add: diag_def)
    note nb = less.prems(2)[OF d]
    then have off: "0 \<le> off + d" "off + d < int (length v)" by (auto simp: aget_eq_Some)
    obtain v1 where v1: "aset v (off + d) (N d) = Some v1" "length v1 = length v"
      and v1get: "\<And>j. aget v1 j = (if j = off + d then Some (N d) else aget v j)"
      using aset_props[OF off] by blast
    have unf: "diags cand snake meets off lo v d =
        (if M d then Some (Some (N d, N d - d), v1) else diags cand snake meets off lo v1 (d - 2))"
      using True nb less.prems(3,4)[OF d] v1(1) by (simp add: diags.simps[of _ _ _ _ _ v d])
    show ?thesis
    proof (cases "M d")
      case M: True
      then show ?thesis using unf v1 v1get d by auto
    next
      case M: False
      have sub: "diag lo d e" if "diag lo (d - 2) e" for e using that by (simp add: diag_def)
      have split: "diag lo d e \<longleftrightarrow> e = d \<or> diag lo (d - 2) e" for e
        using d by (auto simp: diag_def; presburger)
      have "\<exists>hit v'. diags cand snake meets off lo v1 (d - 2) = Some (hit, v') \<and> length v' = length v1 \<and>
        (\<forall>j. (\<forall>e. diag lo (d - 2) e \<longrightarrow> j \<noteq> off + e) \<longrightarrow> aget v' j = aget v1 j) \<and>
        (case hit of
           None \<Rightarrow> \<forall>e. diag lo (d - 2) e \<longrightarrow> \<not> M e \<and> aget v' (off + e) = Some (N e)
         | Some (x, y) \<Rightarrow> \<exists>e. diag lo (d - 2) e \<and> M e \<and> x = N e \<and> y = N e - e)"
      proof (rule less.hyps)
        show "nat (d - 2 - lo + 2) < nat (d - lo + 2)" using True by simp
        show "even (d - 2 - lo)" using less.prems(1) by simp
        fix e assume e: "diag lo (d - 2) e"
        then have "e \<le> d - 2" by (simp add: diag_def)
        then show "aget v1 (off + e + 1) = Some (G (e + 1)) \<and> aget v1 (off + e - 1) = Some (G (e - 1))"
          using less.prems(2)[OF sub[OF e]] by (simp add: v1get)
        show "snake (cand (G (e + 1)) (G (e - 1))) (cand (G (e + 1)) (G (e - 1)) - e) = Some (N e, N e - e)"
          "meets e (N e) = Some (M e)"
          using less.prems(3,4) sub[OF e] by auto
      qed
      then obtain hit v' where r: "diags cand snake meets off lo v1 (d - 2) = Some (hit, v')"
          "length v' = length v1"
          "\<And>j. (\<And>e. diag lo (d - 2) e \<Longrightarrow> j \<noteq> off + e) \<Longrightarrow> aget v' j = aget v1 j"
          "case hit of
             None \<Rightarrow> \<forall>e. diag lo (d - 2) e \<longrightarrow> \<not> M e \<and> aget v' (off + e) = Some (N e)
           | Some (x, y) \<Rightarrow> \<exists>e. diag lo (d - 2) e \<and> M e \<and> x = N e \<and> y = N e - e"
        by blast
      have atd: "aget v' (off + d) = Some (N d)"
        using r(3)[of "off + d"] v1get by (auto simp: diag_def)
      have frame: "aget v' j = aget v j" if "\<forall>e. diag lo d e \<longrightarrow> j \<noteq> off + e" for j
        using r(3)[of j] that v1get[of j] by (auto simp: split)
      show ?thesis
        by (rule exI[of _ hit], rule exI[of _ v'])
          (use unf M r v1(2) atd frame in \<open>auto simp: split split: option.splits\<close>)
    qed
  qed
qed
subsection \<open>One round of the search\<close>

definition wf :: "search \<Rightarrow> bool" where
  "wf s \<longleftrightarrow> soff s = int (length (sb s)) + 1 \<and>
     length (fd s) = length (sa s) + length (sb s) + 3 \<and>
     length (bd s) = length (sa s) + length (sb s) + 3 \<and>
     int (length (fd s)) \<le> MaxInt"

definition box :: "search \<Rightarrow> int \<Rightarrow> int \<Rightarrow> int \<Rightarrow> int \<Rightarrow> bool" where
  "box s x0 x1 y0 y1 \<longleftrightarrow> 0 \<le> x0 \<and> x0 < x1 \<and> x1 \<le> int (length (sa s)) \<and>
     0 \<le> y0 \<and> y0 < y1 \<and> y1 \<le> int (length (sb s)) \<and>
     sa s ! nat x0 \<noteq> sb s ! nat y0 \<and> sa s ! nat (x1 - 1) \<noteq> sb s ! nat (y1 - 1)"

definition holds :: "int list \<Rightarrow> int \<Rightarrow> int \<Rightarrow> int \<Rightarrow> (int \<Rightarrow> int) \<Rightarrow> bool" where
  "holds v off lo hi F \<longleftrightarrow> (\<forall>d. diag lo hi d \<longrightarrow> aget v (off + d) = Some (F d))"

definition neg :: "(int \<Rightarrow> int) \<Rightarrow> int \<Rightarrow> int" where "neg B e = - B (- e)"

lemma diag_neg: "even (hi - lo) \<Longrightarrow> diag (- hi) (- lo) (- d) \<longleftrightarrow> diag lo hi d"
  by (auto simp: diag_def)

lemma widen_props:
  assumes "dmin \<le> lo" "lo \<le> hi" "hi \<le> dmax" "even (hi - lo)" "dmin < dmax"
    "0 \<le> off + dmin - 1" "off + dmax + 1 < int (length v)"
  shows "\<exists>v' lo' hi'. widen v off dmin dmax sen lo hi = Some (v', lo', hi') \<and>
    widened dmin dmax lo hi lo' hi' \<and> length v' = length v \<and>
    (\<forall>d. diag lo hi d \<longrightarrow> aget v' (off + d) = aget v (off + d)) \<and>
    (\<forall>e. diag lo' hi' e \<longrightarrow> (diag lo hi (e - 1) \<or> aget v' (off + (e - 1)) = Some sen) \<and>
        (diag lo hi (e + 1) \<or> aget v' (off + (e + 1)) = Some sen))"
proof -
  define v1 where "v1 = (if lo > dmin then v[nat (off + (lo - 1) - 1) := sen] else v)"
  define v2 where "v2 = (if hi < dmax then v1[nat (off + (hi + 1) + 1) := sen] else v1)"
  define lo' where "lo' = (if lo > dmin then lo - 1 else lo + 1)"
  define hi' where "hi' = (if hi < dmax then hi + 1 else hi - 1)"
  have w: "widen v off dmin dmax sen lo hi = Some (v2, lo', hi')"
    using assms by (auto simp: widen_def v1_def v2_def lo'_def hi'_def aset_def)
  have get: "aget v2 j = (if hi < dmax \<and> j = off + hi + 2 \<or> lo > dmin \<and> j = off + lo - 2
      then Some sen else aget v j)" for j
    using assms by (auto simp: v2_def v1_def aget_update)
  have "(diag lo hi (e - 1) \<or> aget v2 (off + (e - 1)) = Some sen) \<and>
        (diag lo hi (e + 1) \<or> aget v2 (off + (e + 1)) = Some sen)" if e: "diag lo' hi' e" for e
  proof -
    have p: "even (e - 1 - lo)" "even (e + 1 - lo)" and le: "lo - 1 \<le> e" "e \<le> hi + 1"
      using e by (auto simp: diag_def lo'_def hi'_def split: if_splits)
    have "even (hi + 1 - e)" using p(2) assms(4) by presburger
    then have q: "e = hi + 1 \<or> e + 1 \<le> hi" using le(2) by presburger
    have q': "e = lo - 1 \<or> lo \<le> e - 1" using le(1) p(1) by presburger
    show ?thesis
    proof
      show "diag lo hi (e - 1) \<or> aget v2 (off + (e - 1)) = Some sen"
      proof (cases "e = lo - 1")
        case True
        then have "lo > dmin" using e by (auto simp: diag_def lo'_def split: if_splits)
        with True show ?thesis by (simp add: get)
      next
        case False
        with q' have "lo \<le> e - 1" by simp
        with le(2) p(1) show ?thesis by (simp add: diag_def)
      qed
      show "diag lo hi (e + 1) \<or> aget v2 (off + (e + 1)) = Some sen"
      proof (cases "e = hi + 1")
        case True
        then have "hi < dmax" using e by (auto simp: diag_def hi'_def split: if_splits)
        with True show ?thesis by (simp add: get)
      next
        case False
        with q have "e + 1 \<le> hi" by simp
        with le(1) p(2) show ?thesis by (simp add: diag_def)
      qed
    qed
  qed
  moreover have "widened dmin dmax lo hi lo' hi'" by (simp add: widened_def lo'_def hi'_def)
  moreover have "length v2 = length v" by (simp add: v2_def v1_def)
  moreover have "aget v2 (off + d) = aget v (off + d)" if "diag lo hi d" for d
    using that by (auto simp: get diag_def)
  ultimately show ?thesis using w by blast
qed

lemma meet_parity:
  assumes "rng dmin dmax m1 lo hi c1" "rng dmin dmax m2 lo2 hi2 c2" "even (m1 + c1 - (m2 + c2))"
    "diag lo hi d" "lo2 \<le> d" "d \<le> hi2"
  shows "diag lo2 hi2 d"
proof -
  have p: "even (d - lo)" "even (lo - m1 - c1)" "even (lo2 - m2 - c2)"
    using assms(1,2,4) unfolding rng_def diag_def by blast+
  have "even ((d - lo) + (lo - m1 - c1) + (m1 + c1 - (m2 + c2)) - (lo2 - m2 - c2))"
    by (intro dvd_add dvd_diff p assms(3))
  moreover have "(d - lo) + (lo - m1 - c1) + (m1 + c1 - (m2 + c2)) - (lo2 - m2 - c2) = d - lo2"
    by linarith
  ultimately have "even (d - lo2)" by (simp only:)
  then show ?thesis using assms(5,6) unfolding diag_def by blast
qed

lemma fwd_round:
  assumes wf: "wf s" and bx: "box s x0 x1 y0 y1"
    and F: "holds (fd s) (soff s) fmin fmax F" and B: "holds (bd s) (soff s) bmin bmax B"
    and l: "low x0 y0 fmin fmax F c"
    and rf: "rng (x0 - y1) (x1 - y0) (x0 - y0) fmin fmax c"
    and rb: "rng (x0 - y1) (x1 - y0) (x1 - y1) bmin bmax c"
    and op: "oddp \<longleftrightarrow> odd (x0 - y0 - (x1 - y1))"
  shows "\<exists>v fmin' fmax' hit v' F'.
    widen (fd s) (soff s) (x0 - y1) (x1 - y0) (-1) fmin fmax = Some (v, fmin', fmax') \<and>
    fwd_diags (s\<lparr>fd := v\<rparr>) x1 y1 oddp bmin bmax fmin' fmax' = Some (hit, s\<lparr>fd := v'\<rparr>) \<and>
    length v' = length (fd s) \<and> widened (x0 - y1) (x1 - y0) fmin fmax fmin' fmax' \<and>
    (\<forall>d. diag fmin' fmax' d \<longrightarrow> round1 x1 y1 fmin fmax F d (F' d)) \<and>
    (case hit of
       None \<Rightarrow> holds v' (soff s) fmin' fmax' F' \<and>
         (\<forall>d. diag fmin' fmax' d \<longrightarrow> oddp \<longrightarrow> bmin \<le> d \<longrightarrow> d \<le> bmax \<longrightarrow> F' d < B d)
     | Some (x, y) \<Rightarrow> \<exists>d. diag fmin' fmax' d \<and> oddp \<and> bmin \<le> d \<and> d \<le> bmax \<and>
         x = F' d \<and> y = F' d - d)"
proof -
  let ?off = "soff s" and ?snake = "snake_fwd (sa s) (sb s) x1 y1"
  have r: "x0 - y1 \<le> fmin" "fmin \<le> fmax" "fmax \<le> x1 - y0" "even (fmax - fmin)"
    using rf by (auto simp: rng_def)
  have b: "0 \<le> ?off + (x0 - y1) - 1" "?off + (x1 - y0) + 1 < int (length (fd s))" "x0 - y1 < x1 - y0"
    using wf bx by (auto simp: wf_def box_def)
  obtain v fmin' fmax' where w: "widen (fd s) ?off (x0 - y1) (x1 - y0) (-1) fmin fmax = Some (v, fmin', fmax')"
    and wd: "widened (x0 - y1) (x1 - y0) fmin fmax fmin' fmax'" and lv: "length v = length (fd s)"
    and old: "\<And>d. diag fmin fmax d \<Longrightarrow> aget v (?off + d) = Some (F d)"
    and nb: "\<And>e. diag fmin' fmax' e \<Longrightarrow> diag fmin fmax (e - 1) \<or> aget v (?off + (e - 1)) = Some (-1)"
        "\<And>e. diag fmin' fmax' e \<Longrightarrow> diag fmin fmax (e + 1) \<or> aget v (?off + (e + 1)) = Some (-1)"
    using widen_props[OF r b(3) b(1,2), of "-1"] F unfolding holds_def by metis
  have rf': "rng (x0 - y1) (x1 - y0) (x0 - y0) fmin' fmax' (c + 1)"
    using rng_step[OF rf wd] bx by (simp add: box_def)
  define G where "G j = the (aget v (?off + j))" for j
  have G: "aget v (?off + (e + 1)) = Some (G (e + 1)) \<and> aget v (?off + (e - 1)) = Some (G (e - 1))"
    if "diag fmin' fmax' e" for e
    using nb[OF that] old by (auto simp: G_def)
  define k where "k e = (if G (e - 1) \<ge> G (e + 1) then G (e - 1) + 1 else G (e + 1))" for e
  have GF: "G d = F d" if "diag fmin fmax d" for d using old[OF that] by (simp add: G_def)
  have Fpos: "0 \<le> F d" if "diag fmin fmax d" for d
    using l that bx by (auto simp: low_def box_def intro: order_trans)
  have ed: "edit1 fmin fmax F e (k e)" if e: "diag fmin' fmax' e" for e
  proof -
    have "diag fmin fmax (e - 1) \<and> G (e - 1) = F (e - 1) \<and> 0 \<le> F (e - 1) \<or>
        \<not> diag fmin fmax (e - 1) \<and> G (e - 1) = -1"
      using nb(1)[OF e] GF[of "e - 1"] Fpos[of "e - 1"] by (auto simp: G_def)
    moreover have "diag fmin fmax (e + 1) \<and> G (e + 1) = F (e + 1) \<and> 0 \<le> F (e + 1) \<or>
        \<not> diag fmin fmax (e + 1) \<and> G (e + 1) = -1"
      using nb(2)[OF e] GF[of "e + 1"] Fpos[of "e + 1"] by (auto simp: G_def)
    ultimately show ?thesis
      using edit1_exists[OF r(4,2) wd e] by (auto simp: edit1_def k_def)
  qed
  define N where "N e = fst (the (?snake (k e) (k e - e)))" for e
  have sn: "?snake (k e) (k e - e) = Some (N e, N e - e) \<and> round1 x1 y1 fmin fmax F e (N e)"
    if e: "diag fmin' fmax' e" for e
  proof -
    have "0 \<le> k e" "0 \<le> k e - e" using low_edit1[OF l ed[OF e]] bx by (auto simp: box_def)
    then obtain u where u: "?snake (k e) (k e - e) = Some (u, u - e)" "k e \<le> u"
      "k e < u \<Longrightarrow> u \<le> x1 \<and> u - e \<le> y1 \<and> sa s ! nat (u - 1) = sb s ! nat (u - e - 1)"
      using snake_fwd_props[of "k e" x1 "k e - e" y1 "sa s" "sb s"] bx by (auto simp: box_def)
    then have "round1 x1 y1 fmin fmax F e u"
      using ed[OF e] bx by (auto simp: round1_def box_def)
    with u(1) show ?thesis by (simp add: N_def)
  qed
  define M where "M e \<longleftrightarrow> oddp \<and> bmin \<le> e \<and> e \<le> bmax \<and> B e \<le> N e" for e
  have meets: "(if oddp \<and> bmin \<le> e \<and> e \<le> bmax
      then do { v \<leftarrow> aget (bd s) (?off + e); Some (v \<le> N e) } else Some False) = Some (M e)"
    if e: "diag fmin' fmax' e" for e
  proof (cases "oddp \<and> bmin \<le> e \<and> e \<le> bmax")
    case True
    have "even (x0 - y0 + (c + 1) - (x1 - y1 + c))" using op True by presburger
    from meet_parity[OF rf' rb this e] True have "diag bmin bmax e" by simp
    with B True show ?thesis by (simp add: M_def holds_def)
  qed (auto simp: M_def)
  have ev: "even (fmax' - fmin')" using rf' by (simp add: rng_def)
  obtain hit v' where d: "diags (\<lambda>ins lo. if lo \<ge> ins then lo + 1 else ins) ?snake
       (\<lambda>d x. if oddp \<and> bmin \<le> d \<and> d \<le> bmax
              then do { v \<leftarrow> aget (bd s) (soff s + d); Some (v \<le> x) } else Some False)
       ?off fmin' v fmax' = Some (hit, v')" "length v' = length v"
      "case hit of
         None \<Rightarrow> \<forall>e. diag fmin' fmax' e \<longrightarrow> \<not> M e \<and> aget v' (?off + e) = Some (N e)
       | Some (x, y) \<Rightarrow> \<exists>e. diag fmin' fmax' e \<and> M e \<and> x = N e \<and> y = N e - e"
    using diags_props[OF ev, where v = v and off = ?off and G = G and N = N and M = M and snake = ?snake
        and cand = "\<lambda>ins lo. if lo \<ge> ins then lo + 1 else ins"
        and meets = "\<lambda>d x. if oddp \<and> bmin \<le> d \<and> d \<le> bmax
              then do { v \<leftarrow> aget (bd s) (soff s + d); Some (v \<le> x) } else Some False"]
      G sn meets by (force simp: k_def add.assoc add_diff_eq[symmetric])
  have "fwd_diags (s\<lparr>fd := v\<rparr>) x1 y1 oddp bmin bmax fmin' fmax' = Some (hit, s\<lparr>fd := v'\<rparr>)"
    using d(1) by (simp add: fwd_diags_def cong: if_cong)
  moreover have "case hit of
       None \<Rightarrow> holds v' (soff s) fmin' fmax' N \<and>
         (\<forall>d. diag fmin' fmax' d \<longrightarrow> oddp \<longrightarrow> bmin \<le> d \<longrightarrow> d \<le> bmax \<longrightarrow> N d < B d)
     | Some (x, y) \<Rightarrow> \<exists>d. diag fmin' fmax' d \<and> oddp \<and> bmin \<le> d \<and> d \<le> bmax \<and>
         x = N d \<and> y = N d - d"
    using d(3) by (auto simp: holds_def M_def not_le split: option.splits)
  ultimately show ?thesis using w wd d(2) lv sn by (metis (no_types, lifting))
qed
lemma bwd_round:
  assumes wf: "wf s" and bx: "box s x0 x1 y0 y1"
    and F: "holds (fd s) (soff s) fmin fmax F" and B: "holds (bd s) (soff s) bmin bmax B"
    and l: "low (- x1) (- y1) (- bmax) (- bmin) (neg B) c"
    and rf: "rng (x0 - y1) (x1 - y0) (x0 - y0) fmin fmax (c + 1)"
    and rb: "rng (x0 - y1) (x1 - y0) (x1 - y1) bmin bmax c"
    and op: "oddp \<longleftrightarrow> odd (x0 - y0 - (x1 - y1))"
  shows "\<exists>v bmin' bmax' hit v' B'.
    widen (bd s) (soff s) (x0 - y1) (x1 - y0) MaxInt bmin bmax = Some (v, bmin', bmax') \<and>
    bwd_diags (s\<lparr>bd := v\<rparr>) x0 y0 oddp fmin fmax bmin' bmax' = Some (hit, s\<lparr>bd := v'\<rparr>) \<and>
    length v' = length (bd s) \<and> widened (x0 - y1) (x1 - y0) bmin bmax bmin' bmax' \<and>
    (\<forall>d. diag bmin' bmax' d \<longrightarrow>
       round1 (- x0) (- y0) (- bmax) (- bmin) (neg B) (- d) (neg B' (- d))) \<and>
    (case hit of
       None \<Rightarrow> holds v' (soff s) bmin' bmax' B' \<and>
         (\<forall>d. diag bmin' bmax' d \<longrightarrow> \<not> oddp \<longrightarrow> fmin \<le> d \<longrightarrow> d \<le> fmax \<longrightarrow> F d < B' d)
     | Some (x, y) \<Rightarrow> \<exists>d. diag bmin' bmax' d \<and> \<not> oddp \<and> fmin \<le> d \<and> d \<le> fmax \<and>
         x = B' d \<and> y = B' d - d)"
proof -
  let ?off = "soff s" and ?snake = "snake_bwd (sa s) (sb s) x0 y0"
  have r: "x0 - y1 \<le> bmin" "bmin \<le> bmax" "bmax \<le> x1 - y0" "even (bmax - bmin)"
    using rb by (auto simp: rng_def)
  have b: "0 \<le> ?off + (x0 - y1) - 1" "?off + (x1 - y0) + 1 < int (length (bd s))" "x0 - y1 < x1 - y0"
    using wf bx by (auto simp: wf_def box_def)
  obtain v bmin' bmax' where w: "widen (bd s) ?off (x0 - y1) (x1 - y0) MaxInt bmin bmax = Some (v, bmin', bmax')"
    and wd: "widened (x0 - y1) (x1 - y0) bmin bmax bmin' bmax'" and lv: "length v = length (bd s)"
    and old: "\<And>d. diag bmin bmax d \<Longrightarrow> aget v (?off + d) = Some (B d)"
    and nb: "\<And>e. diag bmin' bmax' e \<Longrightarrow> diag bmin bmax (e - 1) \<or> aget v (?off + (e - 1)) = Some MaxInt"
        "\<And>e. diag bmin' bmax' e \<Longrightarrow> diag bmin bmax (e + 1) \<or> aget v (?off + (e + 1)) = Some MaxInt"
    using widen_props[OF r b(3) b(1,2), of MaxInt] B unfolding holds_def by metis
  have rb': "rng (x0 - y1) (x1 - y0) (x1 - y1) bmin' bmax' (c + 1)"
    using rng_step[OF rb wd] bx by (simp add: box_def)
  define G where "G j = the (aget v (?off + j))" for j
  have G: "aget v (?off + (e + 1)) = Some (G (e + 1)) \<and> aget v (?off + (e - 1)) = Some (G (e - 1))"
    if "diag bmin' bmax' e" for e
    using nb[OF that] old by (auto simp: G_def)
  define k where "k e = (if G (e + 1) - 1 < G (e - 1) then G (e + 1) - 1 else G (e - 1))" for e
  have GB: "G d = B d" if "diag bmin bmax d" for d using old[OF that] by (simp add: G_def)
  have x1small: "x1 < MaxInt - 1" using wf bx by (auto simp: wf_def box_def)
  have Bsmall: "B d < MaxInt - 1" if "diag bmin bmax d" for d
  proof -
    have "- x1 \<le> neg B (- d)" using l that diag_neg[OF r(4), of d] by (auto simp: low_def)
    then show ?thesis using x1small by (simp add: neg_def)
  qed
  have ed: "edit1 (- bmax) (- bmin) (neg B) (- e) (- k e)" if e: "diag bmin' bmax' e" for e
  proof -
    have "diag bmin bmax (e - 1) \<and> G (e - 1) = B (e - 1) \<and> B (e - 1) < MaxInt - 1 \<or>
        \<not> diag bmin bmax (e - 1) \<and> G (e - 1) = MaxInt"
      using nb(1)[OF e] GB[of "e - 1"] Bsmall[of "e - 1"] by (auto simp: G_def)
    moreover have "diag bmin bmax (e + 1) \<and> G (e + 1) = B (e + 1) \<and> B (e + 1) < MaxInt - 1 \<or>
        \<not> diag bmin bmax (e + 1) \<and> G (e + 1) = MaxInt"
      using nb(2)[OF e] GB[of "e + 1"] Bsmall[of "e + 1"] by (auto simp: G_def)
    moreover have "diag (- bmax) (- bmin) (- e - 1) = diag bmin bmax (e + 1)"
      "diag (- bmax) (- bmin) (- e + 1) = diag bmin bmax (e - 1)"
      using diag_neg[OF r(4), of "e + 1"] diag_neg[OF r(4), of "e - 1"] by simp_all
    moreover have "neg B (- e - 1) = - B (e + 1)" "neg B (- e + 1) = - B (e - 1)"
      by (simp_all add: neg_def algebra_simps)
    ultimately show ?thesis
      using edit1_exists[OF r(4,2) wd e] unfolding edit1_def k_def by auto
  qed
  define N where "N e = fst (the (?snake (k e) (k e - e)))" for e
  have sn: "?snake (k e) (k e - e) = Some (N e, N e - e) \<and>
      round1 (- x0) (- y0) (- bmax) (- bmin) (neg B) (- e) (neg N (- e))"
    if e: "diag bmin' bmax' e" for e
  proof -
    have "k e \<le> x1" "k e - e \<le> y1" using low_edit1[OF l ed[OF e]] by auto
    then obtain u where u: "?snake (k e) (k e - e) = Some (u, u - e)" "u \<le> k e"
      "u < k e \<Longrightarrow> x0 \<le> u \<and> y0 \<le> u - e \<and> sa s ! nat u = sb s ! nat (u - e)"
      using snake_bwd_props[of "k e" "sa s" x0 "k e - e" "sb s" y0] bx by (auto simp: box_def)
    moreover have "\<not> (u = x0 \<and> u - e = y0)" if "u < k e" using u(3)[OF that] bx by (auto simp: box_def)
    ultimately have "round1 (- x0) (- y0) (- bmax) (- bmin) (neg B) (- e) (- u)"
      using ed[OF e] unfolding round1_def by (intro exI[of _ "- k e"]) auto
    with u(1) show ?thesis by (simp add: N_def neg_def)
  qed
  define M where "M e \<longleftrightarrow> \<not> oddp \<and> fmin \<le> e \<and> e \<le> fmax \<and> N e \<le> F e" for e
  have meets: "(if \<not> oddp \<and> fmin \<le> e \<and> e \<le> fmax
      then do { v \<leftarrow> aget (fd s) (?off + e); Some (N e \<le> v) } else Some False) = Some (M e)"
    if e: "diag bmin' bmax' e" for e
  proof (cases "\<not> oddp \<and> fmin \<le> e \<and> e \<le> fmax")
    case True
    have "even (x1 - y1 + (c + 1) - (x0 - y0 + (c + 1)))" using op True by presburger
    from meet_parity[OF rb' rf this e] True have "diag fmin fmax e" by simp
    with F True show ?thesis by (simp add: M_def holds_def)
  qed (auto simp: M_def)
  have ev: "even (bmax' - bmin')" using rb' by (simp add: rng_def)
  obtain hit v' where d: "diags (\<lambda>hi del. if hi - 1 < del then hi - 1 else del) ?snake
       (\<lambda>d x. if \<not> oddp \<and> fmin \<le> d \<and> d \<le> fmax
              then do { v \<leftarrow> aget (fd s) (soff s + d); Some (x \<le> v) } else Some False)
       ?off bmin' v bmax' = Some (hit, v')" "length v' = length v"
      "case hit of
         None \<Rightarrow> \<forall>e. diag bmin' bmax' e \<longrightarrow> \<not> M e \<and> aget v' (?off + e) = Some (N e)
       | Some (x, y) \<Rightarrow> \<exists>e. diag bmin' bmax' e \<and> M e \<and> x = N e \<and> y = N e - e"
    using diags_props[OF ev, where v = v and off = ?off and G = G and N = N and M = M and snake = ?snake
        and cand = "\<lambda>hi del. if hi - 1 < del then hi - 1 else del"
        and meets = "\<lambda>d x. if \<not> oddp \<and> fmin \<le> d \<and> d \<le> fmax
              then do { v \<leftarrow> aget (fd s) (soff s + d); Some (x \<le> v) } else Some False"]
      G sn meets by (force simp: k_def add.assoc add_diff_eq[symmetric])
  have "bwd_diags (s\<lparr>bd := v\<rparr>) x0 y0 oddp fmin fmax bmin' bmax' = Some (hit, s\<lparr>bd := v'\<rparr>)"
    using d(1) by (simp add: bwd_diags_def cong: if_cong)
  moreover have "case hit of
       None \<Rightarrow> holds v' (soff s) bmin' bmax' N \<and>
         (\<forall>d. diag bmin' bmax' d \<longrightarrow> \<not> oddp \<longrightarrow> fmin \<le> d \<longrightarrow> d \<le> fmax \<longrightarrow> F d < N d)
     | Some (x, y) \<Rightarrow> \<exists>d. diag bmin' bmax' d \<and> \<not> oddp \<and> fmin \<le> d \<and> d \<le> fmax \<and>
         x = N d \<and> y = N d - d"
    using d(3) by (auto simp: holds_def M_def not_le split: option.splits)
  ultimately show ?thesis using w wd d(2) lv sn by (metis (no_types, lifting))
qed
subsection \<open>The fallback point\<close>

definition inb :: "int \<Rightarrow> int \<Rightarrow> int \<Rightarrow> int \<Rightarrow> int \<Rightarrow> int \<Rightarrow> bool" where
  "inb x0 x1 y0 y1 w x \<longleftrightarrow> x0 \<le> x \<and> x \<le> x1 \<and> y0 \<le> w - x \<and> w - x \<le> y1"

lemma furthest_fwd_inb:
  assumes "even (d - fmin)" "x0 \<le> x1" "y0 \<le> y1" "0 \<le> x0" "0 \<le> y0"
    and "\<And>e. diag fmin d e \<Longrightarrow> \<exists>v. aget (fd s) (soff s + e) = Some v \<and> x0 \<le> v \<and> y0 \<le> v - e"
    and "\<And>e. diag fmin d e \<Longrightarrow> x0 - y1 \<le> e \<and> e \<le> x1 - y0"
    and "inb x0 x1 y0 y1 fbest fx \<or> fbest = -1 \<and> fmin \<le> d"
  shows "\<exists>b x. furthest_fwd s x1 y1 fmin d fbest fx = Some (b, x) \<and> inb x0 x1 y0 y1 b x"
  using assms
proof (induction s x1 y1 fmin d fbest fx rule: furthest_fwd.induct)
  case (1 s x1 y1 fmin d fbest fx)
  show ?case
  proof (cases "d \<ge> fmin")
    case False
    with "1.prems" show ?thesis by (auto simp: furthest_fwd.simps[of s x1 y1 fmin d])
  next
    case True
    then have d: "diag fmin d d" using "1.prems"(1) by (simp add: diag_def)
    obtain v where v: "aget (fd s) (soff s + d) = Some v" "x0 \<le> v" "y0 \<le> v - d"
      using "1.prems"(6)[OF d] by blast
    have dr: "x0 - y1 \<le> d" "d \<le> x1 - y0" using "1.prems"(7)[OF d] by auto
    have sub: "diag fmin d e" if "diag fmin (d - 2) e" for e using that by (simp add: diag_def)
    define p where "p = (if min v x1 - d > y1 then (y1 + d, y1) else (min v x1, min v x1 - d))"
    obtain x y where xy: "p = (x, y)" by force
    have inp: "inb x0 x1 y0 y1 (x + y) x"
      using xy v dr "1.prems"(2,3) by (auto simp: p_def inb_def split: if_splits)
    have unf: "furthest_fwd s x1 y1 fmin d fbest fx =
       (if x + y > fbest then furthest_fwd s x1 y1 fmin (d - 2) (x + y) x
        else furthest_fwd s x1 y1 fmin (d - 2) fbest fx)"
      using True v(1) xy by (simp add: furthest_fwd.simps[of s x1 y1 fmin d] p_def Let_def)
    have e2: "even (d - 2 - fmin)" using "1.prems"(1) by simp
    show ?thesis
    proof (cases "x + y > fbest")
      case gt: True
      have "\<exists>b x'. furthest_fwd s x1 y1 fmin (d - 2) (x + y) x = Some (b, x') \<and> inb x0 x1 y0 y1 b x'"
        by (rule "1.IH"(1)[OF True v(1) refl refl p_def[symmetric, unfolded xy, symmetric] refl gt e2])
          (use "1.prems" sub inp in auto)
      with unf gt show ?thesis by simp
    next
      case le: False
      then have "inb x0 x1 y0 y1 fbest fx" using "1.prems"(4,5,8) inp by (auto simp: inb_def)
      then have "\<exists>b x'. furthest_fwd s x1 y1 fmin (d - 2) fbest fx = Some (b, x') \<and> inb x0 x1 y0 y1 b x'"
        by (intro "1.IH"(2)[OF True v(1) refl refl p_def[symmetric, unfolded xy, symmetric] refl le e2])
          (use "1.prems" sub in auto)
      with unf le show ?thesis by simp
    qed
  qed
qed
lemma furthest_bwd_inb:
  assumes "even (d - bmin)" "x0 \<le> x1" "y0 \<le> y1" "x1 + y1 < MaxInt"
    and "\<And>e. diag bmin d e \<Longrightarrow> \<exists>v. aget (bd s) (soff s + e) = Some v \<and> v \<le> x1 \<and> v - e \<le> y1"
    and "\<And>e. diag bmin d e \<Longrightarrow> x0 - y1 \<le> e \<and> e \<le> x1 - y0"
    and "inb x0 x1 y0 y1 bbest bx \<or> bbest = MaxInt \<and> bmin \<le> d"
  shows "\<exists>b x. furthest_bwd s x0 y0 bmin d bbest bx = Some (b, x) \<and> inb x0 x1 y0 y1 b x"
  using assms
proof (induction s x0 y0 bmin d bbest bx rule: furthest_bwd.induct)
  case (1 s x0 y0 bmin d bbest bx)
  show ?case
  proof (cases "d \<ge> bmin")
    case False
    with "1.prems" show ?thesis by (auto simp: furthest_bwd.simps[of s x0 y0 bmin d])
  next
    case True
    then have d: "diag bmin d d" using "1.prems"(1) by (simp add: diag_def)
    obtain v where v: "aget (bd s) (soff s + d) = Some v" "v \<le> x1" "v - d \<le> y1"
      using "1.prems"(5)[OF d] by blast
    have dr: "x0 - y1 \<le> d" "d \<le> x1 - y0" using "1.prems"(6)[OF d] by auto
    have sub: "diag bmin d e" if "diag bmin (d - 2) e" for e using that by (simp add: diag_def)
    define p where "p = (if max x0 v - d < y0 then (y0 + d, y0) else (max x0 v, max x0 v - d))"
    obtain x y where xy: "p = (x, y)" by force
    have inp: "inb x0 x1 y0 y1 (x + y) x"
      using xy v dr "1.prems"(2,3) by (auto simp: p_def inb_def split: if_splits)
    have unf: "furthest_bwd s x0 y0 bmin d bbest bx =
       (if x + y < bbest then furthest_bwd s x0 y0 bmin (d - 2) (x + y) x
        else furthest_bwd s x0 y0 bmin (d - 2) bbest bx)"
      using True v(1) xy by (simp add: furthest_bwd.simps[of s x0 y0 bmin d] p_def Let_def)
    have e2: "even (d - 2 - bmin)" using "1.prems"(1) by simp
    show ?thesis
    proof (cases "x + y < bbest")
      case gt: True
      have "\<exists>b x'. furthest_bwd s x0 y0 bmin (d - 2) (x + y) x = Some (b, x') \<and> inb x0 x1 y0 y1 b x'"
        by (rule "1.IH"(1)[OF True v(1) refl refl p_def[symmetric, unfolded xy, symmetric] refl gt e2])
          (use "1.prems" sub inp in auto)
      with unf gt show ?thesis by simp
    next
      case le: False
      then have "inb x0 x1 y0 y1 bbest bx" using "1.prems"(4,7) inp by (auto simp: inb_def)
      then have "\<exists>b x'. furthest_bwd s x0 y0 bmin (d - 2) bbest bx = Some (b, x') \<and> inb x0 x1 y0 y1 b x'"
        by (intro "1.IH"(2)[OF True v(1) refl refl p_def[symmetric, unfolded xy, symmetric] refl le e2])
          (use "1.prems" sub in auto)
      with unf le show ?thesis by simp
    qed
  qed
qed

lemma furthest_ok:
  assumes wf: "wf s" and bx: "box s x0 x1 y0 y1"
    and F: "holds (fd s) (soff s) fmin fmax F" and B: "holds (bd s) (soff s) bmin bmax B"
    and lf: "low x0 y0 fmin fmax F c" and lb: "low (- x1) (- y1) (- bmax) (- bmin) (neg B) c"
    and rf: "rng (x0 - y1) (x1 - y0) (x0 - y0) fmin fmax c"
    and rb: "rng (x0 - y1) (x1 - y0) (x1 - y1) bmin bmax c"
  shows "\<exists>xm ym ok. furthest s x0 x1 y0 y1 fmin fmax bmin bmax = Some (xm, ym, ok) \<and>
    x0 \<le> xm \<and> xm \<le> x1 \<and> y0 \<le> ym \<and> ym \<le> y1 \<and>
    (ok \<longrightarrow> \<not> (xm = x0 \<and> ym = y0) \<and> \<not> (xm = x1 \<and> ym = y1))"
proof -
  have bounds: "x0 \<le> x1" "y0 \<le> y1" "0 \<le> x0" "0 \<le> y0" "x1 + y1 < MaxInt"
    using wf bx by (auto simp: wf_def box_def)
  have ef: "even (fmax - fmin)" "fmin \<le> fmax" and eb: "even (bmax - bmin)" "bmin \<le> bmax"
    using rf rb by (auto simp: rng_def)
  have 1: "\<exists>v. aget (fd s) (soff s + e) = Some v \<and> x0 \<le> v \<and> y0 \<le> v - e" if "diag fmin fmax e" for e
    using F lf that by (auto simp: holds_def low_def)
  have 2: "\<exists>v. aget (bd s) (soff s + e) = Some v \<and> v \<le> x1 \<and> v - e \<le> y1" if "diag bmin bmax e" for e
  proof -
    have "- x1 \<le> neg B (- e) \<and> - y1 \<le> neg B (- e) - (- e)"
      using lb that diag_neg[OF eb(1)] unfolding low_def by blast
    with B that show ?thesis by (auto simp: holds_def neg_def)
  qed
  have 3: "x0 - y1 \<le> e \<and> e \<le> x1 - y0" if "diag fmin fmax e" for e
    using rf that by (auto simp: rng_def diag_def)
  have 4: "x0 - y1 \<le> e \<and> e \<le> x1 - y0" if "diag bmin bmax e" for e
    using rb that by (auto simp: rng_def diag_def)
  obtain fb fx where f: "furthest_fwd s x1 y1 fmin fmax (-1) 0 = Some (fb, fx)" "inb x0 x1 y0 y1 fb fx"
    using furthest_fwd_inb[OF ef(1) bounds(1-4) 1 3] ef(2) by blast
  obtain bb bx' where b: "furthest_bwd s x0 y0 bmin bmax MaxInt 0 = Some (bb, bx')" "inb x0 x1 y0 y1 bb bx'"
    using furthest_bwd_inb[OF eb(1) bounds(1,2,5) 2 4] eb(2) by blast
  show ?thesis using f b by (auto simp: furthest_def inb_def Let_def)
qed

end
