(* ===== verification/MyersCorrect.thy ===== *)
theory MyersCorrect
  imports MyersSearch
begin

text \<open>
  Correctness of \<open>common\<close> in \<^verbatim>\<open>internal/unidiff/unidiff.go\<close>: the two paths meet within the
  rounds the box allows, \<open>middle\<close> returns a point that splits the box in two smaller ones, and
  \<open>compare\<close> therefore always returns, appending index pairs that go up on both sides and join
  equal lines.
\<close>

subsection \<open>The rounds end\<close>

definition same_frame :: "search \<Rightarrow> search \<Rightarrow> bool" where
  "same_frame s s' \<longleftrightarrow> sa s' = sa s \<and> sb s' = sb s \<and> soff s' = soff s \<and>
     expensive s' = expensive s \<and> sout s' = sout s \<and>
     length (fd s') = length (fd s) \<and> length (bd s') = length (bd s)"

definition splits :: "int \<Rightarrow> int \<Rightarrow> int \<Rightarrow> int \<Rightarrow> int \<Rightarrow> int \<Rightarrow> bool" where
  "splits x0 x1 y0 y1 xm ym \<longleftrightarrow> x0 \<le> xm \<and> xm \<le> x1 \<and> y0 \<le> ym \<and> ym \<le> y1 \<and>
     \<not> (xm = x0 \<and> ym = y0) \<and> \<not> (xm = x1 \<and> ym = y1)"

text \<open>What holds between two rounds of \<open>middle_loop\<close>, after \<open>c\<close> of them.\<close>

definition searching ::
  "search \<Rightarrow> int \<Rightarrow> int \<Rightarrow> int \<Rightarrow> int \<Rightarrow> int \<Rightarrow> int \<Rightarrow> int \<Rightarrow> int \<Rightarrow> int \<Rightarrow> bool" where
  "searching s x0 x1 y0 y1 fmin fmax bmin bmax c \<longleftrightarrow> (\<exists>F B.
     holds (fd s) (soff s) fmin fmax F \<and> holds (bd s) (soff s) bmin bmax B \<and>
     low x0 y0 fmin fmax F c \<and> low (- x1) (- y1) (- bmax) (- bmin) (neg B) c \<and>
     rng (x0 - y1) (x1 - y0) (x0 - y0) fmin fmax c \<and>
     rng (x0 - y1) (x1 - y0) (x1 - y1) bmin bmax c \<and>
     (if odd (x0 - y0 - (x1 - y1))
      then \<exists>blo bhi. front x1 y1 fmin fmax F blo bhi \<and> blo \<le> x1 - y1 \<and> x1 - y1 \<le> bhi \<and>
             bmax \<le> bhi + 1 \<and> blo - 1 \<le> bmin
      else front (- x0) (- y0) (- bmax) (- bmin) (neg B) (- fmax) (- fmin)))"

lemma meets_in_time:
  assumes bx: "x0 < x1" "y0 < y1"
    and rf: "rng (x0 - y1) (x1 - y0) (x0 - y0) fmin fmax cf" and lf: "low x0 y0 fmin fmax F cf"
    and rb: "rng (x0 - y1) (x1 - y0) (x1 - y1) bmin bmax cb"
    and lb: "low (- x1) (- y1) (- bmax) (- bmin) (neg B) cb"
    and par: "even (x0 - y0 + cf - (x1 - y1 + cb))"
    and long: "cf \<ge> x1 - x0 + (y1 - y0)" "cb \<ge> x1 - x0 + (y1 - y0)"
  shows "diag fmin fmax fmin \<and> diag bmin bmax fmin \<and> B fmin \<le> F fmin"
proof -
  have r: "x0 - y1 \<le> fmin" "fmin \<le> fmax" "fmin \<le> x0 - y0 - cf \<or> fmin \<le> x0 - y1 + 1"
      "even (fmin - (x0 - y0) - cf)"
      "x0 - y1 \<le> bmin" "bmin \<le> bmax" "bmin \<le> x1 - y1 - cb \<or> bmin \<le> x0 - y1 + 1"
      "even (bmin - (x1 - y1) - cb)" "even (bmax - bmin)"
    using rf rb unfolding rng_def by (blast intro: order_trans)+
  have f: "diag fmin fmax fmin" and b: "diag bmin bmax bmin"
    using r(2,6) unfolding diag_def by simp_all
  note p = r(4,8)
  have near: "fmin \<le> x0 - y1 + 1" "bmin \<le> x0 - y1 + 1"
    using r(3,7) long bx by linarith+
  have "even (fmin - bmin)"
    using dvd_add[OF dvd_diff[OF p] par] by (simp add: algebra_simps)
  then have eq: "bmin = fmin" using near r(1,5) by presburger
  have "x0 + y0 + cf \<le> 2 * F fmin - fmin" using lf f by (simp add: low_def)
  moreover have "diag (- bmax) (- bmin) (- fmin)" using b diag_neg[OF r(9), of fmin] eq by simp
  then have "- x1 + - y1 + cb \<le> 2 * neg B (- fmin) - (- fmin)"
    using lb unfolding low_def by blast
  ultimately have "B fmin \<le> F fmin" using long bx by (simp add: neg_def)
  with f b eq show ?thesis by simp
qed

text \<open>A meeting point found by the forward path, and one found by the backward path, split the box.\<close>

lemma fwd_hit_splits:
  assumes fr: "front X1 Y1 fmin fmax F blo bhi" "blo \<le> X1 - Y1" "X1 - Y1 \<le> bhi"
      "bmax \<le> bhi + 1" "blo - 1 \<le> bmin"
    and rnd: "round1 X1 Y1 fmin fmax F d v" and l: "low x0 y0 fmin fmax F c" and c: "0 \<le> c"
    and d: "bmin \<le> d" "d \<le> bmax"
  shows "splits x0 X1 y0 Y1 v (v - d)"
proof -
  have "v \<le> X1 \<and> v - d \<le> Y1 \<and> \<not> (v = X1 \<and> v - d = Y1)"
    by (rule hit_in_box[OF fr(1) rnd fr(2-5) d])
  moreover have "x0 \<le> v \<and> y0 \<le> v - d \<and> x0 + y0 + (c + 1) \<le> v + (v - d)"
    using low_round1[OF l rnd] by simp
  ultimately show ?thesis using c by (auto simp: splits_def)
qed

lemma splits_neg: "splits (- x1) (- x0) (- y1) (- y0) (- x) (- y) \<Longrightarrow> splits x0 x1 y0 y1 x y"
  by (auto simp: splits_def)

lemma bwd_hit_splits:
  assumes fr: "front (- x0) (- y0) (- bmax) (- bmin) (neg B) (- fmax) (- fmin)"
    and m: "fmin \<le> x0 - y0" "x0 - y0 \<le> fmax" "fmin - 1 \<le> fmin'" "fmax' \<le> fmax + 1"
    and rnd: "round1 (- x0) (- y0) (- bmax) (- bmin) (neg B) (- d) (- v)"
    and l: "low (- x1) (- y1) (- bmax) (- bmin) (neg B) c" and c: "0 \<le> c"
    and d: "fmin' \<le> d" "d \<le> fmax'"
  shows "splits x0 x1 y0 y1 v (v - d)"
proof -
  have "splits (- x1) (- x0) (- y1) (- y0) (- v) (- v - - d)"
    by (rule fwd_hit_splits[OF fr _ _ _ _ rnd l c, of "- fmin'" "- fmax'"]) (use m d in auto)
  moreover have "- v - - d = - (v - d)" by simp
  ultimately show ?thesis using splits_neg[of x1 x0 y1 y0 v "v - d"] by simp
qed

text \<open>A round without a meeting keeps what \<open>searching\<close> says of the two paths.\<close>

lemma front_fwd_next:
  assumes fr: "front x1 y1 fmin fmax F blo bhi" "blo \<le> x1 - y1" "x1 - y1 \<le> bhi"
    and wd: "widened (x0 - y1) (x1 - y0) fmin fmax fmin' fmax'"
    and rnd: "\<And>d. diag fmin' fmax' d \<Longrightarrow> round1 x1 y1 fmin fmax F d (F' d)"
    and rf: "rng (x0 - y1) (x1 - y0) (x0 - y0) fmin fmax c"
    and rf': "rng (x0 - y1) (x1 - y0) (x0 - y0) fmin' fmax' (c + 1)"
    and rb: "rng (x0 - y1) (x1 - y0) (x1 - y1) bmin bmax c"
    and lb: "low (- x1) (- y1) (- bmax) (- bmin) (neg B) c"
    and b: "x0 < x1" "y0 < y1" and od: "odd (x0 - y0 - (x1 - y1))"
    and miss: "\<And>d. diag fmin' fmax' d \<Longrightarrow> bmin \<le> d \<Longrightarrow> d \<le> bmax \<Longrightarrow> F' d < B d"
  shows "front x1 y1 fmin' fmax' F' bmin bmax"
proof -
  have p: "even (x0 - y0 + (c + 1) - (x1 - y1 + c))" using od by presburger
  have pb: "even (bmax - bmin)" and bm: "bmin \<le> x1 - y1" "x1 - y1 \<le> bmax"
    and rf0: "x0 - y1 \<le> fmin" "fmax \<le> x1 - y0" "even (fmax - fmin)"
    and q: "even (bmin - (x1 - y1) - c)" "even (fmin' - (x0 - y0) - (c + 1))"
    using rb rf rf' unfolding rng_def by blast+
  have pp: "even (fmin' - bmin)"
    using dvd_add[OF dvd_diff[OF q(2,1)] p] by (simp add: algebra_simps)
  have near: "F' d < x1 \<and> F' d - d < y1" if d: "diag fmin' fmax' d" "bmin \<le> d" "d \<le> bmax" for d
  proof -
    have "diag bmin bmax d" by (rule meet_parity[OF rf' rb p d])
    then have "diag (- bmax) (- bmin) (- d)" using diag_neg[of bmax bmin d] pb by blast
    then have "- x1 \<le> neg B (- d) \<and> - y1 \<le> neg B (- d) - (- d)" using lb unfolding low_def by blast
    then show ?thesis using miss[OF d] by (simp add: neg_def)
  qed
  have mid: "x0 - y1 < x1 - y1" "x1 - y1 < x1 - y0" using b by simp_all
  show ?thesis
    by (rule front_step[OF fr(1) wd rnd rf0 mid fr(2,3) bm pb pp near])
qed

lemma front_bwd_next:
  assumes fr: "front (- x0) (- y0) (- bmax) (- bmin) (neg B) (- fmax) (- fmin)"
    and m: "fmin \<le> x0 - y0" "x0 - y0 \<le> fmax"
    and wd: "widened (x0 - y1) (x1 - y0) bmin bmax bmin' bmax'"
    and rnd: "\<And>d. diag bmin' bmax' d \<Longrightarrow>
         round1 (- x0) (- y0) (- bmax) (- bmin) (neg B) (- d) (neg B' (- d))"
    and rb: "rng (x0 - y1) (x1 - y0) (x1 - y1) bmin bmax c"
    and rb': "rng (x0 - y1) (x1 - y0) (x1 - y1) bmin' bmax' (c + 1)"
    and rf': "rng (x0 - y1) (x1 - y0) (x0 - y0) fmin' fmax' (c + 1)"
    and lf': "low x0 y0 fmin' fmax' F' (c + 1)"
    and b: "x0 < x1" "y0 < y1" and ev: "even (x0 - y0 - (x1 - y1))"
    and miss: "\<And>d. diag bmin' bmax' d \<Longrightarrow> fmin' \<le> d \<Longrightarrow> d \<le> fmax' \<Longrightarrow> F' d < B' d"
  shows "front (- x0) (- y0) (- bmax') (- bmin') (neg B') (- fmax') (- fmin')"
proof -
  have p: "even (x1 - y1 + (c + 1) - (x0 - y0 + (c + 1)))" using ev by presburger
  have eb: "even (bmax' - bmin')" and ef: "even (fmax' - fmin')"
    and rb0: "x0 - y1 \<le> bmin" "bmax \<le> x1 - y0" "even (bmax - bmin)"
    and mf: "fmin' \<le> x0 - y0" "x0 - y0 \<le> fmax'"
    and q: "even (fmin' - (x0 - y0) - (c + 1))" "even (bmin' - (x1 - y1) - (c + 1))"
    using rb rb' rf' unfolding rng_def by blast+
  have w: "widened (- (x1 - y0)) (- (x0 - y1)) (- bmax) (- bmin) (- bmax') (- bmin')"
    using wd by (auto simp: widened_def)
  have r: "round1 (- x0) (- y0) (- bmax) (- bmin) (neg B) e (neg B' e)"
    if "diag (- bmax') (- bmin') e" for e
    using rnd[of "- e"] that diag_neg[OF eb, of "- e"] by simp
  have "even (bmin' - fmin')"
    using dvd_add[OF dvd_diff[OF q(2,1)] p] by (simp add: algebra_simps)
  with eb ef have par: "even (- fmin' - - fmax')" "even (- bmax' - - fmax')" by presburger+
  have near: "neg B' e < - x0 \<and> neg B' e - e < - y0"
    if d: "diag (- bmax') (- bmin') e" "- fmax' \<le> e" "e \<le> - fmin'" for e
  proof -
    have d': "diag bmin' bmax' (- e)" "fmin' \<le> - e" "- e \<le> fmax'"
      using d diag_neg[OF eb, of "- e"] by auto
    have "diag fmin' fmax' (- e)" by (rule meet_parity[OF rb' rf' p d'])
    then have "x0 \<le> F' (- e) \<and> y0 \<le> F' (- e) - (- e)" using lf' unfolding low_def by blast
    then show ?thesis using miss[OF d'] by (simp add: neg_def)
  qed
  have rest: "- (x1 - y0) \<le> - bmax" "- bmin \<le> - (x0 - y1)" "even (- bmin - - bmax)"
    "- (x1 - y0) < - x0 - - y0" "- x0 - - y0 < - (x0 - y1)"
    "- fmax \<le> - x0 - - y0" "- x0 - - y0 \<le> - fmin"
    "- fmax' \<le> - x0 - - y0" "- x0 - - y0 \<le> - fmin'"
    using rb0 b m mf by simp_all
  show ?thesis by (rule front_step[OF fr w r rest par near])
qed

lemma round_searching:
  assumes wf: "wf s" and bx: "box s x0 x1 y0 y1"
    and inv: "searching s x0 x1 y0 y1 fmin fmax bmin bmax c" and c: "0 \<le> c"
    and oddp: "oddp \<longleftrightarrow> odd (x0 - y0 - (x1 - y1))"
  obtains v fmin' fmax' hit v' where
    "widen (fd s) (soff s) (x0 - y1) (x1 - y0) (-1) fmin fmax = Some (v, fmin', fmax')"
    "fwd_diags (s\<lparr>fd := v\<rparr>) x1 y1 oddp bmin bmax fmin' fmax' = Some (hit, s\<lparr>fd := v'\<rparr>)"
    "length v' = length (fd s)"
    "\<And>x y. hit = Some (x, y) \<Longrightarrow> splits x0 x1 y0 y1 x y"
    "hit = None \<Longrightarrow> \<exists>u bmin' bmax' hit' u'.
       widen (bd s) (soff s) (x0 - y1) (x1 - y0) MaxInt bmin bmax = Some (u, bmin', bmax') \<and>
       bwd_diags (s\<lparr>fd := v', bd := u\<rparr>) x0 y0 oddp fmin' fmax' bmin' bmax'
         = Some (hit', s\<lparr>fd := v', bd := u'\<rparr>) \<and>
       length u' = length (bd s) \<and>
       (\<forall>x y. hit' = Some (x, y) \<longrightarrow> splits x0 x1 y0 y1 x y) \<and>
       (hit' = None \<longrightarrow> c + 1 \<le> x1 - x0 + (y1 - y0) \<and>
          searching (s\<lparr>fd := v', bd := u'\<rparr>) x0 x1 y0 y1 fmin' fmax' bmin' bmax' (c + 1))"
proof -
  have b0: "x0 < x1" "y0 < y1" using bx by (auto simp: box_def)
  obtain F B where F: "holds (fd s) (soff s) fmin fmax F" and B: "holds (bd s) (soff s) bmin bmax B"
    and lf: "low x0 y0 fmin fmax F c" and lb: "low (- x1) (- y1) (- bmax) (- bmin) (neg B) c"
    and rf: "rng (x0 - y1) (x1 - y0) (x0 - y0) fmin fmax c"
    and rb: "rng (x0 - y1) (x1 - y0) (x1 - y1) bmin bmax c"
    and fr: "if odd (x0 - y0 - (x1 - y1))
      then \<exists>blo bhi. front x1 y1 fmin fmax F blo bhi \<and> blo \<le> x1 - y1 \<and> x1 - y1 \<le> bhi \<and>
             bmax \<le> bhi + 1 \<and> blo - 1 \<le> bmin
      else front (- x0) (- y0) (- bmax) (- bmin) (neg B) (- fmax) (- fmin)"
    using inv unfolding searching_def by blast
  obtain v fmin' fmax' hit v' F' where
      w: "widen (fd s) (soff s) (x0 - y1) (x1 - y0) (-1) fmin fmax = Some (v, fmin', fmax')"
    and fd: "fwd_diags (s\<lparr>fd := v\<rparr>) x1 y1 oddp bmin bmax fmin' fmax' = Some (hit, s\<lparr>fd := v'\<rparr>)"
    and lv: "length v' = length (fd s)" and wd: "widened (x0 - y1) (x1 - y0) fmin fmax fmin' fmax'"
    and rnd: "\<And>d. diag fmin' fmax' d \<Longrightarrow> round1 x1 y1 fmin fmax F d (F' d)"
    and res: "case hit of
       None \<Rightarrow> holds v' (soff s) fmin' fmax' F' \<and>
         (\<forall>d. diag fmin' fmax' d \<longrightarrow> oddp \<longrightarrow> bmin \<le> d \<longrightarrow> d \<le> bmax \<longrightarrow> F' d < B d)
     | Some (x, y) \<Rightarrow> \<exists>d. diag fmin' fmax' d \<and> oddp \<and> bmin \<le> d \<and> d \<le> bmax \<and>
         x = F' d \<and> y = F' d - d"
    using fwd_round[OF wf bx F B lf rf rb oddp] by blast
  have rf': "rng (x0 - y1) (x1 - y0) (x0 - y0) fmin' fmax' (c + 1)"
    by (rule rng_step[OF rf wd]) (use b0 in auto)
  have lf': "low x0 y0 fmin' fmax' F' (c + 1)" by (rule low_step[OF lf rnd])
  have sp: "splits x0 x1 y0 y1 x y" if h: "hit = Some (x, y)" for x y
  proof -
    obtain d where d: "diag fmin' fmax' d" "oddp" "bmin \<le> d" "d \<le> bmax" "x = F' d" "y = F' d - d"
      using res h by auto
    obtain blo bhi where f: "front x1 y1 fmin fmax F blo bhi" "blo \<le> x1 - y1" "x1 - y1 \<le> bhi"
      "bmax \<le> bhi + 1" "blo - 1 \<le> bmin" using fr d(2) oddp by auto
    show ?thesis unfolding d(5,6) by (rule fwd_hit_splits[OF f rnd[OF d(1)] lf c d(3,4)])
  qed
  show ?thesis
  proof (rule that[OF w fd lv sp])
    assume hn: "hit = None"
    then have F': "holds v' (soff s) fmin' fmax' F'"
      and miss: "\<And>d. diag fmin' fmax' d \<Longrightarrow> oddp \<Longrightarrow> bmin \<le> d \<Longrightarrow> d \<le> bmax \<Longrightarrow> F' d < B d"
      using res by auto
    let ?s = "s\<lparr>fd := v'\<rparr>"
    have s': "wf ?s" "box ?s x0 x1 y0 y1" "holds (fd ?s) (soff ?s) fmin' fmax' F'"
      "holds (bd ?s) (soff ?s) bmin bmax B"
      using wf bx F' B lv by (auto simp: wf_def box_def)
    obtain u bmin' bmax' hit' u' B' where
        wb0: "widen (bd ?s) (soff ?s) (x0 - y1) (x1 - y0) MaxInt bmin bmax = Some (u, bmin', bmax')"
      and bdg0: "bwd_diags (?s\<lparr>bd := u\<rparr>) x0 y0 oddp fmin' fmax' bmin' bmax' = Some (hit', ?s\<lparr>bd := u'\<rparr>)"
      and lu0: "length u' = length (bd ?s)" and wbd: "widened (x0 - y1) (x1 - y0) bmin bmax bmin' bmax'"
      and rndb: "\<And>d. diag bmin' bmax' d \<Longrightarrow>
         round1 (- x0) (- y0) (- bmax) (- bmin) (neg B) (- d) (neg B' (- d))"
      and resb: "case hit' of
         None \<Rightarrow> holds u' (soff ?s) bmin' bmax' B' \<and>
           (\<forall>d. diag bmin' bmax' d \<longrightarrow> \<not> oddp \<longrightarrow> fmin' \<le> d \<longrightarrow> d \<le> fmax' \<longrightarrow> F' d < B' d)
       | Some (x, y) \<Rightarrow> \<exists>d. diag bmin' bmax' d \<and> \<not> oddp \<and> fmin' \<le> d \<and> d \<le> fmax' \<and>
           x = B' d \<and> y = B' d - d"
      using bwd_round[OF s' lb rf' rb oddp] by blast
    have wb: "widen (bd s) (soff s) (x0 - y1) (x1 - y0) MaxInt bmin bmax = Some (u, bmin', bmax')"
      and bdg: "bwd_diags (s\<lparr>fd := v', bd := u\<rparr>) x0 y0 oddp fmin' fmax' bmin' bmax'
         = Some (hit', s\<lparr>fd := v', bd := u'\<rparr>)"
      and lu: "length u' = length (bd s)"
      using wb0 bdg0 lu0 by simp_all
    have rb': "rng (x0 - y1) (x1 - y0) (x1 - y1) bmin' bmax' (c + 1)"
      by (rule rng_step[OF rb wbd]) (use b0 in auto)
    have evb: "even (bmax' - bmin')" "even (bmax - bmin)" and evf: "even (fmax' - fmin')"
      using rb' rb rf' by (auto simp: rng_def)
    have rndn: "round1 (- x0) (- y0) (- bmax) (- bmin) (neg B) e (neg B' e)"
      if "diag (- bmax') (- bmin') e" for e
      using rndb[of "- e"] that diag_neg[OF evb(1), of "- e"] by simp
    have lb': "low (- x1) (- y1) (- bmax') (- bmin') (neg B') (c + 1)"
      by (rule low_step[OF lb rndn])
    have mf: "fmin \<le> x0 - y0" "x0 - y0 \<le> fmax" using rf unfolding rng_def by blast+
    have spb: "splits x0 x1 y0 y1 x y" if h: "hit' = Some (x, y)" for x y
    proof -
      obtain d where d: "diag bmin' bmax' d" "\<not> oddp" "fmin' \<le> d" "d \<le> fmax'" "x = B' d" "y = B' d - d"
        using resb h by auto
      have "front (- x0) (- y0) (- bmax) (- bmin) (neg B) (- fmax) (- fmin)" using fr d(2) oddp by simp
      moreover have "fmin - 1 \<le> fmin'" "fmax' \<le> fmax + 1" using wd by (auto simp: widened_def)
      moreover have "round1 (- x0) (- y0) (- bmax) (- bmin) (neg B) (- d) (- B' d)"
        using rndb[OF d(1)] by (simp add: neg_def)
      ultimately show ?thesis unfolding d(5,6) by (rule bwd_hit_splits[OF _ mf _ _ _ lb c d(3,4)])
    qed
    have next': "c + 1 \<le> x1 - x0 + (y1 - y0) \<and>
          searching (s\<lparr>fd := v', bd := u'\<rparr>) x0 x1 y0 y1 fmin' fmax' bmin' bmax' (c + 1)"
      if h': "hit' = None"
    proof
      have B': "holds u' (soff s) bmin' bmax' B'"
        and missb: "\<And>d. diag bmin' bmax' d \<Longrightarrow> \<not> oddp \<Longrightarrow> fmin' \<le> d \<Longrightarrow> d \<le> fmax' \<Longrightarrow> F' d < B' d"
        using resb h' by auto
      show "c + 1 \<le> x1 - x0 + (y1 - y0)"
      proof (rule ccontr)
        assume "\<not> c + 1 \<le> x1 - x0 + (y1 - y0)"
        then have long: "c \<ge> x1 - x0 + (y1 - y0)" "c + 1 \<ge> x1 - x0 + (y1 - y0)" by simp_all
        show False
        proof (cases oddp)
          case True
          then have "even (x0 - y0 + (c + 1) - (x1 - y1 + c))" using oddp by presburger
          from meets_in_time[OF b0 rf' lf' rb lb this long(2,1)] miss True
          show False by (force simp: diag_def)
        next
          case False
          then have "even (x0 - y0 + (c + 1) - (x1 - y1 + (c + 1)))" using oddp by presburger
          from meets_in_time[OF b0 rf' lf' rb' lb' this long(2,2)] missb False
          show False by (force simp: diag_def)
        qed
      qed
      have "if odd (x0 - y0 - (x1 - y1))
        then \<exists>blo bhi. front x1 y1 fmin' fmax' F' blo bhi \<and> blo \<le> x1 - y1 \<and> x1 - y1 \<le> bhi \<and>
               bmax' \<le> bhi + 1 \<and> blo - 1 \<le> bmin'
        else front (- x0) (- y0) (- bmax') (- bmin') (neg B') (- fmax') (- fmin')"
      proof (cases oddp)
        case True
        obtain blo bhi where f: "front x1 y1 fmin fmax F blo bhi" "blo \<le> x1 - y1" "x1 - y1 \<le> bhi"
          using fr True oddp by auto
        have "front x1 y1 fmin' fmax' F' bmin bmax"
          using front_fwd_next[OF f wd rnd rf rf' rb lb b0] miss True oddp by blast
        moreover have "bmin \<le> x1 - y1" "x1 - y1 \<le> bmax" using rb unfolding rng_def by blast+
        moreover have "bmax' \<le> bmax + 1" "bmin - 1 \<le> bmin'" using wbd by (auto simp: widened_def)
        ultimately show ?thesis using True oddp by auto
      next
        case False
        then have "front (- x0) (- y0) (- bmax) (- bmin) (neg B) (- fmax) (- fmin)"
          using fr oddp by simp
        from front_bwd_next[OF this mf wbd rndb rb rb' rf' lf' b0] missb False oddp
        show ?thesis by auto
      qed
      then show "searching (s\<lparr>fd := v', bd := u'\<rparr>) x0 x1 y0 y1 fmin' fmax' bmin' bmax' (c + 1)"
        unfolding searching_def using F' B' lf' lb' rf' rb' by (intro exI[of _ F'] exI[of _ B']) simp
    qed
    show "\<exists>u bmin' bmax' hit' u'.
       widen (bd s) (soff s) (x0 - y1) (x1 - y0) MaxInt bmin bmax = Some (u, bmin', bmax') \<and>
       bwd_diags (s\<lparr>fd := v', bd := u\<rparr>) x0 y0 oddp fmin' fmax' bmin' bmax'
         = Some (hit', s\<lparr>fd := v', bd := u'\<rparr>) \<and>
       length u' = length (bd s) \<and>
       (\<forall>x y. hit' = Some (x, y) \<longrightarrow> splits x0 x1 y0 y1 x y) \<and>
       (hit' = None \<longrightarrow> c + 1 \<le> x1 - x0 + (y1 - y0) \<and>
          searching (s\<lparr>fd := v', bd := u'\<rparr>) x0 x1 y0 y1 fmin' fmax' bmin' bmax' (c + 1))"
      using wb bdg lu spb next' by blast
  qed
qed
lemma same_frame_refl: "same_frame s s"
  by (simp add: same_frame_def)

lemma same_frame_trans: "same_frame s t \<Longrightarrow> same_frame t u \<Longrightarrow> same_frame s u"
  by (simp add: same_frame_def)

lemma same_frame_wf: "same_frame s t \<Longrightarrow> wf s \<Longrightarrow> wf t"
  by (simp add: same_frame_def wf_def)

lemma same_frame_box: "same_frame s t \<Longrightarrow> box s x0 x1 y0 y1 \<Longrightarrow> box t x0 x1 y0 y1"
  by (simp add: same_frame_def box_def)

lemma middle_loop_ok:
  assumes "wf s" "box s x0 x1 y0 y1" "searching s x0 x1 y0 y1 fmin fmax bmin bmax c"
    "0 \<le> c" "c \<le> x1 - x0 + (y1 - y0)" "x1 - x0 + (y1 - y0) + 1 - c \<le> int fuel"
  shows "\<exists>xm ym s'. middle_loop fuel s x0 x1 y0 y1 fmin fmax bmin bmax (c + 1) = Some ((xm, ym), s') \<and>
    splits x0 x1 y0 y1 xm ym \<and> same_frame s s'"
  using assms
proof (induction fuel arbitrary: s fmin fmax bmin bmax c)
  case 0
  then show ?case by simp
next
  case (Suc fuel)
  define oddp where "oddp \<longleftrightarrow> (x0 - y0 - (x1 - y1)) mod 2 \<noteq> 0"
  have op: "oddp \<longleftrightarrow> odd (x0 - y0 - (x1 - y1))" unfolding oddp_def by presburger
  have op': "((x0 - y0 - (x1 - y1)) mod 2 = 1) = oddp" by (simp add: oddp_def)
  obtain v fmin' fmax' hit v' where
      w: "widen (fd s) (soff s) (x0 - y1) (x1 - y0) (-1) fmin fmax = Some (v, fmin', fmax')"
    and f: "fwd_diags (s\<lparr>fd := v\<rparr>) x1 y1 oddp bmin bmax fmin' fmax' = Some (hit, s\<lparr>fd := v'\<rparr>)"
    and lv: "length v' = length (fd s)"
    and sp: "\<And>x y. hit = Some (x, y) \<Longrightarrow> splits x0 x1 y0 y1 x y"
    and cont: "hit = None \<Longrightarrow> \<exists>u bmin' bmax' hit' u'.
       widen (bd s) (soff s) (x0 - y1) (x1 - y0) MaxInt bmin bmax = Some (u, bmin', bmax') \<and>
       bwd_diags (s\<lparr>fd := v', bd := u\<rparr>) x0 y0 oddp fmin' fmax' bmin' bmax'
         = Some (hit', s\<lparr>fd := v', bd := u'\<rparr>) \<and>
       length u' = length (bd s) \<and>
       (\<forall>x y. hit' = Some (x, y) \<longrightarrow> splits x0 x1 y0 y1 x y) \<and>
       (hit' = None \<longrightarrow> c + 1 \<le> x1 - x0 + (y1 - y0) \<and>
          searching (s\<lparr>fd := v', bd := u'\<rparr>) x0 x1 y0 y1 fmin' fmax' bmin' bmax' (c + 1))"
    using round_searching[OF Suc.prems(1-4) op] by blast
  show ?case
  proof (cases hit)
    case (Some xy)
    obtain x y where xy: "xy = (x, y)" by force
    have "same_frame s (s\<lparr>fd := v'\<rparr>)" using lv by (simp add: same_frame_def)
    with Some xy sp w f show ?thesis by (auto simp: Let_def op')
  next
    case None
    then obtain u bmin' bmax' hit' u' where
        wb: "widen (bd s) (soff s) (x0 - y1) (x1 - y0) MaxInt bmin bmax = Some (u, bmin', bmax')"
      and b: "bwd_diags (s\<lparr>fd := v', bd := u\<rparr>) x0 y0 oddp fmin' fmax' bmin' bmax'
         = Some (hit', s\<lparr>fd := v', bd := u'\<rparr>)"
      and lu: "length u' = length (bd s)"
      and sp': "\<And>x y. hit' = Some (x, y) \<Longrightarrow> splits x0 x1 y0 y1 x y"
      and nxt: "hit' = None \<Longrightarrow> c + 1 \<le> x1 - x0 + (y1 - y0) \<and>
          searching (s\<lparr>fd := v', bd := u'\<rparr>) x0 x1 y0 y1 fmin' fmax' bmin' bmax' (c + 1)"
      using cont by blast
    let ?s = "s\<lparr>fd := v', bd := u'\<rparr>"
    have fr: "same_frame s ?s" using lv lu by (simp add: same_frame_def)
    have unf: "middle_loop (Suc fuel) s x0 x1 y0 y1 fmin fmax bmin bmax (c + 1) =
      (case hit' of Some xy \<Rightarrow> Some (xy, ?s) | None \<Rightarrow>
         if c + 1 \<ge> expensive ?s then do {
              (xm, ym, ok) \<leftarrow> furthest ?s x0 x1 y0 y1 fmin' fmax' bmin' bmax';
              (if ok then Some ((xm, ym), ?s)
               else middle_loop fuel ?s x0 x1 y0 y1 fmin' fmax' bmin' bmax' (c + 1 + 1))
         } else middle_loop fuel ?s x0 x1 y0 y1 fmin' fmax' bmin' bmax' (c + 1 + 1))"
      using w f None wb b by (simp add: Let_def op' cong: if_cong option.case_cong)
    show ?thesis
    proof (cases hit')
      case (Some xy)
      with unf sp' fr show ?thesis by (cases xy) auto
    next
      case None
      note n = nxt[OF None]
      have w': "wf ?s" "box ?s x0 x1 y0 y1"
        using same_frame_wf[OF fr] same_frame_box[OF fr] Suc.prems(1,2) by auto
      have "\<exists>xm ym s'. middle_loop fuel ?s x0 x1 y0 y1 fmin' fmax' bmin' bmax' (c + 1 + 1) = Some ((xm, ym), s') \<and>
        splits x0 x1 y0 y1 xm ym \<and> same_frame ?s s'"
        by (rule Suc.IH[OF w']) (use n Suc.prems(4-6) in auto)
      then obtain xm ym s' where rec:
          "middle_loop fuel ?s x0 x1 y0 y1 fmin' fmax' bmin' bmax' (c + 1 + 1) = Some ((xm, ym), s')"
          "splits x0 x1 y0 y1 xm ym" "same_frame s s'"
        using same_frame_trans[OF fr] by blast
      obtain F B where "holds (fd ?s) (soff ?s) fmin' fmax' F" "holds (bd ?s) (soff ?s) bmin' bmax' B"
          "low x0 y0 fmin' fmax' F (c + 1)" "low (- x1) (- y1) (- bmax') (- bmin') (neg B) (c + 1)"
          "rng (x0 - y1) (x1 - y0) (x0 - y0) fmin' fmax' (c + 1)"
          "rng (x0 - y1) (x1 - y0) (x1 - y1) bmin' bmax' (c + 1)"
        using n unfolding searching_def by blast
      from furthest_ok[OF w' this] obtain xf yf ok where
          fu: "furthest ?s x0 x1 y0 y1 fmin' fmax' bmin' bmax' = Some (xf, yf, ok)"
          "ok \<Longrightarrow> splits x0 x1 y0 y1 xf yf"
        unfolding splits_def by blast
      show ?thesis
        using unf None rec fu fr by (cases ok) auto
    qed
  qed
qed

lemma middle_ok:
  assumes "wf s" "box s x0 x1 y0 y1"
  shows "\<exists>xm ym s'. middle s x0 x1 y0 y1 = Some ((xm, ym), s') \<and>
    splits x0 x1 y0 y1 xm ym \<and> same_frame s s'"
proof -
  have i: "0 \<le> soff s + (x0 - y0)" "soff s + (x0 - y0) < int (length (fd s))"
      "0 \<le> soff s + (x1 - y1)" "soff s + (x1 - y1) < int (length (bd s))"
    using assms by (auto simp: wf_def box_def)
  obtain f b where f: "aset (fd s) (soff s + (x0 - y0)) x0 = Some f" "length f = length (fd s)"
      "aget f (soff s + (x0 - y0)) = Some x0"
    and b: "aset (bd s) (soff s + (x1 - y1)) x1 = Some b" "length b = length (bd s)"
      "aget b (soff s + (x1 - y1)) = Some x1"
    using aset_props[OF i(1,2), of x0] aset_props[OF i(3,4), of x1] by auto
  let ?s = "s\<lparr>fd := f, bd := b\<rparr>"
  have fr: "same_frame s ?s" using f b by (simp add: same_frame_def)
  have one: "diag d0 d0 d \<longleftrightarrow> d = d0" for d0 d by (auto simp: diag_def)
  have bx: "x0 < x1" "y0 < y1" using assms(2) by (auto simp: box_def)
  have "searching ?s x0 x1 y0 y1 (x0 - y0) (x0 - y0) (x1 - y1) (x1 - y1) 0"
    unfolding searching_def
    by (rule exI[of _ "\<lambda>_. x0"], rule exI[of _ "\<lambda>_. x1"])
      (use f b bx in \<open>auto simp: holds_def one low_def rng_def front_def neg_def intro!: exI[of _ "x1 - y1"]\<close>)
  from middle_loop_ok[OF same_frame_wf[OF fr assms(1)] same_frame_box[OF fr assms(2)] this,
      of "nat ((x1 - x0) + (y1 - y0)) + 1"]
  obtain xm ym s' where "middle_loop (nat ((x1 - x0) + (y1 - y0)) + 1) ?s x0 x1 y0 y1
      (x0 - y0) (x0 - y0) (x1 - y1) (x1 - y1) 1 = Some ((xm, ym), s')"
      "splits x0 x1 y0 y1 xm ym" "same_frame ?s s'"
    using bx by auto
  then show ?thesis
    using f(1) b(1) same_frame_trans[OF fr] by (simp add: middle_def del: middle_loop.simps)
qed
subsection \<open>Common subsequences\<close>

text \<open>
  Index pairs that go up on both sides, stay inside a box and join equal lines: what
  \<open>compare\<close> appends.
\<close>

definition valid_pairs ::
  "'a list \<Rightarrow> 'a list \<Rightarrow> int \<Rightarrow> int \<Rightarrow> int \<Rightarrow> int \<Rightarrow> pair list \<Rightarrow> bool" where
  "valid_pairs a b x0 x1 y0 y1 ps \<longleftrightarrow>
     sorted_wrt (\<lambda>p q. fst p < fst q \<and> snd p < snd q) ps \<and>
     (\<forall>p \<in> set ps. x0 \<le> fst p \<and> fst p < x1 \<and> y0 \<le> snd p \<and> snd p < y1 \<and>
        a ! nat (fst p) = b ! nat (snd p))"

lemma valid_pairs_Nil [simp]: "valid_pairs a b x0 x1 y0 y1 []"
  by (simp add: valid_pairs_def)

lemma valid_pairs_append:
  assumes "valid_pairs a b x0 xm y0 ym ps" "valid_pairs a b xm x1 ym y1 qs"
    "x0 \<le> xm" "xm \<le> x1" "y0 \<le> ym" "ym \<le> y1"
  shows "valid_pairs a b x0 x1 y0 y1 (ps @ qs)"
  using assms unfolding valid_pairs_def sorted_wrt_append by fastforce

lemma compare_prefix_ok:
  assumes "0 \<le> x0" "x1 \<le> int (length (sa s))" "0 \<le> y0" "y1 \<le> int (length (sb s))" "x0 \<le> x1" "y0 \<le> y1"
  shows "\<exists>x y ps. compare_prefix s x0 x1 y0 y1 = Some (s\<lparr>sout := sout s @ ps\<rparr>, x, y) \<and>
    x0 \<le> x \<and> x \<le> x1 \<and> y0 \<le> y \<and> y \<le> y1 \<and> valid_pairs (sa s) (sb s) x0 x y0 y ps \<and>
    (x < x1 \<and> y < y1 \<longrightarrow> sa s ! nat x \<noteq> sb s ! nat y)"
  using assms
proof (induction s x0 x1 y0 y1 rule: compare_prefix.induct)
  case (1 s x0 x1 y0 y1)
  show ?case
  proof (cases "x0 < x1 \<and> y0 < y1 \<and> sa s ! nat x0 = sb s ! nat y0")
    case True
    then have g: "aget (sa s) x0 = Some (sa s ! nat x0)" "aget (sb s) y0 = Some (sb s ! nat y0)"
      using "1.prems" by (auto simp: aget_def)
    let ?s = "s\<lparr>sout := sout s @ [(x0, y0)]\<rparr>"
    have "\<exists>x y ps. compare_prefix ?s (x0 + 1) x1 (y0 + 1) y1 = Some (?s\<lparr>sout := sout ?s @ ps\<rparr>, x, y) \<and>
      x0 + 1 \<le> x \<and> x \<le> x1 \<and> y0 + 1 \<le> y \<and> y \<le> y1 \<and> valid_pairs (sa ?s) (sb ?s) (x0 + 1) x (y0 + 1) y ps \<and>
      (x < x1 \<and> y < y1 \<longrightarrow> sa ?s ! nat x \<noteq> sb ?s ! nat y)"
      by (rule "1.IH") (use True g "1.prems" in auto)
    then obtain x y ps where r: "compare_prefix ?s (x0 + 1) x1 (y0 + 1) y1
          = Some (s\<lparr>sout := sout s @ (x0, y0) # ps\<rparr>, x, y)"
        "x0 + 1 \<le> x" "x \<le> x1" "y0 + 1 \<le> y" "y \<le> y1" "valid_pairs (sa s) (sb s) (x0 + 1) x (y0 + 1) y ps"
        "x < x1 \<and> y < y1 \<longrightarrow> sa s ! nat x \<noteq> sb s ! nat y"
      by auto
    have "valid_pairs (sa s) (sb s) x0 (x0 + 1) y0 (y0 + 1) [(x0, y0)]"
      using True by (simp add: valid_pairs_def)
    from valid_pairs_append[OF this r(6)] r(2-5)
    have "valid_pairs (sa s) (sb s) x0 x y0 y ((x0, y0) # ps)" by simp
    then show ?thesis
      using r True g by (intro exI[of _ x] exI[of _ y] exI[of _ "(x0, y0) # ps"])
        (simp add: compare_prefix.simps[of s])
  next
    case False
    then show ?thesis
      using "1.prems" by (intro exI[of _ x0] exI[of _ y0] exI[of _ "[]"])
        (auto simp: compare_prefix.simps[of s] aget_def)
  qed
qed

lemma compare_suffix_ok:
  assumes "0 \<le> x0" "x1 \<le> int (length (sa s))" "0 \<le> y0" "y1 \<le> int (length (sb s))" "x0 \<le> x1" "y0 \<le> y1"
  shows "\<exists>k. compare_suffix s x0 x1 y0 y1 n = Some (x1 - int k, y1 - int k, n + k) \<and>
    x0 \<le> x1 - int k \<and> y0 \<le> y1 - int k \<and>
    (\<forall>j < k. sa s ! nat (x1 - int k + int j) = sb s ! nat (y1 - int k + int j)) \<and>
    (x0 < x1 - int k \<and> y0 < y1 - int k \<longrightarrow> sa s ! nat (x1 - int k - 1) \<noteq> sb s ! nat (y1 - int k - 1))"
  using assms
proof (induction s x0 x1 y0 y1 n rule: compare_suffix.induct)
  case (1 s x0 x1 y0 y1 n)
  show ?case
  proof (cases "x1 > x0 \<and> y1 > y0 \<and> sa s ! nat (x1 - 1) = sb s ! nat (y1 - 1)")
    case True
    then have g: "aget (sa s) (x1 - 1) = Some (sa s ! nat (x1 - 1))"
        "aget (sb s) (y1 - 1) = Some (sb s ! nat (y1 - 1))"
      using "1.prems" by (auto simp: aget_def)
    have "\<exists>k. compare_suffix s x0 (x1 - 1) y0 (y1 - 1) (Suc n) = Some (x1 - 1 - int k, y1 - 1 - int k, Suc n + k) \<and>
      x0 \<le> x1 - 1 - int k \<and> y0 \<le> y1 - 1 - int k \<and>
      (\<forall>j < k. sa s ! nat (x1 - 1 - int k + int j) = sb s ! nat (y1 - 1 - int k + int j)) \<and>
      (x0 < x1 - 1 - int k \<and> y0 < y1 - 1 - int k \<longrightarrow>
         sa s ! nat (x1 - 1 - int k - 1) \<noteq> sb s ! nat (y1 - 1 - int k - 1))"
      by (rule "1.IH") (use True g "1.prems" in auto)
    then obtain k where r: "compare_suffix s x0 (x1 - 1) y0 (y1 - 1) (Suc n)
          = Some (x1 - int (Suc k), y1 - int (Suc k), n + Suc k)"
        "x0 \<le> x1 - int (Suc k)" "y0 \<le> y1 - int (Suc k)"
        "\<forall>j < k. sa s ! nat (x1 - int (Suc k) + int j) = sb s ! nat (y1 - int (Suc k) + int j)"
        "x0 < x1 - int (Suc k) \<and> y0 < y1 - int (Suc k) \<longrightarrow>
         sa s ! nat (x1 - int (Suc k) - 1) \<noteq> sb s ! nat (y1 - int (Suc k) - 1)"
      by (auto simp: algebra_simps)
    have "\<forall>j < Suc k. sa s ! nat (x1 - int (Suc k) + int j) = sb s ! nat (y1 - int (Suc k) + int j)"
      using r(4) True by (auto simp: less_Suc_eq)
    then show ?thesis
      using r True g by (intro exI[of _ "Suc k"]) (simp add: compare_suffix.simps[of s])
  next
    case False
    then show ?thesis
      using "1.prems" by (intro exI[of _ 0]) (auto simp: compare_suffix.simps[of s] aget_def)
  qed
qed

lemma valid_pairs_run:
  assumes "\<forall>j < k. a ! nat (x + int j) = b ! nat (y + int j)"
  shows "valid_pairs a b x (x + int k) y (y + int k) (map (\<lambda>j. (x + int j, y + int j)) [0..<k])"
  using assms by (auto simp: valid_pairs_def sorted_wrt_iff_nth_less)

definition same_work :: "search \<Rightarrow> search \<Rightarrow> bool" where
  "same_work s s' \<longleftrightarrow> sa s' = sa s \<and> sb s' = sb s \<and> soff s' = soff s \<and>
     length (fd s') = length (fd s) \<and> length (bd s') = length (bd s)"

lemma same_work_wf: "same_work s s' \<Longrightarrow> wf s \<Longrightarrow> wf s'"
  by (simp add: same_work_def wf_def)

lemma compare_ok:
  assumes "wf s" "0 \<le> x0" "x1 \<le> int (length (sa s))" "0 \<le> y0" "y1 \<le> int (length (sb s))"
    "x0 \<le> x1" "y0 \<le> y1" "x1 - x0 + (y1 - y0) < int fuel"
  shows "\<exists>s' ps. compare fuel s x0 x1 y0 y1 = Some s' \<and> same_work s s' \<and> sout s' = sout s @ ps \<and>
    valid_pairs (sa s) (sb s) x0 x1 y0 y1 ps"
  using assms
proof (induction fuel arbitrary: s x0 x1 y0 y1)
  case 0
  then show ?case by simp
next
  case (Suc fuel)
  obtain u v ps where p: "compare_prefix s x0 x1 y0 y1 = Some (s\<lparr>sout := sout s @ ps\<rparr>, u, v)"
      "x0 \<le> u" "u \<le> x1" "y0 \<le> v" "v \<le> y1" "valid_pairs (sa s) (sb s) x0 u y0 v ps"
      "u < x1 \<and> v < y1 \<longrightarrow> sa s ! nat u \<noteq> sb s ! nat v"
    using compare_prefix_ok[OF Suc.prems(2-7)] by blast
  let ?s = "s\<lparr>sout := sout s @ ps\<rparr>"
  obtain k where q: "compare_suffix ?s u x1 v y1 0 = Some (x1 - int k, y1 - int k, k)"
      "u \<le> x1 - int k" "v \<le> y1 - int k"
      "\<forall>j < k. sa s ! nat (x1 - int k + int j) = sb s ! nat (y1 - int k + int j)"
      "u < x1 - int k \<and> v < y1 - int k \<longrightarrow> sa s ! nat (x1 - int k - 1) \<noteq> sb s ! nat (y1 - int k - 1)"
    using compare_suffix_ok[of u x1 ?s v y1 0] p Suc.prems by auto
  let ?x1 = "x1 - int k" and ?y1 = "y1 - int k"
  have tail: "valid_pairs (sa s) (sb s) ?x1 x1 ?y1 y1 (map (\<lambda>j. (?x1 + int j, ?y1 + int j)) [0..<k])"
    using valid_pairs_run[OF q(4)] by simp
  have "\<exists>s' qs. (if u < ?x1 \<and> v < ?y1 then do {
             ((xm, ym), s) \<leftarrow> middle ?s u ?x1 v ?y1;
             s \<leftarrow> compare fuel s u xm v ym;
             compare fuel s xm ?x1 ym ?y1
           } else Some ?s) = Some s' \<and> same_work s s' \<and> sout s' = sout s @ ps @ qs \<and>
       valid_pairs (sa s) (sb s) u ?x1 v ?y1 qs"
  proof (cases "u < ?x1 \<and> v < ?y1")
    case False
    then show ?thesis by (auto simp: same_work_def)
  next
    case True
    have w: "wf ?s" using Suc.prems(1) by (simp add: wf_def)
    have bx: "box ?s u ?x1 v ?y1" using True p q Suc.prems by (auto simp: box_def)
    obtain xm ym t where m: "middle ?s u ?x1 v ?y1 = Some ((xm, ym), t)"
      "splits u ?x1 v ?y1 xm ym" "same_frame ?s t"
      using middle_ok[OF w bx] by blast
    have t: "wf t" "sa t = sa s" "sb t = sb s" "sout t = sout s @ ps" "same_work s t"
      using same_frame_wf[OF m(3) w] m(3) by (auto simp: same_frame_def same_work_def)
    have le: "u \<le> xm" "xm \<le> ?x1" "v \<le> ym" "ym \<le> ?y1"
      and lt: "xm - u + (ym - v) < int fuel" "?x1 - xm + (?y1 - ym) < int fuel"
      using m(2) p q Suc.prems(8) by (auto simp: splits_def)
    have u0: "0 \<le> u" "0 \<le> v" "0 \<le> xm" "0 \<le> ym"
      using Suc.prems(2,4) p(2,4) le(1,3) by linarith+
    have xl: "xm \<le> int (length (sa t))" "?x1 \<le> int (length (sa t))"
        "ym \<le> int (length (sb t))" "?y1 \<le> int (length (sb t))"
      using Suc.prems(3,5) le(2,4) t(2,3) by simp_all
    obtain s1 q1 where c1: "compare fuel t u xm v ym = Some s1" "same_work t s1"
        "sout s1 = sout t @ q1" "valid_pairs (sa s) (sb s) u xm v ym q1"
      using Suc.IH[OF t(1) u0(1) xl(1) u0(2) xl(3) le(1,3) lt(1)] unfolding t(2,3) by blast
    have s1: "wf s1" "sa s1 = sa s" "sb s1 = sb s" "same_work s s1"
      using same_work_wf[OF c1(2) t(1)] c1(2) t by (auto simp: same_work_def)
    obtain s2 q2 where c2: "compare fuel s1 xm ?x1 ym ?y1 = Some s2" "same_work s1 s2"
        "sout s2 = sout s1 @ q2" "valid_pairs (sa s) (sb s) xm ?x1 ym ?y1 q2"
      using Suc.IH[OF s1(1) u0(3) _ u0(4) _ le(2,4) lt(2)] xl(2,4) unfolding s1(2,3) t(2,3) by blast
    have "valid_pairs (sa s) (sb s) u ?x1 v ?y1 (q1 @ q2)"
      by (rule valid_pairs_append[OF c1(4) c2(4) le])
    then show ?thesis
      using True m c1 c2 t s1 by (intro exI[of _ s2] exI[of _ "q1 @ q2"]) (auto simp: same_work_def)
  qed
  then obtain s' qs where r: "(if u < ?x1 \<and> v < ?y1 then do {
             ((xm, ym), s) \<leftarrow> middle ?s u ?x1 v ?y1;
             s \<leftarrow> compare fuel s u xm v ym;
             compare fuel s xm ?x1 ym ?y1
           } else Some ?s) = Some s'" "same_work s s'" "sout s' = sout s @ ps @ qs"
      "valid_pairs (sa s) (sb s) u ?x1 v ?y1 qs"
    by blast
  have "valid_pairs (sa s) (sb s) x0 x1 y0 y1 (ps @ qs @ map (\<lambda>j. (?x1 + int j, ?y1 + int j)) [0..<k])"
    by (rule valid_pairs_append[OF p(6) valid_pairs_append[OF r(4) tail]]) (use p q in auto)
  then show ?case
    using p(1) q(1) r by (auto simp: same_work_def intro!: exI[of _ "ps @ qs @ map (\<lambda>j. (?x1 + int j, ?y1 + int j)) [0..<k]"])
qed

subsection \<open>common\<close>

lemma valid_pairs_mono:
  "valid_pairs a b x0 x1 y0 y1 ps \<Longrightarrow> u0 \<le> x0 \<Longrightarrow> x1 \<le> u1 \<Longrightarrow> v0 \<le> y0 \<Longrightarrow> y1 \<le> v1 \<Longrightarrow> valid_pairs a b u0 u1 v0 v1 ps"
  unfolding valid_pairs_def by fastforce

text \<open>The shared lines come with the indexes they had, which go up.\<close>

lemma shared_props:
  assumes "shared m xs = (ys, ix)"
  shows "length ix = length ys" "sorted_wrt (<) ix"
    "k < length ys \<Longrightarrow> 0 \<le> ix ! k \<and> ix ! k < int (length xs) \<and> xs ! nat (ix ! k) = ys ! k"
    "length ys \<le> length xs"
proof -
  let ?ks = "filter (\<lambda>k. m ! (xs ! k)) [0..<length xs]"
  have e: "ys = map (\<lambda>k. xs ! k) ?ks" "ix = map int ?ks"
    using assms by (auto simp: shared_def Let_def)
  show "length ix = length ys" by (simp add: e)
  have "sorted_wrt (<) ?ks" by (intro sorted_wrt_filter) simp
  then show "sorted_wrt (<) ix" by (simp add: e sorted_wrt_map)
  show "length ys \<le> length xs"
    using length_filter_le[of "\<lambda>k. m ! (xs ! k)" "[0..<length xs]"] by (simp add: e)
  assume "k < length ys"
  then have k: "k < length ?ks" by (simp add: e)
  then have "?ks ! k \<in> set ?ks" by (rule nth_mem)
  then have "?ks ! k < length xs" by simp
  then show "0 \<le> ix ! k \<and> ix ! k < int (length xs) \<and> xs ! nat (ix ! k) = ys ! k"
    using k by (simp add: e)
qed

lemma those_map_Some:
  "(\<forall>x \<in> set xs. f x = Some (g x)) \<Longrightarrow> those (map f xs) = Some (map g xs)"
  by (induction xs) auto

lemma common_ok:
  assumes "int (length a + length b + 3) \<le> MaxInt"
  shows "\<exists>ps. common a b = Some ps \<and> valid_pairs a b 0 (int (length a)) 0 (int (length b)) ps"
proof -
  let ?ids = "foldl (\<lambda>m x. max m (x + 1)) (foldl (\<lambda>m x. max m (x + 1)) 0 a) b"
  obtain xs ma where A: "shared (mark ?ids b) a = (xs, ma)" by fastforce
  obtain ys mb where B: "shared (mark ?ids a) b = (ys, mb)" by fastforce
  note pa = shared_props[OF A] and pb = shared_props[OF B]
  define s where "s = \<lparr>sa = xs, sb = ys, fd = replicate (length xs + length ys + 3) 0,
      bd = replicate (length xs + length ys + 3) 0, soff = int (length ys) + 1,
      expensive = max expensiveFloor (grow_loop (length xs + length ys + 3) 1), sout = []\<rparr>"
  have "wf s" using assms pa(4) pb(4) by (simp add: wf_def s_def)
  then obtain s' ps where c: "compare (length xs + length ys + 1) s 0 (int (length xs)) 0 (int (length ys)) = Some s'"
      "sout s' = ps" "valid_pairs xs ys 0 (int (length xs)) 0 (int (length ys)) ps"
    using compare_ok[of s 0 "int (length xs)" 0 "int (length ys)" "length xs + length ys + 1"]
    by (auto simp: s_def)
  let ?f = "\<lambda>(i, j). do { i' \<leftarrow> aget ma i; j' \<leftarrow> aget mb j; Some (i', j') }"
  let ?g = "\<lambda>(i, j). (ma ! nat i, mb ! nat j)"
  have in_box: "0 \<le> fst p \<and> nat (fst p) < length xs \<and> 0 \<le> snd p \<and> nat (snd p) < length ys \<and>
      xs ! nat (fst p) = ys ! nat (snd p)" if "p \<in> set ps" for p
    using c(3) that unfolding valid_pairs_def by force
  have up: "those (map ?f ps) = Some (map ?g ps)"
    by (rule those_map_Some) (use in_box pa(1) pb(1) in \<open>fastforce simp: aget_def\<close>)
  have "sorted_wrt (\<lambda>p q. fst p < fst q \<and> snd p < snd q) (map ?g ps)"
    unfolding sorted_wrt_map
  proof (rule sorted_wrt_mono_rel)
    show "sorted_wrt (\<lambda>p q. fst p < fst q \<and> snd p < snd q) ps"
      using c(3) by (simp add: valid_pairs_def)
    fix p q
    assume h: "p \<in> set ps" "q \<in> set ps" "fst p < fst q \<and> snd p < snd q"
    have "ma ! nat (fst p) < ma ! nat (fst q)" "mb ! nat (snd p) < mb ! nat (snd q)"
      using in_box[OF h(1)] in_box[OF h(2)] h(3) pa(1) pb(1)
      by (auto intro!: sorted_wrt_nth_less[OF pa(2)] sorted_wrt_nth_less[OF pb(2)])
    then show "fst (?g p) < fst (?g q) \<and> snd (?g p) < snd (?g q)"
      by (simp add: case_prod_beta)
  qed
  moreover have "0 \<le> fst (?g p) \<and> fst (?g p) < int (length a) \<and> 0 \<le> snd (?g p) \<and> snd (?g p) < int (length b) \<and>
      a ! nat (fst (?g p)) = b ! nat (snd (?g p))" if "p \<in> set ps" for p
    using in_box[OF that] pa(3)[of "nat (fst p)"] pb(3)[of "nat (snd p)"] by (simp add: case_prod_beta)
  ultimately have "valid_pairs a b 0 (int (length a)) 0 (int (length b)) (map ?g ps)"
    by (auto simp: valid_pairs_def)
  moreover have "common a b = Some (map ?g ps)"
    unfolding common_def Let_def A B prod.case using up c(1)
    by (simp add: c(2) del: compare.simps flip: s_def)
  ultimately show ?thesis by blast
qed

text \<open>
  the search for a common subsequence always returns: it indexes no slice out of range and
  both its recursion and its rounds end.  What it returns are index pairs that go up on both
  sides, each joining two equal lines.  The hypothesis is that the two inputs fit in memory.
\<close>
theorem common_returns:
  assumes "int (length a + length b + 3) \<le> MaxInt"
  shows "\<exists>ps. common a b = Some ps \<and> valid_pairs a b 0 (int (length a)) 0 (int (length b)) ps"
  using assms by (rule common_ok)

lemma common_returns_witness:
  "\<exists>ps. common [1, 2, 3] [2, 3, 4] = Some ps \<and> valid_pairs [1, 2, 3 :: nat] [2, 3, 4] 0 3 0 3 ps"
  using common_returns[of "[1, 2, 3]" "[2, 3, 4]"] by (simp add: MaxInt_def)

end
