(* ===== verification/GoStrings.thy ===== *)
theory GoStrings
  imports Prelude "HOL-Library.Monad_Syntax"
begin

text \<open>
  The functions of Go's \<^verbatim>\<open>strings\<close> and \<^verbatim>\<open>strconv\<close> packages the modelled code calls, on
  strings as lists of bytes, with the facts the components share: what a cut or a trimmed
  prefix leaves, where the pieces of a split come from, and that \<open>atoi\<close> reads what \<open>itoa\<close>
  writes.
\<close>

subsection \<open>Prefixes and suffixes\<close>

definition hasPrefix :: "string \<Rightarrow> string \<Rightarrow> bool" where
  "hasPrefix s p \<longleftrightarrow> take (length p) s = p"

definition hasSuffix :: "string \<Rightarrow> string \<Rightarrow> bool" where
  "hasSuffix s p \<longleftrightarrow> hasPrefix (rev s) (rev p)"

text \<open>\<open>CutPrefix\<close> with its \<open>ok\<close> as an option.\<close>

definition cutPrefix :: "string \<Rightarrow> string \<Rightarrow> string option" where
  "cutPrefix s p = (if hasPrefix s p then Some (drop (length p) s) else None)"

definition cutSuffix :: "string \<Rightarrow> string \<Rightarrow> string option" where
  "cutSuffix s p = (if hasSuffix s p then Some (take (length s - length p) s) else None)"

definition trimPrefix :: "string \<Rightarrow> string \<Rightarrow> string" where
  "trimPrefix s p = (case cutPrefix s p of Some r \<Rightarrow> r | None \<Rightarrow> s)"

definition trimSuffix :: "string \<Rightarrow> string \<Rightarrow> string" where
  "trimSuffix s p = (case cutSuffix s p of Some r \<Rightarrow> r | None \<Rightarrow> s)"

lemma hasPrefix_append [go_simps, simp]: "hasPrefix (p @ s) p"
  by (simp add: hasPrefix_def)

lemma hasPrefix_ex: "hasPrefix s p \<longleftrightarrow> (\<exists>r. s = p @ r)"
  by (metis append_take_drop_id hasPrefix_def append_eq_conv_conj)

lemma cutPrefix_append [go_simps, simp]: "cutPrefix (p @ s) p = Some s"
  by (simp add: cutPrefix_def)

lemma cutPrefix_eq_Some: "cutPrefix s p = Some r \<longleftrightarrow> s = p @ r"
  by (auto simp: cutPrefix_def hasPrefix_ex)

lemma hasSuffix_ex: "hasSuffix s p \<longleftrightarrow> (\<exists>r. s = r @ p)"
  unfolding hasSuffix_def hasPrefix_ex by (metis rev_append rev_rev_ident)

lemma cutSuffix_eq_Some: "cutSuffix s p = Some r \<longleftrightarrow> s = r @ p"
  by (auto simp: cutSuffix_def hasSuffix_ex)

subsection \<open>Searching\<close>

text \<open>\<open>strings.Index\<close>, \<open>-1\<close> as \<open>None\<close>.\<close>

fun str_index :: "string \<Rightarrow> string \<Rightarrow> nat option" where
  "str_index [] sub = (if sub = [] then Some 0 else None)"
| "str_index (c # cs) sub =
     (if hasPrefix (c # cs) sub then Some 0 else map_option Suc (str_index cs sub))"

definition str_contains :: "string \<Rightarrow> string \<Rightarrow> bool" where
  "str_contains s sub \<longleftrightarrow> str_index s sub \<noteq> None"

text \<open>\<open>strings.Cut\<close> with its \<open>found\<close> as an option.\<close>

definition cut :: "string \<Rightarrow> string \<Rightarrow> (string \<times> string) option" where
  "cut s sep = (case str_index s sep of
     None \<Rightarrow> None
   | Some k \<Rightarrow> Some (take k s, drop (k + length sep) s))"

text \<open>\<open>strings.IndexByte\<close> and \<open>LastIndexByte\<close>.\<close>

fun index_byte :: "string \<Rightarrow> char \<Rightarrow> nat option" where
  "index_byte [] b = None"
| "index_byte (c # cs) b = (if c = b then Some 0 else map_option Suc (index_byte cs b))"

definition last_index_byte :: "string \<Rightarrow> char \<Rightarrow> nat option" where
  "last_index_byte s b = map_option (\<lambda>k. length s - 1 - k) (index_byte (rev s) b)"

lemma str_index_Some:
  "str_index s sub = Some k \<Longrightarrow> \<exists>r. s = take k s @ sub @ r \<and> k + length sub \<le> length s"
proof (induction s arbitrary: k)
  case Nil
  then show ?case by (auto split: if_splits)
next
  case (Cons c s)
  then show ?case
    by (auto simp: hasPrefix_ex split: if_splits dest!: Cons.IH) (metis le_add1 length_Cons length_append)
qed

lemma cut_eq_Some: "cut s sep = Some (l, r) \<Longrightarrow> s = l @ sep @ r"
proof -
  assume "cut s sep = Some (l, r)"
  then obtain k where k: "str_index s sep = Some k" "l = take k s" "r = drop (k + length sep) s"
    by (auto simp: cut_def split: option.splits)
  obtain t where t: "s = take k s @ sep @ t" "k + length sep \<le> length s"
    using str_index_Some[OF k(1)] by blast
  have "length (take k s) = k" using t(2) by simp
  then have "drop (k + length sep) (take k s @ sep @ t) = t" by simp
  then have "r = t" using t(1) k(3) by metis
  then show ?thesis using t k by simp
qed

lemma cut_shorter: "cut s sep = Some (l, r) \<Longrightarrow> sep \<noteq> [] \<Longrightarrow> length l < length s \<and> length r < length s"
  using cut_eq_Some[of s sep l r] by auto

lemma index_byte_Some:
  "index_byte s b = Some k \<longleftrightarrow> k < length s \<and> s ! k = b \<and> (\<forall>j < k. s ! j \<noteq> b)"
proof (induction s arbitrary: k)
  case (Cons c s)
  show ?case
    by (cases k) (auto simp: Cons.IH less_Suc_eq_0_disj)
qed simp

lemma index_byte_None: "index_byte s b = None \<longleftrightarrow> b \<notin> set s"
  by (induction s) auto

lemma cut_byte: "cut s [c] = (if c \<in> set s then Some (takeWhile (\<lambda>x. x \<noteq> c) s, tl (dropWhile (\<lambda>x. x \<noteq> c) s)) else None)"
proof (induction s)
  case Nil
  then show ?case by (simp add: cut_def)
next
  case (Cons a s)
  show ?case
  proof (cases "a = c")
    case True
    then show ?thesis by (simp add: cut_def hasPrefix_def)
  next
    case False
    then have "str_index (a # s) [c] = map_option Suc (str_index s [c])" by (simp add: hasPrefix_def)
    then show ?thesis using Cons False by (auto simp: cut_def split: option.splits if_splits)
  qed
qed

subsection \<open>Splitting and joining\<close>

text \<open>\<open>strings.Split\<close> on a one-byte separator; \<open>strings.Join\<close>.\<close>

fun split_byte :: "char \<Rightarrow> string \<Rightarrow> string list" where
  "split_byte sep [] = [[]]"
| "split_byte sep (c # cs) =
     (if c = sep then [] # split_byte sep cs
      else (case split_byte sep cs of [] \<Rightarrow> [[c]] | l # ls \<Rightarrow> (c # l) # ls))"

fun join :: "string \<Rightarrow> string list \<Rightarrow> string" where
  "join sep [] = []"
| "join sep [x] = x"
| "join sep (x # xs) = x @ sep @ join sep xs"

lemma split_byte_ne [simp]: "split_byte sep s \<noteq> []"
  by (induction s) (auto split: list.splits)

lemma join_split_byte [go_simps]: "join [sep] (split_byte sep s) = s"
proof (induction s)
  case (Cons c s)
  obtain l ls where "split_byte sep s = l # ls" by (meson neq_Nil_conv split_byte_ne)
  then show ?case using Cons by (cases ls) auto
qed simp

lemma split_byte_no_sep: "x \<in> set (split_byte sep s) \<Longrightarrow> sep \<notin> set x"
  by (induction s arbitrary: x) (auto split: if_splits list.splits)

text \<open>\<open>strings.SplitAfter(s, "\n")\<close>: the last piece is what follows the last newline.\<close>

fun split_after_nl :: "string \<Rightarrow> string list" where
  "split_after_nl [] = [[]]"
| "split_after_nl (c # cs) =
     (if c = CHR 0x0A then [c] # split_after_nl cs
      else (case split_after_nl cs of [] \<Rightarrow> [[c]] | l # ls \<Rightarrow> (c # l) # ls))"

text \<open>\<open>strings.Lines\<close>: the lines with their newlines, none of them empty.\<close>

definition str_lines :: "string \<Rightarrow> string list" where
  "str_lines s = filter (\<lambda>l. l \<noteq> []) (split_after_nl s)"

lemma split_byte_append:
  "split_byte sep (x @ y) = butlast (split_byte sep x) @ split_byte sep (last (split_byte sep x) @ y)"
proof (induction x)
  case (Cons c x)
  obtain l ls where l: "split_byte sep x = l # ls" by (meson neq_Nil_conv split_byte_ne)
  show ?case
  proof (cases "c = sep")
    case True
    then show ?thesis using Cons by simp
  next
    case False
    then show ?thesis using Cons l by (cases ls) simp_all
  qed
qed simp

lemma last_split_byte_append: "last (split_byte c (a @ b)) = last (split_byte c (last (split_byte c a) @ b))"
  by (subst split_byte_append) simp

subsection \<open>Numbers\<close>

definition digit :: "nat \<Rightarrow> char" where "digit k = char_of (48 + k)"

definition digit_val :: "char \<Rightarrow> nat" where "digit_val c = of_char c - 48"

definition is_digit :: "char \<Rightarrow> bool" where
  "is_digit c \<longleftrightarrow> 48 \<le> (of_char c :: nat) \<and> (of_char c :: nat) \<le> 57"

function digits :: "nat \<Rightarrow> string" where
  "digits n = (if n < 10 then [digit n] else digits (n div 10) @ [digit (n mod 10)])"
  by pat_completeness auto
termination by (relation "measure id") auto

declare digits.simps [simp del]

definition itoa :: "int \<Rightarrow> string" where
  "itoa i = (if i < 0 then CHR ''-'' # digits (nat (- i)) else digits (nat i))"

definition read_digits :: "string \<Rightarrow> nat" where
  "read_digits s = foldl (\<lambda>n c. 10 * n + digit_val c) 0 s"

text \<open>\<open>strconv.Atoi\<close>: an optional sign, then digits only, and the value a 64-bit integer.\<close>

definition atoi :: "string \<Rightarrow> int option" where
  "atoi s =
     (let neg = (s \<noteq> [] \<and> hd s = CHR ''-'');
          body = (if s \<noteq> [] \<and> (hd s = CHR ''-'' \<or> hd s = CHR ''+'') then tl s else s);
          v = (if neg then - int (read_digits body) else int (read_digits body))
      in if body \<noteq> [] \<and> list_all is_digit body \<and> - (2 ^ 63) \<le> v \<and> v < 2 ^ 63 then Some v else None)"

text \<open>\<open>strconv.Atoi\<close> with its error dropped: a number out of range is the nearest bound, anything
  else not a number is 0.\<close>

definition atoi_value :: "string \<Rightarrow> int" where
  "atoi_value s =
     (let neg = (s \<noteq> [] \<and> hd s = CHR ''-'');
          body = (if s \<noteq> [] \<and> (hd s = CHR ''-'' \<or> hd s = CHR ''+'') then tl s else s)
      in if body = [] \<or> \<not> list_all is_digit body then 0
         else if neg then max (- (2 ^ 63)) (- int (read_digits body))
         else min (2 ^ 63 - 1) (int (read_digits body)))"

text \<open>\<open>strconv.ParseBool\<close>.\<close>

definition parse_bool :: "string \<Rightarrow> bool option" where
  "parse_bool s =
     (if s \<in> {''1'', ''t'', ''T'', ''TRUE'', ''true'', ''True''} then Some True
      else if s \<in> {''0'', ''f'', ''F'', ''FALSE'', ''false'', ''False''} then Some False
      else None)"

lemma digit_props [simp]:
  "k < 10 \<Longrightarrow> is_digit (digit k)" "k < 10 \<Longrightarrow> digit_val (digit k) = k"
  by (simp_all add: is_digit_def digit_def digit_val_def)

lemma digits_ne [simp]: "digits n \<noteq> []"
  by (subst digits.simps) simp

lemma digits_digit: "list_all is_digit (digits n)"
  by (induction n rule: digits.induct) (subst digits.simps, auto)

lemma read_digits_digits [go_simps, simp]: "read_digits (digits n) = n"
proof (induction n rule: digits.induct)
  case (1 n)
  show ?case
    by (subst digits.simps) (use 1 in \<open>auto simp: read_digits_def\<close>)
qed

lemma hd_digits_digit: "is_digit (hd (digits n))"
  using digits_digit[of n] by (cases "digits n") auto

lemma atoi_itoa [go_simps]: "- (2 ^ 63) \<le> i \<Longrightarrow> i < 2 ^ 63 \<Longrightarrow> atoi (itoa i) = Some i"
proof -
  assume a: "- (2 ^ 63) \<le> i" "i < 2 ^ 63"
  have "hd (digits n) \<noteq> CHR ''-''" "hd (digits n) \<noteq> CHR ''+''" for n
    using hd_digits_digit[of n] by (auto simp: is_digit_def)
  then show ?thesis
    using a digits_digit by (auto simp: atoi_def itoa_def Let_def)
qed

subsection \<open>Runes\<close>

text \<open>
  \<open>utf8.DecodeRuneInString\<close>: the rune and its width; a byte that starts no valid encoding is
  \<open>RuneError\<close> (0xFFFD) of width 1, and an empty string has width 0.
\<close>

definition is_cont :: "nat \<Rightarrow> nat \<Rightarrow> nat \<Rightarrow> bool" where
  "is_cont lo hi b \<longleftrightarrow> lo \<le> b \<and> b \<le> hi"

definition decode_rune :: "string \<Rightarrow> nat \<times> nat" where
  "decode_rune s =
     (case map of_char (take 4 s) of
        [] \<Rightarrow> (0xFFFD, 0)
      | b0 # bs \<Rightarrow>
          (if b0 < 0x80 then (b0, 1)
           else if 0xC2 \<le> b0 \<and> b0 \<le> 0xDF then
             (case bs of b1 # _ \<Rightarrow>
                if is_cont 0x80 0xBF b1 then ((b0 - 0xC0) * 64 + (b1 - 0x80), 2) else (0xFFFD, 1)
              | _ \<Rightarrow> (0xFFFD, 1))
           else if 0xE0 \<le> b0 \<and> b0 \<le> 0xEF then
             (case bs of b1 # b2 # _ \<Rightarrow>
                if is_cont (if b0 = 0xE0 then 0xA0 else 0x80) (if b0 = 0xED then 0x9F else 0xBF) b1 \<and>
                   is_cont 0x80 0xBF b2
                then ((b0 - 0xE0) * 4096 + (b1 - 0x80) * 64 + (b2 - 0x80), 3) else (0xFFFD, 1)
              | _ \<Rightarrow> (0xFFFD, 1))
           else if 0xF0 \<le> b0 \<and> b0 \<le> 0xF4 then
             (case bs of b1 # b2 # b3 # _ \<Rightarrow>
                if is_cont (if b0 = 0xF0 then 0x90 else 0x80) (if b0 = 0xF4 then 0x8F else 0xBF) b1 \<and>
                   is_cont 0x80 0xBF b2 \<and> is_cont 0x80 0xBF b3
                then ((b0 - 0xF0) * 262144 + (b1 - 0x80) * 4096 + (b2 - 0x80) * 64 + (b3 - 0x80), 4)
                else (0xFFFD, 1)
              | _ \<Rightarrow> (0xFFFD, 1))
           else (0xFFFD, 1)))"

lemma decode_rune_width: "0 < snd (decode_rune (c # cs))"
  by (auto simp: decode_rune_def split: list.splits)

lemma decode_rune_pos: "(r, w) = decode_rune (c # cs) \<Longrightarrow> 0 < w"
  by (metis decode_rune_width snd_conv)

text \<open>\<open>unicode.IsSpace\<close>, and \<open>strings.Fields\<close> with it.\<close>

definition is_space_rune :: "nat \<Rightarrow> bool" where
  "is_space_rune r \<longleftrightarrow> (9 \<le> r \<and> r \<le> 13) \<or> r = 0x20 \<or> r = 0x85 \<or> r = 0xA0 \<or> r = 0x1680 \<or>
     (0x2000 \<le> r \<and> r \<le> 0x200A) \<or> r = 0x2028 \<or> r = 0x2029 \<or> r = 0x202F \<or> r = 0x205F \<or> r = 0x3000"

function fields_loop :: "string \<Rightarrow> string \<Rightarrow> string list" where
  "fields_loop cur [] = (if cur = [] then [] else [cur])"
| "fields_loop cur (c # cs) =
     (let (r, w) = decode_rune (c # cs)
      in if is_space_rune r
         then (if cur = [] then fields_loop [] (drop w (c # cs)) else cur # fields_loop [] (drop w (c # cs)))
         else fields_loop (cur @ take w (c # cs)) (drop w (c # cs)))"
  by pat_completeness auto
termination
  by (relation "measure (\<lambda>(cur, s). length s)") (auto dest!: decode_rune_pos)

definition str_fields :: "string \<Rightarrow> string list" where "str_fields s = fields_loop [] s"

text \<open>\<open>utf8.DecodeLastRuneInString\<close>, and \<open>strings.TrimSpace\<close> with both decoders.\<close>

definition rune_start :: "char \<Rightarrow> bool" where
  "rune_start c \<longleftrightarrow> (of_char c :: nat) < 0x80 \<or> 0xBF < (of_char c :: nat)"

definition decode_last_rune :: "string \<Rightarrow> nat \<times> nat" where
  "decode_last_rune s =
     (if s = [] then (0xFFFD, 0)
      else let n = length s; b = of_char (last s) :: nat in
        if b < 0x80 then (b, 1)
        else case List.find (\<lambda>k. rune_start (s ! k)) (rev [n - 4..<n - 1]) of
            None \<Rightarrow> (0xFFFD, 1)
          | Some k \<Rightarrow> (let (r, w) = decode_rune (drop k s) in if k + w = n then (r, w) else (0xFFFD, 1)))"

lemma decode_last_rune_pos:
  assumes "(r, w) = decode_last_rune s" "s \<noteq> []"
  shows "0 < w"
proof (cases "List.find (\<lambda>k. rune_start (s ! k)) (rev [length s - 4..<length s - 1])")
  case (Some k)
  then have "k \<in> set (rev [length s - 4..<length s - 1])" unfolding find_Some_iff by (metis nth_mem)
  then have "k < length s" by auto
  then show ?thesis
    using assms Some by (auto simp: decode_last_rune_def Let_def split: if_splits prod.splits)
qed (use assms in \<open>auto simp: decode_last_rune_def Let_def split: if_splits\<close>)

function trim_left_space :: "string \<Rightarrow> string" where
  "trim_left_space s =
     (if s = [] then []
      else let (r, w) = decode_rune s in if is_space_rune r then trim_left_space (drop w s) else s)"
  by pat_completeness auto
termination
  by (relation "measure length") (auto simp: neq_Nil_conv dest!: decode_rune_pos)

function trim_right_space :: "string \<Rightarrow> string" where
  "trim_right_space s =
     (if s = [] then []
      else let (r, w) = decode_last_rune s
        in if is_space_rune r then trim_right_space (take (length s - w) s) else s)"
  by pat_completeness auto
termination
  by (relation "measure length") (auto dest!: decode_last_rune_pos)

declare trim_left_space.simps [simp del] trim_right_space.simps [simp del]

definition trim_space :: "string \<Rightarrow> string" where
  "trim_space s = trim_right_space (trim_left_space s)"

text \<open>\<open>strings.EqualFold(w, c)\<close> for an ASCII word \<open>c\<close> in lower case: two letters also fold with a
  rune outside ASCII, \<open>s\<close> with U+017F and \<open>k\<close> with U+212A.\<close>

definition lower_ascii :: "char \<Rightarrow> char" where
  "lower_ascii c = (if 65 \<le> (of_char c :: nat) \<and> (of_char c :: nat) \<le> 90 then char_of (of_char c + 32 :: nat) else c)"

fun equal_fold :: "string \<Rightarrow> string \<Rightarrow> bool" where
  "equal_fold w [] = (w = [])"
| "equal_fold w (c # cs) =
     ((w \<noteq> [] \<and> lower_ascii (hd w) = c \<and> equal_fold (tl w) cs) \<or>
      (c = CHR ''s'' \<and> hasPrefix w [CHR 0xC5, CHR 0xBF] \<and> equal_fold (drop 2 w) cs) \<or>
      (c = CHR ''k'' \<and> hasPrefix w [CHR 0xE2, CHR 0x84, CHR 0xAA] \<and> equal_fold (drop 3 w) cs))"

text \<open>\<open>strings.TrimRight\<close> and \<open>TrimLeft\<close> with an ASCII cutset.\<close>

definition trim_right :: "char set \<Rightarrow> string \<Rightarrow> string" where
  "trim_right cs s = rev (dropWhile (\<lambda>c. c \<in> cs) (rev s))"

definition trim_left :: "char set \<Rightarrow> string \<Rightarrow> string" where
  "trim_left cs s = dropWhile (\<lambda>c. c \<in> cs) s"

text \<open>\<open>strings.LastIndex\<close>.\<close>

definition last_index :: "string \<Rightarrow> string \<Rightarrow> nat option" where
  "last_index s sub =
     (case filter (\<lambda>k. hasPrefix (drop k s) sub) [0..<length s + 1] of [] \<Rightarrow> None | ks \<Rightarrow> Some (last ks))"

text \<open>\<open>strings.ReplaceAll(s, "_", " ")\<close>, one byte for another.\<close>

definition replace_byte :: "char \<Rightarrow> char \<Rightarrow> string \<Rightarrow> string" where
  "replace_byte a b s = map (\<lambda>c. if c = a then b else c) s"

end
