(* ===== verification/Unidiff.thy ===== *)
theory Unidiff
  imports MyersCorrect GoStrings
begin

text \<open>
  \<^verbatim>\<open>internal/unidiff/unidiff.go\<close>, around the search: splitting in lines, the edit script, its
  grouping in hunks, the unified text of \<open>Diff\<close>, and the hunks of \<open>Hunks\<close> with the changes slid
  along equal lines.  Strings are lists of bytes; \<open>None\<close> is a panic of the search.
\<close>

subsection \<open>Lines\<close>

definition splitLines :: "string \<Rightarrow> string list" where
  "splitLines s = (let lines = split_after_nl s in if last lines = [] then butlast lines else lines)"

subsection \<open>The edit script\<close>

record op =
  kind :: char
  oi :: int
  oj :: int

abbreviation (input) "Kept \<equiv> CHR '' ''"
abbreviation (input) "Deleted \<equiv> CHR ''-''"
abbreviation (input) "Inserted \<equiv> CHR ''+''"

fun num :: "(string \<rightharpoonup> nat) \<Rightarrow> string list \<Rightarrow> (string \<rightharpoonup> nat) \<times> nat list" where
  "num ids [] = (ids, [])"
| "num ids (l # ls) =
     (case ids l of
        Some k \<Rightarrow> (let (ids', out) = num ids ls in (ids', k # out))
      | None \<Rightarrow> (let k = card (dom ids); (ids', out) = num (ids(l \<mapsto> k)) ls in (ids', k # out)))"

definition intern :: "string list \<Rightarrow> string list \<Rightarrow> nat list \<times> nat list" where
  "intern a b = (let (ids, ia) = num Map.empty a; (ids', ib) = num ids b in (ia, ib))"

text \<open>The deletions up to \<open>pi\<close>, then the insertions up to \<open>pj\<close>.\<close>

definition change :: "int \<Rightarrow> int \<Rightarrow> int \<Rightarrow> int \<Rightarrow> op list" where
  "change i pi j pj = map (\<lambda>k. \<lparr>kind = Deleted, oi = k, oj = j\<rparr>) [i..pi - 1] @
     map (\<lambda>k. \<lparr>kind = Inserted, oi = max i pi, oj = k\<rparr>) [j..pj - 1]"

fun script_loop :: "int \<Rightarrow> int \<Rightarrow> int \<Rightarrow> int \<Rightarrow> pair list \<Rightarrow> op list" where
  "script_loop la lb i j [] = change i la j lb"
| "script_loop la lb i j ((pi, pj) # ps) =
     (let i' = max i pi; j' = max j pj
      in change i pi j pj @ \<lparr>kind = Kept, oi = i', oj = j'\<rparr> # script_loop la lb (i' + 1) (j' + 1) ps)"

definition script :: "string list \<Rightarrow> string list \<Rightarrow> op list option" where
  "script a b = (let (ia, ib) = intern a b in do {
     ps \<leftarrow> common ia ib;
     Some (script_loop (int (length a)) (int (length b)) 0 0 ps)
   })"

subsection \<open>Groups\<close>

text \<open>\<open>groups\<close> over the list of which lines are changes; the current hunk is \<open>None\<close> before the
  first change.\<close>

definition context_lines :: int where "context_lines = 3"

fun groups_loop :: "int \<Rightarrow> (int \<times> int) list \<Rightarrow> (int \<times> int) option \<Rightarrow> int \<Rightarrow> bool list \<Rightarrow> (int \<times> int) list" where
  "groups_loop n out cur i [] = (case cur of None \<Rightarrow> out | Some r \<Rightarrow> out @ [r])"
| "groups_loop n out cur i (c # cs) =
     (if \<not> c then groups_loop n out cur (i + 1) cs
      else
        let lo = max (i - context_lines) 0; hi = min (i + context_lines + 1) n
        in case cur of
             None \<Rightarrow> groups_loop n out (Some (lo, hi)) (i + 1) cs
           | Some (start, end_) \<Rightarrow>
               if lo \<le> end_ then groups_loop n out (Some (start, max end_ hi)) (i + 1) cs
               else groups_loop n (out @ [(start, end_)]) (Some (lo, hi)) (i + 1) cs)"

definition groups :: "bool list \<Rightarrow> (int \<times> int) list" where
  "groups changed = groups_loop (int (length changed)) [] None 0 changed"

definition slice :: "'a list \<Rightarrow> int \<Rightarrow> int \<Rightarrow> 'a list" where
  "slice xs lo hi = take (nat (hi - lo)) (drop (nat lo) xs)"

definition hunks :: "op list \<Rightarrow> op list list" where
  "hunks ops = map (\<lambda>(lo, hi). slice ops lo hi) (groups (map (\<lambda>x. kind x \<noteq> Kept) ops))"

subsection \<open>Writing a hunk\<close>

text \<open>The four numbers of a hunk's header: where each side starts and how many lines it has.\<close>

fun hunk_pos :: "op list \<Rightarrow> int \<times> int \<times> int \<times> int \<Rightarrow> int \<times> int \<times> int \<times> int" where
  "hunk_pos [] p = p"
| "hunk_pos (x # xs) (os, ns, ol, nl) =
     (let (os, ol) = (if kind x \<noteq> Inserted then (if os < 0 then oi x else os, ol + 1) else (os, ol));
          (ns, nl) = (if kind x \<noteq> Deleted then (if ns < 0 then oj x else ns, nl + 1) else (ns, nl))
      in hunk_pos xs (os, ns, ol, nl))"

definition hunk_header :: "op list \<Rightarrow> int \<times> int \<times> int \<times> int" where
  "hunk_header h =
     (let (os, ns, ol, nl) = hunk_pos h (-1, -1, 0, 0)
      in (if os < 0 then oi (hd h) else os, if ns < 0 then oj (hd h) else ns, ol, nl))"

definition hunkRange :: "int \<Rightarrow> int \<Rightarrow> string" where
  "hunkRange start n =
     (if n = 0 then itoa start @ '',0''
      else if n = 1 then itoa (start + 1)
      else itoa (start + 1) @ '','' @ itoa n)"

definition op_text :: "string list \<Rightarrow> string list \<Rightarrow> op \<Rightarrow> string" where
  "op_text a b x = (if kind x = Deleted then a ! nat (oi x) else b ! nat (oj x))"

definition writeHunk :: "op list \<Rightarrow> string list \<Rightarrow> string list \<Rightarrow> string" where
  "writeHunk h a b =
     (let (os, ns, ol, nl) = hunk_header h
      in ''@@ -'' @ hunkRange os ol @ '' +'' @ hunkRange ns nl @ '' @@'' @ [CHR 0x0A] @
         concat (map (\<lambda>x. let line = op_text a b x
           in kind x # line @
              (if line \<noteq> [] \<and> last line = CHR 0x0A then []
               else CHR 0x0A # CHR 0x5C # '' No newline at end of file'' @ [CHR 0x0A])) h))"

definition Diff :: "string \<Rightarrow> string \<Rightarrow> string \<Rightarrow> string \<Rightarrow> string option" where
  "Diff oldName newName before after =
     (if before = after then Some []
      else let a = splitLines before; b = splitLines after in do {
        ops \<leftarrow> script a b;
        Some (''--- '' @ oldName @ [CHR 0x0A] @ ''+++ '' @ newName @ [CHR 0x0A] @
          concat (map (\<lambda>h. writeHunk h a b) (hunks ops)))
      })"

subsection \<open>Hunks and slide\<close>

record line =
  Op :: char
  Text :: string

record hunk =
  A :: int
  B :: int
  Lines :: "line list"

definition advance :: "char \<Rightarrow> int \<Rightarrow> int \<Rightarrow> int \<times> int" where
  "advance k i j = (if k \<noteq> Inserted then i + 1 else i, if k \<noteq> Deleted then j + 1 else j)"

text \<open>\<open>indent\<close>: the leading blanks and tabs.\<close>

definition indent :: "string \<Rightarrow> int" where
  "indent s = int (length (takeWhile (\<lambda>c. c = CHR '' '' \<or> c = CHR 0x09) s))"

text \<open>The end of the run of lines with mark \<open>x\<close> that starts at \<open>e\<close>.\<close>

definition run_end :: "char \<Rightarrow> line list \<Rightarrow> nat \<Rightarrow> nat" where
  "run_end x ls s = s + length (takeWhile (\<lambda>l. Op l = x) (drop s ls))"

function slide_up :: "line list \<Rightarrow> nat \<Rightarrow> nat \<Rightarrow> nat \<Rightarrow> nat" where
  "slide_up ls s e up =
     (if s \<ge> up + 1 \<and> Op (ls ! (s - up - 1)) = Kept \<and> Text (ls ! (s - up - 1)) = Text (ls ! (e - up - 1))
      then slide_up ls s e (up + 1) else up)"
  by pat_completeness auto
termination by (relation "measure (\<lambda>(ls, s, e, up). s - up)") auto

function slide_down :: "line list \<Rightarrow> nat \<Rightarrow> nat \<Rightarrow> nat \<Rightarrow> nat" where
  "slide_down ls s e down =
     (if e + down < length ls \<and> Op (ls ! (e + down)) = Kept \<and> Text (ls ! (e + down)) = Text (ls ! (s + down))
      then slide_down ls s e (down + 1) else down)"
  by pat_completeness auto
termination by (relation "measure (\<lambda>(ls, s, e, down). length ls - e - down)") auto

declare slide_up.simps [simp del] slide_down.simps [simp del]

text \<open>The place between \<open>-up\<close> and \<open>down\<close> where the run's first and last lines are least
  indented, the nearest one of them.\<close>

definition score :: "line list \<Rightarrow> nat \<Rightarrow> nat \<Rightarrow> int \<Rightarrow> int" where
  "score ls s e p = indent (Text (ls ! nat (int s + p))) + indent (Text (ls ! nat (int e - 1 + p)))"

definition least_indented :: "line list \<Rightarrow> nat \<Rightarrow> nat \<Rightarrow> nat \<Rightarrow> nat \<Rightarrow> int" where
  "least_indented ls s e up down =
     snd (foldl (\<lambda>(best, by) p.
         let sc = score ls s e p
         in if sc < best \<or> (sc = best \<and> \<bar>p\<bar> < \<bar>by\<bar>) then (sc, p) else (best, by))
       (score ls s e 0, 0) [- int up..int down])"

definition slide_by :: "line list \<Rightarrow> nat \<Rightarrow> nat \<Rightarrow> int" where
  "slide_by ls s e =
     (let up = slide_up ls s e 0; down = slide_down ls s e 0;
          reachesUp = (s \<ge> up + 1 \<and> Op (ls ! (s - up - 1)) \<noteq> Kept);
          reachesDown = (e + down < length ls \<and> Op (ls ! (e + down)) \<noteq> Kept)
      in if reachesUp \<and> (\<not> reachesDown \<or> up \<le> down) then - int up
         else if reachesDown then int down
         else least_indented ls s e up down)"

definition set_Op :: "nat \<Rightarrow> char \<Rightarrow> line list \<Rightarrow> line list" where
  "set_Op k x ls = ls[k := (ls ! k)\<lparr>Op := x\<rparr>]"

definition move_run :: "line list \<Rightarrow> nat \<Rightarrow> nat \<Rightarrow> char \<Rightarrow> int \<Rightarrow> line list" where
  "move_run ls s e x by =
     foldl (\<lambda>ls m. if by < 0 then set_Op (e - m - 1) Kept (set_Op (s - m - 1) x ls)
                   else set_Op (s + m) Kept (set_Op (e + m) x ls)) ls [0..<nat \<bar>by\<bar>]"

text \<open>The first loop of \<open>slide\<close>; every turn moves \<open>s\<close> forward, so the list's length is fuel
  enough.\<close>

primrec slide_runs :: "nat \<Rightarrow> line list \<Rightarrow> nat \<Rightarrow> line list option" where
  "slide_runs 0 ls s = None"
| "slide_runs (Suc fuel) ls s =
     (if s \<ge> length ls then Some ls
      else let x = Op (ls ! s) in
        if x = Kept then slide_runs fuel ls (s + 1)
        else let e = run_end x ls s in
          if (s > 0 \<and> Op (ls ! (s - 1)) \<noteq> Kept) \<or> (e < length ls \<and> Op (ls ! e) \<noteq> Kept)
          then slide_runs fuel ls e
          else let by = slide_by ls s e
               in slide_runs fuel (move_run ls s e x by) (nat (max (int e) (int e + by))))"

text \<open>The second loop: a stable sort of each change, deletions first.\<close>

function order_changes :: "line list \<Rightarrow> line list" where
  "order_changes ls =
     (case ls of [] \<Rightarrow> []
      | l # ls' \<Rightarrow>
          if Op l = Kept then l # order_changes ls'
          else let c = takeWhile (\<lambda>l. Op l \<noteq> Kept) ls
               in filter (\<lambda>l. Op l = Deleted) c @ filter (\<lambda>l. Op l \<noteq> Deleted) c @
                  order_changes (dropWhile (\<lambda>l. Op l \<noteq> Kept) ls'))"
  by pat_completeness auto
termination
  by (relation "measure length") (auto simp: le_imp_less_Suc length_dropWhile_le)

declare order_changes.simps [simp del]

definition slide :: "line list \<Rightarrow> line list option" where
  "slide ls = do { ls \<leftarrow> slide_runs (length ls + 1) ls 0; Some (order_changes ls) }"

definition op_line :: "string list \<Rightarrow> string list \<Rightarrow> op \<Rightarrow> line" where
  "op_line a b x = \<lparr>Op = kind x, Text = op_text a b x\<rparr>"

fun hunk_list :: "line list \<Rightarrow> int \<Rightarrow> int \<Rightarrow> int \<Rightarrow> (int \<times> int) list \<Rightarrow> hunk list" where
  "hunk_list ls i j at [] = []"
| "hunk_list ls i j at ((lo, hi) # rs) =
     (let (i, j) = foldl (\<lambda>(i, j) l. advance (Op l) i j) (i, j) (slice ls at lo)
      in \<lparr>A = i, B = j, Lines = slice ls lo hi\<rparr> # hunk_list ls i j (max at lo) rs)"

definition LineHunks :: "string list \<Rightarrow> string list \<Rightarrow> hunk list option" where
  "LineHunks a b =
     (if a = b then Some []
      else do {
        ops \<leftarrow> script a b;
        lines \<leftarrow> slide (map (op_line a b) ops);
        Some (hunk_list lines 0 0 0 (groups (map (\<lambda>l. Op l \<noteq> Kept) lines)))
      })"

definition Hunks :: "string \<Rightarrow> string \<Rightarrow> hunk list option" where
  "Hunks before after =
     (if before = after then Some [] else LineHunks (splitLines before) (splitLines after))"

end
