(* ===== verification/UnidiffCorrect.thy ===== *)
theory UnidiffCorrect
  imports Unidiff
begin

text \<open>
  Correctness of \<^verbatim>\<open>internal/unidiff/unidiff.go\<close>: the edit script walks both inputs line by
  line, sliding keeps both sides of a list of lines, \<open>groups\<close> covers the changes with their
  context, and so the hunks of \<open>LineHunks\<close> and of \<open>Diff\<close> applied to the old lines give the new
  ones.
\<close>

subsection \<open>The edit script is one\<close>

text \<open>Numbering the lines: equal numbers mean equal lines.\<close>

definition numbering :: "(string \<rightharpoonup> nat) \<Rightarrow> bool" where
  "numbering ids \<longleftrightarrow> finite (dom ids) \<and> inj_on ids (dom ids) \<and> (\<forall>k \<in> ran ids. k < card (dom ids))"

lemma numbering_empty: "numbering Map.empty"
  by (simp add: numbering_def)

lemma numbering_upd:
  assumes "numbering ids" "ids l = None"
  shows "numbering (ids(l \<mapsto> card (dom ids)))"
proof -
  have new: "l \<notin> dom ids" using assms(2) by blast
  have "ids x \<noteq> Some (card (dom ids))" for x
    using assms(1) by (metis less_irrefl numbering_def ranI)
  then have "inj_on (ids(l \<mapsto> card (dom ids))) (insert l (dom ids))"
    using assms(1) new unfolding numbering_def by (auto simp: inj_on_def)
  then show ?thesis
    using assms(1) new unfolding numbering_def by (auto simp: ran_def less_Suc_eq)
qed

lemma num_ok:
  "num ids ls = (ids', out) \<Longrightarrow> numbering ids \<Longrightarrow>
   numbering ids' \<and> ids \<subseteq>\<^sub>m ids' \<and> map Some out = map ids' ls"
proof (induction ids ls arbitrary: ids' out rule: num.induct)
  case (2 ids l ls)
  show ?case
  proof (cases "ids l")
    case None
    let ?ids = "ids(l \<mapsto> card (dom ids))"
    obtain out' where o: "num ?ids ls = (ids', out')" "out = card (dom ids) # out'"
      using "2.prems"(1) None by (auto split: prod.splits simp: Let_def)
    have r: "numbering ids' \<and> ?ids \<subseteq>\<^sub>m ids' \<and> map Some out' = map ids' ls"
      by (rule "2.IH"(1)[OF None refl o(1) numbering_upd[OF "2.prems"(2) None]])
    have "ids \<subseteq>\<^sub>m ?ids" using None by (auto simp: map_le_def)
    moreover have "ids' l = Some (card (dom ids))" using r by (auto simp: map_le_def)
    ultimately show ?thesis using r o map_le_trans by auto
  next
    case (Some k)
    then obtain out' where o: "num ids ls = (ids', out')" "out = k # out'"
      using "2.prems"(1) by (auto split: prod.splits)
    have r: "numbering ids' \<and> ids \<subseteq>\<^sub>m ids' \<and> map Some out' = map ids' ls"
      by (rule "2.IH"(2)[OF Some o(1) "2.prems"(2)])
    then show ?thesis using o Some by (auto simp: map_le_def dom_def)
  qed
qed simp

lemma intern_ok:
  assumes "intern a b = (ia, ib)"
  shows "length ia = length a" "length ib = length b"
    "i < length a \<Longrightarrow> j < length b \<Longrightarrow> ia ! i = ib ! j \<Longrightarrow> a ! i = b ! j"
proof -
  obtain ids ids' where n: "num Map.empty a = (ids, ia)" "num ids b = (ids', ib)"
    using assms by (auto simp: intern_def split: prod.splits)
  note r = num_ok[OF n(1) numbering_empty]
  have r2: "numbering ids' \<and> ids \<subseteq>\<^sub>m ids' \<and> map Some ib = map ids' b"
    using num_ok[OF n(2)] r by blast
  show la: "length ia = length a" using r by (metis length_map)
  show lb: "length ib = length b" using r2 by (metis length_map)
  assume h: "i < length a" "j < length b" "ia ! i = ib ! j"
  have "ids (a ! i) = Some (ia ! i)" using r h(1) la by (metis nth_map)
  then have "ids' (a ! i) = Some (ia ! i)" using r2 by (metis domI map_le_def)
  moreover have "ids' (b ! j) = Some (ib ! j)" using r2 h(2) lb by (metis nth_map)
  ultimately show "a ! i = b ! j"
    using r2 h(3) unfolding numbering_def by (metis domI inj_onD)
qed

text \<open>Operations that walk from one pair of line indexes to another, one line at a time.\<close>

fun walks :: "int \<Rightarrow> int \<Rightarrow> op list \<Rightarrow> int \<Rightarrow> int \<Rightarrow> bool" where
  "walks i j [] i' j' \<longleftrightarrow> i' = i \<and> j' = j"
| "walks i j (x # xs) i' j' \<longleftrightarrow> oi x = i \<and> oj x = j \<and> kind x \<in> {Kept, Deleted, Inserted} \<and>
     (case advance (kind x) i j of (u, v) \<Rightarrow> walks u v xs i' j')"

lemma walks_append:
  "walks i j (xs @ ys) i' j' \<longleftrightarrow> (\<exists>u v. walks i j xs u v \<and> walks u v ys i' j')"
  by (induction xs arbitrary: i j) (auto split: prod.splits)

lemma walks_change:
  assumes "i \<le> pi" "j \<le> pj"
  shows "walks i j (change i pi j pj) pi pj"
proof -
  have d: "walks i j (map (\<lambda>k. \<lparr>kind = Deleted, oi = k, oj = j\<rparr>) [i..pi - 1]) pi j"
    using assms(1)
  proof (induction "nat (pi - i)" arbitrary: i)
    case (Suc n)
    then have "[i..pi - 1] = i # [i + 1..pi - 1]" by (simp add: upto_rec1)
    then show ?case using Suc.hyps(1)[of "i + 1"] Suc.hyps(2) by (simp add: advance_def)
  qed simp
  have n: "walks pi j (map (\<lambda>k. \<lparr>kind = Inserted, oi = pi, oj = k\<rparr>) [j..pj - 1]) pi pj"
    using assms(2)
  proof (induction "nat (pj - j)" arbitrary: j)
    case (Suc n)
    then have "[j..pj - 1] = j # [j + 1..pj - 1]" by (simp add: upto_rec1)
    then show ?case using Suc.hyps(1)[of "j + 1"] Suc.hyps(2) by (simp add: advance_def)
  qed simp
  show ?thesis
    using d n assms unfolding change_def walks_append by (auto simp: max_def)
qed

lemma change_kinds: "x \<in> set (change i pi j pj) \<Longrightarrow> kind x \<noteq> Kept"
  by (auto simp: change_def)

lemma script_loop_ok:
  assumes "valid_pairs ia ib i la j lb ps" "i \<le> la" "j \<le> lb"
  shows "walks i j (script_loop la lb i j ps) la lb \<and>
    (\<forall>x \<in> set (script_loop la lb i j ps). kind x = Kept \<longrightarrow>
       i \<le> oi x \<and> oi x < la \<and> j \<le> oj x \<and> oj x < lb \<and> ia ! nat (oi x) = ib ! nat (oj x))"
  using assms
proof (induction la lb i j ps rule: script_loop.induct)
  case (1 la lb i j)
  then show ?case using walks_change change_kinds by auto
next
  case (2 la lb i j pi pj ps)
  have p: "i \<le> pi" "pi < la" "j \<le> pj" "pj < lb" "ia ! nat pi = ib ! nat pj"
    and v: "valid_pairs ia ib (pi + 1) la (pj + 1) lb ps"
    using "2.prems"(1) by (auto simp: valid_pairs_def)
  then have m: "max i pi = pi" "max j pj = pj" by auto
  have ih: "walks (pi + 1) (pj + 1) (script_loop la lb (pi + 1) (pj + 1) ps) la lb \<and>
    (\<forall>x \<in> set (script_loop la lb (pi + 1) (pj + 1) ps). kind x = Kept \<longrightarrow>
       pi + 1 \<le> oi x \<and> oi x < la \<and> pj + 1 \<le> oj x \<and> oj x < lb \<and> ia ! nat (oi x) = ib ! nat (oj x))"
    using "2.IH"[OF refl refl] v p m by simp
  have "walks i j (change i pi j pj @ \<lparr>kind = Kept, oi = pi, oj = pj\<rparr> # script_loop la lb (pi + 1) (pj + 1) ps) la lb"
    unfolding walks_append using walks_change[OF p(1,3)] ih by (auto simp: advance_def)
  moreover have "\<forall>x \<in> set (change i pi j pj @ \<lparr>kind = Kept, oi = pi, oj = pj\<rparr> # script_loop la lb (pi + 1) (pj + 1) ps).
      kind x = Kept \<longrightarrow> i \<le> oi x \<and> oi x < la \<and> j \<le> oj x \<and> oj x < lb \<and> ia ! nat (oi x) = ib ! nat (oj x)"
    using change_kinds ih p by fastforce
  ultimately show ?case by (simp add: m Let_def)
qed

lemma script_ok:
  assumes "int (length a + length b + 3) \<le> MaxInt"
  shows "\<exists>ops. script a b = Some ops \<and> walks 0 0 ops (int (length a)) (int (length b)) \<and>
    (\<forall>x \<in> set ops. kind x = Kept \<longrightarrow> a ! nat (oi x) = b ! nat (oj x))"
proof -
  obtain ia ib where i: "intern a b = (ia, ib)" by fastforce
  note r = intern_ok[OF i]
  obtain ps where c: "common ia ib = Some ps"
      "valid_pairs ia ib 0 (int (length a)) 0 (int (length b)) ps"
    using common_ok[of ia ib] assms r(1,2) by auto
  from script_loop_ok[OF c(2)] show ?thesis
    using r(3) by (auto simp: script_def i c)
qed
subsection \<open>The two sides of a list of lines\<close>

definition before_side :: "line list \<Rightarrow> string list" where
  "before_side ls = map Text (filter (\<lambda>l. Op l \<noteq> Inserted) ls)"

definition after_side :: "line list \<Rightarrow> string list" where
  "after_side ls = map Text (filter (\<lambda>l. Op l \<noteq> Deleted) ls)"

lemma sides_append [simp]:
  "before_side (xs @ ys) = before_side xs @ before_side ys"
  "after_side (xs @ ys) = after_side xs @ after_side ys"
  by (simp_all add: before_side_def after_side_def)

lemma sides_Cons [simp]:
  "before_side (l # ls) = (if Op l \<noteq> Inserted then [Text l] else []) @ before_side ls"
  "after_side (l # ls) = (if Op l \<noteq> Deleted then [Text l] else []) @ after_side ls"
  "before_side [] = []" "after_side [] = []"
  by (simp_all add: before_side_def after_side_def)

lemma op_line_simps [simp]: "Op (op_line a b x) = kind x" "Text (op_line a b x) = op_text a b x"
  by (simp_all add: op_line_def)

lemma nth_drop_split: "0 \<le> i \<Longrightarrow> i < int (length xs) \<Longrightarrow> drop (nat i) xs = xs ! nat i # drop (nat (i + 1)) xs"
  by (simp add: Cons_nth_drop_Suc nat_add_distrib)

lemma walks_sides:
  assumes "walks i j ops (int (length a)) (int (length b))" "0 \<le> i" "0 \<le> j"
    "\<forall>x \<in> set ops. kind x = Kept \<longrightarrow> a ! nat (oi x) = b ! nat (oj x)"
  shows "i \<le> int (length a) \<and> j \<le> int (length b) \<and>
    before_side (map (op_line a b) ops) = drop (nat i) a \<and> after_side (map (op_line a b) ops) = drop (nat j) b"
  using assms
proof (induction ops arbitrary: i j)
  case (Cons x ops)
  obtain u v where uv: "advance (kind x) i j = (u, v)" by fastforce
  have x: "oi x = i" "oj x = j" "kind x \<in> {Kept, Deleted, Inserted}" and w: "walks u v ops (int (length a)) (int (length b))"
    using Cons.prems(1) uv by auto
  have "0 \<le> u" "0 \<le> v" using uv Cons.prems(2,3) by (auto simp: advance_def)
  then have ih: "u \<le> int (length a) \<and> v \<le> int (length b) \<and>
      before_side (map (op_line a b) ops) = drop (nat u) a \<and> after_side (map (op_line a b) ops) = drop (nat v) b"
    using Cons.IH[OF w] Cons.prems(4) by simp
  have "kind x = Kept \<Longrightarrow> a ! nat i = b ! nat j" using Cons.prems(4) x by auto
  then show ?case
    using ih x uv Cons.prems(2,3)
    by (auto simp: op_text_def advance_def nth_drop_split split: if_splits)
qed simp

subsection \<open>Sliding keeps both sides\<close>

definition same_sides :: "line list \<Rightarrow> line list \<Rightarrow> bool" where
  "same_sides ls ls' \<longleftrightarrow> before_side ls' = before_side ls \<and> after_side ls' = after_side ls \<and>
     length ls' = length ls \<and> (\<forall>l \<in> set ls'. Op l \<in> {Kept, Deleted, Inserted})"

text \<open>The exchange at the heart of \<open>slide\<close>: a run of one mark gives up the line at one end for an
  equal kept line at its other end.\<close>

lemma all_marked_sides:
  assumes "\<forall>l \<in> set run. Op l = x" "x = Deleted \<or> x = Inserted"
  shows "before_side run = (if x = Inserted then [] else map Text run)"
    "after_side run = (if x = Deleted then [] else map Text run)"
  using assms by (induction run) auto

lemma exchange:
  assumes "ls = pre @ p # run @ q # post" "\<forall>l \<in> set run. Op l = x" "x = Deleted \<or> x = Inserted"
    "Text p = Text q" "{Op p, Op q} = {x, Kept}"
    "\<forall>l \<in> set ls. Op l \<in> {Kept, Deleted, Inserted}"
  shows "same_sides ls (pre @ p\<lparr>Op := Op q\<rparr> # run @ q\<lparr>Op := Op p\<rparr> # post)"
  using assms all_marked_sides[OF assms(2,3)]
  by (auto simp: same_sides_def doubleton_eq_iff)

lemma same_sides_trans: "same_sides ls ms \<Longrightarrow> same_sides ms ns \<Longrightarrow> same_sides ls ns"
  by (simp add: same_sides_def)

lemma exchange_at:
  assumes "i < j" "j < length ls" "\<forall>k. i < k \<and> k < j \<longrightarrow> Op (ls ! k) = x" "x = Deleted \<or> x = Inserted"
    "Text (ls ! i) = Text (ls ! j)" "{Op (ls ! i), Op (ls ! j)} = {x, Kept}"
    "\<forall>l \<in> set ls. Op l \<in> {Kept, Deleted, Inserted}"
  shows "same_sides ls (ls[i := (ls ! i)\<lparr>Op := Op (ls ! j)\<rparr>, j := (ls ! j)\<lparr>Op := Op (ls ! i)\<rparr>])"
proof -
  let ?pre = "take i ls" and ?run = "take (j - i - 1) (drop (Suc i) ls)" and ?post = "drop (Suc j) ls"
  have tail: "drop (Suc i) ls = ?run @ ls ! j # ?post"
    using assms(1,2) id_take_nth_drop[of "j - i - 1" "drop (Suc i) ls"] by simp
  have ls: "ls = ?pre @ ls ! i # ?run @ ls ! j # ?post"
    using id_take_nth_drop[of i ls] tail assms(1,2) by simp
  have "\<forall>l \<in> set ?run. Op l = x"
    using assms(1-3) by (auto simp: in_set_conv_nth)
  note ex = exchange[OF ls this assms(4-7)]
  have len: "length ?pre = i" "length ?run = j - i - 1" using assms(1,2) by auto
  have "(?pre @ ls ! i # ?run @ ls ! j # ?post)[i := (ls ! i)\<lparr>Op := Op (ls ! j)\<rparr>, j := (ls ! j)\<lparr>Op := Op (ls ! i)\<rparr>]
      = ?pre @ (ls ! i)\<lparr>Op := Op (ls ! j)\<rparr> # ?run @ (ls ! j)\<lparr>Op := Op (ls ! i)\<rparr> # ?post"
    using assms(1,2) by (auto simp: list_update_append len split: nat.split)
  then show ?thesis using ex ls by simp
qed

text \<open>A run of \<open>x\<close> from \<open>s\<close> to \<open>e\<close> that can move \<open>up\<close> lines up and \<open>down\<close> lines down.\<close>

definition movable :: "line list \<Rightarrow> nat \<Rightarrow> nat \<Rightarrow> char \<Rightarrow> nat \<Rightarrow> nat \<Rightarrow> bool" where
  "movable ls s e x up down \<longleftrightarrow> s < e \<and> e + down \<le> length ls \<and> up \<le> s \<and> (x = Deleted \<or> x = Inserted) \<and>
     (\<forall>k. s \<le> k \<and> k < e \<longrightarrow> Op (ls ! k) = x) \<and>
     (\<forall>m < up. Op (ls ! (s - m - 1)) = Kept \<and> Text (ls ! (s - m - 1)) = Text (ls ! (e - m - 1))) \<and>
     (\<forall>m < down. Op (ls ! (e + m)) = Kept \<and> Text (ls ! (e + m)) = Text (ls ! (s + m))) \<and>
     (\<forall>l \<in> set ls. Op l \<in> {Kept, Deleted, Inserted})"

lemma move_down:
  assumes "movable ls s e x up down" "k \<le> down"
  shows "let ls' = foldl (\<lambda>ls m. set_Op (s + m) Kept (set_Op (e + m) x ls)) ls [0..<k]
    in same_sides ls ls' \<and> (\<forall>i < length ls. Text (ls' ! i) = Text (ls ! i) \<and>
      Op (ls' ! i) = (if s \<le> i \<and> i < s + k then Kept else if s + k \<le> i \<and> i < e + k then x else Op (ls ! i)))"
  using assms(2)
proof (induction k)
  case 0
  then show ?case using assms(1) by (auto simp: same_sides_def movable_def)
next
  case (Suc k)
  define ms where "ms = foldl (\<lambda>ls m. set_Op (s + m) Kept (set_Op (e + m) x ls)) ls [0..<k]"
  have ih: "same_sides ls ms" "\<forall>i < length ls. Text (ms ! i) = Text (ls ! i) \<and>
      Op (ms ! i) = (if s \<le> i \<and> i < s + k then Kept else if s + k \<le> i \<and> i < e + k then x else Op (ls ! i))"
    using Suc unfolding ms_def Let_def by auto
  have mv: "s < e" "e + k < length ls" "Op (ls ! (e + k)) = Kept" "Text (ls ! (e + k)) = Text (ls ! (s + k))"
      "x = Deleted \<or> x = Inserted"
    using assms(1) Suc.prems by (auto simp: movable_def)
  have len: "length ms = length ls" using ih(1) by (simp add: same_sides_def)
  have opi: "Op (ms ! (s + k)) = x" "Op (ms ! (e + k)) = Kept" using ih(2) mv by auto
  have eq: "set_Op (s + k) Kept (set_Op (e + k) x ms) =
      ms[s + k := (ms ! (s + k))\<lparr>Op := Op (ms ! (e + k))\<rparr>, e + k := (ms ! (e + k))\<lparr>Op := Op (ms ! (s + k))\<rparr>]"
    using mv(1) by (simp add: set_Op_def opi list_update_swap)
  have ss: "same_sides ms (set_Op (s + k) Kept (set_Op (e + k) x ms))"
    unfolding eq by (rule exchange_at[where x = x])
      (use mv ih len opi in \<open>auto simp: same_sides_def\<close>)
  have "\<forall>i < length ls. Text (set_Op (s + k) Kept (set_Op (e + k) x ms) ! i) = Text (ls ! i) \<and>
      Op (set_Op (s + k) Kept (set_Op (e + k) x ms) ! i) =
        (if s \<le> i \<and> i < s + Suc k then Kept else if s + Suc k \<le> i \<and> i < e + Suc k then x else Op (ls ! i))"
    using ih(2) mv len by (auto simp: set_Op_def nth_list_update)
  then show ?case
    using same_sides_trans[OF ih(1) ss] by (simp add: Let_def flip: ms_def)
qed

lemma move_up:
  assumes "movable ls s e x up down" "k \<le> up"
  shows "let ls' = foldl (\<lambda>ls m. set_Op (e - m - 1) Kept (set_Op (s - m - 1) x ls)) ls [0..<k]
    in same_sides ls ls' \<and> (\<forall>i < length ls. Text (ls' ! i) = Text (ls ! i) \<and>
      Op (ls' ! i) = (if e - k \<le> i \<and> i < e then Kept else if s - k \<le> i \<and> i < e - k then x else Op (ls ! i)))"
  using assms(2)
proof (induction k)
  case 0
  then show ?case using assms(1) by (auto simp: same_sides_def movable_def)
next
  case (Suc k)
  define ms where "ms = foldl (\<lambda>ls m. set_Op (e - m - 1) Kept (set_Op (s - m - 1) x ls)) ls [0..<k]"
  have ih: "same_sides ls ms" "\<forall>i < length ls. Text (ms ! i) = Text (ls ! i) \<and>
      Op (ms ! i) = (if e - k \<le> i \<and> i < e then Kept else if s - k \<le> i \<and> i < e - k then x else Op (ls ! i))"
    using Suc unfolding ms_def Let_def by auto
  have mv: "s < e" "e \<le> length ls" "k < s" "Op (ls ! (s - k - 1)) = Kept"
      "Text (ls ! (s - k - 1)) = Text (ls ! (e - k - 1))" "x = Deleted \<or> x = Inserted"
    using assms(1) Suc.prems by (auto simp: movable_def)
  have len: "length ms = length ls" using ih(1) by (simp add: same_sides_def)
  have opi: "Op (ms ! (e - k - 1)) = x" "Op (ms ! (s - k - 1)) = Kept" using ih(2) mv by auto
  have eq: "set_Op (e - k - 1) Kept (set_Op (s - k - 1) x ms) =
      ms[s - k - 1 := (ms ! (s - k - 1))\<lparr>Op := Op (ms ! (e - k - 1))\<rparr>,
         e - k - 1 := (ms ! (e - k - 1))\<lparr>Op := Op (ms ! (s - k - 1))\<rparr>]"
    using mv(1,3) opi by (simp add: set_Op_def)
  have ss: "same_sides ms (set_Op (e - k - 1) Kept (set_Op (s - k - 1) x ms))"
    unfolding eq by (rule exchange_at[where x = x])
      (use mv ih len opi in \<open>auto simp: same_sides_def\<close>)
  have "\<forall>i < length ls. Text (set_Op (e - k - 1) Kept (set_Op (s - k - 1) x ms) ! i) = Text (ls ! i) \<and>
      Op (set_Op (e - k - 1) Kept (set_Op (s - k - 1) x ms) ! i) =
        (if e - Suc k \<le> i \<and> i < e then Kept else if s - Suc k \<le> i \<and> i < e - Suc k then x else Op (ls ! i))"
    using ih(2) mv len by (auto simp: set_Op_def nth_list_update)
  then show ?case
    using same_sides_trans[OF ih(1) ss] unfolding ms_def by (simp add: Let_def)
qed

lemma move_run_sides:
  assumes "movable ls s e x up down" "- int up \<le> by'" "by' \<le> int down"
  shows "same_sides ls (move_run ls s e x by')"
  using move_down[OF assms(1), of "nat \<bar>by'\<bar>"] move_up[OF assms(1), of "nat \<bar>by'\<bar>"] assms(2,3)
  by (cases "by' < 0") (auto simp: move_run_def Let_def)

lemma slide_up_props:
  "(\<forall>m < k. s \<ge> m + 1 \<and> Op (ls ! (s - m - 1)) = Kept \<and> Text (ls ! (s - m - 1)) = Text (ls ! (e - m - 1))) \<Longrightarrow>
   k \<le> s \<Longrightarrow> slide_up ls s e k \<le> s \<and>
   (\<forall>m < slide_up ls s e k. Op (ls ! (s - m - 1)) = Kept \<and> Text (ls ! (s - m - 1)) = Text (ls ! (e - m - 1)))"
proof (induction ls s e k rule: slide_up.induct)
  case (1 ls s e up)
  show ?case
  proof (cases "s \<ge> up + 1 \<and> Op (ls ! (s - up - 1)) = Kept \<and> Text (ls ! (s - up - 1)) = Text (ls ! (e - up - 1))")
    case True
    have "slide_up ls s e (up + 1) \<le> s \<and> (\<forall>m < slide_up ls s e (up + 1).
        Op (ls ! (s - m - 1)) = Kept \<and> Text (ls ! (s - m - 1)) = Text (ls ! (e - m - 1)))"
      by (rule "1.IH"[OF True]) (use True "1.prems" in \<open>auto simp: less_Suc_eq\<close>)
    moreover have "slide_up ls s e up = slide_up ls s e (up + 1)"
      by (subst slide_up.simps) (use True in simp)
    ultimately show ?thesis by simp
  next
    case False
    then have "slide_up ls s e up = up" by (subst slide_up.simps) auto
    then show ?thesis using "1.prems" by auto
  qed
qed

lemma slide_down_props:
  "(\<forall>m < k. Op (ls ! (e + m)) = Kept \<and> Text (ls ! (e + m)) = Text (ls ! (s + m))) \<Longrightarrow>
   e + k \<le> length ls \<Longrightarrow> e + slide_down ls s e k \<le> length ls \<and>
   (\<forall>m < slide_down ls s e k. Op (ls ! (e + m)) = Kept \<and> Text (ls ! (e + m)) = Text (ls ! (s + m)))"
proof (induction ls s e k rule: slide_down.induct)
  case (1 ls s e down)
  show ?case
  proof (cases "e + down < length ls \<and> Op (ls ! (e + down)) = Kept \<and> Text (ls ! (e + down)) = Text (ls ! (s + down))")
    case True
    have "e + slide_down ls s e (down + 1) \<le> length ls \<and> (\<forall>m < slide_down ls s e (down + 1).
        Op (ls ! (e + m)) = Kept \<and> Text (ls ! (e + m)) = Text (ls ! (s + m)))"
      by (rule "1.IH"[OF True]) (use True "1.prems" in \<open>auto simp: less_Suc_eq\<close>)
    moreover have "slide_down ls s e down = slide_down ls s e (down + 1)"
      by (subst slide_down.simps) (use True in simp)
    ultimately show ?thesis by simp
  next
    case False
    then have "slide_down ls s e down = down" by (subst slide_down.simps) auto
    then show ?thesis using "1.prems" by auto
  qed
qed

lemma run_end_props:
  assumes "s < length ls" "Op (ls ! s) = x"
  shows "s < run_end x ls s \<and> run_end x ls s \<le> length ls \<and> (\<forall>k. s \<le> k \<and> k < run_end x ls s \<longrightarrow> Op (ls ! k) = x)"
proof -
  let ?t = "takeWhile (\<lambda>l. Op l = x) (drop s ls)"
  have le: "length ?t \<le> length ls - s"
    using length_takeWhile_le[of "\<lambda>l. Op l = x" "drop s ls"] by simp
  have "?t \<noteq> []" using assms by (simp add: takeWhile_eq_Nil_iff hd_drop_conv_nth)
  then have pos: "0 < length ?t" by simp
  have "Op (ls ! k) = x" if "s \<le> k" "k < s + length ?t" for k
  proof -
    have "?t ! (k - s) \<in> set ?t" using that by (intro nth_mem) auto
    then have "Op (?t ! (k - s)) = x" using set_takeWhileD by fastforce
    moreover have "?t ! (k - s) = drop s ls ! (k - s)" using that by (intro takeWhile_nth) auto
    ultimately show ?thesis using that assms(1) by simp
  qed
  then show ?thesis using pos le assms(1) by (auto simp: run_end_def)
qed

lemma least_indented_range:
  "- int up \<le> least_indented ls s e up down \<and> least_indented ls s e up down \<le> int down"
proof -
  have "- int up \<le> snd (foldl (\<lambda>(best, by) p. let sc = score ls s e p
       in if sc < best \<or> (sc = best \<and> \<bar>p\<bar> < \<bar>by\<bar>) then (sc, p) else (best, by)) acc ps) \<and>
     snd (foldl (\<lambda>(best, by) p. let sc = score ls s e p
       in if sc < best \<or> (sc = best \<and> \<bar>p\<bar> < \<bar>by\<bar>) then (sc, p) else (best, by)) acc ps) \<le> int down"
    if "set ps \<subseteq> {- int up..int down}" "- int up \<le> snd acc \<and> snd acc \<le> int down" for ps acc
    using that by (induction ps arbitrary: acc) (auto simp: Let_def split: prod.splits)
  then show ?thesis unfolding least_indented_def by simp
qed

lemma slide_by_range:
  "- int (slide_up ls s e 0) \<le> slide_by ls s e \<and> slide_by ls s e \<le> int (slide_down ls s e 0)"
  using least_indented_range by (auto simp: slide_by_def Let_def)

lemma slide_runs_ok:
  assumes "length ls + 1 - s < fuel + 1" "\<forall>l \<in> set ls. Op l \<in> {Kept, Deleted, Inserted}" "0 < fuel"
  shows "\<exists>ls'. slide_runs fuel ls s = Some ls' \<and> same_sides ls ls'"
  using assms
proof (induction fuel arbitrary: ls s)
  case (Suc fuel)
  show ?case
  proof (cases "s \<ge> length ls")
    case True
    then show ?thesis using Suc.prems by (simp add: same_sides_def)
  next
    case False
    define x where "x = Op (ls ! s)"
    let ?e = "run_end x ls s"
    let ?by = "slide_by ls s ?e"
    have re: "s < ?e" "?e \<le> length ls" "\<forall>k. s \<le> k \<and> k < ?e \<longrightarrow> Op (ls ! k) = x"
      using run_end_props[OF _ x_def[symmetric]] False by auto
    have x: "x \<in> {Kept, Deleted, Inserted}" using Suc.prems(2) False unfolding x_def by auto
    have step: "slide_runs (Suc fuel) ls s =
        (if x = Kept then slide_runs fuel ls (s + 1)
         else if (s > 0 \<and> Op (ls ! (s - 1)) \<noteq> Kept) \<or> (?e < length ls \<and> Op (ls ! ?e) \<noteq> Kept)
         then slide_runs fuel ls ?e
         else slide_runs fuel (move_run ls s ?e x ?by) (nat (max (int ?e) (int ?e + ?by))))"
      using False by (simp add: x_def Let_def)
    have go: "\<exists>ls'. slide_runs fuel ls t = Some ls' \<and> same_sides ls ls'" if "s < t" for t
      by (rule Suc.IH) (use that False Suc.prems in auto)
    show ?thesis
    proof (cases "x = Kept \<or> (s > 0 \<and> Op (ls ! (s - 1)) \<noteq> Kept) \<or> (?e < length ls \<and> Op (ls ! ?e) \<noteq> Kept)")
      case True
      then show ?thesis using go[of "s + 1"] go[OF re(1)] step by auto
    next
      case move: False
      have "movable ls s ?e x (slide_up ls s ?e 0) (slide_down ls s ?e 0)"
        using re move x Suc.prems(2) slide_up_props[of 0 s ls ?e] slide_down_props[of 0 ls ?e s]
        unfolding movable_def by auto
      then have ss: "same_sides ls (move_run ls s ?e x ?by)"
        using move_run_sides slide_by_range by blast
      have "\<exists>ls'. slide_runs fuel (move_run ls s ?e x ?by) (nat (max (int ?e) (int ?e + ?by))) = Some ls' \<and>
          same_sides (move_run ls s ?e x ?by) ls'"
        by (rule Suc.IH) (use ss re False Suc.prems in \<open>auto simp: same_sides_def\<close>)
      then show ?thesis using move step same_sides_trans[OF ss] by auto
    qed
  qed
qed simp

lemma sort_change_sides:
  assumes "\<forall>l \<in> set c. Op l = Deleted \<or> Op l = Inserted"
  shows "before_side (filter (\<lambda>l. Op l = Deleted) c @ filter (\<lambda>l. Op l \<noteq> Deleted) c) = before_side c"
    "after_side (filter (\<lambda>l. Op l = Deleted) c @ filter (\<lambda>l. Op l \<noteq> Deleted) c) = after_side c"
proof -
  have "after_side (filter (\<lambda>l. Op l = Deleted) c) = []" by (induction c) auto
  then show "after_side (filter (\<lambda>l. Op l = Deleted) c @ filter (\<lambda>l. Op l \<noteq> Deleted) c) = after_side c"
    by (simp add: after_side_def)
  show "before_side (filter (\<lambda>l. Op l = Deleted) c @ filter (\<lambda>l. Op l \<noteq> Deleted) c) = before_side c"
    using assms by (induction c) auto
qed

lemma order_changes_sides:
  assumes "\<forall>l \<in> set ls. Op l \<in> {Kept, Deleted, Inserted}"
  shows "same_sides ls (order_changes ls)"
  using assms
proof (induction ls rule: order_changes.induct)
  case (1 ls)
  show ?case
  proof (cases ls)
    case Nil
    then show ?thesis by (simp add: order_changes.simps same_sides_def)
  next
    case (Cons l ls')
    show ?thesis
    proof (cases "Op l = Kept")
      case True
      then have "order_changes ls = l # order_changes ls'"
        unfolding Cons by (subst order_changes.simps) simp
      then show ?thesis
        using "1.IH"(1)[OF Cons True] "1.prems" Cons True by (auto simp: same_sides_def)
    next
      case False
      let ?c = "takeWhile (\<lambda>l. Op l \<noteq> Kept) ls" and ?r = "dropWhile (\<lambda>l. Op l \<noteq> Kept) ls'"
      have split: "ls = ?c @ ?r" using Cons False takeWhile_dropWhile_id[of "\<lambda>l. Op l \<noteq> Kept" ls] by simp
      have ih: "same_sides ?r (order_changes ?r)"
        using "1.IH"(2)[OF Cons False refl] "1.prems" Cons by (auto dest: set_dropWhileD)
      have e: "order_changes ls = (filter (\<lambda>l. Op l = Deleted) ?c @ filter (\<lambda>l. Op l \<noteq> Deleted) ?c) @ order_changes ?r"
        using False unfolding Cons by (subst order_changes.simps) simp
      have mk: "\<forall>l \<in> set ?c. Op l = Deleted \<or> Op l = Inserted"
        using "1.prems" by (auto dest: set_takeWhileD)
      then have "before_side (filter (\<lambda>l. Op l = Deleted) ?c @ filter (\<lambda>l. Op l \<noteq> Deleted) ?c) = before_side ?c"
        "after_side (filter (\<lambda>l. Op l = Deleted) ?c @ filter (\<lambda>l. Op l \<noteq> Deleted) ?c) = after_side ?c"
        by (rule sort_change_sides)+
      then have "before_side (order_changes ls) = before_side (?c @ ?r)"
        "after_side (order_changes ls) = after_side (?c @ ?r)"
        "length (order_changes ls) = length (?c @ ?r)"
        using ih sum_length_filter_compl[of "\<lambda>l. Op l = Deleted" ?c]
        unfolding e same_sides_def by (auto simp: comp_def)
      then have "before_side (order_changes ls) = before_side ls" "after_side (order_changes ls) = after_side ls"
        "length (order_changes ls) = length ls" using split by metis+
      moreover have "\<forall>l \<in> set (order_changes ls). Op l \<in> {Kept, Deleted, Inserted}"
        using ih mk unfolding e same_sides_def by auto
      ultimately show ?thesis by (simp add: same_sides_def)
    qed
  qed
qed

lemma slide_ok:
  assumes "\<forall>l \<in> set ls. Op l \<in> {Kept, Deleted, Inserted}"
  shows "\<exists>ls'. slide ls = Some ls' \<and> same_sides ls ls'"
proof -
  obtain ms where m: "slide_runs (length ls + 1) ls 0 = Some ms" "same_sides ls ms"
    using slide_runs_ok[of ls 0 "length ls + 1"] assms by auto
  have "same_sides ms (order_changes ms)"
    by (rule order_changes_sides) (use m in \<open>simp add: same_sides_def\<close>)
  then show ?thesis using m same_sides_trans by (auto simp: slide_def)
qed

subsection \<open>Groups cover the changes and their context\<close>

fun ranges_ok :: "int \<Rightarrow> int \<Rightarrow> (int \<times> int) list \<Rightarrow> bool" where
  "ranges_ok p n [] \<longleftrightarrow> True"
| "ranges_ok p n ((lo, hi) # rs) \<longleftrightarrow> p < lo \<and> lo < hi \<and> hi \<le> n \<and> ranges_ok hi n rs"

definition cover :: "(int \<times> int) list \<Rightarrow> int set" where
  "cover rs = {k. \<exists>(lo, hi) \<in> set rs. lo \<le> k \<and> k < hi}"

text \<open>The lines at most \<open>context_lines\<close> away from one of the first \<open>i\<close> lines that changed.\<close>

definition near :: "bool list \<Rightarrow> int \<Rightarrow> int set" where
  "near ch i = {k. 0 \<le> k \<and> k < int (length ch) \<and>
     (\<exists>c. 0 \<le> c \<and> c < i \<and> ch ! nat c \<and> \<bar>k - c\<bar> \<le> context_lines)}"

lemma ranges_ok_widen: "ranges_ok p n (rs @ [(s, e)]) \<Longrightarrow> e \<le> e' \<Longrightarrow> e' \<le> n \<Longrightarrow> ranges_ok p n (rs @ [(s, e')])"
  by (induction p n rs rule: ranges_ok.induct) auto

lemma ranges_ok_snoc:
  "ranges_ok p n (rs @ [(s, e)]) \<Longrightarrow> e < lo \<Longrightarrow> lo < hi \<Longrightarrow> hi \<le> n \<Longrightarrow> ranges_ok p n (rs @ [(s, e), (lo, hi)])"
  by (induction p n rs rule: ranges_ok.induct) auto

lemma ranges_ok_last: "ranges_ok p n (rs @ [(s, e)]) \<Longrightarrow> e \<le> n"
  by (induction p n rs rule: ranges_ok.induct) auto

lemma cover_simps [simp]:
  "cover [] = {}" "cover (r # rs) = {fst r..<snd r} \<union> cover rs" "cover (rs @ qs) = cover rs \<union> cover qs"
  by (auto simp: cover_def)

lemma near_step:
  assumes "0 \<le> i" "i < int (length ch)"
  shows "near ch (i + 1) = near ch i \<union>
    (if ch ! nat i then {max (i - context_lines) 0..<min (i + context_lines + 1) (int (length ch))} else {})"
proof -
  have "c < i + 1 \<longleftrightarrow> c < i \<or> c = i" for c :: int by auto
  moreover have "ch ! nat i \<Longrightarrow> \<bar>x - i\<bar> \<le> 3 \<Longrightarrow> \<exists>c\<ge>0. (c < i \<or> c = i) \<and> ch ! nat c \<and> \<bar>x - c\<bar> \<le> 3" for x
    using assms by (intro exI[of _ i]) auto
  ultimately show ?thesis using assms by (auto simp: near_def context_lines_def)
qed

lemma groups_loop_ok:
  assumes "n = int (length ch)" "ch = pre @ cs" "i = int (length pre)"
    "(case cur of None \<Rightarrow> out = [] \<and> near ch i = {}
      | Some (s, e) \<Rightarrow> ranges_ok (-1) n (out @ [(s, e)]) \<and> cover (out @ [(s, e)]) = near ch i \<and>
          s \<le> max (i - context_lines) 0)"
  shows "ranges_ok (-1) n (groups_loop n out cur i cs) \<and> cover (groups_loop n out cur i cs) = near ch n"
  using assms
proof (induction n out cur i cs arbitrary: pre rule: groups_loop.induct)
  case (1 n out cur i)
  then show ?case by (auto split: option.splits)
next
  case (2 n out cur i c cs)
  have i: "0 \<le> i" "i < n" and c: "ch ! nat i = c" using "2.prems"(1-3) by auto
  let ?lo = "max (i - context_lines) 0" and ?hi = "min (i + context_lines + 1) n"
  have step: "near ch (i + 1) = near ch i \<union> (if c then {?lo..<?hi} else {})"
    using near_step[of i ch] i c "2.prems"(1) by simp
  have lh: "?lo < ?hi" "?hi \<le> n" using i by (auto simp: context_lines_def)
  have pre: "ch = (pre @ [c]) @ cs" "i + 1 = int (length (pre @ [c]))" using "2.prems"(2,3) by auto
  show ?case
  proof (cases c)
    case False
    have "ranges_ok (-1) n (groups_loop n out cur (i + 1) cs) \<and> cover (groups_loop n out cur (i + 1) cs) = near ch n"
      by (rule "2.IH"(1)[OF _ "2.prems"(1) pre])
        (use False step "2.prems"(4) in \<open>auto split: option.splits\<close>)
    then show ?thesis using False by simp
  next
    case True
    show ?thesis
    proof (cases cur)
      case None
      have "ranges_ok (-1) n (groups_loop n out (Some (?lo, ?hi)) (i + 1) cs) \<and>
          cover (groups_loop n out (Some (?lo, ?hi)) (i + 1) cs) = near ch n"
        by (rule "2.IH"(2)[OF _ refl refl None "2.prems"(1) pre])
          (use True step "2.prems"(4) None lh in auto)
      then show ?thesis using True None by (simp add: Let_def)
    next
      case (Some r)
      obtain s e where r: "r = (s, e)" by fastforce
      have inv: "ranges_ok (-1) n (out @ [(s, e)])" "cover (out @ [(s, e)]) = near ch i" "s \<le> ?lo"
        using "2.prems"(4) Some r by auto
      show ?thesis
      proof (cases "?lo \<le> e")
        case le: True
        have m: "e \<le> max e ?hi" "max e ?hi \<le> n"
          using ranges_ok_last[OF inv(1)] lh by auto
        have u: "{s..<max e ?hi} = {s..<e} \<union> {?lo..<?hi}" using le inv(3) lh by auto
        have "ranges_ok (-1) n (groups_loop n out (Some (s, max e ?hi)) (i + 1) cs) \<and>
            cover (groups_loop n out (Some (s, max e ?hi)) (i + 1) cs) = near ch n"
        proof (rule "2.IH"(3)[OF _ refl refl Some r[symmetric] _ "2.prems"(1) pre])
          have "ranges_ok (-1) n (out @ [(s, max e ?hi)])" by (rule ranges_ok_widen[OF inv(1) m])
          moreover have "cover (out @ [(s, max e ?hi)]) = near ch (i + 1)"
            using inv(2) step True u by auto
          ultimately show "case Some (s, max e ?hi) of None \<Rightarrow> out = [] \<and> near ch (i + 1) = {}
              | Some (s, e) \<Rightarrow> ranges_ok (-1) n (out @ [(s, e)]) \<and> cover (out @ [(s, e)]) = near ch (i + 1) \<and>
                  s \<le> max (i + 1 - context_lines) 0"
            using inv(3) by auto
        qed (use True le in auto)
        then show ?thesis using True Some r le by (simp add: Let_def)
      next
        case gt: False
        have "ranges_ok (-1) n (groups_loop n (out @ [(s, e)]) (Some (?lo, ?hi)) (i + 1) cs) \<and>
            cover (groups_loop n (out @ [(s, e)]) (Some (?lo, ?hi)) (i + 1) cs) = near ch n"
        proof (rule "2.IH"(4)[OF _ refl refl Some r[symmetric] _ "2.prems"(1) pre])
          have "ranges_ok (-1) n ((out @ [(s, e)]) @ [(?lo, ?hi)])"
            using ranges_ok_snoc[OF inv(1) _ lh] gt by simp
          moreover have "cover ((out @ [(s, e)]) @ [(?lo, ?hi)]) = near ch (i + 1)"
            using inv(2) step True by auto
          ultimately show "case Some (?lo, ?hi) of None \<Rightarrow> out @ [(s, e)] = [] \<and> near ch (i + 1) = {}
              | Some (s', e') \<Rightarrow> ranges_ok (-1) n ((out @ [(s, e)]) @ [(s', e')]) \<and>
                  cover ((out @ [(s, e)]) @ [(s', e')]) = near ch (i + 1) \<and> s' \<le> max (i + 1 - context_lines) 0"
            by auto
        qed (use True gt in auto)
        then show ?thesis using True Some r gt by (auto simp: Let_def)
      qed
    qed
  qed
qed

lemma groups_ok: "ranges_ok (-1) (int (length ch)) (groups ch) \<and> cover (groups ch) = near ch (int (length ch))"
  unfolding groups_def by (rule groups_loop_ok[where pre = "[]"]) (auto simp: near_def)

subsection \<open>Applying hunks\<close>

text \<open>
  What a reader of the hunks does, the abstract side of \<open>Hunks\<close> and \<open>Diff\<close>: copy the old
  lines up to a hunk's place, check that the hunk's old lines stand there and that its new
  position is right, and put the hunk's new lines for them.
\<close>

fun patch :: "string list \<Rightarrow> int \<Rightarrow> int \<Rightarrow> hunk list \<Rightarrow> string list option" where
  "patch a p q [] = Some (drop (nat p) a)"
| "patch a p q (h # hs) =
     (let n = int (length (before_side (Lines h)))
      in if p \<le> A h \<and> B h = q + (A h - p) \<and> slice a (A h) (A h + n) = before_side (Lines h)
         then do {
           rest \<leftarrow> patch a (A h + n) (B h + int (length (after_side (Lines h)))) hs;
           Some (slice a p (A h) @ after_side (Lines h) @ rest)
         }
         else None)"

lemma foldl_advance:
  "foldl (\<lambda>(i, j) l. advance (Op l) i j) (i, j) ls =
   (i + int (length (before_side ls)), j + int (length (after_side ls)))"
  by (induction ls arbitrary: i j) (auto simp: advance_def)

lemma slice_append: "0 \<le> u \<Longrightarrow> u \<le> v \<Longrightarrow> take (nat u) xs @ slice xs u v = take (nat v) xs"
  by (metis slice_def le_add_diff_inverse nat_diff_distrib nat_le_eq_zle nat_mono take_add)

lemma slice_drop: "0 \<le> u \<Longrightarrow> u \<le> v \<Longrightarrow> slice xs u v @ drop (nat v) xs = drop (nat u) xs"
proof -
  assume h: "0 \<le> u" "u \<le> v"
  then have "nat v = nat (v - u) + nat u" by linarith
  then have "drop (nat v) xs = drop (nat (v - u)) (drop (nat u) xs)" by simp
  then show ?thesis unfolding slice_def by (metis append_take_drop_id)
qed

lemma length_slice: "0 \<le> u \<Longrightarrow> u \<le> v \<Longrightarrow> v \<le> int (length xs) \<Longrightarrow> int (length (slice xs u v)) = v - u"
  by (auto simp: slice_def)

lemma slice_eqI: "xs = ys @ zs @ ws \<Longrightarrow> u = int (length ys) \<Longrightarrow> v = int (length ys + length zs) \<Longrightarrow> slice xs u v = zs"
  by (simp add: slice_def)

text \<open>How many old and new lines stand before a place.\<close>

definition olds :: "line list \<Rightarrow> int \<Rightarrow> int" where
  "olds ls k = int (length (before_side (take (nat k) ls)))"

definition news :: "line list \<Rightarrow> int \<Rightarrow> int" where
  "news ls k = int (length (after_side (take (nat k) ls)))"

lemma count_slice:
  assumes "0 \<le> u" "u \<le> v"
  shows "olds ls v = olds ls u + int (length (before_side (slice ls u v)))"
    "news ls v = news ls u + int (length (after_side (slice ls u v)))"
  using slice_append[OF assms, of ls, symmetric] by (simp_all add: olds_def news_def)

lemma slice_before_side:
  assumes "0 \<le> u" "u \<le> v"
  shows "slice (before_side ls) (olds ls u) (olds ls v) = before_side (slice ls u v)"
proof -
  have e: "ls = take (nat u) ls @ slice ls u v @ drop (nat v) ls"
    using slice_drop[OF assms, of ls] by simp
  have "before_side ls = before_side (take (nat u) ls) @ before_side (slice ls u v) @ before_side (drop (nat v) ls)"
    by (subst e) simp
  then show ?thesis by (rule slice_eqI) (use count_slice[OF assms, of ls] in \<open>simp_all add: olds_def\<close>)
qed

lemma drop_before_side: "drop (nat (olds ls p)) (before_side ls) = before_side (drop (nat p) ls)"
proof -
  have "before_side ls = before_side (take (nat p) ls) @ before_side (drop (nat p) ls)"
    by (metis append_take_drop_id sides_append(1))
  then show ?thesis by (simp add: olds_def)
qed

lemma kept_sides: "\<forall>l \<in> set ls. Op l = Kept \<Longrightarrow> before_side ls = map Text ls \<and> after_side ls = map Text ls"
  by (induction ls) auto

lemma ranges_ok_cover: "ranges_ok p n rs \<Longrightarrow> k \<in> cover rs \<Longrightarrow> p < k"
  by (induction p n rs rule: ranges_ok.induct) auto

lemma kept_slice:
  assumes "\<forall>k. u \<le> k \<and> k < v \<longrightarrow> Op (ls ! nat k) = Kept" "0 \<le> u" "v \<le> int (length ls)"
  shows "\<forall>l \<in> set (slice ls u v). Op l = Kept"
proof
  fix l
  assume "l \<in> set (slice ls u v)"
  then obtain i where i: "i < length (slice ls u v)" "l = slice ls u v ! i" by (auto simp: in_set_conv_nth)
  then have lt: "int i < v - u" by (auto simp: slice_def)
  then have "l = ls ! nat (u + int i)" using i assms(2,3) by (auto simp: slice_def nat_add_distrib)
  then show "Op l = Kept" using assms lt by simp
qed

lemma patch_hunk_list:
  assumes "ranges_ok (p - 1) (int (length ls)) rs" "0 \<le> at" "at \<le> p" "p \<le> int (length ls)"
    "\<forall>k. p \<le> k \<and> k < int (length ls) \<and> k \<notin> cover rs \<longrightarrow> Op (ls ! nat k) = Kept"
  shows "patch (before_side ls) (olds ls p) (news ls p) (hunk_list ls (olds ls at) (news ls at) at rs)
    = Some (after_side (drop (nat p) ls))"
  using assms
proof (induction rs arbitrary: p at)
  case Nil
  have "slice ls p (int (length ls)) = drop (nat p) ls" using Nil.prems(2-4) by (simp add: slice_def)
  then have "before_side (drop (nat p) ls) = after_side (drop (nat p) ls)"
    using kept_sides kept_slice[of p "int (length ls)" ls] Nil.prems by auto
  then show ?case by (simp add: drop_before_side)
next
  case (Cons r rs)
  obtain lo hi where r: "r = (lo, hi)" by fastforce
  have b: "p \<le> lo" "lo < hi" "hi \<le> int (length ls)" and ok: "ranges_ok hi (int (length ls)) rs"
    using Cons.prems(1) r by auto
  have at: "at \<le> lo" "0 \<le> lo" "0 \<le> p" "0 \<le> hi" using Cons.prems(2,3) b by auto
  let ?h = "\<lparr>A = olds ls lo, B = news ls lo, Lines = slice ls lo hi\<rparr>"
  have fold: "hunk_list ls (olds ls at) (news ls at) at (r # rs) = ?h # hunk_list ls (olds ls lo) (news ls lo) lo rs"
    using at(1) count_slice[OF Cons.prems(2) at(1), of ls] by (simp add: r foldl_advance)
  have kept: "before_side (slice ls p lo) = map Text (slice ls p lo)" "after_side (slice ls p lo) = map Text (slice ls p lo)"
  proof -
    have "k \<notin> cover (r # rs)" if "k < lo" for k
      using that ranges_ok_cover[OF ok] b(2) by (fastforce simp: r)
    then have "\<forall>k. p \<le> k \<and> k < lo \<longrightarrow> Op (ls ! nat k) = Kept" using Cons.prems(5) b by force
    from kept_sides[OF kept_slice[OF this at(3)]] b
    show "before_side (slice ls p lo) = map Text (slice ls p lo)" "after_side (slice ls p lo) = map Text (slice ls p lo)"
      by auto
  qed
  have pos: "olds ls p \<le> olds ls lo" "news ls lo = news ls p + (olds ls lo - olds ls p)"
    using count_slice[OF at(3) b(1), of ls] kept by auto
  have ends: "olds ls hi = olds ls lo + int (length (before_side (slice ls lo hi)))"
      "news ls hi = news ls lo + int (length (after_side (slice ls lo hi)))"
    using count_slice[OF at(2), of hi ls] b by auto
  have "patch (before_side ls) (olds ls hi) (news ls hi) (hunk_list ls (olds ls lo) (news ls lo) lo rs)
      = Some (after_side (drop (nat hi) ls))"
  proof (rule Cons.IH)
    show "ranges_ok (hi - 1) (int (length ls)) rs" using ok by (cases rs) auto
    show "\<forall>k. hi \<le> k \<and> k < int (length ls) \<and> k \<notin> cover rs \<longrightarrow> Op (ls ! nat k) = Kept"
      using Cons.prems(5) b by (auto simp: r)
  qed (use at b in auto)
  note ih = this[unfolded ends]
  have "patch (before_side ls) (olds ls p) (news ls p) (?h # hunk_list ls (olds ls lo) (news ls lo) lo rs)
      = Some (map Text (slice ls p lo) @ after_side (slice ls lo hi) @ after_side (drop (nat hi) ls))"
    using ih pos slice_before_side[OF at(3) b(1), of ls] slice_before_side[OF at(2), of hi ls, unfolded ends] b kept
    by (simp add: Let_def)
  moreover have "drop (nat p) ls = slice ls p lo @ slice ls lo hi @ drop (nat hi) ls"
    using slice_drop[OF at(3) b(1), of ls] slice_drop[OF at(2), of hi ls] b by simp
  ultimately show ?case using kept by (simp add: fold)
qed

lemma patch_groups:
  assumes "ls' = ls"
  shows "patch (before_side ls) 0 0 (hunk_list ls' 0 0 0 (groups (map (\<lambda>l. Op l \<noteq> Kept) ls))) = Some (after_side ls)"
proof -
  let ?ch = "map (\<lambda>l. Op l \<noteq> Kept) ls"
  have g: "ranges_ok (0 - 1) (int (length ls)) (groups ?ch)" "cover (groups ?ch) = near ?ch (int (length ls))"
    using groups_ok[of ?ch] by auto
  have "\<forall>k. 0 \<le> k \<and> k < int (length ls) \<and> k \<notin> cover (groups ?ch) \<longrightarrow> Op (ls ! nat k) = Kept"
  proof (intro allI impI)
    fix k
    assume h: "0 \<le> k \<and> k < int (length ls) \<and> k \<notin> cover (groups ?ch)"
    then have "k \<notin> near ?ch (int (length ls))" by (simp add: g(2))
    then have "\<not> ?ch ! nat k" using h by (auto simp: near_def context_lines_def)
    moreover have "nat k < length ls" using h by linarith
    ultimately show "Op (ls ! nat k) = Kept" by simp
  qed
  from patch_hunk_list[OF g(1) _ _ _ this, of 0] show ?thesis
    by (simp add: assms olds_def news_def)
qed

lemma script_lines:
  assumes "int (length a + length b + 3) \<le> MaxInt"
  shows "\<exists>ops. script a b = Some ops \<and> before_side (map (op_line a b) ops) = a \<and>
    after_side (map (op_line a b) ops) = b \<and> walks 0 0 ops (int (length a)) (int (length b)) \<and>
    (\<forall>l \<in> set (map (op_line a b) ops). Op l \<in> {Kept, Deleted, Inserted})"
proof -
  obtain ops where o: "script a b = Some ops" "walks 0 0 ops (int (length a)) (int (length b))"
      "\<forall>x \<in> set ops. kind x = Kept \<longrightarrow> a ! nat (oi x) = b ! nat (oj x)"
    using script_ok[OF assms] by blast
  have "\<forall>x \<in> set ops. kind x \<in> {Kept, Deleted, Inserted}" if "walks i j ops u v" for i j u v
    using that by (induction ops arbitrary: i j) (auto split: prod.splits)
  then show ?thesis using o walks_sides[OF o(2) _ _ o(3)] by auto
qed

lemma LineHunks_ok:
  assumes "int (length a + length b + 3) \<le> MaxInt"
  shows "\<exists>hs. LineHunks a b = Some hs \<and> patch a 0 0 hs = Some b"
proof (cases "a = b")
  case True
  then show ?thesis by (simp add: LineHunks_def)
next
  case False
  obtain ops where o: "script a b = Some ops" "before_side (map (op_line a b) ops) = a"
      "after_side (map (op_line a b) ops) = b"
      "\<forall>l \<in> set (map (op_line a b) ops). Op l \<in> {Kept, Deleted, Inserted}"
    using script_lines[OF assms] by blast
  obtain ls where s: "slide (map (op_line a b) ops) = Some ls" "same_sides (map (op_line a b) ops) ls"
    using slide_ok[OF o(4)] by blast
  have "patch (before_side ls) 0 0 (hunk_list ls 0 0 0 (groups (map (\<lambda>l. Op l \<noteq> Kept) ls))) = Some (after_side ls)"
    by (rule patch_groups) simp
  then show ?thesis using False o s by (simp add: LineHunks_def same_sides_def)
qed

subsection \<open>The hunks of Diff\<close>

lemma walks_counts:
  "walks i j ops u v \<Longrightarrow> u = i + int (length (before_side (map (op_line a b) ops))) \<and>
   v = j + int (length (after_side (map (op_line a b) ops)))"
  by (induction ops arbitrary: i j) (fastforce simp: advance_def split: if_splits)+

lemma hunk_pos_set:
  assumes "0 \<le> os" "0 \<le> ns"
  shows "hunk_pos h (os, ns, ol, nl) = (os, ns, ol + int (length (before_side (map (op_line a b) h))),
    nl + int (length (after_side (map (op_line a b) h))))"
  using assms by (induction h arbitrary: ol nl) (auto simp: Let_def)

lemma hunk_pos_old:
  assumes "0 \<le> ns" "walks i j h u v" "0 \<le> i"
  shows "\<exists>os. hunk_pos h (-1, ns, ol, nl) = (os, ns, ol + int (length (before_side (map (op_line a b) h))),
    nl + int (length (after_side (map (op_line a b) h)))) \<and> (os = -1 \<or> os = i)"
  using assms
proof (induction h arbitrary: i j ol nl)
  case (Cons x h)
  show ?case
  proof (cases "kind x = Inserted")
    case True
    then have "walks i (j + 1) h u v" using Cons.prems(2) by (auto simp: advance_def)
    from Cons.IH[OF Cons.prems(1) this Cons.prems(3), of ol "nl + 1"] True show ?thesis
      using Cons.prems(1) by (auto simp: algebra_simps)
  next
    case False
    then show ?thesis
      using Cons.prems by (auto simp: hunk_pos_set[of i ns, where a = a and b = b])
  qed
qed simp

lemma hunk_pos_new:
  assumes "0 \<le> os" "walks i j h u v" "0 \<le> j"
  shows "\<exists>ns. hunk_pos h (os, -1, ol, nl) = (os, ns, ol + int (length (before_side (map (op_line a b) h))),
    nl + int (length (after_side (map (op_line a b) h)))) \<and> (ns = -1 \<or> ns = j)"
  using assms
proof (induction h arbitrary: i j ol nl)
  case (Cons x h)
  show ?case
  proof (cases "kind x = Deleted")
    case True
    then have "walks (i + 1) j h u v" using Cons.prems(2) by (auto simp: advance_def)
    from Cons.IH[OF Cons.prems(1) this Cons.prems(3), of "ol + 1" nl] True show ?thesis
      using Cons.prems(1) by (auto simp: algebra_simps)
  next
    case False
    then show ?thesis
      using Cons.prems by (auto simp: hunk_pos_set[of os j, where a = a and b = b])
  qed
qed simp

text \<open>The header of a hunk: where its first line stands on each side, also when a side is
  empty, and how many lines each side has.\<close>

lemma hunk_header_ok:
  assumes "walks i j h u v" "h \<noteq> []" "0 \<le> i" "0 \<le> j"
  shows "hunk_header h = (i, j, int (length (before_side (map (op_line a b) h))),
    int (length (after_side (map (op_line a b) h))))"
proof -
  obtain x h' where h: "h = x # h'" using assms(2) by (cases h) auto
  have x: "oi x = i" "oj x = j" "kind x \<in> {Kept, Deleted, Inserted}" using assms(1) h by auto
  consider "kind x = Kept" | "kind x = Deleted" | "kind x = Inserted" using x by auto
  then show ?thesis
  proof cases
    case 1
    then show ?thesis
      using x assms(3,4) by (auto simp: hunk_header_def h hunk_pos_set[of i j, where a = a and b = b])
  next
    case 2
    then have "walks (i + 1) j h' u v" using assms(1) h by (auto simp: advance_def)
    from hunk_pos_new[OF assms(3) this assms(4), of 1 0 a b] 2 show ?thesis
      using x assms(3,4) by (auto simp: hunk_header_def h)
  next
    case 3
    then have "walks i (j + 1) h' u v" using assms(1) h by (auto simp: advance_def)
    from hunk_pos_old[OF assms(4) this assms(3), of 0 1 a b] 3 show ?thesis
      using x assms(3,4) by (auto simp: hunk_header_def h)
  qed
qed

text \<open>A hunk of \<open>Diff\<close> as its header and its lines say it.\<close>

definition hunk_of :: "string list \<Rightarrow> string list \<Rightarrow> op list \<Rightarrow> hunk" where
  "hunk_of a b h = (let (os, ns, ol, nl) = hunk_header h in \<lparr>A = os, B = ns, Lines = map (op_line a b) h\<rparr>)"

definition counts_ok :: "string list \<Rightarrow> string list \<Rightarrow> op list \<Rightarrow> bool" where
  "counts_ok a b h \<longleftrightarrow> (let (os, ns, ol, nl) = hunk_header h
     in ol = int (length (before_side (map (op_line a b) h))) \<and>
        nl = int (length (after_side (map (op_line a b) h))))"

lemma slice_map: "slice (map f xs) u v = map f (slice xs u v)"
  by (simp add: slice_def take_map drop_map)

lemma walks_slice:
  assumes "walks 0 0 ops u v" "0 \<le> lo" "lo \<le> hi"
  shows "\<exists>u' v'. walks (olds (map (op_line a b) ops) lo) (news (map (op_line a b) ops) lo) (slice ops lo hi) u' v'"
proof -
  have "ops = take (nat lo) ops @ slice ops lo hi @ drop (nat hi) ops"
    using slice_drop[OF assms(2,3), of ops] by simp
  then have "walks 0 0 (take (nat lo) ops @ slice ops lo hi @ drop (nat hi) ops) u v" using assms(1) by simp
  then obtain i j u' v' where w: "walks 0 0 (take (nat lo) ops) i j" "walks i j (slice ops lo hi) u' v'"
    unfolding walks_append by blast
  then show ?thesis using walks_counts[OF w(1), of a b] by (auto simp: olds_def news_def take_map)
qed

lemma hunk_list_hunks:
  fixes a b :: "string list"
  assumes "walks 0 0 ops u v" "ranges_ok (p - 1) (int (length ops)) rs" "0 \<le> at" "at \<le> p"
  defines "ls \<equiv> map (op_line a b) ops"
  shows "map (\<lambda>(lo, hi). hunk_of a b (slice ops lo hi)) rs = hunk_list ls (olds ls at) (news ls at) at rs \<and>
    (\<forall>(lo, hi) \<in> set rs. counts_ok a b (slice ops lo hi))"
  using assms(2-4)
proof (induction rs arbitrary: p at)
  case (Cons r rs)
  obtain lo hi where r: "r = (lo, hi)" by fastforce
  have b: "p \<le> lo" "lo < hi" "hi \<le> int (length ops)" "ranges_ok hi (int (length ops)) rs"
    using Cons.prems(1) r by auto
  then have ok: "ranges_ok (hi - 1) (int (length ops)) rs" by (cases rs) auto
  have at: "0 \<le> lo" "at \<le> lo" "lo \<le> hi" using Cons.prems(2,3) b by auto
  have ih: "map (\<lambda>(lo, hi). hunk_of a b (slice ops lo hi)) rs = hunk_list ls (olds ls lo) (news ls lo) lo rs \<and>
      (\<forall>(lo, hi) \<in> set rs. counts_ok a b (slice ops lo hi))"
    using Cons.IH[OF ok at(1,3)] .
  have ne: "slice ops lo hi \<noteq> []" using length_slice[OF at(1,3) b(3)] b(2) by auto
  obtain u' v' where w: "walks (olds ls lo) (news ls lo) (slice ops lo hi) u' v'"
    using walks_slice[OF assms(1) at(1,3)] unfolding ls_def by blast
  have hd: "hunk_header (slice ops lo hi) = (olds ls lo, news ls lo,
      int (length (before_side (map (op_line a b) (slice ops lo hi)))),
      int (length (after_side (map (op_line a b) (slice ops lo hi)))))"
    by (rule hunk_header_ok[OF w ne]) (simp_all add: olds_def news_def)
  have "hunk_list ls (olds ls at) (news ls at) at (r # rs) =
      \<lparr>A = olds ls lo, B = news ls lo, Lines = slice ls lo hi\<rparr> # hunk_list ls (olds ls lo) (news ls lo) lo rs"
    using at(2) count_slice[OF Cons.prems(2) at(2), of ls] by (simp add: r foldl_advance)
  then show ?case using ih hd by (simp add: r hunk_of_def counts_ok_def slice_map ls_def)
qed simp

lemma Diff_hunks_ok:
  assumes "int (length a + length b + 3) \<le> MaxInt"
  shows "\<exists>ops. script a b = Some ops \<and> patch a 0 0 (map (hunk_of a b) (hunks ops)) = Some b \<and>
    (\<forall>h \<in> set (hunks ops). counts_ok a b h)"
proof -
  obtain ops where o: "script a b = Some ops" "before_side (map (op_line a b) ops) = a"
      "after_side (map (op_line a b) ops) = b" "walks 0 0 ops (int (length a)) (int (length b))"
    using script_lines[OF assms] by blast
  let ?ls = "map (op_line a b) ops" and ?g = "groups (map (\<lambda>x. kind x \<noteq> Kept) ops)"
  have ch: "map (\<lambda>l. Op l \<noteq> Kept) ?ls = map (\<lambda>x. kind x \<noteq> Kept) ops" by simp
  have "ranges_ok (0 - 1) (int (length ops)) ?g" using groups_ok[of "map (\<lambda>x. kind x \<noteq> Kept) ops"] by simp
  from hunk_list_hunks[OF o(4) this, of 0 a b]
  have h: "map (\<lambda>(lo, hi). hunk_of a b (slice ops lo hi)) ?g = hunk_list ?ls 0 0 0 ?g"
      "\<forall>(lo, hi) \<in> set ?g. counts_ok a b (slice ops lo hi)"
    by (simp_all add: olds_def news_def)
  have "patch (before_side ?ls) 0 0 (hunk_list ?ls 0 0 0 ?g) = Some (after_side ?ls)"
    using patch_groups[of ?ls ?ls] unfolding ch by simp
  moreover have "map (hunk_of a b) (hunks ops) = hunk_list ?ls 0 0 0 ?g"
    using h(1) by (simp add: hunks_def comp_def case_prod_unfold)
  moreover have "\<forall>h \<in> set (hunks ops). counts_ok a b h"
    using h(2) by (auto simp: hunks_def)
  ultimately show ?thesis using o by simp
qed

lemma concat_split_after: "concat (split_after_nl s) = s"
  by (induction s) (auto split: list.splits)

lemma split_after_ne [simp]: "split_after_nl s \<noteq> []"
  by (induction s) (auto split: list.splits)

lemma split_after_init:
  "l \<in> set (butlast (split_after_nl s)) \<Longrightarrow> \<exists>t. l = t @ [CHR 0x0A] \<and> CHR 0x0A \<notin> set t"
proof (induction s arbitrary: l)
  case (Cons c s)
  obtain m ms where m: "split_after_nl s = m # ms" by (meson neq_Nil_conv split_after_ne)
  show ?case
  proof (cases "c = CHR 0x0A")
    case True
    then show ?thesis using Cons m by (auto intro: exI[of _ "[]"])
  next
    case False
    then have "l \<in> set (butlast ((c # m) # ms))" using Cons.prems m by simp
    then show ?thesis
    proof (cases "ms = []")
      case False
      then consider "l = c # m" | "l \<in> set (butlast (split_after_nl s))"
        using \<open>l \<in> set (butlast ((c # m) # ms))\<close> m by auto
      then show ?thesis
      proof cases
        case 1
        obtain t where "m = t @ [CHR 0x0A] \<and> CHR 0x0A \<notin> set t" using Cons.IH[of m] m \<open>ms \<noteq> []\<close> by auto
        then show ?thesis using 1 \<open>c \<noteq> CHR 0x0A\<close> by (intro exI[of _ "c # t"]) auto
      qed (use Cons.IH in blast)
    qed auto
  qed
qed simp

lemma split_after_last: "CHR 0x0A \<notin> set (last (split_after_nl s))"
  by (induction s) (auto split: list.splits if_splits)

lemma concat_splitLines: "concat (splitLines s) = s"
proof -
  have "concat (butlast (split_after_nl s)) @ last (split_after_nl s) = s"
    using concat_append[of "butlast (split_after_nl s)" "[last (split_after_nl s)]"]
    by (simp add: concat_split_after)
  then show ?thesis by (auto simp: splitLines_def Let_def concat_split_after)
qed

lemma length_splitLines: "length (splitLines s) \<le> length s + 1"
proof -
  have "length (split_after_nl s) \<le> length s + 1" by (induction s) (auto split: list.splits)
  then show ?thesis by (auto simp: splitLines_def Let_def)
qed

text \<open>
  C2: \<open>LineHunks\<close>, with its sliding of changes along equal lines, always returns, and applying
  the hunks it returns to the old lines gives the new lines: the hunks come in order without
  overlap, each hunk's old lines are the lines that stand at its place, and its place on the
  new side is right.
\<close>
theorem LineHunks_patch:
  assumes "int (length a + length b + 3) \<le> MaxInt"
  shows "\<exists>hs. LineHunks a b = Some hs \<and> patch a 0 0 hs = Some b"
  using assms by (rule LineHunks_ok)

lemma LineHunks_patch_witness:
  "\<exists>hs. LineHunks [''a'', ''b''] [''b'', ''c''] = Some hs \<and> patch [''a'', ''b''] 0 0 hs = Some [''b'', ''c'']"
  using LineHunks_patch[of "[''a'', ''b'']" "[''b'', ''c'']"] by (simp add: MaxInt_def)



text \<open>
  The ranges \<open>groups\<close> returns are in order and apart, and they cover exactly the lines at
  most three lines away from a change.
\<close>
theorem groups_cover:
  "ranges_ok (-1) (int (length ch)) (groups ch) \<and> cover (groups ch) = near ch (int (length ch))"
  by (rule groups_ok)

end
