(* ===== verification/SpecTree.thy ===== *)
theory SpecTree
  imports Protocol "HOL-Library.List_Lexorder" "HOL-Library.Char_ord" "HOL-Library.AList"
begin

text \<open>
  \<^verbatim>\<open>internal/gotestspec/tree.go\<close>, the finished tree: its data, the naming rules that
  classify a node, the fuzz targets re-homed under their suites, what is counted as a failure, and
  how long a node took.  The construction of the tree from a test stream is theory \<open>BuildTree\<close>.

  A \<open>*Node\<close> with its children is a \<open>node\<close>; the functions that write a node's fields return
  the node written.  What the code takes from the standard library and no list of bytes can say is
  in the record \<open>stdlib\<close>: \<open>strconv.ParseFloat\<close>, the conversions of a \<open>float64\<close> and
  \<open>unicode.IsLower\<close>.
\<close>

record stdlib =
  parse_float :: "string \<Rightarrow> f64 option"
  float_int64 :: "f64 \<Rightarrow> int"
  float_seconds :: "f64 \<Rightarrow> duration"
  rune_is_lower :: "nat \<Rightarrow> bool"

subsection \<open>Data\<close>

datatype Status = StatusNone | StatusPass | StatusFail | StatusSkip

datatype NodeKind = KindUnknown | KindFixture | KindSuite | KindMethod | KindBlock | KindTest
  | KindBenchmark | KindFuzz

datatype Vocab = VocabNone | VocabWhen | VocabIt | VocabEach

record Declaration =
  Label :: string
  DVocab :: Vocab

record ndata =
  Name :: string
  Display :: string
  Kind :: NodeKind
  NVocab :: Vocab
  SourceLabel :: string
  NStatus :: Status
  Duration :: duration
  Start :: time
  End :: time
  Paused :: bool
  Output :: "string list"
  Focused :: bool
  Excluded :: bool
  External :: bool
  Incomplete :: bool
  Variant :: nat
  duplicate :: bool
  Iterations :: int
  NsPerOp :: f64
  BytesPerOp :: int
  AllocsPerOp :: int
  Metrics :: "(string \<times> f64) list"
  Procs :: int

definition zero_node :: ndata where
  "zero_node = \<lparr>Name = [], Display = [], Kind = KindUnknown, NVocab = VocabNone, SourceLabel = [],
     NStatus = StatusNone, Duration = 0, Start = None, End = None, Paused = False, Output = [],
     Focused = False, Excluded = False, External = False, Incomplete = False, Variant = 0,
     duplicate = False, Iterations = 0, NsPerOp = 0, BytesPerOp = 0, AllocsPerOp = 0, Metrics = [],
     Procs = 0\<rparr>"

datatype node = Node (dat: ndata) (kids: "node list")

record Package =
  Path :: string
  PStatus :: Status
  PDuration :: duration
  Nodes :: "node list"
  POutput :: "string list"

record Stats =
  Suites :: nat
  Behaviors :: nat
  Tests :: nat
  Benchmarks :: nat
  Fuzzers :: nat
  Passed :: nat
  Failed :: nat
  Skipped :: nat
  FailedPackages :: nat

definition zero_stats :: Stats where
  "zero_stats = \<lparr>Suites = 0, Behaviors = 0, Tests = 0, Benchmarks = 0, Fuzzers = 0, Passed = 0,
     Failed = 0, Skipped = 0, FailedPackages = 0\<rparr>"

definition Total :: "Stats \<Rightarrow> nat" where "Total s = Passed s + Failed s + Skipped s"

subsection \<open>Labels\<close>

definition connectives :: "string list" where
  "connectives = [''when'', ''whenever'', ''with'', ''without'', ''given'', ''if'', ''unless'',
     ''after'', ''before'', ''while'', ''once'', ''on'', ''upon'', ''as'', ''for'', ''during'', ''under'']"

definition opensWithConnective :: "string \<Rightarrow> bool" where
  "opensWithConnective label =
     (let word = takeWhile (\<lambda>c. c \<notin> {CHR '' '', CHR ''_'', CHR 0x09}) label
      in list_ex (\<lambda>c. equal_fold word c) connectives)"

definition Apply :: "Vocab \<Rightarrow> string \<Rightarrow> string" where
  "Apply v label =
     (if v \<noteq> VocabWhen \<or> opensWithConnective label then label else ''when '' @ label)"

subsection \<open>Names\<close>

definition isBenchmarkName :: "stdlib \<Rightarrow> string \<Rightarrow> bool" where
  "isBenchmarkName L name = (case cutPrefix name PrefixBenchmark of
     None \<Rightarrow> False
   | Some rest \<Rightarrow> rest = [] \<or> \<not> rune_is_lower L (fst (decode_rune rest)))"

definition hasDuplicateSuffix :: "string \<Rightarrow> bool" where
  "hasDuplicateSuffix s = (case last_index_byte s (CHR ''#'') of
     None \<Rightarrow> False
   | Some i \<Rightarrow> (let suffix = drop (i + 1) s in suffix \<noteq> [] \<and> list_all is_digit suffix))"

definition stripDuplicateSuffix :: "string \<Rightarrow> string" where
  "stripDuplicateSuffix s = (case last_index_byte s (CHR ''#'') of
     None \<Rightarrow> s
   | Some i \<Rightarrow> if i = 0 then s
       else if list_all is_digit (drop (i + 1) s) then take i s else s)"

subsection \<open>Benchmark lines\<close>

record BenchLine =
  BName :: string
  BProcs :: int
  BIterations :: int
  BNsPerOp :: f64
  BBytesPerOp :: int
  BAllocsPerOp :: int
  BMetrics :: "(string \<times> f64) list"

text \<open>
  \<^verbatim>\<open>^(Benchmark\S*?)(?:-(\d+))?$\<close> on a field, which holds no blanks: the first group is lazy, so
  a dash and digits at the end are the second group.
\<close>

definition bench_name :: "string \<Rightarrow> (string \<times> string) option" where
  "bench_name f =
     (if \<not> hasPrefix f ''Benchmark'' then None
      else case last_index_byte f (CHR ''-'') of
        None \<Rightarrow> Some (f, [])
      | Some i \<Rightarrow> (let d = drop (i + 1) f
          in if i \<ge> 9 \<and> d \<noteq> [] \<and> list_all is_digit d then Some (take i f, d) else Some (f, [])))"

text \<open>The unit pairs of a line, with whether one of them was \<open>ns/op\<close>.\<close>

fun bench_pairs :: "stdlib \<Rightarrow> string list \<Rightarrow> BenchLine \<times> bool \<Rightarrow> (BenchLine \<times> bool) option" where
  "bench_pairs L (f # unit # fs) (out, sawNs) = do {
     v \<leftarrow> parse_float L f;
     bench_pairs L fs
       (if unit = ''ns/op'' then (out\<lparr>BNsPerOp := v\<rparr>, True)
        else if unit = ''B/op'' then (out\<lparr>BBytesPerOp := float_int64 L v\<rparr>, sawNs)
        else if unit = ''allocs/op'' then (out\<lparr>BAllocsPerOp := float_int64 L v\<rparr>, sawNs)
        else (out\<lparr>BMetrics := AList.update unit v (BMetrics out)\<rparr>, sawNs))
   }"
| "bench_pairs L _ acc = Some acc"

definition ParseBenchLine :: "stdlib \<Rightarrow> string \<Rightarrow> BenchLine option" where
  "ParseBenchLine L line =
     (case str_fields line of
        f0 # f1 # fs \<Rightarrow>
          if length fs < 2 \<or> odd (length fs) then None
          else do {
            (name, procs) \<leftarrow> bench_name f0;
            iters \<leftarrow> atoi f1;
            (out, sawNs) \<leftarrow> bench_pairs L fs
              (\<lparr>BName = name, BProcs = (if procs = [] then 0 else case atoi procs of Some p \<Rightarrow> p | None \<Rightarrow> 2 ^ 63 - 1),
                BIterations = iters, BNsPerOp = 0, BBytesPerOp = 0, BAllocsPerOp = 0, BMetrics = []\<rparr>, False);
            (if sawNs then Some out else None)
          }
      | _ \<Rightarrow> None)"

subsection \<open>Classification\<close>

definition classifySub :: "ndata \<Rightarrow> ndata" where
  "classifySub d = d\<lparr>Kind := KindBenchmark, Display := Name d\<rparr>"

primrec classifySubBenchmark :: "node \<Rightarrow> node" where
  "classifySubBenchmark (Node d cs) = Node (classifySub d) (map classifySubBenchmark cs)"

text \<open>The focus and exclusion prefixes.\<close>

definition strip_focus :: "string \<Rightarrow> ndata \<Rightarrow> string \<times> ndata" where
  "strip_focus raw d =
     (if hasPrefix raw PrefixFocused then (trimPrefix raw PrefixFocused, d\<lparr>Focused := True\<rparr>)
      else if hasPrefix raw PrefixExcluded then (trimPrefix raw PrefixExcluded, d\<lparr>Excluded := True\<rparr>)
      else (raw, d))"

definition classify_top :: "stdlib \<Rightarrow> ndata \<Rightarrow> ndata" where
  "classify_top L d =
     (let name = Name d; (raw, d) = strip_focus (trimPrefix name ''Test'') d
      in if hasPrefix raw ''_'' \<and> hasSuffix raw SuffixFixture
         then d\<lparr>Kind := KindFixture, Display := trimSuffix (trimPrefix raw ''_'') SuffixFixture\<rparr>
         else if hasSuffix raw SuffixTestSuite
         then d\<lparr>Kind := KindSuite, Display := trimSuffix raw SuffixTestSuite\<rparr>
         else if \<not> hasPrefix name ''Test'' \<and> isBenchmarkName L raw
         then d\<lparr>Kind := KindBenchmark, Display := trimPrefix raw PrefixBenchmark\<rparr>
         else d\<lparr>Kind := KindTest, Display := trimPrefix raw ''_''\<rparr>)"

definition classify_inner :: "stdlib \<Rightarrow> ndata \<Rightarrow> ndata" where
  "classify_inner L d =
     (let (name, d) = strip_focus (Name d) d
      in if isBenchmarkName L name
         then d\<lparr>Kind := KindBenchmark, Display := trimPrefix name PrefixBenchmark\<rparr>
         else if hasPrefix name ''Test'' then d\<lparr>Kind := KindMethod, Display := trimPrefix name ''Test''\<rparr>
         else if hasSuffix name SuffixFixture \<and> \<not> hasSuffix name SuffixTestSuite
         then d\<lparr>Kind := KindFixture, Display := trimSuffix name SuffixFixture\<rparr>
         else if hasSuffix name SuffixTestSuite
         then d\<lparr>Kind := KindSuite, Display := trimSuffix name SuffixTestSuite\<rparr>
         else (let label = (if SourceLabel d = [] then replace_byte (CHR ''_'') (CHR '' '') name else SourceLabel d)
               in d\<lparr>Kind := KindBlock, Display := Apply (NVocab d) label\<rparr>))"

definition classify_data :: "stdlib \<Rightarrow> bool \<Rightarrow> ndata \<Rightarrow> ndata" where
  "classify_data L topLevel d =
     (let d = (if topLevel then classify_top L d else classify_inner L d)
      in if Display d = [] then d\<lparr>Display := Name d\<rparr> else d)"

primrec classify :: "stdlib \<Rightarrow> bool \<Rightarrow> node \<Rightarrow> node" where
  "classify L topLevel (Node d cs) =
     (if Kind d = KindFuzz then Node d cs
      else let d' = classify_data L topLevel d
           in Node d' (if Kind d' = KindBenchmark then map classifySubBenchmark cs
                       else map (classify L False) cs))"

subsection \<open>Fuzz wrappers\<close>

definition seed_child :: "node \<Rightarrow> node" where
  "seed_child c =
     (let d = dat c;
          display = (case cutPrefix (Name d) ''seed#'' of
              Some rest \<Rightarrow> (case atoi rest of
                  Some i \<Rightarrow> ''seed #'' @ itoa (sint (word_of_int (i + 1) :: 64 word))
                | None \<Rightarrow> Name d)
            | None \<Rightarrow> Name d)
      in Node (d\<lparr>Kind := KindBlock, Display := display\<rparr>) (kids c))"

text \<open>The node of a target, as its suite's child.\<close>

definition fuzz_node :: "string \<Rightarrow> node \<Rightarrow> node" where
  "fuzz_node method n =
     Node ((dat n)\<lparr>Kind := KindFuzz, Name := method, Display := trimPrefix method PrefixFuzz\<rparr>)
       (map seed_child (kids n))"

definition synthesized :: "node \<Rightarrow> bool" where
  "synthesized n \<longleftrightarrow> Start (dat n) = None \<and> Duration (dat n) = 0 \<and> Output (dat n) = []"

definition is_suite_node :: "node \<Rightarrow> bool" where
  "is_suite_node n \<longleftrightarrow> hasSuffix (Name (dat n)) SuffixTestSuite \<and> hasPrefix (Name (dat n)) ''Test'' \<and>
     \<not> duplicate (dat n)"

text \<open>
  \<open>suites\<close> of the code maps a name to the node: here to the place of a node that stays.  The
  first loop finds the last suite of each name; the second moves every wrapper under its suite,
  one it synthesizes if there is none.  \<open>kept\<close> holds the nodes that stay with a tag: the index
  of the original node, or \<open>None\<close> for a synthesized suite.
\<close>

definition suite_index :: "node list \<Rightarrow> string \<Rightarrow> nat option" where
  "suite_index ns name =
     (case filter (\<lambda>i. is_suite_node (ns ! i) \<and> Name (dat (ns ! i)) = name) [0..<length ns] of
        [] \<Rightarrow> None | ks \<Rightarrow> Some (last ks))"

definition wrapper_of :: "node \<Rightarrow> (string \<times> string) option" where
  "wrapper_of n = (if duplicate (dat n) then None else SplitFuzzWrapper (Name (dat n)))"

definition add_kid :: "node \<Rightarrow> node \<Rightarrow> node" where
  "add_kid c n = Node (dat n) (kids n @ [c])"

definition set_status :: "Status \<Rightarrow> node \<Rightarrow> node" where
  "set_status s n = Node ((dat n)\<lparr>NStatus := s\<rparr>) (kids n)"

text \<open>A target's verdict reaches a suite only when the suite has no events of its own.\<close>

definition adopt :: "node \<Rightarrow> string \<Rightarrow> node \<Rightarrow> node" where
  "adopt n method suite =
     (let suite = (if synthesized suite \<and> NStatus (dat n) = StatusFail then set_status StatusFail suite else suite)
      in add_kid (fuzz_node method n) suite)"

type_synonym attach = "node list \<times> (string \<Rightarrow> nat option) \<times> nat list \<times> nat list"

definition attach_step :: "attach \<Rightarrow> nat \<Rightarrow> attach" where
  "attach_step st i =
     (case st of (arr, suites, kept, synth) \<Rightarrow>
       let n = arr ! i in
       case wrapper_of n of
         None \<Rightarrow> (arr, suites, kept @ [i], synth)
       | Some (suiteType, method) \<Rightarrow>
           let suiteName = ''Test'' @ suiteType in
           (case suites suiteName of
              Some k \<Rightarrow> (arr[k := adopt n method (arr ! k)], suites, kept, synth)
            | None \<Rightarrow>
                let k = length arr;
                    suite = Node (zero_node\<lparr>Name := suiteName, NStatus := StatusPass,
                      Start := Start (dat n), End := End (dat n)\<rparr>) []
                in (arr @ [adopt n method suite], suites(suiteName \<mapsto> k), kept @ [k], synth @ [k])))"

text \<open>A synthesized suite fails when one of its targets did.\<close>

definition settle :: "node \<Rightarrow> node" where
  "settle n = (if \<exists>c \<in> set (kids n). NStatus (dat c) = StatusFail then set_status StatusFail n else n)"

definition attach_nodes :: "node list \<Rightarrow> node list" where
  "attach_nodes ns =
     (case foldl attach_step (ns, suite_index ns, [], []) [0..<length ns] of
        (arr, suites, kept, synth) \<Rightarrow>
          map (\<lambda>k. if k \<in> set synth then settle (arr ! k) else arr ! k) kept)"

definition attachFuzzWrappers :: "Package \<Rightarrow> Package" where
  "attachFuzzWrappers pkg = pkg\<lparr>Nodes := attach_nodes (Nodes pkg)\<rparr>"

definition ClassifyRoots :: "stdlib \<Rightarrow> node list \<Rightarrow> node list" where
  "ClassifyRoots L ns = map (classify L True) ns"

subsection \<open>Failures and counts\<close>

fun anyDescendantFailed :: "node \<Rightarrow> bool" where
  "anyDescendantFailed (Node d cs) \<longleftrightarrow>
     (\<exists>c \<in> set cs. NStatus (dat c) = StatusFail \<or> anyDescendantFailed c)"

definition failedOnItsOwn :: "node \<Rightarrow> bool" where
  "failedOnItsOwn n \<longleftrightarrow> kids n \<noteq> [] \<and> NStatus (dat n) = StatusFail \<and> \<not> anyDescendantFailed n"

definition PkgFailedOnItsOwn :: "Package \<Rightarrow> bool" where
  "PkgFailedOnItsOwn pkg \<longleftrightarrow> PStatus pkg = StatusFail \<and>
     \<not> list_ex (\<lambda>n. NStatus (dat n) = StatusFail \<or> anyDescendantFailed n) (Nodes pkg)"

text \<open>The verdict of a leaf or of a fuzz target.\<close>

definition count_verdict :: "Status \<Rightarrow> Stats \<Rightarrow> Stats" where
  "count_verdict v s = (case v of
     StatusPass \<Rightarrow> s\<lparr>Passed := Passed s + 1\<rparr>
   | StatusFail \<Rightarrow> s\<lparr>Failed := Failed s + 1\<rparr>
   | StatusSkip \<Rightarrow> s\<lparr>Skipped := Skipped s + 1\<rparr>
   | StatusNone \<Rightarrow> s)"

definition count_one :: "bool \<Rightarrow> Stats \<Rightarrow> Stats" where
  "count_one inStdlib s =
     (if inStdlib then s\<lparr>Tests := Tests s + 1\<rparr> else s\<lparr>Behaviors := Behaviors s + 1\<rparr>)"

fun collectStats :: "bool \<Rightarrow> node \<Rightarrow> Stats \<Rightarrow> Stats" where
  "collectStats inStdlib (Node d cs) s =
     (if Kind d = KindBenchmark \<and> cs = [] then s\<lparr>Benchmarks := Benchmarks s + 1\<rparr>
      else if Kind d = KindFuzz then count_verdict (NStatus d) (s\<lparr>Fuzzers := Fuzzers s + 1\<rparr>)
      else
        let s = (if Kind d = KindSuite then s\<lparr>Suites := Suites s + 1\<rparr> else s);
            s = (if failedOnItsOwn (Node d cs)
                 then (let s = count_one inStdlib s in s\<lparr>Failed := Failed s + 1\<rparr>) else s);
            s = (if cs = [] then count_verdict (NStatus d) (count_one inStdlib s) else s)
        in fold (\<lambda>c s. collectStats inStdlib c s) cs s)"

definition package_stats :: "Package \<Rightarrow> Stats \<Rightarrow> Stats" where
  "package_stats pkg s =
     (let s = (if PkgFailedOnItsOwn pkg then s\<lparr>FailedPackages := FailedPackages s + 1\<rparr> else s)
      in fold (\<lambda>n s. collectStats (Kind (dat n) = KindTest) n s) (Nodes pkg) s)"

definition CollectStats :: "Package list \<Rightarrow> Stats" where
  "CollectStats packages = fold package_stats packages zero_stats"

definition HasFailures :: "Package list \<Rightarrow> bool" where
  "HasFailures packages \<longleftrightarrow>
     (if Failed (CollectStats packages) > 0 then True
      else list_ex (\<lambda>pkg. PStatus pkg = StatusFail) packages)"

text \<open>\<open>filterOutput\<close> of \<^verbatim>\<open>terminal.go\<close>: the lines that are not framing, with the indentation
  they share taken off.\<close>

definition blank_tab :: "char set" where "blank_tab = {CHR '' '', CHR 0x09}"

definition filterOutput :: "string list \<Rightarrow> string list" where
  "filterOutput output =
     (let lines = concat (map (\<lambda>line.
            let stripped = trim_right {CHR '' '', CHR 0x09, CHR 0x0A, CHR 0x0D} line;
                trimmed = trim_space stripped
            in if trimmed = [] \<or> hasPrefix trimmed ''=== '' \<or> hasPrefix trimmed ''--- '' then []
               else [stripped]) output);
          indent = (\<lambda>l. length l - length (trim_left blank_tab l))
      in case lines of
           [] \<Rightarrow> []
         | l # ls \<Rightarrow>
             let minIndent = foldl (\<lambda>m l. if indent l < m then indent l else m) (indent l) ls
             in if minIndent = 0 then lines else map (drop minIndent) lines)"

definition hasOwnDiagnostic :: "node \<Rightarrow> bool" where
  "hasOwnDiagnostic n \<longleftrightarrow> kids n \<noteq> [] \<and> NStatus (dat n) = StatusFail \<and> filterOutput (Output (dat n)) \<noteq> []"

text \<open>\<open>Failures\<close> of \<^verbatim>\<open>failures.go\<close>.\<close>

record Failure =
  FPackage :: string
  FPath :: "string list"
  FLines :: "string list"
  FOrigin :: bool

definition reported :: "node \<Rightarrow> bool" where
  "reported n \<longleftrightarrow> NStatus (dat n) = StatusFail \<and> (kids n = [] \<or> hasOwnDiagnostic n \<or> failedOnItsOwn n)"

fun collectFailedPaths :: "string \<Rightarrow> string list \<Rightarrow> node \<Rightarrow> Failure list" where
  "collectFailedPaths pkgPath path (Node d cs) =
     (let cur = path @ [Name d]; n = Node d cs
      in (if reported n
          then [\<lparr>FPackage = pkgPath, FPath = cur, FLines = filterOutput (Output d), FOrigin = \<not> anyDescendantFailed n\<rparr>]
          else []) @ concat (map (collectFailedPaths pkgPath cur) cs))"

definition package_failures :: "Package \<Rightarrow> Failure list" where
  "package_failures pkg =
     (let out = concat (map (collectFailedPaths (Path pkg) []) (Nodes pkg));
          lines = filterOutput (POutput pkg)
      in if out = [] \<and> PStatus pkg = StatusFail \<and> lines \<noteq> []
         then [\<lparr>FPackage = Path pkg, FPath = [], FLines = lines, FOrigin = True\<rparr>] else out)"

definition Failures :: "Package list \<Rightarrow> Failure list" where
  "Failures packages = concat (map package_failures packages)"

subsection \<open>Durations\<close>

definition bracket :: "ndata \<Rightarrow> duration option" where
  "bracket d = (case (Start d, End d) of
     (Some s, Some e) \<Rightarrow> if e < s then None else Some (e - s)
   | _ \<Rightarrow> None)"

definition interval :: "ndata \<Rightarrow> (int \<times> int) option" where
  "interval d = (if Paused d then None else case (Start d, End d) of
     (Some s, Some e) \<Rightarrow> if e < s then None else Some (s, e)
   | _ \<Rightarrow> None)"

text \<open>The windows, in order of their start, merged into what is covered.\<close>

fun merge_windows :: "duration \<Rightarrow> int \<times> int \<Rightarrow> (int \<times> int) list \<Rightarrow> duration" where
  "merge_windows tot (cs, ce) [] = tot + (ce - cs)"
| "merge_windows tot (cs, ce) ((s, e) # ws) =
     (if s > ce then merge_windows (tot + (ce - cs)) (s, e) ws
      else merge_windows tot (cs, if e > ce then e else ce) ws)"

definition unionOf :: "node list \<Rightarrow> duration option" where
  "unionOf nodes =
     (case sort_key fst (List.map_filter (\<lambda>n. interval (dat n)) nodes) of
        [] \<Rightarrow> None
      | w # ws \<Rightarrow> Some (merge_windows 0 w ws))"

text \<open>\<open>childFloor\<close>, given the children's own effective durations.\<close>

definition childFloor :: "duration list \<Rightarrow> node list \<Rightarrow> duration" where
  "childFloor es cs =
     (let floor = foldl max 0 es
      in case unionOf cs of Some d \<Rightarrow> max floor d | None \<Rightarrow> floor)"

primrec EffectiveDuration :: "node \<Rightarrow> duration" where
  "EffectiveDuration (Node d cs) =
     (let es = map EffectiveDuration cs
      in if Paused d then max (Duration d) (childFloor es cs)
         else case bracket d of
           Some b \<Rightarrow> max b (childFloor es cs)
         | None \<Rightarrow> if cs = [] then Duration d else max (Duration d) (sum_list es))"

definition PackageDuration :: "Package \<Rightarrow> duration" where
  "PackageDuration pkg = (case unionOf (Nodes pkg) of Some d \<Rightarrow> d | None \<Rightarrow> PDuration pkg)"

definition TotalDuration :: "Package list \<Rightarrow> duration" where
  "TotalDuration packages =
     (case unionOf (concat (map Nodes packages)) of
        Some d \<Rightarrow> d
      | None \<Rightarrow> sum_list (map PDuration packages))"

end
