(* ===== verification/SpecTreeProps.thy ===== *)
theory SpecTreeProps
  imports SpecTree
begin

text \<open>
  Properties of the finished tree of \<^verbatim>\<open>internal/gotestspec\<close>: durations as unions of windows,
  the counts of a run, which failures are listed, and the fuzz targets re-homed under their suites.
\<close>

subsection \<open>Windows\<close>

definition moments :: "(int \<times> int) list \<Rightarrow> int set" where
  "moments ws = (\<Union>(s, e) \<in> set ws. {s..<e})"

lemma moments_simps [simp]: "moments [] = {}" "moments (w # ws) = {fst w..<snd w} \<union> moments ws"
  by (auto simp: moments_def)

lemma finite_moments [simp]: "finite (moments ws)"
  by (auto simp: moments_def)

lemma merge_windows_card:
  assumes "sorted (map fst ((cs, ce) # ws))" "\<forall>(s, e) \<in> set ((cs, ce) # ws). s \<le> e"
  shows "merge_windows t (cs, ce) ws = t + int (card (moments ((cs, ce) # ws)))"
  using assms
proof (induction t "(cs, ce)" ws arbitrary: cs ce rule: merge_windows.induct)
  case (1 t cs ce)
  then show ?case by simp
next
  case (2 t cs ce s e ws)
  show ?case
  proof (cases "s > ce")
    case True
    have "moments ((s, e) # ws) \<inter> {cs..<ce} = {}"
      using True "2.prems"(1) by (fastforce simp: moments_def)
    then have "card (moments ((cs, ce) # (s, e) # ws)) = card {cs..<ce} + card (moments ((s, e) # ws))"
      by (subst moments_simps(2)) (simp add: card_Un_disjoint Int_commute)
    moreover have "merge_windows (t + (ce - cs)) (s, e) ws = t + (ce - cs) + int (card (moments ((s, e) # ws)))"
      using "2.hyps"(1)[OF True] "2.prems" by simp
    ultimately show ?thesis using True "2.prems"(2) by simp
  next
    case False
    let ?e = "if e > ce then e else ce"
    have "{cs..<ce} \<union> {s..<e} = {cs..<?e}" using False "2.prems" by auto
    then have "moments ((cs, ce) # (s, e) # ws) = moments ((cs, ?e) # ws)"
      by (simp add: Un_assoc[symmetric])
    moreover have "merge_windows t (cs, ?e) ws = t + int (card (moments ((cs, ?e) # ws)))"
      using "2.hyps"(2)[OF False] "2.prems" False by auto
    ultimately show ?thesis using False by simp
  qed
qed

lemma interval_le: "interval d = Some (s, e) \<Longrightarrow> s \<le> e"
  by (auto simp: interval_def split: if_splits option.splits)

lemma moments_set: "set ws = set ws' \<Longrightarrow> moments ws = moments ws'"
  by (simp add: moments_def)

lemma unionOf_card:
  "unionOf nodes = (let ws = List.map_filter (\<lambda>n. interval (dat n)) nodes
     in if ws = [] then None else Some (int (card (moments ws))))"
proof -
  let ?ws = "List.map_filter (\<lambda>n. interval (dat n)) nodes"
  have le: "\<forall>(s, e) \<in> set (sort_key fst ?ws). s \<le> e"
    using interval_le by (auto simp: set_map_filter)
  have len: "length (sort_key fst ?ws) = length ?ws" by simp
  show ?thesis
  proof (cases "sort_key fst ?ws")
    case Nil
    then show ?thesis using len by (simp add: unionOf_def Let_def)
  next
    case (Cons w ws)
    obtain cs ce where w: "w = (cs, ce)" by fastforce
    have "sorted (map fst ((cs, ce) # ws))" using Cons w by (metis sorted_sort_key)
    from merge_windows_card[OF this, of 0] le Cons w
    have "unionOf nodes = Some (int (card (moments (sort_key fst ?ws))))"
      by (simp add: unionOf_def)
    moreover have "moments (sort_key fst ?ws) = moments ?ws" by (rule moments_set) simp
    ultimately show ?thesis using len Cons by (auto simp: Let_def)
  qed
qed

text \<open>
  the union of the nodes' windows counts every moment once: it is the number of moments some
  node's window holds, whatever order nodes with equal starts are in.
\<close>
theorem unionOf_counts_once:
  "unionOf nodes =
     (if \<exists>n \<in> set nodes. interval (dat n) \<noteq> None
      then Some (int (card {t. \<exists>n \<in> set nodes. \<exists>s e. interval (dat n) = Some (s, e) \<and> s \<le> t \<and> t < e}))
      else None)"
proof -
  let ?ws = "List.map_filter (\<lambda>n. interval (dat n)) nodes"
  have "moments ?ws = {t. \<exists>n \<in> set nodes. \<exists>s e. interval (dat n) = Some (s, e) \<and> s \<le> t \<and> t < e}"
    by (force simp: moments_def set_map_filter)
  moreover have "?ws \<noteq> [] \<longleftrightarrow> (\<exists>n \<in> set nodes. interval (dat n) \<noteq> None)"
    unfolding set_empty[symmetric] set_map_filter by auto
  ultimately show ?thesis unfolding unionOf_card Let_def by argo
qed

subsection \<open>Counting\<close>

text \<open>The nodes counted as a behavior, test or fuzz target that have no verdict.\<close>

fun undecided :: "node \<Rightarrow> nat" where
  "undecided (Node d cs) =
     (if Kind d = KindBenchmark \<and> cs = [] then 0
      else if Kind d = KindFuzz then (if NStatus d = StatusNone then 1 else 0)
      else if cs = [] then (if NStatus d = StatusNone then 1 else 0)
      else sum_list (map undecided cs))"

definition counted :: "Stats \<Rightarrow> nat" where "counted s = Behaviors s + Tests s + Fuzzers s"

lemma collectStats_balance:
  "counted (collectStats std n s) + Total s = counted s + Total (collectStats std n s) + undecided n"
proof (induction std n s rule: collectStats.induct)
  case (1 std d cs s)
  let ?s1 = "if Kind d = KindSuite then s\<lparr>Suites := Suites s + 1\<rparr> else s"
  let ?s2 = "if failedOnItsOwn (Node d cs) then (let s = count_one std ?s1 in s\<lparr>Failed := Failed s + 1\<rparr>) else ?s1"
  let ?s3 = "if cs = [] then count_verdict (NStatus d) (count_one std ?s2) else ?s2"
  have children: "counted (fold (\<lambda>c s. collectStats std c s) ys u) + Total u =
      counted u + Total (fold (\<lambda>c s. collectStats std c s) ys u) + sum_list (map undecided ys)"
    if "set ys \<subseteq> set cs" "\<not> (Kind d = KindBenchmark \<and> cs = [])" "Kind d \<noteq> KindFuzz" for ys u
    using that(1)
  proof (induction ys arbitrary: u)
    case (Cons y ys)
    have "counted (collectStats std y u) + Total u = counted u + Total (collectStats std y u) + undecided y"
      by (rule "1.IH"[OF that(2,3) refl refl refl]) (use Cons.prems in simp)
    then show ?case using Cons.IH[of "collectStats std y u"] Cons.prems by simp
  qed simp
  have s3: "counted ?s3 + Total s = counted s + Total ?s3 + (if cs = [] \<and> NStatus d = StatusNone then 1 else 0)"
    by (auto simp: counted_def Total_def count_one_def count_verdict_def failedOnItsOwn_def split: Status.splits)
  show ?case
  proof (cases "Kind d = KindBenchmark \<and> cs = [] \<or> Kind d = KindFuzz")
    case True
    then show ?thesis by (auto simp: counted_def Total_def count_verdict_def split: Status.splits)
  next
    case False
    then have "collectStats std (Node d cs) s = fold (\<lambda>c s. collectStats std c s) cs ?s3"
      by (auto simp: Let_def)
    then show ?thesis using children[of cs ?s3] s3 False by (cases "cs = []") auto
  qed
qed

lemma package_stats_balance:
  "counted (package_stats pkg s) + Total s =
   counted s + Total (package_stats pkg s) + sum_list (map undecided (Nodes pkg))"
proof -
  have "counted (fold (\<lambda>n s. collectStats (Kind (dat n) = KindTest) n s) ns u) + Total u =
      counted u + Total (fold (\<lambda>n s. collectStats (Kind (dat n) = KindTest) n s) ns u) + sum_list (map undecided ns)"
    for ns u
  proof (induction ns arbitrary: u)
    case (Cons n ns)
    show ?case
      using Cons.IH[of "collectStats (Kind (dat n) = KindTest) n u"]
        collectStats_balance[of "Kind (dat n) = KindTest" n u] by simp
  qed simp
  from this[of "Nodes pkg" "if PkgFailedOnItsOwn pkg then s\<lparr>FailedPackages := FailedPackages s + 1\<rparr> else s"]
  show ?thesis by (auto simp: package_stats_def Let_def counted_def Total_def split: if_splits)
qed

lemma CollectStats_balance:
  "counted (fold package_stats ps s) + Total s =
   counted s + Total (fold package_stats ps s) + (\<Sum>pkg \<leftarrow> ps. sum_list (map undecided (Nodes pkg)))"
proof (induction ps arbitrary: s)
  case (Cons p ps)
  show ?case using Cons.IH[of "package_stats p s"] package_stats_balance[of p s] by simp
qed simp

text \<open>
  The counts add up: what a run reports as behaviors, tests and fuzz targets is what it reports
  as passed, failed and skipped, plus the ones that never got a verdict.  A verdict of an interior
  node's own, with no failed descendant, is in both sums.
\<close>
theorem stats_add_up:
  "let s = CollectStats packages in
   Behaviors s + Tests s + Fuzzers s = Passed s + Failed s + Skipped s +
     (\<Sum>pkg \<leftarrow> packages. sum_list (map undecided (Nodes pkg)))"
  using CollectStats_balance[of packages zero_stats]
  by (simp add: CollectStats_def counted_def Total_def zero_stats_def Let_def)

subsection \<open>What counts as a failure\<close>

text \<open>The nodes whose verdict reaches the count of failures.\<close>

fun fail_count :: "node \<Rightarrow> nat" where
  "fail_count (Node d cs) =
     (if Kind d = KindBenchmark \<and> cs = [] then 0
      else if Kind d = KindFuzz then (if NStatus d = StatusFail then 1 else 0)
      else (if failedOnItsOwn (Node d cs) then 1 else 0) +
        (if cs = [] \<and> NStatus d = StatusFail then 1 else 0) + sum_list (map fail_count cs))"

lemma collectStats_Failed: "Failed (collectStats std n s) = Failed s + fail_count n"
proof (induction std n s rule: collectStats.induct)
  case (1 std d cs s)
  let ?s1 = "if Kind d = KindSuite then s\<lparr>Suites := Suites s + 1\<rparr> else s"
  let ?s2 = "if failedOnItsOwn (Node d cs) then (let s = count_one std ?s1 in s\<lparr>Failed := Failed s + 1\<rparr>) else ?s1"
  let ?s3 = "if cs = [] then count_verdict (NStatus d) (count_one std ?s2) else ?s2"
  have children: "Failed (fold (\<lambda>c s. collectStats std c s) ys u) = Failed u + sum_list (map fail_count ys)"
    if "set ys \<subseteq> set cs" "\<not> (Kind d = KindBenchmark \<and> cs = [])" "Kind d \<noteq> KindFuzz" for ys u
    using that(1)
  proof (induction ys arbitrary: u)
    case (Cons y ys)
    have "Failed (collectStats std y u) = Failed u + fail_count y"
      by (rule "1.IH"[OF that(2,3) refl refl refl]) (use Cons.prems in simp)
    then show ?case using Cons.IH[of "collectStats std y u"] Cons.prems by simp
  qed simp
  have s3: "Failed ?s3 = Failed s + (if failedOnItsOwn (Node d cs) then 1 else 0) +
      (if cs = [] \<and> NStatus d = StatusFail then 1 else 0)"
    by (auto simp: count_one_def count_verdict_def split: Status.splits)
  show ?case
  proof (cases "Kind d = KindBenchmark \<and> cs = [] \<or> Kind d = KindFuzz")
    case True
    then show ?thesis by (auto simp: count_verdict_def split: Status.splits)
  next
    case False
    then have "collectStats std (Node d cs) s = fold (\<lambda>c s. collectStats std c s) cs ?s3"
      by (auto simp: Let_def)
    then show ?thesis using children[of cs ?s3] s3 False by auto
  qed
qed

lemma CollectStats_Failed:
  "Failed (CollectStats packages) = (\<Sum>pkg \<leftarrow> packages. sum_list (map fail_count (Nodes pkg)))"
proof -
  have nodes: "Failed (fold (\<lambda>n s. collectStats (Kind (dat n) = KindTest) n s) ns u) =
      Failed u + sum_list (map fail_count ns)" for ns u
    by (induction ns arbitrary: u) (auto simp: collectStats_Failed)
  have "Failed (fold package_stats ps s) = Failed s + (\<Sum>pkg \<leftarrow> ps. sum_list (map fail_count (Nodes pkg)))" for ps s
    by (induction ps arbitrary: s) (auto simp: package_stats_def nodes Let_def)
  then show ?thesis by (simp add: CollectStats_def zero_stats_def)
qed

text \<open>A node without benchmarks and fuzz targets below it.\<close>

fun plain :: "node \<Rightarrow> bool" where
  "plain (Node d cs) \<longleftrightarrow> Kind d \<noteq> KindBenchmark \<and> Kind d \<noteq> KindFuzz \<and> (\<forall>c \<in> set cs. plain c)"

definition any_failed :: "node \<Rightarrow> bool" where
  "any_failed n \<longleftrightarrow> NStatus (dat n) = StatusFail \<or> anyDescendantFailed n"

lemma any_failed_kid: "anyDescendantFailed n \<longleftrightarrow> (\<exists>c \<in> set (kids n). any_failed c)"
  by (cases n) (auto simp: any_failed_def)

lemma fail_count_plain: "plain n \<Longrightarrow> 0 < fail_count n \<longleftrightarrow> any_failed n"
proof (induction n rule: plain.induct)
  case (1 d cs)
  have k: "\<forall>c \<in> set cs. 0 < fail_count c \<longleftrightarrow> any_failed c" using 1 by auto
  have s: "0 < sum_list (map fail_count cs) \<longleftrightarrow> anyDescendantFailed (Node d cs)"
    using k any_failed_kid[of "Node d cs"] by (auto simp: sum_list_pos_iff)
  have "fail_count (Node d cs) = (if failedOnItsOwn (Node d cs) then 1 else 0) +
        (if cs = [] \<and> NStatus d = StatusFail then 1 else 0) + sum_list (map fail_count cs)"
    using 1 by auto
  then show ?case using s by (auto simp: failedOnItsOwn_def any_failed_def)
qed

text \<open>
  in a tree without benchmarks and fuzz targets the exit rule is exact: \<open>HasFailures\<close> says so
  if and only if some node at any depth failed or some package's own verdict is FAIL.
\<close>
theorem HasFailures_iff:
  assumes "\<forall>pkg \<in> set packages. \<forall>n \<in> set (Nodes pkg). plain n"
  shows "HasFailures packages \<longleftrightarrow>
    (\<exists>pkg \<in> set packages. PStatus pkg = StatusFail \<or> (\<exists>n \<in> set (Nodes pkg). any_failed n))"
proof -
  have "0 < Failed (CollectStats packages) \<longleftrightarrow> (\<exists>pkg \<in> set packages. \<exists>n \<in> set (Nodes pkg). 0 < fail_count n)"
    unfolding CollectStats_Failed by (simp add: sum_list_pos_iff)
  also have "\<dots> \<longleftrightarrow> (\<exists>pkg \<in> set packages. \<exists>n \<in> set (Nodes pkg). any_failed n)"
    using assms fail_count_plain by blast
  finally show ?thesis by (auto simp: HasFailures_def list_ex_iff)
qed

lemma HasFailures_iff_witness:
  "HasFailures [\<lparr>Path = ''p'', PStatus = StatusPass, PDuration = 0,
     Nodes = [Node zero_node [Node (zero_node\<lparr>NStatus := StatusFail\<rparr>) []]], POutput = []\<rparr>]"
  by (subst HasFailures_iff) (auto simp: zero_node_def any_failed_def)

text \<open>
  A failed benchmark counts toward no verdict: without the package's own FAIL, the exit rule does
  not see it.
\<close>
lemma failed_benchmark_unseen:
  "HasFailures [\<lparr>Path = ''p'', PStatus = StatusNone, PDuration = 0,
     Nodes = [Node (zero_node\<lparr>Kind := KindBenchmark, NStatus := StatusFail\<rparr>) []], POutput = []\<rparr>] = False"
  by (simp add: HasFailures_def CollectStats_Failed)

lemma failed_origin:
  "any_failed n \<Longrightarrow> \<exists>f \<in> set (collectFailedPaths p path n). FOrigin f \<and> FPackage f = p \<and> FPath f \<noteq> []"
proof (induction p path n rule: collectFailedPaths.induct)
  case (1 p path d cs)
  show ?case
  proof (cases "anyDescendantFailed (Node d cs)")
    case True
    then obtain c where c: "c \<in> set cs" "any_failed c" using any_failed_kid[of "Node d cs"] by auto
    then obtain f where "f \<in> set (collectFailedPaths p (path @ [Name d]) c)" "FOrigin f" "FPackage f = p" "FPath f \<noteq> []"
      using "1.IH"[OF refl refl] by blast
    then show ?thesis using c(1) by (auto simp: Let_def)
  next
    case False
    then have "NStatus d = StatusFail" using "1.prems" by (simp add: any_failed_def)
    then have "reported (Node d cs)" using False by (auto simp: reported_def failedOnItsOwn_def simp del: anyDescendantFailed.simps)
    then show ?thesis using False by (auto simp: Let_def simp del: anyDescendantFailed.simps)
  qed
qed

lemma no_failed_no_paths: "\<not> any_failed n \<Longrightarrow> collectFailedPaths p path n = []"
proof (induction p path n rule: collectFailedPaths.induct)
  case (1 p path d cs)
  have "\<forall>c \<in> set cs. \<not> any_failed c" using "1.prems" any_failed_kid[of "Node d cs"] by (auto simp: any_failed_def)
  then have "\<forall>c \<in> set cs. collectFailedPaths p (path @ [Name d]) c = []" using "1.IH"[OF refl refl] by blast
  then show ?case using "1.prems" by (auto simp: Let_def reported_def any_failed_def)
qed

text \<open>
  no failure is invisible.  A package lists a failed node, one no descendant accounts for, if
  and only if some node of it failed, at any depth and of any kind.
\<close>
theorem no_failure_invisible:
  "(\<exists>n \<in> set (Nodes pkg). any_failed n) \<longleftrightarrow>
   (\<exists>f \<in> set (package_failures pkg). FOrigin f \<and> FPackage f = Path pkg \<and> FPath f \<noteq> [])"
proof
  assume "\<exists>n \<in> set (Nodes pkg). any_failed n"
  then obtain n f where n: "n \<in> set (Nodes pkg)"
      and f: "f \<in> set (collectFailedPaths (Path pkg) [] n)" "FOrigin f" "FPackage f = Path pkg" "FPath f \<noteq> []"
    using failed_origin by blast
  then have "f \<in> set (concat (map (collectFailedPaths (Path pkg) []) (Nodes pkg)))" by auto
  then have "f \<in> set (package_failures pkg)" by (auto simp: package_failures_def Let_def)
  then show "\<exists>f \<in> set (package_failures pkg). FOrigin f \<and> FPackage f = Path pkg \<and> FPath f \<noteq> []" using f by blast
next
  assume h: "\<exists>f \<in> set (package_failures pkg). FOrigin f \<and> FPackage f = Path pkg \<and> FPath f \<noteq> []"
  then obtain f where "f \<in> set (package_failures pkg)" "FPath f \<noteq> []" by blast
  then obtain n where n: "n \<in> set (Nodes pkg)" "f \<in> set (collectFailedPaths (Path pkg) [] n)"
    by (auto simp: package_failures_def Let_def split: if_splits)
  then have "any_failed n" using no_failed_no_paths by fastforce
  then show "\<exists>n \<in> set (Nodes pkg). any_failed n" using n(1) by blast
qed

subsection \<open>Durations\<close>

text \<open>No node of the tree measured less than nothing.\<close>

fun measured :: "node \<Rightarrow> bool" where
  "measured (Node d cs) \<longleftrightarrow> 0 \<le> Duration d \<and> (\<forall>c \<in> set cs. measured c)"

lemma foldl_max_ge: "(a :: int) \<le> foldl max a xs"
proof (induction xs arbitrary: a)
  case (Cons x xs)
  have "max a x \<le> foldl max (max a x) xs" by (rule Cons)
  then show ?case by simp
qed simp

lemma foldl_max_ge_elem: "(x :: int) \<in> set xs \<Longrightarrow> x \<le> foldl max a xs"
proof (induction xs arbitrary: a)
  case (Cons y ys)
  show ?case using foldl_max_ge[of "max a y" ys] Cons by auto
qed simp

lemma childFloor_ge: "x \<in> set es \<Longrightarrow> x \<le> childFloor es cs" "0 \<le> childFloor es cs"
  using foldl_max_ge[of 0 es] foldl_max_ge_elem[of x es 0]
  by (auto simp: childFloor_def Let_def split: option.splits)

lemma EffectiveDuration_nonneg: "measured n \<Longrightarrow> 0 \<le> EffectiveDuration n"
proof (induction n rule: measured.induct)
  case (1 d cs)
  then show ?case
    using childFloor_ge(2)[of "map EffectiveDuration cs" cs]
    by (auto simp: Let_def le_max_iff_disj split: option.splits)
qed

text \<open>
  A node takes at least as long as each of its children, parked or not and whether or not it
  has timestamps.
\<close>
theorem EffectiveDuration_ge_child:
  assumes "measured n" "c \<in> set (kids n)"
  shows "EffectiveDuration c \<le> EffectiveDuration n"
proof -
  obtain d cs where n: "n = Node d cs" by (cases n) auto
  have c: "EffectiveDuration c \<in> set (map EffectiveDuration cs)" using assms(2) n by simp
  have nn: "\<forall>x \<in> set (map EffectiveDuration cs). 0 \<le> x"
    using assms(1) n EffectiveDuration_nonneg by auto
  have "EffectiveDuration c \<le> sum_list (map EffectiveDuration cs)"
    by (rule member_le_sum_list[OF c]) (use nn in auto)
  then show ?thesis
    using childFloor_ge(1)[OF c, of cs] assms(2) n
    by (auto simp: Let_def le_max_iff_disj split: option.splits)
qed

subsection \<open>Fuzz wrappers find their suite\<close>

definition same_top :: "node \<Rightarrow> node \<Rightarrow> bool" where
  "same_top n n' \<longleftrightarrow> Name (dat n') = Name (dat n) \<and> duplicate (dat n') = duplicate (dat n) \<and>
     (NStatus (dat n') = NStatus (dat n) \<or> NStatus (dat n') = StatusFail) \<and>
     (\<exists>extra. kids n' = kids n @ extra)"

lemma same_top_refl: "same_top n n"
  by (simp add: same_top_def)

lemma same_top_adopt: "same_top n s \<Longrightarrow> same_top n (adopt w m s)"
  by (auto simp: same_top_def adopt_def add_kid_def set_status_def Let_def)

lemma same_top_wrapper: "same_top n n' \<Longrightarrow> wrapper_of n' = wrapper_of n"
  by (simp add: same_top_def wrapper_of_def)

lemma suite_not_wrapper: "hasPrefix (Name (dat n)) ''Test'' \<Longrightarrow> wrapper_of n = None"
  by (auto simp: wrapper_of_def SplitFuzzWrapper_def cutPrefix_def hasPrefix_ex split: Option.bind_splits)

lemma suite_index_Some:
  "suite_index ns name = Some k \<Longrightarrow> k < length ns \<and> is_suite_node (ns ! k) \<and> Name (dat (ns ! k)) = name"
proof -
  let ?f = "filter (\<lambda>i. is_suite_node (ns ! i) \<and> Name (dat (ns ! i)) = name) [0..<length ns]"
  assume "suite_index ns name = Some k"
  then have "?f \<noteq> []" "k = last ?f" by (auto simp: suite_index_def split: list.splits)
  then have "k \<in> set ?f" using last_in_set by blast
  then show ?thesis by simp
qed

text \<open>After the nodes before \<open>i\<close>: the originals are in place, each name in \<open>suites\<close> leads to its
  node, which is kept or comes later, and every wrapper so far is a child of its suite.\<close>

definition attach_inv :: "node list \<Rightarrow> nat \<Rightarrow> attach \<Rightarrow> bool" where
  "attach_inv ns i st \<longleftrightarrow> (case st of (arr, suites, kept, synth) \<Rightarrow>
     length ns \<le> length arr \<and>
     (\<forall>k < length ns. same_top (ns ! k) (arr ! k) \<and> (wrapper_of (ns ! k) \<noteq> None \<longrightarrow> arr ! k = ns ! k)) \<and>
     (\<forall>name k. suites name = Some k \<longrightarrow> k < length arr \<and> Name (dat (arr ! k)) = name \<and>
        hasPrefix name ''Test'' \<and> (k \<in> set kept \<or> i \<le> k \<and> k < length ns)) \<and>
     (\<forall>k \<in> set kept. k < length arr \<and> wrapper_of (arr ! k) = None) \<and>
     (\<forall>k < i. wrapper_of (ns ! k) = None \<longrightarrow> k \<in> set kept) \<and>
     (\<forall>k < i. \<forall>s m. wrapper_of (ns ! k) = Some (s, m) \<longrightarrow>
        (\<exists>j. suites (''Test'' @ s) = Some j \<and> fuzz_node m (ns ! k) \<in> set (kids (arr ! j)))))"

lemma kids_adopt: "kids (adopt w m s) = kids s @ [fuzz_node m w]"
  by (simp add: adopt_def add_kid_def set_status_def Let_def)

lemma Name_adopt: "Name (dat (adopt w m s)) = Name (dat s)"
  by (simp add: adopt_def add_kid_def set_status_def Let_def)

lemma duplicate_adopt: "duplicate (dat (adopt w m s)) = duplicate (dat s)"
  by (simp add: adopt_def add_kid_def set_status_def Let_def)

lemma wrapper_adopt: "wrapper_of (adopt w m s) = wrapper_of s"
  by (simp add: wrapper_of_def Name_adopt duplicate_adopt)

lemma attach_step_inv:
  assumes "attach_inv ns i st" "i < length ns"
  shows "attach_inv ns (Suc i) (attach_step st i)"
proof -
  obtain arr suites kept synth where st: "st = (arr, suites, kept, synth)" by (cases st) auto
  note I = assms(1)[unfolded attach_inv_def st prod.case]
  have arr_i: "wrapper_of (arr ! i) = wrapper_of (ns ! i)"
    using I assms(2) same_top_wrapper by blast
  show ?thesis
  proof (cases "wrapper_of (arr ! i)")
    case None
    then have e: "attach_step st i = (arr, suites, kept @ [i], synth)"
      by (simp add: attach_step_def st Let_def)
    show ?thesis
      unfolding e attach_inv_def prod.case
      using I None arr_i assms(2) by (auto simp: less_Suc_eq) (metis le_antisym not_less_eq_eq)+
  next
    case (Some w)
    obtain s m where w: "w = (s, m)" by fastforce
    let ?name = "''Test'' @ s" and ?n = "ns ! i"
    have ni: "arr ! i = ?n" using I Some arr_i assms(2) by simp
    show ?thesis
    proof (cases "suites ?name")
      case k: (Some k)
      let ?arr = "arr[k := adopt ?n m (arr ! k)]"
      have e: "attach_step st i = (?arr, suites, kept, synth)"
        using Some w k ni by (simp add: attach_step_def st Let_def)
      have kl: "k < length arr" "hasPrefix ?name ''Test''" "Name (dat (arr ! k)) = ?name"
        using I k by blast+
      have kw: "wrapper_of (arr ! k) = None" using suite_not_wrapper[of "arr ! k"] kl by metis
      have ki: "k \<noteq> i" using kw Some by auto
      have top: "\<forall>j < length ns. same_top (ns ! j) (?arr ! j) \<and> (wrapper_of (ns ! j) \<noteq> None \<longrightarrow> ?arr ! j = ns ! j)"
      proof (intro allI impI)
        fix j
        assume j: "j < length ns"
        then have J: "same_top (ns ! j) (arr ! j)" "wrapper_of (ns ! j) \<noteq> None \<longrightarrow> arr ! j = ns ! j" using I by blast+
        show "same_top (ns ! j) (?arr ! j) \<and> (wrapper_of (ns ! j) \<noteq> None \<longrightarrow> ?arr ! j = ns ! j)"
        proof (cases "j = k")
          case True
          then show ?thesis using J same_top_wrapper[OF J(1)] same_top_adopt[OF J(1)] kw kl(1) by simp
        qed (use J in simp)
      qed
      have names: "\<forall>name j. suites name = Some j \<longrightarrow> j < length ?arr \<and> Name (dat (?arr ! j)) = name \<and>
          hasPrefix name ''Test'' \<and> (j \<in> set kept \<or> Suc i \<le> j \<and> j < length ns)"
      proof (intro allI impI)
        fix name j
        assume j: "suites name = Some j"
        have "j \<noteq> i"
        proof
          assume "j = i"
          then have "hasPrefix (Name (dat (arr ! i))) ''Test''" using I j by blast
          then show False using suite_not_wrapper Some by fastforce
        qed
        moreover have "j < length arr" "Name (dat (arr ! j)) = name" "hasPrefix name ''Test''"
            "j \<in> set kept \<or> i \<le> j \<and> j < length ns"
          using I j by blast+
        note J = this calculation
        show "j < length ?arr \<and> Name (dat (?arr ! j)) = name \<and>
          hasPrefix name ''Test'' \<and> (j \<in> set kept \<or> Suc i \<le> j \<and> j < length ns)"
          using J by (cases "j = k") (auto simp: Name_adopt)
      qed
      have kept: "\<forall>j \<in> set kept. j < length ?arr \<and> wrapper_of (?arr ! j) = None"
        using I kl by (auto simp: nth_list_update wrapper_adopt)
      have stay: "\<forall>j < Suc i. wrapper_of (ns ! j) = None \<longrightarrow> j \<in> set kept"
        using I Some arr_i by (auto simp: less_Suc_eq)
      have kids: "\<forall>j < Suc i. \<forall>s m. wrapper_of (ns ! j) = Some (s, m) \<longrightarrow>
        (\<exists>l. suites (''Test'' @ s) = Some l \<and> fuzz_node m (ns ! j) \<in> set (kids (?arr ! l)))"
      proof (intro allI impI)
        fix j s' m'
        assume j: "j < Suc i" "wrapper_of (ns ! j) = Some (s', m')"
        show "\<exists>l. suites (''Test'' @ s') = Some l \<and> fuzz_node m' (ns ! j) \<in> set (kids (?arr ! l))"
        proof (cases "j = i")
          case True
          then show ?thesis using j Some w arr_i k kl by (auto simp: kids_adopt)
        next
          case False
          then have "j < i" using j(1) by simp
          then obtain l where "suites (''Test'' @ s') = Some l" "fuzz_node m' (ns ! j) \<in> set (kids (arr ! l))"
            using I j(2) by blast
          then show ?thesis using kl(1) by (cases "l = k") (auto simp: kids_adopt)
        qed
      qed
      show ?thesis
        unfolding e attach_inv_def prod.case using I top names kept stay kids by auto
    next
      case k: None
      let ?k = "length arr"
      let ?suite = "Node (zero_node\<lparr>Name := ?name, NStatus := StatusPass, Start := Start (dat ?n), End := End (dat ?n)\<rparr>) []"
      let ?arr = "arr @ [adopt ?n m ?suite]" and ?suites = "suites(?name \<mapsto> ?k)"
      have e: "attach_step st i = (?arr, ?suites, kept @ [?k], synth @ [?k])"
        using Some w k ni by (simp add: attach_step_def st Let_def)
      have new: "?arr ! ?k = adopt ?n m ?suite" "hasPrefix ?name ''Test''" "Name (dat (?arr ! ?k)) = ?name"
        "wrapper_of (?arr ! ?k) = None"
        by (simp_all add: Name_adopt wrapper_adopt suite_not_wrapper hasPrefix_def)
      have old: "j < length arr \<Longrightarrow> ?arr ! j = arr ! j" for j by (simp add: nth_append)
      have names: "\<forall>name j. ?suites name = Some j \<longrightarrow> j < length ?arr \<and> Name (dat (?arr ! j)) = name \<and>
          hasPrefix name ''Test'' \<and> (j \<in> set (kept @ [?k]) \<or> Suc i \<le> j \<and> j < length ns)"
      proof (intro allI impI)
        fix name j
        assume j: "?suites name = Some j"
        show "j < length ?arr \<and> Name (dat (?arr ! j)) = name \<and>
          hasPrefix name ''Test'' \<and> (j \<in> set (kept @ [?k]) \<or> Suc i \<le> j \<and> j < length ns)"
        proof (cases "name = ?name")
          case True
          then show ?thesis using j new by auto
        next
          case False
          then have sj: "suites name = Some j" using j by simp
          have "j \<noteq> i"
          proof
            assume "j = i"
            then have "hasPrefix (Name (dat (arr ! i))) ''Test''" using I sj by blast
            then show False using suite_not_wrapper Some by fastforce
          qed
          moreover have "j < length arr" "Name (dat (arr ! j)) = name" "hasPrefix name ''Test''"
              "j \<in> set kept \<or> i \<le> j \<and> j < length ns"
            using I sj by blast+
          ultimately show ?thesis by (auto simp: nth_append)
        qed
      qed
      have kids: "\<forall>j < Suc i. \<forall>s m. wrapper_of (ns ! j) = Some (s, m) \<longrightarrow>
        (\<exists>l. ?suites (''Test'' @ s) = Some l \<and> fuzz_node m (ns ! j) \<in> set (kids (?arr ! l)))"
      proof (intro allI impI)
        fix j s' m'
        assume j: "j < Suc i" "wrapper_of (ns ! j) = Some (s', m')"
        show "\<exists>l. ?suites (''Test'' @ s') = Some l \<and> fuzz_node m' (ns ! j) \<in> set (kids (?arr ! l))"
        proof (cases "j = i")
          case True
          then show ?thesis using j Some w arr_i by (auto simp: kids_adopt)
        next
          case False
          then have "j < i" using j(1) by simp
          then obtain l where l: "suites (''Test'' @ s') = Some l" "fuzz_node m' (ns ! j) \<in> set (kids (arr ! l))"
            using I j(2) by blast
          have "l < length arr" using I l(1) by blast
          moreover have "s' \<noteq> s" using k l(1) by auto
          ultimately show ?thesis using l by (auto simp: nth_append)
        qed
      qed
      show ?thesis
        unfolding e attach_inv_def prod.case
        using I names kids new Some arr_i by (auto simp: nth_append less_Suc_eq)
    qed
  qed
qed

lemma attach_inv_start: "attach_inv ns 0 (ns, suite_index ns, [], [])"
  by (auto simp: attach_inv_def same_top_refl dest!: suite_index_Some) (auto simp: is_suite_node_def)

lemma attach_inv_end: "attach_inv ns (length ns) (foldl attach_step (ns, suite_index ns, [], []) [0..<length ns])"
proof -
  have "attach_inv ns k (foldl attach_step (ns, suite_index ns, [], []) [0..<k])" if "k \<le> length ns" for k
    using that
  proof (induction k)
    case 0
    then show ?case by (simp add: attach_inv_start)
  next
    case (Suc k)
    then show ?case using attach_step_inv[of ns k] by simp
  qed
  then show ?thesis by simp
qed

lemma settle_props: "Name (dat (settle n)) = Name (dat n)" "kids (settle n) = kids n"
  "wrapper_of (settle n) = wrapper_of n" "same_top m n \<Longrightarrow> same_top m (settle n)"
  by (auto simp: settle_def set_status_def wrapper_of_def same_top_def)

lemma attach_keeps:
  "(\<forall>n \<in> set ns. \<forall>s m. wrapper_of n = Some (s, m) \<longrightarrow>
      (\<exists>suite \<in> set (attach_nodes ns). Name (dat suite) = ''Test'' @ s \<and> fuzz_node m n \<in> set (kids suite))) \<and>
   (\<forall>n \<in> set ns. wrapper_of n = None \<longrightarrow> (\<exists>n' \<in> set (attach_nodes ns). same_top n n')) \<and>
   (\<forall>n' \<in> set (attach_nodes ns). wrapper_of n' = None)"
proof -
  obtain arr suites kept synth where
    f: "foldl attach_step (ns, suite_index ns, [], []) [0..<length ns] = (arr, suites, kept, synth)"
    by (metis prod_cases4)
  note I = attach_inv_end[of ns, unfolded f attach_inv_def prod.case]
  let ?g = "\<lambda>k. if k \<in> set synth then settle (arr ! k) else arr ! k"
  have r: "attach_nodes ns = map ?g kept" by (simp add: attach_nodes_def f)
  have w: "\<exists>suite \<in> set (attach_nodes ns). Name (dat suite) = ''Test'' @ s \<and> fuzz_node m n \<in> set (kids suite)"
    if n: "n \<in> set ns" "wrapper_of n = Some (s, m)" for n s m
  proof -
    obtain i where i: "i < length ns" "n = ns ! i" using n(1) by (auto simp: in_set_conv_nth)
    then obtain j where j: "suites (''Test'' @ s) = Some j" "fuzz_node m n \<in> set (kids (arr ! j))" using I n(2) by blast
    then have "Name (dat (arr ! j)) = ''Test'' @ s" "j \<in> set kept" using I by (metis linorder_not_less)+
    then show ?thesis unfolding r using j(2) by (intro bexI[of _ "?g j"]) (auto simp: settle_props)
  qed
  have k: "\<exists>n' \<in> set (attach_nodes ns). same_top n n'" if n: "n \<in> set ns" "wrapper_of n = None" for n
  proof -
    obtain i where i: "i < length ns" "n = ns ! i" using n(1) by (auto simp: in_set_conv_nth)
    then have "same_top n (arr ! i)" "i \<in> set kept" using I n(2) by blast+
    then show ?thesis unfolding r by (intro bexI[of _ "?g i"]) (auto simp: settle_props)
  qed
  have "wrapper_of n' = None" if "n' \<in> set (attach_nodes ns)" for n'
    using that I by (auto simp: r settle_props)
  then show ?thesis using w k by blast
qed

text \<open>
  re-homing the fuzz wrappers loses nothing.  A wrapper becomes a child, under its method's
  name and with its verdict and seeds, of a top node named after its suite; every other top node
  stays, with its name and its own children first, its verdict changed at most to FAIL; and no
  wrapper stays at the top.
\<close>
theorem attach_loses_nothing:
  "(\<forall>n \<in> set ns. \<forall>s m. wrapper_of n = Some (s, m) \<longrightarrow>
      (\<exists>suite \<in> set (attach_nodes ns). Name (dat suite) = ''Test'' @ s \<and> fuzz_node m n \<in> set (kids suite))) \<and>
   (\<forall>n \<in> set ns. wrapper_of n = None \<longrightarrow> (\<exists>n' \<in> set (attach_nodes ns). same_top n n')) \<and>
   (\<forall>n' \<in> set (attach_nodes ns). wrapper_of n' = None)"
  by (rule attach_keeps)

lemma attach_loses_nothing_witness:
  "\<exists>suite \<in> set (attach_nodes [Node (zero_node\<lparr>Name := ''FuzzCartTestSuite_FuzzAdd'', NStatus := StatusFail\<rparr>) []]).
     Name (dat suite) = ''TestCartTestSuite'' \<and>
     fuzz_node ''FuzzAdd'' (Node (zero_node\<lparr>Name := ''FuzzCartTestSuite_FuzzAdd'', NStatus := StatusFail\<rparr>) []) \<in> set (kids suite)"
proof -
  let ?n = "Node (zero_node\<lparr>Name := ''FuzzCartTestSuite_FuzzAdd'', NStatus := StatusFail\<rparr>) []"
  have "wrapper_of ?n = Some (''CartTestSuite'', ''FuzzAdd'')" by code_simp
  then show ?thesis using attach_loses_nothing[of "[?n]"] by auto
qed

end
