(* ===== verification/BuildTree.thy ===== *)
theory BuildTree
  imports SpecTreeProps
begin

text \<open>
  \<open>BuildTree\<close> of \<^verbatim>\<open>internal/gotestspec/tree.go\<close>: from the events of a test stream to the
  packages' trees.  While events arrive, nodes are \<open>cell\<close>s of a heap and a \<open>*Node\<close> is an index
  into it; a cell also holds the node's \<open>benchScan\<close>.  A step is \<open>None\<close> where the code would
  dereference a nil node.  At the end the cells below each package are read off as a tree.
\<close>

subsection \<open>Events\<close>

datatype Action = ActionRun | ActionOutput | ActionPass | ActionFail | ActionSkip | ActionPause
  | ActionCont | ActionBench | ActionBuildOutput | ActionBuildFail | ActionOther string

record TestEvent =
  ETime :: time
  EAction :: Action
  EPackage :: string
  ETest :: string
  EOutput :: string
  Elapsed :: f64
  ImportPath :: string
  FailedBuild :: string

definition statusFrom :: "Action \<Rightarrow> Status" where
  "statusFrom a = (case a of ActionPass \<Rightarrow> StatusPass | ActionFail \<Rightarrow> StatusFail | ActionSkip \<Rightarrow> StatusSkip
     | _ \<Rightarrow> StatusNone)"

type_synonym DeclarationIndex = "string \<Rightarrow> string \<Rightarrow> Declaration"

subsection \<open>Benchmark output\<close>

record benchScan =
  partial_line :: string
  found :: bool

text \<open>\<open>parse\<close> writes the result into the node; a benchmark's result is its pass.\<close>

definition scan_parse :: "stdlib \<Rightarrow> benchScan \<times> ndata \<Rightarrow> string \<Rightarrow> benchScan \<times> ndata" where
  "scan_parse L sd line = (case sd of (b, d) \<Rightarrow>
     (case ParseBenchLine L line of
        None \<Rightarrow> (b, d)
      | Some r \<Rightarrow>
          (b\<lparr>found := True\<rparr>,
           d\<lparr>Iterations := BIterations r, NsPerOp := BNsPerOp r, BytesPerOp := BBytesPerOp r,
             AllocsPerOp := BAllocsPerOp r, Metrics := BMetrics r, Procs := BProcs r,
             NStatus := (if NStatus d = StatusNone then StatusPass else NStatus d)\<rparr>)))"

function scan_loop :: "stdlib \<Rightarrow> benchScan \<times> ndata \<Rightarrow> benchScan \<times> ndata" where
  "scan_loop L (b, d) =
     (if found b then (b, d)
      else case cut (partial_line b) [CHR 0x0A] of
        None \<Rightarrow> (b, d)
      | Some (line, rest) \<Rightarrow> scan_loop L (scan_parse L (b\<lparr>partial_line := rest\<rparr>, d) line))"
  by pat_completeness auto
termination
  by (relation "measure (\<lambda>(L, b, d). length (partial_line b))")
    (auto simp: scan_parse_def dest!: cut_shorter split: option.splits)

declare scan_loop.simps [simp del]

definition scan_read :: "stdlib \<Rightarrow> benchScan \<times> ndata \<Rightarrow> string \<Rightarrow> benchScan \<times> ndata" where
  "scan_read L sd chunk = (case sd of (b, d) \<Rightarrow>
     if found b then (b, d) else scan_loop L (b\<lparr>partial_line := partial_line b @ chunk\<rparr>, d))"

definition scan_end :: "stdlib \<Rightarrow> benchScan \<times> ndata \<Rightarrow> ndata" where
  "scan_end L sd = (case sd of (b, d) \<Rightarrow> if found b then d else snd (scan_parse L (b, d) (partial_line b)))"

subsection \<open>State\<close>

record cell =
  cdat :: ndata
  ckids :: "nat list"
  cscan :: "benchScan option"

record pstate =
  sStatus :: Status
  sDuration :: duration
  sNodes :: "nat list"
  sOutput :: "string list"
  nmap :: "string \<Rightarrow> nat option"
  topRunCount :: "string \<Rightarrow> nat"
  levels :: "string \<Rightarrow> string list option"

record bstate =
  heap :: "cell list"
  pkgs :: "(string \<times> pstate) list"
  buildOutput :: "string \<Rightarrow> string list"
  failedBuild :: "string \<Rightarrow> string option"

definition new_pkg :: pstate where
  "new_pkg = \<lparr>sStatus = StatusNone, sDuration = 0, sNodes = [], sOutput = [], nmap = Map.empty,
     topRunCount = (\<lambda>_. 0), levels = Map.empty\<rparr>"

definition start_state :: bstate where
  "start_state = \<lparr>heap = [], pkgs = [], buildOutput = (\<lambda>_. []), failedBuild = Map.empty\<rparr>"

definition pkg_of :: "bstate \<Rightarrow> string \<Rightarrow> pstate" where
  "pkg_of st P = (case map_of (pkgs st) P of Some p \<Rightarrow> p | None \<Rightarrow> new_pkg)"

definition put_pkg :: "string \<Rightarrow> pstate \<Rightarrow> bstate \<Rightarrow> bstate" where
  "put_pkg P p st = st\<lparr>pkgs := AList.update P p (pkgs st)\<rparr>"

definition new_cell :: "ndata \<Rightarrow> cell" where
  "new_cell d = \<lparr>cdat = d, ckids = [], cscan = None\<rparr>"

abbreviation join_path :: "string list \<Rightarrow> string" where "join_path \<equiv> join ''/''"

definition dup_mark :: string where "dup_mark = CHR 0x00 # ''dup''"

subsection \<open>Where a test's node goes\<close>

text \<open>\<open>joinUnstartedLevels\<close>: the levels below the deepest running ancestor are one name.\<close>

primrec join_unstarted :: "nat \<Rightarrow> string list \<Rightarrow> (string \<Rightarrow> nat option) \<Rightarrow> cell list \<Rightarrow>
    (string \<Rightarrow> string list option) \<Rightarrow> string list" where
  "join_unstarted 0 segments nm h placed = segments"
| "join_unstarted (Suc i) segments nm h placed =
     (let parent = join_path (take (Suc i) segments)
      in case nm parent of
           Some k \<Rightarrow>
             if NStatus (cdat (h ! k)) = StatusNone
             then (case placed parent of Some ls \<Rightarrow> ls | None \<Rightarrow> take (Suc i) segments) @
                    [join_path (drop (Suc i) segments)]
             else join_unstarted i segments nm h placed
         | None \<Rightarrow> join_unstarted i segments nm h placed)"

definition joinUnstartedLevels :: "string list \<Rightarrow> (string \<Rightarrow> nat option) \<Rightarrow> cell list \<Rightarrow>
    (string \<Rightarrow> string list option) \<Rightarrow> string list" where
  "joinUnstartedLevels segments nm h placed = join_unstarted (length segments - 1) segments nm h placed"

definition resolveDuplicateSegments :: "string list \<Rightarrow> (string \<Rightarrow> nat option) \<Rightarrow> string list" where
  "resolveDuplicateSegments segments nm =
     (let topName = hd segments
      in if nm (topName @ dup_mark) = None then segments
         else if list_ex hasDuplicateSuffix (tl segments)
         then (topName @ dup_mark) # map stripDuplicateSuffix (tl segments)
         else segments)"

text \<open>The node for the first \<open>i + 1\<close> levels, created under the node for the first \<open>i\<close>.\<close>

definition create_level :: "DeclarationIndex \<Rightarrow> string \<Rightarrow> string list \<Rightarrow> nat \<Rightarrow>
    cell list \<times> pstate \<Rightarrow> (cell list \<times> pstate) option" where
  "create_level decls P segs i hp =
     (case hp of (h, p) \<Rightarrow>
       let path = join_path (take (i + 1) segs) in
       if nmap p path \<noteq> None then Some (h, p)
       else
         let name = segs ! i;
             cleanName = (if i = 1 \<and> SplitFuzzWrapper (segs ! 0) \<noteq> None then name else stripDuplicateSuffix name);
             clean = map (\<lambda>s. stripDuplicateSuffix (trimSuffix s dup_mark)) (take (i + 1) segs);
             decl = decls P (join_path clean);
             k = length h;
             h' = h @ [new_cell (zero_node\<lparr>Name := cleanName, NVocab := DVocab decl, SourceLabel := Label decl\<rparr>)];
             p' = p\<lparr>nmap := (nmap p)(path \<mapsto> k)\<rparr>
         in if i = 0 then Some (h', p'\<lparr>sNodes := sNodes p @ [k]\<rparr>)
            else do {
              parent \<leftarrow> nmap p' (join_path (take i segs));
              Some (h'[parent := (h' ! parent)\<lparr>ckids := ckids (h' ! parent) @ [k]\<rparr>], p')
            })"

primrec create_levels :: "DeclarationIndex \<Rightarrow> string \<Rightarrow> string list \<Rightarrow> nat \<Rightarrow>
    cell list \<times> pstate \<Rightarrow> (cell list \<times> pstate) option" where
  "create_levels decls P segs 0 hp = Some hp"
| "create_levels decls P segs (Suc n) hp = do {
     hp \<leftarrow> create_levels decls P segs n hp;
     create_level decls P segs n hp
   }"

subsection \<open>One event\<close>

text \<open>What an event does to its node.\<close>

definition node_event :: "stdlib \<Rightarrow> TestEvent \<Rightarrow> string list \<Rightarrow> cell \<Rightarrow> cell" where
  "node_event L ev segs c =
     (let d = cdat c in
      case EAction ev of
        ActionOutput \<Rightarrow>
          (let d = d\<lparr>Output := Output d @ [EOutput ev]\<rparr> in
           if list_ex (isBenchmarkName L) segs
           then (let b = (case cscan c of Some b \<Rightarrow> b | None \<Rightarrow> \<lparr>partial_line = [], found = False\<rparr>);
                     (b, d) = scan_read L (b, d) (EOutput ev)
                 in c\<lparr>cdat := d, cscan := Some b\<rparr>)
           else c\<lparr>cdat := d\<rparr>)
      | ActionRun \<Rightarrow> c\<lparr>cdat := (if Start d = None then d\<lparr>Start := ETime ev\<rparr> else d)\<rparr>
      | ActionPause \<Rightarrow> c\<lparr>cdat := d\<lparr>Paused := True\<rparr>\<rparr>
      | ActionCont \<Rightarrow> c\<lparr>cdat := d\<lparr>Paused := True\<rparr>\<rparr>
      | ActionBench \<Rightarrow> c\<lparr>cdat := (if NStatus d = StatusNone then d\<lparr>NStatus := StatusPass\<rparr> else d)\<rparr>
      | a \<Rightarrow>
          if a \<in> {ActionPass, ActionFail, ActionSkip}
          then c\<lparr>cdat := d\<lparr>NStatus := statusFrom a, Duration := float_seconds L (Elapsed ev), End := ETime ev\<rparr>\<rparr>
          else c)"

definition place :: "TestEvent \<Rightarrow> cell list \<Rightarrow> pstate \<Rightarrow> string list \<times> pstate" where
  "place ev h p =
     (case levels p (ETest ev) of
        Some s \<Rightarrow> (s, p)
      | None \<Rightarrow>
          let s = SplitTestPath (ETest ev) in
          if EAction ev = ActionRun
          then (let s = joinUnstartedLevels s (nmap p) h (levels p)
                in (s, p\<lparr>levels := (levels p)(ETest ev \<mapsto> s)\<rparr>))
          else (s, p))"

text \<open>The runs of a top-level name are counted; a second one opens a duplicate node.\<close>

definition first_level_run :: "TestEvent \<Rightarrow> string list \<Rightarrow> bool" where
  "first_level_run ev segs \<longleftrightarrow> EAction ev = ActionRun \<and> length segs = 1"

definition count_run :: "TestEvent \<Rightarrow> string list \<Rightarrow> pstate \<Rightarrow> pstate" where
  "count_run ev segs p =
     (if first_level_run ev segs
      then p\<lparr>topRunCount := (topRunCount p)(hd segs := topRunCount p (hd segs) + 1)\<rparr> else p)"

definition start_rerun :: "TestEvent \<Rightarrow> string list \<Rightarrow> pstate \<Rightarrow> bstate \<Rightarrow> bstate" where
  "start_rerun ev segs p st =
     (let k = length (heap st)
      in put_pkg (EPackage ev) (p\<lparr>nmap := (nmap p)(hd segs @ dup_mark \<mapsto> k), sNodes := sNodes p @ [k]\<rparr>)
           (st\<lparr>heap := heap st @ [new_cell (zero_node\<lparr>Name := hd segs, duplicate := True, Start := ETime ev\<rparr>)]\<rparr>))"

text \<open>A top-level event goes to the duplicate once the original has its verdict.\<close>

definition route :: "string list \<Rightarrow> cell list \<Rightarrow> pstate \<Rightarrow> nat \<Rightarrow> nat" where
  "route segs h p k =
     (if length segs = 1 \<and> NStatus (cdat (h ! k)) \<noteq> StatusNone
      then (case nmap p (hd segs @ dup_mark) of Some j \<Rightarrow> j | None \<Rightarrow> k) else k)"

definition placed_event :: "stdlib \<Rightarrow> DeclarationIndex \<Rightarrow> TestEvent \<Rightarrow> string list \<Rightarrow> pstate \<Rightarrow> bstate \<Rightarrow> bstate option" where
  "placed_event L decls ev segs p st =
     (let segs = (if length segs > 1 then resolveDuplicateSegments segs (nmap p) else segs) in do {
        (h, p) \<leftarrow> create_levels decls (EPackage ev) segs (length segs) (heap st, p);
        k \<leftarrow> nmap p (join_path segs);
        (let k = route segs h p k
         in Some (put_pkg (EPackage ev) p (st\<lparr>heap := h[k := node_event L ev segs (h ! k)]\<rparr>)))
      })"

definition test_event :: "stdlib \<Rightarrow> DeclarationIndex \<Rightarrow> TestEvent \<Rightarrow> bstate \<Rightarrow> bstate option" where
  "test_event L decls ev st =
     (let (segs, p) = place ev (heap st) (pkg_of st (EPackage ev));
          p = count_run ev segs p
      in if first_level_run ev segs \<and> topRunCount p (hd segs) > 1 then Some (start_rerun ev segs p st)
         else placed_event L decls ev segs p st)"

definition package_event :: "stdlib \<Rightarrow> TestEvent \<Rightarrow> bstate \<Rightarrow> bstate" where
  "package_event L ev st =
     (let P = EPackage ev; p = pkg_of st P in
      if EAction ev \<in> {ActionPass, ActionFail}
      then put_pkg P (p\<lparr>sStatus := statusFrom (EAction ev), sDuration := float_seconds L (Elapsed ev)\<rparr>)
             (if FailedBuild ev \<noteq> [] then st\<lparr>failedBuild := (failedBuild st)(P \<mapsto> FailedBuild ev)\<rparr> else st)
      else if EAction ev = ActionOutput \<and> \<not> IsPackageSummaryLine (EOutput ev)
      then put_pkg P (p\<lparr>sOutput := sOutput p @ [EOutput ev]\<rparr>) st
      else put_pkg P p st)"

definition build_event :: "stdlib \<Rightarrow> DeclarationIndex \<Rightarrow> TestEvent \<Rightarrow> bstate \<Rightarrow> bstate option" where
  "build_event L decls ev st =
     (if EAction ev \<in> {ActionBuildOutput, ActionBuildFail}
      then Some (if EOutput ev = [] then st
                 else st\<lparr>buildOutput := (buildOutput st)(ImportPath ev := buildOutput st (ImportPath ev) @ [EOutput ev])\<rparr>)
      else if ETest ev = [] then Some (package_event L ev st)
      else test_event L decls ev st)"

primrec build_events :: "stdlib \<Rightarrow> DeclarationIndex \<Rightarrow> TestEvent list \<Rightarrow> bstate \<Rightarrow> bstate option" where
  "build_events L decls [] st = Some st"
| "build_events L decls (ev # evs) st = do {
     st \<leftarrow> build_event L decls ev st;
     build_events L decls evs st
   }"

subsection \<open>The finished trees\<close>

text \<open>A cell's tree; every kid has a larger index than its parent, so the heap's size is fuel
  enough.\<close>

definition cell_data :: "stdlib \<Rightarrow> cell \<Rightarrow> ndata" where
  "cell_data L c = (case cscan c of None \<Rightarrow> cdat c | Some b \<Rightarrow> scan_end L (b, cdat c))"

primrec tree_of :: "nat \<Rightarrow> stdlib \<Rightarrow> cell list \<Rightarrow> nat \<Rightarrow> node" where
  "tree_of 0 L h k = Node (cell_data L (h ! k)) []"
| "tree_of (Suc fuel) L h k = Node (cell_data L (h ! k)) (map (tree_of fuel L h) (ckids (h ! k)))"

text \<open>A suite run twice: the second run is numbered and external.\<close>

fun number_nodes :: "(string \<Rightarrow> nat) \<Rightarrow> node list \<Rightarrow> node list" where
  "number_nodes seen [] = []"
| "number_nodes seen (n # ns) =
     (let c = seen (Name (dat n)) + 1;
          n' = (if duplicate (dat n) then Node ((dat n)\<lparr>Variant := c, External := True\<rparr>) (kids n) else n)
      in n' # number_nodes (seen(Name (dat n) := c)) ns)"

definition finish_pkg :: "stdlib \<Rightarrow> bstate \<Rightarrow> string \<times> pstate \<Rightarrow> Package" where
  "finish_pkg L st Pp =
     (case Pp of (P, p) \<Rightarrow>
       let nodes = map (tree_of (length (heap st)) L (heap st)) (sNodes p);
           output = (case failedBuild st P of Some b \<Rightarrow> buildOutput st b @ sOutput p | None \<Rightarrow> sOutput p);
           pkg = attachFuzzWrappers \<lparr>Path = P, PStatus = sStatus p, PDuration = sDuration p, Nodes = nodes, POutput = output\<rparr>;
           sorted = sort_key (\<lambda>n. Name (dat n)) (Nodes pkg)
       in pkg\<lparr>Nodes := number_nodes (\<lambda>_. 0) (map (classify L True) sorted)\<rparr>)"

definition BuildTree :: "stdlib \<Rightarrow> DeclarationIndex \<Rightarrow> TestEvent list \<Rightarrow> Package list option" where
  "BuildTree L decls events = do {
     st \<leftarrow> build_events L decls events start_state;
     Some (sort_key Path (filter (\<lambda>pkg. Nodes pkg \<noteq> [] \<or> PStatus pkg = StatusFail)
       (map (finish_pkg L st) (pkgs st))))
   }"

end
