(* ===== verification/BuildTreeProps.thy ===== *)
theory BuildTreeProps
  imports BuildTree
begin

text \<open>
  Properties of \<open>BuildTree\<close> of \<^verbatim>\<open>internal/gotestspec/tree.go\<close>, by an invariant of its heap:
  kids come after their parents, every node a package's map holds hangs below one of its top
  nodes, and packages share no node.  No event meets a nil node, and no failing test is lost.
\<close>

subsection \<open>The heap\<close>

inductive_set reach :: "cell list \<Rightarrow> nat set \<Rightarrow> nat set" for h R where
  root: "k \<in> R \<Longrightarrow> k \<in> reach h R"
| kid: "k \<in> reach h R \<Longrightarrow> j \<in> set (ckids (h ! k)) \<Longrightarrow> j \<in> reach h R"

text \<open>A kid was created after its parent.\<close>

definition kids_ok :: "cell list \<Rightarrow> bool" where
  "kids_ok h \<longleftrightarrow> (\<forall>k < length h. \<forall>j \<in> set (ckids (h ! k)). k < j \<and> j < length h)"

definition pkg_ok :: "cell list \<Rightarrow> pstate \<Rightarrow> bool" where
  "pkg_ok h p \<longleftrightarrow> set (sNodes p) \<subseteq> {..<length h} \<and> ran (nmap p) \<subseteq> reach h (set (sNodes p))"

lemma kids_okD: "kids_ok h \<Longrightarrow> k < length h \<Longrightarrow> j \<in> set (ckids (h ! k)) \<Longrightarrow> k < j \<and> j < length h"
  unfolding kids_ok_def by blast

lemma kids_okI: "(\<And>k j. k < length h \<Longrightarrow> j \<in> set (ckids (h ! k)) \<Longrightarrow> k < j \<and> j < length h) \<Longrightarrow> kids_ok h"
  unfolding kids_ok_def by blast

lemma reach_bound:
  assumes "kids_ok h" "R \<subseteq> {..<length h}" "k \<in> reach h R"
  shows "k < length h"
  using assms(3)
proof (induction rule: reach.induct)
  case (kid k j)
  then show ?case using kids_okD[OF assms(1)] by blast
qed (use assms(2) in blast)

lemma reach_mono: "k \<in> reach h R \<Longrightarrow> R \<subseteq> R' \<Longrightarrow> k \<in> reach h R'"
  by (induction rule: reach.induct) (auto intro: reach.intros)

lemma reach_sub:
  assumes "\<forall>k \<in> reach h R. set (ckids (h ! k)) \<subseteq> set (ckids (h' ! k))"
  shows "reach h R \<subseteq> reach h' R"
proof
  fix k
  assume "k \<in> reach h R"
  then show "k \<in> reach h' R"
  proof (induction rule: reach.induct)
    case (kid k j)
    have "j \<in> set (ckids (h' ! k))" using assms kid(1,2) by blast
    then show ?case by (rule reach.kid[OF kid.IH])
  qed (rule reach.root)
qed

lemma reach_cong:
  assumes "\<forall>k \<in> reach h R. ckids (h' ! k) = ckids (h ! k)"
  shows "reach h' R = reach h R"
proof
  show "reach h R \<subseteq> reach h' R" by (rule reach_sub) (use assms in auto)
  show "reach h' R \<subseteq> reach h R"
  proof
    fix k
    assume "k \<in> reach h' R"
    then show "k \<in> reach h R"
    proof (induction rule: reach.induct)
      case (kid k j)
      then have "j \<in> set (ckids (h ! k))" using assms by auto
      then show ?case by (rule reach.kid[OF kid.IH])
    qed (rule reach.root)
  qed
qed

text \<open>
  What the creation of nodes for one package leaves: the package's cells and new ones are all it
  reaches, and no other package's nodes and no cell's data change.
\<close>

definition grows :: "cell list \<Rightarrow> pstate \<Rightarrow> cell list \<Rightarrow> pstate \<Rightarrow> bool" where
  "grows h p h' p' \<longleftrightarrow> length h \<le> length h' \<and> kids_ok h' \<and> pkg_ok h' p' \<and>
     (\<forall>k < length h. cdat (h' ! k) = cdat (h ! k) \<and> (k \<notin> reach h (set (sNodes p)) \<longrightarrow> h' ! k = h ! k)) \<and>
     reach h (set (sNodes p)) \<subseteq> reach h' (set (sNodes p')) \<and>
     reach h' (set (sNodes p')) \<subseteq> reach h (set (sNodes p)) \<union> {length h..<length h'} \<and>
     dom (nmap p) \<subseteq> dom (nmap p')"

lemma grows_refl: "kids_ok h \<Longrightarrow> pkg_ok h p \<Longrightarrow> grows h p h p"
  by (simp add: grows_def)

lemma grows_trans:
  assumes "grows h p h1 p1" "grows h1 p1 h2 p2"
  shows "grows h p h2 p2"
proof -
  note g1 = assms(1)[unfolded grows_def] and g2 = assms(2)[unfolded grows_def]
  have "h2 ! k = h ! k" if k: "k < length h" "k \<notin> reach h (set (sNodes p))" for k
  proof -
    have "k \<notin> reach h1 (set (sNodes p1))" using g1 k by auto
    moreover have "k < length h1" using g1 k(1) by linarith
    ultimately have "h2 ! k = h1 ! k" using g2 by blast
    then show ?thesis using g1 k by simp
  qed
  moreover have "reach h2 (set (sNodes p2)) \<subseteq> reach h (set (sNodes p)) \<union> {length h..<length h2}"
  proof -
    have "reach h2 (set (sNodes p2)) \<subseteq> reach h1 (set (sNodes p1)) \<union> {length h1..<length h2}"
      "reach h1 (set (sNodes p1)) \<subseteq> reach h (set (sNodes p)) \<union> {length h..<length h1}"
      "length h \<le> length h1" "length h1 \<le> length h2"
      using g1 g2 by blast+
    then show ?thesis by fastforce
  qed
  moreover have "cdat (h2 ! k) = cdat (h ! k)" if k: "k < length h" for k
  proof -
    have "k < length h1" using g1 k by linarith
    then show ?thesis using g1 g2 k by simp
  qed
  moreover have "dom (nmap p) \<subseteq> dom (nmap p2)" "reach h (set (sNodes p)) \<subseteq> reach h2 (set (sNodes p2))"
    "length h \<le> length h2" using g1 g2 by (meson order_trans)+
  ultimately show ?thesis using g2 unfolding grows_def by blast
qed

text \<open>A new top node, and a new kid of a node the package has.\<close>

lemma grows_top:
  assumes "kids_ok h" "pkg_ok h p" "nm = (nmap p)(path \<mapsto> length h)"
  shows "grows h p (h @ [new_cell d]) (p\<lparr>nmap := nm, sNodes := sNodes p @ [length h]\<rparr>)"
proof -
  let ?h = "h @ [new_cell d]" and ?R = "set (sNodes p)"
  have bound: "k \<in> reach h ?R \<Longrightarrow> k < length h" for k
    using reach_bound[OF assms(1), of ?R k] assms(2) by (simp add: pkg_ok_def)
  have same: "reach ?h ?R = reach h ?R" by (rule reach_cong) (use bound in \<open>simp add: nth_append\<close>)
  have new: "reach ?h (insert (length h) ?R) = insert (length h) (reach h ?R)"
  proof
    show "reach ?h (insert (length h) ?R) \<subseteq> insert (length h) (reach h ?R)"
    proof
      fix k
      assume "k \<in> reach ?h (insert (length h) ?R)"
      then show "k \<in> insert (length h) (reach h ?R)"
      proof (induction rule: reach.induct)
        case (kid k j)
        then show ?case
        proof (cases "k = length h")
          case False
          then have "j \<in> set (ckids (h ! k))" "k \<in> reach h ?R" using kid bound by (auto simp: nth_append)
          then show ?thesis by (auto intro: reach.kid)
        qed (use kid in \<open>auto simp: new_cell_def\<close>)
      qed (auto intro: reach.root)
    qed
    show "insert (length h) (reach h ?R) \<subseteq> reach ?h (insert (length h) ?R)"
      using same reach_mono[of _ ?h ?R "insert (length h) ?R"] by (auto intro: reach.root)
  qed
  have "kids_ok ?h"
  proof (rule kids_okI)
    fix k j
    assume h: "k < length ?h" "j \<in> set (ckids (?h ! k))"
    show "k < j \<and> j < length ?h"
    proof (cases "k < length h")
      case True
      then show ?thesis using kids_okD[OF assms(1), of k j] h by (simp add: nth_append)
    next
      case False
      then show ?thesis using h by (simp add: nth_append new_cell_def)
    qed
  qed
  moreover have "ran nm \<subseteq> insert (length h) (ran (nmap p))" by (auto simp: assms(3) ran_def)
  ultimately show ?thesis
    using assms(2,3) new bound unfolding grows_def pkg_ok_def by (auto simp: nth_append)
qed

lemma grows_kid:
  assumes "kids_ok h" "pkg_ok h p" "j \<in> reach h (set (sNodes p))"
    "nm = (nmap p)(path \<mapsto> length h)"
    "h' = (h @ [new_cell d])[j := (h ! j)\<lparr>ckids := ckids (h ! j) @ [length h]\<rparr>]"
  shows "grows h p h' (p\<lparr>nmap := nm\<rparr>)"
proof -
  let ?R = "set (sNodes p)" and ?k = "length h"
  have R: "?R \<subseteq> {..<length h}" using assms(2) by (simp add: pkg_ok_def)
  have bound: "k \<in> reach h ?R \<Longrightarrow> k < length h" for k by (rule reach_bound[OF assms(1) R])
  have j: "j < length h" by (rule bound[OF assms(3)])
  have at: "k < length h \<Longrightarrow> h' ! k = (if k = j then (h ! j)\<lparr>ckids := ckids (h ! j) @ [?k]\<rparr> else h ! k)" for k
    by (simp add: assms(5) nth_append nth_list_update)
  have last: "h' ! ?k = new_cell d" using j by (simp add: assms(5) nth_append)
  have len: "length h' = Suc (length h)" by (simp add: assms(5))
  have sub: "reach h ?R \<subseteq> reach h' ?R" by (rule reach_sub) (use at bound in auto)
  have sup: "reach h' ?R \<subseteq> insert ?k (reach h ?R)"
  proof
    fix k
    assume "k \<in> reach h' ?R"
    then show "k \<in> insert ?k (reach h ?R)"
    proof (induction rule: reach.induct)
      case (kid k i)
      show ?case
      proof (cases "k = ?k")
        case True
        then show ?thesis using kid last by (simp add: new_cell_def)
      next
        case False
        then have k: "k \<in> reach h ?R" using kid by blast
        then have "i = ?k \<or> i \<in> set (ckids (h ! k))" using kid(2) at[OF bound[OF k]] by (auto split: if_splits)
        then show ?thesis using k by (auto intro: reach.kid)
      qed
    qed (auto intro: reach.root)
  qed
  have kj: "?k \<in> reach h' ?R"
    by (rule reach.kid[of j]) (use sub assms(3) at[OF j] in auto)
  have kok: "kids_ok h'"
  proof (rule kids_okI, unfold len)
    fix k i
    assume h: "k < Suc (length h)" "i \<in> set (ckids (h' ! k))"
    show "k < i \<and> i < Suc (length h)"
    proof (cases "k = ?k")
      case True
      then show ?thesis using h last by (simp add: new_cell_def)
    next
      case False
      then have k: "k < length h" using h(1) by simp
      then have "i = ?k \<or> i \<in> set (ckids (h ! k))" using h(2) at[OF k] by (auto split: if_splits)
      then show ?thesis using k kids_okD[OF assms(1) k, of i] by auto
    qed
  qed
  have "ran nm \<subseteq> insert ?k (ran (nmap p))" by (auto simp: assms(4) ran_def)
  then have pok: "pkg_ok h' (p\<lparr>nmap := nm\<rparr>)"
    using assms(2) sub kj R len unfolding pkg_ok_def by auto
  have data: "\<forall>k < length h. cdat (h' ! k) = cdat (h ! k) \<and> (k \<notin> reach h ?R \<longrightarrow> h' ! k = h ! k)"
    using at assms(3) by auto
  show ?thesis
    using kok pok data sub sup len assms(4) unfolding grows_def by auto
qed

text \<open>Creating the missing levels of a path never lacks a parent, and ends with the path's node.\<close>

lemma create_level_ok:
  assumes "kids_ok h" "pkg_ok h p" "0 < i \<longrightarrow> nmap p (join_path (take i segs)) \<noteq> None"
  shows "\<exists>h' p'. create_level decls P segs i (h, p) = Some (h', p') \<and> grows h p h' p' \<and>
    nmap p' (join_path (take (Suc i) segs)) \<noteq> None"
proof (cases "nmap p (join_path (take (Suc i) segs))")
  case (Some k)
  then show ?thesis using grows_refl[OF assms(1,2)] by (simp add: create_level_def)
next
  case None
  let ?path = "join_path (take (Suc i) segs)"
  define d where "d = zero_node\<lparr>Name := (if i = 1 \<and> SplitFuzzWrapper (segs ! 0) \<noteq> None then segs ! i else stripDuplicateSuffix (segs ! i)),
    NVocab := DVocab (decls P (join_path (map (\<lambda>s. stripDuplicateSuffix (trimSuffix s dup_mark)) (take (Suc i) segs)))),
    SourceLabel := Label (decls P (join_path (map (\<lambda>s. stripDuplicateSuffix (trimSuffix s dup_mark)) (take (Suc i) segs))))\<rparr>"
  let ?nm = "(nmap p)(?path \<mapsto> length h)"
  show ?thesis
  proof (cases "i = 0")
    case True
    have "create_level decls P segs i (h, p) =
        Some (h @ [new_cell d], p\<lparr>nmap := ?nm, sNodes := sNodes p @ [length h]\<rparr>)"
      using None True by (simp add: create_level_def d_def Let_def)
    then show ?thesis using grows_top[OF assms(1,2) refl, where path = ?path and d = d] by simp
  next
    case False
    then obtain j where j: "nmap p (join_path (take i segs)) = Some j" using assms(3) by auto
    then have jr: "j \<in> reach h (set (sNodes p))" using assms(2) by (auto simp: pkg_ok_def ran_def)
    have jl: "j < length h" using reach_bound[OF assms(1) _ jr] assms(2) by (simp add: pkg_ok_def)
    have path: "?path \<noteq> join_path (take i segs)" using None j by auto
    let ?h = "(h @ [new_cell d])[j := (h ! j)\<lparr>ckids := ckids (h ! j) @ [length h]\<rparr>]"
    have "create_level decls P segs i (h, p) = Some (?h, p\<lparr>nmap := ?nm\<rparr>)"
      using None False j jl path by (simp add: create_level_def d_def Let_def nth_append)
    then show ?thesis using grows_kid[OF assms(1,2) jr refl refl, where path = ?path and d = d] by simp
  qed
qed

lemma create_levels_ok:
  assumes "kids_ok h" "pkg_ok h p"
  shows "\<exists>h' p'. create_levels decls P segs n (h, p) = Some (h', p') \<and> grows h p h' p' \<and>
    (0 < n \<longrightarrow> nmap p' (join_path (take n segs)) \<noteq> None)"
proof (induction n)
  case 0
  then show ?case using grows_refl[OF assms] by simp
next
  case (Suc n)
  then obtain h1 p1 where 1: "create_levels decls P segs n (h, p) = Some (h1, p1)" "grows h p h1 p1"
      "0 < n \<longrightarrow> nmap p1 (join_path (take n segs)) \<noteq> None"
    by blast
  obtain h2 p2 where 2: "create_level decls P segs n (h1, p1) = Some (h2, p2)" "grows h1 p1 h2 p2"
      "nmap p2 (join_path (take (Suc n) segs)) \<noteq> None"
    using create_level_ok[OF _ _ 1(3), of h1 decls P] 1(2) unfolding grows_def by blast
  show ?case using 1 2 grows_trans[OF 1(2) 2(2)] by auto
qed

subsection \<open>Every event is placed\<close>

text \<open>Each package's part of the heap, apart from the others'.\<close>

definition cells_of :: "bstate \<Rightarrow> string \<Rightarrow> nat set" where
  "cells_of st P = reach (heap st) (set (sNodes (pkg_of st P)))"

definition state_ok :: "bstate \<Rightarrow> bool" where
  "state_ok st \<longleftrightarrow> kids_ok (heap st) \<and> (\<forall>P. pkg_ok (heap st) (pkg_of st P)) \<and>
     (\<forall>P Q. P \<noteq> Q \<longrightarrow> cells_of st P \<inter> cells_of st Q = {})"

lemma state_ok_start: "state_ok start_state"
proof -
  have "reach [] {} = {}" by (auto elim: reach.induct)
  then show ?thesis
    by (simp add: state_ok_def start_state_def pkg_of_def new_pkg_def kids_ok_def pkg_ok_def cells_of_def)
qed

lemma pkg_of_put: "pkg_of (put_pkg P p st) Q = (if Q = P then p else pkg_of st Q)"
  by (simp add: pkg_of_def put_pkg_def update_conv)

lemma heap_put [simp]: "heap (put_pkg P p st) = heap st"
  by (simp add: put_pkg_def)

lemma pkg_of_heap [simp]: "pkg_of (st\<lparr>heap := h\<rparr>) = pkg_of st"
  by (simp add: pkg_of_def fun_eq_iff)

text \<open>A step on the package \<open>P\<close> that only grows the heap and rewrites cells but their kids.\<close>

lemma cells_put:
  assumes "state_ok st" "grows (heap st) (pkg_of st P) h' p'"
    "length h2 = length h'" "\<forall>k < length h'. ckids (h2 ! k) = ckids (h' ! k)"
  shows "state_ok (put_pkg P p' (st\<lparr>heap := h2\<rparr>))"
    "cells_of st P \<subseteq> cells_of (put_pkg P p' (st\<lparr>heap := h2\<rparr>)) P"
    "Q \<noteq> P \<Longrightarrow> cells_of (put_pkg P p' (st\<lparr>heap := h2\<rparr>)) Q = cells_of st Q"
    "cells_of (put_pkg P p' (st\<lparr>heap := h2\<rparr>)) P = reach h' (set (sNodes p'))"
proof -
  let ?st = "put_pkg P p' (st\<lparr>heap := h2\<rparr>)" and ?h = "heap st" and ?p = "pkg_of st P"
  note ok = assms(1)[unfolded state_ok_def] and g = assms(2)[unfolded grows_def]
  have bound: "k \<in> cells_of st Q \<Longrightarrow> k < length ?h" for k Q
  proof -
    assume "k \<in> cells_of st Q"
    moreover have "kids_ok ?h" "pkg_ok ?h (pkg_of st Q)" using ok by blast+
    ultimately show ?thesis unfolding pkg_ok_def cells_of_def by (meson reach_bound)
  qed
  have bound': "k \<in> reach h' (set (sNodes p')) \<Longrightarrow> k < length h'" for k
  proof -
    assume "k \<in> reach h' (set (sNodes p'))"
    moreover have "kids_ok h'" "pkg_ok h' p'" using g by blast+
    ultimately show ?thesis unfolding pkg_ok_def by (meson reach_bound)
  qed
  have same: "reach h2 (set (sNodes p')) = reach h' (set (sNodes p'))"
    by (rule reach_cong) (use assms(4) bound' in auto)
  show P: "cells_of ?st P = reach h' (set (sNodes p'))"
    by (simp add: cells_of_def pkg_of_put same)
  show "cells_of st P \<subseteq> cells_of ?st P" using g P by (simp add: cells_of_def)
  have Q: "cells_of ?st Q = cells_of st Q" if "Q \<noteq> P" for Q
  proof -
    have "ckids (h2 ! k) = ckids (?h ! k)" if k: "k \<in> cells_of st Q" for k
    proof -
      have "k \<notin> cells_of st P" using ok \<open>Q \<noteq> P\<close> k by blast
      then have "h' ! k = ?h ! k" using g bound[OF k] by (simp add: cells_of_def)
      moreover have "k < length h'" using g bound[OF k] by linarith
      ultimately show ?thesis using assms(4) by simp
    qed
    then have "\<forall>k \<in> reach ?h (set (sNodes (pkg_of st Q))). ckids (h2 ! k) = ckids (?h ! k)"
      by (simp add: cells_of_def)
    then have "reach h2 (set (sNodes (pkg_of st Q))) = reach ?h (set (sNodes (pkg_of st Q)))"
      by (rule reach_cong)
    then show ?thesis using that unfolding cells_of_def by (simp add: pkg_of_put)
  qed
  then show "Q \<noteq> P \<Longrightarrow> cells_of ?st Q = cells_of st Q" .
  have kok: "kids_ok h2"
  proof (rule kids_okI)
    fix k j
    assume k: "k < length h2" "j \<in> set (ckids (h2 ! k))"
    have "kids_ok h'" using g by blast
    then show "k < j \<and> j < length h2" using kids_okD[of h' k j] k assms(3,4) by simp
  qed
  have pok: "pkg_ok h2 (pkg_of ?st Q)" for Q
  proof (cases "Q = P")
    case True
    then show ?thesis using g same assms(3) by (simp add: pkg_of_put pkg_ok_def)
  next
    case False
    have "pkg_ok ?h (pkg_of st Q)" using ok by blast
    moreover have "length ?h \<le> length h2" using g assms(3) by simp
    ultimately show ?thesis using Q[OF False] False
      by (auto simp: pkg_ok_def cells_of_def pkg_of_put)
  qed
  have "cells_of ?st Q \<inter> cells_of ?st R = {}" if "Q \<noteq> R" for Q R
  proof -
    have new: "cells_of ?st P \<subseteq> cells_of st P \<union> {length ?h..<length h'}" using g P by (simp add: cells_of_def)
    have apart: "cells_of ?st P \<inter> cells_of ?st S = {}" if s: "S \<noteq> P" for S
    proof -
      have "cells_of st P \<inter> cells_of st S = {}" using ok s by blast
      moreover have "cells_of st S \<inter> {length ?h..<length h'} = {}" using bound by fastforce
      ultimately show ?thesis using new Q[OF s] by blast
    qed
    show ?thesis
    proof (cases "Q = P \<or> R = P")
      case True
      then show ?thesis using apart that by (metis Int_commute)
    next
      case False
      then show ?thesis using Q ok that by simp
    qed
  qed
  then show "state_ok ?st" using kok pok unfolding state_ok_def by simp
qed

lemma scan_parse_status:
  "NStatus d \<noteq> StatusNone \<Longrightarrow> NStatus (snd (scan_parse L (b, d) l)) = NStatus d"
  by (auto simp: scan_parse_def split: option.splits)

lemma scan_loop_status: "NStatus d \<noteq> StatusNone \<Longrightarrow> NStatus (snd (scan_loop L (b, d))) = NStatus d"
proof (induction L "(b, d)" arbitrary: b d rule: scan_loop.induct)
  case (1 L b d)
  show ?case
  proof (cases "found b")
    case True
    then show ?thesis by (subst scan_loop.simps) simp
  next
    case False
    show ?thesis
    proof (cases "cut (partial_line b) [CHR 0x0A]")
      case None
      then show ?thesis using False by (subst scan_loop.simps) simp
    next
      case (Some lr)
      obtain line rest where lr: "lr = (line, rest)" by fastforce
      obtain b' d' where sp: "scan_parse L (b\<lparr>partial_line := rest\<rparr>, d) line = (b', d')" by fastforce
      have d': "NStatus d' = NStatus d" using scan_parse_status[OF "1.prems"] sp by (metis snd_conv)
      have "scan_loop L (b, d) = scan_loop L (b', d')"
        using False Some lr sp by (subst scan_loop.simps) simp
      moreover have "NStatus (snd (scan_loop L (b', d'))) = NStatus d'"
        using "1.hyps"[OF False Some lr[symmetric] sp] "1.prems" d' by simp
      ultimately show ?thesis using d' by simp
    qed
  qed
qed

lemma scan_read_status: "NStatus d \<noteq> StatusNone \<Longrightarrow> NStatus (snd (scan_read L (b, d) chunk)) = NStatus d"
  by (simp add: scan_read_def scan_loop_status)

lemma ckids_node_event [simp]: "ckids (node_event L ev segs c) = ckids c"
  by (auto simp: node_event_def Let_def split: Action.splits prod.splits)

lemma node_event_keeps_fail:
  assumes "NStatus (cdat c) = StatusFail" "EAction ev \<notin> {ActionPass, ActionSkip}"
  shows "NStatus (cdat (node_event L ev segs c)) = StatusFail"
proof (cases "EAction ev = ActionOutput")
  case True
  let ?b = "case cscan c of Some b \<Rightarrow> b | None \<Rightarrow> \<lparr>partial_line = [], found = False\<rparr>"
  let ?d = "(cdat c)\<lparr>Output := Output (cdat c) @ [EOutput ev]\<rparr>"
  have "NStatus (snd (scan_read L (?b, ?d) (EOutput ev))) = StatusFail"
    using scan_read_status[of ?d L ?b "EOutput ev"] assms(1) by simp
  then show ?thesis using True assms(1) by (auto simp: node_event_def Let_def split: prod.splits)
next
  case False
  then show ?thesis using assms by (auto simp: node_event_def Let_def statusFrom_def split: Action.splits)
qed

lemma node_event_fail: "EAction ev = ActionFail \<Longrightarrow> NStatus (cdat (node_event L ev segs c)) = StatusFail"
  by (simp add: node_event_def statusFrom_def Let_def)

text \<open>The levels a test was placed at are never none.\<close>

definition levels_ok :: "bstate \<Rightarrow> bool" where
  "levels_ok st \<longleftrightarrow> (\<forall>P. [] \<notin> ran (levels (pkg_of st P)))"

lemma join_unstarted_ne: "segments \<noteq> [] \<Longrightarrow> join_unstarted i segments nm h placed \<noteq> []"
  by (induction i) (auto simp: Let_def split: option.splits)

lemma place_props:
  assumes "place ev h p = (segs, p')" "ETest ev \<noteq> []" "[] \<notin> ran (levels p)"
  shows "segs \<noteq> [] \<and> nmap p' = nmap p \<and> sNodes p' = sNodes p \<and> [] \<notin> ran (levels p')"
proof (cases "levels p (ETest ev)")
  case None
  have ne: "joinUnstartedLevels (SplitTestPath (ETest ev)) (nmap p) h (levels p) \<noteq> []"
    unfolding joinUnstartedLevels_def by (rule join_unstarted_ne) (simp add: assms(2))
  show ?thesis
    using assms None ne by (auto simp: place_def Let_def ran_def split: if_splits)
next
  case (Some s)
  then show ?thesis using assms by (auto simp: place_def ran_def)
qed

lemma grows_cong:
  "grows h p h' p' \<Longrightarrow> sNodes p0 = sNodes p \<Longrightarrow> nmap p0 = nmap p \<Longrightarrow> grows h p0 h' p'"
  by (simp add: grows_def)

lemma pkg_ok_cong: "pkg_ok h p \<Longrightarrow> sNodes p0 = sNodes p \<Longrightarrow> nmap p0 = nmap p \<Longrightarrow> pkg_ok h p0"
  by (simp add: pkg_ok_def)

lemma create_level_levels:
  "create_level decls P segs i (h, p) = Some (h', p') \<Longrightarrow> levels p' = levels p"
  by (auto simp: create_level_def Let_def split: if_splits Option.bind_splits)

lemma create_levels_levels:
  "create_levels decls P segs n (h, p) = Some (h', p') \<Longrightarrow> levels p' = levels p"
proof (induction n arbitrary: h' p')
  case (Suc n)
  then show ?case using create_level_levels by (fastforce split: Option.bind_splits)
qed simp

text \<open>What a step keeps: every package's nodes, and every FAIL but one a later verdict of the
  same package's tests may overwrite.\<close>

definition keeps :: "TestEvent \<Rightarrow> bstate \<Rightarrow> bstate \<Rightarrow> bool" where
  "keeps ev st st' \<longleftrightarrow> (\<forall>Q. cells_of st Q \<subseteq> cells_of st' Q) \<and>
     (\<forall>Q. \<forall>k \<in> cells_of st Q. NStatus (cdat (heap st ! k)) = StatusFail \<and>
        (Q \<noteq> EPackage ev \<or> ETest ev = [] \<or> EAction ev \<notin> {ActionPass, ActionSkip}) \<longrightarrow>
        NStatus (cdat (heap st' ! k)) = StatusFail)"

lemma cells_bound: "state_ok st \<Longrightarrow> k \<in> cells_of st Q \<Longrightarrow> k < length (heap st)"
proof -
  assume a: "state_ok st" "k \<in> cells_of st Q"
  then have "kids_ok (heap st)" "pkg_ok (heap st) (pkg_of st Q)" unfolding state_ok_def by blast+
  then show ?thesis using a(2) unfolding pkg_ok_def cells_of_def by (meson reach_bound)
qed

text \<open>A step that grows the package and rewrites at most one of its cells.\<close>

lemma step_keeps:
  assumes "state_ok st" "grows (heap st) (pkg_of st (EPackage ev)) h' p'"
    "k \<in> reach h' (set (sNodes p'))" "ckids c = ckids (h' ! k)" "h2 = h'[k := c]"
    "NStatus (cdat (h' ! k)) = StatusFail \<Longrightarrow> EAction ev \<notin> {ActionPass, ActionSkip} \<Longrightarrow> NStatus (cdat c) = StatusFail"
    "ETest ev \<noteq> []"
  shows "state_ok (put_pkg (EPackage ev) p' (st\<lparr>heap := h2\<rparr>)) \<and>
    keeps ev st (put_pkg (EPackage ev) p' (st\<lparr>heap := h2\<rparr>)) \<and>
    k \<in> cells_of (put_pkg (EPackage ev) p' (st\<lparr>heap := h2\<rparr>)) (EPackage ev)"
proof -
  let ?P = "EPackage ev" and ?st = "put_pkg (EPackage ev) p' (st\<lparr>heap := h2\<rparr>)"
  note g = assms(2)[unfolded grows_def]
  have kl: "k < length h'" using reach_bound[of h' "set (sNodes p')" k] g assms(3) unfolding pkg_ok_def by blast
  have len: "length h2 = length h'" by (simp add: assms(5))
  have ks: "\<forall>i < length h'. ckids (h2 ! i) = ckids (h' ! i)"
    using assms(4) by (metis assms(5) nth_list_update_eq nth_list_update_neq)
  note c = cells_put[OF assms(1,2) len ks]
  have sub: "cells_of st Q \<subseteq> cells_of ?st Q" for Q
    using c(2) c(3)[of Q] by (cases "Q = ?P") auto
  have fail: "NStatus (cdat (h2 ! i)) = StatusFail"
    if i: "i \<in> cells_of st Q" "NStatus (cdat (heap st ! i)) = StatusFail"
      "Q \<noteq> ?P \<or> EAction ev \<notin> {ActionPass, ActionSkip}" for Q i
  proof -
    have il: "i < length (heap st)" by (rule cells_bound[OF assms(1) i(1)])
    then have d: "cdat (h' ! i) = cdat (heap st ! i)" using g by blast
    show ?thesis
    proof (cases "i = k")
      case False
      then show ?thesis using d i(2) by (simp add: assms(5))
    next
      case True
      have "Q = ?P"
      proof (rule ccontr)
        assume q: "Q \<noteq> ?P"
        have "k \<in> cells_of st ?P \<union> {length (heap st)..<length h'}" using g assms(3) by (auto simp: cells_of_def)
        then have "k \<in> cells_of st ?P" using il True by simp
        then show False using assms(1) q i(1) True unfolding state_ok_def by blast
      qed
      then have "NStatus (cdat c) = StatusFail" using assms(6) d i(2,3) True by simp
      then show ?thesis using True kl by (simp add: assms(5))
    qed
  qed
  have "keeps ev st ?st" unfolding keeps_def using sub fail assms(7) by auto
  then show ?thesis using c(1) c(4) assms(3) by simp
qed

lemma levels_ok_put:
  "levels_ok st \<Longrightarrow> [] \<notin> ran (levels p) \<Longrightarrow> levels_ok (put_pkg P p (st\<lparr>heap := h\<rparr>))"
  by (auto simp: levels_ok_def pkg_of_put)

lemma test_event_ok:
  assumes "state_ok st" "levels_ok st" "ETest ev \<noteq> []"
  shows "\<exists>st'. test_event L decls ev st = Some st' \<and> state_ok st' \<and> levels_ok st' \<and> keeps ev st st' \<and>
    (EAction ev = ActionFail \<longrightarrow>
       (\<exists>k \<in> cells_of st' (EPackage ev). NStatus (cdat (heap st' ! k)) = StatusFail))"
proof -
  let ?P = "EPackage ev" and ?h = "heap st"
  obtain segs p0 where pl: "place ev ?h (pkg_of st ?P) = (segs, p0)" by fastforce
  have p0: "segs \<noteq> []" "nmap p0 = nmap (pkg_of st ?P)" "sNodes p0 = sNodes (pkg_of st ?P)" "[] \<notin> ran (levels p0)"
    using place_props[OF pl assms(3)] assms(2) by (auto simp: levels_ok_def)
  define p where "p = count_run ev segs p0"
  have p: "nmap p = nmap (pkg_of st ?P)" "sNodes p = sNodes (pkg_of st ?P)" "[] \<notin> ran (levels p)"
    using p0 by (auto simp: p_def count_run_def)
  have ok: "kids_ok ?h" "pkg_ok ?h (pkg_of st ?P)" using assms(1) unfolding state_ok_def by blast+
  have pok: "pkg_ok ?h p" by (rule pkg_ok_cong[OF ok(2) p(2,1)])
  show ?thesis
  proof (cases "first_level_run ev segs \<and> topRunCount p (hd segs) > 1")
    case True
    let ?nm = "(nmap p)(hd segs @ dup_mark \<mapsto> length ?h)"
    let ?d = "zero_node\<lparr>Name := hd segs, duplicate := True, Start := ETime ev\<rparr>"
    let ?p = "p\<lparr>nmap := ?nm, sNodes := sNodes p @ [length ?h]\<rparr>"
    let ?h' = "?h @ [new_cell ?d]"
    have g: "grows ?h (pkg_of st ?P) ?h' ?p"
      using grows_cong[OF grows_top[OF ok(1) pok refl]] p by metis
    have e: "test_event L decls ev st = Some (put_pkg ?P ?p (st\<lparr>heap := ?h'\<rparr>))"
      using True pl by (simp add: test_event_def start_rerun_def Let_def p_def)
    have "length ?h \<in> reach ?h' (set (sNodes ?p))" by (rule reach.root) simp
    from step_keeps[OF assms(1) g this refl _ _ assms(3), of ?h']
    have "state_ok (put_pkg ?P ?p (st\<lparr>heap := ?h'\<rparr>)) \<and> keeps ev st (put_pkg ?P ?p (st\<lparr>heap := ?h'\<rparr>))"
      by (simp add: list_update_same_conv nth_append)
    moreover have "levels_ok (put_pkg ?P ?p (st\<lparr>heap := ?h'\<rparr>))" by (rule levels_ok_put[OF assms(2)]) (simp add: p)
    moreover have "EAction ev \<noteq> ActionFail" using True by (auto simp: first_level_run_def)
    ultimately show ?thesis using e by blast
  next
    case False
    define segs' where "segs' = (if length segs > 1 then resolveDuplicateSegments segs (nmap p) else segs)"
    have ne: "segs' \<noteq> []" using p0(1) by (auto simp: segs'_def resolveDuplicateSegments_def Let_def)
    obtain h' p' where c: "create_levels decls ?P segs' (length segs') (?h, p) = Some (h', p')" "grows ?h p h' p'"
        "nmap p' (join_path segs') \<noteq> None"
      using create_levels_ok[OF ok(1) pok, of decls ?P segs' "length segs'"] ne by auto
    obtain k0 where k0: "nmap p' (join_path segs') = Some k0" using c(3) by blast
    define k where "k = route segs' h' p' k0"
    have "k \<in> ran (nmap p')" using k0 by (auto simp: k_def route_def ran_def split: option.splits)
    then have kr: "k \<in> reach h' (set (sNodes p'))" using c(2) by (auto simp: grows_def pkg_ok_def)
    have g: "grows ?h (pkg_of st ?P) h' p'" using grows_cong[OF c(2)] p by metis
    let ?h2 = "h'[k := node_event L ev segs' (h' ! k)]"
    let ?st = "put_pkg ?P p' (st\<lparr>heap := ?h2\<rparr>)"
    have e: "test_event L decls ev st = Some ?st"
      using False pl c(1) k0
    proof -
      have "test_event L decls ev st = placed_event L decls ev segs p st"
        using False unfolding test_event_def pl Let_def prod.case p_def by (rule if_not_P)
      moreover have "placed_event L decls ev segs p st = Some ?st"
        unfolding placed_event_def segs'_def[symmetric] Let_def using c(1) k0 by (simp add: k_def)
      ultimately show ?thesis by simp
    qed
    have kk: "state_ok ?st \<and> keeps ev st ?st \<and> k \<in> cells_of ?st ?P"
      by (rule step_keeps[OF assms(1) g kr _ refl _ assms(3)]) (simp_all add: node_event_keeps_fail)
    moreover have "levels_ok ?st"
      by (rule levels_ok_put[OF assms(2)]) (use create_levels_levels[OF c(1)] p in simp)
    moreover have "NStatus (cdat (heap ?st ! k)) = StatusFail" if "EAction ev = ActionFail"
    proof -
      have "k < length h'" using cells_bound[of ?st k ?P] kk by simp
      then show ?thesis using node_event_fail[OF that] by simp
    qed
    ultimately show ?thesis using e by blast
  qed
qed

lemma put_same_cells:
  assumes "state_ok st" "levels_ok st" "sNodes p = sNodes (pkg_of st P)" "nmap p = nmap (pkg_of st P)"
    "levels p = levels (pkg_of st P)" "pkgs st' = pkgs st" "heap st' = heap st"
  shows "state_ok (put_pkg P p st') \<and> levels_ok (put_pkg P p st') \<and>
    (\<forall>Q. cells_of (put_pkg P p st') Q = cells_of st Q)"
proof -
  have e: "pkg_of st' = pkg_of st" by (simp add: pkg_of_def fun_eq_iff assms(6))
  have c: "cells_of (put_pkg P p st') Q = cells_of st Q" for Q
    by (simp add: cells_of_def pkg_of_put assms(3,7) e)
  have "pkg_ok (heap st') (pkg_of (put_pkg P p st') Q)" for Q
    using assms(1) pkg_ok_cong[of "heap st" "pkg_of st P" p] unfolding state_ok_def
    by (simp add: pkg_of_put e assms(3,4,7))
  moreover have "levels_ok (put_pkg P p st')"
    using assms(2) by (simp add: levels_ok_def pkg_of_put e assms(5))
  ultimately show ?thesis using assms(1) c unfolding state_ok_def by (simp add: assms(7))
qed

lemma package_event_ok:
  assumes "state_ok st" "levels_ok st" "ETest ev = []"
  shows "state_ok (package_event L ev st) \<and> levels_ok (package_event L ev st) \<and> keeps ev st (package_event L ev st)"
proof -
  obtain p st' where e: "package_event L ev st = put_pkg (EPackage ev) p st'"
      "sNodes p = sNodes (pkg_of st (EPackage ev))" "nmap p = nmap (pkg_of st (EPackage ev))"
      "levels p = levels (pkg_of st (EPackage ev))" "pkgs st' = pkgs st" "heap st' = heap st"
  proof -
    let ?p = "pkg_of st (EPackage ev)"
    consider (verdict) "EAction ev \<in> {ActionPass, ActionFail}"
      | (text_line) "EAction ev \<notin> {ActionPass, ActionFail}" "EAction ev = ActionOutput \<and> \<not> IsPackageSummaryLine (EOutput ev)"
      | (other) "EAction ev \<notin> {ActionPass, ActionFail}" "\<not> (EAction ev = ActionOutput \<and> \<not> IsPackageSummaryLine (EOutput ev))"
      by blast
    then show ?thesis
    proof cases
      case verdict
      show ?thesis
        by (rule that[of "?p\<lparr>sStatus := statusFrom (EAction ev), sDuration := float_seconds L (Elapsed ev)\<rparr>"
              "if FailedBuild ev \<noteq> [] then st\<lparr>failedBuild := (failedBuild st)(EPackage ev \<mapsto> FailedBuild ev)\<rparr> else st"])
          (use verdict in \<open>auto simp: package_event_def Let_def\<close>)
    next
      case text_line
      show ?thesis
        by (rule that[of "?p\<lparr>sOutput := sOutput ?p @ [EOutput ev]\<rparr>" st])
          (use text_line in \<open>auto simp: package_event_def Let_def\<close>)
    next
      case other
      show ?thesis
        by (rule that[of ?p st]) (use other in \<open>auto simp: package_event_def Let_def\<close>)
    qed
  qed
  from put_same_cells[OF assms(1,2) e(2-6)] show ?thesis
    by (simp add: e(1,6) keeps_def assms(3))
qed

lemma build_event_ok:
  assumes "state_ok st" "levels_ok st"
  shows "\<exists>st'. build_event L decls ev st = Some st' \<and> state_ok st' \<and> levels_ok st' \<and> keeps ev st st' \<and>
    (EAction ev = ActionFail \<and> ETest ev \<noteq> [] \<longrightarrow>
       (\<exists>k \<in> cells_of st' (EPackage ev). NStatus (cdat (heap st' ! k)) = StatusFail))"
proof (cases "EAction ev \<in> {ActionBuildOutput, ActionBuildFail}")
  case True
  let ?st = "if EOutput ev = [] then st
      else st\<lparr>buildOutput := (buildOutput st)(ImportPath ev := buildOutput st (ImportPath ev) @ [EOutput ev])\<rparr>"
  have e: "pkg_of ?st = pkg_of st" "heap ?st = heap st" by (auto simp: pkg_of_def fun_eq_iff)
  have c: "cells_of ?st = cells_of st" by (simp add: cells_of_def e fun_eq_iff del: if_split)
  have "state_ok ?st" "levels_ok ?st" "keeps ev st ?st"
    using assms by (simp_all only: state_ok_def levels_ok_def keeps_def e c) simp_all
  then show ?thesis using True by (auto simp: build_event_def)
next
  case False
  then show ?thesis
    using package_event_ok[OF assms, of ev L] test_event_ok[OF assms, of ev L decls]
    by (cases "ETest ev = []") (auto simp: build_event_def)
qed

lemma build_events_ok:
  assumes "state_ok st" "levels_ok st"
  shows "\<exists>st'. build_events L decls evs st = Some st' \<and> state_ok st' \<and> levels_ok st' \<and>
    (\<forall>P. (\<exists>k \<in> cells_of st P. NStatus (cdat (heap st ! k)) = StatusFail) \<and>
       (\<forall>e \<in> set evs. EPackage e = P \<and> ETest e \<noteq> [] \<longrightarrow> EAction e \<notin> {ActionPass, ActionSkip}) \<longrightarrow>
       (\<exists>k \<in> cells_of st' P. NStatus (cdat (heap st' ! k)) = StatusFail))"
  using assms
proof (induction evs arbitrary: st)
  case (Cons ev evs)
  obtain st1 where 1: "build_event L decls ev st = Some st1" "state_ok st1" "levels_ok st1" "keeps ev st st1"
    using build_event_ok[OF Cons.prems] by blast
  obtain st' where 2: "build_events L decls evs st1 = Some st'" "state_ok st'" "levels_ok st'"
    "\<forall>P. (\<exists>k \<in> cells_of st1 P. NStatus (cdat (heap st1 ! k)) = StatusFail) \<and>
       (\<forall>e \<in> set evs. EPackage e = P \<and> ETest e \<noteq> [] \<longrightarrow> EAction e \<notin> {ActionPass, ActionSkip}) \<longrightarrow>
       (\<exists>k \<in> cells_of st' P. NStatus (cdat (heap st' ! k)) = StatusFail)"
    using Cons.IH[OF 1(2,3)] by blast
  have "\<exists>k \<in> cells_of st' P. NStatus (cdat (heap st' ! k)) = StatusFail"
    if h: "\<exists>k \<in> cells_of st P. NStatus (cdat (heap st ! k)) = StatusFail"
      "\<forall>e \<in> set (ev # evs). EPackage e = P \<and> ETest e \<noteq> [] \<longrightarrow> EAction e \<notin> {ActionPass, ActionSkip}" for P
  proof -
    obtain k where k: "k \<in> cells_of st P" "NStatus (cdat (heap st ! k)) = StatusFail" using h(1) by blast
    then have "k \<in> cells_of st1 P" "NStatus (cdat (heap st1 ! k)) = StatusFail"
      using 1(4) h(2) unfolding keeps_def by auto
    then show ?thesis using 2(4) h(2) by auto
  qed
  then show ?case using 1 2 by auto
qed auto

subsection \<open>The trees keep the verdicts\<close>

lemma cell_data_fail: "NStatus (cdat c) = StatusFail \<Longrightarrow> NStatus (cell_data L c) = StatusFail"
  by (auto simp: cell_data_def scan_end_def scan_parse_status split: option.splits)

lemma tree_of_failed:
  assumes "kids_ok h" "k \<in> reach h {r}" "NStatus (cdat (h ! k)) = StatusFail" "r < length h" "length h \<le> r + fuel"
  shows "any_failed (tree_of fuel L h r)"
  using assms(2-5)
proof (induction fuel arbitrary: r)
  case 0
  then show ?case by simp
next
  case (Suc fuel)
  show ?case
  proof (cases "k = r")
    case True
    then show ?thesis using cell_data_fail[of "h ! r" L] Suc.prems(2) by (simp add: any_failed_def)
  next
    case False
    have "\<exists>j \<in> set (ckids (h ! r)). k \<in> reach h {j}"
      using Suc.prems(1) False
    proof (induction rule: reach.induct)
      case (kid k i)
      show ?case
      proof (cases "k = r")
        case True
        then show ?thesis using kid(2) by (auto intro: reach.root)
      next
        case False
        then show ?thesis using kid by (auto intro: reach.kid)
      qed
    qed simp
    then obtain j where j: "j \<in> set (ckids (h ! r))" "k \<in> reach h {j}" by blast
    then have "r < j" "j < length h" using kids_okD[OF assms(1) Suc.prems(3)] by blast+
    then have "any_failed (tree_of fuel L h j)" using Suc.IH[OF j(2) Suc.prems(2)] Suc.prems(4) by simp
    then show ?thesis using j(1) by (auto simp: any_failed_def)
  qed
qed

lemma reach_single: "k \<in> reach h R \<Longrightarrow> \<exists>r \<in> R. k \<in> reach h {r}"
  by (induction rule: reach.induct) (auto intro: reach.intros)

lemma any_failed_kids: "c \<in> set (kids n) \<Longrightarrow> any_failed c \<Longrightarrow> any_failed n"
  using any_failed_kid[of n] by (auto simp: any_failed_def)

lemma attach_any_failed:
  assumes "n \<in> set ns" "any_failed n"
  shows "\<exists>n' \<in> set (attach_nodes ns). any_failed n'"
proof (cases "wrapper_of n")
  case None
  then obtain n' where n': "n' \<in> set (attach_nodes ns)" "same_top n n'"
    using attach_keeps assms(1) by blast
  then obtain extra where "kids n' = kids n @ extra" by (auto simp: same_top_def)
  then have "any_failed n'"
    using assms(2) n'(2) any_failed_kid[of n] any_failed_kid[of n'] by (auto simp: any_failed_def same_top_def)
  then show ?thesis using n'(1) by blast
next
  case (Some w)
  obtain s m where w: "wrapper_of n = Some (s, m)" using Some by (cases w) auto
  then obtain suite where s: "suite \<in> set (attach_nodes ns)" "fuzz_node m n \<in> set (kids suite)"
    using attach_keeps assms(1) by blast
  have "any_failed (seed_child c) \<longleftrightarrow> any_failed c" for c
    using any_failed_kid[of c] any_failed_kid[of "seed_child c"]
    by (auto simp: any_failed_def seed_child_def Let_def)
  then have "any_failed (fuzz_node m n)"
    using assms(2) any_failed_kid[of n] by (auto simp: any_failed_def fuzz_node_def)
  then show ?thesis using s any_failed_kids by blast
qed

lemma strip_focus_status: "strip_focus raw d = (r, d') \<Longrightarrow> NStatus d' = NStatus d"
  unfolding strip_focus_def by (simp split: if_splits) auto

lemma classify_top_status: "NStatus (classify_top L d) = NStatus d"
proof -
  obtain r d' where s: "strip_focus (trimPrefix (Name d) ''Test'') d = (r, d')" by fastforce
  show ?thesis
    unfolding classify_top_def Let_def s prod.case if_distrib[of NStatus]
    using strip_focus_status[OF s] by simp
qed

lemma classify_inner_status: "NStatus (classify_inner L d) = NStatus d"
proof -
  obtain r d' where s: "strip_focus (Name d) d = (r, d')" by fastforce
  show ?thesis
    unfolding classify_inner_def Let_def s prod.case if_distrib[of NStatus]
    using strip_focus_status[OF s] by simp
qed

lemma classify_data_status [simp]: "NStatus (classify_data L t d) = NStatus d"
  unfolding classify_data_def Let_def if_distrib[of NStatus]
  by (simp add: classify_top_status classify_inner_status)

lemma classifySub_any_failed: "any_failed (classifySubBenchmark n) \<longleftrightarrow> any_failed n"
proof (induction n)
  case (Node d cs)
  then show ?case by (auto simp: any_failed_def classifySub_def)
qed

lemma classify_any_failed: "any_failed (classify L t n) \<longleftrightarrow> any_failed n"
proof (induction n arbitrary: t)
  case (Node d cs)
  show ?case
  proof (cases "Kind d = KindFuzz")
    case False
    let ?d = "classify_data L t d"
    let ?cs = "if Kind ?d = KindBenchmark then map classifySubBenchmark cs else map (classify L False) cs"
    have "(\<exists>c \<in> set ?cs. any_failed c) \<longleftrightarrow> (\<exists>c \<in> set cs. any_failed c)"
      using Node classifySub_any_failed by auto
    then show ?thesis using False any_failed_kid[of "Node ?d ?cs"] any_failed_kid[of "Node d cs"]
      by (simp add: any_failed_def Let_def)
  qed simp
qed

lemma number_nodes_any_failed:
  "(\<exists>n \<in> set (number_nodes seen ns). any_failed n) \<longleftrightarrow> (\<exists>n \<in> set ns. any_failed n)"
proof (induction ns arbitrary: seen)
  case (Cons n ns)
  let ?c = "seen (Name (dat n)) + 1"
  let ?n = "if duplicate (dat n) then Node ((dat n)\<lparr>Variant := ?c, External := True\<rparr>) (kids n) else n"
  have n: "any_failed ?n \<longleftrightarrow> any_failed n" by (cases n) (auto simp: any_failed_def)
  have e: "number_nodes seen (n # ns) = ?n # number_nodes (seen(Name (dat n) := ?c)) ns"
    by (simp only: number_nodes.simps Let_def)
  show ?case unfolding e list.set bex_simps n Cons.IH ..
qed simp

lemma finish_any_failed:
  assumes "state_ok st" "map_of (pkgs st) P = Some p"
    "k \<in> cells_of st P" "NStatus (cdat (heap st ! k)) = StatusFail"
  shows "\<exists>n \<in> set (Nodes (finish_pkg L st (P, p))). any_failed n"
proof -
  have p: "pkg_of st P = p" using assms(2) by (simp add: pkg_of_def)
  have ok: "kids_ok (heap st)" "set (sNodes p) \<subseteq> {..<length (heap st)}"
    using assms(1) p unfolding state_ok_def pkg_ok_def by blast+
  obtain r where r: "r \<in> set (sNodes p)" "k \<in> reach (heap st) {r}"
    using reach_single assms(3) p unfolding cells_of_def by blast
  let ?nodes = "map (tree_of (length (heap st)) L (heap st)) (sNodes p)"
  have "any_failed (tree_of (length (heap st)) L (heap st) r)"
    using tree_of_failed[OF ok(1) r(2) assms(4)] ok(2) r(1) by auto
  then obtain n' where n': "n' \<in> set (attach_nodes ?nodes)" "any_failed n'"
    using attach_any_failed[of "tree_of (length (heap st)) L (heap st) r" ?nodes] r(1) by auto
  then show ?thesis
    unfolding finish_pkg_def Let_def prod.case by (auto simp: number_nodes_any_failed classify_any_failed attachFuzzWrappers_def)
qed

lemma finish_Path: "Path (finish_pkg L st (P, p)) = P"
  by (simp add: finish_pkg_def Let_def attachFuzzWrappers_def)

lemma pkg_of_cells: "k \<in> cells_of st P \<Longrightarrow> \<exists>p. map_of (pkgs st) P = Some p"
proof (rule ccontr)
  assume h: "k \<in> cells_of st P" "\<nexists>p. map_of (pkgs st) P = Some p"
  then have "map_of (pkgs st) P = None" by simp
  then have "cells_of st P = reach (heap st) {}" by (simp add: cells_of_def pkg_of_def new_pkg_def)
  moreover have "x \<notin> reach (heap st) {}" for x
  proof
    assume "x \<in> reach (heap st) {}"
    then show False by (induction rule: reach.induct) auto
  qed
  ultimately show False using h(1) by blast
qed

lemma BuildTree_returns: "\<exists>ps. BuildTree L decls events = Some ps"
  using build_events_ok[OF state_ok_start, of L decls events]
  by (auto simp: BuildTree_def levels_ok_def pkg_of_def start_state_def new_pkg_def)

text \<open>
  C4: the construction of the tree never meets a nil node: \<open>BuildTree\<close> returns for every stream
  of events, whatever their order.
\<close>
theorem BuildTree_total: "\<exists>ps. BuildTree L decls events = Some ps"
  by (rule BuildTree_returns)

lemma failed_node_kept:
  assumes "events = pre @ ev # post" "EAction ev = ActionFail" "ETest ev \<noteq> []"
    "\<forall>e \<in> set post. EPackage e = EPackage ev \<and> ETest e \<noteq> [] \<longrightarrow> EAction e \<notin> {ActionPass, ActionSkip}"
    "BuildTree L decls events = Some ps"
  shows "\<exists>pkg \<in> set ps. Path pkg = EPackage ev \<and> (\<exists>n \<in> set (Nodes pkg). any_failed n)"
proof -
  let ?P = "EPackage ev"
  have app: "build_events L decls (xs @ ys) st = build_events L decls xs st \<bind> build_events L decls ys" for xs ys st
    by (induction xs arbitrary: st) (auto split: Option.bind_splits)
  have l0: "levels_ok start_state" by (simp add: levels_ok_def pkg_of_def start_state_def new_pkg_def)
  obtain st1 where 1: "build_events L decls pre start_state = Some st1" "state_ok st1" "levels_ok st1"
    using build_events_ok[OF state_ok_start l0] by blast
  obtain st2 where 2: "build_event L decls ev st1 = Some st2" "state_ok st2" "levels_ok st2"
      "\<exists>k \<in> cells_of st2 ?P. NStatus (cdat (heap st2 ! k)) = StatusFail"
    using build_event_ok[OF 1(2,3)] assms(2,3) by blast
  obtain st where 3: "build_events L decls post st2 = Some st" "state_ok st"
      "\<exists>k \<in> cells_of st ?P. NStatus (cdat (heap st ! k)) = StatusFail"
    using build_events_ok[OF 2(2,3), of L decls post] 2(4) assms(4) by blast
  have st: "build_events L decls events start_state = Some st" by (simp add: assms(1) app 1(1) 2(1) 3(1))
  obtain k where k: "k \<in> cells_of st ?P" "NStatus (cdat (heap st ! k)) = StatusFail" using 3(3) by blast
  obtain p where p: "map_of (pkgs st) ?P = Some p" using pkg_of_cells[OF k(1)] by blast
  obtain n where n: "n \<in> set (Nodes (finish_pkg L st (?P, p)))" "any_failed n"
    using finish_any_failed[OF 3(2) p k] by blast
  have "(?P, p) \<in> set (pkgs st)" using p by (rule map_of_SomeD)
  then have "finish_pkg L st (?P, p) \<in> set ps"
    using assms(5) st n(1) by (auto simp: BuildTree_def)
  then show ?thesis using n finish_Path by blast
qed

text \<open>
  C5: a failing test is never lost: if the stream has a \<open>fail\<close> of a test and no later \<open>pass\<close> or
  \<open>skip\<close> of a test of the same package, the package is in the result with a failed node, so it is
  listed in \<open>Failures\<close> whatever the names, the order of the events and the other packages.
\<close>
theorem BuildTree_keeps_failures:
  assumes "events = pre @ ev # post" "EAction ev = ActionFail" "ETest ev \<noteq> []"
    "\<forall>e \<in> set post. EPackage e = EPackage ev \<and> ETest e \<noteq> [] \<longrightarrow> EAction e \<notin> {ActionPass, ActionSkip}"
    "BuildTree L decls events = Some ps"
  shows "\<exists>pkg \<in> set ps. Path pkg = EPackage ev \<and> (\<exists>n \<in> set (Nodes pkg). any_failed n)"
  using assms by (rule failed_node_kept)


definition no_stdlib :: stdlib where
  "no_stdlib = \<lparr>parse_float = (\<lambda>_. None), float_int64 = (\<lambda>_. 0), float_seconds = (\<lambda>_. 0),
     rune_is_lower = (\<lambda>_. False)\<rparr>"

definition sample_event :: "Action \<Rightarrow> string \<Rightarrow> TestEvent" where
  "sample_event a test = \<lparr>ETime = Some 1, EAction = a, EPackage = ''p'', ETest = test, EOutput = [],
     Elapsed = 0, ImportPath = [], FailedBuild = []\<rparr>"

lemma BuildTree_keeps_failures_witness:
  "\<exists>ps. BuildTree no_stdlib (\<lambda>_ _. \<lparr>Label = [], DVocab = VocabNone\<rparr>)
      [sample_event ActionRun ''TestA'', sample_event ActionFail ''TestA'', sample_event ActionPass []] = Some ps \<and>
    (\<exists>pkg \<in> set ps. Path pkg = ''p'' \<and> (\<exists>n \<in> set (Nodes pkg). any_failed n))"
proof -
  let ?D = "\<lambda>_ _. \<lparr>Label = [], DVocab = VocabNone\<rparr>"
  let ?evs = "[sample_event ActionRun ''TestA'', sample_event ActionFail ''TestA'', sample_event ActionPass []]"
  obtain ps where ps: "BuildTree no_stdlib ?D ?evs = Some ps" using BuildTree_returns by blast
  have "\<exists>pkg \<in> set ps. Path pkg = EPackage (sample_event ActionFail ''TestA'') \<and> (\<exists>n \<in> set (Nodes pkg). any_failed n)"
    by (rule BuildTree_keeps_failures[where pre = "[sample_event ActionRun ''TestA'']"
          and post = "[sample_event ActionPass []]", OF _ _ _ _ ps])
      (simp_all add: sample_event_def)
  then show ?thesis using ps by (auto simp: sample_event_def)
qed

end
