(* ===== verification/RunArgs.thy ===== *)
theory RunArgs
  imports GoStrings "HOL-Library.Multiset"
begin

text \<open>
  \<^verbatim>\<open>internal/gotestrunner/args.go\<close>, \<^verbatim>\<open>flags.go\<close> and \<^verbatim>\<open>concurrency.go\<close>: how a run's go test arguments are
  split between the build, the test binaries and the package patterns, and how the concurrency
  budget is shared out.
\<close>

subsection \<open>The flags go test knows\<close>

definition buildOnlyFlags :: "string set" where
  "buildOnlyFlags = {''-race'', ''-msan'', ''-asan'', ''-cover'', ''-a'', ''-c'', ''-n'', ''-x'', ''-trimpath'',
     ''-work'', ''-linkshared'', ''-modcacherw'', ''-buildvcs''}"

definition buildSpecialValueFlags :: "string set" where
  "buildSpecialValueFlags = {''-o'', ''-exec''}"

definition buildValueFlags :: "string set" where
  "buildValueFlags = {''-covermode'', ''-coverpkg'', ''-vet'', ''-tags'', ''-ldflags'', ''-gcflags'',
     ''-gccgoflags'', ''-asmflags'', ''-mod'', ''-modfile'', ''-p'', ''-toolexec'', ''-pkgdir'', ''-pgo'', ''-overlay'',
     ''-buildmode'', ''-compiler'', ''-installsuffix''}"

definition runOnlyFlags :: "string set" where
  "runOnlyFlags = {''-v'', ''-failfast'', ''-short'', ''-benchmem'', ''-fullpath''}"

definition runValueFlags :: "string set" where
  "runValueFlags = {''-count'', ''-timeout'', ''-run'', ''-skip'', ''-parallel'', ''-shuffle'', ''-bench'',
     ''-benchtime'', ''-coverprofile'', ''-cpuprofile'', ''-memprofile'', ''-blockprofile'', ''-mutexprofile'',
     ''-trace'', ''-outputdir'', ''-list'', ''-fuzz'', ''-fuzztime'', ''-fuzzminimizetime'', ''-cpu'',
     ''-blockprofilerate'', ''-memprofilerate'', ''-mutexprofilerate''}"

text \<open>\<open>strings.Cut(arg, "=")\<close>: the name, and the value if there is a sign.\<close>

definition cut_eq :: "string \<Rightarrow> string \<times> string option" where
  "cut_eq arg = (case cut arg ''='' of None \<Rightarrow> (arg, None) | Some (n, v) \<Rightarrow> (n, Some v))"

subsection \<open>ClassifyGoTestArgs\<close>

record ClassifiedArgs =
  BuildFlags :: "string list"
  RunFlags :: "string list"
  PkgPatterns :: "string list"

text \<open>What the loop has gathered: the result so far, whether \<open>-coverprofile\<close> was seen, the
  binary's own flags, and what followed \<open>-args\<close> (\<open>None\<close> when nothing did: a nil slice).\<close>

record gathered =
  res :: ClassifiedArgs
  needsCoverBuild :: bool
  binaryFlags :: "string list"
  explicitArgs :: "string list option"

definition add_build :: "string list \<Rightarrow> gathered \<Rightarrow> gathered" where
  "add_build ws g = g\<lparr>res := (res g)\<lparr>BuildFlags := BuildFlags (res g) @ ws\<rparr>\<rparr>"

definition add_run :: "string list \<Rightarrow> gathered \<Rightarrow> gathered" where
  "add_run ws g = g\<lparr>res := (res g)\<lparr>RunFlags := RunFlags (res g) @ ws\<rparr>\<rparr>"

definition add_pkg :: "string \<Rightarrow> gathered \<Rightarrow> gathered" where
  "add_pkg w g = g\<lparr>res := (res g)\<lparr>PkgPatterns := PkgPatterns (res g) @ [w]\<rparr>\<rparr>"

definition add_binary :: "string list \<Rightarrow> gathered \<Rightarrow> gathered" where
  "add_binary ws g = g\<lparr>binaryFlags := binaryFlags g @ ws\<rparr>"

text \<open>The words a flag that takes a value uses: itself, and the next word unless it has a sign.\<close>

definition value_words :: "string \<Rightarrow> bool \<Rightarrow> string list \<Rightarrow> string list \<times> string list" where
  "value_words arg hasEquals rest =
     (if hasEquals then ([arg], rest)
      else case rest of w # ws \<Rightarrow> ([arg, w], ws) | [] \<Rightarrow> ([arg], []))"

lemma value_words_shorter: "value_words arg e rest = (ws, r) \<Longrightarrow> length r \<le> length rest"
  by (auto simp: value_words_def split: if_splits list.splits)

text \<open>The words a flag nobody declares uses: the next word too, if it is no flag.\<close>

definition unknown_words :: "string \<Rightarrow> bool \<Rightarrow> string list \<Rightarrow> string list \<times> string list" where
  "unknown_words arg hasEquals rest =
     (case rest of
        w # ws \<Rightarrow> if \<not> hasEquals \<and> \<not> hasPrefix w ''-'' then ([arg, w], ws) else ([arg], rest)
      | [] \<Rightarrow> ([arg], []))"

lemma unknown_words_shorter: "unknown_words arg e rest = (ws, r) \<Longrightarrow> length r \<le> length rest"
  by (auto simp: unknown_words_def split: if_splits list.splits)

function classify_loop :: "string list \<Rightarrow> gathered \<Rightarrow> gathered" where
  "classify_loop [] g = g"
| "classify_loop (arg # rest) g =
     (if arg = ''-args'' then g\<lparr>explicitArgs := Some rest\<rparr>
      else if \<not> hasPrefix arg ''-'' then classify_loop rest (add_pkg arg g)
      else let (name, value) = cut_eq arg; hasEquals = (value \<noteq> None) in
        if name = ''-json'' then classify_loop rest g
        else if name \<in> buildOnlyFlags \<or> arg \<in> buildOnlyFlags then classify_loop rest (add_build [arg] g)
        else if name \<in> buildValueFlags \<or> name \<in> buildSpecialValueFlags
        then (let (ws, r) = value_words arg hasEquals rest in classify_loop r (add_build ws g))
        else if name \<in> runOnlyFlags \<or> arg \<in> runOnlyFlags then classify_loop rest (add_run [arg] g)
        else if name \<in> runValueFlags
        then (let (ws, r) = value_words arg hasEquals rest;
                  g = (if name = ''-coverprofile'' then g\<lparr>needsCoverBuild := True\<rparr> else g)
              in classify_loop r (add_run ws g))
        else (let (ws, r) = unknown_words arg hasEquals rest in classify_loop r (add_binary ws g)))"
  by pat_completeness auto
termination
  by (relation "measure (\<lambda>(args, g). length args)")
    (auto dest!: value_words_shorter[OF sym] unknown_words_shorter[OF sym])

declare classify_loop.simps(2) [simp del]

definition no_args :: gathered where
  "no_args = \<lparr>res = \<lparr>BuildFlags = [], RunFlags = [], PkgPatterns = []\<rparr>, needsCoverBuild = False,
     binaryFlags = [], explicitArgs = None\<rparr>"

definition ClassifyGoTestArgs :: "string list \<Rightarrow> ClassifiedArgs" where
  "ClassifyGoTestArgs args =
     (let g = classify_loop args no_args;
          r = res g;
          r = (if binaryFlags g \<noteq> [] \<or> explicitArgs g \<noteq> None
               then r\<lparr>RunFlags := RunFlags r @ [''-args''] @ binaryFlags g @
                      (case explicitArgs g of Some ws \<Rightarrow> ws | None \<Rightarrow> [])\<rparr>
               else r)
      in if needsCoverBuild g \<and> ''-cover'' \<notin> set (BuildFlags r)
         then r\<lparr>BuildFlags := BuildFlags r @ [''-cover'']\<rparr> else r)"

subsection \<open>Reading and rewriting flags\<close>

definition translate_flag :: "string \<Rightarrow> string" where
  "translate_flag f = (case cut_eq f of
     (name, Some v) \<Rightarrow> ''-test.'' @ trimPrefix name ''-'' @ ''='' @ v
   | (name, None) \<Rightarrow> ''-test.'' @ trimPrefix name ''-'')"

fun translate_loop :: "bool \<Rightarrow> string list \<Rightarrow> string list" where
  "translate_loop passthrough [] = []"
| "translate_loop passthrough (f # fs) =
     (if f = ''-args'' \<and> \<not> passthrough then translate_loop True fs
      else if passthrough \<or> \<not> hasPrefix f ''-'' then f # translate_loop passthrough fs
      else translate_flag f # translate_loop passthrough fs)"

definition TranslateToTestBinaryFlags :: "string list \<Rightarrow> string list" where
  "TranslateToTestBinaryFlags flags = translate_loop False flags"

text \<open>
  \<open>extractFlag\<close>: for each word the names are tried in turn, and a name that takes the next
  word moves on to the word after it while the later names are still tried on the same word.
  \<open>names_loop\<close> returns the value and the words left.
\<close>

fun names_loop :: "string \<Rightarrow> string list \<Rightarrow> string list \<Rightarrow> string \<Rightarrow> string \<times> string list" where
  "names_loop f [] rest val = (val, rest)"
| "names_loop f (name # names) rest val =
     (case cutPrefix f (name @ ''='') of
        Some v \<Rightarrow> names_loop f names rest v
      | None \<Rightarrow>
          (case rest of
             w # ws \<Rightarrow> if f = name then names_loop f names ws w else names_loop f names rest val
           | [] \<Rightarrow> names_loop f names rest val))"

lemma names_loop_shorter: "names_loop f names rest val = (v, r) \<Longrightarrow> length r \<le> length rest"
proof (induction f names rest val rule: names_loop.induct)
  case (2 f name names rest val)
  then show ?case by (fastforce split: option.splits list.splits if_splits)
qed simp

function extract_loop :: "string list \<Rightarrow> string list \<Rightarrow> string \<Rightarrow> string" where
  "extract_loop names [] val = val"
| "extract_loop names (f # fs) val =
     (if f = ''-args'' then val
      else let (v, r) = names_loop f names fs val in extract_loop names r v)"
  by pat_completeness auto
termination
  by (relation "measure (\<lambda>(names, fs, val). length fs)") (auto dest!: names_loop_shorter[OF sym])

declare extract_loop.simps(2) [simp del]

definition extractFlag :: "string list \<Rightarrow> string list \<Rightarrow> string" where
  "extractFlag flags names = extract_loop names flags []"

fun stripFlag :: "string list \<Rightarrow> string \<Rightarrow> string list" where
  "stripFlag [] name = []"
| "stripFlag (f # fs) name =
     (if f = ''-args'' then f # fs
      else if hasPrefix f (name @ ''='') then stripFlag fs name
      else if f = name then stripFlag (tl fs) name
      else f # stripFlag fs name)"

definition ExtractRunFilter :: "string list \<Rightarrow> string" where "ExtractRunFilter fs = extractFlag fs [''-run'']"
definition ExtractSkipFilter :: "string list \<Rightarrow> string" where "ExtractSkipFilter fs = extractFlag fs [''-skip'']"
definition StripRunFilter :: "string list \<Rightarrow> string list" where "StripRunFilter fs = stripFlag fs ''-run''"
definition ExtractBenchFilter :: "string list \<Rightarrow> string" where "ExtractBenchFilter fs = extractFlag fs [''-bench'']"
definition StripBenchFilter :: "string list \<Rightarrow> string list" where "StripBenchFilter fs = stripFlag fs ''-bench''"
definition ExtractCoverProfile :: "string list \<Rightarrow> string" where
  "ExtractCoverProfile fs = extractFlag fs [''-coverprofile'']"
definition StripCoverProfile :: "string list \<Rightarrow> string list" where
  "StripCoverProfile fs = stripFlag fs ''-coverprofile''"

fun exec_loop :: "string list \<Rightarrow> string list \<times> string list \<Rightarrow> string list \<times> string list" where
  "exec_loop [] (prefix, rest) = (prefix, rest)"
| "exec_loop (f # fs) (prefix, rest) =
     (case cutPrefix f ''-exec='' of
        Some v \<Rightarrow> exec_loop fs (str_fields v, rest)
      | None \<Rightarrow>
          (case fs of
             w # ws \<Rightarrow> if f = ''-exec'' then exec_loop ws (str_fields w, rest) else exec_loop fs (prefix, rest @ [f])
           | [] \<Rightarrow> (prefix, rest @ [f])))"

definition ExtractExecPrefix :: "string list \<Rightarrow> string list \<times> string list" where
  "ExtractExecPrefix buildFlags = exec_loop buildFlags ([], [])"

fun stripCompileOnlyFlags :: "string list \<Rightarrow> string list" where
  "stripCompileOnlyFlags [] = []"
| "stripCompileOnlyFlags (f # fs) =
     (let (name, value) = cut_eq f in
      if name = ''-cover'' then stripCompileOnlyFlags fs
      else if name \<in> {''-covermode'', ''-coverpkg'', ''-vet''}
      then stripCompileOnlyFlags (if value = None then tl fs else fs)
      else f # stripCompileOnlyFlags fs)"

definition StripNonLoadFlags :: "string list \<Rightarrow> string list" where
  "StripNonLoadFlags flags = stripCompileOnlyFlags (snd (ExtractExecPrefix flags))"

text \<open>Whether the flag takes a value, and whether it is known at all.\<close>

definition IsGoTestFlag :: "string \<Rightarrow> bool \<times> bool" where
  "IsGoTestFlag name =
     (if name \<in> buildOnlyFlags then (False, True)
      else if name \<in> buildValueFlags \<or> name \<in> buildSpecialValueFlags then (True, True)
      else if name \<in> runOnlyFlags then (False, True)
      else if name \<in> runValueFlags then (True, True)
      else if name = ''-json'' \<or> name = ''-args'' then (False, True)
      else (False, False))"

definition before_args :: "string list \<Rightarrow> string list" where
  "before_args fs = takeWhile (\<lambda>f. f \<noteq> ''-args'') fs"

definition insertBeforeArgs :: "string list \<Rightarrow> string \<Rightarrow> string list" where
  "insertBeforeArgs runFlags flag =
     takeWhile (\<lambda>f. f \<noteq> ''-args'') runFlags @ [flag] @ dropWhile (\<lambda>f. f \<noteq> ''-args'') runFlags"

definition InjectDefaultTimeout :: "string list \<Rightarrow> string list" where
  "InjectDefaultTimeout runFlags =
     (if list_ex (\<lambda>f. hasPrefix f ''-timeout'') (before_args runFlags) then runFlags
      else insertBeforeArgs runFlags ''-timeout=10m'')"

definition InjectParallel :: "string list \<Rightarrow> int \<Rightarrow> string list" where
  "InjectParallel runFlags n =
     (if list_ex (\<lambda>f. hasPrefix f ''-parallel'') (before_args runFlags) then runFlags
      else insertBeforeArgs runFlags (''-parallel='' @ itoa n))"

fun verbose_loop :: "string list \<Rightarrow> bool \<Rightarrow> bool" where
  "verbose_loop [] verbose = verbose"
| "verbose_loop (f # fs) verbose =
     (if f = ''-args'' then verbose
      else let (name, value) = cut_eq (trimPrefix (trimPrefix f ''-'') ''-'') in
        if name \<noteq> ''v'' \<and> name \<noteq> ''test.v'' then verbose_loop fs verbose
        else case value of
            None \<Rightarrow> verbose_loop fs True
          | Some v \<Rightarrow> verbose_loop fs (case parse_bool v of Some b \<Rightarrow> b | None \<Rightarrow> True))"

definition HasVerboseFlag :: "string list \<Rightarrow> bool" where
  "HasVerboseFlag flags = verbose_loop flags False"

definition ExtractParallelValue :: "string list \<Rightarrow> int" where
  "ExtractParallelValue runFlags = atoi_value (extractFlag runFlags [''-parallel''])"

definition ExtractCountValue :: "string list \<Rightarrow> int" where
  "ExtractCountValue flags =
     (case atoi (extractFlag flags [''-count'', ''-test.count'']) of
        Some v \<Rightarrow> if v > 0 then v else 1
      | None \<Rightarrow> 1)"

definition ExtractProcessCap :: "string list \<Rightarrow> int" where
  "ExtractProcessCap buildFlags = max 0 (atoi_value (extractFlag buildFlags [''-p'']))"

text \<open>\<open>own\<close> is a nil function when \<open>None\<close>.\<close>

definition flag_takes_value :: "(string \<Rightarrow> bool \<times> bool) option \<Rightarrow> string \<Rightarrow> string list \<Rightarrow> bool" where
  "flag_takes_value own name rest =
     (let (isValue, known) = (case own of Some f \<Rightarrow> f name | None \<Rightarrow> (False, False));
          (isValue, known) = (if known then (isValue, known)
                              else IsGoTestFlag (CHR ''-'' # trim_left {CHR ''-''} name))
      in if known then isValue else rest \<noteq> [] \<and> \<not> hasPrefix (hd rest) ''-'')"

function pattern_loop :: "(string \<Rightarrow> bool \<times> bool) option \<Rightarrow> nat \<Rightarrow> string list \<Rightarrow> nat list" where
  "pattern_loop own i [] = []"
| "pattern_loop own i (arg # rest) =
     (if arg = ''-args'' \<or> arg = ''--args'' then []
      else if arg = ''--'' then pattern_loop own (i + 1) rest
      else if \<not> hasPrefix arg ''-'' then i # pattern_loop own (i + 1) rest
      else let (name, value) = cut_eq arg in
        if value \<noteq> None then pattern_loop own (i + 1) rest
        else if flag_takes_value own name rest then pattern_loop own (i + 2) (tl rest)
        else pattern_loop own (i + 1) rest)"
  by pat_completeness auto
termination by (relation "measure (\<lambda>(own, i, args). length args)") auto

declare pattern_loop.simps(2) [simp del]

definition PatternIndices :: "string list \<Rightarrow> (string \<Rightarrow> bool \<times> bool) option \<Rightarrow> nat list" where
  "PatternIndices args own = pattern_loop own 0 args"

subsection \<open>ParseExecFlags\<close>

record ParsedFlags =
  PBuildFlags :: "string list"
  PRunFlags :: "string list"
  UserRunFilter :: string
  UserSkipFilter :: string
  UserCoverProfile :: string
  Verbose :: bool
  Exec :: "string list"
  ProcessCap :: int

definition ParseExecFlags :: "string list \<Rightarrow> ParsedFlags" where
  "ParseExecFlags goTestArgs =
     (let classified = ClassifyGoTestArgs goTestArgs;
          (execPrefix, buildFlags) = ExtractExecPrefix (BuildFlags classified);
          runFlags = StripRunFilter (RunFlags classified)
      in \<lparr>PBuildFlags = buildFlags,
          PRunFlags = InjectDefaultTimeout (StripCoverProfile runFlags),
          UserRunFilter = ExtractRunFilter (RunFlags classified),
          UserSkipFilter = ExtractSkipFilter (RunFlags classified),
          UserCoverProfile = ExtractCoverProfile runFlags,
          Verbose = HasVerboseFlag (RunFlags classified),
          Exec = execPrefix,
          ProcessCap = ExtractProcessCap buildFlags\<rparr>)"

subsection \<open>ComputeConcurrency\<close>

text \<open>Go's division of positive numbers.\<close>

definition ComputeConcurrency :: "int \<Rightarrow> int \<Rightarrow> int \<Rightarrow> int \<times> int" where
  "ComputeConcurrency budget numSuites gomaxprocs =
     (let gomaxprocs = (if gomaxprocs \<le> 0 then 1 else gomaxprocs);
          budget = (if budget \<le> 0 then 2 * gomaxprocs else budget)
      in if numSuites \<le> 0 then (1, budget)
         else let inter = min (min numSuites gomaxprocs) budget;
                  inter = (if inter \<le> 0 then 1 else inter)
              in (inter, max 1 (budget div inter)))"

end
