(* ===== verification/RunArgsProps.thy ===== *)
theory RunArgsProps
  imports RunArgs
begin

text \<open>
  What holds of the argument splitting of \<open>RunArgs\<close>: no word is lost, the two readers of a command
  line agree on the package patterns, a stripped flag is gone, and the concurrency budget is kept.
\<close>

subsection \<open>No word is lost\<close>

definition words :: "gathered \<Rightarrow> string multiset" where
  "words g = mset (BuildFlags (res g)) + mset (RunFlags (res g)) + mset (PkgPatterns (res g)) +
     mset (binaryFlags g) + (case explicitArgs g of Some ws \<Rightarrow> mset (''-args'' # ws) | None \<Rightarrow> {#})"

lemma words_add [simp]:
  "words (add_build ws g) = words g + mset ws" "words (add_run ws g) = words g + mset ws"
  "words (add_pkg w g) = words g + {#w#}" "words (add_binary ws g) = words g + mset ws"
  "words (g\<lparr>needsCoverBuild := b\<rparr>) = words g"
  by (auto simp: words_def add_build_def add_run_def add_pkg_def add_binary_def)

lemma explicit_add [simp]:
  "explicitArgs (add_build ws g) = explicitArgs g" "explicitArgs (add_run ws g) = explicitArgs g"
  "explicitArgs (add_pkg w g) = explicitArgs g" "explicitArgs (add_binary ws g) = explicitArgs g"
  by (auto simp: add_build_def add_run_def add_pkg_def add_binary_def)

lemma value_words_mset: "value_words arg e rest = (ws, r) \<Longrightarrow> mset ws + mset r = add_mset arg (mset rest)"
  by (auto simp: value_words_def split: if_splits list.splits)

lemma unknown_words_mset: "unknown_words arg e rest = (ws, r) \<Longrightarrow> mset ws + mset r = add_mset arg (mset rest)"
  by (auto simp: unknown_words_def split: if_splits list.splits)

definition json_word :: "string \<Rightarrow> bool" where "json_word w \<longleftrightarrow> fst (cut_eq w) = ''-json''"

text \<open>The shape of one turn of the loop: the words it takes go to one place or, for \<open>-json\<close>,
  nowhere.\<close>

lemma classify_step:
  "classify_loop (arg # rest) g = g\<lparr>explicitArgs := Some rest\<rparr> \<and> arg = ''-args'' \<or>
   (\<exists>ws r g'. classify_loop (arg # rest) g = classify_loop r g' \<and> length r \<le> length rest \<and>
      mset ws + mset r = add_mset arg (mset rest) \<and> explicitArgs g' = explicitArgs g \<and>
      (words g' = words g + mset ws \<or> words g' = words g \<and> ws = [arg] \<and> json_word arg))"
proof (cases "arg = ''-args''")
  case True
  then show ?thesis by (simp add: classify_loop.simps(2))
next
  case args: False
  obtain name val where c: "cut_eq arg = (name, val)" by fastforce
  let ?e = "val \<noteq> None"
  obtain vs vr where v: "value_words arg ?e rest = (vs, vr)" by fastforce
  obtain us ur where u: "unknown_words arg ?e rest = (us, ur)" by fastforce
  note l = classify_loop.simps(2)[of arg rest g, unfolded c v u Let_def prod.case]
  consider (pkg) "\<not> hasPrefix arg ''-''" | (json) "hasPrefix arg ''-''" "name = ''-json''"
    | (b1) "hasPrefix arg ''-''" "name \<noteq> ''-json''" "name \<in> buildOnlyFlags \<or> arg \<in> buildOnlyFlags"
    | (b2) "hasPrefix arg ''-''" "name \<noteq> ''-json''" "\<not> (name \<in> buildOnlyFlags \<or> arg \<in> buildOnlyFlags)"
        "name \<in> buildValueFlags \<or> name \<in> buildSpecialValueFlags"
    | (r1) "hasPrefix arg ''-''" "name \<noteq> ''-json''" "\<not> (name \<in> buildOnlyFlags \<or> arg \<in> buildOnlyFlags)"
        "\<not> (name \<in> buildValueFlags \<or> name \<in> buildSpecialValueFlags)" "name \<in> runOnlyFlags \<or> arg \<in> runOnlyFlags"
    | (r2) "hasPrefix arg ''-''" "name \<noteq> ''-json''" "\<not> (name \<in> buildOnlyFlags \<or> arg \<in> buildOnlyFlags)"
        "\<not> (name \<in> buildValueFlags \<or> name \<in> buildSpecialValueFlags)" "\<not> (name \<in> runOnlyFlags \<or> arg \<in> runOnlyFlags)"
        "name \<in> runValueFlags"
    | (un) "hasPrefix arg ''-''" "name \<noteq> ''-json''" "\<not> (name \<in> buildOnlyFlags \<or> arg \<in> buildOnlyFlags)"
        "\<not> (name \<in> buildValueFlags \<or> name \<in> buildSpecialValueFlags)" "\<not> (name \<in> runOnlyFlags \<or> arg \<in> runOnlyFlags)"
        "name \<notin> runValueFlags"
    by argo
  then show ?thesis
  proof cases
    case pkg
    then have "classify_loop (arg # rest) g = classify_loop rest (add_pkg arg g)" using l args by simp
    then show ?thesis
      by (intro disjI2 exI[of _ "[arg]"] exI[of _ rest] exI[of _ "add_pkg arg g"]) simp
  next
    case json
    then have "classify_loop (arg # rest) g = classify_loop rest g" using l args by simp
    then show ?thesis using c json
      by (intro disjI2 exI[of _ "[arg]"] exI[of _ rest] exI[of _ g]) (simp add: json_word_def)
  next
    case b1
    then have "classify_loop (arg # rest) g = classify_loop rest (add_build [arg] g)" using l args by simp
    then show ?thesis by (intro disjI2 exI[of _ "[arg]"] exI[of _ rest] exI[of _ "add_build [arg] g"]) simp
  next
    case b2
    then have "classify_loop (arg # rest) g = classify_loop vr (add_build vs g)" using l args by simp
    then show ?thesis using value_words_mset[OF v] value_words_shorter[OF v]
      by (intro disjI2 exI[of _ vs] exI[of _ vr] exI[of _ "add_build vs g"]) simp
  next
    case r1
    then have "classify_loop (arg # rest) g = classify_loop rest (add_run [arg] g)" using l args by simp
    then show ?thesis by (intro disjI2 exI[of _ "[arg]"] exI[of _ rest] exI[of _ "add_run [arg] g"]) simp
  next
    case r2
    let ?g = "add_run vs (if name = ''-coverprofile'' then g\<lparr>needsCoverBuild := True\<rparr> else g)"
    have "classify_loop (arg # rest) g = classify_loop vr ?g" using r2 l args by simp
    then show ?thesis using value_words_mset[OF v] value_words_shorter[OF v]
      by (intro disjI2 exI[of _ vs] exI[of _ vr] exI[of _ ?g]) simp
  next
    case un
    then have "classify_loop (arg # rest) g = classify_loop ur (add_binary us g)" using l args by simp
    then show ?thesis using unknown_words_mset[OF u] unknown_words_shorter[OF u]
      by (intro disjI2 exI[of _ us] exI[of _ ur] exI[of _ "add_binary us g"]) simp
  qed
qed

lemma classify_loop_words:
  "explicitArgs g = None \<Longrightarrow>
   \<exists>js. list_all json_word js \<and> words (classify_loop args g) + mset js = words g + mset args"
proof (induction "length args" arbitrary: args g rule: less_induct)
  case less
  show ?case
  proof (cases args)
    case Nil
    then show ?thesis by (intro exI[of _ "[]"]) simp
  next
    case (Cons arg rest)
    from classify_step[of arg rest g] show ?thesis
    proof (elim disjE exE conjE)
      assume "classify_loop (arg # rest) g = g\<lparr>explicitArgs := Some rest\<rparr>" "arg = ''-args''"
      then show ?thesis using Cons less.prems by (intro exI[of _ "[]"]) (simp add: words_def)
    next
      fix ws r g'
      assume h: "classify_loop (arg # rest) g = classify_loop r g'" "length r \<le> length rest"
        "mset ws + mset r = add_mset arg (mset rest)" "explicitArgs g' = explicitArgs g"
      obtain js where js: "list_all json_word js" "words (classify_loop r g') + mset js = words g' + mset r"
        using less.hyps[of r g'] h(2,4) Cons less.prems by auto
      show ?thesis if "words g' = words g + mset ws"
        using js h that Cons by (intro exI[of _ js]) (simp add: add.assoc)
      show ?thesis if j: "words g' = words g" "ws = [arg]" "json_word arg"
      proof (intro exI[of _ "arg # js"] conjI)
        show "list_all json_word (arg # js)" using js(1) j(3) by simp
        have "words (classify_loop args g) + mset (arg # js) = add_mset arg (words g' + mset r)"
          using js(2) h(1) Cons by simp
        then show "words (classify_loop args g) + mset (arg # js) = words g + mset args"
          using j(1,2) h(3) Cons by simp
      qed
    qed
  qed
qed

text \<open>
  classifying go test's arguments loses and invents no word: build flags, run flags and
  package patterns together are the arguments, without the \<open>-json\<close> words and with at most an
  \<open>-args\<close> marker and one \<open>-cover\<close> added.
\<close>
theorem classify_loses_no_word:
  "\<exists>js extra. list_all json_word js \<and> distinct extra \<and> set extra \<subseteq> {''-args'', ''-cover''} \<and>
     mset (BuildFlags (ClassifyGoTestArgs args)) + mset (RunFlags (ClassifyGoTestArgs args)) +
       mset (PkgPatterns (ClassifyGoTestArgs args)) + mset js = mset args + mset extra"
proof -
  let ?g = "classify_loop args no_args"
  obtain js where js: "list_all json_word js" "words ?g + mset js = mset args"
    using classify_loop_words[of no_args args] by (auto simp: no_args_def words_def)
  define marker where "marker = (if explicitArgs ?g = None \<and> binaryFlags ?g \<noteq> [] then [''-args''] else [])"
  define cover where "cover = (if needsCoverBuild ?g \<and> ''-cover'' \<notin> set (BuildFlags (res ?g)) then [''-cover''] else [])"
  have "mset (BuildFlags (ClassifyGoTestArgs args)) + mset (RunFlags (ClassifyGoTestArgs args)) +
      mset (PkgPatterns (ClassifyGoTestArgs args)) = words ?g + mset (marker @ cover)"
    by (cases "explicitArgs ?g") (auto simp: ClassifyGoTestArgs_def Let_def words_def marker_def cover_def)
  then have "mset (BuildFlags (ClassifyGoTestArgs args)) + mset (RunFlags (ClassifyGoTestArgs args)) +
      mset (PkgPatterns (ClassifyGoTestArgs args)) + mset js = mset args + mset (marker @ cover)"
    using js(2) by (metis (no_types, lifting) add.assoc add.commute)
  moreover have "distinct (marker @ cover)" "set (marker @ cover) \<subseteq> {''-args'', ''-cover''}"
    by (auto simp: marker_def cover_def)
  ultimately show ?thesis using js(1) by blast
qed

subsection \<open>Package patterns\<close>

lemma hasPrefix_dash: "hasPrefix w ''-'' \<longleftrightarrow> w \<noteq> [] \<and> hd w = CHR ''-''"
  by (cases w) (auto simp: hasPrefix_def)

lemma pkgs_add [simp]:
  "PkgPatterns (res (add_build ws g)) = PkgPatterns (res g)" "PkgPatterns (res (add_run ws g)) = PkgPatterns (res g)"
  "PkgPatterns (res (add_binary ws g)) = PkgPatterns (res g)"
  "PkgPatterns (res (add_pkg w g)) = PkgPatterns (res g) @ [w]"
  by (simp_all add: add_build_def add_run_def add_binary_def add_pkg_def)

lemma single_dash:
  assumes "hasPrefix arg ''-''" "\<not> hasPrefix arg ''--''"
  shows "CHR ''-'' # trim_left {CHR ''-''} arg = arg"
proof -
  obtain w where w: "arg = CHR ''-'' # w" using assms(1) by (cases arg) (auto simp: hasPrefix_def)
  then have "\<not> hasPrefix w ''-''" using assms(2) by (simp add: hasPrefix_def)
  then have "dropWhile (\<lambda>c. c \<in> {CHR ''-''}) w = w" by (cases w) (auto simp: hasPrefix_def)
  then show ?thesis using w by (simp add: trim_left_def)
qed

lemma cut_eq_None: "cut_eq arg = (name, None) \<Longrightarrow> name = arg"
  by (auto simp: cut_eq_def split: option.splits)

text \<open>One flag: both readers go on after the same words.\<close>

lemma flag_step:
  assumes "hasPrefix arg ''-''" "\<not> hasPrefix arg ''--''" "arg \<noteq> ''-args''"
  shows "\<exists>n g'. classify_loop (arg # rest) g = classify_loop (drop n rest) g' \<and>
    PkgPatterns (res g') = PkgPatterns (res g) \<and>
    pattern_loop None k (arg # rest) = pattern_loop None (k + 1 + n) (drop n rest)"
proof -
  obtain name val where c: "cut_eq arg = (name, val)" by fastforce
  let ?e = "val \<noteq> None"
  obtain vs vr where v: "value_words arg ?e rest = (vs, vr)" by fastforce
  obtain us ur where u: "unknown_words arg ?e rest = (us, ur)" by fastforce
  note l = classify_loop.simps(2)[of arg rest g, unfolded c v u Let_def prod.case]
  have dd: "arg \<noteq> ''--''" "arg \<noteq> ''--args''" using assms(2) by (auto simp: hasPrefix_def)
  have pl: "pattern_loop None k (arg # rest) =
      (if ?e \<or> \<not> flag_takes_value None name rest then pattern_loop None (k + 1) rest
       else pattern_loop None (k + 2) (tl rest))"
    using assms dd c by (simp add: pattern_loop.simps(2))
  have known: "flag_takes_value None name rest =
      (if snd (IsGoTestFlag arg) then fst (IsGoTestFlag arg) else rest \<noteq> [] \<and> \<not> hasPrefix (hd rest) ''-'')" if "\<not> ?e"
    using cut_eq_None[of arg name] c that single_dash[OF assms(1,2)]
    by (auto simp: flag_takes_value_def split: prod.splits)
  have keep: "\<exists>n g'. classify_loop (arg # rest) g = classify_loop (drop n rest) g' \<and>
      PkgPatterns (res g') = PkgPatterns (res g) \<and>
      pattern_loop None k (arg # rest) = pattern_loop None (k + 1 + n) (drop n rest)"
    if "classify_loop (arg # rest) g = classify_loop rest g'" "PkgPatterns (res g') = PkgPatterns (res g)"
      "\<not> ?e \<longrightarrow> \<not> flag_takes_value None name rest" for g'
    using that pl by (intro exI[of _ 0] exI[of _ g']) auto
  have skip: "\<exists>n g'. classify_loop (arg # rest) g = classify_loop (drop n rest) g' \<and>
      PkgPatterns (res g') = PkgPatterns (res g) \<and>
      pattern_loop None k (arg # rest) = pattern_loop None (k + 1 + n) (drop n rest)"
    if "classify_loop (arg # rest) g = classify_loop (tl rest) g'" "PkgPatterns (res g') = PkgPatterns (res g)"
      "\<not> ?e" "flag_takes_value None name rest" for g'
    using that pl by (intro exI[of _ 1] exI[of _ g']) (auto simp: drop_Suc)
  have name: "\<not> ?e \<Longrightarrow> name = arg" using c cut_eq_None by auto
  consider (json) "name = ''-json''"
    | (b1) "name \<noteq> ''-json''" "name \<in> buildOnlyFlags \<or> arg \<in> buildOnlyFlags"
    | (b2) "name \<noteq> ''-json''" "\<not> (name \<in> buildOnlyFlags \<or> arg \<in> buildOnlyFlags)"
        "name \<in> buildValueFlags \<or> name \<in> buildSpecialValueFlags"
    | (r1) "name \<noteq> ''-json''" "\<not> (name \<in> buildOnlyFlags \<or> arg \<in> buildOnlyFlags)"
        "\<not> (name \<in> buildValueFlags \<or> name \<in> buildSpecialValueFlags)" "name \<in> runOnlyFlags \<or> arg \<in> runOnlyFlags"
    | (r2) "name \<noteq> ''-json''" "\<not> (name \<in> buildOnlyFlags \<or> arg \<in> buildOnlyFlags)"
        "\<not> (name \<in> buildValueFlags \<or> name \<in> buildSpecialValueFlags)" "\<not> (name \<in> runOnlyFlags \<or> arg \<in> runOnlyFlags)"
        "name \<in> runValueFlags"
    | (un) "name \<noteq> ''-json''" "\<not> (name \<in> buildOnlyFlags \<or> arg \<in> buildOnlyFlags)"
        "\<not> (name \<in> buildValueFlags \<or> name \<in> buildSpecialValueFlags)" "\<not> (name \<in> runOnlyFlags \<or> arg \<in> runOnlyFlags)"
        "name \<notin> runValueFlags"
    by argo
  then show ?thesis
  proof cases
    case json
    have i: "IsGoTestFlag ''-json'' = (False, True)" by code_simp
    show ?thesis
    proof (rule keep[of g])
      show "classify_loop (arg # rest) g = classify_loop rest g" using l assms(1,3) json by simp
      show "\<not> ?e \<longrightarrow> \<not> flag_takes_value None name rest"
      proof
        assume e: "\<not> ?e"
        then have "arg = ''-json''" using name json by simp
        then show "\<not> flag_takes_value None name rest" using known[OF e] i by simp
      qed
    qed simp
  next
    case b1
    have "classify_loop (arg # rest) g = classify_loop rest (add_build [arg] g)" using l assms(1,3) b1 by simp
    moreover have "\<not> ?e \<longrightarrow> \<not> flag_takes_value None name rest"
    proof
      assume e: "\<not> ?e"
      then have "IsGoTestFlag arg = (False, True)" using b1 name by (simp add: IsGoTestFlag_def)
      then show "\<not> flag_takes_value None name rest" using known[OF e] by simp
    qed
    ultimately show ?thesis by (intro keep[of "add_build [arg] g"]) simp_all
  next
    case b2
    have cl: "classify_loop (arg # rest) g = classify_loop vr (add_build vs g)" using l assms(1,3) b2 by simp
    show ?thesis
    proof (cases ?e)
      case True
      then have "vr = rest" using v by (simp add: value_words_def)
      then show ?thesis using keep[of "add_build vs g"] cl True by simp
    next
      case False
      then have "vr = tl rest" using v by (auto simp: value_words_def split: list.splits)
      moreover have "flag_takes_value None name rest"
        using known[OF False] b2 name[OF False] by (auto simp: IsGoTestFlag_def)
      ultimately show ?thesis using skip[of "add_build vs g"] cl False by simp
    qed
  next
    case r1
    have "classify_loop (arg # rest) g = classify_loop rest (add_run [arg] g)" using l assms(1,3) r1 by simp
    moreover have "\<not> ?e \<longrightarrow> \<not> flag_takes_value None name rest"
    proof
      assume e: "\<not> ?e"
      then have "IsGoTestFlag arg = (False, True)" using r1 name by (simp add: IsGoTestFlag_def)
      then show "\<not> flag_takes_value None name rest" using known[OF e] by simp
    qed
    ultimately show ?thesis by (intro keep[of "add_run [arg] g"]) simp_all
  next
    case r2
    let ?g = "add_run vs (if name = ''-coverprofile'' then g\<lparr>needsCoverBuild := True\<rparr> else g)"
    have cl: "classify_loop (arg # rest) g = classify_loop vr ?g" using l assms(1,3) r2 by simp
    show ?thesis
    proof (cases ?e)
      case True
      then have "vr = rest" using v by (simp add: value_words_def)
      then show ?thesis using keep[of ?g] cl True by simp
    next
      case False
      then have "vr = tl rest" using v by (auto simp: value_words_def split: list.splits)
      moreover have "flag_takes_value None name rest"
        using known[OF False] r2 name[OF False] by (auto simp: IsGoTestFlag_def)
      ultimately show ?thesis using skip[of ?g] cl False by simp
    qed
  next
    case un
    have cl: "classify_loop (arg # rest) g = classify_loop ur (add_binary us g)" using l assms(1,3) un by simp
    show ?thesis
    proof (cases "\<not> ?e \<and> rest \<noteq> [] \<and> \<not> hasPrefix (hd rest) ''-''")
      case True
      then have "ur = tl rest" using u by (auto simp: unknown_words_def split: list.splits)
      moreover have "flag_takes_value None name rest"
        using known un name True assms(3) by (auto simp: IsGoTestFlag_def)
      ultimately show ?thesis using skip[of "add_binary us g"] cl True by simp
    next
      case False
      then have "ur = rest" using u by (auto simp: unknown_words_def split: list.splits if_splits)
      moreover have "\<not> ?e \<longrightarrow> \<not> flag_takes_value None name rest"
        using known un name False assms(3) by (auto simp: IsGoTestFlag_def)
      ultimately show ?thesis using keep[of "add_binary us g"] cl by simp
    qed
  qed
qed

lemma patterns_loop:
  assumes "\<forall>w \<in> set args. \<not> hasPrefix w ''--''"
  shows "PkgPatterns (res (classify_loop args g)) =
    PkgPatterns (res g) @ map (\<lambda>i. (pre @ args) ! i) (pattern_loop None (length pre) args)"
  using assms
proof (induction "length args" arbitrary: args g pre rule: less_induct)
  case less
  show ?case
  proof (cases args)
    case (Cons arg rest)
    consider (marker) "arg = ''-args''" | (pkg) "arg \<noteq> ''-args''" "\<not> hasPrefix arg ''-''"
      | (flag) "arg \<noteq> ''-args''" "hasPrefix arg ''-''" by blast
    then show ?thesis
    proof cases
      case marker
      then show ?thesis using Cons by (simp add: classify_loop.simps(2) pattern_loop.simps(2))
    next
      case pkg
      have "arg \<noteq> ''--''" "arg \<noteq> ''--args''" using pkg(2) by (auto simp: hasPrefix_def)
      then show ?thesis
        using pkg Cons less.hyps[of rest "add_pkg arg g" "pre @ [arg]"] less.prems
        by (simp add: classify_loop.simps(2) pattern_loop.simps(2))
    next
      case flag
      obtain n g' where s: "classify_loop (arg # rest) g = classify_loop (drop n rest) g'"
          "PkgPatterns (res g') = PkgPatterns (res g)"
          "pattern_loop None (length pre) (arg # rest) = pattern_loop None (length pre + 1 + n) (drop n rest)"
        using flag_step[OF flag(2) _ flag(1)] less.prems Cons by fastforce
      show ?thesis
      proof (cases "n \<le> length rest")
        case True
        have "PkgPatterns (res (classify_loop (drop n rest) g')) = PkgPatterns (res g') @
            map (\<lambda>i. ((pre @ arg # take n rest) @ drop n rest) ! i) (pattern_loop None (length (pre @ arg # take n rest)) (drop n rest))"
          by (rule less.hyps) (use Cons less.prems in \<open>auto dest: in_set_dropD\<close>)
        then show ?thesis using s Cons True by (simp add: min_absorb2)
      next
        case False
        then show ?thesis using s Cons by simp
      qed
    qed
  qed simp
qed

text \<open>
  The two readers of a command line agree: without a word that starts with two dashes, the
  arguments at \<open>PatternIndices\<close> are the package patterns of \<open>ClassifyGoTestArgs\<close>, in order.
\<close>

theorem patterns_agree:
  assumes "\<forall>w \<in> set args. \<not> hasPrefix w ''--''"
  shows "map (\<lambda>i. args ! i) (PatternIndices args None) = PkgPatterns (ClassifyGoTestArgs args)"
proof -
  have "PkgPatterns (ClassifyGoTestArgs args) = PkgPatterns (res (classify_loop args no_args))"
    by (simp add: ClassifyGoTestArgs_def Let_def)
  then show ?thesis
    using patterns_loop[OF assms, of no_args "[]"] by (simp add: PatternIndices_def no_args_def)
qed

lemma patterns_agree_witness:
  "map (\<lambda>i. [''-count'', ''3'', ''./...'', ''-race'', ''./a''] ! i) (PatternIndices [''-count'', ''3'', ''./...'', ''-race'', ''./a''] None) =
   PkgPatterns (ClassifyGoTestArgs [''-count'', ''3'', ''./...'', ''-race'', ''./a''])"
  by (rule patterns_agree) (auto simp: hasPrefix_def)

subsection \<open>Stripping and reading a flag\<close>

text \<open>Words before \<open>-args\<close> that are neither the flag nor the flag with a value.\<close>

fun without_flag :: "string list \<Rightarrow> string \<Rightarrow> bool" where
  "without_flag [] name \<longleftrightarrow> True"
| "without_flag (f # fs) name \<longleftrightarrow> f = ''-args'' \<or> \<not> hasPrefix f (name @ ''='') \<and> f \<noteq> name \<and> without_flag fs name"

lemma stripFlag_without: "without_flag (stripFlag fs name) name"
  by (induction fs name rule: stripFlag.induct) auto

lemma names_loop_without:
  "\<not> hasPrefix f (name @ ''='') \<Longrightarrow> f \<noteq> name \<Longrightarrow> names_loop f [name] fs val = (val, fs)"
  by (cases fs) (simp_all add: cutPrefix_def)

lemma extract_without: "without_flag fs name \<Longrightarrow> extract_loop [name] fs val = val"
proof (induction fs)
  case (Cons f fs)
  then show ?case
    using names_loop_without[of f name fs val] by (auto simp: extract_loop.simps(2) simp del: names_loop.simps)
qed simp

text \<open>
  Once a flag is stripped nothing reads it any more: \<open>extractFlag\<close> finds no value for it.
\<close>
theorem strip_then_extract: "extractFlag (stripFlag fs name) [name] = []"
  unfolding extractFlag_def by (rule extract_without[OF stripFlag_without])

subsection \<open>The concurrency budget\<close>

lemma div_share:
  fixes d b :: int
  assumes "1 \<le> d"
  shows "d * (b div d) \<le> b" "b < d * (b div d + 1)"
proof -
  have "d * (b div d) + b mod d = b" by (rule mult_div_mod_eq)
  moreover have "0 \<le> b mod d" "b mod d < d" using assms by simp_all
  ultimately show "d * (b div d) \<le> b" "b < d * (b div d + 1)" unfolding distrib_left mult_1_right by linarith+
qed

text \<open>
  the budget is shared out soundly: at least one process with at least one test at a time, no
  more processes than suites, processors or budget, the two together within the budget, and no
  budget left over that one more test per process could use.
\<close>
theorem concurrency_within_budget:
  assumes "ComputeConcurrency budget numSuites gomaxprocs = (np, nt)"
    "0 < budget" "0 < numSuites" "0 < gomaxprocs"
  shows "1 \<le> np \<and> 1 \<le> nt \<and> np \<le> numSuites \<and> np \<le> gomaxprocs \<and> np * nt \<le> budget \<and>
    budget < np * (nt + 1)"
proof -
  let ?i = "min (min numSuites gomaxprocs) budget"
  have i: "np = ?i" "nt = max 1 (budget div ?i)" and pos: "1 \<le> ?i"
    using assms by (auto simp: ComputeConcurrency_def Let_def split: if_splits)
  have "1 \<le> budget div ?i" using pos by (simp add: int_one_le_iff_zero_less pos_imp_zdiv_pos_iff)
  then have d: "nt = budget div ?i" using i by simp
  moreover have "?i * (budget div ?i) \<le> budget" "budget < ?i * (budget div ?i + 1)"
    by (rule div_share[OF pos])+
  moreover have "?i \<le> numSuites" "?i \<le> gomaxprocs" by simp_all
  ultimately show ?thesis using pos \<open>1 \<le> budget div ?i\<close> unfolding i(1) d by (intro conjI)
qed

lemma concurrency_within_budget_witness: "ComputeConcurrency 7 3 8 = (3, 2) \<and> (3 :: int) * 2 \<le> 7"
proof -
  have c: "ComputeConcurrency 7 3 8 = (3, 2)" by code_simp
  then show ?thesis using concurrency_within_budget[OF c] by simp
qed

end
