(* ===== verification/FixturePolicy.thy ===== *)
theory FixturePolicy
  imports Prelude
begin

text \<open>
  How one fixture is set up and released: \<^verbatim>\<open>pkg/gotestruntime/fixturesetup.go\<close> and
  \<^verbatim>\<open>fixtureteardown.go\<close>, with the defaults of \<^verbatim>\<open>pkg/gotest/config.go\<close> and
  \<^verbatim>\<open>pkg/gotestruntime/config.go\<close>.  What the fixture's own hooks do and what the contexts say is an
  argument of the model, one record for each attempt; a run returns the error and the events it
  caused, in order.
\<close>

subsection \<open>Durations\<close>

text \<open>A \<open>time.Duration\<close> is a 64-bit count of nanoseconds; products wrap.\<close>

definition wrap64 :: "int \<Rightarrow> int" where
  "wrap64 x = (x + 2 ^ 63) mod 2 ^ 64 - 2 ^ 63"

lemma wrap64_id: "- (2 ^ 63) \<le> x \<Longrightarrow> x < 2 ^ 63 \<Longrightarrow> wrap64 x = x"
  by (simp add: wrap64_def)

definition Second :: duration where "Second = 1000000000"
definition Minute :: duration where "Minute = 60 * Second"

subsection \<open>Configuration\<close>

record FixtureConfig =
  CTimeout :: duration
  CRetries :: int
  CRetryDelay :: duration

record SuiteConfig =
  STimeout :: duration
  SSetupTimeout :: duration
  FailFast :: bool
  Parallel :: bool
  Exclusive :: bool
  ExclusiveGroup :: string

definition DefaultFixtureConfig :: FixtureConfig where
  "DefaultFixtureConfig = \<lparr>CTimeout = 2 * Minute, CRetries = 0, CRetryDelay = 0\<rparr>"

definition ContainerFixtureConfig :: FixtureConfig where
  "ContainerFixtureConfig = \<lparr>CTimeout = 5 * Minute, CRetries = 1, CRetryDelay = 5 * Second\<rparr>"

definition NoDeadline :: duration where "NoDeadline = -1"

definition DefaultSuiteConfig :: SuiteConfig where
  "DefaultSuiteConfig = \<lparr>STimeout = 30 * Second, SSetupTimeout = 30 * Second, FailFast = False,
     Parallel = False, Exclusive = False, ExclusiveGroup = []\<rparr>"

definition IntegrationSuiteConfig :: SuiteConfig where
  "IntegrationSuiteConfig = \<lparr>STimeout = 2 * Minute, SSetupTimeout = 5 * Minute, FailFast = False,
     Parallel = False, Exclusive = False, ExclusiveGroup = []\<rparr>"

text \<open>
  \<open>GOTEST_TIMEOUT_SCALE\<close>: \<open>None\<close> is the factor 1; otherwise the float multiplication by the factor,
  an argument.
\<close>

type_synonym scale = "(duration \<Rightarrow> duration) option"

definition scaleTimeout :: "scale \<Rightarrow> duration \<Rightarrow> duration" where
  "scaleTimeout f d = (case f of None \<Rightarrow> d | Some mul \<Rightarrow> if d \<le> 0 then d else mul d)"

definition ScaleDuration :: "scale \<Rightarrow> duration \<Rightarrow> duration" where
  "ScaleDuration f d = scaleTimeout f d"

definition scaleSuite :: "scale \<Rightarrow> SuiteConfig \<Rightarrow> SuiteConfig" where
  "scaleSuite f c = c\<lparr>STimeout := scaleTimeout f (STimeout c), SSetupTimeout := scaleTimeout f (SSetupTimeout c)\<rparr>"

definition WithSuiteDefaults :: "scale \<Rightarrow> SuiteConfig \<Rightarrow> SuiteConfig" where
  "WithSuiteDefaults f declared =
     (let def = DefaultSuiteConfig;
          d = (if STimeout declared = 0 then declared\<lparr>STimeout := STimeout def\<rparr> else declared);
          d = (if SSetupTimeout d = 0 then d\<lparr>SSetupTimeout := SSetupTimeout def\<rparr> else d)
      in scaleSuite f d)"

definition WithFixtureDefaults :: "scale \<Rightarrow> FixtureConfig \<Rightarrow> FixtureConfig" where
  "WithFixtureDefaults f declared =
     (let d = (if CTimeout declared = 0 then declared\<lparr>CTimeout := CTimeout DefaultFixtureConfig\<rparr> else declared)
      in d\<lparr>CTimeout := scaleTimeout f (CTimeout d)\<rparr>)"

subsection \<open>Errors\<close>

datatype gerr =
    Canceled
  | DeadlineExceeded
  | UserErr string
  | Panic string
  | SetupOverran duration
  | TeardownOverran duration
  | ReleaseFailed gerr
  | Wrapped string gerr
  | Skipped string
  | Joined "gerr list"

text \<open>\<open>errors.Is\<close>: the error itself or one it wraps.\<close>

fun err_is :: "(gerr \<Rightarrow> bool) \<Rightarrow> gerr \<Rightarrow> bool" where
  "err_is p (ReleaseFailed e) \<longleftrightarrow> p (ReleaseFailed e) \<or> err_is p e"
| "err_is p (Wrapped w e) \<longleftrightarrow> p (Wrapped w e) \<or> err_is p e"
| "err_is p (Joined es) \<longleftrightarrow> p (Joined es) \<or> list_ex (err_is p) es"
| "err_is p e \<longleftrightarrow> p e"

definition is_canceled :: "gerr \<Rightarrow> bool" where "is_canceled e = err_is (\<lambda>x. x = Canceled) e"

definition is_release_failed :: "gerr \<Rightarrow> bool" where
  "is_release_failed e = err_is (\<lambda>x. case x of ReleaseFailed _ \<Rightarrow> True | _ \<Rightarrow> False) e"

definition is_overran :: "gerr \<Rightarrow> bool" where
  "is_overran e = err_is (\<lambda>x. case x of SetupOverran _ \<Rightarrow> True | _ \<Rightarrow> False) e"

text \<open>\<open>errors.Join\<close>: nil errors are dropped, and nothing is left of nothing.\<close>

definition join_errs :: "gerr option list \<Rightarrow> gerr option" where
  "join_errs es = (let xs = List.map_filter id es in if xs = [] then None else Some (Joined xs))"

subsection \<open>Hooks\<close>

text \<open>How a hook of the user ends.\<close>

datatype outcome = Returns "gerr option" | Panics string

definition attemptSetup :: "outcome \<Rightarrow> gerr option" where
  "attemptSetup b = (case b of Returns e \<Rightarrow> e | Panics r \<Rightarrow> Some (Panic r))"

text \<open>What a run does that the world sees, with the time each part took.\<close>

datatype event =
    Held bool
  | Before "gerr option" bool duration  \<comment> \<open>its error; whether it overran; its time\<close>
  | After "gerr option" duration
  | Delay duration

text \<open>What the tracker says after these updates.\<close>

fun tracked :: "bool \<Rightarrow> event list \<Rightarrow> bool" where
  "tracked b [] = b"
| "tracked b (Held c # es) = tracked c es"
| "tracked b (_ # es) = tracked b es"

record FixtureSetup =
  Name :: string
  Timeout :: duration
  Budget :: duration
  Retries :: int
  RetryDelay :: duration
  BeforeAll :: bool  \<comment> \<open>whether there is one\<close>
  AfterAll :: bool
  HasHeld :: bool

record FixtureTeardown =
  TName :: string
  TTimeout :: duration
  TBudget :: duration
  TAfterAll :: bool

text \<open>One call of \<open>AfterAll\<close>: how it ends, and whether its own deadline had passed by then.\<close>

record after_run =
  after_ends :: outcome
  after_expired :: bool
  after_took :: duration

text \<open>
  One attempt: how \<open>BeforeAll\<close> ends and whether the attempt's deadline had passed; what the parent
  context reported at each place the loop looks at it; whether the retry delay was cut short; and
  the release that follows.
\<close>

record attempt =
  before_ends :: outcome
  before_expired :: bool
  before_took :: duration
  parent_at_verdict :: "gerr option"
  parent_after :: "gerr option"
  delay_cut :: "gerr option"
  delay_took :: duration
  releases :: after_run
  parent_released :: "gerr option"

subsection \<open>Teardown\<close>

definition runFixtureTeardown :: "scale \<Rightarrow> FixtureTeardown \<Rightarrow> after_run \<Rightarrow> gerr option \<times> event list" where
  "runFixtureTeardown f td a =
     (if \<not> TAfterAll td then (None, [])
      else let err = (case after_ends a of
                 Panics r \<Rightarrow> Some (Panic r)
               | Returns (Some e) \<Rightarrow> Some e
               | Returns None \<Rightarrow>
                   if TBudget td > 0 \<and> TTimeout td > 0 \<and> after_expired a
                   then Some (TeardownOverran (scaleTimeout f (TBudget td))) else None)
           in (err, [After err (after_took a)]))"

definition RunFixtureTeardown :: "scale \<Rightarrow> FixtureTeardown \<Rightarrow> after_run \<Rightarrow> bool" where
  "RunFixtureTeardown f td a = (fst (runFixtureTeardown f td a) \<noteq> None)"

definition release :: "scale \<Rightarrow> FixtureSetup \<Rightarrow> after_run \<Rightarrow> gerr option \<times> event list" where
  "release f s a =
     (if \<not> AfterAll s then (None, [])
      else case runFixtureTeardown f \<lparr>TName = Name s, TTimeout = Timeout s, TBudget = Budget s, TAfterAll = AfterAll s\<rparr> a of
          (Some e, evs) \<Rightarrow> (Some (ReleaseFailed e), evs)
        | (None, evs) \<Rightarrow> (None, evs))"

subsection \<open>Setup\<close>

definition held_event :: "FixtureSetup \<Rightarrow> bool \<Rightarrow> event list" where
  "held_event s b = (if HasHeld s then [Held b] else [])"

definition overran :: "FixtureSetup \<Rightarrow> attempt \<Rightarrow> bool" where
  "overran s a \<longleftrightarrow> attemptSetup (before_ends a) = None \<and> Budget s > 0 \<and> parent_at_verdict a = None \<and>
     (Timeout s > 0 \<and> before_expired a)"

definition prefix_events :: "event list \<Rightarrow> gerr option \<times> event list \<Rightarrow> gerr option \<times> event list" where
  "prefix_events evs r = (fst r, evs @ snd r)"

text \<open>
  The loop over the attempts: \<open>i\<close> counts them, the number argument is how many are left, \<open>lastErr\<close>
  and \<open>releaseErr\<close> are the code's.
\<close>

fun setup_loop ::
    "scale \<Rightarrow> FixtureSetup \<Rightarrow> (nat \<Rightarrow> attempt) \<Rightarrow> nat \<Rightarrow> nat \<Rightarrow> gerr option \<Rightarrow> gerr option \<Rightarrow> gerr option \<times> event list" where
  "setup_loop f s env i 0 lastErr releaseErr =
     (if releaseErr \<noteq> None then (join_errs [lastErr, releaseErr], []) else (lastErr, []))"
| "setup_loop f s env i (Suc n) lastErr releaseErr =
     (let a = env i;
          lastErr = attemptSetup (before_ends a);
          evs = held_event s True @ [Before lastErr (overran s a) (before_took a)]
      in if overran s a then (join_errs [Some (SetupOverran (scaleTimeout f (Budget s))), releaseErr], evs)
         else if lastErr = None then (releaseErr, evs)
         else if parent_after a \<noteq> None then (join_errs [parent_after a, releaseErr], evs)
         else if n = 0 then prefix_events evs (setup_loop f s env (Suc i) n lastErr releaseErr)
         else let evs = evs @ (if RetryDelay s > 0 then [Delay (delay_took a)] else [])
              in if RetryDelay s > 0 \<and> delay_cut a \<noteq> None then (join_errs [delay_cut a, releaseErr], evs)
                 else let (err, revs) = release f s (releases a);
                          releaseErr = (if err \<noteq> None then join_errs [releaseErr, err] else releaseErr);
                          evs = evs @ revs @ held_event s False
                      in if parent_released a \<noteq> None then (join_errs [parent_released a, releaseErr], evs)
                         else prefix_events evs (setup_loop f s env (Suc i) n lastErr releaseErr))"

text \<open>\<open>start\<close> is what the context says before the first attempt.\<close>

definition RunFixtureSetup ::
    "scale \<Rightarrow> gerr option \<Rightarrow> FixtureSetup \<Rightarrow> (nat \<Rightarrow> attempt) \<Rightarrow> gerr option \<times> event list" where
  "RunFixtureSetup f start s env =
     (if \<not> BeforeAll s then (None, [])
      else let attempts = nat (wrap64 (1 + Retries s)) in
        if attempts > 0 \<and> start \<noteq> None then (start, [])
        else setup_loop f s env 0 attempts None None)"

text \<open>A config marker method that panics is an error of the fixture.\<close>

definition DeriveFixtureConfig :: "FixtureConfig + string \<Rightarrow> FixtureConfig \<times> gerr option" where
  "DeriveFixtureConfig derived = (case derived of
       Inl cfg \<Rightarrow> (cfg, None)
     | Inr r \<Rightarrow> (\<lparr>CTimeout = 0, CRetries = 0, CRetryDelay = 0\<rparr>, Some (Panic r)))"

subsection \<open>Budgets\<close>

definition SetupBudget :: "FixtureSetup \<Rightarrow> duration" where
  "SetupBudget s =
     (if Timeout s \<le> 0 then 0
      else let retries = Retries s;
               budget = wrap64 (wrap64 (Timeout s * wrap64 (1 + retries)) + wrap64 (RetryDelay s * retries))
           in if AfterAll s then wrap64 (budget + wrap64 (Timeout s * retries)) else budget)"

definition SupervisorBudget :: "duration \<Rightarrow> duration" where
  "SupervisorBudget timeout = (if timeout \<le> 0 then CTimeout DefaultFixtureConfig else timeout)"

end
