(* ===== verification/FixtureDag.thy ===== *)
theory FixtureDag
  imports FixturePolicy
begin

text \<open>
  \<^verbatim>\<open>pkg/gotestruntime/runtime.go\<close>: the fixtures of a test process are set up concurrently, one
  goroutine each, in the order of their dependencies, and torn down in the opposite order.  The
  goroutines are an inductive step relation on a shared state; what the user's hooks do is an
  argument of the step that runs them.
\<close>

subsection \<open>Fixtures\<close>

record SharedStateNode =
  StateKey :: string
  HasHydrate :: bool
  HasDehydrate :: bool

record FixtureNode =
  NName :: string
  Config :: FixtureConfig
  NBudget :: duration
  NBeforeAll :: bool
  NAfterAll :: bool
  SharedState :: "SharedStateNode option"
  DependsOn :: "string list"

text \<open>
  What one fixture's setup meets: how \<open>Init\<close> and the unmarshalling of its shared state end, how
  \<open>Hydrate\<close> ends, what its context says at first, and its attempts.
\<close>

record node_env =
  inits :: "string option"  \<comment> \<open>the value \<open>Init\<close> panics with, or \<open>None\<close>\<close>
  unmarshals :: "gerr option"
  hydrates :: outcome
  ctx_at_start :: "gerr option"
  attempts_of :: "nat \<Rightarrow> attempt"

subsection \<open>One fixture\<close>

definition node_setup :: "FixtureNode \<Rightarrow> FixtureSetup" where
  "node_setup n = \<lparr>Name = NName n, Timeout = CTimeout (Config n), Budget = NBudget n, Retries = CRetries (Config n),
     RetryDelay = CRetryDelay (Config n), BeforeAll = NBeforeAll n, AfterAll = NAfterAll n, HasHeld = True\<rparr>"

definition runBeforeAllWithRetry :: "scale \<Rightarrow> FixtureNode \<Rightarrow> node_env \<Rightarrow> gerr option \<times> event list" where
  "runBeforeAllWithRetry f n env =
     (let (err, evs) = RunFixtureSetup f (ctx_at_start env) (node_setup n) (attempts_of env)
      in (map_option (Wrapped (NName n @ ''.BeforeAll: '')) err, evs))"

text \<open>How a setup ends, and the events: a tracker update is a \<open>Held\<close>.\<close>

definition setupNodeDAG :: "scale \<Rightarrow> (string \<Rightarrow> bool) \<Rightarrow> FixtureNode \<Rightarrow> node_env \<Rightarrow> outcome \<times> event list" where
  "setupNodeDAG f sharedState n env =
     (case SharedState n of
        Some sh \<Rightarrow>
          if \<not> sharedState (StateKey sh) then (Returns None, [])
          else (case unmarshals env of
              Some e \<Rightarrow> (Returns (Some (Wrapped (''unmarshal shared fixture '' @ StateKey sh) e)), [])
            | None \<Rightarrow>
                (case inits env of
                   Some r \<Rightarrow> (Panics r, [])
                 | None \<Rightarrow>
                     if HasHydrate sh
                     then (case hydrates env of
                         Panics r \<Rightarrow> (Panics r, [Held True])
                       | Returns (Some e) \<Rightarrow>
                           (Returns (Some (Wrapped (''hydrate shared fixture '' @ StateKey sh) e)), [Held True])
                       | Returns None \<Rightarrow> (Returns None, [Held True, Held True]))
                     else (Returns None, [Held True])))
      | None \<Rightarrow>
          (case inits env of
             Some r \<Rightarrow> (Panics r, [])
           | None \<Rightarrow> let (err, evs) = runBeforeAllWithRetry f n env in (Returns err, evs)))"

definition runAfterAll :: "scale \<Rightarrow> FixtureNode \<Rightarrow> after_run \<Rightarrow> bool \<times> event list" where
  "runAfterAll f n a =
     (let (err, evs) = runFixtureTeardown f \<lparr>TName = NName n, TTimeout = CTimeout (Config n), TBudget = NBudget n,
            TAfterAll = NAfterAll n\<rparr> a
      in (err \<noteq> None, evs))"

definition runDehydrate :: "FixtureNode \<Rightarrow> outcome \<Rightarrow> bool" where
  "runDehydrate n oc = (case SharedState n of
      Some sh \<Rightarrow> HasDehydrate sh \<and> (case oc of Returns e \<Rightarrow> e \<noteq> None | Panics _ \<Rightarrow> True)
    | None \<Rightarrow> False)"

text \<open>The body of a teardown goroutine once its dependents are done: whether it failed.\<close>

definition teardown_node :: "scale \<Rightarrow> FixtureNode \<Rightarrow> bool \<Rightarrow> after_run \<Rightarrow> bool" where
  "teardown_node f n attempted a =
     (if SharedState n \<noteq> None then attempted \<and> runDehydrate n (after_ends a)
      else attempted \<and> fst (runAfterAll f n a))"

subsection \<open>The setup of all\<close>

text \<open>Where a goroutine is.\<close>

datatype pc =
    Waits "string list"             \<comment> \<open>at the select, for the dependencies left\<close>
  | Checks string "string list"     \<comment> \<open>a dependency is done; its error is read next\<close>
  | InSetup
  | Cancels gerr                    \<comment> \<open>its error is recorded; \<open>cancel(err)\<close> is next\<close>
  | Closing                         \<comment> \<open>\<open>close(done)\<close> is next\<close>
  | Exited

record dag_state =
  at :: "nat \<Rightarrow> pc"
  closed :: "string set"
  errs :: "string \<rightharpoonup> gerr"
  cause :: "gerr option"            \<comment> \<open>the cause \<open>childCtx\<close> was cancelled with\<close>
  attempted :: "nat \<Rightarrow> bool"
  ended :: "nat \<Rightarrow> outcome option"    \<comment> \<open>how each setup ended; no step reads it\<close>
  interrupted :: bool               \<comment> \<open>whether the parent context ended; no step reads it\<close>

text \<open>The error recorded for how the setup of a fixture ends: the deferred recover names it.\<close>

definition setup_error :: "FixtureNode \<Rightarrow> outcome \<Rightarrow> gerr option" where
  "setup_error n oc = (case oc of Returns e \<Rightarrow> e | Panics r \<Rightarrow> Some (Wrapped (NName n @ '': '') (Panic r)))"

text \<open>
  One step of one goroutine, or of the parent context (\<open>parent\<close>).  Closing a channel twice would end
  the process; the step is not possible then.
\<close>

inductive dag_step :: "scale \<Rightarrow> (string \<Rightarrow> bool) \<Rightarrow> FixtureNode list \<Rightarrow> dag_state \<Rightarrow> dag_state \<Rightarrow> bool"
  for f sharedState fs where
  dep_done: "i < length fs \<Longrightarrow> at s i = Waits (d # ds) \<Longrightarrow> d \<in> closed s \<Longrightarrow>
    dag_step f sharedState fs s (s\<lparr>at := (at s)(i := Checks d ds)\<rparr>)"
| cancelled: "i < length fs \<Longrightarrow> at s i = Waits (d # ds) \<Longrightarrow> cause s = Some c \<Longrightarrow>
    dag_step f sharedState fs s (s\<lparr>errs := (errs s)(NName (fs ! i) \<mapsto> c), at := (at s)(i := Closing)\<rparr>)"
| dep_ok: "i < length fs \<Longrightarrow> at s i = Checks d ds \<Longrightarrow> errs s d = None \<Longrightarrow>
    dag_step f sharedState fs s (s\<lparr>at := (at s)(i := Waits ds)\<rparr>)"
| dep_failed: "i < length fs \<Longrightarrow> at s i = Checks d ds \<Longrightarrow> errs s d = Some e \<Longrightarrow>
    dag_step f sharedState fs s
      (s\<lparr>errs := (errs s)(NName (fs ! i) \<mapsto> Skipped d), at := (at s)(i := Cancels (Skipped d))\<rparr>)"
| enter: "i < length fs \<Longrightarrow> at s i = Waits [] \<Longrightarrow>
    dag_step f sharedState fs s (s\<lparr>at := (at s)(i := InSetup)\<rparr>)"
| set_up: "i < length fs \<Longrightarrow> at s i = InSetup \<Longrightarrow> setupNodeDAG f sharedState (fs ! i) env = (oc, evs) \<Longrightarrow>
    setup_error (fs ! i) oc = None \<Longrightarrow>
    dag_step f sharedState fs s
      (s\<lparr>at := (at s)(i := Closing), attempted := (attempted s)(i := tracked (attempted s i) evs),
         ended := (ended s)(i \<mapsto> oc)\<rparr>)"
| set_up_failed: "i < length fs \<Longrightarrow> at s i = InSetup \<Longrightarrow> setupNodeDAG f sharedState (fs ! i) env = (oc, evs) \<Longrightarrow>
    setup_error (fs ! i) oc = Some e \<Longrightarrow>
    dag_step f sharedState fs s
      (s\<lparr>at := (at s)(i := Cancels e), errs := (errs s)(NName (fs ! i) \<mapsto> e),
         attempted := (attempted s)(i := tracked (attempted s i) evs), ended := (ended s)(i \<mapsto> oc)\<rparr>)"
| cancel: "i < length fs \<Longrightarrow> at s i = Cancels e \<Longrightarrow>
    dag_step f sharedState fs s
      (s\<lparr>cause := (case cause s of None \<Rightarrow> Some e | Some c \<Rightarrow> Some c), at := (at s)(i := Closing)\<rparr>)"
| close_done: "i < length fs \<Longrightarrow> at s i = Closing \<Longrightarrow> NName (fs ! i) \<notin> closed s \<Longrightarrow>
    dag_step f sharedState fs s (s\<lparr>closed := insert (NName (fs ! i)) (closed s), at := (at s)(i := Exited)\<rparr>)"
| parent: "cause s = None \<Longrightarrow> dag_step f sharedState fs s (s\<lparr>cause := Some c, interrupted := True\<rparr>)"

definition dag_start :: "FixtureNode list \<Rightarrow> dag_state" where
  "dag_start fs = \<lparr>at = (\<lambda>i. if i < length fs then Waits (DependsOn (fs ! i)) else Exited), closed = {},
     errs = Map.empty, cause = None, attempted = (\<lambda>i. False), ended = (\<lambda>i. None),
     interrupted = False\<rparr>"

inductive dag_reach :: "scale \<Rightarrow> (string \<Rightarrow> bool) \<Rightarrow> FixtureNode list \<Rightarrow> dag_state \<Rightarrow> bool" for f sharedState fs where
  start: "dag_reach f sharedState fs (dag_start fs)"
| next_step: "dag_reach f sharedState fs s \<Longrightarrow> dag_step f sharedState fs s s' \<Longrightarrow> dag_reach f sharedState fs s'"

text \<open>\<open>wg.Wait\<close> returns.\<close>

definition all_exited :: "FixtureNode list \<Rightarrow> dag_state \<Rightarrow> bool" where
  "all_exited fs s = list_all (\<lambda>i. at s i = Exited) [0..<length fs]"

text \<open>The error \<open>setupDAG\<close> returns: the first that is no cancellation, else the first.\<close>

fun first_error :: "(string \<rightharpoonup> gerr) \<Rightarrow> gerr option \<Rightarrow> FixtureNode list \<Rightarrow> gerr option" where
  "first_error es firstErr [] = firstErr"
| "first_error es firstErr (n # ns) =
     (case es (NName n) of
        Some e \<Rightarrow> if \<not> is_canceled e then Some e
                  else first_error es (if firstErr = None then Some e else firstErr) ns
      | None \<Rightarrow> first_error es firstErr ns)"

definition missing_dep :: "FixtureNode list \<Rightarrow> (string \<times> string) option" where
  "missing_dep fs = List.find (\<lambda>(n, d). d \<notin> NName ` set fs) (concat (map (\<lambda>n. map (Pair (NName n)) (DependsOn n)) fs))"

text \<open>A whole run: its error, and what the tracker holds.\<close>

inductive setupDAG :: "scale \<Rightarrow> (string \<Rightarrow> bool) \<Rightarrow> FixtureNode list \<Rightarrow> gerr option \<Rightarrow> (nat \<Rightarrow> bool) \<Rightarrow> bool"
  for f sharedState fs where
  missing: "missing_dep fs = Some (n, d) \<Longrightarrow>
    setupDAG f sharedState fs (Some (UserErr (''fixture '' @ n @ '' depends on '' @ d @ '', which does not exist''))) (\<lambda>i. False)"
| ran: "missing_dep fs = None \<Longrightarrow> dag_reach f sharedState fs s \<Longrightarrow> all_exited fs s \<Longrightarrow>
    setupDAG f sharedState fs (first_error (errs s) None fs) (attempted s)"

subsection \<open>The teardown of all\<close>

datatype tpc = TWaits "string list" | Releasing | TClosing | TExited

record tear_state =
  tat :: "nat \<Rightarrow> tpc"
  tclosed :: "string set"
  tfailed :: "string set"
  released :: "nat list"            \<comment> \<open>the fixtures released so far, in order\<close>

definition dependents :: "FixtureNode list \<Rightarrow> string \<Rightarrow> string list" where
  "dependents fs d = concat (map (\<lambda>n. replicate (length (filter ((=) d) (DependsOn n))) (NName n)) fs)"

inductive tear_step :: "scale \<Rightarrow> FixtureNode list \<Rightarrow> (nat \<Rightarrow> bool) \<Rightarrow> tear_state \<Rightarrow> tear_state \<Rightarrow> bool"
  for f fs att where
  dependent_done: "i < length fs \<Longrightarrow> tat s i = TWaits (d # ds) \<Longrightarrow> d \<in> tclosed s \<Longrightarrow>
    tear_step f fs att s (s\<lparr>tat := (tat s)(i := TWaits ds)\<rparr>)"
| begin_release: "i < length fs \<Longrightarrow> tat s i = TWaits [] \<Longrightarrow>
    tear_step f fs att s (s\<lparr>tat := (tat s)(i := Releasing), released := released s @ (if att i then [i] else [])\<rparr>)"
| end_release: "i < length fs \<Longrightarrow> tat s i = Releasing \<Longrightarrow>
    tear_step f fs att s (s\<lparr>tat := (tat s)(i := TClosing),
      tfailed := (if teardown_node f (fs ! i) (att i) a then insert (NName (fs ! i)) (tfailed s) else tfailed s)\<rparr>)"
| tear_close: "i < length fs \<Longrightarrow> tat s i = TClosing \<Longrightarrow> NName (fs ! i) \<notin> tclosed s \<Longrightarrow>
    tear_step f fs att s (s\<lparr>tclosed := insert (NName (fs ! i)) (tclosed s), tat := (tat s)(i := TExited)\<rparr>)"

definition tear_start :: "FixtureNode list \<Rightarrow> tear_state" where
  "tear_start fs = \<lparr>tat = (\<lambda>i. if i < length fs then TWaits (dependents fs (NName (fs ! i))) else TExited),
     tclosed = {}, tfailed = {}, released = []\<rparr>"

inductive tear_reach :: "scale \<Rightarrow> FixtureNode list \<Rightarrow> (nat \<Rightarrow> bool) \<Rightarrow> tear_state \<Rightarrow> bool" for f fs att where
  tear_begin: "tear_reach f fs att (tear_start fs)"
| tear_next: "tear_reach f fs att s \<Longrightarrow> tear_step f fs att s s' \<Longrightarrow> tear_reach f fs att s'"

definition tear_done :: "FixtureNode list \<Rightarrow> tear_state \<Rightarrow> bool" where
  "tear_done fs s = list_all (\<lambda>i. tat s i = TExited) [0..<length fs]"

text \<open>\<open>teardownDAG\<close>: whether a release failed.\<close>

inductive teardownDAG :: "scale \<Rightarrow> FixtureNode list \<Rightarrow> (nat \<Rightarrow> bool) \<Rightarrow> bool \<Rightarrow> bool" for f fs att where
  "tear_reach f fs att s \<Longrightarrow> tear_done fs s \<Longrightarrow> teardownDAG f fs att (tfailed s \<noteq> {})"

subsection \<open>The teardown budget\<close>

text \<open>The last fixture of a name, as the map built in order has it.\<close>

definition byName :: "FixtureNode list \<Rightarrow> string \<rightharpoonup> FixtureNode" where
  "byName fs = map_of (rev (map (\<lambda>n. (NName n, n)) fs))"

text \<open>
  \<open>longestPath\<close> with its cache and the names it has visited; the fuel is the number of names left to
  visit.  \<open>None\<close> is the nil node of a dependency that does not exist.
\<close>

fun longest_path :: "(string \<rightharpoonup> FixtureNode) \<Rightarrow> nat \<Rightarrow> string \<Rightarrow> (string \<rightharpoonup> duration) \<times> string set \<Rightarrow>
      (duration \<times> (string \<rightharpoonup> duration) \<times> string set) option"
  and longest_dep :: "(string \<rightharpoonup> FixtureNode) \<Rightarrow> nat \<Rightarrow> string list \<Rightarrow> duration \<Rightarrow> (string \<rightharpoonup> duration) \<times> string set \<Rightarrow>
      (duration \<times> (string \<rightharpoonup> duration) \<times> string set) option"
where
  "longest_path nodes fuel name (cache, visiting) =
     (case cache name of
        Some d \<Rightarrow> Some (d, cache, visiting)
      | None \<Rightarrow>
          if name \<in> visiting then Some (0, cache, visiting)
          else case fuel of 0 \<Rightarrow> None | Suc fuel \<Rightarrow>
            (case nodes name of
               None \<Rightarrow> None
             | Some n \<Rightarrow>
                 (case longest_dep nodes fuel (DependsOn n) 0 (cache, insert name visiting) of
                    None \<Rightarrow> None
                  | Some (maxDep, cache, visiting) \<Rightarrow>
                      let result = SupervisorBudget (CTimeout (Config n)) + maxDep
                      in Some (result, cache(name \<mapsto> result), visiting))))"
| "longest_dep nodes fuel [] maxDep st = Some (maxDep, st)"
| "longest_dep nodes fuel (d # ds) maxDep st =
     (case longest_path nodes fuel d st of
        None \<Rightarrow> None
      | Some (depPath, st) \<Rightarrow> longest_dep nodes fuel ds (if depPath > maxDep then depPath else maxDep) st)"

fun max_path :: "(string \<rightharpoonup> FixtureNode) \<Rightarrow> nat \<Rightarrow> FixtureNode list \<Rightarrow> duration \<Rightarrow> (string \<rightharpoonup> duration) \<times> string set \<Rightarrow>
    duration option" where
  "max_path nodes fuel [] maxPath st = Some maxPath"
| "max_path nodes fuel (n # ns) maxPath st =
     (case longest_path nodes fuel (NName n) st of
        None \<Rightarrow> None
      | Some (p, st) \<Rightarrow> max_path nodes fuel ns (if p > maxPath then p else maxPath) st)"

definition computeMaxDAGPath :: "FixtureNode list \<Rightarrow> duration option" where
  "computeMaxDAGPath fs = max_path (byName fs) (length fs) fs 0 (Map.empty, {})"

end
