(* ===== verification/FixturePolicyProps.thy ===== *)
theory FixturePolicyProps
  imports FixturePolicy
begin

text \<open>
  What a fixture's setup guarantees: what an attempt acquired is released before the next one, when
  a setup succeeds, and how long it may take.
\<close>

subsection \<open>Acquired once, released once\<close>

text \<open>
  Whether the fixture holds something, read off the events: \<open>BeforeAll\<close> takes it and \<open>AfterAll\<close>
  gives it back; \<open>None\<close> when \<open>BeforeAll\<close> is entered while something is held, or \<open>AfterAll\<close>
  while nothing is.
\<close>

fun holding :: "bool \<Rightarrow> event list \<Rightarrow> bool option" where
  "holding h [] = Some h"
| "holding h (Before _ _ _ # es) = (if h then None else holding True es)"
| "holding h (After _ _ # es) = (if h then holding False es else None)"
| "holding h (Held _ # es) = holding h es"
| "holding h (Delay _ # es) = holding h es"

lemma holding_append:
  "holding h (es @ es') = (case holding h es of None \<Rightarrow> None | Some h' \<Rightarrow> holding h' es')"
  by (induction h es rule: holding.induct) auto

lemma tracked_append: "tracked b (es @ es') = tracked (tracked b es) es'"
  by (induction b es rule: tracked.induct) auto

lemma teardown_events:
  "TAfterAll td \<Longrightarrow> \<exists>e. runFixtureTeardown f td a = (e, [After e (after_took a)])"
  by (auto simp: runFixtureTeardown_def Let_def)

lemma release_events:
  "AfterAll s \<Longrightarrow> \<exists>e. snd (release f s a) = [After e (after_took a)] \<and> (fst (release f s a) = None \<longleftrightarrow> e = None)"
  using teardown_events[of "\<lparr>TName = Name s, TTimeout = Timeout s, TBudget = Budget s, TAfterAll = AfterAll s\<rparr>" f a]
  by (auto simp: release_def split: option.splits)

lemma prefix_events_simps [simp]:
  "snd (prefix_events evs r) = evs @ snd r" "fst (prefix_events evs r) = fst r"
  by (simp_all add: prefix_events_def)

lemma setup_loop_holding:
  assumes "AfterAll s" "HasHeld s"
  shows "holding False (snd (setup_loop f s env i n le rel)) =
    Some (tracked False (snd (setup_loop f s env i n le rel)))"
proof (induction n arbitrary: i le rel)
  case (Suc n)
  obtain e where r: "snd (release f s (releases (env i))) = [After e (after_took (releases (env i)))]"
    using release_events[OF assms(1)] by blast
  show ?case
    using Suc r assms
    by (auto simp: Let_def holding_append tracked_append held_event_def split: prod.splits)
qed simp

lemma setup_holding:
  assumes "AfterAll s" "HasHeld s"
  shows "holding False (snd (RunFixtureSetup f start s env)) = Some (tracked False (snd (RunFixtureSetup f start s env)))"
  using setup_loop_holding[OF assms] by (simp add: RunFixtureSetup_def Let_def)

subsection \<open>When a setup succeeds\<close>

fun last_before :: "event list \<Rightarrow> (gerr option \<times> bool) option" where
  "last_before [] = None"
| "last_before (Before e ov t # es) = (case last_before es of None \<Rightarrow> Some (e, ov) | Some r \<Rightarrow> Some r)"
| "last_before (_ # es) = last_before es"

definition release_failed :: "event list \<Rightarrow> bool" where
  "release_failed es = list_ex (\<lambda>ev. case ev of After e _ \<Rightarrow> e \<noteq> None | _ \<Rightarrow> False) es"

lemma release_failed_simps [simp]:
  "\<not> release_failed []" "release_failed (es @ es') \<longleftrightarrow> release_failed es \<or> release_failed es'"
  "release_failed (After e t # es) \<longleftrightarrow> e \<noteq> None \<or> release_failed es"
  "\<not> release_failed (held_event s b)"
  "release_failed (Before e ov t # es) \<longleftrightarrow> release_failed es"
  "release_failed (Held b # es) \<longleftrightarrow> release_failed es"
  "release_failed (Delay t # es) \<longleftrightarrow> release_failed es"
  by (auto simp: release_failed_def held_event_def)

lemma last_before_append:
  "last_before (es @ es') = (case last_before es' of None \<Rightarrow> last_before es | Some r \<Rightarrow> Some r)"
  by (induction es rule: last_before.induct) (auto split: option.splits)

lemma last_before_held [simp]: "last_before (held_event s b) = None" "last_before (held_event s b @ es) = last_before es"
  by (auto simp: held_event_def)

lemma join_errs_pair [simp]:
  "join_errs [Some e, r] = Some (Joined (e # (case r of None \<Rightarrow> [] | Some x \<Rightarrow> [x])))"
  "join_errs [r, Some e] = Some (Joined ((case r of None \<Rightarrow> [] | Some x \<Rightarrow> [x]) @ [e]))"
  by (cases r; simp add: join_errs_def map_filter_simps)+

lemma release_result:
  "snd (release f s a) = (if AfterAll s then [After (fst (runFixtureTeardown f \<lparr>TName = Name s, TTimeout = Timeout s, TBudget = Budget s, TAfterAll = True\<rparr> a)) (after_took a)] else []) \<and>
   (fst (release f s a) = None \<longleftrightarrow> \<not> release_failed (snd (release f s a)))"
  by (auto simp: release_def runFixtureTeardown_def Let_def split: option.splits outcome.splits)

lemma setup_loop_succeeds:
  "fst (setup_loop f s env i n le rel) = None \<longleftrightarrow>
     (let evs = snd (setup_loop f s env i n le rel) in
      rel = None \<and> \<not> release_failed evs \<and>
      (if n = 0 then le = None else last_before evs = Some (None, False)))"
proof (induction n arbitrary: i le rel)
  case 0
  then show ?case by (cases rel; cases le) auto
next
  case (Suc n)
  obtain err revs where r: "release f s (releases (env i)) = (err, revs)" by fastforce
  have rr: "err = None \<longleftrightarrow> \<not> release_failed revs" "last_before revs = None"
    using release_result[of f s "releases (env i)"] r by auto
  obtain lo where lo: "attemptSetup (before_ends (env i)) = lo" by blast
  show ?case
  proof (cases "overran s (env i) \<or> lo = None \<or> parent_after (env i) \<noteq> None \<or> n = 0")
    case True
    then show ?thesis
      using lo Suc.IH[of "Suc i" lo rel]
      by (auto simp: Let_def last_before_append overran_def split: if_splits)
  next
    case False
    then show ?thesis
      using lo r rr Suc.IH[of "Suc i" lo "if err \<noteq> None then join_errs [rel, err] else rel"]
      by (auto simp: Let_def last_before_append split: if_splits option.splits)
  qed
qed

text \<open>
  A setup succeeds exactly when the last \<open>BeforeAll\<close> entered returned no error inside the declared
  budget and no release between attempts failed.
\<close>

lemma setup_succeeds:
  assumes "BeforeAll s" "0 \<le> Retries s" "Retries s < 2 ^ 63 - 1"
  shows "fst (RunFixtureSetup f start s env) = None \<longleftrightarrow>
    last_before (snd (RunFixtureSetup f start s env)) = Some (None, False) \<and>
    \<not> release_failed (snd (RunFixtureSetup f start s env))"
proof -
  have "nat (wrap64 (1 + Retries s)) > 0" using assms by (simp add: wrap64_id)
  then show ?thesis
    using assms setup_loop_succeeds[of f s env 0 "nat (wrap64 (1 + Retries s))" None None]
    by (auto simp: RunFixtureSetup_def Let_def)
qed
subsection \<open>The time a setup takes\<close>

fun elapsed :: "event list \<Rightarrow> duration" where
  "elapsed [] = 0"
| "elapsed (Before _ _ t # es) = t + elapsed es"
| "elapsed (After _ t # es) = t + elapsed es"
| "elapsed (Delay t # es) = t + elapsed es"
| "elapsed (Held _ # es) = elapsed es"

lemma elapsed_append [simp]: "elapsed (es @ es') = elapsed es + elapsed es'"
  by (induction es rule: elapsed.induct) auto

lemma elapsed_held [simp]: "elapsed (held_event s b) = 0"
  by (simp add: held_event_def)

text \<open>Each hook of an attempt ends by the timeout, and the delay is no longer than declared.\<close>

definition in_time :: "FixtureSetup \<Rightarrow> attempt \<Rightarrow> bool" where
  "in_time s a \<longleftrightarrow> 0 \<le> before_took a \<and> before_took a \<le> Timeout s \<and>
     0 \<le> after_took (releases a) \<and> after_took (releases a) \<le> Timeout s \<and>
     0 \<le> delay_took a \<and> delay_took a \<le> RetryDelay s"

lemma elapsed_release: "elapsed (snd (release f s a)) = (if AfterAll s then after_took a else 0)"
  using release_result[of f s a] by simp

lemma one_more_turn:
  fixes m t d :: int
  shows "(m + 2) * t + (m + 1) * d = t + d + ((m + 1) * t + m * d)"
  by (simp add: algebra_simps)

lemma setup_loop_elapsed:
  assumes "\<And>k. in_time s (env k)" "0 \<le> RetryDelay s"
  shows "elapsed (snd (setup_loop f s env i n le rel)) \<le>
    int n * Timeout s + int (n - 1) * (RetryDelay s + (if AfterAll s then Timeout s else 0))"
proof (induction n arbitrary: i le rel)
  case (Suc n)
  let ?a = "env i"
  let ?x = "if AfterAll s then Timeout s else 0"
  note t = assms(1)[of i, unfolded in_time_def]
  obtain err revs where r: "release f s (releases ?a) = (err, revs)" by fastforce
  have re: "0 \<le> elapsed revs" "elapsed revs \<le> ?x"
    using elapsed_release[of f s "releases ?a"] r t by auto
  let ?rel = "if err \<noteq> None then join_errs [rel, err] else rel"
  let ?rest = "elapsed (snd (setup_loop f s env (Suc i) n (attemptSetup (before_ends ?a)) ?rel))"
  have rest: "?rest \<le> int n * Timeout s + int (n - 1) * (RetryDelay s + ?x)"
    by (rule Suc.IH)
  have T: "0 \<le> Timeout s" using t by linarith
  show ?case
  proof (cases "n = 0")
    case True
    then show ?thesis using t by (auto simp: Let_def)
  next
    case False
    define A where "A = int n * Timeout s + int (n - 1) * (RetryDelay s + ?x)"
    have A: "0 \<le> A" "?rest \<le> A" using T assms(2) rest by (auto simp: A_def)
    have "int (Suc n) = int (n - 1) + 2" "int (Suc n - 1) = int (n - 1) + 1" "int n = int (n - 1) + 1"
      using False by auto
    then have goal: "int (Suc n) * Timeout s + int (Suc n - 1) * (RetryDelay s + ?x) = Timeout s + (RetryDelay s + ?x) + A"
      unfolding A_def by (simp only: one_more_turn)
    have x: "0 \<le> ?x" using T by simp
    obtain lo where lo: "attemptSetup (before_ends ?a) = lo" by blast
    show ?thesis
    proof (cases "overran s ?a \<or> lo = None \<or> parent_after ?a \<noteq> None")
      case True
      then have "elapsed (snd (setup_loop f s env i (Suc n) le rel)) = before_took ?a"
        using lo by (auto simp: Let_def)
      then show ?thesis unfolding goal using t A x assms(2) by linarith
    next
      case False
      define d where "d = (if RetryDelay s > 0 then delay_took ?a else 0)"
      have d: "0 \<le> d" "d \<le> RetryDelay s" using t assms(2) by (auto simp: d_def)
      consider (cut) "0 < RetryDelay s \<and> delay_cut ?a \<noteq> None"
        | (rel) "\<not> (0 < RetryDelay s \<and> delay_cut ?a \<noteq> None)" "parent_released ?a \<noteq> None"
        | (on) "\<not> (0 < RetryDelay s \<and> delay_cut ?a \<noteq> None)" "parent_released ?a = None" by blast
      then have "elapsed (snd (setup_loop f s env i (Suc n) le rel)) \<le> before_took ?a + d + elapsed revs + A"
      proof cases
        case cut
        then have "elapsed (snd (setup_loop f s env i (Suc n) le rel)) = before_took ?a + d"
          using False lo \<open>n \<noteq> 0\<close> by (auto simp: Let_def d_def)
        then show ?thesis using A(1) re(1) by linarith
      next
        case rel
        then have "elapsed (snd (setup_loop f s env i (Suc n) le rel)) = before_took ?a + d + elapsed revs"
          using False lo r \<open>n \<noteq> 0\<close> by (auto simp: Let_def d_def)
        then show ?thesis using A(1) by linarith
      next
        case on
        then have "elapsed (snd (setup_loop f s env i (Suc n) le rel)) = before_took ?a + d + elapsed revs + ?rest"
          using False lo r \<open>n \<noteq> 0\<close> by (auto simp: Let_def d_def)
        then show ?thesis using A(2) by linarith
      qed
      then show ?thesis unfolding goal using t re(2) d by linarith
    qed
  qed
qed simp

text \<open>Every budget \<open>SetupBudget\<close> computes with fits into 64 bits.\<close>

definition budget_fits :: "FixtureSetup \<Rightarrow> bool" where
  "budget_fits s \<longleftrightarrow> 0 \<le> Retries s \<and> 0 < Timeout s \<and> 0 \<le> RetryDelay s \<and>
     Timeout s * (1 + Retries s) + RetryDelay s * Retries s + Timeout s * Retries s < 2 ^ 63"

lemma SetupBudget_exact:
  assumes "budget_fits s"
  shows "SetupBudget s = Timeout s * (1 + Retries s) + RetryDelay s * Retries s + (if AfterAll s then Timeout s * Retries s else 0)"
    and "Retries s < 2 ^ 63 - 1"
proof -
  let ?a = "Timeout s * (1 + Retries s)" and ?b = "RetryDelay s * Retries s" and ?c = "Timeout s * Retries s"
  have h: "0 \<le> Retries s" "0 < Timeout s" "0 \<le> RetryDelay s" "?a + ?b + ?c < 2 ^ 63"
    using assms by (auto simp: budget_fits_def)
  have p: "0 \<le> ?a" "0 \<le> ?b" "0 \<le> ?c" using h by auto
  have "1 * (1 + Retries s) \<le> ?a" using h by (intro mult_right_mono) auto
  moreover have "?a < 2 ^ 63" using p h(4) by (smt (verit))
  ultimately show r: "Retries s < 2 ^ 63 - 1" by simp
  have "wrap64 (1 + Retries s) = 1 + Retries s" using h r by (intro wrap64_id) auto
  moreover have "wrap64 ?a = ?a" "wrap64 ?b = ?b" "wrap64 (?a + ?b) = ?a + ?b" "wrap64 ?c = ?c"
    "wrap64 (?a + ?b + ?c) = ?a + ?b + ?c"
    using p h(4) by (intro wrap64_id; smt (verit))+
  ultimately show "SetupBudget s = ?a + ?b + (if AfterAll s then ?c else 0)"
    using h(2) by (simp add: SetupBudget_def Let_def)
qed

text \<open>
  C6: no setup outlasts its budget: as long as each hook returns by its timeout and each delay is
  the declared one, all attempts, delays and releases together take at most \<open>SetupBudget\<close>.
\<close>
theorem setup_within_budget:
  assumes "budget_fits s" "\<And>k. in_time s (env k)"
  shows "elapsed (snd (RunFixtureSetup f start s env)) \<le> SetupBudget s"
proof -
  have h: "0 \<le> Retries s" "0 < Timeout s" "0 \<le> RetryDelay s" using assms(1) by (auto simp: budget_fits_def)
  have n: "nat (wrap64 (1 + Retries s)) = Suc (nat (Retries s))"
    using h SetupBudget_exact(2)[OF assms(1)] by (simp add: wrap64_id nat_add_distrib)
  have "elapsed (snd (setup_loop f s env 0 (Suc (nat (Retries s))) None None)) \<le> SetupBudget s"
    using setup_loop_elapsed[OF assms(2) h(3), where n = "Suc (nat (Retries s))"] h SetupBudget_exact(1)[OF assms(1)]
    by (auto simp: algebra_simps intro: order_trans)
  moreover have "0 \<le> SetupBudget s" using h SetupBudget_exact(1)[OF assms(1)] by auto
  ultimately show ?thesis by (auto simp: RunFixtureSetup_def Let_def n)
qed

definition slow_setup :: FixtureSetup where
  "slow_setup = \<lparr>Name = ''db'', Timeout = 100, Budget = 100, Retries = 2, RetryDelay = 10, BeforeAll = True,
     AfterAll = True, HasHeld = True\<rparr>"

definition slow_attempt :: attempt where
  "slow_attempt = \<lparr>before_ends = Returns (Some (UserErr ''down'')), before_expired = False, before_took = 90,
     parent_at_verdict = None, parent_after = None, delay_cut = None, delay_took = 10,
     releases = \<lparr>after_ends = Returns None, after_expired = False, after_took = 80\<rparr>, parent_released = None\<rparr>"

lemma setup_within_budget_witness:
  "elapsed (snd (RunFixtureSetup None None slow_setup (\<lambda>k. slow_attempt))) = 450 \<and> (450 :: int) \<le> SetupBudget slow_setup"
proof -
  have e: "elapsed (snd (RunFixtureSetup None None slow_setup (\<lambda>k. slow_attempt))) = 450" by code_simp
  have "elapsed (snd (RunFixtureSetup None None slow_setup (\<lambda>k. slow_attempt))) \<le> SetupBudget slow_setup"
    by (rule setup_within_budget) (code_simp, simp add: in_time_def slow_setup_def slow_attempt_def)
  then show ?thesis using e by simp
qed

text \<open>
  A negative number of retries leaves no attempt at all: the loop never runs, nothing is set up and
  the setup reports success.
\<close>

lemma negative_retries_skip_setup:
  "- (2 ^ 63) \<le> Retries s \<Longrightarrow> Retries s < 0 \<Longrightarrow> RunFixtureSetup f start s env = (None, [])"
  by (simp add: RunFixtureSetup_def wrap64_id)

end
