(* ===== verification/FixtureDagProps.thy ===== *)
theory FixtureDagProps
  imports FixtureDag FixturePolicyProps
begin

text \<open>
  The concurrent setup of the fixtures: the invariant of its reachable states, dependencies first,
  no deadlock, and which error comes back.
\<close>

subsection \<open>Who waits for whom\<close>

text \<open>
  Goroutines that each wait for the end of some others: if the ones they wait for rank lower, there
  is always one among the unfinished that waits for none of them.
\<close>

locale wait_graph =
  fixes count :: nat
    and waits :: "nat \<Rightarrow> nat set"
    and rank :: "nat \<Rightarrow> nat"
  assumes waits_rank: "i < count \<Longrightarrow> j \<in> waits i \<Longrightarrow> rank j < rank i"
begin

lemma unblocked:
  assumes "S \<subseteq> {..<count}" "S \<noteq> {}"
  shows "\<exists>i \<in> S. waits i \<inter> S = {}"
proof -
  obtain i where i: "i \<in> S" "\<And>j. j \<in> S \<Longrightarrow> rank i \<le> rank j"
    using assms(2) ex_has_least_nat[of "\<lambda>i. i \<in> S" _ rank] by blast
  have "j \<notin> S" if "j \<in> waits i" for j
    using waits_rank[of i j] that i assms(1) by (meson in_mono lessThan_iff not_le)
  then show ?thesis using i(1) by blast
qed

end

text \<open>The dependencies of a fixture, and its dependents, as places in the list.\<close>

definition dep_ids :: "FixtureNode list \<Rightarrow> nat \<Rightarrow> nat set" where
  "dep_ids fs i = {j. j < i \<and> i < length fs \<and> NName (fs ! j) \<in> set (DependsOn (fs ! i))}"

definition dependent_ids :: "FixtureNode list \<Rightarrow> nat \<Rightarrow> nat set" where
  "dependent_ids fs i = {j. i < j \<and> j < length fs \<and> NName (fs ! i) \<in> set (DependsOn (fs ! j))}"

interpretation setup_order: wait_graph "length fs" "dep_ids fs" "\<lambda>i. i" for fs
  by unfold_locales (simp add: dep_ids_def)

interpretation teardown_order: wait_graph "length fs" "dependent_ids fs" "\<lambda>i. length fs - i" for fs
  by unfold_locales (auto simp: dependent_ids_def)

text \<open>The fixtures as the generator lists them: names apart, dependencies first.\<close>

definition well_ordered :: "FixtureNode list \<Rightarrow> bool" where
  "well_ordered fs \<longleftrightarrow> distinct (map NName fs) \<and>
     list_all (\<lambda>i. list_all (\<lambda>d. d \<in> set (map NName (take i fs))) (DependsOn (fs ! i))) [0..<length fs]"

lemma well_ordered_dep:
  assumes "well_ordered fs" "i < length fs" "d \<in> set (DependsOn (fs ! i))"
  obtains j where "j < i" "NName (fs ! j) = d" "j \<in> dep_ids fs i"
proof -
  have "d \<in> set (map NName (take i fs))"
    using assms by (auto simp: well_ordered_def list_all_iff)
  then obtain j where "j < i" "NName (fs ! j) = d" using assms(2) by (auto simp: in_set_conv_nth)
  then show thesis using that assms by (auto simp: dep_ids_def)
qed

lemma same_name:
  "well_ordered fs \<Longrightarrow> i < length fs \<Longrightarrow> j < length fs \<Longrightarrow> NName (fs ! i) = NName (fs ! j) \<longleftrightarrow> i = j"
  by (auto simp: well_ordered_def distinct_conv_nth)

subsection \<open>The invariant of the setup\<close>

definition clean :: "dag_state \<Rightarrow> string set \<Rightarrow> bool" where
  "clean s D \<longleftrightarrow> (\<forall>d \<in> D. d \<in> closed s \<and> errs s d = None)"

definition own :: "FixtureNode list \<Rightarrow> dag_state \<Rightarrow> nat \<Rightarrow> gerr \<Rightarrow> bool" where
  "own fs s i e \<longleftrightarrow> (\<exists>oc. ended s i = Some oc \<and> setup_error (fs ! i) oc = Some e)"

definition skipped :: "FixtureNode list \<Rightarrow> dag_state \<Rightarrow> nat \<Rightarrow> gerr \<Rightarrow> bool" where
  "skipped fs s i e \<longleftrightarrow> ended s i = None \<and> \<not> attempted s i \<and>
     (\<exists>d \<in> set (DependsOn (fs ! i)). e = Skipped d \<and> d \<in> closed s \<and> errs s d \<noteq> None)"

abbreviation deps_of :: "FixtureNode list \<Rightarrow> nat \<Rightarrow> string set" where
  "deps_of fs i \<equiv> set (DependsOn (fs ! i))"

definition untouched :: "FixtureNode list \<Rightarrow> dag_state \<Rightarrow> nat \<Rightarrow> bool" where
  "untouched fs s i \<longleftrightarrow> errs s (NName (fs ! i)) = None \<and> ended s i = None \<and> \<not> attempted s i"

definition settled :: "FixtureNode list \<Rightarrow> dag_state \<Rightarrow> nat \<Rightarrow> bool" where
  "settled fs s i \<longleftrightarrow> (case errs s (NName (fs ! i)) of
      None \<Rightarrow> (\<exists>oc. ended s i = Some oc \<and> setup_error (fs ! i) oc = None) \<and> clean s (deps_of fs i)
    | Some e \<Rightarrow> cause s \<noteq> None \<and>
        (own fs s i e \<and> clean s (deps_of fs i) \<or> skipped fs s i e \<or>
         cause s = Some e \<and> ended s i = None \<and> \<not> attempted s i))"

fun node_inv :: "FixtureNode list \<Rightarrow> dag_state \<Rightarrow> nat \<Rightarrow> pc \<Rightarrow> bool" where
  "node_inv fs s i (Waits ds) \<longleftrightarrow> untouched fs s i \<and> (\<exists>pre. DependsOn (fs ! i) = pre @ ds \<and> clean s (set pre))"
| "node_inv fs s i (Checks d ds) \<longleftrightarrow> untouched fs s i \<and> d \<in> closed s \<and>
     (\<exists>pre. DependsOn (fs ! i) = pre @ d # ds \<and> clean s (set pre))"
| "node_inv fs s i InSetup \<longleftrightarrow> untouched fs s i \<and> clean s (deps_of fs i)"
| "node_inv fs s i (Cancels e) \<longleftrightarrow> errs s (NName (fs ! i)) = Some e \<and>
     (own fs s i e \<and> clean s (deps_of fs i) \<or> skipped fs s i e \<and> cause s \<noteq> None)"
| "node_inv fs s i Closing \<longleftrightarrow> settled fs s i"
| "node_inv fs s i Exited \<longleftrightarrow> settled fs s i"

definition closed_inv :: "FixtureNode list \<Rightarrow> dag_state \<Rightarrow> bool" where
  "closed_inv fs s \<longleftrightarrow> closed s = (\<lambda>i. NName (fs ! i)) ` {i. i < length fs \<and> at s i = Exited}"

definition cause_inv :: "FixtureNode list \<Rightarrow> dag_state \<Rightarrow> bool" where
  "cause_inv fs s \<longleftrightarrow> (\<forall>c. cause s = Some c \<longrightarrow> interrupted s \<or> (\<exists>i < length fs. own fs s i c))"

definition dag_inv :: "FixtureNode list \<Rightarrow> dag_state \<Rightarrow> bool" where
  "dag_inv fs s \<longleftrightarrow> closed_inv fs s \<and> cause_inv fs s \<and> (\<forall>i < length fs. node_inv fs s i (at s i))"

text \<open>What a step of one goroutine leaves of the others: the frame of every rule.\<close>

definition same_for :: "FixtureNode list \<Rightarrow> dag_state \<Rightarrow> dag_state \<Rightarrow> nat \<Rightarrow> bool" where
  "same_for fs s s' j \<longleftrightarrow> ended s' j = ended s j \<and> attempted s' j = attempted s j \<and> closed s \<subseteq> closed s' \<and>
     (\<forall>d \<in> closed s. errs s' d = errs s d) \<and> errs s' (NName (fs ! j)) = errs s (NName (fs ! j)) \<and>
     (cause s = None \<or> cause s' = cause s)"

lemma clean_mono: "same_for fs s s' j \<Longrightarrow> clean s D \<Longrightarrow> clean s' D"
  unfolding same_for_def clean_def by auto

lemma skipped_mono: "same_for fs s s' j \<Longrightarrow> skipped fs s j e \<Longrightarrow> skipped fs s' j e"
  unfolding same_for_def skipped_def by auto

lemma own_same: "same_for fs s s' j \<Longrightarrow> own fs s' j e = own fs s j e"
  unfolding same_for_def own_def by auto

lemma settled_mono: "same_for fs s s' j \<Longrightarrow> settled fs s j \<Longrightarrow> settled fs s' j"
  using clean_mono[of fs s s' j] skipped_mono[of fs s s' j] own_same[of fs s s' j]
  unfolding settled_def by (auto simp: same_for_def split: option.splits)

lemma node_inv_mono:
  assumes "same_for fs s s' j" "node_inv fs s j p"
  shows "node_inv fs s' j p"
proof -
  have u: "untouched fs s j \<Longrightarrow> untouched fs s' j" using assms(1) by (simp add: untouched_def same_for_def)
  have c: "closed s \<subseteq> closed s'" "cause s \<noteq> None \<Longrightarrow> cause s' \<noteq> None"
    "errs s' (NName (fs ! j)) = errs s (NName (fs ! j))" using assms(1) by (auto simp: same_for_def)
  show ?thesis
    using assms(2) u c clean_mono[OF assms(1)] skipped_mono[OF assms(1)] own_same[OF assms(1)] settled_mono[OF assms(1)]
    by (cases p) (fastforce simp del: not_None_eq)+
qed
lemma not_closed_yet:
  assumes "dag_inv fs s" "well_ordered fs" "i < length fs" "at s i \<noteq> Exited"
  shows "NName (fs ! i) \<notin> closed s"
  using assms same_name[OF assms(2)] by (auto simp: dag_inv_def closed_inv_def)

lemma frame_others:
  assumes "dag_inv fs s" "well_ordered fs" "i < length fs" "at s i \<noteq> Exited" "j < length fs" "j \<noteq> i"
    and "ended s' j = ended s j" "attempted s' j = attempted s j" "closed s \<subseteq> closed s'"
    and "\<And>d. d \<noteq> NName (fs ! i) \<Longrightarrow> errs s' d = errs s d" "cause s = None \<or> cause s' = cause s"
  shows "same_for fs s s' j"
  using assms(5-) not_closed_yet[OF assms(1-4)] same_name[OF assms(2,3,5)]
  unfolding same_for_def by metis

lemma dag_inv_step:
  assumes inv: "dag_inv fs s" "well_ordered fs" "i < length fs" "at s i \<noteq> Exited"
    and s': "at s' = (at s)(i := p)" "node_inv fs s' i p"
    and others: "\<And>j. j \<noteq> i \<Longrightarrow> ended s' j = ended s j \<and> attempted s' j = attempted s j"
    and closed: "closed s' = (if p = Exited then insert (NName (fs ! i)) (closed s) else closed s)"
    and errs: "\<And>d. d \<noteq> NName (fs ! i) \<Longrightarrow> errs s' d = errs s d"
    and cause: "cause s = None \<or> cause s' = cause s" "cause_inv fs s'"
  shows "dag_inv fs s'"
proof -
  have "closed s \<subseteq> closed s'" using closed by auto
  then have "same_for fs s s' j" if "j < length fs" "j \<noteq> i" for j
    using frame_others[OF inv that] others[OF that(2)] errs cause(1) by simp
  then have "node_inv fs s' j (at s' j)" if "j < length fs" for j
    using that s' node_inv_mono[of fs s s' j "at s j"] inv(1) by (cases "j = i") (auto simp: dag_inv_def)
  moreover have "closed_inv fs s'"
    using inv closed s'(1) by (auto simp: dag_inv_def closed_inv_def)
  ultimately show ?thesis using cause(2) by (simp add: dag_inv_def)
qed

lemma own_upd [simp]:
  "own fs (s\<lparr>at := a\<rparr>) i e = own fs s i e" "own fs (s\<lparr>errs := x\<rparr>) i e = own fs s i e"
  "own fs (s\<lparr>cause := c\<rparr>) i e = own fs s i e" "own fs (s\<lparr>closed := cl\<rparr>) i e = own fs s i e"
  "own fs (s\<lparr>interrupted := b\<rparr>) i e = own fs s i e"
  by (simp_all add: own_def)

lemma cause_inv_upd:
  "cause_inv fs s \<Longrightarrow> cause_inv fs (s\<lparr>at := a\<rparr>)" "cause_inv fs s \<Longrightarrow> cause_inv fs (s\<lparr>errs := x, at := a\<rparr>)"
  "cause_inv fs s \<Longrightarrow> cause_inv fs (s\<lparr>closed := cl, at := a\<rparr>)"
  by (simp_all add: cause_inv_def)

lemma cause_inv_ended:
  assumes "cause_inv fs s" "ended s i = None" "cause s' = cause s" "interrupted s' = interrupted s"
    "\<And>j. j \<noteq> i \<Longrightarrow> ended s' j = ended s j"
  shows "cause_inv fs s'"
proof -
  have "own fs s j c \<Longrightarrow> own fs s' j c" for j c using assms(2,5) by (cases "j = i") (auto simp: own_def)
  then show ?thesis using assms(1,3,4) by (fastforce simp: cause_inv_def)
qed

lemma clean_upd [simp]:
  "clean (s\<lparr>at := a\<rparr>) D = clean s D" "clean (s\<lparr>cause := c\<rparr>) D = clean s D"
  by (simp_all add: clean_def)

lemma clean_errs:
  "n \<notin> closed s \<Longrightarrow> closed s' = closed s \<Longrightarrow> (\<And>d. d \<noteq> n \<Longrightarrow> errs s' d = errs s d) \<Longrightarrow> clean s D \<Longrightarrow> clean s' D"
  unfolding clean_def by metis

lemma clean_closed: "clean s D \<Longrightarrow> clean (s\<lparr>closed := insert n (closed s)\<rparr>) D"
  by (auto simp: clean_def)

lemma closed_failed_cause:
  assumes "dag_inv fs s" "d \<in> closed s" "errs s d \<noteq> None"
  shows "cause s \<noteq> None"
proof -
  obtain j where "j < length fs" "NName (fs ! j) = d" "at s j = Exited"
    using assms(1,2) by (auto simp: dag_inv_def closed_inv_def)
  then have "settled fs s j" using assms(1) by (metis dag_inv_def node_inv.simps(6))
  then show ?thesis using assms(3) \<open>NName (fs ! j) = d\<close> by (auto simp: settled_def)
qed

lemma dag_inv_preserved:
  assumes w: "well_ordered fs" and inv: "dag_inv fs s" and st: "dag_step f sharedState fs s s'"
  shows "dag_inv fs s'"
  using st
proof cases
  case (dep_done i d ds)
  have n: "node_inv fs s i (Waits (d # ds))" using inv dep_done by (metis dag_inv_def)
  show ?thesis unfolding dep_done(1)
    by (rule dag_inv_step[OF inv w dep_done(2)])
      (use n dep_done inv in \<open>auto simp: untouched_def cause_inv_upd dag_inv_def\<close>)
next
  case (cancelled i d ds c)
  have n: "node_inv fs s i (Waits (d # ds))" using inv cancelled by (metis dag_inv_def)
  show ?thesis unfolding cancelled(1)
    by (rule dag_inv_step[OF inv w cancelled(2)])
      (use n cancelled inv in \<open>auto simp: untouched_def settled_def cause_inv_upd dag_inv_def\<close>)
next
  case (dep_ok i d ds)
  have n: "node_inv fs s i (Checks d ds)" using inv dep_ok by (metis dag_inv_def)
  then obtain pre where pre: "DependsOn (fs ! i) = pre @ d # ds" "clean s (set pre)" "d \<in> closed s" by auto
  have c: "clean s (set (pre @ [d]))" using pre dep_ok by (auto simp: clean_def)
  show ?thesis unfolding dep_ok(1)
    by (rule dag_inv_step[OF inv w dep_ok(2)])
      (use n dep_ok inv pre c in \<open>auto simp: untouched_def cause_inv_upd dag_inv_def intro!: exI[of _ "pre @ [d]"]\<close>)
next
  case (dep_failed i d ds e)
  have n: "node_inv fs s i (Checks d ds)" using inv dep_failed by (metis dag_inv_def)
  have i: "NName (fs ! i) \<notin> closed s" using not_closed_yet[OF inv w] dep_failed by simp
  have c: "cause s \<noteq> None" using closed_failed_cause[OF inv, of d] n dep_failed by auto
  show ?thesis unfolding dep_failed(1)
    by (rule dag_inv_step[OF inv w dep_failed(2)])
      (use n dep_failed inv c i in \<open>auto simp: untouched_def skipped_def cause_inv_upd dag_inv_def\<close>)
next
  case (enter i)
  have n: "node_inv fs s i (Waits [])" using inv enter by (metis dag_inv_def)
  show ?thesis unfolding enter(1)
    by (rule dag_inv_step[OF inv w enter(2)])
      (use n enter inv in \<open>auto simp: untouched_def cause_inv_upd dag_inv_def\<close>)
next
  case (set_up i env oc evs)
  have n: "node_inv fs s i InSetup" using inv set_up by (metis dag_inv_def)
  have u: "ended s i = None" using n by (simp add: untouched_def)
  have c: "cause_inv fs s'" unfolding set_up(1)
    by (rule cause_inv_ended[of fs s i]) (use inv u in \<open>auto simp: dag_inv_def\<close>)
  show ?thesis
    by (rule dag_inv_step[OF inv w set_up(2)])
      (use n set_up inv c in \<open>auto simp: untouched_def settled_def clean_def\<close>)
next
  case (set_up_failed i env oc evs e)
  have n: "node_inv fs s i InSetup" using inv set_up_failed by (metis dag_inv_def)
  have u: "ended s i = None" using n by (simp add: untouched_def)
  have i: "NName (fs ! i) \<notin> closed s" using not_closed_yet[OF inv w] set_up_failed by simp
  have c: "cause_inv fs s'" unfolding set_up_failed(1)
    by (rule cause_inv_ended[of fs s i]) (use inv u in \<open>auto simp: dag_inv_def\<close>)
  have cl: "clean s' (deps_of fs i)"
    by (rule clean_errs[of "NName (fs ! i)" s]) (use n i set_up_failed in auto)
  show ?thesis
    by (rule dag_inv_step[OF inv w set_up_failed(2)])
      (use n set_up_failed inv c cl in \<open>auto simp: untouched_def own_def\<close>)
next
  case (cancel i e)
  have n: "node_inv fs s i (Cancels e)" using inv cancel by (metis dag_inv_def)
  have c: "cause_inv fs s'"
    using inv n cancel(1,2) unfolding dag_inv_def cause_inv_def cancel(1) by (auto split: option.splits)
  show ?thesis
    by (rule dag_inv_step[OF inv w cancel(2)])
      (use n cancel inv c in \<open>auto simp: settled_def skipped_def split: option.splits\<close>)
next
  case (close_done i)
  have n: "settled fs s i" using inv close_done by (metis dag_inv_def node_inv.simps(5))
  have st: "settled fs s' i" using n unfolding close_done(1) settled_def
    by (auto simp: skipped_def clean_closed split: option.splits)
  show ?thesis
    by (rule dag_inv_step[OF inv w close_done(2), where p = Exited])
      (use st close_done inv in \<open>auto simp: cause_inv_upd dag_inv_def\<close>)
next
  case (parent c)
  have sm: "same_for fs s s' j" for j using parent by (simp add: same_for_def)
  have "node_inv fs s' i (at s' i)" if "i < length fs" for i
  proof -
    have "node_inv fs s i (at s i)" using inv that by (simp add: dag_inv_def)
    then show ?thesis using node_inv_mono[OF sm] parent(1) by simp
  qed
  then show ?thesis using inv parent(1) by (simp add: dag_inv_def closed_inv_def cause_inv_def)
qed
lemma dag_inv_start: "dag_inv fs (dag_start fs)"
  by (auto simp: dag_inv_def dag_start_def closed_inv_def cause_inv_def untouched_def clean_def)

lemma dag_reach_inv: "dag_reach f sharedState fs s \<Longrightarrow> well_ordered fs \<Longrightarrow> dag_inv fs s"
  by (induction rule: dag_reach.induct) (auto intro: dag_inv_start dag_inv_preserved)

subsection \<open>Dependencies first\<close>

lemma node_inv_at: "dag_inv fs s \<Longrightarrow> i < length fs \<Longrightarrow> node_inv fs s i (at s i)"
  by (simp add: dag_inv_def)

text \<open>A setup that has begun, or ended, had every dependency up.\<close>

lemma begun_clean:
  assumes "dag_inv fs s" "i < length fs" "at s i = InSetup \<or> ended s i \<noteq> None"
  shows "clean s (deps_of fs i)"
  using node_inv_at[OF assms(1,2)] assms(3)
  by (cases "at s i") (auto simp: untouched_def settled_def skipped_def own_def split: option.splits)

lemma attempted_ended: "dag_inv fs s \<Longrightarrow> i < length fs \<Longrightarrow> attempted s i \<Longrightarrow> ended s i \<noteq> None"
  using node_inv_at[of fs s i]
  by (cases "at s i") (auto simp: untouched_def settled_def skipped_def own_def split: option.splits)

lemma clean_set_up:
  assumes "dag_inv fs s" "d \<in> closed s" "errs s d = None"
  shows "\<exists>j < length fs. NName (fs ! j) = d \<and> at s j = Exited \<and>
    (\<exists>oc. ended s j = Some oc \<and> setup_error (fs ! j) oc = None)"
proof -
  obtain j where j: "j < length fs" "NName (fs ! j) = d" "at s j = Exited"
    using assms(1,2) by (auto simp: dag_inv_def closed_inv_def)
  then have "settled fs s j" using node_inv_at[OF assms(1) j(1)] by simp
  then show ?thesis using j assms(3) by (auto simp: settled_def)
qed

text \<open>
  C7: no fixture's setup runs before all it depends on is up: when one is in its setup, or its
  setup has run, every dependency's goroutine has ended and its setup succeeded.
\<close>
theorem setup_after_dependencies:
  assumes "dag_reach f sharedState fs s" "well_ordered fs" "i < length fs"
    "at s i = InSetup \<or> ended s i \<noteq> None" "d \<in> set (DependsOn (fs ! i))"
  shows "\<exists>j < length fs. NName (fs ! j) = d \<and> at s j = Exited \<and>
    (\<exists>oc. ended s j = Some oc \<and> setup_error (fs ! j) oc = None)"
  using clean_set_up[OF dag_reach_inv[OF assms(1,2)]] begun_clean[OF dag_reach_inv[OF assms(1,2)] assms(3,4)] assms(5)
  by (auto simp: clean_def)

subsection \<open>Every setup ends\<close>

fun pc_weight :: "pc \<Rightarrow> nat" where
  "pc_weight (Waits ds) = 2 * length ds + 5"
| "pc_weight (Checks d ds) = 2 * length ds + 6"
| "pc_weight InSetup = 4"
| "pc_weight (Cancels e) = 3"
| "pc_weight Closing = 2"
| "pc_weight Exited = 0"

definition dag_weight :: "FixtureNode list \<Rightarrow> dag_state \<Rightarrow> nat" where
  "dag_weight fs s = (\<Sum>i<length fs. pc_weight (at s i)) + (if cause s = None then 1 else 0)"

lemma sum_upd:
  fixes w :: "nat \<Rightarrow> nat"
  assumes "i < n" "y < w i"
  shows "(\<Sum>j<n. (w(i := y)) j) < (\<Sum>j<n. w j)"
  using assms by (intro sum_strict_mono_ex1) auto

lemma weight_upd:
  assumes "i < length fs" "pc_weight p < pc_weight (at s i)" "at s' = (at s)(i := p)" "cause s \<noteq> None \<Longrightarrow> cause s' \<noteq> None"
  shows "dag_weight fs s' < dag_weight fs s"
proof -
  have e: "(\<lambda>j. pc_weight (at s' j)) = (\<lambda>j. pc_weight (at s j))(i := pc_weight p)" using assms(3) by auto
  have "(\<Sum>j<length fs. pc_weight (at s' j)) < (\<Sum>j<length fs. pc_weight (at s j))"
    unfolding e using assms(1,2) by (rule sum_upd)
  then show ?thesis using assms(4) unfolding dag_weight_def by (cases "cause s = None") auto
qed

lemma dag_step_weight:
  assumes "dag_step f sharedState fs s s'"
  shows "dag_weight fs s' < dag_weight fs s"
  using assms
proof cases
  case (parent c)
  then show ?thesis by (simp add: dag_weight_def)
qed (auto intro!: weight_upd split: option.splits)

text \<open>Unless all have exited, some goroutine can take a step.\<close>

lemma dag_progress:
  assumes inv: "dag_inv fs s" and w: "well_ordered fs" and "\<not> all_exited fs s"
  shows "\<exists>s'. dag_step f sharedState fs s s'"
proof -
  let ?S = "{i. i < length fs \<and> at s i \<noteq> Exited}"
  have "?S \<noteq> {}" using assms(3) by (auto simp: all_exited_def list_all_iff)
  then obtain i where i: "i < length fs" "at s i \<noteq> Exited" "dep_ids fs i \<inter> ?S = {}"
    using setup_order.unblocked[of ?S fs] by blast
  have dep: "d \<in> closed s" if d: "d \<in> deps_of fs i" for d
  proof -
    obtain j where j: "j < i" "NName (fs ! j) = d" "j \<in> dep_ids fs i" using well_ordered_dep[OF w i(1) d] .
    then have "at s j = Exited" using i by auto
    then show ?thesis using j i(1) inv by (auto simp: dag_inv_def closed_inv_def)
  qed
  note n = node_inv_at[OF inv i(1)]
  show ?thesis
  proof (cases "at s i")
    case (Waits ds)
    show ?thesis
    proof (cases ds)
      case Nil
      then show ?thesis using dag_step.enter[OF i(1)] Waits by blast
    next
      case (Cons d ds')
      then have "d \<in> closed s" using n Waits dep by auto
      then show ?thesis using dag_step.dep_done[OF i(1)] Waits Cons by blast
    qed
  next
    case (Checks d ds)
    then show ?thesis using dag_step.dep_ok[OF i(1) Checks] dag_step.dep_failed[OF i(1) Checks]
      by (cases "errs s d") blast+
  next
    case InSetup
    obtain oc evs where o: "setupNodeDAG f sharedState (fs ! i) undefined = (oc, evs)" by fastforce
    then show ?thesis
      using dag_step.set_up[OF i(1) InSetup o] dag_step.set_up_failed[OF i(1) InSetup o]
      by (cases "setup_error (fs ! i) oc") blast+
  next
    case (Cancels e)
    then show ?thesis using dag_step.cancel[OF i(1)] by blast
  next
    case Closing
    then show ?thesis using dag_step.close_done[OF i(1) Closing] not_closed_yet[OF inv w i(1,2)] by blast
  qed (use i in simp)
qed

lemma dag_run_length: "((dag_step f sharedState fs) ^^ n) s s' \<Longrightarrow> n + dag_weight fs s' \<le> dag_weight fs s"
proof (induction n arbitrary: s')
  case (Suc n)
  then obtain u where "((dag_step f sharedState fs) ^^ n) s u" "dag_step f sharedState fs u s'" by auto
  then show ?case using Suc.IH dag_step_weight by fastforce
qed simp

lemma dag_reach_rtranclp: "(dag_step f sharedState fs)\<^sup>*\<^sup>* s s' \<Longrightarrow> dag_reach f sharedState fs s \<Longrightarrow> dag_reach f sharedState fs s'"
  by (induction rule: rtranclp_induct) (auto intro: dag_reach.next_step)

lemma dag_finishes:
  "dag_reach f sharedState fs s \<Longrightarrow> well_ordered fs \<Longrightarrow>
   \<exists>s'. (dag_step f sharedState fs)\<^sup>*\<^sup>* s s' \<and> all_exited fs s'"
proof (induction "dag_weight fs s" arbitrary: s rule: less_induct)
  case less
  show ?case
  proof (cases "all_exited fs s")
    case False
    then obtain u where u: "dag_step f sharedState fs s u"
      using dag_progress[OF dag_reach_inv[OF less.prems] less.prems(2)] by blast
    then obtain s' where "(dag_step f sharedState fs)\<^sup>*\<^sup>* u s'" "all_exited fs s'"
      using less.hyps[OF dag_step_weight[OF u] dag_reach.next_step[OF less.prems(1) u] less.prems(2)] by blast
    then show ?thesis using u by (meson converse_rtranclp_into_rtranclp)
  qed auto
qed

text \<open>
  C8: the setup never deadlocks and always ends: from every state it can reach all goroutines can
  run to their end, whatever the interleaving so far, and no run takes more than five steps for each
  fixture, two for each dependency, and one.
\<close>
theorem setup_always_ends:
  assumes "dag_reach f sharedState fs s" "well_ordered fs"
  shows "(\<exists>s'. (dag_step f sharedState fs)\<^sup>*\<^sup>* s s' \<and> all_exited fs s') \<and>
    (((dag_step f sharedState fs) ^^ n) (dag_start fs) s' \<longrightarrow>
       n \<le> (\<Sum>i<length fs. 2 * length (DependsOn (fs ! i)) + 5) + 1)"
proof -
  have "dag_weight fs (dag_start fs) = (\<Sum>i<length fs. 2 * length (DependsOn (fs ! i)) + 5) + 1"
    by (simp add: dag_weight_def dag_start_def)
  then show ?thesis using dag_finishes[OF assms] dag_run_length[of n f sharedState fs "dag_start fs" s'] by fastforce
qed

subsection \<open>The error of the setup\<close>

lemma first_error_found:
  "first_error es fe fs = Some e \<Longrightarrow> list_all (\<lambda>n. case es (NName n) of Some x \<Rightarrow> \<not> is_canceled x | None \<Rightarrow> True) fs \<Longrightarrow>
   fe = Some e \<or> (\<exists>i < length fs. es (NName (fs ! i)) = Some e \<and> (\<forall>j<i. es (NName (fs ! j)) = None))"
proof (induction es fe fs rule: first_error.induct)
  case (2 es fe n ns)
  show ?case
  proof (cases "es (NName n)")
    case None
    then have "fe = Some e \<or> (\<exists>i < length ns. es (NName (ns ! i)) = Some e \<and> (\<forall>j<i. es (NName (ns ! j)) = None))"
      using 2 by simp
    then show ?thesis
    proof
      assume "\<exists>i < length ns. es (NName (ns ! i)) = Some e \<and> (\<forall>j<i. es (NName (ns ! j)) = None)"
      then obtain i where "i < length ns" "es (NName (ns ! i)) = Some e" "\<forall>j<i. es (NName (ns ! j)) = None" by blast
      then show ?thesis using None by (intro disjI2 exI[of _ "Suc i"]) (auto simp: less_Suc_eq_0_disj)
    qed simp
  next
    case (Some x)
    then show ?thesis using 2 by (intro disjI2 exI[of _ 0]) (auto split: if_splits)
  qed
qed simp

lemma first_error_None: "first_error es fe fs = None \<longleftrightarrow> fe = None \<and> list_all (\<lambda>n. es (NName n) = None) fs"
  by (induction es fe fs rule: first_error.induct) (auto split: option.splits)
lemma exited_settled: "dag_inv fs s \<Longrightarrow> all_exited fs s \<Longrightarrow> i < length fs \<Longrightarrow> settled fs s i"
  using node_inv_at[of fs s i] by (auto simp: all_exited_def list_all_iff)

definition own_error :: "FixtureNode list \<Rightarrow> dag_state \<Rightarrow> gerr \<Rightarrow> bool" where
  "own_error fs s e \<longleftrightarrow> list_ex (\<lambda>i. own fs s i e) [0..<length fs]"

lemma own_errorI: "i < length fs \<Longrightarrow> own fs s i e \<Longrightarrow> own_error fs s e"
  by (auto simp: own_error_def list_ex_iff)

lemma recorded_error:
  assumes inv: "dag_inv fs s" and ex: "all_exited fs s" and ni: "\<not> interrupted s" and i: "i < length fs"
    and e: "errs s (NName (fs ! i)) = Some e"
  shows "own_error fs s e \<or> (\<exists>d \<in> deps_of fs i. e = Skipped d \<and> d \<in> closed s \<and> errs s d \<noteq> None)"
proof -
  have "settled fs s i" by (rule exited_settled[OF inv ex i])
  then consider "own fs s i e" | "skipped fs s i e" | "cause s = Some e" using e by (auto simp: settled_def)
  then show ?thesis
  proof cases
    case 1
    then show ?thesis using own_errorI[OF i] by blast
  next
    case 2
    then show ?thesis by (auto simp: skipped_def)
  next
    case 3
    then show ?thesis using inv ni by (auto simp: dag_inv_def cause_inv_def intro: own_errorI)
  qed
qed

text \<open>
  C9: the error is the cause: once all have exited and unless the caller's context ended, the setup
  succeeds exactly when every fixture's own setup ran and succeeded; and when no fixture failed with
  a cancellation, the error returned is one a fixture's own setup failed with, never one of a fixture
  that was skipped.
\<close>
theorem setup_error_is_causal:
  assumes "dag_reach f sharedState fs s" "well_ordered fs" "all_exited fs s" "\<not> interrupted s"
  shows "(first_error (errs s) None fs = None \<longleftrightarrow>
      list_all (\<lambda>i. \<exists>oc. ended s i = Some oc \<and> setup_error (fs ! i) oc = None) [0..<length fs]) \<and>
    ((\<forall>e. own_error fs s e \<longrightarrow> \<not> is_canceled e) \<longrightarrow> first_error (errs s) None fs = Some e \<longrightarrow> own_error fs s e)"
proof (intro conjI impI)
  note inv = dag_reach_inv[OF assms(1,2)]
  have "errs s (NName (fs ! i)) = None \<longleftrightarrow> (\<exists>oc. ended s i = Some oc \<and> setup_error (fs ! i) oc = None)"
    if i: "i < length fs" for i
    using exited_settled[OF inv assms(3) i]
    by (auto simp: settled_def own_def skipped_def split: option.splits)
  then show "first_error (errs s) None fs = None \<longleftrightarrow>
      list_all (\<lambda>i. \<exists>oc. ended s i = Some oc \<and> setup_error (fs ! i) oc = None) [0..<length fs]"
    by (auto simp: first_error_None list_all_length list_all_iff in_set_conv_nth)
next
  note inv = dag_reach_inv[OF assms(1,2)]
  assume nc: "\<forall>e. own_error fs s e \<longrightarrow> \<not> is_canceled e" and fe: "first_error (errs s) None fs = Some e"
  have "case errs s (NName (fs ! i)) of Some x \<Rightarrow> \<not> is_canceled x | None \<Rightarrow> True" if i: "i < length fs" for i
    using recorded_error[OF inv assms(3,4) i] nc by (auto simp: is_canceled_def split: option.splits)
  then obtain i where i: "i < length fs" "errs s (NName (fs ! i)) = Some e" "\<forall>j<i. errs s (NName (fs ! j)) = None"
    using first_error_found[OF fe] by (auto simp: list_all_length)
  then consider "own_error fs s e" | d where "d \<in> deps_of fs i" "errs s d \<noteq> None"
    using recorded_error[OF inv assms(3,4) i(1,2)] by blast
  then show "own_error fs s e"
  proof cases
    case 2
    then obtain j where "j < i" "NName (fs ! j) = d" using well_ordered_dep[OF assms(2) i(1)] by metis
    then show ?thesis using i(3) 2 by auto
  qed
qed

subsection \<open>A scheduler\<close>

text \<open>
  The step relation as a function of the scheduler's choices, to run it on concrete fixtures: \<open>Take i\<close>
  lets goroutine \<open>i\<close> go on, \<open>Yield i\<close> lets it see the cancelled context, \<open>Run i env\<close> runs its setup.
\<close>

datatype choice = Take nat | Yield nat | Run nat node_env

definition take_choice :: "FixtureNode list \<Rightarrow> nat \<Rightarrow> dag_state \<Rightarrow> dag_state option" where
  "take_choice fs i s =
     (if i < length fs then case at s i of
        Waits [] \<Rightarrow> Some (s\<lparr>at := (at s)(i := InSetup)\<rparr>)
      | Waits (d # ds) \<Rightarrow> if d \<in> closed s then Some (s\<lparr>at := (at s)(i := Checks d ds)\<rparr>) else None
      | Checks d ds \<Rightarrow>
          (case errs s d of
             None \<Rightarrow> Some (s\<lparr>at := (at s)(i := Waits ds)\<rparr>)
           | Some e \<Rightarrow> Some (s\<lparr>errs := (errs s)(NName (fs ! i) \<mapsto> Skipped d), at := (at s)(i := Cancels (Skipped d))\<rparr>))
      | Cancels e \<Rightarrow> Some (s\<lparr>cause := (case cause s of None \<Rightarrow> Some e | Some c \<Rightarrow> Some c), at := (at s)(i := Closing)\<rparr>)
      | Closing \<Rightarrow>
          if NName (fs ! i) \<notin> closed s
          then Some (s\<lparr>closed := insert (NName (fs ! i)) (closed s), at := (at s)(i := Exited)\<rparr>) else None
      | _ \<Rightarrow> None else None)"

definition yield_choice :: "FixtureNode list \<Rightarrow> nat \<Rightarrow> dag_state \<Rightarrow> dag_state option" where
  "yield_choice fs i s =
     (if i < length fs then case (at s i, cause s) of
        (Waits (d # ds), Some c) \<Rightarrow> Some (s\<lparr>errs := (errs s)(NName (fs ! i) \<mapsto> c), at := (at s)(i := Closing)\<rparr>)
      | _ \<Rightarrow> None else None)"

definition run_choice :: "scale \<Rightarrow> (string \<Rightarrow> bool) \<Rightarrow> FixtureNode list \<Rightarrow> nat \<Rightarrow> node_env \<Rightarrow> dag_state \<Rightarrow> dag_state option" where
  "run_choice f sharedState fs i env s =
     (if i < length fs \<and> at s i = InSetup then
        (let (oc, evs) = setupNodeDAG f sharedState (fs ! i) env in
         case setup_error (fs ! i) oc of
           None \<Rightarrow> Some (s\<lparr>at := (at s)(i := Closing), attempted := (attempted s)(i := tracked (attempted s i) evs),
             ended := (ended s)(i \<mapsto> oc)\<rparr>)
         | Some e \<Rightarrow> Some (s\<lparr>at := (at s)(i := Cancels e), errs := (errs s)(NName (fs ! i) \<mapsto> e),
             attempted := (attempted s)(i := tracked (attempted s i) evs), ended := (ended s)(i \<mapsto> oc)\<rparr>))
      else None)"

fun dag_run :: "scale \<Rightarrow> (string \<Rightarrow> bool) \<Rightarrow> FixtureNode list \<Rightarrow> choice list \<Rightarrow> dag_state \<Rightarrow> dag_state option" where
  "dag_run f sharedState fs [] s = Some s"
| "dag_run f sharedState fs (c # cs) s =
     (case (case c of Take i \<Rightarrow> take_choice fs i s | Yield i \<Rightarrow> yield_choice fs i s
                    | Run i env \<Rightarrow> run_choice f sharedState fs i env s) of
        None \<Rightarrow> None | Some s' \<Rightarrow> dag_run f sharedState fs cs s')"

lemma cancel_step:
  "i < length fs \<Longrightarrow> at s i = Cancels e \<Longrightarrow> cause s = None \<Longrightarrow>
   dag_step f sharedState fs s (s\<lparr>cause := Some e, at := (at s)(i := Closing)\<rparr>)"
  "i < length fs \<Longrightarrow> at s i = Cancels e \<Longrightarrow> cause s = Some c \<Longrightarrow>
   dag_step f sharedState fs s (s\<lparr>cause := Some c, at := (at s)(i := Closing)\<rparr>)"
  using dag_step.cancel[of i fs s e f sharedState] by simp_all

lemma take_choice_step: "take_choice fs i s = Some s' \<Longrightarrow> dag_step f sharedState fs s s'"
  unfolding take_choice_def
  by (simp split: if_splits pc.splits list.splits option.splits) (auto intro: dag_step.intros cancel_step)

lemma yield_choice_step: "yield_choice fs i s = Some s' \<Longrightarrow> dag_step f sharedState fs s s'"
  unfolding yield_choice_def
  by (simp split: if_splits pc.splits list.splits option.splits) (auto intro: dag_step.intros)

lemma run_choice_step: "run_choice f sharedState fs i env s = Some s' \<Longrightarrow> dag_step f sharedState fs s s'"
  unfolding run_choice_def
  by (simp split: if_splits prod.splits option.splits) (auto intro: dag_step.intros)

lemma dag_run_reach:
  "dag_run f sharedState fs cs s = Some s' \<Longrightarrow> dag_reach f sharedState fs s \<Longrightarrow> dag_reach f sharedState fs s'"
proof (induction cs arbitrary: s)
  case (Cons c cs)
  then obtain u where "dag_step f sharedState fs s u" "dag_run f sharedState fs cs u = Some s'"
    by (cases c) (auto split: option.splits intro: take_choice_step yield_choice_step run_choice_step)
  then show ?case using Cons.IH Cons.prems(2) dag_reach.next_step by blast
qed simp

subsection \<open>Two fixtures that fail, and the one between\<close>

definition plain_node :: "string \<Rightarrow> string list \<Rightarrow> FixtureNode" where
  "plain_node n ds = \<lparr>NName = n, Config = DefaultFixtureConfig, NBudget = 0, NBeforeAll = True, NAfterAll = True,
     SharedState = None, DependsOn = ds\<rparr>"

definition ends_with :: "gerr option \<Rightarrow> node_env" where
  "ends_with e = \<lparr>inits = None, unmarshals = None, hydrates = Returns None, ctx_at_start = None,
     attempts_of = (\<lambda>k. \<lparr>before_ends = Returns e, before_expired = False, before_took = 0, parent_at_verdict = None,
       parent_after = None, delay_cut = None, delay_took = 0,
       releases = \<lparr>after_ends = Returns None, after_expired = False, after_took = 0\<rparr>, parent_released = None\<rparr>)\<rparr>"

definition three_nodes :: "FixtureNode list" where
  "three_nodes = [plain_node ''db'' [], plain_node ''api'' [''db''], plain_node ''queue'' []]"

definition two_choices :: "choice list" where
  "two_choices = [Take 0, Run 0 (ends_with None), Take 0, Take 1, Take 1]"

text \<open>\<open>queue\<close> fails while \<open>db\<close> is in its setup, which then ends with the cancellation.\<close>

definition lost_choices :: "choice list" where
  "lost_choices = [Take 0, Take 2, Run 2 (ends_with (Some (UserErr ''refused''))), Take 2, Run 0 (ends_with (Some Canceled)),
     Take 0, Take 0, Take 1, Take 1, Take 1, Take 1, Take 2]"

definition causal_choices :: "choice list" where
  "causal_choices = [Take 0, Run 0 (ends_with None), Take 0, Take 2, Run 2 (ends_with (Some (UserErr ''refused''))), Take 2,
     Yield 1, Take 1, Take 2]"

lemma reached: "dag_run None (\<lambda>k. False) three_nodes cs (dag_start three_nodes) = Some s \<Longrightarrow> dag_reach None (\<lambda>k. False) three_nodes s"
  using dag_run_reach dag_reach.start by blast

lemma well_ordered_three: "well_ordered three_nodes" by code_simp

definition state_after :: "choice list \<Rightarrow> dag_state" where
  "state_after cs = the (dag_run None (\<lambda>k. False) three_nodes cs (dag_start three_nodes))"

lemma state_after_reach:
  "dag_run None (\<lambda>k. False) three_nodes cs (dag_start three_nodes) \<noteq> None \<Longrightarrow>
   dag_reach None (\<lambda>k. False) three_nodes (state_after cs)"
  using reached by (auto simp: state_after_def)

lemma setup_after_dependencies_witness:
  "\<exists>j < length three_nodes. NName (three_nodes ! j) = ''db'' \<and> at (state_after (two_choices @ [Take 1])) j = Exited"
proof -
  have r: "dag_reach None (\<lambda>k. False) three_nodes (state_after (two_choices @ [Take 1]))"
    by (rule state_after_reach) code_simp
  have "at (state_after (two_choices @ [Take 1])) 1 = InSetup" by code_simp
  moreover have "''db'' \<in> set (DependsOn (three_nodes ! 1))" "1 < length three_nodes" by code_simp+
  ultimately show ?thesis using setup_after_dependencies[OF r well_ordered_three, of 1 "''db''"] by blast
qed

lemma setup_always_ends_witness: "\<exists>s'. (dag_step None (\<lambda>k. False) three_nodes)\<^sup>*\<^sup>* (state_after two_choices) s' \<and> all_exited three_nodes s'"
proof -
  have r: "dag_reach None (\<lambda>k. False) three_nodes (state_after two_choices)" by (rule state_after_reach) code_simp
  show ?thesis using setup_always_ends[OF r well_ordered_three] by blast
qed

lemma setup_error_is_causal_witness:
  "own_error three_nodes (state_after causal_choices) (Wrapped ''queue.BeforeAll: '' (UserErr ''refused''))"
proof -
  let ?s = "state_after causal_choices"
  have r: "dag_reach None (\<lambda>k. False) three_nodes ?s" by (rule state_after_reach) code_simp
  have ex: "all_exited three_nodes ?s" "\<not> interrupted ?s" by code_simp+
  have fe: "first_error (errs ?s) None three_nodes = Some (Wrapped ''queue.BeforeAll: '' (UserErr ''refused''))" by code_simp
  have ends: "ended ?s 0 = Some (Returns None)" "ended ?s 1 = None"
    "ended ?s 2 = Some (Returns (Some (Wrapped ''queue.BeforeAll: '' (UserErr ''refused''))))" by code_simp+
  have "[0..<length three_nodes] = [0, 1, 2]" by code_simp
  then have o: "own_error three_nodes ?s e \<Longrightarrow> e = Wrapped ''queue.BeforeAll: '' (UserErr ''refused'')" for e
    using ends by (auto simp: own_error_def own_def setup_error_def)
  have "\<not> is_canceled (Wrapped ''queue.BeforeAll: '' (UserErr ''refused''))" by code_simp
  then have "\<forall>e. own_error three_nodes ?s e \<longrightarrow> \<not> is_canceled e" using o by metis
  then show ?thesis using setup_error_is_causal[OF r well_ordered_three ex] fe by blast
qed

text \<open>
  With a cancellation among the failures the cause can be lost: \<open>queue\<close> fails, \<open>db\<close> ends its own setup
  with the cancellation that brought, \<open>api\<close> sees \<open>db\<close> done before it sees the context end, and the
  error returned says that \<open>api\<close> was skipped.
\<close>

lemma cause_can_be_lost:
  "\<exists>s. dag_reach None (\<lambda>k. False) three_nodes s \<and> all_exited three_nodes s \<and> \<not> interrupted s \<and>
     own_error three_nodes s (Wrapped ''queue.BeforeAll: '' (UserErr ''refused'')) \<and>
     first_error (errs s) None three_nodes = Some (Skipped ''db'')"
proof (intro exI conjI)
  show "dag_reach None (\<lambda>k. False) three_nodes (state_after lost_choices)" by (rule state_after_reach) code_simp
  show "all_exited three_nodes (state_after lost_choices)" "\<not> interrupted (state_after lost_choices)"
    "first_error (errs (state_after lost_choices)) None three_nodes = Some (Skipped ''db'')" by code_simp+
  have "ended (state_after lost_choices) 2 = Some (Returns (Some (Wrapped ''queue.BeforeAll: '' (UserErr ''refused''))))"
    "2 < length three_nodes" by code_simp+
  then show "own_error three_nodes (state_after lost_choices) (Wrapped ''queue.BeforeAll: '' (UserErr ''refused''))"
    by (intro own_errorI[of 2]) (auto simp: own_def setup_error_def)
qed

end
