(* ===== verification/FixtureTeardownProps.thy ===== *)
theory FixtureTeardownProps
  imports FixtureDagProps
begin

text \<open>
  The concurrent teardown: each attempted fixture is released once, dependents first; what one
  fixture takes and gives back over its life; and the longest path the teardown budget is made of.
\<close>

subsection \<open>Teardown: dependents first\<close>

lemma set_dependents: "set (dependents fs d) = {NName n | n. n \<in> set fs \<and> d \<in> set (DependsOn n)}"
  by (induction fs) (auto simp: dependents_def set_replicate_conv_if filter_empty_conv)

lemma dependent_after:
  assumes "well_ordered fs" "i < length fs" "d \<in> set (dependents fs (NName (fs ! i)))"
  obtains j where "j \<in> dependent_ids fs i" "j < length fs" "NName (fs ! j) = d"
proof -
  obtain j where j: "j < length fs" "NName (fs ! j) = d" "NName (fs ! i) \<in> deps_of fs j"
    using assms(3) by (auto simp: set_dependents in_set_conv_nth)
  then obtain k where "k < j" "NName (fs ! k) = NName (fs ! i)" by (metis well_ordered_dep[OF assms(1)])
  then have "i < j" using same_name[OF assms(1), of k i] j(1) assms(2) by auto
  then show thesis using that j by (auto simp: dependent_ids_def)
qed

fun tear_node_inv :: "FixtureNode list \<Rightarrow> (nat \<Rightarrow> bool) \<Rightarrow> tear_state \<Rightarrow> nat \<Rightarrow> tpc \<Rightarrow> bool" where
  "tear_node_inv fs att s i (TWaits ds) \<longleftrightarrow> i \<notin> set (released s) \<and>
     (\<exists>pre. dependents fs (NName (fs ! i)) = pre @ ds \<and> set pre \<subseteq> tclosed s)"
| "tear_node_inv fs att s i p \<longleftrightarrow> (i \<in> set (released s) \<longleftrightarrow> att i) \<and> set (dependents fs (NName (fs ! i))) \<subseteq> tclosed s"

definition dependents_first :: "FixtureNode list \<Rightarrow> nat list \<Rightarrow> bool" where
  "dependents_first fs is \<longleftrightarrow> sorted_wrt (\<lambda>i j. NName (fs ! i) \<notin> set (DependsOn (fs ! j))) is"

definition tear_inv :: "FixtureNode list \<Rightarrow> (nat \<Rightarrow> bool) \<Rightarrow> tear_state \<Rightarrow> bool" where
  "tear_inv fs att s \<longleftrightarrow>
     tclosed s = (\<lambda>i. NName (fs ! i)) ` {i. i < length fs \<and> tat s i = TExited} \<and>
     (\<forall>i < length fs. tear_node_inv fs att s i (tat s i)) \<and>
     distinct (released s) \<and> set (released s) \<subseteq> {..<length fs} \<and> dependents_first fs (released s)"

lemma tear_node_mono:
  "tear_node_inv fs att s i p \<Longrightarrow> tclosed s \<subseteq> tclosed s' \<Longrightarrow> (i \<in> set (released s') \<longleftrightarrow> i \<in> set (released s)) \<Longrightarrow>
   tear_node_inv fs att s' i p"
  by (cases p) auto

lemma tear_open: "tear_inv fs att s \<Longrightarrow> well_ordered fs \<Longrightarrow> i < length fs \<Longrightarrow> tat s i \<noteq> TExited \<Longrightarrow> NName (fs ! i) \<notin> tclosed s"
  using same_name by (auto simp: tear_inv_def)

lemma tear_inv_step:
  assumes inv: "tear_inv fs att s" "i < length fs" "tat s i \<noteq> TExited"
    and s': "tat s' = (tat s)(i := p)" "tear_node_inv fs att s' i p"
    and closed: "tclosed s' = (if p = TExited then insert (NName (fs ! i)) (tclosed s) else tclosed s)"
    and rel: "\<And>j. j \<noteq> i \<Longrightarrow> j \<in> set (released s') \<longleftrightarrow> j \<in> set (released s)" "distinct (released s')"
      "set (released s') \<subseteq> {..<length fs}" "dependents_first fs (released s')"
  shows "tear_inv fs att s'"
proof -
  have "tear_node_inv fs att s' j (tat s' j)" if "j < length fs" for j
  proof (cases "j = i")
    case False
    have "tear_node_inv fs att s j (tat s j)" using inv(1) that by (simp add: tear_inv_def)
    moreover have "tclosed s \<subseteq> tclosed s'" using closed by auto
    moreover have "tat s' j = tat s j" using s'(1) False by simp
    ultimately show ?thesis using tear_node_mono[OF _ _ rel(1)[OF False]] by metis
  qed (use s' in simp)
  moreover have "tclosed s' = (\<lambda>i. NName (fs ! i)) ` {i. i < length fs \<and> tat s' i = TExited}"
    using inv closed s'(1) by (auto simp: tear_inv_def)
  ultimately show ?thesis using rel(2-) by (simp add: tear_inv_def)
qed

lemma tear_inv_preserved:
  assumes w: "well_ordered fs" and inv: "tear_inv fs att s" and st: "tear_step f fs att s s'"
  shows "tear_inv fs att s'"
  using st
proof cases
  case (dependent_done i d ds)
  have "tear_node_inv fs att s i (TWaits (d # ds))" using inv dependent_done by (metis tear_inv_def)
  then obtain pre where "i \<notin> set (released s)" "dependents fs (NName (fs ! i)) = (pre @ [d]) @ ds" "set (pre @ [d]) \<subseteq> tclosed s"
    using dependent_done(4) by auto
  then have "tear_node_inv fs att s' i (TWaits ds)" unfolding dependent_done(1) tear_node_inv.simps
    by (intro conjI exI[of _ "pre @ [d]"]) auto
  then show ?thesis
    by (rule tear_inv_step[OF inv dependent_done(2), rotated 2])
      (use dependent_done inv in \<open>auto simp: tear_inv_def\<close>)
next
  case (begin_release i)
  have n: "tear_node_inv fs att s i (TWaits [])" using inv begin_release by (metis tear_inv_def)
  then have cl: "set (dependents fs (NName (fs ! i))) \<subseteq> tclosed s" and i: "i \<notin> set (released s)" by auto
  have ord: "NName (fs ! j) \<notin> deps_of fs i" if j: "j \<in> set (released s)" for j
  proof
    assume d: "NName (fs ! j) \<in> deps_of fs i"
    have jl: "j < length fs" using inv j by (auto simp: tear_inv_def)
    then have "tear_node_inv fs att s j (tat s j)" using inv by (simp add: tear_inv_def)
    then have "set (dependents fs (NName (fs ! j))) \<subseteq> tclosed s" using j by (cases "tat s j") auto
    moreover have "NName (fs ! i) \<in> set (dependents fs (NName (fs ! j)))"
      using d begin_release(2) by (auto simp: set_dependents)
    ultimately have "NName (fs ! i) \<in> tclosed s" by blast
    then show False using tear_open[OF inv w begin_release(2)] begin_release(3) by auto
  qed
  have r: "released s' = released s @ (if att i then [i] else [])" "tclosed s' = tclosed s"
    "tat s' = (tat s)(i := Releasing)" using begin_release(1) by simp_all
  have old: "distinct (released s)" "set (released s) \<subseteq> {..<length fs}" "dependents_first fs (released s)"
    using inv by (simp_all add: tear_inv_def)
  show ?thesis
  proof (rule tear_inv_step[OF inv begin_release(2)])
    show "tat s i \<noteq> TExited" using begin_release(3) by simp
    show "tat s' = (tat s)(i := Releasing)" by (rule r(3))
    show "tear_node_inv fs att s' i Releasing" using cl i r by simp
    show "tclosed s' = (if Releasing = TExited then insert (NName (fs ! i)) (tclosed s) else tclosed s)" using r(2) by simp
    show "j \<in> set (released s') \<longleftrightarrow> j \<in> set (released s)" if "j \<noteq> i" for j using r(1) that by simp
    show "distinct (released s')" using r(1) old(1) i by simp
    show "set (released s') \<subseteq> {..<length fs}" using r(1) old(2) begin_release(2) by auto
    show "dependents_first fs (released s')"
      using r(1) old(3) ord by (simp add: dependents_first_def sorted_wrt_append)
  qed
next
  case (end_release i a)
  have "tear_node_inv fs att s i Releasing" using inv end_release by (metis tear_inv_def)
  then have "tear_node_inv fs att s' i TClosing" using end_release(1) by simp
  then show ?thesis
    by (rule tear_inv_step[OF inv end_release(2), rotated 2])
      (use end_release inv in \<open>auto simp: tear_inv_def\<close>)
next
  case (tear_close i)
  have "tear_node_inv fs att s i TClosing" using inv tear_close by (metis tear_inv_def)
  then have "tear_node_inv fs att s' i TExited" using tear_close(1) by auto
  then show ?thesis
    by (rule tear_inv_step[OF inv tear_close(2), rotated 2])
      (use tear_close inv in \<open>auto simp: tear_inv_def\<close>)
qed

lemma tear_reach_inv: "tear_reach f fs att s \<Longrightarrow> well_ordered fs \<Longrightarrow> tear_inv fs att s"
proof (induction rule: tear_reach.induct)
  case tear_begin
  show ?case by (auto simp: tear_inv_def tear_start_def dependents_first_def)
qed (auto intro: tear_inv_preserved)

fun tpc_weight :: "tpc \<Rightarrow> nat" where
  "tpc_weight (TWaits ds) = length ds + 3"
| "tpc_weight Releasing = 2"
| "tpc_weight TClosing = 1"
| "tpc_weight TExited = 0"

definition tear_weight :: "FixtureNode list \<Rightarrow> tear_state \<Rightarrow> nat" where
  "tear_weight fs s = (\<Sum>i<length fs. tpc_weight (tat s i))"

lemma tear_weight_upd:
  assumes "i < length fs" "tpc_weight p < tpc_weight (tat s i)" "tat s' = (tat s)(i := p)"
  shows "tear_weight fs s' < tear_weight fs s"
proof -
  have e: "(\<lambda>j. tpc_weight (tat s' j)) = (\<lambda>j. tpc_weight (tat s j))(i := tpc_weight p)" using assms(3) by auto
  show ?thesis unfolding tear_weight_def e using assms(1,2) by (rule sum_upd)
qed

lemma tear_step_weight:
  assumes "tear_step f fs att s s'"
  shows "tear_weight fs s' < tear_weight fs s"
  using assms by cases (auto intro!: tear_weight_upd)

lemma tear_progress:
  assumes inv: "tear_inv fs att s" and w: "well_ordered fs" and "\<not> tear_done fs s"
  shows "\<exists>s'. tear_step f fs att s s'"
proof -
  let ?S = "{i. i < length fs \<and> tat s i \<noteq> TExited}"
  have "?S \<noteq> {}" using assms(3) by (auto simp: tear_done_def list_all_iff)
  then obtain i where i: "i < length fs" "tat s i \<noteq> TExited" "dependent_ids fs i \<inter> ?S = {}"
    using teardown_order.unblocked[of ?S fs] by blast
  have dep: "d \<in> tclosed s" if d: "d \<in> set (dependents fs (NName (fs ! i)))" for d
  proof -
    obtain j where j: "j \<in> dependent_ids fs i" "j < length fs" "NName (fs ! j) = d" using dependent_after[OF w i(1) d] .
    then have "tat s j = TExited" using i by auto
    then show ?thesis using j inv by (auto simp: tear_inv_def)
  qed
  have n: "tear_node_inv fs att s i (tat s i)" using inv i(1) by (simp add: tear_inv_def)
  show ?thesis
  proof (cases "tat s i")
    case (TWaits ds)
    show ?thesis
    proof (cases ds)
      case Nil
      then show ?thesis using tear_step.begin_release[OF i(1)] TWaits by blast
    next
      case (Cons d ds')
      then have "d \<in> tclosed s" using n TWaits dep by auto
      then show ?thesis using tear_step.dependent_done[OF i(1)] TWaits Cons by blast
    qed
  next
    case Releasing
    then show ?thesis using tear_step.end_release[OF i(1)] by blast
  next
    case TClosing
    then show ?thesis using tear_step.tear_close[OF i(1)] tear_open[OF inv w i(1,2)] by blast
  qed (use i in simp)
qed

lemma tear_finishes:
  "tear_reach f fs att s \<Longrightarrow> well_ordered fs \<Longrightarrow> \<exists>s'. (tear_step f fs att)\<^sup>*\<^sup>* s s' \<and> tear_done fs s'"
proof (induction "tear_weight fs s" arbitrary: s rule: less_induct)
  case less
  show ?case
  proof (cases "tear_done fs s")
    case False
    then obtain u where u: "tear_step f fs att s u"
      using tear_progress[OF tear_reach_inv[OF less.prems] less.prems(2)] by blast
    then obtain s' where "(tear_step f fs att)\<^sup>*\<^sup>* u s'" "tear_done fs s'"
      using less.hyps[OF tear_step_weight[OF u] tear_reach.tear_next[OF less.prems(1) u] less.prems(2)] by blast
    then show ?thesis using u by (meson converse_rtranclp_into_rtranclp)
  qed auto
qed

text \<open>
  C10: the teardown releases each fixture whose setup was attempted exactly once and no other, a
  dependent before what it depends on, and it always ends.
\<close>
theorem teardown_releases_all:
  assumes "tear_reach f fs att s" "well_ordered fs"
  shows "(\<exists>s'. (tear_step f fs att)\<^sup>*\<^sup>* s s' \<and> tear_done fs s') \<and> distinct (released s) \<and>
    dependents_first fs (released s) \<and> (tear_done fs s \<longrightarrow> set (released s) = {i. i < length fs \<and> att i})"
proof (intro conjI impI)
  note inv = tear_reach_inv[OF assms]
  show "\<exists>s'. (tear_step f fs att)\<^sup>*\<^sup>* s s' \<and> tear_done fs s'" by (rule tear_finishes[OF assms])
  show "distinct (released s)" "dependents_first fs (released s)" using inv by (auto simp: tear_inv_def)
  assume "tear_done fs s"
  then have "tear_node_inv fs att s i TExited" if "i < length fs" for i
    using inv that by (force simp: tear_inv_def tear_done_def list_all_iff)
  then show "set (released s) = {i. i < length fs \<and> att i}" using inv by (auto simp: tear_inv_def)
qed

lemma teardown_releases_all_witness:
  "\<exists>s'. (tear_step None three_nodes (\<lambda>i. i < 2))\<^sup>*\<^sup>* (tear_start three_nodes) s' \<and> tear_done three_nodes s'"
  using teardown_releases_all[OF tear_reach.tear_begin well_ordered_three] by blast

subsection \<open>One fixture's life\<close>

text \<open>
  C11: across its setup and the teardown pass a fixture with an \<open>AfterAll\<close> gives back exactly what its
  \<open>BeforeAll\<close> took: every \<open>BeforeAll\<close> entered, failed and panicked ones too, is followed by one
  \<open>AfterAll\<close> before the next, and nothing is released that was not acquired.
\<close>
theorem fixture_released_once:
  assumes "NAfterAll n" "SharedState n = None" "setupNodeDAG f sharedState n env = (oc, evs)"
  shows "holding False (evs @ (if tracked False evs then snd (runAfterAll f n a) else [])) = Some False"
proof -
  have h: "holding False evs = Some (tracked False evs)"
  proof (cases "inits env")
    case None
    then have "evs = snd (RunFixtureSetup f (ctx_at_start env) (node_setup n) (attempts_of env))"
      using assms(2,3) by (auto simp: setupNodeDAG_def runBeforeAllWithRetry_def split: prod.splits)
    then show ?thesis using setup_holding[of "node_setup n" f "ctx_at_start env" "attempts_of env"] assms(1)
      by (simp add: node_setup_def)
  next
    case (Some r)
    then show ?thesis using assms(2,3) by (auto simp: setupNodeDAG_def)
  qed
  obtain e where "runFixtureTeardown f \<lparr>TName = NName n, TTimeout = CTimeout (Config n), TBudget = NBudget n,
            TAfterAll = NAfterAll n\<rparr> a = (e, [After e (after_took a)])"
    using teardown_events[of "\<lparr>TName = NName n, TTimeout = CTimeout (Config n), TBudget = NBudget n,
            TAfterAll = NAfterAll n\<rparr>" f a] assms(1) by auto
  then have "snd (runAfterAll f n a) = [After e (after_took a)]" by (simp add: runAfterAll_def)
  then show ?thesis using h by (simp add: holding_append)
qed

lemma fixture_released_once_witness:
  "holding False (snd (setupNodeDAG None (\<lambda>k. False) (plain_node ''db'' []) (ends_with (Some (UserErr ''down'')))) @
     snd (runAfterAll None (plain_node ''db'' []) \<lparr>after_ends = Panics ''broken'', after_expired = False, after_took = 3\<rparr>)) = Some False"
proof -
  let ?n = "plain_node ''db'' []" and ?a = "\<lparr>after_ends = Panics ''broken'', after_expired = False, after_took = 3\<rparr>"
  obtain oc evs where o: "setupNodeDAG None (\<lambda>k. False) ?n (ends_with (Some (UserErr ''down''))) = (oc, evs)" by fastforce
  have "tracked False (snd (setupNodeDAG None (\<lambda>k. False) ?n (ends_with (Some (UserErr ''down'')))))" by code_simp
  then show ?thesis using fixture_released_once[OF _ _ o, of ?a] o by (simp add: plain_node_def)
qed
subsection \<open>The longest path\<close>

definition own_budget :: "FixtureNode list \<Rightarrow> nat \<Rightarrow> duration" where
  "own_budget fs i = SupervisorBudget (CTimeout (Config (fs ! i)))"

lemma own_budget_pos: "0 < own_budget fs i"
  by (simp add: own_budget_def SupervisorBudget_def DefaultFixtureConfig_def Minute_def Second_def)

text \<open>A chain of fixtures, each depending on the next, and what its teardown may take.\<close>

fun is_chain :: "FixtureNode list \<Rightarrow> nat list \<Rightarrow> bool" where
  "is_chain fs [] \<longleftrightarrow> True"
| "is_chain fs [i] \<longleftrightarrow> i < length fs"
| "is_chain fs (i # j # js) \<longleftrightarrow> i < length fs \<and> NName (fs ! j) \<in> set (DependsOn (fs ! i)) \<and> is_chain fs (j # js)"

definition chain_budget :: "FixtureNode list \<Rightarrow> nat list \<Rightarrow> duration" where
  "chain_budget fs is = sum_list (map (own_budget fs) is)"

function path_of :: "FixtureNode list \<Rightarrow> nat \<Rightarrow> duration" where
  "path_of fs i = own_budget fs i + Max (insert 0 (path_of fs ` dep_ids fs i))"
  by pat_completeness auto
termination by (relation "measure snd") (auto simp: dep_ids_def)

declare path_of.simps [simp del]

lemma finite_dep_ids [simp]: "finite (dep_ids fs i)"
  by (simp add: dep_ids_def)

lemma path_of_dep: "j \<in> dep_ids fs i \<Longrightarrow> own_budget fs i + path_of fs j \<le> path_of fs i"
  by (subst (2) path_of.simps) simp

lemma path_of_own: "own_budget fs i \<le> path_of fs i"
  by (subst path_of.simps) simp

lemma path_of_pos: "0 < path_of fs i"
  using own_budget_pos[of fs i] path_of_own[of fs i] by linarith

lemma path_of_reached: "path_of fs i = own_budget fs i \<or> (\<exists>j \<in> dep_ids fs i. path_of fs i = own_budget fs i + path_of fs j)"
proof -
  have "Max (insert 0 (path_of fs ` dep_ids fs i)) \<in> insert 0 (path_of fs ` dep_ids fs i)" by (rule Max_in) auto
  then show ?thesis by (subst (1 2) path_of.simps) auto
qed

lemma chain_le_path: "well_ordered fs \<Longrightarrow> is_chain fs (i # is) \<Longrightarrow> chain_budget fs (i # is) \<le> path_of fs i"
proof (induction "is" arbitrary: i)
  case Nil
  then show ?case using path_of_own by (simp add: chain_budget_def)
next
  case (Cons j js)
  have i: "i < length fs" "NName (fs ! j) \<in> deps_of fs i" "is_chain fs (j # js)" using Cons.prems by auto
  have j: "j < length fs" using i(3) by (cases js) auto
  obtain k where k: "k < i" "NName (fs ! k) = NName (fs ! j)" "k \<in> dep_ids fs i"
    using well_ordered_dep[OF Cons.prems(1) i(1,2)] .
  have "k = j" using same_name[OF Cons.prems(1), of k j] k i(1) j by auto
  then show ?case using path_of_dep[OF k(3)] Cons.IH[OF Cons.prems(1) i(3)] by (simp add: chain_budget_def)
qed

lemma path_is_chain: "well_ordered fs \<Longrightarrow> i < length fs \<Longrightarrow> \<exists>is. is_chain fs (i # is) \<and> chain_budget fs (i # is) = path_of fs i"
proof (induction i rule: less_induct)
  case (less i)
  from path_of_reached[of fs i] show ?case
  proof
    assume "path_of fs i = own_budget fs i"
    then show ?thesis using less.prems by (intro exI[of _ "[]"]) (simp add: chain_budget_def)
  next
    assume "\<exists>j \<in> dep_ids fs i. path_of fs i = own_budget fs i + path_of fs j"
    then obtain j where j: "j \<in> dep_ids fs i" "path_of fs i = own_budget fs i + path_of fs j" by blast
    then have jl: "j < i" "NName (fs ! j) \<in> deps_of fs i" by (auto simp: dep_ids_def)
    then obtain js where "is_chain fs (j # js)" "chain_budget fs (j # js) = path_of fs j"
      using less.IH[of j] less.prems by auto
    then show ?thesis using j(2) jl less.prems(2) by (intro exI[of _ "j # js"]) (simp add: chain_budget_def)
  qed
qed

text \<open>The cache holds nothing but paths, and what was visited and is not cached lies above.\<close>

definition good_cache :: "FixtureNode list \<Rightarrow> (string \<rightharpoonup> duration) \<Rightarrow> bool" where
  "good_cache fs cache \<longleftrightarrow> (\<forall>i < length fs. \<forall>d. cache (NName (fs ! i)) = Some d \<longrightarrow> d = path_of fs i)"

definition visited_above :: "FixtureNode list \<Rightarrow> nat \<Rightarrow> (string \<rightharpoonup> duration) \<Rightarrow> string set \<Rightarrow> bool" where
  "visited_above fs i cache vis \<longleftrightarrow> (\<forall>j < i. NName (fs ! j) \<in> vis \<longrightarrow> cache (NName (fs ! j)) \<noteq> None)"

lemma byName_nth: "well_ordered fs \<Longrightarrow> i < length fs \<Longrightarrow> byName fs (NName (fs ! i)) = Some (fs ! i)"
  unfolding byName_def well_ordered_def
  by (intro map_of_is_SomeI) (auto simp: comp_def rev_map[symmetric] distinct_rev)

definition visits :: "FixtureNode list \<Rightarrow> (string \<rightharpoonup> duration) \<times> string set \<Rightarrow> (string \<rightharpoonup> duration) \<times> string set \<Rightarrow> bool" where
  "visits fs st st' \<longleftrightarrow> good_cache fs (fst st') \<and> dom (fst st) \<subseteq> dom (fst st') \<and> snd st' \<subseteq> snd st \<union> dom (fst st')"

lemma visits_above:
  "visits fs st st' \<Longrightarrow> visited_above fs i (fst st) (snd st) \<Longrightarrow> visited_above fs i (fst st') (snd st')"
  unfolding visits_def visited_above_def by (auto simp: dom_def subset_iff)

lemma visits_trans: "visits fs st st' \<Longrightarrow> visits fs st' st'' \<Longrightarrow> visits fs st st''"
  unfolding visits_def by blast

lemma if_max: "(if (b::duration) > a then b else a) = max a b"
  by simp

lemma longest_dep_paths:
  assumes IH: "\<And>j st. j < i \<Longrightarrow> good_cache fs (fst st) \<Longrightarrow> visited_above fs (Suc j) (fst st) (snd st) \<Longrightarrow>
      \<exists>st'. longest_path nodes fuel (NName (fs ! j)) st = Some (path_of fs j, st') \<and> visits fs st st'"
  shows "list_all (\<lambda>j. j < i) js \<Longrightarrow> good_cache fs (fst st) \<Longrightarrow> visited_above fs i (fst st) (snd st) \<Longrightarrow>
    \<exists>st'. longest_dep nodes fuel (map (\<lambda>j. NName (fs ! j)) js) m st = Some (foldl max m (map (path_of fs) js), st') \<and> visits fs st st'"
proof (induction js arbitrary: m st)
  case Nil
  then show ?case by (auto simp: visits_def)
next
  case (Cons j js)
  have "visited_above fs (Suc j) (fst st) (snd st)" using Cons.prems by (auto simp: visited_above_def)
  then obtain st' where st': "longest_path nodes fuel (NName (fs ! j)) st = Some (path_of fs j, st')" "visits fs st st'"
    using IH[of j st] Cons.prems by auto
  then have g: "good_cache fs (fst st')" "visited_above fs i (fst st') (snd st')"
    using visits_above[OF st'(2) Cons.prems(3)] by (auto simp: visits_def)
  obtain st'' where "longest_dep nodes fuel (map (\<lambda>j. NName (fs ! j)) js) (max m (path_of fs j)) st' =
      Some (foldl max (max m (path_of fs j)) (map (path_of fs) js), st'')" "visits fs st' st''"
    using Cons.IH[OF _ g, of "max m (path_of fs j)"] Cons.prems(1) by auto
  then show ?case using st' visits_trans[of fs st st' st''] by (auto simp: if_max simp del: longest_path.simps)
qed

lemma foldl_max_Max: "foldl max m xs = Max (insert (m::duration) (set xs))"
proof -
  have "(\<lambda>x s. max s x) = (max :: duration \<Rightarrow> _)" by (auto simp: max.commute)
  then show ?thesis using Max.set_eq_fold[of m xs] by (simp add: foldl_conv_fold)
qed

lemma longest_path_correct:
  assumes w: "well_ordered fs"
  shows "i < length fs \<Longrightarrow> i < fuel \<Longrightarrow> good_cache fs (fst st) \<Longrightarrow> visited_above fs (Suc i) (fst st) (snd st) \<Longrightarrow>
    \<exists>st'. longest_path (byName fs) fuel (NName (fs ! i)) st = Some (path_of fs i, st') \<and> visits fs st st'"
proof (induction i arbitrary: fuel st rule: less_induct)
  case (less i)
  obtain cache vis where st: "st = (cache, vis)" by fastforce
  show ?case
  proof (cases "cache (NName (fs ! i))")
    case (Some d)
    then have "d = path_of fs i" using less.prems(1,3) st by (auto simp: good_cache_def)
    then show ?thesis using Some st less.prems(3) by (intro exI[of _ st]) (auto simp: visits_def)
  next
    case None
    then have nv: "NName (fs ! i) \<notin> vis" using less.prems(4) st by (auto simp: visited_above_def)
    obtain fuel' where fuel: "fuel = Suc fuel'" "i \<le> fuel'" using less.prems(2) by (cases fuel) auto
    have "\<exists>j. j \<in> dep_ids fs i \<and> NName (fs ! j) = d" if "d \<in> deps_of fs i" for d
      using well_ordered_dep[OF w less.prems(1) that] by blast
    then obtain g where g: "\<forall>d \<in> deps_of fs i. g d \<in> dep_ids fs i \<and> NName (fs ! g d) = d" by metis
    define js where "js = map g (DependsOn (fs ! i))"
    have names: "map (\<lambda>j. NName (fs ! j)) js = DependsOn (fs ! i)" using g by (simp add: js_def map_idI)
    have "set js \<subseteq> dep_ids fs i" using g by (auto simp: js_def)
    moreover have "dep_ids fs i \<subseteq> set js"
    proof
      fix j assume j: "j \<in> dep_ids fs i"
      then have "NName (fs ! j) \<in> (\<lambda>j. NName (fs ! j)) ` set js" using names by (auto simp: dep_ids_def simp flip: set_map)
      then obtain k where k: "k \<in> set js" "NName (fs ! j) = NName (fs ! k)" by auto
      then have "k = j" using same_name[OF w, of j k] j \<open>set js \<subseteq> dep_ids fs i\<close> by (auto simp: dep_ids_def)
      then show "j \<in> set js" using k by simp
    qed
    ultimately have set_js: "set js = dep_ids fs i" by blast
    then have "list_all (\<lambda>j. j < i) js" by (auto simp: list_all_iff dep_ids_def)
    moreover have "visited_above fs i cache (insert (NName (fs ! i)) vis)"
      using less.prems(1,4) st same_name[OF w _ less.prems(1)] by (auto simp: visited_above_def)
    moreover have "\<exists>st'. longest_path (byName fs) fuel' (NName (fs ! j)) st = Some (path_of fs j, st') \<and> visits fs st st'"
      if "j < i" "good_cache fs (fst st)" "visited_above fs (Suc j) (fst st) (snd st)" for j st
      using less.IH[of j fuel' st] that less.prems(1) fuel by auto
    ultimately obtain st' where st': "longest_dep (byName fs) fuel' (DependsOn (fs ! i)) 0 (cache, insert (NName (fs ! i)) vis) =
        Some (foldl max 0 (map (path_of fs) js), st')" "visits fs (cache, insert (NName (fs ! i)) vis) st'"
      using longest_dep_paths[of i fs "byName fs" fuel' js "(cache, insert (NName (fs ! i)) vis)" 0] less.prems(3) st names by auto
    have m: "own_budget fs i + foldl max 0 (map (path_of fs) js) = path_of fs i"
      by (subst path_of.simps) (simp add: foldl_max_Max set_js)
    obtain cache' vis' where c': "st' = (cache', vis')" by fastforce
    have "longest_path (byName fs) fuel (NName (fs ! i)) st = Some (path_of fs i, cache'(NName (fs ! i) \<mapsto> path_of fs i), vis')"
      using None nv st st'(1) c' byName_nth[OF w less.prems(1)] fuel m by (simp add: own_budget_def Let_def)
    moreover have "visits fs st (cache'(NName (fs ! i) \<mapsto> path_of fs i), vis')"
      using st'(2) c' st same_name[OF w _ less.prems(1)] by (auto simp: visits_def good_cache_def)
    ultimately show ?thesis by blast
  qed
qed

lemma max_path_paths:
  assumes w: "well_ordered fs"
  shows "i \<le> length fs \<Longrightarrow> good_cache fs (fst st) \<Longrightarrow> visited_above fs (length fs) (fst st) (snd st) \<Longrightarrow>
    max_path (byName fs) (length fs) (drop i fs) m st = Some (foldl max m (map (path_of fs) [i..<length fs]))"
proof (induction "length fs - i" arbitrary: i m st)
  case (Suc k)
  then have i: "i < length fs" by simp
  have "visited_above fs (Suc i) (fst st) (snd st)" using Suc.prems(3) i by (auto simp: visited_above_def)
  then obtain st' where st': "longest_path (byName fs) (length fs) (NName (fs ! i)) st = Some (path_of fs i, st')" "visits fs st st'"
    using longest_path_correct[OF w i i Suc.prems(2)] by blast
  have "max_path (byName fs) (length fs) (drop (Suc i) fs) (max m (path_of fs i)) st' =
      Some (foldl max (max m (path_of fs i)) (map (path_of fs) [Suc i..<length fs]))"
    by (rule Suc.hyps(1)) (use Suc.hyps(2) i st'(2) visits_above[OF st'(2) Suc.prems(3)] in \<open>auto simp: visits_def\<close>)
  then show ?case
    using st'(1) i by (simp add: Cons_nth_drop_Suc[symmetric] upt_conv_Cons if_max del: longest_path.simps)
qed simp



end
