(* ===== verification/StopRun.thy ===== *)
theory StopRun
  imports FixtureDag
begin

text \<open>
  Stopping a run: \<^verbatim>\<open>pkg/gotestruntime/stop.go\<close>, the bodies it waits for
  (\<^verbatim>\<open>internal/runstate/bodies.go\<close>), the holds it releases (\<^verbatim>\<open>hold.go\<close>) and the setup it refuses or
  waits for (\<open>setupFixtureDAG\<close> of \<^verbatim>\<open>runtime.go\<close>).  What the clock, the file system and the operating
  system report is an argument: one record for each look the code takes.
\<close>

subsection \<open>Bodies\<close>

record body =
  owner :: nat
  kind :: string
  started :: int

record bodies_state =
  next_body :: nat
  running :: "(nat \<times> body) list"

definition EnterBody :: "nat \<Rightarrow> string \<Rightarrow> int \<Rightarrow> bodies_state \<Rightarrow> nat \<times> bodies_state" where
  "EnterBody ow k now s = (next_body s,
     s\<lparr>next_body := next_body s + 1, running := running s @ [(next_body s, \<lparr>owner = ow, kind = k, started = now\<rparr>)]\<rparr>)"

definition exit_body :: "nat \<Rightarrow> bodies_state \<Rightarrow> bodies_state" where
  "exit_body i s = s\<lparr>running := filter (\<lambda>(j, b). j \<noteq> i) (running s)\<rparr>"

definition Bodies :: "nat option \<Rightarrow> bodies_state \<Rightarrow> nat" where
  "Bodies except s = length (filter (\<lambda>(i, b). except = None \<or> Some (owner b) \<noteq> except) (running s))"

text \<open>The bodies in the order the map's iteration happens to take.\<close>

fun Overdue :: "int \<Rightarrow> duration \<Rightarrow> int \<Rightarrow> nat option \<Rightarrow> body list \<Rightarrow> string" where
  "Overdue stopAt grace now except [] = []"
| "Overdue stopAt grace now except (b # bs) =
     (if except \<noteq> None \<and> Some (owner b) = except then Overdue stopAt grace now except bs
      else let from = (if started b > stopAt then started b else stopAt)
           in if now - from > grace then kind b else Overdue stopAt grace now except bs)"

subsection \<open>The release bound\<close>

record budget_state =
  maxBudget :: duration
  maxReserve :: duration

definition recordReserve :: "duration \<Rightarrow> budget_state \<Rightarrow> budget_state" where
  "recordReserve d s = (if d > maxReserve s then s\<lparr>maxReserve := d\<rparr> else s)"

definition recordBudget :: "duration \<Rightarrow> budget_state \<Rightarrow> duration \<times> budget_state" where
  "recordBudget d s = (let s = (if d > maxBudget s then s\<lparr>maxBudget := d\<rparr> else s) in (maxBudget s, s))"

definition releaseBound :: "budget_state \<Rightarrow> duration" where
  "releaseBound s =
     (let b = maxBudget s in
      if b \<le> 0 then 2 * Minute else if b > 10 * Second then b - 5 * Second else b)"

definition releaseReserve :: "budget_state \<Rightarrow> duration" where
  "releaseReserve s = min (maxReserve s) (releaseBound s)"

text \<open>The budget written for the runner, and the state after; \<open>None\<close> when a dependency is missing.\<close>

definition writeBudgetFile :: "FixtureNode list \<Rightarrow> duration \<Rightarrow> budget_state \<Rightarrow> (duration \<times> budget_state) option" where
  "writeBudgetFile fs maxSuiteSetupTimeout s =
     (case computeMaxDAGPath fs of
        None \<Rightarrow> None
      | Some path \<Rightarrow> Some (recordBudget (path + maxSuiteSetupTimeout + 30 * Second) (recordReserve path s)))"

subsection \<open>The watcher\<close>

text \<open>What the watcher finds when it asks whether a signal counts.\<close>

record surroundings =
  fuzzWorker :: bool
  fuzzTarget :: bool        \<comment> \<open>whether a fuzz target is set\<close>
  fuzzEngine :: bool
  under_runner :: bool      \<comment> \<open>a stop file is named\<close>
  stop_file_exists :: bool
  parent_changed :: bool
  parent_exited :: bool
  reader_gone :: bool

definition sig_counts :: "bool \<Rightarrow> surroundings \<Rightarrow> bool" where
  "sig_counts is_interrupt s =
     (if fuzzWorker s then False
      else if fuzzTarget s \<and> fuzzEngine s then False
      else if \<not> under_runner s then is_interrupt
      else if stop_file_exists s then True
      else parent_changed s \<or> parent_exited s \<or> reader_gone s)"

definition stopFilePoll :: duration where "stopFilePoll = 25000000"
definition readerPoll :: duration where "readerPoll = 200000000"

text \<open>\<open>poll\<close>: the tick at which it hands over its signal; one entry for each tick.\<close>

fun poll_loop :: "nat \<Rightarrow> surroundings list \<Rightarrow> nat option" where
  "poll_loop n [] = None"
| "poll_loop n (s # ss) =
     (if stop_file_exists s \<or> n mod nat (readerPoll div stopFilePoll) = 0 \<and> (parent_exited s \<or> reader_gone s)
      then Some n else poll_loop (n + 1) ss)"

datatype wake = Quit | Arrived bool | FoundStop bool | Death bool

text \<open>
  The loop: the stops it starts, in order, and for each whether a signal asked for it.  An arrival
  carries whether it counts; the death signal whether the parent is gone.
\<close>

fun watch_loop :: "bool \<Rightarrow> wake list \<Rightarrow> bool list" where
  "watch_loop stopping [] = []"
| "watch_loop stopping (Quit # ws) = []"
| "watch_loop stopping (Arrived counts # ws) = (if counts then True # watch_loop True ws else watch_loop stopping ws)"
| "watch_loop stopping (FoundStop counts # ws) =
     (if \<not> stopping \<and> counts then False # watch_loop True ws else watch_loop stopping ws)"
| "watch_loop stopping (Death gone # ws) =
     (if \<not> stopping \<and> gone then False # watch_loop True ws else watch_loop stopping ws)"

record watch_state =
  watching :: nat
  watcher_on :: bool
  reraised :: nat            \<comment> \<open>how often the process ended itself by the signal\<close>

definition startWatch :: "watch_state \<Rightarrow> watch_state" where
  "startWatch s = (let s = (if watching s = 0 then s\<lparr>watcher_on := True\<rparr> else s) in s\<lparr>watching := watching s + 1\<rparr>)"

definition stopWatch :: "bool \<Rightarrow> bool \<Rightarrow> watch_state \<Rightarrow> watch_state" where
  "stopWatch no_stop_file stopping s =
     (let s = s\<lparr>watching := watching s - 1\<rparr> in
      if watching s = 0
      then s\<lparr>watcher_on := False, reraised := reraised s + (if no_stop_file \<and> stopping then 1 else 0)\<rparr> else s)"

subsection \<open>Settling\<close>

definition stopGrace :: duration where "stopGrace = 5 * Second"

text \<open>One turn of the wait: what it reads, and the signal that arrives before the next, if any.\<close>

record look =
  look_now :: int
  look_bodies :: "body list"
  look_setups :: nat
  look_held :: nat
  look_suites :: int
  look_signal :: "bool option"   \<comment> \<open>whether it counts\<close>

definition finished :: "nat option \<Rightarrow> look \<Rightarrow> bool" where
  "finished except l =
     (if length (filter (\<lambda>b. except = None \<or> Some (owner b) \<noteq> except) (look_bodies l)) > 0 then False
      else look_setups l = 0 \<and> look_held l = 0 \<and> look_suites l = 0)"

datatype verdict = Settled | BodyOverdue string | OutOfBudget | SecondSignal

fun settle_loop :: "int \<Rightarrow> duration \<Rightarrow> int \<Rightarrow> nat option \<Rightarrow> bool \<Rightarrow> look list \<Rightarrow> (verdict \<times> int) option" where
  "settle_loop stopAt grace runEnd except unasked [] = None"
| "settle_loop stopAt grace runEnd except unasked (l # ls) =
     (let late = Overdue stopAt grace (look_now l) except (look_bodies l) in
      if late \<noteq> [] then Some (BodyOverdue late, look_now l)
      else if finished except l then Some (Settled, look_now l)
      else if look_now l > runEnd then Some (OutOfBudget, look_now l)
      else case look_signal l of
          None \<Rightarrow> settle_loop stopAt grace runEnd except unasked ls
        | Some counts \<Rightarrow>
            if \<not> counts then settle_loop stopAt grace runEnd except unasked ls
            else if unasked then settle_loop stopAt grace runEnd except False ls
            else Some (SecondSignal, look_now l))"

text \<open>The end of the release, and whether the run settled.\<close>

definition settle :: "budget_state \<Rightarrow> int \<Rightarrow> duration \<Rightarrow> nat option \<Rightarrow> bool \<Rightarrow> look list \<Rightarrow> (int \<times> bool \<times> int) option" where
  "settle bs stopAt grace except unasked ls =
     (let releaseEnd = stopAt + releaseBound bs; runEnd = releaseEnd - releaseReserve bs in
      case settle_loop stopAt grace runEnd except unasked ls of
        None \<Rightarrow> None
      | Some (v, t) \<Rightarrow> Some (releaseEnd, v = Settled, t))"

text \<open>\<open>stop\<close>: what the process does: nothing more, or a forced release until the end and its own end.\<close>

datatype stopped = RunEnded | Forced int

definition stop_run :: "budget_state \<Rightarrow> int \<Rightarrow> bool \<Rightarrow> nat option \<Rightarrow> look list \<Rightarrow> stopped option" where
  "stop_run bs stopAt requested except ls =
     (case settle bs stopAt stopGrace except (\<not> requested) ls of
        None \<Rightarrow> None
      | Some (releaseEnd, settled, t) \<Rightarrow> Some (if settled then RunEnded else Forced releaseEnd))"

subsection \<open>Setups and the stop\<close>

text \<open>Where a top-level function is with its fixtures.\<close>

datatype hold_pc =
    HIdle
  | HLocked      \<comment> \<open>inside \<open>beginSetup\<close>: no stop seen, not counted yet\<close>
  | HSetup       \<comment> \<open>the setup is in flight\<close>
  | HUp          \<comment> \<open>up and held, still counted as in flight\<close>
  | HFailed      \<comment> \<open>torn down after a failure, still counted\<close>
  | HRunning     \<comment> \<open>held, its tests run\<close>
  | HTorn        \<comment> \<open>torn down, still held\<close>
  | HRefused
  | HEnded

datatype stop_pc = SRun | SStopping | SNoSetups | SFinished

record run_state =
  stopping :: bool
  lock :: "nat option"          \<comment> \<open>\<open>setupMu\<close>\<close>
  setupInFlight :: nat
  held :: "nat set"
  hold_at :: "nat \<Rightarrow> hold_pc"
  stop_at :: stop_pc

inductive run_step :: "run_state \<Rightarrow> run_state \<Rightarrow> bool" where
  begin_check: "hold_at s k = HIdle \<Longrightarrow> lock s = None \<Longrightarrow> \<not> stopping s \<Longrightarrow>
    run_step s (s\<lparr>lock := Some k, hold_at := (hold_at s)(k := HLocked)\<rparr>)"
| begin_refused: "hold_at s k = HIdle \<Longrightarrow> lock s = None \<Longrightarrow> stopping s \<Longrightarrow>
    run_step s (s\<lparr>hold_at := (hold_at s)(k := HRefused)\<rparr>)"
| begin_admitted: "hold_at s k = HLocked \<Longrightarrow>
    run_step s (s\<lparr>setupInFlight := setupInFlight s + 1, lock := None, hold_at := (hold_at s)(k := HSetup)\<rparr>)"
| setup_up: "hold_at s k = HSetup \<Longrightarrow>
    run_step s (s\<lparr>held := insert k (held s), hold_at := (hold_at s)(k := HUp)\<rparr>)"
| setup_failed: "hold_at s k = HSetup \<Longrightarrow> run_step s (s\<lparr>hold_at := (hold_at s)(k := HFailed)\<rparr>)"
| done_up: "hold_at s k = HUp \<Longrightarrow> lock s = None \<Longrightarrow>
    run_step s (s\<lparr>setupInFlight := setupInFlight s - 1, hold_at := (hold_at s)(k := HRunning)\<rparr>)"
| done_failed: "hold_at s k = HFailed \<Longrightarrow> lock s = None \<Longrightarrow>
    run_step s (s\<lparr>setupInFlight := setupInFlight s - 1, hold_at := (hold_at s)(k := HEnded)\<rparr>)"
| torn_down: "hold_at s k = HRunning \<Longrightarrow> run_step s (s\<lparr>hold_at := (hold_at s)(k := HTorn)\<rparr>)"
| unheld: "hold_at s k = HTorn \<Longrightarrow>
    run_step s (s\<lparr>held := held s - {k}, hold_at := (hold_at s)(k := HEnded)\<rparr>)"
| stop_begins: "stop_at s = SRun \<Longrightarrow> run_step s (s\<lparr>stopping := True, stop_at := SStopping\<rparr>)"
| no_setups: "stop_at s = SStopping \<Longrightarrow> lock s = None \<Longrightarrow> setupInFlight s = 0 \<Longrightarrow>
    run_step s (s\<lparr>stop_at := SNoSetups\<rparr>)"
| still_held: "stop_at s = SNoSetups \<Longrightarrow> held s \<noteq> {} \<Longrightarrow> run_step s (s\<lparr>stop_at := SStopping\<rparr>)"
| none_held: "stop_at s = SNoSetups \<Longrightarrow> held s = {} \<Longrightarrow> run_step s (s\<lparr>stop_at := SFinished\<rparr>)"

definition run_start :: run_state where
  "run_start = \<lparr>stopping = False, lock = None, setupInFlight = 0, held = {}, hold_at = (\<lambda>k. HIdle), stop_at = SRun\<rparr>"

inductive run_reach :: "run_state \<Rightarrow> bool" where
  run_begin: "run_reach run_start"
| run_next: "run_reach s \<Longrightarrow> run_step s s' \<Longrightarrow> run_reach s'"

subsection \<open>A DAG as its caller sees it\<close>

definition sharedNode :: "FixtureNode list \<Rightarrow> FixtureNode option" where
  "sharedNode fs = List.find (\<lambda>n. SharedState n \<noteq> None) fs"

definition runner_required :: "string \<Rightarrow> string" where
  "runner_required fixture = ''suite binds shared fixture '' @ fixture @
     '', whose state only the gotest runner provides; run via go tool gotest''"

text \<open>The refusal as one test reports it, and the fixtures explained so far.\<close>

definition refusal_report :: "string set \<Rightarrow> string \<Rightarrow> string \<times> string set" where
  "refusal_report explained fixture =
     ((if fixture \<in> explained then ''suite binds shared fixture '' @ fixture @ ''; run via go tool gotest''
       else runner_required fixture), insert fixture explained)"

text \<open>
  \<open>setupFixtureDAG\<close>: \<open>path_set\<close> is whether the runner named a state file, \<open>loaded\<close> what reading it
  gives.  The result is an error, or the tracker of the DAG that is up.
\<close>

inductive setupFixtureDAG :: "scale \<Rightarrow> bool \<Rightarrow> bool \<Rightarrow> gerr + (string \<Rightarrow> bool) \<Rightarrow> FixtureNode list \<Rightarrow>
    gerr + (nat \<Rightarrow> bool) \<Rightarrow> bool" for f stops path_set loaded fs where
  run_stopping: "stops \<Longrightarrow> setupFixtureDAG f stops path_set loaded fs
    (Inl (UserErr ''the run is stopping: no fixture is set up any more''))"
| no_runner: "\<not> stops \<Longrightarrow> sharedNode fs = Some n \<Longrightarrow> \<not> path_set \<Longrightarrow>
    setupFixtureDAG f stops path_set loaded fs (Inl (UserErr (runner_required (NName n))))"
| not_loaded: "\<not> stops \<Longrightarrow> sharedNode fs = Some n \<Longrightarrow> path_set \<Longrightarrow> loaded = Inl e \<Longrightarrow>
    setupFixtureDAG f stops path_set loaded fs (Inl (Wrapped ''load shared state: '' e))"
| failed: "\<not> stops \<Longrightarrow> sharedNode fs = Some n \<and> path_set \<and> loaded = Inr sh \<or> sharedNode fs = None \<and> sh = (\<lambda>k. False) \<Longrightarrow>
    fs \<noteq> [] \<Longrightarrow> setupDAG f sh fs (Some e) att \<Longrightarrow> teardownDAG f fs att torn \<Longrightarrow>
    setupFixtureDAG f stops path_set loaded fs (Inl e)"
| up: "\<not> stops \<Longrightarrow> sharedNode fs = Some n \<and> path_set \<and> loaded = Inr sh \<or> sharedNode fs = None \<and> sh = (\<lambda>k. False) \<Longrightarrow>
    fs \<noteq> [] \<Longrightarrow> setupDAG f sh fs None att \<Longrightarrow> setupFixtureDAG f stops path_set loaded fs (Inr att)"
| up_empty: "\<not> stops \<Longrightarrow> fs = [] \<Longrightarrow> setupFixtureDAG f stops path_set loaded fs (Inr (\<lambda>i. False))"

text \<open>\<open>FixtureDAG.Teardown\<close> runs once; \<open>run\<close> is what \<open>teardownDAG\<close> would return.\<close>

record FixtureDAG =
  torn :: bool
  dag_failed :: bool

definition Teardown :: "bool \<Rightarrow> FixtureDAG \<Rightarrow> bool \<times> FixtureDAG" where
  "Teardown run d = (let d = (if torn d then d else d\<lparr>torn := True, dag_failed := run\<rparr>) in (dag_failed d, d))"

end
