(* ===== verification/StopRunProps.thy ===== *)
theory StopRunProps
  imports StopRun FixturePolicyProps
begin

text \<open>
  What a stop guarantees: a settled one leaves no fixture behind and none comes up after it, and the
  wait for the run ends in time for a forced release.
\<close>

subsection \<open>No fixture outlives a settled stop\<close>

definition in_flight :: "hold_pc \<Rightarrow> bool" where "in_flight p \<longleftrightarrow> p = HSetup \<or> p = HUp \<or> p = HFailed"
definition is_held :: "hold_pc \<Rightarrow> bool" where "is_held p \<longleftrightarrow> p = HUp \<or> p = HRunning \<or> p = HTorn"

lemma pc_kinds [simp]:
  "in_flight HSetup" "in_flight HUp" "in_flight HFailed" "\<not> in_flight HIdle" "\<not> in_flight HLocked"
  "\<not> in_flight HRunning" "\<not> in_flight HTorn" "\<not> in_flight HRefused" "\<not> in_flight HEnded"
  "is_held HUp" "is_held HRunning" "is_held HTorn" "\<not> is_held HIdle" "\<not> is_held HLocked" "\<not> is_held HSetup"
  "\<not> is_held HFailed" "\<not> is_held HRefused" "\<not> is_held HEnded"
  by (simp_all add: in_flight_def is_held_def)

text \<open>Whether a top-level function holds no fixtures and sets none up.\<close>

definition at_rest :: "hold_pc \<Rightarrow> bool" where "at_rest p \<longleftrightarrow> p = HIdle \<or> p = HRefused \<or> p = HEnded"

definition flying :: "run_state \<Rightarrow> nat set" where "flying s = {k. in_flight (hold_at s k)}"
definition holding_set :: "run_state \<Rightarrow> nat set" where "holding_set s = {k. is_held (hold_at s k)}"

text \<open>One function's move: what becomes of the two sets.\<close>

lemma move_sets:
  assumes "hold_at s' = (hold_at s)(k := p)"
  shows "flying s' = (if in_flight p then insert k (flying s) else flying s - {k})"
    and "holding_set s' = (if is_held p then insert k (holding_set s) else holding_set s - {k})"
  using assms by (auto simp: flying_def holding_set_def)

lemma mem_sets: "k \<in> flying s \<longleftrightarrow> in_flight (hold_at s k)" "k \<in> holding_set s \<longleftrightarrow> is_held (hold_at s k)"
  by (simp_all add: flying_def holding_set_def)

definition lock_inv :: "run_state \<Rightarrow> bool" where
  "lock_inv s \<longleftrightarrow> (\<forall>k. hold_at s k = HLocked \<longleftrightarrow> lock s = Some k)"

definition count_inv :: "run_state \<Rightarrow> bool" where
  "count_inv s \<longleftrightarrow> finite (flying s) \<and> setupInFlight s = card (flying s) \<and> held s = holding_set s"

definition stop_inv :: "run_state \<Rightarrow> bool" where
  "stop_inv s \<longleftrightarrow> (stopping s \<longleftrightarrow> stop_at s \<noteq> SRun) \<and>
     (stop_at s \<in> {SNoSetups, SFinished} \<longrightarrow> lock s = None \<and> flying s = {}) \<and> (stop_at s = SFinished \<longrightarrow> held s = {})"

lemma lock_move:
  assumes "lock_inv s" "hold_at s' = (hold_at s)(k := p)" "lock s' = lock s" "hold_at s k \<noteq> HLocked" "p \<noteq> HLocked"
  shows "lock_inv s'"
  using assms by (simp add: lock_inv_def)

lemma lock_step:
  assumes "lock_inv s" "run_step s s'"
  shows "lock_inv s'"
  using assms(2)
proof cases
  case (begin_check k)
  then show ?thesis using assms(1) by (simp add: lock_inv_def)
next
  case (begin_admitted k)
  then have "lock s = Some k" using assms(1) by (simp add: lock_inv_def)
  then show ?thesis using begin_admitted assms(1) by (simp add: lock_inv_def)
next
  case (begin_refused k)
  then show ?thesis by (intro lock_move[OF assms(1), of s' k HRefused]) simp_all
next
  case (setup_up k)
  then show ?thesis by (intro lock_move[OF assms(1), of s' k HUp]) simp_all
next
  case (setup_failed k)
  then show ?thesis by (intro lock_move[OF assms(1), of s' k HFailed]) simp_all
next
  case (done_up k)
  then show ?thesis by (intro lock_move[OF assms(1), of s' k HRunning]) simp_all
next
  case (done_failed k)
  then show ?thesis by (intro lock_move[OF assms(1), of s' k HEnded]) simp_all
next
  case (torn_down k)
  then show ?thesis by (intro lock_move[OF assms(1), of s' k HTorn]) simp_all
next
  case (unheld k)
  then show ?thesis by (intro lock_move[OF assms(1), of s' k HEnded]) simp_all
qed (use assms(1) in \<open>simp_all add: lock_inv_def\<close>)

lemma count_step:
  assumes "count_inv s" "run_step s s'"
  shows "count_inv s'"
proof -
  have c: "finite (flying s)" "setupInFlight s = card (flying s)" "held s = holding_set s"
    using assms(1) by (simp_all add: count_inv_def)
  have moved: "count_inv s'" if "hold_at s' = (hold_at s)(k := p)" "held s' = (if is_held p then insert k (held s) else held s - {k})"
    "setupInFlight s' = (if in_flight p then card (insert k (flying s)) else card (flying s - {k}))" for k p
    using that c move_sets[OF that(1)] by (simp add: count_inv_def)
  from assms(2) show ?thesis
  proof cases
    case (begin_check k)
    then show ?thesis using c mem_sets[of k s] by (intro moved[of k HLocked]) auto
  next
    case (begin_refused k)
    then show ?thesis using c mem_sets[of k s] by (intro moved[of k HRefused]) auto
  next
    case (begin_admitted k)
    then show ?thesis using c mem_sets[of k s] by (intro moved[of k HSetup]) auto
  next
    case (setup_up k)
    then show ?thesis using c mem_sets[of k s] by (intro moved[of k HUp]) (auto simp: insert_absorb)
  next
    case (setup_failed k)
    then show ?thesis using c mem_sets[of k s] by (intro moved[of k HFailed]) (auto simp: insert_absorb)
  next
    case (done_up k)
    then show ?thesis using c mem_sets[of k s] by (intro moved[of k HRunning]) (auto simp: insert_absorb)
  next
    case (done_failed k)
    then show ?thesis using c mem_sets[of k s] by (intro moved[of k HEnded]) auto
  next
    case (torn_down k)
    then show ?thesis using c mem_sets[of k s] by (intro moved[of k HTorn]) (auto simp: insert_absorb)
  next
    case (unheld k)
    then show ?thesis using c mem_sets[of k s] by (intro moved[of k HEnded]) auto
  qed (use c in \<open>simp_all add: count_inv_def flying_def holding_set_def\<close>)
qed

lemma stop_step:
  assumes "lock_inv s" "count_inv s" "stop_inv s" "run_step s s'"
  shows "stop_inv s'"
  using assms(4)
proof cases
  case (begin_check k)
  then show ?thesis using assms(3) by (auto simp: stop_inv_def)
next
  case (begin_refused k)
  then show ?thesis using assms(3) move_sets(1)[of s' s k HRefused] by (auto simp: stop_inv_def)
next
  case (begin_admitted k)
  then have "lock s = Some k" using assms(1) by (auto simp: lock_inv_def)
  then show ?thesis using begin_admitted assms(3) by (auto simp: stop_inv_def)
next
  case (setup_up k)
  then show ?thesis using assms(3) mem_sets(1)[of k s] by (auto simp: stop_inv_def)
next
  case (setup_failed k)
  then show ?thesis using assms(3) mem_sets(1)[of k s] by (auto simp: stop_inv_def)
next
  case (done_up k)
  then show ?thesis using assms(3) mem_sets(1)[of k s] by (auto simp: stop_inv_def)
next
  case (done_failed k)
  then show ?thesis using assms(3) mem_sets(1)[of k s] by (auto simp: stop_inv_def)
next
  case (torn_down k)
  then show ?thesis using assms(3) move_sets(1)[of s' s k HTorn] by (auto simp: stop_inv_def)
next
  case (unheld k)
  then show ?thesis using assms(3) move_sets(1)[of s' s k HEnded] by (auto simp: stop_inv_def)
next
  case no_setups
  then show ?thesis using assms(2,3) by (auto simp: stop_inv_def count_inv_def flying_def)
qed (use assms(3) in \<open>auto simp: stop_inv_def flying_def\<close>)

lemma run_reach_inv: "run_reach s \<Longrightarrow> lock_inv s \<and> count_inv s \<and> stop_inv s"
proof (induction rule: run_reach.induct)
  case run_begin
  show ?case by (simp add: run_start_def lock_inv_def count_inv_def stop_inv_def flying_def holding_set_def)
qed (use lock_step count_step stop_step in blast)

text \<open>
  C13: a stop that finds the run finished leaves nothing behind: no fixture is up, none is in its
  setup, and however the run goes on none is set up any more.
\<close>
theorem settled_stop_leaves_nothing:
  assumes "run_reach s" "stop_at s = SFinished" "run_step\<^sup>*\<^sup>* s s'"
  shows "at_rest (hold_at s' k)"
proof -
  have "run_reach s' \<and> stop_at s' = SFinished"
    using assms(3)
  proof induction
    case (step u v)
    then have "stop_at v = SFinished" by (auto elim!: run_step.cases)
    then show ?case using step run_next by blast
  qed (use assms in simp)
  then have i: "lock_inv s'" "count_inv s'" "stop_inv s'" and f: "stop_at s' = SFinished" using run_reach_inv by blast+
  then have "flying s' = {}" "lock s' = None" "holding_set s' = {}" by (auto simp: stop_inv_def count_inv_def)
  then have "\<not> in_flight (hold_at s' k)" "\<not> is_held (hold_at s' k)" "hold_at s' k \<noteq> HLocked"
    using i(1) mem_sets[of k s'] by (auto simp: lock_inv_def)
  then show ?thesis by (cases "hold_at s' k") (auto simp: at_rest_def)
qed
text \<open>A stop that finds nothing to wait for, and a function that comes too late.\<close>

lemma settled_stop_leaves_nothing_witness:
  "\<exists>s s'. run_reach s \<and> stop_at s = SFinished \<and> run_step s s' \<and> hold_at s' 3 = HRefused \<and> at_rest (hold_at s' 3)"
proof -
  define s1 where "s1 = run_start\<lparr>stopping := True, stop_at := SStopping\<rparr>"
  define s2 where "s2 = s1\<lparr>stop_at := SNoSetups\<rparr>"
  define s3 where "s3 = s2\<lparr>stop_at := SFinished\<rparr>"
  define s4 where "s4 = s3\<lparr>hold_at := (hold_at s3)(3 := HRefused)\<rparr>"
  note defs = s4_def s3_def s2_def s1_def run_start_def
  have "run_step run_start s1" unfolding s1_def by (rule stop_begins) (simp add: run_start_def)
  moreover have "run_step s1 s2" unfolding s2_def by (rule no_setups) (simp_all add: defs)
  moreover have "run_step s2 s3" unfolding s3_def by (rule none_held) (simp_all add: defs)
  ultimately have r: "run_reach s3" by (blast intro: run_begin run_next)
  have f: "stop_at s3 = SFinished" by (simp add: defs)
  have st: "run_step s3 s4" unfolding s4_def by (rule begin_refused) (simp_all add: defs)
  then have "at_rest (hold_at s4 3)" using settled_stop_leaves_nothing[OF r f, of s4 3] by blast
  moreover have "hold_at s4 3 = HRefused" by (simp add: s4_def)
  ultimately show ?thesis using r f st by blast
qed

subsection \<open>The grace of a body\<close>

definition in_grace :: "int \<Rightarrow> duration \<Rightarrow> int \<Rightarrow> nat option \<Rightarrow> body \<Rightarrow> bool" where
  "in_grace stopAt grace now except b \<longleftrightarrow>
     except \<noteq> None \<and> Some (owner b) = except \<or> now - max stopAt (started b) \<le> grace"

lemma Overdue_Cons:
  "Overdue stopAt grace now except (b # bs) =
     (if in_grace stopAt grace now except b then Overdue stopAt grace now except bs else kind b)"
  by (auto simp: in_grace_def Let_def max_def)

text \<open>No body is named exactly when each is in its grace, whatever order the bodies come in.\<close>

lemma Overdue_none:
  "list_all (\<lambda>b. kind b \<noteq> []) bs \<Longrightarrow>
   Overdue stopAt grace now except bs = [] \<longleftrightarrow> list_all (in_grace stopAt grace now except) bs"
  by (induction bs) (simp_all add: Overdue_Cons del: Overdue.simps(2))

lemma Overdue_order:
  "list_all (\<lambda>b. kind b \<noteq> []) bs \<Longrightarrow> set bs = set cs \<Longrightarrow>
   Overdue stopAt grace now except bs = [] \<longleftrightarrow> Overdue stopAt grace now except cs = []"
  by (simp add: Overdue_none list_all_iff)

subsection \<open>The wait of a stop ends\<close>

text \<open>The looks follow each other in time, at most \<open>gap\<close> apart.\<close>

fun paced :: "int \<Rightarrow> int \<Rightarrow> look list \<Rightarrow> bool" where
  "paced gap t [] \<longleftrightarrow> True"
| "paced gap t (l # ls) \<longleftrightarrow> t \<le> look_now l \<and> look_now l \<le> t + gap \<and> paced gap (look_now l) ls"

lemma settle_loop_ends:
  "paced gap t ls \<Longrightarrow> t \<le> runEnd \<Longrightarrow> list_ex (\<lambda>l. look_now l > runEnd) ls \<Longrightarrow>
   \<exists>v now. settle_loop stopAt grace runEnd except unasked ls = Some (v, now) \<and> t \<le> now \<and> now \<le> runEnd + gap"
proof (induction ls arbitrary: t unasked)
  case (Cons l ls)
  have t: "t \<le> look_now l" "look_now l \<le> runEnd + gap" "paced gap (look_now l) ls" using Cons.prems(1,2) by auto
  show ?case
  proof (cases "Overdue stopAt grace (look_now l) except (look_bodies l) \<noteq> [] \<or> finished except l \<or> look_now l > runEnd")
    case True
    then show ?thesis using t by (auto simp: Let_def)
  next
    case False
    then have "list_ex (\<lambda>l. look_now l > runEnd) ls" "look_now l \<le> runEnd" using Cons.prems(3) by auto
    then have "\<exists>v now. settle_loop stopAt grace runEnd except u ls = Some (v, now) \<and> look_now l \<le> now \<and> now \<le> runEnd + gap" for u
      using Cons.IH[OF t(3)] by blast
    note this[of unasked] this[of False]
    then show ?thesis using t False by (cases "look_signal l") (auto simp: Let_def intro: order_trans)
  qed
qed simp

lemma settle_loop_settled:
  "settle_loop stopAt grace runEnd except unasked ls = Some (Settled, now) \<Longrightarrow>
   \<exists>l \<in> set ls. look_now l = now \<and> finished except l \<and> Overdue stopAt grace now except (look_bodies l) = []"
  by (induction ls arbitrary: unasked) (auto simp: Let_def split: if_splits option.splits)

lemma reserve_le_bound: "0 \<le> maxReserve bs \<Longrightarrow> 0 \<le> releaseReserve bs \<and> releaseReserve bs \<le> releaseBound bs"
  by (simp add: releaseReserve_def releaseBound_def Let_def Minute_def Second_def)


definition busy_look :: "int \<Rightarrow> look" where
  "busy_look t = \<lparr>look_now = t, look_bodies = [], look_setups = 0, look_held = 1, look_suites = 1, look_signal = None\<rparr>"


end
