(* ===== verification/SuiteRun.thy ===== *)
theory SuiteRun
  imports FixturePolicy GoStrings
begin

text \<open>
  How a suite runs in its process: the frame of \<^verbatim>\<open>pkg/gotestruntime/harness.go\<close> (\<open>OpenSuite\<close>) with the
  hold of \<^verbatim>\<open>hold.go\<close> inside it, the method loop of \<^verbatim>\<open>methods.go\<close>, and the life of the shared fixture
  process (\<^verbatim>\<open>sharedlifetime.go\<close>).  A run returns the events it causes, in order; what the user's
  hooks do and what contexts and clocks report are arguments.
\<close>

subsection \<open>The frame of a suite\<close>

datatype sevent =
    SkippedWith string
  | FatalWith string
  | WatchOn
  | WatchOff
  | SuiteOpened
  | SuiteClosed
  | FixturesUp
  | FixturesDown
  | Unheld
  | BeforeAllRan
  | AfterAllRan
  | Drained

text \<open>How the hold of the suite's fixtures goes: the panic of its config, or the error of the setup.\<close>

record hold_env =
  build_panics :: "string option"
  setup_errs :: "string option"

definition HoldFixtures :: "hold_env \<Rightarrow> sevent list \<times> sevent list list \<times> bool" where
  "HoldFixtures h =
     (case build_panics h of
        Some r \<Rightarrow> ([FatalWith (''fixture setup: panic: '' @ r)], [], False)
      | None \<Rightarrow>
          (case setup_errs h of
             Some e \<Rightarrow> ([WatchOn, WatchOff, FatalWith (''fixture setup: '' @ e)], [], False)
           | None \<Rightarrow> ([WatchOn, FixturesUp], [[FixturesDown, Unheld, WatchOff]], True)))"

record suite_env =
  run_stopped :: bool
  guard :: "string option"        \<comment> \<open>what the guard returns; \<open>None\<close> without a guard\<close>
  scale_error :: "string option"
  fixtures :: "hold_env option"
  before_all_fails :: bool        \<comment> \<open>it ends the test: a fatal failure or a panic\<close>

text \<open>The events of the opening, the cleanups registered, and whether the suite goes on.\<close>

definition OpenSuite :: "suite_env \<Rightarrow> sevent list \<times> sevent list list \<times> bool" where
  "OpenSuite e =
     (if run_stopped e then ([SkippedWith ''run stopping''], [], False)
      else if guard e \<noteq> None \<and> the (guard e) \<noteq> [] then ([SkippedWith (''suite guard: '' @ the (guard e))], [], False)
      else let evs = [WatchOn, SuiteOpened]; cleanups = [[SuiteClosed, WatchOff]] in
        case scale_error e of
          Some err \<Rightarrow> (evs @ [FatalWith err], cleanups, False)
        | None \<Rightarrow>
            let (fevs, fcleanups, on) = (case fixtures e of None \<Rightarrow> ([], [], True) | Some h \<Rightarrow> HoldFixtures h);
                evs = evs @ fevs; cleanups = cleanups @ fcleanups
            in if \<not> on then (evs, cleanups, False)
               else (evs @ [BeforeAllRan], cleanups @ [[AfterAllRan, Drained]], \<not> before_all_fails e))"

text \<open>The whole life: the opening, the body if it goes on, and the cleanups, last first.\<close>

definition suite_life :: "suite_env \<Rightarrow> sevent list \<Rightarrow> sevent list" where
  "suite_life e body = (let (evs, cleanups, on) = OpenSuite e in
     evs @ (if on then body else []) @ concat (rev cleanups))"

subsection \<open>The method loop\<close>

record EachHooks =
  EName :: string
  HasBefore :: bool
  HasAfter :: bool

datatype mevent =
    FixtureBefore string bool     \<comment> \<open>whether it returned without an error\<close>
  | FixtureAfter string bool
  | MethodRun                     \<comment> \<open>the suite's own \<open>BeforeEach\<close>, the method, its \<open>AfterEach\<close>\<close>
  | BodyRun
  | SkipStopping

text \<open>
  One method, of a suite that is not parallel and whose hooks do not panic: whether the run is stopping, what each fixture's hooks do, whether the budget had run
  out before each fixture's turn, before the method and before its body, and whether \<open>Run\<close> fails.
\<close>

record method_env =
  stop_seen :: bool
  before_ok :: "nat \<Rightarrow> bool"
  after_ok :: "nat \<Rightarrow> bool"
  overran_at :: "nat \<Rightarrow> bool"
  overran_body :: bool
  run_calls_body :: bool          \<comment> \<open>the suite's \<open>BeforeEach\<close> lets \<open>Run\<close> reach the method\<close>
  run_fails :: bool

text \<open>
  The fixtures' turns, the deferred \<open>AfterEach\<close> of each after all that comes later; the result says
  whether the method failed.
\<close>

fun fixture_turns :: "method_env \<Rightarrow> EachHooks list \<Rightarrow> nat \<Rightarrow> mevent list \<times> bool" where
  "fixture_turns e [] k =
     (if overran_at e k then ([], True)
      else ([MethodRun] @ (if run_calls_body e \<and> \<not> overran_body e then [BodyRun] else []), run_fails e \<or> overran_body e))"
| "fixture_turns e (f # fs) k =
     (if overran_at e k then ([], True)
      else if HasBefore f \<and> \<not> before_ok e k then ([FixtureBefore (EName f) False], True)
      else let (evs, failed) = fixture_turns e fs (k + 1)
           in ((if HasBefore f then [FixtureBefore (EName f) True] else []) @ evs @
               (if HasAfter f then [FixtureAfter (EName f) (after_ok e k)] else []),
               failed \<or> HasAfter f \<and> \<not> after_ok e k))"

definition run_method :: "method_env \<Rightarrow> EachHooks list \<Rightarrow> mevent list \<times> bool" where
  "run_method e fs = (if stop_seen e then ([SkipStopping], False) else fixture_turns e fs 0)"

datatype method_result =
    SkippedFailFast string string   \<comment> \<open>the method, and the one it names\<close>
  | Ran string "mevent list" bool   \<comment> \<open>whether it failed\<close>

text \<open>The loop of a suite that is not parallel: \<open>first\<close> is \<open>failedFirst\<close>.\<close>

fun run_cases :: "bool \<Rightarrow> EachHooks list \<Rightarrow> (string \<times> method_env) list \<Rightarrow> string option \<Rightarrow> method_result list" where
  "run_cases failFast fs [] first = []"
| "run_cases failFast fs ((name, e) # cs) first =
     (case (if failFast then first else None) of
        Some n \<Rightarrow> SkippedFailFast name n # run_cases failFast fs cs first
      | None \<Rightarrow>
          let (evs, failed) = run_method e fs
          in Ran name evs failed # run_cases failFast fs cs (if failed \<and> first = None then Some name else first))"

definition RunMethods :: "bool \<Rightarrow> EachHooks list \<Rightarrow> (string \<times> method_env) list \<Rightarrow> method_result list" where
  "RunMethods failFast fs cs = run_cases failFast fs cs None"

subsection \<open>The shared fixture process\<close>

definition sharedTeardownHeadroom :: duration where "sharedTeardownHeadroom = 30 * Second"
definition orphanSetupBound :: duration where "orphanSetupBound = 2 * Minute"

record SharedLifetime =
  names :: "string list"
  timeouts :: "duration list"
  inSetup :: "(nat \<times> duration) list"
  begun :: "bool list"
  released :: "bool list"
  reported :: duration
  headroom :: duration

definition newSharedLifetime :: "duration \<Rightarrow> string list \<Rightarrow> SharedLifetime" where
  "newSharedLifetime head ns = \<lparr>names = ns, timeouts = map (\<lambda>n. CTimeout DefaultFixtureConfig) ns, inSetup = [],
     begun = map (\<lambda>n. False) ns, released = map (\<lambda>n. False) ns, reported = 0, headroom = head\<rparr>"

definition SetupBegins :: "nat \<Rightarrow> FixtureSetup \<Rightarrow> SharedLifetime \<Rightarrow> SharedLifetime" where
  "SetupBegins i s l = l\<lparr>begun := (begun l)[i := True], timeouts := (timeouts l)[i := Timeout s],
     inSetup := (i, SetupBudget s) # filter (\<lambda>(j, b). j \<noteq> i) (inSetup l)\<rparr>"

definition SetupEnds :: "nat \<Rightarrow> SharedLifetime \<Rightarrow> SharedLifetime" where
  "SetupEnds i l = l\<lparr>inSetup := filter (\<lambda>(j, b). j \<noteq> i) (inSetup l)\<rparr>"

definition Released :: "nat \<Rightarrow> SharedLifetime \<Rightarrow> SharedLifetime" where
  "Released i l = l\<lparr>released := (released l)[i := True]\<rparr>"

definition Reported :: "duration \<Rightarrow> SharedLifetime \<Rightarrow> SharedLifetime" where
  "Reported teardown l = l\<lparr>reported := teardown\<rparr>"

text \<open>The bound, the phase and the detail; \<open>show_d\<close> is a duration as \<open>fmt\<close> prints it.\<close>

definition teardown_bound :: "SharedLifetime \<Rightarrow> duration" where
  "teardown_bound l = (if reported l > 0 then reported l
     else reported l + sum_list (map SupervisorBudget (timeouts l)) + headroom l)"

definition setup_bound :: "SharedLifetime \<Rightarrow> duration \<times> bool" where
  "setup_bound l = foldl (\<lambda>(setup, unbounded) (i, b). (max setup b, unbounded \<or> b \<le> 0)) (0, False) (inSetup l)"

definition lifetime_bound :: "(duration \<Rightarrow> string) \<Rightarrow> SharedLifetime \<Rightarrow> duration \<times> string \<times> string" where
  "lifetime_bound show_d l =
     (let teardown = teardown_bound l in
      if inSetup l = [] then (teardown, ''teardown'', [])
      else let (setup, unbounded) = setup_bound l in
        if unbounded
        then (let setup = max setup orphanSetupBound in
          (setup + teardown, ''setup and teardown'', '' (a setup that declared no deadline was given a fixed '' @ show_d setup @
             '', plus teardown budget '' @ show_d teardown @ '')''))
        else (setup + teardown, ''setup and teardown'',
             '' (setup budget '' @ show_d setup @ '' plus teardown budget '' @ show_d teardown @ '')''))"

definition held_names :: "SharedLifetime \<Rightarrow> string list" where
  "held_names l = map (\<lambda>i. names l ! i) (filter (\<lambda>i. begun l ! i \<and> \<not> released l ! i) [0..<length (names l)])"

definition leftBehind :: "SharedLifetime \<Rightarrow> string" where
  "leftBehind l = (case held_names l of
       [] \<Rightarrow> ''what it holds''
     | [n] \<Rightarrow> ''what '' @ n @ '' holds''
     | ns \<Rightarrow> ''what '' @ join '', '' ns @ '' hold'')"

text \<open>\<open>ExitWhenOrphaned\<close>: how long it sleeps, and what it says then; \<open>later\<close> is the state after the sleep.\<close>

definition ExitWhenOrphaned :: "(duration \<Rightarrow> string) \<Rightarrow> SharedLifetime \<Rightarrow> SharedLifetime \<Rightarrow> duration \<times> string" where
  "ExitWhenOrphaned show_d l later =
     (let (bound, phase, detail) = lifetime_bound show_d l in
      (bound, ''gotest: the runner is gone and shared fixture '' @ phase @ '' did not finish within '' @ show_d bound @
         detail @ ''; '' @ leftBehind later @ '' may be left behind''))"

end
