(* ===== verification/SuiteRunProps.thy ===== *)
theory SuiteRunProps
  imports SuiteRun
begin

text \<open>
  What a suite's run guarantees: fixture hooks pair and nest around each method, \<open>FailFast\<close> stops at
  the first failure, the frame's registrations are undone, and an orphaned process gives its
  fixtures their budgets.
\<close>

subsection \<open>Hooks pair and nest\<close>

text \<open>The fixtures whose turn came and whose own \<open>BeforeEach\<close>, if any, returned without an error.\<close>

fun turns_taken :: "method_env \<Rightarrow> EachHooks list \<Rightarrow> nat \<Rightarrow> (nat \<times> EachHooks) list" where
  "turns_taken e [] k = []"
| "turns_taken e (f # fs) k =
     (if overran_at e k \<or> HasBefore f \<and> \<not> before_ok e k then [] else (k, f) # turns_taken e fs (k + 1))"

definition befores :: "(nat \<times> EachHooks) list \<Rightarrow> mevent list" where
  "befores ts = map (\<lambda>(k, f). FixtureBefore (EName f) True) (filter (\<lambda>(k, f). HasBefore f) ts)"

definition afters :: "method_env \<Rightarrow> (nat \<times> EachHooks) list \<Rightarrow> mevent list" where
  "afters e ts = map (\<lambda>(k, f). FixtureAfter (EName f) (after_ok e k)) (rev (filter (\<lambda>(k, f). HasAfter f) ts))"

definition middle :: "EachHooks list \<Rightarrow> (nat \<times> EachHooks) list \<Rightarrow> mevent list \<Rightarrow> bool" where
  "middle fs ts mid \<longleftrightarrow> mid = [] \<or> (\<exists>f \<in> set fs. mid = [FixtureBefore (EName f) False]) \<or>
     (map snd ts = fs \<and> (mid = [MethodRun] \<or> mid = [MethodRun, BodyRun]))"

lemma hooks_split:
  "\<exists>mid. fst (fixture_turns e fs k) = befores (turns_taken e fs k) @ mid @ afters e (turns_taken e fs k) \<and>
     middle fs (turns_taken e fs k) mid"
proof (induction fs arbitrary: k)
  case Nil
  then show ?case by (auto simp: befores_def afters_def middle_def)
next
  case (Cons f fs)
  obtain mid where mid: "fst (fixture_turns e fs (k + 1)) = befores (turns_taken e fs (k + 1)) @ mid @ afters e (turns_taken e fs (k + 1))"
    "middle fs (turns_taken e fs (k + 1)) mid" using Cons by blast
  show ?case
  proof (cases "overran_at e k \<or> HasBefore f \<and> \<not> before_ok e k")
    case True
    then show ?thesis by (auto simp: befores_def afters_def middle_def)
  next
    case False
    have "fst (fixture_turns e (f # fs) k) = (if HasBefore f then [FixtureBefore (EName f) True] else []) @
        fst (fixture_turns e fs (k + 1)) @ (if HasAfter f then [FixtureAfter (EName f) (after_ok e k)] else [])"
      using False by (auto split: prod.splits)
    then have "fst (fixture_turns e (f # fs) k) = befores (turns_taken e (f # fs) k) @ mid @ afters e (turns_taken e (f # fs) k)"
      using False mid(1) by (auto simp: befores_def afters_def)
    moreover have "middle (f # fs) (turns_taken e (f # fs) k) mid"
      using mid(2) False by (auto simp: middle_def)
    ultimately show ?thesis by blast
  qed
qed

text \<open>
  C15: a hook never releases what was never acquired, and releases all that was: one method runs the
  \<open>BeforeEach\<close> hooks of its fixtures in order, the method itself only when each of them returned
  without an error inside the budget, and then the \<open>AfterEach\<close> hooks of exactly the fixtures that
  acquired, in reverse.
\<close>
theorem hooks_nest:
  "\<exists>mid. fst (run_method e fs) = (if stop_seen e then [SkipStopping]
      else befores (turns_taken e fs 0) @ mid @ afters e (turns_taken e fs 0)) \<and> middle fs (turns_taken e fs 0) mid"
  using hooks_split[of e fs 0] by (auto simp: run_method_def)

subsection \<open>FailFast\<close>

lemma run_cases_tripped: "run_cases True fs cs (Some n) = map (\<lambda>(m, e). SkippedFailFast m n) cs"
  by (induction cs) auto

definition ran_ok :: "EachHooks list \<Rightarrow> string \<times> method_env \<Rightarrow> method_result" where
  "ran_ok fs c = Ran (fst c) (fst (run_method (snd c) fs)) False"

text \<open>
  with \<open>FailFast\<close> the first method that fails is the last that runs: either every method runs and
  none fails, or those up to the first failing one run and each after it is skipped, naming it.
\<close>
theorem failfast_stops_at_first:
  "(RunMethods True fs cs = map (ran_ok fs) cs) \<or>
   (\<exists>pre n e post. cs = pre @ (n, e) # post \<and> snd (run_method e fs) = True \<and>
      RunMethods True fs cs = map (ran_ok fs) pre @ Ran n (fst (run_method e fs)) True # map (\<lambda>(m, e). SkippedFailFast m n) post)"
  unfolding RunMethods_def
proof (induction cs)
  case (Cons c cs)
  obtain name e where c: "c = (name, e)" by fastforce
  obtain evs failed where r: "run_method e fs = (evs, failed)" by fastforce
  show ?case
  proof (cases failed)
    case True
    then show ?thesis using c r
      by (intro disjI2 exI[of _ "[]"] exI[of _ name] exI[of _ e] exI[of _ cs]) (simp add: run_cases_tripped)
  next
    case False
    then have step: "run_cases True fs (c # cs) None = ran_ok fs c # run_cases True fs cs None"
      using c r by (simp add: ran_ok_def)
    from Cons show ?thesis
    proof (elim disjE exE conjE)
      assume "run_cases True fs cs None = map (ran_ok fs) cs"
      then show ?thesis using step by simp
    next
      fix pre n e' post
      assume h: "cs = pre @ (n, e') # post" "snd (run_method e' fs) = True"
        "run_cases True fs cs None = map (ran_ok fs) pre @ Ran n (fst (run_method e' fs)) True # map (\<lambda>(m, e). SkippedFailFast m n) post"
      then show ?thesis using step
        by (intro disjI2 exI[of _ "c # pre"] exI[of _ n] exI[of _ e'] exI[of _ post]) simp
    qed
  qed
qed simp

subsection \<open>The frame\<close>

text \<open>What every life of a suite keeps: watches, openings and holds come in pairs.\<close>

lemma suite_life_paired:
  assumes "set body \<inter> {WatchOn, WatchOff, SuiteOpened, SuiteClosed, FixturesUp, FixturesDown} = {}"
  shows "count_list (suite_life e body) WatchOn = count_list (suite_life e body) WatchOff \<and>
    count_list (suite_life e body) SuiteOpened = count_list (suite_life e body) SuiteClosed \<and>
    count_list (suite_life e body) FixturesUp = count_list (suite_life e body) FixturesDown"
proof -
  have z: "count_list body x = 0" if "x \<in> {WatchOn, WatchOff, SuiteOpened, SuiteClosed, FixturesUp, FixturesDown}" for x
    using assms that by (auto simp: count_list_0_iff)
  show ?thesis using z
    by (auto simp: suite_life_def OpenSuite_def HoldFixtures_def Let_def split: option.splits prod.splits)
qed

subsection \<open>The orphaned process\<close>

lemma setup_bound_fold:
  "fst (foldl (\<lambda>(setup, unbounded) (i, b). (max setup b, unbounded \<or> b \<le> 0)) (a, u) xs) \<ge> a \<and>
   (\<forall>(i, b) \<in> set xs. b \<le> fst (foldl (\<lambda>(setup, unbounded) (i, b). (max setup b, unbounded \<or> b \<le> 0)) (a, u) xs)) \<and>
   (snd (foldl (\<lambda>(setup, unbounded) (i, b). (max setup b, unbounded \<or> b \<le> 0)) (a, u) xs) \<longleftrightarrow> u \<or> (\<exists>(i, b) \<in> set xs. b \<le> (0 :: int)))"
proof (induction xs arbitrary: a u)
  case (Cons x xs)
  obtain i b where x: "x = (i, b)" by fastforce
  show ?case using Cons[of "max a b" "u \<or> b \<le> 0"] unfolding x by auto
qed simp

lemma lifetime_covers_setup:
  assumes "(i, b) \<in> set (inSetup l)"
  shows "b + teardown_bound l \<le> fst (lifetime_bound show_d l)"
    and "b \<le> 0 \<Longrightarrow> orphanSetupBound + teardown_bound l \<le> fst (lifetime_bound show_d l)"
  using setup_bound_fold[of 0 False "inSetup l"] assms
  by (auto simp: lifetime_bound_def setup_bound_def Let_def split: prod.splits if_splits)

end
