(* ===== verification/NameFilter.thy ===== *)
theory NameFilter
  imports RunArgs
begin

text \<open>
  \<^verbatim>\<open>internal/gotestrunner/namefilter.go\<close> and \<^verbatim>\<open>testflags.go\<close>: the \<open>-run\<close>, \<open>-skip\<close> and \<open>-bench\<close>
  patterns read as the testing package reads them, and the check of the test binary's flags before
  anything is built.  Compiling and matching a regular expression, the flag set of the testing
  package and \<open>strconv\<close>'s tables of printable runes are arguments.
\<close>

subsection \<open>Splitting a pattern\<close>

text \<open>\<open>splitTopLevel\<close>: \<open>cs\<close> and \<open>cp\<close> count the open brackets and parentheses, \<open>cur\<close> is the part so far.\<close>

fun split_loop :: "char \<Rightarrow> int \<Rightarrow> int \<Rightarrow> string \<Rightarrow> string \<Rightarrow> string list" where
  "split_loop sep cs cp cur [] = [cur]"
| "split_loop sep cs cp cur (c # s) =
     (if c = CHR ''['' then split_loop sep (cs + 1) cp (cur @ [c]) s
      else if c = CHR '']'' then split_loop sep (if cs - 1 < 0 then 0 else cs - 1) cp (cur @ [c]) s
      else if c = CHR ''('' then split_loop sep cs (if cs = 0 then cp + 1 else cp) (cur @ [c]) s
      else if c = CHR '')'' then split_loop sep cs (if cs = 0 then cp - 1 else cp) (cur @ [c]) s
      else if c = CHR 0x5C then (case s of [] \<Rightarrow> [cur @ [c]] | d # s' \<Rightarrow> split_loop sep cs cp (cur @ [c, d]) s')
      else if c = sep \<and> cs = 0 \<and> cp = 0 then cur # split_loop sep cs cp [] s
      else split_loop sep cs cp (cur @ [c]) s)"

definition splitTopLevel :: "string \<Rightarrow> char \<Rightarrow> string list" where
  "splitTopLevel s sep = split_loop sep 0 0 [] s"

definition splitNameFilter :: "string \<Rightarrow> string list list \<times> bool" where
  "splitNameFilter s = (let alts = map (\<lambda>alt. splitTopLevel alt (CHR ''/'')) (splitTopLevel s (CHR ''|''))
     in (alts, length alts > 1))"

subsection \<open>Rewriting a name\<close>

definition isNameSpace :: "nat \<Rightarrow> bool" where
  "isNameSpace r =
     (if r < 0x2000 then r \<in> {9, 10, 11, 12, 13, 32, 0x85, 0xA0, 0x1680}
      else if r \<le> 0x200A then True
      else r \<in> {0x2028, 0x2029, 0x202F, 0x205F, 0x3000})"

text \<open>A rune as UTF-8 bytes, as \<open>WriteRune\<close> writes it.\<close>

definition encode_rune :: "nat \<Rightarrow> string" where
  "encode_rune r = map char_of
     (if r < 0x80 then [r]
      else if r < 0x800 then [0xC0 + r div 64, 0x80 + r mod 64]
      else if r < 0x10000 then [0xE0 + r div 4096, 0x80 + r div 64 mod 64, 0x80 + r mod 64]
      else [0xF0 + r div 262144, 0x80 + r div 4096 mod 64, 0x80 + r div 64 mod 64, 0x80 + r mod 64])"

text \<open>\<open>printable\<close> is \<open>strconv.IsPrint\<close>; \<open>quoted\<close> is \<open>strconv.QuoteRune\<close> without its quotes.\<close>

function rewriteName :: "(nat \<Rightarrow> bool) \<Rightarrow> (nat \<Rightarrow> string) \<Rightarrow> string \<Rightarrow> string" where
  "rewriteName printable quoted [] = []"
| "rewriteName printable quoted (c # s) =
     (let (r, w) = decode_rune (c # s) in
      (if isNameSpace r then ''_'' else if \<not> printable r then quoted r else encode_rune r) @
      rewriteName printable quoted (drop w (c # s)))"
  by pat_completeness auto
termination by (relation "measure (\<lambda>(p, q, s). length s)") (auto dest: decode_rune_pos)

declare rewriteName.simps(2) [simp del]

subsection \<open>Filters\<close>

text \<open>The regular expressions the code compiles: \<open>compile\<close> gives an expression or its error text.\<close>

record 're regexps =
  compile :: "string \<Rightarrow> string + 're"
  matches :: "'re \<Rightarrow> string \<Rightarrow> bool"
  printable_rune :: "nat \<Rightarrow> bool"
  quoted_rune :: "nat \<Rightarrow> string"
  quote :: "string \<Rightarrow> string"

fun compile_elems :: "'re regexps \<Rightarrow> string \<Rightarrow> nat \<Rightarrow> string list \<Rightarrow> string + 're list" where
  "compile_elems R flagName j [] = Inr []"
| "compile_elems R flagName j (e # es) =
     (let e = rewriteName (printable_rune R) (quoted_rune R) e in
      case compile R e of
        Inl err \<Rightarrow> Inl (''element '' @ itoa (int j) @ '' of '' @ flagName @ '' ('' @ quote R e @ ''): '' @ err)
      | Inr re \<Rightarrow>
          (case compile_elems R flagName (j + 1) es of Inl err \<Rightarrow> Inl err | Inr cs \<Rightarrow> Inr (re # cs)))"

fun compile_alts :: "'re regexps \<Rightarrow> string \<Rightarrow> bool \<Rightarrow> nat \<Rightarrow> string list list \<Rightarrow> string + 're list list" where
  "compile_alts R flagName alternation i [] = Inr []"
| "compile_alts R flagName alternation i (elems # alts) =
     (case compile_elems R flagName 0 elems of
        Inl err \<Rightarrow> Inl (if alternation then ''alternation '' @ itoa (int i) @ '' of '' @ err else err)
      | Inr cs \<Rightarrow>
          (case compile_alts R flagName alternation (i + 1) alts of Inl err \<Rightarrow> Inl err | Inr f \<Rightarrow> Inr (cs # f)))"

definition parseNameFilter :: "'re regexps \<Rightarrow> string \<Rightarrow> string \<Rightarrow> string + 're list list" where
  "parseNameFilter R pattern flagName =
     (let (alts, alternation) = splitNameFilter pattern in compile_alts R flagName alternation 0 alts)"

fun matchTop :: "'re regexps \<Rightarrow> 're list list \<Rightarrow> string \<Rightarrow> bool \<times> bool" where
  "matchTop R [] name = (False, False)"
| "matchTop R (elems # alts) name =
     (if matches R (hd elems) name then (True, length elems > 1) else matchTop R alts name)"

definition selectsFunc :: "'re regexps \<Rightarrow> string \<Rightarrow> string \<Rightarrow> bool" where
  "selectsFunc R userRunFilter funcName =
     (if userRunFilter = [] then True
      else case parseNameFilter R userRunFilter ''-run'' of
          Inl err \<Rightarrow> True
        | Inr f \<Rightarrow> fst (matchTop R f funcName))"

definition skipsFunc :: "'re regexps \<Rightarrow> string \<Rightarrow> string \<Rightarrow> bool" where
  "skipsFunc R userSkipFilter funcName =
     (if userSkipFilter = [] then False
      else case parseNameFilter R userSkipFilter ''-skip'' of
          Inl err \<Rightarrow> False
        | Inr f \<Rightarrow> let (ok, partial) = matchTop R f funcName in ok \<and> \<not> partial)"

definition selectsBench :: "'re regexps \<Rightarrow> string \<Rightarrow> string \<Rightarrow> string \<Rightarrow> string \<Rightarrow> bool" where
  "selectsBench R run bench skip name \<longleftrightarrow> selectsFunc R run name \<and> selectsFunc R bench name \<and> \<not> skipsFunc R skip name"

subsection \<open>The test binary's flags\<close>

text \<open>
  The testing package's flags: \<open>is_bool\<close> says of a flag it defines whether it is boolean; \<open>parse_flags\<close>
  is the error of parsing these words on fresh values.
\<close>

record test_flags =
  is_bool :: "string \<Rightarrow> bool option"
  parse_flags :: "string list \<Rightarrow> string option"

text \<open>The words known to the testing package, and each flag's last value in the order first seen.\<close>

fun set_last :: "string \<Rightarrow> string \<Rightarrow> (string \<times> string) list \<Rightarrow> (string \<times> string) list" where
  "set_last name val [] = [(name, val)]"
| "set_last name val ((n, v) # xs) = (if n = name then (n, val) # xs else (n, v) # set_last name val xs)"

function read_flags :: "test_flags \<Rightarrow> string list \<Rightarrow> string list \<Rightarrow> (string \<times> string) list \<Rightarrow>
    string + string list \<times> (string \<times> string) list" where
  "read_flags F [] known last_vals = Inr (known, last_vals)"
| "read_flags F (arg # rest) known last_vals =
     (if arg = ''-args'' \<or> arg = ''--'' then Inr (known, last_vals)
      else if \<not> hasPrefix arg ''-'' then read_flags F rest known last_vals
      else let (name, value) = cut_eq (trim_left {CHR ''-''} arg) in
        case is_bool F name of
          None \<Rightarrow> read_flags F rest known last_vals
        | Some isBool \<Rightarrow>
            (case value of
               Some v \<Rightarrow> read_flags F rest (known @ [''-'' @ name @ ''='' @ v]) (set_last name v last_vals)
             | None \<Rightarrow>
                 if isBool then read_flags F rest (known @ [''-'' @ name]) (set_last name [] last_vals)
                 else case rest of
                     [] \<Rightarrow> Inl (''flag needs an argument: -'' @ name)
                   | v # ws \<Rightarrow> read_flags F ws (known @ [''-'' @ name @ ''='' @ v]) (set_last name v last_vals)))"
  by pat_completeness auto
termination by (relation "measure (\<lambda>(F, args, k, l). length args)") auto

declare read_flags.simps(2) [simp del]

definition bad_flag :: "'re regexps \<Rightarrow> string \<Rightarrow> string \<Rightarrow> string option" where
  "bad_flag R name val =
     (if name \<in> {''run'', ''skip'', ''bench'', ''fuzz''} then
        (if val = [] then None
         else case parseNameFilter R val (''-'' @ name) of
             Inl err \<Rightarrow> Some (''invalid regexp for '' @ err)
           | Inr f \<Rightarrow> None)
      else if name = ''list'' then
        (case compile R val of
           Inl err \<Rightarrow> Some (''invalid regexp in -list ('' @ quote R val @ ''): '' @ err)
         | Inr re \<Rightarrow> None)
      else if name = ''shuffle'' then
        (if atoi val = None \<and> val \<noteq> ''on'' \<and> val \<noteq> ''off''
         then Some (''invalid value '' @ quote R val @ '' for flag -shuffle: must be off, on or an integer'') else None)
      else if name = ''cpu'' then
        (if list_ex (\<lambda>n. case atoi n of None \<Rightarrow> True | Some c \<Rightarrow> c \<le> 0) (split_byte (CHR '','') val)
         then Some (''invalid value '' @ quote R val @ '' for flag -cpu: must be a list of positive integers'') else None)
      else None)"

fun first_bad :: "'re regexps \<Rightarrow> (string \<times> string) list \<Rightarrow> string option" where
  "first_bad R [] = None"
| "first_bad R ((name, val) # xs) = (case bad_flag R name val of Some e \<Rightarrow> Some e | None \<Rightarrow> first_bad R xs)"

definition ValidateTestFlags :: "'re regexps \<Rightarrow> test_flags \<Rightarrow> string list \<Rightarrow> string option" where
  "ValidateTestFlags R F args =
     (case read_flags F args [] [] of
        Inl err \<Rightarrow> Some err
      | Inr (known, last_vals) \<Rightarrow>
          (case parse_flags F known of Some err \<Rightarrow> Some err | None \<Rightarrow> first_bad R last_vals))"

end
