(* ===== verification/NameFilterProps.thy ===== *)
theory NameFilterProps
  imports NameFilter
begin

text \<open>
  Patterns are split as the testing package splits them, and what the filters built from them decide.
\<close>

subsection \<open>Patterns split as the testing package splits them\<close>

text \<open>
  The testing package's own \<open>splitRegexp\<close> (\<^verbatim>\<open>testing/match.go\<close>): one pass that cuts levels and
  alternatives as it goes; \<open>a\<close> holds the levels of the current alternative.
\<close>

fun testing_loop :: "int \<Rightarrow> int \<Rightarrow> string \<Rightarrow> string list \<Rightarrow> string \<Rightarrow> string list list" where
  "testing_loop cs cp cur a [] = [a @ [cur]]"
| "testing_loop cs cp cur a (c # s) =
     (if c = CHR ''['' then testing_loop (cs + 1) cp (cur @ [c]) a s
      else if c = CHR '']'' then testing_loop (if cs - 1 < 0 then 0 else cs - 1) cp (cur @ [c]) a s
      else if c = CHR ''('' then testing_loop cs (if cs = 0 then cp + 1 else cp) (cur @ [c]) a s
      else if c = CHR '')'' then testing_loop cs (if cs = 0 then cp - 1 else cp) (cur @ [c]) a s
      else if c = CHR 0x5C then (case s of [] \<Rightarrow> [a @ [cur @ [c]]] | d # s' \<Rightarrow> testing_loop cs cp (cur @ [c, d]) a s')
      else if c = CHR ''/'' \<and> cs = 0 \<and> cp = 0 then testing_loop cs cp [] (a @ [cur]) s
      else if c = CHR ''|'' \<and> cs = 0 \<and> cp = 0 then (a @ [cur]) # testing_loop cs cp [] [] s
      else testing_loop cs cp (cur @ [c]) a s)"

definition splitRegexp :: "string \<Rightarrow> string list list" where
  "splitRegexp s = testing_loop 0 0 [] [] s"

text \<open>\<open>done\<close> of an alternative has been read when splitting all of it gives the levels \<open>a\<close> and goes on from there.\<close>

definition read_so_far :: "string \<Rightarrow> string list \<Rightarrow> int \<Rightarrow> int \<Rightarrow> string \<Rightarrow> bool" where
  "read_so_far alt a cs cp cur \<longleftrightarrow>
     (\<forall>rest. split_loop (CHR ''/'') 0 0 [] (alt @ rest) = a @ split_loop (CHR ''/'') cs cp cur rest)"

lemma read_so_far_start: "read_so_far [] [] 0 0 []"
  by (simp add: read_so_far_def)

lemma read_so_far_done: "read_so_far alt a cs cp cur \<Longrightarrow> splitTopLevel alt (CHR ''/'') = a @ [cur]"
  by (drule read_so_far_def[THEN iffD1, rule_format, of _ _ _ _ _ "[]"]) (simp add: splitTopLevel_def)

lemma read_so_far_next:
  assumes "read_so_far alt a cs cp cur"
    and "\<And>rest. split_loop (CHR ''/'') cs cp cur (w @ rest) = b @ split_loop (CHR ''/'') cs' cp' cur' rest"
  shows "read_so_far (alt @ w) (a @ b) cs' cp' cur'"
  using assms by (simp add: read_so_far_def)

lemma split_alternatives:
  "read_so_far alt a cs cp cur \<Longrightarrow>
   map (\<lambda>x. splitTopLevel x (CHR ''/'')) (split_loop (CHR ''|'') cs cp alt s) = testing_loop cs cp cur a s"
proof (induction cs cp cur a s arbitrary: alt rule: testing_loop.induct)
  case (1 cs cp cur a)
  then show ?case by (simp add: read_so_far_done)
next
  case (2 cs cp cur a c s)
  have nxt: "read_so_far (alt @ [c]) a cs' cp' (cur @ [c])"
    if "\<And>rest. split_loop (CHR ''/'') cs cp cur (c # rest) = split_loop (CHR ''/'') cs' cp' (cur @ [c]) rest" for cs' cp'
    using read_so_far_next[OF "2.prems", of "[c]" "[]" cs' cp' "cur @ [c]"] that by simp
  consider (bopen) "c = CHR ''[''" | (bclose) "c = CHR '']''" | (popen) "c = CHR ''(''" | (pclose) "c = CHR '')''"
    | (esc) "c = CHR 0x5C" | (level) "c = CHR ''/''" "cs = 0" "cp = 0" | (alt) "c = CHR ''|''" "cs = 0" "cp = 0"
    | (other) "c \<notin> {CHR ''['', CHR '']'', CHR ''('', CHR '')'', CHR 0x5C}" "\<not> (c = CHR ''/'' \<and> cs = 0 \<and> cp = 0)"
        "\<not> (c = CHR ''|'' \<and> cs = 0 \<and> cp = 0)" by blast
  then show ?case
  proof cases
    case bopen
    then show ?thesis using "2.IH"(1)[OF bopen nxt] by simp
  next
    case bclose
    then show ?thesis using "2.IH"(2)[of "alt @ [c]"] nxt[of "if cs - 1 < 0 then 0 else cs - 1" cp] by simp
  next
    case popen
    then show ?thesis using "2.IH"(3)[of "alt @ [c]"] nxt[of cs "if cs = 0 then cp + 1 else cp"] by simp
  next
    case pclose
    then show ?thesis using "2.IH"(4)[of "alt @ [c]"] nxt[of cs "if cs = 0 then cp - 1 else cp"] by simp
  next
    case esc
    show ?thesis
    proof (cases s)
      case Nil
      have "splitTopLevel (alt @ [c]) (CHR ''/'') = a @ [cur @ [c]]"
        using "2.prems" esc unfolding read_so_far_def splitTopLevel_def by simp
      then show ?thesis using esc Nil by simp
    next
      case (Cons d s')
      have "read_so_far (alt @ [c, d]) a cs cp (cur @ [c, d])"
        using read_so_far_next[OF "2.prems", of "[c, d]" "[]" cs cp "cur @ [c, d]"] esc by simp
      then show ?thesis using "2.IH"(5)[of d s' "alt @ [c, d]"] esc Cons by simp
    qed
  next
    case level
    have "read_so_far (alt @ [c]) (a @ [cur]) cs cp []"
      using read_so_far_next[OF "2.prems", of "[c]" "[cur]" cs cp "[]"] level by simp
    then show ?thesis using "2.IH"(6)[of "alt @ [c]"] level by simp
  next
    case alt
    then show ?thesis using "2.IH"(7)[of "[]"] read_so_far_start read_so_far_done[OF "2.prems"] by simp
  next
    case other
    then show ?thesis using "2.IH"(8)[of "alt @ [c]"] nxt[of cs cp] by auto
  qed
qed

text \<open>
  C16: a pattern is split as the test binary will split it: cutting at the top-level \<open>|\<close> first and
  each alternative at the top-level \<open>/\<close> after gives exactly the elements of the testing package's single
  pass, for every pattern, well-formed or not.
\<close>
theorem splitNameFilter_is_testing:
  "splitNameFilter s = (splitRegexp s, length (splitRegexp s) > 1)"
  using split_alternatives[OF read_so_far_start, of s]
  by (simp add: splitNameFilter_def splitRegexp_def splitTopLevel_def[of s] Let_def)

subsection \<open>The first match decides\<close>

lemma matchTop_first:
  "fst (matchTop R alts name) \<longleftrightarrow> (\<exists>elems \<in> set alts. matches R (hd elems) name)"
  by (induction alts) auto

lemma skips_is_selected: "skipsFunc R f name \<Longrightarrow> f \<noteq> [] \<and> (case parseNameFilter R f ''-skip'' of Inl e \<Rightarrow> False | Inr p \<Rightarrow> fst (matchTop R p name))"
  by (auto simp: skipsFunc_def split: if_splits sum.splits prod.splits)

end
