(* ===== verification/RunGroups.thy ===== *)
theory RunGroups
  imports GoStrings "HOL-Library.List_Lexorder" "HOL-Library.Char_ord"
begin

text \<open>
  \<^verbatim>\<open>internal/gotestrunner/groups.go\<close>, the named groups of a run's suites and their clock, and
  \<^verbatim>\<open>failurelog.go\<close>, which picks a fixture's failures out of the shared fixture process's output.
\<close>

subsection \<open>Selecting groups\<close>

text \<open>A nil set is empty: looking a name up in either gives false.\<close>

record groupSelection =
  only :: "string set"
  skip :: "string set"

definition selects :: "groupSelection \<Rightarrow> string \<Rightarrow> bool" where
  "selects g grp = (if only g \<noteq> {} \<and> grp \<notin> only g then False else grp \<notin> skip g)"

record SuiteTarget =
  Package :: string
  SuiteName :: string
  Group :: string

text \<open>Of the overlay: each package's suites with their groups, and the selection.\<close>

record OverlayResult =
  GroupsByPkg :: "(string \<times> (string \<times> string) list) list"
  groups :: groupSelection

definition knownGroups :: "OverlayResult \<Rightarrow> string list" where
  "knownGroups ov = sorted_list_of_set (set (concat (map (\<lambda>(pkg, suites). map snd suites) (GroupsByPkg ov))))"

definition group_of :: "OverlayResult \<Rightarrow> string \<Rightarrow> string \<Rightarrow> string" where
  "group_of ov pkg suite = (case map_of (GroupsByPkg ov) pkg of
      None \<Rightarrow> []
    | Some suites \<Rightarrow> (case map_of suites suite of None \<Rightarrow> [] | Some g \<Rightarrow> g))"

fun unknown_group :: "(string \<Rightarrow> string) \<Rightarrow> string list \<Rightarrow> string \<Rightarrow> string list \<Rightarrow> string option" where
  "unknown_group q known flag [] = None"
| "unknown_group q known flag (name # ns) =
     (if name \<in> set known then unknown_group q known flag ns
      else Some (flag @ ''='' @ name @ '': no suite declares the group '' @ q name @ ''; known groups: '' @
        (if known \<noteq> [] then join '', '' known else ''none, no suite declares an ExclusiveGroup'')))"

definition selectGroups :: "(string \<Rightarrow> string) \<Rightarrow> OverlayResult \<Rightarrow> string list \<Rightarrow> string list \<Rightarrow> string + OverlayResult" where
  "selectGroups q ov only_names skip_names =
     (case unknown_group q (knownGroups ov) ''--group'' only_names of
        Some err \<Rightarrow> Inl err
      | None \<Rightarrow>
          (case unknown_group q (knownGroups ov) ''--skip-group'' skip_names of
             Some err \<Rightarrow> Inl err
           | None \<Rightarrow> Inr (ov\<lparr>groups := \<lparr>only = set only_names, skip = set skip_names\<rparr>\<rparr>)))"

definition inSelectedGroups :: "SuiteTarget list \<Rightarrow> OverlayResult \<Rightarrow> SuiteTarget list" where
  "inSelectedGroups targets ov =
     filter (\<lambda>t. selects (groups ov) (Group t))
       (map (\<lambda>t. t\<lparr>Group := group_of ov (Package t) (trimPrefix (SuiteName t) ''Test'')\<rparr>) targets)"

subsection \<open>The clock of the groups\<close>

text \<open>A \<open>time.Time\<close> is \<open>None\<close> when zero.\<close>

record groupSpan =
  suites :: int
  first_start :: time
  last_end :: time

type_synonym groupClock = "(string \<times> groupSpan) list"

definition no_span :: groupSpan where "no_span = \<lparr>suites = 0, first_start = None, last_end = None\<rparr>"

definition span :: "groupClock \<Rightarrow> string \<Rightarrow> groupSpan" where
  "span c g = (case map_of c g of Some s \<Rightarrow> s | None \<Rightarrow> no_span)"

definition set_span :: "string \<Rightarrow> groupSpan \<Rightarrow> groupClock \<Rightarrow> groupClock" where
  "set_span g s c = (g, s) # filter (\<lambda>(h, t). h \<noteq> g) c"

definition clock_count :: "SuiteTarget list \<Rightarrow> groupClock \<Rightarrow> groupClock" where
  "clock_count targets c = foldl (\<lambda>c t. if Group t \<noteq> [] then
       set_span (Group t) ((span c (Group t))\<lparr>suites := suites (span c (Group t)) + 1\<rparr>) c else c) c targets"

text \<open>One suite of a group that ran from \<open>start\<close> to \<open>end\<close>.\<close>

definition clock_run :: "string \<Rightarrow> int \<Rightarrow> int \<Rightarrow> groupClock \<Rightarrow> groupClock" where
  "clock_run grp start fin c =
     (if grp = [] then c
      else let s = span c grp;
               s = (if first_start s = None \<or> start < the (first_start s) then s\<lparr>first_start := Some start\<rparr> else s);
               s = (if last_end s = None \<or> the (last_end s) < fin then s\<lparr>last_end := Some fin\<rparr> else s)
           in set_span grp s c)"

record GroupRun =
  GName :: string
  GSuites :: int
  Wall :: duration

definition clock_runs :: "groupClock \<Rightarrow> GroupRun list" where
  "clock_runs c = List.map_filter (\<lambda>name. let s = span c name in
      case (first_start s, last_end s) of
        (Some a, Some b) \<Rightarrow> Some \<lparr>GName = name, GSuites = suites s, Wall = b - a\<rparr>
      | _ \<Rightarrow> None) (sorted_list_of_set (fst ` set c))"

subsection \<open>The failure log\<close>

definition failureLogLimit :: nat where "failureLogLimit = 20"

record failureLog =
  partial :: string
  reports :: "string list"
  passed_on :: string

definition newFailureLog :: failureLog where
  "newFailureLog = \<lparr>partial = [], reports = [], passed_on = []\<rparr>"

definition failureReport :: "string \<Rightarrow> string option" where
  "failureReport l =
     (let l = trim_right {CHR 0x0D} l in
      case cutPrefix l ''FAIL: '' of
        Some report \<Rightarrow> Some report
      | None \<Rightarrow> if str_contains l ''.AfterAll failed: '' \<or> str_contains l ''.AfterAll panicked: '' then Some l else None)"

definition keep_line :: "string \<Rightarrow> string list \<Rightarrow> string list" where
  "keep_line l rs = (case failureReport l of
      Some r \<Rightarrow> if length rs < failureLogLimit then rs @ [r] else rs
    | None \<Rightarrow> rs)"

text \<open>The loop over the whole lines: what is left of the last, and the reports.\<close>

function take_lines :: "string \<Rightarrow> string list \<Rightarrow> string \<times> string list" where
  "take_lines buf rs =
     (case cut buf [CHR 0x0A] of
        None \<Rightarrow> (buf, rs)
      | Some (l, rest) \<Rightarrow> take_lines rest (keep_line l rs))"
  by pat_completeness auto
termination by (relation "measure (\<lambda>(buf, rs). length buf)") (auto dest: cut_shorter)

declare take_lines.simps [simp del]

definition log_write :: "string \<Rightarrow> failureLog \<Rightarrow> failureLog" where
  "log_write p l = (let (rest, rs) = take_lines (partial l @ p) (reports l)
     in l\<lparr>partial := rest, reports := rs, passed_on := passed_on l @ p\<rparr>)"

definition log_take :: "failureLog \<Rightarrow> string list \<times> failureLog" where
  "log_take l = (reports l, l\<lparr>reports := []\<rparr>)"

end
