(* ===== verification/RunGroupsProps.thy ===== *)
theory RunGroupsProps
  imports RunGroups
begin

text \<open>
  The failure log reads whole lines however they are written, and what the groups' clock covers.
\<close>

subsection \<open>Lines, however they are cut\<close>

lemma cut_split_byte:
  "cut s [sep] = (case split_byte sep s of l # m # ls \<Rightarrow> Some (l, join [sep] (m # ls)) | _ \<Rightarrow> None)"
proof (induction s)
  case Nil
  then show ?case by (simp add: cut_def)
next
  case (Cons c s)
  obtain l ls where l: "split_byte sep s = l # ls" by (meson neq_Nil_conv split_byte_ne)
  show ?case
  proof (cases "c = sep")
    case True
    then show ?thesis using l join_split_byte[of sep s] by (simp add: cut_def hasPrefix_def)
  next
    case False
    then show ?thesis using Cons l
      by (cases ls) (auto simp: cut_def hasPrefix_def split: option.splits)
  qed
qed

lemma split_byte_rest: "split_byte sep s = l # m # ls \<Longrightarrow> split_byte sep (join [sep] (m # ls)) = m # ls"
proof (induction s arbitrary: l)
  case (Cons c s)
  obtain k ks where k: "split_byte sep s = k # ks" by (meson neq_Nil_conv split_byte_ne)
  show ?case
  proof (cases "c = sep")
    case True
    then have "split_byte sep s = m # ls" using Cons.prems by simp
    then show ?thesis using join_split_byte[of sep s] by metis
  next
    case False
    then have "split_byte sep s = k # m # ls" using Cons.prems k by simp
    then show ?thesis using Cons.IH by blast
  qed
qed simp

lemma take_lines_split:
  "take_lines buf rs = (last (split_byte (CHR 0x0A) buf), fold keep_line (butlast (split_byte (CHR 0x0A) buf)) rs)"
proof (induction buf rs rule: take_lines.induct)
  case (1 buf rs)
  obtain l ls where l: "split_byte (CHR 0x0A) buf = l # ls" by (meson neq_Nil_conv split_byte_ne)
  show ?case
  proof (cases ls)
    case Nil
    then have "cut buf [CHR 0x0A] = None" using l by (simp add: cut_split_byte)
    then show ?thesis using l Nil join_split_byte[of "CHR 0x0A" buf] by (subst take_lines.simps) simp
  next
    case (Cons m ms)
    then have c: "cut buf [CHR 0x0A] = Some (l, join [CHR 0x0A] ls)" using l by (simp add: cut_split_byte)
    have "split_byte (CHR 0x0A) (join [CHR 0x0A] ls) = ls" using split_byte_rest l Cons by metis
    then show ?thesis using 1[OF c refl] c l Cons by (subst take_lines.simps) simp
  qed
qed

lemma keep_lines: "length rs \<le> failureLogLimit \<Longrightarrow>
  fold keep_line ls rs = take failureLogLimit (rs @ List.map_filter failureReport ls)"
proof (induction ls arbitrary: rs)
  case (Cons l ls)
  then show ?case
    by (cases "failureReport l") (auto simp: keep_line_def map_filter_simps take_Cons')
qed (simp add: map_filter_simps)

lemma log_writes:
  "foldl (\<lambda>l p. log_write p l) newFailureLog chunks =
     \<lparr>partial = last (split_byte (CHR 0x0A) (concat chunks)),
      reports = take failureLogLimit (List.map_filter failureReport (butlast (split_byte (CHR 0x0A) (concat chunks)))),
      passed_on = concat chunks\<rparr>"
proof (induction chunks rule: rev_induct)
  case Nil
  then show ?case by (simp add: newFailureLog_def map_filter_simps)
next
  case (snoc p ps)
  let ?s = "split_byte (CHR 0x0A) (concat ps)"
  have sp: "split_byte (CHR 0x0A) (concat ps @ p) = butlast ?s @ split_byte (CHR 0x0A) (last ?s @ p)"
    by (rule split_byte_append)
  have "take failureLogLimit (take failureLogLimit xs @ ys) = take failureLogLimit (xs @ ys)" for xs ys :: "string list"
    by (cases "length xs \<le> failureLogLimit") simp_all
  then show ?case using snoc sp
    by (simp add: log_write_def take_lines_split keep_lines butlast_append map_filter_def last_append)
qed

text \<open>
  however the output of the shared fixture process is cut into writes, the log passes all of it
  on and keeps the failure reports of its whole lines, the first twenty, in order.
\<close>
theorem log_independent_of_chunks:
  "let l = foldl (\<lambda>l p. log_write p l) newFailureLog chunks in
   passed_on l = concat chunks \<and>
   reports l = take failureLogLimit (List.map_filter failureReport (butlast (split_byte (CHR 0x0A) (concat chunks))))"
  by (simp add: log_writes)

subsection \<open>The clock\<close>

text \<open>What a group's span covers after its suites ran.\<close>

lemma map_of_filter_other: "h \<noteq> g \<Longrightarrow> map_of (filter (\<lambda>(h, t). h \<noteq> g) c) h = map_of c h"
  by (induction c) auto

lemma span_set_span: "span (set_span g s c) h = (if h = g then s else span c h)"
  by (auto simp: span_def set_span_def map_of_filter_other)

lemma clock_run_span:
  "h \<noteq> [] \<Longrightarrow> first_start (span (clock_run h a b c) h) = Some (case first_start (span c h) of None \<Rightarrow> a | Some x \<Rightarrow> min x a)"
  "h \<noteq> [] \<Longrightarrow> last_end (span (clock_run h a b c) h) = Some (case last_end (span c h) of None \<Rightarrow> b | Some x \<Rightarrow> max x b)"
  "g \<noteq> h \<Longrightarrow> span (clock_run h a b c) g = span c g"
  by (auto simp: clock_run_def Let_def span_set_span min_def max_def split: option.splits)

end
