(* ===== verification/Annotations.thy ===== *)
theory Annotations
  imports SpecTree
begin

text \<open>
  \<^verbatim>\<open>internal/gotestspec/annotations.go\<close>: the failures of a run as GitHub workflow commands, each at
  the place its output names, with \<open>collectFailures\<close> of \<^verbatim>\<open>summary.go\<close>.  Paths are those of a Unix
  system.
\<close>

subsection \<open>Failures\<close>

record failure =
  FlPackage :: string
  FlDisplay :: "string list"
  FlDuration :: duration
  FlOutput :: "string list"

fun collectFailedLeaves :: "string \<Rightarrow> string list \<Rightarrow> node \<Rightarrow> failure list" where
  "collectFailedLeaves pkgPath display (Node d cs) =
     (let cur = display @ [Display d]; n = Node d cs
      in (if NStatus d = StatusFail \<and> (cs = [] \<or> hasOwnDiagnostic n \<or> failedOnItsOwn n)
          then [\<lparr>FlPackage = pkgPath, FlDisplay = cur, FlDuration = EffectiveDuration n, FlOutput = Output d\<rparr>] else []) @
         concat (map (collectFailedLeaves pkgPath cur) cs))"

definition collectFailures :: "Package list \<Rightarrow> failure list" where
  "collectFailures packages = concat (map (\<lambda>pkg. concat (map (collectFailedLeaves (Path pkg) []) (Nodes pkg))) packages)"

subsection \<open>Places in the output\<close>

text \<open>\<open>filepath.Base\<close>.\<close>

definition file_base :: "string \<Rightarrow> string" where
  "file_base s =
     (if s = [] then ''.''
      else let t = trim_right {CHR ''/''} s;
               t = (case last_index_byte t (CHR ''/'') of None \<Rightarrow> t | Some k \<Rightarrow> drop (k + 1) t)
           in if t = [] then ''/'' else t)"

definition resolveBasename :: "string \<Rightarrow> string" where
  "resolveBasename file =
     (if file \<noteq> [] \<and> (hd file = CHR ''/'' \<or> length file > 1 \<and> file ! 1 = CHR '':'') then file_base file else file)"

definition isStdlibFile :: "string \<Rightarrow> bool" where
  "isStdlibFile file =
     (case last_index file ''/src/'' of
        None \<Rightarrow> False
      | Some idx \<Rightarrow>
          let after = drop (idx + 5) file;
              seg = (case cut after ''/'' of None \<Rightarrow> after | Some (l, r) \<Rightarrow> l)
          in seg \<noteq> [] \<and> \<not> str_contains seg ''.'')"

definition isTestMainFile :: "string \<Rightarrow> bool" where
  "isTestMainFile file \<longleftrightarrow> file = ''_testmain.go'' \<or> hasSuffix file ''/_testmain.go''"

text \<open>A line's file, line number and message; the empty file is none.\<close>

definition stack_line :: "string \<Rightarrow> string \<Rightarrow> string \<times> int \<times> string" where
  "stack_line rawFile rest =
     (let ds = takeWhile is_digit (trim_space rest) in
      if ds = [] then ([], 0, [])
      else case atoi ds of
          None \<Rightarrow> ([], 0, [])
        | Some ln \<Rightarrow> if isStdlibFile rawFile then (rawFile, ln, []) else (resolveBasename rawFile, ln, []))"

definition parseFileLine :: "string \<Rightarrow> string \<times> int \<times> string" where
  "parseFileLine s0 =
     (let s = trim_space s0 in
      case str_index s ''.go:'' of
        None \<Rightarrow> ([], 0, [])
      | Some idx \<Rightarrow>
          let rawFile = take (idx + 3) s; rest = drop (idx + 4) s
          in case cut rest '':'' of
              Some (lineStr, after) \<Rightarrow>
                (case atoi (trim_space lineStr) of
                   Some ln \<Rightarrow> (resolveBasename rawFile, ln, trim_space after)
                 | None \<Rightarrow> stack_line rawFile rest)
            | None \<Rightarrow> stack_line rawFile rest)"

definition loc_file :: "string \<Rightarrow> string" where "loc_file s = fst (parseFileLine s)"

fun strip_frames :: "string list \<Rightarrow> string list" where
  "strip_frames [] = []"
| "strip_frames [l] = [l]"
| "strip_frames (l # m # ls) =
     (let f = loc_file m in
      if f \<noteq> [] \<and> (isStdlibFile f \<or> isTestMainFile f) then strip_frames ls else l # strip_frames (m # ls))"

definition stripStdlibFrames :: "string \<Rightarrow> string" where
  "stripStdlibFrames msg = join [CHR 0x0A] (strip_frames (split_byte (CHR 0x0A) msg))"

text \<open>The message of the lines from one on.\<close>

definition message_part :: "string \<Rightarrow> string" where
  "message_part l = (let (f, n, m) = parseFileLine l in if m \<noteq> [] then m else l)"

definition gatherMessage :: "string list \<Rightarrow> nat \<Rightarrow> string" where
  "gatherMessage ls from =
     (let (f, n, msg) = parseFileLine (ls ! from)
      in stripStdlibFrames (join [CHR 0x0A] ((if msg \<noteq> [] then [msg] else []) @ map message_part (drop (from + 1) ls))))"

fun first_loc :: "string list \<Rightarrow> nat \<Rightarrow> string list \<Rightarrow> (string \<times> int \<times> nat) option \<Rightarrow> string \<times> int \<times> string" where
  "first_loc all i [] found =
     (case found of
        Some (f, ln, k) \<Rightarrow> (f, ln, gatherMessage all k)
      | None \<Rightarrow> ([], 0, join [CHR 0x0A] all))"
| "first_loc all i (l # ls) found =
     (let (f, ln, m) = parseFileLine l in
      if f = [] then first_loc all (i + 1) ls found
      else let found = (if found = None then Some (f, ln, i) else found) in
        if isStdlibFile f \<or> f = ''testing.go'' then first_loc all (i + 1) ls found
        else (f, ln, gatherMessage all i))"

definition parseFirstLocation :: "string list \<Rightarrow> string \<times> int \<times> string" where
  "parseFirstLocation ls = first_loc ls 0 ls None"

subsection \<open>Annotations\<close>

record Annotation =
  AFile :: string
  ALine :: int
  ACol :: int
  ATitle :: string
  AMessage :: string

definition packageDir :: "string \<Rightarrow> string \<Rightarrow> string" where
  "packageDir pkgPath modulePath =
     (if modulePath = [] then pkgPath
      else case cutPrefix pkgPath modulePath of None \<Rightarrow> pkgPath | Some rel \<Rightarrow> trimPrefix rel ''/'')"

definition resolveAnnotationPath :: "string \<Rightarrow> string \<Rightarrow> string" where
  "resolveAnnotationPath file pkgDir = (if file = [] then file else if pkgDir \<noteq> [] then pkgDir @ ''/'' @ file else file)"

fun diagnosticTitle :: "string list \<Rightarrow> string" where
  "diagnosticTitle [] = ''package-level failure''"
| "diagnosticTitle (l # ls) =
     (let t = trim_space l in
      if hasPrefix t ''WARNING: DATA RACE'' then ''data race detected''
      else if hasPrefix t ''panic:'' then t
      else if hasPrefix t ''fatal error:'' then t
      else diagnosticTitle ls)"

text \<open>One annotation at the first place of some output, if it names any.\<close>

definition annotate :: "string \<Rightarrow> string list \<Rightarrow> string \<Rightarrow> Annotation list" where
  "annotate dir output title =
     (let (file, ln, msg) = parseFirstLocation (filterOutput output) in
      if file = [] then []
      else [\<lparr>AFile = resolveAnnotationPath file dir, ALine = ln, ACol = 0, ATitle = title, AMessage = msg\<rparr>])"

definition CollectAnnotations :: "Package list \<Rightarrow> string \<Rightarrow> Annotation list" where
  "CollectAnnotations packages modulePath =
     concat (map (\<lambda>f. annotate (packageDir (FlPackage f) modulePath) (FlOutput f) (join '' / '' (FlDisplay f)))
       (collectFailures packages)) @
     concat (map (\<lambda>pkg. if PStatus pkg \<noteq> StatusFail \<or> POutput pkg = [] then []
         else annotate (packageDir (Path pkg) modulePath) (POutput pkg) (diagnosticTitle (POutput pkg))) packages)"

subsection \<open>Writing them\<close>

definition annotationCap :: nat where "annotationCap = 1024"

text \<open>The cut moves back to the start of a character.\<close>

fun cut_back :: "string \<Rightarrow> nat \<Rightarrow> nat" where
  "cut_back s 0 = 0"
| "cut_back s (Suc k) = (if rune_start (s ! Suc k) then Suc k else cut_back s k)"

definition truncateRunes :: "string \<Rightarrow> nat \<Rightarrow> string" where
  "truncateRunes s limit =
     (if length s \<le> limit then s else take (cut_back s (limit - length ''...'')) s @ ''...'')"

text \<open>The replacers of single bytes.\<close>

definition dataEscaper :: "char \<Rightarrow> string" where
  "dataEscaper c = (if c = CHR ''%'' then ''%25'' else if c = CHR 0x0D then ''%0D'' else if c = CHR 0x0A then ''%0A'' else [c])"

definition propertyEscaper :: "char \<Rightarrow> string" where
  "propertyEscaper c = (if c = CHR '':'' then ''%3A'' else if c = CHR '','' then ''%2C'' else dataEscaper c)"

definition escapeData :: "string \<Rightarrow> string" where "escapeData s = concat (map dataEscaper s)"
definition escapeProperty :: "string \<Rightarrow> string" where "escapeProperty s = concat (map propertyEscaper s)"

definition annotation_props :: "Annotation \<Rightarrow> string" where
  "annotation_props a =
     ''file='' @ escapeProperty (AFile a) @
     (if ALine a > 0 then '',line='' @ itoa (ALine a) @ (if ACol a > 0 then '',col='' @ itoa (ACol a) else []) else []) @
     '',title='' @ escapeProperty (ATitle a)"

definition annotation_command :: "Annotation \<Rightarrow> string" where
  "annotation_command a = ''::error '' @ annotation_props a @ ''::'' @ escapeData (truncateRunes (AMessage a) annotationCap) @ [CHR 0x0A]"

definition WriteGitHubAnnotations :: "Annotation list \<Rightarrow> string" where
  "WriteGitHubAnnotations as = concat (map annotation_command as)"

text \<open>\<open>ReadModulePath\<close> on the lines of the file.\<close>

fun module_path :: "string list \<Rightarrow> string" where
  "module_path [] = []"
| "module_path (l # ls) =
     (case cutPrefix (trim_space l) ''module '' of Some m \<Rightarrow> trim_space m | None \<Rightarrow> module_path ls)"

end
