(* ===== verification/AnnotationsProps.thy ===== *)
theory AnnotationsProps
  imports Annotations
begin

text \<open>
  The annotations of \<^verbatim>\<open>annotations.go\<close> read back by a runner: a reference reader of workflow
  commands, that the escapes are undone by it and keep the separators out, and that what
  \<open>WriteGitHubAnnotations\<close> writes is one readable command per annotation.
\<close>

text \<open>A reader of workflow commands, as GitHub documents them: the properties up to the first
  \<open>::\<close>, split at commas, each at its first equals sign, and the escapes undone.\<close>

definition escapes :: "(string \<times> char) list" where
  "escapes = [(''25'', CHR ''%''), (''0D'', CHR 0x0D), (''0A'', CHR 0x0A), (''3A'', CHR '':''), (''2C'', CHR '','')]"

function unescape :: "string \<Rightarrow> string" where
  "unescape [] = []"
| "unescape (c # cs) =
     (case (if c = CHR ''%'' then map_of escapes (take 2 cs) else None) of
        Some d \<Rightarrow> d # unescape (drop 2 cs)
      | None \<Rightarrow> c # unescape cs)"
  by pat_completeness auto
termination by (relation "measure length") auto

declare unescape.simps(2) [simp del]

definition read_prop :: "string \<Rightarrow> string \<times> string" where
  "read_prop p = (case cut p ''='' of Some (k, v) \<Rightarrow> (k, unescape v) | None \<Rightarrow> (p, []))"

definition read_command :: "string \<Rightarrow> ((string \<times> string) list \<times> string) option" where
  "read_command l =
     (case cutPrefix l ''::error '' of
        None \<Rightarrow> None
      | Some r \<Rightarrow> (case cut r ''::'' of
            None \<Rightarrow> None
          | Some (p, m) \<Rightarrow> Some (map read_prop (split_byte (CHR '','') p), unescape m)))"

definition props_of :: "Annotation \<Rightarrow> (string \<times> string) list" where
  "props_of a =
     [(''file'', AFile a)] @ (if ALine a > 0 then [(''line'', itoa (ALine a))] else []) @
     (if ALine a > 0 \<and> ACol a > 0 then [(''col'', itoa (ACol a))] else []) @ [(''title'', ATitle a)]"

lemma unescape_escape:
  "map_of escapes [a, b] = Some c \<Longrightarrow> unescape (CHR ''%'' # a # b # r) = c # unescape r"
  by (simp add: unescape.simps(2))

lemma unescape_plain: "c \<noteq> CHR ''%'' \<Longrightarrow> unescape (c # r) = c # unescape r"
  by (simp add: unescape.simps(2))

lemma unescape_dataEscaper: "unescape (dataEscaper c @ r) = c # unescape r"
  by (auto simp: dataEscaper_def escapes_def intro!: unescape_escape unescape_plain)

lemma unescape_propertyEscaper: "unescape (propertyEscaper c @ r) = c # unescape r"
  by (auto simp: propertyEscaper_def unescape_dataEscaper escapes_def intro!: unescape_escape)

lemma unescape_data: "unescape (escapeData s) = s"
  by (induction s) (simp_all add: escapeData_def unescape_dataEscaper)

lemma unescape_property: "unescape (escapeProperty s) = s"
  by (induction s) (simp_all add: escapeProperty_def unescape_propertyEscaper)

lemma escapeData_clean: "CHR 0x0A \<notin> set (escapeData s)" "CHR 0x0D \<notin> set (escapeData s)"
  by (auto simp: escapeData_def dataEscaper_def split: if_splits)

lemma escapeProperty_clean:
  "CHR 0x0A \<notin> set (escapeProperty s)" "CHR 0x0D \<notin> set (escapeProperty s)"
  "CHR '':'' \<notin> set (escapeProperty s)" "CHR '','' \<notin> set (escapeProperty s)"
  by (auto simp: escapeProperty_def propertyEscaper_def dataEscaper_def split: if_splits)

lemma str_index_here: "c \<notin> set a \<Longrightarrow> str_index (a @ c # t @ b) (c # t) = Some (length a)"
proof (induction a)
  case Nil
  then show ?case by (simp add: hasPrefix_def)
next
  case (Cons x a)
  then have "\<not> hasPrefix (x # a @ c # t @ b) (c # t)" by (auto simp: hasPrefix_def)
  then show ?case using Cons by simp
qed

lemma cut_here: "c \<notin> set a \<Longrightarrow> cut (a @ c # t @ b) (c # t) = Some (a, b)"
  by (simp add: cut_def str_index_here del: append_Cons)
lemma split_byte_one: "c \<notin> set a \<Longrightarrow> split_byte c a = [a]"
  by (induction a) auto

lemma split_byte_here: "c \<notin> set a \<Longrightarrow> split_byte c (a @ c # b) = a # split_byte c b"
  by (induction a) auto

lemma digits_clean: "\<not> is_digit c \<Longrightarrow> c \<notin> set (digits n)"
  using digits_digit[of n] by (auto simp: list_all_iff)

lemma itoa_clean: "\<not> is_digit c \<Longrightarrow> c \<noteq> CHR ''-'' \<Longrightarrow> c \<notin> set (itoa i)"
  by (auto simp: itoa_def dest: digits_clean)

lemma unescape_clean: "CHR ''%'' \<notin> set s \<Longrightarrow> unescape s = s"
  by (induction s) (auto simp: unescape_plain)

lemma unescape_itoa: "unescape (itoa i) = itoa i"
  by (rule unescape_clean, rule itoa_clean) (simp_all add: is_digit_def)

lemma read_prop_here: "CHR ''='' \<notin> set k \<Longrightarrow> read_prop (k @ CHR ''='' # v) = (k, unescape v)"
  using cut_here[of "CHR ''=''" k "[]" v] by (simp add: read_prop_def)

text \<open>The properties, one string each.\<close>

definition prop_strings :: "Annotation \<Rightarrow> string list" where
  "prop_strings a =
     [''file'' @ CHR ''='' # escapeProperty (AFile a)] @
     (if ALine a > 0 then [''line'' @ CHR ''='' # itoa (ALine a)] else []) @
     (if ALine a > 0 \<and> ACol a > 0 then [''col'' @ CHR ''='' # itoa (ACol a)] else []) @
     [''title'' @ CHR ''='' # escapeProperty (ATitle a)]"

lemma read_props: "map read_prop (prop_strings a) = props_of a"
proof -
  have "read_prop (''file'' @ CHR ''='' # v) = (''file'', unescape v)" "read_prop (''line'' @ CHR ''='' # v) = (''line'', unescape v)"
    "read_prop (''col'' @ CHR ''='' # v) = (''col'', unescape v)" "read_prop (''title'' @ CHR ''='' # v) = (''title'', unescape v)" for v
    by (rule read_prop_here; simp)+
  then show ?thesis
    by (simp add: prop_strings_def props_of_def unescape_property unescape_itoa del: append_Cons)
qed

lemma annotation_props_join: "annotation_props a = join '','' (prop_strings a)"
  by (simp add: annotation_props_def prop_strings_def)

lemma prop_strings_clean:
  assumes "c \<in> {CHR '','', CHR '':'', CHR 0x0A, CHR 0x0D}" "s \<in> set (prop_strings a)"
  shows "c \<notin> set s"
proof -
  have "c \<notin> set (itoa i)" for i
    by (rule itoa_clean) (use assms(1) in \<open>auto simp: is_digit_def\<close>)
  moreover have "c \<notin> set (escapeProperty v)" for v
    using assms(1) escapeProperty_clean[of v] by auto
  ultimately show ?thesis
    using assms by (auto simp: prop_strings_def split: if_splits)
qed

lemma split_join: "(\<And>s. s \<in> set ss \<Longrightarrow> c \<notin> set s) \<Longrightarrow> ss \<noteq> [] \<Longrightarrow> split_byte c (join [c] ss) = ss"
  by (induction "[c]" ss rule: join.induct) (auto simp: split_byte_one split_byte_here)

lemma set_join: "set (join sep ss) \<subseteq> set sep \<union> (\<Union>s \<in> set ss. set s)"
  by (induction sep ss rule: join.induct) auto

lemma annotation_props_clean:
  "CHR '':'' \<notin> set (annotation_props a)" "CHR 0x0A \<notin> set (annotation_props a)"
  using set_join[of "'',''" "prop_strings a"] prop_strings_clean[of _ _ a]
  by (auto simp: annotation_props_join)

definition command_line :: "Annotation \<Rightarrow> string" where
  "command_line a = ''::error '' @ annotation_props a @ CHR '':'' # '':'' @ escapeData (truncateRunes (AMessage a) annotationCap)"

lemma read_command_line: "read_command (command_line a) = Some (props_of a, truncateRunes (AMessage a) annotationCap)"
proof -
  let ?m = "truncateRunes (AMessage a) annotationCap"
  have "cutPrefix (command_line a) ''::error '' = Some (annotation_props a @ CHR '':'' # '':'' @ escapeData ?m)"
    unfolding command_line_def by (rule cutPrefix_append)
  moreover have "cut (annotation_props a @ CHR '':'' # '':'' @ escapeData ?m) (CHR '':'' # '':'') = Some (annotation_props a, escapeData ?m)"
    by (rule cut_here) (rule annotation_props_clean)
  moreover have "split_byte (CHR '','') (annotation_props a) = prop_strings a"
    unfolding annotation_props_join by (rule split_join, rule prop_strings_clean) (simp_all add: prop_strings_def)
  ultimately show ?thesis
    by (simp add: read_command_def read_props unescape_data)
qed

lemma command_split: "split_byte (CHR 0x0A) (WriteGitHubAnnotations as) = map command_line as @ [[]]"
proof (induction as)
  case Nil
  then show ?case by (simp add: WriteGitHubAnnotations_def)
next
  case (Cons a as)
  have "CHR 0x0A \<notin> set (command_line a)"
    using annotation_props_clean(2) escapeData_clean(1) by (auto simp: command_line_def)
  moreover have "WriteGitHubAnnotations (a # as) = command_line a @ CHR 0x0A # WriteGitHubAnnotations as"
    by (simp add: WriteGitHubAnnotations_def annotation_command_def command_line_def)
  ultimately show ?case using Cons.IH split_byte_here[of "CHR 0x0A" "command_line a"] by (simp del: append_Cons append_assoc)
qed

lemma cut_back_start: "cut_back s k = 0 \<or> rune_start (s ! cut_back s k)"
  by (induction k) auto

lemma cut_back_le: "cut_back s k \<le> k"
  by (induction k) auto

text \<open>C17. A runner that reads the written annotations line by line gets one command per
  annotation, with its file, line, column and title as they are, whatever bytes they hold, and with
  its message as it is up to 1024 bytes: a longer one is cut where a character starts, with an
  ellipsis, and is no longer than that.\<close>

theorem annotations_roundtrip:
  "map read_command (butlast (split_byte (CHR 0x0A) (WriteGitHubAnnotations as))) =
     map (\<lambda>a. Some (props_of a, truncateRunes (AMessage a) annotationCap)) as \<and>
   (\<forall>m. length (truncateRunes m annotationCap) \<le> 1024 \<and>
     (if length m \<le> 1024 then truncateRunes m annotationCap = m
      else (\<exists>k. truncateRunes m annotationCap = take k m @ ''...'' \<and> k < length m \<and> (k = 0 \<or> rune_start (m ! k)))))"
proof (rule conjI)
  show "map read_command (butlast (split_byte (CHR 0x0A) (WriteGitHubAnnotations as))) =
     map (\<lambda>a. Some (props_of a, truncateRunes (AMessage a) annotationCap)) as"
    by (simp add: command_split read_command_line)
next
  have "length (truncateRunes m annotationCap) \<le> 1024 \<and>
     (if length m \<le> 1024 then truncateRunes m annotationCap = m
      else (\<exists>k. truncateRunes m annotationCap = take k m @ ''...'' \<and> k < length m \<and> (k = 0 \<or> rune_start (m ! k))))" for m
    using cut_back_le[of m 1021] cut_back_start[of m 1021]
    by (auto simp: truncateRunes_def annotationCap_def intro!: exI[of _ "cut_back m 1021"])
  then show "\<forall>m. length (truncateRunes m annotationCap) \<le> 1024 \<and>
     (if length m \<le> 1024 then truncateRunes m annotationCap = m
      else (\<exists>k. truncateRunes m annotationCap = take k m @ ''...'' \<and> k < length m \<and> (k = 0 \<or> rune_start (m ! k))))"
    by blast
qed

text \<open>The module's path is cut off without looking for the end of its last element.\<close>

lemma packageDir_cuts_inside_name: "packageDir ''m.org/foobar/x'' ''m.org/foo'' = ''bar/x''"
  by (simp add: packageDir_def cutPrefix_def hasPrefix_def trimPrefix_def)

end
