(* ===== verification/Binding.thy ===== *)
theory Binding
  imports Protocol "HOL-Library.List_Lexorder" "HOL-Library.Char_ord"
begin

text \<open>
  \<^verbatim>\<open>internal/gotestgen/binding.go\<close>: from the fields of the suites to the fixtures a package needs, in the
  order they are set up.  What \<open>go/types\<close> says of the types is the argument \<open>universe\<close>: a named type is
  a number, aliases are resolved, and a field's type is a \<open>gtype\<close>.  A walk over types carries a
  fuel; \<open>OutOfFuel\<close> is a walk that has not returned.
\<close>

subsection \<open>What go/types tells\<close>

datatype gtype =
    GBasic bool \<comment> \<open>a string or an integer\<close>
  | GChan
  | GSignature
  | GArray gtype
  | GSlice gtype
  | GMap gtype gtype
  | GPointer gtype
  | GStruct "gfield list"
  | GNamed nat
  | GOther
and gfield = Field (FName: string) (Exported: bool) (Anonymous: bool) (FType: gtype)

datatype type_arg = NamedArg "string option" string | OtherArg string

record method_decl =
  MName :: string
  MPtrRecv :: bool
  MParams :: "string list"
  MResults :: "string list"

record named_type =
  TyName :: string
  TyArgs :: "type_arg list"
  TyPkgPath :: string
  TyPkgName :: string
  TyMethods :: "method_decl list"

text \<open>\<open>LocalFields\<close> is \<open>ClassifyLocalFieldsRaw\<close> on the body of \<open>Hydrate\<close>, \<open>InMethodSet\<close> the look-up in the
  method set of the pointer, promoted methods included.\<close>

record universe =
  Univ :: "nat \<Rightarrow> named_type"
  Und :: "nat \<Rightarrow> gtype"
  LocalFieldsOf :: "nat \<Rightarrow> string \<Rightarrow> bool"
  InMethodSet :: "nat \<Rightarrow> string \<Rightarrow> bool"
  TargetPkg :: string

definition underlying :: "universe \<Rightarrow> gtype \<Rightarrow> gtype" where
  "underlying U t = (case t of GNamed n \<Rightarrow> Und U n | _ \<Rightarrow> t)"

definition declaredMethod :: "universe \<Rightarrow> nat \<Rightarrow> string \<Rightarrow> method_decl option" where
  "declaredMethod U n name = List.find (\<lambda>m. MName m = name) (TyMethods (Univ U n))"

definition declaresHook :: "universe \<Rightarrow> nat \<Rightarrow> string \<Rightarrow> bool" where
  "declaresHook U n name = (declaredMethod U n name \<noteq> None)"

definition hasCtxErrSignature :: "method_decl \<Rightarrow> bool" where
  "hasCtxErrSignature m \<longleftrightarrow> MParams m = [''context.Context''] \<and> MResults m = [''error'']"

definition isInternalPkgPath :: "string \<Rightarrow> bool" where
  "isInternalPkgPath p \<longleftrightarrow> hasPrefix p ''internal/'' \<or> hasSuffix p ''/internal'' \<or> str_contains p ''/internal/''"

definition pointerNamed :: "gfield \<Rightarrow> nat option" where
  "pointerNamed f = (case FType f of GPointer (GNamed n) \<Rightarrow> Some n | _ \<Rightarrow> None)"

definition fixtureIdentifier :: "named_type \<Rightarrow> string" where
  "fixtureIdentifier T =
     TyName T @ (if TyArgs T = [] then []
       else ''_'' @ join ''_'' (map (\<lambda>a. case a of NamedArg p n \<Rightarrow> n | OtherArg s \<Rightarrow> s) (TyArgs T)))"

definition qualified_arg :: "string \<Rightarrow> type_arg \<Rightarrow> string" where
  "qualified_arg pkgName a =
     (case a of
        NamedArg (Some p) n \<Rightarrow> if p \<noteq> pkgName then p @ ''.'' @ n else n
      | NamedArg None n \<Rightarrow> n
      | OtherArg s \<Rightarrow> s)"

definition fixtureQualifiedType :: "named_type \<Rightarrow> string \<Rightarrow> string" where
  "fixtureQualifiedType T pkgName =
     (let name = TyName T @ (if TyArgs T = [] then []
        else ''['' @ join '', '' (map (qualified_arg pkgName) (TyArgs T)) @ '']'')
      in if pkgName \<noteq> [] then pkgName @ ''.'' @ name else name)"

subsection \<open>Fields that can be transferred\<close>

definition isJSONMapKey :: "universe \<Rightarrow> gtype \<Rightarrow> bool" where
  "isJSONMapKey U t = (case underlying U t of GBasic b \<Rightarrow> b | _ \<Rightarrow> False)"

fun struct_reason :: "(gtype \<Rightarrow> string option) \<Rightarrow> gfield list \<Rightarrow> string option" where
  "struct_reason f [] = Some []"
| "struct_reason f (x # xs) =
     (if \<not> Exported x then struct_reason f xs
      else case f (FType x) of
          None \<Rightarrow> None
        | Some r \<Rightarrow> if r \<noteq> [] then Some (r @ '' in field '' @ FName x) else struct_reason f xs)"

fun nonSerializable :: "universe \<Rightarrow> nat \<Rightarrow> gtype \<Rightarrow> string option" where
  "nonSerializable U 0 t = None"
| "nonSerializable U (Suc k) t =
     (case underlying U t of
        GChan \<Rightarrow> Some ''channel''
      | GSignature \<Rightarrow> Some ''function''
      | GArray e \<Rightarrow> nonSerializable U k e
      | GSlice e \<Rightarrow> nonSerializable U k e
      | GMap key e \<Rightarrow>
          (case nonSerializable U k key of
             None \<Rightarrow> None
           | Some r \<Rightarrow>
               if r \<noteq> [] then Some (r @ '' in map key'')
               else if \<not> isJSONMapKey U key then Some ''non-string/integer map key''
               else nonSerializable U k e)
      | GPointer e \<Rightarrow> nonSerializable U k e
      | GStruct fs \<Rightarrow> struct_reason (nonSerializable U k) fs
      | _ \<Rightarrow> Some [])"

subsection \<open>The state of a binding\<close>

datatype bind_error =
    OutOfFuel
  | EmbeddingCycle string
  | SharedCycle string
  | NotStruct string
  | ValueReceiver string string
  | SharedEach string string
  | HookSignature string string
  | MethodSignature string string
  | WrongMethod string string
  | MissingBeforeAll string
  | UnpairedHydrate string
  | InternalPackage string string
  | TwoParentFields string string string string
  | NeedsPackageFixture string string
  | NotSerializable string string string
  | ValueField string string string
  | TwoFixtureFields string string string string
  | BenchmarkHooks string string
  | FuzzHooks string string
  | SharedSortCycle "string list"
  | FixtureSortCycle

definition guarded :: "bind_error option \<Rightarrow> bind_error + 'a \<Rightarrow> bind_error + 'a" where
  "guarded c r = (case c of Some e \<Rightarrow> Inl e | None \<Rightarrow> r)"

record SharedFixtureInfo =
  SIdentifier :: string
  SPkgPath :: string
  SPkgName :: string
  SIDPrefix :: string
  SNamed :: nat
  SQualifiedType :: string
  SHasConfig :: bool
  SHasAfterAll :: bool
  SHasHydrate :: bool
  SHasDehydrate :: bool
  TransferFields :: "string list"
  LocalFields :: "string list"
  Dependencies :: "string list"
  DependencyFields :: "string \<rightharpoonup> string"
  Deferred :: bool

record SharedFixtureRef =
  RLocalVar :: string
  RQualifiedType :: string
  RFieldName :: string
  RStateKey :: string
  RIdentifier :: string
  RHasHydrate :: bool
  RHasDehydrate :: bool
  RPkgPath :: string

datatype fixture_kind = PackageFixture | SharedFixture

record BoundFixture =
  BKind :: fixture_kind
  BIdentifier :: string
  BQualifiedType :: string
  BPkgPath :: string
  BPkgName :: string
  BHasConfig :: bool
  BBeforeAll :: bool
  BAfterAll :: bool
  BBeforeEach :: bool
  BAfterEach :: bool
  BHasHydrate :: bool
  BHasDehydrate :: bool
  BParents :: "nat list"
  BParentFields :: "nat \<rightharpoonup> string"
  BSharedFixtures :: "SharedFixtureRef list"

text \<open>The maps of the \<open>binder\<close> are lists of their entries, the newest last; a fixture's children,
  which grow while it is on other fixtures' lists, are kept by its type.\<close>

record bind_state =
  Resolved :: "(nat \<times> BoundFixture) list"
  Resolving :: "nat list"
  SharedSeen :: "(string \<times> SharedFixtureInfo) list"
  SharedResolving :: "string list"
  Prefixes :: "(string \<times> string) list"
  BChildren :: "nat \<Rightarrow> nat list"

text \<open>The first free prefix: the taken ones are those given out.\<close>

fun free_prefix :: "nat \<Rightarrow> string \<Rightarrow> string list \<Rightarrow> nat \<Rightarrow> string" where
  "free_prefix 0 name taken i = name @ itoa (int i)"
| "free_prefix (Suc k) name taken i =
     (let pre = name @ itoa (int i) in if pre \<in> set taken then free_prefix k name taken (i + 1) else pre)"

definition prefix :: "string \<Rightarrow> string \<Rightarrow> bind_state \<Rightarrow> string \<times> bind_state" where
  "prefix path name s =
     (case map_of (Prefixes s) path of
        Some pre \<Rightarrow> (pre, s)
      | None \<Rightarrow>
          let taken = map snd (Prefixes s);
              pre = (if name \<in> set taken then free_prefix (length taken) name taken 1 else name)
          in (pre, s\<lparr>Prefixes := Prefixes s @ [(path, pre)]\<rparr>))"

subsection \<open>Hooks\<close>

definition hook_names :: "string list" where
  "hook_names = [''BeforeAll'', ''AfterAll'', ''BeforeEach'', ''AfterEach'',
     ''Hydrate'', ''Dehydrate'', ''FixtureConfig'', ''SharedFixtureConfig'']"

definition rejectValueReceiverHooks :: "universe \<Rightarrow> nat \<Rightarrow> string \<Rightarrow> bind_error option" where
  "rejectValueReceiverHooks U n identifier =
     (case List.find (\<lambda>m. MName m \<in> set hook_names \<and> \<not> MPtrRecv m) (TyMethods (Univ U n)) of
        Some m \<Rightarrow> Some (ValueReceiver identifier (MName m))
      | None \<Rightarrow> None)"

definition SharedEachHook :: "universe \<Rightarrow> nat \<Rightarrow> bind_error option" where
  "SharedEachHook U n =
     (case List.find (InMethodSet U n) [''BeforeEach'', ''AfterEach''] of
        Some h \<Rightarrow> Some (SharedEach (TyName (Univ U n)) h)
      | None \<Rightarrow> None)"

text \<open>The first of some hooks with a wrong signature.\<close>

definition bad_hook :: "universe \<Rightarrow> nat \<Rightarrow> string \<Rightarrow> string list \<Rightarrow> bind_error option" where
  "bad_hook U n identifier hooks =
     (case List.find (\<lambda>h. case declaredMethod U n h of None \<Rightarrow> False | Some m \<Rightarrow> \<not> hasCtxErrSignature m) hooks of
        Some h \<Rightarrow> Some (HookSignature identifier h)
      | None \<Rightarrow> None)"

definition detectConfigMethod :: "universe \<Rightarrow> nat \<Rightarrow> fixture_kind \<Rightarrow> bool" where
  "detectConfigMethod U n kind =
     declaresHook U n (case kind of PackageFixture \<Rightarrow> ''FixtureConfig'' | SharedFixture \<Rightarrow> ''SharedFixtureConfig'')"

definition FixtureMethodError :: "fixture_kind \<Rightarrow> string \<Rightarrow> method_decl \<Rightarrow> bind_error option" where
  "FixtureMethodError kind fixture m =
     (let name = MName m in
      if name = ''FixtureConfig'' \<or> name = ''SharedFixtureConfig'' then
        (if kind = SharedFixture \<and> name = ''FixtureConfig'' \<or> kind = PackageFixture \<and> name = ''SharedFixtureConfig''
         then Some (WrongMethod fixture name)
         else if MParams m \<noteq> [] \<or> length (MResults m) \<noteq> 1 \<or> \<not> hasSuffix (hd (MResults m)) ''/gotest.FixtureConfig''
         then Some (MethodSignature fixture name) else None)
      else if name = ''Hydrate'' \<or> name = ''Dehydrate'' then
        (if kind \<noteq> SharedFixture then Some (WrongMethod fixture name)
         else if \<not> hasCtxErrSignature m then Some (MethodSignature fixture name) else None)
      else if name \<in> {''BeforeAll'', ''AfterAll'', ''BeforeEach'', ''AfterEach''} then
        (if kind = SharedFixture \<and> name \<in> {''BeforeEach'', ''AfterEach''} then Some (SharedEach fixture name)
         else if \<not> hasCtxErrSignature m then Some (MethodSignature fixture name) else None)
      else None)"

text \<open>The first error of a package fixture's other methods.\<close>

definition bad_method :: "universe \<Rightarrow> nat \<Rightarrow> string \<Rightarrow> bind_error option" where
  "bad_method U n identifier =
     (case List.map_filter (\<lambda>name. case declaredMethod U n name of None \<Rightarrow> None | Some m \<Rightarrow> FixtureMethodError PackageFixture identifier m)
        [''FixtureConfig'', ''SharedFixtureConfig'', ''Hydrate'', ''Dehydrate''] of
        [] \<Rightarrow> None | e # es \<Rightarrow> Some e)"

end
