(* ===== verification/BindWalk.thy ===== *)
theory BindWalk
  imports Binding
begin

text \<open>
  The walks of \<^verbatim>\<open>binding.go\<close>: \<open>registerSharedFixture\<close> and \<open>resolveFixture\<close>, from a type through its
  fields to the registries of shared and of package fixtures.  Theory \<open>Bind\<close> sorts what they
  registered and composes the whole.
\<close>

subsection \<open>Shared fixtures\<close>

definition state_key :: "universe \<Rightarrow> nat \<Rightarrow> string" where
  "state_key U n = TyPkgPath (Univ U n) @ ''.'' @ fixtureIdentifier (Univ U n)"

definition validateTransferFieldType :: "universe \<Rightarrow> nat \<Rightarrow> string \<Rightarrow> gfield \<Rightarrow> bind_error option" where
  "validateTransferFieldType U depth fixtureName f =
     (case nonSerializable U depth (FType f) of
        None \<Rightarrow> Some OutOfFuel
      | Some reason \<Rightarrow> if reason \<noteq> [] then Some (NotSerializable fixtureName (FName f) reason) else None)"

fun check_transfer :: "universe \<Rightarrow> nat \<Rightarrow> string \<Rightarrow> gfield list \<Rightarrow> string list \<Rightarrow> bind_error option" where
  "check_transfer U depth identifier st [] = None"
| "check_transfer U depth identifier st (name # names) =
     (case List.find (\<lambda>f. FName f = name) st of
        None \<Rightarrow> check_transfer U depth identifier st names
      | Some f \<Rightarrow> case validateTransferFieldType U depth identifier f of
          Some e \<Rightarrow> Some e
        | None \<Rightarrow> check_transfer U depth identifier st names)"

text \<open>The fields that point to other shared fixtures: their keys, the fields' names and the field of
  each key.\<close>

fun shared_deps ::
    "(nat \<Rightarrow> bind_state \<Rightarrow> bind_error + bind_state) \<Rightarrow> universe \<Rightarrow> string \<Rightarrow> gfield list \<Rightarrow>
     string list \<Rightarrow> string list \<Rightarrow> (string \<rightharpoonup> string) \<Rightarrow> bind_state \<Rightarrow>
     bind_error + (string list \<times> string list \<times> (string \<rightharpoonup> string) \<times> bind_state)" where
  "shared_deps reg U identifier [] deps depFields depFieldMap s = Inr (deps, depFields, depFieldMap, s)"
| "shared_deps reg U identifier (f # fs) deps depFields depFieldMap s =
     (case pointerNamed f of
        None \<Rightarrow> shared_deps reg U identifier fs deps depFields depFieldMap s
      | Some d \<Rightarrow>
          let depName = TyName (Univ U d); depKey = state_key U d in
          if hasSuffix depName SuffixSharedFixture then
            (case depFieldMap depKey of
               Some prev \<Rightarrow> Inl (TwoParentFields identifier depName prev (FName f))
             | None \<Rightarrow> case reg d s of
                 Inl e \<Rightarrow> Inl e
               | Inr s \<Rightarrow> shared_deps reg U identifier fs (deps @ [depKey]) (depFields @ [FName f])
                   (depFieldMap(depKey \<mapsto> FName f)) s)
          else if hasSuffix depName SuffixFixture \<and> declaresHook U d ''BeforeAll''
          then Inl (NeedsPackageFixture identifier depName)
          else shared_deps reg U identifier fs deps depFields depFieldMap s)"

text \<open>The checks on a shared fixture's methods and its package.\<close>

definition shared_checks :: "universe \<Rightarrow> nat \<Rightarrow> string \<Rightarrow> bind_error option" where
  "shared_checks U n identifier =
     (case rejectValueReceiverHooks U n identifier of
        Some e \<Rightarrow> Some e
      | None \<Rightarrow> case SharedEachHook U n of
          Some e \<Rightarrow> Some e
        | None \<Rightarrow>
            if isInternalPkgPath (TyPkgPath (Univ U n)) then Some (InternalPackage identifier (TyPkgPath (Univ U n)))
            else case bad_hook U n identifier [''BeforeAll'', ''AfterAll'', ''Hydrate'', ''Dehydrate''] of
              Some e \<Rightarrow> Some e
            | None \<Rightarrow>
                if declaredMethod U n ''BeforeAll'' = None then Some (MissingBeforeAll identifier)
                else if declaresHook U n ''Hydrate'' \<noteq> declaresHook U n ''Dehydrate'' then Some (UnpairedHydrate identifier)
                else None)"

definition shared_info :: "universe \<Rightarrow> nat \<Rightarrow> string \<Rightarrow> SharedFixtureInfo" where
  "shared_info U n idPrefix =
     (let T = Univ U n; isLocal = (TyPkgPath T = TargetPkg U) in
      \<lparr>SIdentifier = fixtureIdentifier T, SPkgPath = TyPkgPath T,
       SPkgName = (if isLocal then [] else TyPkgName T), SIDPrefix = idPrefix, SNamed = n,
       SQualifiedType = fixtureQualifiedType T (if isLocal then [] else TyPkgName T),
       SHasConfig = detectConfigMethod U n SharedFixture, SHasAfterAll = declaresHook U n ''AfterAll'',
       SHasHydrate = declaresHook U n ''Hydrate'', SHasDehydrate = declaresHook U n ''Dehydrate'',
       TransferFields = [], LocalFields = [], Dependencies = [], DependencyFields = Map.empty, Deferred = False\<rparr>)"

definition other_prefix :: "universe \<Rightarrow> nat \<Rightarrow> bind_state \<Rightarrow> string \<times> bind_state" where
  "other_prefix U n s =
     (let T = Univ U n in
      if TyPkgPath T = TargetPkg U then ([], s) else prefix (TyPkgPath T) (TyPkgName T) s)"

text \<open>A fixture is recorded when it is complete, and is no longer being resolved.\<close>

definition record_shared :: "string \<Rightarrow> SharedFixtureInfo \<Rightarrow> bind_state \<Rightarrow> bind_state" where
  "record_shared key info s =
     s\<lparr>SharedSeen := SharedSeen s @ [(key, info)], SharedResolving := removeAll key (SharedResolving s)\<rparr>"

fun registerSharedFixture :: "universe \<Rightarrow> nat \<Rightarrow> nat \<Rightarrow> nat \<Rightarrow> bind_state \<Rightarrow> bind_error + bind_state" where
  "registerSharedFixture U depth 0 n s = Inl OutOfFuel"
| "registerSharedFixture U depth (Suc k) n s =
     (let identifier = fixtureIdentifier (Univ U n); key = state_key U n in
      if map_of (SharedSeen s) key \<noteq> None then Inr s
      else if key \<in> set (SharedResolving s) then Inl (SharedCycle key)
      else guarded (shared_checks U n identifier)
        (let (idPrefix, s) = other_prefix U n (s\<lparr>SharedResolving := key # SharedResolving s\<rparr>);
             info = shared_info U n idPrefix in
         case Und U n of
           GStruct st \<Rightarrow>
             (let allExported = map FName (filter (\<lambda>f. Exported f \<and> \<not> Anonymous f) st);
                  isLocalField = (\<lambda>x. declaresHook U n ''Hydrate'' \<and> LocalFieldsOf U n x);
                  local = filter isLocalField allExported;
                  transfer = filter (\<lambda>x. \<not> isLocalField x) allExported in
              case shared_deps (registerSharedFixture U depth k) U identifier st [] [] Map.empty s of
                Inl e \<Rightarrow> Inl e
              | Inr (deps, depFields, depFieldMap, s) \<Rightarrow>
                  let transfer = filter (\<lambda>x. x \<notin> set depFields) transfer in
                  guarded (check_transfer U depth identifier st transfer)
                    (Inr (record_shared key
                      (info\<lparr>TransferFields := transfer, LocalFields := local,
                            Dependencies := deps, DependencyFields := depFieldMap\<rparr>) s)))
         | _ \<Rightarrow> Inr (record_shared key info s)))"

definition buildSharedFixtureRef :: "universe \<Rightarrow> nat \<Rightarrow> nat \<Rightarrow> nat \<Rightarrow> nat \<Rightarrow> bind_state \<Rightarrow>
    bind_error + (SharedFixtureRef \<times> bind_state)" where
  "buildSharedFixtureRef U depth k n idx s =
     (let T = Univ U n; identifier = fixtureIdentifier T; isLocal = (TyPkgPath T = TargetPkg U) in
      if isInternalPkgPath (TyPkgPath T) then Inl (InternalPackage identifier (TyPkgPath T))
      else let (pre, s) = other_prefix U n s;
               ref = \<lparr>RLocalVar = ''sf'' @ itoa (int idx),
                      RQualifiedType = fixtureQualifiedType T (if isLocal then [] else TyPkgName T),
                      RFieldName = TyName T, RStateKey = state_key U n,
                      RIdentifier = (if isLocal then identifier else pre @ ''_'' @ identifier),
                      RHasHydrate = declaresHook U n ''Hydrate'', RHasDehydrate = declaresHook U n ''Dehydrate'',
                      RPkgPath = (if isLocal then [] else TyPkgPath T)\<rparr>
           in case registerSharedFixture U depth k n s of Inl e \<Rightarrow> Inl e | Inr s \<Rightarrow> Inr (ref, s))"

subsection \<open>Package fixtures\<close>

definition fixtureField :: "universe \<Rightarrow> string \<Rightarrow> gfield \<Rightarrow> (nat \<rightharpoonup> string) \<Rightarrow>
    bind_error + (nat option \<times> (nat \<rightharpoonup> string))" where
  "fixtureField U owner f bound =
     (if Anonymous f then Inr (pointerNamed f, bound)
      else case FType f of
        GNamed n \<Rightarrow>
          (if hasSuffix (TyName (Univ U n)) SuffixFixture then Inl (ValueField owner (FName f) (TyName (Univ U n)))
           else Inr (None, bound))
      | _ \<Rightarrow>
        (case pointerNamed f of
           None \<Rightarrow> Inr (None, bound)
         | Some n \<Rightarrow>
             let name = TyName (Univ U n) in
             if \<not> hasSuffix name SuffixFixture \<or> hasSuffix name SuffixSharedFixture then Inr (Some n, bound)
             else case bound n of
               Some prev \<Rightarrow> Inl (TwoFixtureFields owner name prev (FName f))
             | None \<Rightarrow> Inr (Some n, bound(n \<mapsto> FName f))))"

definition add_parent :: "BoundFixture \<Rightarrow> nat \<Rightarrow> string \<Rightarrow> BoundFixture" where
  "add_parent rf p field = rf\<lparr>BParents := BParents rf @ [p], BParentFields := (BParentFields rf)(p \<mapsto> field)\<rparr>"

definition add_child :: "nat \<Rightarrow> nat \<Rightarrow> bind_state \<Rightarrow> bind_state" where
  "add_child p n s = s\<lparr>BChildren := (BChildren s)(p := BChildren s p @ [n])\<rparr>"

fun resolvePackageFixtureFields ::
    "(nat \<Rightarrow> bind_state \<Rightarrow> bind_error + bind_state) \<Rightarrow> universe \<Rightarrow> nat \<Rightarrow> nat \<Rightarrow> nat \<Rightarrow> gfield list \<Rightarrow> nat \<Rightarrow>
     (nat \<rightharpoonup> string) \<Rightarrow> BoundFixture \<Rightarrow> bind_state \<Rightarrow> bind_error + (BoundFixture \<times> bind_state)" where
  "resolvePackageFixtureFields res U depth k n [] sfIdx bound rf s = Inr (rf, s)"
| "resolvePackageFixtureFields res U depth k n (f # fs) sfIdx bound rf s =
     (case fixtureField U (TyName (Univ U n)) f bound of
        Inl e \<Rightarrow> Inl e
      | Inr (None, bound) \<Rightarrow> resolvePackageFixtureFields res U depth k n fs sfIdx bound rf s
      | Inr (Some m, bound) \<Rightarrow>
          let typeName = TyName (Univ U m) in
          if hasSuffix typeName SuffixSharedFixture then
            (case buildSharedFixtureRef U depth k m sfIdx s of
               Inl e \<Rightarrow> Inl e
             | Inr (ref, s) \<Rightarrow>
                 resolvePackageFixtureFields res U depth k n fs (sfIdx + 1) bound
                   (rf\<lparr>BSharedFixtures := BSharedFixtures rf @ [ref\<lparr>RFieldName := FName f\<rparr>]\<rparr>) s)
          else if hasSuffix typeName SuffixFixture then
            (case res m s of
               Inl e \<Rightarrow> Inl e
             | Inr s \<Rightarrow>
                 resolvePackageFixtureFields res U depth k n fs sfIdx bound (add_parent rf m (FName f)) (add_child m n s))
          else resolvePackageFixtureFields res U depth k n fs sfIdx bound rf s)"

definition package_checks :: "universe \<Rightarrow> nat \<Rightarrow> fixture_kind \<Rightarrow> string \<Rightarrow> bind_error option" where
  "package_checks U n kind identifier =
     (case rejectValueReceiverHooks U n identifier of
        Some e \<Rightarrow> Some e
      | None \<Rightarrow>
          if kind = PackageFixture \<and> TyPkgPath (Univ U n) \<noteq> TargetPkg U then
            (case bad_hook U n identifier [''BeforeAll'', ''AfterAll'', ''BeforeEach'', ''AfterEach''] of
               Some e \<Rightarrow> Some e
             | None \<Rightarrow> bad_method U n identifier)
          else None)"

definition new_fixture :: "universe \<Rightarrow> nat \<Rightarrow> fixture_kind \<Rightarrow> string \<Rightarrow> BoundFixture" where
  "new_fixture U n kind pre =
     (let T = Univ U n; isLocal = (TyPkgPath T = TargetPkg U) in
      \<lparr>BKind = kind,
       BIdentifier = (if isLocal then fixtureIdentifier T else pre @ ''_'' @ fixtureIdentifier T),
       BQualifiedType = fixtureQualifiedType T (if isLocal then [] else TyPkgName T),
       BPkgPath = (if isLocal then [] else TyPkgPath T), BPkgName = (if isLocal then [] else TyPkgName T),
       BHasConfig = detectConfigMethod U n kind,
       BBeforeAll = declaresHook U n ''BeforeAll'', BAfterAll = declaresHook U n ''AfterAll'',
       BBeforeEach = declaresHook U n ''BeforeEach'', BAfterEach = declaresHook U n ''AfterEach'',
       BHasHydrate = declaresHook U n ''Hydrate'', BHasDehydrate = declaresHook U n ''Dehydrate'',
       BParents = [], BParentFields = Map.empty, BSharedFixtures = []\<rparr>)"

text \<open>A fixture is resolved once it is complete.\<close>

definition record_fixture :: "nat \<Rightarrow> BoundFixture \<Rightarrow> bind_state \<Rightarrow> bind_state" where
  "record_fixture n rf s = s\<lparr>Resolved := Resolved s @ [(n, rf)], Resolving := removeAll n (Resolving s)\<rparr>"

fun resolveFixture :: "universe \<Rightarrow> nat \<Rightarrow> nat \<Rightarrow> nat \<Rightarrow> nat \<Rightarrow> bind_state \<Rightarrow> bind_error + bind_state" where
  "resolveFixture U depth sk 0 n s = Inl OutOfFuel"
| "resolveFixture U depth sk (Suc k) n s =
     (if map_of (Resolved s) n \<noteq> None then Inr s
      else if n \<in> set (Resolving s) then Inl (EmbeddingCycle (TyName (Univ U n)))
      else let identifier = fixtureIdentifier (Univ U n);
               s = s\<lparr>Resolving := n # Resolving s\<rparr> in
        case Und U n of
          GStruct st \<Rightarrow>
            (let kind = (if hasSuffix (TyName (Univ U n)) SuffixSharedFixture then SharedFixture else PackageFixture) in
             guarded (package_checks U n kind identifier)
               (let (pre, s) = other_prefix U n s; rf = new_fixture U n kind pre in
                if \<not> BBeforeAll rf then Inl (MissingBeforeAll identifier)
                else if kind = PackageFixture then
                  (case resolvePackageFixtureFields (resolveFixture U depth sk k) U depth sk n st 0 Map.empty rf s of
                     Inl e \<Rightarrow> Inl e
                   | Inr (rf, s) \<Rightarrow> Inr (record_fixture n rf s))
                else Inr (record_fixture n rf s)))
        | _ \<Rightarrow> Inl (NotStruct identifier))"

end
