(* ===== verification/Bind.thy ===== *)
theory Bind
  imports BindWalk
begin

text \<open>
  \<^verbatim>\<open>binding.go\<close> continued: the topological sorts of the two kinds of fixture, the keys of the shared
  fixtures each suite needs, and \<open>bind\<close>.
\<close>

subsection \<open>Topological sorts\<close>

text \<open>One node's children lose a dependency; the ones that have none left join the queue.\<close>

fun drain :: "('k list \<Rightarrow> 'k list) \<Rightarrow> 'k list \<Rightarrow> ('k \<Rightarrow> int) \<Rightarrow> 'k list \<Rightarrow> ('k \<Rightarrow> int) \<times> 'k list" where
  "drain srt [] deg queue = (deg, queue)"
| "drain srt (c # cs) deg queue =
     (let deg = deg(c := deg c - 1)
      in drain srt cs deg (if deg c = 0 then srt (queue @ [c]) else queue))"

partial_function (option) sort_loop ::
    "('k list \<Rightarrow> 'k list) \<Rightarrow> ('k \<Rightarrow> 'k list) \<Rightarrow> ('k \<Rightarrow> int) \<Rightarrow> 'k list \<Rightarrow> 'k list \<Rightarrow> (('k \<Rightarrow> int) \<times> 'k list) option" where
  "sort_loop srt children deg queue result =
     (case queue of
        [] \<Rightarrow> Some (deg, result)
      | n # queue \<Rightarrow>
          let (deg, queue) = drain srt (children n) deg queue
          in sort_loop srt children deg queue (result @ [n]))"

definition shared_children :: "(string \<Rightarrow> string list) \<Rightarrow> string list \<Rightarrow> string \<Rightarrow> string list" where
  "shared_children deps keys d = concat (map (\<lambda>k. map (\<lambda>_. k) (filter (\<lambda>x. x = d) (deps k))) keys)"

definition seen_deps :: "(string \<times> SharedFixtureInfo) list \<Rightarrow> string \<Rightarrow> string list" where
  "seen_deps seen k = (case map_of seen k of None \<Rightarrow> [] | Some info \<Rightarrow> Dependencies info)"

definition topoSortSharedFixtures :: "(string \<times> SharedFixtureInfo) list \<Rightarrow> (bind_error + SharedFixtureInfo list) option" where
  "topoSortSharedFixtures seen =
     (if seen = [] then Some (Inr [])
      else let keys = sort (map fst seen);
               inDegree = (\<lambda>k. int (length (seen_deps seen k)))
           in case sort_loop sort (\<lambda>n. sort (shared_children (seen_deps seen) keys n)) inDegree
                     (filter (\<lambda>k. inDegree k = 0) keys) [] of
               None \<Rightarrow> None
             | Some (deg, result) \<Rightarrow>
                 if length result < length seen then Some (Inl (SharedSortCycle (filter (\<lambda>k. 0 < deg k) keys)))
                 else Some (Inr (List.map_filter (map_of seen) result)))"

definition package_fixtures :: "(nat \<times> BoundFixture) list \<Rightarrow> nat list" where
  "package_fixtures resolved = map fst (filter (\<lambda>(n, rf). BKind rf = PackageFixture) resolved)"

definition identifier_of :: "(nat \<times> BoundFixture) list \<Rightarrow> nat \<Rightarrow> string" where
  "identifier_of resolved n = (case map_of resolved n of None \<Rightarrow> [] | Some rf \<Rightarrow> BIdentifier rf)"

definition topologicalSort :: "(nat \<times> BoundFixture) list \<Rightarrow> (nat \<Rightarrow> nat list) \<Rightarrow> (bind_error + nat list) option" where
  "topologicalSort resolved children =
     (let fixtures = sort_key (identifier_of resolved) (package_fixtures resolved);
          inDegree = (\<lambda>n. int (\<Sum>p\<leftarrow>fixtures. count_list (children p) n))
      in case sort_loop (sort_key (identifier_of resolved)) children inDegree
                (filter (\<lambda>n. inDegree n = 0) fixtures) [] of
          None \<Rightarrow> None
        | Some (deg, order) \<Rightarrow>
            if length order \<noteq> length fixtures then Some (Inl FixtureSortCycle) else Some (Inr order))"

subsection \<open>What is reached\<close>

text \<open>The look-ups that follow a list of successors from a key and skip what they have seen.\<close>

fun collect_from :: "('k \<Rightarrow> 'k list) \<Rightarrow> nat \<Rightarrow> 'k \<Rightarrow> 'k list \<Rightarrow> 'k list option" where
  "collect_from next 0 k seen = None"
| "collect_from next (Suc f) k seen =
     (if k \<in> set seen then Some seen
      else fold (\<lambda>d acc. case acc of None \<Rightarrow> None | Some s \<Rightarrow> collect_from next f d s) (next k) (Some (k # seen)))"

definition collect_all :: "('k \<Rightarrow> 'k list) \<Rightarrow> nat \<Rightarrow> 'k list \<Rightarrow> 'k list option \<Rightarrow> 'k list option" where
  "collect_all next f ks acc = fold (\<lambda>k acc. case acc of None \<Rightarrow> None | Some s \<Rightarrow> collect_from next f k s) ks acc"

record FixtureFieldBinding =
  FixtureIdentifier :: string
  FieldName :: string

definition parent_ids :: "(nat \<times> BoundFixture) list \<Rightarrow> nat list \<Rightarrow> string \<Rightarrow> string list" where
  "parent_ids resolved fixtures i =
     (case List.find (\<lambda>n. identifier_of resolved n = i) (rev fixtures) of
        None \<Rightarrow> []
      | Some n \<Rightarrow> case map_of resolved n of
          None \<Rightarrow> [] | Some rf \<Rightarrow> map (identifier_of resolved) (BParents rf))"

definition collectTransitiveDepsRF :: "(string \<Rightarrow> string list) \<Rightarrow> nat \<Rightarrow> FixtureFieldBinding list \<Rightarrow> string list option" where
  "collectTransitiveDepsRF parents f bindings = collect_all parents f (map FixtureIdentifier bindings) (Some [])"

text \<open>The shared fixtures of a suite: those of its own fields and of the package fixtures it reaches.\<close>

definition info_deps :: "SharedFixtureInfo list \<Rightarrow> string \<Rightarrow> string list" where
  "info_deps infos key =
     (case List.find (\<lambda>i. SPkgPath i @ ''.'' @ SIdentifier i = key) (rev infos) of
        None \<Rightarrow> [] | Some i \<Rightarrow> Dependencies i)"

definition suite_keys ::
    "nat \<Rightarrow> SharedFixtureInfo list \<Rightarrow> (nat \<times> BoundFixture) list \<Rightarrow> nat list \<Rightarrow> SharedFixtureRef list \<Rightarrow>
     FixtureFieldBinding list \<Rightarrow> string list option" where
  "suite_keys f infos resolved fixtures refs bindings =
     (case collectTransitiveDepsRF (parent_ids resolved fixtures) f bindings of
        None \<Rightarrow> None
      | Some needed \<Rightarrow>
          let through = concat (map (\<lambda>n. case map_of resolved n of
                None \<Rightarrow> []
              | Some rf \<Rightarrow> if BIdentifier rf \<in> set needed then map RStateKey (BSharedFixtures rf) else []) fixtures)
          in collect_all (info_deps infos) f (map RStateKey refs @ through) (Some []))"

subsection \<open>Hooks below a benchmark or a fuzz target\<close>

text \<open>Every parent was resolved before its child, so as many levels as there are fixtures are enough.\<close>

fun findHookedFixture :: "(nat \<times> BoundFixture) list \<Rightarrow> nat \<Rightarrow> nat \<Rightarrow> nat option" where
  "findHookedFixture resolved 0 n = None"
| "findHookedFixture resolved (Suc f) n =
     (case map_of resolved n of
        None \<Rightarrow> None
      | Some rf \<Rightarrow>
          if BBeforeEach rf \<or> BAfterEach rf then Some n
          else case List.map_filter (findHookedFixture resolved f) (BParents rf) of [] \<Rightarrow> None | m # ms \<Rightarrow> Some m)"

subsection \<open>bind\<close>

record suite =
  SuId :: string
  SuFields :: "gfield list option"
  SuBenchmarks :: bool
  SuFuzzers :: bool

fun resolve_fields :: "universe \<Rightarrow> nat \<Rightarrow> nat \<Rightarrow> string \<Rightarrow> gfield list \<Rightarrow> nat \<Rightarrow> (nat \<rightharpoonup> string) \<Rightarrow>
    SharedFixtureRef list \<Rightarrow> (nat \<times> string) list \<Rightarrow> bind_state \<Rightarrow>
    bind_error + ((nat \<times> string) list \<times> SharedFixtureRef list \<times> bind_state)" where
  "resolve_fields U depth k owner [] sfIdx bound refs fixtures s = Inr (fixtures, refs, s)"
| "resolve_fields U depth k owner (f # fs) sfIdx bound refs fixtures s =
     (case fixtureField U owner f bound of
        Inl e \<Rightarrow> Inl e
      | Inr (None, bound) \<Rightarrow> resolve_fields U depth k owner fs sfIdx bound refs fixtures s
      | Inr (Some m, bound) \<Rightarrow>
          let name = TyName (Univ U m) in
          if hasSuffix name SuffixSharedFixture then
            (case buildSharedFixtureRef U depth k m sfIdx s of
               Inl e \<Rightarrow> Inl e
             | Inr (ref, s) \<Rightarrow>
                 resolve_fields U depth k owner fs (sfIdx + 1) bound (refs @ [ref\<lparr>RFieldName := FName f\<rparr>]) fixtures s)
          else if hasSuffix name SuffixFixture then
            (case resolveFixture U depth k k m s of
               Inl e \<Rightarrow> Inl e
             | Inr s \<Rightarrow> resolve_fields U depth k owner fs sfIdx bound refs (fixtures @ [(m, FName f)]) s)
          else resolve_fields U depth k owner fs sfIdx bound refs fixtures s)"

definition resolveFixturesForSuite :: "universe \<Rightarrow> nat \<Rightarrow> nat \<Rightarrow> suite \<Rightarrow> bind_state \<Rightarrow>
    bind_error + ((nat \<times> string) list \<times> SharedFixtureRef list \<times> bind_state)" where
  "resolveFixturesForSuite U depth k su s =
     (case SuFields su of
        None \<Rightarrow> Inr ([], [], s)
      | Some fs \<Rightarrow> resolve_fields U depth k (SuId su) fs 0 Map.empty [] [] s)"

text \<open>The first fixture of a suite of benchmarks or fuzz targets that has hooks of its own.\<close>

definition hooked :: "(nat \<times> BoundFixture) list \<Rightarrow> (nat \<times> string) list \<Rightarrow> nat option" where
  "hooked resolved fixtures =
     (case List.map_filter (\<lambda>(n, name). findHookedFixture resolved (length resolved) n) fixtures of
        [] \<Rightarrow> None | m # ms \<Rightarrow> Some m)"

record suite_binding =
  SbSuite :: string
  SbFixtures :: "FixtureFieldBinding list"
  SbRefs :: "SharedFixtureRef list"

definition bind_suite :: "universe \<Rightarrow> nat \<Rightarrow> nat \<Rightarrow> suite \<Rightarrow> bind_state \<Rightarrow> bind_error + (suite_binding \<times> bind_state)" where
  "bind_suite U depth k su s =
     (case resolveFixturesForSuite U depth k su s of
        Inl e \<Rightarrow> Inl e
      | Inr (fixtures, refs, s) \<Rightarrow>
          let bad = map_option (identifier_of (Resolved s)) (hooked (Resolved s) fixtures) in
          guarded (if SuBenchmarks su then map_option (BenchmarkHooks (SuId su)) bad else None)
            (guarded (if SuFuzzers su then map_option (FuzzHooks (SuId su)) bad else None)
              (Inr (\<lparr>SbSuite = SuId su,
                 SbFixtures = map (\<lambda>(n, name). \<lparr>FixtureIdentifier = identifier_of (Resolved s) n, FieldName = name\<rparr>) fixtures,
                 SbRefs = refs\<rparr>, s))))"

fun bind_suites :: "universe \<Rightarrow> nat \<Rightarrow> nat \<Rightarrow> suite list \<Rightarrow> suite_binding list \<Rightarrow> bind_state \<Rightarrow>
    bind_error + (suite_binding list \<times> bind_state)" where
  "bind_suites U depth k [] bs s = Inr (bs, s)"
| "bind_suites U depth k (su # sus) bs s =
     (case bind_suite U depth k su s of
        Inl e \<Rightarrow> Inl e
      | Inr (b, s) \<Rightarrow> bind_suites U depth k sus (bs @ [b]) s)"

definition bind_start :: bind_state where
  "bind_start = \<lparr>Resolved = [], Resolving = [], SharedSeen = [], SharedResolving = [], Prefixes = [], BChildren = \<lambda>_. []\<rparr>"

record BindingResult =
  AllFixtures :: "nat list"
  Fixtures :: "(nat \<times> BoundFixture) list"
  RequiredSharedFixtures :: "SharedFixtureInfo list"
  FixtureBound :: "string list"
  Standalone :: "string list"
  SuiteRequiredSharedFixtureKeys :: "(string \<times> string list) list"

text \<open>The keys of every suite that needs any; \<open>None\<close> is a walk that has not returned.\<close>

fun required_keys :: "nat \<Rightarrow> SharedFixtureInfo list \<Rightarrow> (nat \<times> BoundFixture) list \<Rightarrow> nat list \<Rightarrow> suite_binding list \<Rightarrow>
    (string \<times> string list) list option" where
  "required_keys f infos resolved fixtures [] = Some []"
| "required_keys f infos resolved fixtures (b # bs) =
     (case suite_keys f infos resolved fixtures (SbRefs b) (SbFixtures b) of
        None \<Rightarrow> None
      | Some keys \<Rightarrow> map_option (\<lambda>r. (if keys = [] then [] else [(SbSuite b, keys)]) @ r)
          (required_keys f infos resolved fixtures bs))"

definition bindFixtures :: "universe \<Rightarrow> nat \<Rightarrow> nat \<Rightarrow> suite list \<Rightarrow> (bind_error + BindingResult) option" where
  "bindFixtures U depth k suites =
     (case bind_suites U depth k suites [] bind_start of
        Inl e \<Rightarrow> Some (Inl e)
      | Inr (bs, s) \<Rightarrow>
          case topologicalSort (Resolved s) (BChildren s) of
            None \<Rightarrow> None
          | Some (Inl e) \<Rightarrow> Some (Inl e)
          | Some (Inr fixtures) \<Rightarrow>
              case topoSortSharedFixtures (SharedSeen s) of
                None \<Rightarrow> None
              | Some (Inl e) \<Rightarrow> Some (Inl e)
              | Some (Inr infos) \<Rightarrow>
                  map_option (\<lambda>keys. Inr \<lparr>AllFixtures = fixtures, Fixtures = Resolved s,
                      RequiredSharedFixtures = infos,
                      FixtureBound = map SbSuite (filter (\<lambda>b. SbFixtures b \<noteq> []) bs),
                      Standalone = map SbSuite (filter (\<lambda>b. SbFixtures b = []) bs),
                      SuiteRequiredSharedFixtureKeys = keys\<rparr>)
                    (required_keys (length infos + length fixtures + 2) infos (Resolved s) fixtures bs))"

end
