(* ===== verification/FixtureWindow.thy ===== *)
theory FixtureWindow
  imports Bind NameFilter RunGroups
begin

text \<open>
  \<^verbatim>\<open>internal/gotestrunner/fixturewindow.go\<close>, which shared fixtures a run keeps up and when, and
  \<^verbatim>\<open>fixtureledger.go\<close>, which counts the suites that still need each.  A phase is a list of packages
  with the test functions of their suites; the map of a fixture's required keys is a function that
  gives no keys where the map has none.
\<close>

type_synonym phase = "(string \<times> string list) list"
type_synonym required = "string \<Rightarrow> string \<Rightarrow> string list"

record overlay =
  OvShared :: "SharedFixtureInfo list"
  OvSuites :: phase
  OvExclusive :: "string \<Rightarrow> string \<Rightarrow> bool"
  OvGroup :: "string \<Rightarrow> string \<Rightarrow> string"
  OvSelection :: groupSelection
  OvTestless :: "string \<Rightarrow> string \<Rightarrow> bool"
  OvBenches :: phase
  OvFuzz :: "string \<Rightarrow> string \<Rightarrow> string list"
  OvRequired :: required

subsection \<open>What a phase needs\<close>

definition sharedFixtureKey :: "SharedFixtureInfo \<Rightarrow> string" where
  "sharedFixtureKey sf = SPkgPath sf @ ''.'' @ SIdentifier sf"

definition phase_keys :: "required \<Rightarrow> phase \<Rightarrow> string list" where
  "phase_keys reqKeys phase = concat (map (\<lambda>(pkg, suites). concat (map (reqKeys pkg) suites)) phase)"

text \<open>A claim goes no deeper than there are fixtures, so the fuel is enough.\<close>

definition aliveFixtureKeys :: "phase \<Rightarrow> required \<Rightarrow> SharedFixtureInfo list \<Rightarrow> string list" where
  "aliveFixtureKeys phase reqKeys fixtures =
     (case collect_all (info_deps fixtures) (length fixtures + 2) (phase_keys reqKeys phase) (Some []) of
        None \<Rightarrow> [] | Some alive \<Rightarrow> alive)"

definition sortedKeys :: "string list \<Rightarrow> string list" where
  "sortedKeys s = sort (remdups s)"

definition diffKeys :: "string list \<Rightarrow> string list \<Rightarrow> string list" where
  "diffKeys s gone = sortedKeys (filter (\<lambda>k. k \<notin> set gone) s)"

subsection \<open>Scopes\<close>

definition suiteFuncs :: "string \<Rightarrow> bool \<Rightarrow> string list \<Rightarrow> string list" where
  "suiteFuncs suiteName testless fuzzFuncs = (if testless then fuzzFuncs else (''Test'' @ suiteName) # fuzzFuncs)"

definition selectsSuite :: "'re regexps \<Rightarrow> string \<Rightarrow> string list \<Rightarrow> bool" where
  "selectsSuite R run funcs = (if run = [] then True else list_ex (selectsFunc R run) funcs)"

definition skipsSuite :: "'re regexps \<Rightarrow> string \<Rightarrow> string list \<Rightarrow> bool" where
  "skipsSuite R skipFilter funcs =
     (if skipFilter = [] \<or> funcs = [] then False else \<not> list_ex (\<lambda>f. \<not> skipsFunc R skipFilter f) funcs)"

text \<open>An entry is only made for a package some suite of which goes to the phase.\<close>

definition entries :: "phase \<Rightarrow> phase" where
  "entries ph = filter (\<lambda>(pkg, suites). suites \<noteq> []) ph"

definition dispatched :: "'re regexps \<Rightarrow> overlay \<Rightarrow> string \<Rightarrow> string \<Rightarrow> string \<Rightarrow> string \<Rightarrow> bool" where
  "dispatched R ov run skipFilter pkg suiteName =
     (let funcs = suiteFuncs suiteName (OvTestless ov pkg suiteName) (OvFuzz ov pkg suiteName)
      in \<not> (\<not> selectsSuite R run funcs \<or> skipsSuite R skipFilter funcs))"

definition planSuitePhases :: "'re regexps \<Rightarrow> overlay \<Rightarrow> phase \<Rightarrow> string \<Rightarrow> string \<Rightarrow> phase \<times> phase" where
  "planSuitePhases R ov suitesByPkg run skipFilter =
     (let part = (\<lambda>tail. entries (map (\<lambda>(pkg, suites). (pkg,
            map (\<lambda>s. ''Test'' @ s) (filter (\<lambda>s. dispatched R ov run skipFilter pkg s \<and> OvExclusive ov pkg s = tail) suites))) suitesByPkg))
      in (part False, part True))"

record suiteScope =
  ScGroup :: string
  Bulk :: phase
  Tail :: phase

definition group_suites :: "overlay \<Rightarrow> string \<Rightarrow> phase" where
  "group_suites ov grp = entries (map (\<lambda>(pkg, suites). (pkg, filter (\<lambda>s. OvGroup ov pkg s = grp) suites)) (OvSuites ov))"

definition group_names :: "overlay \<Rightarrow> string list" where
  "group_names ov = sortedKeys (filter (selects (OvSelection ov))
     (concat (map (\<lambda>(pkg, suites). map (OvGroup ov pkg) suites) (OvSuites ov))))"

definition planSuiteScopes :: "'re regexps \<Rightarrow> overlay \<Rightarrow> string \<Rightarrow> string \<Rightarrow> suiteScope list" where
  "planSuiteScopes R ov run skipFilter =
     filter (\<lambda>sc. \<not> (Bulk sc = [] \<and> Tail sc = []))
       (map (\<lambda>grp. let (b, t) = planSuitePhases R ov (group_suites ov grp) run skipFilter in \<lparr>ScGroup = grp, Bulk = b, Tail = t\<rparr>)
         (group_names ov))"

subsection \<open>Windows\<close>

text \<open>The place of a key among the fixtures, the last one when it is there twice.\<close>

definition key_index :: "SharedFixtureInfo list \<Rightarrow> string \<Rightarrow> nat option" where
  "key_index fs k = List.find (\<lambda>i. sharedFixtureKey (fs ! i) = k) (rev [0..<length fs])"

text \<open>The state of \<open>place\<close>: the placed fixtures and the order so far, as places in the list.\<close>

fun place_fixture :: "SharedFixtureInfo list \<Rightarrow> nat \<Rightarrow> nat \<Rightarrow> nat list \<times> nat list \<Rightarrow> (nat list \<times> nat list) option" where
  "place_fixture fs 0 i st = None"
| "place_fixture fs (Suc f) i st =
     (if i \<in> set (fst st) then Some st
      else case fold (\<lambda>dep acc. case acc of
               None \<Rightarrow> None
             | Some st \<Rightarrow> case key_index fs dep of None \<Rightarrow> Some st | Some j \<Rightarrow> place_fixture fs f j st)
             (Dependencies (fs ! i)) (Some (i # fst st, snd st)) of
          None \<Rightarrow> None
        | Some (placed, out) \<Rightarrow> Some (placed, out @ [i]))"

definition dependenciesFirst :: "SharedFixtureInfo list \<Rightarrow> SharedFixtureInfo list option" where
  "dependenciesFirst fs =
     map_option (\<lambda>(placed, out). map (\<lambda>i. fs ! i) out)
       (fold (\<lambda>i acc. case acc of None \<Rightarrow> None | Some st \<Rightarrow> place_fixture fs (length fs + 1) i st) [0..<length fs] (Some ([], [])))"

record fixtureWindows =
  WBulk :: "string list"
  WTail :: "string list"
  WFixtures :: "SharedFixtureInfo list"
  WSkipped :: nat

text \<open>The fixtures of a run: those of the first phase as they are, later ones deferred.\<close>

definition window_fixture :: "string list \<Rightarrow> string list \<Rightarrow> SharedFixtureInfo \<Rightarrow> SharedFixtureInfo option" where
  "window_fixture bulk later sf =
     (if sharedFixtureKey sf \<in> set bulk then Some sf
      else if sharedFixtureKey sf \<in> set later then Some (sf\<lparr>Deferred := True\<rparr>)
      else None)"

definition windows :: "string list \<Rightarrow> string list \<Rightarrow> string list \<Rightarrow> SharedFixtureInfo list \<Rightarrow> fixtureWindows option" where
  "windows bulk tail later fixtures =
     map_option (\<lambda>fs. \<lparr>WBulk = bulk, WTail = tail, WFixtures = fs,
         WSkipped = length (filter (\<lambda>sf. window_fixture bulk later sf = None) fixtures)\<rparr>)
       (dependenciesFirst (List.map_filter (window_fixture bulk later) fixtures))"

definition mergePhase :: "phase \<Rightarrow> phase \<Rightarrow> phase" where
  "mergePhase into phase = foldl (\<lambda>m (pkg, suites).
     set_entry pkg ((case map_of m pkg of None \<Rightarrow> [] | Some ss \<Rightarrow> ss) @ suites) m) into phase"

text \<open>The first scope's bulk, and everything after it.\<close>

definition scope_phases :: "suiteScope list \<Rightarrow> phase \<times> phase" where
  "scope_phases scopes =
     (case scopes of
        [] \<Rightarrow> ([], [])
      | sc # scs \<Rightarrow> (Bulk sc, foldl (\<lambda>m s. mergePhase (mergePhase m (Bulk s)) (Tail s)) (mergePhase [] (Tail sc)) scs))"

definition planFixtureWindows :: "'re regexps \<Rightarrow> overlay \<Rightarrow> string \<Rightarrow> string \<Rightarrow> fixtureWindows option" where
  "planFixtureWindows R ov run skipFilter =
     (let (first, later) = scope_phases (planSuiteScopes R ov run skipFilter);
          bulk = aliveFixtureKeys first (OvRequired ov) (OvShared ov);
          tail = aliveFixtureKeys later (OvRequired ov) (OvShared ov)
      in windows bulk tail tail (OvShared ov))"

text \<open>The slots of a benchmark run, in the order of package and suite.\<close>

definition bench_slots :: "'re regexps \<Rightarrow> overlay \<Rightarrow> string \<Rightarrow> string \<Rightarrow> string \<Rightarrow> (string \<times> string) list" where
  "bench_slots R ov run bench skipFilter =
     sort_key fst (sort_key snd (concat (map (\<lambda>(pkg, suites). map (\<lambda>s. (pkg, s))
       (filter (\<lambda>s. selectsBench R run bench skipFilter (''Benchmark'' @ s)) suites)) (OvBenches ov))))"

definition slot_phase :: "(string \<times> string) list \<Rightarrow> phase" where
  "slot_phase slots = map (\<lambda>(pkg, suite). (pkg, [''Test'' @ suite])) slots"

definition planBenchFixtureWindows :: "'re regexps \<Rightarrow> overlay \<Rightarrow> string \<Rightarrow> string \<Rightarrow> string \<Rightarrow> fixtureWindows option" where
  "planBenchFixtureWindows R ov run bench skipFilter =
     (let slots = bench_slots R ov run bench skipFilter;
          bulk = (if slots = [] then [] else aliveFixtureKeys (slot_phase [hd slots]) (OvRequired ov) (OvShared ov));
          alive = aliveFixtureKeys (slot_phase slots) (OvRequired ov) (OvShared ov)
      in windows bulk [] alive (OvShared ov))"

text \<open>What each slot needs, and what the slots from each one on need.\<close>

fun later_needs :: "string list list \<Rightarrow> string list list" where
  "later_needs [] = [[]]"
| "later_needs (n # ns) = (let later = later_needs ns in (hd later @ n) # later)"

definition benchSlotPlan :: "SuiteTarget list \<Rightarrow> required \<Rightarrow> SharedFixtureInfo list \<Rightarrow> string list list \<times> string list list" where
  "benchSlotPlan targets reqKeys fixtures =
     (let needs = map (\<lambda>t. aliveFixtureKeys (slot_phase [(Package t, SuiteName t)]) reqKeys fixtures) targets
      in (needs, later_needs needs))"

subsection \<open>The ledger\<close>

text \<open>The needs of the planned suites, the suites that still need each fixture, and the suites done.\<close>

record fixtureLedger =
  needs :: "((string \<times> string) \<times> string list) list"
  counts :: "string \<Rightarrow> int"
  done_suites :: "(string \<times> string) list"

definition planned_suites :: "phase list \<Rightarrow> (string \<times> string) list" where
  "planned_suites planned = concat (map (\<lambda>phase. concat (map (\<lambda>(pkg, suites). map (\<lambda>s. (pkg, s)) suites) phase)) planned)"

definition ledger_add :: "required \<Rightarrow> SharedFixtureInfo list \<Rightarrow> fixtureLedger \<Rightarrow> string \<times> string \<Rightarrow> fixtureLedger" where
  "ledger_add reqKeys fixtures l su =
     (let keys = sortedKeys (aliveFixtureKeys [(fst su, [snd su])] reqKeys fixtures)
      in l\<lparr>needs := set_entry su keys (needs l), counts := foldl (\<lambda>c k. c(k := c k + 1)) (counts l) keys\<rparr>)"

definition newFixtureLedger :: "phase list \<Rightarrow> required \<Rightarrow> SharedFixtureInfo list \<Rightarrow> fixtureLedger" where
  "newFixtureLedger planned reqKeys fixtures =
     foldl (ledger_add reqKeys fixtures) \<lparr>needs = [], counts = \<lambda>_. 0, done_suites = []\<rparr> (planned_suites planned)"

fun free_keys :: "(string \<Rightarrow> int) \<Rightarrow> string list \<Rightarrow> (string \<Rightarrow> int) \<times> string list" where
  "free_keys c [] = (c, [])"
| "free_keys c (k # ks) =
     (let c = c(k := c k - 1); (c', free) = free_keys c ks in (c', if c k = 0 then k # free else free))"

definition Done :: "string \<times> string \<Rightarrow> fixtureLedger \<Rightarrow> string list \<times> fixtureLedger" where
  "Done su l =
     (case map_of (needs l) su of
        None \<Rightarrow> ([], l)
      | Some keys \<Rightarrow>
          if su \<in> set (done_suites l) then ([], l)
          else let (c, free) = free_keys (counts l) keys
               in (free, l\<lparr>counts := c, done_suites := su # done_suites l\<rparr>))"

fun Done_all :: "(string \<times> string) list \<Rightarrow> fixtureLedger \<Rightarrow> string list \<times> fixtureLedger" where
  "Done_all [] l = ([], l)"
| "Done_all (su # sus) l =
     (let (free, l) = Done su l; (more, l) = Done_all sus l in (free @ more, l))"

text \<open>Every other planned suite of a package.\<close>

definition DoneExcept :: "string \<Rightarrow> string list \<Rightarrow> fixtureLedger \<Rightarrow> string list \<times> fixtureLedger" where
  "DoneExcept pkg kept l =
     (let suites = sort (map snd (filter (\<lambda>su. fst su = pkg \<and> snd su \<notin> set kept) (map fst (needs l))));
          (free, l) = Done_all (map (\<lambda>s. (pkg, s)) suites) l
      in (sort free, l))"

end
