(* ===== verification/BindSort.thy ===== *)
theory BindSort
  imports Bind "HOL-Library.Multiset"
begin

text \<open>
  The sort that works off a queue of nodes with no dependency left, as a locale: its loop returns,
  what comes out is in order, and all of it comes out when an order exists.  The sort of the shared
  fixtures is its interpretation; that of the package fixtures follows in \<open>BindWalkProps\<close>.
\<close>

subsection \<open>A sort that works off a queue\<close>

text \<open>What a node still waits for once the nodes of a set are out: the edges into it from the others,
  and the dependencies that are no nodes.\<close>

definition unmet :: "'k list \<Rightarrow> ('k \<Rightarrow> 'k list) \<Rightarrow> ('k \<Rightarrow> nat) \<Rightarrow> 'k set \<Rightarrow> 'k \<Rightarrow> nat" where
  "unmet nodes children extra R k = extra k + (\<Sum>n\<leftarrow>filter (\<lambda>n. n \<notin> R) nodes. count_list (children n) k)"

definition in_dep_order :: "'k list \<Rightarrow> ('k \<Rightarrow> 'k list) \<Rightarrow> 'k list \<Rightarrow> bool" where
  "in_dep_order nodes children order \<longleftrightarrow>
     (\<forall>i < length order. \<forall>n \<in> set nodes. order ! i \<in> set (children n) \<longrightarrow> n \<in> set (take i order))"

lemma in_dep_order_snoc:
  "in_dep_order nodes children order \<Longrightarrow> (\<And>n. n \<in> set nodes \<Longrightarrow> k \<in> set (children n) \<Longrightarrow> n \<in> set order) \<Longrightarrow>
   in_dep_order nodes children (order @ [k])"
  by (auto simp: in_dep_order_def nth_append less_Suc_eq)

lemma unmet_insert:
  assumes "distinct nodes" "n \<in> set nodes" "n \<notin> R"
  shows "unmet nodes children extra R k = unmet nodes children extra (insert n R) k + count_list (children n) k"
proof -
  have "(\<Sum>m\<leftarrow>filter (\<lambda>m. m \<notin> R) ms. f m) = (\<Sum>m\<leftarrow>filter (\<lambda>m. m \<notin> insert n R) ms. f m) + (if n \<in> set ms then f n else 0)"
    if "distinct ms" for ms and f :: "_ \<Rightarrow> nat"
    using that assms(3) by (induction ms) auto
  from this[OF assms(1)] show ?thesis using assms(2) by (simp add: unmet_def)
qed

lemma unmet_0: "unmet nodes children extra R k = 0 \<longleftrightarrow>
    extra k = 0 \<and> (\<forall>n \<in> set nodes. k \<in> set (children n) \<longrightarrow> n \<in> R)"
  by (auto simp: unmet_def count_list_0_iff)

locale work_list =
  fixes nodes :: "'k list" and children :: "'k \<Rightarrow> 'k list" and extra :: "'k \<Rightarrow> nat"
    and srt :: "'k list \<Rightarrow> 'k list"
  assumes distinct_nodes: "distinct nodes"
    and closed: "n \<in> set nodes \<Longrightarrow> c \<in> set (children n) \<Longrightarrow> c \<in> set nodes"
    and same_elements: "\<And>xs. mset (srt xs) = mset xs"
begin

lemma srt_set [simp]: "set (srt xs) = set xs"
  using same_elements[of xs] by (metis set_mset_mset)

lemma srt_distinct [simp]: "distinct (srt xs) = distinct xs"
  using same_elements[of xs] by (metis mset_eq_imp_distinct_iff)

lemma drain_keeps:
  assumes "\<forall>k \<in> set nodes. deg k = int (unmet nodes children extra R k + count_list cs k)"
    and "set cs \<subseteq> set nodes" "set q \<subseteq> set nodes" "distinct q" "set q \<inter> D = {}"
    and "\<forall>k \<in> set nodes. k \<in> D \<union> set q \<longleftrightarrow> deg k = 0"
    and "drain srt cs deg q = (deg', q')"
  shows "(\<forall>k \<in> set nodes. deg' k = int (unmet nodes children extra R k)) \<and> set q' \<subseteq> set nodes \<and>
    distinct q' \<and> set q' \<inter> D = {} \<and> (\<forall>k \<in> set nodes. k \<in> D \<union> set q' \<longleftrightarrow> deg' k = 0)"
  using assms
proof (induction cs arbitrary: deg q)
  case Nil
  then show ?case by simp
next
  case (Cons c cs)
  let ?deg = "deg(c := deg c - 1)"
  let ?q = "if ?deg c = 0 then srt (q @ [c]) else q"
  have c: "c \<in> set nodes" "deg c \<noteq> 0" using Cons.prems by auto
  then have fresh: "c \<notin> D \<union> set q" using Cons.prems(6) by blast
  show ?case
  proof (rule Cons.IH)
    show "\<forall>k \<in> set nodes. ?deg k = int (unmet nodes children extra R k + count_list cs k)"
      using Cons.prems(1) by auto
    show "\<forall>k \<in> set nodes. k \<in> D \<union> set ?q \<longleftrightarrow> ?deg k = 0"
      using Cons.prems(6) fresh by auto
    show "drain srt cs ?deg ?q = (deg', q')" using Cons.prems(7) by (simp add: Let_def)
  qed (use Cons.prems fresh c in auto)
qed

lemma loop_ends:
  assumes "distinct (res @ q)" "set (res @ q) \<subseteq> set nodes"
    and "\<forall>k \<in> set nodes. deg k = int (unmet nodes children extra (set res) k)"
    and "\<forall>k \<in> set nodes. k \<in> set res \<union> set q \<longleftrightarrow> deg k = 0"
    and "in_dep_order nodes children res"
  shows "\<exists>deg' out. sort_loop srt children deg q res = Some (deg', out) \<and> distinct out \<and> set out \<subseteq> set nodes \<and>
    (\<forall>k \<in> set nodes. k \<in> set out \<longleftrightarrow> deg' k = 0) \<and>
    (\<forall>k \<in> set nodes. deg' k = int (unmet nodes children extra (set out) k)) \<and> in_dep_order nodes children out"
  using assms
proof (induction "length nodes - length res" arbitrary: deg q res rule: less_induct)
  case less
  show ?case
  proof (cases q)
    case Nil
    then show ?thesis using less.prems by (subst sort_loop.simps) auto
  next
    case (Cons n q0)
    obtain deg1 q1 where d: "drain srt (children n) deg q0 = (deg1, q1)" by fastforce
    have n: "n \<in> set nodes" "n \<notin> set res" "deg n = 0" using less.prems Cons by auto
    have "(\<forall>k \<in> set nodes. deg1 k = int (unmet nodes children extra (insert n (set res)) k)) \<and> set q1 \<subseteq> set nodes \<and>
      distinct q1 \<and> set q1 \<inter> insert n (set res) = {} \<and> (\<forall>k \<in> set nodes. k \<in> insert n (set res) \<union> set q1 \<longleftrightarrow> deg1 k = 0)"
    proof (rule drain_keeps[OF _ _ _ _ _ _ d])
      show "\<forall>k \<in> set nodes. deg k = int (unmet nodes children extra (insert n (set res)) k + count_list (children n) k)"
        using less.prems(3) unmet_insert[OF distinct_nodes n(1,2), of children extra] by simp
      show "set (children n) \<subseteq> set nodes" using closed n(1) by blast
      show "\<forall>k \<in> set nodes. (k \<in> insert n (set res) \<union> set q0) = (deg k = 0)"
        using less.prems(4) Cons by auto
    qed (use less.prems Cons in auto)
    then have step: "\<forall>k \<in> set nodes. deg1 k = int (unmet nodes children extra (insert n (set res)) k)" "set q1 \<subseteq> set nodes"
      "distinct q1" "set q1 \<inter> insert n (set res) = {}" "\<forall>k \<in> set nodes. k \<in> insert n (set res) \<union> set q1 \<longleftrightarrow> deg1 k = 0"
      by blast+
    have "length (res @ [n]) \<le> length nodes"
      using less.prems Cons by (metis distinct_append distinct_card card_mono List.finite_set distinct_nodes set_append Un_subset_iff append_Cons append_assoc append_Nil)
    then have less': "length nodes - length (res @ [n]) < length nodes - length res" by simp
    have ord: "in_dep_order nodes children (res @ [n])"
    proof (rule in_dep_order_snoc[OF less.prems(5)])
      fix m assume "m \<in> set nodes" "n \<in> set (children m)"
      moreover have "unmet nodes children extra (set res) n = 0" using less.prems(3) n by simp
      ultimately show "m \<in> set res" by (simp add: unmet_0)
    qed
    have "sort_loop srt children deg q res = sort_loop srt children deg1 q1 (res @ [n])"
      by (subst sort_loop.simps) (simp add: Cons d)
    moreover have "distinct ((res @ [n]) @ q1)" "set ((res @ [n]) @ q1) \<subseteq> set nodes"
      using step less.prems(1,2) Cons by auto
    moreover have "\<forall>k \<in> set nodes. deg1 k = int (unmet nodes children extra (set (res @ [n])) k)"
      "\<forall>k \<in> set nodes. k \<in> set (res @ [n]) \<union> set q1 \<longleftrightarrow> deg1 k = 0"
      using step(1,5) by auto
    ultimately show ?thesis
      using less.hyps[OF less' _ _ _ _ ord, of q1 deg1] by presburger
  qed
qed

text \<open>What comes out is every node that an order of all nodes would have, and no less when there is
  such an order.\<close>

lemma loop_sorts:
  assumes "\<forall>k \<in> set nodes. deg k = int (unmet nodes children extra {} k)" "\<forall>k. k \<in> set q \<longleftrightarrow> k \<in> set nodes \<and> deg k = 0" "distinct q"
  shows "\<exists>deg' out. sort_loop srt children deg q [] = Some (deg', out) \<and> distinct out \<and> set out \<subseteq> set nodes \<and>
    in_dep_order nodes children out \<and> (\<forall>k \<in> set nodes. 0 < deg' k \<longleftrightarrow> k \<notin> set out) \<and>
    (\<forall>order. set order = set nodes \<and> in_dep_order nodes children order \<and> (\<forall>k \<in> set nodes. extra k = 0) \<longrightarrow> set out = set nodes) \<and>
    (\<forall>k \<in> set out. extra k = 0)"
proof -
  have start: "distinct ([] @ q)" "set ([] @ q) \<subseteq> set nodes" "\<forall>k \<in> set nodes. deg k = int (unmet nodes children extra (set []) k)"
    "\<forall>k \<in> set nodes. k \<in> set [] \<union> set q \<longleftrightarrow> deg k = 0" "in_dep_order nodes children []"
    using assms by (auto simp: in_dep_order_def)
  obtain deg' out where o: "sort_loop srt children deg q [] = Some (deg', out)" "distinct out" "set out \<subseteq> set nodes"
    "\<forall>k \<in> set nodes. k \<in> set out \<longleftrightarrow> deg' k = 0" "\<forall>k \<in> set nodes. deg' k = int (unmet nodes children extra (set out) k)"
    "in_dep_order nodes children out"
    using loop_ends[of "[]" q deg] start by blast
  have "set out = set nodes"
    if ord: "set order = set nodes" "in_dep_order nodes children order" "\<forall>k \<in> set nodes. extra k = 0" for order
  proof -
    have "order ! i \<in> set out" if "i < length order" for i
      using that
    proof (induction i rule: less_induct)
      case (less i)
      have k: "order ! i \<in> set nodes" using ord(1) less.prems nth_mem by blast
      have "n \<in> set out" if "n \<in> set nodes" "order ! i \<in> set (children n)" for n
      proof -
        have "n \<in> set (take i order)" using ord(2) less.prems that unfolding in_dep_order_def by blast
        then obtain j where "j < i" "order ! j = n" using less.prems by (auto simp: in_set_conv_nth)
        then show ?thesis using less.IH[of j] less.prems by auto
      qed
      then have "unmet nodes children extra (set out) (order ! i) = 0" using ord(3) k by (simp add: unmet_0)
      then show ?case using o(4,5) k by simp
    qed
    then show ?thesis using ord(1) o(3) by (metis in_set_conv_nth subsetI subset_antisym)
  qed
  moreover have "extra k = 0" if "k \<in> set out" for k
  proof -
    have "k \<in> set nodes" using that o(3) by blast
    then have "unmet nodes children extra (set out) k = 0" using o(4,5) that by auto
    then show ?thesis by (simp add: unmet_0)
  qed
  moreover have "\<forall>k \<in> set nodes. 0 < deg' k \<longleftrightarrow> k \<notin> set out"
  proof
    fix k assume "k \<in> set nodes"
    then have "deg' k = int (unmet nodes children extra (set out) k)" "k \<in> set out \<longleftrightarrow> deg' k = 0" using o by auto
    then show "0 < deg' k \<longleftrightarrow> k \<notin> set out" by linarith
  qed
  ultimately show ?thesis using o by (intro exI[of _ deg'] exI[of _ out]) blast
qed

end
subsection \<open>Shared fixtures\<close>

lemma count_shared_children:
  "distinct keys \<Longrightarrow> count_list (shared_children deps keys d) k = (if k \<in> set keys then count_list (deps k) d else 0)"
proof (induction keys)
  case (Cons x keys)
  have "count_list (map (\<lambda>_. x) (filter (\<lambda>y. y = d) ys)) k = (if k = x then count_list ys d else 0)" for ys :: "string list"
    by (induction ys) auto
  then show ?case using Cons by (auto simp: shared_children_def)
qed (simp add: shared_children_def)

lemma count_list_sort: "count_list (sort xs) x = count_list xs x"
  by (metis count_mset mset_sort)

lemma sum_count_list: "distinct ns \<Longrightarrow> (\<Sum>n\<leftarrow>ns. count_list xs n) = length (filter (\<lambda>x. x \<in> set ns) xs)"
proof (induction ns)
  case (Cons n ns)
  have "count_list xs n + length (filter (\<lambda>x. x \<in> set ns) xs) = length (filter (\<lambda>x. x \<in> set (n # ns)) xs)"
    using Cons.prems by (induction xs) auto
  then show ?case using Cons by simp
qed simp

definition seen_keys :: "(string \<times> SharedFixtureInfo) list \<Rightarrow> string list" where
  "seen_keys seen = sort (remdups (map fst seen))"

definition seen_children :: "(string \<times> SharedFixtureInfo) list \<Rightarrow> string \<Rightarrow> string list" where
  "seen_children seen n = sort (shared_children (seen_deps seen) (seen_keys seen) n)"

definition unknown_deps :: "(string \<times> SharedFixtureInfo) list \<Rightarrow> string \<Rightarrow> nat" where
  "unknown_deps seen k = length (filter (\<lambda>d. d \<notin> set (seen_keys seen)) (seen_deps seen k))"

lemma seen_keys_simps [simp]: "distinct (seen_keys seen)" "set (seen_keys seen) = fst ` set seen"
  by (auto simp: seen_keys_def)

interpretation shared_sort: work_list "seen_keys seen" "seen_children seen" "unknown_deps seen" sort for seen
  by unfold_locales (auto simp: seen_children_def shared_children_def split: if_splits)

lemma seen_children_iff: "k \<in> set (seen_keys seen) \<Longrightarrow> k \<in> set (seen_children seen n) \<longleftrightarrow> n \<in> set (seen_deps seen k)"
  by (auto simp: seen_children_def shared_children_def)

lemma shared_degrees:
  assumes "k \<in> set (seen_keys seen)"
  shows "length (seen_deps seen k) = unmet (seen_keys seen) (seen_children seen) (unknown_deps seen) {} k"
proof -
  have "(\<Sum>n\<leftarrow>seen_keys seen. count_list (seen_children seen n) k) =
      length (filter (\<lambda>d. d \<in> set (seen_keys seen)) (seen_deps seen k))"
    using assms by (simp add: seen_children_def count_list_sort count_shared_children sum_count_list)
  moreover have "length (filter P xs) + length (filter (\<lambda>x. \<not> P x) xs) = length xs" for P and xs :: "string list"
    by (rule sum_length_filter_compl)
  ultimately show ?thesis by (simp add: unmet_def unknown_deps_def) (metis add.commute)
qed

text \<open>An order of all the shared fixtures in which each comes after what it depends on.\<close>

definition setup_order :: "(string \<times> SharedFixtureInfo) list \<Rightarrow> string list \<Rightarrow> bool" where
  "setup_order seen order \<longleftrightarrow> distinct order \<and> set order = fst ` set seen \<and>
     (\<forall>i < length order. set (seen_deps seen (order ! i)) \<subseteq> set (take i order))"

lemma setup_order_iff:
  "setup_order seen order \<longleftrightarrow> distinct order \<and> set order = set (seen_keys seen) \<and>
     in_dep_order (seen_keys seen) (seen_children seen) order \<and> (\<forall>k \<in> set (seen_keys seen). unknown_deps seen k = 0)"
proof (cases "set order = set (seen_keys seen)")
  case True
  have "(\<forall>k \<in> set (seen_keys seen). unknown_deps seen k = 0) \<longleftrightarrow> (\<forall>k \<in> set order. set (seen_deps seen k) \<subseteq> set (seen_keys seen))"
    unfolding True by (auto simp: unknown_deps_def filter_empty_conv)
  then have known: "(\<forall>k \<in> set (seen_keys seen). unknown_deps seen k = 0) \<longleftrightarrow>
      (\<forall>i < length order. set (seen_deps seen (order ! i)) \<subseteq> set (seen_keys seen))"
    unfolding all_set_conv_all_nth .
  have key: "order ! i \<in> set (seen_keys seen)" if "i < length order" for i using True that nth_mem by blast
  have "in_dep_order (seen_keys seen) (seen_children seen) order \<longleftrightarrow>
      (\<forall>i < length order. \<forall>n \<in> set (seen_keys seen). n \<in> set (seen_deps seen (order ! i)) \<longrightarrow> n \<in> set (take i order))"
    unfolding in_dep_order_def using seen_children_iff[OF key] by blast
  then have ordered: "in_dep_order (seen_keys seen) (seen_children seen) order \<and>
      (\<forall>i < length order. set (seen_deps seen (order ! i)) \<subseteq> set (seen_keys seen)) \<longleftrightarrow>
      (\<forall>i < length order. set (seen_deps seen (order ! i)) \<subseteq> set (take i order))"
    using True set_take_subset[of _ order] by blast
  show ?thesis
    unfolding setup_order_def known ordered using True by simp
qed (auto simp: setup_order_def)

lemma shared_loop:
  assumes "distinct (map fst seen)"
  shows "\<exists>deg out. sort_loop sort (\<lambda>n. sort (shared_children (seen_deps seen) (sort (map fst seen)) n))
      (\<lambda>k. int (length (seen_deps seen k))) (filter (\<lambda>k. int (length (seen_deps seen k)) = 0) (sort (map fst seen))) [] =
        Some (deg, out) \<and> distinct out \<and> set out \<subseteq> fst ` set seen \<and>
    (\<forall>k \<in> fst ` set seen. 0 < deg k \<longleftrightarrow> k \<notin> set out) \<and>
    (set out = fst ` set seen \<longleftrightarrow> (\<exists>order. setup_order seen order)) \<and>
    (set out = fst ` set seen \<longrightarrow> setup_order seen out) \<and>
    (\<forall>C \<subseteq> fst ` set seen. (\<forall>k \<in> C. \<exists>d \<in> C. d \<in> set (seen_deps seen k)) \<longrightarrow> C \<inter> set out = {})"
proof -
  have keys: "sort (map fst seen) = seen_keys seen" using assms by (simp add: seen_keys_def distinct_remdups_id)
  have ch: "(\<lambda>n. sort (shared_children (seen_deps seen) (seen_keys seen) n)) = seen_children seen"
    by (simp add: seen_children_def fun_eq_iff)
  have "\<exists>deg out. sort_loop sort (seen_children seen) (\<lambda>k. int (length (seen_deps seen k)))
       (filter (\<lambda>k. int (length (seen_deps seen k)) = 0) (seen_keys seen)) [] = Some (deg, out) \<and> distinct out \<and> set out \<subseteq> set (seen_keys seen) \<and>
    in_dep_order (seen_keys seen) (seen_children seen) out \<and> (\<forall>k \<in> set (seen_keys seen). 0 < deg k \<longleftrightarrow> k \<notin> set out) \<and>
    (\<forall>order. set order = set (seen_keys seen) \<and> in_dep_order (seen_keys seen) (seen_children seen) order \<and>
      (\<forall>k \<in> set (seen_keys seen). unknown_deps seen k = 0) \<longrightarrow> set out = set (seen_keys seen)) \<and>
    (\<forall>k \<in> set out. unknown_deps seen k = 0)"
  proof (rule shared_sort.loop_sorts)
    show "\<forall>k \<in> set (seen_keys seen). int (length (seen_deps seen k)) =
        int (unmet (seen_keys seen) (seen_children seen) (unknown_deps seen) {} k)"
      by (intro ballI arg_cong[where f = int] shared_degrees)
  qed (simp_all del: of_nat_eq_0_iff)
  then obtain deg out where o: "sort_loop sort (seen_children seen) (\<lambda>k. int (length (seen_deps seen k)))
       (filter (\<lambda>k. int (length (seen_deps seen k)) = 0) (seen_keys seen)) [] = Some (deg, out)" "distinct out"
    "set out \<subseteq> set (seen_keys seen)" "in_dep_order (seen_keys seen) (seen_children seen) out"
    "\<forall>k \<in> set (seen_keys seen). 0 < deg k \<longleftrightarrow> k \<notin> set out"
    "\<forall>order. set order = set (seen_keys seen) \<and> in_dep_order (seen_keys seen) (seen_children seen) order \<and>
      (\<forall>k \<in> set (seen_keys seen). unknown_deps seen k = 0) \<longrightarrow> set out = set (seen_keys seen)"
    "\<forall>k \<in> set out. unknown_deps seen k = 0"
    by blast
  have "set out = set (seen_keys seen) \<longrightarrow> setup_order seen out"
    unfolding setup_order_iff using o(2,4,7) by metis
  moreover have "set out = set (seen_keys seen) \<longleftrightarrow> (\<exists>order. setup_order seen order)"
    using calculation o(6) unfolding setup_order_iff by metis
  moreover have "C \<inter> set out = {}" if C: "C \<subseteq> fst ` set seen" "\<forall>k \<in> C. \<exists>d \<in> C. d \<in> set (seen_deps seen k)" for C
  proof -
    have "out ! i \<notin> C" if "i < length out" for i
      using that
    proof (induction i rule: less_induct)
      case (less i)
      show ?case
      proof
        assume "out ! i \<in> C"
        then obtain d where d: "d \<in> C" "d \<in> set (seen_deps seen (out ! i))" using C(2) by blast
        have "d \<in> set (seen_keys seen)" "out ! i \<in> set (seen_keys seen)" using C(1) d(1) \<open>out ! i \<in> C\<close> by auto
        then have "d \<in> set (take i out)"
          using o(4) d(2) less.prems seen_children_iff unfolding in_dep_order_def by blast
        then obtain j where "j < i" "out ! j = d" using less.prems by (auto simp: in_set_conv_nth)
        then show False using less.IH[of j] less.prems d(1) by auto
      qed
    qed
    then show ?thesis by (auto simp: in_set_conv_nth)
  qed
  ultimately show ?thesis
    unfolding keys ch seen_keys_simps(2)[symmetric] using o(1,2,3,5)
    by (intro exI[of _ deg] exI[of _ out] conjI allI impI) simp_all
qed

lemma shared_sort_result:
  assumes "distinct (map fst seen)"
  shows "case topoSortSharedFixtures seen of
       Some (Inr infos) \<Rightarrow> \<exists>order. setup_order seen order \<and> map Some infos = map (map_of seen) order
     | Some (Inl (SharedSortCycle ks)) \<Rightarrow> ks \<noteq> [] \<and> (\<nexists>order. setup_order seen order) \<and>
         (\<forall>C \<subseteq> fst ` set seen. (\<forall>k \<in> C. \<exists>d \<in> C. d \<in> set (seen_deps seen k)) \<longrightarrow> C \<subseteq> set ks)
     | _ \<Rightarrow> False"
proof (cases "seen = []")
  case True
  then show ?thesis by (auto simp: topoSortSharedFixtures_def setup_order_def)
next
  case False
  obtain deg out where l: "sort_loop sort (\<lambda>n. sort (shared_children (seen_deps seen) (sort (map fst seen)) n))
      (\<lambda>k. int (length (seen_deps seen k))) (filter (\<lambda>k. int (length (seen_deps seen k)) = 0) (sort (map fst seen))) [] =
        Some (deg, out)" "distinct out" "set out \<subseteq> fst ` set seen" "\<forall>k \<in> fst ` set seen. 0 < deg k \<longleftrightarrow> k \<notin> set out"
    "set out = fst ` set seen \<longleftrightarrow> (\<exists>order. setup_order seen order)" "set out = fst ` set seen \<longrightarrow> setup_order seen out"
    "\<forall>C \<subseteq> fst ` set seen. (\<forall>k \<in> C. \<exists>d \<in> C. d \<in> set (seen_deps seen k)) \<longrightarrow> C \<inter> set out = {}"
    using shared_loop[OF assms] by (elim exE conjE) (rule that)
  have len: "length seen = card (fst ` set seen)" using assms by (metis distinct_card length_map list.set_map)
  have "length out = card (set out)" using l(2) by (simp add: distinct_card)
  then have full: "length out < length seen \<longleftrightarrow> set out \<noteq> fst ` set seen"
    unfolding len using l(3) by (metis List.finite_set card_seteq finite_imageI leI less_le_not_le)
  show ?thesis
  proof (cases "set out = fst ` set seen")
    case True
    have "map Some (List.map_filter (map_of seen) ks) = map (map_of seen) ks" if "set ks \<subseteq> fst ` set seen" for ks
      using that by (induction ks) (auto simp: List.map_filter_simps dest!: weak_map_of_SomeI)
    then have "map Some (List.map_filter (map_of seen) out) = map (map_of seen) out" using l(3) by blast
    then show ?thesis
      using False True full l(1,6) by (auto simp: topoSortSharedFixtures_def Let_def)
  next
    case nfull: False
    then obtain k where "k \<in> fst ` set seen" "k \<notin> set out" using l(3) by blast
    then have "filter (\<lambda>k. 0 < deg k) (sort (map fst seen)) \<noteq> []" using l(4) by (auto simp: filter_empty_conv)
    moreover have "C \<subseteq> set (filter (\<lambda>k. 0 < deg k) (sort (map fst seen)))"
      if "C \<subseteq> fst ` set seen" "\<forall>k \<in> C. \<exists>d \<in> C. d \<in> set (seen_deps seen k)" for C
    proof
      fix k assume "k \<in> C"
      then have "k \<in> fst ` set seen" "k \<notin> set out" using that l(7) by blast+
      then show "k \<in> set (filter (\<lambda>k. 0 < deg k) (sort (map fst seen)))" using l(4) by auto
    qed
    moreover have "topoSortSharedFixtures seen = Some (Inl (SharedSortCycle (filter (\<lambda>k. 0 < deg k) (sort (map fst seen)))))"
      using False nfull full l(1) by (simp add: topoSortSharedFixtures_def Let_def)
    moreover have "\<nexists>order. setup_order seen order" using nfull l(5) by blast
    ultimately show ?thesis by simp
  qed
qed

text \<open>C18. The sort of the shared fixtures always returns.  It returns all of them, each after what it
  depends on, or, exactly when no such order exists, an error; the error then names every fixture of
  every cycle.\<close>

theorem shared_sort_complete:
  assumes "distinct (map fst seen)"
  shows "case topoSortSharedFixtures seen of
       Some (Inr infos) \<Rightarrow> \<exists>order. setup_order seen order \<and> map Some infos = map (map_of seen) order
     | Some (Inl (SharedSortCycle ks)) \<Rightarrow> ks \<noteq> [] \<and> (\<nexists>order. setup_order seen order) \<and>
         (\<forall>C \<subseteq> fst ` set seen. (\<forall>k \<in> C. \<exists>d \<in> C. d \<in> set (seen_deps seen k)) \<longrightarrow> C \<subseteq> set ks)
     | _ \<Rightarrow> False"
  by (rule shared_sort_result[OF assms])

text \<open>A fixture that waits for one on a cycle is reported with it, though it is on no cycle.\<close>

definition info_with :: "string \<Rightarrow> string list \<Rightarrow> SharedFixtureInfo" where
  "info_with k deps =
     \<lparr>SIdentifier = k, SPkgPath = ''p'', SPkgName = [], SIDPrefix = [], SNamed = 0, SQualifiedType = k, SHasConfig = False,
      SHasAfterAll = False, SHasHydrate = False, SHasDehydrate = False, TransferFields = [], LocalFields = [],
      Dependencies = deps, DependencyFields = Map.empty, Deferred = False\<rparr>"

definition loop_and_user :: "(string \<times> SharedFixtureInfo) list" where
  "loop_and_user = [(''a'', info_with ''a'' [''a'']), (''b'', info_with ''b'' [''a''])]"

lemma cycle_names_users: "topoSortSharedFixtures loop_and_user = Some (Inl (SharedSortCycle [''a'', ''b'']))"
proof -
  have "sort (map fst loop_and_user) = [''a'', ''b'']" by code_simp
  moreover have "seen_deps loop_and_user ''a'' = [''a'']" "seen_deps loop_and_user ''b'' = [''a'']" by code_simp+
  ultimately show ?thesis
    by (simp add: topoSortSharedFixtures_def Let_def sort_loop.simps) (simp add: loop_and_user_def)
qed

lemma shared_sort_complete_witness:
  "case topoSortSharedFixtures loop_and_user of
       Some (Inr infos) \<Rightarrow> \<exists>order. setup_order loop_and_user order \<and> map Some infos = map (map_of loop_and_user) order
     | Some (Inl (SharedSortCycle ks)) \<Rightarrow> ks \<noteq> [] \<and> (\<nexists>order. setup_order loop_and_user order) \<and>
         (\<forall>C \<subseteq> fst ` set loop_and_user. (\<forall>k \<in> C. \<exists>d \<in> C. d \<in> set (seen_deps loop_and_user k)) \<longrightarrow> C \<subseteq> set ks)
     | _ \<Rightarrow> False"
  by (rule shared_sort_complete) (simp add: loop_and_user_def)

end
