(* ===== verification/BindWalkProps.thy ===== *)
theory BindWalkProps
  imports BindSort
begin

text \<open>
  The invariants of the walks over the types: the shared fixtures recorded so far are in dependency
  order, the resolved package fixtures after their parents, and the lists of children are the
  parents' lists turned round.  From them the two sorts never meet a cycle.
\<close>

subsection \<open>Registration keeps an order\<close>

definition seen_grows :: "bind_state \<Rightarrow> bind_state \<Rightarrow> bool" where
  "seen_grows s s' \<longleftrightarrow> Resolved s' = Resolved s \<and> Resolving s' = Resolving s \<and> BChildren s' = BChildren s \<and>
     SharedResolving s' = SharedResolving s \<and>
     (\<exists>more. SharedSeen s' = SharedSeen s @ more \<and> (\<forall>x \<in> set more. fst x \<notin> set (SharedResolving s)))"

definition info_key :: "SharedFixtureInfo \<Rightarrow> string" where
  "info_key i = SPkgPath i @ ''.'' @ SIdentifier i"

definition shared_inv :: "bind_state \<Rightarrow> bool" where
  "shared_inv s \<longleftrightarrow> setup_order (SharedSeen s) (map fst (SharedSeen s)) \<and>
     (\<forall>x \<in> set (SharedSeen s). info_key (snd x) = fst x)"

definition registers :: "universe \<Rightarrow> (nat \<Rightarrow> bind_state \<Rightarrow> bind_error + bind_state) \<Rightarrow> bool" where
  "registers U reg \<longleftrightarrow> (\<forall>n s s'. reg n s = Inr s' \<longrightarrow> shared_inv s \<longrightarrow>
     shared_inv s' \<and> seen_grows s s' \<and> state_key U n \<in> fst ` set (SharedSeen s'))"

lemma registersD:
  assumes "registers U reg" "reg n s = Inr s'" "shared_inv s"
  shows "shared_inv s'" "seen_grows s s'" "state_key U n \<in> fst ` set (SharedSeen s')"
  using assms unfolding registers_def by blast+

lemma seen_grows_refl [simp]: "seen_grows s s"
  by (simp add: seen_grows_def)

lemma seen_grows_trans: "seen_grows s s' \<Longrightarrow> seen_grows s' s'' \<Longrightarrow> seen_grows s s''"
  by (auto simp: seen_grows_def)

lemma seen_grows_seen: "seen_grows s s' \<Longrightarrow> fst ` set (SharedSeen s) \<subseteq> fst ` set (SharedSeen s')"
  by (auto simp: seen_grows_def)

lemma other_prefix_grows: "other_prefix U n s = (pre, s') \<Longrightarrow> seen_grows s s' \<and> (shared_inv s' = shared_inv s)"
  by (auto simp: other_prefix_def prefix_def seen_grows_def shared_inv_def Let_def split: if_splits option.splits)

lemma shared_deps_order:
  assumes "registers U reg"
    and "shared_deps reg U i fs deps dfs m s = Inr (deps', dfs', m', s')" "shared_inv s"
  shows "shared_inv s' \<and> seen_grows s s' \<and> set deps' \<subseteq> set deps \<union> fst ` set (SharedSeen s')"
  using assms(2,3)
proof (induction fs arbitrary: deps dfs m s)
  case (Cons f fs)
  show ?case
  proof (cases "pointerNamed f")
    case None
    then show ?thesis using Cons by simp
  next
    case (Some d)
    show ?thesis
    proof (cases "hasSuffix (TyName (Univ U d)) SuffixSharedFixture")
      case True
      then obtain s1 where r: "reg d s = Inr s1"
        "shared_deps reg U i fs (deps @ [state_key U d]) (dfs @ [FName f]) (m(state_key U d \<mapsto> FName f)) s1 = Inr (deps', dfs', m', s')"
        using Cons.prems(1) Some by (auto simp: Let_def split: option.splits sum.splits)
      note reg = registersD[OF assms(1) r(1) Cons.prems(2)]
      have rest: "shared_inv s' \<and> seen_grows s1 s' \<and> set deps' \<subseteq> set (deps @ [state_key U d]) \<union> fst ` set (SharedSeen s')"
        by (rule Cons.IH[OF r(2) reg(1)])
      then have "state_key U d \<in> fst ` set (SharedSeen s')" using reg(3) seen_grows_seen[of s1 s'] by blast
      then show ?thesis using rest seen_grows_trans[OF reg(2)] by auto
    next
      case False
      then show ?thesis using Cons Some by (simp add: Let_def split: if_splits)
    qed
  qed
qed simp

lemma setup_order_snoc:
  assumes "setup_order seen (map fst seen)" "k \<notin> fst ` set seen" "set (Dependencies info) \<subseteq> fst ` set seen"
  shows "setup_order (seen @ [(k, info)]) (map fst (seen @ [(k, info)]))"
proof -
  have old: "seen_deps (seen @ [(k, info)]) x = seen_deps seen x" if "x \<in> fst ` set seen" for x
    using that by (auto simp: seen_deps_def map_add_def split: option.splits dest: weak_map_of_SomeI)
  have new: "seen_deps (seen @ [(k, info)]) k = Dependencies info"
    using assms(2) map_of_eq_None_iff[of seen k] by (simp add: seen_deps_def map_add_def)
  have "set (seen_deps (seen @ [(k, info)]) (fst (seen ! i))) \<subseteq> set (take i (map fst seen))" if "i < length seen" for i
    using assms(1) that old[of "fst (seen ! i)"] by (simp add: setup_order_def)
  then show ?thesis
    using assms new by (auto simp: setup_order_def nth_append less_Suc_eq)
qed

lemma record_shared_order:
  assumes "key \<notin> fst ` set (SharedSeen s)" "key \<notin> set (SharedResolving s)"
    and "seen_grows (s\<lparr>SharedResolving := key # SharedResolving s\<rparr>) s2" "shared_inv s2" "set (Dependencies info) \<subseteq> fst ` set (SharedSeen s2)"
    and "info_key info = key"
  shows "shared_inv (record_shared key info s2) \<and> seen_grows s (record_shared key info s2) \<and>
    key \<in> fst ` set (SharedSeen (record_shared key info s2))"
proof -
  obtain more where more: "SharedSeen s2 = SharedSeen s @ more" "\<forall>x \<in> set more. fst x \<noteq> key \<and> fst x \<notin> set (SharedResolving s)"
    and same: "Resolved s2 = Resolved s" "Resolving s2 = Resolving s" "BChildren s2 = BChildren s" "SharedResolving s2 = key # SharedResolving s"
    using assms(3) by (auto simp: seen_grows_def)
  have "key \<notin> fst ` set (SharedSeen s2)" using assms(1) more by auto
  then have "shared_inv (record_shared key info s2)"
    using setup_order_snoc[of "SharedSeen s2" key info] assms(4-6) by (auto simp: shared_inv_def record_shared_def)
  moreover have "seen_grows s (record_shared key info s2)"
    using more same assms(2) by (simp add: seen_grows_def record_shared_def)
  ultimately show ?thesis by (simp add: record_shared_def)
qed

lemma registerSharedFixture_registers: "registers U (registerSharedFixture U depth k)"
proof (induction k)
  case 0
  then show ?case by (simp add: registers_def)
next
  case (Suc k)
  have "shared_inv s' \<and> seen_grows s s' \<and> state_key U n \<in> fst ` set (SharedSeen s')"
    if r: "registerSharedFixture U depth (Suc k) n s = Inr s'" and inv: "shared_inv s" for n s s'
  proof (cases "map_of (SharedSeen s) (state_key U n)")
    case (Some i)
    then show ?thesis using r inv by (force dest: map_of_SomeD)
  next
    case None
    let ?key = "state_key U n" let ?s = "s\<lparr>SharedResolving := ?key # SharedResolving s\<rparr>"
    obtain pre s1 where p: "other_prefix U n ?s = (pre, s1)" by fastforce
    have fresh: "?key \<notin> fst ` set (SharedSeen s)" using None by (simp add: map_of_eq_None_iff)
    have new: "?key \<notin> set (SharedResolving s)" "shared_checks U n (fixtureIdentifier (Univ U n)) = None"
      using r None by (auto simp: Let_def guarded_def split: if_splits option.splits)
    have g: "seen_grows ?s s1" "shared_inv s1"
      using other_prefix_grows[OF p] inv by (simp_all add: shared_inv_def)
    have key: "info_key (shared_info U n pre) = ?key" by (simp add: info_key_def shared_info_def state_key_def Let_def)
    note done1 = record_shared_order[OF fresh new(1) g]
    show ?thesis
    proof (cases "\<exists>st. Und U n = GStruct st")
      case False
      have "Dependencies (shared_info U n pre) = []" by (simp add: shared_info_def Let_def)
      moreover have "s' = record_shared ?key (shared_info U n pre) s1"
        using r None new p False by (auto simp: Let_def guarded_def split: gtype.splits)
      ultimately show ?thesis using done1[of "shared_info U n pre"] key by simp
    next
      case True
      then obtain st where st: "Und U n = GStruct st" by blast
      obtain deps dfs m s2 info where d: "shared_deps (registerSharedFixture U depth k) U (fixtureIdentifier (Univ U n)) st [] [] Map.empty s1 = Inr (deps, dfs, m, s2)"
        and s': "s' = record_shared ?key info s2" "Dependencies info = deps" "info_key info = ?key"
        using r None new p st key by (auto simp: info_key_def Let_def guarded_def split: sum.splits option.splits prod.splits if_splits)
      note o = shared_deps_order[OF Suc.IH d g(2)]
      show ?thesis
        using record_shared_order[OF fresh new(1) seen_grows_trans[OF g(1)], of s2 info] o s' by simp
    qed
  qed
  then show ?case unfolding registers_def by blast
qed

subsection \<open>Package fixtures\<close>

definition parents_of :: "(nat \<times> BoundFixture) list \<Rightarrow> nat \<Rightarrow> nat list" where
  "parents_of resolved n = (case map_of resolved n of None \<Rightarrow> [] | Some rf \<Rightarrow> BParents rf)"

text \<open>An order of all the fixtures in which each comes after its parents.\<close>

definition fixture_order :: "(nat \<times> BoundFixture) list \<Rightarrow> nat list \<Rightarrow> bool" where
  "fixture_order resolved order \<longleftrightarrow> distinct order \<and> set order = fst ` set resolved \<and>
     (\<forall>i < length order. set (parents_of resolved (order ! i)) \<subseteq> set (take i order))"

text \<open>The fixtures' lists of children are their parents' lists turned round, and no fixture has
  children that are neither resolved nor being resolved.\<close>

definition child_inv :: "bind_state \<Rightarrow> bool" where
  "child_inv s \<longleftrightarrow>
     (\<forall>p c. c \<notin> set (Resolving s) \<longrightarrow> count_list (BChildren s p) c = count_list (parents_of (Resolved s) c) p)"

definition fixture_inv :: "bind_state \<Rightarrow> bool" where
  "fixture_inv s \<longleftrightarrow> shared_inv s \<and> fixture_order (Resolved s) (map fst (Resolved s)) \<and> child_inv s \<and>
     (\<forall>(n, rf) \<in> set (Resolved s). BKind rf = PackageFixture)"

definition fixture_grows :: "bind_state \<Rightarrow> bind_state \<Rightarrow> bool" where
  "fixture_grows s s' \<longleftrightarrow> Resolving s' = Resolving s \<and>
     (\<exists>more. Resolved s' = Resolved s @ more \<and> (\<forall>x \<in> set more. fst x \<notin> set (Resolving s))) \<and>
     (\<forall>p c. c \<in> set (Resolving s) \<longrightarrow> count_list (BChildren s' p) c = count_list (BChildren s p) c)"

definition resolves :: "universe \<Rightarrow> (nat \<Rightarrow> bind_state \<Rightarrow> bind_error + bind_state) \<Rightarrow> bool" where
  "resolves U res \<longleftrightarrow> (\<forall>n s s'. hasSuffix (TyName (Univ U n)) SuffixFixture \<and> \<not> hasSuffix (TyName (Univ U n)) SuffixSharedFixture \<longrightarrow>
     res n s = Inr s' \<longrightarrow> fixture_inv s \<longrightarrow> fixture_inv s' \<and> fixture_grows s s' \<and> n \<in> fst ` set (Resolved s'))"

lemma fixture_grows_refl [simp]: "fixture_grows s s"
  by (simp add: fixture_grows_def)

lemma fixture_grows_trans: "fixture_grows s s' \<Longrightarrow> fixture_grows s' s'' \<Longrightarrow> fixture_grows s s''"
  by (auto simp: fixture_grows_def)

lemma fixture_grows_resolved: "fixture_grows s s' \<Longrightarrow> fst ` set (Resolved s) \<subseteq> fst ` set (Resolved s')"
  by (auto simp: fixture_grows_def)

lemma seen_grows_fixture_grows: "seen_grows s s' \<Longrightarrow> fixture_grows s s'"
  by (simp add: seen_grows_def fixture_grows_def)

lemma seen_grows_fixture_inv: "seen_grows s s' \<Longrightarrow> shared_inv s' \<Longrightarrow> fixture_inv s \<Longrightarrow> fixture_inv s'"
  by (simp add: seen_grows_def fixture_inv_def child_inv_def)

lemma buildSharedFixtureRef_inv:
  assumes "buildSharedFixtureRef U depth k n idx s = Inr (ref, s')" "fixture_inv s"
  shows "fixture_inv s' \<and> fixture_grows s s' \<and> seen_grows s s'"
proof -
  obtain pre s1 where p: "other_prefix U n s = (pre, s1)" by fastforce
  then have r: "registerSharedFixture U depth k n s1 = Inr s'"
    using assms(1) by (auto simp: buildSharedFixtureRef_def Let_def split: if_splits sum.splits)
  have "shared_inv s1" using other_prefix_grows[OF p] assms(2) by (simp add: fixture_inv_def)
  then have "seen_grows s s'" "shared_inv s'"
    using registersD[OF registerSharedFixture_registers r] other_prefix_grows[OF p] seen_grows_trans by blast+
  then show ?thesis using assms(2) seen_grows_fixture_inv seen_grows_fixture_grows by blast
qed

text \<open>While a fixture's fields are read, its parents so far are the ones whose lists name it.\<close>

definition fields_inv :: "nat \<Rightarrow> BoundFixture \<Rightarrow> bind_state \<Rightarrow> bool" where
  "fields_inv n rf s \<longleftrightarrow> fixture_inv s \<and> n \<in> set (Resolving s) \<and> set (BParents rf) \<subseteq> fst ` set (Resolved s) \<and>
     (\<forall>p. count_list (BChildren s p) n = count_list (BParents rf) p) \<and> BKind rf = PackageFixture"

lemma fields_inv_grows: "fields_inv n rf s \<Longrightarrow> fixture_inv s' \<Longrightarrow> fixture_grows s s' \<Longrightarrow> fields_inv n rf s'"
  using fixture_grows_resolved[of s s'] by (auto simp: fields_inv_def fixture_grows_def)

lemma fields_inv_parent:
  "fields_inv n rf s \<Longrightarrow> p \<in> fst ` set (Resolved s) \<Longrightarrow> fields_inv n (add_parent rf p f) (add_child p n s)"
  by (auto simp: fields_inv_def add_parent_def add_child_def fixture_inv_def shared_inv_def child_inv_def)

lemma add_child_grows: "n \<in> set (Resolving s) \<Longrightarrow> Resolving (add_child p n s) = Resolving s \<and> Resolved (add_child p n s) = Resolved s"
  by (simp add: add_child_def)

lemma resolve_fields_inv:
  assumes "resolves U res"
    and "resolvePackageFixtureFields res U depth k n fs i b rf s = Inr (rf', s')" "fields_inv n rf s"
  shows "fields_inv n rf' s' \<and> Resolving s' = Resolving s \<and>
    (\<exists>more. Resolved s' = Resolved s @ more \<and> (\<forall>x \<in> set more. fst x \<notin> set (Resolving s))) \<and>
    (\<forall>p c. c \<in> set (Resolving s) \<longrightarrow> c \<noteq> n \<longrightarrow> count_list (BChildren s' p) c = count_list (BChildren s p) c)"
  using assms(2,3)
proof (induction fs arbitrary: i b rf s)
  case (Cons f fs)
  obtain o1 b1 where ff: "fixtureField U (TyName (Univ U n)) f b = Inr (o1, b1)"
    using Cons.prems(1) by (cases "fixtureField U (TyName (Univ U n)) f b") auto
  show ?case
  proof (cases o1)
    case None
    then show ?thesis using Cons ff by simp
  next
    case (Some m)
    show ?thesis
    proof (cases "hasSuffix (TyName (Univ U m)) SuffixSharedFixture")
      case True
      then obtain ref s1 where r: "buildSharedFixtureRef U depth k m i s = Inr (ref, s1)"
        "resolvePackageFixtureFields res U depth k n fs (i + 1) b1 (rf\<lparr>BSharedFixtures := BSharedFixtures rf @ [ref\<lparr>RFieldName := FName f\<rparr>]\<rparr>) s1 = Inr (rf', s')"
        using Cons.prems(1) ff Some by (auto simp: Let_def split: sum.splits)
      have g: "fixture_inv s1" "fixture_grows s s1" "seen_grows s s1"
        using buildSharedFixtureRef_inv[OF r(1)] Cons.prems(2) by (auto simp: fields_inv_def)
      have "fields_inv n (rf\<lparr>BSharedFixtures := BSharedFixtures rf @ [ref\<lparr>RFieldName := FName f\<rparr>]\<rparr>) s1"
        using fields_inv_grows[OF Cons.prems(2) g(1,2)] by (simp add: fields_inv_def)
      from Cons.IH[OF r(2) this] show ?thesis using g(3) by (simp add: seen_grows_def)
    next
      case shared: False
      show ?thesis
      proof (cases "hasSuffix (TyName (Univ U m)) SuffixFixture")
        case True
        then obtain s1 where r: "res m s = Inr s1"
          "resolvePackageFixtureFields res U depth k n fs i b1 (add_parent rf m (FName f)) (add_child m n s1) = Inr (rf', s')"
          using Cons.prems(1) ff Some shared by (auto simp: Let_def split: sum.splits)
        have g: "fixture_inv s1" "fixture_grows s s1" "m \<in> fst ` set (Resolved s1)"
          using assms(1) r(1) True shared Cons.prems(2) unfolding resolves_def fields_inv_def by blast+
        have "fields_inv n (add_parent rf m (FName f)) (add_child m n s1)"
          by (rule fields_inv_parent[OF fields_inv_grows[OF Cons.prems(2) g(1,2)] g(3)])
        from Cons.IH[OF r(2) this] show ?thesis using g(2)
          by (auto simp: fixture_grows_def add_child_def)
      next
        case False
        then show ?thesis using Cons ff Some shared by (simp add: Let_def)
      qed
    qed
  qed
qed simp

lemma parents_of_snoc:
  "n \<notin> fst ` set resolved \<Longrightarrow> parents_of (resolved @ [(n, rf)]) c = (if c = n then BParents rf else parents_of resolved c)"
  using map_of_eq_None_iff[of resolved n]
  by (auto simp: parents_of_def map_add_def split: option.splits)

lemma fixture_order_snoc:
  assumes "fixture_order resolved (map fst resolved)" "n \<notin> fst ` set resolved" "set (BParents rf) \<subseteq> fst ` set resolved"
  shows "fixture_order (resolved @ [(n, rf)]) (map fst (resolved @ [(n, rf)]))"
proof -
  have "set (parents_of (resolved @ [(n, rf)]) (fst (resolved ! i))) \<subseteq> set (take i (map fst resolved))" if "i < length resolved" for i
  proof -
    have "fst (resolved ! i) \<noteq> n" using assms(2) that nth_mem by blast
    then show ?thesis
      using assms(1) that by (simp add: fixture_order_def parents_of_snoc[OF assms(2)])
  qed
  moreover have "set (parents_of (resolved @ [(n, rf)]) n) \<subseteq> set (map fst resolved)"
    using assms(3) by (simp add: parents_of_snoc[OF assms(2)])
  ultimately show ?thesis
    using assms(1,2) by (auto simp: fixture_order_def nth_append less_Suc_eq)
qed

lemma record_fixture_inv:
  assumes "fields_inv n rf s" "n \<notin> fst ` set (Resolved s)"
  shows "fixture_inv (record_fixture n rf s)"
proof -
  have inv: "fixture_inv s" using assms(1) by (simp add: fields_inv_def)
  have "child_inv (record_fixture n rf s)"
    unfolding child_inv_def
  proof (intro allI impI)
    fix p c assume c: "c \<notin> set (Resolving (record_fixture n rf s))"
    show "count_list (BChildren (record_fixture n rf s) p) c = count_list (parents_of (Resolved (record_fixture n rf s)) c) p"
      using c assms(1) inv
      by (cases "c = n") (simp_all add: record_fixture_def parents_of_snoc[OF assms(2)] fields_inv_def fixture_inv_def child_inv_def)
  qed
  then show ?thesis
    using inv assms fixture_order_snoc[OF _ assms(2), of rf]
    by (auto simp: fixture_inv_def fields_inv_def record_fixture_def shared_inv_def)
qed

lemma resolveFixture_resolves: "resolves U (resolveFixture U depth sk k)"
proof (induction k)
  case 0
  then show ?case by (simp add: resolves_def)
next
  case (Suc k)
  have "fixture_inv s' \<and> fixture_grows s s' \<and> n \<in> fst ` set (Resolved s')"
    if kind: "\<not> hasSuffix (TyName (Univ U n)) SuffixSharedFixture"
      and r: "resolveFixture U depth sk (Suc k) n s = Inr s'" and inv: "fixture_inv s" for n s s'
  proof (cases "map_of (Resolved s) n")
    case (Some rf)
    then show ?thesis using r inv by (force dest: map_of_SomeD)
  next
    case None
    let ?s = "s\<lparr>Resolving := n # Resolving s\<rparr>"
    have fresh: "n \<notin> fst ` set (Resolved s)" "n \<notin> set (Resolving s)"
      using None r by (auto simp: map_of_eq_None_iff Let_def split: if_splits)
    obtain pre s1 where p: "other_prefix U n ?s = (pre, s1)" by fastforce
    obtain st rf s2 where f: "resolvePackageFixtureFields (resolveFixture U depth sk k) U depth sk n st 0 Map.empty
        (new_fixture U n PackageFixture pre) s1 = Inr (rf, s2)" "s' = record_fixture n rf s2"
      using r None p fresh(2) kind by (auto simp: Let_def guarded_def split: gtype.splits if_splits option.splits sum.splits)
    have g: "seen_grows ?s s1" "shared_inv s1"
      using other_prefix_grows[OF p] inv by (simp_all add: fixture_inv_def shared_inv_def)
    have "fixture_inv ?s" using inv by (simp add: fixture_inv_def child_inv_def shared_inv_def)
    then have inv1: "fixture_inv s1" using seen_grows_fixture_inv g by blast
    have "parents_of (Resolved s) n = []" using None by (simp add: parents_of_def)
    then have "fields_inv n (new_fixture U n PackageFixture pre) s1"
      using inv inv1 g(1) fresh(2) by (simp add: fields_inv_def new_fixture_def Let_def seen_grows_def fixture_inv_def child_inv_def)
    note fi = resolve_fields_inv[OF Suc.IH f(1) this]
    then obtain more where m: "Resolved s2 = Resolved s @ more" "\<forall>x \<in> set more. fst x \<noteq> n \<and> fst x \<notin> set (Resolving s)"
      "Resolving s2 = n # Resolving s" using g(1) by (auto simp: seen_grows_def)
    have "n \<notin> fst ` set (Resolved s2)" using m fresh(1) by auto
    then have "fixture_inv s'" using record_fixture_inv fi f(2) by blast
    moreover have "fixture_grows s s'"
    proof -
      have "Resolving s1 = n # Resolving s" "BChildren s1 = BChildren s" using g(1) by (simp_all add: seen_grows_def)
      then show ?thesis
        using fi m fresh(2) by (auto simp: fixture_grows_def f(2) record_fixture_def)
    qed
    ultimately show ?thesis by (simp add: f(2) record_fixture_def)
  qed
  then show ?case unfolding resolves_def by blast
qed

subsection \<open>The sort of the package fixtures\<close>

lemma child_inv_iff:
  assumes "child_inv s" "Resolving s = []"
  shows "c \<in> set (BChildren s p) \<longleftrightarrow> p \<in> set (parents_of (Resolved s) c)"
  using assms unfolding child_inv_def by (metis count_list_0_iff empty_iff empty_set)

lemma sort_key_set [simp]: "set (sort_key f xs) = set xs" "distinct (sort_key f xs) = distinct xs"
  by simp_all

lemma topologicalSort_orders:
  assumes inv: "fixture_inv s" "Resolving s = []"
  shows "\<exists>order. topologicalSort (Resolved s) (BChildren s) = Some (Inr order) \<and> fixture_order (Resolved s) order"
proof -
  let ?id = "identifier_of (Resolved s)"
  let ?nodes = "sort_key ?id (map fst (Resolved s))"
  have ord: "fixture_order (Resolved s) (map fst (Resolved s))" and ci: "child_inv s"
    and kinds: "filter (\<lambda>(n, rf). BKind rf = PackageFixture) (Resolved s) = Resolved s"
    using inv(1) by (auto simp: fixture_inv_def filter_id_conv)
  have parents: "set (parents_of (Resolved s) c) \<subseteq> fst ` set (Resolved s)" for c
  proof (cases "c \<in> set (map fst (Resolved s))")
    case True
    then obtain i where "i < length (Resolved s)" "map fst (Resolved s) ! i = c" by (auto simp: in_set_conv_nth)
    then show ?thesis using ord set_take_subset[of i "map fst (Resolved s)"] unfolding fixture_order_def by fastforce
  next
    case False
    then show ?thesis using map_of_eq_None_iff[of "Resolved s" c] by (simp add: parents_of_def)
  qed
  have wl: "work_list ?nodes (BChildren s) (sort_key ?id)"
  proof
    show "distinct ?nodes" using ord by (simp add: fixture_order_def)
    show "c \<in> set ?nodes" if "n \<in> set ?nodes" "c \<in> set (BChildren s n)" for n c
      using that(2) child_inv_iff[OF ci inv(2), of c n] map_of_eq_None_iff[of "Resolved s" c]
      by (auto simp: parents_of_def image_iff split: option.splits dest: map_of_SomeD)
  qed simp
  let ?deg = "\<lambda>n. int (\<Sum>p\<leftarrow>?nodes. count_list (BChildren s p) n)"
  obtain deg out where o: "sort_loop (sort_key ?id) (BChildren s) ?deg (filter (\<lambda>n. ?deg n = 0) ?nodes) [] = Some (deg, out)"
    "distinct out" "set out \<subseteq> set ?nodes" "in_dep_order ?nodes (BChildren s) out"
    "\<forall>order. set order = set ?nodes \<and> in_dep_order ?nodes (BChildren s) order \<and> (\<forall>k \<in> set ?nodes. (0::nat) = 0) \<longrightarrow> set out = set ?nodes"
    using work_list.loop_sorts[OF wl, of ?deg "\<lambda>_. 0" "filter (\<lambda>n. ?deg n = 0) ?nodes"] ord
    by (simp add: unmet_def fixture_order_def del: of_nat_eq_0_iff) blast
  have dep: "in_dep_order ?nodes (BChildren s) order \<longleftrightarrow>
      (\<forall>i < length order. set (parents_of (Resolved s) (order ! i)) \<subseteq> set (take i order))" for order
    using parents child_inv_iff[OF ci inv(2)] unfolding in_dep_order_def by (simp add: subset_iff) blast
  have "in_dep_order ?nodes (BChildren s) (map fst (Resolved s))" using ord by (simp add: dep fixture_order_def)
  then have "set out = set ?nodes" using o(5)[rule_format, of "map fst (Resolved s)"] by simp
  then have "fixture_order (Resolved s) out"
    using o(2,4) dep by (auto simp: fixture_order_def)
  moreover have "length out = length ?nodes"
    using \<open>set out = set ?nodes\<close> o(2) ord by (metis distinct_card fixture_order_def sort_key_set(2))
  ultimately show ?thesis
    using o(1) by (simp add: topologicalSort_def package_fixtures_def kinds)
qed

end
