(* ===== verification/BindProps.thy ===== *)
theory BindProps
  imports BindWalkProps
begin

text \<open>
  What \<open>bind\<close> promises: an order of setup for whatever resolves, the shared fixtures each suite needs,
  and which fields of a shared fixture can be transferred.
\<close>

subsection \<open>Binding\<close>

lemma resolve_fields_binding:
  assumes "resolve_fields U depth k owner fs i b refs fx s = Inr (fx', refs', s')" "fixture_inv s"
  shows "fixture_inv s' \<and> Resolving s' = Resolving s"
  using assms
proof (induction fs arbitrary: i b refs fx s)
  case (Cons f fs)
  obtain o1 b1 where ff: "fixtureField U owner f b = Inr (o1, b1)"
    using Cons.prems(1) by (cases "fixtureField U owner f b") auto
  show ?case
  proof (cases o1)
    case None
    then show ?thesis using Cons ff by simp
  next
    case (Some m)
    show ?thesis
    proof (cases "hasSuffix (TyName (Univ U m)) SuffixSharedFixture")
      case True
      then obtain ref s1 where r: "buildSharedFixtureRef U depth k m i s = Inr (ref, s1)"
        "resolve_fields U depth k owner fs (i + 1) b1 (refs @ [ref\<lparr>RFieldName := FName f\<rparr>]) fx s1 = Inr (fx', refs', s')"
        using Cons.prems(1) ff Some by (auto simp: Let_def split: sum.splits)
      show ?thesis
        using Cons.IH[OF r(2)] buildSharedFixtureRef_inv[OF r(1) Cons.prems(2)] by (simp add: seen_grows_def)
    next
      case shared: False
      show ?thesis
      proof (cases "hasSuffix (TyName (Univ U m)) SuffixFixture")
        case True
        then obtain s1 where r: "resolveFixture U depth k k m s = Inr s1"
          "resolve_fields U depth k owner fs i b1 refs (fx @ [(m, FName f)]) s1 = Inr (fx', refs', s')"
          using Cons.prems(1) ff Some shared by (auto simp: Let_def split: sum.splits)
        have "fixture_inv s1" "fixture_grows s s1"
          using resolveFixture_resolves[of U depth k k] r(1) True shared Cons.prems(2) unfolding resolves_def by blast+
        then show ?thesis using Cons.IH[OF r(2)] by (simp add: fixture_grows_def)
      next
        case False
        then show ?thesis using Cons ff Some shared by (simp add: Let_def)
      qed
    qed
  qed
qed simp

lemma bind_suites_inv:
  "bind_suites U depth k sus bs s = Inr (bs', s') \<Longrightarrow> fixture_inv s \<Longrightarrow> fixture_inv s' \<and> Resolving s' = Resolving s"
proof (induction sus arbitrary: bs s)
  case (Cons su sus)
  obtain b s1 where b: "bind_suite U depth k su s = Inr (b, s1)" "bind_suites U depth k sus (bs @ [b]) s1 = Inr (bs', s')"
    using Cons.prems(1) by (auto split: sum.splits)
  obtain fx refs where "resolveFixturesForSuite U depth k su s = Inr (fx, refs, s1)"
    using b(1) by (auto simp: bind_suite_def Let_def guarded_def split: sum.splits option.splits if_splits)
  then have "fixture_inv s1 \<and> Resolving s1 = Resolving s"
    using resolve_fields_binding Cons.prems(2) by (auto simp: resolveFixturesForSuite_def split: option.splits)
  then show ?case using Cons.IH[OF b(2)] by simp
qed simp

lemma bind_start_inv: "fixture_inv bind_start" "Resolving bind_start = []"
  by (simp_all add: fixture_inv_def bind_start_def shared_inv_def setup_order_def fixture_order_def child_inv_def parents_of_def)


lemma resolved_fixtures_sort:
  assumes "bind_suites U depth k suites [] bind_start = Inr (bs, s)"
  shows "\<exists>order infos. topologicalSort (Resolved s) (BChildren s) = Some (Inr order) \<and> fixture_order (Resolved s) order \<and>
    topoSortSharedFixtures (SharedSeen s) = Some (Inr infos) \<and> set infos = snd ` set (SharedSeen s) \<and>
    distinct (map info_key infos) \<and> (\<forall>i < length infos. set (Dependencies (infos ! i)) \<subseteq> info_key ` set (take i infos))"
proof -
  have inv: "fixture_inv s" "Resolving s = []" using bind_suites_inv[OF assms] bind_start_inv by auto
  obtain order where o: "topologicalSort (Resolved s) (BChildren s) = Some (Inr order)" "fixture_order (Resolved s) order"
    using topologicalSort_orders[OF inv] by blast
  have sh: "setup_order (SharedSeen s) (map fst (SharedSeen s))" and keys: "\<forall>x \<in> set (SharedSeen s). info_key (snd x) = fst x"
    using inv(1) by (auto simp: fixture_inv_def shared_inv_def)
  have dist: "distinct (map fst (SharedSeen s))" using sh by (simp add: setup_order_def)
  obtain infos ks where i: "topoSortSharedFixtures (SharedSeen s) = Some (Inr infos)" "setup_order (SharedSeen s) ks"
    "map Some infos = map (map_of (SharedSeen s)) ks"
    using shared_sort_result[OF dist] sh by (auto split: option.splits sum.splits bind_error.splits)
  have len: "length infos = length ks" using i(3) by (metis length_map)
  have at: "map_of (SharedSeen s) (ks ! j) = Some (infos ! j)" if "j < length ks" for j
    using i(3) that len by (metis nth_map)
  have mem: "(ks ! j, infos ! j) \<in> set (SharedSeen s)" if "j < length ks" for j
    using map_of_SomeD[OF at[OF that]] .
  have key: "info_key (infos ! j) = ks ! j" if "j < length ks" for j
    using keys mem[OF that] by force
  have ks: "map info_key infos = ks" using key len by (simp add: list_eq_iff_nth_eq)
  have "set infos = snd ` set (SharedSeen s)"
  proof
    show "set infos \<subseteq> snd ` set (SharedSeen s)" using mem len by (force simp: in_set_conv_nth)
    show "snd ` set (SharedSeen s) \<subseteq> set infos"
    proof
      fix v assume "v \<in> snd ` set (SharedSeen s)"
      then obtain x where x: "x \<in> set (SharedSeen s)" "v = snd x" by blast
      then have "fst x \<in> set ks" using i(2) by (auto simp: setup_order_def)
      then obtain j where j: "j < length ks" "ks ! j = fst x" by (auto simp: in_set_conv_nth)
      have "map_of (SharedSeen s) (fst x) = Some v" using dist x by simp
      then show "v \<in> set infos" using at[OF j(1)] j len by auto
    qed
  qed
  moreover have "set (Dependencies (infos ! j)) \<subseteq> info_key ` set (take j infos)" if "j < length infos" for j
  proof -
    have "set (seen_deps (SharedSeen s) (ks ! j)) \<subseteq> set (take j ks)" using i(2) that len by (simp add: setup_order_def)
    moreover have "seen_deps (SharedSeen s) (ks ! j) = Dependencies (infos ! j)" using at[of j] that len by (simp add: seen_deps_def)
    moreover have "set (take j ks) = info_key ` set (take j infos)" unfolding ks[symmetric] by (simp add: take_map)
    ultimately show ?thesis by simp
  qed
  moreover have "distinct (map info_key infos)" using i(2) ks by (simp add: setup_order_def)
  ultimately show ?thesis using o i(1) by blast
qed

subsection \<open>What a suite reaches\<close>

definition reached :: "('k \<Rightarrow> 'k list) \<Rightarrow> 'k \<Rightarrow> 'k \<Rightarrow> bool" where
  "reached next = (\<lambda>x y. y \<in> set (next x))\<^sup>*\<^sup>*"

lemma reached_refl [simp]: "reached next k k"
  by (simp add: reached_def)

lemma reached_step: "d \<in> set (next k) \<Longrightarrow> reached next d x \<Longrightarrow> reached next k x"
  unfolding reached_def by (rule converse_rtranclp_into_rtranclp)

text \<open>What a look-up adds: keys reached from its start, and with a key all that follows it.\<close>

definition collected :: "('k \<Rightarrow> 'k list) \<Rightarrow> ('k \<Rightarrow> bool) \<Rightarrow> 'k list \<Rightarrow> 'k list \<Rightarrow> bool" where
  "collected next P seen r \<longleftrightarrow> set seen \<subseteq> set r \<and> (\<forall>x \<in> set r - set seen. P x \<and> set (next x) \<subseteq> set r)"

lemma collected_trans:
  "collected next P seen s \<Longrightarrow> collected next Q s r \<Longrightarrow> (\<And>x. Q x \<Longrightarrow> P x) \<Longrightarrow> collected next P seen r"
  by (auto simp: collected_def) blast+

lemma card_collected: "finite D \<Longrightarrow> set seen \<subseteq> set s \<Longrightarrow> card (D - set s) \<le> card (D - set seen)"
  by (rule card_mono) auto

lemma fold_collects:
  assumes "finite D" "\<And>d s. d \<in> set ds \<Longrightarrow> card (D - set s) + 2 \<le> f \<Longrightarrow> \<exists>r. g d s = Some r \<and> d \<in> set r \<and> collected next (reached next d) s r"
    and "card (D - set seen) + 2 \<le> f"
  shows "\<exists>r. fold (\<lambda>d acc. case acc of None \<Rightarrow> None | Some s \<Rightarrow> g d s) ds (Some seen) = Some r \<and> set ds \<subseteq> set r \<and>
    collected next (\<lambda>x. \<exists>d \<in> set ds. reached next d x) seen r"
  using assms(2,3)
proof (induction ds arbitrary: seen)
  case Nil
  then show ?case by (simp add: collected_def)
next
  case (Cons d ds)
  obtain s where s: "g d seen = Some s" "d \<in> set s" "collected next (reached next d) seen s"
    using Cons.prems by (meson list.set_intros(1))
  have "card (D - set s) + 2 \<le> f"
    using Cons.prems(2) card_collected[OF assms(1), of seen s] s(3) by (simp add: collected_def)
  then obtain r where r: "fold (\<lambda>d acc. case acc of None \<Rightarrow> None | Some s \<Rightarrow> g d s) ds (Some s) = Some r" "set ds \<subseteq> set r"
    "collected next (\<lambda>x. \<exists>d \<in> set ds. reached next d x) s r"
    using Cons.IH[of s] Cons.prems(1) by (meson list.set_intros(2))
  have "collected next (\<lambda>x. \<exists>e \<in> set (d # ds). reached next e x) seen s" using s(3) by (auto simp: collected_def)
  then have "collected next (\<lambda>x. \<exists>e \<in> set (d # ds). reached next e x) seen r"
    using collected_trans[OF _ r(3)] by simp
  then show ?case using s r by (auto simp: collected_def)
qed

lemma collect_from_ends:
  assumes "finite D" "\<And>x. next x \<noteq> [] \<Longrightarrow> x \<in> D"
  shows "card (D - set seen) + 2 \<le> f \<Longrightarrow>
    \<exists>r. collect_from next f k seen = Some r \<and> k \<in> set r \<and> collected next (reached next k) seen r"
proof (induction f arbitrary: k seen)
  case (Suc f)
  show ?case
  proof (cases "k \<in> set seen")
    case True
    then show ?thesis by (simp add: collected_def)
  next
    case new: False
    show ?thesis
    proof (cases "next k = []")
      case True
      then show ?thesis using new by (auto simp: collected_def)
    next
      case False
      then have "k \<in> D" using assms(2) by blast
      then have "card (D - set (k # seen)) < card (D - set seen)"
        using new assms(1) by (intro psubset_card_mono) auto
      then have f: "card (D - set (k # seen)) + 2 \<le> f" using Suc.prems by simp
      obtain r where r: "fold (\<lambda>d acc. case acc of None \<Rightarrow> None | Some s \<Rightarrow> collect_from next f d s) (next k) (Some (k # seen)) = Some r"
        "set (next k) \<subseteq> set r" "collected next (\<lambda>x. \<exists>d \<in> set (next k). reached next d x) (k # seen) r"
        using fold_collects[where g = "collect_from next f" and D = D and ds = "next k" and f = f and seen = "k # seen", OF assms(1) Suc.IH f] by blast
      have "collected next (reached next k) seen r"
      proof -
        have "reached next k x \<and> set (next x) \<subseteq> set r" if "x \<in> set r - set seen" for x
        proof (cases "x = k")
          case False
          then have "x \<in> set r - set (k # seen)" using that by simp
          then show ?thesis using r(3) reached_step[of _ "next" k] unfolding collected_def by blast
        qed (use r(2) in simp)
        then show ?thesis using r(3) unfolding collected_def by auto
      qed
      then show ?thesis using r new by (auto simp: collected_def)
    qed
  qed
qed simp

lemma collect_all_reached:
  assumes "finite D" "\<And>x. next x \<noteq> [] \<Longrightarrow> x \<in> D" "card D + 2 \<le> f"
  shows "\<exists>r. collect_all next f ks (Some []) = Some r \<and> set r = {x. \<exists>k \<in> set ks. reached next k x}"
proof -
  have f: "card (D - set []) + 2 \<le> f" using assms(3) by simp
  obtain r where r: "collect_all next f ks (Some []) = Some r" "set ks \<subseteq> set r"
    "collected next (\<lambda>x. \<exists>d \<in> set ks. reached next d x) [] r"
    unfolding collect_all_def
    using fold_collects[where g = "collect_from next f" and D = D and ds = ks and f = f and seen = "[]", OF assms(1) collect_from_ends[OF assms(1,2)] f] by blast
  have "x \<in> set r" if "reached next k x" "k \<in> set r" for k x
    using that unfolding reached_def
  proof (induction rule: rtranclp_induct)
    case (step y z)
    then show ?case using r(3) by (auto simp: collected_def)
  qed
  then show ?thesis using r by (auto simp: collected_def)
qed

definition shared_of :: "(nat \<times> BoundFixture) list \<Rightarrow> nat \<Rightarrow> SharedFixtureRef list" where
  "shared_of resolved n = (case map_of resolved n of None \<Rightarrow> [] | Some rf \<Rightarrow> BSharedFixtures rf)"

lemma find_SomeD: "List.find P xs = Some x \<Longrightarrow> x \<in> set xs \<and> P x"
  by (induction xs) (auto split: if_splits)

lemma card_image_list: "card (f ` set xs) \<le> length xs"
  by (metis card_image_le card_length List.finite_set le_trans)

lemma suite_keys_result:
  "length infos + length fixtures + 2 \<le> f \<Longrightarrow> set fixtures \<subseteq> fst ` set resolved \<Longrightarrow>
   \<exists>keys. suite_keys f infos resolved fixtures refs bindings = Some keys \<and>
     set keys = {key. \<exists>root. reached (info_deps infos) root key \<and>
       (root \<in> RStateKey ` set refs \<or>
        (\<exists>n \<in> set fixtures. \<exists>b \<in> set bindings. root \<in> RStateKey ` set (shared_of resolved n) \<and>
           reached (parent_ids resolved fixtures) (FixtureIdentifier b) (identifier_of resolved n)))}"
proof -
  assume f: "length infos + length fixtures + 2 \<le> f" and known: "set fixtures \<subseteq> fst ` set resolved"
  have "parent_ids resolved fixtures x \<noteq> [] \<Longrightarrow> x \<in> identifier_of resolved ` set fixtures" for x
    by (auto simp: parent_ids_def dest!: find_SomeD split: option.splits)
  moreover have "card (identifier_of resolved ` set fixtures) + 2 \<le> f"
    using f card_image_list[of "identifier_of resolved" fixtures] by linarith
  ultimately obtain needed where n: "collectTransitiveDepsRF (parent_ids resolved fixtures) f bindings = Some needed"
    "set needed = {x. \<exists>b \<in> set bindings. reached (parent_ids resolved fixtures) (FixtureIdentifier b) x}"
    using collect_all_reached[of "identifier_of resolved ` set fixtures" "parent_ids resolved fixtures" f "map FixtureIdentifier bindings"]
    by (auto simp: collectTransitiveDepsRF_def)
  let ?F = "\<lambda>n. case map_of resolved n of None \<Rightarrow> []
      | Some rf \<Rightarrow> if BIdentifier rf \<in> set needed then map RStateKey (BSharedFixtures rf) else []"
  let ?G = "\<lambda>n. {root. identifier_of resolved n \<in> set needed \<and> root \<in> RStateKey ` set (shared_of resolved n)}"
  have "set (?F n) = ?G n" if mem: "n \<in> set fixtures" for n
  proof -
    obtain rf where "map_of resolved n = Some rf"
      using subsetD[OF known mem] map_of_eq_None_iff[of resolved n] by (cases "map_of resolved n") auto
    then show ?thesis by (simp add: identifier_of_def shared_of_def)
  qed
  then have through: "set (concat (map ?F fixtures)) = (\<Union>n \<in> set fixtures. ?G n)"
    by (simp only: set_concat set_map image_image) (rule SUP_cong[OF refl])
  have "info_deps infos x \<noteq> [] \<Longrightarrow> x \<in> info_key ` set infos" for x
    by (auto simp: info_deps_def info_key_def dest!: find_SomeD split: option.splits)
  moreover have "card (info_key ` set infos) + 2 \<le> f"
    using f card_image_list[of info_key infos] by linarith
  ultimately obtain keys where k: "collect_all (info_deps infos) f (map RStateKey refs @ concat (map ?F fixtures)) (Some []) = Some keys"
    "set keys = {x. \<exists>k \<in> set (map RStateKey refs @ concat (map ?F fixtures)). reached (info_deps infos) k x}"
    using collect_all_reached[of "info_key ` set infos" "info_deps infos" f "map RStateKey refs @ concat (map ?F fixtures)"]
    by blast
  have "root \<in> set (map RStateKey refs @ concat (map ?F fixtures)) \<longleftrightarrow> root \<in> RStateKey ` set refs \<or>
      (\<exists>n \<in> set fixtures. \<exists>b \<in> set bindings. root \<in> RStateKey ` set (shared_of resolved n) \<and>
         reached (parent_ids resolved fixtures) (FixtureIdentifier b) (identifier_of resolved n))" for root
    unfolding set_append through by (simp add: n(2)) blast
  note roots = this
  have "suite_keys f infos resolved fixtures refs bindings = Some keys"
    using k(1) by (simp add: suite_keys_def n(1) Let_def)
  moreover have "set keys = {key. \<exists>root. reached (info_deps infos) root key \<and>
      root \<in> set (map RStateKey refs @ concat (map ?F fixtures))}"
    unfolding k(2) by (rule Collect_cong) (simp only: Bex_def conj_commute)
  ultimately show ?thesis
    unfolding roots by (rule exI[of _ keys, OF conjI])
qed

text \<open>
  . The look-up of the shared fixtures a suite needs always returns, and it finds exactly the
  keys reached along dependencies from the suite's own shared fixtures and from those of every
  package fixture its bindings reach through their parents.\<close>

theorem suite_keys_reached:
  assumes "set fixtures \<subseteq> fst ` set resolved"
  shows "\<exists>keys. suite_keys (length infos + length fixtures + 2) infos resolved fixtures refs bindings = Some keys \<and>
     set keys = {key. \<exists>root. reached (info_deps infos) root key \<and>
       (root \<in> RStateKey ` set refs \<or>
        (\<exists>n \<in> set fixtures. \<exists>b \<in> set bindings. root \<in> RStateKey ` set (shared_of resolved n) \<and>
           reached (parent_ids resolved fixtures) (FixtureIdentifier b) (identifier_of resolved n)))}"
  by (rule suite_keys_result[OF order.refl assms])

lemma required_keys_ends:
  "set fixtures \<subseteq> fst ` set resolved \<Longrightarrow> \<exists>keys. required_keys (length infos + length fixtures + 2) infos resolved fixtures bs = Some keys"
proof (induction bs)
  case (Cons b bs)
  obtain keys where "suite_keys (length infos + length fixtures + 2) infos resolved fixtures (SbRefs b) (SbFixtures b) = Some keys"
    using suite_keys_result[OF order.refl Cons.prems] by blast
  then show ?case using Cons by auto
qed simp

text \<open>C19. Binding fails exactly when resolving some suite's fixtures does: the sorts and the look-ups
  always succeed then.  The package fixtures come out once each, every one after its parents, and
  the shared fixtures once each, every one after the shared fixtures it depends on: no cycle gets
  past the resolution.\<close>

theorem binding_is_ordered:
  "case bind_suites U depth k suites [] bind_start of
     Inl e \<Rightarrow> bindFixtures U depth k suites = Some (Inl e)
   | Inr (bs, s) \<Rightarrow> \<exists>b. bindFixtures U depth k suites = Some (Inr b) \<and> Fixtures b = Resolved s \<and>
       fixture_order (Resolved s) (AllFixtures b) \<and>
       set (RequiredSharedFixtures b) = snd ` set (SharedSeen s) \<and> distinct (map info_key (RequiredSharedFixtures b)) \<and>
       (\<forall>i < length (RequiredSharedFixtures b).
          set (Dependencies (RequiredSharedFixtures b ! i)) \<subseteq> info_key ` set (take i (RequiredSharedFixtures b)))"
proof (cases "bind_suites U depth k suites [] bind_start")
  case (Inl e)
  then show ?thesis by (simp add: bindFixtures_def)
next
  case (Inr bs_s)
  obtain bs s where bs: "bs_s = (bs, s)" by fastforce
  obtain order infos where r: "topologicalSort (Resolved s) (BChildren s) = Some (Inr order)" "fixture_order (Resolved s) order"
    "topoSortSharedFixtures (SharedSeen s) = Some (Inr infos)" "set infos = snd ` set (SharedSeen s)"
    "distinct (map info_key infos)" "\<forall>i < length infos. set (Dependencies (infos ! i)) \<subseteq> info_key ` set (take i infos)"
    using resolved_fixtures_sort[of U depth k suites bs s] Inr bs by blast
  obtain keys where "required_keys (length infos + length order + 2) infos (Resolved s) order bs = Some keys"
    using required_keys_ends[of order "Resolved s" infos bs] r(2) by (auto simp: fixture_order_def)
  then show ?thesis using Inr bs r by (simp add: bindFixtures_def)
qed

subsection \<open>Values that cannot be transferred\<close>

text \<open>A type reaches, through elements, keys and exported fields, a channel, a function or a map whose
  keys JSON cannot write.\<close>

inductive not_json :: "universe \<Rightarrow> gtype \<Rightarrow> bool" for U where
  "underlying U t = GChan \<Longrightarrow> not_json U t"
| "underlying U t = GSignature \<Longrightarrow> not_json U t"
| "underlying U t = GArray e \<Longrightarrow> not_json U e \<Longrightarrow> not_json U t"
| "underlying U t = GSlice e \<Longrightarrow> not_json U e \<Longrightarrow> not_json U t"
| "underlying U t = GPointer e \<Longrightarrow> not_json U e \<Longrightarrow> not_json U t"
| "underlying U t = GMap key e \<Longrightarrow> not_json U key \<Longrightarrow> not_json U t"
| "underlying U t = GMap key e \<Longrightarrow> \<not> isJSONMapKey U key \<Longrightarrow> not_json U t"
| "underlying U t = GMap key e \<Longrightarrow> not_json U e \<Longrightarrow> not_json U t"
| "underlying U t = GStruct fs \<Longrightarrow> f \<in> set fs \<Longrightarrow> Exported f \<Longrightarrow> not_json U (FType f) \<Longrightarrow> not_json U t"

inductive_cases not_jsonE: "not_json U t"

lemma struct_reason_Some:
  "struct_reason g fs = Some r \<Longrightarrow> (\<And>f r. f \<in> set fs \<Longrightarrow> g (FType f) = Some r \<Longrightarrow> r \<noteq> [] \<longleftrightarrow> P (FType f)) \<Longrightarrow>
   r \<noteq> [] \<longleftrightarrow> (\<exists>f \<in> set fs. Exported f \<and> P (FType f))"
proof (induction fs arbitrary: r)
  case (Cons x xs)
  show ?case
  proof (cases "Exported x")
    case False
    then show ?thesis using Cons by simp
  next
    case True
    then obtain q where q: "g (FType x) = Some q" using Cons.prems(1) by (auto split: option.splits)
    then have "q \<noteq> [] \<longleftrightarrow> P (FType x)" using Cons.prems(2) by simp
    then show ?thesis using True q Cons by (cases "q = []") auto
  qed
qed simp

lemma not_json_cases:
  "underlying U t = GArray e \<Longrightarrow> not_json U t \<longleftrightarrow> not_json U e"
  "underlying U t = GSlice e \<Longrightarrow> not_json U t \<longleftrightarrow> not_json U e"
  "underlying U t = GPointer e \<Longrightarrow> not_json U t \<longleftrightarrow> not_json U e"
  "underlying U t = GMap key e \<Longrightarrow> not_json U t \<longleftrightarrow> not_json U key \<or> \<not> isJSONMapKey U key \<or> not_json U e"
  "underlying U t = GStruct fs \<Longrightarrow> not_json U t \<longleftrightarrow> (\<exists>f \<in> set fs. Exported f \<and> not_json U (FType f))"
  "underlying U t = GChan \<Longrightarrow> not_json U t" "underlying U t = GSignature \<Longrightarrow> not_json U t"
  "underlying U t = GBasic b \<Longrightarrow> \<not> not_json U t" "underlying U t = GOther \<Longrightarrow> \<not> not_json U t"
  "underlying U t = GNamed n \<Longrightarrow> \<not> not_json U t"
  by (subst not_json.simps; auto)+

lemma nonSerializable_Some: "nonSerializable U k t = Some r \<Longrightarrow> r \<noteq> [] \<longleftrightarrow> not_json U t"
proof (induction k arbitrary: t r)
  case (Suc k)
  show ?case
  proof (cases "underlying U t")
    case (GMap key e)
    then obtain q where q: "nonSerializable U k key = Some q" using Suc.prems by (auto split: option.splits)
    show ?thesis
      using Suc.prems Suc.IH[OF q] Suc.IH[of e r] q GMap by (auto simp: not_json_cases(4) split: if_splits)
  next
    case (GStruct fs)
    then show ?thesis
      using Suc.prems struct_reason_Some[of "nonSerializable U k" fs r "not_json U"] Suc.IH by (simp add: not_json_cases(5))
  qed (use Suc in \<open>auto simp: not_json_cases\<close>)
qed simp

text \<open>A type that can be unfolded to its end.\<close>

inductive finite_type :: "universe \<Rightarrow> gtype \<Rightarrow> bool" for U where
  "underlying U t \<in> {GBasic b, GChan, GSignature, GOther, GNamed n} \<Longrightarrow> finite_type U t"
| "underlying U t \<in> {GArray e, GSlice e, GPointer e} \<Longrightarrow> finite_type U e \<Longrightarrow> finite_type U t"
| "underlying U t = GMap key e \<Longrightarrow> finite_type U key \<Longrightarrow> finite_type U e \<Longrightarrow> finite_type U t"
| "underlying U t = GStruct fs \<Longrightarrow> \<forall>f \<in> set fs. finite_type U (FType f) \<Longrightarrow> finite_type U t"

lemma struct_reason_mono:
  "struct_reason g fs = Some r \<Longrightarrow> (\<And>t r. g t = Some r \<Longrightarrow> h t = Some r) \<Longrightarrow> struct_reason h fs = Some r"
  by (induction fs) (auto split: if_splits option.splits)

lemma nonSerializable_mono: "nonSerializable U k t = Some r \<Longrightarrow> nonSerializable U (Suc k) t = Some r"
proof (induction k arbitrary: t r)
  case (Suc k)
  note now = nonSerializable.simps(2)[of U k t] and later = nonSerializable.simps(2)[of U "Suc k" t]
  show ?case
  proof (cases "underlying U t")
    case (GMap key e)
    then obtain q where q: "nonSerializable U k key = Some q"
      using Suc.prems unfolding now by (auto split: option.splits)
    show ?thesis
      using Suc.prems Suc.IH[OF q] Suc.IH[of e r] q GMap unfolding now later
      by (auto split: if_splits simp del: nonSerializable.simps(2))
  next
    case (GStruct fs)
    then show ?thesis
      using Suc.prems struct_reason_mono[of "nonSerializable U k" fs r "nonSerializable U (Suc k)"] Suc.IH unfolding now later
      by (auto simp del: nonSerializable.simps(2))
  qed (use Suc in \<open>simp_all add: now later del: nonSerializable.simps(2)\<close>)
qed simp

lemma nonSerializable_le: "nonSerializable U k t = Some r \<Longrightarrow> k \<le> m \<Longrightarrow> nonSerializable U m t = Some r"
proof (induction m)
  case (Suc m)
  then show ?case using nonSerializable_mono by (cases "k = Suc m") auto
qed simp

lemma struct_reason_ends: "(\<And>f. f \<in> set fs \<Longrightarrow> \<exists>r. g (FType f) = Some r) \<Longrightarrow> \<exists>r. struct_reason g fs = Some r"
proof (induction fs)
  case (Cons x xs)
  obtain r q where "g (FType x) = Some r" "struct_reason g xs = Some q"
    using Cons by (metis list.set_intros)
  then show ?case by simp
qed simp

lemma fields_fuel:
  "\<forall>f \<in> set fs. \<exists>k r. nonSerializable U k (FType f) = Some r \<Longrightarrow> \<exists>k. \<forall>f \<in> set fs. \<exists>r. nonSerializable U k (FType f) = Some r"
proof (induction fs)
  case (Cons x xs)
  obtain k r where x: "nonSerializable U k (FType x) = Some r" using Cons.prems by auto
  obtain m where m: "\<forall>f \<in> set xs. \<exists>r. nonSerializable U m (FType f) = Some r" using Cons by auto
  have "\<exists>r. nonSerializable U (max k m) (FType f) = Some r" if "f \<in> set (x # xs)" for f
    using that x m nonSerializable_le[of U k "FType f" _ "max k m"] nonSerializable_le[of U m "FType f" _ "max k m"]
    by (metis max.cobounded1 max.cobounded2 set_ConsD)
  then show ?case by blast
qed simp

lemma nonSerializable_ends: "finite_type U t \<Longrightarrow> \<exists>k r. nonSerializable U k t = Some r"
proof (induction rule: finite_type.induct)
  case (1 t b n)
  then show ?case by (intro exI[of _ 1]) auto
next
  case (2 t e)
  then obtain k r where "nonSerializable U k e = Some r" by blast
  then show ?case using 2(1) by (intro exI[of _ "Suc k"] exI[of _ r]) auto
next
  case (3 t key e)
  then obtain k m q r where "nonSerializable U k key = Some q" "nonSerializable U m e = Some r" by blast
  then have "nonSerializable U (max k m) key = Some q" "nonSerializable U (max k m) e = Some r"
    using nonSerializable_le by (meson max.cobounded1 max.cobounded2)+
  then show ?case using 3(1) by (intro exI[of _ "Suc (max k m)"]) auto
next
  case (4 t fs)
  then have "\<forall>f \<in> set fs. \<exists>k r. nonSerializable U k (FType f) = Some r" by blast
  then obtain k where "\<forall>f \<in> set fs. \<exists>r. nonSerializable U k (FType f) = Some r" using fields_fuel by blast
  then obtain r where "struct_reason (nonSerializable U k) fs = Some r"
    using struct_reason_ends[of fs "nonSerializable U k"] by blast
  then show ?case using 4(1) by (intro exI[of _ "Suc k"] exI[of _ r]) simp
qed

text \<open>A type that contains itself through an exported pointer is walked for ever.\<close>

lemma recursive_type_never_ends:
  assumes "Und U n = GStruct [Field name True False (GPointer (GNamed n))]" "underlying U (GPointer (GNamed n)) = GPointer (GNamed n)"
  shows "nonSerializable U k (GNamed n) = None \<and> nonSerializable U k (GPointer (GNamed n)) = None"
proof (induction k)
  case (Suc k)
  then show ?case using assms by (simp add: underlying_def)
qed simp


subsection \<open>Examples\<close>

text \<open>A suite with a package fixture that has a parent and a shared fixture, which needs another.\<close>

definition hook :: "string \<Rightarrow> method_decl" where
  "hook name = \<lparr>MName = name, MPtrRecv = True, MParams = [''context.Context''], MResults = [''error'']\<rparr>"

definition shop_type :: "string \<Rightarrow> named_type" where
  "shop_type name = \<lparr>TyName = name, TyArgs = [], TyPkgPath = ''shop'', TyPkgName = ''shop'', TyMethods = [hook ''BeforeAll'']\<rparr>"

definition shop_names :: "string list" where
  "shop_names = [''AppFixture'', ''WebFixture'', ''CacheSharedFixture'', ''DbSharedFixture'']"

definition ptr_field :: "string \<Rightarrow> nat \<Rightarrow> gfield" where
  "ptr_field name n = Field name True False (GPointer (GNamed n))"

definition shop :: universe where
  "shop = \<lparr>Univ = (\<lambda>n. shop_type (if n < 4 then shop_names ! n else ''Other'')),
     Und = (\<lambda>n. GStruct (if n = 0 then [ptr_field ''Cache'' 2]
       else if n = 1 then [ptr_field ''App'' 0]
       else if n = 2 then [ptr_field ''Db'' 3, Field ''Addr'' True False (GBasic True)]
       else [Field ''Dsn'' True False (GBasic True)])),
     LocalFieldsOf = (\<lambda>n x. False), InMethodSet = (\<lambda>n x. False), TargetPkg = ''shop''\<rparr>"

definition shop_suites :: "suite list" where
  "shop_suites = [\<lparr>SuId = ''ShopTestSuite'', SuFields = Some [ptr_field ''Web'' 1], SuBenchmarks = False, SuFuzzers = False\<rparr>]"

lemma shop_resolves: "\<not> isl (bind_suites shop 3 4 shop_suites [] bind_start)"
  by code_simp

lemma binding_is_ordered_witness:
  "\<exists>b. bindFixtures shop 3 4 shop_suites = Some (Inr b) \<and>
     fixture_order (Fixtures b) (AllFixtures b) \<and> distinct (map info_key (RequiredSharedFixtures b))"
proof -
  obtain bs s where "bind_suites shop 3 4 shop_suites [] bind_start = Inr (bs, s)"
    using shop_resolves by (cases "bind_suites shop 3 4 shop_suites [] bind_start") auto
  then show ?thesis using binding_is_ordered[of shop 3 4 shop_suites] by auto
qed

definition ref_to :: "string \<Rightarrow> SharedFixtureRef" where
  "ref_to key = \<lparr>RLocalVar = ''sf0'', RQualifiedType = key, RFieldName = key, RStateKey = key, RIdentifier = key,
     RHasHydrate = False, RHasDehydrate = False, RPkgPath = []\<rparr>"

lemma suite_keys_reached_witness:
  "\<exists>keys. suite_keys 4 [info_with ''b'' [], info_with ''a'' [''p.b'']] [] [] [ref_to ''p.a''] [] = Some keys \<and> ''p.b'' \<in> set keys"
proof -
  let ?infos = "[info_with ''b'' [], info_with ''a'' [''p.b'']]"
  have four: "length ?infos + length ([] :: nat list) + 2 = 4" by simp
  obtain keys where k: "suite_keys 4 ?infos [] [] [ref_to ''p.a''] [] = Some keys"
    "set keys = {key. \<exists>root. reached (info_deps ?infos) root key \<and> root = ''p.a''}"
    using suite_keys_reached[of "[]" "[]" ?infos "[ref_to ''p.a'']" "[]"] unfolding four by (auto simp: ref_to_def)
  have "''p.b'' \<in> set (info_deps ?infos ''p.a'')" by (simp add: info_deps_def info_with_def)
  then have "reached (info_deps ?infos) ''p.a'' ''p.b''" by (rule reached_step) simp
  then show ?thesis using k by blast
qed


end
