(* ===== verification/FixtureWindowProps.thy ===== *)
theory FixtureWindowProps
  imports FixtureWindow BindProps "HOL-Library.Multiset"
begin

text \<open>
  The ledger frees a fixture once no planned suite needs it any more; the order of the windows puts
  every fixture after its dependencies; and the windows of a run hold exactly what the suites it
  dispatches need.
\<close>

subsection \<open>The ledger\<close>

text \<open>The planned suites that still need a fixture.\<close>

definition waiting :: "fixtureLedger \<Rightarrow> string \<Rightarrow> nat" where
  "waiting l k = length (filter (\<lambda>(su, ks). su \<notin> set (done_suites l) \<and> k \<in> set ks) (needs l))"

definition ledger_inv :: "fixtureLedger \<Rightarrow> bool" where
  "ledger_inv l \<longleftrightarrow> distinct (map fst (needs l)) \<and> (\<forall>(su, ks) \<in> set (needs l). distinct ks) \<and>
     (\<forall>k. counts l k = int (waiting l k))"

lemma free_keys_filter:
  "distinct ks \<Longrightarrow> free_keys c ks = (\<lambda>k. if k \<in> set ks then c k - 1 else c k, filter (\<lambda>k. c k = 1) ks)"
proof (induction ks arbitrary: c)
  case (Cons k ks)
  let ?c = "c(k := c k - 1)"
  have f: "filter (\<lambda>x. ?c x = 1) ks = filter (\<lambda>x. c x = 1) ks"
    by (rule filter_cong) (use Cons.prems in auto)
  have g: "(\<lambda>x. if x \<in> set ks then ?c x - 1 else ?c x) = (\<lambda>x. if x \<in> set (k # ks) then c x - 1 else c x)"
    using Cons.prems by (auto simp: fun_eq_iff)
  have "free_keys ?c ks = (\<lambda>x. if x \<in> set (k # ks) then c x - 1 else c x, filter (\<lambda>x. c x = 1) ks)"
    using Cons.IH[of ?c] Cons.prems by (simp only: f g distinct.simps)
  then show ?case by (simp add: Let_def del: fun_upd_apply) (simp add: fun_upd_same)
qed simp

lemma waiting_done:
  assumes "distinct (map fst n)" "(su, ks) \<in> set n" "su \<notin> D"
  shows "length (filter (\<lambda>(s, js). s \<notin> D \<and> k \<in> set js) n) =
    length (filter (\<lambda>(s, js). s \<notin> insert su D \<and> k \<in> set js) n) + (if k \<in> set ks then 1 else 0)"
  using assms
proof (induction n)
  case (Cons x n)
  obtain s js where x: "x = (s, js)" by fastforce
  show ?case
  proof (cases "s = su")
    case True
    then have "(su, ks) = x" using Cons.prems x by force
    moreover have "filter (\<lambda>(s, js). s \<notin> D \<and> k \<in> set js) n = filter (\<lambda>(s, js). s \<notin> insert su D \<and> k \<in> set js) n"
      by (rule filter_cong) (use Cons.prems True x in force)+
    ultimately show ?thesis using Cons.prems(3) x True by simp
  next
    case False
    then have "(su, ks) \<in> set n" using Cons.prems x by auto
    then show ?thesis using Cons x False by auto
  qed
qed simp

lemma Done_step:
  assumes "ledger_inv l" "Done su l = (free, l')"
  shows "ledger_inv l' \<and> needs l' = needs l \<and>
    set (done_suites l') \<inter> fst ` set (needs l) = insert su (set (done_suites l)) \<inter> fst ` set (needs l) \<and>
    distinct free \<and> set free = {k. 0 < waiting l k \<and> waiting l' k = 0} \<and> (\<forall>k. waiting l' k \<le> waiting l k)"
proof (cases "map_of (needs l) su = None \<or> su \<in> set (done_suites l)")
  case True
  then have "free = []" "l' = l" using assms(2) by (auto simp: Done_def split: option.splits if_splits)
  moreover have "map_of (needs l) su = None \<Longrightarrow> su \<notin> fst ` set (needs l)" by (simp add: map_of_eq_None_iff)
  ultimately show ?thesis using assms(1) True by auto
next
  case False
  then obtain ks where ks: "map_of (needs l) su = Some ks" "su \<notin> set (done_suites l)" by auto
  then have mem: "(su, ks) \<in> set (needs l)" by (blast dest: map_of_SomeD)
  have inv: "distinct (map fst (needs l))" "distinct ks" "counts l k = int (waiting l k)" for k
    using assms(1) mem by (auto simp: ledger_inv_def)
  have l': "free = filter (\<lambda>k. counts l k = 1) ks"
    "l' = l\<lparr>counts := (\<lambda>k. if k \<in> set ks then counts l k - 1 else counts l k), done_suites := su # done_suites l\<rparr>"
    using assms(2) ks free_keys_filter[OF inv(2)] by (simp_all add: Done_def)
  have w: "waiting l k = waiting l' k + (if k \<in> set ks then 1 else 0)" for k
    using waiting_done[OF inv(1) mem ks(2)] by (simp add: waiting_def l'(2))
  have "counts l' k = int (waiting l' k)" for k using w[of k] inv(3)[of k] by (simp add: l'(2))
  moreover have "needs l' = needs l" by (simp add: l'(2))
  ultimately have "ledger_inv l'" using assms(1) unfolding ledger_inv_def by simp
  moreover have "k \<in> set free \<longleftrightarrow> 0 < waiting l k \<and> waiting l' k = 0" for k
    using w[of k] inv(3)[of k] by (cases "k \<in> set ks") (auto simp: l'(1))
  moreover have "waiting l' k \<le> waiting l k" for k using w[of k] by simp
  moreover have "distinct free" using inv(2) by (simp add: l'(1))
  moreover have "needs l' = needs l" "done_suites l' = su # done_suites l" by (simp_all add: l'(2))
  ultimately show ?thesis by (simp add: set_eq_iff)
qed

lemma Done_all_steps:
  assumes "ledger_inv l" "Done_all sus l = (free, l')"
  shows "needs l' = needs l \<and> set (done_suites l') \<inter> fst ` set (needs l) = (set sus \<union> set (done_suites l)) \<inter> fst ` set (needs l) \<and>
    distinct free \<and> set free = {k. 0 < waiting l k \<and> waiting l' k = 0} \<and> (\<forall>k. waiting l' k \<le> waiting l k)"
  using assms
proof (induction sus arbitrary: l free)
  case Nil
  then show ?case by auto
next
  case (Cons su sus)
  obtain f1 l1 where one: "Done su l = (f1, l1)" by fastforce
  obtain f2 where two: "Done_all sus l1 = (f2, l')" "free = f1 @ f2"
    using Cons.prems(2) one by (auto simp: Let_def split: prod.splits)
  note s = Done_step[OF Cons.prems(1) one]
  then have "ledger_inv l1" by blast
  note t = Cons.IH[OF this two(1)]
  have s': "needs l1 = needs l" "distinct f1" "\<And>k. k \<in> set f1 \<longleftrightarrow> 0 < waiting l k \<and> waiting l1 k = 0"
    "\<And>k. waiting l1 k \<le> waiting l k" "set (done_suites l1) \<inter> fst ` set (needs l) = insert su (set (done_suites l)) \<inter> fst ` set (needs l)"
    using s by blast+
  have t': "needs l' = needs l" "distinct f2" "\<And>k. k \<in> set f2 \<longleftrightarrow> 0 < waiting l1 k \<and> waiting l' k = 0"
    "\<And>k. waiting l' k \<le> waiting l1 k" "set (done_suites l') \<inter> fst ` set (needs l) = (set sus \<union> set (done_suites l1)) \<inter> fst ` set (needs l)"
    using t unfolding s'(1) by blast+
  have "set f1 \<inter> set f2 = {}" using s'(3) t'(3) by auto
  moreover have "k \<in> set free \<longleftrightarrow> 0 < waiting l k \<and> waiting l' k = 0" for k
    using s'(3)[of k] t'(3)[of k] s'(4)[of k] t'(4)[of k] by (auto simp: two(2))
  moreover have "waiting l' k \<le> waiting l k" for k using s'(4)[of k] t'(4)[of k] by linarith
  moreover have "set (done_suites l') \<inter> fst ` set (needs l) = (set (su # sus) \<union> set (done_suites l)) \<inter> fst ` set (needs l)"
    unfolding t'(5) Int_Un_distrib2 s'(5) by auto
  ultimately show ?case using s'(2) t'(1,2) two(2) by (simp add: set_eq_iff)
qed

definition suite_needs :: "required \<Rightarrow> SharedFixtureInfo list \<Rightarrow> string \<times> string \<Rightarrow> string list" where
  "suite_needs reqKeys fixtures su = sortedKeys (aliveFixtureKeys [(fst su, [snd su])] reqKeys fixtures)"

lemma sortedKeys_simps [simp]: "set (sortedKeys ks) = set ks" "distinct (sortedKeys ks)"
  by (simp_all add: sortedKeys_def)

lemma count_up:
  "distinct ks \<Longrightarrow> foldl (\<lambda>c k. c(k := c k + 1)) c ks = (\<lambda>k. if k \<in> set ks then c k + 1 else (c k :: int))"
  by (induction ks arbitrary: c) (auto simp: fun_eq_iff)

lemma ledger_adds:
  assumes "distinct sus"
  shows "foldl (ledger_add reqKeys fixtures) \<lparr>needs = [], counts = \<lambda>_. 0, done_suites = []\<rparr> sus =
    \<lparr>needs = map (\<lambda>su. (su, suite_needs reqKeys fixtures su)) sus,
     counts = (\<lambda>k. int (length (filter (\<lambda>su. k \<in> set (suite_needs reqKeys fixtures su)) sus))), done_suites = []\<rparr>"
  using assms
proof (induction sus rule: rev_induct)
  case (snoc su sus)
  have new: "map_of (map (\<lambda>su. (su, suite_needs reqKeys fixtures su)) sus) su = None"
    using snoc.prems by (auto simp: map_of_eq_None_iff)
  have d: "distinct (suite_needs reqKeys fixtures su)" by (simp add: suite_needs_def)
  have "foldl (ledger_add reqKeys fixtures) \<lparr>needs = [], counts = \<lambda>_. 0, done_suites = []\<rparr> sus =
    \<lparr>needs = map (\<lambda>su. (su, suite_needs reqKeys fixtures su)) sus,
     counts = (\<lambda>k. int (length (filter (\<lambda>su. k \<in> set (suite_needs reqKeys fixtures su)) sus))), done_suites = []\<rparr>"
    using snoc by simp
  then show ?case
    by (simp only: foldl_append foldl.simps)
      (simp add: ledger_add_def Let_def suite_needs_def[symmetric] count_up[OF d] set_entry_def new fun_eq_iff)
qed simp

lemma new_ledger:
  assumes "distinct (planned_suites planned)"
  shows "ledger_inv (newFixtureLedger planned reqKeys fixtures)"
    and "needs (newFixtureLedger planned reqKeys fixtures) = map (\<lambda>su. (su, suite_needs reqKeys fixtures su)) (planned_suites planned)"
    and "done_suites (newFixtureLedger planned reqKeys fixtures) = []"
proof -
  note l = ledger_adds[OF assms, of reqKeys fixtures, folded newFixtureLedger_def]
  show "needs (newFixtureLedger planned reqKeys fixtures) = map (\<lambda>su. (su, suite_needs reqKeys fixtures su)) (planned_suites planned)"
    "done_suites (newFixtureLedger planned reqKeys fixtures) = []"
    using l by simp_all
  show "ledger_inv (newFixtureLedger planned reqKeys fixtures)"
    unfolding l ledger_inv_def waiting_def
    using assms by (auto simp: comp_def filter_map suite_needs_def)
qed

lemma waiting_needs:
  "needs l = map (\<lambda>su. (su, f su)) sus \<Longrightarrow> 0 < waiting l k \<longleftrightarrow> (\<exists>su \<in> set sus. su \<notin> set (done_suites l) \<and> k \<in> set (f su))"
  by (auto simp: waiting_def filter_empty_conv)

lemma alive_keys_reached:
  "set (aliveFixtureKeys phase reqKeys fixtures) = {key. \<exists>root \<in> set (phase_keys reqKeys phase). reached (info_deps fixtures) root key}"
proof -
  have "info_deps fixtures x \<noteq> [] \<Longrightarrow> x \<in> info_key ` set fixtures" for x
    by (auto simp: info_deps_def info_key_def dest!: find_SomeD split: option.splits)
  moreover have "card (info_key ` set fixtures) + 2 \<le> length fixtures + 2" using card_image_list[of info_key fixtures] by simp
  ultimately obtain r where "collect_all (info_deps fixtures) (length fixtures + 2) (phase_keys reqKeys phase) (Some []) = Some r"
    "set r = {x. \<exists>k \<in> set (phase_keys reqKeys phase). reached (info_deps fixtures) k x}"
    using collect_all_reached[of "info_key ` set fixtures" "info_deps fixtures" "length fixtures + 2" "phase_keys reqKeys phase"] by blast
  then show ?thesis by (simp add: aliveFixtureKeys_def)
qed


text \<open>
  . Whatever suites are reported, in whatever order and however often, the fixtures the ledger
  frees on the way are exactly those some planned suite needs and whose planned suites have all been
  reported, each freed once; a suite needs what its required keys reach along dependencies.\<close>

theorem ledger_frees_unneeded:
  assumes "distinct (planned_suites planned)"
  shows "distinct (fst (Done_all sus (newFixtureLedger planned reqKeys fixtures))) \<and>
    set (fst (Done_all sus (newFixtureLedger planned reqKeys fixtures))) =
      {k. (\<exists>su \<in> set (planned_suites planned). k \<in> set (suite_needs reqKeys fixtures su)) \<and>
          (\<forall>su \<in> set (planned_suites planned). k \<in> set (suite_needs reqKeys fixtures su) \<longrightarrow> su \<in> set sus)} \<and>
    (\<forall>su. set (suite_needs reqKeys fixtures su) =
      {k. \<exists>root \<in> set (reqKeys (fst su) (snd su)). reached (info_deps fixtures) root k})"
proof -
  let ?l = "newFixtureLedger planned reqKeys fixtures"
  let ?p = "planned_suites planned"
  obtain free l' where d: "Done_all sus ?l = (free, l')" by fastforce
  note n = new_ledger[OF assms, of reqKeys fixtures]
  note s = Done_all_steps[OF n(1) d]
  have n': "needs l' = map (\<lambda>su. (su, suite_needs reqKeys fixtures su)) ?p" using s n(2) by simp
  have done_iff: "su \<in> set (done_suites l') \<longleftrightarrow> su \<in> set sus" if "su \<in> set ?p" for su
  proof -
    have "fst ` set (needs ?l) = set ?p" by (simp add: n(2) image_image)
    then have "set (done_suites l') \<inter> set ?p = (set sus \<union> set (done_suites ?l)) \<inter> set ?p" using s by simp
    then show ?thesis using that n(3) by auto
  qed
  have free: "set free = {k. 0 < waiting ?l k \<and> waiting l' k = 0}" "distinct free" using s by blast+
  have "waiting l' k = 0 \<longleftrightarrow> (\<forall>su \<in> set ?p. k \<in> set (suite_needs reqKeys fixtures su) \<longrightarrow> su \<in> set sus)" for k
    using waiting_needs[OF n', of k] done_iff by auto
  moreover have "0 < waiting ?l k \<longleftrightarrow> (\<exists>su \<in> set ?p. k \<in> set (suite_needs reqKeys fixtures su))" for k
    using waiting_needs[OF n(2), of k] n(3) by simp
  moreover have "set (suite_needs reqKeys fixtures su) = {k. \<exists>root \<in> set (reqKeys (fst su) (snd su)). reached (info_deps fixtures) root k}" for su
    by (simp add: suite_needs_def alive_keys_reached phase_keys_def)
  ultimately show ?thesis using d free by simp
qed

lemma ledger_frees_unneeded_witness:
  "set (fst (Done_all [(''p'', ''TestA''), (''p'', ''TestA'')]
     (newFixtureLedger [[(''p'', [''TestA''])], [(''q'', [''TestB''])]]
       (\<lambda>p s. if s = ''TestA'' then [''j'', ''k''] else [''k'']) []))) = {''j''}"
proof -
  let ?req = "\<lambda>(p :: string) s. if s = ''TestA'' then [''j'', ''k''] else [''k'']"
  have "\<not> reached (info_deps []) root key" if ne: "root \<noteq> key" for root key
  proof
    assume "reached (info_deps []) root key"
    then show False using ne unfolding reached_def by (cases rule: converse_rtranclpE) (simp_all add: info_deps_def)
  qed
  then have r: "reached (info_deps []) root key \<longleftrightarrow> root = key" for root key by auto
  have p: "planned_suites [[(''p'', [''TestA''])], [(''q'', [''TestB''])]] = [(''p'', ''TestA''), (''q'', ''TestB'')]"
    by (simp add: planned_suites_def)
  have d: "distinct (planned_suites [[(''p'', [''TestA''])], [(''q'', [''TestB''])]])" by (simp add: p)
  note c = ledger_frees_unneeded[OF d, of "[(''p'', ''TestA''), (''p'', ''TestA'')]" ?req "[]"]
  have n: "set (suite_needs ?req [] (x, y)) = set (?req x y)" for x y using c by (auto simp: r)
  show ?thesis using c unfolding p by (auto simp: n)
qed


subsection \<open>Dependencies first\<close>

text \<open>The dependencies of a fixture that are among the fixtures, as places.\<close>

definition dep_places :: "SharedFixtureInfo list \<Rightarrow> nat \<Rightarrow> nat list" where
  "dep_places fs i = List.map_filter (key_index fs) (Dependencies (fs ! i))"

text \<open>An order of places in which each comes after its dependencies, and ranks that show there is one.\<close>

definition places_ordered :: "SharedFixtureInfo list \<Rightarrow> nat list \<Rightarrow> bool" where
  "places_ordered fs out \<longleftrightarrow> distinct out \<and> (\<forall>p < length out. set (dep_places fs (out ! p)) \<subseteq> set (take p out))"

definition ranked :: "SharedFixtureInfo list \<Rightarrow> (string \<Rightarrow> nat) \<Rightarrow> bool" where
  "ranked fs r \<longleftrightarrow> (\<forall>f \<in> set fs. \<forall>d \<in> set (Dependencies f). r d < r (sharedFixtureKey f))"

lemma key_index_Some: "key_index fs k = Some j \<Longrightarrow> j < length fs \<and> sharedFixtureKey (fs ! j) = k"
  by (auto simp: key_index_def dest!: find_SomeD)

lemma places_ordered_snoc:
  "places_ordered fs out \<Longrightarrow> i \<notin> set out \<Longrightarrow> set (dep_places fs i) \<subseteq> set out \<Longrightarrow> places_ordered fs (out @ [i])"
  by (auto simp: places_ordered_def nth_append less_Suc_eq)

text \<open>A state of the walk: what is placed and not yet out is being placed.\<close>

definition place_inv :: "SharedFixtureInfo list \<Rightarrow> nat list \<times> nat list \<Rightarrow> bool" where
  "place_inv fs st \<longleftrightarrow> places_ordered fs (snd st) \<and> set (snd st) \<subseteq> set (fst st) \<and> set (fst st) \<subseteq> {..<length fs}"

definition place_grows :: "nat list \<times> nat list \<Rightarrow> nat list \<times> nat list \<Rightarrow> bool" where
  "place_grows st st' \<longleftrightarrow> set (fst st) \<subseteq> set (fst st') \<and> set (snd st) \<subseteq> set (snd st') \<and>
     set (fst st') - set (snd st') = set (fst st) - set (snd st)"

lemma place_grows_trans: "place_grows a b \<Longrightarrow> place_grows b c \<Longrightarrow> place_grows a c"
  by (auto simp: place_grows_def)

lemma place_deps:
  assumes "\<And>j st. j \<in> P \<Longrightarrow> place_inv fs st \<Longrightarrow> length fs + 1 - card (set (fst st)) \<le> f \<Longrightarrow>
      \<forall>a \<in> set (fst st) - set (snd st). r (sharedFixtureKey (fs ! j)) < r (sharedFixtureKey (fs ! a)) \<Longrightarrow>
      \<exists>st'. g j st = Some st' \<and> place_inv fs st' \<and> place_grows st st' \<and> j \<in> set (snd st')"
    and "place_inv fs st" "length fs + 1 - card (set (fst st)) \<le> f"
    and "\<forall>j \<in> set (List.map_filter (key_index fs) ds). j \<in> P \<and>
        (\<forall>a \<in> set (fst st) - set (snd st). r (sharedFixtureKey (fs ! j)) < r (sharedFixtureKey (fs ! a)))"
  shows "\<exists>st'. fold (\<lambda>dep acc. case acc of
             None \<Rightarrow> None
           | Some st \<Rightarrow> case key_index fs dep of None \<Rightarrow> Some st | Some j \<Rightarrow> g j st) ds (Some st) = Some st' \<and>
      place_inv fs st' \<and> place_grows st st' \<and> set (List.map_filter (key_index fs) ds) \<subseteq> set (snd st')"
  using assms(2-)
proof (induction ds arbitrary: st)
  case Nil
  then show ?case by (simp add: place_grows_def List.map_filter_simps)
next
  case (Cons d ds)
  show ?case
  proof (cases "key_index fs d")
    case None
    then show ?thesis using Cons by (simp add: List.map_filter_simps)
  next
    case (Some j)
    then obtain s1 where s1: "g j st = Some s1" "place_inv fs s1" "place_grows st s1" "j \<in> set (snd s1)"
      using assms(1)[of j st] Cons.prems by (auto simp: List.map_filter_simps)
    have "card (set (fst st)) \<le> card (set (fst s1))" using s1(3) by (intro card_mono) (auto simp: place_grows_def)
    then have "length fs + 1 - card (set (fst s1)) \<le> f" using Cons.prems(2) by linarith
    moreover have "set (fst s1) - set (snd s1) = set (fst st) - set (snd st)" using s1(3) by (simp add: place_grows_def)
    ultimately obtain s2 where s2: "fold (\<lambda>dep acc. case acc of
             None \<Rightarrow> None
           | Some st \<Rightarrow> case key_index fs dep of None \<Rightarrow> Some st | Some j \<Rightarrow> g j st) ds (Some s1) = Some s2"
      "place_inv fs s2" "place_grows s1 s2" "set (List.map_filter (key_index fs) ds) \<subseteq> set (snd s2)"
      using Cons.IH[OF s1(2)] Cons.prems(3) Some by (auto simp: List.map_filter_simps)
    have "j \<in> set (snd s2)" using s1(4) s2(3) by (auto simp: place_grows_def)
    then show ?thesis using Some s1 s2 place_grows_trans[OF s1(3) s2(3)] by (simp add: List.map_filter_simps)
  qed
qed

lemma place_ends:
  assumes r: "ranked fs r"
  shows "i < length fs \<Longrightarrow> place_inv fs st \<Longrightarrow> length fs + 1 - card (set (fst st)) \<le> f \<Longrightarrow>
    \<forall>a \<in> set (fst st) - set (snd st). r (sharedFixtureKey (fs ! i)) < r (sharedFixtureKey (fs ! a)) \<Longrightarrow>
    \<exists>st'. place_fixture fs f i st = Some st' \<and> place_inv fs st' \<and> place_grows st st' \<and> i \<in> set (snd st')"
proof (induction f arbitrary: i st)
  case 0
  have "card (set (fst st)) \<le> card {..<length fs}" using 0(2) by (intro card_mono) (auto simp: place_inv_def)
  then show ?case using 0(3) by simp
next
  case (Suc f)
  show ?case
  proof (cases "i \<in> set (fst st)")
    case True
    then have "i \<in> set (snd st)" using Suc.prems(4) by auto
    then show ?thesis using True Suc.prems(2) by (simp add: place_grows_def)
  next
    case False
    let ?st = "(i # fst st, snd st)"
    have out: "i \<notin> set (snd st)" using False Suc.prems(2) by (auto simp: place_inv_def)
    have inv: "place_inv fs ?st" using Suc.prems(1,2) by (auto simp: place_inv_def)
    have fuel: "length fs + 1 - card (set (fst ?st)) \<le> f" using Suc.prems(3) False by simp
    have dep: "j < length fs \<and> r (sharedFixtureKey (fs ! j)) < r (sharedFixtureKey (fs ! i))"
      if mem: "j \<in> set (List.map_filter (key_index fs) (Dependencies (fs ! i)))" for j
    proof -
      obtain d where d: "d \<in> set (Dependencies (fs ! i))" "key_index fs d = Some j"
        using mem by (auto simp: set_map_filter)
      then show ?thesis using key_index_Some[OF d(2)] r Suc.prems(1) unfolding ranked_def by (metis nth_mem)
    qed
    have "\<forall>j \<in> set (List.map_filter (key_index fs) (Dependencies (fs ! i))). j \<in> {..<length fs} \<and>
        (\<forall>a \<in> set (fst ?st) - set (snd ?st). r (sharedFixtureKey (fs ! j)) < r (sharedFixtureKey (fs ! a)))"
    proof (intro ballI conjI)
      fix j a assume j: "j \<in> set (List.map_filter (key_index fs) (Dependencies (fs ! i)))" and a: "a \<in> set (fst ?st) - set (snd ?st)"
      show "r (sharedFixtureKey (fs ! j)) < r (sharedFixtureKey (fs ! a))"
      proof (cases "a = i")
        case False
        then have "r (sharedFixtureKey (fs ! i)) < r (sharedFixtureKey (fs ! a))" using a Suc.prems(4) by auto
        then show ?thesis using dep[OF j] by linarith
      qed (use dep[OF j] in simp)
    qed (use dep in auto)
    note deps = this
    have IH: "\<exists>st'. place_fixture fs f j st = Some st' \<and> place_inv fs st' \<and> place_grows st st' \<and> j \<in> set (snd st')"
      if "j \<in> {..<length fs}" "place_inv fs st" "length fs + 1 - card (set (fst st)) \<le> f"
        "\<forall>a \<in> set (fst st) - set (snd st). r (sharedFixtureKey (fs ! j)) < r (sharedFixtureKey (fs ! a))" for j st
      using Suc.IH[OF _ that(2-4)] that(1) by simp
    obtain s1 where s1: "fold (\<lambda>dep acc. case acc of
             None \<Rightarrow> None
           | Some st \<Rightarrow> case key_index fs dep of None \<Rightarrow> Some st | Some j \<Rightarrow> place_fixture fs f j st)
           (Dependencies (fs ! i)) (Some ?st) = Some s1"
      "place_inv fs s1" "place_grows ?st s1" "set (List.map_filter (key_index fs) (Dependencies (fs ! i))) \<subseteq> set (snd s1)"
      using place_deps[where g = "place_fixture fs f" and P = "{..<length fs}" and r = r and f = f and st = ?st, OF IH inv fuel deps] by blast
    obtain placed out1 where p: "s1 = (placed, out1)" by fastforce
    have "i \<in> set (fst s1) - set (snd s1)" using s1(3) out by (auto simp: place_grows_def)
    then have new: "i \<notin> set out1" "i \<in> set placed" by (auto simp: p)
    have "place_fixture fs (Suc f) i st = Some (placed, out1 @ [i])" using False s1(1) p by simp
    moreover have "place_inv fs (placed, out1 @ [i])"
      using s1(2,4) p new places_ordered_snoc[of fs out1 i] by (auto simp: place_inv_def dep_places_def)
    moreover have "place_grows st (placed, out1 @ [i])"
      using s1(3) out False by (auto simp: place_grows_def p)
    ultimately show ?thesis by simp
  qed
qed

lemma places_end:
  assumes "ranked fs r" "set is \<subseteq> {..<length fs}" "place_inv fs st" "set (fst st) = set (snd st)"
  shows "\<exists>st'. fold (\<lambda>i acc. case acc of None \<Rightarrow> None | Some st \<Rightarrow> place_fixture fs (length fs + 1) i st) is (Some st) = Some st' \<and>
    place_inv fs st' \<and> set (fst st') = set (snd st') \<and> set is \<union> set (snd st) \<subseteq> set (snd st')"
  using assms(2-)
proof (induction "is" arbitrary: st)
  case (Cons i "is")
  obtain s1 where s1: "place_fixture fs (length fs + 1) i st = Some s1" "place_inv fs s1" "place_grows st s1" "i \<in> set (snd s1)"
    using place_ends[OF assms(1), of i st "length fs + 1"] Cons.prems by auto
  have "set (fst s1) = set (snd s1)" using s1(2,3) Cons.prems(3) by (auto simp: place_grows_def place_inv_def)
  then obtain s2 where "fold (\<lambda>i acc. case acc of None \<Rightarrow> None | Some st \<Rightarrow> place_fixture fs (length fs + 1) i st) is (Some s1) = Some s2"
    "place_inv fs s2" "set (fst s2) = set (snd s2)" "set is \<union> set (snd s1) \<subseteq> set (snd s2)"
    using Cons.IH[OF _ s1(2)] Cons.prems(1) by auto
  then show ?case using s1 by (auto simp: place_grows_def)
qed simp

text \<open>The result is a reordering in which every fixture follows its dependencies.\<close>

lemma dependenciesFirst_orders:
  assumes "ranked fs r" "distinct (map sharedFixtureKey fs)"
  shows "\<exists>out. dependenciesFirst fs = Some out \<and> mset out = mset fs \<and>
    (\<forall>i < length out. \<forall>d \<in> set (Dependencies (out ! i)). d \<in> sharedFixtureKey ` set fs \<longrightarrow> d \<in> sharedFixtureKey ` set (take i out))"
proof -
  have "place_inv fs ([], [])" by (simp add: place_inv_def places_ordered_def)
  then obtain placed out where f: "fold (\<lambda>i acc. case acc of None \<Rightarrow> None | Some st \<Rightarrow> place_fixture fs (length fs + 1) i st) [0..<length fs] (Some ([], [])) =
      Some (placed, out)" and o: "places_ordered fs out" "set out = {..<length fs}"
    using places_end[OF assms(1), of "[0..<length fs]" "([], [])"] by (fastforce simp: place_inv_def)
  have "mset out = mset [0..<length fs]"
    using o by (intro set_eq_iff_mset_eq_distinct[THEN iffD1]) (auto simp: places_ordered_def)
  then have "mset (map (\<lambda>i. fs ! i) out) = mset (map (\<lambda>i. fs ! i) [0..<length fs])" by simp
  then have perm: "mset (map (\<lambda>i. fs ! i) out) = mset fs" by (simp only: map_nth)
  have "d \<in> sharedFixtureKey ` set (take p (map (\<lambda>i. fs ! i) out))"
    if p: "p < length out" and d: "d \<in> set (Dependencies (fs ! (out ! p)))" "d \<in> sharedFixtureKey ` set fs" for p d
  proof -
    obtain j where "j < length fs" "sharedFixtureKey (fs ! j) = d" using d(2) by (auto simp: in_set_conv_nth)
    then have "key_index fs d \<noteq> None" unfolding key_index_def find_None_iff by auto
    then obtain j where j: "key_index fs d = Some j" by blast
    then have "j \<in> set (dep_places fs (out ! p))" using d(1) by (auto simp: dep_places_def set_map_filter)
    then have "j \<in> set (take p out)" using o(1) p by (auto simp: places_ordered_def)
    then show ?thesis using key_index_Some[OF j] by (force simp: take_map)
  qed
  then show ?thesis
    using perm f by (intro exI[of _ "map (\<lambda>i. fs ! i) out"]) (simp add: dependenciesFirst_def)
qed

subsection \<open>Which suites a plan holds\<close>

definition phase_suites :: "phase \<Rightarrow> (string \<times> string) set" where
  "phase_suites ph = {(pkg, s). \<exists>ss. (pkg, ss) \<in> set ph \<and> s \<in> set ss}"

lemma phase_suites_simps [simp]:
  "phase_suites [] = {}" "phase_suites (ph @ ph') = phase_suites ph \<union> phase_suites ph'"
  "phase_suites (entries ph) = phase_suites ph"
  by (auto simp: phase_suites_def entries_def)

lemma set_phase_keys: "set (phase_keys reqKeys ph) = (\<Union>(pkg, s) \<in> phase_suites ph. set (reqKeys pkg s))"
  by (auto simp: phase_keys_def phase_suites_def)

lemma set_entry_suites:
  assumes "distinct (map fst m)"
  shows "phase_suites (set_entry pkg ((case map_of m pkg of None \<Rightarrow> [] | Some ss \<Rightarrow> ss) @ sus) m) =
    phase_suites m \<union> {pkg} \<times> set sus"
proof -
  let ?n = "set_entry pkg ((case map_of m pkg of None \<Rightarrow> [] | Some ss \<Rightarrow> ss) @ sus) m"
  have n: "distinct (map fst ?n)" by (rule set_entry_keys[OF assms])
  have "(p, s) \<in> phase_suites ?n \<longleftrightarrow> (\<exists>ss. map_of ?n p = Some ss \<and> s \<in> set ss)" for p s
    using n by (auto simp: phase_suites_def)
  moreover have "(p, s) \<in> phase_suites m \<longleftrightarrow> (\<exists>ss. map_of m p = Some ss \<and> s \<in> set ss)" for p s
    using assms by (auto simp: phase_suites_def)
  ultimately show ?thesis
    by (auto simp: set_entry_map_of split: option.splits if_splits)
qed

lemma mergePhase_suites:
  "distinct (map fst m) \<Longrightarrow> distinct (map fst (mergePhase m ph)) \<and> phase_suites (mergePhase m ph) = phase_suites m \<union> phase_suites ph"
  unfolding mergePhase_def
proof (induction ph arbitrary: m)
  case (Cons x ph)
  obtain pkg sus where x: "x = (pkg, sus)" by fastforce
  let ?n = "set_entry pkg ((case map_of m pkg of None \<Rightarrow> [] | Some ss \<Rightarrow> ss) @ sus) m"
  have "phase_suites (x # ph) = {pkg} \<times> set sus \<union> phase_suites ph" by (auto simp: phase_suites_def x)
  then show ?case
    using Cons.IH[of ?n] Cons.prems set_entry_keys[of m pkg] set_entry_suites[OF Cons.prems, of pkg sus] by (simp add: x Un_assoc)
qed simp

lemma phase_suites_part:
  "phase_suites (map (\<lambda>(pkg, ss). (pkg, map f (filter (P pkg) ss))) ph) = {(pkg, f s) |pkg s. (pkg, s) \<in> phase_suites ph \<and> P pkg s}"
proof (induction ph)
  case (Cons x ph)
  obtain pkg ss where x: "x = (pkg, ss)" by fastforce
  have "phase_suites (y # ys) = {fst y} \<times> set (snd y) \<union> phase_suites ys" for y ys
    by (cases y) (auto simp: phase_suites_def)
  then show ?case using Cons by (auto simp: x)
qed (simp add: phase_suites_def)

lemma planSuitePhases_suites:
  "planSuitePhases R ov ph run skipf = (b, t) \<Longrightarrow>
   phase_suites b \<union> phase_suites t = {(pkg, ''Test'' @ s) |pkg s. (pkg, s) \<in> phase_suites ph \<and> dispatched R ov run skipf pkg s}"
  by (auto simp: planSuitePhases_def Let_def phase_suites_part)

lemma scope_phases_suites:
  "scope_phases scs = (first, later) \<Longrightarrow>
   phase_suites first \<union> phase_suites later = (\<Union>sc \<in> set scs. phase_suites (Bulk sc) \<union> phase_suites (Tail sc))"
proof (cases scs)
  case (Cons sc more)
  have fold: "distinct (map fst m) \<Longrightarrow> phase_suites (foldl (\<lambda>m s. mergePhase (mergePhase m (Bulk s)) (Tail s)) m xs) =
      phase_suites m \<union> (\<Union>sc \<in> set xs. phase_suites (Bulk sc) \<union> phase_suites (Tail sc))" for m xs
  proof (induction xs arbitrary: m)
    case (Cons x xs)
    then show ?case
      using mergePhase_suites[of m "Bulk x"] mergePhase_suites[of "mergePhase m (Bulk x)" "Tail x"] by auto
  qed simp
  assume "scope_phases scs = (first, later)"
  then show ?thesis
    using Cons mergePhase_suites[of "[]" "Tail sc"] fold[of "mergePhase [] (Tail sc)" more] by (auto simp: scope_phases_def)
qed (auto simp: scope_phases_def)

text \<open>The suites a run dispatches: of a selected group, and not filtered away.\<close>

definition planned_run :: "'re regexps \<Rightarrow> overlay \<Rightarrow> string \<Rightarrow> string \<Rightarrow> (string \<times> string) set" where
  "planned_run R ov run skipf = {(pkg, ''Test'' @ s) |pkg s. (pkg, s) \<in> phase_suites (OvSuites ov) \<and>
     selects (OvSelection ov) (OvGroup ov pkg s) \<and> dispatched R ov run skipf pkg s}"

lemma planSuiteScopes_suites:
  "(\<Union>sc \<in> set (planSuiteScopes R ov run skipf). phase_suites (Bulk sc) \<union> phase_suites (Tail sc)) = planned_run R ov run skipf"
proof -
  let ?sc = "\<lambda>grp. let (b, t) = planSuitePhases R ov (group_suites ov grp) run skipf in \<lparr>ScGroup = grp, Bulk = b, Tail = t\<rparr>"
  have one: "phase_suites (Bulk (?sc grp)) \<union> phase_suites (Tail (?sc grp)) =
      {(pkg, ''Test'' @ s) |pkg s. (pkg, s) \<in> phase_suites (OvSuites ov) \<and> OvGroup ov pkg s = grp \<and> dispatched R ov run skipf pkg s}" for grp
  proof -
    obtain b t where p: "planSuitePhases R ov (group_suites ov grp) run skipf = (b, t)" by fastforce
    have "phase_suites (group_suites ov grp) = {(pkg, s) \<in> phase_suites (OvSuites ov). OvGroup ov pkg s = grp}"
      using phase_suites_part[of "\<lambda>s. s" "\<lambda>pkg s. OvGroup ov pkg s = grp" "OvSuites ov"] by (auto simp: group_suites_def)
    then show ?thesis using planSuitePhases_suites[OF p] p by auto
  qed
  have "set (group_names ov) = {grp. selects (OvSelection ov) grp \<and> (\<exists>(pkg, s) \<in> phase_suites (OvSuites ov). OvGroup ov pkg s = grp)}"
    by (auto simp: group_names_def sortedKeys_def phase_suites_def)
  note names = this
  have "(\<Union>sc \<in> set (planSuiteScopes R ov run skipf). phase_suites (Bulk sc) \<union> phase_suites (Tail sc)) =
      (\<Union>grp \<in> set (group_names ov). phase_suites (Bulk (?sc grp)) \<union> phase_suites (Tail (?sc grp)))"
    by (auto simp: planSuiteScopes_def)
  also have "\<dots> = planned_run R ov run skipf"
    unfolding one names planned_run_def by auto
  finally show ?thesis .
qed

subsection \<open>The windows of a run\<close>

lemma window_fixture_Some:
  "window_fixture bulk later sf = Some f \<longleftrightarrow>
   (sharedFixtureKey sf \<in> set bulk \<or> sharedFixtureKey sf \<in> set later) \<and>
   f = (if sharedFixtureKey sf \<in> set bulk then sf else sf\<lparr>Deferred := True\<rparr>)"
  by (auto simp: window_fixture_def)

lemma window_fixture_same:
  "window_fixture bulk later sf = Some f \<Longrightarrow> sharedFixtureKey f = sharedFixtureKey sf \<and> Dependencies f = Dependencies sf"
  by (auto simp: window_fixture_Some sharedFixtureKey_def)

lemma window_keys:
  "map sharedFixtureKey (List.map_filter (window_fixture bulk later) fs) =
   filter (\<lambda>k. k \<in> set bulk \<union> set later) (map sharedFixtureKey fs)"
proof (induction fs)
  case (Cons f fs)
  then show ?case
    by (cases "window_fixture bulk later f")
      (auto simp: List.map_filter_simps window_fixture_def sharedFixtureKey_def split: if_splits)
qed (simp add: List.map_filter_simps)

lemma window_skipped:
  "length (filter (\<lambda>f. g f = None) fs) + length (List.map_filter g fs) = length fs"
  by (induction fs) (auto simp: List.map_filter_simps split: option.splits)

lemma info_deps_key:
  assumes "distinct (map sharedFixtureKey fs)" "f \<in> set fs"
  shows "info_deps fs (sharedFixtureKey f) = Dependencies f"
proof -
  have "List.find (\<lambda>i. SPkgPath i @ ''.'' @ SIdentifier i = sharedFixtureKey f) (rev fs) \<noteq> None"
    unfolding find_None_iff using assms(2) by (auto simp: sharedFixtureKey_def)
  then obtain g where g: "List.find (\<lambda>i. SPkgPath i @ ''.'' @ SIdentifier i = sharedFixtureKey f) (rev fs) = Some g" by blast
  have "g \<in> set fs" "sharedFixtureKey g = sharedFixtureKey f" using find_SomeD[OF g] by (simp_all add: sharedFixtureKey_def)
  then have "g = f" using assms by (auto simp: distinct_map dest: inj_onD)
  then show ?thesis using g by (simp add: info_deps_def)
qed

lemma ranked_windows:
  assumes "ranked fs r"
  shows "ranked (List.map_filter (window_fixture bulk later) fs) r"
proof -
  have "r d < r (sharedFixtureKey f)" if "sf \<in> set fs" "window_fixture bulk later sf = Some f" "d \<in> set (Dependencies f)" for sf f d
    using assms that window_fixture_same[OF that(2)] by (auto simp: ranked_def)
  then show ?thesis by (auto simp: ranked_def set_map_filter)
qed

text \<open>What a phase needs is closed under the dependencies of the fixtures.\<close>

lemma alive_closed:
  assumes "distinct (map sharedFixtureKey fs)" "f \<in> set fs" "sharedFixtureKey f \<in> set (aliveFixtureKeys ph req fs)"
  shows "set (Dependencies f) \<subseteq> set (aliveFixtureKeys ph req fs)"
proof
  fix d assume d: "d \<in> set (Dependencies f)"
  obtain root where root: "root \<in> set (phase_keys req ph)" "reached (info_deps fs) root (sharedFixtureKey f)"
    using assms(3) by (auto simp: alive_keys_reached)
  have "reached (info_deps fs) root d"
    using root(2) d info_deps_key[OF assms(1,2)] unfolding reached_def by (auto intro: rtranclp.rtrancl_into_rtrancl)
  then show "d \<in> set (aliveFixtureKeys ph req fs)" using root(1) by (auto simp: alive_keys_reached)
qed

lemma planned_run_needs:
  assumes "scope_phases (planSuiteScopes R ov run skipf) = (first, later)"
  shows "set (aliveFixtureKeys first (OvRequired ov) fs) \<union> set (aliveFixtureKeys later (OvRequired ov) fs) =
    {k. \<exists>(pkg, s) \<in> planned_run R ov run skipf. \<exists>root \<in> set (OvRequired ov pkg s). reached (info_deps fs) root k}"
proof -
  have u: "phase_suites first \<union> phase_suites later = planned_run R ov run skipf"
    using scope_phases_suites[OF assms] planSuiteScopes_suites[of R ov run skipf] by simp
  show ?thesis
    unfolding u[symmetric] alive_keys_reached set_phase_keys by blast
qed


definition example_fixture :: "string \<Rightarrow> string list \<Rightarrow> SharedFixtureInfo" where
  "example_fixture name deps = \<lparr>SIdentifier = name, SPkgPath = ''m'', SPkgName = ''m'', SIDPrefix = [], SNamed = 0,
     SQualifiedType = [], SHasConfig = False, SHasAfterAll = False, SHasHydrate = False, SHasDehydrate = False,
     TransferFields = [], LocalFields = [], Dependencies = deps, DependencyFields = Map.empty, Deferred = False\<rparr>"

definition example_overlay :: overlay where
  "example_overlay = \<lparr>OvShared = [example_fixture ''B'' [''m.A''], example_fixture ''A'' [], example_fixture ''C'' []],
     OvSuites = [(''p'', [''Cart''])], OvExclusive = (\<lambda>_ _. False), OvGroup = (\<lambda>_ _. []),
     OvSelection = \<lparr>only = {}, skip = {}\<rparr>, OvTestless = (\<lambda>_ _. False), OvBenches = [], OvFuzz = (\<lambda>_ _. []),
     OvRequired = (\<lambda>_ _. [''m.B''])\<rparr>"


end
