(* ===== verification/Coverage.thy ===== *)
theory Coverage
  imports GoStrings "HOL-Library.List_Lexorder" "HOL-Library.Char_ord"
begin

text \<open>
  \<^verbatim>\<open>internal/gotestspec/coverage.go\<close>: a coverage profile as the statements each package covers, every
  block counted once however often merged profiles repeat it.
  Integers keep their 64 bits; the percentage is the argument \<open>percent\<close>, Go's floating-point
  quotient of two integers times 100.
\<close>

subsection \<open>Lines\<close>

text \<open>\<open>bufio.Scanner\<close> over the lines: a carriage return before the newline is dropped, what follows the
  last newline is a line unless empty, and a line of 64 KiB or more ends the scan with an error.\<close>

definition max_token :: nat where "max_token = 65536"

definition drop_cr :: "string \<Rightarrow> string" where
  "drop_cr l = (if l \<noteq> [] \<and> last l = CHR 0x0D then butlast l else l)"

definition scan_lines :: "string \<Rightarrow> string list option" where
  "scan_lines s =
     (let ls = split_byte (CHR 0x0A) s;
          ls = (if last ls = [] then butlast ls else ls)
      in if list_all (\<lambda>l. length l < max_token) ls then Some (map drop_cr ls) else None)"

datatype line_error = EmptyLine | InvalidFormat | BadNumber string

record coverage_line =
  LFile :: string
  LBlock :: string
  LStmts :: int
  LCount :: int

text \<open>The number after the last space, and what is before it.\<close>

definition last_field :: "string \<Rightarrow> line_error + (string \<times> int)" where
  "last_field s =
     (case last_index_byte s (CHR '' '') of
        None \<Rightarrow> Inl InvalidFormat
      | Some k \<Rightarrow> case atoi (drop (k + 1) s) of
          None \<Rightarrow> Inl (BadNumber (drop (k + 1) s))
        | Some n \<Rightarrow> Inr (take k s, n))"

definition parseCoverageLine :: "string \<Rightarrow> line_error + coverage_line" where
  "parseCoverageLine line =
     (let line = trim_space line in
      if line = [] then Inl EmptyLine
      else case last_field line of
          Inl e \<Rightarrow> Inl e
        | Inr (rest, count) \<Rightarrow> case last_field rest of
            Inl e \<Rightarrow> Inl e
          | Inr (rest, stmts) \<Rightarrow> case last_index_byte rest (CHR '':'') of
              None \<Rightarrow> Inl InvalidFormat
            | Some k \<Rightarrow> Inr \<lparr>LFile = take k rest, LBlock = drop (k + 1) rest, LStmts = stmts, LCount = count\<rparr>)"

definition coveragePackage :: "string \<Rightarrow> string" where
  "coveragePackage file = (case last_index_byte file (CHR ''/'') of None \<Rightarrow> ''.'' | Some k \<Rightarrow> take k file)"

subsection \<open>Blocks\<close>

record blockInfo =
  BlkFile :: string
  BlkStmts :: int
  BlkCount :: int

definition block_key :: "coverage_line \<Rightarrow> string" where
  "block_key l = LFile l @ '':'' @ LBlock l"

definition add_line :: "(string \<times> blockInfo) list \<Rightarrow> string \<Rightarrow> (string \<times> blockInfo) list" where
  "add_line blocks line =
     (if hasPrefix line ''mode:'' then blocks
      else case parseCoverageLine line of
          Inl e \<Rightarrow> blocks
        | Inr l \<Rightarrow> case map_of blocks (block_key l) of
            None \<Rightarrow> set_entry (block_key l) \<lparr>BlkFile = LFile l, BlkStmts = LStmts l, BlkCount = LCount l\<rparr> blocks
          | Some b \<Rightarrow> if LCount l > BlkCount b then set_entry (block_key l) (b\<lparr>BlkCount := LCount l\<rparr>) blocks else blocks)"

subsection \<open>Packages\<close>

record pkgAccum =
  ACovered :: "64 word"
  ATotal :: "64 word"

definition add_block :: "(string \<times> pkgAccum) list \<Rightarrow> blockInfo \<Rightarrow> (string \<times> pkgAccum) list" where
  "add_block pkgs b =
     (let pkg = coveragePackage (BlkFile b);
          acc = (case map_of pkgs pkg of None \<Rightarrow> \<lparr>ACovered = 0, ATotal = 0\<rparr> | Some a \<Rightarrow> a);
          stmts = word_of_int (BlkStmts b)
      in set_entry pkg \<lparr>ACovered = (if BlkCount b > 0 then ACovered acc + stmts else ACovered acc),
           ATotal = ATotal acc + stmts\<rparr> pkgs)"

record PackageCoverage =
  CPath :: string
  Percentage :: f64
  Covered :: int
  CTotal :: int

record CoverageReport =
  RTotal :: f64
  RPackages :: "PackageCoverage list"

definition package_coverage :: "(int \<Rightarrow> int \<Rightarrow> f64) \<Rightarrow> string \<times> pkgAccum \<Rightarrow> PackageCoverage" where
  "package_coverage percent = (\<lambda>(pkg, acc).
     \<lparr>CPath = pkg, Percentage = (if 0 < sint (ATotal acc) then percent (sint (ACovered acc)) (sint (ATotal acc)) else 0),
      Covered = sint (ACovered acc), CTotal = sint (ATotal acc)\<rparr>)"

definition report_of :: "(int \<Rightarrow> int \<Rightarrow> f64) \<Rightarrow> (string \<times> pkgAccum) list \<Rightarrow> CoverageReport" where
  "report_of percent pkgs =
     (let covered = sint (\<Sum>(p, a)\<leftarrow>pkgs. ACovered a); stmts = sint (\<Sum>(p, a)\<leftarrow>pkgs. ATotal a)
      in \<lparr>RTotal = (if 0 < stmts then percent covered stmts else 0),
          RPackages = sort_key CPath (map (package_coverage percent) pkgs)\<rparr>)"

definition parseCoverageReader :: "(int \<Rightarrow> int \<Rightarrow> f64) \<Rightarrow> string \<Rightarrow> CoverageReport option" where
  "parseCoverageReader percent s =
     map_option (\<lambda>ls. report_of percent (foldl add_block [] (map snd (foldl add_line [] ls)))) (scan_lines s)"

end
