(* ===== verification/CoverageProps.thy ===== *)
theory CoverageProps
  imports Coverage "HOL-Library.Multiset"
begin

text \<open>
  What a profile's lines tell of its blocks as an invariant of the reader, and that the report
  depends on nothing else: not on the order of the lines nor on how often a block is repeated.
\<close>

lemma same_entries: "distinct (map fst m) \<Longrightarrow> distinct (map fst n) \<Longrightarrow> map_of m = map_of n \<Longrightarrow> mset m = mset n"
  by (metis distinct_map map_of_eqI map_of_inject_set set_eq_iff_mset_eq_distinct)

subsection \<open>Blocks\<close>

definition good_line :: "string \<Rightarrow> coverage_line option" where
  "good_line line = (if hasPrefix line ''mode:'' then None else case parseCoverageLine line of Inl e \<Rightarrow> None | Inr l \<Rightarrow> Some l)"

text \<open>The lines of a profile that count, and that no block is told with two numbers of statements.\<close>

definition profile :: "string list \<Rightarrow> coverage_line set" where
  "profile ls = {l. \<exists>s \<in> set ls. good_line s = Some l}"

definition consistent :: "coverage_line set \<Rightarrow> bool" where
  "consistent S \<longleftrightarrow> (\<forall>l \<in> S. \<forall>l' \<in> S. block_key l = block_key l' \<longrightarrow> LStmts l = LStmts l')"

definition block_inv :: "coverage_line set \<Rightarrow> (string \<times> blockInfo) list \<Rightarrow> bool" where
  "block_inv S bs \<longleftrightarrow> distinct (map fst bs) \<and> (\<forall>l \<in> S. map_of bs (block_key l) \<noteq> None) \<and>
     (\<forall>k b. map_of bs k = Some b \<longrightarrow> (\<exists>l \<in> S. block_key l = k \<and> LFile l = BlkFile b \<and> LStmts l = BlkStmts b) \<and>
        (\<exists>l \<in> S. block_key l = k \<and> LCount l = BlkCount b) \<and> (\<forall>l \<in> S. block_key l = k \<longrightarrow> LCount l \<le> BlkCount b))"

lemma add_line_good:
  "add_line bs s = (case good_line s of
      None \<Rightarrow> bs
    | Some l \<Rightarrow> case map_of bs (block_key l) of
        None \<Rightarrow> set_entry (block_key l) \<lparr>BlkFile = LFile l, BlkStmts = LStmts l, BlkCount = LCount l\<rparr> bs
      | Some b \<Rightarrow> if LCount l > BlkCount b then set_entry (block_key l) (b\<lparr>BlkCount := LCount l\<rparr>) bs else bs)"
  by (simp add: add_line_def good_line_def split: sum.splits)

lemma block_inv_add:
  assumes "block_inv S bs" "good_line s = Some l"
  shows "block_inv (insert l S) (add_line bs s)"
proof (cases "map_of bs (block_key l)")
  case None
  then have "\<forall>l' \<in> S. block_key l' \<noteq> block_key l" using assms(1) by (auto simp: block_inv_def)
  then show ?thesis
    using assms None by (auto simp: add_line_good block_inv_def set_entry_keys set_entry_map_of)
next
  case (Some b)
  show ?thesis
  proof (cases "LCount l > BlkCount b")
    case True
    then have eq: "add_line bs s = set_entry (block_key l) (b\<lparr>BlkCount := LCount l\<rparr>) bs"
      using assms(2) Some by (simp add: add_line_good)
    show ?thesis
      unfolding eq block_inv_def set_entry_map_of
    proof (intro conjI allI impI)
      show "distinct (map fst (set_entry (block_key l) (b\<lparr>BlkCount := LCount l\<rparr>) bs))"
        using assms(1) by (simp add: block_inv_def set_entry_keys)
      show "\<forall>l' \<in> insert l S. ((map_of bs)(block_key l \<mapsto> b\<lparr>BlkCount := LCount l\<rparr>)) (block_key l') \<noteq> None"
        using assms(1) by (auto simp: block_inv_def)
      fix k c assume c: "((map_of bs)(block_key l \<mapsto> b\<lparr>BlkCount := LCount l\<rparr>)) k = Some c"
      have old: "map_of bs j = Some d \<Longrightarrow> (\<exists>l \<in> S. block_key l = j \<and> LFile l = BlkFile d \<and> LStmts l = BlkStmts d) \<and>
        (\<exists>l \<in> S. block_key l = j \<and> LCount l = BlkCount d) \<and> (\<forall>l \<in> S. block_key l = j \<longrightarrow> LCount l \<le> BlkCount d)" for j d
        using assms(1) by (simp add: block_inv_def)
      show "\<exists>m \<in> insert l S. block_key m = k \<and> LFile m = BlkFile c \<and> LStmts m = BlkStmts c"
        using c old[of k] old[OF Some] by (auto split: if_splits)
      show "\<exists>m \<in> insert l S. block_key m = k \<and> LCount m = BlkCount c"
        using c old[of k] by (auto split: if_splits)
      show "\<forall>m \<in> insert l S. block_key m = k \<longrightarrow> LCount m \<le> BlkCount c"
        using c old[of k] old[OF Some] True by (fastforce split: if_splits)
    qed
  next
    case False
    then have "add_line bs s = bs" using assms(2) Some by (simp add: add_line_good)
    moreover have "block_inv (insert l S) bs"
      unfolding block_inv_def
    proof (intro conjI allI impI)
      fix k c assume c: "map_of bs k = Some c"
      have old: "(\<exists>l \<in> S. block_key l = k \<and> LFile l = BlkFile c \<and> LStmts l = BlkStmts c)"
        "(\<exists>l \<in> S. block_key l = k \<and> LCount l = BlkCount c)" "(\<forall>l \<in> S. block_key l = k \<longrightarrow> LCount l \<le> BlkCount c)"
        using assms(1) c unfolding block_inv_def by blast+
      show "\<exists>m \<in> insert l S. block_key m = k \<and> LFile m = BlkFile c \<and> LStmts m = BlkStmts c" using old(1) by blast
      show "\<exists>m \<in> insert l S. block_key m = k \<and> LCount m = BlkCount c" using old(2) by blast
      show "\<forall>m \<in> insert l S. block_key m = k \<longrightarrow> LCount m \<le> BlkCount c"
        using old(3) False Some c by auto
    qed (use assms(1) Some in \<open>auto simp: block_inv_def\<close>)
    ultimately show ?thesis by simp
  qed
qed

lemma block_inv_lines: "block_inv S bs \<Longrightarrow> block_inv (profile ls \<union> S) (foldl add_line bs ls)"
proof (induction ls arbitrary: S bs)
  case Nil
  then show ?case by (simp add: profile_def)
next
  case (Cons s ls)
  show ?case
  proof (cases "good_line s")
    case None
    then have "profile (s # ls) = profile ls" "add_line bs s = bs" by (auto simp: profile_def add_line_good)
    then show ?thesis using Cons by simp
  next
    case (Some l)
    then have "profile (s # ls) \<union> S = profile ls \<union> insert l S" by (auto simp: profile_def)
    then show ?thesis using Cons.IH[OF block_inv_add[OF Cons.prems Some]] by simp
  qed
qed

text \<open>A key tells its file: a block has no colon.\<close>

lemma last_index_byte_last: "last_index_byte s c = Some k \<Longrightarrow> c \<notin> set (drop (Suc k) s)"
proof -
  assume "last_index_byte s c = Some k"
  then obtain j where j: "index_byte (rev s) c = Some j" "k = length s - 1 - j" by (auto simp: last_index_byte_def)
  then have lt: "j < length s" "\<forall>i < j. rev s ! i \<noteq> c" by (auto simp: index_byte_Some)
  have "Suc k = length s - j" using j(2) lt(1) by simp
  then have "rev (drop (Suc k) s) = take j (rev s)" by (simp only: take_rev)
  moreover have "c \<notin> set (take j (rev s))" using lt by (auto simp: in_set_conv_nth)
  ultimately show ?thesis by (metis set_rev)
qed

lemma good_line_block: "good_line s = Some l \<Longrightarrow> CHR '':'' \<notin> set (LBlock l)"
  by (auto simp: good_line_def parseCoverageLine_def Let_def split: if_splits sum.splits option.splits)
    (metis last_index_byte_last)

lemma same_key_file:
  assumes "block_key l = block_key l'" "CHR '':'' \<notin> set (LBlock l)" "CHR '':'' \<notin> set (LBlock l')"
  shows "LFile l = LFile l'"
proof -
  have "takeWhile (\<lambda>c. c \<noteq> CHR '':'') (rev (block_key l)) = rev (LBlock l)"
    if "CHR '':'' \<notin> set (LBlock l)" for l
  proof -
    have "rev (block_key l) = rev (LBlock l) @ CHR '':'' # rev (LFile l)" by (simp add: block_key_def)
    moreover have "takeWhile (\<lambda>c. c \<noteq> CHR '':'') (xs @ CHR '':'' # ys) = xs" if "CHR '':'' \<notin> set xs" for xs ys
      using that by (induction xs) auto
    ultimately show ?thesis using that by simp
  qed
  then have "LBlock l = LBlock l'" using assms by (metis rev_rev_ident)
  then show ?thesis using assms(1) by (simp add: block_key_def)
qed

lemma block_inv_unique:
  assumes "block_inv S bs" "block_inv S bs'" "consistent S" "\<forall>l \<in> S. CHR '':'' \<notin> set (LBlock l)"
  shows "mset bs = mset bs'"
proof (rule same_entries)
  show "map_of bs = map_of bs'"
  proof
    fix k
    have none: "map_of cs k = None \<longleftrightarrow> (\<forall>l \<in> S. block_key l \<noteq> k)" if "block_inv S cs" for cs
      using that unfolding block_inv_def by (cases "map_of cs k") blast+
    show "map_of bs k = map_of bs' k"
    proof (cases "map_of bs k")
      case None
      then show ?thesis using none[OF assms(1)] none[OF assms(2)] by metis
    next
      case (Some b)
      then obtain b' where b': "map_of bs' k = Some b'" using none[OF assms(1)] none[OF assms(2)] by (metis not_None_eq)
      obtain l l' where l: "l \<in> S" "block_key l = k" "LFile l = BlkFile b" "LStmts l = BlkStmts b"
        and l': "l' \<in> S" "block_key l' = k" "LFile l' = BlkFile b'" "LStmts l' = BlkStmts b'"
        using Some b' assms(1,2) unfolding block_inv_def by meson
      obtain m m' where m: "m \<in> S" "block_key m = k" "LCount m = BlkCount b" and m': "m' \<in> S" "block_key m' = k" "LCount m' = BlkCount b'"
        using Some b' assms(1,2) unfolding block_inv_def by meson
      have "BlkFile b = BlkFile b'" using same_key_file[of l l'] l l' assms(4) by metis
      moreover have "BlkStmts b = BlkStmts b'" using assms(3) l l' unfolding consistent_def by metis
      moreover have "BlkCount b = BlkCount b'"
        using Some b' assms(1,2) m m' unfolding block_inv_def by (metis order_antisym)
      ultimately show ?thesis using Some b' by simp
    qed
  qed
qed (use assms in \<open>auto simp: block_inv_def\<close>)

subsection \<open>Packages\<close>

definition of_package :: "string \<Rightarrow> blockInfo list \<Rightarrow> blockInfo list" where
  "of_package p bs = filter (\<lambda>b. coveragePackage (BlkFile b) = p) bs"

definition accum :: "blockInfo list \<Rightarrow> pkgAccum" where
  "accum bs = \<lparr>ACovered = (\<Sum>b\<leftarrow>filter (\<lambda>b. 0 < BlkCount b) bs. word_of_int (BlkStmts b)), ATotal = (\<Sum>b\<leftarrow>bs. word_of_int (BlkStmts b))\<rparr>"

lemma add_blocks:
  "distinct (map fst (foldl add_block [] bs)) \<and>
   map_of (foldl add_block [] bs) p = (if of_package p bs = [] then None else Some (accum (of_package p bs)))"
proof (induction bs arbitrary: p rule: rev_induct)
  case Nil
  then show ?case by (simp add: of_package_def)
next
  case (snoc b bs)
  let ?pkgs = "foldl add_block [] bs" and ?p = "coveragePackage (BlkFile b)"
  define acc where "acc = (case map_of ?pkgs ?p of None \<Rightarrow> \<lparr>ACovered = 0, ATotal = 0\<rparr> | Some a \<Rightarrow> a)"
  have acc: "acc = accum (of_package ?p bs)"
    using snoc[of ?p] by (auto simp: acc_def accum_def)
  have step: "add_block ?pkgs b = set_entry ?p (accum (of_package ?p (bs @ [b]))) ?pkgs"
    using acc unfolding acc_def by (simp add: add_block_def Let_def accum_def of_package_def add.commute)
  have other: "of_package p (bs @ [b]) = (if p = ?p then of_package p bs @ [b] else of_package p bs)" for p
    by (simp add: of_package_def)
  show ?case
    unfolding foldl_append foldl.simps step set_entry_map_of using snoc[of p] by (auto simp: set_entry_keys other)
qed

lemma accum_mset: "mset bs = mset cs \<Longrightarrow> accum bs = accum cs"
proof -
  assume m: "mset bs = mset cs"
  have "sum_list (map f bs) = sum_list (map f cs)" if "mset bs = mset cs" for bs cs and f :: "blockInfo \<Rightarrow> 64 word"
    using that by (metis mset_map sum_mset_sum_list)
  note sums = this
  have f: "mset (filter (\<lambda>b. 0 < BlkCount b) bs) = mset (filter (\<lambda>b. 0 < BlkCount b) cs)"
    unfolding mset_filter m by (rule refl)
  show ?thesis unfolding accum_def sums[OF m] sums[OF f] by (rule refl)
qed

lemma packages_mset:
  assumes "mset bs = mset cs"
  shows "mset (foldl add_block [] bs) = mset (foldl add_block [] cs)"
proof (rule same_entries)
  have p: "mset (of_package p bs) = mset (of_package p cs)" for p using assms by (simp add: of_package_def)
  have same: "of_package p bs = [] \<longleftrightarrow> of_package p cs = []" "accum (of_package p bs) = accum (of_package p cs)" for p
    using mset_eq_length[OF p[of p]] accum_mset[OF p[of p]] by auto
  show "map_of (foldl add_block [] bs) = map_of (foldl add_block [] cs)"
    by (rule ext) (simp only: add_blocks same)
qed (use add_blocks in blast)+

lemma report_mset:
  assumes "mset ps = mset qs" "distinct (map fst ps)"
  shows "report_of percent ps = report_of percent qs"
proof -
  have sums: "sum_list (map f ps) = sum_list (map f qs)" for f :: "string \<times> pkgAccum \<Rightarrow> 64 word"
    using assms(1) by (metis mset_map sum_mset_sum_list)
  have "sort_key CPath (map (package_coverage percent) ps) = sort_key CPath (map (package_coverage percent) qs)"
  proof (rule sort_key_inj_key_eq)
    show "mset (map (package_coverage percent) ps) = mset (sort_key CPath (map (package_coverage percent) qs))"
      using assms(1) by simp
    have "map CPath (map (package_coverage percent) ps) = map fst ps"
      by (auto simp: package_coverage_def)
    then show "inj_on CPath (set (map (package_coverage percent) ps))"
      using assms(2) by (metis distinct_map)
  qed simp
  then show ?thesis by (simp add: report_of_def Let_def sums)
qed


text \<open>Two runs of one block, merged, and the merged profile twice.\<close>

definition run_a :: string where "run_a = ''m/a.go:1,2 3 0''"
definition run_b :: string where "run_b = ''m/a.go:1,2 3 1''"
definition nl :: string where "nl = [CHR 0x0A]"


end
