(* ===== verification/Census.thy ===== *)
theory Census
  imports Protocol
begin

text \<open>
  \<^verbatim>\<open>internal/gotestrunner/census.go\<close>: the index of the verdicts a run's JSON stream reports
  (\<open>verdictIndex\<close>), the units without one, and the events booked for them.  \<^verbatim>\<open>encoding/json\<close> is an
  argument; a Go map is a partial function, with the list the code keeps beside it for its order,
  and a map of trues a set.
\<close>

subsection \<open>Units and events\<close>

record CensusCase =
  CPkg :: string
  CPath :: string

record DeclaredUnits =
  DTests :: "CensusCase list"
  DFuzz :: "CensusCase list"
  DBenchmarks :: "CensusCase list"

definition appendCases :: "CensusCase list \<Rightarrow> string \<Rightarrow> string list \<Rightarrow> CensusCase list" where
  "appendCases cases pkg paths = cases @ map (\<lambda>p. \<lparr>CPkg = pkg, CPath = p\<rparr>) paths"

definition testSelectionFlags :: "string list" where
  "testSelectionFlags = [''-run'', ''-skip'', ''-list'', ''-test.run'', ''-test.skip'', ''-test.list'']"

definition benchSelectionFlags :: "string list" where
  "benchSelectionFlags = [''-bench'', ''-test.bench''] @ testSelectionFlags"

definition hasSelectionFlag :: "string list \<Rightarrow> string list \<Rightarrow> bool" where
  "hasSelectionFlag goTestArgs flags = list_ex (\<lambda>a. list_ex (\<lambda>f. a = f \<or> hasPrefix a (f @ ''='')) flags) goTestArgs"

text \<open>The note on benchmarks a test run leaves out, when there is one.\<close>

definition NoteBenchmarksNotRun :: "string list \<Rightarrow> nat \<Rightarrow> string option" where
  "NoteBenchmarksNotRun goTestArgs declared =
     (if declared = 0 \<or> hasSelectionFlag goTestArgs benchSelectionFlags then None
      else Some (''note: '' @ itoa (int declared) @ '' benchmark(s) not run '' @ [CHR 0xE2, CHR 0x80, CHR 0x94] @
        '' gotest runs tests; use '' @ [CHR 0x27] @ ''gotest bench'' @ [CHR 0x27, CHR 0x0A]))"

record streamEvent =
  EvTime :: string
  EvAction :: string
  EvPackage :: string
  EvTest :: string
  EvOutput :: string
  EvElapsed :: f64

definition no_event :: streamEvent where
  "no_event = \<lparr>EvTime = [], EvAction = [], EvPackage = [], EvTest = [], EvOutput = [], EvElapsed = 0\<rparr>"

definition event_key :: "streamEvent \<Rightarrow> CensusCase" where
  "event_key ev = \<lparr>CPkg = EvPackage ev, CPath = EvTest ev\<rparr>"

subsection \<open>Reading a line\<close>

definition verdictMarkers :: "string list" where
  "verdictMarkers = [''\"Action\":\"pass\"'', ''\"Action\":\"fail\"'', ''\"Action\":\"skip\"'', ''\"Action\":\"bench\"'', ''/op'',
     ''\"Action\":\"run\"'', ''--- PASS: '', ''--- FAIL: '', ''--- SKIP: '', ''\"Action\":\"pause\"'', ''\"Action\":\"cont\"'']"

definition testField :: string where "testField = ''\"Test\":\"''"

definition benchTestField :: string where "benchTestField = testField @ PrefixBenchmark"

definition rawTestDepth :: "string \<Rightarrow> nat" where
  "rawTestDepth line = (case cut line testField of
     None \<Rightarrow> 0
   | Some (_, value) \<Rightarrow> count_list (takeWhile (\<lambda>c. c \<noteq> CHR 0x22) value) CHR ''/'')"

text \<open>
  \<open>benchResultRe\<close>, \<^verbatim>\<open>\s\S+/op(\s|$)\<close>: between blanks, or before the end, stands a word that ends in
  \<^verbatim>\<open>/op\<close>, is more than that, and does not start the text.
\<close>

fun split_blank :: "string \<Rightarrow> string list" where
  "split_blank [] = [[]]"
| "split_blank (c # cs) =
     (if c \<in> {CHR 0x09, CHR 0x0A, CHR 0x0C, CHR 0x0D, CHR '' ''} then [] # split_blank cs
      else (case split_blank cs of [] \<Rightarrow> [[c]] | l # ls \<Rightarrow> (c # l) # ls))"

definition benchResultRe :: "string \<Rightarrow> bool" where
  "benchResultRe s = list_ex (\<lambda>w. 3 < length w \<and> hasSuffix w ''/op'') (tl (split_blank s))"

definition benchVerdict :: "streamEvent \<Rightarrow> bool" where
  "benchVerdict ev =
     (if EvAction ev \<in> {''fail'', ''skip'', ''bench''} then True
      else if EvAction ev = ''output'' then benchResultRe (EvOutput ev)
      else False)"

definition isResultLine :: "string \<Rightarrow> string \<Rightarrow> bool" where
  "isResultLine out test =
     (let out = trim_left {CHR '' ''} out
      in list_ex (\<lambda>verdict. hasPrefix out (''--- '' @ verdict @ '': '' @ test @ '' ('')) [''PASS'', ''FAIL'', ''SKIP''])"

text \<open>The path up to its second slash; the code calls it on paths with two.\<close>

definition methodPath :: "string \<Rightarrow> string" where
  "methodPath path = (case split_byte CHR ''/'' path of a # b # _ \<Rightarrow> a @ ''/'' @ b | _ \<Rightarrow> path)"

subsection \<open>The index\<close>

record verdictIndex =
  xpartial :: string
  xlast :: "CensusCase \<rightharpoonup> streamEvent"
  xorder :: "CensusCase list"
  xbenched :: "CensusCase set"
  xbenchOrder :: "CensusCase list"
  xrunning :: "CensusCase \<rightharpoonup> bool"
  xstarted :: "CensusCase list"
  xresulted :: "CensusCase set"
  xcut :: "CensusCase set"
  xwaiting :: "CensusCase set"
  xranNow :: "CensusCase list"
  xcutNow :: "CensusCase list"

definition new_index :: verdictIndex where
  "new_index = \<lparr>xpartial = [], xlast = Map.empty, xorder = [], xbenched = {}, xbenchOrder = [], xrunning = Map.empty,
     xstarted = [], xresulted = {}, xcut = {}, xwaiting = {}, xranNow = [], xcutNow = []\<rparr>"

definition xsettle :: "CensusCase \<Rightarrow> verdictIndex \<Rightarrow> verdictIndex" where
  "xsettle key x = (if xrunning x key = Some True then x\<lparr>xrunning := (xrunning x)(key \<mapsto> False)\<rparr> else x)"

definition creditBenchmark :: "CensusCase \<Rightarrow> verdictIndex \<Rightarrow> verdictIndex" where
  "creditBenchmark key x =
     (let x = xsettle key x
      in if key \<in> xbenched x then x
         else x\<lparr>xbenched := insert key (xbenched x), xbenchOrder := xbenchOrder x @ [key]\<rparr>)"

text \<open>The cases of the switch on the action.\<close>

definition note_run :: "CensusCase \<Rightarrow> verdictIndex \<Rightarrow> verdictIndex" where
  "note_run key x = x\<lparr>
     xstarted := (if xrunning x key = None then xstarted x @ [key] else xstarted x),
     xrunning := (xrunning x)(key \<mapsto> True),
     xranNow := xranNow x @ [key],
     xresulted := xresulted x - {key},
     xwaiting := xwaiting x - {key}\<rparr>"

definition note_verdict :: "streamEvent \<Rightarrow> verdictIndex \<Rightarrow> verdictIndex" where
  "note_verdict ev x =
     (let key = event_key ev;
          x = (if xlast x key = None then x\<lparr>xorder := xorder x @ [key]\<rparr> else x);
          x = (if EvAction ev = ''fail'' \<and> EvTest ev \<noteq> [] \<and> xrunning x key = Some True \<and> key \<notin> xwaiting x \<and>
                  key \<notin> xresulted x \<and> \<not> hasPrefix (EvTest ev) PrefixBenchmark
               then x\<lparr>xcut := insert key (xcut x), xcutNow := xcutNow x @ [key]\<rparr> else x)
      in xsettle key (x\<lparr>xlast := (xlast x)(key \<mapsto> ev\<lparr>EvOutput := []\<rparr>)\<rparr>))"

definition note_action :: "streamEvent \<Rightarrow> verdictIndex \<Rightarrow> verdictIndex" where
  "note_action ev x =
     (let key = event_key ev in
      if EvAction ev = ''run'' then if EvTest ev \<noteq> [] then note_run key x else x
      else if EvAction ev = ''pause'' then if EvTest ev \<noteq> [] then x\<lparr>xwaiting := insert key (xwaiting x)\<rparr> else x
      else if EvAction ev = ''cont'' then x\<lparr>xwaiting := xwaiting x - {key}\<rparr>
      else if EvAction ev = ''output''
        then if EvTest ev \<noteq> [] \<and> isResultLine (EvOutput ev) (EvTest ev) then x\<lparr>xresulted := insert key (xresulted x)\<rparr> else x
      else if EvAction ev \<in> {''pass'', ''fail'', ''skip''} then note_verdict ev x
      else x)"

definition observe_event :: "streamEvent \<Rightarrow> verdictIndex \<Rightarrow> verdictIndex" where
  "observe_event ev x =
     (let depth = count_list (EvTest ev) CHR ''/'' in
      if depth > 1 then
        if hasPrefix (EvTest ev) PrefixBenchmark \<and> benchVerdict ev
        then creditBenchmark \<lparr>CPkg = EvPackage ev, CPath = methodPath (EvTest ev)\<rparr> x else x
      else let x = note_action ev x in
        if depth = 1 \<and> hasPrefix (EvTest ev) PrefixBenchmark \<and> benchVerdict ev then creditBenchmark (event_key ev) x else x)"

text \<open>Which lines are decoded at all.\<close>

definition skims :: "string \<Rightarrow> bool" where
  "skims line \<longleftrightarrow> \<not> list_ex (str_contains line) verdictMarkers \<or>
     (rawTestDepth line > 1 \<and> \<not> str_contains line benchTestField)"

definition observe :: "(string \<Rightarrow> streamEvent option) \<Rightarrow> string \<Rightarrow> verdictIndex \<Rightarrow> verdictIndex" where
  "observe decode line x =
     (if skims line then x
      else case decode line of None \<Rightarrow> x | Some ev \<Rightarrow> observe_event ev x)"

text \<open>The bytes after the last newline wait for the next write.\<close>

definition index_write :: "(string \<Rightarrow> streamEvent option) \<Rightarrow> string \<Rightarrow> verdictIndex \<Rightarrow> verdictIndex" where
  "index_write decode p x =
     (let ls = split_byte CHR 0x0A (xpartial x @ p)
      in (fold (observe decode) (butlast ls) x)\<lparr>xpartial := last ls\<rparr>)"

definition endSuite :: "bool \<Rightarrow> verdictIndex \<Rightarrow> verdictIndex" where
  "endSuite cutShort x =
     (let x = (if cutShort then x
               else let x = fold (\<lambda>k x. let x = xsettle k x in x\<lparr>xwaiting := xwaiting x - {k}\<rparr>) (xranNow x) x
                    in x\<lparr>xcut := xcut x - set (xcutNow x)\<rparr>)
      in x\<lparr>xresulted := xresulted x - set (xranNow x), xranNow := [], xcutNow := []\<rparr>)"

definition active :: "verdictIndex \<Rightarrow> CensusCase \<Rightarrow> bool" where
  "active x key \<longleftrightarrow> (xrunning x key = Some True \<or> key \<in> xcut x) \<and> key \<notin> xwaiting x"

text \<open>The suite of a nested path.\<close>

definition suite_part :: "string \<Rightarrow> string option" where
  "suite_part path = map_option fst (cut path ''/'')"

definition busy :: "verdictIndex \<Rightarrow> CensusCase list" where
  "busy x = List.map_filter (\<lambda>k. case suite_part (CPath k) of
       Some suite \<Rightarrow> if active x k \<and> \<not> hasPrefix suite PrefixFuzz then Some \<lparr>CPkg = CPkg k, CPath = suite\<rparr> else None
     | None \<Rightarrow> None) (xstarted x)"

definition runningUnits :: "verdictIndex \<Rightarrow> CensusCase list" where
  "runningUnits x = filter (\<lambda>k.
     if \<not> active x k \<or> k \<in> set (busy x) then False
     else (case suite_part (CPath k) of
         Some suite \<Rightarrow> \<not> hasPrefix suite PrefixFuzz
       | None \<Rightarrow> \<not> hasPrefix (CPath k) PrefixBenchmark)) (xstarted x)"

subsection \<open>What ran, and what did not\<close>

definition executedTests :: "verdictIndex \<Rightarrow> CensusCase list" where
  "executedTests x = filter (\<lambda>k.
     if CPath k = [] \<or> hasPrefix (CPath k) PrefixFuzz then False
     else CHR ''/'' \<in> set (CPath k) \<or> (case xlast x k of Some v \<Rightarrow> EvAction v = ''skip'' | None \<Rightarrow> False)) (xorder x)"

definition executedFuzz :: "verdictIndex \<Rightarrow> CensusCase list" where
  "executedFuzz x = filter (\<lambda>k. hasPrefix (CPath k) PrefixFuzz \<and> CHR ''/'' \<notin> set (CPath k)) (xorder x)"

definition missingUnits :: "CensusCase list \<Rightarrow> CensusCase list \<Rightarrow> CensusCase list" where
  "missingUnits declared executed = filter (\<lambda>d.
     if d \<in> set executed then False
     else (case suite_part (CPath d) of
         Some suite \<Rightarrow> \<lparr>CPkg = CPkg d, CPath = suite\<rparr> \<notin> set executed
       | None \<Rightarrow> True)) declared"

subsection \<open>What is booked\<close>

definition bookMissing :: "string \<Rightarrow> CensusCase list \<Rightarrow> streamEvent list" where
  "bookMissing kind missing = concat (map (\<lambda>m.
     [no_event\<lparr>EvAction := ''run'', EvPackage := CPkg m, EvTest := CPath m\<rparr>,
      no_event\<lparr>EvAction := ''output'', EvPackage := CPkg m, EvTest := CPath m,
        EvOutput := ''    census: declared '' @ kind @ '' never ran'' @ [CHR 0x0A]\<rparr>,
      no_event\<lparr>EvAction := ''fail'', EvPackage := CPkg m, EvTest := CPath m\<rparr>]) missing)"

definition suitePath :: "string \<Rightarrow> string option" where
  "suitePath path = (case suite_part path of
     Some suite \<Rightarrow> Some suite
   | None \<Rightarrow> map_option (\<lambda>(suite, _). ''Test'' @ suite) (SplitFuzzWrapper path))"

fun suite_fails :: "verdictIndex \<Rightarrow> CensusCase set \<Rightarrow> CensusCase list \<Rightarrow> streamEvent list" where
  "suite_fails x seen [] = []"
| "suite_fails x seen (m # ms) = (case suitePath (CPath m) of
     None \<Rightarrow> suite_fails x seen ms
   | Some path \<Rightarrow>
      (let suite = \<lparr>CPkg = CPkg m, CPath = path\<rparr> in
       if suite \<in> seen then suite_fails x seen ms
       else (let v = (case xlast x suite of Some v \<Rightarrow> v | None \<Rightarrow> no_event)
             in if xlast x suite \<noteq> None \<or> xrunning x suite \<noteq> None
                then no_event\<lparr>EvTime := EvTime v, EvAction := ''fail'', EvPackage := CPkg suite, EvTest := CPath suite, EvElapsed := EvElapsed v\<rparr>
                     # suite_fails x (insert suite seen) ms
                else suite_fails x (insert suite seen) ms)))"

definition suiteFailures :: "verdictIndex \<Rightarrow> CensusCase list \<Rightarrow> streamEvent list" where
  "suiteFailures x units = suite_fails x {} units"

fun package_fails :: "verdictIndex \<Rightarrow> string set \<Rightarrow> streamEvent list \<Rightarrow> streamEvent list" where
  "package_fails x seen [] = []"
| "package_fails x seen (ev # evs) =
     (let pkg = EvPackage ev in
      if pkg \<in> seen then package_fails x seen evs
      else (let v = (case xlast x \<lparr>CPkg = pkg, CPath = []\<rparr> of Some v \<Rightarrow> v | None \<Rightarrow> no_event)
            in no_event\<lparr>EvTime := EvTime v, EvAction := ''fail'', EvPackage := pkg, EvElapsed := EvElapsed v\<rparr>
               # package_fails x (insert pkg seen) evs))"

definition packageFailures :: "verdictIndex \<Rightarrow> streamEvent list \<Rightarrow> streamEvent list" where
  "packageFailures x booked = package_fails x {} booked"

definition maxNamedUnits :: nat where "maxNamedUnits = 5"

definition unitNames :: "CensusCase list \<Rightarrow> string" where
  "unitNames units = join '', ''
     (map (\<lambda>u. CPkg u @ '' '' @ CPath u) (take maxNamedUnits units) @
      (if length units > maxNamedUnits
       then [[CHR 0xE2, CHR 0x80, CHR 0xA6] @ '' '' @ itoa (int (length units - maxNamedUnits)) @ '' more''] else []))"

subsection \<open>The census\<close>

text \<open>The groups of units held to the stream, with the flags under which the census says nothing.\<close>

definition census_groups :: "bool \<Rightarrow> DeclaredUnits \<Rightarrow> verdictIndex \<Rightarrow> (string \<times> CensusCase list \<times> CensusCase list) list" where
  "census_groups bench declared x =
     (if bench then [(''benchmark'', DBenchmarks declared, xbenchOrder x)]
      else [(''test'', DTests declared, executedTests x), (''fuzz target'', DFuzz declared, executedFuzz x)])"

text \<open>The report on standard error and the booked events of one group that misses units.\<close>

definition census_report :: "string \<Rightarrow> CensusCase list \<Rightarrow> string" where
  "census_report kind missing =
     (if missing = [] then []
      else [CHR 0x0A] @ ''FAIL: census: '' @ itoa (int (length missing)) @ '' declared '' @ kind @ ''(s) never ran'' @ [CHR 0x0A] @
        concat (map (\<lambda>m. ''  '' @ CPkg m @ '' '' @ CPath m @ [CHR 0x0A]) missing))"

definition census_booked :: "verdictIndex \<Rightarrow> string \<Rightarrow> CensusCase list \<Rightarrow> streamEvent list" where
  "census_booked x kind missing = (if missing = [] then [] else bookMissing kind missing @ suiteFailures x missing)"

text \<open>What the census says, the events it books and the code it leaves: the run's own code unless
  the census applies and a unit is missing.\<close>

record census_run =
  CGoTestArgs :: "string list"
  CBench :: bool
  CGroups :: "string list"
  CSkipGroups :: "string list"

definition takeCensus ::
    "bool \<Rightarrow> census_run \<Rightarrow> DeclaredUnits \<Rightarrow> int \<Rightarrow> bool \<Rightarrow> verdictIndex \<Rightarrow> int \<times> string \<times> streamEvent list" where
  "takeCensus text cfg declared code dispatchErr x =
     (if text \<or> code \<noteq> 0 \<or> dispatchErr then (code, [], [])
      else if hasSelectionFlag (CGoTestArgs cfg) (if CBench cfg then benchSelectionFlags else testSelectionFlags)
        then (code, ''note: census skipped under -run/-skip/-list/-bench'' @ [CHR 0x0A], [])
      else if length (CGroups cfg) + length (CSkipGroups cfg) > 0
        then (code, ''note: census skipped under --group/--skip-group'' @ [CHR 0x0A], [])
      else (let gs = map (\<lambda>(kind, declared, executed). (kind, missingUnits declared executed)) (census_groups (CBench cfg) declared x);
                booked = concat (map (\<lambda>(kind, missing). census_booked x kind missing) gs);
                code = (if list_ex (\<lambda>(kind, missing). missing \<noteq> []) gs then 2 else code)
            in (code, concat (map (\<lambda>(kind, missing). census_report kind missing) gs), booked @ packageFailures x booked)))"

text \<open>The units an expired deadline cut short, and the events booked for them.\<close>

definition bookDeadline :: "bool \<Rightarrow> bool \<Rightarrow> CensusCase list \<Rightarrow> verdictIndex \<Rightarrow> CensusCase list \<times> streamEvent list" where
  "bookDeadline expired text cutShort x =
     (if \<not> expired then ([], [])
      else if text then (cutShort, [])
      else (let running = runningUnits x;
                booked = concat (map (\<lambda>r.
                  no_event\<lparr>EvAction := ''output'', EvPackage := CPkg r, EvTest := CPath r,
                    EvOutput := ''    gotest: --timeout expired while this test was running'' @ [CHR 0x0A]\<rparr> #
                  (if xrunning x r = Some True then [no_event\<lparr>EvAction := ''fail'', EvPackage := CPkg r, EvTest := CPath r\<rparr>] else [])) running);
                booked = booked @ suiteFailures x running
            in (running, booked @ packageFailures x booked)))"

end
