(* ===== verification/CensusProps.thy ===== *)
theory CensusProps
  imports Census BuildTreeProps
begin

text \<open>
  The index keeps every unit's last verdict; so the census ends a run with 2 exactly when a declared unit
  never ran, and what it books shows as a failure in the result tree.
\<close>

subsection \<open>What the index knows\<close>

text \<open>The verdicts of a stream of events: the last one of a unit no deeper than a suite's method.\<close>

definition is_verdict :: "streamEvent \<Rightarrow> bool" where
  "is_verdict ev \<longleftrightarrow> EvAction ev \<in> {''pass'', ''fail'', ''skip''} \<and> count_list (EvTest ev) CHR ''/'' \<le> 1"

definition verdict_of :: "streamEvent list \<Rightarrow> CensusCase \<Rightarrow> streamEvent option" where
  "verdict_of evs k = List.find (\<lambda>ev. is_verdict ev \<and> event_key ev = k) (rev evs)"

definition index_of :: "streamEvent list \<Rightarrow> verdictIndex" where
  "index_of evs = fold observe_event evs new_index"

lemma xsettle_keeps [simp]:
  "xlast (xsettle k x) = xlast x" "xorder (xsettle k x) = xorder x" "xbenchOrder (xsettle k x) = xbenchOrder x"
  by (simp_all add: xsettle_def)

lemma creditBenchmark_keeps [simp]:
  "xlast (creditBenchmark k x) = xlast x" "xorder (creditBenchmark k x) = xorder x"
  by (simp_all add: creditBenchmark_def Let_def)

lemma note_action_last:
  "xlast (note_action ev x) = (if EvAction ev \<in> {''pass'', ''fail'', ''skip''}
     then (xlast x)(event_key ev \<mapsto> ev\<lparr>EvOutput := []\<rparr>) else xlast x)"
  "xorder (note_action ev x) = (if EvAction ev \<in> {''pass'', ''fail'', ''skip''} \<and> xlast x (event_key ev) = None
     then xorder x @ [event_key ev] else xorder x)"
  by (auto simp: note_action_def note_verdict_def note_run_def Let_def)

lemma observe_event_last:
  "xlast (observe_event ev x) = (if is_verdict ev then (xlast x)(event_key ev \<mapsto> ev\<lparr>EvOutput := []\<rparr>) else xlast x)"
  "xorder (observe_event ev x) = (if is_verdict ev \<and> xlast x (event_key ev) = None then xorder x @ [event_key ev] else xorder x)"
  by (auto simp: observe_event_def Let_def note_action_last is_verdict_def)

lemma verdict_of_snoc:
  "verdict_of (evs @ [ev]) k = (if is_verdict ev \<and> event_key ev = k then Some ev else verdict_of evs k)"
  by (simp add: verdict_of_def)

lemma index_of_snoc: "index_of (evs @ [ev]) = observe_event ev (index_of evs)"
  by (simp add: index_of_def)

text \<open>It keeps each unit's last verdict, and a unit is in its order once it has one.\<close>

lemma index_of_last: "xlast (index_of evs) k = map_option (\<lambda>ev. ev\<lparr>EvOutput := []\<rparr>) (verdict_of evs k)"
proof (induction evs rule: rev_induct)
  case Nil
  show ?case by (simp add: index_of_def new_index_def verdict_of_def)
next
  case (snoc ev evs)
  then show ?case by (simp add: index_of_snoc observe_event_last verdict_of_snoc)
qed

lemma index_of_order: "set (xorder (index_of evs)) = {k. verdict_of evs k \<noteq> None}"
proof (induction evs rule: rev_induct)
  case Nil
  show ?case by (simp add: index_of_def new_index_def verdict_of_def)
next
  case (snoc ev evs)
  have "xlast (index_of evs) (event_key ev) = None \<longleftrightarrow> verdict_of evs (event_key ev) = None" by (simp add: index_of_last)
  then show ?case using snoc by (auto simp: index_of_snoc observe_event_last verdict_of_snoc)
qed

lemma verdict_of_None: "verdict_of evs k = None \<longleftrightarrow> (\<forall>ev \<in> set evs. \<not> (is_verdict ev \<and> event_key ev = k))"
  by (auto simp: verdict_of_def find_None_iff)

text \<open>The last verdict of a unit is a skip.\<close>

definition skipped :: "streamEvent list \<Rightarrow> CensusCase \<Rightarrow> bool" where
  "skipped evs k \<longleftrightarrow> (case verdict_of evs k of Some ev \<Rightarrow> EvAction ev = ''skip'' | None \<Rightarrow> False)"

lemma executedTests_index:
  "k \<in> set (executedTests (index_of evs)) \<longleftrightarrow>
   CPath k \<noteq> [] \<and> \<not> hasPrefix (CPath k) PrefixFuzz \<and> verdict_of evs k \<noteq> None \<and> (CHR ''/'' \<in> set (CPath k) \<or> skipped evs k)"
  by (auto simp: executedTests_def index_of_order index_of_last skipped_def split: option.splits)

lemma executedFuzz_index:
  "k \<in> set (executedFuzz (index_of evs)) \<longleftrightarrow> hasPrefix (CPath k) PrefixFuzz \<and> CHR ''/'' \<notin> set (CPath k) \<and> verdict_of evs k \<noteq> None"
  by (auto simp: executedFuzz_def index_of_order)

subsection \<open>Declared units\<close>

text \<open>A method of a suite, and a fuzz wrapper, as go test reports them.\<close>

definition test_unit :: "CensusCase \<Rightarrow> bool" where
  "test_unit d \<longleftrightarrow> hasPrefix (CPath d) ''Test'' \<and> CHR ''/'' \<in> set (CPath d)"

definition fuzz_unit :: "CensusCase \<Rightarrow> bool" where
  "fuzz_unit d \<longleftrightarrow> hasPrefix (CPath d) PrefixFuzz \<and> CHR ''/'' \<notin> set (CPath d)"

text \<open>A method ran when it has a verdict or its suite was skipped as a whole.\<close>

definition method_ran :: "streamEvent list \<Rightarrow> CensusCase \<Rightarrow> bool" where
  "method_ran evs d \<longleftrightarrow> verdict_of evs d \<noteq> None \<or> skipped evs \<lparr>CPkg = CPkg d, CPath = takeWhile (\<lambda>c. c \<noteq> CHR ''/'') (CPath d)\<rparr>"

lemma suite_part_eq: "suite_part p = (if CHR ''/'' \<in> set p then Some (takeWhile (\<lambda>c. c \<noteq> CHR ''/'') p) else None)"
  by (simp add: suite_part_def cut_byte)

lemma takeWhile_prefix:
  "hasPrefix p q \<Longrightarrow> c \<notin> set q \<Longrightarrow> hasPrefix (takeWhile (\<lambda>x. x \<noteq> c) p) q"
proof -
  assume p: "hasPrefix p q" and c: "c \<notin> set q"
  then obtain r where r: "p = q @ r" by (auto simp: hasPrefix_ex)
  have "takeWhile (\<lambda>x. x \<noteq> c) p = q @ takeWhile (\<lambda>x. x \<noteq> c) r" unfolding r using c by (intro takeWhile_append2) auto
  then show ?thesis by simp
qed

lemma not_both_prefixes: "hasPrefix p ''Test'' \<Longrightarrow> \<not> hasPrefix p PrefixFuzz"
  by (auto simp: hasPrefix_ex PrefixFuzz_def)

lemma missing_declared: "set (missingUnits ds ex) \<subseteq> set ds"
  by (auto simp: missingUnits_def)

lemma missing_none: "missingUnits ds ex = [] \<longleftrightarrow> (\<forall>d \<in> set ds. d \<notin> set (missingUnits ds ex))"
proof
  assume "\<forall>d \<in> set ds. d \<notin> set (missingUnits ds ex)"
  then have "set (missingUnits ds ex) = {}" using missing_declared[of ds ex] by (metis equals0I subsetD)
  then show "missingUnits ds ex = []" by simp
qed simp

lemma missing_tests:
  assumes "test_unit d"
  shows "d \<in> set (missingUnits ds (executedTests (index_of evs))) \<longleftrightarrow> d \<in> set ds \<and> \<not> method_ran evs d"
proof -
  let ?s = "takeWhile (\<lambda>c. c \<noteq> CHR ''/'') (CPath d)"
  have p: "hasPrefix (CPath d) ''Test''" "CHR ''/'' \<in> set (CPath d)" using assms by (auto simp: test_unit_def)
  have s: "hasPrefix ?s ''Test''" using p(1) by (intro takeWhile_prefix) auto
  have ns: "CHR ''/'' \<notin> set ?s" by (auto dest: set_takeWhileD)
  have ne: "CPath d \<noteq> []" "?s \<noteq> []" using p(1) s by (auto simp: hasPrefix_ex)
  have "d \<in> set (executedTests (index_of evs)) \<longleftrightarrow> verdict_of evs d \<noteq> None"
    using p ne not_both_prefixes[OF p(1)] by (simp add: executedTests_index)
  moreover have "\<lparr>CPkg = CPkg d, CPath = ?s\<rparr> \<in> set (executedTests (index_of evs)) \<longleftrightarrow> skipped evs \<lparr>CPkg = CPkg d, CPath = ?s\<rparr>"
    using ne ns not_both_prefixes[OF s] by (auto simp: executedTests_index skipped_def split: option.splits)
  ultimately show ?thesis using p(2) by (auto simp: missingUnits_def suite_part_eq method_ran_def)
qed

lemma missing_fuzz:
  assumes "fuzz_unit d"
  shows "d \<in> set (missingUnits ds (executedFuzz (index_of evs))) \<longleftrightarrow> d \<in> set ds \<and> verdict_of evs d = None"
  using assms by (auto simp: missingUnits_def suite_part_eq fuzz_unit_def executedFuzz_index)

subsection \<open>The census and the tree\<close>

definition applies :: "census_run \<Rightarrow> bool" where
  "applies cfg \<longleftrightarrow> \<not> CBench cfg \<and> \<not> hasSelectionFlag (CGoTestArgs cfg) testSelectionFlags \<and> CGroups cfg = [] \<and> CSkipGroups cfg = []"

lemma takeCensus_tests:
  assumes "applies cfg"
  shows "takeCensus False cfg declared 0 False x =
    (let mt = missingUnits (DTests declared) (executedTests x); mf = missingUnits (DFuzz declared) (executedFuzz x);
         booked = census_booked x ''test'' mt @ census_booked x ''fuzz target'' mf
     in (if mt = [] \<and> mf = [] then 0 else 2, census_report ''test'' mt @ census_report ''fuzz target'' mf,
         booked @ packageFailures x booked))"
  using assms by (auto simp: takeCensus_def applies_def census_groups_def Let_def)

lemma suite_fails_actions: "ev \<in> set (suite_fails x seen ms) \<Longrightarrow> EvAction ev = ''fail''"
  by (induction x seen ms rule: suite_fails.induct) (auto simp: Let_def split: option.splits if_splits)

lemma package_fails_actions: "ev \<in> set (package_fails x seen evs) \<Longrightarrow> EvAction ev = ''fail''"
  by (induction x seen evs rule: package_fails.induct) (auto simp: Let_def split: if_splits)

lemma booked_actions:
  assumes "applies cfg" "takeCensus False cfg declared 0 False x = (code, msg, booked)" "ev \<in> set booked"
  shows "EvAction ev \<in> {''run'', ''output'', ''fail''}"
proof -
  let ?t = "census_booked x ''test'' (missingUnits (DTests declared) (executedTests x)) @
    census_booked x ''fuzz target'' (missingUnits (DFuzz declared) (executedFuzz x))"
  have "booked = ?t @ packageFailures x ?t" using assms(2) by (simp add: takeCensus_tests[OF assms(1)] Let_def)
  then consider "ev \<in> set ?t" | "ev \<in> set (packageFailures x ?t)" using assms(3) by auto
  then show ?thesis
  proof cases
    case 1
    have "EvAction ev \<in> {''run'', ''output'', ''fail''}" if mem: "ev \<in> set (census_booked x kind ms)" for kind ms
    proof -
      have "ev \<in> set (bookMissing kind ms) \<or> ev \<in> set (suite_fails x {} ms)"
        using mem by (auto simp: census_booked_def suiteFailures_def split: if_splits)
      then show ?thesis using suite_fails_actions by (auto simp: bookMissing_def no_event_def)
    qed
    then show ?thesis using 1 by auto
  next
    case 2
    then show ?thesis using package_fails_actions by (simp add: packageFailures_def)
  qed
qed

lemma booked_fails:
  assumes "applies cfg" "takeCensus False cfg declared 0 False x = (code, msg, booked)"
    "m \<in> set (missingUnits (DTests declared) (executedTests x)) \<union> set (missingUnits (DFuzz declared) (executedFuzz x))"
  shows "no_event\<lparr>EvAction := ''fail'', EvPackage := CPkg m, EvTest := CPath m\<rparr> \<in> set booked"
  using assms(2,3) by (auto simp: takeCensus_tests[OF assms(1)] Let_def census_booked_def bookMissing_def)

lemma takeCensus_code:
  assumes "applies cfg" "\<forall>d \<in> set (DTests declared). test_unit d" "\<forall>d \<in> set (DFuzz declared). fuzz_unit d"
  shows "fst (takeCensus False cfg declared 0 False (index_of evs)) =
    (if (\<forall>d \<in> set (DTests declared). method_ran evs d) \<and> (\<forall>d \<in> set (DFuzz declared). verdict_of evs d \<noteq> None) then 0 else 2)"
proof -
  have "missingUnits (DTests declared) (executedTests (index_of evs)) = [] \<longleftrightarrow> (\<forall>d \<in> set (DTests declared). method_ran evs d)"
    using assms(2) by (subst missing_none) (simp add: missing_tests)
  moreover have "missingUnits (DFuzz declared) (executedFuzz (index_of evs)) = [] \<longleftrightarrow> (\<forall>d \<in> set (DFuzz declared). verdict_of evs d \<noteq> None)"
    using assms(3) by (subst missing_none) (simp add: missing_fuzz)
  ultimately show ?thesis by (simp add: takeCensus_tests[OF assms(1)] Let_def)
qed

text \<open>What the reader of the stream makes of an event of the census: the same event with its action as a
  value; the time is read by an argument.\<close>

definition action_of :: "string \<Rightarrow> Action" where
  "action_of a =
     (if a = ''run'' then ActionRun else if a = ''output'' then ActionOutput else if a = ''pass'' then ActionPass
      else if a = ''fail'' then ActionFail else if a = ''skip'' then ActionSkip else if a = ''pause'' then ActionPause
      else if a = ''cont'' then ActionCont else if a = ''bench'' then ActionBench
      else if a = ''build-output'' then ActionBuildOutput else if a = ''build-fail'' then ActionBuildFail else ActionOther a)"

definition tree_event :: "(string \<Rightarrow> time) \<Rightarrow> streamEvent \<Rightarrow> TestEvent" where
  "tree_event read_time ev = \<lparr>ETime = read_time (EvTime ev), EAction = action_of (EvAction ev), EPackage = EvPackage ev, ETest = EvTest ev,
     EOutput = EvOutput ev, Elapsed = EvElapsed ev, ImportPath = [], FailedBuild = []\<rparr>"

text \<open>C23. A green run's census leaves exit code 0 exactly when every declared method has a verdict in the stream
  or its suite's last verdict is a skip, and every declared fuzz target has a verdict; otherwise the code is 2
  and, with the booked events, the result tree has a failed node in the package of every unit that never ran.\<close>

theorem census_holds_run_to_units:
  assumes "applies cfg" "\<forall>d \<in> set (DTests declared). test_unit d" "\<forall>d \<in> set (DFuzz declared). fuzz_unit d"
    "takeCensus False cfg declared 0 False (index_of evs) = (code, msg, booked)"
  shows "code = (if (\<forall>d \<in> set (DTests declared). method_ran evs d) \<and> (\<forall>d \<in> set (DFuzz declared). verdict_of evs d \<noteq> None) then 0 else 2) \<and>
    (\<exists>ps. BuildTree L decls (map (tree_event read_time) (evs @ booked)) = Some ps \<and>
      (\<forall>d \<in> set (DTests declared). \<not> method_ran evs d \<longrightarrow> (\<exists>pkg \<in> set ps. SpecTree.Path pkg = CPkg d \<and> (\<exists>n \<in> set (Nodes pkg). any_failed n))) \<and>
      (\<forall>d \<in> set (DFuzz declared). verdict_of evs d = None \<longrightarrow> (\<exists>pkg \<in> set ps. SpecTree.Path pkg = CPkg d \<and> (\<exists>n \<in> set (Nodes pkg). any_failed n))))"
proof -
  obtain ps where ps: "BuildTree L decls (map (tree_event read_time) (evs @ booked)) = Some ps" using BuildTree_returns by blast
  have failed: "\<exists>pkg \<in> set ps. SpecTree.Path pkg = CPkg m \<and> (\<exists>n \<in> set (Nodes pkg). any_failed n)"
    if m: "m \<in> set (missingUnits (DTests declared) (executedTests (index_of evs))) \<union> set (missingUnits (DFuzz declared) (executedFuzz (index_of evs)))"
      and ne: "CPath m \<noteq> []" for m
  proof -
    let ?ev = "no_event\<lparr>EvAction := ''fail'', EvPackage := CPkg m, EvTest := CPath m\<rparr>"
    obtain pre post where b: "booked = pre @ ?ev # post" using booked_fails[OF assms(1,4) m] by (meson split_list)
    have e: "map (tree_event read_time) (evs @ booked) = map (tree_event read_time) (evs @ pre) @ tree_event read_time ?ev # map (tree_event read_time) post"
      by (simp add: b)
    have "\<forall>e \<in> set (map (tree_event read_time) post). EAction e \<notin> {ActionPass, ActionSkip}"
    proof
      fix e assume "e \<in> set (map (tree_event read_time) post)"
      then obtain ev where "ev \<in> set booked" "e = tree_event read_time ev" using b by auto
      then show "EAction e \<notin> {ActionPass, ActionSkip}"
        using booked_actions[OF assms(1,4), of ev] by (auto simp: tree_event_def action_of_def)
    qed
    then show ?thesis
      using failed_node_kept[OF e _ _ _ ps] ne by (auto simp: tree_event_def action_of_def)
  qed
  have tests: "\<exists>pkg \<in> set ps. SpecTree.Path pkg = CPkg d \<and> (\<exists>n \<in> set (Nodes pkg). any_failed n)"
    if "d \<in> set (DTests declared)" "\<not> method_ran evs d" for d
    using that assms(2) missing_tests[of d "DTests declared" evs] by (intro failed) (auto simp: test_unit_def hasPrefix_ex)
  have fuzz: "\<exists>pkg \<in> set ps. SpecTree.Path pkg = CPkg d \<and> (\<exists>n \<in> set (Nodes pkg). any_failed n)"
    if "d \<in> set (DFuzz declared)" "verdict_of evs d = None" for d
    using that assms(3) missing_fuzz[of d "DFuzz declared" evs] by (intro failed) (auto simp: fuzz_unit_def hasPrefix_ex PrefixFuzz_def)
  show ?thesis
    using takeCensus_code[OF assms(1-3), of evs] assms(4) ps tests fuzz by auto
qed

lemma census_holds_run_to_units_witness:
  "\<exists>ps. BuildTree no_stdlib (\<lambda>_ _. \<lparr>Label = [], DVocab = VocabNone\<rparr>) (map (tree_event (\<lambda>_. None))
      ([no_event\<lparr>EvAction := ''pass'', EvPackage := ''p'', EvTest := ''TestA/M''\<rparr>] @
       snd (snd (takeCensus False \<lparr>CGoTestArgs = [''-v''], CBench = False, CGroups = [], CSkipGroups = []\<rparr>
         \<lparr>DTests = [\<lparr>CPkg = ''p'', CPath = ''TestA/M''\<rparr>, \<lparr>CPkg = ''p'', CPath = ''TestA/N''\<rparr>], DFuzz = [], DBenchmarks = []\<rparr>
         0 False (index_of [no_event\<lparr>EvAction := ''pass'', EvPackage := ''p'', EvTest := ''TestA/M''\<rparr>]))))) = Some ps \<and>
     (\<exists>pkg \<in> set ps. SpecTree.Path pkg = ''p'' \<and> (\<exists>n \<in> set (Nodes pkg). any_failed n))"
proof -
  let ?ev = "no_event\<lparr>EvAction := ''pass'', EvPackage := ''p'', EvTest := ''TestA/M''\<rparr>"
  let ?cfg = "\<lparr>CGoTestArgs = [''-v''], CBench = False, CGroups = [], CSkipGroups = []\<rparr>"
  let ?d = "\<lparr>DTests = [\<lparr>CPkg = ''p'', CPath = ''TestA/M''\<rparr>, \<lparr>CPkg = ''p'', CPath = ''TestA/N''\<rparr>], DFuzz = [], DBenchmarks = []\<rparr>"
  obtain code msg booked where t: "takeCensus False ?cfg ?d 0 False (index_of [?ev]) = (code, msg, booked)" by (metis prod_cases3)
  have a: "applies ?cfg" by (simp add: applies_def hasSelectionFlag_def testSelectionFlags_def hasPrefix_def)
  have u: "\<forall>d \<in> set (DTests ?d). test_unit d" by (simp add: test_unit_def hasPrefix_def)
  have f: "\<forall>d \<in> set (DFuzz ?d). fuzz_unit d" by simp
  have "\<not> method_ran [?ev] \<lparr>CPkg = ''p'', CPath = ''TestA/N''\<rparr>"
    by (simp add: method_ran_def skipped_def verdict_of_def event_key_def no_event_def)
  then show ?thesis
    using census_holds_run_to_units[OF a u f t, of no_stdlib "\<lambda>_ _. \<lparr>Label = [], DVocab = VocabNone\<rparr>" "\<lambda>_. None"] t by auto
qed

end
