(* ===== verification/Collector.thy ===== *)
theory Collector
  imports Census "HOL-Library.List_Lexorder" "HOL-Library.Char_ord"
begin

text \<open>
  \<^verbatim>\<open>internal/gotestrunner/output_collector.go\<close>: the collector every suite result and every failure of
  a run flows through, in text and in JSON.  Its mutex makes every operation one step.  JSON, the
  clock and the formatting of seconds are fields of an argument; the two streams are the bytes
  written so far; \<open>None\<close> is a panic.
\<close>

subsection \<open>A child's exit status\<close>

text \<open>\<^verbatim>\<open>proctree/exitstatus.go\<close> and \<^verbatim>\<open>process.go\<close>.\<close>

definition maxExitCode :: int where "maxExitCode = 255"

definition Terminated :: "int \<Rightarrow> bool" where "Terminated status \<longleftrightarrow> status > maxExitCode"

definition hex_digit :: "nat \<Rightarrow> char" where "hex_digit k = (if k < 10 then char_of (48 + k) else char_of (55 + k))"

function hex_digits :: "nat \<Rightarrow> string" where
  "hex_digits n = (if n < 16 then [hex_digit n] else hex_digits (n div 16) @ [hex_digit (n mod 16)])"
  by pat_completeness auto
termination by (relation "measure id") auto

declare hex_digits.simps [simp del]

definition StatusHex :: "int \<Rightarrow> string" where
  "StatusHex status = ''0x'' @ hex_digits (unat (of_int status :: u32))"

definition raceExitCode :: int where "raceExitCode = 66"

definition ExitStatusVerdict :: "int \<Rightarrow> int \<times> string" where
  "ExitStatusVerdict status =
     (if status < 0 then (1, ''by signal'')
      else if status = raceExitCode then (1, ''by the race detector (exit status 66)'')
      else if Terminated status then (1, ''by the system (status '' @ StatusHex status @ '')'')
      else (status, []))"

subsection \<open>Data\<close>

datatype RunMode = RunBatchText | RunStreamJSON | RunCaptureJSON

text \<open>Of a result's target, the suite's name and whether it is a benchmark.\<close>

record SuiteResult =
  RSuiteName :: string
  RBench :: bool
  Stdout :: string
  Stderr :: string
  ExitCode :: int
  Started :: time
  Duration :: duration
  CutShort :: bool

definition zero_result :: SuiteResult where
  "zero_result = \<lparr>RSuiteName = [], RBench = False, Stdout = [], Stderr = [], ExitCode = 0, Started = None, Duration = 0, CutShort = False\<rparr>"

record pkgState =
  expected :: nat
  completed :: nat
  results :: "SuiteResult list"
  failedBuild :: string
  fixed :: string

definition zero_state :: pkgState where
  "zero_state = \<lparr>expected = 0, completed = 0, results = [], failedBuild = [], fixed = []\<rparr>"

text \<open>The values of the maps and structs the code marshals: texts, the time now, raw JSON, whole numbers
  and seconds.\<close>

datatype jvalue = JText string | JNow int | JRaw string | JInt int | JSeconds duration

record library =
  decode_event :: "string \<Rightarrow> streamEvent option"
  decode_head :: "string \<Rightarrow> (string \<times> string \<times> string) option"
  decode_test :: "string \<Rightarrow> (string \<times> string \<times> string) option"
  encode_event :: "streamEvent \<Rightarrow> string"
  encode_fields :: "(string \<times> jvalue) list \<Rightarrow> string"
  encode_struct :: "(string \<times> jvalue) list \<Rightarrow> string"
  millis :: "duration \<Rightarrow> string"

abbreviation nl :: string where "nl \<equiv> [CHR 0x0A]"

definition json_line :: "library \<Rightarrow> (string \<times> jvalue) list \<Rightarrow> string" where
  "json_line L kvs = encode_fields L kvs @ nl"

subsection \<open>The stream\<close>

record startWriter =
  sw_out :: string
  sw_buf :: string
  sw_started :: "string set"

definition writeLine :: "library \<Rightarrow> int \<Rightarrow> string \<Rightarrow> startWriter \<Rightarrow> startWriter" where
  "writeLine L now line s =
     (case decode_head L line of
        None \<Rightarrow> s\<lparr>sw_out := sw_out s @ line\<rparr>
      | Some (tm, action, pkg) \<Rightarrow>
          if pkg = [] then s\<lparr>sw_out := sw_out s @ line\<rparr>
          else if pkg \<notin> sw_started s \<and> action = ''start''
            then s\<lparr>sw_started := insert pkg (sw_started s), sw_out := sw_out s @ line\<rparr>
          else if pkg \<notin> sw_started s
            then s\<lparr>sw_started := insert pkg (sw_started s),
                   sw_out := sw_out s @ json_line L [(''Time'', if tm = [] then JNow now else JRaw tm), (''Action'', JText ''start''), (''Package'', JText pkg)] @ line\<rparr>
          else if action = ''start'' then s
          else s\<lparr>sw_out := sw_out s @ line\<rparr>)"

definition start_write :: "library \<Rightarrow> int \<Rightarrow> string \<Rightarrow> startWriter \<Rightarrow> startWriter" where
  "start_write L now p s =
     (let ls = split_byte CHR 0x0A (sw_buf s @ p)
      in (fold (\<lambda>l. writeLine L now (l @ nl)) (butlast ls) s)\<lparr>sw_buf := last ls\<rparr>)"

text \<open>What of a suite's own events goes on: its tests', and diagnostic text of the package.\<close>

definition keeps_line :: "library \<Rightarrow> string \<Rightarrow> bool" where
  "keeps_line L line = (case decode_test L line of
     None \<Rightarrow> True
   | Some (test, action, out) \<Rightarrow> test \<noteq> [] \<or> (action = ''output'' \<and> \<not> IsPackageSummaryLine out))"

definition filterPackageLevelEvents :: "library \<Rightarrow> string \<Rightarrow> string list" where
  "filterPackageLevelEvents L data =
     concat (map (\<lambda>line. [line, nl]) (filter (\<lambda>line. line \<noteq> [] \<and> keeps_line L line) (split_byte CHR 0x0A data)))"

definition outputEvent :: "library \<Rightarrow> string \<Rightarrow> string \<Rightarrow> string" where
  "outputEvent L pkg txt = json_line L [(''Action'', JText ''output''), (''Package'', JText pkg), (''Output'', JText txt)]"

subsection \<open>A package's text\<close>

definition noTestsToRun :: string where "noTestsToRun = ''[no tests to run]''"

definition noTestsWarning :: string where "noTestsWarning = ''testing: warning: no tests to run''"

definition ranNoTests :: "SuiteResult list \<Rightarrow> bool" where
  "ranNoTests rs \<longleftrightarrow>
     list_all (\<lambda>r. str_contains (Stdout r) noTestsWarning \<or> str_contains (Stderr r) noTestsWarning) rs \<and> length rs > 0"

definition ranNothingNote :: "pkgState \<Rightarrow> string" where
  "ranNothingNote s = (if ranNoTests (results s) then '' '' @ noTestsToRun else [])"

text \<open>The zero time comes before every other.\<close>

definition packageSpan :: "SuiteResult list \<Rightarrow> duration" where
  "packageSpan rs =
     (let timed = List.map_filter (\<lambda>r. map_option (\<lambda>t. (t, t + Duration r)) (Started r)) rs;
          sum = sum_list (map Duration rs)
      in if list_ex (\<lambda>r. Started r = None) rs \<or> timed = [] then sum
         else fold max (map snd (tl timed)) (snd (hd timed)) - fold min (map fst (tl timed)) (fst (hd timed)))"

definition StripTrailingStatus :: "string \<Rightarrow> string" where
  "StripTrailingStatus data =
     (let lines = split_after_nl data
      in case filter (\<lambda>i. trim_right {CHR 0x0A} (lines ! i) \<in> {''PASS'', ''FAIL''}) [0..<length lines] of
           [] \<Rightarrow> data
         | is \<Rightarrow> (let rest = concat (drop (last is + 1) lines)
                  in concat (take (last is) lines) @ (if trim_space rest = [] then [] else rest)))"

definition tab :: string where "tab = [CHR 0x09]"

definition failed_pkg :: "pkgState \<Rightarrow> bool" where
  "failed_pkg s \<longleftrightarrow> list_ex (\<lambda>r. ExitCode r \<noteq> 0) (results s)"

text \<open>What \<open>flushTextPkg\<close> writes of a package: to standard output and to standard error.\<close>

definition flushTextPkg :: "library \<Rightarrow> bool \<Rightarrow> pkgState \<Rightarrow> string \<Rightarrow> string \<times> string" where
  "flushTextPkg L verb s pkg =
     (if fixed s \<noteq> [] then (fixed s, [])
      else (let dur = millis L (packageSpan (results s)); failed = failed_pkg s;
                shown = (if verb \<or> failed then results s else [])
            in (concat (map (\<lambda>r. StripTrailingStatus (Stdout r)) shown) @
                (if failedBuild s \<noteq> [] then ''FAIL'' @ tab @ pkg @ '' [build failed]'' @ nl
                 else if failed then ''FAIL'' @ nl @ ''FAIL'' @ tab @ pkg @ tab @ dur @ ''s'' @ nl
                 else if verb then ''PASS'' @ nl @ ''ok  '' @ tab @ pkg @ tab @ dur @ ''s'' @ ranNothingNote s @ nl
                 else ''ok  '' @ tab @ pkg @ tab @ dur @ ''s'' @ ranNothingNote s @ nl),
                concat (map Stderr shown))))"

subsection \<open>A hung benchmark\<close>

text \<open>One line of a bench run's output: the benchmark it leaves unfinished.\<close>

definition hung_line :: "string \<Rightarrow> string \<Rightarrow> string \<Rightarrow> string" where
  "hung_line wrapper line hung =
     (let (name, isResult) = (case cut (trim_right {CHR 0x0D, CHR 0x0A} line) tab of
            None \<Rightarrow> (let name = trim_right {CHR 0x0D, CHR 0x0A} line in
               fold (\<lambda>verdict (name, isResult). case cutPrefix (trim_left {CHR '' ''} name) verdict of
                   Some rest \<Rightarrow> (rest, True) | None \<Rightarrow> (name, isResult))
                 [''--- FAIL: '', ''--- SKIP: ''] (name, False))
          | Some (name, _) \<Rightarrow>
              (case cut (trim_right {CHR '' ''} name) ''-'' of Some (n, _) \<Rightarrow> n | None \<Rightarrow> trim_right {CHR '' ''} name, True))
      in case cutPrefix name (wrapper @ ''/'') of
           None \<Rightarrow> hung
         | Some method \<Rightarrow>
             if method = [] \<or> CHR ''/'' \<in> set method then hung
             else if \<not> isResult then name
             else if name = hung then wrapper
             else hung)"

definition hungBenchmark :: "string \<Rightarrow> string \<Rightarrow> string" where
  "hungBenchmark out wrapper = fold (hung_line wrapper) (str_lines out) wrapper"

subsection \<open>The collector\<close>

record collector =
  mode :: RunMode
  verbose :: bool
  pkgs :: "(string \<times> pkgState) list"
  order :: "string list"
  flushed :: nat
  worst :: int
  verdicts :: verdictIndex
  cutShort :: "CensusCase list"
  StdlibTestsByPkg :: "string \<Rightarrow> nat"
  bench :: bool
  stdout :: string
  stderr :: string
  stream :: startWriter

definition NewOutputCollector :: "RunMode \<Rightarrow> bool \<Rightarrow> collector" where
  "NewOutputCollector m verb = \<lparr>mode = m, verbose = verb, pkgs = [], order = [], flushed = 0, worst = 0, verdicts = new_index,
     cutShort = [], StdlibTestsByPkg = (\<lambda>_. 0), bench = False, stdout = [], stderr = [],
     stream = \<lparr>sw_out = [], sw_buf = [], sw_started = {}\<rparr>\<rparr>"

text \<open>Every package of the order has an entry.\<close>

definition state_of :: "collector \<Rightarrow> string \<Rightarrow> pkgState" where
  "state_of c pkg = (case map_of (pkgs c) pkg of Some s \<Rightarrow> s | None \<Rightarrow> zero_state)"

definition put_state :: "string \<Rightarrow> pkgState \<Rightarrow> collector \<Rightarrow> collector" where
  "put_state pkg s c = c\<lparr>pkgs := set_entry pkg s (pkgs c)\<rparr>"

definition target_write :: "library \<Rightarrow> int \<Rightarrow> string \<Rightarrow> collector \<Rightarrow> collector" where
  "target_write L now p c = c\<lparr>stream := start_write L now p (stream c)\<rparr>"

text \<open>\<open>jsonWriter\<close>: the target and the census' index.\<close>

definition json_write :: "library \<Rightarrow> int \<Rightarrow> string \<Rightarrow> collector \<Rightarrow> collector" where
  "json_write L now p c = (target_write L now p c)\<lparr>verdicts := index_write (decode_event L) p (verdicts c)\<rparr>"

definition SetFlushOrder :: "string list \<Rightarrow> collector \<Rightarrow> collector" where
  "SetFlushOrder ps c =
     fold (\<lambda>pkg c. if map_of (pkgs c) pkg = None then put_state pkg zero_state c else c) ps (c\<lparr>order := ps\<rparr>)"

definition Register :: "string \<Rightarrow> nat \<Rightarrow> collector \<Rightarrow> collector" where
  "Register pkg count c =
     (case map_of (pkgs c) pkg of
        Some s \<Rightarrow> put_state pkg (s\<lparr>expected := count, results := replicate count zero_result\<rparr>) c
      | None \<Rightarrow> (put_state pkg (zero_state\<lparr>expected := count, results := replicate count zero_result\<rparr>) c)\<lparr>order := order c @ [pkg]\<rparr>)"

definition write_text :: "library \<Rightarrow> string \<Rightarrow> collector \<Rightarrow> collector" where
  "write_text L pkg c = (let (out, err) = flushTextPkg L (verbose c) (state_of c pkg) pkg
     in c\<lparr>stdout := stdout c @ out, stderr := stderr c @ err\<rparr>)"

definition waits :: "pkgState \<Rightarrow> bool" where
  "waits s \<longleftrightarrow> fixed s = [] \<and> (expected s = 0 \<or> completed s < expected s)"

fun flush_from :: "library \<Rightarrow> string list \<Rightarrow> collector \<Rightarrow> collector" where
  "flush_from L [] c = c"
| "flush_from L (pkg # rest) c =
     (if waits (state_of c pkg) then c
      else flush_from L rest (let c = write_text L pkg c in c\<lparr>flushed := flushed c + 1\<rparr>))"

definition flushReadyText :: "library \<Rightarrow> collector \<Rightarrow> collector" where
  "flushReadyText L c = flush_from L (drop (flushed c) (order c)) c"

definition package_fields :: "int \<Rightarrow> string \<Rightarrow> string \<Rightarrow> (string \<times> jvalue) list" where
  "package_fields now action pkg = [(''Time'', JNow now), (''Action'', JText action), (''Package'', JText pkg)]"

definition emitJSONPackageSummary :: "library \<Rightarrow> int \<Rightarrow> string \<Rightarrow> pkgState \<Rightarrow> collector \<Rightarrow> collector" where
  "emitJSONPackageSummary L now pkg s c =
     (let dur = packageSpan (results s); failed = failed_pkg s;
          line = (if failedBuild s \<noteq> [] then ''FAIL'' @ tab @ pkg @ '' [build failed]'' @ nl
                  else if failed then ''FAIL'' @ tab @ pkg @ tab @ millis L dur @ ''s'' @ nl
                  else ''ok  '' @ tab @ pkg @ tab @ millis L dur @ ''s'' @ ranNothingNote s @ nl);
          c = json_write L now (json_line L (package_fields now ''output'' pkg @ [(''Output'', JText line)])) c
      in json_write L now (json_line L (package_fields now (if failed then ''fail'' else ''pass'') pkg @ [(''Elapsed'', JSeconds dur)] @
           (if failedBuild s \<noteq> [] then [(''FailedBuild'', JText (failedBuild s))] else []))) c)"

text \<open>\<open>recordResultLocked\<close>: the status read as a verdict, the unit cut short, then the result.\<close>

definition read_status :: "library \<Rightarrow> int \<Rightarrow> string \<Rightarrow> SuiteResult \<Rightarrow> collector \<Rightarrow> SuiteResult \<times> collector" where
  "read_status L now pkg r c =
     (let (code, how) = ExitStatusVerdict (ExitCode r); note = ''gotest: suite binary terminated '' @ how @ nl
      in if how \<noteq> [] then (r\<lparr>ExitCode := code, Stderr := Stderr r @ note\<rparr>,
             if mode c \<noteq> RunBatchText then target_write L now (outputEvent L pkg note) c else c)
         else (r, c))"

definition note_cut :: "string \<Rightarrow> SuiteResult \<Rightarrow> collector \<Rightarrow> collector" where
  "note_cut pkg r c =
     (if CutShort r then
        (let name = (if RBench r then
               (let name = PrefixBenchmark @ RSuiteName r in if mode c = RunBatchText then hungBenchmark (Stdout r) name else name)
             else RSuiteName r)
         in c\<lparr>cutShort := cutShort c @ [\<lparr>CPkg = pkg, CPath = name\<rparr>]\<rparr>)
      else c)"

definition RecordResult :: "library \<Rightarrow> int \<Rightarrow> string \<Rightarrow> nat \<Rightarrow> SuiteResult \<Rightarrow> collector \<Rightarrow> collector option" where
  "RecordResult L now pkg idx r c =
     (let (r, c) = read_status L now pkg r c;
          c = (if ExitCode r > worst c then c\<lparr>worst := ExitCode r\<rparr> else c);
          c = note_cut pkg r c
      in case map_of (pkgs c) pkg of
           None \<Rightarrow> None
         | Some s \<Rightarrow>
             if length (results s) \<le> idx then None
             else (let s = s\<lparr>results := (results s)[idx := r], completed := completed s + 1\<rparr>; c = put_state pkg s c
                   in Some (if mode c = RunBatchText then flushReadyText L c
                      else (let c = fold (json_write L now) (filterPackageLevelEvents L (Stdout r)) c;
                                c = c\<lparr>verdicts := endSuite (CutShort r) (verdicts c)\<rparr>;
                                c = c\<lparr>stderr := stderr c @ Stderr r\<rparr>
                            in if completed s = expected s then emitJSONPackageSummary L now pkg s c else c))))"

subsection \<open>The other records\<close>

definition recordFixed :: "library \<Rightarrow> int \<Rightarrow> string \<Rightarrow> string \<Rightarrow> string \<Rightarrow> collector \<Rightarrow> collector" where
  "recordFixed L now pkg line action c =
     (let c = (if map_of (pkgs c) pkg = None then (put_state pkg zero_state c)\<lparr>order := order c @ [pkg]\<rparr> else c);
          c = put_state pkg ((state_of c pkg)\<lparr>fixed := line\<rparr>) c
      in if mode c = RunBatchText then flushReadyText L c
         else json_write L now (json_line L (package_fields now action pkg @ [(''Elapsed'', JInt 0)]))
                (json_write L now (json_line L (package_fields now ''output'' pkg @ [(''Output'', JText line)])) c))"

definition RecordNothingToRun :: "library \<Rightarrow> int \<Rightarrow> string \<Rightarrow> collector \<Rightarrow> collector" where
  "RecordNothingToRun L now pkg c =
     recordFixed L now pkg (''ok  '' @ tab @ pkg @ tab @ ''0.000s'' @ (if bench c then [] else '' '' @ noTestsToRun) @ nl) ''pass'' c"

definition RecordNoSuite :: "library \<Rightarrow> int \<Rightarrow> string \<Rightarrow> bool \<Rightarrow> collector \<Rightarrow> collector" where
  "RecordNoSuite L now pkg excluded c =
     (if excluded then RecordNothingToRun L now pkg c
      else recordFixed L now pkg
        (''?   '' @ tab @ pkg @ tab @ (if StdlibTestsByPkg c pkg > 0 then ''[no suites]'' else ''[no test files]'') @ nl) ''skip'' c)"

fun build_header :: "string list \<Rightarrow> string option" where
  "build_header [] = None"
| "build_header (l # ls) = (case cutPrefix l ''# '' of Some h \<Rightarrow> Some (trim_space h) | None \<Rightarrow> build_header ls)"

definition buildName :: "string \<Rightarrow> string \<Rightarrow> string" where
  "buildName pkg msg = (case build_header (str_lines msg) of Some h \<Rightarrow> h | None \<Rightarrow> pkg)"

definition RecordBuildFailure :: "library \<Rightarrow> int \<Rightarrow> string \<Rightarrow> string \<Rightarrow> collector \<Rightarrow> collector option" where
  "RecordBuildFailure L now pkg msg c =
     (let c = Register pkg 1 c; build = buildName pkg msg;
          c = put_state pkg ((state_of c pkg)\<lparr>failedBuild := build\<rparr>) c;
          c = (if mode c = RunBatchText then c
               else json_write L now (json_line L [(''ImportPath'', JText build), (''Action'', JText ''build-fail'')])
                 (fold (\<lambda>line. json_write L now
                    (json_line L [(''ImportPath'', JText build), (''Action'', JText ''build-output''), (''Output'', JText line)]))
                  (str_lines msg) c))
      in RecordResult L now pkg 0 (zero_result\<lparr>Stderr := msg, ExitCode := 2\<rparr>) c)"

text \<open>The events of a test that did not run: run, its outputs, and its verdict.\<close>

definition test_events :: "library \<Rightarrow> int \<Rightarrow> string \<Rightarrow> string \<Rightarrow> string list \<Rightarrow> string \<Rightarrow> string list" where
  "test_events L now pkg test outs verdict =
     (let ev = (\<lambda>action more. json_line L (package_fields now action pkg @ [(''Test'', JText test)] @ more))
      in [ev ''run'' []] @ map (\<lambda>out. ev ''output'' [(''Output'', JText out)]) outs @ [ev verdict [(''Elapsed'', JInt 0)]])"

definition RecordGivenUp :: "library \<Rightarrow> int \<Rightarrow> string \<Rightarrow> nat \<Rightarrow> string \<Rightarrow> string \<Rightarrow> collector \<Rightarrow> collector option" where
  "RecordGivenUp L now pkg idx suite reason c =
     (let c = (if mode c = RunBatchText then c
               else fold (json_write L now) (test_events L now pkg suite [''    '' @ reason @ nl] ''fail'') c)
      in RecordResult L now pkg idx (zero_result\<lparr>Stderr := reason @ nl, ExitCode := 1\<rparr>) c)"

definition RecordStopped :: "library \<Rightarrow> int \<Rightarrow> string \<Rightarrow> nat \<Rightarrow> string \<Rightarrow> collector \<Rightarrow> collector option" where
  "RecordStopped L now pkg idx suite c =
     (let line = ''--- SKIP: '' @ suite @ '' (0.00s)'' @ nl; why = ''    run stopping'' @ nl;
          r = zero_result\<lparr>ExitCode := 1\<rparr>
      in if mode c = RunBatchText then RecordResult L now pkg idx (r\<lparr>Stdout := line @ why\<rparr>) c
         else RecordResult L now pkg idx r (fold (json_write L now) (test_events L now pkg suite [line, why] ''skip'') c))"

definition EmitSkippedSuites :: "library \<Rightarrow> int \<Rightarrow> (string \<times> string list) list \<Rightarrow> collector \<Rightarrow> collector" where
  "EmitSkippedSuites L now skippedByPkg c =
     (if mode c = RunBatchText then c
      else fold (json_write L now)
        (concat (map (\<lambda>(pkg, names). concat (map (\<lambda>name.
           test_events L now pkg (''Test'' @ name)
             [''--- SKIP: Test'' @ name @ '' (0.00s)'' @ nl, ''    test suite was excluded by user'' @ nl] ''skip'') names))
           (sort_key fst skippedByPkg))) c)"

definition anyFailedLocked :: "collector \<Rightarrow> bool" where
  "anyFailedLocked c \<longleftrightarrow> list_ex (\<lambda>(pkg, s). failed_pkg s) (pkgs c)"

text \<open>\<open>Finalize\<close>: the packages still waiting are passed over, the others written.\<close>

definition finalize_pkg :: "library \<Rightarrow> string \<Rightarrow> collector \<Rightarrow> collector" where
  "finalize_pkg L pkg c =
     (let s = state_of c pkg; c = c\<lparr>flushed := flushed c + 1\<rparr>
      in if fixed s \<noteq> [] \<or> (expected s > 0 \<and> completed s \<ge> expected s) then write_text L pkg c else c)"

definition Finalize :: "library \<Rightarrow> collector \<Rightarrow> collector" where
  "Finalize L c =
     (if mode c \<noteq> RunBatchText then c
      else (let c = fold (finalize_pkg L) (drop (flushed c) (order c)) c
            in if anyFailedLocked c then c\<lparr>stdout := stdout c @ ''FAIL'' @ nl\<rparr> else c))"

definition CapturedJSON :: "collector \<Rightarrow> string" where
  "CapturedJSON c = (if mode c = RunCaptureJSON then sw_out (stream c) else [])"

definition UsesTest2JSON :: "collector \<Rightarrow> bool" where "UsesTest2JSON c \<longleftrightarrow> mode c \<noteq> RunBatchText"

definition runFailureEvents :: "library \<Rightarrow> string \<Rightarrow> string \<Rightarrow> string list \<Rightarrow> string" where
  "runFailureEvents L pkg msg details =
     (let ev = (\<lambda>action txt. encode_struct L ([(''Action'', JText action), (''Package'', JText pkg)] @
            (if txt = [] then [] else [(''Output'', JText txt)])) @ nl)
      in ev ''start'' [] @ ev ''output'' (''FAIL: '' @ msg @ nl) @ concat (map (\<lambda>d. ev ''output'' (d @ nl)) details) @ ev ''fail'' [])"

definition bookRunFailure :: "library \<Rightarrow> int \<Rightarrow> string \<Rightarrow> string \<Rightarrow> string list \<Rightarrow> collector \<Rightarrow> collector" where
  "bookRunFailure L now pkg msg details c =
     (if mode c = RunBatchText then c else target_write L now (runFailureEvents L pkg msg details) c)"

definition reportFailure :: "string \<Rightarrow> collector \<Rightarrow> collector" where
  "reportFailure line c = c\<lparr>stderr := stderr c @ line\<rparr>"

text \<open>The events the census and a deadline book go to the target alone.\<close>

definition book_events :: "library \<Rightarrow> int \<Rightarrow> streamEvent list \<Rightarrow> collector \<Rightarrow> collector" where
  "book_events L now evs c = fold (\<lambda>ev. target_write L now (encode_event L ev @ nl)) evs c"

definition collector_census :: "library \<Rightarrow> int \<Rightarrow> census_run \<Rightarrow> DeclaredUnits \<Rightarrow> int \<Rightarrow> bool \<Rightarrow> collector \<Rightarrow> int \<times> collector" where
  "collector_census L now cfg declared code dispatchErr c =
     (let (code, msg, booked) = takeCensus (mode c = RunBatchText) cfg declared code dispatchErr (verdicts c)
      in (code, book_events L now booked (c\<lparr>stderr := stderr c @ msg\<rparr>)))"

definition collector_deadline :: "library \<Rightarrow> int \<Rightarrow> bool \<Rightarrow> collector \<Rightarrow> CensusCase list \<times> collector" where
  "collector_deadline L now expired c =
     (let (running, booked) = bookDeadline expired (mode c = RunBatchText) (cutShort c) (verdicts c)
      in (running, book_events L now booked c))"

end
