(* ===== verification/CollectorProps.thy ===== *)
theory CollectorProps
  imports Collector "HOL-Library.Multiset"
begin

text \<open>
  The text of a run does not depend on the order its results come in; a collector stays well-formed and its
  worst code is the largest reported; the JSON stream opens each package once however it is written.
\<close>

subsection \<open>Text runs\<close>

text \<open>What a run reports in text: a suite's result, or a package's verdict that needs no run.\<close>

datatype text_op = TResult string nat SuiteResult | TFixed string string string

primrec text_step :: "library \<Rightarrow> int \<Rightarrow> text_op \<Rightarrow> collector \<Rightarrow> collector option" where
  "text_step L now (TResult pkg idx r) c = RecordResult L now pkg idx r c"
| "text_step L now (TFixed pkg line action) c = Some (recordFixed L now pkg line action c)"

fun text_run :: "library \<Rightarrow> int \<Rightarrow> text_op list \<Rightarrow> collector \<Rightarrow> collector option" where
  "text_run L now [] c = Some c"
| "text_run L now (x # xs) c = (case text_step L now x c of None \<Rightarrow> None | Some c \<Rightarrow> text_run L now xs c)"

text \<open>The result as the collector keeps it, and what an operation does to its package.\<close>

definition read_result :: "SuiteResult \<Rightarrow> SuiteResult" where
  "read_result r = (let (code, how) = ExitStatusVerdict (ExitCode r)
     in if how \<noteq> [] then r\<lparr>ExitCode := code, Stderr := Stderr r @ ''gotest: suite binary terminated '' @ how @ nl\<rparr> else r)"

primrec op_pkg :: "text_op \<Rightarrow> string" where
  "op_pkg (TResult pkg idx r) = pkg"
| "op_pkg (TFixed pkg line action) = pkg"

primrec op_key :: "text_op \<Rightarrow> string \<times> nat option" where
  "op_key (TResult pkg idx r) = (pkg, Some idx)"
| "op_key (TFixed pkg line action) = (pkg, None)"

primrec op_code :: "text_op \<Rightarrow> int" where
  "op_code (TResult pkg idx r) = ExitCode (read_result r)"
| "op_code (TFixed pkg line action) = 0"

primrec op_state :: "text_op \<Rightarrow> pkgState \<Rightarrow> pkgState" where
  "op_state (TResult pkg idx r) s = s\<lparr>results := (results s)[idx := read_result r], completed := completed s + 1\<rparr>"
| "op_state (TFixed pkg line action) s = s\<lparr>fixed := line\<rparr>"

definition op_states :: "text_op \<Rightarrow> (string \<Rightarrow> pkgState) \<Rightarrow> string \<Rightarrow> pkgState" where
  "op_states x st = st(op_pkg x := op_state x (st (op_pkg x)))"

text \<open>An operation fits the states when its package is known and still waits.\<close>

primrec op_fits :: "text_op \<Rightarrow> (string \<Rightarrow> pkgState) \<Rightarrow> bool" where
  "op_fits (TResult pkg idx r) st \<longleftrightarrow> idx < length (results (st pkg)) \<and> waits (st pkg)"
| "op_fits (TFixed pkg line action) st \<longleftrightarrow> waits (st pkg)"

definition text_of :: "library \<Rightarrow> bool \<Rightarrow> (string \<Rightarrow> pkgState) \<Rightarrow> string list \<Rightarrow> string \<times> string" where
  "text_of L verb st ps = (concat (map (\<lambda>pkg. fst (flushTextPkg L verb (st pkg) pkg)) ps), concat (map (\<lambda>pkg. snd (flushTextPkg L verb (st pkg) pkg)) ps))"

definition ready :: "(string \<Rightarrow> pkgState) \<Rightarrow> string \<Rightarrow> bool" where
  "ready st pkg \<longleftrightarrow> \<not> waits (st pkg)"

definition text_inv :: "library \<Rightarrow> bool \<Rightarrow> string list \<Rightarrow> (string \<Rightarrow> pkgState) \<Rightarrow> int \<Rightarrow> collector \<Rightarrow> bool" where
  "text_inv L verb ps st w c \<longleftrightarrow>
     mode c = RunBatchText \<and> verbose c = verb \<and> order c = ps \<and> distinct (map fst (pkgs c)) \<and> fst ` set (pkgs c) = set ps \<and>
     (\<forall>pkg \<in> set ps. state_of c pkg = st pkg) \<and> flushed c = length (takeWhile (ready st) ps) \<and>
     (stdout c, stderr c) = text_of L verb st (takeWhile (ready st) ps) \<and> worst c = w \<and> 0 \<le> w"

lemma text_of_append:
  "text_of L verb st (as @ bs) = (fst (text_of L verb st as) @ fst (text_of L verb st bs), snd (text_of L verb st as) @ snd (text_of L verb st bs))"
  by (simp add: text_of_def)

lemma text_of_cong: "\<forall>p \<in> set as. st p = st' p \<Longrightarrow> text_of L verb st as = text_of L verb st' as"
  unfolding text_of_def by (metis (mono_tags, lifting) map_eq_conv)

lemma state_of_put [simp]: "state_of (put_state pkg s c) = (state_of c)(pkg := s)"
  by (auto simp: state_of_def put_state_def set_entry_map_of fun_eq_iff)

lemma state_of_updates [simp]:
  "state_of (c\<lparr>stdout := a\<rparr>) = state_of c" "state_of (c\<lparr>stderr := a\<rparr>) = state_of c" "state_of (c\<lparr>flushed := n\<rparr>) = state_of c"
  "state_of (c\<lparr>worst := w\<rparr>) = state_of c" "state_of (c\<lparr>cutShort := cs\<rparr>) = state_of c" "state_of (c\<lparr>order := ps\<rparr>) = state_of c"
  "state_of (c\<lparr>verdicts := x\<rparr>) = state_of c" "state_of (c\<lparr>stream := sw\<rparr>) = state_of c"
  by (simp_all add: state_of_def fun_eq_iff)

lemma put_state_keeps [simp]:
  "mode (put_state pkg s c) = mode c" "verbose (put_state pkg s c) = verbose c" "order (put_state pkg s c) = order c"
  "flushed (put_state pkg s c) = flushed c" "stdout (put_state pkg s c) = stdout c" "stderr (put_state pkg s c) = stderr c"
  "worst (put_state pkg s c) = worst c"
  by (simp_all add: put_state_def)

lemma set_entry_fst: "fst ` set (set_entry k v m) = insert k (fst ` set m)"
proof -
  have "dom (map_of (set_entry k v m)) = insert k (dom (map_of m))" by (simp add: set_entry_map_of)
  then show ?thesis by (simp add: dom_map_of_conv_image_fst)
qed

lemma state_known: "pkg \<in> fst ` set (pkgs c) \<Longrightarrow> map_of (pkgs c) pkg = Some (state_of c pkg)"
  by (cases "map_of (pkgs c) pkg") (auto simp: state_of_def map_of_eq_None_iff)

text \<open>The flush writes the packages that no longer wait, up to the first that does.\<close>

lemma flush_from_writes:
  "flush_from L rest c = (let out = text_of L (verbose c) (state_of c) (takeWhile (ready (state_of c)) rest)
     in c\<lparr>flushed := flushed c + length (takeWhile (ready (state_of c)) rest), stdout := stdout c @ fst out, stderr := stderr c @ snd out\<rparr>)"
proof (induction rest arbitrary: c)
  case Nil
  show ?case by (simp add: text_of_def)
next
  case (Cons pkg rest)
  show ?case
  proof (cases "waits (state_of c pkg)")
    case True
    then show ?thesis by (simp add: ready_def text_of_def)
  next
    case False
    let ?c = "let c = write_text L pkg c in c\<lparr>flushed := flushed c + 1\<rparr>"
    have st: "state_of ?c = state_of c" by (simp add: write_text_def Let_def split: prod.splits)
    have more: "verbose ?c = verbose c" "flushed ?c = flushed c + 1"
      "stdout ?c = stdout c @ fst (flushTextPkg L (verbose c) (state_of c pkg) pkg)"
      "stderr ?c = stderr c @ snd (flushTextPkg L (verbose c) (state_of c pkg) pkg)"
      by (simp_all add: write_text_def Let_def split: prod.splits)
    have "flush_from L (pkg # rest) c = flush_from L rest ?c" using False by simp
    then show ?thesis
      using False unfolding Cons.IH st more Let_def
      by (simp add: ready_def text_of_def write_text_def split: prod.splits)
  qed
qed

lemma takeWhile_ready_mono:
  assumes "\<And>p. ready st p \<Longrightarrow> ready st' p"
  shows "takeWhile (ready st') ps = takeWhile (ready st) ps @ takeWhile (ready st') (drop (length (takeWhile (ready st) ps)) ps)"
proof (induction ps)
  case (Cons p ps)
  then show ?case using assms[of p] by auto
qed simp

lemma flush_keeps_inv:
  assumes "mode c = RunBatchText" "verbose c = verb" "order c = ps" "distinct (map fst (pkgs c))" "fst ` set (pkgs c) = set ps"
    "\<forall>pkg \<in> set ps. state_of c pkg = st' pkg" "worst c = w \<and> 0 \<le> w"
    "flushed c = length (takeWhile (ready st) ps)" "(stdout c, stderr c) = text_of L verb st (takeWhile (ready st) ps)"
    "\<And>p. ready st p \<Longrightarrow> st' p = st p"
  shows "text_inv L verb ps st' w (flushReadyText L c)"
proof -
  let ?done = "takeWhile (ready st) ps"
  let ?rest = "drop (length ?done) ps"
  have mono: "takeWhile (ready st') ps = ?done @ takeWhile (ready st') ?rest"
    using assms(10) by (intro takeWhile_ready_mono) (simp add: ready_def)
  have rest: "set ?rest \<subseteq> set ps" by (rule set_drop_subset)
  have tw: "takeWhile (ready (state_of c)) ?rest = takeWhile (ready st') ?rest"
    using assms(6) rest by (intro takeWhile_cong) (auto simp: ready_def)
  have "set (takeWhile (ready st') ?rest) \<subseteq> set ps" using rest by (auto dest: set_takeWhileD)
  then have out: "text_of L verb (state_of c) (takeWhile (ready st') ?rest) = text_of L verb st' (takeWhile (ready st') ?rest)"
    using assms(6) by (intro text_of_cong) auto
  have same: "text_of L verb st ?done = text_of L verb st' ?done"
    using assms(10) by (intro text_of_cong) (auto dest: set_takeWhileD)
  have f: "flushReadyText L c = c\<lparr>flushed := length (takeWhile (ready st') ps),
      stdout := fst (text_of L verb st' (takeWhile (ready st') ps)), stderr := snd (text_of L verb st' (takeWhile (ready st') ps))\<rparr>"
    using assms(2,3,8,9) unfolding flushReadyText_def flush_from_writes Let_def
    by (simp add: tw out mono text_of_append same[symmetric] prod_eq_iff)
  have s: "state_of (flushReadyText L c) = state_of c" unfolding f by (simp add: state_of_def fun_eq_iff)
  show ?thesis unfolding text_inv_def s unfolding f using assms(1-7) by simp
qed

lemma read_status_text:
  "mode c = RunBatchText \<Longrightarrow> read_status L now pkg r c = (read_result r, c)"
  by (auto simp: read_status_def read_result_def Let_def split: prod.splits)

lemma note_cut_keeps [simp]:
  "mode (note_cut pkg r c) = mode c" "verbose (note_cut pkg r c) = verbose c" "order (note_cut pkg r c) = order c"
  "flushed (note_cut pkg r c) = flushed c" "stdout (note_cut pkg r c) = stdout c" "stderr (note_cut pkg r c) = stderr c"
  "worst (note_cut pkg r c) = worst c" "pkgs (note_cut pkg r c) = pkgs c" "state_of (note_cut pkg r c) = state_of c"
  by (simp_all add: note_cut_def Let_def)

lemma pkgs_put: "pkgs (put_state pkg s c) = set_entry pkg s (pkgs c)"
  by (simp add: put_state_def)

lemma ready_not_op: "op_fits x st \<Longrightarrow> ready st p \<Longrightarrow> op_states x st p = st p"
  by (cases x) (auto simp: op_states_def ready_def)

lemma text_step_inv:
  assumes inv: "text_inv L verb ps st w c" and x: "op_pkg x \<in> set ps" "op_fits x st"
  shows "\<exists>c'. text_step L now x c = Some c' \<and> text_inv L verb ps (op_states x st) (max w (op_code x)) c'"
proof (cases x)
  case (TResult pkg idx r)
  let ?c = "note_cut pkg (read_result r) (if ExitCode (read_result r) > worst c then c\<lparr>worst := ExitCode (read_result r)\<rparr> else c)"
  have c: "mode c = RunBatchText" "pkg \<in> fst ` set (pkgs c)" "state_of c pkg = st pkg"
    using inv x(1) TResult by (auto simp: text_inv_def)
  have "map_of (pkgs c) pkg = Some (st pkg)" using state_known[OF c(2)] c(3) by simp
  moreover have "idx < length (results (st pkg))" using x(2) TResult by simp
  ultimately have step: "text_step L now x c = Some (flushReadyText L (put_state pkg (op_state x (st pkg)) ?c))"
    using c(1) by (simp add: TResult RecordResult_def read_status_text Let_def)
  have "text_inv L verb ps (op_states x st) (max w (op_code x)) (flushReadyText L (put_state pkg (op_state x (st pkg)) ?c))"
  proof (rule flush_keeps_inv)
    show "fst ` set (pkgs (put_state pkg (op_state x (st pkg)) ?c)) = set ps"
      using inv x(1) TResult by (auto simp: text_inv_def pkgs_put set_entry_fst)
    show "distinct (map fst (pkgs (put_state pkg (op_state x (st pkg)) ?c)))"
      using inv by (auto simp: text_inv_def pkgs_put intro!: set_entry_keys)
    show "ready st p \<Longrightarrow> op_states x st p = st p" for p using ready_not_op[OF x(2)] by blast
    show "\<forall>p \<in> set ps. state_of (put_state pkg (op_state x (st pkg)) ?c) p = op_states x st p"
      using inv TResult by (auto simp: text_inv_def op_states_def)
  qed (use inv TResult in \<open>auto simp: text_inv_def\<close>)
  then show ?thesis using step by blast
next
  case (TFixed pkg line action)
  have c: "mode c = RunBatchText" "pkg \<in> fst ` set (pkgs c)" "state_of c pkg = st pkg"
    using inv x(1) TFixed by (auto simp: text_inv_def)
  have "map_of (pkgs c) pkg = Some (st pkg)" using state_known[OF c(2)] c(3) by simp
  then have step: "text_step L now x c = Some (flushReadyText L (put_state pkg (op_state x (st pkg)) c))"
    using c by (simp add: TFixed recordFixed_def Let_def)
  have "text_inv L verb ps (op_states x st) (max w (op_code x)) (flushReadyText L (put_state pkg (op_state x (st pkg)) c))"
  proof (rule flush_keeps_inv)
    show "fst ` set (pkgs (put_state pkg (op_state x (st pkg)) c)) = set ps"
      using inv x(1) TFixed by (auto simp: text_inv_def pkgs_put set_entry_fst)
    show "distinct (map fst (pkgs (put_state pkg (op_state x (st pkg)) c)))"
      using inv by (auto simp: text_inv_def pkgs_put intro!: set_entry_keys)
    show "ready st p \<Longrightarrow> op_states x st p = st p" for p using ready_not_op[OF x(2)] by blast
    show "\<forall>p \<in> set ps. state_of (put_state pkg (op_state x (st pkg)) c) p = op_states x st p"
      using inv TFixed by (auto simp: text_inv_def op_states_def)
  qed (use inv TFixed in \<open>auto simp: text_inv_def\<close>)
  then show ?thesis using step by blast
qed

subsection \<open>Valid reports\<close>

text \<open>Each suite of a package reports once, and a package without suites to run has one verdict.\<close>

primrec op_valid :: "(string \<Rightarrow> nat) \<Rightarrow> text_op \<Rightarrow> bool" where
  "op_valid n (TResult pkg idx r) \<longleftrightarrow> idx < n pkg"
| "op_valid n (TFixed pkg line action) \<longleftrightarrow> n pkg = 0 \<and> line \<noteq> []"

definition valid_ops :: "(string \<Rightarrow> nat) \<Rightarrow> string list \<Rightarrow> text_op list \<Rightarrow> bool" where
  "valid_ops n ps ops \<longleftrightarrow> distinct (map op_key ops) \<and> (\<forall>x \<in> set ops. op_pkg x \<in> set ps \<and> op_valid n x)"

definition result_idx :: "string \<Rightarrow> text_op \<Rightarrow> nat option" where
  "result_idx p x = (case x of TResult pkg idx r \<Rightarrow> if pkg = p then Some idx else None | TFixed _ _ _ \<Rightarrow> None)"

definition states_ok :: "(string \<Rightarrow> nat) \<Rightarrow> text_op list \<Rightarrow> (string \<Rightarrow> pkgState) \<Rightarrow> bool" where
  "states_ok n ops st \<longleftrightarrow> (\<forall>p. expected (st p) = n p \<and> length (results (st p)) = n p \<and>
     completed (st p) = length (List.map_filter (result_idx p) ops) \<and>
     (fixed (st p) \<noteq> [] \<longrightarrow> (\<exists>x \<in> set ops. op_key x = (p, None))))"

lemma map_filter_snoc: "List.map_filter f (xs @ [x]) = List.map_filter f xs @ (case f x of None \<Rightarrow> [] | Some y \<Rightarrow> [y])"
  by (simp add: List.map_filter_def split: option.splits)

lemma states_ok_step: "states_ok n ops st \<Longrightarrow> states_ok n (ops @ [x]) (op_states x st)"
  by (cases x) (auto simp: states_ok_def op_states_def map_filter_snoc result_idx_def split: if_splits)

lemma result_idx_key: "result_idx p x = Some i \<longleftrightarrow> op_key x = (p, Some i)"
  by (cases x) (auto simp: result_idx_def)

lemma distinct_idx:
  "distinct (map op_key ops) \<Longrightarrow> distinct (List.map_filter (result_idx p) ops)"
proof (induction ops)
  case (Cons x ops)
  show ?case
  proof (cases "result_idx p x")
    case None
    then show ?thesis using Cons by (simp add: List.map_filter_simps)
  next
    case (Some i)
    have "i \<notin> set (List.map_filter (result_idx p) ops)"
    proof
      assume "i \<in> set (List.map_filter (result_idx p) ops)"
      then obtain y where "y \<in> set ops" "op_key y = (p, Some i)" by (auto simp: set_map_filter result_idx_key)
      then show False using Cons.prems Some by (auto simp: result_idx_key rev_image_eqI)
    qed
    then show ?thesis using Cons Some by (simp add: List.map_filter_simps)
  qed
qed (simp add: List.map_filter_simps)

lemma op_valid_key: "op_valid n x \<Longrightarrow> op_key x = (p, Some i) \<Longrightarrow> i < n p"
  by (cases x) auto

lemma op_valid_None: "op_valid n x \<Longrightarrow> op_key x = (p, None) \<Longrightarrow> n p = 0"
  by (cases x) auto

text \<open>So every operation finds its package waiting.\<close>

lemma valid_fits:
  assumes "valid_ops n ps (ops @ x # later)" "states_ok n ops st"
  shows "op_pkg x \<in> set ps \<and> op_fits x st"
proof -
  have x: "op_pkg x \<in> set ps" "op_valid n x" and new: "op_key x \<notin> op_key ` set ops" and d: "distinct (map op_key ops)"
    and v: "\<forall>y \<in> set ops. op_valid n y"
    using assms(1) by (auto simp: valid_ops_def)
  have "op_fits x st"
  proof (cases x)
    case (TResult pkg idx r)
    let ?is = "List.map_filter (result_idx pkg) ops"
    have idx: "idx < n pkg" using x(2) TResult by simp
    have "set ?is \<subseteq> {..<n pkg} - {idx}"
    proof
      fix i assume "i \<in> set ?is"
      then obtain y where y: "y \<in> set ops" "op_key y = (pkg, Some i)" by (auto simp: set_map_filter result_idx_key)
      have "i \<noteq> idx" using y new TResult by (metis image_eqI op_key.simps(1))
      moreover have "i < n pkg" using op_valid_key[OF _ y(2)] v y(1) by blast
      ultimately show "i \<in> {..<n pkg} - {idx}" by simp
    qed
    then have "card (set ?is) \<le> card ({..<n pkg} - {idx})" by (intro card_mono) auto
    then have "length ?is < n pkg" using idx distinct_card[OF distinct_idx[OF d, of pkg]] by simp
    moreover have "fixed (st pkg) = []"
    proof (rule ccontr)
      assume "fixed (st pkg) \<noteq> []"
      then obtain y where "y \<in> set ops" "op_key y = (pkg, None)" using assms(2) by (auto simp: states_ok_def)
      then show False using v op_valid_None idx by fastforce
    qed
    ultimately show ?thesis using assms(2) idx TResult by (simp add: states_ok_def waits_def)
  next
    case (TFixed pkg line action)
    have "fixed (st pkg) = []"
    proof (rule ccontr)
      assume "fixed (st pkg) \<noteq> []"
      then obtain y where "y \<in> set ops" "op_key y = (pkg, None)" using assms(2) by (auto simp: states_ok_def)
      then show False using new TFixed by (metis image_eqI op_key.simps(2))
    qed
    then show ?thesis using assms(2) x(2) TFixed by (simp add: states_ok_def waits_def)
  qed
  then show ?thesis using x(1) by simp
qed

lemma text_run_inv:
  assumes "valid_ops n ps (before @ ops)" "states_ok n before st" "text_inv L verb ps st w c"
  shows "\<exists>c'. text_run L now ops c = Some c' \<and> text_inv L verb ps (fold op_states ops st) (fold (\<lambda>x w. max w (op_code x)) ops w) c'"
  using assms
proof (induction ops arbitrary: before st w c)
  case (Cons x ops)
  obtain c1 where c1: "text_step L now x c = Some c1" "text_inv L verb ps (op_states x st) (max w (op_code x)) c1"
    using text_step_inv[OF Cons.prems(3)] valid_fits[OF Cons.prems(1,2)] by blast
  have "valid_ops n ps ((before @ [x]) @ ops)" using Cons.prems(1) by simp
  from Cons.IH[OF this states_ok_step[OF Cons.prems(2)] c1(2)] show ?case using c1(1) by simp
qed simp

subsection \<open>The order of the reports does not matter\<close>

lemma ready_take_filter:
  "filter (ready st) ps = takeWhile (ready st) ps @ filter (ready st) (drop (length (takeWhile (ready st) ps)) ps)"
  by (induction ps) auto

lemma finalize_writes:
  "fold (finalize_pkg L) rest c =
    (let out = text_of L (verbose c) (state_of c) (filter (ready (state_of c)) rest)
     in c\<lparr>flushed := flushed c + length rest, stdout := stdout c @ fst out, stderr := stderr c @ snd out\<rparr>)"
proof (induction rest arbitrary: c)
  case Nil
  show ?case by (simp add: text_of_def)
next
  case (Cons pkg rest)
  have r: "ready (state_of c) pkg \<longleftrightarrow> fixed (state_of c pkg) \<noteq> [] \<or> (expected (state_of c pkg) > 0 \<and> completed (state_of c pkg) \<ge> expected (state_of c pkg))"
    by (auto simp: ready_def waits_def)
  have st: "state_of (finalize_pkg L pkg c) = state_of c" "verbose (finalize_pkg L pkg c) = verbose c"
    by (auto simp: finalize_pkg_def write_text_def Let_def split: prod.splits)
  show ?case
    unfolding fold.simps comp_def Cons.IH st Let_def
    by (auto simp: finalize_pkg_def write_text_def text_of_def Let_def r split: prod.splits)
qed

lemma states_failed:
  assumes "distinct (map fst m)"
  shows "list_ex (\<lambda>(pkg, s). f s) m \<longleftrightarrow> (\<exists>pkg \<in> fst ` set m. f (case map_of m pkg of Some s \<Rightarrow> s | None \<Rightarrow> zero_state))"
  using assms by (force simp: list_ex_iff)

lemma inv_failed:
  assumes "text_inv L verb ps st w c"
  shows "anyFailedLocked c \<longleftrightarrow> (\<exists>pkg \<in> set ps. failed_pkg (st pkg))"
proof -
  have inv: "distinct (map fst (pkgs c))" "fst ` set (pkgs c) = set ps" "\<forall>pkg \<in> set ps. state_of c pkg = st pkg"
    using assms by (auto simp: text_inv_def)
  have "anyFailedLocked c \<longleftrightarrow> (\<exists>pkg \<in> set ps. failed_pkg (state_of c pkg))"
    unfolding anyFailedLocked_def states_failed[OF inv(1)] inv(2) state_of_def ..
  then show ?thesis using inv(3) by simp
qed

lemma inv_Finalize:
  assumes "text_inv L verb ps st w c"
  shows "stdout (Finalize L c) = fst (text_of L verb st (filter (ready st) ps)) @ (if \<exists>pkg \<in> set ps. failed_pkg (st pkg) then ''FAIL'' @ nl else []) \<and>
    stderr (Finalize L c) = snd (text_of L verb st (filter (ready st) ps)) \<and> worst (Finalize L c) = w"
proof -
  let ?rest = "drop (length (takeWhile (ready st) ps)) ps"
  have c: "mode c = RunBatchText" "verbose c = verb" "order c = ps" "flushed c = length (takeWhile (ready st) ps)"
    "\<forall>pkg \<in> set ps. state_of c pkg = st pkg" "worst c = w"
    "(stdout c, stderr c) = text_of L verb st (takeWhile (ready st) ps)"
    using assms by (auto simp: text_inv_def)
  have rest: "set ?rest \<subseteq> set ps" by (rule set_drop_subset)
  have fil: "filter (ready (state_of c)) ?rest = filter (ready st) ?rest"
    using c(5) rest by (intro filter_cong) (auto simp: ready_def)
  have out: "text_of L verb (state_of c) (filter (ready st) ?rest) = text_of L verb st (filter (ready st) ?rest)"
    using c(5) rest by (intro text_of_cong) auto
  have f: "fold (finalize_pkg L) (drop (flushed c) (order c)) c =
    c\<lparr>flushed := length ps, stdout := fst (text_of L verb st (filter (ready st) ps)), stderr := snd (text_of L verb st (filter (ready st) ps))\<rparr>"
    using c unfolding finalize_writes Let_def
    by (simp add: fil out ready_take_filter[of st ps] text_of_append prod_eq_iff length_takeWhile_le)
  have "anyFailedLocked (c\<lparr>flushed := a, stdout := b, stderr := e\<rparr>) = anyFailedLocked c" for a b e by (simp add: anyFailedLocked_def)
  then show ?thesis unfolding Finalize_def f Let_def using c(1,6) inv_failed[OF assms] by simp
qed

text \<open>Two operations with different keys commute.\<close>

lemma op_states_commute:
  "op_key x \<noteq> op_key y \<Longrightarrow> op_states x (op_states y st) = op_states y (op_states x st)"
  by (cases x; cases y) (auto simp: op_states_def fun_eq_iff list_update_swap)

lemma fold_states_perm:
  assumes "mset xs = mset ys" "distinct (map op_key xs)"
  shows "fold op_states xs st = fold op_states ys st"
proof -
  have "fold op_states xs = fold op_states ys"
  proof (rule fold_multiset_equiv[OF _ assms(1)])
    fix x y assume xy: "x \<in> set xs" "y \<in> set xs"
    show "op_states x \<circ> op_states y = op_states y \<circ> op_states x"
    proof (cases "x = y")
      case False
      then have "op_key x \<noteq> op_key y" using xy assms(2) by (auto simp: distinct_map dest: inj_onD)
      then show ?thesis by (auto simp: fun_eq_iff comp_def op_states_commute)
    qed simp
  qed
  then show ?thesis by simp
qed

lemma fold_codes_perm:
  assumes "mset xs = mset ys"
  shows "fold (\<lambda>x w. max w (op_code x)) xs w = fold (\<lambda>x w. max w (op_code x)) ys w"
proof -
  have "fold (\<lambda>x w. max w (op_code x)) xs = fold (\<lambda>x w. max w (op_code x)) ys"
    by (rule fold_multiset_equiv[OF _ assms]) (auto simp: fun_eq_iff)
  then show ?thesis by simp
qed

subsection \<open>The start of a text run\<close>

definition text_start :: "bool \<Rightarrow> string list \<Rightarrow> (string \<times> nat) list \<Rightarrow> collector" where
  "text_start verb ps counts = fold (\<lambda>(pkg, n). Register pkg n) counts (SetFlushOrder ps (NewOutputCollector RunBatchText verb))"

definition count_of :: "(string \<times> nat) list \<Rightarrow> string \<Rightarrow> nat" where
  "count_of counts pkg = (case map_of counts pkg of Some n \<Rightarrow> n | None \<Rightarrow> 0)"

definition start_state :: "(string \<Rightarrow> nat) \<Rightarrow> string \<Rightarrow> pkgState" where
  "start_state n pkg = zero_state\<lparr>expected := n pkg, results := replicate (n pkg) zero_result\<rparr>"

text \<open>Before anything is reported nothing is written, and every package waits.\<close>

definition silent :: "bool \<Rightarrow> string list \<Rightarrow> (string \<Rightarrow> pkgState) \<Rightarrow> collector \<Rightarrow> bool" where
  "silent verb ps st c \<longleftrightarrow> mode c = RunBatchText \<and> verbose c = verb \<and> order c = ps \<and> distinct (map fst (pkgs c)) \<and>
     fst ` set (pkgs c) = set ps \<and> (\<forall>pkg \<in> set ps. state_of c pkg = st pkg) \<and> flushed c = 0 \<and> stdout c = [] \<and> stderr c = [] \<and> worst c = 0"

lemma SetFlushOrder_pkgs:
  assumes "distinct (map fst (pkgs c))"
  shows "distinct (map fst (pkgs (fold (\<lambda>pkg c. if map_of (pkgs c) pkg = None then put_state pkg zero_state c else c) ps c))) \<and>
    fst ` set (pkgs (fold (\<lambda>pkg c. if map_of (pkgs c) pkg = None then put_state pkg zero_state c else c) ps c)) = fst ` set (pkgs c) \<union> set ps \<and>
    state_of (fold (\<lambda>pkg c. if map_of (pkgs c) pkg = None then put_state pkg zero_state c else c) ps c) = state_of c \<and>
    (\<exists>m. fold (\<lambda>pkg c. if map_of (pkgs c) pkg = None then put_state pkg zero_state c else c) ps c = c\<lparr>pkgs := m\<rparr>)"
  using assms
proof (induction ps arbitrary: c)
  case Nil
  show ?case using Nil by (auto intro: exI[of _ "pkgs c"])
next
  case (Cons pkg ps)
  show ?case
  proof (cases "map_of (pkgs c) pkg")
    case None
    have z: "(state_of c)(pkg := zero_state) = state_of c" using None by (auto simp: state_of_def fun_eq_iff)
    have d: "distinct (map fst (pkgs (put_state pkg zero_state c)))" using Cons.prems by (simp add: pkgs_put set_entry_keys)
    note IH = Cons.IH[OF d]
    have "\<exists>m. fold (\<lambda>pkg c. if map_of (pkgs c) pkg = None then put_state pkg zero_state c else c) ps (put_state pkg zero_state c) = c\<lparr>pkgs := m\<rparr>"
      using IH by (auto simp: put_state_def)
    then show ?thesis using IH None by (simp add: z pkgs_put set_entry_fst)
  next
    case (Some s)
    then have "pkg \<in> fst ` set (pkgs c)" by (metis domI dom_map_of_conv_image_fst)
    then show ?thesis using Cons.IH[OF Cons.prems] Some by auto
  qed
qed

lemma SetFlushOrder_silent:
  "silent verb ps (\<lambda>_. zero_state) (SetFlushOrder ps (NewOutputCollector RunBatchText verb))"
proof -
  have s: "state_of (NewOutputCollector RunBatchText verb) = (\<lambda>_. zero_state)" by (simp add: NewOutputCollector_def state_of_def fun_eq_iff)
  have "distinct (map fst (pkgs (NewOutputCollector RunBatchText verb\<lparr>order := ps\<rparr>)))" by (simp add: NewOutputCollector_def)
  from SetFlushOrder_pkgs[OF this, of ps] show ?thesis
    unfolding silent_def SetFlushOrder_def by (auto simp: s) (auto simp: NewOutputCollector_def)
qed

lemma Register_silent:
  assumes "silent verb ps st c" "pkg \<in> set ps"
  shows "silent verb ps (st(pkg := (st pkg)\<lparr>expected := k, results := replicate k zero_result\<rparr>)) (Register pkg k c)"
proof -
  have "pkg \<in> fst ` set (pkgs c)" "state_of c pkg = st pkg" using assms by (auto simp: silent_def)
  then have "Register pkg k c = put_state pkg ((st pkg)\<lparr>expected := k, results := replicate k zero_result\<rparr>) c"
    using state_known by (simp add: Register_def)
  then show ?thesis using assms by (auto simp: silent_def pkgs_put set_entry_fst intro: set_entry_keys)
qed

lemma Registers_silent:
  assumes "silent verb ps st c" "set (map fst counts) \<subseteq> set ps" "distinct (map fst counts)"
  shows "silent verb ps (\<lambda>p. case map_of counts p of Some k \<Rightarrow> (st p)\<lparr>expected := k, results := replicate k zero_result\<rparr> | None \<Rightarrow> st p)
    (fold (\<lambda>(pkg, n). Register pkg n) counts c)"
  using assms
proof (induction counts arbitrary: st c)
  case (Cons x counts)
  obtain pkg k where x: "x = (pkg, k)" by fastforce
  let ?st = "st(pkg := (st pkg)\<lparr>expected := k, results := replicate k zero_result\<rparr>)"
  have "silent verb ps ?st (Register pkg k c)" using Register_silent[OF Cons.prems(1)] Cons.prems(2) x by simp
  from Cons.IH[OF this] have "silent verb ps (\<lambda>p. case map_of counts p of Some k \<Rightarrow> (?st p)\<lparr>expected := k, results := replicate k zero_result\<rparr> | None \<Rightarrow> ?st p)
    (fold (\<lambda>(pkg, n). Register pkg n) counts (Register pkg k c))" using Cons.prems(2,3) x by simp
  moreover have "map_of counts pkg = None" using Cons.prems(3) x by (simp add: map_of_eq_None_iff)
  then have "(\<lambda>p. case map_of counts p of Some k \<Rightarrow> (?st p)\<lparr>expected := k, results := replicate k zero_result\<rparr> | None \<Rightarrow> ?st p) =
      (\<lambda>p. case map_of (x # counts) p of Some k \<Rightarrow> (st p)\<lparr>expected := k, results := replicate k zero_result\<rparr> | None \<Rightarrow> st p)"
    by (auto simp: fun_eq_iff x split: option.splits)
  ultimately show ?case by (simp add: x)
qed simp

lemma text_start_inv:
  assumes "set (map fst counts) \<subseteq> set ps" "distinct (map fst counts)"
  shows "text_inv L verb ps (start_state (count_of counts)) 0 (text_start verb ps counts)"
proof -
  have s: "silent verb ps (\<lambda>p. case map_of counts p of Some k \<Rightarrow> zero_state\<lparr>expected := k, results := replicate k zero_result\<rparr> | None \<Rightarrow> zero_state)
      (text_start verb ps counts)"
    using Registers_silent[OF SetFlushOrder_silent assms] by (simp add: text_start_def)
  have "(\<lambda>p. case map_of counts p of Some k \<Rightarrow> zero_state\<lparr>expected := k, results := replicate k zero_result\<rparr> | None \<Rightarrow> zero_state) = start_state (count_of counts)"
    by (auto simp: fun_eq_iff start_state_def count_of_def zero_state_def split: option.splits)
  then have s': "silent verb ps (start_state (count_of counts)) (text_start verb ps counts)" using s by simp
  have none: "takeWhile (ready (start_state n)) ps = []" for n
    by (cases ps) (auto simp: ready_def waits_def start_state_def zero_state_def)
  show ?thesis using s' unfolding text_inv_def silent_def none by (simp add: text_of_def)
qed

text \<open>C24. In a text run the order the suites' results and the packages' fixed verdicts come in does not
  matter: the collector never panics, and after Finalize standard output is, in the order of the packages and not of their
  arrival, the text of every package whose suites all reported, then FAIL when some suite failed; standard
  error and the worst exit code are the same too.\<close>

theorem text_independent_of_arrival:
  assumes "set (map fst counts) \<subseteq> set ps" "distinct (map fst counts)" "valid_ops (count_of counts) ps xs" "mset xs = mset ys"
  shows "\<exists>c d. text_run L now xs (text_start verb ps counts) = Some c \<and> text_run L now ys (text_start verb ps counts) = Some d \<and>
    stdout (Finalize L c) = concat (map (\<lambda>pkg. fst (flushTextPkg L verb (state_of c pkg) pkg)) (filter (\<lambda>pkg. \<not> waits (state_of c pkg)) ps)) @
      (if anyFailedLocked c then ''FAIL'' @ nl else []) \<and>
    stdout (Finalize L d) = stdout (Finalize L c) \<and> stderr (Finalize L d) = stderr (Finalize L c) \<and> worst d = worst c"
proof -
  let ?n = "count_of counts" and ?st = "start_state (count_of counts)"
  have ok: "states_ok ?n [] ?st" by (simp add: states_ok_def start_state_def zero_state_def List.map_filter_simps)
  note start = text_start_inv[OF assms(1,2), of L verb]
  have "distinct (map op_key ys)" "\<forall>x \<in> set ys. op_pkg x \<in> set ps \<and> op_valid ?n x"
    using assms(3,4) mset_eq_imp_distinct_iff[of "map op_key xs" "map op_key ys"] mset_eq_setD[OF assms(4)] by (auto simp: valid_ops_def)
  then have vy: "valid_ops ?n ps ys" by (simp add: valid_ops_def)
  obtain c where c: "text_run L now xs (text_start verb ps counts) = Some c"
    "text_inv L verb ps (fold op_states xs ?st) (fold (\<lambda>x w. max w (op_code x)) xs 0) c"
    using text_run_inv[OF _ ok start, of xs now] assms(3) by auto
  obtain d where d: "text_run L now ys (text_start verb ps counts) = Some d"
    "text_inv L verb ps (fold op_states ys ?st) (fold (\<lambda>x w. max w (op_code x)) ys 0) d"
    using text_run_inv[OF _ ok start, of ys now] vy by auto
  let ?s = "fold op_states xs ?st"
  have same: "fold op_states ys ?st = ?s" using fold_states_perm[OF assms(4)] assms(3) by (simp add: valid_ops_def)
  have codes: "fold (\<lambda>x w. max w (op_code x)) ys 0 = fold (\<lambda>x w. max w (op_code x)) xs 0" by (rule fold_codes_perm[OF assms(4)[symmetric]])
  note fc = inv_Finalize[OF c(2)] and fd = inv_Finalize[OF d(2)[unfolded same codes]]
  have st: "\<forall>pkg \<in> set ps. state_of c pkg = ?s pkg" "worst c = fold (\<lambda>x w. max w (op_code x)) xs 0" using c(2) by (auto simp: text_inv_def)
  have wd: "worst d = fold (\<lambda>x w. max w (op_code x)) xs 0" using d(2) codes by (simp add: text_inv_def)
  have fil: "filter (\<lambda>pkg. \<not> waits (state_of c pkg)) ps = filter (ready ?s) ps"
    using st by (intro filter_cong) (auto simp: ready_def)
  have "text_of L verb (state_of c) (filter (ready ?s) ps) = text_of L verb ?s (filter (ready ?s) ps)"
    using st by (intro text_of_cong) auto
  then have "concat (map (\<lambda>pkg. fst (flushTextPkg L verb (state_of c pkg) pkg)) (filter (\<lambda>pkg. \<not> waits (state_of c pkg)) ps)) =
      fst (text_of L verb ?s (filter (ready ?s) ps))"
    unfolding fil by (simp add: text_of_def)
  then show ?thesis using c(1) d(1) fc fd st(2) wd inv_failed[OF c(2)] by auto
qed

definition text_example :: library where
  "text_example = \<lparr>decode_event = (\<lambda>_. None), decode_head = (\<lambda>_. None), decode_test = (\<lambda>_. None), encode_event = (\<lambda>_. []),
     encode_fields = (\<lambda>_. []), encode_struct = (\<lambda>_. []), millis = (\<lambda>d. itoa d @ ''.000'')\<rparr>"

lemma text_independent_of_arrival_witness:
  "\<exists>c d. text_run text_example 0 [TResult ''q'' 0 (zero_result\<lparr>ExitCode := - 1\<rparr>), TResult ''p'' 0 zero_result, TFixed ''r'' ''ok'' ''pass'']
        (text_start False [''p'', ''q'', ''r''] [(''p'', 1), (''q'', 1)]) = Some c \<and>
      text_run text_example 0 [TResult ''p'' 0 zero_result, TFixed ''r'' ''ok'' ''pass'', TResult ''q'' 0 (zero_result\<lparr>ExitCode := - 1\<rparr>)]
        (text_start False [''p'', ''q'', ''r''] [(''p'', 1), (''q'', 1)]) = Some d \<and>
      stdout (Finalize text_example d) = stdout (Finalize text_example c) \<and> worst d = worst c"
proof -
  let ?xs = "[TResult ''q'' 0 (zero_result\<lparr>ExitCode := - 1\<rparr>), TResult ''p'' 0 zero_result, TFixed ''r'' ''ok'' ''pass'']"
  let ?ys = "[TResult ''p'' 0 zero_result, TFixed ''r'' ''ok'' ''pass'', TResult ''q'' 0 (zero_result\<lparr>ExitCode := - 1\<rparr>)]"
  have "valid_ops (count_of [(''p'', 1), (''q'', 1)]) [''p'', ''q'', ''r''] ?xs" by (simp add: valid_ops_def count_of_def)
  moreover have "mset ?xs = mset ?ys" by simp
  ultimately show ?thesis
    using text_independent_of_arrival[of "[(''p'', 1), (''q'', 1)]" "[''p'', ''q'', ''r'']" ?xs ?ys text_example 0 False] by auto
qed

subsection \<open>No failure is lost\<close>

text \<open>The collector's operations.\<close>

datatype collector_op =
    OSetFlushOrder "string list"
  | ORegister string nat
  | OResult string nat SuiteResult
  | ONothingToRun string
  | ONoSuite string bool
  | OBuildFailure string string
  | OGivenUp string nat string string
  | OStopped string nat string
  | OSkippedSuites "(string \<times> string list) list"
  | ORunFailure string string "string list"
  | OReport string
  | OFinalize

fun collector_step :: "library \<Rightarrow> int \<Rightarrow> collector_op \<Rightarrow> collector \<Rightarrow> collector option" where
  "collector_step L now (OSetFlushOrder ps) c = Some (SetFlushOrder ps c)"
| "collector_step L now (ORegister pkg n) c = Some (Register pkg n c)"
| "collector_step L now (OResult pkg idx r) c = RecordResult L now pkg idx r c"
| "collector_step L now (ONothingToRun pkg) c = Some (RecordNothingToRun L now pkg c)"
| "collector_step L now (ONoSuite pkg excluded) c = Some (RecordNoSuite L now pkg excluded c)"
| "collector_step L now (OBuildFailure pkg msg) c = RecordBuildFailure L now pkg msg c"
| "collector_step L now (OGivenUp pkg idx suite reason) c = RecordGivenUp L now pkg idx suite reason c"
| "collector_step L now (OStopped pkg idx suite) c = RecordStopped L now pkg idx suite c"
| "collector_step L now (OSkippedSuites sk) c = Some (EmitSkippedSuites L now sk c)"
| "collector_step L now (ORunFailure pkg msg details) c = Some (bookRunFailure L now pkg msg details c)"
| "collector_step L now (OReport line) c = Some (reportFailure line c)"
| "collector_step L now OFinalize c = Some (Finalize L c)"

fun collector_run :: "library \<Rightarrow> (int \<times> collector_op) list \<Rightarrow> collector \<Rightarrow> collector option" where
  "collector_run L [] c = Some c"
| "collector_run L ((now, x) # xs) c = (case collector_step L now x c of None \<Rightarrow> None | Some c \<Rightarrow> collector_run L xs c)"

text \<open>The exit code an operation reports.\<close>

fun reported :: "collector_op \<Rightarrow> int" where
  "reported (OResult pkg idx r) = fst (ExitStatusVerdict (ExitCode r))"
| "reported (OBuildFailure pkg msg) = 2"
| "reported (OGivenUp pkg idx suite reason) = 1"
| "reported (OStopped pkg idx suite) = 1"
| "reported _ = 0"

text \<open>The suite an operation reports, with whose absence it panics.\<close>

fun result_of :: "collector_op \<Rightarrow> (string \<times> nat) option" where
  "result_of (OResult pkg idx r) = Some (pkg, idx)"
| "result_of (OGivenUp pkg idx suite reason) = Some (pkg, idx)"
| "result_of (OStopped pkg idx suite) = Some (pkg, idx)"
| "result_of _ = None"

lemma state_of_pkgs: "pkgs c = pkgs d \<Longrightarrow> state_of c = state_of d"
  by (simp add: state_of_def fun_eq_iff)

definition core_of :: "collector \<Rightarrow> RunMode \<times> (string \<times> pkgState) list \<times> string list \<times> int" where
  "core_of c = (mode c, pkgs c, order c, worst c)"

lemma core_updates [simp]:
  "core_of (c\<lparr>stdout := a\<rparr>) = core_of c" "core_of (c\<lparr>stderr := a\<rparr>) = core_of c" "core_of (c\<lparr>flushed := n\<rparr>) = core_of c"
  "core_of (c\<lparr>cutShort := cs\<rparr>) = core_of c" "core_of (c\<lparr>verdicts := x\<rparr>) = core_of c" "core_of (c\<lparr>stream := sw\<rparr>) = core_of c"
  by (simp_all add: core_of_def)

lemma core_writes [simp]:
  "core_of (target_write L now p c) = core_of c" "core_of (json_write L now p c) = core_of c"
  "core_of (note_cut pkg r c) = core_of c" "core_of (flush_from L rest c) = core_of c" "core_of (flushReadyText L c) = core_of c"
  "core_of (fold (\<lambda>x. json_write L now (f x)) xs c) = core_of c" "core_of (fold (json_write L now) ps c) = core_of c" "core_of (emitJSONPackageSummary L now pkg s c) = core_of c"
proof -
  show t: "core_of (target_write L now p c) = core_of c" for p c by (simp add: target_write_def)
  show j: "core_of (json_write L now p c) = core_of c" for p c by (simp add: json_write_def t)
  show "core_of (fold (\<lambda>x. json_write L now (f x)) xs c) = core_of c" by (induction xs arbitrary: c) (simp_all add: j)
  show "core_of (fold (json_write L now) ps c) = core_of c" for ps by (induction ps arbitrary: c) (simp_all add: j)
  show "core_of (note_cut pkg r c) = core_of c" by (simp add: note_cut_def Let_def)
  show f: "core_of (flush_from L rest c) = core_of c" for rest by (simp add: flush_from_writes Let_def)
  show "core_of (flushReadyText L c) = core_of c" by (simp add: flushReadyText_def f)
  show "core_of (emitJSONPackageSummary L now pkg s c) = core_of c" by (simp add: emitJSONPackageSummary_def Let_def j)
qed

lemma core_mode: "core_of c = core_of d \<Longrightarrow> mode c = mode d \<and> pkgs c = pkgs d \<and> order c = order d \<and> worst c = worst d"
  by (simp add: core_of_def)

text \<open>
  A collector is well-formed when its packages have one entry each, every package of the order has one,
  and no result kept has a code that is negative or above the worst, which is an exit code.
\<close>

definition wf_collector :: "collector \<Rightarrow> bool" where
  "wf_collector c \<longleftrightarrow> distinct (map fst (pkgs c)) \<and> set (order c) \<subseteq> fst ` set (pkgs c) \<and> 0 \<le> worst c \<and> worst c \<le> 255 \<and>
     (\<forall>pkg. \<forall>r \<in> set (results (state_of c pkg)). 0 \<le> ExitCode r \<and> ExitCode r \<le> worst c)"

lemma wf_core: "core_of c = core_of d \<Longrightarrow> wf_collector c = wf_collector d"
  by (auto simp: core_of_def wf_collector_def state_of_def)

lemma verdict_range: "0 \<le> fst (ExitStatusVerdict s) \<and> fst (ExitStatusVerdict s) \<le> 255"
  by (simp add: ExitStatusVerdict_def raceExitCode_def Terminated_def maxExitCode_def)

lemma read_status_core:
  "core_of (snd (read_status L now pkg r c)) = core_of c"
  "ExitCode (fst (read_status L now pkg r c)) = fst (ExitStatusVerdict (ExitCode r))"
  by (auto simp: read_status_def Let_def ExitStatusVerdict_def split: prod.splits if_splits)

lemma wf_put:
  assumes "wf_collector c" "\<forall>r \<in> set (results s). 0 \<le> ExitCode r \<and> ExitCode r \<le> worst c"
  shows "wf_collector (put_state pkg s c)"
  using assms by (auto simp: wf_collector_def pkgs_put set_entry_fst intro: set_entry_keys)

lemma wf_raise: "wf_collector c \<Longrightarrow> 0 \<le> k \<and> k \<le> 255 \<Longrightarrow> wf_collector (c\<lparr>worst := max (worst c) k\<rparr>)"
  by (fastforce simp: wf_collector_def)

lemma wf_order: "wf_collector c \<Longrightarrow> set ps \<subseteq> fst ` set (pkgs c) \<Longrightarrow> wf_collector (c\<lparr>order := ps\<rparr>)"
  by (simp add: wf_collector_def)

lemma zero_code [simp]: "ExitCode zero_result = 0" "results zero_state = []" by (simp_all add: zero_result_def zero_state_def)

lemma RecordResult_wf:
  assumes "wf_collector c"
  shows "(RecordResult L now pkg idx r c = None \<longleftrightarrow> pkg \<notin> fst ` set (pkgs c) \<or> length (results (state_of c pkg)) \<le> idx) \<and>
    (\<forall>c'. RecordResult L now pkg idx r c = Some c' \<longrightarrow> wf_collector c' \<and> worst c' = max (worst c) (fst (ExitStatusVerdict (ExitCode r))))"
proof -
  obtain r1 c1 where s: "read_status L now pkg r c = (r1, c1)" by fastforce
  have core1: "core_of c1 = core_of c" and code: "ExitCode r1 = fst (ExitStatusVerdict (ExitCode r))" using read_status_core[of L now pkg r c] s by simp_all
  let ?c2 = "if ExitCode r1 > worst c1 then c1\<lparr>worst := ExitCode r1\<rparr> else c1"
  let ?c3 = "note_cut pkg r1 ?c2"
  have p1: "pkgs c1 = pkgs c" "worst c1 = worst c" "order c1 = order c" using core_mode[OF core1] by simp_all
  have p3: "pkgs ?c3 = pkgs c" "worst ?c3 = max (worst c) (ExitCode r1)" "order ?c3 = order c" using p1 by auto
  have st: "state_of ?c3 = state_of c" by (rule state_of_pkgs[OF p3(1)])
  have c3: "core_of ?c3 = core_of (c\<lparr>worst := max (worst c) (ExitCode r1)\<rparr>)"
    using core_mode[OF core1] by (auto simp: core_of_def max_def)
  then have wf3: "wf_collector ?c3"
    using wf_raise[OF assms verdict_range[of "ExitCode r"]] wf_core[OF c3] code by simp
  show ?thesis
  proof (cases "map_of (pkgs c) pkg")
    case None
    then have "pkg \<notin> fst ` set (pkgs c)" by (simp add: map_of_eq_None_iff)
    moreover have "RecordResult L now pkg idx r c = None" unfolding RecordResult_def s using None p3(1) by (simp add: Let_def)
    ultimately show ?thesis by simp
  next
    case (Some s0)
    then have known: "pkg \<in> fst ` set (pkgs c)" and s0: "state_of c pkg = s0"
      by (metis domI dom_map_of_conv_image_fst, simp add: state_of_def)
    show ?thesis
    proof (cases "length (results s0) \<le> idx")
      case True
      then have "RecordResult L now pkg idx r c = None" unfolding RecordResult_def s using Some p3(1) by (simp add: Let_def)
      then show ?thesis using True s0 by simp
    next
      case False
      let ?s = "s0\<lparr>results := (results s0)[idx := r1], completed := completed s0 + 1\<rparr>"
      obtain c' where c': "RecordResult L now pkg idx r c = Some c'" "core_of c' = core_of (put_state pkg ?s ?c3)"
        unfolding RecordResult_def s using Some p3(1) False by (simp add: Let_def)
      have "\<forall>x \<in> set (results ?s). 0 \<le> ExitCode x \<and> ExitCode x \<le> worst ?c3"
      proof
        fix x assume "x \<in> set (results ?s)"
        then consider "x = r1" | "x \<in> set (results (state_of ?c3 pkg))" using set_update_subset_insert[of "results s0" idx r1] s0 st by auto
        then show "0 \<le> ExitCode x \<and> ExitCode x \<le> worst ?c3"
          by cases (use verdict_range[of "ExitCode r"] p3(2) code wf3 in \<open>auto simp: wf_collector_def\<close>)
      qed
      then have "wf_collector (put_state pkg ?s ?c3)" using wf_put[OF wf3] by blast
      moreover have "worst (put_state pkg ?s ?c3) = max (worst c) (ExitCode r1)" using p3(2) by simp
      ultimately show ?thesis using c' wf_core[OF c'(2)] core_mode[OF c'(2)] known s0 False code by auto
    qed
  qed
qed

lemma Register_wf:
  assumes "wf_collector c"
  shows "wf_collector (Register pkg k c) \<and> worst (Register pkg k c) = worst c \<and> pkg \<in> fst ` set (pkgs (Register pkg k c)) \<and>
    length (results (state_of (Register pkg k c) pkg)) = k"
proof (cases "map_of (pkgs c) pkg")
  case None
  let ?s = "zero_state\<lparr>expected := k, results := replicate k zero_result\<rparr>"
  have r: "Register pkg k c = (put_state pkg ?s c)\<lparr>order := order c @ [pkg]\<rparr>" using None by (simp add: Register_def)
  have "wf_collector (put_state pkg ?s c)" using assms by (intro wf_put) (auto simp: wf_collector_def)
  moreover have "set (order c @ [pkg]) \<subseteq> fst ` set (pkgs (put_state pkg ?s c))"
    using assms by (auto simp: wf_collector_def pkgs_put set_entry_fst)
  ultimately show ?thesis unfolding r by (simp add: wf_order pkgs_put set_entry_fst)
next
  case (Some s)
  let ?s = "s\<lparr>expected := k, results := replicate k zero_result\<rparr>"
  have r: "Register pkg k c = put_state pkg ?s c" using Some by (simp add: Register_def)
  have "wf_collector (put_state pkg ?s c)" using assms by (intro wf_put) (auto simp: wf_collector_def)
  then show ?thesis unfolding r by (simp add: pkgs_put set_entry_fst)
qed

lemma SetFlushOrder_wf:
  assumes "wf_collector c"
  shows "wf_collector (SetFlushOrder ps c) \<and> worst (SetFlushOrder ps c) = worst c"
proof -
  let ?c = "c\<lparr>order := ps\<rparr>"
  have d: "distinct (map fst (pkgs ?c))" using assms by (simp add: wf_collector_def)
  obtain m where m: "SetFlushOrder ps c = ?c\<lparr>pkgs := m\<rparr>" and k: "distinct (map fst m)" "fst ` set m = fst ` set (pkgs c) \<union> set ps"
    and st: "state_of (?c\<lparr>pkgs := m\<rparr>) = state_of c"
    using SetFlushOrder_pkgs[OF d, of ps] by (auto simp: SetFlushOrder_def)
  show ?thesis unfolding m wf_collector_def st using assms k by (simp add: wf_collector_def)
qed

lemma recordFixed_wf:
  assumes "wf_collector c"
  shows "wf_collector (recordFixed L now pkg line action c) \<and> worst (recordFixed L now pkg line action c) = worst c"
proof -
  let ?c1 = "if map_of (pkgs c) pkg = None then (put_state pkg zero_state c)\<lparr>order := order c @ [pkg]\<rparr> else c"
  have w1: "wf_collector ?c1"
  proof (cases "map_of (pkgs c) pkg")
    case None
    have "wf_collector (put_state pkg zero_state c)" using assms by (intro wf_put) auto
    moreover have "set (order c @ [pkg]) \<subseteq> fst ` set (pkgs (put_state pkg zero_state c))"
      using assms by (auto simp: wf_collector_def pkgs_put set_entry_fst)
    ultimately show ?thesis using None by (simp add: wf_order)
  qed (use assms in simp)
  have "wf_collector (put_state pkg ((state_of ?c1 pkg)\<lparr>fixed := line\<rparr>) ?c1)" using w1 by (intro wf_put) (auto simp: wf_collector_def)
  moreover have core: "core_of (recordFixed L now pkg line action c) = core_of (put_state pkg ((state_of ?c1 pkg)\<lparr>fixed := line\<rparr>) ?c1)"
    unfolding recordFixed_def Let_def by simp
  moreover have "worst (put_state pkg ((state_of ?c1 pkg)\<lparr>fixed := line\<rparr>) ?c1) = worst c" by simp
  ultimately show ?thesis using wf_core[OF core] core_mode[OF core] by simp
qed

lemma Finalize_core: "core_of (Finalize L c) = core_of c"
  by (simp add: Finalize_def Let_def finalize_writes)

lemma RecordBuildFailure_wf:
  assumes "wf_collector c"
  shows "\<exists>c'. RecordBuildFailure L now pkg msg c = Some c' \<and> wf_collector c' \<and> worst c' = max (worst c) 2"
proof -
  let ?c1 = "Register pkg 1 c"
  let ?c2 = "put_state pkg ((state_of ?c1 pkg)\<lparr>failedBuild := buildName pkg msg\<rparr>) ?c1"
  let ?r = "zero_result\<lparr>Stderr := msg, ExitCode := 2\<rparr>"
  obtain c3 where c3: "RecordBuildFailure L now pkg msg c = RecordResult L now pkg 0 ?r c3" "core_of c3 = core_of ?c2"
    by (simp add: RecordBuildFailure_def Let_def)
  have "wf_collector ?c2" using Register_wf[OF assms, of pkg 1] by (intro wf_put) (auto simp: wf_collector_def)
  then have w3: "wf_collector c3" using wf_core[OF c3(2)] by simp
  have p3: "pkgs c3 = pkgs ?c2" "worst c3 = worst c" using core_mode[OF c3(2)] Register_wf[OF assms, of pkg 1] by simp_all
  have "state_of c3 pkg = (state_of ?c1 pkg)\<lparr>failedBuild := buildName pkg msg\<rparr>" using state_of_pkgs[OF p3(1)] by simp
  then have len: "length (results (state_of c3 pkg)) = 1" using Register_wf[OF assms, of pkg 1] by simp
  have "pkg \<in> fst ` set (pkgs c3)" unfolding p3(1) by (simp add: pkgs_put set_entry_fst)
  then obtain c' where "RecordResult L now pkg 0 ?r c3 = Some c'" using RecordResult_wf[OF w3, of L now pkg 0 ?r] len by fastforce
  moreover have "fst (ExitStatusVerdict 2) = 2" by (simp add: ExitStatusVerdict_def raceExitCode_def Terminated_def maxExitCode_def)
  ultimately show ?thesis using c3(1) RecordResult_wf[OF w3, of L now pkg 0 ?r] p3(2) by auto
qed

lemma verdict_one [simp]: "ExitStatusVerdict 1 = (1, [])"
  by (simp add: ExitStatusVerdict_def raceExitCode_def Terminated_def maxExitCode_def)

text \<open>One operation: it panics only for a suite that was never registered, and otherwise keeps the
  collector well-formed and raises the worst code to the one it reports.\<close>

lemma collector_step_wf:
  assumes "wf_collector c"
  shows "(collector_step L now x c = None \<longleftrightarrow> (case result_of x of None \<Rightarrow> False
      | Some (pkg, idx) \<Rightarrow> pkg \<notin> fst ` set (pkgs c) \<or> length (results (state_of c pkg)) \<le> idx)) \<and>
    (\<forall>c'. collector_step L now x c = Some c' \<longrightarrow> wf_collector c' \<and> worst c' = max (worst c) (reported x))"
proof -
  have nonneg: "max (worst c) 0 = worst c" using assms by (simp add: wf_collector_def)
  have core: "wf_collector c' \<and> worst c' = max (worst c) 0" if "core_of c' = core_of c" for c'
    using wf_core[OF that] core_mode[OF that] assms nonneg by simp
  have result: "(RecordResult L now pkg idx r d = None \<longleftrightarrow> pkg \<notin> fst ` set (pkgs c) \<or> length (results (state_of c pkg)) \<le> idx) \<and>
    (\<forall>c'. RecordResult L now pkg idx r d = Some c' \<longrightarrow> wf_collector c' \<and> worst c' = max (worst c) (fst (ExitStatusVerdict (ExitCode r))))"
    if d: "core_of d = core_of c" for d pkg idx r
  proof -
    have "wf_collector d" "pkgs d = pkgs c" "worst d = worst c" using wf_core[OF d] core_mode[OF d] assms by simp_all
    then show ?thesis using RecordResult_wf[of d L now pkg idx r] state_of_pkgs[of d c] by simp
  qed
  show ?thesis
  proof (cases x)
    case (OSetFlushOrder ps)
    then show ?thesis using SetFlushOrder_wf[OF assms] nonneg by simp
  next
    case (ORegister pkg n)
    then show ?thesis using Register_wf[OF assms] nonneg by simp
  next
    case (OResult pkg idx r)
    then show ?thesis using result[of c pkg idx r] by simp
  next
    case (ONothingToRun pkg)
    then show ?thesis using recordFixed_wf[OF assms] nonneg by (simp add: RecordNothingToRun_def)
  next
    case (ONoSuite pkg excluded)
    then show ?thesis using recordFixed_wf[OF assms] nonneg by (simp add: RecordNoSuite_def RecordNothingToRun_def)
  next
    case (OBuildFailure pkg msg)
    then show ?thesis using RecordBuildFailure_wf[OF assms, of L now pkg msg] by auto
  next
    case (OGivenUp pkg idx suite reason)
    then show ?thesis using result[of "if mode c = RunBatchText then c
      else fold (json_write L now) (test_events L now pkg suite [''    '' @ reason @ nl] ''fail'') c" pkg idx "zero_result\<lparr>Stderr := reason @ nl, ExitCode := 1\<rparr>"]
      by (simp add: RecordGivenUp_def)
  next
    case (OStopped pkg idx suite)
    let ?line = "''--- SKIP: '' @ suite @ '' (0.00s)'' @ nl" and ?why = "''    run stopping'' @ nl"
    show ?thesis
    proof (cases "mode c = RunBatchText")
      case True
      then have "collector_step L now x c = RecordResult L now pkg idx (zero_result\<lparr>ExitCode := 1, Stdout := ?line @ ?why\<rparr>) c"
        by (simp add: OStopped RecordStopped_def Let_def)
      then show ?thesis using result[of c pkg idx "zero_result\<lparr>ExitCode := 1, Stdout := ?line @ ?why\<rparr>"] by (simp add: OStopped)
    next
      case False
      let ?d = "fold (json_write L now) (test_events L now pkg suite [?line, ?why] ''skip'') c"
      have "collector_step L now x c = RecordResult L now pkg idx (zero_result\<lparr>ExitCode := 1\<rparr>) ?d"
        using False unfolding OStopped collector_step.simps RecordStopped_def Let_def by (simp only: if_False)
      then show ?thesis using result[of ?d pkg idx "zero_result\<lparr>ExitCode := 1\<rparr>"] by (simp add: OStopped)
    qed
  next
    case (OSkippedSuites sk)
    then show ?thesis using core[of "EmitSkippedSuites L now sk c"] by (simp add: EmitSkippedSuites_def)
  next
    case (ORunFailure pkg msg details)
    then show ?thesis using core[of "bookRunFailure L now pkg msg details c"] by (simp add: bookRunFailure_def)
  next
    case (OReport line)
    then show ?thesis using core[of "reportFailure line c"] by (simp add: reportFailure_def)
  next
    case OFinalize
    then show ?thesis using core[OF Finalize_core] by simp
  qed
qed

lemma collector_run_wf:
  "wf_collector c \<Longrightarrow> collector_run L ops c = Some c' \<Longrightarrow> wf_collector c' \<and> worst c' = fold (\<lambda>(now, x) w. max w (reported x)) ops (worst c)"
proof (induction ops arbitrary: c)
  case (Cons y ops)
  obtain now x where y: "y = (now, x)" by fastforce
  obtain c1 where c1: "collector_step L now x c = Some c1" "collector_run L ops c1 = Some c'"
    using Cons.prems(2) by (auto simp: y split: option.splits)
  have "wf_collector c1" "worst c1 = max (worst c) (reported x)" using collector_step_wf[OF Cons.prems(1), of L now x] c1(1) by auto
  then show ?case using Cons.IH[OF _ c1(2)] by (simp add: y)
qed simp

lemma fold_max_reported:
  "fold (\<lambda>(now, x) w. max w (reported x)) ops w = fold max (map (\<lambda>(now, x). reported x) ops) w"
  by (induction ops arbitrary: w) (auto simp: max.commute)

lemma fold_max_zero: "fold max ks (0 :: int) \<le> 0 \<longleftrightarrow> (\<forall>k \<in> set ks. k \<le> 0)"
proof -
  have "fold max ks w \<le> 0 \<longleftrightarrow> w \<le> 0 \<and> (\<forall>k \<in> set ks. k \<le> 0)" for w :: int by (induction ks arbitrary: w) auto
  then show ?thesis by simp
qed

text \<open>C25. Whatever is reported to a new collector, in whatever order, it stays well-formed and its worst exit code
  is the largest code reported, from 0 to 255: it is 0 only when nothing failed, so a collector that holds a
  failed result never ends a run with 0; and the next operation panics exactly when it reports a suite
  that was never registered.\<close>

theorem collector_well_formed:
  assumes "collector_run L ops (NewOutputCollector m verb) = Some c"
  shows "wf_collector c \<and> worst c = fold max (map (\<lambda>(now, x). reported x) ops) 0 \<and>
    (worst c = 0 \<longleftrightarrow> list_all (\<lambda>(now, x). reported x = 0) ops) \<and> (anyFailedLocked c \<longrightarrow> 0 < worst c) \<and>
    (\<forall>now x. collector_step L now x c = None \<longleftrightarrow> (case result_of x of None \<Rightarrow> False
      | Some (pkg, idx) \<Rightarrow> pkg \<notin> fst ` set (pkgs c) \<or> length (results (state_of c pkg)) \<le> idx))"
proof -
  have new: "wf_collector (NewOutputCollector m verb)" "worst (NewOutputCollector m verb) = 0"
    by (simp_all add: wf_collector_def NewOutputCollector_def state_of_def)
  have w: "wf_collector c" "worst c = fold max (map (\<lambda>(now, x). reported x) ops) 0"
    using collector_run_wf[OF new(1) assms] new(2) by (simp_all add: fold_max_reported)
  have nonneg: "0 \<le> reported x" for x using verdict_range by (cases x rule: reported.cases) auto
  have "0 \<le> worst c" using w(1) by (simp add: wf_collector_def)
  then have zero: "worst c = 0 \<longleftrightarrow> list_all (\<lambda>(now, x). reported x = 0) ops"
    using fold_max_zero[of "map (\<lambda>(now, x). reported x) ops"] nonneg unfolding w(2) by (fastforce simp: list_all_iff order_antisym)
  have any: "0 < worst c" if a: "anyFailedLocked c"
  proof -
    have d: "distinct (map fst (pkgs c))" using w(1) by (simp add: wf_collector_def)
    obtain pkg where "failed_pkg (state_of c pkg)" using a states_failed[OF d, of failed_pkg] by (auto simp: anyFailedLocked_def state_of_def)
    then obtain r where "r \<in> set (results (state_of c pkg))" "ExitCode r \<noteq> 0" by (auto simp: failed_pkg_def list_ex_iff)
    then show ?thesis using w(1) unfolding wf_collector_def by fastforce
  qed
  show ?thesis using w zero any collector_step_wf[OF w(1)] by blast
qed

lemma collector_well_formed_witness:
  "\<exists>c. collector_run text_example [(1, ORegister ''p'' 2), (2, OResult ''p'' 1 zero_result), (3, OGivenUp ''p'' 0 ''TestA'' ''no fixture'')]
     (NewOutputCollector RunBatchText False) = Some c \<and> worst c = 1"
proof -
  let ?ops = "[(1, ORegister ''p'' 2), (2, OResult ''p'' 1 zero_result), (3, OGivenUp ''p'' 0 ''TestA'' ''no fixture'')]"
  have "\<not> Option.is_none (collector_run text_example ?ops (NewOutputCollector RunBatchText False))" by code_simp
  then obtain c where c: "collector_run text_example ?ops (NewOutputCollector RunBatchText False) = Some c"
    by (cases "collector_run text_example ?ops (NewOutputCollector RunBatchText False)") simp_all
  have "fst (ExitStatusVerdict 0) = 0" by (simp add: ExitStatusVerdict_def raceExitCode_def Terminated_def maxExitCode_def)
  then show ?thesis using collector_well_formed[OF c] c by simp
qed

subsection \<open>The stream opens each package once\<close>

text \<open>The lines of a text, each with its newline; the actions of one package's events in order.\<close>

definition stream_lines :: "string \<Rightarrow> string list" where
  "stream_lines out = map (\<lambda>l. l @ nl) (butlast (split_byte CHR 0x0A out))"

definition action_in :: "library \<Rightarrow> string \<Rightarrow> string \<Rightarrow> string option" where
  "action_in L pkg l = (case decode_head L l of Some (tm, a, q) \<Rightarrow> if q = pkg then Some a else None | None \<Rightarrow> None)"

definition actions_of :: "library \<Rightarrow> string \<Rightarrow> string list \<Rightarrow> string list" where
  "actions_of L pkg ls = List.map_filter (action_in L pkg) ls"

definition opens :: "library \<Rightarrow> string \<Rightarrow> bool" where
  "opens L l \<longleftrightarrow> (case decode_head L l of Some (tm, a, q) \<Rightarrow> a = ''start'' \<and> q \<noteq> [] | None \<Rightarrow> False)"

text \<open>A package's events open with its start, and no other start follows.\<close>

definition opened_once :: "string list \<Rightarrow> bool" where
  "opened_once as \<longleftrightarrow> (case as of [] \<Rightarrow> True | a # rest \<Rightarrow> a = ''start'' \<and> ''start'' \<notin> set rest)"

text \<open>What the writer relies on of \<^verbatim>\<open>encoding/json\<close>: marshalled maps hold no newline, and an event made
  for a package that was read is read as one of that package.\<close>

definition json_ok :: "library \<Rightarrow> bool" where
  "json_ok L \<longleftrightarrow> (\<forall>kvs. CHR 0x0A \<notin> set (encode_fields L kvs)) \<and>
     (\<forall>l tm a pkg t. decode_head L l = Some (tm, a, pkg) \<longrightarrow>
        (\<exists>tm'. decode_head L (json_line L [(''Time'', t), (''Action'', JText ''start''), (''Package'', JText pkg)]) = Some (tm', ''start'', pkg)))"

definition is_line :: "string \<Rightarrow> bool" where
  "is_line l \<longleftrightarrow> (\<exists>t. l = t @ nl \<and> CHR 0x0A \<notin> set t)"

lemma split_byte_concat:
  "\<forall>l \<in> set ls. is_line l \<Longrightarrow> split_byte CHR 0x0A (concat ls) = map butlast ls @ [[]]"
proof (induction ls)
  case (Cons l ls)
  then obtain t where t: "l = t @ nl" "CHR 0x0A \<notin> set t" by (auto simp: is_line_def)
  have "split_byte c (t @ c # b) = t # split_byte c b" if "c \<notin> set t" for t b and c :: char
    using that by (induction t) auto
  then show ?case using Cons t by simp
qed simp

lemma stream_lines_concat:
  assumes "\<forall>l \<in> set ls. is_line l"
  shows "stream_lines (concat ls) = ls"
proof -
  have "map (\<lambda>l. l @ nl) (map butlast ls) = ls" using assms by (induction ls) (auto simp: is_line_def)
  then show ?thesis using split_byte_concat[OF assms] by (simp add: stream_lines_def)
qed

lemma stream_lines_are: "l \<in> set (stream_lines out) \<Longrightarrow> is_line l"
  unfolding stream_lines_def is_line_def using split_byte_no_sep by (auto dest!: in_set_butlastD)

lemma stream_lines_append:
  "stream_lines (a @ b) = stream_lines a @ map (\<lambda>l. l @ nl) (butlast (split_byte CHR 0x0A (last (split_byte CHR 0x0A a) @ b)))"
  unfolding stream_lines_def by (subst split_byte_append) (simp add: butlast_append)

text \<open>What holds of the writer once some lines went in: what came out, and the packages opened.\<close>

definition writer_inv :: "library \<Rightarrow> string list \<Rightarrow> startWriter \<Rightarrow> bool" where
  "writer_inv L ins s \<longleftrightarrow> (\<exists>outs. sw_out s = concat outs \<and> (\<forall>l \<in> set outs. is_line l) \<and>
     (\<forall>pkg. pkg \<noteq> [] \<longrightarrow> opened_once (actions_of L pkg outs)) \<and>
     (\<forall>pkg. pkg \<in> sw_started s \<longleftrightarrow> pkg \<noteq> [] \<and> actions_of L pkg outs \<noteq> []) \<and>
     filter (\<lambda>l. \<not> opens L l) outs = filter (\<lambda>l. \<not> opens L l) ins)"

lemma actions_of_append: "actions_of L pkg (xs @ ys) = actions_of L pkg xs @ actions_of L pkg ys"
  by (simp add: actions_of_def List.map_filter_def)

lemma actions_of_one: "actions_of L pkg [l] = (case action_in L pkg l of None \<Rightarrow> [] | Some a \<Rightarrow> [a])"
  by (simp add: actions_of_def List.map_filter_simps split: option.splits)

lemma opened_once_snoc: "opened_once as \<Longrightarrow> (as = [] \<longleftrightarrow> a = ''start'') \<Longrightarrow> opened_once (as @ [a])"
  by (cases as) (auto simp: opened_once_def)

lemma writeLine_inv:
  assumes ok: "json_ok L" and inv: "writer_inv L ins s" and l: "is_line l"
  shows "writer_inv L (ins @ [l]) (writeLine L now l s)"
proof -
  obtain outs where o: "sw_out s = concat outs" "\<forall>l \<in> set outs. is_line l" "\<forall>pkg. pkg \<noteq> [] \<longrightarrow> opened_once (actions_of L pkg outs)"
    "\<forall>pkg. pkg \<in> sw_started s \<longleftrightarrow> pkg \<noteq> [] \<and> actions_of L pkg outs \<noteq> []" "filter (\<lambda>l. \<not> opens L l) outs = filter (\<lambda>l. \<not> opens L l) ins"
    using inv by (auto simp: writer_inv_def)
  show ?thesis
  proof (cases "decode_head L l")
    case None
    then show ?thesis unfolding writer_inv_def using o l
      by (intro exI[of _ "outs @ [l]"]) (simp add: writeLine_def actions_of_append actions_of_one action_in_def opens_def)
  next
    case (Some head)
    obtain tm a pkg where head: "head = (tm, a, pkg)" by (metis prod_cases3)
    have act: "action_in L q l = (if q = pkg then Some a else None)" for q using Some head by (auto simp: action_in_def)
    have op: "opens L l \<longleftrightarrow> a = ''start'' \<and> pkg \<noteq> []" using Some head by (simp add: opens_def)
    consider (anon) "pkg = []" | (fresh) "pkg \<noteq> []" "pkg \<notin> sw_started s" "a = ''start''"
      | (first) "pkg \<noteq> []" "pkg \<notin> sw_started s" "a \<noteq> ''start''"
      | (again) "pkg \<noteq> []" "pkg \<in> sw_started s" "a = ''start''"
      | (event) "pkg \<noteq> []" "pkg \<in> sw_started s" "a \<noteq> ''start''" by blast
    then show ?thesis
    proof cases
      case anon
      then have w: "writeLine L now l s = s\<lparr>sw_out := sw_out s @ l\<rparr>" using Some head by (simp add: writeLine_def)
      show ?thesis unfolding writer_inv_def w using o l anon
        by (intro exI[of _ "outs @ [l]"]) (auto simp: actions_of_append actions_of_one act op)
    next
      case fresh
      then have w: "writeLine L now l s = s\<lparr>sw_started := insert pkg (sw_started s), sw_out := sw_out s @ l\<rparr>"
        using Some head by (simp add: writeLine_def)
      have none: "actions_of L pkg outs = []" using o(4) fresh by blast
      show ?thesis unfolding writer_inv_def w using o l fresh none
        by (intro exI[of _ "outs @ [l]"]) (auto simp: actions_of_append actions_of_one act op opened_once_def)
    next
      case first
      let ?t = "if tm = [] then JNow now else JRaw tm"
      let ?e = "json_line L [(''Time'', ?t), (''Action'', JText ''start''), (''Package'', JText pkg)]"
      obtain tm' where e: "decode_head L ?e = Some (tm', ''start'', pkg)" using ok Some head unfolding json_ok_def by blast
      have e': "is_line ?e" "action_in L q ?e = (if q = pkg then Some ''start'' else None)" "opens L ?e" for q
        using ok e first(1) by (auto simp: json_ok_def is_line_def json_line_def[symmetric] action_in_def opens_def) (auto simp: json_line_def)
      have w: "writeLine L now l s = s\<lparr>sw_started := insert pkg (sw_started s), sw_out := sw_out s @ ?e @ l\<rparr>"
        using Some head first by (simp add: writeLine_def)
      have none: "actions_of L pkg outs = []" using o(4) first by blast
      have acts: "actions_of L q (outs @ [?e, l]) = actions_of L q outs @ (if q = pkg then [''start'', a] else [])" for q
        using actions_of_append[of L q "outs @ [?e]" "[l]"] by (simp add: actions_of_append actions_of_one act e'(2))
      have out: "sw_out s @ ?e @ l = concat (outs @ [?e, l])" using o(1) by simp
      show ?thesis unfolding writer_inv_def w using o l first none e'(1,3)
        by (intro exI[of _ "outs @ [?e, l]"]) (auto simp: acts op opened_once_def out)
    next
      case again
      then have w: "writeLine L now l s = s" using Some head by (simp add: writeLine_def)
      show ?thesis unfolding writer_inv_def w using o again by (intro exI[of _ outs]) (simp add: op)
    next
      case event
      then have w: "writeLine L now l s = s\<lparr>sw_out := sw_out s @ l\<rparr>" using Some head by (simp add: writeLine_def)
      have some: "actions_of L pkg outs \<noteq> []" using o(4) event by blast
      then have "opened_once (actions_of L pkg outs @ [a])" using o(3) event opened_once_snoc by blast
      then show ?thesis unfolding writer_inv_def w using o l event some
        by (intro exI[of _ "outs @ [l]"]) (auto simp: actions_of_append actions_of_one act op)
    qed
  qed
qed

lemma writeLines_inv:
  "json_ok L \<Longrightarrow> writer_inv L ins s \<Longrightarrow> \<forall>l \<in> set ls. CHR 0x0A \<notin> set l \<Longrightarrow>
   writer_inv L (ins @ map (\<lambda>l. l @ nl) ls) (fold (\<lambda>l. writeLine L now (l @ nl)) ls s)"
proof (induction ls arbitrary: ins s)
  case (Cons l ls)
  have "writer_inv L (ins @ [l @ nl]) (writeLine L now (l @ nl) s)" using Cons.prems by (intro writeLine_inv) (auto simp: is_line_def)
  then show ?case using Cons.IH[of "ins @ [l @ nl]"] Cons.prems by simp
qed simp

lemma start_writes_inv:
  assumes "json_ok L"
  shows "writer_inv L (stream_lines (concat (map snd chunks))) (fold (\<lambda>(now, p). start_write L now p) chunks \<lparr>sw_out = [], sw_buf = [], sw_started = {}\<rparr>) \<and>
    sw_buf (fold (\<lambda>(now, p). start_write L now p) chunks \<lparr>sw_out = [], sw_buf = [], sw_started = {}\<rparr>) = last (split_byte CHR 0x0A (concat (map snd chunks)))"
proof (induction chunks rule: rev_induct)
  case Nil
  show ?case by (auto simp: writer_inv_def stream_lines_def actions_of_def List.map_filter_simps opened_once_def intro: exI[of _ "[]"])
next
  case (snoc ch chunks)
  obtain now p where ch: "ch = (now, p)" by fastforce
  let ?s = "fold (\<lambda>(now, p). start_write L now p) chunks \<lparr>sw_out = [], sw_buf = [], sw_started = {}\<rparr>"
  let ?in = "concat (map snd chunks)"
  let ?ls = "split_byte CHR 0x0A (sw_buf ?s @ p)"
  have "writer_inv L (stream_lines ?in @ map (\<lambda>l. l @ nl) (butlast ?ls)) (fold (\<lambda>l. writeLine L now (l @ nl)) (butlast ?ls) ?s)"
    using assms snoc by (intro writeLines_inv) (auto dest!: in_set_butlastD split_byte_no_sep)
  then have "writer_inv L (stream_lines (?in @ p)) ((fold (\<lambda>l. writeLine L now (l @ nl)) (butlast ?ls) ?s)\<lparr>sw_buf := last ?ls\<rparr>)"
    using snoc by (simp add: stream_lines_append writer_inv_def)
  moreover have w: "fold (\<lambda>(now, p). start_write L now p) (chunks @ [ch]) \<lparr>sw_out = [], sw_buf = [], sw_started = {}\<rparr> =
      (fold (\<lambda>l. writeLine L now (l @ nl)) (butlast ?ls) ?s)\<lparr>sw_buf := last ?ls\<rparr>"
    unfolding ch fold_append comp_def fold.simps by (simp only: prod.case id_apply start_write_def Let_def)
  moreover have "concat (map snd (chunks @ [ch])) = ?in @ p" by (simp add: ch)
  moreover have "last ?ls = last (split_byte CHR 0x0A (?in @ p))" using snoc last_split_byte_append[of _ ?in p] by simp
  ultimately show ?case by simp
qed

text \<open>C26. However the JSON stream is cut into writes, what comes out is whole lines in which every package's
  events open with exactly one start and none follows, every line that is no start passed on in order,
  and the unfinished last line waits.\<close>

theorem stream_opens_packages_once:
  assumes "json_ok L" "s = fold (\<lambda>(now, p). start_write L now p) chunks \<lparr>sw_out = [], sw_buf = [], sw_started = {}\<rparr>"
  shows "(\<forall>pkg. pkg \<noteq> [] \<longrightarrow> opened_once (actions_of L pkg (stream_lines (sw_out s)))) \<and>
    filter (\<lambda>l. \<not> opens L l) (stream_lines (sw_out s)) = filter (\<lambda>l. \<not> opens L l) (stream_lines (concat (map snd chunks))) \<and>
    concat (stream_lines (sw_out s)) = sw_out s \<and> sw_buf s = last (split_byte CHR 0x0A (concat (map snd chunks)))"
proof -
  obtain outs where o: "sw_out s = concat outs" "\<forall>l \<in> set outs. is_line l" "\<forall>pkg. pkg \<noteq> [] \<longrightarrow> opened_once (actions_of L pkg outs)"
    "filter (\<lambda>l. \<not> opens L l) outs = filter (\<lambda>l. \<not> opens L l) (stream_lines (concat (map snd chunks)))"
    using start_writes_inv[OF assms(1), of chunks] unfolding assms(2)[symmetric] writer_inv_def by blast
  show ?thesis
    using o start_writes_inv[OF assms(1), of chunks] unfolding assms(2)[symmetric] by (simp add: stream_lines_concat[OF o(2)])
qed

definition stream_example :: library where
  "stream_example = text_example\<lparr>
     decode_head := (\<lambda>l. case cut (takeWhile (\<lambda>c. c \<noteq> CHR 0x0A) l) '' '' of None \<Rightarrow> None | Some (a, pkg) \<Rightarrow> Some ([], a, pkg)),
     encode_fields := (\<lambda>kvs. filter (\<lambda>c. c \<noteq> CHR 0x0A) (case kvs of [(_, _), (_, JText a), (_, JText pkg)] \<Rightarrow> a @ '' '' @ pkg | _ \<Rightarrow> []))\<rparr>"

lemma stream_opens_packages_once_witness:
  "concat (stream_lines (sw_out (fold (\<lambda>(now, p). start_write stream_example now p) [(1, ''out''), (2, '' p'' @ nl @ ''sta'')]
     \<lparr>sw_out = [], sw_buf = [], sw_started = {}\<rparr>))) = ''start p'' @ nl @ ''out p'' @ nl"
proof -
  let ?s = "fold (\<lambda>(now, p). start_write stream_example now p) [(1, ''out''), (2, '' p'' @ nl @ ''sta'')] \<lparr>sw_out = [], sw_buf = [], sw_started = {}\<rparr>"
  have "\<exists>tm'. decode_head stream_example (json_line stream_example [(''Time'', t), (''Action'', JText ''start''), (''Package'', JText pkg)]) = Some (tm', ''start'', pkg)"
    if "decode_head stream_example l = Some (tm, a, pkg)" for l tm a pkg t
  proof -
    have "CHR 0x0A \<notin> set pkg"
    proof -
      have "takeWhile (\<lambda>c. c \<noteq> CHR 0x0A) l = a @ '' '' @ pkg"
        using that by (auto simp: stream_example_def split: option.splits dest!: cut_eq_Some)
      then have "set pkg \<subseteq> set (takeWhile (\<lambda>c. c \<noteq> CHR 0x0A) l)" by auto
      then show ?thesis by (auto dest: set_takeWhileD)
    qed
    moreover have "takeWhile (\<lambda>c. c \<noteq> CHR 0x0A) (pkg @ nl) = pkg @ takeWhile (\<lambda>c. c \<noteq> CHR 0x0A) nl"
      using calculation by (intro takeWhile_append2) auto
    ultimately have "filter (\<lambda>c. c \<noteq> CHR 0x0A) pkg = pkg" "takeWhile (\<lambda>c. c \<noteq> CHR 0x0A) (pkg @ nl) = pkg"
      by (auto simp: filter_id_conv)
    then show ?thesis by (simp add: stream_example_def text_example_def json_line_def cut_byte)
  qed
  then have ok: "json_ok stream_example" by (auto simp: json_ok_def stream_example_def text_example_def)
  have "sw_out ?s = ''start p'' @ nl @ ''out p'' @ nl" by code_simp
  then show ?thesis using stream_opens_packages_once[OF ok refl, of "[(1, ''out''), (2, '' p'' @ nl @ ''sta'')]"] by simp
qed

end
