(* ===== verification/MethodBudget.thy ===== *)
theory MethodBudget
  imports Prelude
begin

text \<open>
  \<^verbatim>\<open>pkg/gotestruntime/methodbudget.go\<close>, with \<open>watchDeadline\<close> of \<^verbatim>\<open>harness.go\<close>: a method held to a
  declared timeout.  Three goroutines share its state: the method's own, which turns its watch on and
  off, the watch, and the timer's.  Each step is one section under the method's mutex or one channel
  operation; a stop may end the parent context at any time.
\<close>

subsection \<open>State\<close>

datatype ctx_error = DeadlineExceeded | Canceled

text \<open>Where the method's goroutine is: running a phase, in \<open>watchOn\<close> before the watch is started, in \<open>watchOff\<close>
  before \<open>done\<close> is closed, at \<open>stopped\<close>, before the watch is cleared, at the two calls of \<open>end\<close>, or over.\<close>

datatype method_pc = Running | Starting | Closing | Waiting | Clearing | Ending | EndingAfter | Finished

text \<open>The watch: none, at its first select, past the deadline, about to report, at the two calls of \<open>end\<close>, and
  about to close \<open>stopped\<close>.\<close>

datatype watch_pc = NoWatch | Selecting | Rechecking | Reporting | WatchEnding | WatchEndingAfter | Stopping

datatype timer_pc = Armed | TimerEnding | TimerEndingAfter | TimerDone

record watched_method =
  method_at :: method_pc
  watch_at :: watch_pc
  timer_at :: timer_pc
  watch_set :: bool
  done_closed :: bool
  stopped_closed :: bool
  expired :: bool
  verdicts :: nat
  ctx_err :: "ctx_error option"
  after_err :: "ctx_error option"

definition openMethod :: watched_method where
  "openMethod = \<lparr>method_at = Running, watch_at = NoWatch, timer_at = Armed, watch_set = False, done_closed = False,
     stopped_closed = False, expired = False, verdicts = 0, ctx_err = None, after_err = None\<rparr>"

text \<open>\<open>end\<close>: the first error stays.\<close>

definition end_ctx :: "ctx_error \<Rightarrow> watched_method \<Rightarrow> watched_method" where
  "end_ctx e s = (if ctx_err s = None then s\<lparr>ctx_err := Some e\<rparr> else s)"

definition end_after :: "ctx_error \<Rightarrow> watched_method \<Rightarrow> watched_method" where
  "end_after e s = (if after_err s = None then s\<lparr>after_err := Some e\<rparr> else s)"

subsection \<open>Steps\<close>

definition watchOn :: "watched_method \<Rightarrow> watched_method" where
  "watchOn s = (if watch_set s \<or> expired s then s
     else s\<lparr>watch_set := True, done_closed := False, stopped_closed := False, method_at := Starting\<rparr>)"

text \<open>Clearing the watch reads \<open>expired\<close> in the same section.\<close>

definition clear_watch :: "watched_method \<Rightarrow> watched_method" where
  "clear_watch s = s\<lparr>watch_set := False, method_at := (if expired s then Ending else Running)\<rparr>"

definition deadlinePassed :: "watched_method \<Rightarrow> watched_method" where
  "deadlinePassed s = s\<lparr>expired := True, timer_at := (if watch_set s then TimerDone else TimerEnding)\<rparr>"

inductive method_step :: "watched_method \<Rightarrow> watched_method \<Rightarrow> bool" where
  On: "method_at s = Running \<Longrightarrow> method_step s (watchOn s)"
| Start: "method_at s = Starting \<Longrightarrow> method_step s (s\<lparr>watch_at := Selecting, method_at := Running\<rparr>)"
| OffNone: "method_at s = Running \<Longrightarrow> \<not> watch_set s \<Longrightarrow> method_step s s"
| Off: "method_at s = Running \<Longrightarrow> watch_set s \<Longrightarrow> method_step s (s\<lparr>method_at := Closing\<rparr>)"
| Close: "method_at s = Closing \<Longrightarrow> method_step s (s\<lparr>done_closed := True, method_at := Waiting\<rparr>)"
| Wait: "method_at s = Waiting \<Longrightarrow> stopped_closed s \<Longrightarrow> method_step s (s\<lparr>method_at := Clearing\<rparr>)"
| Clear: "method_at s = Clearing \<Longrightarrow> method_step s (clear_watch s)"
| End: "method_at s = Ending \<Longrightarrow> method_step s ((end_ctx DeadlineExceeded s)\<lparr>method_at := EndingAfter\<rparr>)"
| EndAfter: "method_at s = EndingAfter \<Longrightarrow> method_step s ((end_after DeadlineExceeded s)\<lparr>method_at := Running\<rparr>)"
| Finish: "method_at s = Running \<Longrightarrow> \<not> watch_set s \<Longrightarrow> method_step s (s\<lparr>method_at := Finished\<rparr>)"

inductive watch_step :: "watched_method \<Rightarrow> watched_method \<Rightarrow> bool" where
  SelectDone: "watch_at s = Selecting \<Longrightarrow> done_closed s \<Longrightarrow> watch_step s (s\<lparr>watch_at := Stopping\<rparr>)"
| SelectDue: "watch_at s = Selecting \<Longrightarrow> expired s \<Longrightarrow> watch_step s (s\<lparr>watch_at := Rechecking\<rparr>)"
| RecheckDone: "watch_at s = Rechecking \<Longrightarrow> done_closed s \<Longrightarrow> watch_step s (s\<lparr>watch_at := Stopping\<rparr>)"
| Recheck: "watch_at s = Rechecking \<Longrightarrow> \<not> done_closed s \<Longrightarrow> watch_step s (s\<lparr>watch_at := Reporting\<rparr>)"
| Report: "watch_at s = Reporting \<Longrightarrow> watch_step s (s\<lparr>verdicts := verdicts s + 1, watch_at := WatchEnding\<rparr>)"
| WatchEnd: "watch_at s = WatchEnding \<Longrightarrow> watch_step s ((end_ctx DeadlineExceeded s)\<lparr>watch_at := WatchEndingAfter\<rparr>)"
| WatchEndAfter: "watch_at s = WatchEndingAfter \<Longrightarrow> watch_step s ((end_after DeadlineExceeded s)\<lparr>watch_at := Stopping\<rparr>)"
| Stop: "watch_at s = Stopping \<Longrightarrow> watch_step s (s\<lparr>stopped_closed := True, watch_at := NoWatch\<rparr>)"

text \<open>The cleanup stops a timer that has not fired once the method is over.\<close>

inductive timer_step :: "watched_method \<Rightarrow> watched_method \<Rightarrow> bool" where
  Deadline: "timer_at s = Armed \<Longrightarrow> timer_step s (deadlinePassed s)"
| TimerEnd: "timer_at s = TimerEnding \<Longrightarrow> timer_step s ((end_ctx DeadlineExceeded s)\<lparr>timer_at := TimerEndingAfter\<rparr>)"
| TimerEndAfter: "timer_at s = TimerEndingAfter \<Longrightarrow> timer_step s ((end_after DeadlineExceeded s)\<lparr>timer_at := TimerDone\<rparr>)"
| StopTimer: "timer_at s = Armed \<Longrightarrow> method_at s = Finished \<Longrightarrow> timer_step s (s\<lparr>timer_at := TimerDone\<rparr>)"

definition budget_step :: "watched_method \<Rightarrow> watched_method \<Rightarrow> bool" where
  "budget_step s t \<longleftrightarrow> method_step s t \<or> watch_step s t \<or> timer_step s t \<or> t = end_ctx Canceled s"

subsection \<open>What holds in every reachable state\<close>

text \<open>\<open>overran\<close>: the budget has run out.\<close>

definition budget_spent :: "watched_method \<Rightarrow> bool" where
  "budget_spent s \<longleftrightarrow> ctx_err s = Some DeadlineExceeded"

definition channels_ok :: "watched_method \<Rightarrow> bool" where
  "channels_ok s \<longleftrightarrow>
     (watch_at s \<noteq> NoWatch \<longrightarrow> watch_set s \<and> \<not> stopped_closed s \<and> method_at s \<in> {Running, Closing, Waiting}) \<and>
     (watch_set s \<and> watch_at s = NoWatch \<and> method_at s \<noteq> Starting \<longrightarrow> stopped_closed s) \<and>
     (method_at s = Starting \<longrightarrow> watch_set s \<and> watch_at s = NoWatch \<and> \<not> done_closed s \<and> \<not> stopped_closed s) \<and>
     (method_at s = Closing \<longrightarrow> watch_set s) \<and>
     (method_at s = Waiting \<longrightarrow> watch_set s \<and> done_closed s) \<and>
     (method_at s = Clearing \<longrightarrow> watch_set s \<and> watch_at s = NoWatch) \<and>
     (method_at s \<in> {Ending, EndingAfter, Finished} \<longrightarrow> \<not> watch_set s)"

definition deadline_ok :: "watched_method \<Rightarrow> bool" where
  "deadline_ok s \<longleftrightarrow>
     (watch_at s \<in> {Rechecking, Reporting, WatchEnding, WatchEndingAfter} \<or> method_at s \<in> {Ending, EndingAfter} \<longrightarrow> expired s) \<and>
     (timer_at s \<in> {TimerEnding, TimerEndingAfter} \<longrightarrow> expired s \<and> \<not> watch_set s) \<and>
     (timer_at s = Armed \<longrightarrow> \<not> expired s) \<and>
     (0 < verdicts s \<longrightarrow> expired s \<and> method_at s \<noteq> Starting \<and> watch_at s \<notin> {Selecting, Rechecking, Reporting}) \<and>
     (watch_at s \<in> {WatchEnding, WatchEndingAfter} \<longrightarrow> 0 < verdicts s) \<and> verdicts s \<le> 1"

definition judged_ok :: "watched_method \<Rightarrow> bool" where
  "judged_ok s \<longleftrightarrow>
     (ctx_err s = Some DeadlineExceeded \<or> after_err s \<noteq> None \<longrightarrow> expired s \<and> (watch_set s \<longrightarrow> 0 < verdicts s)) \<and>
     after_err s \<noteq> Some Canceled"

definition first_ended_ok :: "watched_method \<Rightarrow> bool" where
  "first_ended_ok s \<longleftrightarrow>
     (watch_at s = WatchEndingAfter \<or> method_at s = EndingAfter \<or> timer_at s = TimerEndingAfter \<longrightarrow> ctx_err s \<noteq> None)"

text \<open>The deadline passed and nobody is about to end the contexts.\<close>

definition left_to_none :: "watched_method \<Rightarrow> bool" where
  "left_to_none s \<longleftrightarrow> expired s \<and> \<not> watch_set s \<and> method_at s \<notin> {Ending, EndingAfter} \<and> timer_at s \<notin> {TimerEnding, TimerEndingAfter}"

definition ended_ok :: "watched_method \<Rightarrow> bool" where
  "ended_ok s \<longleftrightarrow> (left_to_none s \<longrightarrow> ctx_err s \<noteq> None \<and> after_err s \<noteq> None)"

definition budget_inv :: "watched_method \<Rightarrow> bool" where
  "budget_inv s \<longleftrightarrow> channels_ok s \<and> deadline_ok s \<and> judged_ok s \<and> first_ended_ok s \<and> ended_ok s"

lemmas budget_steps = end_ctx_def end_after_def watchOn_def clear_watch_def deadlinePassed_def

end
