(* ===== verification/MethodBudgetProps.thy ===== *)
theory MethodBudgetProps
  imports MethodBudget
begin

text \<open>
  Every step keeps the invariant; so the verdict on an overrun comes before the contexts end, and a method can
  always be finished with its contexts ended and no goroutine of its own left.
\<close>

subsection \<open>Every step keeps the invariant\<close>

lemma method_channels: "method_step s t \<Longrightarrow> channels_ok s \<Longrightarrow> channels_ok t"
  by (erule method_step.cases) (auto simp: channels_ok_def budget_steps)

lemma method_deadline: "method_step s t \<Longrightarrow> channels_ok s \<Longrightarrow> deadline_ok s \<Longrightarrow> deadline_ok t"
  by (erule method_step.cases) (auto simp: channels_ok_def deadline_ok_def budget_steps)

lemma method_judged: "method_step s t \<Longrightarrow> channels_ok s \<Longrightarrow> deadline_ok s \<Longrightarrow> judged_ok s \<Longrightarrow> judged_ok t"
  by (erule method_step.cases) (auto simp: channels_ok_def deadline_ok_def judged_ok_def budget_steps)

lemma method_first_ended: "method_step s t \<Longrightarrow> first_ended_ok s \<Longrightarrow> first_ended_ok t"
  by (erule method_step.cases) (auto simp: first_ended_ok_def budget_steps)

lemma method_ended: "method_step s t \<Longrightarrow> channels_ok s \<Longrightarrow> deadline_ok s \<Longrightarrow> first_ended_ok s \<Longrightarrow> ended_ok s \<Longrightarrow> ended_ok t"
  by (erule method_step.cases) (auto simp: channels_ok_def deadline_ok_def first_ended_ok_def ended_ok_def left_to_none_def budget_steps)

lemma watch_channels: "watch_step s t \<Longrightarrow> channels_ok s \<Longrightarrow> channels_ok t"
  by (erule watch_step.cases) (auto simp: channels_ok_def budget_steps)

lemma watch_deadline: "watch_step s t \<Longrightarrow> channels_ok s \<Longrightarrow> deadline_ok s \<Longrightarrow> deadline_ok t"
  by (erule watch_step.cases) (auto simp: channels_ok_def deadline_ok_def budget_steps)

lemma watch_judged: "watch_step s t \<Longrightarrow> channels_ok s \<Longrightarrow> deadline_ok s \<Longrightarrow> judged_ok s \<Longrightarrow> judged_ok t"
  by (erule watch_step.cases) (auto simp: channels_ok_def deadline_ok_def judged_ok_def budget_steps)

lemma watch_first_ended: "watch_step s t \<Longrightarrow> first_ended_ok s \<Longrightarrow> first_ended_ok t"
  by (erule watch_step.cases) (auto simp: first_ended_ok_def budget_steps)

lemma watch_ended: "watch_step s t \<Longrightarrow> channels_ok s \<Longrightarrow> deadline_ok s \<Longrightarrow> first_ended_ok s \<Longrightarrow> ended_ok s \<Longrightarrow> ended_ok t"
  by (erule watch_step.cases) (auto simp: channels_ok_def deadline_ok_def first_ended_ok_def ended_ok_def left_to_none_def budget_steps)

lemma timer_channels: "timer_step s t \<Longrightarrow> channels_ok s \<Longrightarrow> channels_ok t"
  by (erule timer_step.cases; hypsubst; cases "method_at s"; cases "watch_at s"; simp add: channels_ok_def budget_steps)

lemma timer_deadline: "timer_step s t \<Longrightarrow> channels_ok s \<Longrightarrow> deadline_ok s \<Longrightarrow> deadline_ok t"
  by (erule timer_step.cases; hypsubst; cases "method_at s"; cases "watch_at s"; auto simp: channels_ok_def deadline_ok_def budget_steps)

lemma timer_judged: "timer_step s t \<Longrightarrow> channels_ok s \<Longrightarrow> deadline_ok s \<Longrightarrow> judged_ok s \<Longrightarrow> judged_ok t"
  by (erule timer_step.cases; hypsubst; cases "method_at s"; cases "watch_at s"; simp add: deadline_ok_def judged_ok_def budget_steps)

lemma timer_first_ended: "timer_step s t \<Longrightarrow> first_ended_ok s \<Longrightarrow> first_ended_ok t"
  by (erule timer_step.cases) (auto simp: first_ended_ok_def budget_steps)

lemma timer_ended: "timer_step s t \<Longrightarrow> channels_ok s \<Longrightarrow> deadline_ok s \<Longrightarrow> first_ended_ok s \<Longrightarrow> ended_ok s \<Longrightarrow> ended_ok t"
  by (erule timer_step.cases; hypsubst; cases "method_at s"; simp add: first_ended_ok_def deadline_ok_def ended_ok_def left_to_none_def budget_steps)


lemma cancel_inv: "budget_inv s \<Longrightarrow> budget_inv (end_ctx Canceled s)"
proof -
  assume inv: "budget_inv s"
  have "channels_ok (end_ctx Canceled s) = channels_ok s" by (simp add: end_ctx_def channels_ok_def)
  moreover have "deadline_ok (end_ctx Canceled s) = deadline_ok s" by (simp add: end_ctx_def deadline_ok_def)
  moreover have "judged_ok s \<Longrightarrow> judged_ok (end_ctx Canceled s)" by (simp add: end_ctx_def judged_ok_def)
  moreover have "first_ended_ok s \<Longrightarrow> first_ended_ok (end_ctx Canceled s)" by (simp add: end_ctx_def first_ended_ok_def)
  moreover have "ended_ok s \<Longrightarrow> ended_ok (end_ctx Canceled s)" by (simp add: end_ctx_def ended_ok_def left_to_none_def)
  ultimately show ?thesis using inv by (simp add: budget_inv_def)
qed

lemma budget_step_inv: "budget_step s t \<Longrightarrow> budget_inv s \<Longrightarrow> budget_inv t"
  unfolding budget_step_def
proof (elim disjE)
  assume inv: "budget_inv s"
  note parts = inv[unfolded budget_inv_def]
  show "method_step s t \<Longrightarrow> budget_inv t"
    using parts method_channels[of s t] method_deadline[of s t] method_judged[of s t] method_first_ended[of s t] method_ended[of s t]
    unfolding budget_inv_def by simp
  show "watch_step s t \<Longrightarrow> budget_inv t"
    using parts watch_channels[of s t] watch_deadline[of s t] watch_judged[of s t] watch_first_ended[of s t] watch_ended[of s t]
    unfolding budget_inv_def by simp
  show "timer_step s t \<Longrightarrow> budget_inv t"
    using parts timer_channels[of s t] timer_deadline[of s t] timer_judged[of s t] timer_first_ended[of s t] timer_ended[of s t]
    unfolding budget_inv_def by simp
  show "t = end_ctx Canceled s \<Longrightarrow> budget_inv t" using cancel_inv[OF inv] by simp
qed

lemma open_inv: "budget_inv openMethod"
  by (simp add: openMethod_def budget_inv_def channels_ok_def deadline_ok_def judged_ok_def first_ended_ok_def ended_ok_def left_to_none_def)

lemma reachable_inv: "budget_step\<^sup>*\<^sup>* openMethod s \<Longrightarrow> budget_inv s"
  by (induction rule: rtranclp_induct) (auto intro: open_inv budget_step_inv)

text \<open>C27. In every reachable state of a method with a budget at most one verdict was given, and only past the
  deadline; its context ends for the deadline only past it and, while a watch is on, only after the verdict;
  AfterEach's context is never cancelled by a stop; a finished method has no watch that could still report,
  and once its timer is done too, a passed deadline has ended both contexts.\<close>

theorem verdict_before_deadline:
  assumes "budget_step\<^sup>*\<^sup>* openMethod s"
  shows "verdicts s \<le> 1 \<and> (0 < verdicts s \<longrightarrow> expired s) \<and> (budget_spent s \<longrightarrow> expired s \<and> (watch_set s \<longrightarrow> 0 < verdicts s)) \<and>
    after_err s \<noteq> Some Canceled \<and> (method_at s = Finished \<longrightarrow> watch_at s = NoWatch \<and> (\<forall>t. \<not> watch_step s t)) \<and>
    (method_at s = Finished \<and> timer_at s = TimerDone \<and> expired s \<longrightarrow> ctx_err s \<noteq> None \<and> after_err s = Some DeadlineExceeded)"
proof -
  have inv: "channels_ok s" "deadline_ok s" "judged_ok s" "ended_ok s"
    using reachable_inv[OF assms] by (auto simp: budget_inv_def)
  have fin: "watch_at s = NoWatch \<and> \<not> watch_set s" if "method_at s = Finished" using that inv(1) by (auto simp: channels_ok_def)
  have no: "\<not> watch_step s t" if "watch_at s = NoWatch" for t using that by (auto elim: watch_step.cases)
  have after: "after_err s = None \<or> after_err s = Some DeadlineExceeded"
    using inv(3) by (cases "after_err s"; cases "the (after_err s)") (auto simp: judged_ok_def)
  have ended: "ctx_err s \<noteq> None \<and> after_err s = Some DeadlineExceeded"
    if "method_at s = Finished" "timer_at s = TimerDone" "expired s"
    using that inv(4) fin after by (auto simp: ended_ok_def left_to_none_def)
  show ?thesis
  proof (intro conjI impI)
    show "verdicts s \<le> 1" "0 < verdicts s \<Longrightarrow> expired s" using inv(2) by (simp_all add: deadline_ok_def)
    show "budget_spent s \<Longrightarrow> expired s" "budget_spent s \<Longrightarrow> watch_set s \<Longrightarrow> 0 < verdicts s" "after_err s \<noteq> Some Canceled"
      using inv(3) by (simp_all add: judged_ok_def budget_spent_def)
    show "method_at s = Finished \<Longrightarrow> watch_at s = NoWatch" "method_at s = Finished \<Longrightarrow> \<forall>t. \<not> watch_step s t" using fin no by simp_all
    show "method_at s = Finished \<and> timer_at s = TimerDone \<and> expired s \<Longrightarrow> ctx_err s \<noteq> None"
      "method_at s = Finished \<and> timer_at s = TimerDone \<and> expired s \<Longrightarrow> after_err s = Some DeadlineExceeded" using ended by simp_all
  qed
qed

lemma verdict_before_deadline_witness:
  "\<exists>s. budget_spent s \<and> method_at s = Running \<and> verdicts s \<le> 1 \<and> after_err s \<noteq> Some Canceled"
proof -
  let ?a = "watchOn openMethod"
  let ?b = "?a\<lparr>watch_at := Selecting, method_at := Running\<rparr>"
  let ?c = "deadlinePassed ?b"
  let ?d = "?c\<lparr>watch_at := Rechecking\<rparr>"
  let ?e = "?d\<lparr>watch_at := Reporting\<rparr>"
  let ?f = "?e\<lparr>verdicts := verdicts ?e + 1, watch_at := WatchEnding\<rparr>"
  let ?g = "(end_ctx DeadlineExceeded ?f)\<lparr>watch_at := WatchEndingAfter\<rparr>"
  note defs = openMethod_def budget_steps
  have s1: "budget_step openMethod ?a" unfolding budget_step_def by (intro disjI1 method_step.On) (simp add: defs)
  have s2: "budget_step ?a ?b" unfolding budget_step_def by (intro disjI1 method_step.Start) (simp add: defs)
  have s3: "budget_step ?b ?c" unfolding budget_step_def by (intro disjI2 disjI1 timer_step.Deadline) (simp add: defs)
  have s4: "budget_step ?c ?d" unfolding budget_step_def by (intro disjI2 disjI1 watch_step.SelectDue) (simp_all add: defs)
  have s5: "budget_step ?d ?e" unfolding budget_step_def by (intro disjI2 disjI1 watch_step.Recheck) (simp_all add: defs)
  have s6: "budget_step ?e ?f" unfolding budget_step_def by (intro disjI2 disjI1 watch_step.Report) (simp add: defs)
  have s7: "budget_step ?f ?g" unfolding budget_step_def by (intro disjI2 disjI1 watch_step.WatchEnd) (simp add: defs)
  note step = converse_rtranclp_into_rtranclp[of budget_step]
  have r: "budget_step\<^sup>*\<^sup>* openMethod ?g"
    by (rule step[OF s1 step[OF s2 step[OF s3 step[OF s4 step[OF s5 step[OF s6 step[OF s7 rtranclp.rtrancl_refl]]]]]]])
  have "budget_spent ?g" "method_at ?g = Running" by (simp_all add: budget_spent_def defs)
  then show ?thesis using verdict_before_deadline[OF r] by blast
qed

subsection \<open>A method can always be finished\<close>

definition method_rank :: "watched_method \<Rightarrow> nat" where
  "method_rank s = (case method_at s of Starting \<Rightarrow> 9 | Running \<Rightarrow> (if watch_set s then 8 else 2) | Closing \<Rightarrow> 7 | Waiting \<Rightarrow> 6
     | Clearing \<Rightarrow> 5 | Ending \<Rightarrow> 4 | EndingAfter \<Rightarrow> 3 | Finished \<Rightarrow> 0)"

definition watch_rank :: "watched_method \<Rightarrow> nat" where
  "watch_rank s = (case watch_at s of Selecting \<Rightarrow> 7 | Rechecking \<Rightarrow> 6 | Reporting \<Rightarrow> 5 | WatchEnding \<Rightarrow> 4 | WatchEndingAfter \<Rightarrow> 3
     | Stopping \<Rightarrow> 2 | NoWatch \<Rightarrow> 0)"

definition timer_rank :: "watched_method \<Rightarrow> nat" where
  "timer_rank s = (case timer_at s of Armed \<Rightarrow> 3 | TimerEnding \<Rightarrow> 2 | TimerEndingAfter \<Rightarrow> 1 | TimerDone \<Rightarrow> 0)"

definition rank :: "watched_method \<Rightarrow> nat" where
  "rank s = 10 * method_rank s + watch_rank s + timer_rank s"

definition over :: "watched_method \<Rightarrow> bool" where
  "over s \<longleftrightarrow> method_at s = Finished \<and> watch_at s = NoWatch \<and> timer_at s = TimerDone"

lemmas rank_defs = rank_def method_rank_def watch_rank_def timer_rank_def budget_steps

lemma watch_moves:
  assumes "watch_at s \<noteq> NoWatch" "done_closed s"
  shows "\<exists>t. watch_step s t \<and> rank t < rank s"
proof (cases "watch_at s")
  case Selecting
  then show ?thesis using watch_step.SelectDone[OF Selecting assms(2)] by (auto simp: rank_defs)
next
  case Rechecking
  then show ?thesis using watch_step.RecheckDone[OF Rechecking assms(2)] by (auto simp: rank_defs)
next
  case Reporting
  show ?thesis using watch_step.Report[OF Reporting] Reporting by (fastforce simp: rank_defs)
next
  case WatchEnding
  show ?thesis using watch_step.WatchEnd[OF WatchEnding] WatchEnding by (fastforce simp: rank_defs)
next
  case WatchEndingAfter
  show ?thesis using watch_step.WatchEndAfter[OF WatchEndingAfter] WatchEndingAfter by (fastforce simp: rank_defs)
next
  case Stopping
  show ?thesis using watch_step.Stop[OF Stopping] Stopping by (fastforce simp: rank_defs)
qed (use assms in simp)

lemma timer_moves:
  assumes "timer_at s \<noteq> TimerDone" "method_at s = Finished"
  shows "\<exists>t. timer_step s t \<and> rank t < rank s"
proof (cases "timer_at s")
  case Armed
  show ?thesis using timer_step.StopTimer[OF Armed assms(2)] Armed by (fastforce simp: rank_defs)
next
  case TimerEnding
  show ?thesis using timer_step.TimerEnd[OF TimerEnding] TimerEnding by (fastforce simp: rank_defs)
next
  case TimerEndingAfter
  show ?thesis using timer_step.TimerEndAfter[OF TimerEndingAfter] TimerEndingAfter by (fastforce simp: rank_defs)
qed (use assms in simp)

lemma budget_moves:
  assumes inv: "channels_ok s" and "\<not> over s"
  shows "\<exists>t. budget_step s t \<and> rank t < rank s"
proof -
  have m: "\<exists>t. method_step s t \<and> rank t < rank s" if "method_at s \<notin> {Waiting, Finished}"
  proof (cases "method_at s")
    case Starting
    have "watch_at s = NoWatch" using inv Starting by (auto simp: channels_ok_def)
    then show ?thesis using method_step.Start[OF Starting] Starting by (fastforce simp: rank_defs)
  next
    case Running
    show ?thesis
    proof (cases "watch_set s")
      case True
      show ?thesis using method_step.Off[OF Running True] Running True by (fastforce simp: rank_defs)
    next
      case False
      show ?thesis using method_step.Finish[OF Running False] Running False by (fastforce simp: rank_defs)
    qed
  next
    case Closing
    show ?thesis using method_step.Close[OF Closing] Closing by (fastforce simp: rank_defs)
  next
    case Clearing
    have "rank (clear_watch s) < rank s" using Clearing by (simp add: rank_defs)
    then show ?thesis using method_step.Clear[OF Clearing] by blast
  next
    case Ending
    show ?thesis using method_step.End[OF Ending] Ending by (fastforce simp: rank_defs)
  next
    case EndingAfter
    have "\<not> watch_set s" using inv EndingAfter by (auto simp: channels_ok_def)
    then have "rank ((end_after DeadlineExceeded s)\<lparr>method_at := Running\<rparr>) < rank s" using EndingAfter by (simp add: rank_defs)
    then show ?thesis using method_step.EndAfter[OF EndingAfter] by blast
  qed (use that in simp_all)
  have w: "\<exists>t. (method_step s t \<or> watch_step s t) \<and> rank t < rank s" if wait: "method_at s = Waiting"
  proof (cases "stopped_closed s")
    case True
    show ?thesis using method_step.Wait[OF wait True] wait by (fastforce simp: rank_defs)
  next
    case False
    then have "watch_at s \<noteq> NoWatch" "done_closed s" using inv wait by (auto simp: channels_ok_def)
    then show ?thesis using watch_moves by blast
  qed
  have f: "\<exists>t. timer_step s t \<and> rank t < rank s" if fin: "method_at s = Finished"
  proof -
    have "watch_at s = NoWatch" using inv fin by (auto simp: channels_ok_def)
    then show ?thesis using timer_moves fin assms(2) by (auto simp: over_def)
  qed
  show ?thesis using m w f unfolding budget_step_def by fastforce
qed

lemma budget_ends:
  "budget_inv s \<Longrightarrow> \<exists>n \<le> rank s. \<exists>t. (budget_step ^^ n) s t \<and> over t \<and> budget_inv t"
proof (induction "rank s" arbitrary: s rule: less_induct)
  case less
  show ?case
  proof (cases "over s")
    case True
    then show ?thesis using less.prems by (intro exI[of _ 0]) auto
  next
    case False
    have "channels_ok s" using less.prems by (simp add: budget_inv_def)
    then obtain u where u: "budget_step s u" "rank u < rank s" using budget_moves False by blast
    obtain n t where n: "n \<le> rank u" "(budget_step ^^ n) u t" "over t" "budget_inv t"
      using less.hyps[OF u(2) budget_step_inv[OF u(1) less.prems]] by blast
    have "(budget_step ^^ Suc n) s t" using relpowp_Suc_I2[OF u(1) n(2)] .
    then show ?thesis using n u(2) by (intro exI[of _ "Suc n"]) auto
  qed
qed

lemma rank_bound: "rank s \<le> 100"
  by (simp add: rank_defs split: method_pc.split watch_pc.split timer_pc.split)

text \<open>
  . Wherever a method with a budget is, between its own goroutine, the watch and the timer, within a hundred
  steps it can be over, with no watch left, and no wait on the way blocks for good; a deadline that
  passed has then ended both contexts.\<close>

theorem method_can_always_finish:
  assumes "budget_step\<^sup>*\<^sup>* openMethod s"
  shows "\<exists>n \<le> 100. \<exists>t. (budget_step ^^ n) s t \<and> method_at t = Finished \<and> watch_at t = NoWatch \<and> timer_at t = TimerDone \<and>
    (expired t \<longrightarrow> ctx_err t \<noteq> None \<and> after_err t = Some DeadlineExceeded)"
proof -
  obtain n t where n: "n \<le> rank s" "(budget_step ^^ n) s t" "over t" "budget_inv t"
    using budget_ends[OF reachable_inv[OF assms]] by blast
  have inv: "channels_ok t" "judged_ok t" "ended_ok t" using n(4) by (simp_all add: budget_inv_def)
  have o: "method_at t = Finished" "watch_at t = NoWatch" "timer_at t = TimerDone" using n(3) by (simp_all add: over_def)
  have "\<not> watch_set t" using inv(1) o by (simp add: channels_ok_def)
  then have e: "expired t \<longrightarrow> ctx_err t \<noteq> None \<and> after_err t \<noteq> None" using inv(3) o by (simp add: ended_ok_def left_to_none_def)
  have "after_err t \<noteq> Some Canceled" using inv(2) by (simp add: judged_ok_def)
  then have "expired t \<longrightarrow> after_err t = Some DeadlineExceeded" using e by (metis ctx_error.exhaust option.exhaust)
  moreover have "n \<le> 100" using n(1) rank_bound[of s] by linarith
  ultimately show ?thesis using n(2) o e by blast
qed

lemma method_can_always_finish_witness:
  "\<exists>n \<le> 100. \<exists>t. (budget_step ^^ n) (watchOn openMethod) t \<and> method_at t = Finished \<and> watch_at t = NoWatch"
proof -
  have "budget_step openMethod (watchOn openMethod)"
    unfolding budget_step_def by (intro disjI1 method_step.On) (simp add: openMethod_def)
  then have "budget_step\<^sup>*\<^sup>* openMethod (watchOn openMethod)" by blast
  from method_can_always_finish[OF this] show ?thesis by blast
qed

end
