(* ===== verification/Terminal.thy ===== *)
theory Terminal
  imports Annotations Coverage
begin

text \<open>
  \<^verbatim>\<open>internal/gotestspec/terminal.go\<close>, \<^verbatim>\<open>counts.go\<close> and the terminal half of \<^verbatim>\<open>summary.go\<close>: the tree as
  an indented specification, and the summary of a run, as the bytes the code writes.  A list of
  options is the configuration it leaves.  How a \<open>float64\<close> and a number of seconds are
  spelled is the record \<open>number_texts\<close>.
\<close>

record number_texts =
  fmt_whole :: "f64 \<Rightarrow> bool" \<comment> \<open>\<open>ns == math.Trunc(ns)\<close>\<close>
  fmt_f0 :: "f64 \<Rightarrow> string" \<comment> \<open>\<open>%.0f\<close>\<close>
  fmt_f1 :: "f64 \<Rightarrow> string" \<comment> \<open>\<open>%.1f\<close>\<close>
  fmt_g :: "f64 \<Rightarrow> string" \<comment> \<open>\<open>%g\<close>\<close>
  fmt_full :: "f64 \<Rightarrow> string" \<comment> \<open>\<open>FormatFloat(v, 'f', -1, 64)\<close>\<close>
  fmt_nonneg :: "f64 \<Rightarrow> bool"
  fmt_pos :: "f64 \<Rightarrow> bool"
  fmt_seconds :: "duration \<Rightarrow> string" \<comment> \<open>\<open>%.1f\<close> of \<open>Seconds()\<close>\<close>

subsection \<open>Signs outside ASCII\<close>

definition sign_pass :: string where "sign_pass = [CHR 0xE2, CHR 0x9C, CHR 0x93]"
definition sign_fail :: string where "sign_fail = [CHR 0xE2, CHR 0x9C, CHR 0x97]"
definition dash :: string where "dash = [CHR 0xE2, CHR 0x80, CHR 0x94]"
definition middle_dot :: string where "middle_dot = [CHR 0xC2, CHR 0xB7]"
definition warning_sign :: string where "warning_sign = [CHR 0xE2, CHR 0x9A, CHR 0xA0]"
definition big_delta :: string where "big_delta = [CHR 0xCE, CHR 0x94]"
definition plus_minus :: string where "plus_minus = [CHR 0xC2, CHR 0xB1]"

lemmas signs_def = sign_pass_def sign_fail_def dash_def middle_dot_def warning_sign_def big_delta_def plus_minus_def

definition nl :: string where "nl = [CHR 0x0A]"

definition nat_text :: "nat \<Rightarrow> string" where "nat_text n = itoa (int n)"

subsection \<open>Counts\<close>

definition countNoun :: "nat \<Rightarrow> string \<Rightarrow> string \<Rightarrow> string" where
  "countNoun n singular plural = (if n = 1 then ''1 '' @ singular else nat_text n @ '' '' @ plural)"

definition count_part :: "nat \<Rightarrow> string \<Rightarrow> string \<Rightarrow> string list" where
  "count_part n singular plural = (if n > 0 then [countNoun n singular plural] else [])"

definition countParts :: "Stats \<Rightarrow> string list" where
  "countParts stats =
     (let counts = count_part (Suites stats) ''suite'' ''suites'' @
        count_part (Behaviors stats) ''behavior'' ''behaviors'' @
        count_part (Tests stats) ''stdlib test'' ''stdlib tests'' @
        count_part (Benchmarks stats) ''benchmark'' ''benchmarks'' @
        count_part (Fuzzers stats) ''fuzz target'' ''fuzz targets''
      in if counts = [] then [''0 suites''] else counts)"

subsection \<open>Configuration\<close>

record colors =
  c_reset :: string
  c_red :: string
  c_green :: string
  c_yellow :: string
  c_bold :: string
  c_dim :: string

definition ansi :: "string \<Rightarrow> string" where "ansi code = CHR 0x1B # ''['' @ code @ ''m''"

definition ansiColors :: colors where
  "ansiColors = \<lparr>c_reset = ansi ''0'', c_red = ansi ''31'', c_green = ansi ''32'',
     c_yellow = ansi ''33'', c_bold = ansi ''1'', c_dim = ansi ''2''\<rparr>"

definition noColors :: colors where
  "noColors = \<lparr>c_reset = [], c_red = [], c_green = [], c_yellow = [], c_bold = [], c_dim = []\<rparr>"

record GroupRunRow =
  GrName :: string
  GrSuites :: nat
  GrWall :: duration

record BenchDelta =
  DlKey :: string
  DlOldNs :: f64
  DlNewNs :: f64
  DlPercentChange :: f64
  DlSignificant :: bool
  DlInsufficientSample :: bool

record BenchGate =
  GtThresholdPct :: f64
  GtWorstPct :: f64
  GtWorstKey :: string
  GtBreached :: bool

record renderConfig =
  cfg_color :: bool
  cfg_coverage :: "CoverageReport option"
  cfg_elapsed :: duration
  cfg_withoutVerdicts :: bool
  cfg_benchDeltas :: "BenchDelta list option" \<comment> \<open>a nil slice is \<open>None\<close>\<close>
  cfg_benchEnvWarning :: string
  cfg_benchGate :: "BenchGate option"
  cfg_groups :: "GroupRunRow list"

definition colors_of :: "renderConfig \<Rightarrow> colors" where
  "colors_of cfg = (if cfg_color cfg then ansiColors else noColors)"

subsection \<open>Pieces of a line\<close>

text \<open>A negative duration has no whole millisecond either way it is rounded.\<close>

definition formatDuration :: "number_texts \<Rightarrow> duration \<Rightarrow> string" where
  "formatDuration T d =
     (let ms = d div 1000000 in
      if ms < 1 then ''<1ms'' else if ms < 1000 then itoa ms @ ''ms'' else fmt_seconds T d @ ''s'')"

definition formatNs :: "number_texts \<Rightarrow> f64 \<Rightarrow> string" where
  "formatNs T ns = (if fmt_whole T ns then fmt_f0 T ns else fmt_f1 T ns)"

definition formatMetrics :: "number_texts \<Rightarrow> (string \<times> f64) list \<Rightarrow> string" where
  "formatMetrics T metrics =
     concat (map (\<lambda>u. '' '' @ middle_dot @ '' '' @ fmt_full T (the (map_of metrics u)) @ '' '' @ u) (sort (map fst metrics)))"

definition statusIcon :: "Status \<Rightarrow> colors \<Rightarrow> string \<times> string" where
  "statusIcon s c = (case s of
     StatusPass \<Rightarrow> (sign_pass, c_green c)
   | StatusFail \<Rightarrow> (sign_fail, c_red c)
   | StatusSkip \<Rightarrow> (''~'', c_yellow c)
   | StatusNone \<Rightarrow> (''?'', c_dim c))"

definition indent_of :: "nat \<Rightarrow> string" where "indent_of depth = concat (replicate depth ''  '')"

definition renderErrorOutput :: "string list \<Rightarrow> nat \<Rightarrow> colors \<Rightarrow> string" where
  "renderErrorOutput output depth c =
     concat (map (\<lambda>line. indent_of depth @ c_red c @ line @ c_reset c @ nl) (filterOutput output))"

definition groupLine :: "number_texts \<Rightarrow> GroupRunRow \<Rightarrow> string" where
  "groupLine T g =
     (let unit = (if GrSuites g = 1 then ''suite'' else ''suites'')
      in ''group '' @ GrName g @ '': '' @ nat_text (GrSuites g) @ '' '' @ unit @ '', '' @
         formatDuration T (GrWall g) @ '', run apart'')"

definition heuristicMark :: string where
  "heuristicMark = ''(n<4, '' @ plus_minus @ ''20% heuristic)''"

definition deltaMarks :: "number_texts \<Rightarrow> BenchDelta \<Rightarrow> string" where
  "deltaMarks T d =
     (if DlSignificant d \<and> fmt_pos T (DlPercentChange d) then '' '' @ warning_sign else []) @
     (if DlInsufficientSample d then '' '' @ heuristicMark else [])"

definition noDiagnosticNote :: string where "noDiagnosticNote = ''test failed without diagnostic output (bare Fail?)''"

subsection \<open>The specification\<close>

definition bareSuffix :: "node \<Rightarrow> string" where
  "bareSuffix n =
     (if Excluded (dat n) then '' '' @ dash @ '' EXCLUDED'' else []) @
     (if Incomplete (dat n) then '' '' @ dash @ '' INCOMPLETE: behaviors known only at run time'' else [])"

text \<open>The line of a passing fuzz target, of a leaf and of a node with children.\<close>

definition fuzz_line :: "number_texts \<Rightarrow> node \<Rightarrow> nat \<Rightarrow> colors \<Rightarrow> string" where
  "fuzz_line T n depth c =
     (let (icon, clr) = statusIcon (NStatus (dat n)) c
      in indent_of depth @ clr @ icon @ c_reset c @ '' '' @ Display (dat n) @ ''  '' @ nat_text (length (kids n)) @
         '' seeds '' @ c_dim c @ ''('' @ formatDuration T (EffectiveDuration n) @ '')'' @ c_reset c @ nl)"

definition leaf_errors :: "node \<Rightarrow> nat \<Rightarrow> colors \<Rightarrow> string" where
  "leaf_errors n depth c =
     (if NStatus (dat n) = StatusFail then renderErrorOutput (Output (dat n)) (depth + 2) c else [])"

definition bench_line :: "number_texts \<Rightarrow> node \<Rightarrow> nat \<Rightarrow> colors \<Rightarrow> string" where
  "bench_line T n depth c =
     (let d = dat n; (icon, clr) = statusIcon (NStatus d) c
      in indent_of depth @ clr @ icon @ c_reset c @ '' '' @ Display d @ ''  '' @ formatNs T (NsPerOp d) @ '' ns/op '' @
         middle_dot @ '' '' @ itoa (BytesPerOp d) @ '' B/op '' @ middle_dot @ '' '' @ itoa (AllocsPerOp d) @ '' allocs/op'' @
         formatMetrics T (Metrics d) @ c_reset c @ nl @ leaf_errors n depth c)"

definition leaf_line :: "number_texts \<Rightarrow> node \<Rightarrow> nat \<Rightarrow> colors \<Rightarrow> bool \<Rightarrow> string" where
  "leaf_line T n depth c bare =
     (let d = dat n; (icon, clr) = statusIcon (NStatus d) c;
          suffix = (if Excluded d \<or> NStatus d = StatusSkip then '' '' @ dash @ '' SKIPPED'' else [])
      in if bare then indent_of depth @ Display d @ bareSuffix n @ nl
         else indent_of depth @ clr @ icon @ c_reset c @ '' '' @ Display d @ suffix @ '' '' @ c_dim c @ ''('' @
           formatDuration T (EffectiveDuration n) @ '')'' @ c_reset c @ nl @ leaf_errors n depth c)"

definition group_label :: "node \<Rightarrow> colors \<Rightarrow> string" where
  "group_label n c =
     (if Kind (dat n) \<in> {KindSuite, KindFixture, KindMethod, KindTest, KindBenchmark, KindFuzz}
      then c_bold c @ Display (dat n) @ c_reset c else Display (dat n))"

definition group_suffix :: "node \<Rightarrow> colors \<Rightarrow> string" where
  "group_suffix n c =
     (if Focused (dat n) then '' '' @ c_yellow c @ dash @ '' FOCUSED'' @ c_reset c
      else if Excluded (dat n) then '' '' @ c_yellow c @ dash @ '' SKIPPED'' @ c_reset c
      else if External (dat n) then '' '' @ c_dim c @ dash @ '' EXTERNAL'' @ c_reset c
      else [])"

definition ownFailure :: "node \<Rightarrow> bool" where
  "ownFailure n \<longleftrightarrow> hasOwnDiagnostic n \<or> failedOnItsOwn n"

definition group_line :: "number_texts \<Rightarrow> node \<Rightarrow> nat \<Rightarrow> colors \<Rightarrow> string" where
  "group_line T n depth c =
     (let (icon, clr) = statusIcon StatusFail c;
          suffix = group_suffix n c @ (if ownFailure n then '' '' @ clr @ icon @ c_reset c else [])
      in indent_of depth @ group_label n c @ suffix @ '' '' @ c_dim c @ ''('' @
         formatDuration T (EffectiveDuration n) @ '')'' @ c_reset c @ nl @
         (if ownFailure n
          then renderErrorOutput (if filterOutput (Output (dat n)) \<noteq> [] then Output (dat n) else [noDiagnosticNote]) (depth + 1) c
          else []))"

fun renderNode :: "number_texts \<Rightarrow> colors \<Rightarrow> bool \<Rightarrow> nat \<Rightarrow> node \<Rightarrow> string" where
  "renderNode T c bare depth (Node d cs) =
     (let n = Node d cs in
      if Kind d = KindFuzz \<and> \<not> anyDescendantFailed n \<and> \<not> bare then fuzz_line T n depth c
      else if cs = []
      then (if Kind d = KindBenchmark \<and> Iterations d > 0 then bench_line T n depth c else leaf_line T n depth c bare)
      else (if bare then indent_of depth @ group_label n c @ bareSuffix n @ nl else group_line T n depth c) @
           concat (map (renderNode T c bare (depth + 1)) cs))"

definition renderBenchDeltaTable :: "number_texts \<Rightarrow> BenchDelta list option \<Rightarrow> colors \<Rightarrow> string" where
  "renderBenchDeltaTable T deltas c =
     (case deltas of
        None \<Rightarrow> []
      | Some ds \<Rightarrow> nl @ c_bold c @ ''BENCHMARK  OLD ns/op  NEW ns/op  '' @ big_delta @ c_reset c @ nl @
          concat (map (\<lambda>d.
            let sgn = (if fmt_nonneg T (DlPercentChange d) then ''+'' else []);
                worse = DlSignificant d \<and> fmt_pos T (DlPercentChange d)
            in (if worse then c_red c else []) @ DlKey d @ ''  '' @ fmt_f1 T (DlOldNs d) @ ''  '' @ fmt_f1 T (DlNewNs d) @
               ''  '' @ sgn @ fmt_f1 T (DlPercentChange d) @ ''%'' @ deltaMarks T d @ (if worse then c_reset c else []) @ nl) ds))"

text \<open>The trailer: what was counted, and the verdicts there are.\<close>

definition verdict_part :: "nat \<Rightarrow> string \<Rightarrow> string \<Rightarrow> colors \<Rightarrow> string list" where
  "verdict_part k clr word c = (if k > 0 then [clr @ nat_text k @ word @ c_reset c] else [])"

definition renderSummary :: "Stats \<Rightarrow> colors \<Rightarrow> string" where
  "renderSummary stats c =
     (let parts = verdict_part (Passed stats) (c_green c) '' passed'' c @
            verdict_part (Failed stats) (c_red c) '' failed'' c @
            verdict_part (Skipped stats) (c_yellow c) '' skipped'' c @
            (if FailedPackages stats > 0
             then [c_red c @ countNoun (FailedPackages stats) ''failed package'' ''failed packages'' @ c_reset c] else []);
          counts = countParts stats
      in if parts = [] then join '', '' counts @ nl
         else join '', '' counts @ '': '' @ join '', '' parts @ nl)"

text \<open>A verdict that sits on the package itself.\<close>

definition package_verdict :: "Package \<Rightarrow> colors \<Rightarrow> string" where
  "package_verdict pkg c =
     (if PkgFailedOnItsOwn pkg
      then (let (icon, clr) = statusIcon StatusFail c;
                lines = filterOutput (POutput pkg)
            in clr @ icon @ c_reset c @ '' '' @ (c_bold c @ c_red c) @ ''FAIL'' @ c_reset c @ nl @
               renderErrorOutput (if lines = [] then [noDiagnosticNote] else lines) 1 c)
      else [])"

definition package_text :: "number_texts \<Rightarrow> renderConfig \<Rightarrow> bool \<Rightarrow> nat \<times> Package \<Rightarrow> string" where
  "package_text T cfg multiPkg ip =
     (let c = colors_of cfg; (i, pkg) = ip
      in (if multiPkg then (if i > 0 then nl else []) @ c_dim c @ ''=== '' @ Path pkg @ '' ==='' @ c_reset c @ nl @ nl else []) @
         concat (map (renderNode T c (cfg_withoutVerdicts cfg) 0) (Nodes pkg)) @ package_verdict pkg c)"

definition RenderTerminal :: "number_texts \<Rightarrow> renderConfig \<Rightarrow> Package list \<Rightarrow> string" where
  "RenderTerminal T cfg packages =
     (let c = colors_of cfg
      in concat (map (package_text T cfg (length packages > 1)) (enumerate 0 packages)) @
         renderBenchDeltaTable T (cfg_benchDeltas cfg) c @ nl @ renderSummary (CollectStats packages) c)"

subsection \<open>The summary\<close>

record packageDiagnostic =
  DgPackage :: string
  DgOutput :: "string list"

definition collectPackageDiagnostics :: "Package list \<Rightarrow> packageDiagnostic list" where
  "collectPackageDiagnostics packages =
     concat (map (\<lambda>pkg. if PStatus pkg \<noteq> StatusFail \<or> POutput pkg = [] then []
       else [\<lparr>DgPackage = Path pkg, DgOutput = POutput pkg\<rparr>]) packages)"

definition effectiveDuration :: "renderConfig \<Rightarrow> Package list \<Rightarrow> duration" where
  "effectiveDuration cfg packages = (if cfg_elapsed cfg > 0 then cfg_elapsed cfg else TotalDuration packages)"

definition renderGroups :: "number_texts \<Rightarrow> GroupRunRow list \<Rightarrow> colors \<Rightarrow> string" where
  "renderGroups T gs c = concat (map (\<lambda>g. c_dim c @ groupLine T g @ c_reset c @ nl) gs)"

definition coverage_text :: "number_texts \<Rightarrow> CoverageReport option \<Rightarrow> colors \<Rightarrow> string" where
  "coverage_text T cov c =
     (case cov of None \<Rightarrow> [] | Some r \<Rightarrow> c_dim c @ ''Coverage: '' @ fmt_f1 T (RTotal r) @ ''%'' @ c_reset c @ nl)"

text \<open>Whether the summary has nothing to report.\<close>

definition all_green :: "Package list \<Rightarrow> bool" where
  "all_green packages \<longleftrightarrow> collectFailures packages = [] \<and> collectPackageDiagnostics packages = [] \<and>
     FailedPackages (CollectStats packages) = 0"

definition or_note :: "string list \<Rightarrow> string list" where
  "or_note lines = (if lines = [] then [noDiagnosticNote] else lines)"

definition failure_text :: "number_texts \<Rightarrow> colors \<Rightarrow> failure \<Rightarrow> string" where
  "failure_text T c f =
     nl @ c_red c @ ''FAIL'' @ c_reset c @ ''  '' @ c_dim c @ FlPackage f @ c_reset c @ '' '' @
     join '' / '' (FlDisplay f) @ '' ('' @ formatDuration T (FlDuration f) @ '')'' @ nl @
     concat (map (\<lambda>line. ''      '' @ c_red c @ line @ c_reset c @ nl) (or_note (filterOutput (FlOutput f))))"

definition diagnostic_text :: "colors \<Rightarrow> packageDiagnostic \<Rightarrow> string" where
  "diagnostic_text c d =
     nl @ c_red c @ ''FAIL'' @ c_reset c @ ''  '' @ c_dim c @ DgPackage d @ c_reset c @ nl @
     concat (map (\<lambda>line. ''      '' @ c_red c @ line @ c_reset c @ nl) (filterOutput (DgOutput d)))"

definition RenderSummary :: "number_texts \<Rightarrow> renderConfig \<Rightarrow> Package list \<Rightarrow> string" where
  "RenderSummary T cfg packages =
     (let c = colors_of cfg; stats = CollectStats packages; failures = collectFailures packages;
          diags = collectPackageDiagnostics packages;
          rest = renderGroups T (cfg_groups cfg) c @ coverage_text T (cfg_coverage cfg) c @
            renderBenchDeltaTable T (cfg_benchDeltas cfg) c
      in if all_green packages
         then c_green c @ nat_text (Total stats) @ '' tests passed'' @ c_reset c @ '' ('' @
           formatDuration T (effectiveDuration cfg packages) @ '')'' @ nl @ rest
         else (if failures \<noteq> []
               then c_red c @ nat_text (Failed stats) @ '' of '' @ nat_text (Total stats) @ '' tests failed'' @ c_reset c @ nl @
                 concat (map (failure_text T c) failures)
               else c_green c @ nat_text (Total stats) @ '' tests passed'' @ c_reset c @ '' '' @ dash @ '' '' @
                 c_red c @ ''package failure detected'' @ c_reset c @ nl) @
           concat (map (diagnostic_text c) diags) @ nl @ rest @ renderSummary stats c)"

end
