(* ===== verification/TerminalProps.thy ===== *)
theory TerminalProps
  imports Terminal SpecTreeProps
begin

text \<open>
  The terminal reports of \<^verbatim>\<open>terminal.go\<close> and \<^verbatim>\<open>summary.go\<close> hide no failure: every failure the summary
  lists carries a mark in the specification, and the summary's headline is the green one only
  when nothing failed.  The mark is told by the last byte of its sign, which no other sign of the
  report holds.
\<close>

definition fail_byte :: char where "fail_byte = CHR 0x97"
definition marks :: "string \<Rightarrow> nat" where "marks s = count_list s fail_byte"
definition quiet :: "string \<Rightarrow> bool" where "quiet s \<longleftrightarrow> fail_byte \<notin> set s"

lemma marks_append [simp]: "marks (a @ b) = marks a + marks b"
  by (simp add: marks_def)

lemma marks_concat: "marks (concat (map f xs)) = sum_list (map (\<lambda>x. marks (f x)) xs)"
  by (induction xs) (simp_all add: marks_def)

lemma marks_Cons [simp]: "marks [] = 0" "marks (c # s) = (if c = fail_byte then 1 else 0) + marks s"
  by (auto simp: marks_def)

lemma quiet_marks: "quiet s \<longleftrightarrow> marks s = 0"
  by (simp add: quiet_def marks_def count_list_0_iff)

lemma marks_quiet: "quiet s \<Longrightarrow> marks s = 0"
  by (simp add: quiet_marks)

lemma not_fail_byte [simp]: "c \<noteq> CHR 0x97 \<Longrightarrow> (c = fail_byte) = False"
  by (simp add: fail_byte_def)

lemma quiet_simps [simp]:
  "quiet []" "quiet (c # s) \<longleftrightarrow> c \<noteq> fail_byte \<and> quiet s" "quiet (a @ b) \<longleftrightarrow> quiet a \<and> quiet b"
  by (auto simp: quiet_def)

lemma ascii_not_fail: "(of_char c :: nat) < 128 \<Longrightarrow> c \<noteq> fail_byte"
  by (auto simp: fail_byte_def)

lemma digits_quiet: "quiet (digits n)"
  using digits_digit[of n] by (auto simp: quiet_def list_all_iff is_digit_def fail_byte_def)

lemma itoa_quiet [simp]: "quiet (itoa i)" "quiet (nat_text n)"
  by (auto simp: itoa_def nat_text_def digits_quiet)

lemmas itoa_marks [simp] = itoa_quiet[THEN marks_quiet]

lemma colors_quiet [simp]:
  "quiet (c_reset (colors_of cfg))" "quiet (c_red (colors_of cfg))" "quiet (c_green (colors_of cfg))"
  "quiet (c_yellow (colors_of cfg))" "quiet (c_bold (colors_of cfg))" "quiet (c_dim (colors_of cfg))"
  by (simp_all add: colors_of_def ansiColors_def noColors_def ansi_def)

lemmas colors_marks [simp] = colors_quiet[THEN marks_quiet]

lemma signs_quiet [simp]:
  "quiet sign_pass" "quiet dash" "quiet middle_dot" "quiet warning_sign" "quiet big_delta" "quiet plus_minus" "quiet nl"
  by (simp_all add: signs_def nl_def)

lemmas signs_marks [simp] = signs_quiet[THEN marks_quiet]

lemma sign_fail_marks [simp]: "marks sign_fail = 1"
  by (simp add: sign_fail_def) (simp add: fail_byte_def)

definition quiet_texts :: "number_texts \<Rightarrow> bool" where
  "quiet_texts T \<longleftrightarrow> (\<forall>v. quiet (fmt_f0 T v) \<and> quiet (fmt_f1 T v) \<and> quiet (fmt_g T v) \<and> quiet (fmt_full T v)) \<and>
     (\<forall>d. quiet (fmt_seconds T d))"

fun quiet_node :: "node \<Rightarrow> bool" where
  "quiet_node (Node d cs) \<longleftrightarrow> quiet (Display d) \<and> list_all quiet (Output d) \<and> list_all quiet (map fst (Metrics d)) \<and>
     (\<forall>c \<in> set cs. quiet_node c)"

lemma formatDuration_quiet: "quiet_texts T \<Longrightarrow> quiet (formatDuration T d)"
  by (simp add: formatDuration_def quiet_texts_def Let_def)

lemma formatNs_quiet: "quiet_texts T \<Longrightarrow> quiet (formatNs T v)"
  by (simp add: formatNs_def quiet_texts_def)

lemma concat_quiet: "(\<And>x. x \<in> set xs \<Longrightarrow> quiet (f x)) \<Longrightarrow> quiet (concat (map f xs))"
  by (induction xs) auto

lemma formatMetrics_quiet: "quiet_texts T \<Longrightarrow> list_all quiet (map fst m) \<Longrightarrow> quiet (formatMetrics T m)"
  unfolding formatMetrics_def
  by (rule concat_quiet) (auto simp: quiet_texts_def list_all_iff)

lemma indent_quiet [simp]: "quiet (indent_of k)" "marks (indent_of k) = 0"
  by (induction k) (simp_all add: indent_of_def marks_def)

lemma set_trim_right: "set (trim_right cs s) \<subseteq> set s"
  by (metis trim_right_def set_rev set_dropWhileD subsetI)

definition kept_lines :: "string list \<Rightarrow> string list" where
  "kept_lines output = concat (map (\<lambda>line.
            let stripped = trim_right {CHR '' '', CHR 0x09, CHR 0x0A, CHR 0x0D} line;
                trimmed = trim_space stripped
            in if trimmed = [] \<or> hasPrefix trimmed ''=== '' \<or> hasPrefix trimmed ''--- '' then []
               else [stripped]) output)"

lemma filterOutput_drop: "\<exists>k. filterOutput output = map (drop k) (kept_lines output)"
proof -
  have "\<exists>k. (case ls of [] \<Rightarrow> []
      | l # xs \<Rightarrow> let m = g l xs in if m = 0 then ls else map (drop m) ls) = map (drop k) ls" for ls :: "string list" and g
    by (cases ls) (auto simp: Let_def intro: exI[of _ 0])
  then show ?thesis unfolding filterOutput_def kept_lines_def Let_def by simp
qed

lemma kept_lines_set: "l \<in> set (kept_lines out) \<Longrightarrow> \<exists>line \<in> set out. set l \<subseteq> set line"
proof -
  assume "l \<in> set (kept_lines out)"
  then obtain line where "line \<in> set out" "l = trim_right {CHR '' '', CHR 0x09, CHR 0x0A, CHR 0x0D} line"
    by (auto simp: kept_lines_def Let_def split: if_splits)
  then show ?thesis using set_trim_right by blast
qed

lemma filterOutput_quiet: "list_all quiet output \<Longrightarrow> l \<in> set (filterOutput output) \<Longrightarrow> quiet l"
proof -
  assume q: "list_all quiet output" and l: "l \<in> set (filterOutput output)"
  obtain k where "filterOutput output = map (drop k) (kept_lines output)" using filterOutput_drop by blast
  then obtain x where "x \<in> set (kept_lines output)" "l = drop k x" using l by auto
  then show "quiet l" using q kept_lines_set by (fastforce simp: list_all_iff quiet_def dest!: in_set_dropD)
qed

lemma errors_quiet:
  assumes "list_all quiet output"
  shows "quiet (renderErrorOutput output depth (colors_of cfg))"
  unfolding renderErrorOutput_def by (rule concat_quiet) (use filterOutput_quiet[OF assms] in simp)

lemma error_marks: "list_all quiet output \<Longrightarrow> marks (renderErrorOutput output depth (colors_of cfg)) = 0"
  by (rule marks_quiet[OF errors_quiet])

lemma icon_marks: "marks (fst (statusIcon s c)) = (if s = StatusFail then 1 else 0)"
  by (cases s) (simp_all add: statusIcon_def)

lemma icon_color_quiet: "quiet (snd (statusIcon s (colors_of cfg)))"
  by (cases s) (simp_all add: statusIcon_def)

definition verdict :: "node \<Rightarrow> nat" where "verdict n = (if NStatus (dat n) = StatusFail then 1 else 0)"

lemma fuzz_line_marks:
  "verdict n \<le> marks (fuzz_line T n depth (colors_of cfg))"
  "quiet_node n \<Longrightarrow> quiet_texts T \<Longrightarrow> marks (fuzz_line T n depth (colors_of cfg)) = verdict n"
  by (cases n; simp add: quiet_marks fuzz_line_def verdict_def case_prod_beta Let_def icon_marks icon_color_quiet[THEN marks_quiet]
      formatDuration_quiet[THEN marks_quiet])+

lemma leaf_line_marks:
  "verdict n \<le> marks (leaf_line T n depth (colors_of cfg) False)"
  "quiet_node n \<Longrightarrow> quiet_texts T \<Longrightarrow> marks (leaf_line T n depth (colors_of cfg) False) = verdict n"
  by (cases n; simp add: quiet_marks leaf_line_def leaf_errors_def verdict_def case_prod_beta Let_def icon_marks icon_color_quiet[THEN marks_quiet]
      formatDuration_quiet[THEN marks_quiet] error_marks)+

lemma bench_line_marks:
  "verdict n \<le> marks (bench_line T n depth (colors_of cfg))"
  "quiet_node n \<Longrightarrow> quiet_texts T \<Longrightarrow> marks (bench_line T n depth (colors_of cfg)) = verdict n"
  by (cases n; simp add: quiet_marks bench_line_def leaf_errors_def verdict_def case_prod_beta Let_def icon_marks icon_color_quiet[THEN marks_quiet]
      formatNs_quiet[THEN marks_quiet] formatMetrics_quiet[THEN marks_quiet] error_marks)+

lemma note_quiet [simp]: "quiet noDiagnosticNote" "marks noDiagnosticNote = 0"
  by (simp_all add: noDiagnosticNote_def)

lemma group_label_quiet: "quiet (Display (dat n)) \<Longrightarrow> quiet (group_label n (colors_of cfg))"
  by (simp add: group_label_def)

lemma group_suffix_quiet: "quiet (group_suffix n (colors_of cfg))"
  by (simp add: group_suffix_def)

lemma group_line_marks:
  "(if ownFailure n then 1 else 0) \<le> marks (group_line T n depth (colors_of cfg))"
  "quiet_node n \<Longrightarrow> quiet_texts T \<Longrightarrow> marks (group_line T n depth (colors_of cfg)) = (if ownFailure n then 1 else 0)"
  by (cases n; simp add: quiet_marks group_line_def case_prod_beta Let_def icon_marks icon_color_quiet[THEN marks_quiet] group_label_quiet[THEN marks_quiet]
      group_suffix_quiet[THEN marks_quiet] formatDuration_quiet[THEN marks_quiet] error_marks)+

text \<open>What a node reports in the summary, and the marks of its own line.\<close>

lemma failed_leaves_Node:
  "length (collectFailedLeaves p disp (Node d cs)) =
     (if NStatus d = StatusFail \<and> (cs = [] \<or> ownFailure (Node d cs)) then 1 else 0) +
     sum_list (map (\<lambda>c. length (collectFailedLeaves p (disp @ [Display d]) c)) cs)"
  by (simp add: Let_def ownFailure_def length_concat comp_def disj_commute)

lemma no_failure_no_leaves: "\<not> any_failed n \<Longrightarrow> collectFailedLeaves p disp n = []"
proof (induction n arbitrary: disp)
  case (Node d cs)
  have "\<forall>c \<in> set cs. \<not> any_failed c" using Node.prems any_failed_kid[of "Node d cs"] by (auto simp: any_failed_def)
  then show ?case using Node by (auto simp: Let_def any_failed_def)
qed

lemma no_descendant_no_leaves:
  "\<not> anyDescendantFailed (Node d cs) \<Longrightarrow> sum_list (map (\<lambda>c. length (collectFailedLeaves p disp c)) cs) = 0"
  using any_failed_kid[of "Node d cs"] no_failure_no_leaves by auto

lemma own_failure_failed: "ownFailure n \<Longrightarrow> NStatus (dat n) = StatusFail \<and> kids n \<noteq> []"
  by (auto simp: ownFailure_def hasOwnDiagnostic_def failedOnItsOwn_def)

lemma closed_own_failure:
  "\<not> anyDescendantFailed n \<Longrightarrow> NStatus (dat n) = StatusFail \<Longrightarrow> kids n \<noteq> [] \<Longrightarrow> ownFailure n"
  by (simp add: ownFailure_def failedOnItsOwn_def)

definition own_mark :: "node \<Rightarrow> nat" where
  "own_mark n = (if NStatus (dat n) = StatusFail \<and> (kids n = [] \<or> ownFailure n) then 1 else 0)"

lemma renderNode_Node:
  "renderNode T c False depth (Node d cs) =
     (if Kind d = KindFuzz \<and> \<not> anyDescendantFailed (Node d cs) then fuzz_line T (Node d cs) depth c
      else if cs = []
      then (if Kind d = KindBenchmark \<and> Iterations d > 0 then bench_line T (Node d cs) depth c
            else leaf_line T (Node d cs) depth c False)
      else group_line T (Node d cs) depth c @ concat (map (renderNode T c False (depth + 1)) cs))"
  unfolding renderNode.simps Let_def by simp

lemma renderNode_marks:
  "length (collectFailedLeaves p disp n) \<le> marks (renderNode T (colors_of cfg) False depth n) \<and>
   (quiet_node n \<and> quiet_texts T \<longrightarrow>
      marks (renderNode T (colors_of cfg) False depth n) = length (collectFailedLeaves p disp n))"
proof (induction n arbitrary: disp depth)
  case (Node d cs)
  let ?n = "Node d cs"
  let ?sub = "sum_list (map (\<lambda>c. length (collectFailedLeaves p (disp @ [Display d]) c)) cs)"
  have L: "length (collectFailedLeaves p disp ?n) = own_mark ?n + ?sub"
    unfolding failed_leaves_Node by (simp add: own_mark_def)
  consider (fuzz) "Kind d = KindFuzz" "\<not> anyDescendantFailed ?n"
    | (leaf) "cs = []" "\<not> (Kind d = KindFuzz \<and> \<not> anyDescendantFailed ?n)"
    | (group) "cs \<noteq> []" "\<not> (Kind d = KindFuzz \<and> \<not> anyDescendantFailed ?n)" by blast
  then show ?case
  proof cases
    case fuzz
    have own: "own_mark ?n = verdict ?n"
      using closed_own_failure[of ?n] fuzz(2) by (auto simp: own_mark_def verdict_def)
    show ?thesis unfolding L renderNode_Node no_descendant_no_leaves[OF fuzz(2)] own
      using fuzz fuzz_line_marks[of ?n] by simp
  next
    case leaf
    have "own_mark ?n = verdict ?n" "?sub = 0" using leaf by (simp_all add: own_mark_def verdict_def)
    then show ?thesis unfolding L renderNode_Node
      using leaf leaf_line_marks[of ?n] bench_line_marks[of ?n] by simp
  next
    case group
    have own: "own_mark ?n = (if ownFailure ?n then 1 else 0)"
      using own_failure_failed[of ?n] group(1) by (auto simp: own_mark_def)
    have R: "renderNode T (colors_of cfg) False depth ?n =
        group_line T ?n depth (colors_of cfg) @ concat (map (renderNode T (colors_of cfg) False (depth + 1)) cs)"
      unfolding renderNode_Node using group by auto
    have le: "?sub \<le> sum_list (map (\<lambda>c. marks (renderNode T (colors_of cfg) False (depth + 1) c)) cs)"
      using Node.IH by (intro sum_list_mono) blast
    have eq: "?sub = sum_list (map (\<lambda>c. marks (renderNode T (colors_of cfg) False (depth + 1) c)) cs)"
      if "quiet_node ?n" "quiet_texts T"
      by (intro arg_cong[where f = sum_list] map_cong refl) (metis Node.IH quiet_node.simps that)
    show ?thesis unfolding L R own marks_append marks_concat
      using le eq group_line_marks[of ?n T depth cfg] by (auto simp del: quiet_node.simps)
  qed
qed

definition quiet_package :: "Package \<Rightarrow> bool" where
  "quiet_package pkg \<longleftrightarrow> quiet (Path pkg) \<and> list_all quiet (POutput pkg) \<and> list_all quiet_node (Nodes pkg)"

definition quiet_deltas :: "BenchDelta list option \<Rightarrow> bool" where
  "quiet_deltas ds = (case ds of None \<Rightarrow> True | Some ds \<Rightarrow> list_all (\<lambda>d. quiet (DlKey d)) ds)"

lemma deltas_quiet:
  assumes "quiet_texts T" "quiet_deltas ds"
  shows "quiet (renderBenchDeltaTable T ds (colors_of cfg))"
proof (cases ds)
  case (Some xs)
  have "quiet (concat (map (\<lambda>d.
            let sgn = (if fmt_nonneg T (DlPercentChange d) then ''+'' else []);
                worse = DlSignificant d \<and> fmt_pos T (DlPercentChange d)
            in (if worse then c_red (colors_of cfg) else []) @ DlKey d @ ''  '' @ fmt_f1 T (DlOldNs d) @ ''  '' @ fmt_f1 T (DlNewNs d) @
               ''  '' @ sgn @ fmt_f1 T (DlPercentChange d) @ ''%'' @ deltaMarks T d @ (if worse then c_reset (colors_of cfg) else []) @ nl) xs))"
    by (rule concat_quiet)
      (use assms Some in \<open>auto simp: quiet_texts_def quiet_deltas_def list_all_iff Let_def deltaMarks_def heuristicMark_def\<close>)
  then show ?thesis using Some by (simp add: renderBenchDeltaTable_def)
qed (simp add: renderBenchDeltaTable_def)

lemma join_quiet: "quiet sep \<Longrightarrow> list_all quiet xs \<Longrightarrow> quiet (join sep xs)"
  by (induction sep xs rule: join.induct) auto

lemma countNoun_quiet: "quiet a \<Longrightarrow> quiet b \<Longrightarrow> quiet (countNoun n a b)"
  by (simp add: countNoun_def)

lemma countParts_quiet: "list_all quiet (countParts s)"
  by (simp add: countParts_def count_part_def countNoun_quiet Let_def)

lemma verdict_part_quiet:
  "quiet clr \<Longrightarrow> quiet w \<Longrightarrow> list_all quiet (verdict_part k clr w (colors_of cfg))"
  by (simp add: verdict_part_def)

lemma renderSummary_quiet: "quiet (renderSummary s (colors_of cfg))"
  by (simp add: renderSummary_def Let_def join_quiet countParts_quiet verdict_part_quiet countNoun_quiet)

lemma package_verdict_marks:
  "(if PkgFailedOnItsOwn pkg then 1 else 0) \<le> marks (package_verdict pkg (colors_of cfg))"
  "quiet_package pkg \<Longrightarrow> marks (package_verdict pkg (colors_of cfg)) = (if PkgFailedOnItsOwn pkg then 1 else 0)"
proof -
  have "list_all quiet (filterOutput (POutput pkg))" if "quiet_package pkg"
    using filterOutput_quiet that by (auto simp: quiet_package_def list_all_iff)
  then show "(if PkgFailedOnItsOwn pkg then 1 else 0) \<le> marks (package_verdict pkg (colors_of cfg))"
      "quiet_package pkg \<Longrightarrow> marks (package_verdict pkg (colors_of cfg)) = (if PkgFailedOnItsOwn pkg then 1 else 0)"
    by (simp_all add: package_verdict_def case_prod_beta Let_def icon_marks icon_color_quiet[THEN marks_quiet] error_marks)
qed

definition package_marks :: "Package \<Rightarrow> nat" where
  "package_marks pkg = length (concat (map (collectFailedLeaves (Path pkg) []) (Nodes pkg))) +
     (if PkgFailedOnItsOwn pkg then 1 else 0)"

lemma package_text_marks:
  assumes "\<not> cfg_withoutVerdicts cfg"
  shows "package_marks pkg \<le> marks (package_text T cfg m (i, pkg))"
    "quiet_package pkg \<Longrightarrow> quiet_texts T \<Longrightarrow> marks (package_text T cfg m (i, pkg)) = package_marks pkg"
proof -
  let ?r = "\<lambda>n. marks (renderNode T (colors_of cfg) False 0 n)" and ?l = "\<lambda>n. length (collectFailedLeaves (Path pkg) [] n)"
  have L: "package_marks pkg = sum_list (map ?l (Nodes pkg)) + (if PkgFailedOnItsOwn pkg then 1 else 0)"
    by (simp add: package_marks_def length_concat comp_def)
  have le: "sum_list (map ?l (Nodes pkg)) \<le> sum_list (map ?r (Nodes pkg))"
    using renderNode_marks by (intro sum_list_mono) blast
  have eq: "sum_list (map ?r (Nodes pkg)) = sum_list (map ?l (Nodes pkg))" if "quiet_package pkg" "quiet_texts T"
    using that renderNode_marks[of "Path pkg" "[]"]
    by (intro arg_cong[where f = sum_list] map_cong) (auto simp: quiet_package_def list_all_iff)
  have ge: "marks (package_text T cfg m (i, pkg)) \<ge> sum_list (map ?r (Nodes pkg)) + marks (package_verdict pkg (colors_of cfg))"
    using assms by (simp add: package_text_def Let_def marks_concat)
  then show "package_marks pkg \<le> marks (package_text T cfg m (i, pkg))"
    unfolding L using le package_verdict_marks(1)[of pkg cfg] by linarith
  assume q: "quiet_package pkg" "quiet_texts T"
  then have "marks (package_text T cfg m (i, pkg)) = sum_list (map ?r (Nodes pkg)) + marks (package_verdict pkg (colors_of cfg))"
    using assms by (simp add: package_text_def Let_def marks_concat quiet_package_def marks_quiet)
  then show "marks (package_text T cfg m (i, pkg)) = package_marks pkg"
    unfolding L using eq[OF q] package_verdict_marks(2)[OF q(1), of cfg] by simp
qed

lemma packages_marks:
  assumes "\<not> cfg_withoutVerdicts cfg"
  shows "sum_list (map package_marks packages) \<le> marks (concat (map (package_text T cfg m) (enumerate k packages))) \<and>
    (list_all quiet_package packages \<and> quiet_texts T \<longrightarrow>
      marks (concat (map (package_text T cfg m) (enumerate k packages))) = sum_list (map package_marks packages))"
proof (induction packages arbitrary: k)
  case (Cons pkg packages)
  then show ?case
    using Cons.IH[of "Suc k"] package_text_marks[OF assms, of pkg T m k] by (auto intro: add_mono)
qed simp

lemma sum_package_marks:
  "sum_list (map package_marks packages) = length (collectFailures packages) + length (filter PkgFailedOnItsOwn packages)"
  by (induction packages) (simp_all add: collectFailures_def package_marks_def)

lemma failed_has_leaf: "any_failed n \<Longrightarrow> collectFailedLeaves p disp n \<noteq> []"
proof (induction n arbitrary: disp)
  case (Node d cs)
  show ?case
  proof (cases "anyDescendantFailed (Node d cs)")
    case True
    then obtain c where "c \<in> set cs" "any_failed c" using any_failed_kid[of "Node d cs"] by auto
    then show ?thesis using Node.IH[of c "disp @ [Display d]"] by (auto simp: Let_def)
  next
    case False
    then have "NStatus d = StatusFail" using Node.prems by (simp add: any_failed_def)
    then show ?thesis using closed_own_failure[of "Node d cs"] False
      by (cases "cs = []") (auto simp: Let_def ownFailure_def)
  qed
qed

definition red :: "Package list \<Rightarrow> bool" where
  "red packages \<longleftrightarrow> (\<exists>pkg \<in> set packages. PStatus pkg = StatusFail \<or> (\<exists>n \<in> set (Nodes pkg). any_failed n))"

lemma package_marks_pos:
  "0 < package_marks pkg \<longleftrightarrow> PStatus pkg = StatusFail \<or> (\<exists>n \<in> set (Nodes pkg). any_failed n)"
proof -
  have "concat (map (collectFailedLeaves (Path pkg) []) (Nodes pkg)) \<noteq> [] \<longleftrightarrow> (\<exists>n \<in> set (Nodes pkg). any_failed n)"
    using failed_has_leaf no_failure_no_leaves by fastforce
  then show ?thesis by (auto simp: package_marks_def PkgFailedOnItsOwn_def list_ex_iff any_failed_def)
qed

lemma red_marks: "red packages \<longleftrightarrow> 0 < sum_list (map package_marks packages)"
  using package_marks_pos by (auto simp: red_def sum_list_pos_iff)

lemma RenderTerminal_marks:
  assumes "\<not> cfg_withoutVerdicts cfg"
  shows "sum_list (map package_marks packages) \<le> marks (RenderTerminal T cfg packages)"
    "list_all quiet_package packages \<Longrightarrow> quiet_texts T \<Longrightarrow> quiet_deltas (cfg_benchDeltas cfg) \<Longrightarrow>
     marks (RenderTerminal T cfg packages) = sum_list (map package_marks packages)"
  using packages_marks[OF assms, of packages T _ 0]
  by (auto simp: RenderTerminal_def Let_def marks_quiet[OF deltas_quiet] marks_quiet[OF renderSummary_quiet] trans_le_add1)

text \<open>
  C28: Unless it is asked for no verdicts, the terminal report has a failure mark for every failure
  the summary lists and for every package that failed on its own, one for one when no name or output
  holds the mark's byte; and there is at least one exactly when some package or some node at any
  depth failed.
\<close>

theorem terminal_marks_failures:
  assumes "\<not> cfg_withoutVerdicts cfg"
  shows "length (collectFailures packages) + length (filter PkgFailedOnItsOwn packages) \<le> marks (RenderTerminal T cfg packages) \<and>
    (list_all quiet_package packages \<and> quiet_texts T \<and> quiet_deltas (cfg_benchDeltas cfg) \<longrightarrow>
      marks (RenderTerminal T cfg packages) = length (collectFailures packages) + length (filter PkgFailedOnItsOwn packages)) \<and>
    (red packages \<longleftrightarrow> 0 < length (collectFailures packages) + length (filter PkgFailedOnItsOwn packages))"
  using RenderTerminal_marks[OF assms, of packages T] red_marks[of packages] unfolding sum_package_marks by simp

definition some_texts :: number_texts where
  "some_texts = \<lparr>fmt_whole = (\<lambda>v. True), fmt_f0 = (\<lambda>v. ''1''), fmt_f1 = (\<lambda>v. ''1.0''), fmt_g = (\<lambda>v. ''1''),
     fmt_full = (\<lambda>v. ''1''), fmt_nonneg = (\<lambda>v. True), fmt_pos = (\<lambda>v. False), fmt_seconds = (\<lambda>d. ''1.0'')\<rparr>"

definition some_config :: renderConfig where
  "some_config = \<lparr>cfg_color = True, cfg_coverage = None, cfg_elapsed = 0, cfg_withoutVerdicts = False,
     cfg_benchDeltas = None, cfg_benchEnvWarning = [], cfg_benchGate = None, cfg_groups = []\<rparr>"

definition failed_run :: "string \<Rightarrow> Package list" where
  "failed_run name = [\<lparr>Path = ''m/p'', PStatus = StatusFail, PDuration = 0,
     Nodes = [Node (zero_node\<lparr>Name := ''TestS'', Display := ''S'', Kind := KindSuite, NStatus := StatusFail\<rparr>)
       [Node (zero_node\<lparr>Name := name, Display := name, Kind := KindBlock, NStatus := StatusFail, Output := [name]\<rparr>) []]],
     POutput = []\<rparr>]"

lemma terminal_marks_failures_witness: "marks (RenderTerminal some_texts some_config (failed_run ''works'')) = 1"
proof -
  have "list_all quiet_package (failed_run ''works'')" "quiet_texts some_texts" "quiet_deltas (cfg_benchDeltas some_config)"
    "\<not> cfg_withoutVerdicts some_config"
    by (simp_all add: failed_run_def quiet_package_def zero_node_def some_texts_def quiet_texts_def quiet_deltas_def some_config_def)
  moreover have "length (collectFailures (failed_run ''works'')) + length (filter PkgFailedOnItsOwn (failed_run ''works'')) = 1"
    by code_simp
  ultimately show ?thesis using terminal_marks_failures[of some_config "failed_run ''works''" some_texts] by simp
qed

subsection \<open>The summary's headline\<close>

lemma count_part_FailedPackages: "FailedPackages (collectStats b n s) = FailedPackages s"
proof (induction n arbitrary: b s)
  case (Node d cs)
  have "FailedPackages (fold (collectStats b) cs s') = FailedPackages s'" for s' b
    using Node by (induction cs arbitrary: s') simp_all
  then show ?case by (simp add: Let_def count_verdict_def count_one_def split: Status.split)
qed

lemma package_FailedPackages:
  "FailedPackages (package_stats pkg s) = FailedPackages s + (if PkgFailedOnItsOwn pkg then 1 else 0)"
proof -
  have "FailedPackages (fold (\<lambda>n s. collectStats (Kind (dat n) = KindTest) n s) ns s') = FailedPackages s'" for ns s'
    by (induction ns arbitrary: s') (simp_all add: count_part_FailedPackages)
  then show ?thesis by (simp add: package_stats_def Let_def)
qed

lemma CollectStats_FailedPackages:
  "FailedPackages (CollectStats packages) = length (filter PkgFailedOnItsOwn packages)"
proof -
  have "FailedPackages (fold package_stats ps s) = FailedPackages s + length (filter PkgFailedOnItsOwn ps)" for ps s
    by (induction ps arbitrary: s) (simp_all add: package_FailedPackages)
  then show ?thesis by (simp add: CollectStats_def zero_stats_def)
qed

lemma all_green_red: "all_green packages \<longleftrightarrow> \<not> red packages"
proof -
  have "collectPackageDiagnostics packages = []" if "\<not> red packages"
    using that by (auto simp: collectPackageDiagnostics_def red_def)
  moreover have "\<not> red packages \<longleftrightarrow> collectFailures packages = [] \<and> FailedPackages (CollectStats packages) = 0"
    using red_marks[of packages] unfolding sum_package_marks CollectStats_FailedPackages by simp
  ultimately show ?thesis unfolding all_green_def by blast
qed

lemma digits_split:
  assumes "digits a @ x = digits b @ y" "x = [] \<or> \<not> is_digit (hd x)" "y = [] \<or> \<not> is_digit (hd y)"
  shows "a = b \<and> x = y"
proof -
  have tw: "takeWhile is_digit (digits n @ z) = digits n" if "z = [] \<or> \<not> is_digit (hd z)" for n z
    using digits_digit[of n] that by (cases z) (simp_all add: takeWhile_append list_all_iff)
  have "digits a = digits b" using tw[OF assms(2), of a] tw[OF assms(3), of b] assms(1) by simp
  then show ?thesis using assms(1) read_digits_digits by (metis append_same_eq same_append_eq)
qed

definition green_line :: "colors \<Rightarrow> nat \<Rightarrow> string" where
  "green_line c k = c_green c @ nat_text k @ '' tests passed'' @ c_reset c @ '' (''"

lemma nat_text_digits: "nat_text k = digits k"
  by (simp add: nat_text_def itoa_def)

lemma failed_headline_not_green:
  "c_red (colors_of cfg) @ nat_text f @ '' of '' @ r \<noteq> green_line (colors_of cfg) k @ s"
proof
  assume h: "c_red (colors_of cfg) @ nat_text f @ '' of '' @ r = green_line (colors_of cfg) k @ s"
  then have "\<not> cfg_color cfg" by (auto simp: colors_of_def ansiColors_def ansi_def green_line_def)
  then have "digits f @ ('' of '' @ r) = digits k @ ('' tests passed'' @ '' ('' @ s)"
    using h by (simp add: colors_of_def noColors_def green_line_def nat_text_digits)
  then show False by (auto dest!: digits_split simp: is_digit_def)
qed

text \<open>
  The summary's first line says that all tests passed exactly when no package failed and no
  node at any depth did.
\<close>

theorem summary_green_iff:
  "hasPrefix (RenderSummary T cfg packages) (green_line (colors_of cfg) (Total (CollectStats packages))) \<longleftrightarrow> \<not> red packages"
proof (cases "all_green packages")
  case True
  then show ?thesis using all_green_red by (simp add: RenderSummary_def Let_def green_line_def hasPrefix_ex)
next
  case False
  then have r: "red packages" using all_green_red by simp
  show ?thesis
  proof (cases "collectFailures packages = []")
    case True
    then show ?thesis using False r
      by (simp add: RenderSummary_def Let_def green_line_def hasPrefix_ex dash_def)
  next
    case nonempty: False
    then show ?thesis using False r failed_headline_not_green
      by (simp add: RenderSummary_def Let_def hasPrefix_ex)
  qed
qed

end
