(* ===== verification/Markdown.thy ===== *)
theory Markdown
  imports Terminal
begin

text \<open>
  \<^verbatim>\<open>internal/gotestspec/markdown.go\<close> and the Markdown half of \<^verbatim>\<open>summary.go\<close>: the specification as
  headings and tables, the job summaries of a run and of a bench run, and the escapes
  that keep names and output inside the place they are written to.
\<close>

subsection \<open>Escapes\<close>

text \<open>\<open>strings.Replacer\<close> in one pass; the two-byte pattern, a carriage return with its line feed,
  comes before the single ones.\<close>

fun escape_pass :: "(char \<Rightarrow> string) \<Rightarrow> string \<Rightarrow> string" where
  "escape_pass f (c # d # s) =
     (if c = CHR 0x0D \<and> d = CHR 0x0A then CHR '' '' # escape_pass f s
      else if c = CHR 0x0D \<or> c = CHR 0x0A then CHR '' '' # escape_pass f (d # s)
      else f c @ escape_pass f (d # s))"
| "escape_pass f [c] = (if c = CHR 0x0D \<or> c = CHR 0x0A then '' '' else f c)"
| "escape_pass f [] = []"

definition markdownEscaper :: "char \<Rightarrow> string" where
  "markdownEscaper c =
     (if c = CHR 0x5C then [CHR 0x5C, CHR 0x5C]
      else if c = CHR ''|'' then [CHR 0x5C, CHR ''|'']
      else if c = CHR 0x60 then [CHR 0x5C, CHR 0x60]
      else if c = CHR ''<'' then ''&lt;''
      else if c = CHR ''>'' then ''&gt;''
      else [c])"

definition labelEscaper :: "char \<Rightarrow> string" where
  "labelEscaper c =
     (if c \<in> {CHR ''*'', CHR ''_'', CHR ''['', CHR '']''} then [CHR 0x5C, c]
      else if c = CHR ''&'' then ''&amp;''
      else markdownEscaper c)"

definition EscapeMarkdown :: "string \<Rightarrow> string" where "EscapeMarkdown s = escape_pass markdownEscaper s"
definition EscapeLabel :: "string \<Rightarrow> string" where "EscapeLabel s = escape_pass labelEscaper s"

text \<open>\<open>html.EscapeString\<close>.\<close>

definition html_escape :: "string \<Rightarrow> string" where
  "html_escape s = concat (map (\<lambda>c.
     if c = CHR ''&'' then ''&amp;''
     else if c = CHR 0x27 then ''&#39;''
     else if c = CHR ''<'' then ''&lt;''
     else if c = CHR ''>'' then ''&gt;''
     else if c = CHR 0x22 then ''&#34;''
     else [c]) s)"

subsection \<open>Output as a code block\<close>

definition streak_step :: "char \<Rightarrow> nat \<times> nat \<Rightarrow> char \<Rightarrow> nat \<times> nat" where
  "streak_step c st x = (case st of (longest, run) \<Rightarrow>
     if x \<noteq> c then (longest, 0) else (max longest (run + 1), run + 1))"

definition longestRun :: "string \<Rightarrow> char \<Rightarrow> nat" where
  "longestRun s c = fst (foldl (streak_step c) (0, 0) s)"

definition markdownOutput :: "string list \<Rightarrow> string" where
  "markdownOutput output =
     (let lines = filterOutput output in
      if lines = [] then []
      else let body = join nl lines; fence = replicate (max 3 (longestRun body (CHR 0x60) + 1)) (CHR 0x60)
           in fence @ nl @ body @ nl @ fence @ nl @ nl)"

subsection \<open>Rows and headings\<close>

definition statusText :: "Status \<Rightarrow> string" where
  "statusText s = (case s of StatusPass \<Rightarrow> ''PASS'' | StatusFail \<Rightarrow> ''FAIL'' | StatusSkip \<Rightarrow> ''SKIP'' | StatusNone \<Rightarrow> dash)"

definition marked :: "bool \<Rightarrow> string \<Rightarrow> string" where
  "marked b word = (if b then '' '' @ dash @ '' '' @ word else [])"

definition incompleteNote :: string where
  "incompleteNote = ''this method declares further behaviors whose names or existence depend on runtime values''"

definition markdownRow :: "number_texts \<Rightarrow> string \<Rightarrow> string \<Rightarrow> node \<Rightarrow> bool \<Rightarrow> string" where
  "markdownRow T indent display n bare =
     (let display = EscapeLabel display @ marked (bare \<and> Excluded (dat n)) ''EXCLUDED'' @
            marked (Incomplete (dat n)) ''_incomplete: behaviors known only at run time_''
      in if bare then ''| '' @ indent @ display @ '' |'' @ nl
         else ''| '' @ indent @ display @ '' | '' @ statusText (NStatus (dat n)) @ '' | '' @
           formatDuration T (EffectiveDuration n) @ '' |'' @ nl)"

definition markdownHeader :: "bool \<Rightarrow> string" where
  "markdownHeader bare =
     (if bare then ''| Behavior |'' @ nl @ ''|----------|'' @ nl
      else ''| Behavior | Status | Duration |'' @ nl @ ''|----------|--------|----------|'' @ nl)"

definition markdownNote :: "node \<Rightarrow> string" where
  "markdownNote n = (if Incomplete (dat n) then ''_Incomplete: '' @ incompleteNote @ ''._'' @ nl @ nl else [])"

definition bench_row :: "number_texts \<Rightarrow> string \<Rightarrow> node \<Rightarrow> string" where
  "bench_row T name n =
     ''| '' @ name @ '' | '' @ formatNs T (NsPerOp (dat n)) @ '' | '' @ itoa (BytesPerOp (dat n)) @ '' | '' @
     itoa (AllocsPerOp (dat n)) @ '' |'' @ nl"

definition renderMarkdownBenchTable :: "number_texts \<Rightarrow> node list \<Rightarrow> string" where
  "renderMarkdownBenchTable T nodes =
     ''| Benchmark | ns/op | B/op | allocs/op |'' @ nl @ ''|-----------|-------|------|-----------|'' @ nl @
     concat (map (\<lambda>c. bench_row T (EscapeLabel (Display (dat c))) c) nodes) @ nl"

text \<open>The row of a node with children.\<close>

definition group_row :: "number_texts \<Rightarrow> string \<Rightarrow> node \<Rightarrow> bool \<Rightarrow> string" where
  "group_row T indent n bare =
     (let label = EscapeLabel (Display (dat n)) in
      if bare then ''| '' @ indent @ ''**'' @ label @ ''**'' @ marked (Excluded (dat n)) ''EXCLUDED'' @ '' |'' @ nl
      else if failedOnItsOwn n \<or> hasOwnDiagnostic n
      then ''| '' @ indent @ ''**'' @ label @ ''** '' @ dash @ '' '' @
        EscapeLabel (join '' '' (map trim_space (or_note (filterOutput (Output (dat n)))))) @ '' | '' @
        statusText (NStatus (dat n)) @ '' | '' @ formatDuration T (EffectiveDuration n) @ '' |'' @ nl
      else ''| '' @ indent @ ''**'' @ label @ ''** | | |'' @ nl)"

definition table_indent :: "nat \<Rightarrow> string" where
  "table_indent depth = concat (replicate depth ''&nbsp;&nbsp;'')"

fun renderMarkdownTable :: "number_texts \<Rightarrow> bool \<Rightarrow> nat \<Rightarrow> node \<Rightarrow> string" where
  "renderMarkdownTable T bare depth (Node d cs) =
     (if cs \<noteq> []
      then group_row T (table_indent depth) (Node d cs) bare @ concat (map (renderMarkdownTable T bare (depth + 1)) cs)
      else markdownRow T (table_indent depth) (Display d) (Node d cs) bare)"

definition heading_line :: "nat \<Rightarrow> string \<Rightarrow> string" where
  "heading_line level label = replicate level (CHR ''#'') @ '' '' @ label @ nl @ nl"

text \<open>A suite without children, and the two tables of one with children.\<close>

definition lone_suite :: "string \<Rightarrow> node \<Rightarrow> nat \<Rightarrow> bool \<Rightarrow> string" where
  "lone_suite label n level bare =
     (let d = dat n;
          label = label @
            (if bare \<and> Excluded d then []
             else if NStatus d = StatusSkip \<or> Excluded d then marked True ''SKIPPED''
             else if NStatus d = StatusFail \<and> \<not> bare then marked True ''FAILED'' else [])
      in heading_line level label @ (if NStatus d = StatusFail \<and> \<not> bare then markdownOutput (Output d) else []))"

definition is_bench_leaf :: "node \<Rightarrow> bool" where
  "is_bench_leaf c \<longleftrightarrow> Kind (dat c) = KindBenchmark \<and> kids c = []"

definition suite_tables :: "number_texts \<Rightarrow> node list \<Rightarrow> bool \<Rightarrow> string" where
  "suite_tables T cs bare =
     (let leafChildren = filter (\<lambda>c. \<not> is_bench_leaf c \<and> kids c = []) cs;
          benchChildren = filter is_bench_leaf cs
      in (if leafChildren \<noteq> []
          then markdownHeader bare @ concat (map (\<lambda>c. markdownRow T [] (Display (dat c)) c bare) leafChildren) @ nl else []) @
         (if benchChildren \<noteq> [] then renderMarkdownBenchTable T benchChildren else []))"

fun renderMarkdownNode :: "number_texts \<Rightarrow> bool \<Rightarrow> nat \<Rightarrow> node \<Rightarrow> string" where
  "renderMarkdownNode T bare level (Node d cs) =
     (let n = Node d cs; label = EscapeLabel (Display d) in
      case Kind d of
        KindFixture \<Rightarrow> concat (map (renderMarkdownNode T bare level) cs)
      | KindSuite \<Rightarrow>
          (let label = label @ marked (Focused d) ''FOCUSED'' @ marked (bare \<and> Excluded d) ''EXCLUDED'' in
           if cs = [] then lone_suite label n level bare
           else heading_line level label @ suite_tables T cs bare @
             concat (map (\<lambda>c. if kids c \<noteq> [] then renderMarkdownNode T bare (level + 1) c else []) cs))
      | KindBenchmark \<Rightarrow> if cs \<noteq> [] then [] else heading_line level label @ renderMarkdownBenchTable T [n]
      | kind \<Rightarrow>
          if kind \<in> {KindMethod, KindTest, KindFuzz}
          then (let label = label @ marked (bare \<and> Excluded d) ''EXCLUDED'' in
                if kind = KindFuzz \<and> cs = [] then heading_line level (label @ '' (fuzz target)'')
                else if cs = [] then (if Incomplete d then heading_line level label @ markdownNote n else [])
                else heading_line level label @ markdownNote n @ markdownHeader bare @
                  concat (map (renderMarkdownTable T bare 0) cs) @ nl)
          else if cs \<noteq> [] then []
          else if bare then ''- '' @ label @ nl
          else ''- '' @ statusText (NStatus d) @ '' '' @ label @ '' ('' @ formatDuration T (EffectiveDuration n) @ '')'' @ nl)"

definition verdict_line :: "Stats \<Rightarrow> string" where
  "verdict_line stats =
     nat_text (Passed stats) @ '' passed, '' @ nat_text (Failed stats) @ '' failed, '' @ nat_text (Skipped stats) @ '' skipped'' @
     (if FailedPackages stats > 0 then '', '' @ countNoun (FailedPackages stats) ''failed package'' ''failed packages'' else [])"

definition markdown_package :: "number_texts \<Rightarrow> bool \<Rightarrow> Package \<Rightarrow> string" where
  "markdown_package T bare pkg =
     concat (map (renderMarkdownNode T bare 2) (Nodes pkg)) @
     (if \<not> bare \<and> PkgFailedOnItsOwn pkg
      then heading_line 2 (EscapeLabel (Path pkg) @ marked True ''FAILED'') @ markdownOutput (POutput pkg) else [])"

definition RenderMarkdown :: "number_texts \<Rightarrow> renderConfig \<Rightarrow> Package list \<Rightarrow> string" where
  "RenderMarkdown T cfg packages =
     (let bare = cfg_withoutVerdicts cfg; stats = CollectStats packages; counts = countParts stats
      in ''# Behavior Specification'' @ nl @ nl @
         (if bare then join '', '' counts @ ''. Read from source; nothing was executed.'' @ nl
          else join '', '' counts @ '': '' @ verdict_line stats @ ''.'' @ nl) @ nl @
         concat (map (markdown_package T bare) packages))"

subsection \<open>The job summary of a run\<close>

definition renderMarkdownGroups :: "number_texts \<Rightarrow> GroupRunRow list \<Rightarrow> string" where
  "renderMarkdownGroups T gs =
     (if gs = [] then [] else nl @ concat (map (\<lambda>g. ''- '' @ groupLine T g @ nl) gs) @ nl)"

definition renderMarkdownCoverage :: "number_texts \<Rightarrow> CoverageReport \<Rightarrow> string" where
  "renderMarkdownCoverage T report =
     ''### Coverage: '' @ fmt_f1 T (RTotal report) @ ''%'' @ nl @ nl @
     (if length (RPackages report) > 1
      then ''| Package | Coverage |'' @ nl @ ''|---------|----------|'' @ nl @
        concat (map (\<lambda>p. ''| '' @ [CHR 0x60] @ CPath p @ [CHR 0x60] @ '' | '' @ fmt_f1 T (Percentage p) @ ''% |'' @ nl) (RPackages report)) @ nl
      else [])"

definition renderMarkdownBenchDeltaTable :: "number_texts \<Rightarrow> BenchDelta list option \<Rightarrow> string" where
  "renderMarkdownBenchDeltaTable T deltas =
     (case deltas of
        None \<Rightarrow> []
      | Some ds \<Rightarrow> ''| Benchmark | old ns/op | new ns/op | '' @ big_delta @ '' |'' @ nl @ ''|---|---|---|---|'' @ nl @
          concat (map (\<lambda>d.
            let sgn = (if fmt_nonneg T (DlPercentChange d) then ''+'' else [])
            in ''| '' @ EscapeMarkdown (DlKey d) @ '' | '' @ fmt_f1 T (DlOldNs d) @ '' | '' @ fmt_f1 T (DlNewNs d) @ '' | '' @
               sgn @ fmt_f1 T (DlPercentChange d) @ ''%'' @ deltaMarks T d @ '' |'' @ nl) ds) @ nl)"

definition indented_lines :: "string list \<Rightarrow> string" where
  "indented_lines lines = concat (map (\<lambda>line. ''    '' @ line @ nl) lines)"

definition markdown_failure :: "number_texts \<Rightarrow> failure \<Rightarrow> string" where
  "markdown_failure T f =
     nl @ ''<details>'' @ nl @ ''<summary><b>'' @ html_escape (FlPackage f) @ ''</b> '' @ dash @ '' '' @
     html_escape (join '' / '' (FlDisplay f)) @ '' ('' @ formatDuration T (FlDuration f) @ '')</summary>'' @ nl @ nl @
     indented_lines (or_note (filterOutput (FlOutput f))) @ nl @ ''</details>'' @ nl"

definition renderMarkdownFailures :: "number_texts \<Rightarrow> failure list \<Rightarrow> string" where
  "renderMarkdownFailures T fs = concat (map (markdown_failure T) fs)"

definition markdown_diagnostic :: "packageDiagnostic \<Rightarrow> string" where
  "markdown_diagnostic d =
     nl @ ''<details>'' @ nl @ ''<summary><b>'' @ html_escape (DgPackage d) @ ''</b> '' @ dash @
     '' package-level failure</summary>'' @ nl @ nl @ indented_lines (filterOutput (DgOutput d)) @ nl @ ''</details>'' @ nl"

definition coverage_part :: "number_texts \<Rightarrow> renderConfig \<Rightarrow> string" where
  "coverage_part T cfg = (case cfg_coverage cfg of None \<Rightarrow> [] | Some r \<Rightarrow> renderMarkdownCoverage T r)"

definition RenderMarkdownSummary :: "number_texts \<Rightarrow> renderConfig \<Rightarrow> Package list \<Rightarrow> string" where
  "RenderMarkdownSummary T cfg packages =
     (let stats = CollectStats packages; failures = collectFailures packages; diags = collectPackageDiagnostics packages
      in if all_green packages
         then ''### All '' @ nat_text (Total stats) @ '' tests passed ('' @ formatDuration T (effectiveDuration cfg packages) @
           '')'' @ nl @ renderMarkdownGroups T (cfg_groups cfg) @ coverage_part T cfg @
           renderMarkdownBenchDeltaTable T (cfg_benchDeltas cfg)
         else
           (if failures \<noteq> [] then ''### '' @ nat_text (Failed stats) @ '' of '' @ nat_text (Total stats) @ '' tests failed'' @ nl
            else ''### '' @ nat_text (Total stats) @ '' tests passed '' @ dash @ '' package failure detected'' @ nl) @
           renderMarkdownFailures T failures @ concat (map markdown_diagnostic diags) @ nl @
           renderMarkdownGroups T (cfg_groups cfg) @ coverage_part T cfg @
           renderMarkdownBenchDeltaTable T (cfg_benchDeltas cfg) @ ''---'' @ nl @
           (let parts = count_part (Suites stats) ''suite'' ''suites'' @
                  count_part (Behaviors stats) ''behavior'' ''behaviors'' @
                  count_part (Tests stats) ''stdlib test'' ''stdlib tests''
            in join '', '' (if parts = [] then [''0 suites''] else parts)) @ '': '' @ verdict_line stats @ nl)"

subsection \<open>The job summary of a bench run\<close>

record benchRow =
  BrKey :: string
  BrNode :: node

fun collectBenchRows :: "string option \<Rightarrow> node \<Rightarrow> benchRow list" where
  "collectBenchRows ancestor (Node d cs) =
     (if Kind d = KindBenchmark \<and> cs = []
      then [\<lparr>BrKey = (case ancestor of None \<Rightarrow> Name d | Some t \<Rightarrow> trimPrefix t ''Benchmark'' @ ''/'' @ Name d), BrNode = Node d cs\<rparr>]
      else concat (map (collectBenchRows (Some (case ancestor of None \<Rightarrow> Name d | Some t \<Rightarrow> t))) cs))"

definition bench_rows :: "number_texts \<Rightarrow> Package \<Rightarrow> string" where
  "bench_rows T pkg =
     (let rows = concat (map (collectBenchRows None) (Nodes pkg)) in
      if rows = [] then []
      else nl @ ''**'' @ EscapeMarkdown (Path pkg) @ ''**'' @ nl @ nl @
        ''| Benchmark | ns/op | B/op | allocs/op |'' @ nl @ ''|---|---|---|---|'' @ nl @
        concat (map (\<lambda>r. if Iterations (dat (BrNode r)) = 0
            then ''| '' @ EscapeMarkdown (BrKey r) @ '' | '' @ dash @ '' | '' @ dash @ '' | '' @ dash @ '' |'' @ nl
            else bench_row T (EscapeMarkdown (BrKey r)) (BrNode r)) rows))"

definition gate_line :: "number_texts \<Rightarrow> BenchGate \<Rightarrow> string" where
  "gate_line T g =
     (if GtBreached g
      then ''**Bench gate breached:** '' @ EscapeMarkdown (GtWorstKey g) @ '' +'' @ fmt_f1 T (GtWorstPct g) @ ''% exceeds the '' @
        fmt_g T (GtThresholdPct g) @ ''% gate'' @ nl
      else ''**Bench gate passed:** no regression above '' @ fmt_g T (GtThresholdPct g) @ ''%'' @ nl)"

definition RenderMarkdownBenchSummary :: "number_texts \<Rightarrow> renderConfig \<Rightarrow> Package list \<Rightarrow> string" where
  "RenderMarkdownBenchSummary T cfg packages =
     (let stats = CollectStats packages; failures = collectFailures packages;
          dur = formatDuration T (effectiveDuration cfg packages)
      in (if failures = [] then ''### '' @ countNoun (Benchmarks stats) ''benchmark'' ''benchmarks'' @ '' ran ('' @ dur @ '')'' @ nl
          else ''### '' @ nat_text (length failures) @ '' of '' @ nat_text (Benchmarks stats) @ '' benchmarks failed ('' @ dur @ '')'' @ nl @
            renderMarkdownFailures T failures) @
         concat (map (bench_rows T) packages) @
         (case cfg_benchDeltas cfg of None \<Rightarrow> [] | ds \<Rightarrow> nl @ renderMarkdownBenchDeltaTable T ds) @
         (if cfg_benchEnvWarning cfg \<noteq> [] then nl @ ''**Warning:** '' @ cfg_benchEnvWarning cfg @ nl else []) @
         (case cfg_benchGate cfg of None \<Rightarrow> [] | Some g \<Rightarrow> gate_line T g))"

end
