(* ===== verification/MarkdownProps.thy ===== *)
theory MarkdownProps
  imports Markdown TerminalProps
begin

text \<open>
  The Markdown specification of \<^verbatim>\<open>markdown.go\<close>, read back line by line: a reader of tables and fenced
  code blocks, and the theorem that no name and no output of a run makes it read anything else
  than what was meant; the labels read back; and what the specification leaves out.
\<close>

subsection \<open>A reader of the document\<close>

text \<open>Lines end at a line feed or a carriage return.\<close>

definition md_lines :: "string \<Rightarrow> string list" where
  "md_lines s = split_byte (CHR 0x0A) (replace_byte (CHR 0x0D) (CHR 0x0A) s)"

text \<open>The bars of a table row; a backslash takes the next character with it.\<close>

fun bars :: "string \<Rightarrow> nat" where
  "bars (c # d # s) = (if c = CHR 0x5C then bars s else if c = CHR ''|'' then Suc (bars (d # s)) else bars (d # s))"
| "bars [c] = (if c = CHR ''|'' then 1 else 0)"
| "bars [] = 0"

text \<open>Outside of everything, in a table of so many bars, in a code block with so long a fence.  A
  row of another width and a fence inside a table are not a document that was meant.\<close>

datatype mode = Para | InTable nat | Fence nat

definition fence_len :: "string \<Rightarrow> nat" where "fence_len l = length (takeWhile (\<lambda>c. c = CHR 0x60) l)"

definition closes :: "nat \<Rightarrow> string \<Rightarrow> bool" where
  "closes n l \<longleftrightarrow> (let t = trim_left blank_tab (trim_right blank_tab l) in n \<le> length t \<and> set t \<subseteq> {CHR 0x60})"

definition md_step :: "mode option \<Rightarrow> string \<Rightarrow> mode option" where
  "md_step m l =
     (case m of
        None \<Rightarrow> None
      | Some (Fence n) \<Rightarrow> if closes n l then Some Para else m
      | Some Para \<Rightarrow> if l \<noteq> [] \<and> hd l = CHR ''|'' then Some (InTable (bars l))
          else if 3 \<le> fence_len l then Some (Fence (fence_len l)) else Some Para
      | Some (InTable k) \<Rightarrow> if l \<noteq> [] \<and> hd l = CHR ''|'' then (if bars l = k then m else None)
          else if l = [] then Some Para else None)"

definition md_read :: "mode option \<Rightarrow> string \<Rightarrow> mode option" where
  "md_read m s = foldl md_step m (butlast (md_lines s))"

subsection \<open>Reading line by line\<close>

definition one_line :: "string \<Rightarrow> bool" where "one_line s \<longleftrightarrow> CHR 0x0A \<notin> set s \<and> CHR 0x0D \<notin> set s"

lemma md_lines_append_nl: "md_lines (a @ nl @ b) = md_lines a @ md_lines b"
proof -
  have "split_byte c (x @ c # y) = split_byte c x @ split_byte c y" for c :: char and x y
    by (induction x) (auto simp: Let_def split: list.splits)
  then show ?thesis by (simp add: md_lines_def replace_byte_def nl_def)
qed

lemma md_lines_ne [simp]: "md_lines s \<noteq> []"
  by (simp add: md_lines_def)

lemma md_lines_one: "one_line s \<Longrightarrow> md_lines s = [s]"
proof -
  assume h: "one_line s"
  then have r: "replace_byte (CHR 0x0D) (CHR 0x0A) s = s"
    unfolding replace_byte_def by (intro map_idI) (auto simp: one_line_def)
  have "split_byte c x = [x]" if "c \<notin> set x" for c :: char and x
    using that by (induction x) auto
  then show ?thesis using h r by (simp add: md_lines_def one_line_def)
qed

lemma md_read_lines: "md_read m (a @ nl @ b) = md_read (foldl md_step m (md_lines a)) b"
  by (simp add: md_read_def md_lines_append_nl butlast_append)

lemma md_read_Nil [simp]: "md_read m [] = m"
  by (simp add: md_read_def md_lines_def replace_byte_def)

lemma md_read_line: "one_line a \<Longrightarrow> md_read m (a @ nl @ b) = md_read (md_step m a) b"
  by (simp add: md_read_lines md_lines_one)

lemma md_read_last: "one_line a \<Longrightarrow> md_read m (a @ nl) = md_step m a"
  using md_read_line[of a m "[]"] by simp

text \<open>A block of whole lines.\<close>

definition block :: "string \<Rightarrow> bool" where "block s \<longleftrightarrow> s = [] \<or> (\<exists>a. s = a @ nl)"

lemma block_simps [simp]: "block []" "block (a @ nl)"
  by (auto simp: block_def)

lemma block_append: "block a \<Longrightarrow> block b \<Longrightarrow> block (a @ b)"
  by (auto simp: block_def)

lemma block_concat: "(\<And>x. x \<in> set xs \<Longrightarrow> block (f x)) \<Longrightarrow> block (concat (map f xs))"
  by (induction xs) (auto intro: block_append)

lemma md_read_append: "block a \<Longrightarrow> md_read m (a @ b) = md_read (md_read m a) b"
  using md_read_lines[of m _ b] md_read_lines[of m _ "[]"] by (auto simp: block_def)

lemma md_read_concat:
  "(\<And>x. x \<in> set xs \<Longrightarrow> block (f x) \<and> md_read (Some p) (f x) = Some p) \<Longrightarrow> md_read (Some p) (concat (map f xs)) = Some p"
  by (induction xs) (auto simp: md_read_append)

subsection \<open>Bars\<close>

fun whole :: "string \<Rightarrow> bool" where
  "whole (c # d # s) = (if c = CHR 0x5C then whole s else whole (d # s))"
| "whole [c] = (c \<noteq> CHR 0x5C)"
| "whole [] = True"

lemma bars_Cons: "c \<noteq> CHR 0x5C \<Longrightarrow> bars (c # s) = (if c = CHR ''|'' then 1 else 0) + bars s"
  by (cases s) auto

lemma whole_Cons: "c \<noteq> CHR 0x5C \<Longrightarrow> whole (c # s) = whole s"
  by (cases s) auto

lemma bars_append: "whole a \<Longrightarrow> bars (a @ b) = bars a + bars b"
  by (induction a rule: whole.induct) (auto simp: bars_Cons split: if_splits)

lemma whole_append: "whole a \<Longrightarrow> whole b \<Longrightarrow> whole (a @ b)"
  by (induction a rule: whole.induct) (auto simp: whole_Cons split: if_splits)

text \<open>Text with nothing the reader minds.\<close>

definition unsafe :: "char set" where "unsafe = {CHR ''|'', CHR 0x5C, CHR 0x0A, CHR 0x0D}"

definition harmless :: "string \<Rightarrow> bool" where "harmless s \<longleftrightarrow> set s \<inter> unsafe = {}"

lemma harmless_simps [simp]:
  "harmless []" "harmless (c # s) \<longleftrightarrow> c \<notin> unsafe \<and> harmless s" "harmless (a @ b) \<longleftrightarrow> harmless a \<and> harmless b"
  by (auto simp: harmless_def)

lemma unsafe_iff: "c \<in> unsafe \<longleftrightarrow> c = CHR ''|'' \<or> c = CHR 0x5C \<or> c = CHR 0x0A \<or> c = CHR 0x0D"
  by (simp add: unsafe_def)

lemma harmless_reads:
  assumes "harmless s"
  shows "bars s = 0" "whole s" "one_line s"
proof -
  show "bars s = 0" using assms by (induction s) (auto simp: bars_Cons unsafe_iff)
  show "whole s" using assms by (induction s) (auto simp: whole_Cons unsafe_iff)
  show "one_line s" using assms by (auto simp: harmless_def one_line_def unsafe_def)
qed

text \<open>What a cell may hold.\<close>

definition cell :: "string \<Rightarrow> bool" where "cell s \<longleftrightarrow> bars s = 0 \<and> whole s \<and> one_line s"

lemma harmless_cell: "harmless s \<Longrightarrow> cell s"
  by (simp add: cell_def harmless_reads)

lemma one_line_append [simp]: "one_line (a @ b) \<longleftrightarrow> one_line a \<and> one_line b"
  by (auto simp: one_line_def)

lemma cell_append: "cell a \<Longrightarrow> cell b \<Longrightarrow> cell (a @ b)"
  by (simp add: cell_def bars_append whole_append)

lemma space_cell: "cell x \<Longrightarrow> cell (CHR '' '' # x)"
  using cell_append[of "'' ''" x] harmless_cell[of "'' ''"] by (simp add: unsafe_iff)

lemma escape_pass_cell:
  "(\<And>c. c \<noteq> CHR 0x0A \<Longrightarrow> c \<noteq> CHR 0x0D \<Longrightarrow> cell (f c)) \<Longrightarrow> cell (escape_pass f s)"
proof (induction f s rule: escape_pass.induct)
  case (1 f c d s)
  then show ?case by (auto intro: space_cell cell_append)
next
  case (2 f c)
  then show ?case using space_cell[of "[]"] harmless_cell[of "[]"] by simp
qed (simp add: harmless_cell)

lemma markdownEscaper_cell: "c \<noteq> CHR 0x0A \<Longrightarrow> c \<noteq> CHR 0x0D \<Longrightarrow> cell (markdownEscaper c)"
  by (simp add: markdownEscaper_def cell_def one_line_def)

lemma labelEscaper_cell: "c \<noteq> CHR 0x0A \<Longrightarrow> c \<noteq> CHR 0x0D \<Longrightarrow> cell (labelEscaper c)"
  using markdownEscaper_cell by (auto simp: labelEscaper_def cell_def one_line_def)

lemma EscapeLabel_cell: "cell (EscapeLabel s)"
  unfolding EscapeLabel_def using escape_pass_cell labelEscaper_cell by blast

subsection \<open>Code blocks\<close>

lemma streak_step_mono: "fst st \<le> fst (foldl (streak_step c) st s)"
proof (induction s arbitrary: st)
  case (Cons x s)
  have "fst st \<le> fst (streak_step c st x)" by (cases st) (simp add: streak_step_def)
  then show ?case using Cons[of "streak_step c st x"] by simp
qed simp

lemma streak_step_same: "streak_step c st c = (max (fst st) (snd st + 1), snd st + 1)"
  by (cases st) (simp add: streak_step_def)

lemma streak_step_replicate:
  "0 < k \<Longrightarrow> k \<le> fst (foldl (streak_step c) st (replicate k c)) \<and> snd (foldl (streak_step c) st (replicate k c)) = snd st + k"
proof (induction k arbitrary: st)
  case (Suc k)
  show ?case
  proof (cases k)
    case 0
    then show ?thesis by (simp add: streak_step_same)
  next
    case k: (Suc j)
    have "replicate (Suc k) c = replicate k c @ [c]" by (simp add: replicate_append_same)
    then have e: "foldl (streak_step c) st (replicate (Suc k) c) = streak_step c (foldl (streak_step c) st (replicate k c)) c"
      by (metis foldl_Cons foldl_Nil foldl_append)
    show ?thesis unfolding e streak_step_same using Suc.IH[of st] k by simp
  qed
qed simp

lemma longestRun_ge: "s = a @ replicate k c @ b \<Longrightarrow> k \<le> longestRun s c"
proof (cases "k = 0")
  case False
  assume "s = a @ replicate k c @ b"
  then show ?thesis
    using streak_step_mono[of "foldl (streak_step c) (foldl (streak_step c) (0, 0) a) (replicate k c)" c b]
      streak_step_replicate[of k c "foldl (streak_step c) (0, 0) a"] False
    by (simp add: longestRun_def)
qed simp

lemma split_byte_factor: "l \<in> set (split_byte c s) \<Longrightarrow> \<exists>a b. s = a @ l @ b"
proof (induction s arbitrary: l)
  case (Cons x s)
  show ?case
  proof (cases "x = c")
    case True
    then have "l = [] \<or> l \<in> set (split_byte c s)" using Cons.prems by auto
    then show ?thesis using Cons.IH by (metis append.left_neutral append_Cons)
  next
    case False
    obtain y ys where y: "split_byte c s = y # ys" by (metis split_byte_ne list.exhaust)
    then have s: "s = y @ (if ys = [] then [] else c # join [c] ys)"
      using join_split_byte[of c s] by (cases ys) auto
    have "l = x # y \<or> l \<in> set ys" using Cons.prems False y by (auto simp: Let_def)
    then show ?thesis
    proof
      assume "l = x # y"
      then show ?thesis using s by (metis append.left_neutral append_Cons)
    next
      assume "l \<in> set ys"
      then have "l \<in> set (split_byte c s)" using y by simp
      then show ?thesis using Cons.IH by (metis append_Cons)
    qed
  qed
qed auto

lemma map_factor:
  assumes "map f s = a @ l @ b"
  shows "\<exists>a' l' b'. s = a' @ l' @ b' \<and> map f l' = l"
proof -
  let ?r = "drop (length a) s"
  have "map f (take (length l) ?r) = l" by (simp add: take_map[symmetric] drop_map[symmetric] assms)
  moreover have "s = take (length a) s @ take (length l) ?r @ drop (length l) ?r" by (metis append_take_drop_id)
  ultimately show ?thesis by metis
qed

lemma md_lines_factor: "l \<in> set (md_lines s) \<Longrightarrow> \<exists>a b. s = a @ l @ b"
proof -
  let ?f = "\<lambda>c. if c = CHR 0x0D then CHR 0x0A else c"
  assume l: "l \<in> set (md_lines s)"
  then have "l \<in> set (split_byte (CHR 0x0A) (map ?f s))" by (simp only: md_lines_def replace_byte_def)
  from split_byte_factor[OF this] obtain a b where ab: "map ?f s = a @ l @ b" by blast
  have n: "CHR 0x0A \<notin> set l" using l split_byte_no_sep by (auto simp: md_lines_def)
  obtain a' l' b' where s: "s = a' @ l' @ b'" "map ?f l' = l" using map_factor[OF ab] by blast
  have "c \<noteq> CHR 0x0D" if "c \<in> set l'" for c using n that unfolding s(2)[symmetric] by auto
  then have "map ?f l' = l'" by (intro map_idI) simp
  then have "l' = l" using s(2) by simp
  then show ?thesis using s(1) by blast
qed

lemma trim_left_split: "\<exists>p. s = p @ trim_left cs s"
  by (metis takeWhile_dropWhile_id trim_left_def)

lemma trim_right_split: "\<exists>q. s = trim_right cs s @ q"
  by (metis rev_append rev_rev_ident takeWhile_dropWhile_id trim_right_def)

lemma no_line_closes:
  assumes "l \<in> set (md_lines body)" "longestRun body (CHR 0x60) < n"
  shows "\<not> closes n l"
proof
  assume "closes n l"
  then obtain t where t: "t = trim_left blank_tab (trim_right blank_tab l)" "n \<le> length t" "set t \<subseteq> {CHR 0x60}"
    by (auto simp: closes_def Let_def)
  obtain p q where "l = p @ t @ q" using trim_left_split trim_right_split t(1) by (metis append_assoc)
  moreover obtain a b where "body = a @ l @ b" using md_lines_factor assms(1) by blast
  moreover have "t = replicate (length t) (CHR 0x60)" using t(3) by (metis replicate_length_same singletonD subset_iff)
  ultimately have "body = (a @ p) @ replicate (length t) (CHR 0x60) @ (q @ b)" by (metis append_assoc)
  then show False using longestRun_ge t(2) assms(2) by (meson leD le_trans)
qed

lemma in_fence: "(\<And>l. l \<in> set ls \<Longrightarrow> \<not> closes n l) \<Longrightarrow> foldl md_step (Some (Fence n)) ls = Some (Fence n)"
  by (induction ls) (simp_all add: md_step_def)

lemma fence_line:
  "3 \<le> n \<Longrightarrow> md_step (Some Para) (replicate n (CHR 0x60)) = Some (Fence n)"
  "md_step (Some (Fence n)) (replicate n (CHR 0x60)) = Some Para"
  "one_line (replicate n (CHR 0x60))"
proof -
  have d: "dropWhile (\<lambda>c. c \<in> blank_tab) (replicate n (CHR 0x60)) = replicate n (CHR 0x60)"
    by (cases n) (auto simp: blank_tab_def)
  show "md_step (Some (Fence n)) (replicate n (CHR 0x60)) = Some Para"
    using d by (auto simp: md_step_def closes_def trim_left_def trim_right_def rev_replicate)
  show "3 \<le> n \<Longrightarrow> md_step (Some Para) (replicate n (CHR 0x60)) = Some (Fence n)"
    by (cases n) (auto simp: md_step_def fence_len_def takeWhile_replicate)
qed (auto simp: one_line_def)

lemma empty_line: "md_step (Some Para) [] = Some Para" "one_line []"
  by (simp_all add: md_step_def fence_len_def one_line_def)

lemma fenced_reads:
  assumes "3 \<le> n" "longestRun body (CHR 0x60) < n"
  shows "md_read (Some Para) (replicate n (CHR 0x60) @ nl @ body @ nl @ replicate n (CHR 0x60) @ nl @ [] @ nl) = Some Para"
proof -
  have stay: "foldl md_step (Some (Fence n)) (md_lines body) = Some (Fence n)"
    using in_fence no_line_closes assms(2) by blast
  show ?thesis
    using assms(1) by (simp only: md_read_line[OF fence_line(3)] fence_line(1,2) md_read_lines stay
        md_lines_one[OF empty_line(2)] md_lines_one[OF fence_line(3)] foldl.simps empty_line(1)
        md_read_last[OF empty_line(2), simplified append_Nil] append_Nil)
qed

text \<open>Whole lines that leave the reader outside of everything.\<close>

definition reads :: "string \<Rightarrow> bool" where
  "reads s \<longleftrightarrow> block s \<and> md_read (Some Para) s = Some Para"

lemma reads_Nil [simp]: "reads []"
  by (simp add: reads_def)

lemma blocks_read: "reads a \<Longrightarrow> reads b \<Longrightarrow> reads (a @ b)"
  by (simp add: reads_def md_read_append block_append)

lemma reads_concat: "(\<And>x. x \<in> set xs \<Longrightarrow> reads (f x)) \<Longrightarrow> reads (concat (map f xs))"
  by (induction xs) (auto intro: blocks_read)

lemma markdownOutput_reads: "reads (markdownOutput output)"
proof (cases "filterOutput output = []")
  case False
  define body where "body = join nl (filterOutput output)"
  define n where "n = max 3 (longestRun body (CHR 0x60) + 1)"
  have M: "markdownOutput output = (replicate n (CHR 0x60) @ nl @ body @ nl @ replicate n (CHR 0x60) @ nl) @ nl"
    using False by (simp add: markdownOutput_def Let_def body_def n_def)
  have "block (markdownOutput output)" unfolding M by (rule block_simps)
  moreover have "3 \<le> n" "longestRun body (CHR 0x60) < n" by (simp_all add: n_def)
  ultimately show ?thesis using fenced_reads[of n body] M by (simp add: reads_def)
qed (simp add: markdownOutput_def)

subsection \<open>Tables\<close>

definition harmless_texts :: "number_texts \<Rightarrow> bool" where
  "harmless_texts T \<longleftrightarrow> (\<forall>v. harmless (fmt_f0 T v) \<and> harmless (fmt_f1 T v)) \<and> (\<forall>d. harmless (fmt_seconds T d))"

lemma itoa_harmless [simp]: "harmless (itoa i)" "harmless (nat_text k)"
proof -
  have "harmless (digits n)" for n
    using digits_digit[of n] by (auto simp: harmless_def list_all_iff is_digit_def unsafe_def)
  then show "harmless (itoa i)" "harmless (nat_text k)" by (auto simp: itoa_def nat_text_def unsafe_iff)
qed

lemma texts_harmless:
  assumes "harmless_texts T"
  shows "harmless (formatDuration T d)" "harmless (formatNs T v)"
  using assms by (auto simp: harmless_texts_def formatDuration_def formatNs_def Let_def unsafe_iff)

lemma words_harmless [simp]:
  "harmless dash" "harmless (statusText s)" "harmless (table_indent k)"
proof -
  show "harmless dash" by (simp add: dash_def unsafe_iff)
  then show "harmless (statusText s)" by (cases s) (simp_all add: statusText_def unsafe_iff)
  show "harmless (table_indent k)" by (induction k) (simp_all add: table_indent_def unsafe_iff)
qed

lemma marked_cell: "harmless w \<Longrightarrow> harmless (marked b w)"
  by (simp add: marked_def unsafe_iff)

definition is_row :: "nat \<Rightarrow> string \<Rightarrow> bool" where
  "is_row k l \<longleftrightarrow> l \<noteq> [] \<and> hd l = CHR ''|'' \<and> one_line l \<and> bars l = k"

lemma row_reads:
  assumes "is_row k l"
  shows "md_read (Some (InTable k)) (l @ nl) = Some (InTable k)" "md_step (Some Para) l = Some (InTable k)"
    "md_step (Some (InTable k)) l = Some (InTable k)" "block (l @ nl)" "one_line l"
  using assms by (simp_all add: is_row_def md_read_last md_step_def)

lemma one_line_Cons [simp]: "one_line (c # s) \<longleftrightarrow> c \<noteq> CHR 0x0A \<and> c \<noteq> CHR 0x0D \<and> one_line s" "one_line []"
  by (auto simp: one_line_def)

lemma row_one: "cell a \<Longrightarrow> is_row 2 (''| '' @ a @ '' |'')"
  by (simp add: is_row_def cell_def bars_Cons bars_append)

lemma row_three: "cell a \<Longrightarrow> cell b \<Longrightarrow> cell c \<Longrightarrow> is_row 4 (''| '' @ a @ '' | '' @ b @ '' | '' @ c @ '' |'')"
  by (simp add: is_row_def cell_def bars_Cons bars_append)

lemma row_four:
  "cell a \<Longrightarrow> cell b \<Longrightarrow> cell c \<Longrightarrow> cell d \<Longrightarrow> is_row 5 (''| '' @ a @ '' | '' @ b @ '' | '' @ c @ '' | '' @ d @ '' |'')"
  by (simp add: is_row_def cell_def bars_Cons bars_append)

lemma row_label: "cell a \<Longrightarrow> is_row 4 (''| '' @ a @ '' | | |'')"
  by (simp add: is_row_def cell_def bars_Cons bars_append)

definition width :: "bool \<Rightarrow> nat" where "width bare = (if bare then 2 else 4)"

lemma markdownRow_row:
  assumes "harmless_texts T" "harmless indent"
  shows "\<exists>l. markdownRow T indent display n bare = l @ nl \<and> is_row (width bare) l"
proof -
  let ?x = "indent @ EscapeLabel display @ marked (bare \<and> Excluded (dat n)) ''EXCLUDED'' @
            marked (Incomplete (dat n)) ''_incomplete: behaviors known only at run time_''"
  have x: "cell ?x"
    using assms by (intro cell_append EscapeLabel_cell) (simp_all add: harmless_cell marked_cell unsafe_iff)
  show ?thesis
  proof (cases bare)
    case True
    then show ?thesis using row_one[OF x] by (simp add: markdownRow_def Let_def width_def)
  next
    case False
    then show ?thesis
      using row_three[OF x harmless_cell[OF words_harmless(2)] harmless_cell[OF texts_harmless(1)[OF assms(1)]],
        of "NStatus (dat n)" "EffectiveDuration n"] by (simp add: markdownRow_def Let_def width_def)
  qed
qed

lemma group_row_row:
  assumes "harmless_texts T" "harmless indent"
  shows "\<exists>l. group_row T indent n bare = l @ nl \<and> is_row (width bare) l"
proof -
  let ?x = "indent @ ''**'' @ EscapeLabel (Display (dat n)) @ ''**''"
  have x: "cell ?x"
    using assms by (intro cell_append EscapeLabel_cell) (simp_all add: harmless_cell unsafe_iff)
  have y: "cell (?x @ marked (Excluded (dat n)) ''EXCLUDED'')"
    using x by (rule cell_append) (simp add: harmless_cell marked_cell unsafe_iff)
  have z: "cell (?x @ '' '' @ dash @ '' '' @ EscapeLabel s)" for s
    by (intro cell_append[OF x] cell_append EscapeLabel_cell) (simp_all add: harmless_cell unsafe_iff)
  show ?thesis
    using row_one[OF y] row_label[OF x]
      row_three[OF z harmless_cell[OF words_harmless(2)] harmless_cell[OF texts_harmless(1)[OF assms(1)]],
        of "join '' '' (map trim_space (or_note (filterOutput (Output (dat n)))))" "NStatus (dat n)" "EffectiveDuration n"]
    by (simp add: group_row_def Let_def width_def)
qed

lemma table_reads:
  assumes "harmless_texts T"
  shows "block (renderMarkdownTable T bare depth n) \<and>
    md_read (Some (InTable (width bare))) (renderMarkdownTable T bare depth n) = Some (InTable (width bare))"
proof (induction n arbitrary: depth)
  case (Node d cs)
  show ?case
  proof (cases "cs = []")
    case True
    then show ?thesis
      using markdownRow_row[OF assms words_harmless(3), of depth "Display d" "Node d cs" bare] row_reads by auto
  next
    case False
    let ?sub = "concat (map (renderMarkdownTable T bare (depth + 1)) cs)"
    have "block ?sub" "md_read (Some (InTable (width bare))) ?sub = Some (InTable (width bare))"
      using Node.IH by (auto intro!: block_concat md_read_concat)
    then show ?thesis
      using False group_row_row[OF assms words_harmless(3), of depth "Node d cs" bare] row_reads
      by (auto simp: md_read_line intro!: block_append)
  qed
qed

subsection \<open>Headings and nodes\<close>

lemma para_line:
  assumes "one_line l" "l \<noteq> []" "hd l \<noteq> CHR ''|''" "hd l \<noteq> CHR 0x60"
  shows "md_step (Some Para) l = Some Para"
  using assms by (cases l) (simp_all add: md_step_def fence_len_def)

lemma nl_blank: "md_read (Some Para) nl = Some Para" "md_read (Some (InTable k)) nl = Some Para" "block nl"
  using md_read_last[of "[]"] block_simps(2)[of "[]"] by (simp_all add: md_step_def fence_len_def)

lemma EscapeLabel_line [simp]: "one_line (EscapeLabel s)"
  using EscapeLabel_cell by (simp add: cell_def)

lemma marked_line: "one_line w \<Longrightarrow> one_line (marked b w)"
  using words_harmless(1) by (simp add: marked_def harmless_reads(3))

text \<open>A heading, and a paragraph of one line.\<close>

lemma para_reads:
  assumes "one_line l" "l \<noteq> []" "hd l \<noteq> CHR ''|''" "hd l \<noteq> CHR 0x60"
  shows "reads (l @ nl @ nl)"
    "reads (l @ nl)"
  using para_line[OF assms] assms(1) nl_blank block_simps(2)[of "l @ nl"]
  by (simp_all add: reads_def md_read_line md_read_last)

lemma heading_reads:
  assumes "one_line label" "0 < level"
  shows "reads (heading_line level label)"
proof -
  have h: "hd (replicate level (CHR ''#'') @ '' '' @ label) = CHR ''#''" using assms(2) by (cases level) simp_all
  have o: "one_line (replicate level (CHR ''#''))" by (auto simp: one_line_def)
  show ?thesis unfolding heading_line_def
    using para_reads(1)[of "replicate level (CHR ''#'') @ '' '' @ label"] h o assms by simp
qed

lemma header_reads:
  "block (markdownHeader bare) \<and> md_read (Some Para) (markdownHeader bare) = Some (InTable (width bare))"
proof -
  have rows: "is_row 2 ''| Behavior |''" "is_row 2 ''|----------|''"
    "is_row 4 ''| Behavior | Status | Duration |''" "is_row 4 ''|----------|--------|----------|''"
    by (simp_all add: is_row_def)
  have two: "block (a @ nl @ b @ nl) \<and> md_read (Some Para) (a @ nl @ b @ nl) = Some (InTable k)"
    if "is_row k a" "is_row k b" for a b k
    using row_reads[OF that(1)] row_reads[OF that(2)] block_append[of "a @ nl" "b @ nl"] by (simp add: md_read_line)
  show ?thesis using two[OF rows(1,2)] two[OF rows(3,4)] by (simp add: markdownHeader_def width_def)
qed

lemma bench_table_reads:
  assumes "harmless_texts T"
  shows "reads (renderMarkdownBenchTable T nodes)"
proof -
  let ?h = "''| Benchmark | ns/op | B/op | allocs/op |''" and ?s = "''|-----------|-------|------|-----------|''"
  let ?rows = "concat (map (\<lambda>c. bench_row T (EscapeLabel (Display (dat c))) c) nodes)"
  have hs: "is_row 5 ?h" "is_row 5 ?s" by (simp_all add: is_row_def)
  have row: "\<exists>l. bench_row T (EscapeLabel (Display (dat c))) c = l @ nl \<and> is_row 5 l" for c
    using row_four[OF EscapeLabel_cell harmless_cell[OF texts_harmless(2)[OF assms]] harmless_cell[OF itoa_harmless(1)]
        harmless_cell[OF itoa_harmless(1)], of "Display (dat c)" "NsPerOp (dat c)" "BytesPerOp (dat c)" "AllocsPerOp (dat c)"]
    by (simp add: bench_row_def)
  have "block (bench_row T (EscapeLabel (Display (dat c))) c) \<and>
      md_read (Some (InTable 5)) (bench_row T (EscapeLabel (Display (dat c))) c) = Some (InTable 5)" for c
    using row[of c] row_reads by auto
  then have r: "block ?rows" "md_read (Some (InTable 5)) ?rows = Some (InTable 5)"
    by (auto intro!: block_concat md_read_concat)
  have "renderMarkdownBenchTable T nodes = ?h @ nl @ ?s @ nl @ ?rows @ nl"
    by (simp add: renderMarkdownBenchTable_def)
  moreover have "block (?h @ nl @ ?s @ nl @ ?rows @ nl)"
    using block_append[of "?h @ nl" "?s @ nl @ ?rows @ nl"] block_append[of "?s @ nl" "?rows @ nl"] by (simp del: append_Cons)
  moreover have "md_read (Some Para) (?h @ nl @ ?s @ nl @ ?rows @ nl) = Some Para"
    by (simp only: md_read_line[OF row_reads(5)[OF hs(1)]] md_read_line[OF row_reads(5)[OF hs(2)]]
        row_reads(2)[OF hs(1)] row_reads(3)[OF hs(2)] md_read_append[OF r(1)] r(2) nl_blank)
  ultimately show ?thesis by (simp add: reads_def)
qed

lemma suite_tables_reads:
  assumes "harmless_texts T"
  shows "reads (suite_tables T cs bare)"
proof -
  let ?leaves = "filter (\<lambda>c. \<not> is_bench_leaf c \<and> kids c = []) cs"
  let ?rows = "concat (map (\<lambda>c. markdownRow T [] (Display (dat c)) c bare) ?leaves)"
  have "block (markdownRow T [] (Display (dat c)) c bare) \<and>
      md_read (Some (InTable (width bare))) (markdownRow T [] (Display (dat c)) c bare) = Some (InTable (width bare))" for c
    using markdownRow_row[OF assms, of "[]" "Display (dat c)" c bare] row_reads by auto
  then have r: "block ?rows" "md_read (Some (InTable (width bare))) ?rows = Some (InTable (width bare))"
    by (auto intro!: block_concat md_read_concat)
  have t: "block (markdownHeader bare @ ?rows @ nl)" "md_read (Some Para) (markdownHeader bare @ ?rows @ nl) = Some Para"
    using header_reads[of bare] r nl_blank by (simp_all add: md_read_append block_append)
  let ?a = "if ?leaves \<noteq> [] then markdownHeader bare @ ?rows @ nl else []"
  let ?b = "if filter is_bench_leaf cs \<noteq> [] then renderMarkdownBenchTable T (filter is_bench_leaf cs) else []"
  have a: "block ?a" "md_read (Some Para) ?a = Some Para" using t by auto
  have b: "block ?b" "md_read (Some Para) ?b = Some Para" using bench_table_reads[OF assms] by (auto simp: reads_def)
  have "suite_tables T cs bare = ?a @ ?b" by (simp add: suite_tables_def Let_def)
  then show ?thesis using a b by (simp add: reads_def md_read_append block_append)
qed

lemma lone_suite_reads:
  assumes "one_line label" "0 < level"
  shows "reads (lone_suite label n level bare)"
  unfolding lone_suite_def Let_def
  by (intro blocks_read heading_reads) (use assms markdownOutput_reads in \<open>auto simp: marked_line\<close>)

lemma note_reads: "reads (markdownNote n)"
proof -
  have "one_line (''_Incomplete: '' @ incompleteNote @ ''._'')" by (simp add: incompleteNote_def)
  then show ?thesis
    using para_reads(1)[of "''_Incomplete: '' @ incompleteNote @ ''._''"] by (simp add: markdownNote_def)
qed

text \<open>The body of a method, a test or a fuzz target.\<close>

lemma method_reads:
  assumes "harmless_texts T" "one_line label" "0 < level"
  shows "reads (heading_line level label @ markdownNote n @ markdownHeader bare @ concat (map (renderMarkdownTable T bare 0) cs) @ nl)"
proof -
  let ?rows = "concat (map (renderMarkdownTable T bare 0) cs)"
  have r: "block ?rows" "md_read (Some (InTable (width bare))) ?rows = Some (InTable (width bare))"
    using table_reads[OF assms(1)] by (auto intro!: block_concat md_read_concat)
  have t: "reads (markdownHeader bare @ ?rows @ nl)"
    using header_reads[of bare] r nl_blank by (simp add: reads_def md_read_append block_append)
  show ?thesis by (intro blocks_read heading_reads note_reads t assms)
qed

lemma renderMarkdownNode_reads:
  assumes "harmless_texts T" "0 < level"
  shows "reads (renderMarkdownNode T bare level n)"
  using assms(2)
proof (induction n arbitrary: level)
  case (Node d cs)
  let ?L = "EscapeLabel (Display d)"
  let ?S = "?L @ marked (Focused d) ''FOCUSED'' @ marked (bare \<and> Excluded d) ''EXCLUDED''"
  let ?M = "?L @ marked (bare \<and> Excluded d) ''EXCLUDED''"
  define sub where "sub = concat (map (renderMarkdownNode T bare level) cs)"
  define nest where "nest = concat (map (\<lambda>c. if kids c \<noteq> [] then renderMarkdownNode T bare (level + 1) c else []) cs)"
  have S: "one_line ?S" "one_line ?M" "one_line (?M @ '' (fuzz target)'')" by (simp_all add: marked_line)
  have sub_reads: "reads sub"
    unfolding sub_def using Node.IH Node.prems by (auto intro!: reads_concat)
  have nest_reads: "reads nest" unfolding nest_def using Node.IH by (auto intro!: reads_concat)
  have suite: "reads (heading_line level ?S @ suite_tables T cs bare @ nest)"
    using Node.prems by (intro blocks_read heading_reads suite_tables_reads[OF assms(1)] S nest_reads)
  have bench: "reads (heading_line level ?L @ renderMarkdownBenchTable T [Node d cs])"
    using Node.prems by (intro blocks_read heading_reads bench_table_reads[OF assms(1)] EscapeLabel_line)
  have noted: "reads (heading_line level ?M @ markdownNote (Node d cs))"
    using Node.prems by (intro blocks_read heading_reads note_reads S)
  have target: "reads (heading_line level (?M @ '' (fuzz target)''))"
    using heading_reads[OF S(3)] Node.prems by blast
  note lone = lone_suite_reads[OF S(1) Node.prems, of "Node d cs" bare]
  note tabled = method_reads[OF assms(1) S(2) Node.prems, of "Node d cs" bare cs]
  have item: "reads (''- '' @ statusText s @ '' '' @ ?L @ '' ('' @ formatDuration T e @ '')'' @ nl)"
      "reads (''- '' @ ?L @ nl)" for s e
    using para_reads(2)[of "''- '' @ statusText s @ '' '' @ ?L @ '' ('' @ formatDuration T e @ '')''"]
      para_reads(2)[of "''- '' @ ?L"] harmless_reads(3)[OF words_harmless(2)[of s]]
      harmless_reads(3)[OF texts_harmless(1)[OF assms(1), of e]] by simp_all
  show ?case
    unfolding renderMarkdownNode.simps Let_def sub_def[symmetric] nest_def[symmetric]
    using sub_reads suite bench noted target lone tabled item
    by (cases "Kind d"; cases bare; cases "cs = []"; simp)
qed

lemma markdown_package_reads:
  assumes "harmless_texts T"
  shows "reads (markdown_package T bare pkg)"
proof -
  have l: "one_line (EscapeLabel (Path pkg) @ marked True ''FAILED'')" by (simp add: marked_line)
  then have h: "reads (heading_line 2 (EscapeLabel (Path pkg) @ marked True ''FAILED'') @ markdownOutput (POutput pkg))"
    by (intro blocks_read heading_reads markdownOutput_reads) simp_all
  have n: "reads (concat (map (renderMarkdownNode T bare 2) (Nodes pkg)))"
    using renderMarkdownNode_reads[OF assms] by (auto intro!: reads_concat)
  show ?thesis unfolding markdown_package_def by (intro blocks_read n) (use h in simp)
qed

lemma verdict_line_one: "one_line (verdict_line s)"
  by (rule harmless_reads) (simp add: verdict_line_def countNoun_def unsafe_iff)

lemma join_harmless: "harmless sep \<Longrightarrow> list_all harmless xs \<Longrightarrow> harmless (join sep xs)"
  by (induction sep xs rule: join.induct) auto

lemma counts_harmless: "harmless (join '', '' (countParts s))"
  by (rule join_harmless) (simp_all add: countParts_def count_part_def countNoun_def Let_def unsafe_iff)

text \<open>The counts start with a number.\<close>

lemma digits_cons: "\<exists>c cs. digits k = c # cs \<and> is_digit c"
  using hd_digits_digit[of k] by (cases "digits k") auto

definition opens_digit :: "string \<Rightarrow> bool" where "opens_digit s \<longleftrightarrow> s \<noteq> [] \<and> is_digit (hd s)"

lemma countNoun_digit: "opens_digit (countNoun k a b)"
  using digits_cons[of k] by (auto simp: countNoun_def opens_digit_def nat_text_def itoa_def is_digit_def)

lemma join_digit: "xs \<noteq> [] \<Longrightarrow> list_all opens_digit xs \<Longrightarrow> opens_digit (join sep xs)"
  by (cases "(sep, xs)" rule: join.cases) (auto simp: opens_digit_def)

lemma counts_digit: "opens_digit (join '', '' (countParts s))"
proof (rule join_digit)
  have z: "opens_digit ''0 suites''" by (simp add: opens_digit_def is_digit_def)
  show "list_all opens_digit (countParts s)"
    by (simp add: countParts_def count_part_def countNoun_digit Let_def z)
qed (simp add: countParts_def Let_def)

lemma digit_line: "opens_digit s \<Longrightarrow> one_line (s @ r) \<Longrightarrow> reads ((s @ r) @ nl)"
proof -
  assume s: "opens_digit s" and o: "one_line (s @ r)"
  then have "hd s \<noteq> CHR ''|''" "hd s \<noteq> CHR 0x60" by (auto simp: opens_digit_def is_digit_def)
  then show ?thesis using para_reads(2)[OF o] s by (simp add: opens_digit_def)
qed

lemma RenderMarkdown_reads:
  assumes "harmless_texts T"
  shows "reads (RenderMarkdown T cfg packages)"
proof -
  let ?c = "join '', '' (countParts (CollectStats packages))" and ?b = "cfg_withoutVerdicts cfg"
  have c: "opens_digit ?c" "one_line ?c" using counts_digit counts_harmless harmless_reads(3) by blast+
  have title: "reads (''# Behavior Specification'' @ nl @ nl)" by (rule para_reads) simp_all
  have e: "reads nl" using nl_blank by (simp add: reads_def)
  have line: "reads ((if ?b then (?c @ ''. Read from source; nothing was executed.'') @ nl
      else (?c @ '': '' @ verdict_line (CollectStats packages) @ ''.'') @ nl))"
    using digit_line[OF c(1), of "''. Read from source; nothing was executed.''"]
      digit_line[OF c(1), of "'': '' @ verdict_line (CollectStats packages) @ ''.''"] c(2) verdict_line_one by simp
  have body: "reads (concat (map (markdown_package T ?b) packages))"
    using markdown_package_reads[OF assms] by (intro reads_concat)
  show ?thesis
    using blocks_read[OF title blocks_read[OF line blocks_read[OF e body]]]
    by (simp add: RenderMarkdown_def Let_def split: if_splits)
qed

text \<open>
  C29: However a run's names and output are spelled, its Markdown specification is read as it was
  meant: every table row has the columns of its table's header, every code block ends where it
  was closed, and the document ends outside of both.
\<close>

theorem markdown_document_reads:
  assumes "harmless_texts T"
  shows "md_read (Some Para) (RenderMarkdown T cfg packages) = Some Para"
  using RenderMarkdown_reads[OF assms] by (simp add: reads_def)

lemma markdown_document_reads_witness:
  "md_read (Some Para) (RenderMarkdown some_texts some_config (failed_run ''```|x|'')) = Some Para"
  by (rule markdown_document_reads) (simp add: harmless_texts_def some_texts_def unsafe_iff)

subsection \<open>A label reads as what it names\<close>

function md_text :: "string \<Rightarrow> string" where
  "md_text [] = []"
| "md_text (c # s) =
     (if c = CHR 0x5C then (case s of [] \<Rightarrow> [c] | d # r \<Rightarrow> d # md_text r)
      else if hasPrefix (c # s) ''&amp;'' then CHR ''&'' # md_text (drop 5 (c # s))
      else if hasPrefix (c # s) ''&lt;'' then CHR ''<'' # md_text (drop 4 (c # s))
      else if hasPrefix (c # s) ''&gt;'' then CHR ''>'' # md_text (drop 4 (c # s))
      else c # md_text s)"
  by pat_completeness auto
termination by (relation "measure length") auto

declare md_text.simps(2) [simp del]

definition soft :: "char \<Rightarrow> string" where "soft c = [c]"

lemma md_text_other:
  "c \<noteq> CHR 0x5C \<Longrightarrow> c \<noteq> CHR ''&'' \<Longrightarrow> md_text (c # s) = c # md_text s"
  by (simp add: md_text.simps(2) hasPrefix_def)

lemma md_text_label: "c \<noteq> CHR 0x0A \<Longrightarrow> c \<noteq> CHR 0x0D \<Longrightarrow> md_text (labelEscaper c @ s) = c # md_text s"
  by (auto simp: labelEscaper_def markdownEscaper_def md_text_other md_text.simps(2)[of "CHR 0x5C"]
      md_text.simps(2)[of "CHR ''&''"] hasPrefix_def)

lemma label_roundtrip: "md_text (EscapeLabel s) = escape_pass soft s"
proof -
  have "md_text (escape_pass labelEscaper s) = escape_pass soft s"
  proof (induction soft s rule: escape_pass.induct)
    case (1 c d s)
    then show ?case by (simp add: md_text_other md_text_label soft_def)
  next
    case (2 c)
    then show ?case using md_text_label[of c "[]"] by (simp add: md_text_other soft_def)
  qed simp
  then show ?thesis by (simp add: EscapeLabel_def)
qed

subsection \<open>What the specification leaves out\<close>

text \<open>A top test without subtests has no section of its own, whether it failed or not.\<close>

lemma plain_test_unwritten:
  "Kind d = KindTest \<Longrightarrow> \<not> Incomplete d \<Longrightarrow> renderMarkdownNode T bare level (Node d []) = []"
  by simp

lemma failed_test_unwritten:
  assumes "Kind d = KindTest" "\<not> Incomplete d" "NStatus d = StatusFail" "pkg = \<lparr>Path = p, PStatus = StatusFail,
      PDuration = t, Nodes = [Node d []], POutput = out\<rparr>"
  shows "red [pkg]" "markdown_package T False pkg = []"
  using assms by (simp_all add: red_def markdown_package_def PkgFailedOnItsOwn_def)

text \<open>A benchmark with sub-benchmarks is left out wherever it stands.\<close>

lemma nested_benchmark_unwritten:
  "Kind d = KindBenchmark \<Longrightarrow> cs \<noteq> [] \<Longrightarrow> renderMarkdownNode T bare level (Node d cs) = []"
  by simp

text \<open>The headline of a run whose one failure is a benchmark.\<close>

lemma failed_benchmark_headline:
  assumes "pkg = \<lparr>Path = ''p'', PStatus = StatusPass, PDuration = 0,
      Nodes = [Node (zero_node\<lparr>Kind := KindBenchmark, NStatus := StatusFail\<rparr>) []], POutput = []\<rparr>"
  shows "hasPrefix (RenderMarkdownSummary T cfg [pkg]) ''### 0 of 0 tests failed''"
proof -
  have "digits 0 = ''0''" by code_simp
  then show ?thesis using assms
    by (simp add: RenderMarkdownSummary_def Let_def all_green_def collectFailures_def CollectStats_def package_stats_def
        zero_node_def zero_stats_def PkgFailedOnItsOwn_def hasPrefix_ex nat_text_def itoa_def Total_def)
qed

end
