(* ===== verification/SpecJson.thy ===== *)
theory SpecJson
  imports Terminal
begin

text \<open>
  \<^verbatim>\<open>internal/gotestspec/json.go\<close>: the document of \<^verbatim>\<open>--format=json\<close>, up to its encoding.  Seconds are
  the argument \<open>secs\<close>; the version of the binary is an argument of the document.
\<close>

record jsonGroup =
  JgName :: string
  JgSuites :: nat
  JgWall :: f64

datatype jsonNode = JNode
  (jName: string) (jDisplay: string) (jKind: string) (jVocab: string) (jStatus: string) (jDuration: f64)
  (jFocused: bool) (jExcluded: bool) (jExternal: bool) (jIncomplete: bool) (jVariant: nat)
  (jOutput: "string list") (jChildren: "jsonNode list")
  (jIterations: int) (jNsPerOp: f64) (jBytesPerOp: int) (jAllocsPerOp: int) (jMetrics: "(string \<times> f64) list")

record jsonPackage =
  JpPath :: string
  JpStatus :: string
  JpDuration :: f64
  JpNodes :: "jsonNode list"
  JpOutput :: "string list"

record jsonRoot =
  JVersion :: string
  JPackages :: "jsonPackage list"
  JStats :: Stats
  JGroups :: "jsonGroup list"

definition statusString :: "Status \<Rightarrow> string" where
  "statusString s = (case s of StatusPass \<Rightarrow> ''pass'' | StatusFail \<Rightarrow> ''fail'' | StatusSkip \<Rightarrow> ''skip'' | StatusNone \<Rightarrow> ''none'')"

definition vocabString :: "Vocab \<Rightarrow> string" where
  "vocabString v = (case v of VocabWhen \<Rightarrow> ''when'' | VocabIt \<Rightarrow> ''it'' | VocabEach \<Rightarrow> ''each'' | VocabNone \<Rightarrow> [])"

definition kindString :: "NodeKind \<Rightarrow> string" where
  "kindString k = (case k of
     KindFixture \<Rightarrow> ''fixture'' | KindSuite \<Rightarrow> ''suite'' | KindMethod \<Rightarrow> ''method'' | KindBlock \<Rightarrow> ''block''
   | KindTest \<Rightarrow> ''test'' | KindBenchmark \<Rightarrow> ''benchmark'' | KindFuzz \<Rightarrow> ''fuzz'' | KindUnknown \<Rightarrow> ''unknown'')"

fun convertNode :: "(duration \<Rightarrow> f64) \<Rightarrow> node \<Rightarrow> jsonNode" where
  "convertNode secs (Node d cs) =
     JNode (Name d) (Display d) (kindString (Kind d)) (vocabString (NVocab d)) (statusString (NStatus d))
       (secs (EffectiveDuration (Node d cs))) (Focused d) (Excluded d) (External d) (Incomplete d) (Variant d)
       (Output d) (map (convertNode secs) cs)
       (Iterations d) (NsPerOp d) (BytesPerOp d) (AllocsPerOp d) (Metrics d)"

definition convertNodes :: "(duration \<Rightarrow> f64) \<Rightarrow> node list \<Rightarrow> jsonNode list" where
  "convertNodes secs ns = map (convertNode secs) ns"

definition json_package :: "(duration \<Rightarrow> f64) \<Rightarrow> Package \<Rightarrow> jsonPackage" where
  "json_package secs pkg =
     \<lparr>JpPath = Path pkg, JpStatus = statusString (PStatus pkg), JpDuration = secs (PackageDuration pkg),
       JpNodes = convertNodes secs (Nodes pkg), JpOutput = POutput pkg\<rparr>"

definition RenderJSON :: "(duration \<Rightarrow> f64) \<Rightarrow> string \<Rightarrow> renderConfig \<Rightarrow> Package list \<Rightarrow> jsonRoot" where
  "RenderJSON secs version cfg packages =
     \<lparr>JVersion = version, JPackages = map (json_package secs) packages, JStats = CollectStats packages,
       JGroups = map (\<lambda>g. \<lparr>JgName = GrName g, JgSuites = GrSuites g, JgWall = secs (GrWall g)\<rparr>) (cfg_groups cfg)\<rparr>"

subsection \<open>The tree a reader gets back\<close>

definition read_status :: "string \<Rightarrow> Status" where
  "read_status s = (if s = ''pass'' then StatusPass else if s = ''fail'' then StatusFail
     else if s = ''skip'' then StatusSkip else StatusNone)"

definition read_vocab :: "string \<Rightarrow> Vocab" where
  "read_vocab s = (if s = ''when'' then VocabWhen else if s = ''it'' then VocabIt
     else if s = ''each'' then VocabEach else VocabNone)"

definition read_kind :: "string \<Rightarrow> NodeKind" where
  "read_kind s = (if s = ''fixture'' then KindFixture else if s = ''suite'' then KindSuite
     else if s = ''method'' then KindMethod else if s = ''block'' then KindBlock else if s = ''test'' then KindTest
     else if s = ''benchmark'' then KindBenchmark else if s = ''fuzz'' then KindFuzz else KindUnknown)"

lemma read_words [simp]:
  "read_status (statusString s) = s" "read_vocab (vocabString v) = v" "read_kind (kindString k) = k"
proof -
  show "read_status (statusString s) = s" by (cases s) (simp_all add: statusString_def read_status_def)
  show "read_vocab (vocabString v) = v" by (cases v) (simp_all add: vocabString_def read_vocab_def)
  show "read_kind (kindString k) = k" by (cases k) (simp_all add: kindString_def read_kind_def)
qed

fun read_node :: "jsonNode \<Rightarrow> node" where
  "read_node (JNode nm disp k v s t foc excl ext inc var out cs it ns b a m) =
     Node (zero_node\<lparr>Name := nm, Display := disp, Kind := read_kind k, NVocab := read_vocab v, NStatus := read_status s,
       Focused := foc, Excluded := excl, External := ext, Incomplete := inc, Variant := var, Output := out,
       Iterations := it, NsPerOp := ns, BytesPerOp := b, AllocsPerOp := a, Metrics := m\<rparr>) (map read_node cs)"

text \<open>What the document does not carry: times, the source label, and the marks of a construction.\<close>

definition shown_data :: "ndata \<Rightarrow> ndata" where
  "shown_data d = d\<lparr>SourceLabel := [], Duration := 0, Start := None, End := None, Paused := False, duplicate := False, Procs := 0\<rparr>"

primrec shown :: "node \<Rightarrow> node" where
  "shown (Node d cs) = Node (shown_data d) (map shown cs)"

lemma json_keeps_node: "read_node (convertNode secs n) = shown n"
proof (induction n)
  case (Node d cs)
  then show ?case by (simp add: zero_node_def shown_data_def)
qed

text \<open>The counts a reader makes of the document are those it states.\<close>

lemma anyDescendantFailed_shown: "anyDescendantFailed (shown n) = anyDescendantFailed n \<and> NStatus (dat (shown n)) = NStatus (dat n)"
proof (induction n)
  case (Node d cs)
  then show ?case by (auto simp: shown_data_def)
qed

lemma failedOnItsOwn_shown: "failedOnItsOwn (shown n) = failedOnItsOwn n"
  using anyDescendantFailed_shown[of n] by (cases n) (simp add: failedOnItsOwn_def)

lemma collectStats_shown: "collectStats b (shown n) s = collectStats b n s"
proof (induction n arbitrary: s)
  case (Node d cs)
  have "fold (collectStats b) (map shown cs) s' = fold (collectStats b) cs s'" for s'
    using Node by (induction cs arbitrary: s') simp_all
  then show ?case
    using failedOnItsOwn_shown[of "Node d cs"]
    by (simp add: Let_def shown_data_def del: anyDescendantFailed.simps)
qed

definition read_package :: "jsonPackage \<Rightarrow> Package" where
  "read_package p = \<lparr>Path = JpPath p, PStatus = read_status (JpStatus p), PDuration = 0,
     Nodes = map read_node (JpNodes p), POutput = JpOutput p\<rparr>"

lemma package_stats_shown: "package_stats (read_package (json_package secs pkg)) s = package_stats pkg s"
proof -
  have n: "map read_node (convertNodes secs ns) = map shown ns" for ns
    by (simp add: convertNodes_def json_keeps_node)
  have own: "PkgFailedOnItsOwn (read_package (json_package secs pkg)) = PkgFailedOnItsOwn pkg"
    using anyDescendantFailed_shown by (auto simp: PkgFailedOnItsOwn_def read_package_def json_package_def n list_ex_iff)
  have kind: "Kind (dat (shown m)) = Kind (dat m)" for m by (cases m) (simp add: shown_data_def)
  have "fold (\<lambda>n s. collectStats (Kind (dat n) = KindTest) n s) (map shown ns) s' =
      fold (\<lambda>n s. collectStats (Kind (dat n) = KindTest) n s) ns s'" for ns s'
    by (induction ns arbitrary: s') (simp_all add: kind collectStats_shown)
  then show ?thesis unfolding package_stats_def Let_def own by (simp add: read_package_def json_package_def n)
qed

text \<open>
  The JSON document loses no node and no verdict: read back, its nodes are the tree's at every
  depth, with name, kind, vocabulary, status, flags, output and benchmark figures, and the counts
  made of what was read are the counts the document states.
\<close>

lemma json_document_faithful:
  "map (\<lambda>p. Nodes (read_package p)) (JPackages (RenderJSON secs version cfg packages)) = map (\<lambda>pkg. map shown (Nodes pkg)) packages \<and>
   CollectStats (map read_package (JPackages (RenderJSON secs version cfg packages))) = JStats (RenderJSON secs version cfg packages)"
proof -
  have "fold package_stats (map read_package (map (json_package secs) ps)) s = fold package_stats ps s" for ps s
    by (induction ps arbitrary: s) (simp_all add: package_stats_shown)
  then show ?thesis
    by (simp add: RenderJSON_def CollectStats_def read_package_def json_package_def convertNodes_def json_keeps_node)
qed

end
