(* ===== verification/Bench.thy ===== *)
theory Bench
  imports Terminal
begin

text \<open>
  \<^verbatim>\<open>internal/gotestbench\<close>: the baseline of a bench run, the comparison of two and the gate, with the
  parts of \<^verbatim>\<open>cmd/gotest/bench.go\<close> that decide what is compared and how the run exits.  The arithmetic
  of \<^verbatim>\<open>float64\<close> is the record \<open>float_ops\<close>; literals are their bit patterns.
\<close>

record float_ops =
  f_add :: "f64 \<Rightarrow> f64 \<Rightarrow> f64"
  f_sub :: "f64 \<Rightarrow> f64 \<Rightarrow> f64"
  f_mul :: "f64 \<Rightarrow> f64 \<Rightarrow> f64"
  f_div :: "f64 \<Rightarrow> f64 \<Rightarrow> f64"
  f_lt :: "f64 \<Rightarrow> f64 \<Rightarrow> bool"
  f_eq :: "f64 \<Rightarrow> f64 \<Rightarrow> bool"
  f_int :: "int \<Rightarrow> f64"
  f_neg :: "f64 \<Rightarrow> f64"
  f_abs :: "f64 \<Rightarrow> f64"
  f_sqrt :: "f64 \<Rightarrow> f64"
  f_exp :: "f64 \<Rightarrow> f64"
  f_log :: "f64 \<Rightarrow> f64"
  f_lgamma :: "f64 \<Rightarrow> f64"
  f_isnan :: "f64 \<Rightarrow> bool"

definition f_le :: "float_ops \<Rightarrow> f64 \<Rightarrow> f64 \<Rightarrow> bool" where "f_le F x y \<longleftrightarrow> f_lt F x y \<or> f_eq F x y"

subsection \<open>Baselines\<close>

record Sample =
  SmIterations :: int
  SmNsPerOp :: f64
  SmBytesPerOp :: int
  SmAllocsPerOp :: int
  SmMetrics :: "(string \<times> f64) list"

record Result =
  RsPackage :: string
  RsSuite :: string
  RsName :: string
  RsSamples :: "Sample list"

record Baseline =
  BlGoVersion :: string
  BlGOOS :: string
  BlGOARCH :: string
  BlCPU :: string
  BlGOMAXPROCS :: int
  BlResults :: "Result list"

definition node_sample :: "ndata \<Rightarrow> Sample" where
  "node_sample d = \<lparr>SmIterations = Iterations d, SmNsPerOp = NsPerOp d, SmBytesPerOp = BytesPerOp d,
     SmAllocsPerOp = AllocsPerOp d, SmMetrics = Metrics d\<rparr>"

definition line_sample :: "BenchLine \<Rightarrow> Sample" where
  "line_sample l = \<lparr>SmIterations = BIterations l, SmNsPerOp = BNsPerOp l, SmBytesPerOp = BBytesPerOp l,
     SmAllocsPerOp = BAllocsPerOp l, SmMetrics = BMetrics l\<rparr>"

definition index_key :: "string \<Rightarrow> string \<Rightarrow> string \<Rightarrow> string" where
  "index_key pkgPath suite name = pkgPath @ [CHR 0x00] @ suite @ [CHR 0x00] @ name"

record bench_index =
  BxResults :: "Result list"
  BxIndex :: "string \<Rightarrow> nat option"
  BxProcs :: int

definition no_results :: bench_index where
  "no_results = \<lparr>BxResults = [], BxIndex = (\<lambda>_. None), BxProcs = 0\<rparr>"

definition add_sample :: "nat \<Rightarrow> Sample \<Rightarrow> bench_index \<Rightarrow> bench_index" where
  "add_sample i smp st =
     st\<lparr>BxResults := (BxResults st)[i := (BxResults st ! i)\<lparr>RsSamples := RsSamples (BxResults st ! i) @ [smp]\<rparr>]\<rparr>"

definition record_leaf :: "string \<Rightarrow> string \<Rightarrow> string \<Rightarrow> Sample \<Rightarrow> bench_index \<Rightarrow> bench_index" where
  "record_leaf pkgPath suite name smp st =
     (let key = index_key pkgPath suite name in
      case BxIndex st key of
        Some i \<Rightarrow> add_sample i smp st
      | None \<Rightarrow> st\<lparr>BxIndex := (BxIndex st)(key \<mapsto> length (BxResults st)),
          BxResults := BxResults st @ [\<lparr>RsPackage = pkgPath, RsSuite = suite, RsName = name, RsSamples = [smp]\<rparr>]\<rparr>)"

text \<open>\<open>ancestor\<close> is the name of the top node, \<open>None\<close> at the top node itself.\<close>

fun collectBenchLeaves :: "string \<Rightarrow> string option \<Rightarrow> string \<Rightarrow> node \<Rightarrow> bench_index \<Rightarrow> bench_index" where
  "collectBenchLeaves pkgPath ancestor below (Node d cs) st =
     (let name = (if below \<noteq> [] then below @ ''/'' @ Name d else Name d) in
      if Kind d = KindBenchmark \<and> cs = []
      then (if Iterations d = 0 then st
            else let suite = (case ancestor of None \<Rightarrow> [] | Some t \<Rightarrow> trimPrefix t ''Benchmark'');
                     st = (if BxProcs st = 0 then st\<lparr>BxProcs := Procs d\<rparr> else st)
                 in record_leaf pkgPath suite name (node_sample d) st)
      else let childBelow = (if ancestor = None then [] else name);
               top_name = (case ancestor of None \<Rightarrow> Name d | Some t \<Rightarrow> t)
           in fold (\<lambda>c st. collectBenchLeaves pkgPath (Some top_name) childBelow c st) cs st)"

definition splitBenchFullName :: "string \<Rightarrow> string \<times> string" where
  "splitBenchFullName full =
     (case cut full ''/'' of
        None \<Rightarrow> ([], full)
      | Some (t, rest) \<Rightarrow> (trimPrefix t ''Benchmark'', rest))"

definition harvest_line :: "stdlib \<Rightarrow> string \<Rightarrow> string \<Rightarrow> bench_index \<Rightarrow> bench_index" where
  "harvest_line L pkgPath line st =
     (case ParseBenchLine L line of
        None \<Rightarrow> st
      | Some result \<Rightarrow>
          let (suite, name) = splitBenchFullName (BName result) in
          (case BxIndex st (index_key pkgPath suite name) of
             None \<Rightarrow> st
           | Some i \<Rightarrow> add_sample i (line_sample result) st))"

definition output_lines :: "string list \<Rightarrow> string list" where
  "output_lines output = split_byte (CHR 0x0A) (concat output)"

definition harvestPackageOutputSamples :: "stdlib \<Rightarrow> string \<Rightarrow> string list \<Rightarrow> bench_index \<Rightarrow> bench_index" where
  "harvestPackageOutputSamples L pkgPath output st = fold (harvest_line L pkgPath) (output_lines output) st"

fun first_cpu :: "string list \<Rightarrow> string" where
  "first_cpu [] = []"
| "first_cpu (l # ls) = (case cutPrefix (trim_space l) ''cpu: '' of Some model \<Rightarrow> trim_space model | None \<Rightarrow> first_cpu ls)"

definition cpuLine :: "string list \<Rightarrow> string" where "cpuLine output = first_cpu (output_lines output)"

definition result_order :: "Result \<Rightarrow> string list" where
  "result_order r = [RsPackage r, RsSuite r, RsName r]"

definition tree_results :: "Package list \<Rightarrow> bench_index" where
  "tree_results pkgs = fold (\<lambda>pkg st. fold (collectBenchLeaves (Path pkg) None []) (Nodes pkg) st) pkgs no_results"

definition all_results :: "stdlib \<Rightarrow> Package list \<Rightarrow> bench_index" where
  "all_results L pkgs = fold (\<lambda>pkg st. harvestPackageOutputSamples L (Path pkg) (POutput pkg) st) pkgs (tree_results pkgs)"

text \<open>The toolchain and the machine are arguments; the time of creation is not kept.\<close>

definition FromPackages :: "stdlib \<Rightarrow> string \<Rightarrow> string \<Rightarrow> string \<Rightarrow> Package list \<Rightarrow> Baseline" where
  "FromPackages L version goos goarch pkgs =
     (let st = all_results L pkgs
      in \<lparr>BlGoVersion = version, BlGOOS = goos, BlGOARCH = goarch,
          BlCPU = fold (\<lambda>pkg cpu. if cpu = [] then cpuLine (POutput pkg) else cpu) pkgs [],
          BlGOMAXPROCS = BxProcs st, BlResults = sort_key result_order (BxResults st)\<rparr>)"

definition schemaVersion :: int where "schemaVersion = 1"

definition check_schema :: "int \<Rightarrow> Baseline \<Rightarrow> string + Baseline" where
  "check_schema v b =
     (if v \<noteq> schemaVersion then Inl (''gotestbench: unsupported schema version '' @ itoa v @ '' (want '' @ itoa schemaVersion @ '')'')
      else Inr b)"

subsection \<open>The significance test\<close>

definition meanVariance :: "float_ops \<Rightarrow> f64 list \<Rightarrow> f64 \<times> f64" where
  "meanVariance F xs =
     (let n = f_int F (int (length xs)) in
      if xs = [] then (0, 0)
      else let mean = f_div F (foldl (f_add F) 0 xs) n in
        if length xs < 2 then (mean, 0)
        else let ss = foldl (\<lambda>ss x. let d = f_sub F x mean in f_add F ss (f_mul F d d)) 0 xs
             in (mean, f_div F ss (f_sub F n (f_int F 1))))"

definition beta_epsilon :: f64 where "beta_epsilon = 0x3E9421F5F40D8376"
definition beta_tiny :: f64 where "beta_tiny = 0x39B4484BFEEBC2A0"
definition maxIterations :: nat where "maxIterations = 200"

definition clamp_tiny :: "float_ops \<Rightarrow> f64 \<Rightarrow> f64" where
  "clamp_tiny F d = (if f_lt F (f_abs F d) beta_tiny then beta_tiny else d)"

text \<open>One half of a round of Lentz's algorithm: \<open>c\<close>, \<open>d\<close> and their product, from the coefficient.\<close>

definition lentz_half :: "float_ops \<Rightarrow> f64 \<Rightarrow> f64 \<times> f64 \<Rightarrow> f64 \<times> f64" where
  "lentz_half F aa cd =
     (let d = clamp_tiny F (f_add F (f_int F 1) (f_mul F aa (snd cd)));
          c = clamp_tiny F (f_add F (f_int F 1) (f_div F aa (fst cd)))
      in (c, f_div F (f_int F 1) d))"

fun beta_rounds :: "float_ops \<Rightarrow> f64 \<Rightarrow> f64 \<Rightarrow> f64 \<Rightarrow> nat \<Rightarrow> nat \<Rightarrow> f64 \<times> f64 \<Rightarrow> f64 \<Rightarrow> f64" where
  "beta_rounds F a b x m 0 cd h = h"
| "beta_rounds F a b x m (Suc left) cd h =
     (let one = f_int F 1; fm = f_int F (int m); m2 = f_int F (int (2 * m));
          qab = f_add F a b; qap = f_add F a one; qam = f_sub F a one;
          aa = f_div F (f_mul F (f_mul F fm (f_sub F b fm)) x) (f_mul F (f_add F qam m2) (f_add F a m2));
          cd = lentz_half F aa cd;
          h = f_mul F h (f_mul F (snd cd) (fst cd));
          aa = f_div F (f_mul F (f_mul F (f_neg F (f_add F a fm)) (f_add F qab fm)) x) (f_mul F (f_add F a m2) (f_add F qap m2));
          cd = lentz_half F aa cd;
          del = f_mul F (snd cd) (fst cd);
          h = f_mul F h del
      in if f_lt F (f_abs F (f_sub F del one)) beta_epsilon then h
         else beta_rounds F a b x (m + 1) left cd h)"

definition betaContinuedFraction :: "float_ops \<Rightarrow> f64 \<Rightarrow> f64 \<Rightarrow> f64 \<Rightarrow> f64" where
  "betaContinuedFraction F a b x =
     (let one = f_int F 1; qab = f_add F a b; qap = f_add F a one;
          d = f_div F one (clamp_tiny F (f_sub F one (f_div F (f_mul F qab x) qap)))
      in beta_rounds F a b x 1 maxIterations (one, d) d)"

definition incompleteBeta :: "float_ops \<Rightarrow> f64 \<Rightarrow> f64 \<Rightarrow> f64 \<Rightarrow> f64" where
  "incompleteBeta F a b x =
     (let one = f_int F 1 in
      if f_le F x 0 then 0
      else if f_le F one x then one
      else
        let lnBt = f_add F (f_add F (f_sub F (f_sub F (f_lgamma F (f_add F a b)) (f_lgamma F a)) (f_lgamma F b))
              (f_mul F a (f_log F x))) (f_mul F b (f_log F (f_sub F one x)));
            bt = f_exp F lnBt
        in if f_lt F x (f_div F (f_add F a one) (f_add F (f_add F a b) (f_int F 2)))
           then f_div F (f_mul F bt (betaContinuedFraction F a b x)) a
           else f_sub F one (f_div F (f_mul F bt (betaContinuedFraction F b a (f_sub F one x))) b))"

definition welchPValue :: "float_ops \<Rightarrow> f64 list \<Rightarrow> f64 list \<Rightarrow> f64" where
  "welchPValue F a b =
     (let one = f_int F 1; na = f_int F (int (length a)); nb = f_int F (int (length b));
          (meanA, varA) = meanVariance F a; (meanB, varB) = meanVariance F b;
          seA = f_div F varA na; seB = f_div F varB nb; se2 = f_add F seA seB
      in if f_le F se2 0 then (if f_eq F meanA meanB then one else 0)
         else
           let t = f_div F (f_sub F meanA meanB) (f_sqrt F se2);
               df = f_div F (f_mul F se2 se2)
                 (f_add F (f_div F (f_mul F seA seA) (f_sub F na one)) (f_div F (f_mul F seB seB) (f_sub F nb one)))
           in if f_le F df 0 \<or> f_isnan F df then one
              else incompleteBeta F (f_div F df (f_int F 2)) 0x3FE0000000000000 (f_div F df (f_add F df (f_mul F t t))))"

subsection \<open>Comparison\<close>

record Delta =
  DtKey :: string
  DtOldNs :: f64
  DtNewNs :: f64
  DtPercentChange :: f64
  DtSignificant :: bool
  DtInsufficientSample :: bool

definition MinSamplesForTTest :: nat where "MinSamplesForTTest = 4"
definition significanceLevel :: f64 where "significanceLevel = 0x3FA999999999999A"
definition insufficientSampleThresholdPct :: f64 where "insufficientSampleThresholdPct = 0x4034000000000000"

definition nsSamples :: "Sample list \<Rightarrow> f64 list" where "nsSamples samples = map SmNsPerOp samples"

definition resultKey :: "Result \<Rightarrow> string" where
  "resultKey r = RsPackage r @ '' '' @ RsSuite r @ ''/'' @ RsName r"

definition compareResult :: "float_ops \<Rightarrow> string \<Rightarrow> Result \<Rightarrow> Result \<Rightarrow> Delta" where
  "compareResult F key old new =
     (let oldNs = nsSamples (RsSamples old); newNs = nsSamples (RsSamples new);
          oldMean = fst (meanVariance F oldNs); newMean = fst (meanVariance F newNs);
          pctChange = (if \<not> f_eq F oldMean 0 then f_mul F (f_div F (f_sub F newMean oldMean) oldMean) (f_int F 100) else 0);
          few = length oldNs < MinSamplesForTTest \<or> length newNs < MinSamplesForTTest
      in \<lparr>DtKey = key, DtOldNs = oldMean, DtNewNs = newMean, DtPercentChange = pctChange,
          DtSignificant = (if few then f_le F insufficientSampleThresholdPct (f_abs F pctChange)
             else f_lt F (welchPValue F oldNs newNs) significanceLevel),
          DtInsufficientSample = few\<rparr>)"

text \<open>A later result of the same key replaces an earlier one in the index.\<close>

definition result_index :: "Result list \<Rightarrow> string \<Rightarrow> Result option" where
  "result_index rs = map_of (rev (map (\<lambda>r. (resultKey r, r)) rs))"

definition Compare :: "float_ops \<Rightarrow> Baseline \<Rightarrow> Baseline \<Rightarrow> Delta list" where
  "Compare F old new =
     sort_key DtKey (List.map_filter (\<lambda>nr.
       case result_index (BlResults old) (resultKey nr) of
         None \<Rightarrow> None
       | Some r \<Rightarrow> Some (compareResult F (resultKey nr) r nr)) (BlResults new))"

definition WorstRegression :: "float_ops \<Rightarrow> Delta list \<Rightarrow> f64" where
  "WorstRegression F deltas =
     foldl (\<lambda>worst d. if DtSignificant d \<and> f_lt F worst (DtPercentChange d) then DtPercentChange d else worst) 0 deltas"

definition result_keys :: "Baseline \<Rightarrow> string list" where
  "result_keys b = remdups (map resultKey (BlResults b))"

definition Unmatched :: "Baseline \<Rightarrow> Baseline \<Rightarrow> string list \<times> string list" where
  "Unmatched old new =
     (sort (filter (\<lambda>k. k \<notin> set (result_keys new)) (result_keys old)),
      sort (filter (\<lambda>k. k \<notin> set (result_keys old)) (result_keys new)))"

subsection \<open>The environment\<close>

record EnvDiff =
  EvField :: string
  EvBaseline :: string
  EvRun :: string

definition procsField :: "int \<Rightarrow> string" where "procsField n = (if n = 0 then [] else itoa n)"

definition env_fields :: "Baseline \<Rightarrow> Baseline \<Rightarrow> (string \<times> string \<times> string) list" where
  "env_fields old new =
     [(''goos'', BlGOOS old, BlGOOS new), (''goarch'', BlGOARCH old, BlGOARCH new),
      (''goVersion'', BlGoVersion old, BlGoVersion new), (''cpu'', BlCPU old, BlCPU new),
      (''gomaxprocs'', procsField (BlGOMAXPROCS old), procsField (BlGOMAXPROCS new))]"

definition EnvMismatch :: "Baseline \<Rightarrow> Baseline \<Rightarrow> EnvDiff list" where
  "EnvMismatch old new =
     concat (map (\<lambda>(field, was, now).
       if was = [] \<or> now = [] \<or> was = now then [] else [\<lparr>EvField = field, EvBaseline = was, EvRun = now\<rparr>]) (env_fields old new))"

definition FormatEnvMismatch :: "EnvDiff list \<Rightarrow> string" where
  "FormatEnvMismatch diffs =
     (if diffs = [] then []
      else ''baseline was recorded in a different environment ('' @
        join ''; '' (map (\<lambda>d. EvField d @ '' '' @ EvBaseline d @ '', now '' @ EvRun d) diffs) @
        ''); the deltas compare runs that are not alike'')"

subsection \<open>The report and the gate\<close>

record bench_failure =
  BfPackage :: string
  BfSuite :: string
  BfName :: string
  BfOutput :: string

definition isBenchNameLine :: "string list \<Rightarrow> string \<Rightarrow> bool" where
  "isBenchNameLine path line =
     list_ex (\<lambda>i. trim_space line = join ''/'' (take (i + 1) path)) [0..<length path]"

text \<open>The first top node of the name in the packages of the path decides.\<close>

definition isSuiteWrapper :: "Package list \<Rightarrow> string \<Rightarrow> string \<Rightarrow> bool" where
  "isSuiteWrapper pkgs path name =
     (case filter (\<lambda>n. Name (dat n) = name) (concat (map Nodes (filter (\<lambda>p. Path p = path) pkgs))) of
        [] \<Rightarrow> False
      | n # _ \<Rightarrow> kids n \<noteq> [])"

definition failure_of :: "Package list \<Rightarrow> Failure \<Rightarrow> bench_failure list" where
  "failure_of pkgs f =
     (let lines = filter (\<lambda>l. \<not> isBenchNameLine (FPath f) l) (FLines f);
          base = \<lparr>BfPackage = FPackage f, BfSuite = [], BfName = [], BfOutput = join nl lines\<rparr>
      in if lines = [] \<and> \<not> FOrigin f then []
         else if FPath f = [] then [base]
         else if length (FPath f) = 1 \<and> \<not> isSuiteWrapper pkgs (FPackage f) (hd (FPath f)) then [base\<lparr>BfName := hd (FPath f)\<rparr>]
         else [base\<lparr>BfSuite := trimPrefix (hd (FPath f)) ''Benchmark'', BfName := join ''/'' (tl (FPath f))\<rparr>])"

definition FailuresOf :: "Package list \<Rightarrow> bench_failure list" where
  "FailuresOf pkgs = concat (map (failure_of pkgs) (Failures pkgs))"

record Gate =
  GaThresholdPct :: f64
  GaWorstPct :: f64
  GaWorstKey :: string
  GaBreached :: bool
  GaBreachedKeys :: "string list"

definition gate_step :: "float_ops \<Rightarrow> f64 \<Rightarrow> Gate \<Rightarrow> Delta \<Rightarrow> Gate" where
  "gate_step F thresholdPct g d =
     (if \<not> DtSignificant d then g
      else
        let g = (if f_lt F (GaWorstPct g) (DtPercentChange d)
              then g\<lparr>GaWorstPct := DtPercentChange d, GaWorstKey := DtKey d\<rparr> else g)
        in if f_lt F thresholdPct (DtPercentChange d) then g\<lparr>GaBreachedKeys := GaBreachedKeys g @ [DtKey d]\<rparr> else g)"

definition GateVerdict :: "float_ops \<Rightarrow> Delta list \<Rightarrow> f64 \<Rightarrow> Gate" where
  "GateVerdict F deltas thresholdPct =
     (let g = foldl (gate_step F thresholdPct)
            \<lparr>GaThresholdPct = thresholdPct, GaWorstPct = 0, GaWorstKey = [], GaBreached = False, GaBreachedKeys = []\<rparr> deltas
      in g\<lparr>GaBreached := f_lt F thresholdPct (GaWorstPct g)\<rparr>)"

subsection \<open>The command\<close>

definition filterDeltas :: "Delta list \<Rightarrow> bool \<Rightarrow> Delta list" where
  "filterDeltas deltas showAll = (if showAll then deltas else filter DtSignificant deltas)"

definition toSpecDeltas :: "Delta list \<Rightarrow> BenchDelta list" where
  "toSpecDeltas deltas = map (\<lambda>d. \<lparr>DlKey = DtKey d, DlOldNs = DtOldNs d, DlNewNs = DtNewNs d,
     DlPercentChange = DtPercentChange d, DlSignificant = DtSignificant d, DlInsufficientSample = DtInsufficientSample d\<rparr>) deltas"

definition deltasForReport :: "Delta list option \<Rightarrow> string \<Rightarrow> Delta list option" where
  "deltasForReport deltas againstPath =
     (if againstPath = [] then None else case deltas of None \<Rightarrow> Some [] | Some ds \<Rightarrow> Some ds)"

text \<open>What the words of the command line and the configuration ask for.\<close>

record bench_words =
  BwSaveGiven :: bool
  BwSave :: string
  BwAgainstGiven :: bool
  BwAgainst :: string
  BwGate :: "string option"
  BwCount :: int
  BwBaseline :: string
  BwConfigGate :: f64

record bench_plan =
  PlSave :: string
  PlAgainst :: string
  PlGate :: "f64 option"

datatype bench_error = SaveNeedsPath | InvalidGate string | SameFile | GateNeedsBaseline | GateNeedsCount

definition save_target :: "bench_words \<Rightarrow> bench_error + string" where
  "save_target w =
     (if BwSave w = [] \<and> BwSaveGiven w
      then (if BwBaseline w = [] then Inl SaveNeedsPath else Inr (BwBaseline w)) else Inr (BwSave w))"

definition gate_pct :: "(string \<Rightarrow> f64 option) \<Rightarrow> bench_words \<Rightarrow> bench_error + f64" where
  "gate_pct parse w = (case BwGate w of
     None \<Rightarrow> Inr (BwConfigGate w)
   | Some raw \<Rightarrow> (case parse raw of None \<Rightarrow> Inl (InvalidGate raw) | Some v \<Rightarrow> Inr v))"

definition plan_bench ::
    "float_ops \<Rightarrow> (string \<Rightarrow> f64 option) \<Rightarrow> (string \<Rightarrow> string \<Rightarrow> bool) \<Rightarrow> bench_words \<Rightarrow> bench_error + bench_plan" where
  "plan_bench F parse sameFile w =
     (case save_target w of
        Inl e \<Rightarrow> Inl e
      | Inr saveTarget \<Rightarrow>
          let againstPath = (if BwAgainst w = [] then BwBaseline w else BwAgainst w) in
          (case gate_pct parse w of
             Inl e \<Rightarrow> Inl e
           | Inr pct \<Rightarrow>
               let gateActive = f_lt F 0 pct;
                   same = saveTarget \<noteq> [] \<and> againstPath \<noteq> [] \<and> sameFile saveTarget againstPath
               in if same \<and> BwAgainstGiven w then Inl SameFile
                  else
                    let againstPath = (if same then [] else againstPath);
                        gateActive = (if same \<and> BwGate w = None then False else gateActive)
                    in if gateActive \<and> againstPath = [] then Inl GateNeedsBaseline
                       else if gateActive \<and> BwCount w < int MinSamplesForTTest then Inl GateNeedsCount
                       else Inr \<lparr>PlSave = saveTarget, PlAgainst = againstPath, PlGate = (if gateActive then Some pct else None)\<rparr>))"

text \<open>The exit code once the benchmarks have run.\<close>

definition gate_code :: "float_ops \<Rightarrow> bench_plan \<Rightarrow> Delta list \<Rightarrow> int \<Rightarrow> int" where
  "gate_code F pl deltas code =
     (case PlGate pl of
        None \<Rightarrow> code
      | Some pct \<Rightarrow>
          if PlAgainst pl = [] then code
          else if deltas = [] \<or> GaBreached (GateVerdict F deltas pct) then (if code = 0 then 1 else code)
          else code)"

end
