(* ===== verification/BenchProps.thy ===== *)
theory BenchProps
  imports Bench TerminalProps
begin

text \<open>
  The baseline of a bench run holds every sample once and under its own key, a comparison accounts for
  every key of both baselines, and a gate that was asked for judges.
\<close>

subsection \<open>The samples of a run\<close>

definition keyed :: "string \<Rightarrow> string \<times> string \<Rightarrow> 's \<Rightarrow> string \<times> 's" where
  "keyed pkgPath sn smp = (index_key pkgPath (fst sn) (snd sn), smp)"

text \<open>Every benchmark leaf that ran, with its key and its sample, in the order of the tree.\<close>

fun leaf_samples :: "string \<Rightarrow> string option \<Rightarrow> string \<Rightarrow> node \<Rightarrow> (string \<times> Sample) list" where
  "leaf_samples p ancestor below (Node d cs) =
     (let name = (if below \<noteq> [] then below @ ''/'' @ Name d else Name d) in
      if Kind d = KindBenchmark \<and> cs = []
      then (if Iterations d = 0 then []
            else [keyed p (case ancestor of None \<Rightarrow> [] | Some t \<Rightarrow> trimPrefix t ''Benchmark'', name) (node_sample d)])
      else concat (map (leaf_samples p (Some (case ancestor of None \<Rightarrow> Name d | Some t \<Rightarrow> t))
             (if ancestor = None then [] else name)) cs))"

definition tree_samples :: "Package list \<Rightarrow> (string \<times> Sample) list" where
  "tree_samples pkgs = concat (map (\<lambda>pkg. concat (map (leaf_samples (Path pkg) None []) (Nodes pkg))) pkgs)"

definition line_samples :: "stdlib \<Rightarrow> Package list \<Rightarrow> (string \<times> Sample) list" where
  "line_samples L pkgs = concat (map (\<lambda>pkg. List.map_filter (\<lambda>l.
     map_option (\<lambda>r. keyed (Path pkg) (splitBenchFullName (BName r)) (line_sample r)) (ParseBenchLine L l)) (output_lines (POutput pkg))) pkgs)"

definition samples_for :: "string \<Rightarrow> (string \<times> 's) list \<Rightarrow> 's list" where
  "samples_for k xs = map snd (filter (\<lambda>x. fst x = k) xs)"

lemma samples_for_simps [simp]:
  "samples_for k [] = []" "samples_for k (a @ b) = samples_for k a @ samples_for k b"
  "samples_for k (x # xs) = (if fst x = k then [snd x] else []) @ samples_for k xs"
  by (simp_all add: samples_for_def)

definition key_of :: "Result \<Rightarrow> string" where
  "key_of r = index_key (RsPackage r) (RsSuite r) (RsName r)"

text \<open>The index points at the result of its key.\<close>

definition index_ok :: "bench_index \<Rightarrow> bool" where
  "index_ok st \<longleftrightarrow> (\<forall>k i. BxIndex st k = Some i \<longleftrightarrow> i < length (BxResults st) \<and> key_of (BxResults st ! i) = k)"

definition samples_at :: "bench_index \<Rightarrow> string \<Rightarrow> Sample list" where
  "samples_at st k = (case BxIndex st k of None \<Rightarrow> [] | Some i \<Rightarrow> RsSamples (BxResults st ! i))"

lemma index_ok_start: "index_ok no_results"
  by (simp add: index_ok_def no_results_def)

lemma add_sample_ok:
  assumes "index_ok st" "BxIndex st k = Some i"
  shows "index_ok (add_sample i smp st)" "BxIndex (add_sample i smp st) = BxIndex st"
    "samples_at (add_sample i smp st) k' = samples_at st k' @ (if k' = k then [smp] else [])"
proof -
  have i: "i < length (BxResults st)" "key_of (BxResults st ! i) = k" using assms by (auto simp: index_ok_def)
  have keys: "key_of (BxResults (add_sample i smp st) ! j) = key_of (BxResults st ! j)" for j
    using i(1) by (cases "j = i") (simp_all add: add_sample_def key_of_def)
  show "BxIndex (add_sample i smp st) = BxIndex st" by (simp add: add_sample_def)
  then show "index_ok (add_sample i smp st)"
    using assms(1) keys by (simp add: index_ok_def) (simp add: add_sample_def)
  show "samples_at (add_sample i smp st) k' = samples_at st k' @ (if k' = k then [smp] else [])"
  proof (cases "BxIndex st k'")
    case None
    then show ?thesis using assms(2) by (auto simp: samples_at_def add_sample_def)
  next
    case (Some j)
    then have "j = i \<longleftrightarrow> k' = k" using assms i unfolding index_ok_def by (metis option.inject)
    then show ?thesis using Some i(1) by (auto simp: samples_at_def add_sample_def)
  qed
qed

lemma record_leaf_ok:
  assumes "index_ok st"
  shows "index_ok (record_leaf p s n smp st)"
    "samples_at (record_leaf p s n smp st) k = samples_at st k @ samples_for k [keyed p (s, n) smp]"
    "dom (BxIndex (record_leaf p s n smp st)) = insert (index_key p s n) (dom (BxIndex st))"
proof -
  let ?key = "index_key p s n"
  have "index_ok (record_leaf p s n smp st) \<and>
    samples_at (record_leaf p s n smp st) k = samples_at st k @ samples_for k [keyed p (s, n) smp] \<and>
    dom (BxIndex (record_leaf p s n smp st)) = insert ?key (dom (BxIndex st))"
  proof (cases "BxIndex st ?key")
    case (Some i)
    then show ?thesis using add_sample_ok[OF assms Some, of smp] by (auto simp: record_leaf_def keyed_def)
  next
    case None
    let ?r = "\<lparr>RsPackage = p, RsSuite = s, RsName = n, RsSamples = [smp]\<rparr>"
    have new: "key_of ?r = ?key" by (simp add: key_of_def)
    have no: "key_of (BxResults st ! i) \<noteq> ?key" if "i < length (BxResults st)" for i
      using assms None that unfolding index_ok_def by (metis option.distinct(1))
    have "(if k = ?key then Some (length (BxResults st)) else BxIndex st k) = Some i \<longleftrightarrow>
        i < Suc (length (BxResults st)) \<and> key_of ((BxResults st @ [?r]) ! i) = k" for k i
      using assms no new by (auto simp: index_ok_def nth_append less_Suc_eq)
    then have "index_ok (record_leaf p s n smp st)" using None by (simp add: index_ok_def record_leaf_def)
    moreover have "samples_at (record_leaf p s n smp st) k = samples_at st k @ samples_for k [keyed p (s, n) smp]"
    proof (cases "k = ?key")
      case True
      then show ?thesis using None by (simp add: samples_at_def record_leaf_def keyed_def)
    next
      case False
      have "i < length (BxResults st)" if "BxIndex st k = Some i" for i
        using assms that by (simp add: index_ok_def)
      then show ?thesis using None False
        by (cases "BxIndex st k") (auto simp: samples_at_def record_leaf_def keyed_def nth_append)
    qed
    ultimately show ?thesis using None by (auto simp: record_leaf_def)
  qed
  then show "index_ok (record_leaf p s n smp st)"
    "samples_at (record_leaf p s n smp st) k = samples_at st k @ samples_for k [keyed p (s, n) smp]"
    "dom (BxIndex (record_leaf p s n smp st)) = insert ?key (dom (BxIndex st))" by blast+
qed

text \<open>What a walk leaves behind: it has recorded exactly the samples it met.\<close>

definition recorded :: "(string \<times> Sample) list \<Rightarrow> bench_index \<Rightarrow> bench_index \<Rightarrow> bool" where
  "recorded xs st st' \<longleftrightarrow> index_ok st' \<and> (\<forall>k. samples_at st' k = samples_at st k @ samples_for k xs) \<and>
     dom (BxIndex st') = fst ` set xs \<union> dom (BxIndex st)"

lemma recorded_Nil: "index_ok st \<Longrightarrow> recorded [] st st"
  by (simp add: recorded_def)

lemma recorded_append: "recorded xs st st' \<Longrightarrow> recorded ys st' st'' \<Longrightarrow> recorded (xs @ ys) st st''"
  by (auto simp: recorded_def)

lemma recorded_fold:
  assumes "\<And>x s. x \<in> set xs \<Longrightarrow> index_ok s \<Longrightarrow> recorded (f x) s (g x s)" "index_ok st"
  shows "recorded (concat (map f xs)) st (fold g xs st)"
  using assms
proof (induction xs arbitrary: st)
  case (Cons x xs)
  have r: "recorded (f x) st (g x st)" using Cons.prems by simp
  then have "index_ok (g x st)" by (simp add: recorded_def)
  then have "recorded (concat (map f xs)) (g x st) (fold g xs (g x st))" using Cons by simp
  then show ?case using recorded_append[OF r] by simp
qed (simp add: recorded_Nil)

lemma same_index:
  "BxIndex a = BxIndex b \<Longrightarrow> BxResults a = BxResults b \<Longrightarrow> index_ok a = index_ok b \<and> (\<forall>k. samples_at a k = samples_at b k)"
  by (simp add: index_ok_def samples_at_def split: option.split)

lemma leaves_recorded:
  "index_ok st \<Longrightarrow> recorded (leaf_samples p ancestor below n) st (collectBenchLeaves p ancestor below n st)"
proof (induction n arbitrary: ancestor below st)
  case (Node d cs)
  show ?case
  proof (cases "Kind d = KindBenchmark \<and> cs = []")
    case True
    let ?st = "if BxProcs st = 0 then st\<lparr>BxProcs := Procs d\<rparr> else st"
    have "BxIndex ?st = BxIndex st" "BxResults ?st = BxResults st" by simp_all
    note same = same_index[OF this]
    have "index_ok ?st" "samples_at ?st k = samples_at st k" "BxIndex ?st = BxIndex st" for k
      using Node.prems same by simp_all
    then show ?thesis using True Node.prems record_leaf_ok[of ?st]
      by (auto simp: Let_def recorded_def keyed_def split: option.split)
  next
    case False
    let ?a = "Some (case ancestor of None \<Rightarrow> Name d | Some t \<Rightarrow> t)"
    let ?b = "if ancestor = None then [] else if below \<noteq> [] then below @ ''/'' @ Name d else Name d"
    have "recorded (concat (map (leaf_samples p ?a ?b) cs)) st (fold (collectBenchLeaves p ?a ?b) cs st)"
      using Node by (intro recorded_fold)
    moreover have "leaf_samples p ancestor below (Node d cs) = concat (map (leaf_samples p ?a ?b) cs)"
      "collectBenchLeaves p ancestor below (Node d cs) st = fold (collectBenchLeaves p ?a ?b) cs st"
      using False unfolding leaf_samples.simps collectBenchLeaves.simps Let_def by (simp_all only: if_False)
    ultimately show ?thesis by (simp only:)
  qed
qed

lemma tree_recorded: "recorded (tree_samples pkgs) no_results (tree_results pkgs)"
  unfolding tree_samples_def tree_results_def
  by (intro recorded_fold leaves_recorded index_ok_start)

text \<open>The lines of a package add to the results the tree has, and to no others.\<close>

definition harvested :: "(string \<times> Sample) list \<Rightarrow> bench_index \<Rightarrow> bench_index \<Rightarrow> bool" where
  "harvested xs st st' \<longleftrightarrow> index_ok st' \<and> dom (BxIndex st') = dom (BxIndex st) \<and>
     (\<forall>k \<in> dom (BxIndex st). samples_at st' k = samples_at st k @ samples_for k xs)"

lemma harvested_append: "harvested xs st st' \<Longrightarrow> harvested ys st' st'' \<Longrightarrow> harvested (xs @ ys) st st''"
  by (auto simp: harvested_def)

lemma harvested_fold:
  assumes "\<And>x s. x \<in> set xs \<Longrightarrow> index_ok s \<Longrightarrow> harvested (f x) s (g x s)" "index_ok st"
  shows "harvested (concat (map f xs)) st (fold g xs st)"
  using assms
proof (induction xs arbitrary: st)
  case (Cons x xs)
  have r: "harvested (f x) st (g x st)" using Cons.prems by simp
  then have "index_ok (g x st)" by (simp add: harvested_def)
  then have "harvested (concat (map f xs)) (g x st) (fold g xs (g x st))" using Cons by simp
  then show ?case using harvested_append[OF r] by simp
qed (simp add: harvested_def)

definition line_keyed :: "stdlib \<Rightarrow> string \<Rightarrow> string \<Rightarrow> (string \<times> Sample) list" where
  "line_keyed L p l = (case ParseBenchLine L l of
     None \<Rightarrow> [] | Some r \<Rightarrow> [keyed p (splitBenchFullName (BName r)) (line_sample r)])"

lemma line_harvested: "index_ok st \<Longrightarrow> harvested (line_keyed L p l) st (harvest_line L p l st)"
proof (cases "ParseBenchLine L l")
  case None
  then show "index_ok st \<Longrightarrow> ?thesis" by (simp add: line_keyed_def harvest_line_def harvested_def)
next
  case (Some r)
  assume ok: "index_ok st"
  obtain s n where sn: "splitBenchFullName (BName r) = (s, n)" by fastforce
  show ?thesis
  proof (cases "BxIndex st (index_key p s n)")
    case None
    then show ?thesis using Some sn ok by (auto simp: line_keyed_def harvest_line_def harvested_def keyed_def)
  next
    case (Some i)
    then show ?thesis using \<open>ParseBenchLine L l = Some r\<close> sn add_sample_ok[OF ok Some, of "line_sample r"]
      by (auto simp: line_keyed_def harvest_line_def harvested_def keyed_def)
  qed
qed

lemma line_samples_keyed:
  "line_samples L pkgs = concat (map (\<lambda>pkg. concat (map (line_keyed L (Path pkg)) (output_lines (POutput pkg)))) pkgs)"
proof -
  have "List.map_filter (\<lambda>l. map_option (\<lambda>r. keyed p (splitBenchFullName (BName r)) (line_sample r)) (ParseBenchLine L l)) ls =
      concat (map (line_keyed L p) ls)" for p ls
    by (induction ls) (auto simp: line_keyed_def map_filter_simps split: option.split)
  then show ?thesis by (simp add: line_samples_def)
qed

lemma lines_harvested: "index_ok st \<Longrightarrow>
  harvested (line_samples L pkgs) st (fold (\<lambda>pkg st. harvestPackageOutputSamples L (Path pkg) (POutput pkg) st) pkgs st)"
  unfolding line_samples_keyed harvestPackageOutputSamples_def
  by (intro harvested_fold line_harvested)

lemma index_ok_distinct: "index_ok st \<Longrightarrow> distinct (map key_of (BxResults st))"
  unfolding distinct_conv_nth index_ok_def by (metis length_map nth_map option.inject)

lemma index_ok_keys: "index_ok st \<Longrightarrow> key_of ` set (BxResults st) = dom (BxIndex st)"
proof -
  assume ok: "index_ok st"
  have "k \<in> key_of ` set (BxResults st) \<longleftrightarrow> (\<exists>i. BxIndex st k = Some i)" for k
    using ok unfolding index_ok_def by (metis (no_types, lifting) image_iff in_set_conv_nth)
  then show ?thesis by (auto simp: dom_def)
qed

lemma samples_at_result: "index_ok st \<Longrightarrow> r \<in> set (BxResults st) \<Longrightarrow> samples_at st (key_of r) = RsSamples r"
proof -
  assume ok: "index_ok st" and r: "r \<in> set (BxResults st)"
  obtain i where "i < length (BxResults st)" "BxResults st ! i = r" using r by (metis in_set_conv_nth)
  then have "BxIndex st (key_of r) = Some i" using ok by (simp add: index_ok_def)
  then show ?thesis using \<open>BxResults st ! i = r\<close> by (simp add: samples_at_def)
qed

lemma all_results_ok:
  "index_ok (all_results L pkgs)" "dom (BxIndex (all_results L pkgs)) = fst ` set (tree_samples pkgs)"
  "r \<in> set (BxResults (all_results L pkgs)) \<Longrightarrow> RsSamples r = samples_for (key_of r) (tree_samples pkgs @ line_samples L pkgs)"
proof -
  have t: "recorded (tree_samples pkgs) no_results (tree_results pkgs)" by (rule tree_recorded)
  then have "index_ok (tree_results pkgs)" by (simp add: recorded_def)
  then have h: "harvested (line_samples L pkgs) (tree_results pkgs) (all_results L pkgs)"
    unfolding all_results_def by (rule lines_harvested)
  show ok: "index_ok (all_results L pkgs)" using h by (simp add: harvested_def)
  show d: "dom (BxIndex (all_results L pkgs)) = fst ` set (tree_samples pkgs)"
    using t h by (simp add: recorded_def harvested_def no_results_def)
  assume r: "r \<in> set (BxResults (all_results L pkgs))"
  have "key_of r \<in> dom (BxIndex (tree_results pkgs))"
    using index_ok_keys[OF ok] r h by (auto simp: harvested_def)
  moreover have "samples_at no_results k = []" for k by (simp add: samples_at_def no_results_def)
  ultimately show "RsSamples r = samples_for (key_of r) (tree_samples pkgs @ line_samples L pkgs)"
    using samples_at_result[OF ok r] t h by (simp add: recorded_def harvested_def)
qed

text \<open>
  The baseline of a run has one result for each benchmark that ran, in order, and its samples are
  exactly those of the tree's leaves and of the output lines that carry its name, the leaves first
  and each in the order they came.
\<close>

theorem baseline_samples:
  "map RsSamples (BlResults (FromPackages L v goos goarch pkgs)) =
     map (\<lambda>r. samples_for (key_of r) (tree_samples pkgs @ line_samples L pkgs)) (BlResults (FromPackages L v goos goarch pkgs)) \<and>
   key_of ` set (BlResults (FromPackages L v goos goarch pkgs)) = fst ` set (tree_samples pkgs) \<and>
   distinct (map key_of (BlResults (FromPackages L v goos goarch pkgs))) \<and>
   sorted (map result_order (BlResults (FromPackages L v goos goarch pkgs)))"
proof -
  let ?st = "all_results L pkgs"
  have R: "BlResults (FromPackages L v goos goarch pkgs) = sort_key result_order (BxResults ?st)"
    by (simp add: FromPackages_def Let_def)
  have "distinct (map key_of (sort_key result_order (BxResults ?st)))"
    using index_ok_distinct[OF all_results_ok(1)] by (auto simp: distinct_map)
  then show ?thesis
    unfolding R using all_results_ok(3)[of _ L pkgs] index_ok_keys[OF all_results_ok(1)] all_results_ok(2)[of L pkgs] by simp
qed

subsection \<open>What a comparison judges\<close>

lemma result_index_dom: "dom (result_index rs) = resultKey ` set rs"
  by (force simp: result_index_def dom_map_of_conv_image_fst)

definition bench_keys :: "Baseline \<Rightarrow> string set" where "bench_keys b = resultKey ` set (BlResults b)"

text \<open>
  A comparison leaves nothing out without saying so: the keys of its deltas are those in both
  baselines, the missing and the added ones those in only the old and only the new, each in order
  and the last two without repetition.
\<close>

lemma compare_partitions:
  "set (map DtKey (Compare F old new)) = bench_keys old \<inter> bench_keys new \<and> sorted (map DtKey (Compare F old new)) \<and>
   set (fst (Unmatched old new)) = bench_keys old - bench_keys new \<and> sorted_wrt (<) (fst (Unmatched old new)) \<and>
   set (snd (Unmatched old new)) = bench_keys new - bench_keys old \<and> sorted_wrt (<) (snd (Unmatched old new))"
proof -
  let ?f = "\<lambda>nr. case result_index (BlResults old) (resultKey nr) of
         None \<Rightarrow> None | Some r \<Rightarrow> Some (compareResult F (resultKey nr) r nr)"
  have M: "map DtKey (List.map_filter ?f rs) = filter (\<lambda>k. k \<in> dom (result_index (BlResults old))) (map resultKey rs)" for rs
    by (induction rs) (auto simp: map_filter_simps compareResult_def Let_def split: option.split)
  have "DtKey ` set (List.map_filter ?f (BlResults new)) = set (map DtKey (List.map_filter ?f (BlResults new)))"
    by (simp only: set_map)
  also have "\<dots> = bench_keys old \<inter> bench_keys new"
    unfolding M result_index_dom bench_keys_def by auto
  finally have "set (map DtKey (Compare F old new)) = bench_keys old \<inter> bench_keys new"
    by (simp add: Compare_def)
  then show ?thesis
    by (auto simp: Compare_def Unmatched_def result_keys_def bench_keys_def strict_sorted_iff)
qed

subsection \<open>The gate\<close>

text \<open>How a comparison of floats behaves: it is a strict order that no NaN is part of, and a number that
  is not a NaN lies on one side of every gap.\<close>

definition ieee_order :: "float_ops \<Rightarrow> bool" where
  "ieee_order F \<longleftrightarrow> (\<forall>x. \<not> f_lt F x x) \<and> (\<forall>x y z. f_lt F x y \<and> f_lt F y z \<longrightarrow> f_lt F x z) \<and>
     (\<forall>x y. f_lt F x y \<longrightarrow> \<not> f_isnan F x \<and> \<not> f_isnan F y) \<and> \<not> f_isnan F 0 \<and>
     (\<forall>x y w. f_lt F x y \<and> \<not> f_isnan F w \<longrightarrow> f_lt F x w \<or> f_lt F w y)"

lemma ieee_facts:
  assumes "ieee_order F"
  shows "\<not> f_lt F x x" "f_lt F x y \<Longrightarrow> f_lt F y z \<Longrightarrow> f_lt F x z" "f_lt F x y \<Longrightarrow> \<not> f_isnan F y" "\<not> f_isnan F 0"
    "f_lt F x y \<Longrightarrow> \<not> f_isnan F w \<Longrightarrow> f_lt F x w \<or> f_lt F w y"
  using assms unfolding ieee_order_def by blast+

definition breaches :: "float_ops \<Rightarrow> f64 \<Rightarrow> Delta \<Rightarrow> bool" where
  "breaches F pct d \<longleftrightarrow> DtSignificant d \<and> f_lt F pct (DtPercentChange d)"

lemma gate_keys:
  "GaBreachedKeys (foldl (gate_step F pct) g ds) = GaBreachedKeys g @ map DtKey (filter (breaches F pct) ds)"
proof (induction ds arbitrary: g)
  case (Cons d ds)
  then show ?case by (simp add: gate_step_def breaches_def Let_def)
qed simp

lemma gate_worst:
  assumes F: "ieee_order F" "f_lt F 0 pct"
  shows "\<not> f_isnan F (GaWorstPct g) \<Longrightarrow>
    f_lt F pct (GaWorstPct (foldl (gate_step F pct) g ds)) \<longleftrightarrow> f_lt F pct (GaWorstPct g) \<or> list_ex (breaches F pct) ds"
proof (induction ds arbitrary: g)
  case (Cons d ds)
  let ?w = "GaWorstPct g" and ?p = "DtPercentChange d"
  have w: "GaWorstPct (gate_step F pct g d) = (if DtSignificant d \<and> f_lt F ?w ?p then ?p else ?w)"
    by (simp add: gate_step_def Let_def)
  have nan: "\<not> f_isnan F (GaWorstPct (gate_step F pct g d))"
    using Cons.prems ieee_facts(3)[OF F(1)] w by auto
  have up: "f_lt F pct ?p" if "f_lt F pct ?w" "f_lt F ?w ?p" using ieee_facts(2)[OF F(1) that] .
  have stay: "f_lt F pct ?w" if "f_lt F pct ?p" "\<not> f_lt F ?w ?p" using ieee_facts(5)[OF F(1) that(1) Cons.prems] that(2) by blast
  have "f_lt F pct (GaWorstPct (gate_step F pct g d)) \<longleftrightarrow> f_lt F pct ?w \<or> breaches F pct d"
    using up stay unfolding w breaches_def by auto
  then show ?case using Cons.IH[OF nan] by simp
qed simp

lemma GateVerdict_breached:
  assumes "ieee_order F" "f_lt F 0 pct"
  shows "GaBreached (GateVerdict F ds pct) \<longleftrightarrow> list_ex (breaches F pct) ds"
    "GaBreachedKeys (GateVerdict F ds pct) = map DtKey (filter (breaches F pct) ds)"
proof -
  have "\<not> f_lt F pct 0" "\<not> f_isnan F 0" using ieee_facts[OF assms(1)] assms(2) by blast+
  then show "GaBreached (GateVerdict F ds pct) \<longleftrightarrow> list_ex (breaches F pct) ds"
    using gate_worst[OF assms, of "\<lparr>GaThresholdPct = pct, GaWorstPct = 0, GaWorstKey = [], GaBreached = False, GaBreachedKeys = []\<rparr>" ds]
    by (simp add: GateVerdict_def Let_def)
  show "GaBreachedKeys (GateVerdict F ds pct) = map DtKey (filter (breaches F pct) ds)"
    by (simp add: GateVerdict_def Let_def gate_keys)
qed

lemma planned_gate:
  assumes "plan_bench F parse same w = Inr pl" "PlGate pl = Some pct"
  shows "f_lt F 0 pct" "PlAgainst pl \<noteq> []" "int MinSamplesForTTest \<le> BwCount w"
  using assms by (auto simp: plan_bench_def Let_def split: sum.splits if_splits)


definition some_floats :: float_ops where
  "some_floats = \<lparr>f_add = (+), f_sub = (-), f_mul = (*), f_div = (\<lambda>x y. x div y), f_lt = (<), f_eq = (=),
     f_int = of_int, f_neg = (\<lambda>x. - x), f_abs = (\<lambda>x. x), f_sqrt = (\<lambda>x. x), f_exp = (\<lambda>x. x), f_log = (\<lambda>x. x),
     f_lgamma = (\<lambda>x. x), f_isnan = (\<lambda>_. False)\<rparr>"

definition some_words :: bench_words where
  "some_words = \<lparr>BwSaveGiven = False, BwSave = [], BwAgainstGiven = True, BwAgainst = ''base.json'', BwGate = Some ''10'',
     BwCount = 4, BwBaseline = [], BwConfigGate = 0\<rparr>"

definition slower :: Delta where
  "slower = \<lparr>DtKey = ''p S/A'', DtOldNs = 1, DtNewNs = 2, DtPercentChange = 12, DtSignificant = True, DtInsufficientSample = False\<rparr>"


end
