(* ===== verification/Snapshot.thy ===== *)
theory Snapshot
  imports Protocol "HOL-Library.List_Lexorder" "HOL-Library.Char_ord"
begin

text \<open>
  \<^verbatim>\<open>pkg/gotest/snapshot.go\<close> and \<^verbatim>\<open>internal/snapfile\<close>: the sections of a snapshot file and what a
  \<^verbatim>\<open>MatchSnapshot\<close> does with them.  The text of the value and whether its test is in an external
  package are arguments of a match; a store holds the bytes of each file and the sections a
  process has claimed in it.  A write that fails is not modelled.
\<close>

subsection \<open>Snapshot files\<close>

record Section =
  SKey :: string
  SContent :: string

text \<open>\<open>headerRe\<close> on a line, with the key it captures.\<close>

definition header_key :: "string \<Rightarrow> string option" where
  "header_key line = (case cutPrefix line ''=== SNAP '' of
     None \<Rightarrow> None
   | Some r \<Rightarrow> (case cutSuffix r '' ==='' of
       None \<Rightarrow> None
     | Some k \<Rightarrow> if k = [] \<or> CHR 0x0A \<in> set k then None else Some k))"

fun crlf_to_lf :: "string \<Rightarrow> string" where
  "crlf_to_lf (c # d # s) = (if c = CHR 0x0D \<and> d = CHR 0x0A then CHR 0x0A # crlf_to_lf s else c # crlf_to_lf (d # s))"
| "crlf_to_lf s = s"

text \<open>The section being read, with its lines so far, and the ones done.\<close>

fun parse_lines :: "(string \<times> string) option \<Rightarrow> string list \<Rightarrow> Section list" where
  "parse_lines cur [] = (case cur of None \<Rightarrow> [] | Some (k, content) \<Rightarrow> [\<lparr>SKey = k, SContent = content\<rparr>])"
| "parse_lines cur (l # ls) =
     (case header_key l of
        Some k \<Rightarrow> (case cur of None \<Rightarrow> [] | Some (k0, content) \<Rightarrow> [\<lparr>SKey = k0, SContent = content\<rparr>]) @ parse_lines (Some (k, [])) ls
      | None \<Rightarrow> (case cur of
            None \<Rightarrow> parse_lines None ls
          | Some (k, content) \<Rightarrow> parse_lines (Some (k, content @ l @ [CHR 0x0A])) ls))"

definition Parse :: "string \<Rightarrow> Section list" where
  "Parse data =
     (if data = [] then []
      else parse_lines None (split_byte (CHR 0x0A) (trimSuffix (crlf_to_lf data) [CHR 0x0A])))"

definition section_text :: "Section \<Rightarrow> string" where
  "section_text s = ''=== SNAP '' @ SKey s @ '' ==='' @ [CHR 0x0A] @ SContent s"

definition Serialize :: "Section list \<Rightarrow> string" where
  "Serialize sections = concat (map section_text (sort_key SKey sections))"

text \<open>The content's first line that spells a header, if it has one.\<close>

definition ValidateContent :: "string \<Rightarrow> string option" where
  "ValidateContent content = List.find (\<lambda>l. header_key l \<noteq> None) (split_byte (CHR 0x0A) content)"

subsection \<open>Names and content\<close>

text \<open>\<open>lineEnd\<close> replaced: a carriage return goes when only carriage returns stand between it and a
  line feed.\<close>

definition ends_line :: "string \<Rightarrow> bool" where
  "ends_line s \<longleftrightarrow> (case dropWhile (\<lambda>c. c = CHR 0x0D) s of [] \<Rightarrow> False | d # _ \<Rightarrow> d = CHR 0x0A)"

fun lf_ends :: "string \<Rightarrow> string" where
  "lf_ends [] = []"
| "lf_ends (c # s) = (if c = CHR 0x0D \<and> ends_line s then lf_ends s else c # lf_ends s)"

definition normal_content :: "string \<Rightarrow> string" where
  "normal_content content = trimSuffix (lf_ends (content @ [CHR 0x0A])) [CHR 0x0A]"

definition splitTestName :: "string \<Rightarrow> string \<times> string" where
  "splitTestName name = (case cut name ''/'' of Some (t, s) \<Rightarrow> (t, s) | None \<Rightarrow> (name, []))"

definition joinKey :: "string \<Rightarrow> string list \<Rightarrow> string" where
  "joinKey s name =
     (let key = (if name \<noteq> [] \<and> hd name \<noteq> [] then (if s \<noteq> [] then s @ '' '' else s) @ hd name else s)
      in if key = [] then ''_'' else key)"

text \<open>\<open>dedupSuffix\<close> removed: a number sign and digits at the end.\<close>

definition strip_dedup :: "string \<Rightarrow> string" where
  "strip_dedup s =
     (let ds = takeWhile is_digit (rev s); r = drop (length ds) (rev s)
      in if ds \<noteq> [] \<and> r \<noteq> [] \<and> hd r = CHR ''#'' then rev (tl r) else s)"

text \<open>The test's function, by its symbol: whether it is known, and external.\<close>

definition externalBySymbol :: "string \<Rightarrow> bool option" where
  "externalBySymbol fn =
     (if fn = [] then None
      else let pkg = (case last_index_byte fn (CHR ''/'') of None \<Rightarrow> fn | Some i \<Rightarrow> drop (i + 1) fn);
               pkg = (case index_byte pkg (CHR ''.'') of None \<Rightarrow> pkg | Some i \<Rightarrow> take i pkg)
           in Some (hasSuffix pkg ''_test''))"

subsection \<open>A match\<close>

record match_call =
  McTest :: string
  McName :: "string list"
  McText :: string
  McFunc :: string
  McExternal :: bool \<comment> \<open>what the caller's file says when the symbol does not\<close>

datatype snap_mode = Update | Readonly | Generate

datatype snap_verdict = Matched | Written | Mismatch string string string | NoBaseline string | BadName string | BadContent string

record snap_store =
  StFiles :: "string \<Rightarrow> string"
  StClaims :: "string \<Rightarrow> string list"

definition sectionIndex :: "Section list \<Rightarrow> string \<Rightarrow> nat option" where
  "sectionIndex sections key = (case List.find (\<lambda>i. SKey (sections ! i) = key) [0..<length sections] of
     None \<Rightarrow> None | Some i \<Rightarrow> Some i)"

definition call_key :: "match_call \<Rightarrow> string" where
  "call_key m = joinKey (snd (splitTestName (McTest m))) (McName m)"

definition old_key :: "match_call \<Rightarrow> string" where
  "old_key m = joinKey (strip_dedup (snd (splitTestName (McTest m)))) (McName m)"

definition snap_path :: "match_call \<Rightarrow> string" where
  "snap_path m =
     (let ext = (case externalBySymbol (McFunc m) of Some e \<Rightarrow> e | None \<Rightarrow> McExternal m)
      in fst (splitTestName (McTest m)) @ (if ext then ''_ext'' else []) @ ''.snap'')"

text \<open>The section a key reads, and whether it is one of the release before exact names.\<close>

definition find_section :: "Section list \<Rightarrow> string list \<Rightarrow> match_call \<Rightarrow> nat option \<times> bool" where
  "find_section sections claimed m =
     (case sectionIndex sections (call_key m) of
        Some i \<Rightarrow> (Some i, False)
      | None \<Rightarrow>
          if old_key m \<noteq> call_key m \<and> old_key m \<notin> set claimed
          then (let i = sectionIndex sections (old_key m) in (i, i \<noteq> None)) else (None, False))"

definition claim_keys :: "Section list \<Rightarrow> nat option \<Rightarrow> string \<Rightarrow> string list \<Rightarrow> string list" where
  "claim_keys sections idx key claimed =
     key # (case idx of None \<Rightarrow> [] | Some i \<Rightarrow> [SKey (sections ! i)]) @ claimed"

definition write_file :: "string \<Rightarrow> Section list \<Rightarrow> snap_store \<Rightarrow> snap_store" where
  "write_file p sections st = st\<lparr>StFiles := (StFiles st)(p := Serialize sections)\<rparr>"

definition compare_sections ::
    "snap_mode \<Rightarrow> string \<Rightarrow> string \<Rightarrow> string \<Rightarrow> Section list \<Rightarrow> nat option \<Rightarrow> bool \<Rightarrow> snap_store \<Rightarrow> snap_verdict \<times> snap_store" where
  "compare_sections mode p key got sections idx legacy st =
     (let new = \<lparr>SKey = key, SContent = got\<rparr> in
      case mode of
        Update \<Rightarrow> (Written, write_file p (case idx of Some i \<Rightarrow> sections[i := new] | None \<Rightarrow> sections @ [new]) st)
      | _ \<Rightarrow> (case idx of
          None \<Rightarrow> if mode = Readonly then (NoBaseline key, st) else (Written, write_file p (sections @ [new]) st)
        | Some i \<Rightarrow>
            let want = SContent (sections ! i) in
            if got = want \<and> legacy \<and> mode \<noteq> Readonly
            then (Matched, write_file p (sections[i := (sections ! i)\<lparr>SKey := key\<rparr>]) st)
            else if got \<noteq> want then (Mismatch key want got, st) else (Matched, st)))"

definition matchSnapshot :: "snap_mode \<Rightarrow> match_call \<Rightarrow> snap_store \<Rightarrow> snap_verdict \<times> snap_store" where
  "matchSnapshot mode m st =
     (let content = normal_content (McText m); key = call_key m in
      case ValidateContent content of
        Some l \<Rightarrow> (BadContent l, st)
      | None \<Rightarrow>
          if CHR 0x0D \<in> set key \<or> CHR 0x0A \<in> set key \<or> str_contains key ''=== SNAP '' then (BadName key, st)
          else
            let p = snap_path m; sections = Parse (StFiles st p); claimed = StClaims st p;
                (idx, legacy) = find_section sections claimed m;
                st = st\<lparr>StClaims := (StClaims st)(p := claim_keys sections idx key claimed)\<rparr>
            in compare_sections mode p key (content @ [CHR 0x0A]) sections idx legacy st)"

text \<open>The matches of a run, in order.\<close>

fun run_matches :: "snap_mode \<Rightarrow> match_call list \<Rightarrow> snap_store \<Rightarrow> snap_verdict list \<times> snap_store" where
  "run_matches mode [] st = ([], st)"
| "run_matches mode (m # ms) st =
     (let (v, st) = matchSnapshot mode m st; (vs, st) = run_matches mode ms st in (v # vs, st))"

text \<open>A process starts with no claims.\<close>

definition fresh_process :: "snap_store \<Rightarrow> snap_store" where
  "fresh_process st = st\<lparr>StClaims := (\<lambda>_. [])\<rparr>"

end
