(* ===== verification/SnapshotProps.thy ===== *)
theory SnapshotProps
  imports Snapshot "HOL-Library.Multiset"
begin

text \<open>
  Snapshot files read back: what \<open>Serialize\<close> writes \<open>Parse\<close> reads, and with it the baselines of a run
  are those the next run compares with.
\<close>

abbreviation LF :: char where "LF \<equiv> CHR 0x0A"
abbreviation CR :: char where "CR \<equiv> CHR 0x0D"

subsection \<open>Line ends\<close>

fun clean :: "string \<Rightarrow> bool" where
  "clean (c # d # s) \<longleftrightarrow> \<not> (c = CR \<and> d = LF) \<and> clean (d # s)"
| "clean _ \<longleftrightarrow> True"

lemma clean_crlf: "clean s \<Longrightarrow> crlf_to_lf s = s"
  by (induction s rule: clean.induct) auto

lemma clean_Cons: "clean (c # s) \<longleftrightarrow> clean s \<and> \<not> (c = CR \<and> s \<noteq> [] \<and> hd s = LF)"
  by (cases s) auto

lemma clean_append: "clean a \<Longrightarrow> clean b \<Longrightarrow> a = [] \<or> last a \<noteq> CR \<Longrightarrow> clean (a @ b)"
  by (induction a) (auto simp: clean_Cons split: if_splits)

lemma no_cr_clean: "CR \<notin> set s \<Longrightarrow> clean s"
  by (induction s rule: clean.induct) auto

lemma lf_ends_hd: "lf_ends s \<noteq> [] \<Longrightarrow> hd (lf_ends s) = LF \<Longrightarrow> ends_line s"
  by (induction s) (auto simp: ends_line_def split: if_splits)

lemma lf_ends_clean: "clean (lf_ends s)"
  by (induction s) (auto simp: clean_Cons dest: lf_ends_hd)

lemma lf_ends_last: "\<exists>a. lf_ends (s @ [LF]) = a @ [LF]"
proof (induction s)
  case (Cons c s)
  then obtain a where "lf_ends (s @ [LF]) = a @ [LF]" by blast
  then show ?case by (cases "c = CR \<and> ends_line (s @ [LF])") (auto intro: exI[of _ "c # a"])
qed simp

lemma trimSuffix_append [simp]: "trimSuffix (a @ b) b = a"
  using cutSuffix_eq_Some[of "a @ b" b a] by (simp add: trimSuffix_def)

lemma normal_content_LF: "normal_content t @ [LF] = lf_ends (t @ [LF])"
  using lf_ends_last[of t] by (auto simp: normal_content_def)

lemma normal_content_clean: "clean (normal_content t @ [LF])"
  unfolding normal_content_LF by (rule lf_ends_clean)

subsection \<open>Lines\<close>

definition unlines :: "string list \<Rightarrow> string" where "unlines ls = concat (map (\<lambda>l. l @ [LF]) ls)"

lemma unlines_simps [simp]: "unlines [] = []" "unlines (l # ls) = l @ LF # unlines ls" "unlines (a @ b) = unlines a @ unlines b"
  by (simp_all add: unlines_def)

lemma split_byte_line: "c \<notin> set l \<Longrightarrow> split_byte c (l @ c # s) = l # split_byte c s"
  by (induction l) auto

lemma split_byte_none: "c \<notin> set l \<Longrightarrow> split_byte c l = [l]"
  by (induction l) auto

lemma split_unlines:
  assumes "ls \<noteq> []" "\<forall>l \<in> set ls. LF \<notin> set l"
  shows "\<exists>x. unlines ls = x @ [LF] \<and> split_byte LF x = ls"
  using assms
proof (induction ls)
  case (Cons l ls)
  show ?case
  proof (cases "ls = []")
    case True
    then show ?thesis using Cons.prems split_byte_none by auto
  next
    case False
    then obtain x where "unlines ls = x @ [LF]" "split_byte LF x = ls" using Cons by auto
    then show ?thesis using Cons.prems split_byte_line[of LF l x] by (auto intro: exI[of _ "l @ LF # x"])
  qed
qed simp

lemma unlines_split: "unlines (split_byte LF s) = s @ [LF]"
proof (induction s)
  case (Cons c s)
  show ?case
  proof (cases "split_byte LF s")
    case (Cons y ys)
    then show ?thesis using Cons.IH by auto
  qed simp
qed simp

lemma split_lines: "l \<in> set (split_byte LF s) \<Longrightarrow> LF \<notin> set l"
  using split_byte_no_sep by blast

subsection \<open>A file read back\<close>

text \<open>A section as a match writes it.\<close>

definition good_key :: "string \<Rightarrow> bool" where "good_key k \<longleftrightarrow> k \<noteq> [] \<and> LF \<notin> set k \<and> CR \<notin> set k"

definition good_section :: "Section \<Rightarrow> bool" where
  "good_section s \<longleftrightarrow> good_key (SKey s) \<and> clean (SContent s) \<and>
     (\<exists>c. SContent s = c @ [LF] \<and> ValidateContent c = None)"

definition head_line :: "Section \<Rightarrow> string" where "head_line s = ''=== SNAP '' @ SKey s @ '' ===''"

definition body_lines :: "Section \<Rightarrow> string list" where "body_lines s = split_byte LF (butlast (SContent s))"

lemma section_unlines: "good_section s \<Longrightarrow> section_text s = unlines (head_line s # body_lines s)"
  by (auto simp: good_section_def section_text_def head_line_def body_lines_def unlines_split)

lemma head_line_key: "good_section s \<Longrightarrow> header_key (head_line s) = Some (SKey s)"
proof -
  assume "good_section s"
  moreover have "cutPrefix (head_line s) ''=== SNAP '' = Some (SKey s @ '' ==='')"
    unfolding head_line_def by (rule cutPrefix_append)
  moreover have "cutSuffix (SKey s @ '' ==='') '' ==='' = Some (SKey s)" by (simp add: cutSuffix_eq_Some)
  ultimately show ?thesis by (simp add: header_key_def good_section_def good_key_def)
qed

lemma body_lines_plain: "good_section s \<Longrightarrow> l \<in> set (body_lines s) \<Longrightarrow> header_key l = None"
  by (auto simp: good_section_def body_lines_def ValidateContent_def find_None_iff)

lemma parse_body:
  "(\<And>l. l \<in> set ls \<Longrightarrow> header_key l = None) \<Longrightarrow>
   parse_lines (Some (k, x)) (ls @ rest) = parse_lines (Some (k, x @ unlines ls)) rest"
  by (induction ls arbitrary: x) auto

lemma body_unlines: "good_section s \<Longrightarrow> unlines (body_lines s) = SContent s"
  by (auto simp: good_section_def body_lines_def unlines_split)

lemma parse_sections:
  assumes "list_all good_section ss"
  shows "parse_lines (Some (k, x)) (concat (map (\<lambda>s. head_line s # body_lines s) ss)) = \<lparr>SKey = k, SContent = x\<rparr> # ss"
  using assms
proof (induction ss arbitrary: k x)
  case (Cons s ss)
  then have g: "good_section s" by simp
  have "parse_lines (Some (SKey s, [])) (body_lines s @ concat (map (\<lambda>s. head_line s # body_lines s) ss)) =
      \<lparr>SKey = SKey s, SContent = SContent s\<rparr> # ss"
    using parse_body[of "body_lines s"] body_lines_plain[OF g] Cons body_unlines[OF g] by simp
  then show ?case using head_line_key[OF g] by simp
qed simp

lemma text_clean: "list_all good_section ss \<Longrightarrow> clean (concat (map section_text ss))"
proof (induction ss)
  case (Cons s ss)
  then have g: "good_section s" by simp
  have h: "clean (''=== SNAP '' @ SKey s @ '' ==='' @ [LF])"
    using g by (intro no_cr_clean) (auto simp: good_section_def good_key_def)
  have c: "clean (SContent s)" "SContent s \<noteq> []" "last (SContent s) = LF" using g by (auto simp: good_section_def)
  have "clean (section_text s)"
    using clean_append[OF h c(1)] by (simp add: section_text_def)
  then show ?case using Cons clean_append[of "section_text s"] c(2,3) by (simp add: section_text_def)
qed simp

lemma Parse_Serialize:
  assumes "list_all good_section ss"
  shows "Parse (Serialize ss) = sort_key SKey ss"
proof (cases "ss = []")
  case False
  let ?ss = "sort_key SKey ss"
  let ?ls = "concat (map (\<lambda>s. head_line s # body_lines s) ?ss)"
  have good: "list_all good_section ?ss" using assms by (simp add: list_all_iff)
  have U: "concat (map section_text xs) = unlines (concat (map (\<lambda>s. head_line s # body_lines s) xs))"
    if "list_all good_section xs" for xs
    using that by (induction xs) (simp_all add: section_unlines)
  obtain s0 rest where ss: "?ss = s0 # rest" using False by (metis length_0_conv length_sort list.exhaust)
  have noLF: "\<forall>l \<in> set ?ls. LF \<notin> set l"
    using good by (auto simp: head_line_def body_lines_def good_section_def good_key_def list_all_iff dest: split_lines)
  have ne: "?ls \<noteq> []" using ss by simp
  obtain x where x: "unlines ?ls = x @ [LF]" "split_byte LF x = ?ls" using split_unlines[OF ne noLF] by blast
  have T: "Serialize ss = x @ [LF]" using U[OF good] x(1) by (simp add: Serialize_def)
  have "crlf_to_lf (Serialize ss) = x @ [LF]"
    unfolding T[symmetric] by (rule clean_crlf) (use text_clean[OF good] in \<open>simp add: Serialize_def\<close>)
  then have "Parse (Serialize ss) = parse_lines None ?ls" using T x(2) by (simp add: Parse_def)
  also have "\<dots> = ?ss"
  proof -
    have g: "good_section s0" "list_all good_section rest" using good ss by simp_all
    have "parse_lines (Some (SKey s0, [])) (body_lines s0 @ concat (map (\<lambda>s. head_line s # body_lines s) rest)) =
        \<lparr>SKey = SKey s0, SContent = SContent s0\<rparr> # rest"
      using parse_body[of "body_lines s0"] body_lines_plain[OF g(1)] parse_sections[OF g(2)] body_unlines[OF g(1)] by simp
    then show ?thesis using head_line_key[OF g(1)] ss by simp
  qed
  finally show ?thesis .
qed (simp add: Parse_def Serialize_def)

subsection \<open>Matches\<close>

definition accepted :: "match_call \<Rightarrow> bool" where
  "accepted m \<longleftrightarrow> ValidateContent (normal_content (McText m)) = None \<and>
     \<not> (CR \<in> set (call_key m) \<or> LF \<in> set (call_key m) \<or> str_contains (call_key m) ''=== SNAP '')"

text \<open>The section a match stands for, and those of a list of matches in one file.\<close>

definition section_of :: "match_call \<Rightarrow> Section" where
  "section_of m = \<lparr>SKey = call_key m, SContent = normal_content (McText m) @ [LF]\<rparr>"

definition sections_at :: "string \<Rightarrow> match_call list \<Rightarrow> Section list" where
  "sections_at p ms = map section_of (filter (\<lambda>m. snap_path m = p) ms)"

lemma joinKey_ne: "joinKey a b \<noteq> []"
  by (auto simp: joinKey_def Let_def)

lemma accepted_good: "accepted m \<Longrightarrow> good_section (section_of m)"
  using normal_content_clean by (auto simp: accepted_def good_section_def section_of_def good_key_def call_key_def joinKey_ne)

lemma sections_good: "list_all accepted ms \<Longrightarrow> list_all good_section (sections_at p ms)"
  by (auto simp: sections_at_def list_all_iff accepted_good)

definition place :: "match_call \<Rightarrow> string \<times> string" where "place m = (snap_path m, call_key m)"

lemma sections_distinct:
  assumes "distinct (map place ms)"
  shows "distinct (map SKey (sections_at p ms))"
proof -
  have "inj_on (\<lambda>m. SKey (section_of m)) (set (filter (\<lambda>m. snap_path m = p) ms))"
    using assms by (auto simp: distinct_map inj_on_def place_def section_of_def)
  then show ?thesis using assms by (simp add: sections_at_def distinct_map comp_def inj_on_def)
qed

lemma sort_again:
  assumes "distinct (map SKey (xs @ [y]))"
  shows "sort_key SKey (sort_key SKey xs @ [y]) = sort_key SKey (xs @ [y])"
proof (rule sort_key_inj_key_eq)
  have "inj_on SKey (set (xs @ [y]))" using assms by (simp only: distinct_map)
  then show "inj_on SKey (set (sort_key SKey xs @ [y]))" by simp
qed (simp_all only: mset_append mset_sort sorted_sort_key)

lemma accepted_match:
  assumes "accepted m"
  shows "matchSnapshot mode m st =
    (let p = snap_path m; sections = Parse (StFiles st p); claimed = StClaims st p;
         (idx, legacy) = find_section sections claimed m;
         st = st\<lparr>StClaims := (StClaims st)(p := claim_keys sections idx (call_key m) claimed)\<rparr>
     in compare_sections mode p (call_key m) (normal_content (McText m) @ [LF]) sections idx legacy st)"
  using assms by (simp add: matchSnapshot_def accepted_def Let_def)

lemma sectionIndex_find: "sectionIndex ss k = List.find (\<lambda>i. SKey (ss ! i) = k) [0..<length ss]"
  by (simp add: sectionIndex_def split: option.split)

lemma sectionIndex_None: "sectionIndex ss k = None \<longleftrightarrow> k \<notin> SKey ` set ss"
proof -
  have "(\<exists>i. i \<in> set [0..<length ss] \<and> SKey (ss ! i) = k) \<longleftrightarrow> k \<in> SKey ` set ss"
    by (metis (no_types, lifting) atLeastLessThan_iff image_iff in_set_conv_nth le0 set_upt)
  then show ?thesis unfolding sectionIndex_find find_None_iff by blast
qed

lemma sectionIndex_Some: "sectionIndex ss k = Some i \<Longrightarrow> i < length ss \<and> SKey (ss ! i) = k"
  by (auto simp: sectionIndex_find find_Some_iff)

subsection \<open>The run that writes the baselines\<close>

text \<open>Each file holds the sections of the matches so far, and all their keys are claimed.\<close>

definition written :: "match_call list \<Rightarrow> snap_store \<Rightarrow> bool" where
  "written ms st \<longleftrightarrow> (\<forall>p. StFiles st p = Serialize (sections_at p ms) \<and> SKey ` set (sections_at p ms) \<subseteq> set (StClaims st p))"

lemma section_key: "SKey (section_of m) = call_key m"
  by (simp add: section_of_def)

lemma sections_at_snoc:
  "sections_at p (ms @ [m]) = sections_at p ms @ (if snap_path m = p then [section_of m] else [])"
  by (simp add: sections_at_def)

lemma generate_one:
  assumes "written ms st" "list_all accepted (ms @ [m])" "distinct (map place (ms @ [m]))"
  shows "fst (matchSnapshot Generate m st) = Written" "written (ms @ [m]) (snd (matchSnapshot Generate m st))"
proof -
  let ?p = "snap_path m"
  let ?ss = "sections_at ?p ms"
  have acc: "accepted m" "list_all accepted ms" using assms(2) by simp_all
  have P: "Parse (StFiles st ?p) = sort_key SKey ?ss"
    using assms(1) Parse_Serialize[OF sections_good[OF acc(2)]] by (simp add: written_def)
  have new: "call_key m \<notin> SKey ` set ?ss"
    using sections_distinct[OF assms(3), of ?p] by (simp add: sections_at_snoc section_of_def)
  have old: "old_key m \<notin> SKey ` set ?ss" if "old_key m \<notin> set (StClaims st ?p)"
    using assms(1) that by (auto simp: written_def)
  have F: "find_section (sort_key SKey ?ss) (StClaims st ?p) m = (None, False)"
  proof -
    have "sectionIndex (sort_key SKey ?ss) (call_key m) = None" using new by (simp add: sectionIndex_None)
    moreover have "sectionIndex (sort_key SKey ?ss) (old_key m) = None" if "old_key m \<notin> set (StClaims st ?p)"
      using old[OF that] by (simp add: sectionIndex_None)
    ultimately show ?thesis by (simp add: find_section_def)
  qed
  have M: "matchSnapshot Generate m st =
      (Written, write_file ?p (sort_key SKey ?ss @ [section_of m])
        (st\<lparr>StClaims := (StClaims st)(?p := call_key m # StClaims st ?p)\<rparr>))"
    unfolding accepted_match[OF acc(1)] P Let_def F
    by (simp add: compare_sections_def claim_keys_def section_of_def)
  then show "fst (matchSnapshot Generate m st) = Written" by simp
  have S: "Serialize (sort_key SKey ?ss @ [section_of m]) = Serialize (?ss @ [section_of m])"
    using sort_again[of ?ss "section_of m"] sections_distinct[OF assms(3), of ?p]
    unfolding Serialize_def by (simp add: sections_at_snoc)
  show "written (ms @ [m]) (snd (matchSnapshot Generate m st))"
    using assms(1) by (auto simp: M written_def write_file_def S sections_at_snoc section_key)
qed

lemma generate_run:
  assumes "written ms0 st" "list_all accepted (ms0 @ ms)" "distinct (map place (ms0 @ ms))"
  shows "fst (run_matches Generate ms st) = replicate (length ms) Written \<and> written (ms0 @ ms) (snd (run_matches Generate ms st))"
  using assms
proof (induction ms arbitrary: ms0 st)
  case (Cons m ms)
  obtain v st' where M: "matchSnapshot Generate m st = (v, st')" by fastforce
  have "v = Written" "written (ms0 @ [m]) st'"
    using generate_one[of ms0 st m] Cons.prems M by (simp_all add: distinct_map)
  then show ?case using Cons.IH[of "ms0 @ [m]" st'] Cons.prems M by (auto simp: case_prod_beta)
qed simp

subsection \<open>The runs that read them\<close>

lemma read_one:
  assumes "\<forall>p. StFiles st p = Serialize (sections_at p ms)" "list_all accepted ms" "distinct (map place ms)" "m \<in> set ms" "mode \<noteq> Update"
    and c: "accepted c" "place c = place m"
  shows "fst (matchSnapshot mode c st) =
      (if section_of c = section_of m then Matched
       else Mismatch (call_key c) (SContent (section_of m)) (SContent (section_of c)))"
    "StFiles (snd (matchSnapshot mode c st)) = StFiles st"
proof -
  let ?p = "snap_path c"
  let ?ss = "sort_key SKey (sections_at ?p ms)"
  have pl: "snap_path m = ?p" "call_key m = call_key c" using c(2) by (simp_all add: place_def)
  have P: "Parse (StFiles st ?p) = ?ss" using assms(1) Parse_Serialize[OF sections_good[OF assms(2)]] by simp
  have here: "section_of m \<in> set ?ss" using assms(4) pl by (auto simp: sections_at_def)
  then have "call_key c \<in> SKey ` set ?ss" using pl(2) by (force simp: section_of_def)
  then obtain i where i: "sectionIndex ?ss (call_key c) = Some i" using sectionIndex_None by (metis option.exhaust)
  have "inj_on SKey (set ?ss)" using sections_distinct[OF assms(3), of ?p] by (simp add: distinct_map)
  moreover have "?ss ! i \<in> set ?ss" using sectionIndex_Some[OF i] nth_mem by blast
  moreover have "SKey (?ss ! i) = SKey (section_of m)" using sectionIndex_Some[OF i] pl(2) by (simp add: section_of_def)
  ultimately have eq: "?ss ! i = section_of m" using here by (metis (no_types, lifting) inj_onD set_sort)
  have F: "find_section ?ss cl c = (Some i, False)" for cl using i by (simp add: find_section_def)
  show "fst (matchSnapshot mode c st) =
      (if section_of c = section_of m then Matched
       else Mismatch (call_key c) (SContent (section_of m)) (SContent (section_of c)))"
    "StFiles (snd (matchSnapshot mode c st)) = StFiles st"
    unfolding accepted_match[OF c(1)] P Let_def F using eq assms(5) pl(2)
    by (auto simp: compare_sections_def section_of_def Let_def split: snap_mode.split)
qed

lemma read_run:
  assumes "\<forall>p. StFiles st p = Serialize (sections_at p ms)" "list_all accepted ms" "distinct (map place ms)" "set rs \<subseteq> set ms" "mode \<noteq> Update"
  shows "fst (run_matches mode rs st) = replicate (length rs) Matched \<and> StFiles (snd (run_matches mode rs st)) = StFiles st"
  using assms
proof (induction rs arbitrary: st)
  case (Cons m rs)
  obtain v st' where M: "matchSnapshot mode m st = (v, st')" by fastforce
  have "v = Matched" "StFiles st' = StFiles st" using read_one[of st ms m mode m] Cons.prems M
    by (auto simp: list_all_iff subset_iff)
  then show ?case using Cons.IH[of st'] Cons.prems M by (auto simp: case_prod_beta)
qed simp

definition no_files :: snap_store where "no_files = \<lparr>StFiles = (\<lambda>_. []), StClaims = (\<lambda>_. [])\<rparr>"

text \<open>
  C31: What a run writes is what the next one reads.  The baselines of any matches with a section of
  their own are all written, and in any later process any of the same matches, in any order and any
  number of times, pass and leave every file as it is, whether or not baselines may be written; one
  whose text is another by more than its line ends is a mismatch.
\<close>

theorem snapshots_reproduce:
  assumes "list_all accepted ms" "distinct (map place ms)" "set rs \<subseteq> set ms" "mode \<noteq> Update"
    and "m \<in> set ms" "accepted c" "place c = place m" "normal_content (McText c) \<noteq> normal_content (McText m)"
  shows "fst (run_matches Generate ms no_files) = replicate (length ms) Written \<and>
    fst (run_matches mode rs (fresh_process (snd (run_matches Generate ms no_files)))) = replicate (length rs) Matched \<and>
    StFiles (snd (run_matches mode rs (fresh_process (snd (run_matches Generate ms no_files))))) =
      StFiles (snd (run_matches Generate ms no_files)) \<and>
    fst (matchSnapshot mode c (snd (run_matches mode rs (fresh_process (snd (run_matches Generate ms no_files)))))) =
      Mismatch (call_key c) (normal_content (McText m) @ [LF]) (normal_content (McText c) @ [LF])"
proof -
  have w: "written [] no_files" by (simp add: written_def no_files_def sections_at_def Serialize_def)
  have g: "fst (run_matches Generate ms no_files) = replicate (length ms) Written"
      "written ms (snd (run_matches Generate ms no_files))"
    using generate_run[OF w, of ms] assms(1,2) by simp_all
  let ?st = "fresh_process (snd (run_matches Generate ms no_files))"
  let ?rd = "snd (run_matches mode rs ?st)"
  have f: "\<forall>p. StFiles ?st p = Serialize (sections_at p ms)" using g(2) by (simp add: written_def fresh_process_def)
  note r = read_run[OF f assms(1-4)]
  then have "\<forall>p. StFiles ?rd p = Serialize (sections_at p ms)" using f by simp
  from read_one(1)[OF this assms(1,2,5,4,6,7)] have "fst (matchSnapshot mode c ?rd) =
      Mismatch (call_key c) (normal_content (McText m) @ [LF]) (normal_content (McText c) @ [LF])"
    using assms(8) by (simp add: section_of_def)
  then show ?thesis using g(1) r by (simp add: fresh_process_def)
qed

definition two_calls :: "match_call list" where
  "two_calls = [\<lparr>McTest = ''TestS/a'', McName = [], McText = ''x'' @ [CR, LF] @ ''y'', McFunc = ''m/p.T'', McExternal = False\<rparr>,
     \<lparr>McTest = ''TestS/a#01'', McName = [], McText = [], McFunc = ''m/p.T'', McExternal = False\<rparr>]"

definition changed_call :: match_call where
  "changed_call = \<lparr>McTest = ''TestS/a'', McName = [], McText = ''z'', McFunc = ''m/p.T'', McExternal = False\<rparr>"

lemma snapshots_reproduce_witness:
  "fst (run_matches Readonly (rev two_calls) (fresh_process (snd (run_matches Generate two_calls no_files)))) = [Matched, Matched]"
proof -
  have "list_all accepted two_calls" "distinct (map place two_calls)" "accepted changed_call"
      "place changed_call = place (hd two_calls)"
      "normal_content (McText changed_call) \<noteq> normal_content (McText (hd two_calls))" by code_simp+
  moreover have "set (rev two_calls) \<subseteq> set two_calls" "length (rev two_calls) = 2" "hd two_calls \<in> set two_calls"
    by (simp_all add: two_calls_def)
  ultimately show ?thesis using snapshots_reproduce[of two_calls "rev two_calls" Readonly "hd two_calls" changed_call]
    by (simp add: numeral_2_eq_2)
qed

end
