(* ===== verification/GoTypes.thy ===== *)
theory GoTypes
  imports GoStrings
begin

text \<open>
  Go's types as \<^verbatim>\<open>internal/typeclass/typeclass.go\<close> reads them through \<open>go/types\<close>, and the values
  they have.  A defined type carries its underlying type, so a type is a finite tree; a type that
  mentions itself below a pointer, slice, map or channel is written there as \<open>Ref\<close> with its name.
\<close>

subsection \<open>Types\<close>

datatype basic =
    GoBool | IntT | UintT | UintptrT | GoInt nat | GoUint nat | GoFloat nat | GoComplex nat | GoString | UnsafePointer
  | UntypedBool | UntypedInt | UntypedRune | UntypedFloat | UntypedString | UntypedNil

text \<open>
  \<open>IntT\<close>, \<open>UintT\<close> and \<open>UintptrT\<close> are \<open>int\<close>, \<open>uint\<close> and \<open>uintptr\<close>, of 64 bits; \<open>GoInt w\<close> is \<open>int8\<close> to \<open>int64\<close>.
  \<open>Interface\<close> has its methods, with their signatures, and what it embeds; \<open>TypeParam\<close> its
  constraint.  \<open>Pointer\<close> to \<open>Map\<close> have their element types (a map its key first), \<open>Struct\<close> its
  fields in order, a blank field as \<open>_\<close>.
\<close>

datatype gotype =
    Basic basic
  | Named string gotype
  | Alias string gotype
  | Ref string
  | Pointer gotype
  | Slice gotype
  | Array nat gotype
  | MapType gotype gotype
  | Chan gotype
  | Signature string
  | Struct "(string \<times> gotype) list"
  | Interface "string list" "embedded list"
  | TypeParam string gotype
and embedded = Union "gotype list" | Embed gotype

text \<open>A constraint that is no interface stands for the one that embeds it.\<close>

fun unalias :: "gotype \<Rightarrow> gotype" where
  "unalias (Alias n t) = unalias t"
| "unalias t = t"

fun underlying :: "gotype \<Rightarrow> gotype" where
  "underlying (Named n t) = underlying t"
| "underlying (Alias n t) = underlying t"
| "underlying (TypeParam n c) = (case underlying c of
      Interface ms es \<Rightarrow> Interface ms es | _ \<Rightarrow> Interface [] [Embed c])"
| "underlying t = t"

text \<open>
  \<open>types.Identical\<close>: two types are identical when they are the same up to aliases, a defined type
  and a type parameter being their name.
\<close>

fun canon :: "gotype \<Rightarrow> gotype" and canon_embedded :: "embedded \<Rightarrow> embedded" where
  "canon (Basic b) = Basic b"
| "canon (Named n t) = Ref n"
| "canon (Alias n t) = canon t"
| "canon (Ref n) = Ref n"
| "canon (Pointer t) = Pointer (canon t)"
| "canon (Slice t) = Slice (canon t)"
| "canon (Array k t) = Array k (canon t)"
| "canon (MapType k t) = MapType (canon k) (canon t)"
| "canon (Chan t) = Chan (canon t)"
| "canon (Signature s) = Signature s"
| "canon (Struct fs) = Struct (map (\<lambda>(n, t). (n, canon t)) fs)"
| "canon (Interface ms es) = Interface ms (map canon_embedded es)"
| "canon (TypeParam n c) = TypeParam n (Ref [])"
| "canon_embedded (Union ts) = Union (map canon ts)"
| "canon_embedded (Embed t) = Embed (canon t)"

definition Identical :: "gotype \<Rightarrow> gotype \<Rightarrow> bool" where
  "Identical s t \<longleftrightarrow> canon s = canon t"

lemma Identical_refl [simp]: "Identical t t"
  and Identical_sym: "Identical s t \<Longrightarrow> Identical t s"
  and Identical_trans: "Identical s t \<Longrightarrow> Identical t u \<Longrightarrow> Identical s u"
  by (simp_all add: Identical_def)

subsection \<open>Classes of types\<close>

text \<open>
  \<open>terms\<close>: the types it visits, in order, and whether it found any.  \<open>terms_in e t\<close> goes on with
  the embedded type \<open>e\<close>, of which \<open>t\<close> is what is left to look through.
\<close>

fun terms :: "embedded list \<Rightarrow> gotype list \<times> bool" and terms_in :: "gotype \<Rightarrow> gotype \<Rightarrow> gotype list \<times> bool" where
  "terms [] = ([], False)"
| "terms (Union ts # es) = (let (us, found) = terms es in (ts @ us, True))"
| "terms (Embed e # es) = (let (vs, f) = terms_in e e; (us, found) = terms es in (vs @ us, f \<or> found))"
| "terms_in e (Alias n t) = terms_in t t"
| "terms_in e (Named n t) = terms_in e t"
| "terms_in e (Interface ms es) = terms es"
| "terms_in e (Basic b) = ([e], True)"
| "terms_in e (Ref n) = ([e], True)"
| "terms_in e (Pointer t) = ([e], True)"
| "terms_in e (Slice t) = ([e], True)"
| "terms_in e (Array k t) = ([e], True)"
| "terms_in e (MapType k t) = ([e], True)"
| "terms_in e (Chan t) = ([e], True)"
| "terms_in e (Signature s) = ([e], True)"
| "terms_in e (Struct fs) = ([e], True)"
| "terms_in e (TypeParam n c) = ([e], True)"

text \<open>The single type the visited types' underlying types share.\<close>

definition shared_core :: "gotype list \<times> bool \<Rightarrow> gotype option" where
  "shared_core v = (let (ts, found) = v in
     case map (\<lambda>t. underlying (unalias t)) ts of
       [] \<Rightarrow> None
     | core # us \<Rightarrow> (if found \<and> list_all (Identical core) us then Some core else None))"

definition CoreType :: "gotype \<Rightarrow> gotype option" where
  "CoreType t = (case unalias t of
      TypeParam n c \<Rightarrow> (case underlying (unalias c) of
          Interface ms es \<Rightarrow> shared_core (terms es)
        | _ \<Rightarrow> None)
    | u \<Rightarrow> Some (underlying u))"

definition Nilable :: "gotype \<Rightarrow> bool" where
  "Nilable t = (case CoreType t of
      None \<Rightarrow> False
    | Some u \<Rightarrow> (case u of
          Pointer e \<Rightarrow> True | Slice e \<Rightarrow> True | MapType k e \<Rightarrow> True | Chan e \<Rightarrow> True
        | Signature s \<Rightarrow> True | Interface ms es \<Rightarrow> True
        | Basic b \<Rightarrow> b = UnsafePointer
        | _ \<Rightarrow> False))"

text \<open>\<open>types.Comparable\<close> of a type that is no type parameter: its callers pass core types.\<close>

fun go_comparable :: "gotype \<Rightarrow> bool" where
  "go_comparable (Basic b) \<longleftrightarrow> b \<noteq> UntypedNil"
| "go_comparable (Named n t) \<longleftrightarrow> go_comparable t"
| "go_comparable (Alias n t) \<longleftrightarrow> go_comparable t"
| "go_comparable (Array k t) \<longleftrightarrow> go_comparable t"
| "go_comparable (Struct fs) \<longleftrightarrow> list_all (\<lambda>(n, t). go_comparable t) fs"
| "go_comparable (Pointer t) \<longleftrightarrow> True"
| "go_comparable (Chan t) \<longleftrightarrow> True"
| "go_comparable (Interface ms es) \<longleftrightarrow> True"
| "go_comparable _ \<longleftrightarrow> False"

definition Comparable :: "gotype \<Rightarrow> bool" where
  "Comparable t \<longleftrightarrow> go_comparable (unalias t)"

text \<open>The method set of \<open>error\<close>.\<close>

definition error_interface :: gotype where
  "error_interface = Interface [''Error() string''] []"

definition error_type :: gotype where
  "error_type = Named ''error'' error_interface"

definition IsErrorInterface :: "gotype \<Rightarrow> bool" where
  "IsErrorInterface t = (case CoreType t of None \<Rightarrow> False | Some u \<Rightarrow> Identical u (underlying error_type))"

text \<open>\<open>assignable\<close> is \<open>types.AssignableTo\<close>, which reads method sets.\<close>

definition ImplementsError :: "(gotype \<Rightarrow> gotype \<Rightarrow> bool) \<Rightarrow> gotype \<Rightarrow> bool" where
  "ImplementsError assignable t = assignable (unalias t) error_type"

end
