(* ===== verification/LintSimplify.thy ===== *)
theory LintSimplify
  imports GoTypes
begin

text \<open>
  \<^verbatim>\<open>internal/lint/simplify.go\<close> up to \<open>mapBoolExpr\<close>, and \<^verbatim>\<open>nilkind.go\<close>: the assertion that says directly what a
  condition says.  Go's expressions are a datatype; what the type checker
  knows of them comes as a \<open>pass\<close>.  An expression's position and the comments around it are not
  modelled: a fix is the assertion it writes and its arguments.
\<close>

subsection \<open>Expressions and what is known of them\<close>

text \<open>\<open>LNOT\<close> is \<open>token.NOT\<close>.\<close>

datatype token = LNOT | EQL | NEQ | GTR | GEQ | LSS | LEQ | LOR | ADD | SUB | OtherToken string

datatype literal = IntLit | StringLit | OtherLit

text \<open>\<open>OtherExpr\<close> is any expression the rules do not look into, named by its text.\<close>

datatype expr =
    Ident string
  | BasicLit literal string
  | ParenExpr expr
  | UnaryExpr token expr
  | BinaryExpr token expr expr
  | CallExpr expr "expr list"
  | SelectorExpr expr string
  | IndexExpr expr "expr list"
  | OtherExpr string

text \<open>
  What an identifier refers to: a function with its package, its name and the name of its first
  parameter's defined type, a constant with its type, an imported package with its path.
\<close>

datatype object = FuncObj string string "string option" | ConstObj gotype | PkgObj string | OtherObj

datatype const_value = StringConst string | OtherConst

record pass =
  typeOf :: "expr \<Rightarrow> gotype option"
  constOf :: "expr \<Rightarrow> const_value option"
  uses :: "expr \<Rightarrow> object"
  assignableTo :: "gotype \<Rightarrow> gotype \<Rightarrow> bool"
  typeString :: "gotype \<Rightarrow> string"
  exprText :: "expr \<Rightarrow> string"

definition gotestImportPath :: string where
  "gotestImportPath = ''github.com/mvrahden/go-test/pkg/gotest''"

text \<open>\<open>assertionFuncName\<close>: the name of the gotest assertion called, a function whose first parameter is \<open>testingT\<close>.\<close>

fun assertionFuncName :: "pass \<Rightarrow> expr \<Rightarrow> string" where
  "assertionFuncName P (IndexExpr f ts) = assertionFuncName P f"
| "assertionFuncName P (Ident n) = (case uses P (Ident n) of
      FuncObj pkg name first \<Rightarrow> if pkg = gotestImportPath \<and> first = Some ''testingT'' then name else []
    | _ \<Rightarrow> [])"
| "assertionFuncName P (SelectorExpr x n) = (case uses P (SelectorExpr x n) of
      FuncObj pkg name first \<Rightarrow> if pkg = gotestImportPath \<and> first = Some ''testingT'' then name else []
    | _ \<Rightarrow> [])"
| "assertionFuncName P _ = []"

definition pick :: "bool \<Rightarrow> string \<Rightarrow> string \<Rightarrow> string" where
  "pick cond ifTrue ifFalse = (if cond then ifTrue else ifFalse)"

subsection \<open>Types of operands\<close>

definition isPointerType :: "gotype \<Rightarrow> bool" where
  "isPointerType t = (case CoreType t of Some (Pointer e) \<Rightarrow> True | _ \<Rightarrow> False)"

definition isInterfaceType :: "gotype \<Rightarrow> bool" where
  "isInterfaceType t = (case CoreType t of Some (Interface ms es) \<Rightarrow> True | _ \<Rightarrow> False)"

definition isUntypedNil :: "gotype \<Rightarrow> bool" where
  "isUntypedNil t \<longleftrightarrow> t = Basic UntypedNil"

datatype nilKind = unknownNil | notNilable | errorIface | otherIface | comparableNil | uncomparableNil

definition nilKindOf :: "pass \<Rightarrow> expr \<Rightarrow> nilKind" where
  "nilKindOf P e = (case typeOf P e of
      None \<Rightarrow> notNilable
    | Some t \<Rightarrow>
        if isUntypedNil t then notNilable
        else (case CoreType t of
            None \<Rightarrow> unknownNil
          | Some core \<Rightarrow>
              if \<not> Nilable t then notNilable
              else if IsErrorInterface t then errorIface
              else if isInterfaceType t then otherIface
              else if Comparable core then comparableNil
              else uncomparableNil))"

definition is_float :: "basic \<Rightarrow> bool" where
  "is_float b = (case b of GoFloat w \<Rightarrow> True | UntypedFloat \<Rightarrow> True | _ \<Rightarrow> False)"

definition is_string :: "basic \<Rightarrow> bool" where
  "is_string b \<longleftrightarrow> b = GoString \<or> b = UntypedString"

definition mayBeFloat :: "pass \<Rightarrow> expr \<Rightarrow> bool" where
  "mayBeFloat P e = (case typeOf P e of
      None \<Rightarrow> True
    | Some t \<Rightarrow> (case CoreType t of Some (Basic b) \<Rightarrow> is_float b | _ \<Rightarrow> True))"

definition mayBeEmptyString :: "pass \<Rightarrow> expr \<Rightarrow> bool" where
  "mayBeEmptyString P needle = (case typeOf P needle of
      None \<Rightarrow> True
    | Some t \<Rightarrow>
        (case constOf P needle of
           Some v \<Rightarrow> v = StringConst []
         | None \<Rightarrow> (case CoreType t of
               None \<Rightarrow> True
             | Some (Interface ms es) \<Rightarrow> True
             | Some (Basic b) \<Rightarrow> is_string b
             | _ \<Rightarrow> False)))"

text \<open>\<open>ast.Unparen\<close>.\<close>

fun unparen :: "expr \<Rightarrow> expr" where
  "unparen (ParenExpr e) = unparen e"
| "unparen e = e"

definition hasTypeArgs :: "expr \<Rightarrow> bool" where
  "hasTypeArgs f = (case unparen f of IndexExpr x ts \<Rightarrow> True | _ \<Rightarrow> False)"

definition hasLength :: "pass \<Rightarrow> expr \<Rightarrow> bool" where
  "hasLength P e = (case typeOf P e of
      None \<Rightarrow> False
    | Some t \<Rightarrow> (case CoreType t of
          Some (Slice u) \<Rightarrow> True | Some (MapType k u) \<Rightarrow> True | Some (Chan u) \<Rightarrow> True | Some (Array k u) \<Rightarrow> True
        | Some (Basic b) \<Rightarrow> is_string b
        | _ \<Rightarrow> False))"

definition isBoolType :: "pass \<Rightarrow> expr \<Rightarrow> bool" where
  "isBoolType P e = (case typeOf P e of
      None \<Rightarrow> False
    | Some t \<Rightarrow> unalias t = Basic GoBool \<or> unalias t = Basic UntypedBool)"

definition isStringType :: "pass \<Rightarrow> expr \<Rightarrow> bool" where
  "isStringType P e = (case typeOf P e of
      None \<Rightarrow> False
    | Some t \<Rightarrow> (case underlying t of Basic b \<Rightarrow> is_string b | _ \<Rightarrow> False))"

text \<open>
  \<open>reachesPointerSeen\<close> with the map of the types seen, which the fields share: a type met before is
  not looked at again.
\<close>

function (sequential) reachesPointerSeen :: "gotype \<Rightarrow> gotype list \<Rightarrow> bool \<times> gotype list"
  and struct_reaches :: "(string \<times> gotype) list \<Rightarrow> gotype list \<Rightarrow> bool \<times> gotype list"
  and underlying_reaches :: "gotype \<Rightarrow> gotype list \<Rightarrow> bool \<times> gotype list" where
  "reachesPointerSeen t seen = (if t \<in> set seen then (False, seen) else underlying_reaches t (t # seen))"
| "underlying_reaches (Named n u) seen = underlying_reaches u seen"
| "underlying_reaches (Alias n u) seen = underlying_reaches u seen"
| "underlying_reaches (Struct fs) seen = struct_reaches fs seen"
| "underlying_reaches (Array k u) seen = reachesPointerSeen u seen"
| "underlying_reaches (Basic b) seen = (False, seen)"
| "underlying_reaches (Chan u) seen = (False, seen)"
| "underlying_reaches u seen = (True, seen)"
| "struct_reaches [] seen = (False, seen)"
| "struct_reaches (f # fs) seen =
     (case reachesPointerSeen (snd f) seen of
        (True, seen') \<Rightarrow> (True, seen')
      | (False, seen') \<Rightarrow> struct_reaches fs seen')"
  by pat_completeness auto
termination
  by (relation "measure (case_sum (\<lambda>(t, seen). 2 * size t + 1)
      (case_sum (\<lambda>(fs, seen). 2 * size_list (size_prod (\<lambda>_. 0) size) fs) (\<lambda>(t, seen). 2 * size t)))")
    (auto split: prod.splits)

definition reachesPointer :: "gotype \<Rightarrow> bool" where
  "reachesPointer t = fst (reachesPointerSeen t [])"

text \<open>\<open>Interface.Empty\<close>: an interface every type satisfies.\<close>

fun empty_interface :: "gotype \<Rightarrow> bool" and empty_embedded :: "embedded \<Rightarrow> bool" where
  "empty_interface (Interface ms es) \<longleftrightarrow> ms = [] \<and> list_all empty_embedded es"
| "empty_interface (Named n t) \<longleftrightarrow> empty_interface t"
| "empty_interface (Alias n t) \<longleftrightarrow> empty_interface t"
| "empty_interface _ \<longleftrightarrow> False"
| "empty_embedded (Embed t) \<longleftrightarrow> empty_interface t"
| "empty_embedded (Union ts) \<longleftrightarrow> list_ex empty_interface ts"

definition isAnyInterface :: "gotype \<Rightarrow> bool" where
  "isAnyInterface t = (case unalias t of Interface ms es \<Rightarrow> empty_interface (Interface ms es) | _ \<Rightarrow> False)"

definition bridgesToAny :: "gotype \<Rightarrow> bool" where
  "bridgesToAny t \<longleftrightarrow> \<not> isInterfaceType t \<and> \<not> reachesPointer t"

definition namedType :: "gotype \<Rightarrow> string \<Rightarrow> string \<Rightarrow> bool" where
  "namedType t pkgPath name = (case unalias t of Named n u \<Rightarrow> n = pkgPath @ ''.'' @ name | _ \<Rightarrow> False)"

definition namedPtrType :: "gotype option \<Rightarrow> string \<Rightarrow> string \<Rightarrow> bool" where
  "namedPtrType t pkgPath name = (case map_option unalias t of Some (Pointer e) \<Rightarrow> namedType e pkgPath name | _ \<Rightarrow> False)"

subsection \<open>Shapes of expressions\<close>

definition isNilIdent :: "expr \<Rightarrow> bool" where
  "isNilIdent e \<longleftrightarrow> e = Ident ''nil''"

definition isBoolIdent :: "expr \<Rightarrow> bool option" where
  "isBoolIdent e = (if e = Ident ''true'' then Some True else if e = Ident ''false'' then Some False else None)"

definition extractBoolLiteral :: "expr \<Rightarrow> expr \<Rightarrow> (bool \<times> expr) option" where
  "extractBoolLiteral a b = (case isBoolIdent a of
      Some v \<Rightarrow> Some (v, b)
    | None \<Rightarrow> (case isBoolIdent b of Some v \<Rightarrow> Some (v, a) | None \<Rightarrow> None))"

definition isEmptyStringLit :: "expr \<Rightarrow> bool" where
  "isEmptyStringLit e \<longleftrightarrow> e = BasicLit StringLit [CHR 0x22, CHR 0x22] \<or> e = BasicLit StringLit [CHR 0x60, CHR 0x60]"

definition isIntLit :: "expr \<Rightarrow> int \<Rightarrow> bool" where
  "isIntLit e want \<longleftrightarrow> e = BasicLit IntLit (itoa want)"

definition isLenCall :: "expr \<Rightarrow> expr option" where
  "isLenCall e = (case e of CallExpr f [x] \<Rightarrow> if f = Ident ''len'' then Some x else None | _ \<Rightarrow> None)"

definition extractLenSide :: "expr \<Rightarrow> expr \<Rightarrow> (expr \<times> expr) option" where
  "extractLenSide left right = (case isLenCall left of
      Some inner \<Rightarrow> Some (inner, right)
    | None \<Rightarrow> (case isLenCall right of Some inner \<Rightarrow> Some (inner, left) | None \<Rightarrow> None))"

definition isPkgRef :: "pass \<Rightarrow> expr \<Rightarrow> string \<Rightarrow> bool" where
  "isPkgRef P e path = (case e of Ident n \<Rightarrow> uses P e = PkgObj path | _ \<Rightarrow> False)"

definition pkgCall :: "pass \<Rightarrow> expr \<Rightarrow> string \<Rightarrow> string \<Rightarrow> nat \<Rightarrow> expr list option" where
  "pkgCall P e path name n = (case e of
      CallExpr (SelectorExpr x sel) args \<Rightarrow>
        if length args = n \<and> sel = name \<and> isPkgRef P x path then Some args else None
    | _ \<Rightarrow> None)"

definition isStringsContains :: "pass \<Rightarrow> expr \<Rightarrow> expr list option" where
  "isStringsContains P e = pkgCall P e ''strings'' ''Contains'' 2"

definition isErrorsIs :: "pass \<Rightarrow> expr \<Rightarrow> expr list option" where
  "isErrorsIs P e = pkgCall P e ''errors'' ''Is'' 2"

definition isReflectDeepEqual :: "pass \<Rightarrow> expr \<Rightarrow> expr list option" where
  "isReflectDeepEqual P e = pkgCall P e ''reflect'' ''DeepEqual'' 2"

definition isRegexpMatchString :: "pass \<Rightarrow> expr \<Rightarrow> (expr \<times> expr) option" where
  "isRegexpMatchString P e = (case e of
      CallExpr (SelectorExpr x sel) [s] \<Rightarrow>
        if sel = ''MatchString'' \<and> namedPtrType (typeOf P x) ''regexp'' ''Regexp'' then Some (x, s) else None
    | _ \<Rightarrow> None)"

definition isErrorMethodCall :: "expr \<Rightarrow> expr option" where
  "isErrorMethodCall e = (case e of
      CallExpr (SelectorExpr x sel) [] \<Rightarrow> if sel = ''Error'' then Some x else None
    | _ \<Rightarrow> None)"

text \<open>Whether an identifier or a selected name is an untyped constant.\<close>

definition untyped_basic :: "basic \<Rightarrow> bool" where
  "untyped_basic b \<longleftrightarrow> b \<in> {UntypedBool, UntypedInt, UntypedRune, UntypedFloat, UntypedString, UntypedNil}"

definition isUntypedConstObj :: "object \<Rightarrow> bool" where
  "isUntypedConstObj obj = (case obj of ConstObj (Basic b) \<Rightarrow> untyped_basic b | _ \<Rightarrow> False)"

fun isUntypedConstExpr :: "pass \<Rightarrow> expr \<Rightarrow> bool" where
  "isUntypedConstExpr P (ParenExpr x) = isUntypedConstExpr P x"
| "isUntypedConstExpr P (BasicLit k v) = True"
| "isUntypedConstExpr P (UnaryExpr op x) = ((op = ADD \<or> op = SUB) \<and> isUntypedConstExpr P x)"
| "isUntypedConstExpr P (Ident n) = isUntypedConstObj (uses P (Ident n))"
| "isUntypedConstExpr P (SelectorExpr x n) = isUntypedConstObj (uses P (SelectorExpr x n))"
| "isUntypedConstExpr P e = False"

definition convertToAny :: "pass \<Rightarrow> expr \<Rightarrow> expr" where
  "convertToAny P e = (if isUntypedConstExpr P e then e else CallExpr (Ident ''any'') [e])"

definition isConstExpr :: "pass \<Rightarrow> expr \<Rightarrow> bool" where
  "isConstExpr P e \<longleftrightarrow> constOf P e \<noteq> None"

definition constFirst :: "pass \<Rightarrow> expr \<Rightarrow> expr \<Rightarrow> expr \<times> expr" where
  "constFirst P left right =
     (if isConstExpr P right \<and> \<not> isConstExpr P left then (right, left) else (left, right))"

definition unifyEqualOperands :: "pass \<Rightarrow> expr \<Rightarrow> expr \<Rightarrow> (expr \<times> expr) option" where
  "unifyEqualOperands P l r = (case (typeOf P l, typeOf P r) of
      (Some u, Some v) \<Rightarrow>
        if Identical u v then Some (l, r)
        else if isAnyInterface u then Some (l, convertToAny P r)
        else if isAnyInterface v then Some (convertToAny P l, r)
        else None
    | _ \<Rightarrow> None)"

subsection \<open>True and False\<close>

text \<open>
  The assertion a condition maps to, its arguments after \<open>t\<close>, the pattern recognized and why there is
  no fix.
\<close>

record conditionMapping =
  cm_target :: string
  cm_args :: "expr list"
  cm_desc :: string
  cm_noFix :: string

definition mapping :: "string \<Rightarrow> expr list \<Rightarrow> string \<Rightarrow> conditionMapping" where
  "mapping target_name args desc = \<lparr>cm_target = target_name, cm_args = args, cm_desc = desc, cm_noFix = []\<rparr>"

text \<open>\<open>None\<close>: not a comparison with nil; \<open>Some None\<close>: one that no assertion expresses.\<close>

definition mapNilComparison :: "pass \<Rightarrow> expr \<Rightarrow> expr \<Rightarrow> bool \<Rightarrow> bool \<Rightarrow> conditionMapping option option" where
  "mapNilComparison P left right negated isNeq =
     (if \<not> isNilIdent left \<and> \<not> isNilIdent right then None
      else (let other = (if isNilIdent left then right else left);
                positive = (if negated then isNeq else \<not> isNeq)
            in Some (case nilKindOf P other of
                  errorIface \<Rightarrow> Some (mapping (pick (\<not> positive) ''Error'' ''NoError'') [other] ''error nil check'')
                | otherIface \<Rightarrow> Some (mapping (pick (\<not> positive) ''NotZero'' ''Zero'') [other] ''nil check'')
                | comparableNil \<Rightarrow> Some (mapping (pick (\<not> positive) ''NotZero'' ''Zero'') [other] ''nil check'')
                | uncomparableNil \<Rightarrow> Some (mapping (pick (\<not> positive) ''NotNil'' ''Nil'') [other] ''nil check'')
                | _ \<Rightarrow> None)))"

definition mapLenEqNeq :: "pass \<Rightarrow> expr \<Rightarrow> expr \<Rightarrow> bool \<Rightarrow> bool \<Rightarrow> conditionMapping option" where
  "mapLenEqNeq P left right negated isNeq = (case extractLenSide left right of
      None \<Rightarrow> None
    | Some (inner, other) \<Rightarrow>
        if \<not> hasLength P inner then None
        else if isIntLit other 0 then
          (let positive = (if negated then isNeq else \<not> isNeq)
           in Some (mapping (pick (\<not> positive) ''NotEmpty'' ''Empty'') [inner] (pick isNeq ''len != 0 check'' ''len == 0 check'')))
        else if isNeq = negated then Some (mapping ''Len'' [inner, other] ''len comparison'')
        else None)"

definition mapEmptyStrEqNeq :: "pass \<Rightarrow> expr \<Rightarrow> expr \<Rightarrow> bool \<Rightarrow> bool \<Rightarrow> conditionMapping option" where
  "mapEmptyStrEqNeq P left right negated isNeq =
     (case (if isEmptyStringLit left then Some right else if isEmptyStringLit right then Some left else None) of
        None \<Rightarrow> None
      | Some other \<Rightarrow>
          if \<not> isStringType P other then None
          else (let positive = (if negated then isNeq else \<not> isNeq)
                in Some (mapping (pick (\<not> positive) ''NotEmpty'' ''Empty'') [other] ''empty string check'')))"

definition mapEquality :: "pass \<Rightarrow> expr \<Rightarrow> expr \<Rightarrow> bool \<Rightarrow> bool \<Rightarrow> conditionMapping option" where
  "mapEquality P left right negated isNeq =
     (let (l, r) = constFirst P left right in
      case (typeOf P l, typeOf P r) of
        (Some u, Some v) \<Rightarrow>
          (let assertEqual = (isNeq = negated);
               desc = pick isNeq ''!= comparison'' ''== comparison'';
               equal = (\<lambda>l r. Some (mapping (pick assertEqual ''Equal'' ''NotEqual'') [l, r] desc))
           in if isPointerType u \<and> isPointerType v
              then Some (mapping (pick assertEqual ''Same'' ''NotSame'') [l, r] (''pointer '' @ desc))
              else if Identical u v \<and> \<not> reachesPointer u then equal l r
              else if isAnyInterface u \<and> bridgesToAny v then equal l (convertToAny P r)
              else if isAnyInterface v \<and> bridgesToAny u then equal (convertToAny P l) r
              else if assertEqual \<and> ImplementsError (assignableTo P) u \<and> ImplementsError (assignableTo P) v \<and>
                (isInterfaceType u \<or> isInterfaceType v)
              then Some ((mapping ''ErrorIs'' [l, r] (''error '' @ desc))
                \<lparr>cm_noFix := ''errors.Is also matches wrapped errors''\<rparr>)
              else None)
      | _ \<Rightarrow> None)"

definition mapEqNeq :: "pass \<Rightarrow> expr \<Rightarrow> expr \<Rightarrow> bool \<Rightarrow> bool \<Rightarrow> conditionMapping option" where
  "mapEqNeq P left right negated isNeq = (case mapNilComparison P left right negated isNeq of
      Some m \<Rightarrow> m
    | None \<Rightarrow> (case mapLenEqNeq P left right negated isNeq of
          Some m \<Rightarrow> Some m
        | None \<Rightarrow> (case mapEmptyStrEqNeq P left right negated isNeq of
              Some m \<Rightarrow> Some m
            | None \<Rightarrow> mapEquality P left right negated isNeq)))"

text \<open>\<open>len(x) > 0\<close> and \<open>len(x) >= 1\<close>: \<open>x\<close>.\<close>

definition len_threshold :: "pass \<Rightarrow> expr \<Rightarrow> expr \<Rightarrow> int \<Rightarrow> expr option" where
  "len_threshold P left right n = (case isLenCall left of
      Some inner \<Rightarrow> if isIntLit right n \<and> hasLength P inner then Some inner else None
    | None \<Rightarrow> None)"

definition map_order :: "pass \<Rightarrow> expr \<Rightarrow> expr \<Rightarrow> string \<Rightarrow> string \<Rightarrow> conditionMapping option" where
  "map_order P left right target_name desc =
     (if mayBeFloat P left \<or> mayBeFloat P right then None else Some (mapping target_name [left, right] desc))"

definition mapBoolBinary :: "pass \<Rightarrow> token \<Rightarrow> expr \<Rightarrow> expr \<Rightarrow> bool \<Rightarrow> conditionMapping option" where
  "mapBoolBinary P op left right negated =
     (if op = EQL then mapEqNeq P left right negated False
      else if op = NEQ then mapEqNeq P left right negated True
      else if op = GTR then
        (case len_threshold P left right 0 of
           Some inner \<Rightarrow> Some (mapping (pick negated ''Empty'' ''NotEmpty'') [inner] ''len > 0 check'')
         | None \<Rightarrow> map_order P left right (pick negated ''LessOrEqual'' ''Greater'') ''> comparison'')
      else if op = GEQ then
        (case len_threshold P left right 1 of
           Some inner \<Rightarrow> Some (mapping (pick negated ''Empty'' ''NotEmpty'') [inner] ''len >= 1 check'')
         | None \<Rightarrow> map_order P left right (pick negated ''Less'' ''GreaterOrEqual'') ''>= comparison'')
      else if op = LSS then map_order P left right (pick negated ''GreaterOrEqual'' ''Less'') ''< comparison''
      else if op = LEQ then map_order P left right (pick negated ''Greater'' ''LessOrEqual'') ''<= comparison''
      else None)"

definition mapBoolCall :: "pass \<Rightarrow> expr \<Rightarrow> bool \<Rightarrow> conditionMapping option" where
  "mapBoolCall P e negated = (case isStringsContains P e of
      Some args \<Rightarrow> Some (mapping (pick negated ''NotContains'' ''Contains'') [args ! 0, args ! 1] ''strings.Contains call'')
    | None \<Rightarrow> (case isErrorsIs P e of
          Some args \<Rightarrow>
            if isNilIdent (args ! 1) then Some (mapping (pick negated ''Error'' ''NoError'') [args ! 0] ''errors.Is nil check'')
            else if \<not> negated then Some ((mapping ''ErrorIs'' [args ! 0, args ! 1] ''errors.Is call'')
              \<lparr>cm_noFix := ''ErrorIs fails a nil target, which errors.Is matches to a nil error''\<rparr>)
            else None
        | None \<Rightarrow> (case (isRegexpMatchString P e, negated) of
              (Some (re, s), False) \<Rightarrow> Some (mapping ''Regexp'' [re, s] ''MatchString call'')
            | _ \<Rightarrow> (case isReflectDeepEqual P e of
                  None \<Rightarrow> None
                | Some args \<Rightarrow> (case unifyEqualOperands P (args ! 0) (args ! 1) of
                      None \<Rightarrow> None
                    | Some (a, b) \<Rightarrow> Some (mapping (pick negated ''NotEqual'' ''Equal'') [a, b] ''reflect.DeepEqual call''))))))"

fun mapBoolExpr :: "pass \<Rightarrow> expr \<Rightarrow> bool \<Rightarrow> conditionMapping option" where
  "mapBoolExpr P (ParenExpr e) negated = mapBoolExpr P e negated"
| "mapBoolExpr P (UnaryExpr op e) negated =
     (if op \<noteq> LNOT then None
      else (case mapBoolExpr P e (\<not> negated) of
          Some m \<Rightarrow> Some m
        | None \<Rightarrow> Some (mapping (pick negated ''True'' ''False'') [e] ''negation'')))"
| "mapBoolExpr P (BinaryExpr op a b) negated = mapBoolBinary P op a b negated"
| "mapBoolExpr P (CallExpr f args) negated = mapBoolCall P (CallExpr f args) negated"
| "mapBoolExpr P _ negated = None"

end
