(* ===== verification/LintRules.thy ===== *)
theory LintRules
  imports LintSimplify
begin

text \<open>
  The assertion rules of \<^verbatim>\<open>internal/lint\<close> on a call, \<open>checkAssertionSimplify\<close> of \<^verbatim>\<open>simplify.go\<close>.
  What a rule reports is its name, its message and the rewrite it offers.
\<close>

subsection \<open>Findings\<close>

text \<open>A rewrite of a call: the assertion, its arguments from \<open>t\<close> on, and the message arguments.\<close>

record rewrite =
  rw_target :: string
  rw_args :: "expr list"
  rw_msgs :: "expr list"

record finding =
  f_rule :: string
  f_msg :: string
  f_fix :: "rewrite option"

definition AssertionSimplify :: string where "AssertionSimplify = ''assertion-simplify''"
definition AssertionTypeGuard :: string where "AssertionTypeGuard = ''assertion-type-guard''"

definition dash :: string where "dash = '' '' @ [CHR 0xE2, CHR 0x80, CHR 0x94] @ '' ''"

definition use_instead :: "string \<Rightarrow> string \<Rightarrow> string \<Rightarrow> string" where
  "use_instead to from desc = ''use '' @ to @ '' instead of '' @ from @ '' for '' @ desc"

definition lint_report :: "string \<Rightarrow> string \<Rightarrow> finding option" where
  "lint_report rule msg = Some \<lparr>f_rule = rule, f_msg = msg, f_fix = None\<rparr>"

definition emitSimplify :: "string \<Rightarrow> string \<Rightarrow> expr list \<Rightarrow> expr list \<Rightarrow> string \<Rightarrow> finding option" where
  "emitSimplify from to newArgs msgArgs desc =
     Some \<lparr>f_rule = AssertionSimplify, f_msg = use_instead to from desc,
       f_fix = Some \<lparr>rw_target = to, rw_args = newArgs, rw_msgs = msgArgs\<rparr>\<rparr>"

fun assertionQualifier :: "expr \<Rightarrow> string" where
  "assertionQualifier (SelectorExpr x n) = (case x of Ident q \<Rightarrow> q @ ''.'' | _ \<Rightarrow> [])"
| "assertionQualifier (IndexExpr f ts) = assertionQualifier f"
| "assertionQualifier e = []"

text \<open>\<open>renderAssertion\<close>: the text a fix writes where no comment has to be kept.\<close>

definition renderAssertion :: "pass \<Rightarrow> string \<Rightarrow> rewrite \<Rightarrow> string" where
  "renderAssertion P qual rw =
     qual @ rw_target rw @ ''('' @ join '', '' (map (exprText P) (rw_args rw @ rw_msgs rw)) @ '')''"

subsection \<open>One call\<close>

definition simplifyBoolAssertion :: "pass \<Rightarrow> expr list \<Rightarrow> bool \<Rightarrow> finding option" where
  "simplifyBoolAssertion P args negated = (case args of
      t # v # msgs \<Rightarrow>
        (case mapBoolExpr P v negated of
           None \<Rightarrow> None
         | Some m \<Rightarrow>
             (let from = pick negated ''False'' ''True'' in
              if cm_noFix m \<noteq> [] then lint_report AssertionSimplify (use_instead (cm_target m) from (cm_desc m) @ dash @ cm_noFix m)
              else emitSimplify from (cm_target m) (t # cm_args m) msgs (cm_desc m)))
    | _ \<Rightarrow> None)"

definition nil_literal_rewrite :: "pass \<Rightarrow> expr \<Rightarrow> expr \<Rightarrow> expr \<Rightarrow> expr list \<Rightarrow> bool \<Rightarrow> string \<Rightarrow> finding option" where
  "nil_literal_rewrite P fn t other msgs negated from =
     (if hasTypeArgs fn then None
      else (case nilKindOf P other of
          errorIface \<Rightarrow> emitSimplify from (pick negated ''Error'' ''NoError'') [t, other] msgs ''nil error comparison''
        | otherIface \<Rightarrow> emitSimplify from (pick negated ''NotZero'' ''Zero'') [t, other] msgs ''nil comparison''
        | comparableNil \<Rightarrow> emitSimplify from (pick negated ''NotZero'' ''Zero'') [t, other] msgs ''nil comparison''
        | uncomparableNil \<Rightarrow> emitSimplify from (pick negated ''NotNil'' ''Nil'') [t, other] msgs ''nil comparison''
        | _ \<Rightarrow> None))"

definition len_rewrite :: "pass \<Rightarrow> expr \<Rightarrow> expr \<Rightarrow> expr \<Rightarrow> expr list \<Rightarrow> bool \<Rightarrow> string \<Rightarrow> finding option" where
  "len_rewrite P t expected actual msgs negated from = (case extractLenSide expected actual of
      None \<Rightarrow> None
    | Some (inner, other) \<Rightarrow>
        if \<not> hasLength P inner then None
        else if isIntLit other 0 then emitSimplify from (pick negated ''NotEmpty'' ''Empty'') [t, inner] msgs ''len == 0 comparison''
        else if \<not> negated then emitSimplify from ''Len'' [t, inner, other] msgs ''len comparison''
        else None)"

definition simplifyEquality :: "pass \<Rightarrow> expr \<Rightarrow> expr list \<Rightarrow> bool \<Rightarrow> finding option" where
  "simplifyEquality P fn args negated = (case args of
      t # expected # actual # msgs \<Rightarrow>
        (let from = pick negated ''NotEqual'' ''Equal'';
             bool_part = (case extractBoolLiteral expected actual of
                 Some (v, e) \<Rightarrow> if isBoolType P e then Some (v, e) else None
               | None \<Rightarrow> None);
             str_part = (if isEmptyStringLit expected \<or> isEmptyStringLit actual
               then (let other = (if isEmptyStringLit expected then actual else expected)
                     in if isStringType P other then Some other else None)
               else None)
         in case bool_part of
              Some (v, e) \<Rightarrow>
                emitSimplify from (pick (v = negated) ''False'' ''True'') [t, e] msgs ''bool literal comparison''
            | None \<Rightarrow>
                (case str_part of
                   Some other \<Rightarrow> emitSimplify from (pick negated ''NotEmpty'' ''Empty'') [t, other] msgs ''empty string comparison''
                 | None \<Rightarrow>
                     if isNilIdent expected \<or> isNilIdent actual
                     then nil_literal_rewrite P fn t (if isNilIdent expected then actual else expected) msgs negated from
                     else len_rewrite P t expected actual msgs negated from))
    | _ \<Rightarrow> None)"

definition simplifyLen :: "pass \<Rightarrow> expr list \<Rightarrow> finding option" where
  "simplifyLen P args = (case args of
      t # x # n # msgs \<Rightarrow>
        if isIntLit n 0 \<and> hasLength P x then emitSimplify ''Len'' ''Empty'' [t, x] msgs ''zero length check'' else None
    | _ \<Rightarrow> None)"

definition simplifyComparisonLen :: "pass \<Rightarrow> expr list \<Rightarrow> string \<Rightarrow> int \<Rightarrow> finding option" where
  "simplifyComparisonLen P args from threshold = (case args of
      t # a # b # msgs \<Rightarrow>
        (case isLenCall a of
           None \<Rightarrow> None
         | Some inner \<Rightarrow>
             if \<not> hasLength P inner then None
             else if isIntLit b threshold
             then emitSimplify from ''NotEmpty'' [t, inner] msgs (pick (threshold = 1) ''len >= 1 check'' ''len > 0 check'')
             else None)
    | _ \<Rightarrow> None)"

definition simplifyZeroNotZero :: "pass \<Rightarrow> expr list \<Rightarrow> bool \<Rightarrow> finding option" where
  "simplifyZeroNotZero P args isNotZero = (case args of
      t # x # msgs \<Rightarrow>
        if nilKindOf P x \<noteq> errorIface then None
        else emitSimplify (pick isNotZero ''NotZero'' ''Zero'') (pick isNotZero ''Error'' ''NoError'') [t, x] msgs ''error zero check''
    | _ \<Rightarrow> None)"

definition simplifyContainsErrMsg :: "pass \<Rightarrow> expr list \<Rightarrow> finding option" where
  "simplifyContainsErrMsg P args = (case args of
      t # s # x # msgs \<Rightarrow>
        (case isErrorMethodCall s of
           None \<Rightarrow> None
         | Some recv \<Rightarrow>
             (case typeOf P recv of
                None \<Rightarrow> None
              | Some ty \<Rightarrow>
                  if \<not> ImplementsError (assignableTo P) ty then None
                  else emitSimplify ''Contains'' ''ErrorContains'' [t, recv, x] msgs ''err.Error() contains check''))
    | _ \<Rightarrow> None)"

definition guardNilNotNil :: "pass \<Rightarrow> expr list \<Rightarrow> bool \<Rightarrow> finding option" where
  "guardNilNotNil P args isNot = (case args of
      t # x # msgs \<Rightarrow>
        (let from = pick isNot ''NotNil'' ''Nil'' in
         case typeOf P x of
           None \<Rightarrow> None
         | Some ty \<Rightarrow>
             if isUntypedNil ty then None
             else (case nilKindOf P x of
                 comparableNil \<Rightarrow> emitSimplify from (pick isNot ''NotZero'' ''Zero'') [t, x] msgs ''nil check''
               | errorIface \<Rightarrow> lint_report AssertionSimplify
                   (''use '' @ pick isNot ''Error'' ''NoError'' @ '' instead of '' @ from @ '' for error nil check'' @ dash @
                    from @ '' looks through the error to a nil pointer it holds'')
               | otherIface \<Rightarrow> lint_report AssertionSimplify
                   (''use '' @ pick isNot ''NotZero'' ''Zero'' @ '' instead of '' @ from @ '' for nil check'' @ dash @
                    from @ '' looks through the interface to a nil pointer it holds'')
               | uncomparableNil \<Rightarrow> None
               | unknownNil \<Rightarrow> None
               | notNilable \<Rightarrow> lint_report AssertionTypeGuard
                   (''type '' @ typeString P ty @ '' is not nilable; for zero-value checks, use '' @ pick isNot ''NotZero'' ''Zero'')))
    | _ \<Rightarrow> None)"

definition guardEmptyNotEmpty :: "pass \<Rightarrow> expr list \<Rightarrow> bool \<Rightarrow> finding option" where
  "guardEmptyNotEmpty P args isNot = (case args of
      t # x # msgs \<Rightarrow>
        (let from = pick isNot ''NotEmpty'' ''Empty'' in
         case typeOf P x of
           None \<Rightarrow> None
         | Some ty \<Rightarrow>
             if isUntypedNil ty then None
             else if nilKindOf P x = errorIface then lint_report AssertionSimplify
               (''use '' @ pick isNot ''Error'' ''NoError'' @ '' instead of '' @ from @ '' for error empty check'' @ dash @
                from @ '' looks through the error to the value it holds'')
             else if hasLength P x \<or> isPointerType ty \<or> nilKindOf P x \<in> {otherIface, unknownNil} then None
             else lint_report AssertionTypeGuard
               (''type '' @ typeString P ty @ '' cannot be empty; for nil checks, use '' @ pick isNot ''NotNil'' ''Nil'' @
                ''; for zero-value checks, use '' @ pick isNot ''NotZero'' ''Zero''))
    | _ \<Rightarrow> None)"

definition guardErrorIs :: "expr list \<Rightarrow> finding option" where
  "guardErrorIs args = (case args of
      t # e # tgt # msgs \<Rightarrow>
        if isNilIdent tgt
        then lint_report AssertionSimplify (''use NoError instead of ErrorIs for nil target'' @ dash @ ''ErrorIs fails a nil target'')
        else None
    | _ \<Rightarrow> None)"

definition guardErrorContains :: "expr list \<Rightarrow> finding option" where
  "guardErrorContains args = (case args of
      t # e # sub # msgs \<Rightarrow>
        if isEmptyStringLit sub
        then lint_report AssertionSimplify
          (''use Error instead of ErrorContains for empty contains string'' @ dash @ ''ErrorContains fails an empty string'')
        else None
    | _ \<Rightarrow> None)"

text \<open>The body of \<open>checkAssertionSimplify\<close> on a call no other rule has claimed.\<close>

definition simplifyAssertion :: "pass \<Rightarrow> expr \<Rightarrow> expr list \<Rightarrow> finding option" where
  "simplifyAssertion P fn args =
     (let name = assertionFuncName P fn in
      if name = ''True'' then simplifyBoolAssertion P args False
      else if name = ''False'' then simplifyBoolAssertion P args True
      else if name = ''Equal'' then simplifyEquality P fn args False
      else if name = ''NotEqual'' then simplifyEquality P fn args True
      else if name = ''Len'' then simplifyLen P args
      else if name = ''Greater'' then simplifyComparisonLen P args ''Greater'' 0
      else if name = ''GreaterOrEqual'' then simplifyComparisonLen P args ''GreaterOrEqual'' 1
      else if name = ''Zero'' then simplifyZeroNotZero P args False
      else if name = ''NotZero'' then simplifyZeroNotZero P args True
      else if name = ''Contains'' then simplifyContainsErrMsg P args
      else if name = ''Nil'' then guardNilNotNil P args False
      else if name = ''NotNil'' then guardNilNotNil P args True
      else if name = ''Empty'' then guardEmptyNotEmpty P args False
      else if name = ''NotEmpty'' then guardEmptyNotEmpty P args True
      else if name = ''ErrorIs'' then guardErrorIs args
      else if name = ''ErrorContains'' then guardErrorContains args
      else None)"

text \<open>Every call of a file; \<open>claimed\<close> says whether another rule has a finding inside a call.\<close>

definition checkAssertionSimplify :: "pass \<Rightarrow> (expr \<Rightarrow> bool) \<Rightarrow> expr list \<Rightarrow> finding list" where
  "checkAssertionSimplify P claimed calls = List.map_filter (\<lambda>e. case e of
      CallExpr fn args \<Rightarrow>
        if assertionFuncName P fn = [] \<or> claimed e then None else simplifyAssertion P fn args
    | _ \<Rightarrow> None) calls"

end
