(* ===== verification/GoValues.thy ===== *)
theory GoValues
  imports GoTypes Complex_Main
begin

text \<open>
  The values of a Go program as assertions read them: what \<open>==\<close> and \<open>reflect.DeepEqual\<close> say of two,
  which type a value has, and what \<open>package reflect\<close> reads of a value held by an \<open>any\<close>.
\<close>

subsection \<open>Values\<close>

text \<open>A float is NaN, an infinity or a number; the two zeros are equal to every operation used here.\<close>

datatype gofloat = NaN | NegInf | Finite rat | PosInf

text \<open>
  A pointer, channel, function, slice or map is \<open>None\<close> when nil, and otherwise its address with what
  it holds; a channel's is the number of elements queued in it.  An interface value is nil or a
  value with its dynamic type.
\<close>

datatype gval =
    VBool bool
  | VInt int
  | VFloat gofloat
  | VComplex gofloat gofloat
  | VString string
  | VPtr "nat option"
  | VUnsafe "nat option"
  | VFunc "nat option"
  | VChan "(nat \<times> nat) option"
  | VSlice "(nat \<times> gval list) option"
  | VMap "(nat \<times> (gval \<times> gval) list) option"
  | VArray "gval list"
  | VStruct "(string \<times> gval) list"
  | VIface "(gotype \<times> gval) option"

type_synonym any = "(gotype \<times> gval) option"

fun float_eq :: "gofloat \<Rightarrow> gofloat \<Rightarrow> bool" where
  "float_eq NaN y \<longleftrightarrow> False"
| "float_eq x y \<longleftrightarrow> x = y"

fun float_less :: "gofloat \<Rightarrow> gofloat \<Rightarrow> bool" where
  "float_less NaN y \<longleftrightarrow> False"
| "float_less x NaN \<longleftrightarrow> False"
| "float_less (Finite a) (Finite b) \<longleftrightarrow> a < b"
| "float_less NegInf y \<longleftrightarrow> y \<noteq> NegInf"
| "float_less x PosInf \<longleftrightarrow> x \<noteq> PosInf"
| "float_less x y \<longleftrightarrow> False"

fun value_nil :: "gval \<Rightarrow> bool" where
  "value_nil (VPtr p) \<longleftrightarrow> p = None"
| "value_nil (VUnsafe p) \<longleftrightarrow> p = None"
| "value_nil (VFunc p) \<longleftrightarrow> p = None"
| "value_nil (VChan c) \<longleftrightarrow> c = None"
| "value_nil (VSlice s) \<longleftrightarrow> s = None"
| "value_nil (VMap m) \<longleftrightarrow> m = None"
| "value_nil (VIface i) \<longleftrightarrow> i = None"
| "value_nil _ \<longleftrightarrow> False"

subsection \<open>Comparison\<close>

text \<open>
  \<open>==\<close> of two values of one type, \<open>None\<close> where it panics: an interface is compared by its dynamic
  types, which must be comparable when they agree, then by its values.  Blank fields are ignored.
\<close>

fun both :: "bool option \<Rightarrow> bool option \<Rightarrow> bool option" where
  "both (Some True) r = r"
| "both r s = r"

fun go_eq :: "gval \<Rightarrow> gval \<Rightarrow> bool option" and list_eq :: "gval list \<Rightarrow> gval list \<Rightarrow> bool option"
  and fields_eq :: "(string \<times> gval) list \<Rightarrow> (string \<times> gval) list \<Rightarrow> bool option" where
  "go_eq (VBool a) w = (case w of VBool b \<Rightarrow> Some (a = b) | _ \<Rightarrow> None)"
| "go_eq (VInt a) w = (case w of VInt b \<Rightarrow> Some (a = b) | _ \<Rightarrow> None)"
| "go_eq (VFloat a) w = (case w of VFloat b \<Rightarrow> Some (float_eq a b) | _ \<Rightarrow> None)"
| "go_eq (VComplex a b) w = (case w of VComplex c d \<Rightarrow> Some (float_eq a c \<and> float_eq b d) | _ \<Rightarrow> None)"
| "go_eq (VString a) w = (case w of VString b \<Rightarrow> Some (a = b) | _ \<Rightarrow> None)"
| "go_eq (VPtr a) w = (case w of VPtr b \<Rightarrow> Some (a = b) | _ \<Rightarrow> None)"
| "go_eq (VUnsafe a) w = (case w of VUnsafe b \<Rightarrow> Some (a = b) | _ \<Rightarrow> None)"
| "go_eq (VFunc a) w = None"
| "go_eq (VChan a) w = (case w of VChan b \<Rightarrow> Some (map_option fst a = map_option fst b) | _ \<Rightarrow> None)"
| "go_eq (VSlice a) w = None"
| "go_eq (VMap a) w = None"
| "go_eq (VArray a) w = (case w of VArray b \<Rightarrow> list_eq a b | _ \<Rightarrow> None)"
| "go_eq (VStruct a) w = (case w of VStruct b \<Rightarrow> fields_eq a b | _ \<Rightarrow> None)"
| "go_eq (VIface a) w = (case w of VIface b \<Rightarrow>
       (case a of None \<Rightarrow> Some (b = None)
        | Some (t, x) \<Rightarrow>
           (case b of None \<Rightarrow> Some False
            | Some (u, y) \<Rightarrow> if \<not> Identical t u then Some False else if Comparable t then go_eq x y else None))
     | _ \<Rightarrow> None)"
| "list_eq [] ys = (if ys = [] then Some True else None)"
| "list_eq (x # xs) ys = (case ys of [] \<Rightarrow> None | y # zs \<Rightarrow> both (go_eq x y) (list_eq xs zs))"
| "fields_eq [] ys = (if ys = [] then Some True else None)"
| "fields_eq (f # xs) ys = (case ys of [] \<Rightarrow> None
     | g # zs \<Rightarrow> both (if fst f = ''_'' then Some True else go_eq (snd f) (snd g)) (fields_eq xs zs))"

text \<open>
  \<open>reflect.DeepEqual\<close> of two values of one type; \<open>pointees a b\<close> says whether it finds what is at the
  two addresses equal.  Every field counts, a blank one too, and no function equals another.
\<close>

definition map_lookup :: "(gval \<times> gval) list \<Rightarrow> gval \<Rightarrow> gval option" where
  "map_lookup m k = map_option snd (List.find (\<lambda>(j, v). go_eq j k = Some True) m)"

function (sequential) deep_equal :: "(nat \<Rightarrow> nat \<Rightarrow> bool) \<Rightarrow> gval \<Rightarrow> gval \<Rightarrow> bool"
  and deep_list :: "(nat \<Rightarrow> nat \<Rightarrow> bool) \<Rightarrow> gval list \<Rightarrow> gval list \<Rightarrow> bool"
  and deep_fields :: "(nat \<Rightarrow> nat \<Rightarrow> bool) \<Rightarrow> (string \<times> gval) list \<Rightarrow> (string \<times> gval) list \<Rightarrow> bool"
  and deep_entries :: "(nat \<Rightarrow> nat \<Rightarrow> bool) \<Rightarrow> (gval \<times> gval) list \<Rightarrow> (gval \<times> gval) list \<Rightarrow> bool" where
  "deep_equal P (VBool a) w = (case w of VBool b \<Rightarrow> a = b | _ \<Rightarrow> False)"
| "deep_equal P (VInt a) w = (case w of VInt b \<Rightarrow> a = b | _ \<Rightarrow> False)"
| "deep_equal P (VFloat a) w = (case w of VFloat b \<Rightarrow> float_eq a b | _ \<Rightarrow> False)"
| "deep_equal P (VComplex a b) w = (case w of VComplex c d \<Rightarrow> float_eq a c \<and> float_eq b d | _ \<Rightarrow> False)"
| "deep_equal P (VString a) w = (case w of VString b \<Rightarrow> a = b | _ \<Rightarrow> False)"
| "deep_equal P (VPtr a) w = (case w of VPtr b \<Rightarrow>
       a = b \<or> (case a of None \<Rightarrow> False | Some p \<Rightarrow> (case b of None \<Rightarrow> False | Some q \<Rightarrow> P p q))
     | _ \<Rightarrow> False)"
| "deep_equal P (VUnsafe a) w = (case w of VUnsafe b \<Rightarrow> a = b | _ \<Rightarrow> False)"
| "deep_equal P (VFunc a) w = (case w of VFunc b \<Rightarrow> a = None \<and> b = None | _ \<Rightarrow> False)"
| "deep_equal P (VChan a) w = (case w of VChan b \<Rightarrow> map_option fst a = map_option fst b | _ \<Rightarrow> False)"
| "deep_equal P (VSlice a) w = (case w of VSlice b \<Rightarrow>
       (case a of None \<Rightarrow> b = None
        | Some (p, xs) \<Rightarrow> (case b of None \<Rightarrow> False
            | Some (q, ys) \<Rightarrow> length xs = length ys \<and> (p = q \<or> deep_list P xs ys)))
     | _ \<Rightarrow> False)"
| "deep_equal P (VMap a) w = (case w of VMap b \<Rightarrow>
       (case a of None \<Rightarrow> b = None
        | Some (p, es) \<Rightarrow> (case b of None \<Rightarrow> False
            | Some (q, fs) \<Rightarrow> length es = length fs \<and> (p = q \<or> deep_entries P es fs)))
     | _ \<Rightarrow> False)"
| "deep_equal P (VArray a) w = (case w of VArray b \<Rightarrow> deep_list P a b | _ \<Rightarrow> False)"
| "deep_equal P (VStruct a) w = (case w of VStruct b \<Rightarrow> deep_fields P a b | _ \<Rightarrow> False)"
| "deep_equal P (VIface a) w = (case w of VIface b \<Rightarrow>
       (case a of None \<Rightarrow> b = None
        | Some (t, x) \<Rightarrow> (case b of None \<Rightarrow> False | Some (u, y) \<Rightarrow> Identical t u \<and> deep_equal P x y))
     | _ \<Rightarrow> False)"
| "deep_list P [] ys = (ys = [])"
| "deep_list P (x # xs) ys = (case ys of [] \<Rightarrow> False | y # zs \<Rightarrow> deep_equal P x y \<and> deep_list P xs zs)"
| "deep_fields P [] ys = (ys = [])"
| "deep_fields P (f # xs) ys =
     (case ys of [] \<Rightarrow> False | g # zs \<Rightarrow> deep_equal P (snd f) (snd g) \<and> deep_fields P xs zs)"
| "deep_entries P [] fs = True"
| "deep_entries P (e # es) fs =
     ((case map_lookup fs (fst e) of None \<Rightarrow> False | Some w \<Rightarrow> deep_equal P (snd e) w) \<and> deep_entries P es fs)"
  by pat_completeness auto
termination
  by (relation "measure (case_sum (case_sum (\<lambda>(P, v, w). size v) (\<lambda>(P, xs, ys). size_list size xs))
        (case_sum (\<lambda>(P, xs, ys). size_list (size_prod (\<lambda>_. 0) size) xs)
          (\<lambda>(P, xs, ys). size_list (size_prod size size) xs)))") auto

text \<open>\<open>DeepEqual\<close> of two arguments, which are interface values.\<close>

fun DeepEqual :: "(nat \<Rightarrow> nat \<Rightarrow> bool) \<Rightarrow> any \<Rightarrow> any \<Rightarrow> bool" where
  "DeepEqual P (Some (t, v)) (Some (u, w)) \<longleftrightarrow> Identical t u \<and> deep_equal P v w"
| "DeepEqual P None None \<longleftrightarrow> True"
| "DeepEqual P _ _ \<longleftrightarrow> False"

datatype kind =
    KInvalid | KBool | KInt | KUint | KFloat | KComplex | KInt32 | KUint8 | KString | KUnsafePointer
  | KPtr | KSlice | KArray | KMap | KChan | KFunc | KStruct | KInterface

text \<open>
  The kind of a type.  \<open>KInt\<close> and \<open>KUint\<close> stand for the integer kinds but \<open>int32\<close> and \<open>uint8\<close>, which
  the hints single out, \<open>KFloat\<close> and \<open>KComplex\<close> for both of theirs.
\<close>

definition kind_of :: "gotype \<Rightarrow> kind" where
  "kind_of t = (case underlying t of
      Basic b \<Rightarrow> (case b of
          GoBool \<Rightarrow> KBool | UntypedBool \<Rightarrow> KBool
        | IntT \<Rightarrow> KInt | GoInt w \<Rightarrow> (if w = 32 then KInt32 else KInt)
        | UntypedInt \<Rightarrow> KInt | UntypedRune \<Rightarrow> KInt32
        | UintT \<Rightarrow> KUint | UintptrT \<Rightarrow> KUint | GoUint w \<Rightarrow> (if w = 8 then KUint8 else KUint)
        | GoFloat w \<Rightarrow> KFloat | UntypedFloat \<Rightarrow> KFloat
        | GoComplex w \<Rightarrow> KComplex
        | GoString \<Rightarrow> KString | UntypedString \<Rightarrow> KString
        | UnsafePointer \<Rightarrow> KUnsafePointer
        | UntypedNil \<Rightarrow> KInvalid)
    | Pointer e \<Rightarrow> KPtr | Slice e \<Rightarrow> KSlice | Array k e \<Rightarrow> KArray | MapType k e \<Rightarrow> KMap
    | Chan e \<Rightarrow> KChan | Signature s \<Rightarrow> KFunc | Struct fs \<Rightarrow> KStruct | Interface ms es \<Rightarrow> KInterface
    | _ \<Rightarrow> KInvalid)"

text \<open>A value of a static type as an \<open>any\<close>: an interface value already holds one.\<close>

definition as_any :: "gotype \<Rightarrow> gval \<Rightarrow> any" where
  "as_any t v = (case v of VIface i \<Rightarrow> i | _ \<Rightarrow> Some (t, v))"

subsection \<open>Types of values\<close>

definition is_interface :: "gotype \<Rightarrow> bool" where
  "is_interface t = (case underlying t of Interface ms es \<Rightarrow> True | _ \<Rightarrow> False)"

text \<open>
  The values of a run-time type; \<open>Ts\<close> are the run-time types of the program, one of which an interface
  value holds.  What is below a pointer, slice, map or channel is not looked at.
\<close>

fun has_type :: "gotype list \<Rightarrow> gotype \<Rightarrow> gval \<Rightarrow> bool"
  and have_types :: "gotype list \<Rightarrow> gotype \<Rightarrow> gval list \<Rightarrow> bool"
  and fields_typed :: "gotype list \<Rightarrow> (string \<times> gotype) list \<Rightarrow> (string \<times> gval) list \<Rightarrow> bool" where
  "has_type Ts t (VBool b) \<longleftrightarrow> underlying t \<in> {Basic GoBool, Basic UntypedBool}"
| "has_type Ts t (VInt i) = (case underlying t of
      Basic IntT \<Rightarrow> - (2 ^ 63) \<le> i \<and> i < 2 ^ 63
    | Basic UintT \<Rightarrow> 0 \<le> i \<and> i < 2 ^ 64
    | Basic UintptrT \<Rightarrow> 0 \<le> i \<and> i < 2 ^ 64
    | Basic (GoInt w) \<Rightarrow> - (2 ^ (w - 1)) \<le> i \<and> i < 2 ^ (w - 1)
    | Basic (GoUint w) \<Rightarrow> 0 \<le> i \<and> i < 2 ^ w
    | Basic UntypedInt \<Rightarrow> True
    | Basic UntypedRune \<Rightarrow> True
    | _ \<Rightarrow> False)"
| "has_type Ts t (VFloat x) = (case underlying t of
      Basic (GoFloat w) \<Rightarrow> True | Basic UntypedFloat \<Rightarrow> True | _ \<Rightarrow> False)"
| "has_type Ts t (VComplex x y) = (case underlying t of Basic (GoComplex w) \<Rightarrow> True | _ \<Rightarrow> False)"
| "has_type Ts t (VString s) \<longleftrightarrow> underlying t \<in> {Basic GoString, Basic UntypedString}"
| "has_type Ts t (VUnsafe p) \<longleftrightarrow> underlying t = Basic UnsafePointer"
| "has_type Ts t (VPtr p) = (case underlying t of Pointer e \<Rightarrow> True | _ \<Rightarrow> False)"
| "has_type Ts t (VFunc p) = (case underlying t of Signature s \<Rightarrow> True | _ \<Rightarrow> False)"
| "has_type Ts t (VChan c) = (case underlying t of Chan e \<Rightarrow> True | _ \<Rightarrow> False)"
| "has_type Ts t (VSlice s) = (case underlying t of Slice e \<Rightarrow> True | _ \<Rightarrow> False)"
| "has_type Ts t (VMap m) = (case underlying t of MapType k e \<Rightarrow> True | _ \<Rightarrow> False)"
| "has_type Ts t (VArray vs) = (case underlying t of Array k e \<Rightarrow> length vs = k \<and> have_types Ts e vs | _ \<Rightarrow> False)"
| "has_type Ts t (VStruct fs) = (case underlying t of Struct gs \<Rightarrow> fields_typed Ts gs fs | _ \<Rightarrow> False)"
| "has_type Ts t (VIface i) = (is_interface t \<and>
     (case i of None \<Rightarrow> True | Some (u, x) \<Rightarrow> u \<in> set Ts \<and> \<not> is_interface u \<and> has_type Ts u x))"
| "have_types Ts e [] = True"
| "have_types Ts e (v # vs) = (has_type Ts e v \<and> have_types Ts e vs)"
| "fields_typed Ts gs [] = (gs = [])"
| "fields_typed Ts gs (f # fs) = (case gs of [] \<Rightarrow> False
     | g # gs' \<Rightarrow> fst g = fst f \<and> has_type Ts (snd g) (snd f) \<and> fields_typed Ts gs' fs)"

text \<open>No two of the program's run-time types are identical.\<close>

definition one_type :: "gotype list \<Rightarrow> bool" where
  "one_type Ts \<longleftrightarrow> list_all (\<lambda>s. list_all (\<lambda>t. Identical s t \<longrightarrow> s = t) Ts) Ts"

lemma one_typeD: "one_type Ts \<Longrightarrow> s \<in> set Ts \<Longrightarrow> t \<in> set Ts \<Longrightarrow> Identical s t \<Longrightarrow> s = t"
  by (auto simp: one_type_def list_all_iff)

text \<open>
  \<open>instance_of t r\<close>: \<open>r\<close> may be the run-time type of an expression of static type \<open>t\<close>, a type parameter
  standing for a type of its constraint's type set.
\<close>

fun like :: "gotype \<Rightarrow> gotype \<Rightarrow> bool" and fields_like :: "(string \<times> gotype) list \<Rightarrow> (string \<times> gotype) list \<Rightarrow> bool" where
  "like (Named n t) r = like t r"
| "like (Alias n t) r = like t r"
| "like (TypeParam n c) r = True"
| "like (Ref n) r = True"
| "like (Basic b) r = (underlying r = Basic b)"
| "like (Pointer t) r = (case underlying r of Pointer u \<Rightarrow> True | _ \<Rightarrow> False)"
| "like (Slice t) r = (case underlying r of Slice u \<Rightarrow> True | _ \<Rightarrow> False)"
| "like (MapType k t) r = (case underlying r of MapType j u \<Rightarrow> True | _ \<Rightarrow> False)"
| "like (Chan t) r = (case underlying r of Chan u \<Rightarrow> True | _ \<Rightarrow> False)"
| "like (Signature s) r = (case underlying r of Signature u \<Rightarrow> True | _ \<Rightarrow> False)"
| "like (Interface ms es) r = is_interface r"
| "like (Array k t) r = (case underlying r of Array m u \<Rightarrow> k = m \<and> like t u | _ \<Rightarrow> False)"
| "like (Struct fs) r = (case underlying r of Struct gs \<Rightarrow> fields_like fs gs | _ \<Rightarrow> False)"
| "fields_like [] gs = (gs = [])"
| "fields_like (f # fs) gs = (case gs of [] \<Rightarrow> False
     | g # gs' \<Rightarrow> fst f = fst g \<and> like (snd f) (snd g) \<and> fields_like fs gs')"

definition instance_of :: "gotype \<Rightarrow> gotype \<Rightarrow> bool" where
  "instance_of t r = (case unalias t of
      TypeParam n c \<Rightarrow> (case underlying (unalias c) of
          Interface ms es \<Rightarrow> (let (ts, found) = terms es in found \<longrightarrow> list_ex (\<lambda>s. kind_of s = kind_of r \<and> like s r) ts)
        | _ \<Rightarrow> True)
    | u \<Rightarrow> kind_of u = kind_of r \<and> like u r)"

end
