(* ===== verification/Predicates.thy ===== *)
theory Predicates
  imports GoValues "HOL-Library.List_Lexorder" "HOL-Library.Char_ord"
begin

text \<open>
  \<^verbatim>\<open>pkg/gotest/internal/assert/predicates.go\<close> and \<^verbatim>\<open>compare.go\<close>: what every assertion counts as
  nil, empty, contained, a length, greater or near.  A value comes as the \<open>any\<close> it is passed as.
\<close>

subsection \<open>Reflection\<close>

text \<open>
  What the assertions ask of the program they run in: what a pointer points at, whether \<open>DeepEqual\<close>
  finds two pointees equal, the types' relations, the methods of errors, the regular expressions, the
  texts of \<open>fmt\<close>, and how a value is laid out
  over several lines and a mismatch shown, which are not modelled.
\<close>

record world =
  pointee :: "nat \<Rightarrow> any"
  same_pointee :: "nat \<Rightarrow> nat \<Rightarrow> bool"
  assignable :: "gotype \<Rightarrow> gotype \<Rightarrow> bool"
  convertible :: "gotype \<Rightarrow> gotype \<Rightarrow> bool"
  convert :: "any \<Rightarrow> gotype \<Rightarrow> gval"
  declared :: "string \<Rightarrow> gotype"
  error_text :: "any \<Rightarrow> string"
  chain_is :: "any \<Rightarrow> any \<Rightarrow> bool"
  chain_as :: "any \<Rightarrow> gotype \<Rightarrow> any option"
  regexp_compile :: "string \<Rightarrow> string + nat"
  regexp_match :: "nat \<Rightarrow> string \<Rightarrow> bool"
  regexp_text :: "nat \<Rightarrow> string"
  float_sub :: "gofloat \<Rightarrow> gofloat \<Rightarrow> gofloat"
  sharp_v :: "any \<Rightarrow> string"
  plain_v :: "any \<Rightarrow> string"
  type_name :: "any \<Rightarrow> string"
  type_text :: "gotype \<Rightarrow> string"
  elem_name :: "gotype \<Rightarrow> string"
  quoted :: "string \<Rightarrow> string"
  pointer_text :: "nat option \<Rightarrow> string"
  float_text :: "gofloat \<Rightarrow> string"
  value_block :: "any \<Rightarrow> string"
  mismatch_text :: "any \<Rightarrow> any \<Rightarrow> string"

definition kind :: "any \<Rightarrow> kind" where
  "kind a = (case a of None \<Rightarrow> KInvalid | Some (t, v) \<Rightarrow> kind_of t)"

text \<open>\<open>rv.Len()\<close>.\<close>

fun value_len :: "gval \<Rightarrow> nat" where
  "value_len (VString s) = length s"
| "value_len (VSlice s) = (case s of None \<Rightarrow> 0 | Some (p, xs) \<Rightarrow> length xs)"
| "value_len (VMap m) = (case m of None \<Rightarrow> 0 | Some (p, es) \<Rightarrow> length es)"
| "value_len (VChan c) = (case c of None \<Rightarrow> 0 | Some (p, n) \<Rightarrow> n)"
| "value_len (VArray vs) = length vs"
| "value_len _ = 0"

subsection \<open>Nil, empty and length\<close>

text \<open>\<open>DidPanic\<close>: a function returns (\<open>None\<close>) or panics, with what \<open>recover\<close> then gives.\<close>

definition DidPanic :: "any option \<Rightarrow> any \<times> bool" where
  "DidPanic f = (case f of None \<Rightarrow> (None, False)
     | Some r \<Rightarrow> (case r of None \<Rightarrow> (None, False) | Some x \<Rightarrow> (Some x, True)))"

definition nilable_kinds :: "kind set" where
  "nilable_kinds = {KChan, KFunc, KInterface, KMap, KPtr, KSlice, KUnsafePointer}"

definition IsNil :: "any \<Rightarrow> bool" where
  "IsNil object = (case object of None \<Rightarrow> True
     | Some (t, v) \<Rightarrow> if kind_of t \<in> nilable_kinds then value_nil v else False)"

definition IsNilable :: "any \<Rightarrow> bool" where
  "IsNilable object = (case object of None \<Rightarrow> True | Some (t, v) \<Rightarrow> kind_of t \<in> nilable_kinds)"

definition length_kinds :: "kind set" where
  "length_kinds = {KSlice, KArray, KMap, KChan, KString}"

definition IsEmptyable :: "any \<Rightarrow> bool" where
  "IsEmptyable object = (case object of None \<Rightarrow> True
     | Some (t, v) \<Rightarrow> kind_of t \<in> length_kinds \<or> kind_of t = KPtr)"

text \<open>\<open>IsEmpty\<close> follows pointers, for ever round a cycle of them: \<open>None\<close>.\<close>

partial_function (option) IsEmpty :: "(nat \<Rightarrow> any) \<Rightarrow> any \<Rightarrow> bool option" where
  [code]:
  "IsEmpty pt object = (case object of
      None \<Rightarrow> Some True
    | Some tv \<Rightarrow>
        (if kind_of (fst tv) \<in> length_kinds then Some (value_len (snd tv) = 0)
         else if kind_of (fst tv) = KPtr then
           (case snd tv of VPtr (Some a) \<Rightarrow> IsEmpty pt (pt a) | _ \<Rightarrow> Some True)
         else Some False))"

definition Length :: "any \<Rightarrow> nat \<times> bool" where
  "Length object = (case object of None \<Rightarrow> (0, False)
     | Some (t, v) \<Rightarrow> if kind_of t \<in> length_kinds then (value_len v, True) else (0, False))"

subsection \<open>Containment\<close>

definition isNumber :: "kind \<Rightarrow> bool" where
  "isNumber k \<longleftrightarrow> k \<in> {KInt, KInt32, KUint, KUint8, KFloat, KComplex}"

definition negative :: "gval \<Rightarrow> bool" where
  "negative v = (case v of VInt i \<Rightarrow> i < 0 | VFloat x \<Rightarrow> float_less x (Finite 0) | _ \<Rightarrow> False)"

definition convertHint :: "world \<Rightarrow> gotype \<times> gval \<Rightarrow> gotype \<Rightarrow> string" where
  "convertHint W ev to = (let from = fst ev in
     if \<not> convertible W from to then []
     else if (if isNumber (kind_of from) \<and> isNumber (kind_of to)
              then (let cv = convert W (Some ev) to in
                go_eq (convert W (Some (to, cv)) from) (snd ev) = Some True \<and> negative cv = negative (snd ev))
              else kind_of from = KString \<and> kind_of to = KString)
     then '' (convert it to '' @ type_text W to @ '')'' else [])"

definition resolve :: "world \<Rightarrow> gotype \<Rightarrow> gotype" where
  "resolve W t = (case t of Ref n \<Rightarrow> declared W n | _ \<Rightarrow> t)"

definition textHint :: "world \<Rightarrow> gotype \<Rightarrow> gotype \<Rightarrow> string" where
  "textHint W from to =
     (let k = (case underlying from of Slice e \<Rightarrow> kind_of (resolve W e) | _ \<Rightarrow> kind_of from)
      in if k \<noteq> KInt32 \<and> k \<noteq> KUint8 then [] else '' (convert it to '' @ type_text W to @ '')'')"

definition nilableElem :: "kind set" where
  "nilableElem = {KInterface, KPtr, KChan, KUnsafePointer, KSlice, KMap, KFunc}"

definition nilableKey :: "kind set" where
  "nilableKey = {KInterface, KPtr, KChan, KUnsafePointer}"

text \<open>\<open>reflect.Zero\<close> of a type of one of those kinds.\<close>

definition nil_value :: "gotype \<Rightarrow> gval" where
  "nil_value t = (case kind_of t of
      KPtr \<Rightarrow> VPtr None | KChan \<Rightarrow> VChan None | KUnsafePointer \<Rightarrow> VUnsafe None | KSlice \<Rightarrow> VSlice None
    | KMap \<Rightarrow> VMap None | KFunc \<Rightarrow> VFunc None | _ \<Rightarrow> VIface None)"

text \<open>\<open>asType\<close>: the element with its type, or the guard.\<close>

definition asType :: "world \<Rightarrow> any \<Rightarrow> gotype \<Rightarrow> kind set \<Rightarrow> string \<Rightarrow> string \<Rightarrow> string + (gotype \<times> gval)" where
  "asType W element typ nilable nilNoun typedNoun = (case element of
      None \<Rightarrow> if kind_of typ \<in> nilable then Inr (typ, nil_value typ) else Inl (''a nil '' @ nilNoun)
    | Some ev \<Rightarrow> if assignable W (fst ev) typ then Inr ev
        else Inl (''a '' @ typedNoun @ '' of type '' @ type_text W (fst ev) @ convertHint W ev typ))"

text \<open>\<open>Value.Comparable\<close>.\<close>

fun comparable_value :: "gval \<Rightarrow> bool" where
  "comparable_value (VFunc f) = False"
| "comparable_value (VSlice s) = False"
| "comparable_value (VMap m) = False"
| "comparable_value (VArray vs) = list_all comparable_value vs"
| "comparable_value (VStruct fs) = list_all (\<lambda>f. comparable_value (snd f)) fs"
| "comparable_value (VIface i) = (case i of None \<Rightarrow> True | Some tv \<Rightarrow> Comparable (fst tv) \<and> comparable_value (snd tv))"
| "comparable_value _ = True"

text \<open>A key as a value of the map's key type.\<close>

definition key_value :: "gotype \<Rightarrow> gotype \<times> gval \<Rightarrow> gval" where
  "key_value typ k = (if is_interface typ \<and> \<not> is_interface (fst k) then VIface (Some k) else snd k)"

definition IncludesElement :: "world \<Rightarrow> any \<Rightarrow> any \<Rightarrow> bool \<times> string" where
  "IncludesElement W s element = (case s of None \<Rightarrow> (False, [])
    | Some (t, v) \<Rightarrow>
        (case underlying t of
           Slice e \<Rightarrow>
             (let elem = resolve W e in
              case asType W element elem nilableElem ''element'' ''value'' of
                Inl guard \<Rightarrow> (False, type_name W s @ '' cannot hold '' @ guard)
              | Inr w \<Rightarrow> (case v of VSlice (Some (p, xs)) \<Rightarrow>
                    (list_ex (\<lambda>x. DeepEqual (same_pointee W) (as_any elem x) (as_any (fst w) (snd w))) xs, [])
                  | _ \<Rightarrow> (False, [])))
         | Array k e \<Rightarrow>
             (case asType W element e nilableElem ''element'' ''value'' of
                Inl guard \<Rightarrow> (False, type_name W s @ '' cannot hold '' @ guard)
              | Inr w \<Rightarrow> (case v of VArray xs \<Rightarrow>
                    (list_ex (\<lambda>x. DeepEqual (same_pointee W) (as_any e x) (as_any (fst w) (snd w))) xs, [])
                  | _ \<Rightarrow> (False, [])))
         | MapType kt e \<Rightarrow>
             (let keyt = resolve W kt in
              case asType W element keyt nilableKey ''key'' ''key'' of
                Inl guard \<Rightarrow> (False, type_name W s @ '' cannot hold '' @ guard)
              | Inr w \<Rightarrow>
                  if \<not> (Comparable (fst w) \<and> comparable_value (snd w))
                  then (False, type_name W s @ '' cannot hold a key of type '' @ type_name W element @ '': it is not comparable'')
                  else (case v of VMap (Some (p, es)) \<Rightarrow> (map_lookup es (key_value keyt w) \<noteq> None, [])
                      | _ \<Rightarrow> (False, [])))
         | _ \<Rightarrow>
             if kind_of t = KString then
               (case element of
                  None \<Rightarrow> (False, type_name W s @ '' cannot hold a nil substring'')
                | Some ev \<Rightarrow>
                    if kind_of (fst ev) \<noteq> KString
                    then (False, type_name W s @ '' cannot hold a value of type '' @ type_name W element @
                      textHint W (fst ev) t)
                    else (case (v, snd ev) of (VString a, VString b) \<Rightarrow> (str_contains a b, []) | _ \<Rightarrow> (False, [])))
             else (False, ''object of type '' @ type_name W s @ '' is not a string, slice, array, or map'')))"

subsection \<open>Order and distance\<close>

text \<open>\<open>cmp.Compare\<close>: NaN is below every number and equal to itself.\<close>

definition three_way :: "bool \<Rightarrow> bool \<Rightarrow> int" where
  "three_way lt gt = (if lt then -1 else if gt then 1 else 0)"

definition cmpCompare :: "gval \<Rightarrow> gval \<Rightarrow> int" where
  "cmpCompare v w = (case (v, w) of
      (VInt a, VInt b) \<Rightarrow> three_way (a < b) (b < a)
    | (VString a, VString b) \<Rightarrow> three_way (a < b) (b < a)
    | (VFloat a, VFloat b) \<Rightarrow>
        (if a = NaN then (if b = NaN then 0 else -1)
         else if b = NaN then 1 else three_way (float_less a b) (float_less b a))
    | _ \<Rightarrow> 0)"

definition FormatValue :: "world \<Rightarrow> any \<Rightarrow> string" where
  "FormatValue W v = (case v of None \<Rightarrow> ''<nil>''
     | Some (t, x) \<Rightarrow> (case underlying t of
           Pointer e \<Rightarrow> (case x of VPtr (Some a) \<Rightarrow> sharp_v W (pointee W a) | _ \<Rightarrow> ''(*'' @ elem_name W e @ '')(nil)'')
         | _ \<Rightarrow> sharp_v W v))"

text \<open>A check's message, \<open>[]\<close> when it holds; the operands have one ordered type \<open>t\<close>.\<close>

definition order_check :: "string \<Rightarrow> string \<Rightarrow> (int \<Rightarrow> bool) \<Rightarrow> world \<Rightarrow> gotype \<Rightarrow> gval \<Rightarrow> gval \<Rightarrow> string" where
  "order_check name words holds W t a b =
     (if holds (cmpCompare a b) then []
      else name @ '' failed:'' @ [CHR 0x0A] @ ''  '' @ FormatValue W (as_any t a) @ '' is not '' @ words @ '' '' @ FormatValue W (as_any t b))"

definition CheckGreater :: "world \<Rightarrow> gotype \<Rightarrow> gval \<Rightarrow> gval \<Rightarrow> string" where
  "CheckGreater = order_check ''Greater'' ''greater than'' (\<lambda>c. c > 0)"

definition CheckGreaterOrEqual :: "world \<Rightarrow> gotype \<Rightarrow> gval \<Rightarrow> gval \<Rightarrow> string" where
  "CheckGreaterOrEqual = order_check ''GreaterOrEqual'' ''greater than or equal to'' (\<lambda>c. c \<ge> 0)"

definition CheckLess :: "world \<Rightarrow> gotype \<Rightarrow> gval \<Rightarrow> gval \<Rightarrow> string" where
  "CheckLess = order_check ''Less'' ''less than'' (\<lambda>c. c < 0)"

definition CheckLessOrEqual :: "world \<Rightarrow> gotype \<Rightarrow> gval \<Rightarrow> gval \<Rightarrow> string" where
  "CheckLessOrEqual = order_check ''LessOrEqual'' ''less than or equal to'' (\<lambda>c. c \<le> 0)"

definition intDistance :: "64 word \<Rightarrow> 64 word \<Rightarrow> u64" where
  "intDistance a b = (let (a, b) = (if a <s b then (b, a) else (a, b)) in a - b)"

definition uintDistance :: "u64 \<Rightarrow> u64 \<Rightarrow> u64" where
  "uintDistance a b = (if a < b then b - a else a - b)"

text \<open>\<open>uint64(delta)\<close> of a float in range drops its fraction.\<close>

definition uintWithin :: "u64 \<Rightarrow> gofloat \<Rightarrow> bool" where
  "uintWithin d delta = (case delta of
      NaN \<Rightarrow> False
    | NegInf \<Rightarrow> False
    | PosInf \<Rightarrow> True
    | Finite q \<Rightarrow> if q < 0 then False else if q \<ge> 2 ^ 64 then True else d \<le> word_of_int \<lfloor>q\<rfloor>)"

fun float_abs :: "gofloat \<Rightarrow> gofloat" where
  "float_abs (Finite q) = Finite \<bar>q\<bar>"
| "float_abs NegInf = PosInf"
| "float_abs x = x"

definition delta_message :: "world \<Rightarrow> gotype \<Rightarrow> gval \<Rightarrow> gval \<Rightarrow> string \<Rightarrow> gofloat \<Rightarrow> string" where
  "delta_message W t expected actual diff delta =
     ''InDelta failed:'' @ [CHR 0x0A] @ ''  |'' @ plain_v W (as_any t expected) @ '' - '' @ plain_v W (as_any t actual) @
       ''| = '' @ diff @ '' exceeds delta '' @ float_text W delta"

definition signed_type :: "gotype \<Rightarrow> bool" where
  "signed_type t = (case underlying t of Basic IntT \<Rightarrow> True | Basic (GoInt w) \<Rightarrow> True | _ \<Rightarrow> False)"

definition CheckInDelta :: "world \<Rightarrow> gotype \<Rightarrow> gval \<Rightarrow> gval \<Rightarrow> gofloat \<Rightarrow> string" where
  "CheckInDelta W t expected actual delta =
     (if delta = NaN then ''InDelta failed:'' @ [CHR 0x0A] @ ''  delta is NaN; no distance is within it''
      else case (expected, actual) of
        (VInt e, VInt a) \<Rightarrow>
          (let d = (if signed_type t then intDistance (word_of_int e) (word_of_int a)
                    else uintDistance (word_of_int e) (word_of_int a))
           in if uintWithin d delta then [] else delta_message W t expected actual (itoa (uint d)) delta)
      | (VFloat e, VFloat a) \<Rightarrow>
          if (e = PosInf \<or> e = NegInf) \<and> float_eq e a then []
          else (let d = float_abs (float_sub W e a)
                in if d \<noteq> NaN \<and> (float_less d delta \<or> float_eq d delta) then []
                   else delta_message W t expected actual (float_text W d) delta)
      | _ \<Rightarrow> [])"

end
