(* ===== verification/Assertions.thy ===== *)
theory Assertions
  imports Predicates "HOL-Library.Multiset"
begin

text \<open>
  \<^verbatim>\<open>pkg/gotest/assertions.go\<close>: the assertions that look at their arguments once.  An assertion is the
  message it fails the test with, \<open>[]\<close> when it passes; what is common to all of them (the user's
  message, the calling frame) is \<open>fail_text\<close>.
\<close>

subsection \<open>Failing\<close>

definition fail_text :: "string \<Rightarrow> string \<Rightarrow> string \<Rightarrow> string" where
  "fail_text frame userMsg msg =
     (let msg = (if userMsg \<noteq> [] then msg @ [CHR 0x0A] @ ''  message: '' @ userMsg else msg)
      in if frame \<noteq> [] then frame @ '': '' @ msg else msg)"

definition unless :: "bool \<Rightarrow> string \<Rightarrow> string" where
  "unless holds msg = (if holds then [] else msg)"

definition failed :: "string \<Rightarrow> string \<Rightarrow> string" where
  "failed name msg = name @ '' failed:'' @ [CHR 0x0A] @ ''  '' @ msg"

lemma failed_nonempty [simp]: "failed name msg \<noteq> []"
  by (simp add: failed_def)

lemma unless_passes [simp]: "unless b (failed n m) = [] \<longleftrightarrow> b"
  by (simp add: unless_def)

subsection \<open>Booleans and equality\<close>

definition assertTrue :: "bool \<Rightarrow> string" where
  "assertTrue v = unless v (failed ''True'' (''expected: true'' @ [CHR 0x0A] @ ''  actual:   false''))"

definition assertFalse :: "bool \<Rightarrow> string" where
  "assertFalse v = unless (\<not> v) (failed ''False'' (''expected: false'' @ [CHR 0x0A] @ ''  actual:   true''))"

text \<open>The types of two \<open>any\<close> values, the nil one having none.\<close>

definition same_dynamic_type :: "any \<Rightarrow> any \<Rightarrow> bool" where
  "same_dynamic_type a b = (case (a, b) of
      (None, None) \<Rightarrow> True | (Some x, Some y) \<Rightarrow> Identical (fst x) (fst y) | _ \<Rightarrow> False)"

definition CheckEqual :: "world \<Rightarrow> any \<Rightarrow> any \<Rightarrow> string" where
  "CheckEqual W expected actual =
     (if DeepEqual (same_pointee W) expected actual then []
      else ''Equal failed:'' @ [CHR 0x0A] @
        (if same_dynamic_type expected actual then []
         else ''  types differ: '' @ type_name W expected @ '' vs '' @ type_name W actual @ [CHR 0x0A]) @
        mismatch_text W expected actual)"

definition CheckNotEqual :: "world \<Rightarrow> any \<Rightarrow> any \<Rightarrow> string" where
  "CheckNotEqual W expected actual =
     (if \<not> DeepEqual (same_pointee W) expected actual then []
      else failed ''NotEqual'' (''both are: '' @ value_block W actual))"

text \<open>\<open>Equal[V]\<close> hands its operands of type \<open>V\<close> on as \<open>any\<close>.\<close>

definition assertEqual :: "world \<Rightarrow> gotype \<Rightarrow> gval \<Rightarrow> gval \<Rightarrow> string" where
  "assertEqual W V expected actual = CheckEqual W (as_any V expected) (as_any V actual)"

definition assertNotEqual :: "world \<Rightarrow> gotype \<Rightarrow> gval \<Rightarrow> gval \<Rightarrow> string" where
  "assertNotEqual W V expected actual = CheckNotEqual W (as_any V expected) (as_any V actual)"

definition assertSame :: "world \<Rightarrow> nat option \<Rightarrow> nat option \<Rightarrow> string" where
  "assertSame W expected actual = unless (expected = actual)
     (failed ''Same'' (''expected: '' @ pointer_text W expected @ [CHR 0x0A] @ ''  actual:   '' @ pointer_text W actual))"

definition assertNotSame :: "world \<Rightarrow> nat option \<Rightarrow> nat option \<Rightarrow> string" where
  "assertNotSame W expected actual = unless (expected \<noteq> actual) (failed ''NotSame'' (''both: '' @ pointer_text W actual))"

text \<open>\<open>var zero V\<close>.\<close>

fun zero_value :: "gotype \<Rightarrow> gval" where
  "zero_value (Basic b) = (case b of
      GoBool \<Rightarrow> VBool False | UntypedBool \<Rightarrow> VBool False
    | GoFloat w \<Rightarrow> VFloat (Finite 0) | UntypedFloat \<Rightarrow> VFloat (Finite 0)
    | GoComplex w \<Rightarrow> VComplex (Finite 0) (Finite 0)
    | GoString \<Rightarrow> VString [] | UntypedString \<Rightarrow> VString []
    | UnsafePointer \<Rightarrow> VUnsafe None
    | _ \<Rightarrow> VInt 0)"
| "zero_value (Named n t) = zero_value t"
| "zero_value (Alias n t) = zero_value t"
| "zero_value (Pointer t) = VPtr None"
| "zero_value (Slice t) = VSlice None"
| "zero_value (MapType k t) = VMap None"
| "zero_value (Chan t) = VChan None"
| "zero_value (Signature s) = VFunc None"
| "zero_value (Array k t) = VArray (replicate k (zero_value t))"
| "zero_value (Struct fs) = VStruct (map (\<lambda>(n, t). (n, zero_value t)) fs)"
| "zero_value (Interface ms es) = VIface None"
| "zero_value (TypeParam n c) = VIface None"
| "zero_value (Ref n) = VIface None"

definition assertZero :: "world \<Rightarrow> gotype \<Rightarrow> gval \<Rightarrow> string" where
  "assertZero W V v = unless (go_eq v (zero_value V) = Some True)
     (failed ''Zero'' (''expected: '' @ sharp_v W (as_any V (zero_value V)) @ '' (zero value)'' @ [CHR 0x0A] @
        ''  actual:   '' @ sharp_v W (as_any V v)))"

definition assertNotZero :: "world \<Rightarrow> gotype \<Rightarrow> gval \<Rightarrow> string" where
  "assertNotZero W V v = unless (go_eq v (zero_value V) \<noteq> Some True)
     (failed ''NotZero'' (''value is the zero value: '' @ sharp_v W (as_any V v)))"

subsection \<open>Nil, empty and length\<close>

definition assertNil :: "world \<Rightarrow> any \<Rightarrow> string" where
  "assertNil W object =
     (if \<not> IsNilable object then ''Nil: type '' @ type_name W object @ '' is not nilable; for zero-value checks, use Zero''
      else unless (IsNil object) (failed ''Nil'' (''expected nil, got: '' @ sharp_v W object)))"

definition assertNotNil :: "world \<Rightarrow> any \<Rightarrow> string" where
  "assertNotNil W object =
     (if \<not> IsNilable object then ''NotNil: type '' @ type_name W object @ '' is not nilable; for zero-value checks, use NotZero''
      else unless (\<not> IsNil object) (failed ''NotNil'' ''expected a non-nil value''))"

text \<open>\<open>None\<close>: following the pointers never ends.\<close>

definition assertEmpty :: "world \<Rightarrow> any \<Rightarrow> string option" where
  "assertEmpty W object =
     (if \<not> IsEmptyable object
      then Some (''Empty: type '' @ type_name W object @ '' cannot be empty; for nil checks, use Nil; for zero-value checks, use Zero'')
      else map_option (\<lambda>e. unless e (failed ''Empty'' (''object is not empty: '' @ sharp_v W object))) (IsEmpty (pointee W) object))"

definition assertNotEmpty :: "world \<Rightarrow> any \<Rightarrow> string option" where
  "assertNotEmpty W object =
     (if \<not> IsEmptyable object
      then Some (''NotEmpty: type '' @ type_name W object @ '' cannot be empty; for nil checks, use NotNil; for zero-value checks, use NotZero'')
      else map_option (\<lambda>e. unless (\<not> e) (failed ''NotEmpty'' (''object is empty: '' @ sharp_v W object))) (IsEmpty (pointee W) object))"

definition assertLen :: "world \<Rightarrow> any \<Rightarrow> int \<Rightarrow> string" where
  "assertLen W object len = (case object of
      None \<Rightarrow> failed ''Len'' (''object is nil, expected length '' @ itoa len)
    | Some tv \<Rightarrow>
        (let (n, ok) = Length object in
         if \<not> ok then failed ''Len'' (''object of type '' @ type_name W object @ '' does not have a length'')
         else unless (int n = len)
           (failed ''Len'' (''expected length '' @ itoa len @ [CHR 0x0A] @ ''  actual length '' @ itoa (int n)))))"

definition assertContains :: "world \<Rightarrow> any \<Rightarrow> any \<Rightarrow> string" where
  "assertContains W s x =
     (let (found, guard) = IncludesElement W s x in
      if guard \<noteq> [] then failed ''Contains'' guard
      else unless found (failed ''Contains'' (sharp_v W s @ '' does not contain '' @ sharp_v W x)))"

definition assertNotContains :: "world \<Rightarrow> any \<Rightarrow> any \<Rightarrow> string" where
  "assertNotContains W s x =
     (let (found, guard) = IncludesElement W s x in
      if guard \<noteq> [] then failed ''NotContains'' guard
      else unless (\<not> found) (failed ''NotContains'' (sharp_v W s @ '' should not contain '' @ sharp_v W x)))"

subsection \<open>Errors\<close>

text \<open>\<open>errors.Is\<close>: a nil error or target equals only nil; otherwise the chain is walked.\<close>

definition errorsIs :: "world \<Rightarrow> any \<Rightarrow> any \<Rightarrow> bool" where
  "errorsIs W err tgt = (if err = None \<or> tgt = None then err = tgt else chain_is W err tgt)"

definition assertError :: "any \<Rightarrow> string" where
  "assertError err = unless (err \<noteq> None) (failed ''Error'' ''expected an error but got nil'')"

definition assertNoError :: "world \<Rightarrow> any \<Rightarrow> string" where
  "assertNoError W err = unless (err = None) (failed ''NoError'' (''unexpected error: '' @ error_text W err))"

definition assertErrorIs :: "world \<Rightarrow> any \<Rightarrow> any \<Rightarrow> string" where
  "assertErrorIs W err tgt =
     (if tgt = None then ''ErrorIs: target is nil; for nil error checks, use NoError''
      else unless (errorsIs W err tgt)
        (failed ''ErrorIs'' (''error: '' @ plain_v W err @ [CHR 0x0A] @ ''  target: '' @ plain_v W tgt)))"

text \<open>\<open>ErrorAs\<close> returns the error it found, or the zero value of the type asked for.\<close>

definition assertErrorAs :: "world \<Rightarrow> any \<Rightarrow> gotype \<Rightarrow> string \<times> any" where
  "assertErrorAs W err E =
     (case (if err = None then None else chain_as W err E) of
        Some e \<Rightarrow> ([], e)
      | None \<Rightarrow> (failed ''ErrorAs'' (''error '' @ plain_v W err @ '': nothing in its chain is of type '' @ type_text W E),
          as_any E (zero_value E)))"

definition assertErrorContains :: "world \<Rightarrow> any \<Rightarrow> string \<Rightarrow> string" where
  "assertErrorContains W err sub =
     (if sub = [] then ''ErrorContains: contains is empty; for non-nil error checks, use Error''
      else if err = None then failed ''ErrorContains'' ''expected an error but got nil''
      else unless (str_contains (error_text W err) sub)
        (failed ''ErrorContains'' (''error: '' @ quoted W (error_text W err) @ [CHR 0x0A] @ ''  does not contain: '' @ quoted W sub)))"

text \<open>\<open>Panics\<close> returns what the function panicked with.\<close>

definition assertPanics :: "any option \<Rightarrow> string \<times> any" where
  "assertPanics f = (let (recovered, didPanic) = DidPanic f in
     (unless didPanic (failed ''Panics'' ''expected the function to panic but it did not''), recovered))"

subsection \<open>Order and distance\<close>

definition assertGreater :: "world \<Rightarrow> gotype \<Rightarrow> gval \<Rightarrow> gval \<Rightarrow> string" where "assertGreater = CheckGreater"
definition assertGreaterOrEqual :: "world \<Rightarrow> gotype \<Rightarrow> gval \<Rightarrow> gval \<Rightarrow> string" where "assertGreaterOrEqual = CheckGreaterOrEqual"
definition assertLess :: "world \<Rightarrow> gotype \<Rightarrow> gval \<Rightarrow> gval \<Rightarrow> string" where "assertLess = CheckLess"
definition assertLessOrEqual :: "world \<Rightarrow> gotype \<Rightarrow> gval \<Rightarrow> gval \<Rightarrow> string" where "assertLessOrEqual = CheckLessOrEqual"
definition assertInDelta :: "world \<Rightarrow> gotype \<Rightarrow> gval \<Rightarrow> gval \<Rightarrow> gofloat \<Rightarrow> string" where "assertInDelta = CheckInDelta"

text \<open>
  A time is its nanoseconds; \<open>Time.Sub\<close> gives the nearest duration an \<open>int64\<close> holds, and negating the
  least of them gives it again.
\<close>

definition maxDuration :: int where "maxDuration = 2 ^ 63 - 1"
definition minDuration :: int where "minDuration = - (2 ^ 63)"

definition time_sub :: "int \<Rightarrow> int \<Rightarrow> int" where
  "time_sub t u = max minDuration (min maxDuration (t - u))"

definition negate64 :: "int \<Rightarrow> int" where
  "negate64 d = (if d = minDuration then minDuration else - d)"

definition assertTimeWithin :: "world \<Rightarrow> (int \<Rightarrow> string) \<Rightarrow> (int \<Rightarrow> string) \<Rightarrow> int \<Rightarrow> int \<Rightarrow> int \<Rightarrow> string" where
  "assertTimeWithin W time_text duration_text expected actual tolerance =
     (let diff = time_sub expected actual;
          diff = (if diff < 0 then negate64 diff else diff)
      in unless (\<not> diff > tolerance)
        (failed ''TimeWithin'' (''|'' @ time_text expected @ '' - '' @ time_text actual @ ''| = '' @ duration_text diff @
           '' exceeds tolerance '' @ duration_text tolerance)))"

definition assertTimeIsNow :: "world \<Rightarrow> (int \<Rightarrow> string) \<Rightarrow> (int \<Rightarrow> string) \<Rightarrow> int \<Rightarrow> int \<Rightarrow> int \<Rightarrow> string" where
  "assertTimeIsNow W time_text duration_text now ts tolerance = assertTimeWithin W time_text duration_text now ts tolerance"

subsection \<open>Collections\<close>

text \<open>\<open>counts[v] += d\<close> on a Go map from values to counts, a new key at the end.\<close>

fun count_add :: "gval \<Rightarrow> int \<Rightarrow> (gval \<times> int) list \<Rightarrow> (gval \<times> int) list" where
  "count_add v d [] = [(v, d)]"
| "count_add v d ((k, n) # m) = (if go_eq k v = Some True then (k, n + d) # m else (k, n) # count_add v d m)"

fun count_of :: "(gval \<times> int) list \<Rightarrow> gval \<Rightarrow> int" where
  "count_of [] v = 0"
| "count_of ((k, n) # m) v = (if go_eq k v = Some True then n else count_of m v)"

fun take_counts :: "world \<Rightarrow> gotype \<Rightarrow> gval list \<Rightarrow> (gval \<times> int) list \<Rightarrow> string" where
  "take_counts W V [] counts = []"
| "take_counts W V (v # vs) counts =
     (let counts = count_add v (-1) counts in
      if count_of counts v < 0
      then failed ''ElementsMatch'' (''element '' @ sharp_v W (as_any V v) @ '' is in listB but not enough times in listA'')
      else take_counts W V vs counts)"

definition assertElementsMatch :: "world \<Rightarrow> gotype \<Rightarrow> gval list \<Rightarrow> gval list \<Rightarrow> string" where
  "assertElementsMatch W V listA listB =
     (if length listA \<noteq> length listB
      then failed ''ElementsMatch'' (''lists have different lengths: '' @ itoa (int (length listA)) @ '' vs '' @ itoa (int (length listB)))
      else take_counts W V listB (foldl (\<lambda>counts v. count_add v 1 counts) [] listA))"

fun subset_loop :: "world \<Rightarrow> gotype \<Rightarrow> (gval \<times> int) list \<Rightarrow> gval list \<Rightarrow> string" where
  "subset_loop W V seen [] = []"
| "subset_loop W V seen (v # vs) =
     (if list_ex (\<lambda>k. go_eq (fst k) v = Some True) seen then subset_loop W V seen vs
      else failed ''Subset'' (''element '' @ sharp_v W (as_any V v) @ '' from subset not found in list''))"

definition assertSubset :: "world \<Rightarrow> gotype \<Rightarrow> gval list \<Rightarrow> gval list \<Rightarrow> string" where
  "assertSubset W V xs sub = subset_loop W V (foldl (\<lambda>seen v. count_add v 0 seen) [] xs) sub"

subsection \<open>Regular expressions\<close>

definition maxCompiledPatterns :: nat where "maxCompiledPatterns = 1024"

type_synonym pattern_cache = "(string \<times> nat) list"

text \<open>
  \<open>compilePattern\<close> on the cache of compiled patterns; \<open>pick\<close> is the entry a map iteration meets first,
  which a full cache drops.
\<close>

definition drop_entry :: "(pattern_cache \<Rightarrow> nat) \<Rightarrow> pattern_cache \<Rightarrow> pattern_cache" where
  "drop_entry pick m = (let i = pick m mod length m in take i m @ drop (i + 1) m)"

definition compilePattern :: "world \<Rightarrow> (pattern_cache \<Rightarrow> nat) \<Rightarrow> pattern_cache \<Rightarrow> string \<Rightarrow> (string + nat) \<times> pattern_cache" where
  "compilePattern W pick m pat = (case map_of m pat of
      Some re \<Rightarrow> (Inr re, m)
    | None \<Rightarrow> (case regexp_compile W pat of
          Inl err \<Rightarrow> (Inl err, m)
        | Inr re \<Rightarrow> (Inr re, set_entry pat re (if length m \<ge> maxCompiledPatterns then drop_entry pick m else m))))"

datatype pattern_arg = Pattern string | Compiled "nat option"

definition assertRegexp :: "world \<Rightarrow> (pattern_cache \<Rightarrow> nat) \<Rightarrow> pattern_cache \<Rightarrow> pattern_arg \<Rightarrow> string \<Rightarrow> string \<times> pattern_cache" where
  "assertRegexp W pick m rx str =
     (let judged = (\<lambda>re. unless (regexp_match W re str)
        (failed ''Regexp'' (quoted W str @ '' does not match pattern '' @ quoted W (regexp_text W re)))) in
      case rx of
        Compiled None \<Rightarrow> (failed ''Regexp'' ''regexp is nil'', m)
      | Compiled (Some re) \<Rightarrow> (judged re, m)
      | Pattern pat \<Rightarrow>
          (case compilePattern W pick m pat of
             (Inl err, m') \<Rightarrow> (failed ''Regexp'' (''invalid pattern '' @ quoted W pat @ '': '' @ err), m')
           | (Inr re, m') \<Rightarrow> (judged re, m')))"

end
