(* ===== verification/LintSemantics.thy ===== *)
theory LintSemantics
  imports LintRules Assertions
begin

text \<open>
  What the assertions a lint rule reads and writes mean: the value of a Go expression as far as the
  rules look into it, and whether an assertion on such expressions passes, by the model of
  \<^verbatim>\<open>pkg/gotest\<close>.  \<open>well_typed\<close> is what Go's type system gives.
\<close>

subsection \<open>Values of expressions\<close>

text \<open>
  A run of the code around the call: its world, the run-time types of the program and which of them
  an expression of a static type has, and the values of the expressions the rules do not look into
  (\<open>None\<close>: the evaluation panics).
\<close>

record run =
  run_world :: world
  run_types :: "gotype list"
  runtime :: "gotype \<Rightarrow> gotype"
  val :: "expr \<Rightarrow> gval option"

text \<open>An operand converted to an interface, the \<open>nil\<close> identifier to the nil one.\<close>

definition to_any :: "pass \<Rightarrow> run \<Rightarrow> expr \<Rightarrow> gval option \<Rightarrow> any option" where
  "to_any P R e mv = (if isNilIdent e then Some None
     else (case mv of None \<Rightarrow> None
       | Some v \<Rightarrow> (case v of VIface i \<Rightarrow> Some i
           | _ \<Rightarrow> map_option (\<lambda>t. Some (runtime R t, v)) (typeOf P e))))"

definition lift_iface :: "pass \<Rightarrow> run \<Rightarrow> expr \<Rightarrow> gval \<Rightarrow> gval" where
  "lift_iface P R e v = (case v of VIface i \<Rightarrow> v
     | _ \<Rightarrow> (case typeOf P e of Some t \<Rightarrow> VIface (Some (runtime R t, v)) | None \<Rightarrow> v))"

definition is_viface :: "gval \<Rightarrow> bool" where
  "is_viface v = (case v of VIface i \<Rightarrow> True | _ \<Rightarrow> False)"

text \<open>\<open>==\<close> of two operands: with \<open>nil\<close>, or with one converted to the other's interface type.\<close>

definition equal_operands :: "pass \<Rightarrow> run \<Rightarrow> expr \<Rightarrow> expr \<Rightarrow> gval option \<Rightarrow> gval option \<Rightarrow> bool option" where
  "equal_operands P R a b va vb =
     (if isNilIdent a then map_option value_nil vb
      else if isNilIdent b then map_option value_nil va
      else (case (va, vb) of
          (Some v, Some w) \<Rightarrow>
            if is_viface v \<or> is_viface w then go_eq (lift_iface P R a v) (lift_iface P R b w) else go_eq v w
        | _ \<Rightarrow> None))"

definition go_less :: "gval \<Rightarrow> gval \<Rightarrow> bool option" where
  "go_less v w = (case (v, w) of
      (VInt a, VInt b) \<Rightarrow> Some (a < b)
    | (VString a, VString b) \<Rightarrow> Some (a < b)
    | (VFloat a, VFloat b) \<Rightarrow> Some (float_less a b)
    | _ \<Rightarrow> None)"

definition go_leq :: "gval \<Rightarrow> gval \<Rightarrow> bool option" where
  "go_leq v w = (case (v, w) of
      (VInt a, VInt b) \<Rightarrow> Some (a \<le> b)
    | (VString a, VString b) \<Rightarrow> Some (a \<le> b)
    | (VFloat a, VFloat b) \<Rightarrow> Some (float_less a b \<or> float_eq a b)
    | _ \<Rightarrow> None)"

definition both_values :: "(gval \<Rightarrow> gval \<Rightarrow> bool option) \<Rightarrow> gval option \<Rightarrow> gval option \<Rightarrow> bool option" where
  "both_values f va vb = (case (va, vb) of (Some v, Some w) \<Rightarrow> f v w | _ \<Rightarrow> None)"

definition binary_value :: "pass \<Rightarrow> run \<Rightarrow> token \<Rightarrow> expr \<Rightarrow> expr \<Rightarrow> gval option \<Rightarrow> gval option \<Rightarrow> bool option" where
  "binary_value P R op a b va vb =
     (if op = EQL then equal_operands P R a b va vb
      else if op = NEQ then map_option Not (equal_operands P R a b va vb)
      else if op = LSS then both_values go_less va vb
      else if op = LEQ then both_values go_leq va vb
      else if op = GTR then both_values go_less vb va
      else both_values go_leq vb va)"

definition is_comparison :: "token \<Rightarrow> bool" where
  "is_comparison op \<longleftrightarrow> op \<in> {EQL, NEQ, LSS, LEQ, GTR, GEQ}"

definition string_pair :: "(string \<Rightarrow> string \<Rightarrow> bool) \<Rightarrow> gval option \<Rightarrow> gval option \<Rightarrow> gval option" where
  "string_pair f va vb = (case (va, vb) of (Some (VString a), Some (VString b)) \<Rightarrow> Some (VBool (f a b)) | _ \<Rightarrow> None)"

definition any_pair :: "(any \<Rightarrow> any \<Rightarrow> bool) \<Rightarrow> any option \<Rightarrow> any option \<Rightarrow> gval option" where
  "any_pair f a b = (case (a, b) of (Some x, Some y) \<Rightarrow> Some (VBool (f x y)) | _ \<Rightarrow> None)"

text \<open>
  A call the rules know, from its receiver's and its arguments' values: \<open>len\<close>, \<open>strings.Contains\<close>,
  \<open>errors.Is\<close>, \<open>reflect.DeepEqual\<close>, \<open>MatchString\<close> of a regular expression, \<open>Error\<close> of an error, and the
  conversion to \<open>any\<close>.
\<close>

definition call_value :: "pass \<Rightarrow> run \<Rightarrow> expr \<Rightarrow> expr list \<Rightarrow> gval option \<Rightarrow> gval option list \<Rightarrow> gval option" where
  "call_value P R fn args recv vs =
     (let e = CallExpr fn args; W = run_world R in
      if isLenCall e \<noteq> None then
        (case vs ! 0 of None \<Rightarrow> None | Some (VPtr p) \<Rightarrow> val R e | Some v \<Rightarrow> Some (VInt (int (value_len v))))
      else if isStringsContains P e \<noteq> None then string_pair str_contains (vs ! 0) (vs ! 1)
      else if isErrorsIs P e \<noteq> None then
        any_pair (errorsIs W) (to_any P R (args ! 0) (vs ! 0)) (to_any P R (args ! 1) (vs ! 1))
      else if isReflectDeepEqual P e \<noteq> None then
        any_pair (DeepEqual (same_pointee W)) (to_any P R (args ! 0) (vs ! 0)) (to_any P R (args ! 1) (vs ! 1))
      else if isRegexpMatchString P e \<noteq> None then
        (case (recv, vs ! 0) of (Some (VPtr (Some re)), Some (VString s)) \<Rightarrow> Some (VBool (regexp_match W re s)) | _ \<Rightarrow> None)
      else if fn = Ident ''any'' \<and> length args = 1 then map_option VIface (to_any P R (args ! 0) (vs ! 0))
      else (case fn of
          SelectorExpr x n \<Rightarrow>
            (case isErrorMethodCall e of
               Some y \<Rightarrow> (case to_any P R x recv of
                   Some (Some tv) \<Rightarrow> Some (VString (error_text W (Some tv)))
                 | _ \<Rightarrow> None)
             | None \<Rightarrow> val R e)
        | _ \<Rightarrow> val R e))"

fun eval :: "pass \<Rightarrow> run \<Rightarrow> expr \<Rightarrow> gval option" where
  "eval P R (ParenExpr e) = eval P R e"
| "eval P R (UnaryExpr op e) =
     (if op = LNOT then (case eval P R e of Some (VBool b) \<Rightarrow> Some (VBool (\<not> b)) | _ \<Rightarrow> None)
      else val R (UnaryExpr op e))"
| "eval P R (BinaryExpr op a b) =
     (if is_comparison op then map_option VBool (binary_value P R op a b (eval P R a) (eval P R b))
      else if op = LOR then
        (case eval P R a of
           Some (VBool True) \<Rightarrow> Some (VBool True)
         | Some (VBool False) \<Rightarrow> (case eval P R b of Some (VBool c) \<Rightarrow> Some (VBool c) | _ \<Rightarrow> None)
         | _ \<Rightarrow> None)
      else val R (BinaryExpr op a b))"
| "eval P R (CallExpr fn args) =
     call_value P R fn args (case fn of SelectorExpr x n \<Rightarrow> eval P R x | _ \<Rightarrow> None) (map (eval P R) args)"
| "eval P R (BasicLit k s) =
     (if isEmptyStringLit (BasicLit k s) then Some (VString [])
      else case (k, atoi s) of
          (IntLit, Some n) \<Rightarrow> if itoa n = s then Some (VInt n) else val R (BasicLit k s)
        | _ \<Rightarrow> val R (BasicLit k s))"
| "eval P R (Ident n) =
     (case isBoolIdent (Ident n) of Some b \<Rightarrow> Some (VBool b) | None \<Rightarrow> val R (Ident n))"
| "eval P R e = val R e"

subsection \<open>Verdicts\<close>

text \<open>
  Whether the assertion \<open>name\<close> passes on its arguments after \<open>t\<close>; one that panics or is not given
  what its signature takes does not.  \<open>V\<close> is an explicit type argument.
\<close>

definition any_arg :: "pass \<Rightarrow> run \<Rightarrow> expr \<Rightarrow> any option" where
  "any_arg P R e = to_any P R e (eval P R e)"

text \<open>An operand of \<open>Equal\<close>, \<open>nil\<close> being the nil of the type argument or of the other operand's type.\<close>

definition equal_arg :: "pass \<Rightarrow> run \<Rightarrow> gotype option \<Rightarrow> expr \<Rightarrow> expr \<Rightarrow> any option" where
  "equal_arg P R V other e =
     (if isNilIdent e then
        map_option (\<lambda>t. as_any (runtime R t) (nil_value (runtime R t))) (if V \<noteq> None then V else typeOf P other)
      else any_arg P R e)"

definition any1 :: "(any \<Rightarrow> bool) \<Rightarrow> any option \<Rightarrow> bool" where
  "any1 f a = (case a of Some x \<Rightarrow> f x | None \<Rightarrow> False)"

definition any2 :: "(any \<Rightarrow> any \<Rightarrow> bool) \<Rightarrow> any option \<Rightarrow> any option \<Rightarrow> bool" where
  "any2 f a b = (case (a, b) of (Some x, Some y) \<Rightarrow> f x y | _ \<Rightarrow> False)"

definition typed1 :: "pass \<Rightarrow> run \<Rightarrow> (gotype \<Rightarrow> gval \<Rightarrow> bool) \<Rightarrow> expr \<Rightarrow> bool" where
  "typed1 P R f e = (case (typeOf P e, eval P R e) of (Some t, Some v) \<Rightarrow> f (runtime R t) v | _ \<Rightarrow> False)"

definition ordered_values :: "gval \<Rightarrow> gval \<Rightarrow> bool" where
  "ordered_values v w \<longleftrightarrow> go_less v w \<noteq> None"

definition order_verdict :: "pass \<Rightarrow> run \<Rightarrow> (world \<Rightarrow> gotype \<Rightarrow> gval \<Rightarrow> gval \<Rightarrow> string) \<Rightarrow> expr \<Rightarrow> expr \<Rightarrow> bool" where
  "order_verdict P R check a b = typed1 P R (\<lambda>t v. (case eval P R b of
      Some w \<Rightarrow> ordered_values v w \<and> check (run_world R) t v w = [] | None \<Rightarrow> False)) a"

definition verdict1 :: "pass \<Rightarrow> run \<Rightarrow> gotype option \<Rightarrow> string \<Rightarrow> expr \<Rightarrow> bool" where
  "verdict1 P R V name x =
     (let W = run_world R; a = any_arg P R x in
      if name = ''True'' then (case eval P R x of Some (VBool b) \<Rightarrow> assertTrue b = [] | _ \<Rightarrow> False)
      else if name = ''False'' then (case eval P R x of Some (VBool b) \<Rightarrow> assertFalse b = [] | _ \<Rightarrow> False)
      else if name = ''Zero'' then typed1 P R (\<lambda>t v. assertZero W t v = []) x
      else if name = ''NotZero'' then typed1 P R (\<lambda>t v. assertNotZero W t v = []) x
      else if name = ''Error'' then any1 (\<lambda>e. assertError e = []) a
      else if name = ''NoError'' then any1 (\<lambda>e. assertNoError W e = []) a
      else if name = ''Nil'' then any1 (\<lambda>e. assertNil W e = []) a
      else if name = ''NotNil'' then any1 (\<lambda>e. assertNotNil W e = []) a
      else if name = ''Empty'' then any1 (\<lambda>e. assertEmpty W e = Some []) a
      else if name = ''NotEmpty'' then any1 (\<lambda>e. assertNotEmpty W e = Some []) a
      else if name = ''ErrorAs'' then (case V of None \<Rightarrow> False | Some E \<Rightarrow> any1 (\<lambda>e. fst (assertErrorAs W e E) = []) a)
      else False)"

definition verdict2 :: "pass \<Rightarrow> run \<Rightarrow> gotype option \<Rightarrow> string \<Rightarrow> expr \<Rightarrow> expr \<Rightarrow> bool" where
  "verdict2 P R V name x y =
     (let W = run_world R; a = any_arg P R x; b = any_arg P R y in
      if name = ''Equal'' then any2 (\<lambda>e f. CheckEqual W e f = []) (equal_arg P R V y x) (equal_arg P R V x y)
      else if name = ''NotEqual'' then any2 (\<lambda>e f. CheckNotEqual W e f = []) (equal_arg P R V y x) (equal_arg P R V x y)
      else if name = ''Same'' then
        (case (eval P R x, eval P R y) of (Some (VPtr p), Some (VPtr q)) \<Rightarrow> assertSame W p q = [] | _ \<Rightarrow> False)
      else if name = ''NotSame'' then
        (case (eval P R x, eval P R y) of (Some (VPtr p), Some (VPtr q)) \<Rightarrow> assertNotSame W p q = [] | _ \<Rightarrow> False)
      else if name = ''Len'' then
        any1 (\<lambda>e. case eval P R y of Some (VInt n) \<Rightarrow> assertLen W e n = [] | _ \<Rightarrow> False) a
      else if name = ''Contains'' then any2 (\<lambda>e f. assertContains W e f = []) a b
      else if name = ''NotContains'' then any2 (\<lambda>e f. assertNotContains W e f = []) a b
      else if name = ''ErrorIs'' then any2 (\<lambda>e f. assertErrorIs W e f = []) a b
      else if name = ''ErrorContains'' then
        any1 (\<lambda>e. case eval P R y of Some (VString s) \<Rightarrow> assertErrorContains W e s = [] | _ \<Rightarrow> False) a
      else if name = ''Regexp'' then
        (case (eval P R x, eval P R y) of
           (Some (VPtr re), Some (VString s)) \<Rightarrow> fst (assertRegexp W (\<lambda>_. 0) [] (Compiled re) s) = []
         | (Some (VString pat), Some (VString s)) \<Rightarrow> fst (assertRegexp W (\<lambda>_. 0) [] (Pattern pat) s) = []
         | _ \<Rightarrow> False)
      else if name = ''Greater'' then order_verdict P R assertGreater x y
      else if name = ''GreaterOrEqual'' then order_verdict P R assertGreaterOrEqual x y
      else if name = ''Less'' then order_verdict P R assertLess x y
      else if name = ''LessOrEqual'' then order_verdict P R assertLessOrEqual x y
      else False)"

definition verdict :: "pass \<Rightarrow> run \<Rightarrow> gotype option \<Rightarrow> string \<Rightarrow> expr list \<Rightarrow> bool" where
  "verdict P R V name args = (case args of
      [x] \<Rightarrow> verdict1 P R V name x
    | [x, y] \<Rightarrow> verdict2 P R V name x y
    | _ \<Rightarrow> False)"

text \<open>How many arguments after \<open>t\<close> an assertion looks at; the message arguments follow.\<close>

definition arity :: "string \<Rightarrow> nat" where
  "arity name = (if name \<in> {''True'', ''False'', ''Zero'', ''NotZero'', ''Error'', ''NoError'', ''Nil'', ''NotNil'',
     ''Empty'', ''NotEmpty'', ''ErrorAs''} then 1 else 2)"

definition operands :: "string \<Rightarrow> expr list \<Rightarrow> expr list" where
  "operands name args = take (arity name) (tl args)"

definition call_verdict :: "pass \<Rightarrow> run \<Rightarrow> gotype option \<Rightarrow> string \<Rightarrow> expr list \<Rightarrow> bool" where
  "call_verdict P R V name args = verdict P R V name (operands name args)"

subsection \<open>Typing\<close>

text \<open>A type without blank fields, which \<open>==\<close> ignores and \<open>DeepEqual\<close> does not, and not that of \<open>nil\<close>.\<close>

fun plain :: "gotype \<Rightarrow> bool" where
  "plain (Basic b) = (b \<noteq> UntypedNil)"
| "plain (Named n t) = plain t"
| "plain (Alias n t) = plain t"
| "plain (Array k t) = plain t"
| "plain (Struct fs) = list_all (\<lambda>f. fst f \<noteq> ''_'' \<and> plain (snd f)) fs"
| "plain t = True"

definition string_typed :: "pass \<Rightarrow> expr \<Rightarrow> bool" where
  "string_typed P e = (case typeOf P e of Some t \<Rightarrow> kind_of t = KString | None \<Rightarrow> False)"

text \<open>
  What Go's type system gives of a run: an expression's value has its type, whose run-time type is an
  instance of the static one; expressions of identical types have one run-time type, and no two
  run-time types of the program are identical; a constant has its value; \<open>nil\<close> has no type and no value of its
  own, and the arguments of \<open>strings.Contains\<close> are strings.
\<close>

definition well_typed :: "pass \<Rightarrow> run \<Rightarrow> bool" where
  "well_typed P R \<longleftrightarrow> one_type (run_types R) \<and>
     (\<forall>e t. typeOf P e = Some t \<longrightarrow> \<not> isNilIdent e \<longrightarrow>
        runtime R t \<in> set (run_types R) \<and> instance_of t (runtime R t) \<and>
        (\<forall>v. eval P R e = Some v \<longrightarrow> has_type (run_types R) (runtime R t) v)) \<and>
     (\<forall>e f s t. typeOf P e = Some s \<longrightarrow> typeOf P f = Some t \<longrightarrow> Identical s t \<longrightarrow> runtime R s = runtime R t) \<and>
     (\<forall>e c v. constOf P e = Some c \<longrightarrow> eval P R e = Some v \<longrightarrow>
        (case c of StringConst s \<Rightarrow> v = VString s | OtherConst \<Rightarrow> \<not> is_viface v \<and> (\<forall>s. v \<noteq> VString s))) \<and>
     typeOf P (Ident ''nil'') \<in> {None, Some (Basic UntypedNil)} \<and> eval P R (Ident ''nil'') = None \<and>
     (\<forall>e a b. isStringsContains P e = Some [a, b] \<longrightarrow> string_typed P a \<and> string_typed P b)"

text \<open>
  Whether the type checker accepts the assertion on its arguments after \<open>t\<close>, as far as the proofs rest
  on it.  \<open>known\<close>: the operand is \<open>nil\<close>, has a type, or is a conversion to \<open>any\<close> that a fix wrote.
\<close>

definition known :: "pass \<Rightarrow> expr \<Rightarrow> bool" where
  "known P e = (isNilIdent e \<or> typeOf P e \<noteq> None \<or>
     (case e of CallExpr (Ident f) [x] \<Rightarrow> f = ''any'' \<and> (isNilIdent x \<or> typeOf P x \<noteq> None) | _ \<Rightarrow> False))"

definition same_type :: "pass \<Rightarrow> expr \<Rightarrow> expr \<Rightarrow> bool" where
  "same_type P x y = (case (typeOf P x, typeOf P y) of
      (Some s, Some t) \<Rightarrow> Identical s t \<or> isInterfaceType s \<or> isInterfaceType t
    | _ \<Rightarrow> False)"

definition int_typed :: "pass \<Rightarrow> expr \<Rightarrow> bool" where
  "int_typed P e = (case typeOf P e of Some t \<Rightarrow> kind_of t = KInt | None \<Rightarrow> False)"

definition checks2 :: "pass \<Rightarrow> string \<Rightarrow> expr \<Rightarrow> expr \<Rightarrow> bool" where
  "checks2 P name x y =
     (known P x \<and> known P y \<and>
      (name \<in> {''Equal'', ''NotEqual''} \<longrightarrow> \<not> (isNilIdent x \<and> isNilIdent y)) \<and>
      (name = ''Len'' \<longrightarrow> int_typed P y) \<and>
      (name = ''ErrorContains'' \<longrightarrow> string_typed P y) \<and>
      (name \<in> {''Greater'', ''GreaterOrEqual''} \<longrightarrow> typeOf P x \<noteq> None))"

definition checks :: "pass \<Rightarrow> string \<Rightarrow> expr list \<Rightarrow> bool" where
  "checks P name args = (case args of
      [x] \<Rightarrow> known P x
    | [x, y] \<Rightarrow> checks2 P name x y
    | _ \<Rightarrow> True)"

text \<open>
  The operands of a call of \<open>Equal\<close> or \<open>NotEqual\<close> as written are of one type, one of an interface's, or
  one is \<open>nil\<close>; the haystack of one of \<open>Contains\<close> has a type when it is the text of an error.
\<close>

definition source_checks :: "pass \<Rightarrow> string \<Rightarrow> expr list \<Rightarrow> bool" where
  "source_checks P name args = (case args of
      [x, y] \<Rightarrow>
        (name \<in> {''Equal'', ''NotEqual''} \<longrightarrow> isNilIdent x \<or> isNilIdent y \<or> same_type P x y) \<and>
        (name = ''Contains'' \<and> isErrorMethodCall x \<noteq> None \<longrightarrow> string_typed P x)
    | _ \<Rightarrow> True)"

end
