(* ===== verification/LintTypes.thy ===== *)
theory LintTypes
  imports LintSemantics
begin

text \<open>
  The facts about types that the lint rules rest on: a core type has the kind of every run-time type
  an operand can have (\<open>core_kind\<close>), \<open>reachesPointer\<close> reads a type as it would without its map of types
  seen (\<open>reachesPointer_reaches\<close>), and on values that reach no pointer \<open>==\<close> and \<open>DeepEqual\<close> agree
  (\<open>flat_eq\<close>).
\<close>

subsection \<open>Kinds\<close>

lemma underlying_idem [simp]: "underlying (underlying t) = underlying t"
  by (induction t rule: underlying.induct) (auto split: gotype.splits)

lemma kind_underlying [simp]: "kind_of (underlying t) = kind_of t"
  by (simp add: kind_of_def)

lemma kind_named [simp]: "kind_of (Named n t) = kind_of t" "kind_of (Alias n t) = kind_of t"
  by (simp_all add: kind_of_def)

lemma unalias_underlying [simp]: "underlying (unalias t) = underlying t"
  by (induction t rule: unalias.induct) auto

lemma kind_unalias [simp]: "kind_of (unalias t) = kind_of t"
  by (simp add: kind_of_def)

lemma Identical_kind:
  assumes "Identical (underlying s) (underlying t)"
  shows "kind_of s = kind_of t"
proof -
  have fixed: "\<nexists>n u. underlying x = Named n u" "\<nexists>n u. underlying x = Alias n u" "\<nexists>n u. underlying x = TypeParam n u" for x
    by (induction x rule: underlying.induct) (auto split: gotype.splits)
  show ?thesis using assms fixed[of s] fixed[of t]
    by (cases "underlying s"; cases "underlying t") (auto simp: Identical_def kind_of_def)
qed

theorem core_kind:
  assumes "CoreType t = Some u" "instance_of t r"
  shows "kind_of r = kind_of u"
proof -
  obtain v where v: "unalias t = v" by blast
  note assms = assms[unfolded CoreType_def instance_of_def v]
  show ?thesis
  proof (cases v)
  case (TypeParam n c)
  with assms obtain ms es ts found where c: "underlying c = Interface ms es"
    and es: "terms es = (ts, found)" and core: "shared_core (ts, found) = Some u"
    by (cases "terms (case underlying c of Interface ms es \<Rightarrow> es)")
      (auto split: gotype.splits)
  from core obtain s ss where ts: "ts = s # ss" and u: "u = underlying s" and found
    and all: "list_all (Identical u) (map (\<lambda>t. underlying (unalias t)) ss)"
    by (auto simp: shared_core_def split: list.splits if_splits)
  from assms(2) TypeParam c es \<open>found\<close> obtain x where x: "x \<in> set ts" "kind_of x = kind_of r"
    by (auto simp: list_ex_iff)
  have "kind_of x = kind_of u"
  proof (cases "x = s")
    case False
    with x ts all have "Identical (underlying s) (underlying x)" by (auto simp: list_all_iff u)
    then show ?thesis using Identical_kind[of s x] by (simp add: u)
  qed (simp add: u)
  then show ?thesis using x by simp
qed (use assms in auto)
qed

definition kinds_of_value :: "gval \<Rightarrow> kind set" where
  "kinds_of_value v = (case v of
      VBool b \<Rightarrow> {KBool} | VInt i \<Rightarrow> {KInt, KInt32, KUint, KUint8} | VFloat x \<Rightarrow> {KFloat}
    | VComplex x y \<Rightarrow> {KComplex} | VString s \<Rightarrow> {KString} | VUnsafe p \<Rightarrow> {KUnsafePointer}
    | VPtr p \<Rightarrow> {KPtr} | VFunc f \<Rightarrow> {KFunc} | VChan c \<Rightarrow> {KChan} | VSlice s \<Rightarrow> {KSlice}
    | VMap m \<Rightarrow> {KMap} | VArray vs \<Rightarrow> {KArray} | VStruct fs \<Rightarrow> {KStruct} | VIface i \<Rightarrow> {KInterface})"

lemma has_type_kind: "has_type Ts r v \<Longrightarrow> kind_of r \<in> kinds_of_value v"
  by (cases v) (auto simp: kinds_of_value_def kind_of_def is_interface_def split: gotype.splits basic.splits)

lemma interface_kind: "is_interface r \<longleftrightarrow> kind_of r = KInterface"
  by (auto simp: kind_of_def is_interface_def split: gotype.splits basic.splits)
text \<open>A flat value holds no pointer, function, slice, map or interface.\<close>

fun flat :: "gval \<Rightarrow> bool" where
  "flat (VPtr p) = False"
| "flat (VFunc f) = False"
| "flat (VSlice s) = False"
| "flat (VMap m) = False"
| "flat (VIface i) = False"
| "flat (VArray vs) = list_all flat vs"
| "flat (VStruct fs) = list_all (\<lambda>f. flat (snd f)) fs"
| "flat v = True"

lemma plain_underlying: "plain t \<Longrightarrow> plain (underlying t)"
  by (induction t rule: underlying.induct) (auto split: gotype.splits)

lemma both_Some [simp]: "both (Some a) (Some b) = Some (a \<and> b)"
  by (cases a) auto

definition con :: "gval \<Rightarrow> nat" where
  "con v = (case v of
      VBool b \<Rightarrow> 0 | VInt i \<Rightarrow> 1 | VFloat x \<Rightarrow> 2 | VComplex x y \<Rightarrow> 3 | VString s \<Rightarrow> 4 | VUnsafe p \<Rightarrow> 5
    | VPtr p \<Rightarrow> 6 | VFunc f \<Rightarrow> 7 | VChan c \<Rightarrow> 8 | VSlice s \<Rightarrow> 9 | VMap m \<Rightarrow> 10 | VArray vs \<Rightarrow> 11
    | VStruct fs \<Rightarrow> 12 | VIface i \<Rightarrow> 13)"

lemma kinds_con: "k \<in> kinds_of_value v \<Longrightarrow> k \<in> kinds_of_value w \<Longrightarrow> con v = con w"
  by (cases v; cases w) (auto simp: kinds_of_value_def con_def)

lemma same_con: "has_type Ts r v \<Longrightarrow> has_type Us r w \<Longrightarrow> con w = con v"
  by (metis has_type_kind kinds_con)

lemma con_simps [simp]:
  "con w = con (VBool a) \<longleftrightarrow> (\<exists>b. w = VBool b)"
  "con w = con (VInt i) \<longleftrightarrow> (\<exists>b. w = VInt b)"
  "con w = con (VFloat x) \<longleftrightarrow> (\<exists>b. w = VFloat b)"
  "con w = con (VComplex x y) \<longleftrightarrow> (\<exists>b c. w = VComplex b c)"
  "con w = con (VString s) \<longleftrightarrow> (\<exists>b. w = VString b)"
  "con w = con (VUnsafe p) \<longleftrightarrow> (\<exists>b. w = VUnsafe b)"
  "con w = con (VPtr p) \<longleftrightarrow> (\<exists>b. w = VPtr b)"
  "con w = con (VFunc p) \<longleftrightarrow> (\<exists>b. w = VFunc b)"
  "con w = con (VChan c) \<longleftrightarrow> (\<exists>b. w = VChan b)"
  "con w = con (VSlice ss) \<longleftrightarrow> (\<exists>b. w = VSlice b)"
  "con w = con (VMap m) \<longleftrightarrow> (\<exists>b. w = VMap b)"
  "con w = con (VArray vs) \<longleftrightarrow> (\<exists>b. w = VArray b)"
  "con w = con (VStruct fs) \<longleftrightarrow> (\<exists>b. w = VStruct b)"
  "con w = con (VIface f) \<longleftrightarrow> (\<exists>b. w = VIface b)"
  by (cases w; simp add: con_def)+

lemma flat_eq:
  "has_type Ts r v \<Longrightarrow> has_type Ts r w \<Longrightarrow> plain r \<Longrightarrow> flat v \<Longrightarrow> go_eq v w = Some (deep_equal P v w)"
  and "have_types Ts e vs \<Longrightarrow> have_types Ts e ws \<Longrightarrow> plain e \<Longrightarrow> list_all flat vs \<Longrightarrow> length vs = length ws \<Longrightarrow>
     list_eq vs ws = Some (deep_list P vs ws)"
  and "fields_typed Ts gs fs \<Longrightarrow> fields_typed Ts gs hs \<Longrightarrow> list_all (\<lambda>f. fst f \<noteq> ''_'' \<and> plain (snd f)) gs \<Longrightarrow>
     list_all (\<lambda>f. flat (snd f)) fs \<Longrightarrow> fields_eq fs hs = Some (deep_fields P fs hs)"
proof (induction Ts r v and Ts e vs and Ts gs fs arbitrary: w and ws and hs rule: has_type_have_types_fields_typed.induct)
  case (12 Ts t vs)
  from same_con[OF 12(2,3)] obtain ws where w: "w = VArray ws" by auto
  then show ?case using 12 plain_underlying[of t] by (auto split: gotype.splits)
next
  case (13 Ts t fs)
  from same_con[OF 13(2,3)] obtain hs where w: "w = VStruct hs" by auto
  then show ?case using 13 plain_underlying[of t] by (auto split: gotype.splits)
next
  case (16 Ts e v vs)
  then show ?case by (cases ws) auto
next
  case (18 Ts gs f fs)
  then show ?case by (cases hs) (auto split: list.splits)
next
  case (17 Ts gs)
  then show ?case by (cases hs) auto
next
  case (1 Ts t b)
  from same_con[OF 1(1,2)] show ?case by auto
next
  case (2 Ts t b)
  from same_con[OF 2(1,2)] show ?case by auto
next
  case (3 Ts t b)
  from same_con[OF 3(1,2)] show ?case by auto
next
  case (4 Ts t b c)
  from same_con[OF 4(1,2)] show ?case by auto
next
  case (5 Ts t b)
  from same_con[OF 5(1,2)] show ?case by auto
next
  case (6 Ts t b)
  from same_con[OF 6(1,2)] show ?case by auto
next
  case (9 Ts t b)
  from same_con[OF 9(1,2)] show ?case by auto
qed auto
text \<open>The reading of a type without the map of types seen.\<close>

fun reaches :: "gotype \<Rightarrow> bool" where
  "reaches (Basic b) = False"
| "reaches (Named n t) = reaches t"
| "reaches (Alias n t) = reaches t"
| "reaches (Chan t) = False"
| "reaches (Array k t) = reaches t"
| "reaches (Struct fs) = list_ex (\<lambda>f. reaches (snd f)) fs"
| "reaches t = True"

lemma seen_reaches:
  "reachesPointerSeen t seen = (b, seen') \<Longrightarrow> \<forall>x \<in> set seen. size t < size x \<or> \<not> reaches x \<Longrightarrow>
     b = reaches t \<and> (\<not> b \<longrightarrow> (\<forall>x \<in> set seen'. x \<in> set seen \<or> \<not> reaches x))"
  and "struct_reaches fs seen = (b, seen') \<Longrightarrow>
     \<forall>x \<in> set seen. (\<forall>f \<in> set fs. size (snd f) < size x) \<or> \<not> reaches x \<Longrightarrow>
     b = list_ex (\<lambda>f. reaches (snd f)) fs \<and> (\<not> b \<longrightarrow> (\<forall>x \<in> set seen'. x \<in> set seen \<or> \<not> reaches x))"
  and "underlying_reaches t seen = (b, seen') \<Longrightarrow> \<forall>x \<in> set seen. size t \<le> size x \<or> \<not> reaches x \<Longrightarrow>
     b = reaches t \<and> (\<not> b \<longrightarrow> (\<forall>x \<in> set seen'. x \<in> set seen \<or> \<not> reaches x))"
proof (induction t seen and fs seen and t seen arbitrary: b seen' and b seen' and b seen'
    rule: reachesPointerSeen_struct_reaches_underlying_reaches.induct)
  case (1 t seen)
  show ?case
  proof (cases "t \<in> set seen")
    case False
    with 1 have u: "underlying_reaches t (t # seen) = (b, seen')" by simp
    have "\<forall>x \<in> set (t # seen). size t \<le> size x \<or> \<not> reaches x" using 1(3) by auto
    from 1(1)[OF False u this] show ?thesis by auto
  qed (use 1 in auto)
next
  case (10 f fs seen)
  obtain c seen1 where f: "reachesPointerSeen (snd f) seen = (c, seen1)" by fastforce
  have pre: "\<forall>x \<in> set seen. size (snd f) < size x \<or> \<not> reaches x" using 10(4) by auto
  note one = 10(1)[OF f pre]
  show ?case
  proof (cases c)
    case True
    then show ?thesis using one f 10(3) by auto
  next
    case False
    have "\<forall>x \<in> set seen1. (\<forall>f \<in> set fs. size (snd f) < size x) \<or> \<not> reaches x" using one False 10(4) by auto
    with 10(2)[of c seen1] f False 10(3) have
      "b = list_ex (\<lambda>f. reaches (snd f)) fs \<and> (\<not> b \<longrightarrow> (\<forall>x \<in> set seen'. x \<in> set seen1 \<or> \<not> reaches x))" by auto
    then show ?thesis using one False by auto
  qed
next
  case (4 fs seen)
  have "size (snd f) < size (Struct fs)" if "f \<in> set fs" for f
    using that by (induction fs) (auto simp: size_prod_def split: prod.splits)
  then have "\<forall>x \<in> set seen. (\<forall>f \<in> set fs. size (snd f) < size x) \<or> \<not> reaches x" using 4(3) by fastforce
  then show ?case using 4 by simp
qed (simp_all, (fastforce)+)
theorem reachesPointer_reaches: "reachesPointer t = reaches t"
  using seen_reaches(1)[of t "[]" "fst (reachesPointerSeen t [])" "snd (reachesPointerSeen t [])"]
  by (simp add: reachesPointer_def)

lemma like_flat:
  "like t r \<Longrightarrow> \<not> reaches t \<Longrightarrow> has_type Ts r v \<Longrightarrow> flat v"
  and "fields_like fs gs \<Longrightarrow> \<not> list_ex (\<lambda>f. reaches (snd f)) fs \<Longrightarrow> fields_typed Ts gs hs \<Longrightarrow>
    list_all (\<lambda>f. flat (snd f)) hs"
proof (induction t r and fs gs arbitrary: v and hs rule: like_fields_like.induct)
  case (12 k t r)
  then obtain u where r: "underlying r = Array k u" and l: "like t u" by (auto split: gotype.splits)
  have vs: "have_types Ts u vs \<Longrightarrow> list_all flat vs" for vs
    using 12(1)[OF r] l 12(3) r by (induction vs) auto
  show ?case using 12(4) r vs by (cases v) (auto simp: is_interface_def)
next
  case (13 fs r)
  then obtain gs where r: "underlying r = Struct gs" and l: "fields_like fs gs" by (auto split: gotype.splits)
  show ?case using 13(1)[OF r] l 13(3,4) r by (cases v) (auto simp: is_interface_def)
next
  case (14 gs)
  then show ?case by (cases hs) auto
next
  case (15 f fs gs)
  then show ?case by (cases hs) (auto split: list.splits)
next
  case (5 b r)
  then show ?case by (cases v) (auto simp: is_interface_def)
next
  case (9 t r)
  then show ?case by (cases v) (auto simp: is_interface_def split: gotype.splits)
qed simp_all

lemma reaches_unalias [simp]: "reaches (unalias t) = reaches t"
  by (induction t rule: unalias.induct) auto

theorem no_pointer_flat:
  assumes "\<not> reachesPointer t" "instance_of t r" "has_type Ts r v"
  shows "flat v"
proof -
  have "like (unalias t) r \<and> \<not> reaches (unalias t)"
    using assms by (cases "unalias t") (auto simp: instance_of_def reachesPointer_reaches dest!: arg_cong[of _ _ reaches])
  then show ?thesis using like_flat assms(3) by blast
qed

lemma comparable_underlying:
  "go_comparable (underlying t) \<Longrightarrow> \<not> is_interface t \<Longrightarrow> go_comparable t"
  by (induction t rule: underlying.induct) (auto simp: is_interface_def split: gotype.splits)

lemma like_comparable:
  "like t r \<Longrightarrow> \<not> reaches t \<Longrightarrow> plain r \<Longrightarrow> go_comparable r"
  and "fields_like fs gs \<Longrightarrow> \<not> list_ex (\<lambda>f. reaches (snd f)) fs \<Longrightarrow>
    list_all (\<lambda>f. fst f \<noteq> ''_'' \<and> plain (snd f)) gs \<Longrightarrow> list_all (\<lambda>f. go_comparable (snd f)) gs"
proof (induction t r and fs gs rule: like_fields_like.induct)
  case (5 b r)
  then show ?case using plain_underlying[of r]
    by - (rule comparable_underlying; auto simp: is_interface_def)
next
  case (9 t r)
  then show ?case using plain_underlying[of r]
    by - (rule comparable_underlying; auto simp: is_interface_def split: gotype.splits)
next
  case (12 k t r)
  then show ?case using plain_underlying[of r]
    by - (rule comparable_underlying; auto simp: is_interface_def split: gotype.splits)
next
  case (13 fs r)
  then show ?case using plain_underlying[of r]
    by - (rule comparable_underlying; auto simp: is_interface_def split_def split: gotype.splits)
next
  case (15 f fs gs)
  then show ?case by (cases gs) auto
qed simp_all

lemma no_pointer_comparable:
  assumes "\<not> reachesPointer t" "instance_of t r" "plain r"
  shows "Comparable r"
proof -
  have "like (unalias t) r \<and> \<not> reaches (unalias t)"
    using assms by (cases "unalias t") (auto simp: instance_of_def reachesPointer_reaches dest!: arg_cong[of _ _ reaches])
  then have "go_comparable r" using like_comparable assms(3) by blast
  moreover have "go_comparable (unalias x)" if "go_comparable x" for x
    using that by (induction x rule: unalias.induct) auto
  ultimately show ?thesis by (simp add: Comparable_def)
qed

lemma float_eq_sym: "float_eq x y = float_eq y x"
  by (cases x; cases y) auto

lemma deep_Nil [simp]: "deep_list P ws [] = (ws = [])" "deep_fields P gs [] = (gs = [])"
  by (cases ws; simp) (cases gs; simp)

lemma flat_sym: "flat v \<Longrightarrow> deep_equal P v w = deep_equal P w v"
proof (induction v arbitrary: w rule: flat.induct)
  case (6 vs)
  have "deep_list P vs ws = deep_list P ws vs" for ws
    using 6 by (induction vs arbitrary: ws) (auto split: list.splits)
  then show ?case by (cases w) auto
next
  case (7 fs)
  have "deep_fields P fs gs = deep_fields P gs fs" for gs
    using 7 by (induction fs arbitrary: gs) (auto split: list.splits)
  then show ?case by (cases w) auto
qed (auto simp: float_eq_sym split: gval.splits)

lemma zero_kind:
  "kind_of r = KPtr \<Longrightarrow> zero_value r = VPtr None"
  "kind_of r = KChan \<Longrightarrow> zero_value r = VChan None"
  "kind_of r = KUnsafePointer \<Longrightarrow> zero_value r = VUnsafe None"
  "kind_of r = KInterface \<Longrightarrow> zero_value r = VIface None"
  by (induction r rule: underlying.induct) (auto simp: kind_of_def split: gotype.splits basic.splits if_splits)

lemma kind_simps [simp]:
  "kind_of (Pointer e) = KPtr" "kind_of (Slice e) = KSlice" "kind_of (Array k e) = KArray" "kind_of (MapType k' e) = KMap"
  "kind_of (Chan e) = KChan" "kind_of (Signature s) = KFunc" "kind_of (Struct fs) = KStruct"
  "kind_of (Interface ms es) = KInterface" "kind_of (Ref n) = KInvalid" "kind_of (Basic UntypedNil) = KInvalid"
  "kind_of (Basic UnsafePointer) = KUnsafePointer"
  by (simp_all add: kind_of_def)

lemma kind_shape [simp]:
  "KBool \<in> kinds_of_value v \<longleftrightarrow> (\<exists>b. v = VBool b)" "KString \<in> kinds_of_value v \<longleftrightarrow> (\<exists>s. v = VString s)"
  "KInt \<in> kinds_of_value v \<longleftrightarrow> (\<exists>i. v = VInt i)" "KPtr \<in> kinds_of_value v \<longleftrightarrow> (\<exists>p. v = VPtr p)"
  "KChan \<in> kinds_of_value v \<longleftrightarrow> (\<exists>c. v = VChan c)" "KUnsafePointer \<in> kinds_of_value v \<longleftrightarrow> (\<exists>p. v = VUnsafe p)"
  "KSlice \<in> kinds_of_value v \<longleftrightarrow> (\<exists>s. v = VSlice s)" "KMap \<in> kinds_of_value v \<longleftrightarrow> (\<exists>m. v = VMap m)"
  "KFunc \<in> kinds_of_value v \<longleftrightarrow> (\<exists>f. v = VFunc f)" "KArray \<in> kinds_of_value v \<longleftrightarrow> (\<exists>vs. v = VArray vs)"
  "KInterface \<in> kinds_of_value v \<longleftrightarrow> (\<exists>i. v = VIface i)" "KInvalid \<notin> kinds_of_value v"
  by (cases v; simp add: kinds_of_value_def)+

lemma kind_string: "kind_of t = KString \<longleftrightarrow> (\<exists>b. underlying t = Basic b \<and> is_string b)"
  by (auto simp: kind_of_def is_string_def split: gotype.splits basic.splits if_splits)

lemma core_underlying: "CoreType t = Some u \<Longrightarrow> underlying u = u"
proof -
  obtain v where v: "unalias t = v" by blast
  have shared: "shared_core x = Some u \<Longrightarrow> underlying u = u" for x
    by (cases x) (auto simp: shared_core_def split: list.splits if_splits)
  show "CoreType t = Some u \<Longrightarrow> underlying u = u"
    unfolding CoreType_def v using shared by (cases v) (auto split: gotype.splits)
qed

lemma kind_runtime: "instance_of t r \<Longrightarrow> kind_of t \<noteq> KInterface \<Longrightarrow> kind_of r = kind_of t"
proof -
  obtain x where x: "unalias t = x" by blast
  have "kind_of (TypeParam n c) = KInterface" for n c by (simp add: kind_of_def split: gotype.splits)
  then show "instance_of t r \<Longrightarrow> kind_of t \<noteq> KInterface \<Longrightarrow> kind_of r = kind_of t"
    unfolding instance_of_def x kind_unalias[of t, unfolded x, symmetric] by (cases x) auto
qed

lemma typed_value:
  assumes "well_typed P R" "typeOf P e = Some t" "\<not> isNilIdent e" "eval P R e = Some v"
  shows "has_type (run_types R) (runtime R t) v" "instance_of t (runtime R t)" "runtime R t \<in> set (run_types R)"
    "kind_of (runtime R t) \<in> kinds_of_value v"
proof -
  show *: "has_type (run_types R) (runtime R t) v" "instance_of t (runtime R t)" "runtime R t \<in> set (run_types R)"
    using assms unfolding well_typed_def by blast+
  show "kind_of (runtime R t) \<in> kinds_of_value v" by (rule has_type_kind[OF *(1)])
qed

lemma core_value:
  assumes "well_typed P R" "typeOf P e = Some t" "\<not> isNilIdent e" "CoreType t = Some u"
  shows "kind_of (runtime R t) = kind_of u"
  using assms core_kind[OF assms(4)] unfolding well_typed_def by blast

lemma nil_typed:
  assumes "well_typed P R" "isNilIdent e" "typeOf P e = Some t"
  shows "t = Basic UntypedNil"
  using assms by (simp add: well_typed_def isNilIdent_def)

definition nil_kinds :: "nilKind \<Rightarrow> kind set" where
  "nil_kinds k = (case k of errorIface \<Rightarrow> {KInterface} | otherIface \<Rightarrow> {KInterface}
     | comparableNil \<Rightarrow> {KPtr, KChan, KUnsafePointer} | uncomparableNil \<Rightarrow> {KSlice, KMap, KFunc} | _ \<Rightarrow> {})"

text \<open>The run-time kinds of an operand of each nil kind.\<close>

lemma nil_operand:
  assumes w: "well_typed P R" and k: "nilKindOf P e \<in> {errorIface, otherIface, comparableNil, uncomparableNil}"
  shows "\<not> isNilIdent e \<and> (\<exists>t. typeOf P e = Some t \<and> kind_of (runtime R t) \<in> nil_kinds (nilKindOf P e))"
proof -
  from k obtain t u where t: "typeOf P e = Some t" "\<not> isUntypedNil t" "CoreType t = Some u" "Nilable t"
    and cls: "nilKindOf P e = (if IsErrorInterface t then errorIface else if isInterfaceType t then otherIface
      else if Comparable u then comparableNil else uncomparableNil)"
    by (auto simp: nilKindOf_def split: option.splits if_splits)
  have nn: "\<not> isNilIdent e" using nil_typed[OF w _ t(1)] t(2) by (auto simp: isUntypedNil_def)
  have iface: "kind_of u = KInterface" if "IsErrorInterface t"
    using that t(3) core_underlying[OF t(3)] Identical_kind[of u error_interface]
    by (simp add: IsErrorInterface_def error_type_def error_interface_def)
  have "kind_of u \<in> nil_kinds (nilKindOf P e)"
    using iface cls t(3,4) by (cases u) (auto simp: nil_kinds_def Nilable_def isInterfaceType_def Comparable_def)
  then show ?thesis using core_value[OF w t(1) nn t(3)] nn t(1) by auto
qed

end
