(* ===== verification/LintVerdicts.thy ===== *)
theory LintVerdicts
  imports LintTypes
begin

text \<open>
  What the verdict of each assertion a lint rule writes is in terms of its operands' values, and that
  a boolean expression has the verdict of the assertion \<open>mapBoolExpr\<close> maps it to.
\<close>

subsection \<open>Operands of one kind\<close>

lemma verdict1_simps:
  "verdict1 P R V ''True'' x = (eval P R x = Some (VBool True))"
  "verdict1 P R V ''False'' x = (eval P R x = Some (VBool False))"
  "verdict1 P R V ''Zero'' x = typed1 P R (\<lambda>t v. go_eq v (zero_value t) = Some True) x"
  "verdict1 P R V ''NotZero'' x = typed1 P R (\<lambda>t v. go_eq v (zero_value t) \<noteq> Some True) x"
  "verdict1 P R V ''Error'' x = any1 (\<lambda>e. e \<noteq> None) (any_arg P R x)"
  "verdict1 P R V ''NoError'' x = any1 (\<lambda>e. e = None) (any_arg P R x)"
  "verdict1 P R V ''Nil'' x = any1 (\<lambda>e. IsNilable e \<and> IsNil e) (any_arg P R x)"
  "verdict1 P R V ''NotNil'' x = any1 (\<lambda>e. IsNilable e \<and> \<not> IsNil e) (any_arg P R x)"
  "verdict1 P R V ''Empty'' x = any1 (\<lambda>e. IsEmptyable e \<and> IsEmpty (pointee (run_world R)) e = Some True) (any_arg P R x)"
  "verdict1 P R V ''NotEmpty'' x = any1 (\<lambda>e. IsEmptyable e \<and> IsEmpty (pointee (run_world R)) e = Some False) (any_arg P R x)"
  by (auto simp: verdict1_def Let_def assertTrue_def assertFalse_def assertZero_def assertNotZero_def assertError_def
      assertNoError_def assertNil_def assertNotNil_def assertEmpty_def assertNotEmpty_def typed1_def any1_def unless_def
      split: option.splits gval.splits) (metis option.exhaust surj_pair)+

lemma any_arg_value:
  assumes "\<not> isNilIdent e" "typeOf P e = Some t" "eval P R e = Some v"
  shows "any_arg P R e = Some (case v of VIface i \<Rightarrow> i | _ \<Rightarrow> Some (runtime R t, v))"
  using assms by (cases v) (auto simp: any_arg_def to_any_def)

lemma any_arg_panic: "\<not> isNilIdent e \<Longrightarrow> eval P R e = None \<Longrightarrow> any_arg P R e = None"
  by (simp add: any_arg_def to_any_def)

definition nil_test :: "pass \<Rightarrow> run \<Rightarrow> expr \<Rightarrow> bool option" where
  "nil_test P R e = map_option value_nil (eval P R e)"

lemma nil_verdicts:
  assumes w: "well_typed P R"
  shows "nilKindOf P e = errorIface \<Longrightarrow> verdict1 P R V ''NoError'' e = (nil_test P R e = Some True)"
    "nilKindOf P e = errorIface \<Longrightarrow> verdict1 P R V ''Error'' e = (nil_test P R e = Some False)"
    "nilKindOf P e \<in> {errorIface, otherIface, comparableNil} \<Longrightarrow> verdict1 P R V ''Zero'' e = (nil_test P R e = Some True)"
    "nilKindOf P e \<in> {errorIface, otherIface, comparableNil} \<Longrightarrow> verdict1 P R V ''NotZero'' e = (nil_test P R e = Some False)"
    "nilKindOf P e \<in> {comparableNil, uncomparableNil} \<Longrightarrow> verdict1 P R V ''Nil'' e = (nil_test P R e = Some True)"
    "nilKindOf P e \<in> {comparableNil, uncomparableNil} \<Longrightarrow> verdict1 P R V ''NotNil'' e = (nil_test P R e = Some False)"
proof -
  have go: "(k = errorIface \<longrightarrow> verdict1 P R V ''NoError'' e = (nil_test P R e = Some True) \<and>
        verdict1 P R V ''Error'' e = (nil_test P R e = Some False)) \<and>
      (k \<in> {errorIface, otherIface, comparableNil} \<longrightarrow> verdict1 P R V ''Zero'' e = (nil_test P R e = Some True) \<and>
        verdict1 P R V ''NotZero'' e = (nil_test P R e = Some False)) \<and>
      (k \<in> {comparableNil, uncomparableNil} \<longrightarrow> verdict1 P R V ''Nil'' e = (nil_test P R e = Some True) \<and>
        verdict1 P R V ''NotNil'' e = (nil_test P R e = Some False))"
    if k: "nilKindOf P e = k" "k \<in> {errorIface, otherIface, comparableNil, uncomparableNil}" for k
  proof -
    from nil_operand[OF w, of e] k obtain t where t: "\<not> isNilIdent e" "typeOf P e = Some t"
      and kind: "kind_of (runtime R t) \<in> nil_kinds k" by auto
    show ?thesis
    proof (cases "eval P R e")
      case None
      then show ?thesis using t by (simp add: verdict1_simps any_arg_panic nil_test_def any1_def typed1_def)
    next
      case (Some v)
      note v = typed_value(4)[OF w t(2,1) Some]
      have zero: "go_eq v (zero_value (runtime R t)) = Some (value_nil v)"
        if "kind_of (runtime R t) \<in> {KInterface, KPtr, KChan, KUnsafePointer}"
        using that v zero_kind[of "runtime R t"] by (auto split: option.splits)
      have shown: "(case v of VIface i \<Rightarrow> i | _ \<Rightarrow> Some (runtime R t, v)) =
          (if kind_of (runtime R t) = KInterface then (case v of VIface i \<Rightarrow> i) else Some (runtime R t, v))"
        "kind_of (runtime R t) = KInterface \<Longrightarrow> value_nil v = ((case v of VIface i \<Rightarrow> i) = None)"
        using v by (cases v; force simp: kinds_of_value_def)+
      show ?thesis
        unfolding verdict1_simps any_arg_value[OF t Some] nil_test_def typed1_def t(2) Some shown(1)
        using kind k(2) zero shown(2)
        by (auto simp: nil_kinds_def any1_def IsNil_def IsNilable_def nilable_kinds_def)
    qed
  qed
  show "nilKindOf P e = errorIface \<Longrightarrow> verdict1 P R V ''NoError'' e = (nil_test P R e = Some True)"
    "nilKindOf P e = errorIface \<Longrightarrow> verdict1 P R V ''Error'' e = (nil_test P R e = Some False)"
    "nilKindOf P e \<in> {errorIface, otherIface, comparableNil} \<Longrightarrow> verdict1 P R V ''Zero'' e = (nil_test P R e = Some True)"
    "nilKindOf P e \<in> {errorIface, otherIface, comparableNil} \<Longrightarrow> verdict1 P R V ''NotZero'' e = (nil_test P R e = Some False)"
    "nilKindOf P e \<in> {comparableNil, uncomparableNil} \<Longrightarrow> verdict1 P R V ''Nil'' e = (nil_test P R e = Some True)"
    "nilKindOf P e \<in> {comparableNil, uncomparableNil} \<Longrightarrow> verdict1 P R V ''NotNil'' e = (nil_test P R e = Some False)"
    using go[OF refl] by auto
qed
lemma length_operand:
  assumes w: "well_typed P R" and l: "hasLength P e \<or> isStringType P e"
  shows "\<not> isNilIdent e \<and> (\<exists>t. typeOf P e = Some t \<and> kind_of (runtime R t) \<in> length_kinds)"
proof -
  obtain t where t: "typeOf P e = Some t" using l by (auto simp: hasLength_def isStringType_def split: option.splits)
  have nn: "\<not> isNilIdent e"
    using nil_typed[OF w _ t] l t by (auto simp: hasLength_def isStringType_def CoreType_def is_string_def)
  have "kind_of (runtime R t) \<in> length_kinds"
  proof (cases "hasLength P e")
    case True
    then obtain u where u: "CoreType t = Some u" "kind_of u \<in> length_kinds"
      using t by (auto simp: hasLength_def length_kinds_def kind_of_def is_string_def split: option.splits gotype.splits basic.splits)
    then show ?thesis using core_value[OF w t nn u(1)] by simp
  next
    case False
    with l t obtain b where b: "underlying t = Basic b" "is_string b"
      by (auto simp: isStringType_def split: gotype.splits)
    have "CoreType t = Some (Basic b)"
    proof -
      obtain x where x: "unalias t = x" by blast
      have "underlying x = Basic b" using b(1) by (simp flip: x)
      then show ?thesis unfolding CoreType_def x by (cases x) (auto split: gotype.splits)
    qed
    then show ?thesis using core_value[OF w t nn] b kind_string[of "Basic b"] by (simp add: length_kinds_def)
  qed
  with nn t show ?thesis by blast
qed

definition length_test :: "pass \<Rightarrow> run \<Rightarrow> expr \<Rightarrow> (nat \<Rightarrow> bool) \<Rightarrow> bool" where
  "length_test P R e f = (case eval P R e of Some v \<Rightarrow> f (value_len v) | None \<Rightarrow> False)"

lemma not_iface: "k \<in> kinds_of_value v \<Longrightarrow> k \<noteq> KInterface \<Longrightarrow> (case v of VIface i \<Rightarrow> i | _ \<Rightarrow> Some (t, v)) = Some (t, v)"
  by (cases v) (auto simp: kinds_of_value_def)

lemma length_any:
  assumes w: "well_typed P R" and l: "hasLength P e \<or> isStringType P e" and v: "eval P R e = Some v"
  shows "\<exists>r. any_arg P R e = Some (Some (r, v)) \<and> kind_of r \<in> length_kinds"
proof -
  from length_operand[OF w l] obtain t where t: "\<not> isNilIdent e" "typeOf P e = Some t"
    and k: "kind_of (runtime R t) \<in> length_kinds" by auto
  have "kind_of (runtime R t) \<noteq> KInterface" using k by (auto simp: length_kinds_def)
  then show ?thesis
    using any_arg_value[OF t v] not_iface[OF typed_value(4)[OF w t(2,1) v]] k by simp
qed

lemma length_verdicts:
  assumes w: "well_typed P R" and l: "hasLength P e \<or> isStringType P e"
  shows "verdict1 P R V ''Empty'' e = length_test P R e (\<lambda>n. n = 0)"
    "verdict1 P R V ''NotEmpty'' e = length_test P R e (\<lambda>n. n \<noteq> 0)"
    "verdict2 P R V ''Len'' e n = (case eval P R n of Some (VInt k) \<Rightarrow> length_test P R e (\<lambda>m. int m = k) | _ \<Rightarrow> False)"
proof -
  note nn = length_operand[OF w l]
  have "verdict1 P R V ''Empty'' e = length_test P R e (\<lambda>n. n = 0) \<and>
      verdict1 P R V ''NotEmpty'' e = length_test P R e (\<lambda>n. n \<noteq> 0) \<and>
      verdict2 P R V ''Len'' e n = (case eval P R n of Some (VInt k) \<Rightarrow> length_test P R e (\<lambda>m. int m = k) | _ \<Rightarrow> False)"
  proof (cases "eval P R e")
    case None
    then show ?thesis using nn any_arg_panic[of e P R]
      by (auto simp: verdict1_simps verdict2_def Let_def length_test_def any1_def split: option.splits gval.splits)
  next
    case (Some v)
    from length_any[OF w l Some] obtain r where a: "any_arg P R e = Some (Some (r, v))" and k: "kind_of r \<in> length_kinds" by blast
    have e: "IsEmpty pt (Some (r, v)) = Some (value_len v = 0)" for pt using k by (simp add: IsEmpty.simps)
    show ?thesis unfolding verdict1_simps a length_test_def Some using k e
      by (auto simp: any1_def IsEmptyable_def verdict2_def Let_def a assertLen_def Length_def split: option.splits gval.splits)
  qed
  then show "verdict1 P R V ''Empty'' e = length_test P R e (\<lambda>n. n = 0)"
    "verdict1 P R V ''NotEmpty'' e = length_test P R e (\<lambda>n. n \<noteq> 0)"
    "verdict2 P R V ''Len'' e n = (case eval P R n of Some (VInt k) \<Rightarrow> length_test P R e (\<lambda>m. int m = k) | _ \<Rightarrow> False)"
    by blast+
qed

lemma len_call_value:
  assumes w: "well_typed P R" and c: "isLenCall e = Some x" and l: "hasLength P x"
  shows "eval P R e = map_option (\<lambda>v. VInt (int (value_len v))) (eval P R x)"
proof -
  from c have e: "e = CallExpr (Ident ''len'') [x]" by (auto simp: isLenCall_def split: expr.splits list.splits if_splits)
  have "eval P R x \<noteq> Some (VPtr p)" for p
  proof
    assume v: "eval P R x = Some (VPtr p)"
    from length_operand[OF w, of x] l obtain t where t: "\<not> isNilIdent x" "typeOf P x = Some t"
      "kind_of (runtime R t) \<in> length_kinds" by auto
    with typed_value(4)[OF w t(2,1) v] show False by (simp add: kinds_of_value_def length_kinds_def)
  qed
  then show ?thesis by (auto simp: e call_value_def isLenCall_def split: option.splits gval.splits)
qed

lemma int_literal [simp]: "isIntLit e n \<Longrightarrow> eval P R e = Some (VInt n)" if "n \<in> {0, 1}"
  using that by (auto simp: isIntLit_def isEmptyStringLit_def, code_simp+)

subsection \<open>Equality\<close>

lemma pick_simps [simp]: "pick True a b = a" "pick False a b = b"
  by (simp_all add: pick_def)

lemma mapping_simps [simp]:
  "cm_target (mapping n as d) = n" "cm_args (mapping n as d) = as" "cm_noFix (mapping n as d) = []"
  by (simp_all add: mapping_def)

lemma verdict_simps [simp]: "verdict P R V n [x] = verdict1 P R V n x" "verdict P R V n [x, y] = verdict2 P R V n x y"
  by (simp_all add: verdict_def)

lemma verdict2_equal:
  "verdict2 P R V ''Equal'' x y = any2 (DeepEqual (same_pointee (run_world R))) (equal_arg P R V y x) (equal_arg P R V x y)"
  "verdict2 P R V ''NotEqual'' x y =
     any2 (\<lambda>a b. \<not> DeepEqual (same_pointee (run_world R)) a b) (equal_arg P R V y x) (equal_arg P R V x y)"
  by (simp_all add: verdict2_def Let_def CheckEqual_def CheckNotEqual_def any2_def cong: option.case_cong)

lemma equal_arg_value [simp]: "\<not> isNilIdent e \<Longrightarrow> equal_arg P R V f e = any_arg P R e"
  by (simp add: equal_arg_def)

abbreviation equality :: "pass \<Rightarrow> run \<Rightarrow> expr \<Rightarrow> expr \<Rightarrow> bool option" where
  "equality P R l r \<equiv> equal_operands P R l r (eval P R l) (eval P R r)"

lemma positive_eq: "(if negated then isNeq else \<not> isNeq) = (isNeq = negated)"
  by auto

lemma nil_equality:
  assumes "mapNilComparison P l r negated isNeq = Some (Some m)" "well_typed P R"
  shows "verdict P R V (cm_target m) (cm_args m) = (equality P R l r = Some (isNeq = negated))"
proof -
  define e where "e = (if isNilIdent l then r else l)"
  have m: "(case nilKindOf P e of
      errorIface \<Rightarrow> Some (mapping (pick (isNeq \<noteq> negated) ''Error'' ''NoError'') [e] ''error nil check'')
    | otherIface \<Rightarrow> Some (mapping (pick (isNeq \<noteq> negated) ''NotZero'' ''Zero'') [e] ''nil check'')
    | comparableNil \<Rightarrow> Some (mapping (pick (isNeq \<noteq> negated) ''NotZero'' ''Zero'') [e] ''nil check'')
    | uncomparableNil \<Rightarrow> Some (mapping (pick (isNeq \<noteq> negated) ''NotNil'' ''Nil'') [e] ''nil check'')
    | _ \<Rightarrow> None) = Some m" and nil: "isNilIdent l \<or> isNilIdent r"
    using assms(1) unfolding mapNilComparison_def Let_def positive_eq e_def[symmetric] by (simp_all split: if_splits)
  have eq: "equality P R l r = nil_test P R e" using nil by (auto simp: equal_operands_def e_def nil_test_def)
  show ?thesis unfolding eq using m nil_verdicts[OF assms(2), of e V]
    by (cases "nilKindOf P e"; cases "isNeq = negated") auto
qed

lemma len_equality:
  assumes "mapLenEqNeq P l r negated isNeq = Some m" "well_typed P R" "checks P (cm_target m) (cm_args m)"
    and nn: "\<not> isNilIdent l" "\<not> isNilIdent r"
  shows "verdict P R V (cm_target m) (cm_args m) = (equality P R l r = Some (isNeq = negated))"
proof -
  from assms(1) obtain x n where x: "extractLenSide l r = Some (x, n)" "hasLength P x" 
    by (auto simp: mapLenEqNeq_def split: option.splits if_splits)
  then have eq: "equality P R l r = (case (eval P R x, eval P R n) of
      (Some v, Some (VInt k)) \<Rightarrow> Some (int (value_len v) = k) | _ \<Rightarrow> None)"
    if "\<forall>w. eval P R n = Some w \<longrightarrow> (\<exists>k. w = VInt k)"
    using nn len_call_value[OF assms(2) _ x(2)] that
    by (auto simp: extractLenSide_def equal_operands_def is_viface_def split: option.splits)
  show ?thesis
  proof (cases "isIntLit n 0")
    case True
    with x assms(1) have m: "cm_target m = pick (isNeq \<noteq> negated) ''NotEmpty'' ''Empty''" "cm_args m = [x]"
      by (auto simp: mapLenEqNeq_def)
    have "eval P R n = Some (VInt 0)" using int_literal[of 0] True by simp
    then have "equality P R l r = map_option (\<lambda>v. value_len v = 0) (eval P R x)"
      using eq by (auto split: option.splits)
    then show ?thesis unfolding m using length_verdicts[OF assms(2), of x V] x(2)
      by (cases "isNeq = negated") (auto simp: length_test_def split: option.splits)
  next
    case False
    with x assms(1) have m: "cm_target m = ''Len''" "cm_args m = [x, n]" "isNeq = negated"
      by (auto simp: mapLenEqNeq_def split: if_splits)
    from assms(3) obtain t where t: "typeOf P n = Some t" "kind_of t = KInt"
      by (auto simp: m checks_def checks2_def int_typed_def split: option.splits)
    have "n = l \<or> n = r" using x(1) by (auto simp: extractLenSide_def split: option.splits)
    then have nn': "\<not> isNilIdent n" using nn by auto
    have "\<forall>w. eval P R n = Some w \<longrightarrow> (\<exists>k. w = VInt k)"
    proof (intro allI impI)
      fix w assume w: "eval P R n = Some w"
      have "kind_of (runtime R t) = KInt"
        using kind_runtime[OF typed_value(2)[OF assms(2) t(1) nn' w]] t(2) by simp
      then show "\<exists>k. w = VInt k" using typed_value(4)[OF assms(2) t(1) nn' w] by auto
    qed
    then show ?thesis unfolding m using eq length_verdicts(3)[OF assms(2), of x V n] x(2)
      by (auto simp: length_test_def m(3) split: option.splits gval.splits)
  qed
qed

lemma string_equality:
  assumes "mapEmptyStrEqNeq P l r negated isNeq = Some m" "well_typed P R"
    and nn: "\<not> isNilIdent l" "\<not> isNilIdent r"
  shows "verdict P R V (cm_target m) (cm_args m) = (equality P R l r = Some (isNeq = negated))"
proof -
  from assms(1) obtain e where e: "isStringType P e" and lr: "(isEmptyStringLit l \<and> r = e) \<or> (isEmptyStringLit r \<and> l = e)"
    and m: "cm_target m = pick (isNeq \<noteq> negated) ''NotEmpty'' ''Empty''" "cm_args m = [e]"
    by (auto simp: mapEmptyStrEqNeq_def split: if_splits)
  have str: "\<exists>s. v = VString s" if "eval P R e = Some v" for v
  proof -
    from length_operand[OF assms(2), of e] e obtain t where t: "\<not> isNilIdent e" "typeOf P e = Some t" by auto
    from e t obtain b where b: "underlying t = Basic b" "is_string b" by (auto simp: isStringType_def split: gotype.splits)
    then have "kind_of t = KString" by (simp add: kind_string)
    then have "kind_of (runtime R t) = KString"
      using kind_runtime[OF typed_value(2)[OF assms(2) t(2,1) that]] by simp
    then show ?thesis using typed_value(4)[OF assms(2) t(2,1) that] by auto
  qed
  have lit: "isEmptyStringLit x \<Longrightarrow> eval P R x = Some (VString [])" for x
    by (auto simp: isEmptyStringLit_def)
  have "equality P R l r = map_option (\<lambda>v. value_len v = 0) (eval P R e)"
    using lr lit nn str by (auto simp: equal_operands_def is_viface_def split: option.splits)
  then show ?thesis unfolding m using length_verdicts[OF assms(2), of e V] e
    by (cases "isNeq = negated") (auto simp: length_test_def split: option.splits)
qed

lemma convertToAny_arg:
  "isNilIdent (convertToAny P e) = (isNilIdent e \<and> isUntypedConstExpr P e)"
  "any_arg P R (convertToAny P e) = any_arg P R e"
proof -
  show "isNilIdent (convertToAny P e) = (isNilIdent e \<and> isUntypedConstExpr P e)"
    by (auto simp: convertToAny_def isNilIdent_def)
  have "eval P R (CallExpr (Ident ''any'') [e]) = map_option VIface (any_arg P R e)"
    by (simp add: call_value_def isLenCall_def isStringsContains_def isErrorsIs_def isReflectDeepEqual_def
        isRegexpMatchString_def pkgCall_def any_arg_def)
  then show "any_arg P R (convertToAny P e) = any_arg P R e"
    by (auto simp: convertToAny_def any_arg_def[of P R "CallExpr f args" for f args] to_any_def isNilIdent_def split: option.splits)
qed

lemma bridge:
  assumes "one_type Ts" "list_all plain Ts" "has_type Ts s (VIface i)"
    and r: "r \<in> set Ts" "\<not> reachesPointer t" "instance_of t r" "has_type Ts r w"
  shows "go_eq (VIface i) (VIface (Some (r, w))) = Some (DeepEqual D i (Some (r, w)))"
    "go_eq (VIface (Some (r, w))) (VIface i) = Some (DeepEqual D (Some (r, w)) i)"
    "DeepEqual D (Some (r, w)) i = DeepEqual D i (Some (r, w))"
proof -
  have plain: "plain r" using assms(2) r(1) by (auto simp: list_all_iff)
  have fw: "flat w" by (rule no_pointer_flat[OF r(2-4)])
  have c: "Comparable r" by (rule no_pointer_comparable[OF r(2,3) plain])
  have "go_eq (VIface i) (VIface (Some (r, w))) = Some (DeepEqual D i (Some (r, w))) \<and>
     go_eq (VIface (Some (r, w))) (VIface i) = Some (DeepEqual D (Some (r, w)) i) \<and>
     DeepEqual D (Some (r, w)) i = DeepEqual D i (Some (r, w))"
  proof (cases i)
    case (Some tx)
    obtain u x where i: "i = Some (u, x)" using Some by (cases tx) auto
    then have u: "u \<in> set Ts" "has_type Ts u x" using assms(3) by auto
    show ?thesis
    proof (cases "Identical u r")
      case True
      then have ur: "u = r" using one_typeD[OF assms(1) u(1) r(1)] by simp
      have fx: "flat x" using no_pointer_flat[OF r(2,3)] u(2) ur by simp
      have "go_eq x w = Some (deep_equal D x w)" "go_eq w x = Some (deep_equal D w x)"
        using flat_eq(1)[OF _ _ plain] u(2) ur r(4) fx fw by auto
      then show ?thesis using c flat_sym[OF fw, of D x] by (simp add: i ur)
    next
      case False
      then have "\<not> Identical r u" using Identical_sym by blast
      with False show ?thesis by (simp add: i)
    qed
  qed simp
  then show "go_eq (VIface i) (VIface (Some (r, w))) = Some (DeepEqual D i (Some (r, w)))"
    "go_eq (VIface (Some (r, w))) (VIface i) = Some (DeepEqual D (Some (r, w)) i)"
    "DeepEqual D (Some (r, w)) i = DeepEqual D i (Some (r, w))" by blast+
qed
lemma any_interface:
  assumes "well_typed P R" "typeOf P e = Some t" "\<not> isNilIdent e" "isAnyInterface t" "eval P R e = Some v"
  shows "\<exists>i. v = VIface i"
proof -
  obtain x where x: "unalias t = x" by blast
  have "\<exists>ms es. CoreType t = Some (Interface ms es)"
    using assms(4) unfolding isAnyInterface_def CoreType_def x by (cases x) auto
  then show ?thesis using core_value[OF assms(1-3)] typed_value(4)[OF assms(1-3,5)] by auto
qed

text \<open>The pairs of operands \<open>mapEquality\<close> accepts, and what \<open>==\<close> says of them.\<close>

lemma pointer_pair:
  assumes w: "well_typed P R" and l: "typeOf P l = Some s" "\<not> isNilIdent l" "isPointerType s" "eval P R l = Some v"
  shows "\<exists>p. v = VPtr p"
proof -
  from l(3) obtain u where "CoreType s = Some (Pointer u)" by (auto simp: isPointerType_def split: option.splits gotype.splits)
  then show ?thesis using core_value[OF w l(1,2)] typed_value(4)[OF w l(1,2,4)] by auto
qed

lemma flat_pair:
  assumes w: "well_typed P R" and pl: "list_all plain (run_types R)"
    and l: "typeOf P l = Some s" "\<not> isNilIdent l" "eval P R l = Some v"
    and r: "typeOf P r = Some t" "\<not> isNilIdent r" "eval P R r = Some u"
    and c: "Identical s t" "\<not> reachesPointer s"
  shows "equality P R l r = Some (DeepEqual D (Some (runtime R s, v)) (Some (runtime R t, u)))"
    "equality P R r l = equality P R l r"
    "any_arg P R l = Some (Some (runtime R s, v))" "any_arg P R r = Some (Some (runtime R t, u))"
proof -
  have same: "runtime R s = runtime R t" using w l(1) r(1) c(1) unfolding well_typed_def by blast
  note lt = typed_value[OF w l] note rt = typed_value[OF w r]
  have f: "flat v" "flat u" using no_pointer_flat[OF c(2) lt(2,1)] no_pointer_flat[OF c(2) lt(2)] rt(1) same by auto
  then have nv: "\<not> is_viface v" "\<not> is_viface u" by (auto simp: is_viface_def split: gval.splits)
  have plain: "plain (runtime R s)" using pl lt(3) by (auto simp: list_all_iff)
  have g: "go_eq v u = Some (deep_equal D v u)" "go_eq u v = Some (deep_equal D u v)" for D
    using flat_eq(1) lt(1) rt(1) same plain f by auto
  show "equality P R l r = Some (DeepEqual D (Some (runtime R s, v)) (Some (runtime R t, u)))"
    using l r nv g(1) same by (simp add: equal_operands_def)
  show "equality P R r l = equality P R l r"
    using l r nv g flat_sym[OF f(1)] by (simp add: equal_operands_def)
  show "any_arg P R l = Some (Some (runtime R s, v))" "any_arg P R r = Some (Some (runtime R t, u))"
    using any_arg_value[OF l(2,1,3)] any_arg_value[OF r(2,1,3)] f by (auto split: gval.splits)
qed

lemma bridge_pair:
  assumes w: "well_typed P R" and pl: "list_all plain (run_types R)"
    and l: "typeOf P l = Some s" "\<not> isNilIdent l" "eval P R l = Some v" "isAnyInterface s"
    and r: "typeOf P r = Some t" "\<not> isNilIdent r" "eval P R r = Some u" "bridgesToAny t"
  shows "\<exists>i. any_arg P R l = Some i \<and> any_arg P R r = Some (Some (runtime R t, u)) \<and>
    equality P R l r = Some (DeepEqual D i (Some (runtime R t, u))) \<and> equality P R r l = equality P R l r \<and>
    DeepEqual D (Some (runtime R t, u)) i = DeepEqual D i (Some (runtime R t, u))"
proof -
  from any_interface[OF w l(1,2,4,3)] obtain i where v: "v = VIface i" by blast
  have np: "\<not> reachesPointer t" using r(4) by (simp add: bridgesToAny_def)
  note lt = typed_value[OF w l(1-3)] note rt = typed_value[OF w r(1-3)]
  have fu: "flat u" by (rule no_pointer_flat[OF np rt(2,1)])
  have lift: "lift_iface P R r u = VIface (Some (runtime R t, u))"
    using fu r(1) by (cases u) (auto simp: lift_iface_def)
  have nu: "\<not> is_viface u" using fu by (auto simp: is_viface_def split: gval.splits)
  have one: "one_type (run_types R)" using w by (simp add: well_typed_def)
  note b = bridge[OF one pl lt(1)[unfolded v] rt(3) np rt(2,1), of D]
  have "any_arg P R r = Some (Some (runtime R t, u))"
    using any_arg_value[OF r(2,1,3)] fu by (auto split: gval.splits)
  moreover have "any_arg P R l = Some i" using any_arg_value[OF l(2,1,3)] v by simp
  moreover have "equality P R l r = Some (DeepEqual D i (Some (runtime R t, u)))"
    "equality P R r l = Some (DeepEqual D (Some (runtime R t, u)) i)"
    using b(1,2) lift nu l(2,3) r(2,3) by (simp_all add: equal_operands_def v is_viface_def lift_iface_def)
  ultimately show ?thesis using b(3) by simp
qed

lemma any2_Some [simp]: "any2 f (Some a) (Some b) = f a b"
  by (simp add: any2_def)

lemma any2_None [simp]: "any2 f None b = False" "any2 f a None = False"
  by (simp_all add: any2_def split: option.splits)

lemma equality_panic: "\<not> isNilIdent l \<Longrightarrow> \<not> isNilIdent r \<Longrightarrow> eval P R l = None \<or> eval P R r = None \<Longrightarrow> equality P R l r = None"
  by (auto simp: equal_operands_def split: option.splits)

lemma equal_pair:
  assumes "\<not> isNilIdent x" "\<not> isNilIdent y" "\<not> isNilIdent x'" "\<not> isNilIdent y'"
    and "any_arg P R x' = any_arg P R x" "any_arg P R y' = any_arg P R y"
    and "eval P R x = None \<or> eval P R y = None \<longrightarrow> any_arg P R x = None \<or> any_arg P R y = None"
    and "\<And>v u. eval P R x = Some v \<Longrightarrow> eval P R y = Some u \<Longrightarrow> \<exists>a b. any_arg P R x = Some a \<and> any_arg P R y = Some b \<and>
      eq = Some (DeepEqual (same_pointee (run_world R)) a b)"
    and "eval P R x = None \<or> eval P R y = None \<Longrightarrow> eq = None"
  shows "verdict2 P R V (pick b ''Equal'' ''NotEqual'') x' y' = (eq = Some b)"
proof (cases "eval P R x = None \<or> eval P R y = None")
  case True
  then have "any_arg P R x = None \<or> any_arg P R y = None" "eq = None" using assms(7,9) by auto
  then show ?thesis using assms(3-6) by (cases b) (auto simp: verdict2_equal)
next
  case False
  then obtain v u where "eval P R x = Some v" "eval P R y = Some u" by auto
  from assms(8)[OF this] obtain a c where "any_arg P R x = Some a" "any_arg P R y = Some c"
    "eq = Some (DeepEqual (same_pointee (run_world R)) a c)" by blast
  then show ?thesis using assms(3-6) by (cases b) (auto simp: verdict2_equal)
qed
lemma same_panic:
  assumes "eval P R x = None \<or> eval P R y = None"
  shows "\<not> verdict2 P R V ''Same'' x y" "\<not> verdict2 P R V ''NotSame'' x y"
proof -
  have "(case (eval P R x, eval P R y) of (Some (VPtr p), Some (VPtr q)) \<Rightarrow> f p q | _ \<Rightarrow> False) = False" for f
    using assms by (cases "eval P R x"; simp) (simp split: gval.splits)
  then show "\<not> verdict2 P R V ''Same'' x y" "\<not> verdict2 P R V ''NotSame'' x y"
    by (simp_all add: verdict2_def Let_def)
qed

lemma equality_sound:
  assumes m: "mapEquality P l0 r0 negated isNeq = Some m" "cm_noFix m = []"
    and w: "well_typed P R" and pl: "list_all plain (run_types R)"
    and nn0: "\<not> isNilIdent l0" "\<not> isNilIdent r0"
  shows "verdict P R V (cm_target m) (cm_args m) = (equality P R l0 r0 = Some (isNeq = negated))"
proof -
  obtain l r where lr: "constFirst P l0 r0 = (l, r)" by (cases "constFirst P l0 r0")
  then have sides: "(l = l0 \<and> r = r0) \<or> (l = r0 \<and> r = l0)" by (auto simp: constFirst_def split: if_splits)
  with nn0 have nn: "\<not> isNilIdent l" "\<not> isNilIdent r" by auto
  from m lr obtain s t where st: "typeOf P l = Some s" "typeOf P r = Some t"
    by (auto simp: mapEquality_def split: option.splits)
  define b where "b \<longleftrightarrow> isNeq = negated"
  have goal: "verdict P R V (cm_target m) (cm_args m) = (eq = Some b) \<Longrightarrow> eq = equality P R l r \<Longrightarrow>
      equality P R r l = equality P R l r \<Longrightarrow> ?thesis" for eq
    using sides by (auto simp: b_def)
  have panic: "eval P R l = None \<or> eval P R r = None \<Longrightarrow> equality P R l r = None"
    "eval P R l = None \<or> eval P R r = None \<Longrightarrow> equality P R r l = None"
    using equality_panic nn by auto
  have np: "eval P R l = None \<or> eval P R r = None \<longrightarrow> any_arg P R l = None \<or> any_arg P R r = None"
    using any_arg_panic nn by auto
  consider (ptr) "isPointerType s" "isPointerType t" "cm_target m = pick b ''Same'' ''NotSame''" "cm_args m = [l, r]"
    | (flat) "Identical s t" "\<not> reachesPointer s" "cm_target m = pick b ''Equal'' ''NotEqual''" "cm_args m = [l, r]"
    | (left) "isAnyInterface s" "bridgesToAny t" "cm_target m = pick b ''Equal'' ''NotEqual''" "cm_args m = [l, convertToAny P r]"
    | (right) "isAnyInterface t" "bridgesToAny s" "cm_target m = pick b ''Equal'' ''NotEqual''" "cm_args m = [convertToAny P l, r]"
    using m st lr by (auto simp: mapEquality_def b_def Let_def split: if_splits)
  then show ?thesis
  proof cases
    case ptr
    have shape: "\<exists>p q. v = VPtr p \<and> u = VPtr q" if "eval P R l = Some v" "eval P R r = Some u" for v u
      using pointer_pair[OF w st(1) nn(1) ptr(1) that(1)] pointer_pair[OF w st(2) nn(2) ptr(2) that(2)] by blast
    have "verdict P R V (cm_target m) (cm_args m) = (equality P R l r = Some b) \<and> equality P R r l = equality P R l r"
    proof (cases "eval P R l = None \<or> eval P R r = None")
      case True
      then show ?thesis using panic same_panic unfolding ptr(3,4) by (cases b) auto
    next
      case False
      then obtain v u where vu: "eval P R l = Some v" "eval P R r = Some u" by auto
      with shape[OF vu] obtain p q where "eval P R l = Some (VPtr p)" "eval P R r = Some (VPtr q)" by auto
      then show ?thesis using nn unfolding ptr(3,4)
        by (cases b) (auto simp: verdict2_def Let_def equal_operands_def is_viface_def assertSame_def assertNotSame_def)
    qed
    then show ?thesis by (intro goal) simp_all
  next
    case flat
    note fp = flat_pair[OF w pl st(1) nn(1) _ st(2) nn(2) _ flat(1,2)]
    have "verdict P R V (cm_target m) (cm_args m) = (equality P R l r = Some b)"
      unfolding flat(3,4) verdict_simps
      by (rule equal_pair[OF nn nn refl refl np]) (use fp panic in blast)+
    moreover have "equality P R r l = equality P R l r"
      using fp(2) panic by (cases "eval P R l"; cases "eval P R r") auto
    ultimately show ?thesis by (intro goal) simp_all
  next
    case left
    note bp = bridge_pair[OF w pl st(1) nn(1) _ left(1) st(2) nn(2) _ left(2)]
    have cn: "\<not> isNilIdent (convertToAny P r)" using nn by (simp add: convertToAny_arg)
    have "verdict P R V (cm_target m) (cm_args m) = (equality P R l r = Some b)"
      unfolding left(3,4) verdict_simps
      by (rule equal_pair[OF nn nn(1) cn refl convertToAny_arg(2) np]) (use bp panic in blast)+
    moreover have "equality P R r l = equality P R l r"
      using bp panic by (cases "eval P R l"; cases "eval P R r") auto
    ultimately show ?thesis by (intro goal) simp_all
  next
    case right
    note bp = bridge_pair[OF w pl st(2) nn(2) _ right(1) st(1) nn(1) _ right(2)]
    have cn: "\<not> isNilIdent (convertToAny P l)" using nn by (simp add: convertToAny_arg)
    have "verdict P R V (cm_target m) (cm_args m) = (equality P R l r = Some b)"
      unfolding right(3,4) verdict_simps
    proof (rule equal_pair[OF nn cn nn(2) convertToAny_arg(2) refl np])
      fix v u assume "eval P R l = Some v" "eval P R r = Some u"
      from bp[OF this(2,1), of "same_pointee (run_world R)"]
      show "\<exists>a b. any_arg P R l = Some a \<and> any_arg P R r = Some b \<and>
        equality P R l r = Some (DeepEqual (same_pointee (run_world R)) a b)" by auto
    qed (use panic in blast)
    moreover have "equality P R r l = equality P R l r"
      using bp panic by (cases "eval P R l"; cases "eval P R r") fastforce+
    ultimately show ?thesis by (intro goal) simp_all
  qed
qed

lemma eq_neq_sound:
  assumes m: "mapEqNeq P l r negated isNeq = Some m" "cm_noFix m = []" "checks P (cm_target m) (cm_args m)"
    and w: "well_typed P R" and pl: "list_all plain (run_types R)"
  shows "verdict P R V (cm_target m) (cm_args m) = (equality P R l r = Some (isNeq = negated))"
proof (cases "mapNilComparison P l r negated isNeq")
  case (Some x)
  with m(1) have "mapNilComparison P l r negated isNeq = Some (Some m)" by (simp add: mapEqNeq_def)
  then show ?thesis by (rule nil_equality[OF _ w])
next
  case None
  then have nn: "\<not> isNilIdent l" "\<not> isNilIdent r" by (auto simp: mapNilComparison_def Let_def split: if_splits)
  from None m(1) consider "mapLenEqNeq P l r negated isNeq = Some m" | "mapEmptyStrEqNeq P l r negated isNeq = Some m"
    | "mapEquality P l r negated isNeq = Some m"
    by (auto simp: mapEqNeq_def split: option.splits)
  then show ?thesis
    by cases (use len_equality[OF _ w m(3) nn] string_equality[OF _ w nn] equality_sound[OF _ m(2) w pl nn] in blast)+
qed

subsection \<open>Orderings and calls\<close>

lemma nil_no_value: "well_typed P R \<Longrightarrow> eval P R (Ident ''nil'') = None"
  unfolding well_typed_def by blast

definition not_float :: "gval \<Rightarrow> bool" where
  "not_float v = (case v of VFloat x \<Rightarrow> False | _ \<Rightarrow> True)"

lemma three_way [simp]:
  "0 < three_way a b \<longleftrightarrow> \<not> a \<and> b" "0 \<le> three_way a b \<longleftrightarrow> \<not> a" "three_way a b < 0 \<longleftrightarrow> a" "three_way a b \<le> 0 \<longleftrightarrow> a \<or> \<not> b"
  by (auto simp: three_way_def)

lemma order_checks:
  "order_check n ws f W t v w = [] \<longleftrightarrow> f (cmpCompare v w)" if "n \<noteq> []"
  using that by (simp add: order_check_def)

lemma order_pairs:
  assumes "not_float v"
  shows "ordered_values v w \<and> cmpCompare v w > 0 \<longleftrightarrow> go_less w v = Some True"
    "ordered_values v w \<and> cmpCompare v w \<le> 0 \<longleftrightarrow> go_less w v = Some False"
    "ordered_values v w \<and> cmpCompare v w \<ge> 0 \<longleftrightarrow> go_leq w v = Some True"
    "ordered_values v w \<and> cmpCompare v w < 0 \<longleftrightarrow> go_leq w v = Some False"
    "ordered_values v w \<and> cmpCompare v w < 0 \<longleftrightarrow> go_less v w = Some True"
    "ordered_values v w \<and> cmpCompare v w \<ge> 0 \<longleftrightarrow> go_less v w = Some False"
    "ordered_values v w \<and> cmpCompare v w \<le> 0 \<longleftrightarrow> go_leq v w = Some True"
    "ordered_values v w \<and> cmpCompare v w > 0 \<longleftrightarrow> go_leq v w = Some False"
proof -
  have "(\<exists>a b. v = VInt a \<and> w = VInt b) \<or> (\<exists>a b. v = VString a \<and> w = VString b) \<or>
    (go_less v w = None \<and> go_less w v = None \<and> go_leq v w = None \<and> go_leq w v = None)"
    using assms unfolding go_less_def go_leq_def prod.case
    by (cases v) (simp_all only: gval.case not_float_def, (cases w; simp)+)
  then have "(ordered_values v w \<and> cmpCompare v w > 0 \<longleftrightarrow> go_less w v = Some True) \<and>
    (ordered_values v w \<and> cmpCompare v w \<le> 0 \<longleftrightarrow> go_less w v = Some False) \<and>
    (ordered_values v w \<and> cmpCompare v w \<ge> 0 \<longleftrightarrow> go_leq w v = Some True) \<and>
    (ordered_values v w \<and> cmpCompare v w < 0 \<longleftrightarrow> go_leq w v = Some False) \<and>
    (ordered_values v w \<and> cmpCompare v w < 0 \<longleftrightarrow> go_less v w = Some True) \<and>
    (ordered_values v w \<and> cmpCompare v w \<ge> 0 \<longleftrightarrow> go_less v w = Some False) \<and>
    (ordered_values v w \<and> cmpCompare v w \<le> 0 \<longleftrightarrow> go_leq v w = Some True) \<and>
    (ordered_values v w \<and> cmpCompare v w > 0 \<longleftrightarrow> go_leq v w = Some False)"
    by (elim disjE exE conjE) (auto simp: ordered_values_def go_less_def go_leq_def cmpCompare_def)
  then show
    "ordered_values v w \<and> cmpCompare v w > 0 \<longleftrightarrow> go_less w v = Some True"
    "ordered_values v w \<and> cmpCompare v w \<le> 0 \<longleftrightarrow> go_less w v = Some False"
    "ordered_values v w \<and> cmpCompare v w \<ge> 0 \<longleftrightarrow> go_leq w v = Some True"
    "ordered_values v w \<and> cmpCompare v w < 0 \<longleftrightarrow> go_leq w v = Some False"
    "ordered_values v w \<and> cmpCompare v w < 0 \<longleftrightarrow> go_less v w = Some True"
    "ordered_values v w \<and> cmpCompare v w \<ge> 0 \<longleftrightarrow> go_less v w = Some False"
    "ordered_values v w \<and> cmpCompare v w \<le> 0 \<longleftrightarrow> go_leq v w = Some True"
    "ordered_values v w \<and> cmpCompare v w > 0 \<longleftrightarrow> go_leq v w = Some False"
    by blast+
qed

lemma no_float_value:
  assumes w: "well_typed P R" and f: "\<not> mayBeFloat P e"
  shows "\<exists>t. typeOf P e = Some t" "eval P R e = Some v \<Longrightarrow> not_float v"
proof -
  from f obtain t b where t: "typeOf P e = Some t" "CoreType t = Some (Basic b)" "\<not> is_float b"
    by (auto simp: mayBeFloat_def split: option.splits gotype.splits)
  then show "\<exists>t. typeOf P e = Some t" by blast
  show "eval P R e = Some v \<Longrightarrow> not_float v"
  proof -
    assume v: "eval P R e = Some v"
    have nn: "\<not> isNilIdent e" using nil_no_value[OF w] v by (auto simp: isNilIdent_def)
    have "kind_of (Basic b) \<noteq> KFloat" using t(3) by (cases b) (auto simp: kind_of_def is_float_def)
    then show "not_float v"
      using core_value[OF w t(1) nn t(2)] typed_value(4)[OF w t(1) nn v]
      by (cases v) (auto simp: not_float_def kinds_of_value_def)
  qed
qed

lemma order_verdicts:
  assumes w: "well_typed P R" and f: "\<not> mayBeFloat P x"
  shows "verdict2 P R V ''Greater'' x y = (both_values go_less (eval P R y) (eval P R x) = Some True)"
    "verdict2 P R V ''LessOrEqual'' x y = (both_values go_less (eval P R y) (eval P R x) = Some False)"
    "verdict2 P R V ''GreaterOrEqual'' x y = (both_values go_leq (eval P R y) (eval P R x) = Some True)"
    "verdict2 P R V ''Less'' x y = (both_values go_leq (eval P R y) (eval P R x) = Some False)"
    "verdict2 P R V ''Less'' x y = (both_values go_less (eval P R x) (eval P R y) = Some True)"
    "verdict2 P R V ''GreaterOrEqual'' x y = (both_values go_less (eval P R x) (eval P R y) = Some False)"
    "verdict2 P R V ''LessOrEqual'' x y = (both_values go_leq (eval P R x) (eval P R y) = Some True)"
    "verdict2 P R V ''Greater'' x y = (both_values go_leq (eval P R x) (eval P R y) = Some False)"
proof -
  from no_float_value(1)[OF w f] obtain t where t: "typeOf P x = Some t" by blast
  have v: "verdict2 P R V ''Greater'' x y = order_verdict P R assertGreater x y"
    "verdict2 P R V ''GreaterOrEqual'' x y = order_verdict P R assertGreaterOrEqual x y"
    "verdict2 P R V ''Less'' x y = order_verdict P R assertLess x y"
    "verdict2 P R V ''LessOrEqual'' x y = order_verdict P R assertLessOrEqual x y"
    by (simp_all add: verdict2_def Let_def)
  have o: "order_verdict P R (order_check n ws f) x y =
      (case (eval P R x, eval P R y) of (Some v, Some u) \<Rightarrow> ordered_values v u \<and> f (cmpCompare v u) | _ \<Rightarrow> False)"
    if "n \<noteq> []" for n ws f
    using t that by (simp add: order_verdict_def typed1_def order_checks split: option.splits)
  show "verdict2 P R V ''Greater'' x y = (both_values go_less (eval P R y) (eval P R x) = Some True)"
    "verdict2 P R V ''LessOrEqual'' x y = (both_values go_less (eval P R y) (eval P R x) = Some False)"
    "verdict2 P R V ''GreaterOrEqual'' x y = (both_values go_leq (eval P R y) (eval P R x) = Some True)"
    "verdict2 P R V ''Less'' x y = (both_values go_leq (eval P R y) (eval P R x) = Some False)"
    "verdict2 P R V ''Less'' x y = (both_values go_less (eval P R x) (eval P R y) = Some True)"
    "verdict2 P R V ''GreaterOrEqual'' x y = (both_values go_less (eval P R x) (eval P R y) = Some False)"
    "verdict2 P R V ''LessOrEqual'' x y = (both_values go_leq (eval P R x) (eval P R y) = Some True)"
    "verdict2 P R V ''Greater'' x y = (both_values go_leq (eval P R x) (eval P R y) = Some False)"
    unfolding v assertGreater_def assertGreaterOrEqual_def assertLess_def assertLessOrEqual_def CheckGreater_def
      CheckGreaterOrEqual_def CheckLess_def CheckLessOrEqual_def
    using no_float_value(2)[OF w f] order_pairs
    by (simp_all add: o both_values_def split: option.splits)
qed
lemma string_operand:
  assumes w: "well_typed P R" and s: "string_typed P e" and v: "eval P R e = Some v"
  shows "\<exists>u r. v = VString u \<and> any_arg P R e = Some (Some (r, VString u)) \<and> kind_of r = KString"
proof -
  from s obtain t where t: "typeOf P e = Some t" "kind_of t = KString" by (auto simp: string_typed_def split: option.splits)
  have nn: "\<not> isNilIdent e" using nil_typed[OF w _ t(1)] t(2) by auto
  have k: "kind_of (runtime R t) = KString" using kind_runtime[OF typed_value(2)[OF w t(1) nn v]] t(2) by simp
  then obtain u where "v = VString u" using typed_value(4)[OF w t(1) nn v] by auto
  then show ?thesis using any_arg_value[OF nn t(1) v] k by auto
qed

lemma string_not_nil: "well_typed P R \<Longrightarrow> string_typed P e \<Longrightarrow> \<not> isNilIdent e"
  using nil_typed by (fastforce simp: string_typed_def split: option.splits)

lemma includes_string:
  assumes "kind_of r = KString" "kind_of q = KString"
  shows "IncludesElement W (Some (r, VString a)) (Some (q, VString b)) = (str_contains a b, [])"
  using assms kind_string[of r] by (auto simp: IncludesElement_def)

lemma string_pair_None: "va = None \<or> vb = None \<Longrightarrow> string_pair f va vb = None"
  by (cases va; simp add: string_pair_def) (simp split: gval.splits)

lemma contains_verdicts:
  assumes w: "well_typed P R" and a: "string_typed P a" and b: "string_typed P b"
  shows "verdict2 P R V ''Contains'' a b = (string_pair str_contains (eval P R a) (eval P R b) = Some (VBool True))"
    "verdict2 P R V ''NotContains'' a b = (string_pair str_contains (eval P R a) (eval P R b) = Some (VBool False))"
proof -
  have "verdict2 P R V ''Contains'' a b = (string_pair str_contains (eval P R a) (eval P R b) = Some (VBool True)) \<and>
    verdict2 P R V ''NotContains'' a b = (string_pair str_contains (eval P R a) (eval P R b) = Some (VBool False))"
  proof (cases "eval P R a = None \<or> eval P R b = None")
    case True
    then have n: "any_arg P R a = None \<or> any_arg P R b = None" "string_pair str_contains (eval P R a) (eval P R b) = None"
      subgoal using True any_arg_panic[OF string_not_nil[OF w a]] any_arg_panic[OF string_not_nil[OF w b]] by auto
      subgoal by (rule string_pair_None[OF True])
      done
    have "verdict2 P R V ''Contains'' a b = any2 (\<lambda>e f. assertContains (run_world R) e f = []) (any_arg P R a) (any_arg P R b)"
      "verdict2 P R V ''NotContains'' a b = any2 (\<lambda>e f. assertNotContains (run_world R) e f = []) (any_arg P R a) (any_arg P R b)"
      by (simp_all add: verdict2_def Let_def)
    then show ?thesis using n by auto
  next
    case False
    then obtain v u where vu: "eval P R a = Some v" "eval P R b = Some u" by auto
    from string_operand[OF w a vu(1)] string_operand[OF w b vu(2)] obtain x y r q where
      "v = VString x" "u = VString y" "any_arg P R a = Some (Some (r, VString x))" "any_arg P R b = Some (Some (q, VString y))"
      "kind_of r = KString" "kind_of q = KString" by blast
    then show ?thesis
      by (simp add: verdict2_def Let_def vu string_pair_def includes_string assertContains_def assertNotContains_def)
  qed
  then show "verdict2 P R V ''Contains'' a b = (string_pair str_contains (eval P R a) (eval P R b) = Some (VBool True))"
    "verdict2 P R V ''NotContains'' a b = (string_pair str_contains (eval P R a) (eval P R b) = Some (VBool False))"
    by blast+
qed

lemma pkgCall_form:
  "pkgCall P e path name n = Some args \<Longrightarrow> \<exists>x. e = CallExpr (SelectorExpr x name) args \<and> length args = n"
  by (auto simp: pkgCall_def split: expr.splits if_splits)

lemma untyped_nil_operand:
  assumes w: "well_typed P R" and pl: "list_all plain (run_types R)" and t: "typeOf P e = Some t" "Identical (Basic UntypedNil) t"
  shows "isNilIdent e"
proof (rule ccontr)
  assume nn: "\<not> isNilIdent e"
  obtain x where x: "unalias t = x" by blast
  have "canon (unalias t) = canon t" by (induction t rule: unalias.induct) auto
  then have "canon x = Basic UntypedNil" using t(2) by (simp add: Identical_def x)
  moreover have "unalias t \<noteq> Alias n u" for n u by (induction t rule: unalias.induct) auto
  ultimately have xb: "x = Basic UntypedNil" using x by (cases x) auto
  have r: "instance_of t (runtime R t)" "runtime R t \<in> set (run_types R)"
    using w t(1) nn unfolding well_typed_def by blast+
  then have "underlying (runtime R t) = Basic UntypedNil" unfolding instance_of_def x xb by simp
  moreover have "plain (runtime R t)" using pl r(2) by (auto simp: list_all_iff)
  ultimately show False using plain_underlying[of "runtime R t"] by simp
qed
lemma equal_deep:
  assumes w: "well_typed P R" and pl: "list_all plain (run_types R)"
    and u: "unifyEqualOperands P a b = Some (x, y)" and nn: "\<not> (isNilIdent x \<and> isNilIdent y)"
  shows "equal_arg P R None y x = any_arg P R a" "equal_arg P R None x y = any_arg P R b"
proof -
  from u obtain s t where st: "typeOf P a = Some s" "typeOf P b = Some t"
    by (auto simp: unifyEqualOperands_def split: option.splits)
  have nil: "isAnyInterface t' \<Longrightarrow> typeOf P e = Some t' \<Longrightarrow>
      \<not> isNilIdent e \<and> as_any (runtime R t') (nil_value (runtime R t')) = None" for e t'
  proof -
    assume a: "isAnyInterface t'" "typeOf P e = Some t'"
    have e: "\<not> isNilIdent e" using nil_typed[OF w _ a(2)] a(1) by (auto simp: isAnyInterface_def)
    obtain v where v: "unalias t' = v" by blast
    have "\<exists>ms es. CoreType t' = Some (Interface ms es)"
      using a(1) unfolding isAnyInterface_def CoreType_def v by (cases v) auto
    then have "kind_of (runtime R t') = KInterface" using core_value[OF w a(2) e] by auto
    then show ?thesis using e by (simp add: nil_value_def as_any_def)
  qed
  have any_nil: "isNilIdent e \<Longrightarrow> any_arg P R e = Some None" for e by (simp add: any_arg_def to_any_def)
  consider (same) "Identical s t" "x = a" "y = b" | (left) "isAnyInterface s" "x = a" "y = convertToAny P b"
    | (right) "isAnyInterface t" "x = convertToAny P a" "y = b"
    using u st by (auto simp: unifyEqualOperands_def split: if_splits)
  then have "equal_arg P R None y x = any_arg P R a \<and> equal_arg P R None x y = any_arg P R b"
  proof cases
    case same
    have "\<not> isNilIdent a \<and> \<not> isNilIdent b"
    proof (rule ccontr)
      assume "\<not> ?thesis"
      then have "isNilIdent a \<or> isNilIdent b" by blast
      then have "isNilIdent a \<and> isNilIdent b"
        using nil_typed[OF w _ st(1)] nil_typed[OF w _ st(2)] untyped_nil_operand[OF w pl st(2)]
          untyped_nil_operand[OF w pl st(1)] same(1) Identical_sym by blast
      with nn same show False by simp
    qed
    then show ?thesis using same by simp
  next
    case left
    note n = nil[OF left(1) st(1)]
    show ?thesis using n left any_nil[of b] st
      by (auto simp: convertToAny_arg equal_arg_def[of P R None a "convertToAny P b"])
  next
    case right
    note n = nil[OF right(1) st(2)]
    show ?thesis using n right any_nil[of a] st
      by (auto simp: convertToAny_arg equal_arg_def[of P R None b "convertToAny P a"])
  qed
  then show "equal_arg P R None y x = any_arg P R a" "equal_arg P R None x y = any_arg P R b" by blast+
qed

lemma any_pair_verdict:
  "any2 f a b = (any_pair f a b = Some (VBool True))" "any2 (\<lambda>x y. \<not> f x y) a b = (any_pair f a b = Some (VBool False))"
  by (cases a; cases b; simp add: any_pair_def)+

lemma any_pair_not [simp]: "(any_pair (\<lambda>x y. \<not> f x y) a b = Some (VBool True)) = (any_pair f a b = Some (VBool False))"
  by (cases a; cases b; simp add: any_pair_def)

lemma regexp_verdict:
  assumes w: "well_typed P R" and t: "namedPtrType (typeOf P x) p n"
  shows "verdict2 P R V ''Regexp'' x s = ((case (eval P R x, eval P R s) of
      (Some (VPtr (Some re)), Some (VString u)) \<Rightarrow> Some (VBool (regexp_match (run_world R) re u)) | _ \<Rightarrow> None) = Some (VBool True))"
proof (cases "eval P R x")
  case None
  then show ?thesis by (simp add: verdict2_def Let_def)
next
  case (Some v)
  from t obtain ty e where ty: "typeOf P x = Some ty" "unalias ty = Pointer e"
    by (cases "typeOf P x") (auto simp: namedPtrType_def split: gotype.splits)
  then have c: "CoreType ty = Some (Pointer e)" by (simp add: CoreType_def)
  have nn: "\<not> isNilIdent x" using nil_typed[OF w _ ty(1)] ty(2) by auto
  obtain q where q: "v = VPtr q" using core_value[OF w ty(1) nn c] typed_value(4)[OF w ty(1) nn Some] by auto
  show ?thesis
  proof (cases "eval P R s")
    case (Some u)
    then show ?thesis using \<open>eval P R x = Some v\<close> q
      by (cases u; cases q) (simp_all add: verdict2_def Let_def assertRegexp_def)
  qed (use Some q in \<open>simp add: verdict2_def Let_def split: option.splits\<close>)
qed

lemma mapBoolCall_sound:
  assumes m: "mapBoolCall P (CallExpr f args) negated = Some m" "cm_noFix m = []" "checks P (cm_target m) (cm_args m)"
    and w: "well_typed P R" and pl: "list_all plain (run_types R)"
  shows "verdict P R None (cm_target m) (cm_args m) = (eval P R (CallExpr f args) = Some (VBool (\<not> negated)))"
proof -
  let ?e = "CallExpr f args"
  have two: "\<exists>a b. xs = [a, b] \<and> args = [a, b] \<and> (\<exists>x. f = SelectorExpr x name)" if "pkgCall P ?e path name 2 = Some xs" for path name xs
    using pkgCall_form[OF that] by (auto simp: length_Suc_conv numeral_2_eq_2)
  consider (str) xs where "isStringsContains P ?e = Some xs"
    | (errs) xs where "isStringsContains P ?e = None" "isErrorsIs P ?e = Some xs"
    | (re) x s where "isStringsContains P ?e = None" "isErrorsIs P ?e = None" "isRegexpMatchString P ?e = Some (x, s)" "\<not> negated"
    | (deep) xs where "isStringsContains P ?e = None" "isErrorsIs P ?e = None"
        "isRegexpMatchString P ?e = None \<or> negated" "isReflectDeepEqual P ?e = Some xs"
    using m(1) by (cases "isRegexpMatchString P ?e"; cases negated) (auto simp: mapBoolCall_def split: option.splits prod.splits)
  then show ?thesis
  proof cases
    case str
    from two[OF str[unfolded isStringsContains_def]] obtain a b x where ab: "xs = [a, b]" "args = [a, b]" "f = SelectorExpr x ''Contains''" by blast
    have st: "string_typed P a" "string_typed P b" using w str ab unfolding well_typed_def by blast+
    have "eval P R ?e = string_pair str_contains (eval P R a) (eval P R b)"
      using str by (simp add: call_value_def ab isLenCall_def)
    then show ?thesis using m(1) str ab contains_verdicts[OF w st, of None] by (cases negated) (auto simp: mapBoolCall_def)
  next
    case errs
    from two[OF errs(2)[unfolded isErrorsIs_def]] obtain a b x where ab: "xs = [a, b]" "args = [a, b]" "f = SelectorExpr x ''Is''" by blast
    have nil: "isNilIdent b" "cm_target m = pick negated ''Error'' ''NoError''" "cm_args m = [a]"
      using m(1,2) errs ab by (auto simp: mapBoolCall_def split: if_splits)
    have "eval P R ?e = any_pair (errorsIs (run_world R)) (any_arg P R a) (Some None)"
      using errs nil(1) by (simp add: call_value_def ab isLenCall_def any_arg_def to_any_def[of P R b])
    then show ?thesis unfolding nil(2,3)
      by (cases negated; cases "any_arg P R a") (auto simp: verdict1_simps any1_def any_pair_def errorsIs_def)
  next
    case re
    then have f: "f = SelectorExpr x ''MatchString''" "args = [s]" "namedPtrType (typeOf P x) ''regexp'' ''Regexp''"
      by (auto simp: isRegexpMatchString_def split: expr.splits list.splits if_splits)
    have mm: "cm_target m = ''Regexp''" "cm_args m = [x, s]" using m(1) re by (auto simp: mapBoolCall_def)
    have "isReflectDeepEqual P ?e = None" using f by (simp add: isReflectDeepEqual_def pkgCall_def)
    then have "eval P R ?e = (case (eval P R x, eval P R s) of
      (Some (VPtr (Some re)), Some (VString u)) \<Rightarrow> Some (VBool (regexp_match (run_world R) re u)) | _ \<Rightarrow> None)"
      using re by (simp add: call_value_def f isLenCall_def)
    then show ?thesis unfolding mm verdict_simps regexp_verdict[OF w f(3)] using re(4) by simp
  next
    case deep
    from two[OF deep(4)[unfolded isReflectDeepEqual_def]] obtain a b x where ab: "xs = [a, b]" "args = [a, b]" "f = SelectorExpr x ''DeepEqual''" by blast
    from m(1) deep ab obtain a' b' where u: "unifyEqualOperands P a b = Some (a', b')"
      and mm: "cm_target m = pick negated ''NotEqual'' ''Equal''" "cm_args m = [a', b']"
      by (cases "isRegexpMatchString P ?e"; cases negated) (auto simp: mapBoolCall_def split: option.splits prod.splits)
    have nn: "\<not> (isNilIdent a' \<and> isNilIdent b')" using m(3) mm by (cases negated) (auto simp: checks_def checks2_def)
    have "eval P R ?e = any_pair (DeepEqual (same_pointee (run_world R))) (any_arg P R a) (any_arg P R b)"
      using deep by (simp add: call_value_def ab isLenCall_def any_arg_def)
    then show ?thesis unfolding mm using equal_deep[OF w pl u nn]
      by (cases negated) (simp_all add: verdict2_equal any_pair_verdict)
  qed
qed

theorem mapBoolExpr_sound:
  assumes "mapBoolExpr P e negated = Some m" "cm_noFix m = []" "checks P (cm_target m) (cm_args m)"
    and w: "well_typed P R" and pl: "list_all plain (run_types R)"
  shows "verdict P R None (cm_target m) (cm_args m) = (eval P R e = Some (VBool (\<not> negated)))"
  using assms(1-3)
proof (induction e arbitrary: negated m)
  case (UnaryExpr op e)
  note 2 = UnaryExpr
  then have op: "op = LNOT" by (auto split: if_splits)
  show ?case
  proof (cases "mapBoolExpr P e (\<not> negated)")
    case None
    with 2 op have "cm_target m = pick negated ''True'' ''False''" "cm_args m = [e]" by auto
    then show ?thesis using op by (cases negated) (auto simp: verdict1_simps split: option.splits gval.splits)
  next
    case (Some m')
    with 2 op have "verdict P R None (cm_target m) (cm_args m) = (eval P R e = Some (VBool negated))" by simp
    then show ?thesis using op by (auto split: option.splits gval.splits)
  qed
next
  case (BinaryExpr op a b)
  note bin = BinaryExpr.prems
  let ?x = "eval P R a" and ?y = "eval P R b"
  have eqs: "(map_option VBool z = Some (VBool c)) = (z = Some c)" for z c by (cases z) auto
  have nots: "(map_option Not z = Some c) = (z = Some (\<not> c))" for z c by (cases z) auto
  have len: "verdict P R None (cm_target m) (cm_args m) = (both_values f ?y ?x = Some (\<not> negated))"
    if "len_threshold P a b n = Some inner" "n \<in> {0, 1}" "cm_target m = pick negated ''Empty'' ''NotEmpty''" "cm_args m = [inner]"
      "\<And>k. f (VInt n) (VInt (int k)) = Some (k \<noteq> 0)" for n inner f
  proof -
    from that(1) have l: "isLenCall a = Some inner" "isIntLit b n" "hasLength P inner"
      by (auto simp: len_threshold_def split: option.splits if_splits)
    have "both_values f ?y ?x = map_option (\<lambda>v. value_len v \<noteq> 0) (eval P R inner)"
      using len_call_value[OF w l(1,3)] int_literal[OF that(2) l(2)] that(5) by (auto simp: both_values_def split: option.splits)
    then show ?thesis unfolding that(3,4) using length_verdicts[OF w, of inner None] l(3)
      by (cases negated) (auto simp: length_test_def split: option.splits)
  qed
  have ord: "\<not> mayBeFloat P a \<and> cm_target m = t \<and> cm_args m = [a, b]" if "map_order P a b t d = Some m" for t d
    using that by (auto simp: map_order_def split: if_splits)
  show ?case
  proof (cases "op = EQL \<or> op = NEQ")
    case True
    then show ?thesis
      using bin eq_neq_sound[OF _ bin(2,3) w pl, of a b negated "op = NEQ"]
      by (auto simp: mapBoolBinary_def is_comparison_def binary_value_def eqs nots)
  next
    case False
    then consider "op = GTR" | "op = GEQ" | "op = LSS" | "op = LEQ"
      using bin(1) by (auto simp: mapBoolBinary_def split: if_splits)
    then show ?thesis
    proof cases
      case 1
      have ev: "eval P R (BinaryExpr op a b) = map_option VBool (both_values go_less ?y ?x)"
        by (simp add: 1 is_comparison_def binary_value_def)
      show ?thesis
      proof (cases "len_threshold P a b 0")
        case None
        with bin 1 ord show ?thesis unfolding ev eqs
          by (cases negated) (auto simp: mapBoolBinary_def order_verdicts(1,2)[OF w])
      next
        case (Some inner)
        with bin 1 show ?thesis unfolding ev eqs by (intro len[OF Some]) (auto simp: mapBoolBinary_def go_less_def)
      qed
    next
      case 2
      have ev: "eval P R (BinaryExpr op a b) = map_option VBool (both_values go_leq ?y ?x)"
        by (simp add: 2 is_comparison_def binary_value_def)
      show ?thesis
      proof (cases "len_threshold P a b 1")
        case None
        with bin 2 ord show ?thesis unfolding ev eqs
          by (cases negated) (auto simp: mapBoolBinary_def order_verdicts(3,4)[OF w])
      next
        case (Some inner)
        with bin 2 show ?thesis unfolding ev eqs by (intro len[OF Some]) (auto simp: mapBoolBinary_def go_leq_def)
      qed
    next
      case 3
      have ev: "eval P R (BinaryExpr op a b) = map_option VBool (both_values go_less ?x ?y)"
        by (simp add: 3 is_comparison_def binary_value_def)
      show ?thesis using bin 3 ord unfolding ev eqs
        by (cases negated) (auto simp: mapBoolBinary_def order_verdicts(5,6)[OF w])
    next
      case 4
      have ev: "eval P R (BinaryExpr op a b) = map_option VBool (both_values go_leq ?x ?y)"
        by (simp add: 4 is_comparison_def binary_value_def)
      show ?thesis using bin 4 ord unfolding ev eqs
        by (cases negated) (auto simp: mapBoolBinary_def order_verdicts(7,8)[OF w])
    qed
  qed
next
  case (CallExpr f args)
  then show ?case using mapBoolCall_sound[OF _ _ _ w pl] by simp
qed simp_all

end
