(* ===== verification/LintKeeps.thy ===== *)
theory LintKeeps
  imports LintVerdicts
begin

text \<open>
  What \<open>checkAssertionSimplify\<close> writes: on every call and in every run the rewritten assertion passes
  exactly when the written one does (\<open>rewrite_keeps_verdict\<close>), one lemma per rule.  Calls with explicit type
  arguments and runs whose types have blank fields are left out, and so is a search for a string that may be empty
  in an error's text: there the rules change the verdict.
\<close>

subsection \<open>Operands of Equal\<close>

lemma equal_values:
  assumes w: "well_typed P R" and s: "same_type P x y" and nn: "\<not> isNilIdent x" "\<not> isNilIdent y"
    and v: "eval P R x = Some v" "eval P R y = Some u" "\<not> is_viface v" "\<not> is_viface u"
  shows "\<exists>r. any_arg P R x = Some (Some (r, v)) \<and> any_arg P R y = Some (Some (r, u))"
proof -
  from s obtain a b where t: "typeOf P x = Some a" "typeOf P y = Some b"
    and c: "Identical a b \<or> isInterfaceType a \<or> isInterfaceType b" by (auto simp: same_type_def split: option.splits)
  have ni: "\<not> isInterfaceType t" if "typeOf P e = Some t" "\<not> isNilIdent e" "eval P R e = Some z" "\<not> is_viface z" for e t z
  proof
    assume "isInterfaceType t"
    then obtain ms es where "CoreType t = Some (Interface ms es)" by (auto simp: isInterfaceType_def split: option.splits gotype.splits)
    from core_value[OF w that(1,2) this] typed_value(4)[OF w that(1-3)] that(4) show False by (auto simp: is_viface_def)
  qed
  have "runtime R a = runtime R b"
    using c ni[OF t(1) nn(1) v(1,3)] ni[OF t(2) nn(2) v(2,4)] w t unfolding well_typed_def by blast
  then show ?thesis using any_arg_value[OF nn(1) t(1) v(1)] any_arg_value[OF nn(2) t(2) v(2)] v(3,4)
    by (auto simp: is_viface_def split: gval.splits)
qed

lemma equal_shown:
  assumes w: "well_typed P R" and s: "same_type P x y" and nn: "\<not> isNilIdent x" "\<not> isNilIdent y"
    and x: "\<And>v. eval P R x = Some v \<Longrightarrow> \<not> is_viface v" and y: "\<And>v. eval P R y = Some v \<Longrightarrow> \<not> is_viface v"
  shows "verdict2 P R None (pick b ''Equal'' ''NotEqual'') x y =
    ((case (eval P R x, eval P R y) of (Some v, Some u) \<Rightarrow> Some (deep_equal (same_pointee (run_world R)) v u) | _ \<Rightarrow> None) = Some b)"
proof (cases "eval P R x = None \<or> eval P R y = None")
  case True
  then have "any_arg P R x = None \<or> any_arg P R y = None" using any_arg_panic nn by metis
  then show ?thesis using True nn by (cases b; cases "eval P R x") (auto simp: verdict2_equal)
next
  case False
  then obtain v u where vu: "eval P R x = Some v" "eval P R y = Some u" by auto
  from equal_values[OF w s nn vu x[OF vu(1)] y[OF vu(2)]] show ?thesis using vu nn by (cases b) (auto simp: verdict2_equal)
qed

subsection \<open>One rule each\<close>

lemma bool_not_iface: "well_typed P R \<Longrightarrow> isBoolType P e \<Longrightarrow> eval P R e = Some v \<Longrightarrow> \<exists>b. v = VBool b"
  and bool_not_nil: "well_typed P R \<Longrightarrow> isBoolType P e \<Longrightarrow> \<not> isNilIdent e"
proof -
  assume w: "well_typed P R" and b: "isBoolType P e"
  then obtain t where t: "typeOf P e = Some t" "unalias t = Basic GoBool \<or> unalias t = Basic UntypedBool"
    by (auto simp: isBoolType_def split: option.splits)
  show nn: "\<not> isNilIdent e" using nil_typed[OF w _ t(1)] t(2) by auto
  have "kind_of (unalias t) = KBool" using t(2) by (elim disjE; simp only:; simp add: kind_of_def)
  then have k: "kind_of t = KBool" by simp
  show "eval P R e = Some v \<Longrightarrow> \<exists>b. v = VBool b"
    using kind_runtime[OF typed_value(2)[OF w t(1) nn]] typed_value(4)[OF w t(1) nn] k by fastforce
qed

lemma bool_rewrite:
  assumes w: "well_typed P R" and x: "extractBoolLiteral e a = Some (v, x)" "isBoolType P x"
    and s: "isNilIdent e \<or> isNilIdent a \<or> same_type P e a"
  shows "verdict1 P R V (pick (v = negated) ''False'' ''True'') x = verdict2 P R None (pick (\<not> negated) ''Equal'' ''NotEqual'') e a"
proof -
  obtain l where "isBoolIdent l = Some v" and sides: "(e = l \<and> a = x) \<or> (a = l \<and> e = x)"
    using x(1) by (auto simp: extractBoolLiteral_def split: option.splits)
  then have l: "eval P R l = Some (VBool v)" "\<not> isNilIdent l"
    by (auto simp: isBoolIdent_def isNilIdent_def split: if_splits)
  note xv = bool_not_iface[OF w x(2)] and xn = bool_not_nil[OF w x(2)]
  have nn: "\<not> isNilIdent e" "\<not> isNilIdent a" using sides l(2) xn by auto
  have nv: "eval P R e = Some z \<Longrightarrow> \<not> is_viface z" "eval P R a = Some z \<Longrightarrow> \<not> is_viface z" for z
    using sides l xv by (auto simp: is_viface_def dest!: xv)
  have shown: "verdict2 P R None (pick (\<not> negated) ''Equal'' ''NotEqual'') e a =
    (map_option (\<lambda>z. deep_equal (same_pointee (run_world R)) (VBool v) z) (eval P R x) = Some (\<not> negated))"
    using equal_shown[OF w _ nn nv] s nn sides l(1) xv by (auto split: option.splits)
  show ?thesis
  proof (cases "eval P R x")
    case (Some z)
    with xv obtain b where "z = VBool b" by blast
    with Some show ?thesis unfolding shown by (cases "v = negated") (auto simp: verdict1_simps)
  qed (use shown in \<open>cases "v = negated"; simp add: verdict1_simps\<close>)
qed
lemma string_type_typed: "isStringType P e \<Longrightarrow> string_typed P e"
  by (auto simp: isStringType_def string_typed_def kind_string split: option.splits gotype.splits)

lemma string_rewrite:
  assumes w: "well_typed P R" and lit: "isEmptyStringLit l" and x: "isStringType P x" and nl: "\<not> isNilIdent l"
    and sides: "(e = l \<and> a = x) \<or> (a = l \<and> e = x)" "same_type P e a"
  shows "verdict1 P R V (pick negated ''NotEmpty'' ''Empty'') x = verdict2 P R None (pick (\<not> negated) ''Equal'' ''NotEqual'') e a"
proof -
  have lv: "eval P R l = Some (VString [])" using lit by (auto simp: isEmptyStringLit_def)
  have st: "string_typed P x" by (rule string_type_typed[OF x])
  note xn = string_not_nil[OF w st]
  have xv: "\<exists>s. v = VString s" if "eval P R x = Some v" for v using string_operand[OF w st that] by blast
  have nn: "\<not> isNilIdent e" "\<not> isNilIdent a" using sides(1) nl xn by auto
  have nv: "eval P R e = Some z \<Longrightarrow> \<not> is_viface z" "eval P R a = Some z \<Longrightarrow> \<not> is_viface z" for z
    using sides(1) lv by (auto simp: is_viface_def dest!: xv)
  have sh: "verdict2 P R None (pick b ''Equal'' ''NotEqual'') e a =
    ((case (eval P R e, eval P R a) of (Some v, Some u) \<Rightarrow> Some (deep_equal (same_pointee (run_world R)) v u) | _ \<Rightarrow> None) = Some b)"
    for b by (rule equal_shown[OF w sides(2) nn nv])
  have two: "verdict2 P R None (pick (\<not> negated) ''Equal'' ''NotEqual'') e a =
      (map_option (\<lambda>v. value_len v = 0) (eval P R x) = Some (\<not> negated))"
  proof (cases "eval P R x")
    case None
    then show ?thesis unfolding sh using sides(1) lv by auto
  next
    case (Some v)
    with xv obtain u where "v = VString u" by blast
    then show ?thesis unfolding sh using sides(1) lv Some by auto
  qed
  have one: "verdict1 P R V (pick negated ''NotEmpty'' ''Empty'') x = (map_option (\<lambda>v. value_len v = 0) (eval P R x) = Some (\<not> negated))"
    using length_verdicts(1,2)[OF w, of x V] x by (cases negated) (auto simp: length_test_def split: option.splits)
  show ?thesis unfolding one two ..
qed

lemma nil_kind_value:
  assumes "kind_of r \<in> nil_kinds k" "kind_of r \<in> kinds_of_value v"
  shows "DeepEqual D (as_any r (nil_value r)) (case v of VIface i \<Rightarrow> i | _ \<Rightarrow> Some (r, v)) = value_nil v"
    "DeepEqual D (case v of VIface i \<Rightarrow> i | _ \<Rightarrow> Some (r, v)) (as_any r (nil_value r)) = value_nil v"
proof -
  have iface: "DeepEqual D None i = (i = None)" "DeepEqual D i None = (i = None)" for i by (cases i; auto)+
  have "kind_of r \<in> {KInterface, KPtr, KChan, KUnsafePointer, KSlice, KMap, KFunc}"
    using assms(1) by (cases k) (auto simp: nil_kinds_def)
  then have "DeepEqual D (as_any r (nil_value r)) (case v of VIface i \<Rightarrow> i | _ \<Rightarrow> Some (r, v)) = value_nil v \<and>
    DeepEqual D (case v of VIface i \<Rightarrow> i | _ \<Rightarrow> Some (r, v)) (as_any r (nil_value r)) = value_nil v"
    using assms(2) by (elim insertE emptyE) (auto simp: iface nil_value_def as_any_def Identical_def split: option.splits)
  then show "DeepEqual D (as_any r (nil_value r)) (case v of VIface i \<Rightarrow> i | _ \<Rightarrow> Some (r, v)) = value_nil v"
    "DeepEqual D (case v of VIface i \<Rightarrow> i | _ \<Rightarrow> Some (r, v)) (as_any r (nil_value r)) = value_nil v" by blast+
qed

lemma nil_equal:
  assumes w: "well_typed P R" and k: "nilKindOf P x \<in> {errorIface, otherIface, comparableNil, uncomparableNil}"
    and l: "isNilIdent l" and sides: "(e = l \<and> a = x) \<or> (a = l \<and> e = x)"
  shows "verdict2 P R None (pick (\<not> negated) ''Equal'' ''NotEqual'') e a = (nil_test P R x = Some (\<not> negated))"
proof -
  from nil_operand[OF w k] obtain t where nn: "\<not> isNilIdent x" and t: "typeOf P x = Some t"
    and r: "kind_of (runtime R t) \<in> nil_kinds (nilKindOf P x)" by blast
  have nl: "equal_arg P R None x l = Some (as_any (runtime R t) (nil_value (runtime R t)))"
    using l t by (simp add: equal_arg_def)
  show ?thesis
  proof (cases "eval P R x")
    case None
    then show ?thesis using sides nn any_arg_panic[OF nn None]
      by (cases negated) (auto simp: verdict2_equal nil_test_def)
  next
    case (Some v)
    note kv = nil_kind_value[OF r typed_value(4)[OF w t nn Some]]
    show ?thesis using sides nl nn any_arg_value[OF nn t Some] Some kv
      by (cases negated) (auto simp: verdict2_equal nil_test_def)
  qed
qed
lemma len_operand:
  assumes "isLenCall c = Some x"
  shows "\<not> isNilIdent c" "\<not> isEmptyStringLit c"
  using assms by (auto simp: isLenCall_def isNilIdent_def isEmptyStringLit_def)

lemma int_operand:
  assumes w: "well_typed P R" and n: "int_typed P e"
  shows "\<not> isNilIdent e" "eval P R e = Some v \<Longrightarrow> \<exists>k. v = VInt k"
proof -
  from n obtain t where t: "typeOf P e = Some t" "kind_of t = KInt" by (auto simp: int_typed_def split: option.splits)
  show nn: "\<not> isNilIdent e" using nil_typed[OF w _ t(1)] t(2) by auto
  show "eval P R e = Some v \<Longrightarrow> \<exists>k. v = VInt k"
    using kind_runtime[OF typed_value(2)[OF w t(1) nn]] typed_value(4)[OF w t(1) nn] t(2) by fastforce
qed

lemma len_equal:
  assumes w: "well_typed P R" and s: "same_type P e a" and c: "extractLenSide e a = Some (x, n)" "hasLength P x"
    and nn: "\<not> isNilIdent n" and nv: "\<And>v. eval P R n = Some v \<Longrightarrow> \<exists>k. v = VInt k"
  shows "verdict2 P R None (pick b ''Equal'' ''NotEqual'') e a =
    ((case (eval P R x, eval P R n) of (Some v, Some (VInt k)) \<Rightarrow> Some (int (value_len v) = k) | _ \<Rightarrow> None) = Some b)"
proof -
  obtain l where l: "isLenCall l = Some x" and sides: "(e = l \<and> a = n) \<or> (a = l \<and> e = n)"
    using c(1) by (auto simp: extractLenSide_def split: option.splits)
  note lv = len_call_value[OF w l c(2)]
  have "\<not> isNilIdent e" "\<not> isNilIdent a" using sides len_operand[OF l] nn by auto
  moreover have "\<not> is_viface z" if "eval P R e = Some z" for z using that sides lv by (auto simp: is_viface_def dest!: nv)
  moreover have "\<not> is_viface z" if "eval P R a = Some z" for z using that sides lv by (auto simp: is_viface_def dest!: nv)
  ultimately have sh: "verdict2 P R None (pick b ''Equal'' ''NotEqual'') e a =
    ((case (eval P R e, eval P R a) of (Some v, Some u) \<Rightarrow> Some (deep_equal (same_pointee (run_world R)) v u) | _ \<Rightarrow> None) = Some b)"
    by (intro equal_shown[OF w s])
  show ?thesis
  proof (cases "eval P R x = None \<or> eval P R n = None")
    case True
    then show ?thesis unfolding sh using sides lv by (auto split: option.splits gval.splits)
  next
    case False
    then obtain v u where "eval P R x = Some v" "eval P R n = Some u" by auto
    with nv obtain k where "eval P R x = Some v" "eval P R n = Some (VInt k)" by blast
    then show ?thesis unfolding sh using sides lv by auto
  qed
qed

lemma len_rewrite_keeps:
  assumes w: "well_typed P R" and s: "same_type P e a" and f: "len_rewrite P t e a msgs negated from = Some fd" "f_fix fd = Some rw"
    and ch: "checks P (rw_target rw) (tl (rw_args rw))"
  shows "verdict P R None (rw_target rw) (tl (rw_args rw)) = verdict2 P R None (pick (\<not> negated) ''Equal'' ''NotEqual'') e a"
proof -
  obtain x n where c: "extractLenSide e a = Some (x, n)" "hasLength P x"
    using f(1) by (auto simp: len_rewrite_def split: option.splits if_splits)
  show ?thesis
  proof (cases "isIntLit n 0")
    case True
    then have rw: "rw_target rw = pick negated ''NotEmpty'' ''Empty''" "rw_args rw = [t, x]"
      using f c by (auto simp: len_rewrite_def emitSimplify_def)
    have nv: "eval P R n = Some (VInt 0)" using int_literal[of 0, OF _ True] by simp
    have "\<not> isNilIdent n" using True by (auto simp: isIntLit_def isNilIdent_def)
    with nv have "verdict2 P R None (pick (\<not> negated) ''Equal'' ''NotEqual'') e a =
      ((case (eval P R x, eval P R n) of (Some v, Some (VInt k)) \<Rightarrow> Some (int (value_len v) = k) | _ \<Rightarrow> None) = Some (\<not> negated))"
      by (intro len_equal[OF w s c]) auto
    then show ?thesis unfolding rw using nv length_verdicts(1,2)[OF w, of x None] c(2)
      by (cases negated) (auto simp: length_test_def split: option.splits)
  next
    case False
    then have rw: "rw_target rw = ''Len''" "rw_args rw = [t, x, n]" "\<not> negated"
      using f c by (auto simp: len_rewrite_def emitSimplify_def split: if_splits)
    have int: "int_typed P n" using ch unfolding rw by (simp add: checks_def checks2_def)
    have "verdict2 P R None (pick (\<not> negated) ''Equal'' ''NotEqual'') e a =
      ((case (eval P R x, eval P R n) of (Some v, Some (VInt k)) \<Rightarrow> Some (int (value_len v) = k) | _ \<Rightarrow> None) = Some (\<not> negated))"
      using int_operand[OF w int] by (intro len_equal[OF w s c]) auto
    then show ?thesis unfolding rw using length_verdicts(3)[OF w, of x None n] c(2) rw(3)
      by (cases "eval P R x"; cases "eval P R n") (auto simp: length_test_def split: gval.splits)
  qed
qed

lemma threshold_keeps:
  assumes w: "well_typed P R" and l: "isLenCall a = Some x" "hasLength P x" "isIntLit b n" and t: "typeOf P a = Some ty"
    and n: "(from, n) \<in> {(''Greater'', 0), (''GreaterOrEqual'', 1)}"
  shows "verdict1 P R V ''NotEmpty'' x = verdict2 P R None from a b"
proof -
  have b: "eval P R b = Some (VInt n)" using n int_literal[OF _ l(3)] by auto
  have e: "eval P R a = map_option (\<lambda>v. VInt (int (value_len v))) (eval P R x)" by (rule len_call_value[OF w l(1,2)])
  have o: "order_verdict P R (order_check nm ws f) a b = (case eval P R a of Some v \<Rightarrow> ordered_values v (VInt n) \<and> f (cmpCompare v (VInt n)) | None \<Rightarrow> False)"
    if "nm \<noteq> []" for nm ws f
    using t that b by (simp add: order_verdict_def typed1_def order_checks split: option.splits)
  have v: "verdict2 P R None ''Greater'' a b = order_verdict P R assertGreater a b"
    "verdict2 P R None ''GreaterOrEqual'' a b = order_verdict P R assertGreaterOrEqual a b"
    by (simp_all add: verdict2_def Let_def)
  have c: "ordered_values (VInt i) (VInt j)" "(cmpCompare (VInt i) (VInt j) > 0) = (j < i)" "(cmpCompare (VInt i) (VInt j) \<ge> 0) = (j \<le> i)" for i j
    by (simp_all add: ordered_values_def go_less_def cmpCompare_def three_way_def)
  from n have "verdict2 P R None from a b = (case eval P R x of Some v \<Rightarrow> value_len v \<noteq> 0 | None \<Rightarrow> False)"
  proof (elim insertE emptyE)
    assume "(from, n) = (''Greater'', 0)"
    then show ?thesis
      by (simp add: v assertGreater_def CheckGreater_def o e c split: option.splits)
  next
    assume "(from, n) = (''GreaterOrEqual'', 1)"
    then show ?thesis
      by (auto simp add: v assertGreaterOrEqual_def CheckGreaterOrEqual_def o e c split: option.splits)
  qed
  then show ?thesis unfolding length_verdicts(2)[OF w disjI1[OF l(2)]] length_test_def by simp
qed
lemma error_call_value:
  assumes "isErrorMethodCall s = Some x"
  shows "eval P R s = (case any_arg P R x of
      Some (Some tv) \<Rightarrow> Some (VString (error_text (run_world R) (Some tv))) | _ \<Rightarrow> None)"
proof -
  have s: "s = CallExpr (SelectorExpr x ''Error'') []"
    using assms by (auto simp: isErrorMethodCall_def split: expr.splits list.splits if_splits)
  have "isLenCall s = None" "isStringsContains P s = None" "isErrorsIs P s = None" "isReflectDeepEqual P s = None" "isRegexpMatchString P s = None"
    by (simp_all add: s isLenCall_def isStringsContains_def isErrorsIs_def isReflectDeepEqual_def isRegexpMatchString_def pkgCall_def)
  note none = this[unfolded s] and m = assms[unfolded s]
  have "eval P R s = call_value P R (SelectorExpr x ''Error'') [] (eval P R x) []" unfolding s by simp
  then show ?thesis unfolding call_value_def Let_def none m any_arg_def by simp
qed

lemma not_empty_string:
  assumes w: "well_typed P R" and s: "string_typed P e" "\<not> mayBeEmptyString P e" and v: "eval P R e = Some (VString u)"
  shows "u \<noteq> []"
proof -
  from s(1) obtain t where t: "typeOf P e = Some t" "kind_of t = KString" by (auto simp: string_typed_def split: option.splits)
  show ?thesis
  proof (cases "constOf P e")
    case (Some c)
    have "case c of StringConst s \<Rightarrow> VString u = VString s | OtherConst \<Rightarrow> \<not> is_viface (VString u) \<and> (\<forall>s. VString u \<noteq> VString s)"
      using w v Some unfolding well_typed_def by blast
    then show ?thesis using s(2) t(1) Some by (cases c) (auto simp: mayBeEmptyString_def)
  next
    case None
    obtain x where x: "unalias t = x" by blast
    have "\<exists>b. CoreType t = Some (Basic b) \<and> is_string b"
      using t(2)[unfolded kind_string] unfolding CoreType_def unalias_underlying[of t, symmetric] x by (cases x) (auto split: gotype.splits)
    then show ?thesis using s(2) t(1) None by (auto simp: mayBeEmptyString_def)
  qed
qed

lemma contains_keeps:
  assumes w: "well_typed P R" and c: "isErrorMethodCall s = Some x"
    and st: "string_typed P s" "string_typed P e" and ne: "\<not> mayBeEmptyString P e"
  shows "verdict2 P R V ''ErrorContains'' x e = verdict2 P R V ''Contains'' s e"
proof -
  have "verdict2 P R V ''ErrorContains'' x e = (string_pair str_contains (eval P R s) (eval P R e) = Some (VBool True))"
  proof (cases "eval P R e")
    case None
    then show ?thesis by (simp add: verdict2_def Let_def string_pair_None any1_def split: option.splits)
  next
    case (Some v)
    then obtain u where u: "v = VString u" "eval P R e = Some (VString u)" using string_operand[OF w st(2) Some] by blast
    have "u \<noteq> []" by (rule not_empty_string[OF w st(2) ne u(2)])
    then show ?thesis unfolding error_call_value[OF c]
      by (cases "any_arg P R x")
        (auto simp: verdict2_def Let_def u string_pair_def any1_def assertErrorContains_def unless_def failed_def split: option.splits)
  qed
  then show ?thesis using contains_verdicts(1)[OF w st] by simp
qed
lemma operands1: "arity name = 1 \<Longrightarrow> operands name (t # x # msgs) = [x]"
  and operands2: "arity name = 2 \<Longrightarrow> operands name (t # x # y # msgs) = [x, y]"
  by (simp_all add: operands_def)

lemma bool_keeps:
  assumes f: "simplifyBoolAssertion P args negated = Some fd" "f_fix fd = Some rw"
    and w: "well_typed P R" and pl: "list_all plain (run_types R)" and ch: "checks P (rw_target rw) (tl (rw_args rw))"
    and n: "name = pick negated ''False'' ''True''"
  shows "verdict P R None (rw_target rw) (tl (rw_args rw)) = verdict P R None name (operands name args)"
proof -
  from f obtain t v msgs m where args: "args = t # v # msgs" and m: "mapBoolExpr P v negated = Some m" "cm_noFix m = []"
    and rw: "rw_target rw = cm_target m" "rw_args rw = t # cm_args m"
    by (auto simp: simplifyBoolAssertion_def emitSimplify_def lint_report_def Let_def split: list.splits option.splits if_splits)
  have "verdict1 P R None name v = (eval P R v = Some (VBool (\<not> negated)))"
    by (cases negated) (simp_all add: n verdict1_simps)
  moreover have "operands name args = [v]" by (cases negated) (simp_all add: n args operands1 arity_def)
  ultimately show ?thesis using mapBoolExpr_sound[OF m _ w pl] ch by (simp add: rw)
qed

lemma equality_keeps:
  assumes f: "simplifyEquality P fn args negated = Some fd" "f_fix fd = Some rw"
    and w: "well_typed P R" and ch: "checks P (rw_target rw) (tl (rw_args rw))"
    and n: "name = pick negated ''NotEqual'' ''Equal''"
    and s: "source_checks P name (operands name args)" and tc: "checks P name (operands name args)"
  shows "verdict P R None (rw_target rw) (tl (rw_args rw)) = verdict P R None name (operands name args)"
proof -
  from f(1) obtain t e a msgs where args: "args = t # e # a # msgs"
    by (auto simp: simplifyEquality_def split: list.splits)
  have ops: "operands name args = [e, a]" by (cases negated) (simp_all add: n args operands2 arity_def)
  have name: "name = pick (\<not> negated) ''Equal'' ''NotEqual''" by (cases negated) (simp_all add: n)
  have st: "isNilIdent e \<or> isNilIdent a \<or> same_type P e a"
    using s unfolding ops by (cases negated) (simp_all add: source_checks_def n)
  have nn: "\<not> (isNilIdent e \<and> isNilIdent a)"
    using tc unfolding ops by (cases negated) (simp_all add: checks_def checks2_def n)
  let ?bool = "case extractBoolLiteral e a of Some (v, x) \<Rightarrow> if isBoolType P x then Some (v, x) else None | None \<Rightarrow> None"
  let ?x = "if isEmptyStringLit e then a else e"
  let ?str = "(isEmptyStringLit e \<or> isEmptyStringLit a) \<and> isStringType P ?x"
  consider (bool) v x where "extractBoolLiteral e a = Some (v, x)" "isBoolType P x"
      "rw_target rw = pick (v = negated) ''False'' ''True''" "rw_args rw = [t, x]"
    | (str) "?str" "rw_target rw = pick negated ''NotEmpty'' ''Empty''" "rw_args rw = [t, ?x]"
    | (nil) "isNilIdent e \<or> isNilIdent a"
        "nil_literal_rewrite P fn t (if isNilIdent e then a else e) msgs negated (pick negated ''NotEqual'' ''Equal'') = Some fd"
    | (len) "\<not> isNilIdent e" "\<not> isNilIdent a" "len_rewrite P t e a msgs negated (pick negated ''NotEqual'' ''Equal'') = Some fd"
  proof (cases ?bool)
    case (Some b)
    then show ?thesis using that(1) f unfolding args
      by (auto simp: simplifyEquality_def emitSimplify_def Let_def split: option.splits if_splits)
  next
    case None
    then show ?thesis using that(2-4) f unfolding args
      by (cases ?str) (auto simp: simplifyEquality_def emitSimplify_def Let_def split: option.splits if_splits)
  qed
  then show ?thesis
  proof cases
    case bool
    show ?thesis unfolding ops bool(3,4) unfolding name using bool_rewrite[OF w bool(1,2) st] by simp
  next
    case str
    obtain l where l: "isEmptyStringLit l" "(e = l \<and> a = ?x) \<or> (a = l \<and> e = ?x)" using str(1) by (cases "isEmptyStringLit e") auto
    have x: "string_typed P ?x" using str(1) string_type_typed by blast
    have "\<not> isNilIdent l" using l(1) by (auto simp: isEmptyStringLit_def isNilIdent_def)
    then have "\<not> isNilIdent e" "\<not> isNilIdent a" using l(2) string_not_nil[OF w x] by auto
    then have st': "same_type P e a" using st by blast
    show ?thesis unfolding ops str(2,3) unfolding name
      using string_rewrite[OF w l(1) _ _ l(2) st', of None negated] str(1) \<open>\<not> isNilIdent l\<close> by simp
  next
    case nil
    let ?o = "if isNilIdent e then a else e"
    obtain l where l: "isNilIdent l" "(e = l \<and> a = ?o) \<or> (a = l \<and> e = ?o)" using nil(1) by (cases "isNilIdent e") auto
    have k: "nilKindOf P ?o \<in> {errorIface, otherIface, comparableNil, uncomparableNil}"
      using nil(2) by (auto simp: nil_literal_rewrite_def split: nilKind.splits if_splits)
    have "verdict P R None (rw_target rw) (tl (rw_args rw)) = (nil_test P R ?o = Some (\<not> negated))"
      using nil(2) f(2) nil_verdicts[OF w, of ?o None]
      by (cases negated; cases "nilKindOf P ?o") (auto simp: nil_literal_rewrite_def emitSimplify_def split: if_splits)
    then show ?thesis unfolding ops unfolding name using nil_equal[OF w k l] by simp
  next
    case len
    with st have st': "same_type P e a" by blast
    show ?thesis unfolding ops unfolding name verdict_simps by (rule len_rewrite_keeps[OF w st' len(3) f(2) ch])
  qed
qed
lemma length_keeps:
  assumes f: "simplifyLen P args = Some fd" "f_fix fd = Some rw" and w: "well_typed P R"
  shows "verdict P R None (rw_target rw) (tl (rw_args rw)) = verdict P R None ''Len'' (operands ''Len'' args)"
proof -
  from f obtain t x n msgs where a: "args = t # x # n # msgs" "isIntLit n 0" "hasLength P x"
    and r: "rw_target rw = ''Empty''" "rw_args rw = [t, x]"
    by (auto simp: simplifyLen_def emitSimplify_def split: list.splits if_splits)
  have n: "eval P R n = Some (VInt 0)" using int_literal[of 0, OF _ a(2)] by simp
  have "operands ''Len'' args = [x, n]" by (simp add: a operands2 arity_def)
  then show ?thesis by (simp add: r n length_verdicts(1,3)[OF w disjI1[OF a(3)]])
qed

lemma comparison_keeps:
  assumes f: "simplifyComparisonLen P args name n = Some fd" "f_fix fd = Some rw" and w: "well_typed P R"
    and n: "(name, n) \<in> {(''Greater'', 0), (''GreaterOrEqual'', 1)}" and tc: "checks P name (operands name args)"
  shows "verdict P R None (rw_target rw) (tl (rw_args rw)) = verdict P R None name (operands name args)"
proof -
  from f obtain t a b msgs x where a: "args = t # a # b # msgs" "isLenCall a = Some x" "hasLength P x" "isIntLit b n"
    and r: "rw_target rw = ''NotEmpty''" "rw_args rw = [t, x]"
    by (auto simp: simplifyComparisonLen_def emitSimplify_def split: list.splits option.splits if_splits)
  have o: "operands name args = [a, b]" using n by (auto simp: a operands2 arity_def)
  have "typeOf P a \<noteq> None" using tc n unfolding o checks_def checks2_def by simp blast
  then obtain ty where "typeOf P a = Some ty" by blast
  then show ?thesis unfolding o r using threshold_keeps[OF w a(2-4) _ n] by simp
qed

lemma zero_keeps:
  assumes f: "simplifyZeroNotZero P args b = Some fd" "f_fix fd = Some rw" and w: "well_typed P R"
    and n: "name = pick b ''NotZero'' ''Zero''"
  shows "verdict P R None (rw_target rw) (tl (rw_args rw)) = verdict P R None name (operands name args)"
proof -
  from f obtain t x msgs where a: "args = t # x # msgs" "nilKindOf P x = errorIface"
    and r: "rw_target rw = pick b ''Error'' ''NoError''" "rw_args rw = [t, x]"
    by (auto simp: simplifyZeroNotZero_def emitSimplify_def split: list.splits if_splits)
  have "operands name args = [x]" by (cases b) (simp_all add: n a operands1 arity_def)
  then show ?thesis using nil_verdicts(1-4)[OF w, of x None] a(2) by (cases b) (simp_all add: r n)
qed

lemma nil_keeps:
  assumes f: "guardNilNotNil P args b = Some fd" "f_fix fd = Some rw" and w: "well_typed P R"
    and n: "name = pick b ''NotNil'' ''Nil''"
  shows "verdict P R None (rw_target rw) (tl (rw_args rw)) = verdict P R None name (operands name args)"
proof -
  from f obtain t x msgs where a: "args = t # x # msgs" "nilKindOf P x = comparableNil"
    and r: "rw_target rw = pick b ''NotZero'' ''Zero''" "rw_args rw = [t, x]"
    by (auto simp: guardNilNotNil_def emitSimplify_def lint_report_def Let_def split: list.splits option.splits if_splits nilKind.splits)
  have "operands name args = [x]" by (cases b) (simp_all add: n a operands1 arity_def)
  then show ?thesis using nil_verdicts(3-6)[OF w, of x None] a(2) by (cases b) (simp_all add: r n)
qed

lemma error_text_keeps:
  assumes f: "simplifyContainsErrMsg P args = Some fd" "f_fix fd = Some rw" and w: "well_typed P R"
    and src: "source_checks P ''Contains'' (operands ''Contains'' args)" and ch: "checks P (rw_target rw) (tl (rw_args rw))"
    and ne: "rw_target rw = ''ErrorContains'' \<Longrightarrow> \<not> mayBeEmptyString P (rw_args rw ! 2)"
  shows "verdict P R None (rw_target rw) (tl (rw_args rw)) = verdict P R None ''Contains'' (operands ''Contains'' args)"
proof -
  from f obtain t s e msgs x where a: "args = t # s # e # msgs" "isErrorMethodCall s = Some x"
    and r: "rw_target rw = ''ErrorContains''" "rw_args rw = [t, x, e]"
    by (auto simp: simplifyContainsErrMsg_def emitSimplify_def split: list.splits option.splits if_splits)
  have o: "operands ''Contains'' args = [s, e]" by (simp add: a operands2 arity_def)
  have "string_typed P s" using src unfolding o by (simp add: source_checks_def a(2))
  moreover have "string_typed P e" using ch by (simp add: r checks_def checks2_def)
  ultimately show ?thesis using contains_keeps[OF w a(2)] ne by (simp add: r o)
qed

lemma guards_have_no_fix:
  "guardEmptyNotEmpty P args b = Some fd \<Longrightarrow> f_fix fd = None"
  "guardErrorIs args = Some fd \<Longrightarrow> f_fix fd = None"
  "guardErrorContains args = Some fd \<Longrightarrow> f_fix fd = None"
  by (auto simp: guardEmptyNotEmpty_def guardErrorIs_def guardErrorContains_def lint_report_def Let_def
    split: list.splits option.splits if_splits)

subsection \<open>Every rule\<close>

lemma if_Some:
  "(if b then x else y) = Some z \<Longrightarrow> (b \<Longrightarrow> x = Some z \<Longrightarrow> Q) \<Longrightarrow> (\<not> b \<Longrightarrow> y = Some z \<Longrightarrow> Q) \<Longrightarrow> Q"
  by (cases b) auto

text \<open>The rules by the assertion's name.\<close>

lemma simplifyAssertion_rules:
  assumes "simplifyAssertion P fn args = Some fd" "name = assertionFuncName P fn"
  shows "(name = pick False ''False'' ''True'' \<and> simplifyBoolAssertion P args False = Some fd) \<or>
    (name = pick True ''False'' ''True'' \<and> simplifyBoolAssertion P args True = Some fd) \<or>
    (name = pick False ''NotEqual'' ''Equal'' \<and> simplifyEquality P fn args False = Some fd) \<or>
    (name = pick True ''NotEqual'' ''Equal'' \<and> simplifyEquality P fn args True = Some fd) \<or>
    (name = ''Len'' \<and> simplifyLen P args = Some fd) \<or>
    (name = ''Greater'' \<and> simplifyComparisonLen P args ''Greater'' 0 = Some fd) \<or>
    (name = ''GreaterOrEqual'' \<and> simplifyComparisonLen P args ''GreaterOrEqual'' 1 = Some fd) \<or>
    (name = pick False ''NotZero'' ''Zero'' \<and> simplifyZeroNotZero P args False = Some fd) \<or>
    (name = pick True ''NotZero'' ''Zero'' \<and> simplifyZeroNotZero P args True = Some fd) \<or>
    (name = ''Contains'' \<and> simplifyContainsErrMsg P args = Some fd) \<or>
    (name = pick False ''NotNil'' ''Nil'' \<and> guardNilNotNil P args False = Some fd) \<or>
    (name = pick True ''NotNil'' ''Nil'' \<and> guardNilNotNil P args True = Some fd) \<or>
    (guardEmptyNotEmpty P args False = Some fd \<or> guardEmptyNotEmpty P args True = Some fd \<or> guardErrorIs args = Some fd
        \<or> guardErrorContains args = Some fd)"
  using assms(1)[unfolded simplifyAssertion_def Let_def, folded assms(2)] unfolding pick_simps
  by - ((erule if_Some, blast)+, simp)

lemma rewrite_keeps:
  assumes f: "simplifyAssertion P fn args = Some fd" "f_fix fd = Some rw" and name: "name = assertionFuncName P fn"
    and w: "well_typed P R" and pl: "list_all plain (run_types R)"
    and src: "source_checks P name (operands name args)" and tc: "checks P name (operands name args)"
    and ch: "checks P (rw_target rw) (tl (rw_args rw))"
    and ne: "rw_target rw = ''ErrorContains'' \<Longrightarrow> \<not> mayBeEmptyString P (rw_args rw ! 2)"
  shows "verdict P R None (rw_target rw) (tl (rw_args rw)) = verdict P R None name (operands name args)"
  using simplifyAssertion_rules[OF f(1) name]
proof (elim disjE conjE)
  assume "name = ''Len''" "simplifyLen P args = Some fd"
  then show ?thesis using length_keeps[OF _ f(2) w] by simp
next
  assume n: "name = ''Greater''" and g: "simplifyComparisonLen P args ''Greater'' 0 = Some fd"
  show ?thesis unfolding n by (rule comparison_keeps[OF g f(2) w _ tc[unfolded n]]) simp
next
  assume n: "name = ''GreaterOrEqual''" and g: "simplifyComparisonLen P args ''GreaterOrEqual'' 1 = Some fd"
  show ?thesis unfolding n by (rule comparison_keeps[OF g f(2) w _ tc[unfolded n]]) simp
next
  assume n: "name = ''Contains''" and g: "simplifyContainsErrMsg P args = Some fd"
  show ?thesis unfolding n by (rule error_text_keeps[OF g f(2) w src[unfolded n] ch ne])
qed (erule (1) bool_keeps[OF _ f(2) w pl ch] equality_keeps[OF _ f(2) w ch _ src tc] zero_keeps[OF _ f(2) w] nil_keeps[OF _ f(2) w]
  | use f(2) guards_have_no_fix in \<open>metis option.distinct(1)\<close>)+

end
