(* ===== verification/LintGuards.thy ===== *)
theory LintGuards
  imports LintRules
begin

text \<open>
  The assertion rules of \<^verbatim>\<open>internal/lint\<close> on statements: \<^verbatim>\<open>redundant.go\<close>, of two assertions in a row, and
  \<^verbatim>\<open>failguard.go\<close>, of an if-statement that only fails the test.  A block is a list of statements; the
  comments a fix has to keep are parameters.
\<close>

text \<open>An if-statement is whether it has an init statement, its condition, its body and its else.\<close>

datatype stmt =
    ExprStmt expr
  | ReturnStmt "expr list"
  | IfStmt bool expr "stmt list" "stmt option"
  | BlockStmt "stmt list"
  | OtherStmt string

subsection \<open>Redundant assertions\<close>

definition AssertionRedundant :: string where "AssertionRedundant = ''assertion-redundant''"

record parsedAssertion =
  pa_name :: string
  pa_args :: "expr list"
  guardedArg :: expr

definition extractAssertionCall :: "pass \<Rightarrow> stmt \<Rightarrow> parsedAssertion option" where
  "extractAssertionCall P s = (case s of
      ExprStmt (CallExpr fn args) \<Rightarrow>
        (let name = assertionFuncName P fn in
         if name = [] \<or> length args < 2 then None
         else Some \<lparr>pa_name = name, pa_args = args, guardedArg = args ! 1\<rparr>)
    | _ \<Rightarrow> None)"

definition sameExprText :: "pass \<Rightarrow> expr \<Rightarrow> expr \<Rightarrow> bool" where
  "sameExprText P a b \<longleftrightarrow> exprText P a = exprText P b"

definition isNonZeroIntLit :: "expr list \<Rightarrow> bool" where
  "isNonZeroIntLit args = (if length args < 3 then False
     else (case args ! 2 of BasicLit IntLit v \<Rightarrow> v \<noteq> ''0'' | _ \<Rightarrow> False))"

definition isRedundantBefore :: "pass \<Rightarrow> parsedAssertion \<Rightarrow> parsedAssertion \<Rightarrow> string" where
  "isRedundantBefore P fst_call snd_call =
     (let weaker = pa_name fst_call; stronger = pa_name snd_call; args = pa_args snd_call in
      if weaker = ''NotNil'' \<and> nilKindOf P (guardedArg fst_call) = notNilable then []
      else if weaker = ''NotEmpty'' \<and> stronger = ''Contains'' \<and> mayBeEmptyString P (args ! 2) then []
      else if weaker = ''Error'' \<and> stronger = ''ErrorIs'' then ''ErrorIs already checks for non-nil error''
      else if weaker = ''Error'' \<and> stronger = ''ErrorContains'' then ''ErrorContains already checks for non-nil error''
      else if weaker = ''Error'' \<and> stronger = ''ErrorAs'' then ''ErrorAs already checks for non-nil error''
      else if weaker = ''NotNil'' \<and> stronger = ''NotEmpty'' then ''NotEmpty already checks for nil''
      else if weaker = ''NotNil'' \<and> stronger = ''Len'' then
        (if isNonZeroIntLit args then ''Len already handles nil for non-zero lengths'' else [])
      else if weaker = ''NotNil'' \<and> stronger = ''Contains'' then ''Contains already handles nil''
      else if weaker = ''NotEmpty'' \<and> stronger = ''Len'' then
        (if isNonZeroIntLit args then ''Len already implies non-empty for non-zero lengths'' else [])
      else if weaker = ''NotEmpty'' \<and> stronger = ''Contains'' then ''Contains already implies non-empty''
      else [])"

definition messageIndex :: "string \<Rightarrow> nat" where
  "messageIndex name = (if name = ''ErrorAs'' \<or> name = ''NotEmpty'' then 2 else 3)"

text \<open>The arguments of the call that is left, when there is a fix: the weaker one's message moves to it.\<close>

definition redundantFix :: "parsedAssertion \<Rightarrow> parsedAssertion \<Rightarrow> expr list option" where
  "redundantFix weaker stronger =
     (let msgs = drop 2 (pa_args weaker) in
      if msgs \<noteq> [] \<and> length (pa_args stronger) > messageIndex (pa_name stronger) then None
      else Some (pa_args stronger @ msgs))"

record redundant_finding =
  r_msg :: string
  r_fix :: "expr list option"

definition redundant_pair :: "pass \<Rightarrow> (stmt \<Rightarrow> bool) \<Rightarrow> stmt \<Rightarrow> stmt \<Rightarrow> redundant_finding option" where
  "redundant_pair P claimed s s' = (case (extractAssertionCall P s, extractAssertionCall P s') of
      (Some a, Some b) \<Rightarrow>
        (if claimed s \<or> claimed s' \<or> \<not> sameExprText P (guardedArg a) (guardedArg b) then None
         else (let reason = isRedundantBefore P a b in
           if reason = [] then None
           else Some \<lparr>r_msg = pa_name a @ '' is redundant before '' @ pa_name b @ dash @ reason, r_fix = redundantFix a b\<rparr>))
    | _ \<Rightarrow> None)"

text \<open>Over one block.\<close>

fun checkRedundantAssertion :: "pass \<Rightarrow> (stmt \<Rightarrow> bool) \<Rightarrow> stmt list \<Rightarrow> redundant_finding list" where
  "checkRedundantAssertion P claimed (s # s' # block) =
     (case redundant_pair P claimed s s' of Some f \<Rightarrow> [f] | None \<Rightarrow> []) @ checkRedundantAssertion P claimed (s' # block)"
| "checkRedundantAssertion P claimed _ = []"

subsection \<open>Failure guards\<close>

definition FailGuard :: string where "FailGuard = ''fail-guard''"

text \<open>What a file imports: a path and the name it gives it.  \<open>resolves\<close> says whether a name means gotest where it is written.\<close>

record file_scope =
  imports_of :: "(string \<times> string option) list"
  resolves :: "string \<Rightarrow> bool"

fun qualifier_in :: "(string \<Rightarrow> bool) \<Rightarrow> (string \<times> string option) list \<Rightarrow> string option" where
  "qualifier_in res [] = None"
| "qualifier_in res ((path, name) # imps) =
     (if path \<noteq> gotestImportPath then qualifier_in res imps
      else if name = Some ''.'' then Some []
      else (let n = (case name of Some n \<Rightarrow> n | None \<Rightarrow> ''gotest'')
            in if \<not> res n then qualifier_in res imps else Some (n @ ''.'')))"

definition gotestQualifier :: "file_scope \<Rightarrow> string option" where
  "gotestQualifier F = qualifier_in (resolves F) (imports_of F)"

record failGuardUnit =
  u_cond :: expr
  u_tArg :: expr
  u_msgArgs :: "expr list"
  u_qual :: string
  u_label :: string
  u_halting :: bool
  u_returns :: bool
  u_forceReport :: bool

text \<open>The one call of a body, and whether a bare return follows it.\<close>

definition only_call :: "stmt list \<Rightarrow> (expr \<times> expr list \<times> bool) option" where
  "only_call body = (case body of
      [ExprStmt (CallExpr fn args)] \<Rightarrow> Some (fn, args, False)
    | [ExprStmt (CallExpr fn args), ReturnStmt []] \<Rightarrow> Some (fn, args, True)
    | _ \<Rightarrow> None)"

definition extractHaltingUnit :: "pass \<Rightarrow> file_scope \<Rightarrow> expr \<Rightarrow> stmt list \<Rightarrow> failGuardUnit option" where
  "extractHaltingUnit P F cond body = (case only_call body of
      None \<Rightarrow> None
    | Some (fn, args, hasReturn) \<Rightarrow>
        if assertionFuncName P fn = ''Fail'' \<and> args \<noteq> [] then
          Some \<lparr>u_cond = cond, u_tArg = hd args, u_msgArgs = drop 1 args, u_qual = assertionQualifier fn,
            u_label = ''Fail'', u_halting = True, u_returns = False, u_forceReport = False\<rparr>
        else (case fn of
            SelectorExpr x name \<Rightarrow>
              (let onTestingT = namedPtrType (typeOf P x) ''testing'' ''T'';
                   onGotestT = namedPtrType (typeOf P x) gotestImportPath ''T'';
                   halting = (name = ''FailNow'' \<and> (onTestingT \<or> onGotestT) \<or> (name = ''Fatal'' \<or> name = ''Fatalf'') \<and> onTestingT);
                   weak = (name = ''Errorf'' \<and> (onTestingT \<or> onGotestT) \<or> name = ''Error'' \<and> onTestingT)
               in if \<not> halting \<and> \<not> weak then None
                  else (case gotestQualifier F of
                      None \<Rightarrow> None
                    | Some qual \<Rightarrow> Some \<lparr>u_cond = cond, u_tArg = x, u_msgArgs = (if name \<noteq> ''FailNow'' then args else []),
                        u_qual = qual, u_label = name, u_halting = halting, u_returns = hasReturn,
                        u_forceReport = (\<not> halting \<and> hasReturn \<or> name = ''Fatal'' \<and> length args > 1)\<rparr>))
          | _ \<Rightarrow> None))"

text \<open>The branches of an if-statement with every else-if, and whether one has an init statement.\<close>

fun collectFailChain :: "pass \<Rightarrow> file_scope \<Rightarrow> stmt \<Rightarrow> (failGuardUnit list \<times> bool) option" where
  "collectFailChain P F (IfStmt init cond body els) = (case extractHaltingUnit P F cond body of
      None \<Rightarrow> None
    | Some u \<Rightarrow> (case els of
          None \<Rightarrow> Some ([u], init)
        | Some e \<Rightarrow> (case collectFailChain P F e of None \<Rightarrow> None | Some (us, i) \<Rightarrow> Some (u # us, init \<or> i))))"
| "collectFailChain P F s = None"

fun splitOr :: "expr \<Rightarrow> expr list" where
  "splitOr (ParenExpr e) = splitOr e"
| "splitOr (BinaryExpr op a b) = (if op = LOR then splitOr a @ splitOr b else [BinaryExpr op a b])"
| "splitOr e = [e]"

fun isTotalExpr :: "expr \<Rightarrow> bool" where
  "isTotalExpr (BasicLit k v) = True"
| "isTotalExpr (Ident n) = True"
| "isTotalExpr (ParenExpr e) = isTotalExpr e"
| "isTotalExpr e = False"

definition msgArgsSafe :: "expr list \<Rightarrow> bool" where
  "msgArgsSafe = list_all isTotalExpr"

record failGuardPlan =
  p_m :: conditionMapping
  p_tArg :: expr
  p_msgArgs :: "expr list"
  p_qual :: string

definition plan_of :: "pass \<Rightarrow> failGuardUnit \<Rightarrow> expr \<Rightarrow> failGuardPlan" where
  "plan_of P u cond =
     \<lparr>p_m = (case mapBoolExpr P cond True of Some m \<Rightarrow> m | None \<Rightarrow> mapping ''False'' [cond] ''failure guard''),
      p_tArg = u_tArg u, p_msgArgs = u_msgArgs u, p_qual = u_qual u\<rparr>"

definition unit_plans :: "pass \<Rightarrow> failGuardUnit \<Rightarrow> failGuardPlan list" where
  "unit_plans P u = map (plan_of P u) (splitOr (u_cond u))"

definition weakLabel :: "failGuardUnit list \<Rightarrow> string" where
  "weakLabel us = (case List.find (\<lambda>u. \<not> u_halting u \<and> \<not> u_returns u) us of Some u \<Rightarrow> u_label u | None \<Rightarrow> [])"

definition plan_noFix :: "failGuardPlan list \<Rightarrow> string" where
  "plan_noFix ps = (case List.find (\<lambda>p. cm_noFix (p_m p) \<noteq> []) ps of Some p \<Rightarrow> cm_noFix (p_m p) | None \<Rightarrow> [])"

text \<open>A finding: its message, and the assertions to write, one to a line, with their qualifiers.\<close>

record guard_finding =
  g_msg :: string
  g_fix :: "(string \<times> rewrite) list option"

definition plan_line :: "failGuardPlan \<Rightarrow> string \<times> rewrite" where
  "plan_line p = (p_qual p, \<lparr>rw_target = cm_target (p_m p), rw_args = p_tArg p # cm_args (p_m p), rw_msgs = p_msgArgs p\<rparr>)"

text \<open>\<open>interior\<close>: a comment on a later line of the statement.  \<open>claimed\<close>: another rule has a finding inside it.\<close>

definition checkFailGuard :: "pass \<Rightarrow> file_scope \<Rightarrow> bool \<Rightarrow> bool \<Rightarrow> stmt \<Rightarrow> guard_finding option" where
  "checkFailGuard P F claimed interior s = (case collectFailChain P F s of
      None \<Rightarrow> None
    | Some (us, hasInit) \<Rightarrow>
        if us = [] \<or> claimed then None
        else (let plans = concat (map (unit_plans P) us);
                  desc = (if length us > 1 then ''else-if failure guard''
                    else if length plans > 1 then ''or-chained failure guard'' else cm_desc (p_m (hd plans)));
                  msg = use_instead (join '' + '' (map (\<lambda>p. cm_target (p_m p)) plans)) (''if+'' @ u_label (hd us)) desc;
                  weak = weakLabel us;
                  noFix = plan_noFix plans;
                  fixable = (\<not> hasInit \<and> \<not> list_ex u_forceReport us \<and> list_all (\<lambda>p. msgArgsSafe (p_msgArgs p)) plans)
              in if weak \<noteq> [] then Some \<lparr>g_msg = msg @ dash @ ''assertions halt where '' @ weak @ '' continues'', g_fix = None\<rparr>
                 else if noFix \<noteq> [] then Some \<lparr>g_msg = msg @ dash @ noFix, g_fix = None\<rparr>
                 else Some \<lparr>g_msg = msg, g_fix = (if fixable \<and> \<not> interior then Some (map plan_line plans) else None)\<rparr>))"

text \<open>
  The if-statements of a file: one that is the else of another is part of its chain and is never
  looked at alone.
\<close>

fun guards_in :: "stmt \<Rightarrow> stmt list" and guards_in_else :: "stmt option \<Rightarrow> stmt list" and guards_in_block :: "stmt list \<Rightarrow> stmt list" where
  "guards_in (IfStmt i c body els) = IfStmt i c body els # guards_in_block body @ guards_in_else els"
| "guards_in (BlockStmt ss) = guards_in_block ss"
| "guards_in _ = []"
| "guards_in_else None = []"
| "guards_in_else (Some s) = (case s of IfStmt i c body els \<Rightarrow> guards_in_block body @ guards_in_else els | _ \<Rightarrow> guards_in s)"
| "guards_in_block [] = []"
| "guards_in_block (s # ss) = guards_in s @ guards_in_block ss"

end
