(* ===== verification/LintFlow.thy ===== *)
theory LintFlow
  imports LintKeeps LintGuards
begin

text \<open>
  The rules on statements.  A guard's lines halt the test where the if-statement did, each branch by
  its own lines (\<open>chain_lines\<close>, \<open>chain_stops\<close>), and every branch of a guard that is rewritten halts
  (\<open>chain_halts\<close>).  What passes \<open>Len\<close>, \<open>Contains\<close> or \<open>NotEmpty\<close> is neither nil nor empty (\<open>len_filled\<close>,
  \<open>contains_filled\<close>, \<open>not_nil_implied\<close>).
\<close>

subsection \<open>Failure guards\<close>

lemma splitOr_false:
  "(eval P R c = Some (VBool False)) = list_all (\<lambda>d. eval P R d = Some (VBool False)) (splitOr c)"
proof (induction c)
  case (BinaryExpr op a b)
  show ?case
  proof (cases "op = LOR")
    case True
    have "(eval P R (BinaryExpr op a b) = Some (VBool False)) = (eval P R a = Some (VBool False) \<and> eval P R b = Some (VBool False))"
      by (auto simp: True is_comparison_def split: option.splits gval.splits bool.splits)
    then show ?thesis using BinaryExpr True by simp
  qed simp
qed simp_all

lemma plan_sound:
  assumes "cm_noFix (p_m (plan_of P u c)) = []" "checks P (cm_target (p_m (plan_of P u c))) (cm_args (p_m (plan_of P u c)))"
    and w: "well_typed P R" and pl: "list_all plain (run_types R)"
  shows "verdict P R None (cm_target (p_m (plan_of P u c))) (cm_args (p_m (plan_of P u c))) = (eval P R c = Some (VBool False))"
proof (cases "mapBoolExpr P c True")
  case None
  then show ?thesis by (simp add: plan_of_def verdict1_simps)
next
  case (Some m)
  then show ?thesis using mapBoolExpr_sound[OF Some _ _ w pl] assms(1,2) by (simp add: plan_of_def)
qed

definition line_passes :: "pass \<Rightarrow> run \<Rightarrow> string \<times> rewrite \<Rightarrow> bool" where
  "line_passes P R l = verdict P R None (rw_target (snd l)) (drop 1 (rw_args (snd l)))"

definition line_checks :: "pass \<Rightarrow> string \<times> rewrite \<Rightarrow> bool" where
  "line_checks P l = checks P (rw_target (snd l)) (drop 1 (rw_args (snd l)))"

definition line_report :: "string \<times> rewrite \<Rightarrow> expr \<times> expr list" where
  "line_report l = (hd (rw_args (snd l)), rw_msgs (snd l))"

lemma find_append: "List.find Q (xs @ ys) = (case List.find Q xs of None \<Rightarrow> List.find Q ys | Some x \<Rightarrow> Some x)"
  by (induction xs) auto

lemma unit_lines:
  assumes w: "well_typed P R" and pl: "list_all plain (run_types R)"
    and c: "list_all (\<lambda>p. cm_noFix (p_m p) = [] \<and> line_checks P (plan_line p)) (unit_plans P u)"
  shows "map_option line_report (List.find (\<lambda>l. \<not> line_passes P R l) (map plan_line (unit_plans P u))) =
    (if eval P R (u_cond u) = Some (VBool False) then None else Some (u_tArg u, u_msgArgs u))"
proof -
  have pass: "line_passes P R (plan_line p) = (eval P R d = Some (VBool False))" if "p = plan_of P u d" "d \<in> set (splitOr (u_cond u))" for p d
    using plan_sound[of P u d R, OF _ _ w pl] c that by (auto simp: line_passes_def plan_line_def line_checks_def unit_plans_def list_all_iff)
  have rep: "line_report (plan_line (plan_of P u d)) = (u_tArg u, u_msgArgs u)" for d
    by (simp add: line_report_def plan_line_def plan_of_def)
  have "map_option line_report (List.find (\<lambda>l. \<not> line_passes P R l) (map (\<lambda>d. plan_line (plan_of P u d)) ds)) =
    (if list_all (\<lambda>d. eval P R d = Some (VBool False)) ds then None else Some (u_tArg u, u_msgArgs u))"
    if "set ds \<subseteq> set (splitOr (u_cond u))" for ds
    using that by (induction ds) (simp_all add: pass rep del: map_option_eq_Some)
  from this[of "splitOr (u_cond u)"] show ?thesis by (simp add: unit_plans_def splitOr_false[of P R "u_cond u"] o_def)
qed

lemma chain_lines:
  assumes w: "well_typed P R" and pl: "list_all plain (run_types R)"
    and c: "list_all (\<lambda>p. cm_noFix (p_m p) = [] \<and> line_checks P (plan_line p)) (concat (map (unit_plans P) us))"
  shows "map_option line_report (List.find (\<lambda>l. \<not> line_passes P R l) (map plan_line (concat (map (unit_plans P) us)))) =
    map_option (\<lambda>u. (u_tArg u, u_msgArgs u)) (List.find (\<lambda>u. eval P R (u_cond u) \<noteq> Some (VBool False)) us)"
  using c
proof (induction us)
  case (Cons u us)
  then have "list_all (\<lambda>p. cm_noFix (p_m p) = [] \<and> line_checks P (plan_line p)) (unit_plans P u)" by simp
  from unit_lines[OF w pl this] Cons show ?case by (auto simp: find_append split: option.splits if_splits)
qed simp

text \<open>The branch of an if-statement at which the test stops, its condition being the first that is not false.\<close>

fun stops_at :: "pass \<Rightarrow> run \<Rightarrow> stmt \<Rightarrow> (expr \<times> stmt list) option" where
  "stops_at P R (IfStmt i c body els) =
     (if eval P R c = Some (VBool False) then (case els of None \<Rightarrow> None | Some e \<Rightarrow> stops_at P R e) else Some (c, body))"
| "stops_at P R s = None"

text \<open>What the one call of a body is given: the test and the message.\<close>

definition body_report :: "pass \<Rightarrow> file_scope \<Rightarrow> expr \<times> stmt list \<Rightarrow> (expr \<times> expr list) option" where
  "body_report P F b = map_option (\<lambda>u. (u_tArg u, u_msgArgs u)) (extractHaltingUnit P F (fst b) (snd b))"

lemma unit_cond: "extractHaltingUnit P F c body = Some u \<Longrightarrow> u_cond u = c"
  by (auto simp: extractHaltingUnit_def Let_def split: option.splits prod.splits if_splits expr.splits)

lemma chain_stops:
  assumes "collectFailChain P F s = Some (us, i)"
  shows "map_option (\<lambda>u. Some (u_tArg u, u_msgArgs u)) (List.find (\<lambda>u. eval P R (u_cond u) \<noteq> Some (VBool False)) us) =
    map_option (body_report P F) (stops_at P R s)"
  using assms
proof (induction P F s arbitrary: us i rule: collectFailChain.induct)
  case (1 P F init cond body els)
  then obtain u where u: "extractHaltingUnit P F cond body = Some u" by (auto split: option.splits)
  show ?case
  proof (cases els)
    case None
    then show ?thesis using 1(2) u unit_cond[OF u] by (auto simp: body_report_def)
  next
    case (Some e)
    with 1(2) u obtain vs j where v: "collectFailChain P F e = Some (vs, j)" "us = u # vs" by (auto split: option.splits)
    show ?thesis using 1(1)[OF u Some v(1)] v(2) u unit_cond[OF u] Some by (auto simp: body_report_def)
  qed
qed simp_all

lemma unit_halts:
  assumes "extractHaltingUnit P F c body = Some u" "u_halting u \<or> u_returns u" "\<not> u_forceReport u"
  shows "u_halting u"
proof -
  obtain fn args r where b: "only_call body = Some (fn, args, r)" using assms(1) by (auto simp: extractHaltingUnit_def split: option.splits)
  show ?thesis
  proof (cases "assertionFuncName P fn = ''Fail'' \<and> args \<noteq> []")
    case True
    then show ?thesis using assms(1) b by (auto simp: extractHaltingUnit_def)
  next
    case False
    then show ?thesis using assms b
      by (cases fn) (auto simp: extractHaltingUnit_def Let_def simp del: de_Morgan_conj split: option.splits if_splits)
  qed
qed

lemma chain_halts:
  "collectFailChain P F s = Some (us, i) \<Longrightarrow> list_all (\<lambda>u. u_halting u \<or> u_returns u) us \<Longrightarrow>
    \<not> list_ex u_forceReport us \<Longrightarrow> list_all u_halting us"
proof (induction P F s arbitrary: us i rule: collectFailChain.induct)
  case (1 P F init cond body els)
  then obtain u where u: "extractHaltingUnit P F cond body = Some u" by (auto split: option.splits)
  show ?case
  proof (cases els)
    case None
    then show ?thesis using 1(2-4) u unit_halts[OF u] by auto
  next
    case (Some e)
    with 1(2) u obtain vs j where v: "collectFailChain P F e = Some (vs, j)" "us = u # vs" by (auto split: option.splits)
    show ?thesis using 1(1)[OF u Some v(1)] v(2) 1(3,4) unit_halts[OF u] by auto
  qed
qed simp_all

lemma find_none: "(case List.find Q xs of Some x \<Rightarrow> f x | None \<Rightarrow> []) = [] \<Longrightarrow> (\<And>x. Q x \<Longrightarrow> f x \<noteq> []) \<Longrightarrow> list_all (\<lambda>x. \<not> Q x) xs"
  by (induction xs) (auto split: if_splits)

lemma unit_label: "extractHaltingUnit P F c body = Some u \<Longrightarrow> u_halting u \<or> u_label u \<noteq> []"
  by (auto simp: extractHaltingUnit_def Let_def split: option.splits prod.splits if_splits expr.splits)

lemma chain_labels: "collectFailChain P F s = Some (us, i) \<Longrightarrow> list_all (\<lambda>u. u_halting u \<or> u_label u \<noteq> []) us"
proof (induction P F s arbitrary: us i rule: collectFailChain.induct)
  case (1 P F init cond body els)
  then obtain u where u: "extractHaltingUnit P F cond body = Some u" by (auto split: option.splits)
  show ?case
  proof (cases els)
    case None
    then show ?thesis using 1(2) u unit_label[OF u] by auto
  next
    case (Some e)
    with 1(2) u obtain vs j where v: "collectFailChain P F e = Some (vs, j)" "us = u # vs" by (auto split: option.splits)
    show ?thesis using 1(1)[OF u Some v(1)] v(2) unit_label[OF u] by auto
  qed
qed simp_all

lemma guard_fix:
  assumes "checkFailGuard P F claimed interior s = Some fd" "g_fix fd = Some ls"
  obtains us where "collectFailChain P F s = Some (us, False)" "ls = map plan_line (concat (map (unit_plans P) us))"
    "weakLabel us = []" "plan_noFix (concat (map (unit_plans P) us)) = []" "\<not> list_ex u_forceReport us"
proof -
  obtain us i where c: "collectFailChain P F s = Some (us, i)" using assms(1) by (auto simp: checkFailGuard_def split: option.splits)
  then show ?thesis using assms that[of us]
    by (auto simp: checkFailGuard_def Let_def split: if_splits)
qed

subsection \<open>Redundant assertions\<close>

lemma includes_nonempty:
  assumes "fst (IncludesElement W a b)" "\<And>t v r u. a = Some (t, v) \<Longrightarrow> kind_of t = KString \<Longrightarrow> b = Some (r, VString u) \<Longrightarrow> kind_of r = KString \<Longrightarrow> u \<noteq> []"
  shows "\<exists>r v. a = Some (r, v) \<and> kind_of r \<in> {KSlice, KArray, KMap, KString} \<and> value_len v \<noteq> 0"
proof (cases a)
  case None
  then show ?thesis using assms(1) by (simp add: IncludesElement_def)
next
  case (Some tv)
  obtain t v where tv: "tv = (t, v)" by fastforce
  note inc = assms(1)[unfolded Some tv IncludesElement_def option.case prod.case]
  have some: "list_ex f xs \<Longrightarrow> xs \<noteq> []" for f :: "gval \<Rightarrow> bool" and xs by (cases xs) auto
  obtain x where x: "underlying t = x" by blast
  have "kind_of t \<in> {KSlice, KArray, KMap, KString} \<and> value_len v \<noteq> 0"
  proof (cases "\<exists>e k kt. x = Slice e \<or> x = Array k e \<or> x = MapType kt e")
    case True
    then consider (s) e where "x = Slice e" | (a) k e where "x = Array k e" | (m) k e where "x = MapType k e" by blast
    then show ?thesis
    proof cases
      case s
      have "kind_of t = KSlice" by (simp add: kind_of_def x s)
      moreover have "value_len v \<noteq> 0" using inc[unfolded x s]
        by (auto simp: Let_def split: sum.splits gval.splits option.splits dest!: some)
      ultimately show ?thesis by simp
    next
      case a
      have "kind_of t = KArray" by (simp add: kind_of_def x a)
      moreover have "value_len v \<noteq> 0" using inc[unfolded x a]
        by (auto simp: Let_def split: sum.splits gval.splits option.splits dest!: some)
      ultimately show ?thesis by simp
    next
      case m
      have "kind_of t = KMap" by (simp add: kind_of_def x m)
      moreover have "value_len v \<noteq> 0" using inc[unfolded x m]
        by (auto simp: Let_def map_lookup_def split: sum.splits gval.splits option.splits if_splits)
      ultimately show ?thesis by simp
    qed
  next
    case False
    have g: "(case x of Slice e \<Rightarrow> p e | Array k e \<Rightarrow> q k e | MapType kt e \<Rightarrow> r kt e | _ \<Rightarrow> d) = d" for p q r and d :: "bool \<times> string"
      using False by (cases x) auto
    have k: "kind_of t = KString" using inc[unfolded x g] by (auto split: if_splits)
    then obtain ev where ev: "b = Some ev" "kind_of (fst ev) = KString" using inc[unfolded x g] by (cases b) (auto split: if_splits)
    obtain s u where su: "v = VString s" "snd ev = VString u" "str_contains s u"
      using inc[unfolded x g] k ev by (cases v; cases "snd ev") auto
    have "u \<noteq> []" using assms(2)[of t v "fst ev" u] Some tv k ev su(2) by (metis prod.collapse)
    then have "value_len v \<noteq> 0" using su(1,3) by (cases s) (auto simp: str_contains_def)
    then show ?thesis using k by simp
  qed
  then show ?thesis using Some tv by blast
qed

lemma needle_not_empty:
  assumes w: "well_typed P R" and n: "\<not> mayBeEmptyString P e" and v: "any_arg P R e = Some (Some (r, VString u))" "kind_of r = KString"
  shows "u \<noteq> []"
proof -
  from n obtain t where t: "typeOf P e = Some t" by (auto simp: mayBeEmptyString_def split: option.splits)
  have nn: "\<not> isNilIdent e" using v(1) by (auto simp: any_arg_def to_any_def)
  obtain z where z: "eval P R e = Some z" using v(1) nn any_arg_panic[OF nn] by (cases "eval P R e") auto
  note aa = any_arg_value[OF nn t z]
  show ?thesis
  proof (cases "constOf P e")
    case (Some c)
    have "case c of StringConst s \<Rightarrow> z = VString s | OtherConst \<Rightarrow> \<not> is_viface z \<and> (\<forall>s. z \<noteq> VString s)"
      using w z Some unfolding well_typed_def by blast
    then show ?thesis using n t Some aa v(1) by (cases c; cases z) (auto simp: mayBeEmptyString_def is_viface_def)
  next
    case None
    with n t obtain core where core: "CoreType t = Some core" "\<nexists>ms es. core = Interface ms es" "\<nexists>b. core = Basic b \<and> is_string b"
      by (auto simp: mayBeEmptyString_def split: option.splits gotype.splits)
    have k: "kind_of (runtime R t) = kind_of core" by (rule core_value[OF w t nn core(1)])
    have u: "underlying core = core" by (rule core_underlying[OF core(1)])
    have "kind_of core \<noteq> KInterface" using core(2) u by (auto simp: interface_kind[symmetric] is_interface_def split: gotype.splits)
    moreover have "kind_of core \<noteq> KString" using core(3) u by (auto simp: kind_string)
    ultimately show ?thesis using aa v typed_value(4)[OF w t nn z] k not_iface[of "kind_of (runtime R t)" z "runtime R t"] by auto
  qed
qed

lemma extract_call:
  assumes "extractAssertionCall P s = Some a"
  obtains t rest where "pa_args a = t # guardedArg a # rest"
proof -
  have "length (pa_args a) \<ge> 2 \<and> guardedArg a = pa_args a ! 1"
    using assms by (auto simp: extractAssertionCall_def Let_def split: stmt.splits expr.splits if_splits)
  then show ?thesis using that by (cases "pa_args a"; cases "drop 1 (pa_args a)") (auto simp: Let_def)
qed

lemma weaker_verdict:
  assumes "extractAssertionCall P s = Some a" "arity (pa_name a) = 1"
  shows "call_verdict P R V (pa_name a) (pa_args a) = verdict1 P R V (pa_name a) (guardedArg a)"
proof -
  from extract_call[OF assms(1)] obtain t rest where "pa_args a = t # guardedArg a # rest" .
  then show ?thesis using operands1[OF assms(2)] by (simp add: call_verdict_def)
qed

lemma stronger_verdict:
  assumes "extractAssertionCall P s = Some a" "call_verdict P R V (pa_name a) (pa_args a)"
    "pa_name a \<in> {''ErrorIs'', ''ErrorContains'', ''Len'', ''Contains''}"
  shows "verdict2 P R V (pa_name a) (guardedArg a) (pa_args a ! 2)"
proof -
  from extract_call[OF assms(1)] obtain t rest where r: "pa_args a = t # guardedArg a # rest" .
  have "arity (pa_name a) = 2" using assms(3) by (auto simp: arity_def)
  then have v: "verdict P R V (pa_name a) (take 2 (guardedArg a # rest))"
    using assms(2) by (simp add: call_verdict_def operands_def r)
  have "\<not> verdict1 P R V (pa_name a) (guardedArg a)" using assms(3) by (auto simp: verdict1_def Let_def)
  with v r show ?thesis by (cases rest) auto
qed

lemma any1_E: "any1 f a \<Longrightarrow> \<exists>x. a = Some x \<and> f x"
  by (auto simp: any1_def split: option.splits)

lemma error_implied:
  "verdict2 P R V ''ErrorIs'' x y \<Longrightarrow> verdict1 P R U ''Error'' x"
  "verdict2 P R V ''ErrorContains'' x y \<Longrightarrow> verdict1 P R U ''Error'' x"
  "verdict1 P R V ''ErrorAs'' x \<Longrightarrow> verdict1 P R U ''Error'' x"
proof -
  show "verdict2 P R V ''ErrorIs'' x y \<Longrightarrow> verdict1 P R U ''Error'' x"
    by (auto simp: verdict2_def Let_def verdict1_simps any1_def any2_def assertErrorIs_def errorsIs_def unless_def
      split: option.splits if_splits)
  show "verdict2 P R V ''ErrorContains'' x y \<Longrightarrow> verdict1 P R U ''Error'' x"
    by (auto simp: verdict2_def Let_def verdict1_simps any1_def assertErrorContains_def unless_def
      split: option.splits if_splits gval.splits)
  show "verdict1 P R V ''ErrorAs'' x \<Longrightarrow> verdict1 P R U ''Error'' x"
    unfolding verdict1_simps by (auto simp: verdict1_def Let_def any1_def assertErrorAs_def split: option.splits if_splits)
qed

text \<open>What passes \<open>NotEmpty\<close>, \<open>Len\<close> of a length but 0 or \<open>Contains\<close> has elements, or is a pointer to what has.\<close>

definition filled :: "any \<Rightarrow> bool" where
  "filled a \<longleftrightarrow> (\<exists>r v. a = Some (r, v) \<and> kind_of r \<in> length_kinds \<and> value_len v \<noteq> 0)"

lemma filled_not_empty: "filled a \<Longrightarrow> IsEmptyable a \<and> IsEmpty pt a = Some False"
  by (auto simp: filled_def IsEmptyable_def IsEmpty.simps)

lemma len_filled:
  assumes v: "verdict2 P R V ''Len'' x y" and n: "eval P R y \<noteq> Some (VInt 0)"
  shows "any1 filled (any_arg P R x)"
proof -
  from v have "any1 (\<lambda>e. case eval P R y of Some (VInt n) \<Rightarrow> assertLen (run_world R) e n = [] | _ \<Rightarrow> False) (any_arg P R x)"
    by (simp add: verdict2_def Let_def)
  from any1_E[OF this] obtain e where "any_arg P R x = Some e" "case eval P R y of Some (VInt n) \<Rightarrow> assertLen (run_world R) e n = [] | _ \<Rightarrow> False"
    by blast
  moreover from this obtain k where "eval P R y = Some (VInt k)" "assertLen (run_world R) e k = []"
    by (auto split: option.splits gval.splits)
  ultimately show ?thesis using n
    by (cases e) (auto simp: any1_def filled_def assertLen_def Length_def unless_def Let_def split: if_splits)
qed

lemma contains_filled:
  assumes v: "verdict2 P R V ''Contains'' x y"
    and ne: "\<And>t z r u. any_arg P R x = Some (Some (t, z)) \<Longrightarrow> kind_of t = KString \<Longrightarrow>
      any_arg P R y = Some (Some (r, VString u)) \<Longrightarrow> kind_of r = KString \<Longrightarrow> u \<noteq> []"
  shows "any1 filled (any_arg P R x)"
proof -
  from v obtain a b where ab: "any_arg P R x = Some a" "any_arg P R y = Some b" "assertContains (run_world R) a b = []"
    by (auto simp: verdict2_def Let_def any2_def split: option.splits)
  have "fst (IncludesElement (run_world R) a b)"
    using ab(3) by (auto simp: assertContains_def unless_def split: prod.splits if_splits)
  from includes_nonempty[OF this] ne ab show ?thesis
    by (fastforce simp: any1_def filled_def length_kinds_def)
qed

lemma filled_passes_not_empty: "any1 filled (any_arg P R x) \<Longrightarrow> verdict1 P R V ''NotEmpty'' x"
  using filled_not_empty unfolding any1_def
  by (auto simp: verdict1_def Let_def any1_def assertNotEmpty_def unless_def split: option.splits)

lemma nilable_operand:
  assumes w: "well_typed P R" and k: "nilKindOf P x \<in> {comparableNil, uncomparableNil}" and a: "any_arg P R x = Some a"
  shows "\<exists>r v. a = Some (r, v) \<and> kind_of r \<in> {KPtr, KChan, KUnsafePointer, KSlice, KMap, KFunc} \<and> kind_of r \<in> kinds_of_value v"
proof -
  from nil_operand[OF w, of x] k obtain t where t: "\<not> isNilIdent x" "typeOf P x = Some t"
    and r: "kind_of (runtime R t) \<in> {KPtr, KChan, KUnsafePointer, KSlice, KMap, KFunc}" by (auto simp: nil_kinds_def)
  obtain v where v: "eval P R x = Some v" using a any_arg_panic[OF t(1)] by (cases "eval P R x") auto
  note kv = typed_value(4)[OF w t(2,1) v]
  show ?thesis using any_arg_value[OF t v] a r kv not_iface[OF kv, of "runtime R t"] by auto
qed

lemma not_nil_implied:
  assumes w: "well_typed P R" and k: "nilKindOf P x \<in> {comparableNil, uncomparableNil}"
    and f: "any1 filled (any_arg P R x) \<or> verdict1 P R V ''NotEmpty'' x"
  shows "verdict1 P R U ''NotNil'' x"
proof -
  have ne: "any1 (\<lambda>e. IsEmptyable e \<and> IsEmpty (pointee (run_world R)) e = Some False) (any_arg P R x)"
    using f filled_not_empty by (auto simp: verdict1_def Let_def any1_def assertNotEmpty_def unless_def split: option.splits if_splits)
  then obtain a where a: "any_arg P R x = Some a" "IsEmptyable a" "IsEmpty (pointee (run_world R)) a = Some False"
    by (auto simp: any1_def split: option.splits)
  from nilable_operand[OF w k a(1)] obtain r v where r: "a = Some (r, v)"
    "kind_of r \<in> {KPtr, KChan, KUnsafePointer, KSlice, KMap, KFunc}" "kind_of r \<in> kinds_of_value v" by blast
  have "\<not> value_nil v" using a(2,3) r by (auto simp: IsEmptyable_def IsEmpty.simps length_kinds_def split: if_splits)
  then show ?thesis using r(1,2) a(1) by (auto simp: verdict1_simps any1_def IsNilable_def IsNil_def nilable_kinds_def)
qed

text \<open>The rule: reasons by the two names.\<close>

lemma redundant_cases:
  assumes "isRedundantBefore P a b \<noteq> []"
  shows "pa_name a = ''Error'' \<and> pa_name b \<in> {''ErrorIs'', ''ErrorContains'', ''ErrorAs''} \<or>
    pa_name a = ''NotNil'' \<and> pa_name b \<in> {''NotEmpty'', ''Len'', ''Contains''} \<and> nilKindOf P (guardedArg a) \<noteq> notNilable \<or>
    pa_name a = ''NotEmpty'' \<and> pa_name b = ''Len'' \<or>
    pa_name a = ''NotEmpty'' \<and> pa_name b = ''Contains'' \<and> \<not> mayBeEmptyString P (pa_args b ! 2)"
  using assms unfolding isRedundantBefore_def Let_def by (simp split: if_splits)

end
