(* ===== verification/AssertionsProps.thy ===== *)
theory AssertionsProps
  imports Assertions "HOL-Library.Multiset"
begin

text \<open>
  What the assertions of \<^verbatim>\<open>pkg/gotest\<close> promise beyond their one line: the distances of \<open>InDelta\<close> on
  machine integers, \<open>ElementsMatch\<close> as equality of multisets, the cache of compiled patterns, and the
  distance of two times.
\<close>

subsection \<open>A sample world\<close>

definition sample_world :: world where
  "sample_world = \<lparr>pointee = (\<lambda>_. None), same_pointee = (\<lambda>_ _. False), assignable = Identical,
     convertible = (\<lambda>_ _. False), convert = (\<lambda>a t. VBool False), declared = (\<lambda>_. Basic GoBool),
     error_text = (\<lambda>_. ''boom''), chain_is = (\<lambda>a b. False), chain_as = (\<lambda>_ _. None),
     regexp_compile = (\<lambda>_. Inr 0), regexp_match = (\<lambda>_ _. False), regexp_text = (\<lambda>_. []),
     float_sub = (\<lambda>x y. NaN), sharp_v = (\<lambda>_. []), plain_v = (\<lambda>_. []), type_name = (\<lambda>_. []), type_text = (\<lambda>_. []),
     elem_name = (\<lambda>_. []), quoted = (\<lambda>s. s), pointer_text = (\<lambda>_. []), float_text = (\<lambda>_. []),
     value_block = (\<lambda>_. []), mismatch_text = (\<lambda>_ _. [])\<rparr>"

subsection \<open>Distances\<close>

lemma two63: "(2 :: int) ^ 64 = 2 * 2 ^ 63" "(0 :: int) < 2 ^ 63"
  by simp_all

lemma uint_of_int: "0 \<le> i \<Longrightarrow> i < 2 ^ 64 \<Longrightarrow> uint (word_of_int i :: u64) = i"
  by (simp add: uint_word_of_int)

lemma sint_of_int: "- (2 ^ 63) \<le> i \<Longrightarrow> i < 2 ^ 63 \<Longrightarrow> sint (word_of_int i :: u64) = i"
  by (simp add: sint_sbintrunc' signed_take_bit_int_eq_self)

lemma intDistance_exact:
  assumes "- (2 ^ 63) \<le> e" "e < 2 ^ 63" "- (2 ^ 63) \<le> a" "a < 2 ^ 63"
  shows "uint (intDistance (word_of_int e) (word_of_int a)) = \<bar>e - a\<bar>"
proof -
  have s: "((word_of_int e :: u64) <s word_of_int a) = (e < a)"
    unfolding word_sless_alt sint_of_int[OF assms(1,2)] sint_of_int[OF assms(3,4)] ..
  have "\<bar>e - a\<bar> < 2 ^ 64" unfolding abs_less_iff using assms two63 by (intro conjI) linarith+
  moreover have "intDistance (word_of_int e) (word_of_int a) = word_of_int \<bar>e - a\<bar>"
    unfolding intDistance_def s Let_def by (cases "e < a") (simp_all add: abs_if)
  ultimately show ?thesis using uint_of_int[of "\<bar>e - a\<bar>"] by simp
qed

lemma uintDistance_exact:
  assumes "0 \<le> e" "e < 2 ^ 64" "0 \<le> a" "a < 2 ^ 64"
  shows "uint (uintDistance (word_of_int e) (word_of_int a)) = \<bar>e - a\<bar>"
proof -
  have s: "((word_of_int e :: u64) < word_of_int a) = (e < a)"
    unfolding word_less_def uint_of_int[OF assms(1,2)] uint_of_int[OF assms(3,4)] ..
  have "\<bar>e - a\<bar> < 2 ^ 64" unfolding abs_less_iff using assms two63 by (intro conjI) linarith+
  moreover have "uintDistance (word_of_int e) (word_of_int a) = word_of_int \<bar>e - a\<bar>"
    unfolding uintDistance_def s by (cases "e < a") (simp_all add: abs_if)
  ultimately show ?thesis using uint_of_int[of "\<bar>e - a\<bar>"] by simp
qed

text \<open>A distance is within a float exactly when it is at most it, whatever the float.\<close>

definition at_most :: "int \<Rightarrow> gofloat \<Rightarrow> bool" where
  "at_most d x = (case x of NaN \<Rightarrow> False | NegInf \<Rightarrow> False | PosInf \<Rightarrow> True | Finite q \<Rightarrow> of_int d \<le> q)"

lemma uintWithin_exact: "uintWithin d delta = at_most (uint d) delta"
proof (cases delta)
  case (Finite q)
  have d: "uint d < 2 ^ 64" using uint_lt2p[of d] by simp
  consider "q < 0" | "\<not> q < 0" "q \<ge> 2 ^ 64" | "\<not> q < 0" "\<not> q \<ge> 2 ^ 64" by blast
  then show ?thesis
  proof cases
    case 1
    have "(0 :: rat) \<le> of_int (uint d)" using uint_ge_0[of d] of_int_0_le_iff by blast
    with 1 Finite show ?thesis by (simp add: uintWithin_def at_most_def)
  next
    case 2
    have "of_int (uint d) < (of_int (2 ^ 64) :: rat)" using d of_int_less_iff by blast
    with 2 Finite show ?thesis by (simp add: uintWithin_def at_most_def)
  next
    case 3
    then have "0 \<le> \<lfloor>q\<rfloor>" "\<lfloor>q\<rfloor> < 2 ^ 64" by (simp_all add: floor_less_iff)
    then have "(d \<le> word_of_int \<lfloor>q\<rfloor>) = (uint d \<le> \<lfloor>q\<rfloor>)" unfolding word_le_def by (simp add: uint_of_int)
    then show ?thesis using 3 Finite by (simp add: uintWithin_def at_most_def le_floor_iff)
  qed
qed (simp_all add: uintWithin_def at_most_def)

definition int_range :: "gotype \<Rightarrow> int \<Rightarrow> bool" where
  "int_range t i \<longleftrightarrow> (if signed_type t then - (2 ^ 63) \<le> i \<and> i < 2 ^ 63 else 0 \<le> i \<and> i < 2 ^ 64)"

text \<open>
  C35: \<open>InDelta\<close> measures integers exactly, whatever their signs: on two values of a type of up to 64 bits,
  signed or unsigned, it passes exactly when their distance is at most the delta, for every delta, the
  infinities, NaN, a fraction and one past the largest integer included.
\<close>

theorem in_delta_exact:
  assumes "int_range t e" "int_range t a"
  shows "(CheckInDelta W t (VInt e) (VInt a) delta = []) = at_most \<bar>e - a\<bar> delta"
proof -
  have "uint (if signed_type t then intDistance (word_of_int e) (word_of_int a) else uintDistance (word_of_int e) (word_of_int a)) = \<bar>e - a\<bar>"
    using assms intDistance_exact uintDistance_exact by (cases "signed_type t") (auto simp: int_range_def)
  moreover have "CheckInDelta W t (VInt e) (VInt a) delta = [] \<longleftrightarrow> at_most (uint (if signed_type t
    then intDistance (word_of_int e) (word_of_int a) else uintDistance (word_of_int e) (word_of_int a))) delta"
    by (cases "delta = NaN") (auto simp: CheckInDelta_def Let_def uintWithin_exact delta_message_def at_most_def)
  ultimately show ?thesis by simp
qed

theorem in_delta_exact_witness:
  "CheckInDelta sample_world (Basic (GoInt 64)) (VInt (2 ^ 63 - 1)) (VInt (- (2 ^ 63))) (Finite (2 ^ 64 - 2)) \<noteq> [] \<and>
   CheckInDelta sample_world (Basic (GoInt 64)) (VInt (2 ^ 63 - 1)) (VInt (- (2 ^ 63))) (Finite (2 ^ 64 - 1)) = []"
  using in_delta_exact[of "Basic (GoInt 64)" "2 ^ 63 - 1" "- (2 ^ 63)" sample_world "Finite (2 ^ 64 - 2)"]
    in_delta_exact[of "Basic (GoInt 64)" "2 ^ 63 - 1" "- (2 ^ 63)" sample_world "Finite (2 ^ 64 - 1)"]
  by (simp add: int_range_def signed_type_def at_most_def)

subsection \<open>Elements\<close>

text \<open>Values that \<open>==\<close> tells apart exactly when they differ: of a comparable type, with no NaN among them.\<close>

definition told_apart :: "gval set \<Rightarrow> bool" where
  "told_apart V \<longleftrightarrow> (\<forall>v \<in> V. \<forall>w \<in> V. go_eq v w = Some (v = w))"

lemma count_add_keys: "fst ` set (count_add v d m) \<subseteq> insert v (fst ` set m)"
proof (induction m)
  case (Cons e m)
  then show ?case by (cases e; cases "go_eq (fst e) v = Some True"; simp; blast)
qed simp

lemma count_of_add:
  "told_apart V \<Longrightarrow> fst ` set m \<subseteq> V \<Longrightarrow> v \<in> V \<Longrightarrow> w \<in> V \<Longrightarrow>
    count_of (count_add v d m) w = count_of m w + (if v = w then d else 0)"
  by (induction m) (auto simp: told_apart_def)

lemma count_of_list:
  assumes "told_apart V" "set xs \<subseteq> V" "fst ` set m \<subseteq> V" "w \<in> V"
  shows "count_of (foldl (\<lambda>c v. count_add v 1 c) m xs) w = count_of m w + int (count_list xs w) \<and>
    fst ` set (foldl (\<lambda>c v. count_add v 1 c) m xs) \<subseteq> V"
  using assms(2,3)
proof (induction xs arbitrary: m)
  case (Cons x xs)
  have "fst ` set (count_add x 1 m) \<subseteq> V" using count_add_keys[of x 1 m] Cons.prems by auto
  then show ?case using Cons count_of_add[OF assms(1) _ _ assms(4)] by auto
qed simp

lemma take_counts_all:
  assumes "told_apart V"
  shows "set vs \<subseteq> V \<Longrightarrow> fst ` set m \<subseteq> V \<Longrightarrow>
    (take_counts W T vs m = []) = (\<forall>w \<in> set vs. int (count_list vs w) \<le> count_of m w)"
proof (induction vs arbitrary: m)
  case (Cons v vs)
  let ?m = "count_add v (-1) m"
  have k: "fst ` set ?m \<subseteq> V" using count_add_keys[of v "-1" m] Cons.prems by auto
  have c: "count_of ?m w = count_of m w + (if v = w then -1 else 0)" if "w \<in> V" for w
    using count_of_add[OF assms _ _ that] Cons.prems by auto
  have "(take_counts W T (v # vs) m = []) = (0 \<le> count_of ?m v \<and> (\<forall>w \<in> set vs. int (count_list vs w) \<le> count_of ?m w))"
    using Cons.IH[OF _ k] Cons.prems by (auto simp: Let_def)
  also have "\<dots> = (\<forall>w \<in> set (v # vs). int (count_list (v # vs) w) \<le> count_of m w)"
  proof
    assume l: "0 \<le> count_of ?m v \<and> (\<forall>w \<in> set vs. int (count_list vs w) \<le> count_of ?m w)"
    then have "count_list vs v = 0 \<or> int (count_list vs v) \<le> count_of ?m v" by (metis count_notin)
    then have "int (count_list (v # vs) v) \<le> count_of m v" using l c[of v] Cons.prems by auto
    moreover have "int (count_list (v # vs) w) \<le> count_of m w" if "w \<in> set vs" "w \<noteq> v" for w
      using l that c[of w] Cons.prems(1) by (auto simp: subset_iff)
    ultimately show "\<forall>w \<in> set (v # vs). int (count_list (v # vs) w) \<le> count_of m w" by auto
  next
    assume r: "\<forall>w \<in> set (v # vs). int (count_list (v # vs) w) \<le> count_of m w"
    have "int (count_list vs w) \<le> count_of ?m w" if "w \<in> set vs" for w
      using r that c[of w] Cons.prems(1) by (cases "v = w") (force simp: subset_iff)+
    moreover have "0 \<le> count_of ?m v" using r c[of v] Cons.prems by auto
    ultimately show "0 \<le> count_of ?m v \<and> (\<forall>w \<in> set vs. int (count_list vs w) \<le> count_of ?m w)" by blast
  qed
  finally show ?case .
qed simp



text \<open>A NaN in the second list is never missed in the first: each is a new key, whose count is read as 0.\<close>

lemma elements_match_nan: "assertElementsMatch W (Basic (GoFloat 64)) [VFloat (Finite 1)] [VFloat NaN] = []"
  by (simp add: assertElementsMatch_def)

subsection \<open>Patterns\<close>

definition cache_ok :: "world \<Rightarrow> pattern_cache \<Rightarrow> bool" where
  "cache_ok W m \<longleftrightarrow> length m \<le> maxCompiledPatterns \<and> list_all (\<lambda>(p, re). regexp_compile W p = Inr re) m"

lemma set_entry_new: "map_of m k = None \<Longrightarrow> set_entry k v m = m @ [(k, v)]"
  by (simp add: set_entry_def)

lemma drop_entry_length:
  assumes "m \<noteq> []"
  shows "length (drop_entry pick m) = length m - 1"
proof -
  have "pick m mod length m < length m" using assms by simp
  then show ?thesis by (simp add: drop_entry_def Let_def)
qed

lemma drop_entry_set: "set (drop_entry pick m) \<subseteq> set m"
  by (auto simp: drop_entry_def Let_def dest: in_set_takeD in_set_dropD)

lemma compilePattern_compiles:
  assumes "cache_ok W m"
  shows "fst (compilePattern W pick m pat) = regexp_compile W pat \<and> cache_ok W (snd (compilePattern W pick m pat))"
proof (cases "map_of m pat")
  case (Some re)
  then have "(pat, re) \<in> set m" by (rule map_of_SomeD)
  then show ?thesis using assms Some by (auto simp: compilePattern_def cache_ok_def list_all_iff)
next
  case None
  let ?m = "if length m \<ge> maxCompiledPatterns then drop_entry pick m else m"
  have sub: "set ?m \<subseteq> set m" using drop_entry_set by auto
  have "m \<noteq> []" if "length m \<ge> maxCompiledPatterns" using that by (auto simp: maxCompiledPatterns_def)
  then have len: "length ?m < maxCompiledPatterns"
    using assms drop_entry_length[of m pick] by (auto simp: cache_ok_def maxCompiledPatterns_def)
  have "pat \<notin> fst ` set ?m" using None sub by (auto simp: map_of_eq_None_iff)
  then have "set_entry pat re ?m = ?m @ [(pat, re)]" for re by (intro set_entry_new) (simp add: map_of_eq_None_iff)
  then show ?thesis using None assms len sub
    by (cases "regexp_compile W pat") (auto simp: compilePattern_def cache_ok_def list_all_iff)
qed

text \<open>The calls of \<open>Regexp\<close> in a process, one after another, from an empty cache.\<close>

fun run_regexps :: "world \<Rightarrow> (pattern_cache \<Rightarrow> nat) \<Rightarrow> pattern_cache \<Rightarrow> (pattern_arg \<times> string) list \<Rightarrow> string list \<times> pattern_cache" where
  "run_regexps W pick m [] = ([], m)"
| "run_regexps W pick m (c # cs) =
     (let (msg, m') = assertRegexp W pick m (fst c) (snd c); (msgs, m'') = run_regexps W pick m' cs in (msg # msgs, m''))"

text \<open>A call with nothing cached.\<close>

definition fresh_regexp :: "world \<Rightarrow> pattern_arg \<Rightarrow> string \<Rightarrow> string" where
  "fresh_regexp W rx str = fst (assertRegexp W (\<lambda>_. 0) [] rx str)"

lemma fresh_cache: "cache_ok W []"
  by (simp add: cache_ok_def)

lemma assertRegexp_fresh:
  assumes "cache_ok W m"
  shows "fst (assertRegexp W pick m rx str) = fresh_regexp W rx str \<and> cache_ok W (snd (assertRegexp W pick m rx str))"
proof (cases rx)
  case (Pattern pat)
  then show ?thesis using compilePattern_compiles[OF assms, of pick pat] compilePattern_compiles[OF fresh_cache[of W], of "\<lambda>_. 0" pat]
    by (cases "regexp_compile W pat"; cases "compilePattern W pick m pat"; cases "compilePattern W (\<lambda>_. 0) [] pat")
      (auto simp: assertRegexp_def fresh_regexp_def)
next
  case (Compiled re)
  then show ?thesis using assms by (cases re) (auto simp: assertRegexp_def fresh_regexp_def)
qed

lemma run_regexps_fresh:
  "cache_ok W m \<Longrightarrow> fst (run_regexps W pick m cs) = map (\<lambda>c. fresh_regexp W (fst c) (snd c)) cs \<and>
    cache_ok W (snd (run_regexps W pick m cs))"
proof (induction cs arbitrary: m)
  case (Cons c cs)
  obtain msg m' where a: "assertRegexp W pick m (fst c) (snd c) = (msg, m')" by fastforce
  show ?case using assertRegexp_fresh[OF Cons.prems, of pick "fst c" "snd c"] Cons.IH[of m'] a by (auto split: prod.splits)
qed simp

text \<open>
  However many patterns a process asserts, in whatever order and whichever entry a full cache drops,
  every call of \<open>Regexp\<close> says what it would say with nothing cached, and no more than 1024 patterns are kept.
\<close>

theorem cached_patterns_judge_alike:
  "fst (run_regexps W pick [] cs) = map (\<lambda>c. fresh_regexp W (fst c) (snd c)) cs \<and>
    length (snd (run_regexps W pick [] cs)) \<le> maxCompiledPatterns"
  using run_regexps_fresh[OF fresh_cache, of W pick cs] by (simp add: cache_ok_def)

subsection \<open>Times\<close>

lemma time_within_exact:
  assumes "\<bar>e - a\<bar> \<le> maxDuration"
  shows "(assertTimeWithin W tt dt e a tol = []) = (\<bar>e - a\<bar> \<le> tol)"
  using assms by (auto simp: assertTimeWithin_def time_sub_def negate64_def maxDuration_def minDuration_def unless_def failed_def Let_def)

text \<open>An expected time more than the least duration before the actual one passes with any tolerance but a negative one.\<close>

lemma time_within_saturates:
  assumes "e - a \<le> minDuration" "0 \<le> tol"
  shows "assertTimeWithin W tt dt e a tol = []"
  using assms by (auto simp: assertTimeWithin_def time_sub_def negate64_def maxDuration_def minDuration_def unless_def failed_def Let_def)

subsection \<open>Pointers\<close>

text \<open>On a pointer to itself \<open>IsEmpty\<close> never returns.\<close>

lemma empty_never_ends:
  assumes "pt p = Some (t, VPtr (Some p))" "kind_of t = KPtr"
  shows "IsEmpty pt (Some (t, VPtr (Some p))) = None"
proof -
  have "IsEmpty q obj = Some b \<Longrightarrow> q = pt \<longrightarrow> obj \<noteq> Some (t, VPtr (Some p))" for q obj b
    by (rule IsEmpty.raw_induct[of "\<lambda>q obj b. q = pt \<longrightarrow> obj \<noteq> Some (t, VPtr (Some p))"])
      (fastforce simp: assms length_kinds_def)+
  then show ?thesis by (cases "IsEmpty pt (Some (t, VPtr (Some p)))") auto
qed

end
