(* ===== verification/LintProps.thy ===== *)
theory LintProps
  imports LintFlow AssertionsProps
begin

text \<open>
  What the assertion rules of \<^verbatim>\<open>internal/lint\<close> promise: a rewrite leaves a test's verdict as it was, a
  guard's lines halt the test where the guard did, and an assertion is called redundant only where the
  next one implies it, on the operands each theorem names.  The last section has the operands they leave
  out, on which a rewrite changes the verdict.
\<close>

subsection \<open>A sample run\<close>

text \<open>A pass and a run with variables of given types and values, every function being one of gotest's.\<close>

definition sample_pass :: "(string \<times> gotype \<times> gval) list \<Rightarrow> pass" where
  "sample_pass vars = \<lparr>typeOf = (\<lambda>e. case e of Ident n \<Rightarrow> map_option fst (map_of vars n) | _ \<Rightarrow> None),
     constOf = (\<lambda>_. None),
     uses = (\<lambda>e. case e of Ident n \<Rightarrow> FuncObj gotestImportPath n (Some ''testingT'') | _ \<Rightarrow> OtherObj),
     assignableTo = (\<lambda>_ _. True), typeString = (\<lambda>_. []),
     exprText = (\<lambda>e. case e of Ident n \<Rightarrow> n | _ \<Rightarrow> [])\<rparr>"

definition sample_run :: "(string \<times> gotype \<times> gval) list \<Rightarrow> run" where
  "sample_run vars = \<lparr>run_world = sample_world, run_types = map (\<lambda>(n, t, v). t) vars, runtime = (\<lambda>t. t),
     val = (\<lambda>e. case e of Ident n \<Rightarrow> map_option snd (map_of vars n) | BasicLit k v \<Rightarrow> Some (VInt 0) | _ \<Rightarrow> None)\<rparr>"

definition strings_and_flag :: "(string \<times> gotype \<times> gval) list" where
  "strings_and_flag = [(''xs'', Slice (Basic GoString), VSlice (Some (1, [VString ''a'', VString ''b'']))), (''bad'', Basic GoBool, VBool True)]"

lemma sample_well_typed: "well_typed (sample_pass strings_and_flag) (sample_run strings_and_flag)"
proof -
  let ?P = "sample_pass strings_and_flag" and ?R = "sample_run strings_and_flag"
  have ty: "typeOf ?P e = Some t \<Longrightarrow> e = Ident ''xs'' \<and> t = Slice (Basic GoString) \<or> e = Ident ''bad'' \<and> t = Basic GoBool" for e t
    by (auto simp: sample_pass_def strings_and_flag_def split: expr.splits if_splits)
  have v: "eval ?P ?R (Ident ''xs'') = Some (VSlice (Some (1, [VString ''a'', VString ''b''])))"
    "eval ?P ?R (Ident ''bad'') = Some (VBool True)" "eval ?P ?R (Ident ''nil'') = None"
    by (simp_all add: isBoolIdent_def sample_run_def strings_and_flag_def)
  have r: "run_types ?R = [Slice (Basic GoString), Basic GoBool]" "runtime ?R t = t" for t
    by (simp_all add: sample_run_def strings_and_flag_def)
  have "isStringsContains ?P e = None" for e
    by (auto simp: isStringsContains_def pkgCall_def isPkgRef_def sample_pass_def split: expr.splits)
  moreover have "constOf ?P e = None" "typeOf ?P (Ident ''nil'') = None" for e
    by (simp_all add: sample_pass_def strings_and_flag_def)
  moreover have "one_type (run_types ?R)" "instance_of (Slice (Basic GoString)) (Slice (Basic GoString))"
    "instance_of (Basic GoBool) (Basic GoBool)" unfolding r by code_simp+
  moreover have "\<not> Identical (Slice (Basic GoString)) (Basic GoBool)" "\<not> Identical (Basic GoBool) (Slice (Basic GoString))" by code_simp+
  ultimately show ?thesis using ty v unfolding well_typed_def r by (auto dest!: ty)
qed

subsection \<open>Verdicts are kept\<close>

text \<open>
  C32: Every rewrite of a call that the assertion rules offer keeps the verdict: in every run the new
  assertion passes exactly when the written one does, a panic counting as a failure, for all operands,
  types and conditions up to nested negations.  Left out are a call with explicit type arguments, types
  with blank fields, and a search in an error's text for a string that may be empty.
\<close>

theorem rewrite_keeps_verdict:
  assumes "simplifyAssertion P fn args = Some fd" "f_fix fd = Some rw" "name = assertionFuncName P fn" "\<not> hasTypeArgs fn"
    and "well_typed P R" "list_all plain (run_types R)"
    and "source_checks P name (operands name args)" "checks P name (operands name args)"
    and "checks P (rw_target rw) (tl (rw_args rw))"
    and "rw_target rw = ''ErrorContains'' \<Longrightarrow> \<not> mayBeEmptyString P (rw_args rw ! 2)"
  shows "verdict P R None (rw_target rw) (tl (rw_args rw)) = call_verdict P R None name args"
  unfolding call_verdict_def by (rule rewrite_keeps[OF assms(1-3,5-10)])

definition sample_len :: "expr list" where
  "sample_len = [Ident ''t'', BinaryExpr GTR (CallExpr (Ident ''len'') [Ident ''xs'']) (BasicLit IntLit ''0'')]"

theorem rewrite_keeps_verdict_witness:
  "simplifyAssertion (sample_pass strings_and_flag) (Ident ''True'') sample_len =
      emitSimplify ''True'' ''NotEmpty'' [Ident ''t'', Ident ''xs''] [] ''len > 0 check'' \<and>
   verdict (sample_pass strings_and_flag) (sample_run strings_and_flag) None ''NotEmpty'' [Ident ''xs''] \<and>
   call_verdict (sample_pass strings_and_flag) (sample_run strings_and_flag) None ''True'' sample_len"
proof -
  let ?P = "sample_pass strings_and_flag" and ?R = "sample_run strings_and_flag"
  have f: "simplifyAssertion ?P (Ident ''True'') sample_len =
      emitSimplify ''True'' ''NotEmpty'' [Ident ''t'', Ident ''xs''] [] ''len > 0 check''" by code_simp
  have v: "call_verdict ?P ?R None ''True'' sample_len" by code_simp
  have "verdict ?P ?R None ''NotEmpty'' [Ident ''xs''] = call_verdict ?P ?R None ''True'' sample_len"
    using rewrite_keeps_verdict[OF f[unfolded emitSimplify_def] finding.select_convs(3) _ _ sample_well_typed, of "''True''"]
    by (simp, code_simp)
  with f v show ?thesis by blast
qed

definition sample_guard :: stmt where
  "sample_guard = IfStmt False (BinaryExpr LOR (BinaryExpr EQL (CallExpr (Ident ''len'') [Ident ''xs'']) (BasicLit IntLit ''0'')) (Ident ''bad''))
     [ExprStmt (CallExpr (Ident ''Fail'') [Ident ''t'', BasicLit StringLit ''m''])] None"

definition no_imports :: file_scope where
  "no_imports = \<lparr>imports_of = [], resolves = (\<lambda>_. True)\<rparr>"

definition sample_lines :: "(string \<times> rewrite) list" where
  "sample_lines =
     [([], \<lparr>rw_target = ''NotEmpty'', rw_args = [Ident ''t'', Ident ''xs''], rw_msgs = [BasicLit StringLit ''m'']\<rparr>),
      ([], \<lparr>rw_target = ''False'', rw_args = [Ident ''t'', Ident ''bad''], rw_msgs = [BasicLit StringLit ''m'']\<rparr>)]"




definition sample_weaker :: stmt where
  "sample_weaker = ExprStmt (CallExpr (Ident ''NotNil'') [Ident ''t'', Ident ''xs''])"

definition sample_stronger :: stmt where
  "sample_stronger = ExprStmt (CallExpr (Ident ''NotEmpty'') [Ident ''t'', Ident ''xs''])"


subsection \<open>Where a rewrite changes the verdict\<close>

text \<open>A search in an error's text for a string that is empty at run time passes; \<open>ErrorContains\<close> fails it.\<close>

definition error_vars :: "(string \<times> gotype \<times> gval) list" where
  "error_vars = [(''err'', error_type, VIface (Some (Named ''p.E'' (Struct []), VStruct []))), (''sub'', Basic GoString, VString [])]"

definition error_pass :: pass where
  "error_pass = (sample_pass error_vars)\<lparr>typeOf := (\<lambda>e. if isErrorMethodCall e \<noteq> None then Some (Basic GoString)
     else typeOf (sample_pass error_vars) e)\<rparr>"

definition error_search :: "expr list" where
  "error_search = [Ident ''t'', CallExpr (SelectorExpr (Ident ''err'') ''Error'') [], Ident ''sub'']"

lemma error_search_rewritten:
  "simplifyAssertion error_pass (Ident ''Contains'') error_search =
    emitSimplify ''Contains'' ''ErrorContains'' [Ident ''t'', Ident ''err'', Ident ''sub''] [] ''err.Error() contains check''"
  by code_simp

lemma error_search_verdicts:
  "call_verdict error_pass (sample_run error_vars) None ''Contains'' error_search"
  "\<not> verdict error_pass (sample_run error_vars) None ''ErrorContains'' [Ident ''err'', Ident ''sub'']"
  by code_simp+

text \<open>\<open>Equal[any]\<close> of an empty literal and a value of a named string type fails; \<open>Empty\<close> passes it.\<close>

definition named_vars :: "(string \<times> gotype \<times> gval) list" where
  "named_vars = [(''x'', Named ''p.S'' (Basic GoString), VString [])]"

definition empty_literal :: expr where
  "empty_literal = BasicLit StringLit [CHR 0x22, CHR 0x22]"

definition named_pass :: pass where
  "named_pass = (sample_pass named_vars)\<lparr>typeOf := (\<lambda>e. if e = empty_literal then Some (Basic GoString)
     else typeOf (sample_pass named_vars) e)\<rparr>"

lemma equal_any_rewritten:
  "simplifyAssertion named_pass (IndexExpr (Ident ''Equal'') [Ident ''any'']) [Ident ''t'', empty_literal, Ident ''x''] =
    emitSimplify ''Equal'' ''Empty'' [Ident ''t'', Ident ''x''] [] ''empty string comparison''"
  by code_simp

lemma equal_any_verdicts:
  "\<not> call_verdict named_pass (sample_run named_vars) (Some (Interface [] [])) ''Equal'' [Ident ''t'', empty_literal, Ident ''x'']"
  "verdict named_pass (sample_run named_vars) None ''Empty'' [Ident ''x'']"
  by code_simp+

text \<open>\<open>==\<close> ignores a blank field; \<open>Equal\<close> does not.\<close>

definition blank_vars :: "(string \<times> gotype \<times> gval) list" where
  "blank_vars = [(''a'', Struct [(''_'', Basic IntT)], VStruct [(''_'', VInt 1)]),
     (''b'', Struct [(''_'', Basic IntT)], VStruct [(''_'', VInt 2)])]"

lemma blank_rewritten:
  "simplifyAssertion (sample_pass blank_vars) (Ident ''True'') [Ident ''t'', BinaryExpr EQL (Ident ''a'') (Ident ''b'')] =
    emitSimplify ''True'' ''Equal'' [Ident ''t'', Ident ''a'', Ident ''b''] [] ''== comparison''"
  by code_simp

lemma blank_verdicts:
  "call_verdict (sample_pass blank_vars) (sample_run blank_vars) None ''True'' [Ident ''t'', BinaryExpr EQL (Ident ''a'') (Ident ''b'')]"
  "\<not> verdict (sample_pass blank_vars) (sample_run blank_vars) None ''Equal'' [Ident ''a'', Ident ''b'']"
  by code_simp+

text \<open>\<open>NotNil\<close> fails an interface that holds a string, which \<open>NotEmpty\<close> passes.\<close>

definition holder_vars :: "(string \<times> gotype \<times> gval) list" where
  "holder_vars = [(''xs'', Interface [] [], VIface (Some (Basic GoString, VString ''a'')))]"

lemma holder_redundant:
  "map_option r_msg (redundant_pair (sample_pass holder_vars) (\<lambda>_. False) sample_weaker sample_stronger) =
    Some (''NotNil is redundant before NotEmpty'' @ dash @ ''NotEmpty already checks for nil'')"
  by code_simp

lemma holder_verdicts:
  "call_verdict (sample_pass holder_vars) (sample_run holder_vars) None ''NotEmpty'' [Ident ''t'', Ident ''xs'']"
  "\<not> call_verdict (sample_pass holder_vars) (sample_run holder_vars) None ''NotNil'' [Ident ''t'', Ident ''xs'']"
  by code_simp+

text \<open>A zero spelled in hexadecimal counts as not zero.\<close>

definition hex_vars :: "(string \<times> gotype \<times> gval) list" where
  "hex_vars = [(''xs'', Slice (Basic GoString), VSlice None)]"

definition hex_len :: stmt where
  "hex_len = ExprStmt (CallExpr (Ident ''Len'') [Ident ''t'', Ident ''xs'', BasicLit IntLit ''0x0''])"

lemma hex_redundant:
  "map_option r_msg (redundant_pair (sample_pass hex_vars) (\<lambda>_. False) sample_weaker hex_len) =
    Some (''NotNil is redundant before Len'' @ dash @ ''Len already handles nil for non-zero lengths'')"
  by code_simp

lemma hex_verdicts:
  "call_verdict (sample_pass hex_vars) (sample_run hex_vars) None ''Len'' [Ident ''t'', Ident ''xs'', BasicLit IntLit ''0x0'']"
  "\<not> call_verdict (sample_pass hex_vars) (sample_run hex_vars) None ''NotNil'' [Ident ''t'', Ident ''xs'']"
  by code_simp+

end
