(* ===== verification/SuiteNames.thy ===== *)
theory SuiteNames
  imports SpecTree
begin

text \<open>
  The names gotest reads: \<^verbatim>\<open>gotestast/spec.go\<close>'s patterns for suites and their methods, and the hooks of
  \<^verbatim>\<open>gotestast/warnings.go\<close> a method may misspell.  A name is a Go identifier, in UTF-8, so the \<open>.+\<close>
  of a pattern, which stops at a line break, is any name but the empty one.
\<close>

subsection \<open>Test names\<close>

definition unmarked :: "string \<Rightarrow> string" where
  "unmarked name = trimPrefix (trimPrefix name PrefixFocused) PrefixExcluded"

definition case_prefixes :: "string list" where
  "case_prefixes = [''Test'', PrefixBenchmark, PrefixFuzz]"

fun go_test_name :: "stdlib \<Rightarrow> string list \<Rightarrow> string \<Rightarrow> bool" where
  "go_test_name L [] name \<longleftrightarrow> True"
| "go_test_name L (p # ps) name \<longleftrightarrow>
     (case cutPrefix name p of
        Some rest \<Rightarrow> rest = [] \<or> \<not> rune_is_lower L (fst (decode_rune rest))
      | None \<Rightarrow> go_test_name L ps name)"

definition IsGoTestName :: "stdlib \<Rightarrow> string \<Rightarrow> bool" where
  "IsGoTestName L name = go_test_name L case_prefixes (unmarked name)"

subsection \<open>Patterns\<close>

text \<open>\<open>(?:X_|F_)?\<close> before a prefix: one marker or none.\<close>

definition after_marker :: "string \<Rightarrow> string" where
  "after_marker name = (case cutPrefix name PrefixExcluded of
      Some r \<Rightarrow> r
    | None \<Rightarrow> (case cutPrefix name PrefixFocused of Some r \<Rightarrow> r | None \<Rightarrow> name))"

definition case_pattern :: "string \<Rightarrow> string \<Rightarrow> bool" where
  "case_pattern p name = (case cutPrefix (after_marker name) p of Some rest \<Rightarrow> rest \<noteq> [] | None \<Rightarrow> False)"

definition IS_TEST_CASE :: "stdlib \<Rightarrow> string \<Rightarrow> bool" where
  "IS_TEST_CASE L name \<longleftrightarrow> case_pattern ''Test'' name \<and> IsGoTestName L name"

definition IS_BENCHMARK :: "stdlib \<Rightarrow> string \<Rightarrow> bool" where
  "IS_BENCHMARK L name \<longleftrightarrow> case_pattern PrefixBenchmark name \<and> IsGoTestName L name"

definition IS_FUZZ :: "stdlib \<Rightarrow> string \<Rightarrow> bool" where
  "IS_FUZZ L name \<longleftrightarrow> case_pattern PrefixFuzz name \<and> IsGoTestName L name"

definition IS_TEST_SUITE_METHOD :: "stdlib \<Rightarrow> string \<Rightarrow> bool" where
  "IS_TEST_SUITE_METHOD L name \<longleftrightarrow>
     (name \<in> {''BeforeAll'', ''AfterAll'', ''BeforeEach'', ''AfterEach'', ''SuiteConfig'', ''SuiteGuard''} \<or>
      case_pattern ''Test'' name \<or> case_pattern PrefixBenchmark name \<or> case_pattern PrefixFuzz name) \<and>
     IsGoTestName L name"

text \<open>The wrapper types gotest writes begin with two \<open>U+0192\<close>.\<close>

definition wrapper_prefix :: string where
  "wrapper_prefix = [CHR 0xC6, CHR 0x92, CHR 0xC6, CHR 0x92] @ ''_GOTEST_''"

definition IS_TEST_SUITE :: "string \<Rightarrow> bool" where
  "IS_TEST_SUITE name \<longleftrightarrow> \<not> hasPrefix name wrapper_prefix \<and> \<not> hasPrefix name ''_'' \<and>
     hasSuffix name SuffixTestSuite \<and> name \<noteq> SuffixTestSuite"

definition interpretedMethod :: "stdlib \<Rightarrow> string \<Rightarrow> bool" where
  "interpretedMethod L name \<longleftrightarrow>
     name \<in> {''BeforeAll'', ''AfterAll'', ''BeforeEach'', ''AfterEach'', ''SuiteConfig'', ''SuiteGuard'',
       ''Hydrate'', ''Dehydrate'', ''FixtureConfig'', ''SharedFixtureConfig''} \<or>
     IS_TEST_CASE L name \<or> IS_BENCHMARK L name \<or> IS_FUZZ L name"

definition is_focused :: "string \<Rightarrow> bool" where "is_focused name = hasPrefix name ''F_''"
definition is_excluded :: "string \<Rightarrow> bool" where "is_excluded name = hasPrefix name ''X_''"

lemma marked_once: "is_focused name \<Longrightarrow> \<not> is_excluded name"
  by (auto simp: is_focused_def is_excluded_def hasPrefix_ex)

subsection \<open>Misspelled hooks\<close>

definition LifecycleHooks :: "string list" where
  "LifecycleHooks = [''BeforeAll'', ''AfterAll'', ''BeforeEach'', ''AfterEach'']"

text \<open>
  \<open>levenshtein\<close>: the distances of a prefix of the first name to the prefixes of the second one, in two
  rows.  \<open>next_cells\<close> fills the second row from cell 1 on, \<open>left\<close> the cell before.
\<close>

fun next_cells :: "char \<Rightarrow> string \<Rightarrow> nat list \<Rightarrow> nat \<Rightarrow> nat list" where
  "next_cells x (y # ys) (diag # upper # prev) left =
     (let cost = (if x = y then 0 else 1);
          here = min (left + 1) (min (upper + 1) (diag + cost))
      in here # next_cells x ys (upper # prev) here)"
| "next_cells x _ _ left = []"

definition next_row :: "nat \<Rightarrow> char \<Rightarrow> string \<Rightarrow> nat list \<Rightarrow> nat list" where
  "next_row i x b prev = i # next_cells x b prev i"

fun rows :: "nat \<Rightarrow> string \<Rightarrow> string \<Rightarrow> nat list \<Rightarrow> nat list" where
  "rows i [] b prev = prev"
| "rows i (x # a) b prev = rows (i + 1) a b (next_row i x b prev)"

definition levenshtein :: "string \<Rightarrow> string \<Rightarrow> nat" where
  "levenshtein a b = (if a = [] then length b else if b = [] then length a
     else rows 1 a b [0..<length b + 1] ! length b)"

definition MisspelledHook :: "string \<Rightarrow> string option" where
  "MisspelledHook name = (if name \<in> set LifecycleHooks then None
     else List.find (\<lambda>h. levenshtein name h \<le> 2) LifecycleHooks)"

datatype hook_warning = XLifecycle string string | LifecycleTypo string string string

definition hookWarning :: "stdlib \<Rightarrow> string \<Rightarrow> string \<Rightarrow> hook_warning option" where
  "hookWarning L recv name =
     (let stripped = unmarked name in
      if stripped \<in> set LifecycleHooks
      then (if hasPrefix name PrefixExcluded then Some (XLifecycle recv name) else None)
      else if hasPrefix stripped ''Test'' \<and> IsGoTestName L stripped then None
      else map_option (LifecycleTypo recv name) (MisspelledHook stripped))"

definition warning_message :: "hook_warning \<Rightarrow> string" where
  "warning_message w = (case w of
      LifecycleTypo recv name hook \<Rightarrow> ''method '' @ name @ '' on suite '' @ recv @ '' is similar to lifecycle hook '' @ hook
    | XLifecycle recv name \<Rightarrow> ''X_ prefix on lifecycle hook '' @ recv @ ''.'' @ name @ '' has no effect '' @
        [CHR 0xE2, CHR 0x80, CHR 0x94] @ '' remove the prefix or the method'')"

end
