(* ===== verification/SuiteSpec.thy ===== *)
theory SuiteSpec
  imports SuiteNames
begin

text \<open>
  \<^verbatim>\<open>gotestast/spec.go\<close>: a suite and its methods, and what of them a run holds after the \<open>F_\<close> and \<open>X_\<close>
  markers are applied.  \<^verbatim>\<open>go/types\<close> and \<^verbatim>\<open>go/ast\<close> are read through what the code asks of them: a type
  is its text and what it looks like, a method its name and signature.
\<close>

subsection \<open>Types and methods\<close>

text \<open>
  What is asked of a type: its \<open>String()\<close>, the name and package of the type it points to as written and
  with aliases resolved (\<open>None\<close> for no pointer to a named type, a package of \<open>None\<close> for a predeclared
  one), whether it is a pointer as written, and whether it is \<open>func()\<close>.
\<close>

record ptype =
  TypeText :: string
  PointsTo :: "(string \<times> string option) option"
  PointsToUnaliased :: "(string \<times> string option) option"
  IsPointer :: bool
  isDoneFunc :: bool

record signature =
  Params :: "ptype list"
  Results :: "ptype list"

text \<open>A receiver, aliases resolved, names the type by \<open>typeKey\<close>.\<close>

datatype receiver = NoReceiver | ValueReceiver string | PointerReceiver string | OtherReceiver

text \<open>\<open>first_T\<close> is \<open>callsT\<close>'s answer on the method's body, which is not modelled.\<close>

record TestSuiteMethod =
  m_name :: string
  m_sig :: signature
  usesStdlibT :: bool
  contextParam :: "ptype option"
  returnType :: "ptype option"
  first_T :: "nat option"

definition HasContextParam :: "TestSuiteMethod \<Rightarrow> bool" where "HasContextParam m \<longleftrightarrow> contextParam m \<noteq> None"
definition HasReturn :: "TestSuiteMethod \<Rightarrow> bool" where "HasReturn m \<longleftrightarrow> returnType m \<noteq> None"

definition method_focused :: "TestSuiteMethod \<Rightarrow> bool" where "method_focused m = is_focused (m_name m)"
definition method_excluded :: "TestSuiteMethod \<Rightarrow> bool" where "method_excluded m = is_excluded (m_name m)"

record TestSuiteHarness =
  ThBeforeAll :: "TestSuiteMethod option"
  ThBeforeEach :: "TestSuiteMethod option"
  ThAfterAll :: "TestSuiteMethod option"
  ThAfterEach :: "TestSuiteMethod option"
  TestCases :: "TestSuiteMethod list"
  DeclaresTests :: bool
  SuiteBenchmarks :: "TestSuiteMethod list"
  SuiteFuzzers :: "TestSuiteMethod list"
  HasConfig :: bool
  HasGuard :: bool
  ConfigParallel :: bool
  ConfigExclusive :: bool
  ConfigGroup :: string

definition empty_harness :: TestSuiteHarness where
  "empty_harness = \<lparr>ThBeforeAll = None, ThBeforeEach = None, ThAfterAll = None, ThAfterEach = None, TestCases = [],
     DeclaresTests = False, SuiteBenchmarks = [], SuiteFuzzers = [], HasConfig = False, HasGuard = False,
     ConfigParallel = False, ConfigExclusive = False, ConfigGroup = []\<rparr>"

record TestSuiteSpec =
  ts_name :: string
  ts_exported :: bool
  pkgName :: string
  underlyingTypeName :: string
  recvKey :: string
  th :: TestSuiteHarness

definition suite_focused :: "TestSuiteSpec \<Rightarrow> bool" where "suite_focused s = is_focused (ts_name s)"
definition suite_excluded :: "TestSuiteSpec \<Rightarrow> bool" where "suite_excluded s = is_excluded (ts_name s)"

definition IsPxTestSuite :: "TestSuiteSpec \<Rightarrow> bool" where
  "IsPxTestSuite s = hasSuffix (pkgName s) ''_test''"

definition FullIdentifier :: "TestSuiteSpec \<Rightarrow> string" where
  "FullIdentifier s = (if IsPxTestSuite s then ts_name s else pkgName s @ ''.'' @ ts_name s)"

definition IsGenericAlias :: "TestSuiteSpec \<Rightarrow> bool" where "IsGenericAlias s \<longleftrightarrow> underlyingTypeName s \<noteq> []"

definition HasReturningBeforeEach :: "TestSuiteSpec \<Rightarrow> bool" where
  "HasReturningBeforeEach s = (case ThBeforeEach (th s) of None \<Rightarrow> False | Some m \<Rightarrow> HasReturn m)"

subsection \<open>The run's part of a package\<close>

text \<open>\<open>slices.SplitBy\<close> and \<open>slices.Any\<close>.\<close>

fun SplitBy :: "('a \<Rightarrow> bool) \<Rightarrow> 'a list \<Rightarrow> 'a list \<times> 'a list" where
  "SplitBy f [] = ([], [])"
| "SplitBy f (v # vs) = (let (t, u) = SplitBy f vs in if f v then (v # t, u) else (t, v # u))"

fun Any :: "('a \<Rightarrow> bool) \<Rightarrow> 'a list \<Rightarrow> bool" where
  "Any f [] = False"
| "Any f (v # vs) = (if f v then True else Any f vs)"

definition focusesMethod :: "TestSuiteSpec \<Rightarrow> bool" where
  "focusesMethod s = (if suite_excluded s then False
     else Any method_focused (TestCases (th s)) \<or> Any method_focused (SuiteBenchmarks (th s)) \<or>
          Any method_focused (SuiteFuzzers (th s)))"

definition Focuses :: "TestSuiteSpec list \<Rightarrow> bool" where
  "Focuses ts = Any (\<lambda>s. suite_focused s \<or> focusesMethod s) ts"

text \<open>
  One kind of a suite's methods: those that run and those that are skipped, which are appended to the
  suite's list.  \<open>keeps_all\<close> is whether the suite's unfocused methods may run.
\<close>

definition reduce_methods :: "bool \<Rightarrow> TestSuiteMethod list \<Rightarrow> TestSuiteMethod list \<times> TestSuiteMethod list" where
  "reduce_methods keeps_all ms =
     (let (focused, unfocused) = SplitBy method_focused ms;
          (kept, dropped) = (if focused \<noteq> [] \<or> \<not> keeps_all then (focused, unfocused) else (unfocused, []));
          (excluded, included) = SplitBy method_excluded kept
      in (included, dropped @ excluded))"

definition reduce_suite :: "bool \<Rightarrow> TestSuiteSpec \<Rightarrow> TestSuiteSpec \<times> TestSuiteMethod list" where
  "reduce_suite focusRun s =
     (let keeps_all = (\<not> (focusRun \<and> \<not> suite_focused s));
          (ts, st) = reduce_methods keeps_all (TestCases (th s));
          (bs, sb) = reduce_methods keeps_all (SuiteBenchmarks (th s));
          (fs, sf) = reduce_methods keeps_all (SuiteFuzzers (th s))
      in (s\<lparr>th := (th s)\<lparr>TestCases := ts, SuiteBenchmarks := bs, SuiteFuzzers := fs\<rparr>\<rparr>, st @ sb @ sf))"

text \<open>\<open>ReduceInRun\<close>: the suites that run, each with its skipped methods, and the skipped suites.\<close>

definition ReduceInRun ::
    "bool \<Rightarrow> TestSuiteSpec list \<Rightarrow> (TestSuiteSpec \<times> TestSuiteMethod list) list \<times> TestSuiteSpec list" where
  "ReduceInRun focusRun ts =
     (let (effective, skipped) =
            (if focusRun then SplitBy (\<lambda>s. suite_focused s \<or> focusesMethod s) ts else (ts, []));
          (excluded, included) = SplitBy suite_excluded effective
      in (map (reduce_suite focusRun) included, skipped @ excluded))"

definition ReduceToEffectiveSet ::
    "TestSuiteSpec list \<Rightarrow> (TestSuiteSpec \<times> TestSuiteMethod list) list \<times> TestSuiteSpec list" where
  "ReduceToEffectiveSet ts = ReduceInRun (Focuses ts) ts"

lemma SplitBy_filter: "SplitBy f xs = (filter f xs, filter (\<lambda>x. \<not> f x) xs)"
  by (induction xs) auto

lemma Any_ex: "Any f xs \<longleftrightarrow> (\<exists>x \<in> set xs. f x)"
  by (induction xs) auto

end
