(* ===== verification/SuiteConfigBody.thy ===== *)
theory SuiteConfigBody
  imports FixturePolicy GoStrings
begin

text \<open>
  \<^verbatim>\<open>gotestast/suiteconfig.go\<close>: the \<open>SuiteConfig\<close> methods the generator accepts, and what it reads off
  them without running them.  Only the shapes the code tells apart have a constructor.
\<close>

subsection \<open>Bodies\<close>

text \<open>
  A call's function is its name and the package it resolves to when it is a selector.  \<open>Opaque\<close>
  is any other expression, a composite literal's element is a key and value or a value alone.
\<close>

datatype cexpr =
    CIdent string
  | CSelector cexpr string
  | CLiteral "celt list"
  | CCall "(string \<times> string option) option" "cexpr list"
  | Opaque nat
and celt = Keyed cexpr cexpr | Positional cexpr

datatype cstmt =
    CReturn "cexpr list"
  | CDefine "cexpr list" "cexpr list"
  | CAssign "cexpr list" "cexpr list"
  | COther nat

datatype config_error = ConfigBody | ConfigKeyedOnly | ConfigPresetOnly | BoolLiteralOnly string
  | StringConstantOnly | GroupAlphabet string

record config_body =
  Base :: cexpr
  CfgName :: string
  Fields :: "(cexpr \<times> cexpr) list"
  Assigns :: "(string \<times> cexpr) list"

text \<open>\<open>stringConstant\<close>: what the type checker evaluated a constant string expression to.\<close>

type_synonym constants = "cexpr \<Rightarrow> string option"

subsection \<open>Values\<close>

definition boolLiteral :: "cexpr \<Rightarrow> bool option" where
  "boolLiteral e = (case e of
      CIdent n \<Rightarrow> (if n = ''true'' then Some True else if n = ''false'' then Some False else None)
    | _ \<Rightarrow> None)"

definition group_char :: "char \<Rightarrow> bool" where
  "group_char c \<longleftrightarrow> (let n = (of_char c :: nat) in
     (65 \<le> n \<and> n \<le> 90) \<or> (97 \<le> n \<and> n \<le> 122) \<or> (48 \<le> n \<and> n \<le> 57) \<or> c = CHR ''_'' \<or> c = CHR ''-'')"

definition groupName :: "string \<Rightarrow> bool" where
  "groupName s \<longleftrightarrow> s \<noteq> [] \<and> list_all group_char s"

definition checkStaticValue :: "constants \<Rightarrow> string \<Rightarrow> cexpr \<Rightarrow> config_error option" where
  "checkStaticValue K field value =
     (if field = ''Parallel'' \<or> field = ''Exclusive''
      then (if boolLiteral value = None then Some (BoolLiteralOnly field) else None)
      else if field = ''ExclusiveGroup''
      then (case K value of
              None \<Rightarrow> Some StringConstantOnly
            | Some name \<Rightarrow> if name \<noteq> [] \<and> \<not> groupName name then Some (GroupAlphabet name) else None)
      else None)"

definition gotest_pkg :: string where "gotest_pkg = ''github.com/mvrahden/go-test/pkg/gotest''"

definition isKnownSuitePreset :: "(string \<times> string option) option \<Rightarrow> bool" where
  "isKnownSuitePreset f = (case f of
      None \<Rightarrow> False
    | Some (name, pkg) \<Rightarrow> (name = ''DefaultSuiteConfig'' \<or> name = ''IntegrationSuiteConfig'') \<and> pkg = Some gotest_pkg)"

subsection \<open>Reading a body\<close>

fun read_elements :: "constants \<Rightarrow> celt list \<Rightarrow> config_error + (cexpr \<times> cexpr) list" where
  "read_elements K [] = Inr []"
| "read_elements K (Positional e # es) = Inl ConfigKeyedOnly"
| "read_elements K (Keyed key value # es) =
     (case (case key of CIdent n \<Rightarrow> checkStaticValue K n value | _ \<Rightarrow> None) of
        Some err \<Rightarrow> Inl err
      | None \<Rightarrow> map_sum id (Cons (key, value)) (read_elements K es))"

definition readBase :: "constants \<Rightarrow> cexpr \<Rightarrow> config_error + (cexpr \<times> cexpr) list" where
  "readBase K base = (case base of
      CLiteral elts \<Rightarrow> read_elements K elts
    | CCall f args \<Rightarrow> if isKnownSuitePreset f then Inr [] else Inl ConfigPresetOnly
    | _ \<Rightarrow> Inl ConfigBody)"

fun read_assigns :: "constants \<Rightarrow> string \<Rightarrow> cstmt list \<Rightarrow> config_error + (string \<times> cexpr) list" where
  "read_assigns K cfg [] = Inr []"
| "read_assigns K cfg (CAssign [CSelector (CIdent x) field] [value] # ss) =
     (if x \<noteq> cfg then Inl ConfigBody
      else case checkStaticValue K field value of
        Some err \<Rightarrow> Inl err
      | None \<Rightarrow> map_sum id (Cons (field, value)) (read_assigns K cfg ss))"
| "read_assigns K cfg (s # ss) = Inl ConfigBody"

definition ParseSuiteConfigBody :: "constants \<Rightarrow> cstmt list \<Rightarrow> config_error + config_body" where
  "ParseSuiteConfigBody K stmts =
     (case stmts of
        [] \<Rightarrow> Inl ConfigBody
      | [s] \<Rightarrow> (case s of
            CReturn [e] \<Rightarrow> map_sum id (\<lambda>fs. \<lparr>Base = e, CfgName = [], Fields = fs, Assigns = []\<rparr>) (readBase K e)
          | _ \<Rightarrow> Inl ConfigBody)
      | s # rest \<Rightarrow> (case s of
            CDefine [CIdent cfg] [e] \<Rightarrow>
              (case readBase K e of
                 Inl err \<Rightarrow> Inl err
               | Inr fs \<Rightarrow>
                   (if last rest \<noteq> CReturn [CIdent cfg] then Inl ConfigBody
                    else map_sum id (\<lambda>as. \<lparr>Base = e, CfgName = cfg, Fields = fs, Assigns = as\<rparr>)
                           (read_assigns K cfg (butlast rest))))
          | _ \<Rightarrow> Inl ConfigBody))"

definition Returned :: "config_body \<Rightarrow> bool" where "Returned b \<longleftrightarrow> CfgName b = []"

definition AssignedFields :: "config_body \<Rightarrow> string list" where "AssignedFields b = map fst (Assigns b)"

subsection \<open>What the generator takes from it\<close>

record staticSuiteConfig =
  StParallel :: bool
  StExclusive :: bool
  StGroup :: string

definition set_static :: "constants \<Rightarrow> string \<Rightarrow> cexpr \<Rightarrow> staticSuiteConfig \<Rightarrow> staticSuiteConfig" where
  "set_static K field value c =
     (if field = ''Parallel'' then c\<lparr>StParallel := (boolLiteral value = Some True)\<rparr>
      else if field = ''Exclusive'' then c\<lparr>StExclusive := (boolLiteral value = Some True)\<rparr>
      else if field = ''ExclusiveGroup'' then c\<lparr>StGroup := (case K value of Some s \<Rightarrow> s | None \<Rightarrow> [])\<rparr>
      else c)"

definition parseSuiteConfigAST :: "constants \<Rightarrow> cstmt list \<Rightarrow> config_error + staticSuiteConfig" where
  "parseSuiteConfigAST K stmts =
     map_sum id (\<lambda>b.
       fold (\<lambda>(field, value). set_static K field value) (Assigns b)
         (fold (\<lambda>(key, value) c. case key of CIdent n \<Rightarrow> set_static K n value c | _ \<Rightarrow> c) (Fields b)
           \<lparr>StParallel = False, StExclusive = False, StGroup = []\<rparr>))
       (ParseSuiteConfigBody K stmts)"

end
