(* ===== verification/SuiteHarness.thy ===== *)
theory SuiteHarness
  imports SuiteSpec SuiteConfigBody
begin

text \<open>
  \<^verbatim>\<open>gotestast/spec.go\<close>: the methods a suite is collected from, their signatures checked one by one and
  then against each other.
\<close>

subsection \<open>Signatures\<close>

definition about_repo :: string where "about_repo = ''github.com/mvrahden/go-test''"

definition detectParamB :: "signature \<Rightarrow> bool option" where
  "detectParamB sig = (case Params sig of
      [p] \<Rightarrow> (case PointsTo p of
          Some (name, Some pkg) \<Rightarrow>
            (if name \<noteq> ''B'' then None
             else if pkg = ''testing'' then Some True
             else if hasSuffix pkg ''/pkg/gotest'' then Some False else None)
        | _ \<Rightarrow> None)
    | _ \<Rightarrow> None)"

definition gotest_pointer :: "string \<Rightarrow> string \<Rightarrow> bool" where
  "gotest_pointer c text \<longleftrightarrow> hasPrefix text (''*'' @ about_repo) \<and> hasSuffix text (''/gotest.'' @ c)"

definition detectParamF :: "signature \<Rightarrow> bool" where
  "detectParamF sig = (case Params sig of [p] \<Rightarrow> gotest_pointer ''F'' (TypeText p) | _ \<Rightarrow> False)"

definition detectParamT :: "ptype \<Rightarrow> bool option" where
  "detectParamT p = (if TypeText p = ''*testing.T'' then Some True
     else if gotest_pointer ''T'' (TypeText p) then Some False else None)"

text \<open>\<open>caseParamOf\<close>: no two of the prefixes are prefixes of one name, so any order of them is as good.\<close>

definition case_param_at :: "string \<Rightarrow> ptype \<Rightarrow> bool" where
  "case_param_at c p = (case PointsToUnaliased p of
      Some (name, Some pkg) \<Rightarrow> name = c \<and> (pkg = ''testing'' \<or> pkg = gotest_pkg)
    | _ \<Rightarrow> False)"

definition case_params :: "(string \<times> string) list" where
  "case_params = [(''Test'', ''T''), (PrefixBenchmark, ''B''), (PrefixFuzz, ''F'')]"

definition caseParamOf :: "string \<Rightarrow> signature \<Rightarrow> string option" where
  "caseParamOf name sig =
     (case Params sig of
        [] \<Rightarrow> None
      | p # _ \<Rightarrow> (case List.find (\<lambda>(prefix, c). hasPrefix (unmarked name) prefix) case_params of
            None \<Rightarrow> None
          | Some (prefix, c) \<Rightarrow> if case_param_at c p then Some prefix else None))"

subsection \<open>One method\<close>

record func_decl =
  d_name :: string
  d_exported :: bool
  d_recv :: receiver
  d_sig :: signature
  d_first_T :: "nat option"
  d_config :: "cstmt list"

datatype harness_error =
    ValueReceiverMethod string
  | Misnamed string string
  | UnsupportedSignature string
  | UnsupportedReturn string
  | BadConfig config_error
  | ReturnsValue string
  | BenchmarkParam string
  | FuzzParam string
  | ParamType string
  | TrailingDone string
  | Unhandled string

definition new_method :: "func_decl \<Rightarrow> TestSuiteMethod" where
  "new_method d = \<lparr>m_name = d_name d, m_sig = d_sig d, usesStdlibT = False, contextParam = None,
     returnType = None, first_T = d_first_T d\<rparr>"

definition config_method :: "constants \<Rightarrow> func_decl \<Rightarrow> TestSuiteHarness \<Rightarrow> TestSuiteHarness \<times> harness_error option" where
  "config_method K d h =
     (if Params (d_sig d) \<noteq> [] \<or> length (Results (d_sig d)) \<noteq> 1 then (h, Some (UnsupportedSignature ''SuiteConfig''))
      else if \<not> hasSuffix (TypeText (hd (Results (d_sig d)))) ''/gotest.SuiteConfig''
      then (h, Some (UnsupportedReturn ''SuiteConfig''))
      else case parseSuiteConfigAST K (d_config d) of
        Inl e \<Rightarrow> (h\<lparr>HasConfig := True\<rparr>, Some (BadConfig e))
      | Inr c \<Rightarrow> (h\<lparr>HasConfig := True, ConfigParallel := StParallel c, ConfigExclusive := StExclusive c,
                     ConfigGroup := StGroup c\<rparr>, None))"

definition guard_method :: "func_decl \<Rightarrow> TestSuiteHarness \<Rightarrow> TestSuiteHarness \<times> harness_error option" where
  "guard_method d h =
     (if Params (d_sig d) \<noteq> [] \<or> length (Results (d_sig d)) \<noteq> 1 then (h, Some (UnsupportedSignature ''SuiteGuard''))
      else if TypeText (hd (Results (d_sig d))) \<noteq> ''string'' then (h, Some (UnsupportedReturn ''SuiteGuard''))
      else (h\<lparr>HasGuard := True\<rparr>, None))"

text \<open>A hook is set before its signature is checked.  The arguments: how many parameters it may take, how many results.\<close>

definition hook_checked :: "string \<Rightarrow> nat set \<Rightarrow> nat set \<Rightarrow> func_decl \<Rightarrow> TestSuiteMethod \<times> harness_error option" where
  "hook_checked name params results d =
     (let sig = d_sig d; tm = new_method d in
      if length (Params sig) \<notin> params \<or> length (Results sig) \<notin> results then (tm, Some (UnsupportedSignature name))
      else case detectParamT (hd (Params sig)) of
        None \<Rightarrow> (tm, Some (ParamType name))
      | Some std \<Rightarrow>
          (tm\<lparr>usesStdlibT := std,
              contextParam := (if length (Params sig) = 2 then Some (Params sig ! 1) else None),
              returnType := (if length (Results sig) = 1 then Some (hd (Results sig)) else None)\<rparr>, None))"

definition test_method :: "func_decl \<Rightarrow> TestSuiteHarness \<Rightarrow> TestSuiteHarness \<times> harness_error option" where
  "test_method d h =
     (let name = d_name d; ps = Params (d_sig d); tm = new_method d;
          tm2 = (if 2 \<le> length ps then tm\<lparr>contextParam := Some (ps ! 1)\<rparr> else tm);
          added = (\<lambda>m. h\<lparr>TestCases := TestCases h @ [m], DeclaresTests := True\<rparr>)
      in if 2 \<le> length ps \<and> isDoneFunc (last ps) then (h, Some (TrailingDone name))
         else if length ps \<noteq> (if 2 \<le> length ps then 2 else 1) then (added tm2, Some (UnsupportedSignature name))
         else case detectParamT (hd ps) of
           None \<Rightarrow> (added tm2, Some (ParamType name))
         | Some std \<Rightarrow> (added (tm2\<lparr>usesStdlibT := std\<rparr>), None))"

definition suite_method :: "stdlib \<Rightarrow> constants \<Rightarrow> func_decl \<Rightarrow> TestSuiteHarness \<Rightarrow> TestSuiteHarness \<times> harness_error option" where
  "suite_method L K d h =
     (let name = d_name d; sig = d_sig d; tm = new_method d;
          isCase = (IS_TEST_CASE L name \<or> IS_BENCHMARK L name \<or> IS_FUZZ L name)
      in if name = ''SuiteConfig'' then config_method K d h
         else if name = ''SuiteGuard'' then guard_method d h
         else if isCase \<and> Results sig \<noteq> [] then (h, Some (ReturnsValue name))
         else if name = ''BeforeAll'' then
           (let (m, e) = hook_checked name {1} {0} d in (h\<lparr>ThBeforeAll := Some m\<rparr>, e))
         else if name = ''AfterAll'' then
           (let (m, e) = hook_checked name {1} {0} d in (h\<lparr>ThAfterAll := Some m\<rparr>, e))
         else if name = ''BeforeEach'' then
           (let (m, e) = hook_checked name {1} {0, 1} d in (h\<lparr>ThBeforeEach := Some m\<rparr>, e))
         else if name = ''AfterEach'' then
           (let (m, e) = hook_checked name {1, 2} {0} d in (h\<lparr>ThAfterEach := Some m\<rparr>, e))
         else if IS_BENCHMARK L name then
           (case detectParamB sig of
              None \<Rightarrow> (h, Some (BenchmarkParam name))
            | Some std \<Rightarrow> (h\<lparr>SuiteBenchmarks := SuiteBenchmarks h @ [tm\<lparr>usesStdlibT := std\<rparr>]\<rparr>, None))
         else if IS_FUZZ L name then
           (if \<not> detectParamF sig then (h, Some (FuzzParam name))
            else (h\<lparr>SuiteFuzzers := SuiteFuzzers h @ [tm]\<rparr>, None))
         else if IS_TEST_CASE L name then test_method d h
         else (h, Some (Unhandled name)))"

definition DetermineTestSuiteHarness ::
    "stdlib \<Rightarrow> constants \<Rightarrow> string \<Rightarrow> func_decl \<Rightarrow> TestSuiteHarness \<Rightarrow> TestSuiteHarness \<times> harness_error option" where
  "DetermineTestSuiteHarness L K key d h =
     (let name = d_name d; misnamed = (\<not> IsGoTestName L name) in
      if \<not> d_exported d then (h, None)
      else if \<not> IS_TEST_SUITE_METHOD L name \<and> \<not> misnamed then (h, None)
      else case d_recv d of
        NoReceiver \<Rightarrow> (h, None)
      | ValueReceiver k \<Rightarrow> (h, if k = key \<and> \<not> misnamed then Some (ValueReceiverMethod name) else None)
      | OtherReceiver \<Rightarrow> (h, None)
      | PointerReceiver k \<Rightarrow>
          (if k \<noteq> key then (h, None)
           else if misnamed then (h, map_option (Misnamed name) (caseParamOf name (d_sig d)))
           else suite_method L K d h))"

text \<open>The collector's walk over a package's methods: the harness, and every error.\<close>

definition collect_harness :: "stdlib \<Rightarrow> constants \<Rightarrow> string \<Rightarrow> func_decl list \<Rightarrow> TestSuiteHarness \<times> harness_error list" where
  "collect_harness L K key ds =
     foldl (\<lambda>(h, errs) d. let (h', e) = DetermineTestSuiteHarness L K key d h
                          in (h', errs @ (case e of None \<Rightarrow> [] | Some x \<Rightarrow> [x]))) (empty_harness, []) ds"

subsection \<open>The suite as a whole\<close>

datatype suite_error =
    Unexported string
  | BenchContext string
  | BenchStdlibHook string string
  | FuzzContext string
  | FuzzStdlibHook string string
  | NilT string string "string list"
  | ParallelVoid string
  | OrphanContext string string
  | OrphanAfterEach string
  | ContextNoPointer string
  | MissingContext string string
  | ContextType string string
  | AfterEachNoContext string
  | AfterEachType string
  | NoCase string

definition ValidateDeclaresCase :: "TestSuiteSpec \<Rightarrow> suite_error option" where
  "ValidateDeclaresCase s =
     (if DeclaresTests (th s) \<or> SuiteBenchmarks (th s) \<noteq> [] \<or> SuiteFuzzers (th s) \<noteq> [] then None
      else Some (NoCase (ts_name s)))"

definition opt_holds :: "('a \<Rightarrow> bool) \<Rightarrow> 'a option \<Rightarrow> bool" where
  "opt_holds P x = (case x of None \<Rightarrow> False | Some v \<Rightarrow> P v)"

text \<open>The first hook that takes a \<open>*testing.T\<close>.\<close>

definition stdlib_hook :: "TestSuiteHarness \<Rightarrow> string option" where
  "stdlib_hook h =
     (if opt_holds usesStdlibT (ThBeforeAll h) then Some ''BeforeAll''
      else if opt_holds usesStdlibT (ThAfterAll h) then Some ''AfterAll''
      else if opt_holds usesStdlibT (ThBeforeEach h) then Some ''BeforeEach''
      else if opt_holds usesStdlibT (ThAfterEach h) then Some ''AfterEach'' else None)"

text \<open>\<open>callsT\<close> of a hook: a hook that is missing or takes a \<open>*testing.T\<close> calls none.\<close>

definition callsT :: "TestSuiteMethod option \<Rightarrow> nat option" where
  "callsT m = (case m of None \<Rightarrow> None | Some tm \<Rightarrow> if Params (m_sig tm) = [] \<or> usesStdlibT tm then None else first_T tm)"

definition hooks_in_order :: "TestSuiteHarness \<Rightarrow> (string \<times> TestSuiteMethod option \<times> bool) list" where
  "hooks_in_order h = [(''BeforeAll'', ThBeforeAll h, False), (''AfterAll'', ThAfterAll h, False),
     (''BeforeEach'', ThBeforeEach h, True), (''AfterEach'', ThAfterEach h, True)]"

definition offenders :: "TestSuiteHarness \<Rightarrow> (string \<times> nat \<times> bool) list" where
  "offenders h = List.map_filter (\<lambda>(name, m, perInput).
     if perInput \<and> SuiteBenchmarks h = [] then None
     else map_option (\<lambda>pos. (name, pos, perInput)) (callsT m)) (hooks_in_order h)"

definition hooksCallingT :: "TestSuiteSpec \<Rightarrow> suite_error option" where
  "hooksCallingT s =
     (let h = th s; bench = (SuiteBenchmarks h \<noteq> []); fuzz = (SuiteFuzzers h \<noteq> []);
          found = offenders h; perInput = list_ex (\<lambda>(n, p, i). i) found
      in if \<not> bench \<and> \<not> fuzz then None
         else if found = [] then None
         else Some (NilT (ts_name s)
                (if perInput \<or> \<not> fuzz then ''benchmark'' else if bench then ''fuzz and benchmark'' else ''fuzz'')
                (map fst (sort_key (\<lambda>(n, p, i). p) found))))"

definition wrapper_rules :: "TestSuiteSpec \<Rightarrow> suite_error option" where
  "wrapper_rules s =
     (let h = th s; returning = HasReturningBeforeEach s in
      if TestCases h \<noteq> [] \<and> \<not> ts_exported s then Some (Unexported (ts_name s))
      else if SuiteBenchmarks h \<noteq> [] \<and> returning then Some (BenchContext (ts_name s))
      else if SuiteBenchmarks h \<noteq> [] \<and> stdlib_hook h \<noteq> None then Some (BenchStdlibHook (ts_name s) (the (stdlib_hook h)))
      else if SuiteFuzzers h \<noteq> [] \<and> returning then Some (FuzzContext (ts_name s))
      else if SuiteFuzzers h \<noteq> [] \<and> stdlib_hook h \<noteq> None then Some (FuzzStdlibHook (ts_name s) (the (stdlib_hook h)))
      else hooksCallingT s)"

fun first_fault :: "('a \<Rightarrow> 'e option) \<Rightarrow> 'a list \<Rightarrow> 'e option" where
  "first_fault f [] = None"
| "first_fault f (x # xs) = (case f x of Some e \<Rightarrow> Some e | None \<Rightarrow> first_fault f xs)"

text \<open>A suite whose \<open>BeforeEach\<close> returns nothing: no method takes a context.\<close>

definition void_rules :: "TestSuiteSpec \<Rightarrow> suite_error option" where
  "void_rules s =
     (let h = th s in
      case first_fault (\<lambda>tc. if HasContextParam tc then Some (OrphanContext (ts_name s) (m_name tc)) else None) (TestCases h) of
        Some e \<Rightarrow> Some e
      | None \<Rightarrow> if opt_holds HasContextParam (ThAfterEach h) then Some (OrphanAfterEach (ts_name s)) else None)"

text \<open>A returning one: every method takes the type it returns.\<close>

definition context_rules :: "TestSuiteSpec \<Rightarrow> ptype \<Rightarrow> suite_error option" where
  "context_rules s rt =
     (let h = th s; ctxType = TypeText rt in
      if \<not> IsPointer rt then Some (ContextNoPointer (ts_name s))
      else case first_fault (\<lambda>tc. case contextParam tc of
             None \<Rightarrow> Some (MissingContext (ts_name s) (m_name tc))
           | Some p \<Rightarrow> if TypeText p \<noteq> ctxType then Some (ContextType (ts_name s) (m_name tc)) else None) (TestCases h) of
        Some e \<Rightarrow> Some e
      | None \<Rightarrow> (case ThAfterEach h of
            None \<Rightarrow> None
          | Some ae \<Rightarrow> (case contextParam ae of
                None \<Rightarrow> Some (AfterEachNoContext (ts_name s))
              | Some p \<Rightarrow> if TypeText p \<noteq> ctxType then Some (AfterEachType (ts_name s)) else None)))"

definition ValidateContextConsistency :: "TestSuiteSpec \<Rightarrow> suite_error option" where
  "ValidateContextConsistency s =
     (case wrapper_rules s of
        Some e \<Rightarrow> Some e
      | None \<Rightarrow>
          (case ThBeforeEach (th s) of
             None \<Rightarrow> void_rules s
           | Some be \<Rightarrow>
               (case returnType be of
                  None \<Rightarrow> if ConfigParallel (th s) then Some (ParallelVoid (ts_name s)) else void_rules s
                | Some rt \<Rightarrow> context_rules s rt)))"

subsection \<open>Collecting\<close>

text \<open>
  What \<open>CollectSuiteSpecs\<close> does of a package whose suites and fixtures passed the checks of their
  shape: each suite's methods, then the cases, then the contexts; the errors of the first of these
  that has any.  A suite comes with the methods of the package that declares it.
\<close>

definition collect_suite :: "stdlib \<Rightarrow> constants \<Rightarrow> TestSuiteSpec \<times> func_decl list \<Rightarrow> TestSuiteSpec \<times> harness_error list" where
  "collect_suite L K sd = (let (s, ds) = sd; (h, errs) = collect_harness L K (recvKey s) ds in (s\<lparr>th := h\<rparr>, errs))"

datatype collect_error = HarnessErrors "harness_error list" | SuiteErrors "suite_error list"

definition collect_suites ::
    "stdlib \<Rightarrow> constants \<Rightarrow> (TestSuiteSpec \<times> func_decl list) list \<Rightarrow> collect_error + TestSuiteSpec list" where
  "collect_suites L K sds =
     (let cs = map (collect_suite L K) sds; errs = concat (map snd cs); ts = map fst cs;
          nocase = List.map_filter ValidateDeclaresCase ts;
          context_errs = List.map_filter ValidateContextConsistency ts
      in if errs \<noteq> [] then Inl (HarnessErrors errs)
         else if nocase \<noteq> [] then Inl (SuiteErrors nocase)
         else if context_errs \<noteq> [] then Inl (SuiteErrors context_errs)
         else Inr ts)"

end
