(* ===== verification/SuiteWrappers.thy ===== *)
theory SuiteWrappers
  imports SuiteHarness
begin

text \<open>
  \<^verbatim>\<open>gotestgen/static\<close>: the calls of a suite's methods the generated wrappers hold, as the templates write
  them: a method and the arguments it is given.
\<close>

subsection \<open>Calls\<close>

text \<open>
  \<open>ArgT\<close> is a \<open>*gotest.T\<close>, \<open>ArgStdT\<close> its \<open>T()\<close>, \<open>ArgCtx\<close> what \<open>BeforeEach\<close> returned, \<open>ArgB\<close> and \<open>ArgStdB\<close> a
  \<open>*gotest.B\<close> and a \<open>*testing.B\<close>, \<open>ArgF\<close> a \<open>*gotest.F\<close>.
\<close>

datatype arg = ArgT | ArgStdT | ArgCtx | ArgB | ArgStdB | ArgF

record gen_call =
  callee :: TestSuiteMethod
  call_args :: "arg list"

definition t_arg :: "TestSuiteMethod \<Rightarrow> arg" where
  "t_arg m = (if usesStdlibT m then ArgStdT else ArgT)"

definition hook_call :: "arg list \<Rightarrow> TestSuiteMethod option \<Rightarrow> gen_call list" where
  "hook_call more_args m = (case m of None \<Rightarrow> [] | Some h \<Rightarrow> [\<lparr>callee = h, call_args = t_arg h # more_args\<rparr>])"

text \<open>Template \<open>suiteWrapper\<close>: the type around the suite, whose four hooks call the suite's.\<close>

definition suiteWrapper :: "TestSuiteSpec \<Rightarrow> gen_call list" where
  "suiteWrapper s =
     hook_call [] (ThBeforeAll (th s)) @ hook_call [] (ThAfterAll (th s)) @ hook_call [] (ThBeforeEach (th s)) @
     hook_call (if HasReturningBeforeEach s then [ArgCtx] else []) (ThAfterEach (th s))"

text \<open>Template \<open>suiteMethods\<close>, \<open>exec\<close> called with a closure or with the method itself.\<close>

definition suiteMethods :: "TestSuiteSpec \<Rightarrow> gen_call list" where
  "suiteMethods s = map (\<lambda>tc.
     (if usesStdlibT tc \<or> HasReturningBeforeEach s
      then \<lparr>callee = tc, call_args = t_arg tc # (if HasReturningBeforeEach s then [ArgCtx] else [])\<rparr>
      else \<lparr>callee = tc, call_args = [ArgT]\<rparr>)) (TestCases (th s))"

definition benchMethods :: "TestSuiteSpec \<Rightarrow> gen_call list" where
  "benchMethods s = map (\<lambda>bm. \<lparr>callee = bm, call_args = [if usesStdlibT bm then ArgStdB else ArgB]\<rparr>) (SuiteBenchmarks (th s))"

definition fuzzMethods :: "TestSuiteSpec \<Rightarrow> gen_call list" where
  "fuzzMethods s = map (\<lambda>fz. \<lparr>callee = fz, call_args = [ArgF]\<rparr>) (SuiteFuzzers (th s))"

definition suite_calls :: "TestSuiteSpec \<Rightarrow> gen_call list" where
  "suite_calls s = suiteWrapper s @ suiteMethods s @ benchMethods s @ fuzzMethods s"

text \<open>
  The parameters, without the \<open>*gotest.T\<close>, of the wrapper's own \<open>AfterEach\<close>, and what the benchmark and fuzz
  wrappers, which call it, give it.
\<close>

definition wrapper_AfterEach :: "TestSuiteSpec \<Rightarrow> arg list" where
  "wrapper_AfterEach s = (if HasReturningBeforeEach s then [ArgCtx] else [])"

subsection \<open>Functions\<close>

text \<open>The functions \<open>go test\<close> finds in the file, by suite: whether they run the suite or only skip.\<close>

datatype gen_func = RunsSuite string | SkipsSuite string

definition test_funcs :: "TestSuiteSpec \<Rightarrow> gen_func list" where
  "test_funcs s = (if TestCases (th s) \<noteq> [] then [RunsSuite (''Test'' @ ts_name s)]
     else if DeclaresTests (th s) then [SkipsSuite (''Test'' @ ts_name s)] else [])"

definition bench_funcs :: "TestSuiteSpec \<Rightarrow> gen_func list" where
  "bench_funcs s = (if SuiteBenchmarks (th s) \<noteq> [] then [RunsSuite (''Benchmark'' @ ts_name s)] else [])"

definition fuzz_funcs :: "TestSuiteSpec \<Rightarrow> gen_func list" where
  "fuzz_funcs s = map (\<lambda>fz. RunsSuite (''Fuzz'' @ ts_name s @ ''_'' @ m_name fz)) (SuiteFuzzers (th s))"

definition excludedSuite :: "TestSuiteSpec \<Rightarrow> gen_func" where
  "excludedSuite s = SkipsSuite (''Test'' @ ts_name s)"

definition generated_funcs :: "TestSuiteSpec list \<Rightarrow> TestSuiteSpec list \<Rightarrow> gen_func list" where
  "generated_funcs effective skipped =
     concat (map test_funcs effective) @ map excludedSuite skipped @
     concat (map bench_funcs effective) @ concat (map fuzz_funcs effective)"

end
