(* ===== verification/SuiteDiscovery.thy ===== *)
theory SuiteDiscovery
  imports SuiteHarness
begin

text \<open>
  \<^verbatim>\<open>gotestast/spec.go\<close>, \<^verbatim>\<open>shapes.go\<close>, \<^verbatim>\<open>fixture.go\<close>, \<^verbatim>\<open>predeclared.go\<close> and \<^verbatim>\<open>warnings.go\<close>: the declarations
  of a package that are suites and fixtures, the shapes they are refused for, and the whole of
  \<^verbatim>\<open>gotestgen/collector.go\<close>'s \<open>CollectSuiteSpecs\<close>.
\<close>

subsection \<open>Declarations\<close>

text \<open>
  A named type's own methods are those of its origin.  A struct's fields come with the type each names,
  through an alias and one pointer, and the names in the method set of a pointer to it.
\<close>

record named_info =
  n_name :: string
  n_methods :: "string list"

record field_info =
  f_anonymous :: bool
  f_named :: "named_info option"
  f_method_set :: "string list"

datatype raw_type = RawStruct "field_info list" | RawNamed named_info "field_info list option" | RawOther

text \<open>
  \<open>t_alias\<close> is whether the declaration is an alias, \<open>t_raw\<close> the type it names with aliases resolved,
  \<open>t_struct\<close> whether that type is a struct as written,
  \<open>t_testify\<close> whether that embeds testify's suite, and the two keys name the declared type and the one
  it is declared over.
\<close>

record type_spec =
  t_name :: string
  t_exported :: bool
  t_generic :: bool
  t_alias :: bool
  t_raw :: raw_type
  t_struct :: bool
  t_testify :: bool
  t_key :: string
  t_raw_key :: string
  t_test_file :: bool

type_synonym type_decl = "type_spec list"

definition declares_case :: "stdlib \<Rightarrow> named_info \<Rightarrow> bool" where
  "declares_case L n = list_ex (\<lambda>m. IS_TEST_CASE L m \<or> IS_BENCHMARK L m \<or> IS_FUZZ L m) (n_methods n)"

datatype discovery_error =
    InTypeBlock string
  | DefinedOver string string
  | SuiteField string string
  | EmbedsSuite string string
  | EmbedsFixture string string
  | EmbedsMethod string string
  | FixtureNoStruct string
  | SharedInTestFile string
  | Predeclared string

subsection \<open>Suites\<close>

definition spec_of :: "string \<Rightarrow> type_spec \<Rightarrow> TestSuiteSpec" where
  "spec_of pkg t = \<lparr>ts_name = t_name t, ts_exported = t_exported t, pkgName = pkg,
     underlyingTypeName = (case t_raw t of RawNamed n s \<Rightarrow> if t_alias t then n_name n else [] | _ \<Rightarrow> []),
     recvKey = (case t_raw t of RawNamed n s \<Rightarrow> if t_alias t then t_raw_key t else t_key t | _ \<Rightarrow> t_key t),
     th = empty_harness\<rparr>"

definition DetermineTestSuite ::
    "stdlib \<Rightarrow> string \<Rightarrow> type_decl \<Rightarrow> (discovery_error + (TestSuiteSpec \<times> field_info list) option)" where
  "DetermineTestSuite L pkg specs =
     (case specs of
        [t] \<Rightarrow>
          (if \<not> IS_TEST_SUITE (t_name t) \<or> t_generic t then Inr None
           else case t_raw t of
             RawStruct fs \<Rightarrow> if t_testify t then Inr None else Inr (Some (spec_of pkg t, fs))
           | RawNamed n s \<Rightarrow>
               (if \<not> t_alias t \<and> declares_case L n then Inl (DefinedOver (t_name t) (n_name n))
                else case s of
                  None \<Rightarrow> Inr None
                | Some fs \<Rightarrow> if t_testify t then Inr None else Inr (Some (spec_of pkg t, fs)))
           | RawOther \<Rightarrow> Inr None)
      | _ \<Rightarrow> (case List.find (\<lambda>t. IS_TEST_SUITE (t_name t)) specs of
            Some t \<Rightarrow> Inl (InTypeBlock (t_name t))
          | None \<Rightarrow> Inr None))"

subsection \<open>Shapes\<close>

definition isSuiteType :: "stdlib \<Rightarrow> named_info option \<Rightarrow> bool" where
  "isSuiteType L n = (case n of None \<Rightarrow> False | Some i \<Rightarrow> IS_TEST_SUITE (n_name i) \<and> declares_case L i)"

definition promotedInterpreted :: "stdlib \<Rightarrow> field_info \<Rightarrow> string option" where
  "promotedInterpreted L f = List.find (interpretedMethod L) (f_method_set f)"

definition FieldShapeError :: "stdlib \<Rightarrow> string \<Rightarrow> field_info \<Rightarrow> discovery_error option" where
  "FieldShapeError L owner f =
     (let promoted = map_option (EmbedsMethod owner) (promotedInterpreted L f) in
      if \<not> f_anonymous f
      then (if isSuiteType L (f_named f) then Some (SuiteField owner (n_name (the (f_named f)))) else None)
      else case f_named f of
        None \<Rightarrow> promoted
      | Some n \<Rightarrow>
          (if isSuiteType L (Some n) then Some (EmbedsSuite owner (n_name n))
           else if hasSuffix (n_name n) SuffixFixture then Some (EmbedsFixture owner (n_name n))
           else promoted))"

definition validateFields :: "stdlib \<Rightarrow> string \<Rightarrow> field_info list \<Rightarrow> discovery_error option" where
  "validateFields L owner fs = first_fault (FieldShapeError L owner) fs"

subsection \<open>Fixtures\<close>

record FixtureSpec =
  fx_name :: string
  fx_shared :: bool
  fx_fields :: "field_info list"
  fx_config :: bool
  fx_hooks :: "string list"
  fx_hydrate :: bool
  fx_dehydrate :: bool

definition DetermineFixtureOf ::
    "(string \<Rightarrow> bool) \<Rightarrow> type_decl \<Rightarrow> (discovery_error + FixtureSpec option)" where
  "DetermineFixtureOf wanted specs =
     (let take_it = (\<lambda>t. hasSuffix (t_name t) SuffixFixture \<and> wanted (t_name t)) in
      case specs of
        [t] \<Rightarrow>
          (if \<not> take_it t then Inr None
           else let shared = hasSuffix (t_name t) SuffixSharedFixture in
             (case (t_struct t, t_raw t) of
                (True, RawStruct fs) \<Rightarrow>
                  (if shared \<and> t_test_file t then Inl (SharedInTestFile (t_name t))
                   else Inr (Some \<lparr>fx_name = t_name t, fx_shared = shared, fx_fields = fs, fx_config = False,
                          fx_hooks = [], fx_hydrate = False, fx_dehydrate = False\<rparr>))
              | _ \<Rightarrow> Inl (FixtureNoStruct (t_name t))))
      | _ \<Rightarrow> (case List.find take_it specs of
            Some t \<Rightarrow> Inl (InTypeBlock (t_name t))
          | None \<Rightarrow> Inr None))"

datatype fixture_error = FixtureMethod string string | HydratePair string

text \<open>\<open>ok\<close> is \<open>FixtureMethodError\<close>'s verdict on the method, of theory \<open>Binding\<close>.  A receiver is read as written.\<close>

definition DetermineFixtureHarness ::
    "(bool \<Rightarrow> func_decl \<Rightarrow> bool) \<Rightarrow> (func_decl \<Rightarrow> string option) \<Rightarrow> func_decl \<Rightarrow> FixtureSpec \<Rightarrow>
     FixtureSpec \<times> fixture_error option" where
  "DetermineFixtureHarness ok recv_of d f =
     (let name = d_name d in
      if \<not> d_exported d \<or>
         name \<notin> {''BeforeAll'', ''AfterAll'', ''BeforeEach'', ''AfterEach'', ''FixtureConfig'',
           ''SharedFixtureConfig'', ''Hydrate'', ''Dehydrate''} \<or>
         recv_of d \<noteq> Some (fx_name f)
      then (f, None)
      else if \<not> ok (fx_shared f) d then (f, Some (FixtureMethod (fx_name f) name))
      else if name = ''FixtureConfig'' \<or> name = ''SharedFixtureConfig'' then (f\<lparr>fx_config := True\<rparr>, None)
      else if name = ''Hydrate'' then (f\<lparr>fx_hydrate := True\<rparr>, None)
      else if name = ''Dehydrate'' then (f\<lparr>fx_dehydrate := True\<rparr>, None)
      else (f\<lparr>fx_hooks := fx_hooks f @ [name]\<rparr>, None))"

definition ValidateFixtureConsistency :: "FixtureSpec \<Rightarrow> fixture_error option" where
  "ValidateFixtureConsistency f =
     (if \<not> fx_shared f then None
      else if fx_hydrate f \<noteq> fx_dehydrate f then Some (HydratePair (fx_name f)) else None)"

subsection \<open>A package\<close>

text \<open>
  Go's predeclared names by what they are: \<open>PreType\<close> says whether the package's declaration is the same
  type.
\<close>

datatype predeclared = PreType bool | PreBuiltin | PreValue | NotPredeclared

definition harnessBuiltins :: "string list" where "harnessBuiltins = [''append'', ''len'', ''make'', ''panic'']"

definition clashes :: "string \<times> predeclared \<Rightarrow> bool" where
  "clashes d = (let (name, p) = d in case p of
      PreType same \<Rightarrow> \<not> same
    | PreBuiltin \<Rightarrow> name \<in> set harnessBuiltins
    | PreValue \<Rightarrow> name \<noteq> ''iota''
    | NotPredeclared \<Rightarrow> False)"

text \<open>The package's names come sorted.\<close>

definition PredeclaredClash :: "(string \<times> predeclared) list \<Rightarrow> discovery_error option" where
  "PredeclaredClash scope = map_option (\<lambda>d. Predeclared (fst d)) (List.find clashes scope)"

text \<open>
  \<open>p_methods_of\<close> gives the methods a suite is collected from (\<open>declaringPackage\<close>'s, which may be another
  package's), \<open>p_reached\<close> the package fixtures a suite binds.
\<close>

record go_package =
  p_name :: string
  p_decls :: "type_decl list"
  p_scope :: "(string \<times> predeclared) list"
  p_funcs :: "func_decl list"
  p_methods_of :: "TestSuiteSpec \<Rightarrow> func_decl list"
  p_reached :: "string \<Rightarrow> bool"
  p_fixture_ok :: "bool \<Rightarrow> func_decl \<Rightarrow> bool"
  p_fixture_recv :: "func_decl \<Rightarrow> string option"

datatype collector_error = Discovery discovery_error | Collecting collect_error | FixtureFault fixture_error

fun lefts :: "('e + 'a) list \<Rightarrow> 'e list" where
  "lefts [] = []"
| "lefts (Inl e # xs) = e # lefts xs"
| "lefts (Inr x # xs) = lefts xs"

fun found_specs :: "('e + 'a option) list \<Rightarrow> 'a list" where
  "found_specs [] = []"
| "found_specs (Inr (Some x) # xs) = x # found_specs xs"
| "found_specs (_ # xs) = found_specs xs"

definition fixture_harness :: "go_package \<Rightarrow> FixtureSpec \<Rightarrow> FixtureSpec \<times> fixture_error list" where
  "fixture_harness P f = foldl (\<lambda>(f, errs) d.
       let (f', e) = DetermineFixtureHarness (p_fixture_ok P) (p_fixture_recv P) d f
       in (f', errs @ (case e of None \<Rightarrow> [] | Some x \<Rightarrow> [x]))) (f, []) (p_funcs P)"

definition CollectSuiteSpecs ::
    "stdlib \<Rightarrow> constants \<Rightarrow> go_package \<Rightarrow> collector_error list + (TestSuiteSpec list \<times> FixtureSpec list)" where
  "CollectSuiteSpecs L K P =
     (let ss = map (DetermineTestSuite L (p_name P)) (p_decls P); suites = found_specs ss;
          wanted = (\<lambda>n. p_reached P n \<or> hasSuffix n SuffixSharedFixture);
          fs = map (DetermineFixtureOf wanted) (p_decls P); fixtures = found_specs fs;
          shapes = List.map_filter (\<lambda>(s, fields). validateFields L (ts_name s) fields) suites @
            List.map_filter (\<lambda>f. validateFields L (fx_name f) (fx_fields f)) fixtures;
          fhs = map (fixture_harness P) fixtures
      in if lefts ss \<noteq> [] then Inl (map Discovery (lefts ss))
         else if suites \<noteq> [] \<and> PredeclaredClash (p_scope P) \<noteq> None
         then Inl [Discovery (the (PredeclaredClash (p_scope P)))]
         else if lefts fs \<noteq> [] then Inl (map Discovery (lefts fs))
         else if shapes \<noteq> [] then Inl (map Discovery shapes)
         else case collect_suites L K (map (\<lambda>(s, fields). (s, p_methods_of P s)) suites) of
           Inl e \<Rightarrow> Inl [Collecting e]
         | Inr ts \<Rightarrow>
             (if concat (map snd fhs) \<noteq> [] then Inl (map FixtureFault (concat (map snd fhs)))
              else if List.map_filter (ValidateFixtureConsistency \<circ> fst) fhs \<noteq> []
              then Inl (map FixtureFault (List.map_filter (ValidateFixtureConsistency \<circ> fst) fhs))
              else Inr (ts, map fst fhs)))"

subsection \<open>Warnings\<close>

datatype warning = HookWarning hook_warning | NeverRuns string string string

text \<open>\<open>recv_name\<close> is \<open>receiverTypeName\<close>: the receiver as written, empty for a function.\<close>

definition method_warning :: "stdlib \<Rightarrow> string list \<Rightarrow> string \<times> func_decl \<Rightarrow> warning option" where
  "method_warning L suiteTypes rd =
     (let (recv_name, d) = rd; name = d_name d in
      if \<not> d_exported d \<or> recv_name = [] then None
      else if recv_name \<in> set suiteTypes then map_option HookWarning (hookWarning L recv_name name)
      else if IS_TEST_SUITE recv_name then None
      else if IS_BENCHMARK L name \<and> detectParamB (d_sig d) = Some False then Some (NeverRuns recv_name name ''benchmark'')
      else if IS_FUZZ L name \<and> detectParamF (d_sig d) then Some (NeverRuns recv_name name ''fuzz target'')
      else None)"

definition HarnessWarnings :: "stdlib \<Rightarrow> TestSuiteSpec list \<Rightarrow> (string \<times> func_decl) list \<Rightarrow> warning list" where
  "HarnessWarnings L ts rds =
     List.map_filter (method_warning L
       (map ts_name ts @ filter (\<lambda>n. n \<noteq> []) (map underlyingTypeName ts))) rds"

end
