(* ===== verification/SuiteSpecProps.thy ===== *)
theory SuiteSpecProps
  imports SuiteSpec "HOL-Library.Multiset"
begin

text \<open>
  Properties of theory \<open>SuiteSpec\<close>: which suites and methods a run holds once the markers are applied.
\<close>

text \<open>
  What a run holds, read off the names: a suite, and a method of it among the suite's methods of its kind.
\<close>

definition suite_runs :: "bool \<Rightarrow> TestSuiteSpec \<Rightarrow> bool" where
  "suite_runs focusRun s \<longleftrightarrow> \<not> suite_excluded s \<and>
     (focusRun \<longrightarrow> suite_focused s \<or>
        (\<exists>m \<in> set (TestCases (th s)) \<union> set (SuiteBenchmarks (th s)) \<union> set (SuiteFuzzers (th s)). method_focused m))"

definition method_runs :: "bool \<Rightarrow> TestSuiteSpec \<Rightarrow> TestSuiteMethod list \<Rightarrow> TestSuiteMethod \<Rightarrow> bool" where
  "method_runs focusRun s ms m \<longleftrightarrow> \<not> method_excluded m \<and>
     (method_focused m \<or> (focusRun \<longrightarrow> suite_focused s) \<and> (\<nexists>f. f \<in> set ms \<and> method_focused f))"

definition methods_of :: "TestSuiteSpec \<Rightarrow> TestSuiteMethod list" where
  "methods_of s = TestCases (th s) @ SuiteBenchmarks (th s) @ SuiteFuzzers (th s)"

lemma suite_runs_code:
  "suite_runs focusRun s \<longleftrightarrow> \<not> suite_excluded s \<and> (focusRun \<longrightarrow> suite_focused s \<or> focusesMethod s)"
  by (auto simp: suite_runs_def focusesMethod_def Any_ex)

lemma focused_kept: "filter (\<lambda>m. \<not> method_excluded m) (filter method_focused ms) = filter method_focused ms"
  using marked_once by (auto simp: method_focused_def method_excluded_def intro!: filter_cong)

lemma reduce_methods_runs:
  "fst (reduce_methods (\<not> (focusRun \<and> \<not> suite_focused s)) ms) = filter (method_runs focusRun s ms) ms"
proof (cases "filter method_focused ms = []")
  case True
  then have n: "\<not> method_focused m" if "m \<in> set ms" for m using that by (simp add: filter_empty_conv)
  then have u: "filter (\<lambda>m. \<not> method_focused m) ms = ms" by simp
  show ?thesis
    using n by (auto simp: reduce_methods_def SplitBy_filter Let_def True u method_runs_def
        intro!: filter_cong split: if_splits)
next
  case False
  then obtain f where f: "f \<in> set ms" "method_focused f" by (auto simp: filter_empty_conv)
  have "filter (method_runs focusRun s ms) ms = filter method_focused ms"
    using f marked_once by (auto simp: method_runs_def method_focused_def method_excluded_def intro!: filter_cong)
  with False show ?thesis using focused_kept[of ms] by (simp add: reduce_methods_def SplitBy_filter Let_def)
qed

lemma reduce_methods_all:
  "mset (fst (reduce_methods k ms)) + mset (snd (reduce_methods k ms)) = mset ms"
  by (auto simp: reduce_methods_def SplitBy_filter Let_def multiset_eq_iff filter_empty_conv count_eq_zero_iff)

definition kept_part :: "bool \<Rightarrow> TestSuiteSpec \<times> TestSuiteMethod list \<Rightarrow> TestSuiteSpec \<Rightarrow> bool" where
  "kept_part focusRun r s \<longleftrightarrow>
     fst r = s\<lparr>th := (th s)\<lparr>
       TestCases := filter (method_runs focusRun s (TestCases (th s))) (TestCases (th s)),
       SuiteBenchmarks := filter (method_runs focusRun s (SuiteBenchmarks (th s))) (SuiteBenchmarks (th s)),
       SuiteFuzzers := filter (method_runs focusRun s (SuiteFuzzers (th s))) (SuiteFuzzers (th s))\<rparr>\<rparr> \<and>
     mset (methods_of (fst r)) + mset (snd r) = mset (methods_of s)"

lemma reduce_suite_kept: "kept_part focusRun (reduce_suite focusRun s) s"
proof -
  let ?r = "reduce_methods (\<not> (focusRun \<and> \<not> suite_focused s))"
  have r: "reduce_suite focusRun s = (s\<lparr>th := (th s)\<lparr>TestCases := fst (?r (TestCases (th s))),
       SuiteBenchmarks := fst (?r (SuiteBenchmarks (th s))), SuiteFuzzers := fst (?r (SuiteFuzzers (th s)))\<rparr>\<rparr>,
     snd (?r (TestCases (th s))) @ snd (?r (SuiteBenchmarks (th s))) @ snd (?r (SuiteFuzzers (th s))))"
    by (simp add: reduce_suite_def Let_def split: prod.splits)
  have "mset (methods_of (fst (reduce_suite focusRun s))) + mset (snd (reduce_suite focusRun s)) =
    mset (methods_of s)"
    unfolding r methods_of_def
    using reduce_methods_all[of "\<not> (focusRun \<and> \<not> suite_focused s)" "TestCases (th s)"]
      reduce_methods_all[of "\<not> (focusRun \<and> \<not> suite_focused s)" "SuiteBenchmarks (th s)"]
      reduce_methods_all[of "\<not> (focusRun \<and> \<not> suite_focused s)" "SuiteFuzzers (th s)"]
    by (simp add: ac_simps)
  then show ?thesis unfolding kept_part_def r fst_conv reduce_methods_runs by simp
qed

lemma ReduceInRun_filter:
  "fst (ReduceInRun focusRun ts) = map (reduce_suite focusRun) (filter (suite_runs focusRun) ts)"
  "mset (snd (ReduceInRun focusRun ts)) = mset (filter (\<lambda>s. \<not> suite_runs focusRun s) ts)"
proof -
  have r: "suite_runs focusRun = (\<lambda>s. \<not> suite_excluded s \<and> (focusRun \<longrightarrow> suite_focused s \<or> focusesMethod s))"
    by (rule ext) (rule suite_runs_code)
  show "fst (ReduceInRun focusRun ts) = map (reduce_suite focusRun) (filter (suite_runs focusRun) ts)"
    by (simp add: ReduceInRun_def SplitBy_filter Let_def r conj_commute)
  show "mset (snd (ReduceInRun focusRun ts)) = mset (filter (\<lambda>s. \<not> suite_runs focusRun s) ts)"
    by (auto simp: ReduceInRun_def SplitBy_filter Let_def r multiset_eq_iff)
qed


end
