(* ===== verification/SuiteHarnessProps.thy ===== *)
theory SuiteHarnessProps
  imports SuiteWrappers SuiteDiscovery SuiteSpecProps
begin

text \<open>
  Properties of theories \<open>SuiteHarness\<close> and \<open>SuiteWrappers\<close>: what the collector accepts, the generated
  wrappers call correctly.  A suite's methods are sound when they have the signatures their kind calls
  for; a suite is sound when they agree on the context.
\<close>

text \<open>What a parameter's type has to be for an argument of a generated call.\<close>

definition arg_fits :: "TestSuiteSpec \<Rightarrow> arg \<Rightarrow> ptype \<Rightarrow> bool" where
  "arg_fits s a p = (case a of
      ArgT \<Rightarrow> gotest_pointer ''T'' (TypeText p)
    | ArgStdT \<Rightarrow> TypeText p = ''*testing.T''
    | ArgCtx \<Rightarrow> (case ThBeforeEach (th s) of None \<Rightarrow> False | Some be \<Rightarrow>
        (case returnType be of None \<Rightarrow> False | Some rt \<Rightarrow> IsPointer rt \<and> TypeText p = TypeText rt))
    | ArgB \<Rightarrow> (case PointsTo p of Some (n, Some pkg) \<Rightarrow> n = ''B'' \<and> hasSuffix pkg ''/pkg/gotest'' | _ \<Rightarrow> False)
    | ArgStdB \<Rightarrow> PointsTo p = Some (''B'', Some ''testing'')
    | ArgF \<Rightarrow> gotest_pointer ''F'' (TypeText p))"

definition call_fits :: "TestSuiteSpec \<Rightarrow> gen_call \<Rightarrow> bool" where
  "call_fits s c = list_all2 (arg_fits s) (call_args c) (Params (m_sig (callee c)))"

subsection \<open>Signatures\<close>

definition takes_T :: "TestSuiteMethod \<Rightarrow> bool" where
  "takes_T m \<longleftrightarrow> (\<exists>p. detectParamT p = Some (usesStdlibT m) \<and>
     Params (m_sig m) = p # (case contextParam m of None \<Rightarrow> [] | Some c \<Rightarrow> [c]))"

definition hook_sound :: "TestSuiteMethod option \<Rightarrow> bool" where
  "hook_sound x = (case x of None \<Rightarrow> True | Some m \<Rightarrow> takes_T m \<and> contextParam m = None)"

definition harness_sound :: "TestSuiteHarness \<Rightarrow> bool" where
  "harness_sound h \<longleftrightarrow>
     hook_sound (ThBeforeAll h) \<and> hook_sound (ThAfterAll h) \<and> hook_sound (ThBeforeEach h) \<and>
     (case ThAfterEach h of None \<Rightarrow> True | Some m \<Rightarrow> takes_T m) \<and>
     list_all takes_T (TestCases h) \<and>
     list_all (\<lambda>m. detectParamB (m_sig m) = Some (usesStdlibT m)) (SuiteBenchmarks h) \<and>
     list_all (\<lambda>m. detectParamF (m_sig m)) (SuiteFuzzers h)"

lemma hook_checked_takes:
  assumes "hook_checked name params results d = (m, None)" "params \<subseteq> {1, 2}"
  shows "takes_T m" "2 \<notin> params \<Longrightarrow> contextParam m = None"
proof -
  from assms(1) obtain std where p: "length (Params (d_sig d)) \<in> params"
    and t: "detectParamT (hd (Params (d_sig d))) = Some std"
    and m: "m = (new_method d)\<lparr>usesStdlibT := std,
              contextParam := (if length (Params (d_sig d)) = 2 then Some (Params (d_sig d) ! 1) else None),
              returnType := (if length (Results (d_sig d)) = 1 then Some (hd (Results (d_sig d))) else None)\<rparr>"
    by (auto simp: hook_checked_def Let_def split: if_splits option.splits)
  from p assms(2) consider a where "Params (d_sig d) = [a]" | a b where "Params (d_sig d) = [a, b]"
    by (cases "Params (d_sig d)"; cases "tl (Params (d_sig d))") (auto simp: subset_iff)
  then show "takes_T m" using t by cases (auto simp: takes_T_def m new_method_def)
  show "2 \<notin> params \<Longrightarrow> contextParam m = None" using p by (auto simp: m)
qed

lemma test_method_sound:
  assumes "harness_sound h" "test_method d h = (h', None)"
  shows "harness_sound h'"
proof -
  let ?ps = "Params (d_sig d)"
  from assms(2) obtain std where l: "length ?ps = (if 2 \<le> length ?ps then 2 else 1)"
    and t: "detectParamT (hd ?ps) = Some std"
    and h': "h' = h\<lparr>TestCases := TestCases h @ [(if 2 \<le> length ?ps then (new_method d)\<lparr>contextParam := Some (?ps ! 1)\<rparr>
        else new_method d)\<lparr>usesStdlibT := std\<rparr>], DeclaresTests := True\<rparr>"
    by (auto simp: test_method_def Let_def split: if_splits option.splits)
  from l consider a where "?ps = [a]" | a b where "?ps = [a, b]"
    by (cases ?ps; cases "tl ?ps") (auto split: if_splits)
  then show ?thesis using assms(1) t by cases (auto simp: harness_sound_def takes_T_def h' new_method_def)
qed

lemma hook_step:
  "(case hook_checked n P R d of (m, e) \<Rightarrow> (f m, e)) = (h', None) \<Longrightarrow>
    (\<And>m. hook_checked n P R d = (m, None) \<Longrightarrow> h' = f m \<Longrightarrow> thesis) \<Longrightarrow> thesis"
  by (auto split: prod.splits)

lemma if_pair: "(if b then x else y) = z \<Longrightarrow> (b \<Longrightarrow> x = z \<Longrightarrow> P) \<Longrightarrow> (\<not> b \<Longrightarrow> y = z \<Longrightarrow> P) \<Longrightarrow> P"
  by (cases b) auto

lemma config_method_sound:
  "harness_sound h \<Longrightarrow> config_method K d h = (h', None) \<Longrightarrow> harness_sound h'"
  by (auto simp: config_method_def harness_sound_def split: if_splits sum.splits)

lemma guard_method_sound: "harness_sound h \<Longrightarrow> guard_method d h = (h', None) \<Longrightarrow> harness_sound h'"
  by (auto simp: guard_method_def harness_sound_def split: if_splits)

lemma hook_field_sound:
  assumes "harness_sound h"
  shows "hook_checked n {1} R d = (m, None) \<Longrightarrow> harness_sound (h\<lparr>ThBeforeAll := Some m\<rparr>)"
    "hook_checked n {1} R d = (m, None) \<Longrightarrow> harness_sound (h\<lparr>ThAfterAll := Some m\<rparr>)"
    "hook_checked n {1} R d = (m, None) \<Longrightarrow> harness_sound (h\<lparr>ThBeforeEach := Some m\<rparr>)"
    "hook_checked n {1, 2} R d = (m, None) \<Longrightarrow> harness_sound (h\<lparr>ThAfterEach := Some m\<rparr>)"
  using assms hook_checked_takes[of n _ R d m] by (simp_all add: harness_sound_def hook_sound_def)

lemma bench_sound:
  "harness_sound h \<Longrightarrow> (case detectParamB (d_sig d) of None \<Rightarrow> (h, Some (BenchmarkParam n))
     | Some std \<Rightarrow> (h\<lparr>SuiteBenchmarks := SuiteBenchmarks h @ [(new_method d)\<lparr>usesStdlibT := std\<rparr>]\<rparr>, None)) = (h', None) \<Longrightarrow>
   harness_sound h'"
  by (auto simp: harness_sound_def new_method_def split: option.splits)

lemma fuzz_sound:
  "harness_sound h \<Longrightarrow> \<not> \<not> detectParamF (d_sig d) \<Longrightarrow>
   (h\<lparr>SuiteFuzzers := SuiteFuzzers h @ [new_method d]\<rparr>, None :: harness_error option) = (h', None) \<Longrightarrow>
   harness_sound h'"
  by (auto simp: harness_sound_def new_method_def)

lemma suite_method_sound:
  assumes "harness_sound h" "suite_method L K d h = (h', None)"
  shows "harness_sound h'"
  using assms(2) unfolding suite_method_def Let_def
  by (elim if_pair hook_step)
    (use config_method_sound[OF assms(1)] guard_method_sound[OF assms(1)] test_method_sound[OF assms(1)]
       hook_field_sound[OF assms(1)] bench_sound[OF assms(1)] fuzz_sound[OF assms(1)] in \<open>simp; fail | blast\<close>)+

lemma determined_sound:
  "harness_sound h \<Longrightarrow> DetermineTestSuiteHarness L K key d h = (h', None) \<Longrightarrow> harness_sound h'"
  by (auto simp: DetermineTestSuiteHarness_def Let_def split: if_splits receiver.splits
      dest: suite_method_sound)

lemma collected_sound: "collect_harness L K key ds = (h, []) \<Longrightarrow> harness_sound h"
proof (induction ds arbitrary: h rule: rev_induct)
  case Nil
  then show ?case by (auto simp: collect_harness_def harness_sound_def hook_sound_def empty_harness_def)
next
  case (snoc d ds)
  obtain g errs where g: "collect_harness L K key ds = (g, errs)" by fastforce
  with snoc.prems have "errs = []" "DetermineTestSuiteHarness L K key d g = (h, None)"
    by (auto simp: collect_harness_def split: prod.splits option.splits)
  then show ?case using snoc.IH g determined_sound by blast
qed

lemma harness_sound_less:
  "harness_sound h \<Longrightarrow> set ts \<subseteq> set (TestCases h) \<Longrightarrow> set bs \<subseteq> set (SuiteBenchmarks h) \<Longrightarrow>
   set fs \<subseteq> set (SuiteFuzzers h) \<Longrightarrow>
   harness_sound (h\<lparr>TestCases := ts, SuiteBenchmarks := bs, SuiteFuzzers := fs\<rparr>)"
  by (auto simp: harness_sound_def list_all_iff)

subsection \<open>Contexts\<close>

lemma no_first_fault: "first_fault f xs = None \<longleftrightarrow> (\<forall>x \<in> set xs. f x = None)"
  by (induction xs) (auto split: option.splits)

text \<open>What the methods take besides their \<open>T\<close>.\<close>

definition context_sound :: "TestSuiteSpec \<Rightarrow> TestSuiteMethod \<Rightarrow> bool" where
  "context_sound s m \<longleftrightarrow>
     (case contextParam m of None \<Rightarrow> \<not> HasReturningBeforeEach s | Some p \<Rightarrow> arg_fits s ArgCtx p)"

definition contexts_sound :: "TestSuiteSpec \<Rightarrow> bool" where
  "contexts_sound s \<longleftrightarrow> list_all (context_sound s) (TestCases (th s)) \<and>
     (case ThAfterEach (th s) of None \<Rightarrow> True | Some m \<Rightarrow> context_sound s m)"

lemma void_rules_sound:
  "void_rules s = None \<Longrightarrow> \<not> HasReturningBeforeEach s \<Longrightarrow> contexts_sound s"
  by (auto simp: void_rules_def Let_def no_first_fault contexts_sound_def context_sound_def list_all_iff
      HasContextParam_def opt_holds_def split: option.splits if_splits)

lemma context_rules_sound:
  assumes "context_rules s rt = None" "ThBeforeEach (th s) = Some be" "returnType be = Some rt"
  shows "contexts_sound s"
proof -
  from assms(1) have p: "IsPointer rt"
    and t: "\<forall>m \<in> set (TestCases (th s)). \<exists>p. contextParam m = Some p \<and> TypeText p = TypeText rt"
    and a: "\<forall>m. ThAfterEach (th s) = Some m \<longrightarrow> (\<exists>p. contextParam m = Some p \<and> TypeText p = TypeText rt)"
    by (auto simp: context_rules_def Let_def no_first_fault split: if_splits option.splits)
  have "context_sound s m" if "contextParam m = Some p" "TypeText p = TypeText rt" for m p
    using that assms(2,3) p by (simp add: context_sound_def arg_fits_def)
  then show ?thesis using t a by (fastforce simp: contexts_sound_def list_all_iff split: option.splits)
qed

lemma valid_contexts:
  assumes "ValidateContextConsistency s = None"
  shows "contexts_sound s" "wrapper_rules s = None"
    "ConfigParallel (th s) \<and> ThBeforeEach (th s) \<noteq> None \<Longrightarrow> HasReturningBeforeEach s"
proof -
  show "wrapper_rules s = None"
    using assms by (simp add: ValidateContextConsistency_def split: option.splits)
  show "contexts_sound s"
  proof (cases "ThBeforeEach (th s)")
    case None
    then show ?thesis using assms void_rules_sound[of s]
      by (simp add: ValidateContextConsistency_def HasReturningBeforeEach_def split: option.splits)
  next
    case (Some be)
    then show ?thesis
      using assms void_rules_sound[of s] context_rules_sound[OF _ Some]
      by (cases "returnType be")
        (auto simp: ValidateContextConsistency_def HasReturningBeforeEach_def HasReturn_def split: option.splits if_splits)
  qed
  show "ConfigParallel (th s) \<and> ThBeforeEach (th s) \<noteq> None \<Longrightarrow> HasReturningBeforeEach s"
    using assms by (auto simp: ValidateContextConsistency_def HasReturningBeforeEach_def HasReturn_def
        split: option.splits if_splits)
qed

text \<open>What holds of the hooks a benchmark or fuzz wrapper runs.\<close>

definition nil_T_safe :: "TestSuiteSpec \<Rightarrow> bool" where
  "nil_T_safe s \<longleftrightarrow>
     (SuiteBenchmarks (th s) \<noteq> [] \<or> SuiteFuzzers (th s) \<noteq> [] \<longrightarrow>
        \<not> HasReturningBeforeEach s \<and> stdlib_hook (th s) = None \<and>
        callsT (ThBeforeAll (th s)) = None \<and> callsT (ThAfterAll (th s)) = None) \<and>
     (SuiteBenchmarks (th s) \<noteq> [] \<longrightarrow>
        callsT (ThBeforeEach (th s)) = None \<and> callsT (ThAfterEach (th s)) = None)"

lemma map_filter_Nil: "List.map_filter f xs = [] \<longleftrightarrow> (\<forall>x \<in> set xs. f x = None)"
  by (auto simp: List.map_filter_def filter_empty_conv)

lemma offenders_Nil:
  "offenders h = [] \<longleftrightarrow> callsT (ThBeforeAll h) = None \<and> callsT (ThAfterAll h) = None \<and>
     (SuiteBenchmarks h \<noteq> [] \<longrightarrow> callsT (ThBeforeEach h) = None \<and> callsT (ThAfterEach h) = None)"
  unfolding offenders_def map_filter_Nil hooks_in_order_def by auto

lemma wrapper_rules_safe:
  assumes "wrapper_rules s = None"
  shows "nil_T_safe s" "TestCases (th s) \<noteq> [] \<Longrightarrow> ts_exported s"
proof -
  have o: "SuiteBenchmarks (th s) \<noteq> [] \<or> SuiteFuzzers (th s) \<noteq> [] \<Longrightarrow> offenders (th s) = []"
    using assms by (auto simp: wrapper_rules_def hooksCallingT_def Let_def split: if_splits)
  have n: "SuiteBenchmarks (th s) \<noteq> [] \<or> SuiteFuzzers (th s) \<noteq> [] \<Longrightarrow>
      \<not> HasReturningBeforeEach s \<and> stdlib_hook (th s) = None"
    using assms by (auto simp: wrapper_rules_def Let_def split: if_splits)
  show "nil_T_safe s"
    using o n by (auto simp: nil_T_safe_def offenders_Nil)
  show "TestCases (th s) \<noteq> [] \<Longrightarrow> ts_exported s"
    using assms by (auto simp: wrapper_rules_def Let_def split: if_splits)
qed

subsection \<open>Calls\<close>

lemma takes_T_fits:
  assumes "takes_T m" "contextParam m = None"
  shows "list_all2 (arg_fits s) [t_arg m] (Params (m_sig m))"
  using assms by (auto simp: takes_T_def t_arg_def arg_fits_def detectParamT_def split: if_splits)

lemma takes_T_context_fits:
  assumes "takes_T m" "context_sound s m"
  shows "list_all2 (arg_fits s) (t_arg m # (if HasReturningBeforeEach s then [ArgCtx] else [])) (Params (m_sig m))"
proof (cases "contextParam m")
  case None
  then show ?thesis using assms takes_T_fits[of m s] by (simp add: context_sound_def)
next
  case (Some p)
  have "arg_fits s ArgCtx p" using assms(2) Some by (simp add: context_sound_def)
  moreover from this have "HasReturningBeforeEach s"
    by (auto simp: arg_fits_def HasReturningBeforeEach_def HasReturn_def split: option.splits)
  ultimately show ?thesis
    using assms(1) Some by (auto simp: takes_T_def t_arg_def arg_fits_def detectParamT_def split: if_splits)
qed

lemma takes_B_fits:
  "detectParamB (m_sig m) = Some (usesStdlibT m) \<Longrightarrow>
   list_all2 (arg_fits s) [if usesStdlibT m then ArgStdB else ArgB] (Params (m_sig m))"
  by (auto simp: arg_fits_def detectParamB_def split: list.splits option.splits if_splits)

lemma takes_F_fits: "detectParamF (m_sig m) \<Longrightarrow> list_all2 (arg_fits s) [ArgF] (Params (m_sig m))"
  by (auto simp: arg_fits_def detectParamF_def split: list.splits)

lemma suite_calls_fit:
  assumes "harness_sound (th s)" "contexts_sound s"
  shows "list_all (call_fits s) (suite_calls s)"
proof -
  have h: "list_all (call_fits s) (hook_call [] x)" if "hook_sound x" for x
    using that takes_T_fits by (auto simp: hook_call_def hook_sound_def call_fits_def split: option.splits)
  have a: "list_all (call_fits s) (hook_call (if HasReturningBeforeEach s then [ArgCtx] else []) (ThAfterEach (th s)))"
  proof (cases "ThAfterEach (th s)")
    case (Some m)
    then have "takes_T m" "context_sound s m" using assms by (auto simp: harness_sound_def contexts_sound_def)
    from takes_T_context_fits[OF this] show ?thesis by (simp add: Some hook_call_def call_fits_def)
  qed (simp add: hook_call_def)
  have "list_all (call_fits s) (suiteWrapper s)"
    using h a assms(1) by (simp add: suiteWrapper_def harness_sound_def)
  moreover have "list_all (call_fits s) (suiteMethods s)"
    unfolding suiteMethods_def list.pred_map
  proof (rule list.pred_mono_strong[of "\<lambda>m. takes_T m \<and> context_sound s m"])
    show "list_all (\<lambda>m. takes_T m \<and> context_sound s m) (TestCases (th s))"
      using assms by (simp add: harness_sound_def contexts_sound_def list_all_iff)
    show "(call_fits s \<circ> (\<lambda>tc. if usesStdlibT tc \<or> HasReturningBeforeEach s
        then \<lparr>callee = tc, call_args = t_arg tc # (if HasReturningBeforeEach s then [ArgCtx] else [])\<rparr>
        else \<lparr>callee = tc, call_args = [ArgT]\<rparr>)) m" if "takes_T m \<and> context_sound s m" for m
      using takes_T_context_fits[of m s] that by (simp add: call_fits_def t_arg_def split: if_splits)
  qed
  moreover have "list_all (call_fits s) (benchMethods s)"
    unfolding benchMethods_def list.pred_map
  proof (rule list.pred_mono_strong[of "\<lambda>m. detectParamB (m_sig m) = Some (usesStdlibT m)"])
    show "list_all (\<lambda>m. detectParamB (m_sig m) = Some (usesStdlibT m)) (SuiteBenchmarks (th s))"
      using assms(1) by (simp add: harness_sound_def)
  qed (unfold comp_apply call_fits_def gen_call.simps, rule takes_B_fits)
  moreover have "list_all (call_fits s) (fuzzMethods s)"
    unfolding fuzzMethods_def list.pred_map
  proof (rule list.pred_mono_strong[of "\<lambda>m. detectParamF (m_sig m)"])
    show "list_all (\<lambda>m. detectParamF (m_sig m)) (SuiteFuzzers (th s))"
      using assms(1) by (simp add: harness_sound_def)
  qed (unfold comp_apply call_fits_def gen_call.simps, rule takes_F_fits)
  ultimately show ?thesis by (simp add: suite_calls_def)
qed

subsection \<open>From the sources to the wrappers\<close>

lemma collected_suite:
  assumes "collect_suites L K sds = Inr ts" "s \<in> set ts"
  shows "harness_sound (th s)" "ValidateContextConsistency s = None" "ValidateDeclaresCase s = None"
proof -
  from assms(1) have e: "concat (map snd (map (collect_suite L K) sds)) = []"
    and ts: "ts = map fst (map (collect_suite L K) sds)"
    and n: "List.map_filter ValidateDeclaresCase ts = []" "List.map_filter ValidateContextConsistency ts = []"
    by (auto simp: collect_suites_def Let_def split: if_splits)
  from assms(2) ts obtain s0 ds where d: "(s0, ds) \<in> set sds" "s = fst (collect_suite L K (s0, ds))" by auto
  with e have "snd (collect_suite L K (s0, ds)) = []" by auto
  then show "harness_sound (th s)"
    using d(2) collected_sound by (auto simp: collect_suite_def split: prod.splits)
  show "ValidateContextConsistency s = None" "ValidateDeclaresCase s = None"
    using n assms(2) by (auto simp: map_filter_Nil)
qed

lemma collected_package:
  assumes "CollectSuiteSpecs L K P = Inr (ts, fixtures)"
  obtains sds where "collect_suites L K sds = Inr ts"
  using assms unfolding CollectSuiteSpecs_def Let_def by (auto split: if_splits sum.splits)

text \<open>A suite with fewer of its methods is as sound.\<close>

definition part_of :: "TestSuiteSpec \<Rightarrow> TestSuiteSpec \<Rightarrow> bool" where
  "part_of s s0 \<longleftrightarrow> (\<exists>ts bs fs. set ts \<subseteq> set (TestCases (th s0)) \<and> set bs \<subseteq> set (SuiteBenchmarks (th s0)) \<and>
     set fs \<subseteq> set (SuiteFuzzers (th s0)) \<and>
     s = s0\<lparr>th := (th s0)\<lparr>TestCases := ts, SuiteBenchmarks := bs, SuiteFuzzers := fs\<rparr>\<rparr>)"

lemma reduced_part:
  assumes "r \<in> set (fst (ReduceInRun focusRun ts))"
  shows "\<exists>s0 \<in> set ts. part_of (fst r) s0"
proof -
  obtain s0 where s0: "s0 \<in> set ts" "kept_part focusRun r s0"
    using assms reduce_suite_kept by (auto simp: ReduceInRun_filter)
  then have "part_of (fst r) s0"
    unfolding part_of_def kept_part_def by (intro exI conjI) (auto)
  with s0(1) show ?thesis by blast
qed

lemma part_sound:
  assumes "part_of s s0" "harness_sound (th s0)" "ValidateContextConsistency s0 = None"
  shows "harness_sound (th s)" "contexts_sound s" "nil_T_safe s" "TestCases (th s) \<noteq> [] \<Longrightarrow> ts_exported s"
    "ConfigParallel (th s) \<and> ThBeforeEach (th s) \<noteq> None \<Longrightarrow> HasReturningBeforeEach s"
proof -
  from assms(1) obtain ts bs fs where p: "set ts \<subseteq> set (TestCases (th s0))" "set bs \<subseteq> set (SuiteBenchmarks (th s0))"
    "set fs \<subseteq> set (SuiteFuzzers (th s0))"
    and s: "s = s0\<lparr>th := (th s0)\<lparr>TestCases := ts, SuiteBenchmarks := bs, SuiteFuzzers := fs\<rparr>\<rparr>"
    by (auto simp: part_of_def)
  note v = valid_contexts[OF assms(3)]
  note w = wrapper_rules_safe[OF v(2)]
  have r: "HasReturningBeforeEach s = HasReturningBeforeEach s0" by (simp add: s HasReturningBeforeEach_def)
  have c: "context_sound s m = context_sound s0 m" for m
    unfolding context_sound_def r by (simp add: arg_fits_def s split: option.splits)
  have a: "ThAfterEach (th s) = ThAfterEach (th s0)" and t: "TestCases (th s) = ts" by (simp_all add: s)
  show "harness_sound (th s)" using harness_sound_less[OF assms(2) p] by (simp add: s)
  show "contexts_sound s"
    using v(1) p(1) a t unfolding contexts_sound_def c list_all_iff a t by auto
  have h: "stdlib_hook (th s) = stdlib_hook (th s0)" by (simp add: s stdlib_hook_def)
  show "nil_T_safe s"
    using w(1) p unfolding nil_T_safe_def r h by (auto simp: s)
  show "TestCases (th s) \<noteq> [] \<Longrightarrow> ts_exported s"
    using w(2) p(1) by (cases "TestCases (th s0) = []") (simp_all add: s)
  show "ConfigParallel (th s) \<and> ThBeforeEach (th s) \<noteq> None \<Longrightarrow> HasReturningBeforeEach s"
    using v(3) r by (simp add: s)
qed


definition param :: "string \<Rightarrow> ptype" where
  "param text = \<lparr>TypeText = text, PointsTo = None, PointsToUnaliased = None, IsPointer = True, isDoneFunc = False\<rparr>"

definition gotest_param :: "string \<Rightarrow> ptype" where
  "gotest_param c = (param (''*github.com/mvrahden/go-test/pkg/gotest.'' @ c))
     \<lparr>PointsTo := Some (c, Some gotest_pkg)\<rparr>"

definition decl :: "string \<Rightarrow> ptype list \<Rightarrow> ptype list \<Rightarrow> func_decl" where
  "decl name ps rs = \<lparr>d_name = name, d_exported = True, d_recv = PointerReceiver ''db.UserTestSuite'',
     d_sig = \<lparr>Params = ps, Results = rs\<rparr>, d_first_T = None, d_config = []\<rparr>"

text \<open>A package of one suite, whose \<open>BeforeEach\<close> returns a context, with a focused test.\<close>

definition user_decls :: "func_decl list" where
  "user_decls = [decl ''BeforeAll'' [param ''*testing.T''] [],
     decl ''BeforeEach'' [gotest_param ''T''] [param ''*db.state''],
     decl ''AfterEach'' [gotest_param ''T'', param ''*db.state''] [],
     decl ''F_TestCreate'' [gotest_param ''T'', param ''*db.state''] [],
     decl ''TestDelete'' [param ''*testing.T'', param ''*db.state''] []]"

definition user_package :: go_package where
  "user_package = \<lparr>p_name = ''db'',
     p_decls = [[\<lparr>t_name = ''UserTestSuite'', t_exported = True, t_generic = False, t_alias = False,
       t_raw = RawStruct [], t_struct = True, t_testify = False, t_key = ''db.UserTestSuite'', t_raw_key = [],
       t_test_file = True\<rparr>]],
     p_scope = [], p_funcs = user_decls, p_methods_of = (\<lambda>s. user_decls), p_reached = (\<lambda>n. False),
     p_fixture_ok = (\<lambda>b d. True), p_fixture_recv = (\<lambda>d. None)\<rparr>"

definition ascii :: stdlib where
  "ascii = \<lparr>parse_float = (\<lambda>_. None), float_int64 = (\<lambda>_. 0), float_seconds = (\<lambda>_. 0),
     rune_is_lower = (\<lambda>r. 97 \<le> r \<and> r \<le> 122)\<rparr>"

definition user_collected :: TestSuiteSpec where
  "user_collected = fst (collect_suite ascii (\<lambda>e. None)
     (spec_of ''db'' (hd (hd (p_decls user_package))), user_decls))"

lemma user_suite_found:
  "map (DetermineTestSuite ascii ''db'') (p_decls user_package) =
     [Inr (Some (spec_of ''db'' (hd (hd (p_decls user_package))), []))]"
  by code_simp

lemma user_no_fixture:
  "map (DetermineFixtureOf f) (p_decls user_package) = [Inr None]"
  by (simp add: DetermineFixtureOf_def user_package_def hasSuffix_def hasPrefix_def SuffixFixture_def)

lemma user_harness:
  "collect_suites ascii (\<lambda>e. None) [(spec_of ''db'' (hd (hd (p_decls user_package))), user_decls)] =
     Inr [user_collected]"
  by code_simp

lemma user_fields:
  "p_name user_package = ''db''" "p_scope user_package = []" "p_methods_of user_package = (\<lambda>s. user_decls)"
  by (simp_all add: user_package_def)

lemma user_accepted: "CollectSuiteSpecs ascii (\<lambda>e. None) user_package = Inr ([user_collected], [])"
  unfolding CollectSuiteSpecs_def Let_def user_fields user_suite_found user_no_fixture
  by (simp add: user_harness PredeclaredClash_def validateFields_def List.map_filter_def)

definition user_reduced :: TestSuiteSpec where
  "user_reduced = fst (hd (fst (ReduceInRun True [user_collected])))"


text \<open>
  A suite that declares tests has its function in the generated file, whether it runs or only skips.
\<close>

lemma every_suite_reported:
  assumes "s \<in> set ts" "DeclaresTests (th s)"
  shows "\<exists>f \<in> set (generated_funcs (map fst (fst (ReduceInRun focusRun ts))) (snd (ReduceInRun focusRun ts))).
    f = RunsSuite (''Test'' @ ts_name s) \<or> f = SkipsSuite (''Test'' @ ts_name s)"
proof (cases "suite_runs focusRun s")
  case True
  let ?r = "fst (reduce_suite focusRun s)"
  have e: "?r \<in> set (map fst (fst (ReduceInRun focusRun ts)))"
    using assms(1) True by (auto simp: ReduceInRun_filter)
  have n: "ts_name ?r = ts_name s" "DeclaresTests (th ?r)"
    using reduce_suite_kept[of focusRun s] assms(2) by (auto simp: kept_part_def)
  obtain f where f: "f \<in> set (test_funcs ?r)" "f = RunsSuite (''Test'' @ ts_name s) \<or> f = SkipsSuite (''Test'' @ ts_name s)"
    by (cases "TestCases (th ?r) = []") (simp_all add: test_funcs_def n)
  have "f \<in> set (concat (map test_funcs es))" if "?r \<in> set es" for es using f(1) that by auto
  from this[OF e]
  have "f \<in> set (generated_funcs (map fst (fst (ReduceInRun focusRun ts))) (snd (ReduceInRun focusRun ts)))"
    unfolding generated_funcs_def set_append by (rule UnI1)
  with f(2) show ?thesis by blast
next
  case False
  then have "s \<in># mset (snd (ReduceInRun focusRun ts))" using assms(1) unfolding ReduceInRun_filter(2) by simp
  then show ?thesis unfolding generated_funcs_def excludedSuite_def by force
qed

end
