(* ===== verification/SuiteConfigProps.thy ===== *)
theory SuiteConfigProps
  imports SuiteConfigBody
begin

text \<open>
  Properties of theory \<open>SuiteConfigBody\<close>: a \<open>SuiteConfig\<close> body the generator accepts gives, when it runs, what
  was read off it.
\<close>

text \<open>
  Running an accepted body: what the program gives for an expression (\<open>true\<close> as a value, a string, the
  rest of a literal or another field), and what evaluating it does to the variable configured.
\<close>

record go_values =
  bool_of :: "cexpr \<Rightarrow> bool"
  string_of :: "cexpr \<Rightarrow> string"
  other_field :: "string \<Rightarrow> cexpr \<Rightarrow> SuiteConfig \<Rightarrow> SuiteConfig"
  effect_on :: "cexpr \<Rightarrow> SuiteConfig \<Rightarrow> SuiteConfig"

definition zero_config :: SuiteConfig where
  "zero_config = \<lparr>STimeout = 0, SSetupTimeout = 0, FailFast = False, Parallel = False, Exclusive = False,
     ExclusiveGroup = []\<rparr>"

definition set_field :: "go_values \<Rightarrow> string \<Rightarrow> cexpr \<Rightarrow> SuiteConfig \<Rightarrow> SuiteConfig" where
  "set_field R field e c =
     (if field = ''Parallel'' then c\<lparr>Parallel := bool_of R e\<rparr>
      else if field = ''Exclusive'' then c\<lparr>Exclusive := bool_of R e\<rparr>
      else if field = ''ExclusiveGroup'' then c\<lparr>ExclusiveGroup := string_of R e\<rparr>
      else other_field R field e c)"

fun eval_element :: "go_values \<Rightarrow> celt \<Rightarrow> SuiteConfig \<Rightarrow> SuiteConfig" where
  "eval_element R (Keyed (CIdent n) e) c = set_field R n e c"
| "eval_element R _ c = c"

fun eval_base :: "go_values \<Rightarrow> cexpr \<Rightarrow> SuiteConfig option" where
  "eval_base R (CLiteral elts) = Some (fold (eval_element R) elts zero_config)"
| "eval_base R (CCall (Some (name, pkg)) args) =
     (if pkg = Some gotest_pkg \<and> name = ''DefaultSuiteConfig'' then Some DefaultSuiteConfig
      else if pkg = Some gotest_pkg \<and> name = ''IntegrationSuiteConfig'' then Some IntegrationSuiteConfig
      else None)"
| "eval_base R _ = None"

fun run_rest :: "go_values \<Rightarrow> string \<Rightarrow> SuiteConfig \<Rightarrow> cstmt list \<Rightarrow> SuiteConfig option" where
  "run_rest R x c [CReturn [CIdent y]] = (if y = x then Some c else None)"
| "run_rest R x c (CAssign [CSelector (CIdent y) field] [e] # s # ss) =
     (if y = x then run_rest R x (set_field R field e (effect_on R e c)) (s # ss) else None)"
| "run_rest R x c _ = None"

fun run_config :: "go_values \<Rightarrow> cstmt list \<Rightarrow> SuiteConfig option" where
  "run_config R [CReturn [e]] = eval_base R e"
| "run_config R (CDefine [CIdent x] [e] # ss) =
     (case eval_base R e of None \<Rightarrow> None | Some c \<Rightarrow> run_rest R x c ss)"
| "run_config R _ = None"

text \<open>
  What the generator relies on: \<open>true\<close> and \<open>false\<close> mean Go's (a package that declares them is refused),
  the type checker's constants are the program's values, a field is a field of its own, and evaluating
  what is assigned leaves the variable alone.
\<close>

definition plain_values :: "go_values \<Rightarrow> constants \<Rightarrow> bool" where
  "plain_values R K \<longleftrightarrow> bool_of R (CIdent ''true'') \<and> \<not> bool_of R (CIdent ''false'') \<and>
     (\<forall>e s. K e = Some s \<longrightarrow> string_of R e = s) \<and>
     (\<forall>f e c. Parallel (other_field R f e c) = Parallel c \<and> Exclusive (other_field R f e c) = Exclusive c \<and>
        ExclusiveGroup (other_field R f e c) = ExclusiveGroup c) \<and>
     (\<forall>e c. effect_on R e c = c)"

definition same_static :: "SuiteConfig \<Rightarrow> staticSuiteConfig \<Rightarrow> bool" where
  "same_static c k \<longleftrightarrow> Parallel c = StParallel k \<and> Exclusive c = StExclusive k \<and> ExclusiveGroup c = StGroup k"

lemma set_field_static:
  assumes "plain_values R K" "checkStaticValue K field e = None" "same_static c k"
  shows "same_static (set_field R field e c) (set_static K field e k)"
  using assms
  by (auto simp: plain_values_def checkStaticValue_def same_static_def set_field_def set_static_def boolLiteral_def
      split: if_splits cexpr.splits option.splits)

abbreviation static_element :: "constants \<Rightarrow> cexpr \<times> cexpr \<Rightarrow> staticSuiteConfig \<Rightarrow> staticSuiteConfig" where
  "static_element K \<equiv> (\<lambda>(key, value) c. case key of CIdent n \<Rightarrow> set_static K n value c | _ \<Rightarrow> c)"

lemma elements_static:
  assumes "plain_values R K"
  shows "read_elements K elts = Inr fs \<Longrightarrow> same_static c k \<Longrightarrow>
    same_static (fold (eval_element R) elts c) (fold (static_element K) fs k)"
proof (induction elts arbitrary: fs c k)
  case (Cons x elts)
  show ?case
  proof (cases x)
    case (Keyed key v)
    then obtain gs where gs: "read_elements K elts = Inr gs" "fs = (key, v) # gs"
      and n: "(case key of CIdent n \<Rightarrow> checkStaticValue K n v | _ \<Rightarrow> None) = None"
      using Cons.prems(1) by (cases "read_elements K elts") (auto split: option.splits)
    have "same_static (eval_element R x c) (static_element K (key, v) k)"
      using Cons.prems(2) set_field_static[OF assms _ Cons.prems(2)] n by (cases key) (auto simp: Keyed)
    from Cons.IH[OF gs(1) this] show ?thesis by (simp add: gs(2))
  qed (use Cons.prems in simp)
qed simp

lemma base_static:
  assumes "plain_values R K" "readBase K e = Inr fs"
  shows "\<exists>c. eval_base R e = Some c \<and>
    same_static c (fold (static_element K) fs \<lparr>StParallel = False, StExclusive = False, StGroup = []\<rparr>)"
proof (cases e)
  case (CLiteral elts)
  have z: "same_static zero_config \<lparr>StParallel = False, StExclusive = False, StGroup = []\<rparr>"
    by (simp add: same_static_def zero_config_def)
  show ?thesis using assms(2) elements_static[OF assms(1) _ z] by (auto simp: CLiteral readBase_def)
next
  case (CCall f args)
  then show ?thesis using assms(2)
    by (auto simp: readBase_def isKnownSuitePreset_def same_static_def DefaultSuiteConfig_def
        IntegrationSuiteConfig_def split: option.splits if_splits)
qed (use assms(2) in \<open>simp_all add: readBase_def\<close>)

lemma assigns_static:
  assumes "plain_values R K"
  shows "read_assigns K x ss = Inr bs \<Longrightarrow> same_static c k \<Longrightarrow>
    \<exists>r. run_rest R x c (ss @ [CReturn [CIdent x]]) = Some r \<and>
      same_static r (fold (\<lambda>(field, value). set_static K field value) bs k)"
  using assms
proof (induction K x ss arbitrary: bs c k rule: read_assigns.induct)
  case (2 K x y field e ss)
  then obtain ds where b: "read_assigns K x ss = Inr ds" "bs = (field, e) # ds" "y = x"
    and v: "checkStaticValue K field e = None"
    by (cases "read_assigns K x ss") (auto split: if_splits option.splits)
  have e: "effect_on R e c = c" using 2(4) by (simp add: plain_values_def)
  have s: "same_static (set_field R field e c) (set_static K field e k)"
    by (rule set_field_static[OF 2(4) v 2(3)])
  have "\<exists>r. run_rest R x (set_field R field e c) (ss @ [CReturn [CIdent x]]) = Some r \<and>
      same_static r (fold (\<lambda>(field, value). set_static K field value) ds (set_static K field e k))"
    by (rule "2.IH"[OF _ v b(1) s 2(4)]) (simp add: b(3))
  then show ?case by (cases ss) (simp_all add: b e)
qed auto

lemma map_sum_Inr: "map_sum id f s = Inr y \<longleftrightarrow> (\<exists>x. s = Inr x \<and> y = f x)"
  by (cases s) auto

lemma parsed_body:
  assumes "ParseSuiteConfigBody K stmts = Inr b"
  obtains (returned) "stmts = [CReturn [Base b]]" "readBase K (Base b) = Inr (Fields b)" "Assigns b = []"
  | (composed) x ss where "stmts = CDefine [CIdent x] [Base b] # ss @ [CReturn [CIdent x]]"
      "readBase K (Base b) = Inr (Fields b)" "read_assigns K x ss = Inr (Assigns b)"
proof (cases stmts)
  case (Cons s rest)
  show ?thesis
  proof (cases "rest = []")
    case True
    with assms show ?thesis
      by (auto simp: ParseSuiteConfigBody_def Cons map_sum_Inr split: cstmt.splits list.splits intro!: returned)
  next
    case False
    then obtain r rs where r: "rest = r # rs" by (cases rest) auto
    from assms obtain x e where s: "s = CDefine [CIdent x] [e]"
      by (auto simp: ParseSuiteConfigBody_def Cons r split: cstmt.splits list.splits cexpr.splits)
    from assms have l: "last rest = CReturn [CIdent x]" and e: "e = Base b"
      and f: "readBase K e = Inr (Fields b)" and a: "read_assigns K x (butlast rest) = Inr (Assigns b)"
      by (auto simp: ParseSuiteConfigBody_def Cons r s map_sum_Inr split: sum.splits if_splits)
    show ?thesis
      by (rule composed[of x "butlast rest"])
        (use False l e f a in \<open>simp_all add: Cons s flip: l\<close>)
  qed
qed (use assms in \<open>simp add: ParseSuiteConfigBody_def\<close>)


definition plain_run :: go_values where
  "plain_run = \<lparr>bool_of = (\<lambda>e. e = CIdent ''true''), string_of = (\<lambda>e. ''db''), other_field = (\<lambda>f e c. c),
     effect_on = (\<lambda>e c. c)\<rparr>"

definition db_constants :: constants where
  "db_constants e = (if e = CIdent ''dbGroup'' then Some ''db'' else None)"

definition composed_body :: "cstmt list" where
  "composed_body =
     [CDefine [CIdent ''cfg''] [CCall (Some (''IntegrationSuiteConfig'', Some gotest_pkg)) []],
      CAssign [CSelector (CIdent ''cfg'') ''Exclusive''] [CIdent ''true''],
      CAssign [CSelector (CIdent ''cfg'') ''ExclusiveGroup''] [CIdent ''dbGroup''],
      CAssign [CSelector (CIdent ''cfg'') ''Timeout''] [Opaque 0],
      CReturn [CIdent ''cfg'']]"

lemma composed_static:
  "parseSuiteConfigAST db_constants composed_body = Inr \<lparr>StParallel = False, StExclusive = True, StGroup = ''db''\<rparr>"
  by code_simp


text \<open>
  Values that touch the variable are the limit of that reading: a call given its address may set the
  fields the generator has read.
\<close>

definition tuning :: go_values where
  "tuning = plain_run\<lparr>effect_on := (\<lambda>e c. if e = Opaque 0 then c\<lparr>Exclusive := False, Parallel := True\<rparr> else c)\<rparr>"

lemma tuned_config_misread:
  "map_option (\<lambda>c. (Parallel c, Exclusive c)) (run_config tuning composed_body) = Some (True, False) \<and>
   parseSuiteConfigAST db_constants composed_body = Inr \<lparr>StParallel = False, StExclusive = True, StGroup = ''db''\<rparr>"
  by (simp add: composed_static) (simp add: composed_body_def tuning_def plain_run_def set_field_def)

end
