(* ===== verification/HookNamesProps.thy ===== *)
theory HookNamesProps
  imports SuiteNames
begin

text \<open>
  Properties of the hook names of theory \<open>SuiteNames\<close>: the two-row edit distance is the least number of
  single typing errors, and the warnings are given for exactly the names within two of a hook.
\<close>

text \<open>The distance the rows hold, by recursion on the names, each read from its end.\<close>

fun dist :: "string \<Rightarrow> string \<Rightarrow> nat" where
  "dist [] b = length b"
| "dist (x # a) [] = Suc (length a)"
| "dist (x # a) (y # b) =
     min (dist (x # a) b + 1) (min (dist a (y # b) + 1) (dist a b + (if x = y then 0 else 1)))"

definition dist_row :: "string \<Rightarrow> string \<Rightarrow> nat list" where
  "dist_row r b = map (\<lambda>k. dist r (rev (take k b))) [0..<Suc (length b)]"

lemma dist_Nil2 [simp]: "dist a [] = length a"
  by (cases a) auto

lemma cells_dist:
  "next_cells x ys (map (\<lambda>k. dist r (rev (take k ys) @ p)) [0..<Suc (length ys)]) (dist (x # r) p) =
     map (\<lambda>k. dist (x # r) (rev (take (Suc k) ys) @ p)) [0..<length ys]"
proof (induction ys arbitrary: p)
  case (Cons y ys)
  have e: "map (\<lambda>k. dist r (rev (take k (y # ys)) @ p)) [0..<Suc (length (y # ys))] =
      dist r p # map (\<lambda>k. dist r (rev (take k ys) @ (y # p))) [0..<Suc (length ys)]"
    by (simp only: upt_conv_Cons map_Suc_upt[symmetric] length_Cons) (simp del: upt_Suc)
  have f: "map (\<lambda>k. dist r (rev (take k ys) @ (y # p))) [0..<Suc (length ys)] =
      dist r (y # p) # map (\<lambda>k. dist r (rev (take (Suc k) ys) @ (y # p))) [0..<length ys]"
    by (simp only: upt_conv_Cons map_Suc_upt[symmetric]) (simp del: upt_Suc)
  have g: "map (\<lambda>k. dist (x # r) (rev (take (Suc k) (y # ys)) @ p)) [0..<length (y # ys)] =
      dist (x # r) (y # p) # map (\<lambda>k. dist (x # r) (rev (take (Suc k) ys) @ (y # p))) [0..<length ys]"
    by (simp only: upt_conv_Cons map_Suc_upt[symmetric] length_Cons) (simp del: upt_Suc)
  show ?case
    unfolding e g using Cons.IH[of "y # p"] unfolding f by (simp add: Let_def)
qed simp

lemma row_next: "next_row (Suc (length r)) x b (dist_row r b) = dist_row (x # r) b"
proof -
  have "dist_row (x # r) b = dist (x # r) [] # map (\<lambda>k. dist (x # r) (rev (take (Suc k) b))) [0..<length b]"
    unfolding dist_row_def by (simp only: upt_conv_Cons map_Suc_upt[symmetric]) (simp del: upt_Suc)
  then show ?thesis
    using cells_dist[of x b r "[]"] by (simp add: next_row_def dist_row_def)
qed

lemma rows_dist: "rows (Suc (length r)) a b (dist_row r b) = dist_row (rev a @ r) b"
proof (induction a arbitrary: r)
  case (Cons x a)
  then show ?case using Cons.IH[of "x # r"] by (simp add: row_next)
qed simp

lemma levenshtein_dist: "levenshtein a b = dist (rev a) (rev b)"
proof -
  have "[0..<length b + 1] = dist_row [] b"
    unfolding dist_row_def by (rule nth_equalityI) (auto simp del: upt_Suc)
  then have "rows 1 a b [0..<length b + 1] = dist_row (rev a) b"
    using rows_dist[of "[]" a b] by simp
  then show ?thesis
    by (cases a; cases b) (simp_all add: levenshtein_def dist_row_def del: upt_Suc)
qed

text \<open>Typing errors: one character inserted, left out or replaced.\<close>

inductive one_edit :: "string \<Rightarrow> string \<Rightarrow> bool" where
  inserted: "one_edit (u @ v) (u @ c # v)"
| left_out: "one_edit (u @ c # v) (u @ v)"
| replaced: "one_edit (u @ c # v) (u @ d # v)"

lemma one_edit_Cons: "one_edit a b \<Longrightarrow> one_edit (x # a) (x # b)"
  by (induction rule: one_edit.induct) (metis append_Cons one_edit.intros)+

lemma one_edit_rev: "one_edit a b \<Longrightarrow> one_edit (rev a) (rev b)"
  by (induction rule: one_edit.induct) (simp_all add: one_edit.intros)

lemma relpow_image:
  "(\<And>a b. R a b \<Longrightarrow> S (f a) (f b)) \<Longrightarrow> (R ^^ n) a b \<Longrightarrow> (S ^^ n) (f a) (f b)"
  by (induction n arbitrary: b) (auto intro!: relcomppI)

lemma dist_insert: "dist a (y # b) \<le> Suc (dist a b)"
  by (cases a) auto

lemma dist_leave: "dist (x # a) b \<le> Suc (dist a b)"
  by (cases b) auto

lemma dist_left: "dist a b \<le> Suc (dist (x # a) b)"
proof (induction b)
  case (Cons y b)
  then show ?case using dist_insert[of a y b] by auto
qed simp

lemma dist_replace: "dist (c # a) b \<le> Suc (dist (d # a) b)"
  by (induction b) auto

lemma dist_Cons:
  assumes "\<And>b. dist a b \<le> Suc (dist a' b)"
  shows "dist (x # a) b \<le> Suc (dist (x # a') b)"
proof (induction b)
  case Nil
  show ?case using assms[of "[]"] by simp
next
  case (Cons y b)
  then show ?case using assms[of b] assms[of "y # b"] by (auto simp: min_le_iff_disj)
qed

lemma dist_append:
  assumes "\<And>b. dist a b \<le> Suc (dist a' b)"
  shows "dist (u @ a) b \<le> Suc (dist (u @ a') b)"
  by (induction u arbitrary: b) (use assms dist_Cons in auto)

lemma one_edit_dist: "one_edit a a' \<Longrightarrow> dist a b \<le> Suc (dist a' b)"
  by (induction rule: one_edit.induct) (rule dist_append, use dist_leave dist_left dist_replace in blast)+

lemma edits_dist: "(one_edit ^^ n) a b \<Longrightarrow> dist a b \<le> n"
proof (induction n arbitrary: a)
  case 0
  have "dist a a = 0" for a by (induction a) auto
  then show ?case using 0 by simp
next
  case (Suc n)
  then obtain c where "one_edit a c" "(one_edit ^^ n) c b" by (meson relpowp_Suc_E2)
  then show ?case using Suc.IH one_edit_dist by (meson Suc_le_mono le_trans)
qed

lemma leave_first: "(one_edit ^^ n) a b \<Longrightarrow> (one_edit ^^ Suc n) (x # a) b"
  using one_edit.left_out[of "[]" x a] by (metis append_Nil relpowp_Suc_I2)

lemma dist_edits: "(one_edit ^^ dist a b) a b"
proof (induction a b rule: dist.induct)
  case (1 b)
  show ?case
  proof (induction b)
    case (Cons y b)
    then show ?case using one_edit.inserted[of "[]" b y] by auto
  qed simp
next
  case (2 x a)
  have "(one_edit ^^ length a) a []"
  proof (induction a)
    case (Cons z a)
    then show ?case using leave_first by simp
  qed simp
  then show ?case using leave_first by simp
next
  case (3 x a y b)
  have i: "(one_edit ^^ Suc (dist (x # a) b)) (x # a) (y # b)"
    using "3.IH"(1) one_edit.inserted[of "[]" b y] by auto
  have d: "(one_edit ^^ Suc (dist a (y # b))) (x # a) (y # b)"
    using "3.IH"(2) by (rule leave_first)
  have s: "(one_edit ^^ dist a b) (x # a) (x # b)"
    using relpow_image[of one_edit one_edit "Cons x"] "3.IH"(3) one_edit_Cons by blast
  have r: "(one_edit ^^ (dist a b + (if x = y then 0 else 1))) (x # a) (y # b)"
    using s one_edit.replaced[of "[]" x b y] by (auto intro: relcomppI)
  show ?case using i d r by (simp add: min_def)
qed

text \<open>
  The two-row distance is the least number of typing errors between the names, and a method is reported
  as a misspelled hook exactly when at most two of them make it one.
\<close>

lemma levenshtein_least:
  "(one_edit ^^ levenshtein a b) a b \<and> ((one_edit ^^ n) a b \<longrightarrow> levenshtein a b \<le> n)"
proof
  show "(one_edit ^^ levenshtein a b) a b"
    using relpow_image[of one_edit one_edit rev, OF one_edit_rev dist_edits[of "rev a" "rev b"]]
    by (simp add: levenshtein_dist)
  show "(one_edit ^^ n) a b \<longrightarrow> levenshtein a b \<le> n"
    using relpow_image[of one_edit one_edit rev n a b, OF one_edit_rev] edits_dist
    by (auto simp: levenshtein_dist)
qed

lemma levenshtein_within: "levenshtein a b \<le> k \<longleftrightarrow> (\<exists>n \<le> k. (one_edit ^^ n) a b)"
  using levenshtein_least[of a b] levenshtein_least le_trans by blast

text \<open>C40. A method whose name, its marker taken off, is a hook is reported exactly when it is marked \<open>X_\<close>; one
  that is no hook and no test is reported as the first hook that at most two typing errors (a character
  inserted, left out or replaced) make of it, and not at all when there is none.\<close>

theorem hook_typos_found:
  "(hookWarning L recv name = Some (XLifecycle recv name) \<longleftrightarrow>
      unmarked name \<in> set LifecycleHooks \<and> hasPrefix name PrefixExcluded) \<and>
   (hookWarning L recv name = Some (LifecycleTypo recv name hook) \<longleftrightarrow>
      unmarked name \<notin> set LifecycleHooks \<and>
      \<not> (hasPrefix (unmarked name) ''Test'' \<and> IsGoTestName L (unmarked name)) \<and>
      List.find (\<lambda>h. \<exists>n \<le> 2. (one_edit ^^ n) (unmarked name) h) LifecycleHooks = Some hook)"
  by (auto simp: hookWarning_def Let_def MisspelledHook_def levenshtein_within)

lemma typo_examples:
  "hookWarning L ''FooTestSuite'' ''AfterEahc'' = Some (LifecycleTypo ''FooTestSuite'' ''AfterEahc'' ''AfterEach'')"
  "hookWarning L ''FooTestSuite'' ''X_BeforeAll'' = Some (XLifecycle ''FooTestSuite'' ''X_BeforeAll'')"
  by code_simp+

end
